(* ===== verification/Prelude.thy ===== *)
theory Prelude
  imports Complex_Main "HOL-Library.AList" "HOL-Library.Multiset"
begin

text \<open>
  Shared vocabulary of the development: Python's exceptions as values, the error monad the
  models are written in, insertion-ordered dictionaries and the list operations of Python
  the sources use, with the lemmas every component rests on.
\<close>

section \<open>Exceptions as values\<close>

text \<open>
  One constructor per exception class the sources raise or can provoke. A failing call of
  the model is \<open>Inl e\<close>, a returning one \<open>Inr v\<close>.
\<close>

datatype py_error =
    KeyError
  | IndexError
  | ValueError
  | TypeError
  | AttributeError
  | UnboundLocalError
  | ZeroDivisionError
  | RuntimeError
  | PlainException
  | NotImplementedError
  | IntegrityError
  | OSError

type_synonym 'a pyres = "py_error + 'a"

named_theorems pyres_simps "evaluation rules of the error monad"
named_theorems dict_simps "evaluation rules of insertion-ordered dictionaries"

definition bindE :: "'a pyres \<Rightarrow> ('a \<Rightarrow> 'b pyres) \<Rightarrow> 'b pyres" where
  "bindE m f = (case m of Inl e \<Rightarrow> Inl e | Inr x \<Rightarrow> f x)"

lemma bindE_simps [simp, pyres_simps]:
  "bindE (Inl e) f = Inl e"
  "bindE (Inr x) f = f x"
  by (simp_all add: bindE_def)

lemma bindE_eq_Inr [simp]: "bindE r g = Inr b \<longleftrightarrow> (\<exists>a. r = Inr a \<and> g a = Inr b)"
  by (cases r) simp_all

lemma bindE_eq_Inl: "bindE m f = Inl e \<longleftrightarrow> m = Inl e \<or> (\<exists>x. m = Inr x \<and> f x = Inl e)"
  by (simp add: bindE_def split: sum.split)

lemma bindE_assoc: "bindE (bindE m f) g = bindE m (\<lambda>x. bindE (f x) g)"
  by (simp add: bindE_def split: sum.split)

lemma bindE_if: "bindE (if b then x else y) f = (if b then bindE x f else bindE y f)"
  by simp

lemma bindE_cong [fundef_cong]:
  "m = m' \<Longrightarrow> (\<And>x. m' = Inr x \<Longrightarrow> f x = f' x) \<Longrightarrow> bindE m f = bindE m' f'"
  by (simp add: bindE_def split: sum.split)

lemma bindE_split: "P (bindE m f) \<longleftrightarrow> (\<forall>e. m = Inl e \<longrightarrow> P (Inl e)) \<and> (\<forall>x. m = Inr x \<longrightarrow> P (f x))"
  by (cases m) simp_all

text \<open>A \<open>for\<close> loop whose body may raise: the state of the loop is threaded, the first
  exception ends it.\<close>

fun foldE :: "('a \<Rightarrow> 's \<Rightarrow> 's pyres) \<Rightarrow> 'a list \<Rightarrow> 's \<Rightarrow> 's pyres" where
  "foldE f [] s = Inr s"
| "foldE f (x # xs) s = bindE (f x s) (foldE f xs)"

fun mapE :: "('a \<Rightarrow> 'b pyres) \<Rightarrow> 'a list \<Rightarrow> 'b list pyres" where
  "mapE f [] = Inr []"
| "mapE f (x # xs) = bindE (f x) (\<lambda>y. bindE (mapE f xs) (\<lambda>ys. Inr (y # ys)))"

lemma foldE_append: "foldE f (xs @ ys) s = bindE (foldE f xs s) (foldE f ys)"
  by (induction xs arbitrary: s) (simp_all add: bindE_def split: sum.split)

lemma foldE_invariant:
  "foldE f xs s = Inr s' \<Longrightarrow> I s \<Longrightarrow>
   (\<And>x s s'. x \<in> set xs \<Longrightarrow> I s \<Longrightarrow> f x s = Inr s' \<Longrightarrow> I s') \<Longrightarrow> I s'"
proof (induction xs arbitrary: s)
  case Nil
  then show ?case by simp
next
  case (Cons x xs)
  from Cons.prems(1) obtain s1 where s1: "f x s = Inr s1" "foldE f xs s1 = Inr s'" by auto
  have "I s1" using Cons.prems(3) [OF _ Cons.prems(2) s1(1)] by simp
  from Cons.IH [OF s1(2) this] show ?case using Cons.prems(3) by (metis list.set_intros(2))
qed

lemma foldE_total:
  "I s \<Longrightarrow> (\<And>x s. x \<in> set xs \<Longrightarrow> I s \<Longrightarrow> \<exists>s'. f x s = Inr s' \<and> I s') \<Longrightarrow>
   \<exists>s'. foldE f xs s = Inr s' \<and> I s'"
proof (induction xs arbitrary: s)
  case Nil
  then show ?case by simp
next
  case (Cons x xs)
  from Cons.prems(2) [OF _ Cons.prems(1)] obtain s1 where s1: "f x s = Inr s1" "I s1" by auto
  have "\<exists>s'. foldE f xs s1 = Inr s' \<and> I s'"
    using Cons.IH [OF s1(2)] Cons.prems(2) by simp
  with s1 show ?case by simp
qed

lemma mapE_Inr_iff: "mapE f xs = Inr ys \<longleftrightarrow> list_all2 (\<lambda>x y. f x = Inr y) xs ys"
  by (induction xs arbitrary: ys) (auto simp: list_all2_Cons1)

lemma mapE_length: "mapE f xs = Inr ys \<Longrightarrow> length ys = length xs"
  by (auto simp: mapE_Inr_iff dest: list_all2_lengthD)

lemma mapE_pure [simp]: "mapE (\<lambda>x. Inr (f x)) xs = Inr (map f xs)"
  by (induction xs) simp_all

section \<open>Dictionaries\<close>

text \<open>
  A Python dictionary keeps insertion order: storing under a key it has replaces the value
  in place, under a new key appends. That is \<open>AList.update\<close>; \<open>AList.delete\<close> drops a
  key, \<open>map_of\<close> looks one up. The invariant of such a list is that its keys are distinct.
\<close>

type_synonym ('k, 'v) dict = "('k \<times> 'v) list"

abbreviation dict_get :: "('k, 'v) dict \<Rightarrow> 'k \<Rightarrow> 'v option" where
  "dict_get d k \<equiv> map_of d k"

abbreviation dict_put :: "'k \<Rightarrow> 'v \<Rightarrow> ('k, 'v) dict \<Rightarrow> ('k, 'v) dict" where
  "dict_put k v d \<equiv> AList.update k v d"

abbreviation dict_keys :: "('k, 'v) dict \<Rightarrow> 'k list" where
  "dict_keys d \<equiv> map fst d"

definition dict_has :: "('k, 'v) dict \<Rightarrow> 'k \<Rightarrow> bool" where
  "dict_has d k = (map_of d k \<noteq> None)"

definition dict_lookup :: "('k, 'v) dict \<Rightarrow> 'k \<Rightarrow> 'v pyres" where
  "dict_lookup d k = (case map_of d k of None \<Rightarrow> Inl KeyError | Some v \<Rightarrow> Inr v)"

definition dict_del :: "'k \<Rightarrow> ('k, 'v) dict \<Rightarrow> ('k, 'v) dict pyres" where
  "dict_del k d = (if dict_has d k then Inr (AList.delete k d) else Inl KeyError)"

definition dict_wf :: "('k, 'v) dict \<Rightarrow> bool" where
  "dict_wf d = distinct (map fst d)"

lemma dict_has_iff: "dict_has d k \<longleftrightarrow> k \<in> fst ` set d"
  by (simp add: dict_has_def map_of_eq_None_iff)

lemma dict_put_get [simp, dict_simps]:
  "map_of (AList.update k v d) k' = (if k' = k then Some v else map_of d k')"
  by (simp add: update_conv')

lemma dict_delete_get [simp, dict_simps]:
  "map_of (AList.delete k d) k' = (if k' = k then None else map_of d k')"
  by (simp add: delete_conv')

lemma dict_has_put [simp]: "dict_has (AList.update k v d) k' \<longleftrightarrow> k' = k \<or> dict_has d k'"
  by (simp add: dict_has_def)

lemma dict_has_delete [simp]: "dict_has (AList.delete k d) k' \<longleftrightarrow> k' \<noteq> k \<and> dict_has d k'"
  by (simp add: dict_has_def)

lemma dict_has_Nil [simp]: "\<not> dict_has [] k"
  by (simp add: dict_has_def)

lemma dict_wf_Nil [simp]: "dict_wf []"
  by (simp add: dict_wf_def)

lemma dict_wf_put [simp, intro]: "dict_wf d \<Longrightarrow> dict_wf (AList.update k v d)"
  by (simp add: dict_wf_def distinct_update)

lemma dict_wf_delete [simp, intro]: "dict_wf d \<Longrightarrow> dict_wf (AList.delete k d)"
  by (simp add: dict_wf_def distinct_delete)

lemma dict_lookup_Inr [simp]: "dict_lookup d k = Inr v \<longleftrightarrow> map_of d k = Some v"
  by (simp add: dict_lookup_def split: option.split)

lemma dict_lookup_Inl: "dict_lookup d k = Inl e \<longleftrightarrow> map_of d k = None \<and> e = KeyError"
  by (auto simp: dict_lookup_def split: option.split)

lemma dict_del_Inr [simp]: "dict_del k d = Inr d' \<longleftrightarrow> dict_has d k \<and> d' = AList.delete k d"
  by (auto simp: dict_del_def)

lemma dict_has_SomeD: "map_of d k = Some v \<Longrightarrow> dict_has d k"
  by (simp add: dict_has_def)

lemma dict_has_obtain: "dict_has d k \<Longrightarrow> (\<And>v. map_of d k = Some v \<Longrightarrow> P) \<Longrightarrow> P"
  by (auto simp: dict_has_def)

text \<open>Every value of a dictionary satisfies a predicate.\<close>

definition dict_all :: "('v \<Rightarrow> bool) \<Rightarrow> ('k, 'v) dict \<Rightarrow> bool" where
  "dict_all P d = (\<forall>v\<in>snd ` set d. P v)"

lemma dict_all_Nil [simp]: "dict_all P []"
  by (simp add: dict_all_def)

lemma dict_put_fresh: "k \<notin> fst ` set d \<Longrightarrow> AList.update k v d = d @ [(k, v)]"
  by (induction d) auto

lemma dict_put_last: "k \<notin> fst ` set d \<Longrightarrow> AList.update k v (d @ [(k, w)]) = d @ [(k, v)]"
  by (induction d) auto

lemma dict_put_member: "p \<in> set (AList.update k v d) \<Longrightarrow> p = (k, v) \<or> p \<in> set d"
  by (induction d) (auto split: if_splits)

lemma update_values: "snd ` set (AList.update k v d) \<subseteq> insert v (snd ` set d)"
  by (induction d) auto

lemma delete_subset: "set (AList.delete k d) \<subseteq> set d"
  by (auto simp: AList.delete_eq)

lemma dict_all_put [intro]: "dict_all P d \<Longrightarrow> P v \<Longrightarrow> dict_all P (AList.update k v d)"
  unfolding dict_all_def using update_values [of k v d] by blast

lemma dict_all_delete [intro]: "dict_all P d \<Longrightarrow> dict_all P (AList.delete k d)"
  unfolding dict_all_def using delete_subset [of k d] by blast

lemma dict_all_get: "dict_all P d \<Longrightarrow> map_of d k = Some v \<Longrightarrow> P v"
  unfolding dict_all_def using map_of_SomeD [of d k v] by force

text \<open>The values of a dictionary of lists, flattened.\<close>

definition flat :: "('k, 'v list) dict \<Rightarrow> 'v list" where
  "flat d = concat (map snd d)"

lemma flat_simps [simp]: "flat [] = []" "flat (p # d) = snd p @ flat d"
  by (simp_all add: flat_def)

lemma set_flat: "x \<in> set (flat d) \<longleftrightarrow> (\<exists>k xs. (k, xs) \<in> set d \<and> x \<in> set xs)"
  by (force simp: flat_def)

lemma flat_get: "map_of d k = Some xs \<Longrightarrow> set xs \<subseteq> set (flat d)"
  using map_of_SomeD [of d k xs] by (auto simp only: set_flat subset_eq)

lemma mset_flat_put_new: "map_of d k = None \<Longrightarrow> mset (flat (AList.update k ys d)) = mset (flat d) + mset ys"
  by (induction d) (auto split: if_splits)

lemma mset_flat_put:
  "map_of d k = Some xs \<Longrightarrow> mset (flat (AList.update k ys d)) + mset xs = mset (flat d) + mset ys"
  by (induction d) (auto split: if_splits simp: ac_simps)

lemma mset_flat_append:
  "map_of d k = Some xs \<Longrightarrow> mset (flat (AList.update k (xs @ ys) d)) = mset (flat d) + mset ys"
  using mset_flat_put [of d k xs "xs @ ys"] by simp

lemma mset_flat_remove:
  "map_of d k = Some xs \<Longrightarrow> x \<in> set xs \<Longrightarrow>
   add_mset x (mset (flat (AList.update k (remove1 x xs) d))) = mset (flat d)"
  using mset_flat_put [of d k xs "remove1 x xs"] mset_remove1 [of x xs]
    insert_DiffM [of x "mset xs"]
  by (metis add_right_cancel set_mset_mset union_mset_add_mset_left union_mset_add_mset_right)

section \<open>Lists of Python\<close>

text \<open>\<open>xs[-1]\<close>; \<open>xs.remove(x)\<close> drops the first occurrence and raises when there is none;
  \<open>xs.pop()\<close> takes the last element.\<close>

definition py_last :: "'a list \<Rightarrow> 'a pyres" where
  "py_last xs = (if xs = [] then Inl IndexError else Inr (last xs))"

definition py_remove :: "'a \<Rightarrow> 'a list \<Rightarrow> 'a list pyres" where
  "py_remove x xs = (if x \<in> set xs then Inr (remove1 x xs) else Inl ValueError)"

definition py_pop :: "'a list \<Rightarrow> ('a list \<times> 'a) pyres" where
  "py_pop xs = (if xs = [] then Inl IndexError else Inr (butlast xs, last xs))"

definition py_nth :: "'a list \<Rightarrow> int \<Rightarrow> 'a pyres" where
  "py_nth xs i =
     (if i < - int (length xs) \<or> int (length xs) \<le> i then Inl IndexError
      else Inr (xs ! nat (if i < 0 then int (length xs) + i else i)))"

lemma py_last_Inr [simp]: "py_last xs = Inr x \<longleftrightarrow> xs \<noteq> [] \<and> x = last xs"
  by (auto simp: py_last_def)

lemma py_remove_Inr [simp]: "py_remove x xs = Inr ys \<longleftrightarrow> x \<in> set xs \<and> ys = remove1 x xs"
  by (auto simp: py_remove_def)

lemma py_pop_mset: "py_pop xs = Inr (ys, x) \<Longrightarrow> mset xs = add_mset x (mset ys)"
  by (cases xs rule: rev_cases) (auto simp: py_pop_def)

text \<open>\<open>int(a / b)\<close> of Python on a positive \<open>b\<close> truncates towards zero.\<close>

definition int_trunc :: "rat \<Rightarrow> int" where
  "int_trunc q = (if 0 \<le> q then \<lfloor>q\<rfloor> else \<lceil>q\<rceil>)"

text \<open>\<open>xs[a:b]\<close>: bounds past the end are cut, negative ones count from the end.\<close>

definition slice_bound :: "nat \<Rightarrow> int \<Rightarrow> nat" where
  "slice_bound n i = nat (min (int n) (max 0 (if i < 0 then i + int n else i)))"

definition py_slice :: "'a list \<Rightarrow> int \<Rightarrow> int \<Rightarrow> 'a list" where
  "py_slice xs a b = drop (slice_bound (length xs) a) (take (slice_bound (length xs) b) xs)"

lemma py_slice_nat: "a \<le> b \<Longrightarrow> b \<le> length xs \<Longrightarrow> py_slice xs (int a) (int b) = drop a (take b xs)"
  by (simp add: py_slice_def slice_bound_def)

lemma py_slice_map: "py_slice (map f xs) a b = map f (py_slice xs a b)"
  by (simp add: py_slice_def drop_map take_map)

lemma list_all_py_slice: "list_all P xs \<Longrightarrow> list_all P (py_slice xs a b)"
  by (auto simp: py_slice_def list_all_iff dest: in_set_dropD in_set_takeD)

lemma concat_chunks: "concat (map (\<lambda>k. take n (drop (k * n) xs)) [0..<m]) = take (m * n) xs"
proof (induction m)
  case (Suc m)
  have "take (m * n) xs @ take n (drop (m * n) xs) = take (Suc m * n) xs"
    by (metis add.commute mult_Suc take_add)
  with Suc show ?case by simp
qed simp

lemma length_filter_eq_iff: "length (filter P xs) = length xs \<longleftrightarrow> (\<forall>x\<in>set xs. P x)"
  by (metis filter_True length_filter_less nat_neq_iff)

end
