(* ===== verification/PyValue.thy ===== *)
theory PyValue
  imports Prelude
begin

text \<open>
  Dynamic values: the JSON-like data that Kubernetes messages, payloads and event data are
  made of, with Python's equality (dictionaries compare without regard to key order,
  booleans compare as the integers 0 and 1), truth value and subscripting, and the
  dictionary helpers of \<^verbatim>\<open>data_feed/perf/utils.py\<close>.
\<close>

section \<open>Values\<close>

datatype pyval =
    PNone
  | PBool bool
  | PInt int
  | PStr string
  | PList "pyval list"
  | PDict "(string \<times> pyval) list"

type_synonym pydict = "(string, pyval) dict"

fun truthy :: "pyval \<Rightarrow> bool" where
  "truthy PNone = False"
| "truthy (PBool b) = b"
| "truthy (PInt i) = (i \<noteq> 0)"
| "truthy (PStr s) = (s \<noteq> [])"
| "truthy (PList xs) = (xs \<noteq> [])"
| "truthy (PDict d) = (d \<noteq> [])"

function (sequential) py_eq :: "pyval \<Rightarrow> pyval \<Rightarrow> bool" where
  "py_eq (PDict a) (PDict b) =
     (length a = length b \<and>
      list_all (\<lambda>p. case map_of b (fst p) of None \<Rightarrow> False | Some w \<Rightarrow> py_eq (snd p) w) a)"
| "py_eq (PList xs) (PList ys) =
     (length xs = length ys \<and> list_all (\<lambda>p. py_eq (fst p) (snd p)) (zip xs ys))"
| "py_eq (PBool b) (PInt i) = (of_bool b = i)"
| "py_eq (PInt i) (PBool b) = (of_bool b = i)"
| "py_eq x y = (x = y)"
  by pat_completeness auto
termination
proof (relation "measure (\<lambda>(x, y). size x)")
  fix a b :: "(string \<times> pyval) list" and p w
  assume "p \<in> set a" "map_of b (fst p) = Some w"
  then have "size (snd p) \<le> size_list (size_prod (\<lambda>x. 0) size) a"
    by (intro size_list_estimation' [of p]) (auto simp: size_prod_simp)
  then show "((snd p, w), (PDict a, PDict b)) \<in> measure (\<lambda>(x, y). size x)"
    by (simp add: less_Suc_eq_le)
next
  fix xs ys :: "pyval list" and p
  assume "p \<in> set (zip xs ys)"
  then have "fst p \<in> set xs" by (metis prod.collapse set_zip_leftD)
  then show "((fst p, snd p), (PList xs, PList ys)) \<in> measure (\<lambda>(x, y). size x)"
    by (auto simp: less_Suc_eq_le split_def intro: size_list_estimation')
qed simp

text \<open>Values whose dictionaries have distinct keys, which is every value Python can build.\<close>

fun pv_wf :: "pyval \<Rightarrow> bool" where
  "pv_wf (PDict d) = (distinct (map fst d) \<and> list_all (\<lambda>p. pv_wf (snd p)) d)"
| "pv_wf (PList xs) = list_all pv_wf xs"
| "pv_wf _ = True"

lemma py_eq_refl: "pv_wf v \<Longrightarrow> py_eq v v"
proof (induction v rule: pv_wf.induct)
  case (1 d)
  have "list_all (\<lambda>p. case map_of d (fst p) of None \<Rightarrow> False | Some w \<Rightarrow> py_eq (snd p) w) d"
    unfolding list_all_iff
  proof
    fix p assume p: "p \<in> set d"
    then have "map_of d (fst p) = Some (snd p)" using "1.prems" by simp
    moreover have "py_eq (snd p) (snd p)"
      using "1.IH" [OF p] "1.prems" p by (simp add: list_all_iff)
    ultimately show "case map_of d (fst p) of None \<Rightarrow> False | Some w \<Rightarrow> py_eq (snd p) w" by simp
  qed
  then show ?case by simp
next
  case (2 xs)
  have "list_all (\<lambda>p. py_eq (fst p) (snd p)) (zip xs xs)"
    using 2 by (auto simp: list_all_iff zip_same)
  then show ?case by simp
qed simp_all

text \<open>\<open>v[key]\<close> on a dynamic value: a missing key raises \<open>KeyError\<close>, subscripting anything
  but a dictionary with a string raises \<open>TypeError\<close>. \<open>key in v\<close> needs a container.\<close>

fun pv_get :: "pyval \<Rightarrow> string \<Rightarrow> pyval pyres" where
  "pv_get (PDict d) k = dict_lookup d k"
| "pv_get _ k = Inl TypeError"

fun pv_has :: "pyval \<Rightarrow> string \<Rightarrow> bool pyres" where
  "pv_has (PDict d) k = Inr (dict_has d k)"
| "pv_has (PList xs) k = Inr (\<exists>x\<in>set xs. py_eq (PStr k) x)"
| "pv_has (PStr s) k = Inr (\<exists>i\<le>length s. take (length k) (drop i s) = k)"
| "pv_has _ k = Inl TypeError"

fun pv_items :: "pyval \<Rightarrow> pyval list pyres" where
  "pv_items (PList xs) = Inr xs"
| "pv_items (PDict d) = Inr (map (PStr \<circ> fst) d)"
| "pv_items (PStr s) = Inr (map (\<lambda>c. PStr [c]) s)"
| "pv_items _ = Inl TypeError"

text \<open>A value where the code needs a string, as \<open>Path(v)\<close> does.\<close>

fun py_str_of :: "pyval \<Rightarrow> string pyres" where
  "py_str_of (PStr s) = Inr s"
| "py_str_of _ = Inl TypeError"

section \<open>The helpers of \<^verbatim>\<open>perf/utils.py\<close>\<close>

definition filtered_dict :: "pydict \<Rightarrow> string list \<Rightarrow> pydict" where
  "filtered_dict d filter_keys = (if d = [] then d else filter (\<lambda>p. fst p \<in> set filter_keys) d)"

text \<open>The second argument may be \<open>None\<close>: a falsy side makes the comparison \<open>d1 == d2\<close>.\<close>

definition equal_dicts :: "pydict option \<Rightarrow> pydict option \<Rightarrow> string list \<Rightarrow> bool" where
  "equal_dicts d1 d2 ks =
     (case (d1, d2) of
        (Some a, Some b) \<Rightarrow>
          if a = [] \<or> b = [] then a = b
          else py_eq (PDict (filtered_dict a ks)) (PDict (filtered_dict b ks))
      | (None, None) \<Rightarrow> True
      | _ \<Rightarrow> False)"

text \<open>\<open>nested_set(dic, keys, value)\<close> walks and creates inner dictionaries; the caller's
  dictionary is mutated, so the model returns it. An empty key list makes \<open>keys[-1]\<close> raise,
  a non-dictionary on the way makes \<open>setdefault\<close> or the assignment raise.\<close>

fun nested_set :: "pydict \<Rightarrow> string list \<Rightarrow> pyval \<Rightarrow> pydict pyres" where
  "nested_set d [] v = Inl IndexError"
| "nested_set d [k] v = Inr (dict_put k v d)"
| "nested_set d (k # k2 # ks) v =
     (case map_of d k of
        None \<Rightarrow> bindE (nested_set [] (k2 # ks) v) (\<lambda>i. Inr (dict_put k (PDict i) d))
      | Some (PDict inner) \<Rightarrow>
          bindE (nested_set inner (k2 # ks) v) (\<lambda>i. Inr (dict_put k (PDict i) d))
      | Some _ \<Rightarrow> Inl AttributeError)"

fun nested_get :: "pydict \<Rightarrow> string list \<Rightarrow> pyval option" where
  "nested_get d [] = None"
| "nested_get d [k] = map_of d k"
| "nested_get d (k # k2 # ks) =
     (case map_of d k of Some (PDict inner) \<Rightarrow> nested_get inner (k2 # ks) | _ \<Rightarrow> None)"

lemma nested_set_get: "nested_set d ks v = Inr d' \<Longrightarrow> nested_get d' ks = Some v"
  by (induction d ks v arbitrary: d' rule: nested_set.induct)
    (auto split: option.splits pyval.splits)

text \<open>Writing at one path leaves every path alone that parts from it at some key.\<close>

lemma nested_set_other:
  "nested_set d (p @ a # ks) v = Inr d' \<Longrightarrow> a \<noteq> b \<Longrightarrow>
   nested_get d' (p @ b # js) = nested_get d (p @ b # js)"
proof (induction p arbitrary: d d')
  case Nil
  then show ?case
    by (cases ks; cases js) (auto split: option.splits pyval.splits)
next
  case (Cons q p)
  obtain x xs where x: "p @ a # ks = x # xs" by (cases p) auto
  obtain y ys where y: "p @ b # js = y # ys" by (cases p) auto
  have step: "nested_set d (q # x # xs) v = Inr d'" using Cons.prems(1) x by simp
  show ?case
  proof (cases "map_of d q")
    case None
    with step obtain i where i: "nested_set [] (x # xs) v = Inr i" "d' = dict_put q (PDict i) d"
      by auto
    from Cons.IH [of "[]" i] i(1) x Cons.prems(2)
    have "nested_get i (p @ b # js) = nested_get [] (p @ b # js)" by simp
    moreover have "nested_get [] (y # ys) = None" by (cases ys) simp_all
    ultimately show ?thesis using None i(2) y by simp
  next
    case (Some w)
    with step obtain inner where w: "w = PDict inner" by (cases w) auto
    with Some step obtain i where i: "nested_set inner (x # xs) v = Inr i"
        "d' = dict_put q (PDict i) d" by auto
    from Cons.IH [of inner i] i(1) x Cons.prems(2)
    have "nested_get i (p @ b # js) = nested_get inner (p @ b # js)" by simp
    then show ?thesis using Some w i(2) y by simp
  qed
qed

lemma filtered_dict_wf: "distinct (map fst d) \<Longrightarrow> distinct (map fst (filtered_dict d ks))"
  by (simp add: filtered_dict_def distinct_map_filter)

lemma equal_dicts_refl:
  assumes "pv_wf (PDict d)"
  shows "equal_dicts (Some d) (Some d) ks"
proof -
  have "pv_wf (PDict (filtered_dict d ks))"
    using assms filtered_dict_wf [of d ks]
    by (auto simp: filtered_dict_def list_all_iff)
  then show ?thesis by (simp add: equal_dicts_def py_eq_refl del: py_eq.simps)
qed

end
