(* ===== verification/Events.thy ===== *)
theory Events
  imports PyValue
begin

text \<open>
  The events of the resource estimator (\<^verbatim>\<open>data_feed/perf\<close>): the raw Kubernetes messages
  as the \<^verbatim>\<open>*RawEvent\<close> classes keep them, the event types, one datatype per class of string
  constants with the class's name (so \<open>PodEstimationResultEvent.INTERRUPTED_OOM\<close> is written
  as in the source), and the logged events.
\<close>

section \<open>Raw events\<close>

text \<open>A message of the Kubernetes watch stream: \<open>raw_event['type']\<close>,
  \<open>raw_event['object'].metadata.resource_version\<close> and \<open>raw_event['raw_object']\<close>.\<close>

record watch_message =
  msg_type :: string
  msg_resource_version :: string
  msg_raw_object :: pyval

record pod_object_raw =
  por_type :: string
  por_resource_version :: string
  por_pod_name :: string
  por_status :: pydict

record node_object_raw =
  nor_type :: string
  nor_resource_version :: string
  nor_node_name :: string
  nor_conditions :: pyval

text \<open>A \<^verbatim>\<open>v1.Event\<close> message; timestamps are microseconds, the field path is \<open>None\<close> or a string.\<close>

record kube_raw =
  kr_type :: string
  kr_resource_version :: string
  kr_object_kind :: string
  kr_object_type :: string
  kr_object_reason :: string
  kr_object_message :: string
  kr_object_count :: "int option"
  kr_involved_object_kind :: string
  kr_involved_object_name :: string
  kr_involved_object_field_path :: "string option"
  kr_object_first_timestamp :: "int option"
  kr_object_last_timestamp :: "int option"
  kr_creation_timestamp :: "int option"
  kr_event_time :: "int option"

datatype raw_event = PodObjectRawEvent pod_object_raw | NodeObjectRawEvent node_object_raw | KubeRawEvent kube_raw

fun as_str :: "pyval \<Rightarrow> string pyres" where
  "as_str (PStr s) = Inr s"
| "as_str _ = Inl TypeError"

fun as_dict :: "pyval \<Rightarrow> pydict pyres" where
  "as_dict (PDict d) = Inr d"
| "as_dict _ = Inl TypeError"

fun dict_list :: "pyval \<Rightarrow> pydict list pyres" where
  "dict_list (PList xs) = mapE as_dict xs"
| "dict_list _ = Inl TypeError"

text \<open>\<^verbatim>\<open>PodObjectRawEvent.__init__\<close> keeps three fields of the status.\<close>

definition status_filtered :: "pydict \<Rightarrow> pydict" where
  "status_filtered status =
     concat (map (\<lambda>k. case map_of status k of None \<Rightarrow> [] | Some v \<Rightarrow> [(k, v)])
       [''phase'', ''conditions'', ''containerStatuses''])"

definition pod_object_raw_event :: "watch_message \<Rightarrow> pod_object_raw pyres" where
  "pod_object_raw_event m =
     bindE (bindE (pv_get (msg_raw_object m) ''status'') as_dict) (\<lambda>status.
     bindE (bindE (bindE (pv_get (msg_raw_object m) ''metadata'') (\<lambda>md. pv_get md ''name'')) as_str) (\<lambda>name.
       Inr \<lparr>por_type = msg_type m, por_resource_version = msg_resource_version m,
            por_pod_name = name, por_status = status_filtered status\<rparr>))"

definition node_object_raw_event :: "watch_message \<Rightarrow> node_object_raw pyres" where
  "node_object_raw_event m =
     bindE (bindE (bindE (pv_get (msg_raw_object m) ''metadata'') (\<lambda>md. pv_get md ''name'')) as_str) (\<lambda>name.
     bindE (bindE (pv_get (msg_raw_object m) ''status'') (\<lambda>st. pv_get st ''conditions'')) (\<lambda>conds.
       Inr \<lparr>nor_type = msg_type m, nor_resource_version = msg_resource_version m,
            nor_node_name = name, nor_conditions = conds\<rparr>))"

section \<open>Event types\<close>

datatype PodEstimationPhaseEvent =
    WAITING_FOR_DF_CONTAINER_TO_PULL_IMAGE
  | WAITING_FOR_POD_TO_START_ESTIMATION_RUN
  | WAITING_FOR_POD_TO_FINISH_ESTIMATION_RUN
  | COLLECTING_METRICS

datatype PodEstimationResultEvent =
    DF_CONTAINER_IMAGE_PULLED
  | POD_STARTED_ESTIMATION_RUN
  | POD_FINISHED_ESTIMATION_RUN
  | METRICS_COLLECTED_MISSING
  | METRICS_COLLECTED_ALL
  | INTERRUPTED_INTERNAL_ERROR
  | INTERRUPTED_TIMEOUT
  | INTERRUPTED_DF_CONTAINER_HEALTH_LIVENESS
  | INTERRUPTED_DF_CONTAINER_HEALTH_STARTUP
  | INTERRUPTED_UNEXPECTED_POD_DELETION
  | INTERRUPTED_UNEXPECTED_CONTAINER_TERMINATION
  | INTERRUPTED_OOM
  | INTERRUPTED_STOP

datatype PodSchedulingPhaseEvent =
    WAITING_FOR_POD_TO_BE_SCHEDULED
  | WAITING_FOR_POD_TO_BE_DELETED

datatype PodSchedulingResultEvent =
    POD_SCHEDULED
  | POD_DELETED
  | INTERRUPTED_INTERNAL_ERROR
  | INTERRUPTED_TIMEOUT
  | INTERRUPTED_POD_ALREADY_EXISTS
  | INTERRUPTED_POD_NOT_FOUND
  | INTERRUPTED_STOP

datatype PodObjectLoggedEvent =
    POD_DELETED
  | POD_PHASE_CHANGED
  | POD_CONDITION_CHANGED
  | CONTAINER_STATE_CHANGED
  | CONTAINER_STARTUP_PROBE_STATE_CHANGED
  | CONTAINER_READINESS_PROBE_STATE_CHANGED
  | CONTAINER_RESTART_COUNT_CHANGED

datatype PodKubeLoggedEvent = POD_EVENT | CONTAINER_EVENT

datatype NodeObjectLoggedEvent = NODE_EVENT | NODE_DELETED

datatype NodeKubeLoggedEvent = NODE_EVENT | OOM_VICTIM_PROCESS | OOM_KILLED_PROCESS

text \<open>
  All types are distinct strings in the source (the class name is their prefix), so one
  type of tags with a constructor per class compares as they do.
\<close>

datatype event_type =
    EstPhase PodEstimationPhaseEvent
  | EstResult PodEstimationResultEvent
  | SchedPhase PodSchedulingPhaseEvent
  | SchedResult PodSchedulingResultEvent
  | PodObject PodObjectLoggedEvent
  | PodKube PodKubeLoggedEvent
  | NodeObject NodeObjectLoggedEvent
  | NodeKube NodeKubeLoggedEvent

section \<open>Logged events\<close>

record pod_logged_event =
  pe_type :: event_type
  pe_pod_name :: string
  pe_container_name :: "string option"
  pe_data :: pyval
  pe_cluster_time :: "int option"
  pe_local_time :: int
  pe_raw_event :: "raw_event option"

record node_logged_event =
  ne_type :: event_type
  ne_node_name :: string
  ne_data :: pyval
  ne_cluster_time :: "int option"
  ne_local_time :: int
  ne_raw_event :: "raw_event option"

datatype logged_event = PodLoggedEvent pod_logged_event | NodeLoggedEvent node_logged_event

section \<open>Constants of \<^verbatim>\<open>perf/defines.py\<close>\<close>

definition DATA_FEED_CONTAINER :: string where "DATA_FEED_CONTAINER = ''data-feed-container''"
definition REDIS_CONTAINER :: string where "REDIS_CONTAINER = ''redis''"
definition REDIS_EXPORTER_CONTAINER :: string where "REDIS_EXPORTER_CONTAINER = ''redis-exporter''"
definition NODE_MEMORY_ALLOC_THRESHOLD :: rat where "NODE_MEMORY_ALLOC_THRESHOLD = 6 / 10"
definition NODE_NEXT_SCHEDULE_PERIOD :: int where "NODE_NEXT_SCHEDULE_PERIOD = 20"
definition RUN_ESTIMATION_FOR :: int where "RUN_ESTIMATION_FOR = 180"
definition BULK_SCHEDULE_SIZE :: nat where "BULK_SCHEDULE_SIZE = 2"

section \<open>Facts\<close>

lemma map_of_status_filtered:
  "map_of (status_filtered st) k =
     (if k \<in> {''phase'', ''conditions'', ''containerStatuses''} then map_of st k else None)"
  by (auto simp: status_filtered_def split: option.splits)

lemma status_filtered_idem: "status_filtered (status_filtered st) = status_filtered st"
  by (simp add: status_filtered_def split: option.split)

end
