(* ===== verification/PyString.thy ===== *)
theory PyString
  imports Prelude
begin

text \<open>
  The methods of Python's \<open>str\<close> the sources use, on character lists: \<open>find\<close>/\<open>index\<close>,
  \<open>split\<close>, \<open>strip\<close>, \<open>startswith\<close>, \<open>replace\<close>, the decimal \<open>str(n)\<close> and \<open>int(s)\<close>,
  with their round trips.
\<close>

section \<open>Searching and splitting\<close>

definition startswith :: "string \<Rightarrow> string \<Rightarrow> bool" where
  "startswith s p = (take (length p) s = p)"

fun py_find :: "string \<Rightarrow> string \<Rightarrow> nat option" where
  "py_find sub [] = (if sub = [] then Some 0 else None)"
| "py_find sub (c # s) =
     (if startswith (c # s) sub then Some 0 else map_option Suc (py_find sub s))"

text \<open>\<open>s.index(sub, start)\<close>: the position in \<open>s\<close>, \<open>ValueError\<close> when there is none.\<close>

definition py_index :: "string \<Rightarrow> string \<Rightarrow> nat \<Rightarrow> nat pyres" where
  "py_index s sub start =
     (if length s < start then Inl ValueError
      else case py_find sub (drop start s) of None \<Rightarrow> Inl ValueError | Some i \<Rightarrow> Inr (start + i))"

definition py_contains :: "string \<Rightarrow> string \<Rightarrow> bool" where
  "py_contains sub s = (py_find sub s \<noteq> None)"

lemma py_find_bound: "py_find sub s = Some i \<Longrightarrow> i + length sub \<le> length s"
proof (induction s arbitrary: i)
  case Nil
  then show ?case by (auto split: if_splits)
next
  case (Cons c s)
  then show ?case
    by (auto simp: startswith_def split: if_splits dest: arg_cong [of _ _ length])
qed

lemma py_find_shorter:
  assumes "py_find sub s = Some i" "sub \<noteq> []"
  shows "length s - (i + length sub) < length s"
proof -
  from py_find_bound [OF assms(1)] have "i + length sub \<le> length s" .
  moreover have "0 < length sub" using assms(2) by simp
  ultimately show ?thesis by arith
qed

function py_split :: "string \<Rightarrow> string \<Rightarrow> string list" where
  "py_split sep s =
     (if sep = [] then [s]
      else case py_find sep s of
          None \<Rightarrow> [s]
        | Some i \<Rightarrow> take i s # py_split sep (drop (i + length sep) s))"
  by pat_completeness auto
termination
  by (relation "measure (\<lambda>(sep, s). length s)") (auto dest: py_find_shorter)

declare py_split.simps [simp del]

lemma py_split_None: "py_find sep s = None \<Longrightarrow> py_split sep s = [s]"
  by (subst py_split.simps) simp

lemma py_split_Some:
  "sep \<noteq> [] \<Longrightarrow> py_find sep s = Some i \<Longrightarrow>
   py_split sep s = take i s # py_split sep (drop (i + length sep) s)"
  by (subst py_split.simps) simp

lemma py_split_nonempty [simp]: "py_split sep s \<noteq> []"
  by (subst py_split.simps) (simp split: option.split)

lemma py_find_char_None: "c \<notin> set a \<Longrightarrow> py_find [c] a = None"
  by (induction a) (auto simp: startswith_def)

lemma py_find_char: "c \<notin> set a \<Longrightarrow> py_find [c] (a @ c # b) = Some (length a)"
  by (induction a) (auto simp: startswith_def)

lemma py_split_char_absent: "c \<notin> set a \<Longrightarrow> py_split [c] a = [a]"
  by (rule py_split_None) (rule py_find_char_None)

lemma py_split_char: "c \<notin> set a \<Longrightarrow> py_split [c] (a @ c # b) = a # py_split [c] b"
  by (subst py_split_Some [OF _ py_find_char]) auto

lemma py_split_char_hd: "py_split [c] s = hd (py_split [c] s) # tl (py_split [c] s)"
  by simp

lemma last_split_char: "c \<notin> set s \<Longrightarrow> last (py_split [c] (p @ c # s)) = s"
proof (induction p rule: length_induct)
  case (1 p)
  show ?case
  proof (cases "c \<in> set p")
    case True
    then obtain a b where p: "p = a @ c # b" "c \<notin> set a" by (metis split_list_first)
    with 1 have "last (py_split [c] (b @ c # s)) = s" by simp
    with p(2) show ?thesis by (simp add: p(1) py_split_char)
  qed (simp add: py_split_char py_split_char_absent 1)
qed

fun py_join :: "string \<Rightarrow> string list \<Rightarrow> string" where
  "py_join sep [] = []"
| "py_join sep [x] = x"
| "py_join sep (x # y # xs) = x @ sep @ py_join sep (y # xs)"

lemma py_split_join_char:
  "xs \<noteq> [] \<Longrightarrow> (\<And>x. x \<in> set xs \<Longrightarrow> c \<notin> set x) \<Longrightarrow> py_split [c] (py_join [c] xs) = xs"
  by (induction "[c]" xs rule: py_join.induct) (auto simp: py_split_char py_split_char_absent)

section \<open>Stripping\<close>

definition is_space :: "char \<Rightarrow> bool" where
  "is_space c = (c \<in> set [CHR '' '', CHR 0x09, CHR 0x0A, CHR 0x0B, CHR 0x0C, CHR 0x0D])"

definition py_strip :: "string \<Rightarrow> string" where
  "py_strip s = rev (dropWhile is_space (rev (dropWhile is_space s)))"

lemma py_strip_id: "s = [] \<or> \<not> is_space (hd s) \<and> \<not> is_space (last s) \<Longrightarrow> py_strip s = s"
proof -
  assume s: "s = [] \<or> \<not> is_space (hd s) \<and> \<not> is_space (last s)"
  then have "dropWhile is_space s = s" by (cases s) auto
  moreover have "dropWhile is_space (rev s) = rev s"
    using s by (cases s rule: rev_cases) auto
  ultimately show ?thesis by (simp add: py_strip_def)
qed

lemma py_strip_no_space: "(\<And>c. c \<in> set s \<Longrightarrow> \<not> is_space c) \<Longrightarrow> py_strip s = s"
  by (rule py_strip_id) (cases "s = []"; simp)

section \<open>Replacement\<close>

function py_replace :: "string \<Rightarrow> string \<Rightarrow> string \<Rightarrow> string" where
  "py_replace old new s =
     (if old = [] then s
      else case py_find old s of
          None \<Rightarrow> s
        | Some i \<Rightarrow> take i s @ new @ py_replace old new (drop (i + length old) s))"
  by pat_completeness auto
termination
  by (relation "measure (\<lambda>(old, new, s). length s)") (auto dest: py_find_shorter)

declare py_replace.simps [simp del]

lemma py_replace_absent: "py_find old s = None \<Longrightarrow> py_replace old new s = s"
  by (subst py_replace.simps) simp

section \<open>Decimal numbers\<close>

definition digit_char :: "nat \<Rightarrow> char" where
  "digit_char d = char_of (48 + d)"

definition is_digit :: "char \<Rightarrow> bool" where
  "is_digit c = (48 \<le> (of_char c :: nat) \<and> (of_char c :: nat) \<le> 57)"

definition digit_val :: "char \<Rightarrow> nat" where
  "digit_val c = of_char c - 48"

fun show_nat :: "nat \<Rightarrow> string" where
  "show_nat n = (if n < 10 then [digit_char n] else show_nat (n div 10) @ [digit_char (n mod 10)])"

declare show_nat.simps [simp del]

definition show_int :: "int \<Rightarrow> string" where
  "show_int i = (if i < 0 then CHR ''-'' # show_nat (nat (- i)) else show_nat (nat i))"

definition read_digits :: "string \<Rightarrow> nat" where
  "read_digits s = foldl (\<lambda>n c. 10 * n + digit_val c) 0 s"

text \<open>\<open>int(s)\<close> of Python on a string of decimal digits with an optional sign.\<close>

definition py_int :: "string \<Rightarrow> int pyres" where
  "py_int s =
     (let t = py_strip s; neg = startswith t ''-''; pos = startswith t ''+'';
          ds = (if neg \<or> pos then drop 1 t else t)
      in if ds = [] \<or> \<not> list_all is_digit ds then Inl ValueError
         else Inr (if neg then - int (read_digits ds) else int (read_digits ds)))"

lemma digit_char_digit: "d < 10 \<Longrightarrow> is_digit (digit_char d)"
  by (simp add: is_digit_def digit_char_def of_char_of)

lemma digit_val_char [simp]: "d < 10 \<Longrightarrow> digit_val (digit_char d) = d"
  by (simp add: digit_val_def digit_char_def of_char_of)

lemma read_digits_snoc [simp]: "read_digits (s @ [c]) = 10 * read_digits s + digit_val c"
  by (simp add: read_digits_def)

lemma read_show_nat [simp]: "read_digits (show_nat n) = n"
proof (induction n rule: show_nat.induct)
  case (1 n)
  have "n < 10 \<Longrightarrow> ?case" by (simp add: show_nat.simps [of n] read_digits_def)
  moreover have "\<not> n < 10 \<Longrightarrow> ?case" using 1 by (simp add: show_nat.simps [of n])
  ultimately show ?case by blast
qed

lemma show_nat_digits: "list_all is_digit (show_nat n)"
proof (induction n rule: show_nat.induct)
  case (1 n)
  then show ?case
    by (cases "n < 10") (simp_all add: show_nat.simps [of n] digit_char_digit)
qed

lemma show_nat_nonempty [simp]: "show_nat n \<noteq> []"
  by (simp add: show_nat.simps)

lemma digit_not_space: "is_digit c \<Longrightarrow> \<not> is_space c"
  by (auto simp: is_digit_def is_space_def)

lemma digit_not: "is_digit c \<Longrightarrow> 57 < (of_char d :: nat) \<or> (of_char d :: nat) < 48 \<Longrightarrow> c \<noteq> d"
  by (auto simp: is_digit_def)

lemma show_nat_strip [simp]: "py_strip (show_nat n) = show_nat n"
  by (rule py_strip_no_space)
    (use show_nat_digits in \<open>auto simp: list_all_iff dest: digit_not_space\<close>)

lemma py_int_show_nat [simp]: "py_int (show_nat n) = Inr (int n)"
proof -
  obtain c cs where s: "show_nat n = c # cs" by (cases "show_nat n") auto
  have c: "is_digit c" using show_nat_digits [of n] s by simp
  have "c \<noteq> CHR ''-''" "c \<noteq> CHR ''+''"
    using digit_not [OF c, of "CHR ''-''"] digit_not [OF c, of "CHR ''+''"] by simp_all
  then have "\<not> startswith (show_nat n) ''-''" "\<not> startswith (show_nat n) ''+''"
    by (simp_all add: s startswith_def)
  then show ?thesis
    using show_nat_digits [of n] by (simp add: py_int_def Let_def)
qed

lemma show_nat_length: "0 < k \<Longrightarrow> n < 10 ^ k \<Longrightarrow> length (show_nat n) \<le> k"
proof (induction k arbitrary: n)
  case 0
  then show ?case by simp
next
  case (Suc k)
  consider "n < 10" | "10 \<le> n" by linarith
  then show ?case
  proof cases
    case 1
    then show ?thesis by (simp add: show_nat.simps [of n])
  next
    case 2
    with Suc.prems have "0 < k" by (cases k) auto
    moreover have "n div 10 < 10 ^ k" using Suc.prems by (simp add: less_mult_imp_div_less)
    ultimately have "length (show_nat (n div 10)) \<le> k" by (rule Suc.IH)
    with 2 show ?thesis by (simp add: show_nat.simps [of n])
  qed
qed

lemma show_nat_inj: "show_nat m = show_nat n \<longleftrightarrow> m = n"
  by (metis read_show_nat)

text \<open>\<open>s.lower()\<close> on ASCII, and \<open>s.replace('_', '-')\<close>.\<close>

definition lower_char :: "char \<Rightarrow> char" where
  "lower_char c = (if 65 \<le> (of_char c :: nat) \<and> (of_char c :: nat) \<le> 90 then char_of (of_char c + 32 :: nat) else c)"

definition py_lower :: "string \<Rightarrow> string" where
  "py_lower s = map lower_char s"

definition dashes :: "string \<Rightarrow> string" where
  "dashes s = map (\<lambda>c. if c = CHR ''_'' then CHR ''-'' else c) s"

lemma dashes_no_underscore: "CHR ''_'' \<notin> set (dashes s)"
  by (auto simp: dashes_def split: if_splits)

section \<open>Suffixes\<close>

definition endswith :: "string \<Rightarrow> string \<Rightarrow> bool" where
  "endswith s suffix \<longleftrightarrow> length suffix \<le> length s \<and> drop (length s - length suffix) s = suffix"

definition removesuffix :: "string \<Rightarrow> string \<Rightarrow> string" where
  "removesuffix s suffix = (if endswith s suffix then take (length s - length suffix) s else s)"

lemma endswith_iff: "endswith s suffix \<longleftrightarrow> (\<exists>p. s = p @ suffix)"
  unfolding endswith_def by (metis append_take_drop_id append_eq_conv_conj diff_add_inverse2 le_add2 length_append)

lemma removesuffix_append [simp]: "removesuffix (p @ suffix) suffix = p"
  by (simp add: removesuffix_def endswith_def)

lemma endswith_after_sep:
  assumes "c \<notin> set suffix"
  shows "endswith (a @ c # b) suffix \<longleftrightarrow> endswith b suffix"
proof
  assume "endswith (a @ c # b) suffix"
  then obtain p where p: "a @ c # b = p @ suffix" by (auto simp: endswith_iff)
  have "length suffix \<le> length b"
  proof (rule ccontr)
    assume short: "\<not> length suffix \<le> length b"
    have len: "length (a @ c # b) = length (p @ suffix)" using p by (rule arg_cong)
    have "(a @ c # b) ! length a = c" by simp
    then have "(p @ suffix) ! length a = c" using p by simp
    moreover have "length p \<le> length a" "length a - length p < length suffix" using len short by simp_all
    ultimately have "suffix ! (length a - length p) = c" by (simp add: nth_append)
    with \<open>length a - length p < length suffix\<close> assms show False by (metis nth_mem)
  qed
  moreover have "drop (length a + Suc (length b - length suffix)) (a @ c # b) = suffix"
  proof -
    have "length (a @ c # b) = length (p @ suffix)" using p by (rule arg_cong)
    then have "length a + Suc (length b - length suffix) = length p"
      using \<open>length suffix \<le> length b\<close> by simp
    then show ?thesis using p by simp
  qed
  ultimately show "endswith b suffix" by (simp add: endswith_def Suc_diff_le)
next
  assume "endswith b suffix"
  then obtain p where "b = p @ suffix" by (auto simp: endswith_iff)
  then show "endswith (a @ c # b) suffix"
    unfolding endswith_iff by (intro exI [of _ "a @ c # p"]) simp
qed

end
