(* ===== verification/KubeLogs.thy ===== *)
theory KubeLogs
  imports Events PyString
begin

text \<open>
  The event logs of \<^verbatim>\<open>perf/kube_watcher\<close>. Each channel of the watcher has a log that turns raw
  Kubernetes messages into logged events, queues them per pod or node and hands them to the
  callbacks. The state of the four logs is one record; what the callbacks change is an
  arbitrary world. An exception of a callback ends the handler (and its thread).
\<close>

section \<open>State of \<^verbatim>\<open>KubeWatcherState\<close> and its logs\<close>

type_synonym 'w callback = "logged_event \<Rightarrow> 'w \<Rightarrow> 'w pyres"

type_synonym health_counts = "(string, int) dict"

record kube_watcher_state =
  event_queues_per_pod :: "(string, logged_event list) dict"
  event_queues_per_node :: "(string, logged_event list) dict"
  last_raw_event_per_pod :: "(string, pod_object_raw) dict"
  last_raw_event_per_node :: "(string, node_object_raw) dict"
  unhealthy_count :: "(string, (string option, health_counts) dict) dict"

definition init_kube_watcher_state :: kube_watcher_state where
  "init_kube_watcher_state =
     \<lparr>event_queues_per_pod = [], event_queues_per_node = [], last_raw_event_per_pod = [],
      last_raw_event_per_node = [], unhealthy_count = []\<rparr>"

text \<open>\<open>queue.put\<close> into the queue of a key, created when missing.\<close>

definition enqueue :: "'k \<Rightarrow> 'e \<Rightarrow> ('k, 'e list) dict \<Rightarrow> ('k, 'e list) dict" where
  "enqueue k e queues =
     (let queues' = (if dict_has queues k then queues else dict_put k [] queues)
      in dict_put k (the (map_of queues' k) @ [e]) queues')"

definition run_callbacks :: "'w callback list \<Rightarrow> logged_event \<Rightarrow> 'w \<Rightarrow> 'w pyres" where
  "run_callbacks callbacks e w = foldE (\<lambda>callback. callback e) callbacks w"

text \<open>\<open>_log_event_and_callback\<close> of \<^verbatim>\<open>PodEventsLog\<close> and of \<^verbatim>\<open>NodeEventsLog\<close>.\<close>

fun pod_log_event_and_callback :: "'w callback list \<Rightarrow> logged_event \<Rightarrow> kube_watcher_state \<times> 'w \<Rightarrow> (kube_watcher_state \<times> 'w) pyres" where
  "pod_log_event_and_callback callbacks (PodLoggedEvent e) (ks, w) =
     bindE (run_callbacks callbacks (PodLoggedEvent e) w) (\<lambda>w'.
       Inr (ks\<lparr>event_queues_per_pod := enqueue (pe_pod_name e) (PodLoggedEvent e) (event_queues_per_pod ks)\<rparr>, w'))"
| "pod_log_event_and_callback callbacks (NodeLoggedEvent e) s = Inl ValueError"

fun node_log_event_and_callback :: "'w callback list \<Rightarrow> logged_event \<Rightarrow> kube_watcher_state \<times> 'w \<Rightarrow> (kube_watcher_state \<times> 'w) pyres" where
  "node_log_event_and_callback callbacks (NodeLoggedEvent e) (ks, w) =
     bindE (run_callbacks callbacks (NodeLoggedEvent e) w) (\<lambda>w'.
       Inr (ks\<lparr>event_queues_per_node := enqueue (ne_node_name e) (NodeLoggedEvent e) (event_queues_per_node ks)\<rparr>, w'))"
| "node_log_event_and_callback callbacks (PodLoggedEvent e) s = Inl ValueError"

definition known_types :: "string list" where
  "known_types = [''ADDED'', ''MODIFIED'', ''DELETED'']"

section \<open>\<^verbatim>\<open>PodObjectEventsLog\<close>\<close>

definition pod_object_event :: "PodObjectLoggedEvent \<Rightarrow> string option \<Rightarrow> pyval \<Rightarrow> int option \<Rightarrow> int \<Rightarrow> pod_object_raw \<Rightarrow> logged_event" where
  "pod_object_event t container data cluster_time now raw =
     PodLoggedEvent \<lparr>pe_type = PodObject t, pe_pod_name = por_pod_name raw,
       pe_container_name = container, pe_data = data, pe_cluster_time = cluster_time,
       pe_local_time = now, pe_raw_event = Some (PodObjectRawEvent raw)\<rparr>"

definition last_status :: "kube_watcher_state \<Rightarrow> string \<Rightarrow> string \<Rightarrow> pyval option" where
  "last_status ks pod field =
     (case map_of (last_raw_event_per_pod ks) pod of
        None \<Rightarrow> None
      | Some raw \<Rightarrow> map_of (por_status raw) field)"

text \<open>\<open>next((l for l in last if l[key] == item[key]), None)\<close>\<close>

fun find_matching :: "string \<Rightarrow> pydict \<Rightarrow> pydict list \<Rightarrow> pydict option pyres" where
  "find_matching key item [] = Inr None"
| "find_matching key item (l # ls) =
     bindE (dict_lookup l key) (\<lambda>a. bindE (dict_lookup item key) (\<lambda>b.
       if py_eq a b then Inr (Some l) else find_matching key item ls))"

definition last_matching :: "string \<Rightarrow> pydict \<Rightarrow> pyval option \<Rightarrow> pydict option pyres" where
  "last_matching key item lasts =
     (case lasts of
        None \<Rightarrow> Inr None
      | Some ls \<Rightarrow> bindE (dict_list ls) (find_matching key item))"

definition CONDITION_KEYS :: "string list" where
  "CONDITION_KEYS = [''status'', ''reason'', ''message'']"

definition condition_data :: "pydict \<Rightarrow> pyval \<Rightarrow> pydict" where
  "condition_data condition t =
     fold (\<lambda>(k, v). dict_put k v) (filtered_dict condition CONDITION_KEYS) [(''type'', t)]"

definition CONTAINER_CHANGES :: "(PodObjectLoggedEvent \<times> string list) list" where
  "CONTAINER_CHANGES =
     [(CONTAINER_STATE_CHANGED, [''state'']),
      (CONTAINER_STARTUP_PROBE_STATE_CHANGED, [''started'']),
      (CONTAINER_READINESS_PROBE_STATE_CHANGED, [''ready'']),
      (CONTAINER_RESTART_COUNT_CHANGED, [''restartCount''])]"

type_synonym 'w log_step = "kube_watcher_state \<times> 'w \<Rightarrow> (kube_watcher_state \<times> 'w) pyres"

definition log_phase_change :: "'w callback list \<Rightarrow> int \<Rightarrow> pod_object_raw \<Rightarrow> 'w log_step" where
  "log_phase_change callbacks now raw s =
     (case map_of (por_status raw) ''phase'' of
        None \<Rightarrow> Inr s
      | Some phase \<Rightarrow>
          if (case last_status (fst s) (por_pod_name raw) ''phase'' of
                None \<Rightarrow> True | Some old \<Rightarrow> \<not> py_eq old phase)
          then pod_log_event_and_callback callbacks
                 (pod_object_event POD_PHASE_CHANGED None (PDict [(''phase'', phase)]) None now raw) s
          else Inr s)"

text \<open>\<open>parse_timestamp\<close> is \<^verbatim>\<open>dateutil\<close>'s parser.\<close>

definition condition_time :: "(pyval \<Rightarrow> int pyres) \<Rightarrow> pydict \<Rightarrow> int option pyres" where
  "condition_time parse_timestamp condition =
     (case map_of condition ''lastTransitionTime'' of
        None \<Rightarrow> Inr None
      | Some t \<Rightarrow> bindE (parse_timestamp t) (\<lambda>ts. Inr (Some ts)))"

definition log_condition_change :: "'w callback list \<Rightarrow> (pyval \<Rightarrow> int pyres) \<Rightarrow> int \<Rightarrow> pod_object_raw \<Rightarrow> pydict \<Rightarrow> 'w log_step" where
  "log_condition_change callbacks parse_timestamp now raw condition s =
     bindE (last_matching ''type'' condition (last_status (fst s) (por_pod_name raw) ''conditions'')) (\<lambda>last_condition.
     if equal_dicts (Some condition) last_condition CONDITION_KEYS then Inr s
     else
       bindE (condition_time parse_timestamp condition) (\<lambda>cluster_time.
       bindE (dict_lookup condition ''type'') (\<lambda>t.
         pod_log_event_and_callback callbacks
           (pod_object_event POD_CONDITION_CHANGED None (PDict (condition_data condition t)) cluster_time now raw) s)))"

definition log_container_change :: "'w callback list \<Rightarrow> int \<Rightarrow> pod_object_raw \<Rightarrow> pydict \<Rightarrow> 'w log_step" where
  "log_container_change callbacks now raw status s =
     bindE (last_matching ''name'' status (last_status (fst s) (por_pod_name raw) ''containerStatuses'')) (\<lambda>last_container_status.
       foldE (\<lambda>(logged_event_type, filter_keys) s'.
          if equal_dicts (Some status) last_container_status filter_keys then Inr s'
          else
            bindE (bindE (dict_lookup status ''name'') as_str) (\<lambda>container_name.
              pod_log_event_and_callback callbacks
                (pod_object_event logged_event_type (Some container_name)
                   (PDict (filtered_dict status (filter_keys @ [''last_state'']))) None now raw) s'))
         CONTAINER_CHANGES s)"

definition each_item :: "pyval option \<Rightarrow> (pydict \<Rightarrow> 'w log_step) \<Rightarrow> 'w log_step" where
  "each_item items step s =
     (case items of None \<Rightarrow> Inr s | Some v \<Rightarrow> bindE (dict_list v) (\<lambda>ds. foldE step ds s))"

definition set_last_raw_pod :: "pod_object_raw \<Rightarrow> kube_watcher_state \<times> 'w \<Rightarrow> kube_watcher_state \<times> 'w" where
  "set_last_raw_pod raw s =
     ((fst s)\<lparr>last_raw_event_per_pod := dict_put (por_pod_name raw) raw (last_raw_event_per_pod (fst s))\<rparr>, snd s)"

definition pod_object_update_state :: "'w callback list \<Rightarrow> (pyval \<Rightarrow> int pyres) \<Rightarrow> int \<Rightarrow> raw_event \<Rightarrow> 'w log_step" where
  "pod_object_update_state callbacks parse_timestamp now raw_event s =
     (case raw_event of
        PodObjectRawEvent raw \<Rightarrow>
          if por_type raw \<notin> set known_types then Inl ValueError
          else if por_type raw = ''DELETED'' then
            bindE (pod_log_event_and_callback callbacks
                     (pod_object_event PodObjectLoggedEvent.POD_DELETED None PNone None now raw) s)
              (\<lambda>s'. Inr (set_last_raw_pod raw s'))
          else
            bindE (log_phase_change callbacks now raw s) (\<lambda>s1.
            bindE (each_item (map_of (por_status raw) ''conditions'')
                     (log_condition_change callbacks parse_timestamp now raw) s1) (\<lambda>s2.
            bindE (each_item (map_of (por_status raw) ''containerStatuses'')
                     (log_container_change callbacks now raw) s2) (\<lambda>s3.
              Inr (set_last_raw_pod raw s3))))
      | _ \<Rightarrow> Inl ValueError)"

section \<open>\<^verbatim>\<open>PodKubeEventsLog\<close>\<close>

definition initial_counts :: health_counts where
  "initial_counts = [(''startup'', 0), (''liveness'', 0), (''readiness'', 0)]"

text \<open>\<open>self.unhealthy_count[pod][container][probe]\<close>\<close>

definition health_lookup :: "kube_watcher_state \<Rightarrow> string \<Rightarrow> string option \<Rightarrow> string \<Rightarrow> int pyres" where
  "health_lookup ks pod container probe =
     bindE (dict_lookup (unhealthy_count ks) pod) (\<lambda>per_container.
     bindE (dict_lookup per_container container) (\<lambda>counts.
       dict_lookup counts probe))"

definition health_store :: "string \<Rightarrow> string option \<Rightarrow> string \<Rightarrow> int \<Rightarrow> kube_watcher_state \<Rightarrow> kube_watcher_state pyres" where
  "health_store pod container probe n ks =
     bindE (dict_lookup (unhealthy_count ks) pod) (\<lambda>per_container.
     bindE (dict_lookup per_container container) (\<lambda>counts.
       Inr (ks\<lparr>unhealthy_count :=
              dict_put pod (dict_put container (dict_put probe n counts) per_container) (unhealthy_count ks)\<rparr>)))"

text \<open>\<open>spec.containers{name}\<close> gives the name; a path without the marker raises.\<close>

definition container_of_path :: "string option \<Rightarrow> string option pyres" where
  "container_of_path path =
     (case path of
        None \<Rightarrow> Inr None
      | Some p \<Rightarrow>
          if p = [] then Inr None
          else bindE (py_nth (py_split ''spec.containers'' p) 1) (\<lambda>split.
                 Inr (Some (butlast (tl split)))))"

definition ensure_pod_counts :: "string \<Rightarrow> string option \<Rightarrow> kube_watcher_state \<Rightarrow> kube_watcher_state" where
  "ensure_pod_counts pod container ks =
     (if dict_has (unhealthy_count ks) pod then ks
      else ks\<lparr>unhealthy_count := dict_put pod [(container, initial_counts)] (unhealthy_count ks)\<rparr>)"

definition unhealthy_update :: "string \<Rightarrow> string option \<Rightarrow> string \<Rightarrow> kube_watcher_state \<Rightarrow> (string \<times> int \<times> kube_watcher_state) pyres" where
  "unhealthy_update pod container message ks =
     (let ks1 = ensure_pod_counts pod container ks
      in bindE (health_lookup ks1 pod container ''startup'') (\<lambda>startup.
         bindE (health_lookup ks1 pod container ''liveness'') (\<lambda>liveness.
         bindE (health_lookup ks1 pod container ''readiness'') (\<lambda>readiness.
           if startswith message ''Startup'' then
             bindE (health_store pod container ''startup'' (startup + 1) ks1) (\<lambda>ks2.
               Inr (''UnhealthyStartup'', startup + 1, ks2))
           else if startswith message ''Liveness'' then
             bindE (health_store pod container ''liveness'' (liveness + 1) ks1) (\<lambda>ks2.
               Inr (''UnhealthyLiveness'', liveness + 1, ks2))
           else if startswith message ''Readiness'' then
             bindE (health_store pod container ''readiness'' (readiness + 1) ks1) (\<lambda>ks2.
               Inr (''UnhealthyReadiness'', readiness + 1, ks2))
           else Inl ValueError))))"

definition kube_data :: "string \<Rightarrow> int option \<Rightarrow> string \<Rightarrow> pydict" where
  "kube_data reason n message =
     [(''reason'', PStr reason),
      (''count'', case n of None \<Rightarrow> PNone | Some i \<Rightarrow> PInt i),
      (''message'', PStr message)]"

definition kube_event_guards :: "string \<Rightarrow> kube_raw \<Rightarrow> unit pyres" where
  "kube_event_guards kind raw =
     (if kr_involved_object_kind raw \<noteq> kind then Inl ValueError
      else if kr_type raw \<notin> set known_types then Inl ValueError
      else if kr_object_kind raw \<noteq> ''Event'' then Inl ValueError
      else Inr ())"

definition pod_kube_event :: "string option \<Rightarrow> pydict \<Rightarrow> int \<Rightarrow> kube_raw \<Rightarrow> logged_event" where
  "pod_kube_event container data now raw =
     PodLoggedEvent \<lparr>pe_type = PodKube (if container \<noteq> None \<and> container \<noteq> Some [] then CONTAINER_EVENT else POD_EVENT),
       pe_pod_name = kr_involved_object_name raw, pe_container_name = container,
       pe_data = PDict data, pe_cluster_time = kr_object_last_timestamp raw,
       pe_local_time = now, pe_raw_event = Some (KubeRawEvent raw)\<rparr>"

text \<open>Reason and count of the logged event; the Unhealthy special case counts per probe.\<close>

definition pod_kube_reason :: "string option \<Rightarrow> kube_raw \<Rightarrow> kube_watcher_state \<Rightarrow> (string \<times> int option \<times> kube_watcher_state) pyres" where
  "pod_kube_reason container_name raw ks =
     (if kr_object_reason raw = ''Unhealthy'' then
        bindE (unhealthy_update (kr_involved_object_name raw) container_name (kr_object_message raw) ks)
          (\<lambda>(reason, n, ks'). Inr (reason, Some n, ks'))
      else Inr (kr_object_reason raw, kr_object_count raw, ks))"

definition pod_kube_update_state :: "'w callback list \<Rightarrow> int \<Rightarrow> raw_event \<Rightarrow> 'w log_step" where
  "pod_kube_update_state callbacks now raw_event s =
     (case raw_event of
        KubeRawEvent raw \<Rightarrow>
          bindE (kube_event_guards ''Pod'' raw) (\<lambda>_.
          if kr_type raw \<notin> {''ADDED'', ''MODIFIED''} then Inr s
          else
            bindE (container_of_path (kr_involved_object_field_path raw)) (\<lambda>container_name.
            bindE (pod_kube_reason container_name raw (fst s)) (\<lambda>(reason, n, ks').
                 pod_log_event_and_callback callbacks
                   (pod_kube_event container_name (kube_data reason n (kr_object_message raw)) now raw)
                   (ks', snd s))))
      | _ \<Rightarrow> Inl ValueError)"

definition get_unhealthy_liveness_count :: "kube_watcher_state \<Rightarrow> string \<Rightarrow> string option \<Rightarrow> int pyres" where
  "get_unhealthy_liveness_count ks pod container = health_lookup ks pod container ''liveness''"

definition get_unhealthy_startup_count :: "kube_watcher_state \<Rightarrow> string \<Rightarrow> string option \<Rightarrow> int pyres" where
  "get_unhealthy_startup_count ks pod container = health_lookup ks pod container ''startup''"

definition get_unhealthy_readiness_count :: "kube_watcher_state \<Rightarrow> string \<Rightarrow> string option \<Rightarrow> int pyres" where
  "get_unhealthy_readiness_count ks pod container = health_lookup ks pod container ''readiness''"

section \<open>\<^verbatim>\<open>NodeKubeEventsLog\<close> and \<^verbatim>\<open>NodeObjectEventsLog\<close>\<close>

definition node_event :: "event_type \<Rightarrow> string \<Rightarrow> pyval \<Rightarrow> int option \<Rightarrow> int \<Rightarrow> raw_event \<Rightarrow> logged_event" where
  "node_event t node data cluster_time now raw =
     NodeLoggedEvent \<lparr>ne_type = t, ne_node_name = node, ne_data = data,
       ne_cluster_time = cluster_time, ne_local_time = now, ne_raw_event = Some raw\<rparr>"

text \<open>The pid of a SystemOOM message: what follows \<open>pid:\<close>, stripped.\<close>

definition oom_victim_pid :: "string \<Rightarrow> string pyres" where
  "oom_victim_pid message =
     bindE (py_nth (py_split ''pid:'' message) 1) (\<lambda>s. Inr (py_strip s))"

text \<open>The pid and process name of an OOMKilling message.\<close>

definition oom_killed_process :: "string \<Rightarrow> (string \<times> string) pyres" where
  "oom_killed_process message =
     bindE (py_index message ''Killed process'' 0) (\<lambda>i.
     let start = i + length ''Killed process''
     in bindE (py_index message ''total-vm'' start) (\<lambda>stop.
        let split = py_split '' '' (py_strip (drop start (take stop message)))
        in bindE (py_nth split 0) (\<lambda>pid.
           bindE (py_nth split 1) (\<lambda>pname.
             Inr (pid, butlast (tl pname))))))"

text \<open>A message that cannot be parsed is printed and logged as a plain node event.\<close>

definition node_kube_event :: "int \<Rightarrow> kube_raw \<Rightarrow> logged_event" where
  "node_kube_event now raw =
     (let data = kube_data (kr_object_reason raw) (kr_object_count raw) (kr_object_message raw);
          event = (\<lambda>t d. node_event (NodeKube t) (kr_involved_object_name raw) (PDict d)
                     (kr_object_last_timestamp raw) now (KubeRawEvent raw))
      in if kr_object_reason raw = ''SystemOOM'' then
           (case oom_victim_pid (kr_object_message raw) of
              Inr pid \<Rightarrow> event OOM_VICTIM_PROCESS (dict_put ''pid'' (PStr pid) data)
            | Inl _ \<Rightarrow> event NodeKubeLoggedEvent.NODE_EVENT data)
         else if kr_object_reason raw = ''OOMKilling'' then
           (case oom_killed_process (kr_object_message raw) of
              Inr (pid, pname) \<Rightarrow>
                event OOM_KILLED_PROCESS (dict_put ''pname'' (PStr pname) (dict_put ''pid'' (PStr pid) data))
            | Inl _ \<Rightarrow> event NodeKubeLoggedEvent.NODE_EVENT data)
         else event NodeKubeLoggedEvent.NODE_EVENT data)"

definition node_kube_update_state :: "'w callback list \<Rightarrow> int \<Rightarrow> raw_event \<Rightarrow> 'w log_step" where
  "node_kube_update_state callbacks now raw_event s =
     (case raw_event of
        KubeRawEvent raw \<Rightarrow>
          bindE (kube_event_guards ''Node'' raw) (\<lambda>_.
          if kr_type raw \<notin> {''ADDED'', ''MODIFIED''} then Inr s
          else node_log_event_and_callback callbacks (node_kube_event now raw) s)
      | _ \<Rightarrow> Inl ValueError)"

definition node_object_update_state :: "'w callback list \<Rightarrow> int \<Rightarrow> raw_event \<Rightarrow> 'w log_step" where
  "node_object_update_state callbacks now raw_event s =
     (case raw_event of
        NodeObjectRawEvent raw \<Rightarrow>
          if nor_type raw \<notin> set known_types then Inl ValueError
          else
            bindE (node_log_event_and_callback callbacks
              (if nor_type raw = ''DELETED''
               then node_event (NodeObject NODE_DELETED) (nor_node_name raw) PNone None now raw_event
               else node_event (NodeObject NodeObjectLoggedEvent.NODE_EVENT) (nor_node_name raw)
                      (PDict [(''conditions'', nor_conditions raw)]) None now raw_event) s)
            (\<lambda>(ks, w). Inr (ks\<lparr>last_raw_event_per_node :=
                 dict_put (nor_node_name raw) raw (last_raw_event_per_node ks)\<rparr>, w))
      | _ \<Rightarrow> Inl ValueError)"

section \<open>Logging a list of events\<close>

text \<open>The handlers compute events from the message and the last message, and log them in order.
  This is the computation alone.\<close>

definition phase_changes :: "int \<Rightarrow> pyval option \<Rightarrow> pod_object_raw \<Rightarrow> logged_event list" where
  "phase_changes now old raw =
     (case map_of (por_status raw) ''phase'' of
        None \<Rightarrow> []
      | Some phase \<Rightarrow>
          if (case old of None \<Rightarrow> True | Some l \<Rightarrow> \<not> py_eq l phase)
          then [pod_object_event POD_PHASE_CHANGED None (PDict [(''phase'', phase)]) None now raw] else [])"

definition condition_changes :: "(pyval \<Rightarrow> int pyres) \<Rightarrow> int \<Rightarrow> pyval option \<Rightarrow> pod_object_raw \<Rightarrow> pydict \<Rightarrow> logged_event list pyres" where
  "condition_changes parse_timestamp now old raw condition =
     bindE (last_matching ''type'' condition old) (\<lambda>l.
       if equal_dicts (Some condition) l CONDITION_KEYS then Inr []
       else bindE (condition_time parse_timestamp condition) (\<lambda>ct.
            bindE (dict_lookup condition ''type'') (\<lambda>t.
              Inr [pod_object_event POD_CONDITION_CHANGED None (PDict (condition_data condition t)) ct now raw])))"

definition container_changes :: "int \<Rightarrow> pyval option \<Rightarrow> pod_object_raw \<Rightarrow> pydict \<Rightarrow> logged_event list pyres" where
  "container_changes now old raw status =
     bindE (last_matching ''name'' status old) (\<lambda>l.
       bindE (mapE (\<lambda>(t, ks).
           if equal_dicts (Some status) l ks then Inr []
           else bindE (bindE (dict_lookup status ''name'') as_str) (\<lambda>n.
                  Inr [pod_object_event t (Some n) (PDict (filtered_dict status (ks @ [''last_state'']))) None now raw]))
         CONTAINER_CHANGES) (\<lambda>ess. Inr (concat ess)))"

definition item_changes :: "pyval option \<Rightarrow> (pydict \<Rightarrow> 'e list pyres) \<Rightarrow> 'e list pyres" where
  "item_changes items f =
     (case items of None \<Rightarrow> Inr [] | Some v \<Rightarrow>
        bindE (dict_list v) (\<lambda>ds. bindE (mapE f ds) (\<lambda>ess. Inr (concat ess))))"

definition pod_object_changes :: "(pyval \<Rightarrow> int pyres) \<Rightarrow> int \<Rightarrow> (string \<Rightarrow> pyval option) \<Rightarrow> pod_object_raw \<Rightarrow> logged_event list pyres" where
  "pod_object_changes parse_timestamp now old raw =
     (if por_type raw \<notin> set known_types then Inl ValueError
      else if por_type raw = ''DELETED''
      then Inr [pod_object_event PodObjectLoggedEvent.POD_DELETED None PNone None now raw]
      else
        bindE (item_changes (map_of (por_status raw) ''conditions'')
                 (condition_changes parse_timestamp now (old ''conditions'') raw)) (\<lambda>cs.
        bindE (item_changes (map_of (por_status raw) ''containerStatuses'')
                 (container_changes now (old ''containerStatuses'') raw)) (\<lambda>ss.
          Inr (phase_changes now (old ''phase'') raw @ cs @ ss))))"

definition log_events :: "'w callback list \<Rightarrow> logged_event list \<Rightarrow> 'w log_step" where
  "log_events callbacks es s = foldE (pod_log_event_and_callback callbacks) es s"

lemma log_events_simps [simp]:
  "log_events cbs [] s = Inr s"
  "log_events cbs [e] s = pod_log_event_and_callback cbs e s"
  by (simp_all add: log_events_def bindE_def split: sum.split)

lemma log_events_append: "log_events cbs (xs @ ys) s = bindE (log_events cbs xs s) (log_events cbs ys)"
  by (simp add: log_events_def foldE_append) (simp add: log_events_def [abs_def])

lemma pod_log_keeps_last:
  "pod_log_event_and_callback cbs e s = Inr s' \<Longrightarrow>
   last_raw_event_per_pod (fst s') = last_raw_event_per_pod (fst s)"
  by (cases "(cbs, e, s)" rule: pod_log_event_and_callback.cases) auto

lemma log_events_keeps_last:
  assumes "log_events cbs es s = Inr s'"
  shows "last_raw_event_per_pod (fst s') = last_raw_event_per_pod (fst s)"
  using foldE_invariant [where I = "\<lambda>x. last_raw_event_per_pod (fst x) = last_raw_event_per_pod (fst s)",
      OF assms [unfolded log_events_def]]
  by (metis pod_log_keeps_last)

text \<open>A loop whose body logs what a pure function computes logs the concatenation. The pure
  function may look at the last messages, which logging does not change.\<close>

lemma foldE_log_events:
  assumes "\<And>x s. P s \<Longrightarrow> step x s = bindE (f x) (\<lambda>es. log_events cbs es s)"
    and "\<And>es s s'. P s \<Longrightarrow> log_events cbs es s = Inr s' \<Longrightarrow> P s'"
    and "P s"
  shows "foldE step xs s = Inr s' \<longleftrightarrow> (\<exists>ess. mapE f xs = Inr ess \<and> log_events cbs (concat ess) s = Inr s')"
  using assms(3)
proof (induction xs arbitrary: s)
  case Nil
  then show ?case by auto
next
  case (Cons x xs)
  show ?case
  proof (cases "f x")
    case (Inl e)
    with assms(1) [OF Cons.prems, of x] show ?thesis by simp
  next
    case (Inr es)
    have st: "step x s = log_events cbs es s" using assms(1) [OF Cons.prems, of x] Inr by simp
    show ?thesis
    proof (cases "log_events cbs es s")
      case (Inl e)
      then show ?thesis using st Inr by (auto simp: log_events_append)
    next
      case (Inr s1)
      have "P s1" by (rule assms(2) [OF Cons.prems Inr])
      from Cons.IH [OF this] show ?thesis using st Inr \<open>f x = Inr es\<close>
        by (auto simp: log_events_append)
    qed
  qed
qed

lemma log_phase_change_eq:
  "log_phase_change cbs now raw s =
   log_events cbs (phase_changes now (last_status (fst s) (por_pod_name raw) ''phase'') raw) s"
  by (simp add: log_phase_change_def phase_changes_def split: option.split)

lemma log_condition_change_eq:
  "log_condition_change cbs pt now raw c s =
   bindE (condition_changes pt now (last_status (fst s) (por_pod_name raw) ''conditions'') raw c)
     (\<lambda>es. log_events cbs es s)"
  by (simp add: log_condition_change_def condition_changes_def bindE_assoc bindE_if cong: if_cong)

lemma last_status_cong:
  "last_raw_event_per_pod ks = last_raw_event_per_pod ks' \<Longrightarrow> last_status ks = last_status ks'"
  by (simp add: last_status_def fun_eq_iff)

lemma last_status_log:
  "log_events cbs es s = Inr s' \<Longrightarrow> last_status (fst s') = last_status (fst s)"
  by (rule last_status_cong) (rule log_events_keeps_last)

lemma log_container_change_eq:
  "log_container_change cbs now raw c s = Inr s' \<longleftrightarrow>
   (\<exists>es. container_changes now (last_status (fst s) (por_pod_name raw) ''containerStatuses'') raw c = Inr es \<and>
         log_events cbs es s = Inr s')"
proof -
  define l where "l = last_matching ''name'' c (last_status (fst s) (por_pod_name raw) ''containerStatuses'')"
  define f where "f = (\<lambda>old (t, ks).
      if equal_dicts (Some c) old ks then Inr []
      else bindE (bindE (dict_lookup c ''name'') as_str) (\<lambda>n.
             Inr [pod_object_event t (Some n) (PDict (filtered_dict c (ks @ [''last_state'']))) None now raw]))"
  have loop: "foldE (\<lambda>(t, ks) s'. if equal_dicts (Some c) old ks then Inr s'
          else bindE (bindE (dict_lookup c ''name'') as_str) (\<lambda>n. pod_log_event_and_callback cbs
                (pod_object_event t (Some n) (PDict (filtered_dict c (ks @ [''last_state'']))) None now raw) s'))
         CONTAINER_CHANGES s = Inr s' \<longleftrightarrow>
       (\<exists>ess. mapE (f old) CONTAINER_CHANGES = Inr ess \<and> log_events cbs (concat ess) s = Inr s')" for old
    by (rule foldE_log_events [where P = "\<lambda>_. True"]) (auto simp: f_def bindE_assoc bindE_if cong: if_cong)
  show ?thesis
    unfolding log_container_change_def container_changes_def l_def [symmetric]
    by (auto simp: loop f_def)
qed

lemma each_item_eq:
  assumes "\<And>c s s'. P s \<Longrightarrow> step c s = Inr s' \<longleftrightarrow> (\<exists>es. f c = Inr es \<and> log_events cbs es s = Inr s')"
    and "\<And>es s s'. P s \<Longrightarrow> log_events cbs es s = Inr s' \<Longrightarrow> P s'" and "P s"
  shows "each_item items step s = Inr s' \<longleftrightarrow>
    (\<exists>es. item_changes items f = Inr es \<and> log_events cbs es s = Inr s')"
proof -
  have "foldE step xs s = Inr s' \<longleftrightarrow> (\<exists>ess. mapE f xs = Inr ess \<and> log_events cbs (concat ess) s = Inr s')" for xs
    using assms(3)
  proof (induction xs arbitrary: s)
    case Nil
    then show ?case by auto
  next
    case (Cons x xs)
    have "foldE step (x # xs) s = Inr s' \<longleftrightarrow> (\<exists>s1. step x s = Inr s1 \<and> foldE step xs s1 = Inr s')" by simp
    also have "\<dots> \<longleftrightarrow> (\<exists>s1 es. f x = Inr es \<and> log_events cbs es s = Inr s1 \<and>
        (\<exists>ess. mapE f xs = Inr ess \<and> log_events cbs (concat ess) s1 = Inr s'))"
      using assms(1) [OF Cons.prems] assms(2) [OF Cons.prems] Cons.IH by blast
    also have "\<dots> \<longleftrightarrow> (\<exists>ess. mapE f (x # xs) = Inr ess \<and> log_events cbs (concat ess) s = Inr s')"
      by (auto simp: log_events_append)
    finally show ?case .
  qed
  then show ?thesis
    by (cases items) (auto simp: each_item_def item_changes_def)
qed

text \<open>The handler refines the pure computation: it returns exactly when the computation and the
  logging of its events do, and then logs those events and keeps the message.\<close>

lemma pod_object_update_refines:
  "pod_object_update_state cbs pt now (PodObjectRawEvent raw) s = Inr s' \<longleftrightarrow>
   (\<exists>es s1. pod_object_changes pt now (last_status (fst s) (por_pod_name raw)) raw = Inr es \<and>
      log_events cbs es s = Inr s1 \<and> s' = set_last_raw_pod raw s1)"
proof -
  define old where "old = last_status (fst s) (por_pod_name raw)"
  define P :: "kube_watcher_state \<times> 'a \<Rightarrow> bool" where
    "P = (\<lambda>s2. last_status (fst s2) (por_pod_name raw) = old)"
  have keep: "P s2 \<Longrightarrow> log_events cbs es s2 = Inr s3 \<Longrightarrow> P s3" for es s2 s3
    by (simp add: P_def last_status_log)
  have conds: "P s2 \<Longrightarrow> each_item items (log_condition_change cbs pt now raw) s2 = Inr s3 \<longleftrightarrow>
      (\<exists>es. item_changes items (condition_changes pt now (old ''conditions'') raw) = Inr es \<and>
            log_events cbs es s2 = Inr s3)" for items s2 s3
    by (rule each_item_eq [where P = P]) (auto simp: log_condition_change_eq P_def dest: last_status_log)
  have conts: "P s2 \<Longrightarrow> each_item items (log_container_change cbs now raw) s2 = Inr s3 \<longleftrightarrow>
      (\<exists>es. item_changes items (container_changes now (old ''containerStatuses'') raw) = Inr es \<and>
            log_events cbs es s2 = Inr s3)" for items s2 s3
    by (rule each_item_eq [where P = P]) (auto simp: log_container_change_eq P_def dest: last_status_log)
  have P0: "P s" by (simp add: P_def old_def)
  show ?thesis
  proof (cases "por_type raw \<in> set known_types \<and> por_type raw \<noteq> ''DELETED''")
    case False
    then show ?thesis
      by (auto simp: pod_object_update_state_def pod_object_changes_def known_types_def)
  next
    case True
    have step1: "log_phase_change cbs now raw s = log_events cbs (phase_changes now (old ''phase'') raw) s"
      by (simp add: log_phase_change_eq old_def)
    define A where "A = (\<lambda>s1. log_events cbs (phase_changes now (old ''phase'') raw) s = Inr s1)"
    define C where "C = (\<lambda>cs. item_changes (map_of (por_status raw) ''conditions'')
                     (condition_changes pt now (old ''conditions'') raw) = Inr cs)"
    define S where "S = (\<lambda>ss. item_changes (map_of (por_status raw) ''containerStatuses'')
                     (container_changes now (old ''containerStatuses'') raw) = Inr ss)"
    define B1 where "B1 = each_item (map_of (por_status raw) ''conditions'') (log_condition_change cbs pt now raw)"
    define B2 where "B2 = each_item (map_of (por_status raw) ''containerStatuses'') (log_container_change cbs now raw)"
    have p1: "A s1 \<Longrightarrow> P s1" for s1 using keep [OF P0] by (simp add: A_def)
    have c: "A s1 \<Longrightarrow> B1 s1 = Inr s2 \<longleftrightarrow> (\<exists>cs. C cs \<and> log_events cbs cs s1 = Inr s2)" for s1 s2
      using conds [OF p1] by (simp add: C_def B1_def)
    have d: "P s2 \<Longrightarrow> B2 s2 = Inr s3 \<longleftrightarrow> (\<exists>ss. S ss \<and> log_events cbs ss s2 = Inr s3)" for s2 s3
      using conts by (simp add: S_def B2_def)
    have "pod_object_update_state cbs pt now (PodObjectRawEvent raw) s = Inr s' \<longleftrightarrow>
      (\<exists>s1 s2 s3. A s1 \<and> B1 s1 = Inr s2 \<and> B2 s2 = Inr s3 \<and> s' = set_last_raw_pod raw s3)"
      using True by (auto simp: pod_object_update_state_def step1 A_def B1_def B2_def)
    also have "\<dots> \<longleftrightarrow> (\<exists>s1 s2 s3 cs ss. A s1 \<and> C cs \<and> log_events cbs cs s1 = Inr s2 \<and>
         S ss \<and> log_events cbs ss s2 = Inr s3 \<and> s' = set_last_raw_pod raw s3)"
    proof (intro iffI; elim exE conjE)
      fix s1 s2 s3
      assume h: "A s1" "B1 s1 = Inr s2" "B2 s2 = Inr s3" "s' = set_last_raw_pod raw s3"
      from c [OF h(1), of s2] h(2) obtain cs where cs: "C cs" "log_events cbs cs s1 = Inr s2" by auto
      from d [OF keep [OF p1 [OF h(1)] cs(2)], of s3] h(3) obtain ss where
        ss: "S ss" "log_events cbs ss s2 = Inr s3" by auto
      show "\<exists>s1 s2 s3 cs ss. A s1 \<and> C cs \<and> log_events cbs cs s1 = Inr s2 \<and> S ss \<and>
          log_events cbs ss s2 = Inr s3 \<and> s' = set_last_raw_pod raw s3"
        using h(1,4) cs ss by blast
    next
      fix s1 s2 s3 cs ss
      assume h: "A s1" "C cs" "log_events cbs cs s1 = Inr s2" "S ss" "log_events cbs ss s2 = Inr s3"
        "s' = set_last_raw_pod raw s3"
      have "B1 s1 = Inr s2" using c [OF h(1), of s2] h(2,3) by auto
      moreover have "B2 s2 = Inr s3" using d [OF keep [OF p1 [OF h(1)] h(3)], of s3] h(4,5) by auto
      ultimately show "\<exists>s1 s2 s3. A s1 \<and> B1 s1 = Inr s2 \<and> B2 s2 = Inr s3 \<and> s' = set_last_raw_pod raw s3"
        using h(1,6) by blast
    qed
    also have "\<dots> \<longleftrightarrow> (\<exists>es s1. pod_object_changes pt now old raw = Inr es \<and>
        log_events cbs es s = Inr s1 \<and> s' = set_last_raw_pod raw s1)"
      using True by (auto simp: pod_object_changes_def log_events_append A_def C_def S_def)
    finally show ?thesis by (simp add: old_def)
  qed
qed

section \<open>Queues and replays\<close>

definition event_pod :: "logged_event \<Rightarrow> string option" where
  "event_pod e = (case e of PodLoggedEvent p \<Rightarrow> Some (pe_pod_name p) | NodeLoggedEvent _ \<Rightarrow> None)"

lemma enqueue_get: "map_of (enqueue k e q) k' =
    (if k' = k then Some ((case map_of q k of None \<Rightarrow> [] | Some es \<Rightarrow> es) @ [e]) else map_of q k')"
  by (auto simp: enqueue_def Let_def dict_has_def split: option.split)

definition pod_queue :: "kube_watcher_state \<Rightarrow> string \<Rightarrow> logged_event list" where
  "pod_queue ks pod = (case map_of (event_queues_per_pod ks) pod of None \<Rightarrow> [] | Some es \<Rightarrow> es)"

lemma pod_log_queue:
  assumes "pod_log_event_and_callback cbs e s = Inr s'"
  shows "pod_queue (fst s') p = (if event_pod e = Some p then pod_queue (fst s) p @ [e] else pod_queue (fst s) p)"
proof (cases "(cbs, e, s)" rule: pod_log_event_and_callback.cases)
  case (1 cbs' pe ks w)
  with assms show ?thesis
    by (auto simp: pod_queue_def enqueue_get event_pod_def split: option.split)
next
  case (2 cbs' ne s0)
  with assms show ?thesis by simp
qed

lemma log_events_queue:
  assumes "log_events cbs es s = Inr s'"
  shows "pod_queue (fst s') p = pod_queue (fst s) p @ filter (\<lambda>e. event_pod e = Some p) es"
  using assms
proof (induction es arbitrary: s)
  case Nil
  then show ?case by simp
next
  case (Cons e es)
  from Cons.prems obtain s1 where s1: "pod_log_event_and_callback cbs e s = Inr s1" "log_events cbs es s1 = Inr s'"
    by (auto simp: log_events_def)
  show ?case using Cons.IH [OF s1(2)] pod_log_queue [OF s1(1), of p] by simp
qed

lemma event_pod_object [simp]: "event_pod (pod_object_event t c d ct now raw) = Some (por_pod_name raw)"
  by (simp add: event_pod_def pod_object_event_def)

lemma item_changes_set:
  assumes "item_changes items f = Inr es" "\<And>d fs. f d = Inr fs \<Longrightarrow> set fs \<subseteq> A"
  shows "set es \<subseteq> A"
proof -
  have "mapE f ds = Inr ess \<Longrightarrow> set (concat ess) \<subseteq> A" for ds ess
  proof (induction ds arbitrary: ess)
    case Nil
    then show ?case by simp
  next
    case (Cons d ds)
    then obtain fs ess' where h: "f d = Inr fs" "mapE f ds = Inr ess'" "ess = fs # ess'" by auto
    show ?case using assms(2) [OF h(1)] Cons.IH [OF h(2)] by (simp add: h(3))
  qed
  note m = this
  show ?thesis
  proof (cases items)
    case None
    then show ?thesis using assms(1) by (simp add: item_changes_def)
  next
    case (Some v)
    then obtain ds ess where "mapE f ds = Inr ess" "es = concat ess"
      using assms(1) by (auto simp: item_changes_def)
    then show ?thesis using m by simp
  qed
qed

lemma pod_object_changes_pod:
  assumes "pod_object_changes pt now old raw = Inr es"
  shows "\<forall>e\<in>set es. event_pod e = Some (por_pod_name raw)"
proof -
  define A where "A = {e. event_pod e = Some (por_pod_name raw)}"
  have 1: "condition_changes pt now l raw c = Inr fs \<Longrightarrow> set fs \<subseteq> A" for l c fs
    by (auto simp: condition_changes_def A_def split: if_splits)
  have 2: "container_changes now l raw c = Inr fs \<Longrightarrow> set fs \<subseteq> A" for l c fs
    by (auto simp: container_changes_def A_def CONTAINER_CHANGES_def split: if_splits)
  have 3: "set (phase_changes now l raw) \<subseteq> A" for l
    by (auto simp: phase_changes_def A_def split: option.split)
  have "set es \<subseteq> A"
  proof (cases "por_type raw = ''DELETED''")
    case True
    then show ?thesis using assms by (auto simp: pod_object_changes_def A_def split: if_splits)
  next
    case False
    with assms obtain cs ss where h:
      "item_changes (map_of (por_status raw) ''conditions'') (condition_changes pt now (old ''conditions'') raw) = Inr cs"
      "item_changes (map_of (por_status raw) ''containerStatuses'') (container_changes now (old ''containerStatuses'') raw) = Inr ss"
      "es = phase_changes now (old ''phase'') raw @ cs @ ss"
      by (auto simp: pod_object_changes_def split: if_splits)
    have "set cs \<subseteq> A" by (rule item_changes_set [OF h(1) 1])
    moreover have "set ss \<subseteq> A" by (rule item_changes_set [OF h(2) 2])
    ultimately show ?thesis using 3 h(3) by simp
  qed
  then show ?thesis by (auto simp: A_def)
qed

text \<open>Lists Kubernetes keys by a field: the field is a string and unique in the list.\<close>

definition keyed :: "string \<Rightarrow> pydict list \<Rightarrow> bool" where
  "keyed key ds \<longleftrightarrow> distinct (map (\<lambda>d. map_of d key) ds) \<and>
     list_all (\<lambda>d. pv_wf (PDict d) \<and> (case map_of d key of Some (PStr _) \<Rightarrow> True | _ \<Rightarrow> False)) ds"

definition keyed_items :: "string \<Rightarrow> pyval option \<Rightarrow> bool" where
  "keyed_items key items =
     (case items of None \<Rightarrow> True
      | Some v \<Rightarrow> (case dict_list v of Inl _ \<Rightarrow> False | Inr ds \<Rightarrow> keyed key ds))"

definition raw_wf :: "pod_object_raw \<Rightarrow> bool" where
  "raw_wf raw \<longleftrightarrow> (por_type raw = ''ADDED'' \<or> por_type raw = ''MODIFIED'') \<and>
     pv_wf (PDict (por_status raw)) \<and>
     keyed_items ''type'' (map_of (por_status raw) ''conditions'') \<and>
     keyed_items ''name'' (map_of (por_status raw) ''containerStatuses'')"

lemma keyed_string:
  assumes "keyed key ds" "d \<in> set ds"
  obtains a where "map_of d key = Some (PStr a)"
proof -
  have "case map_of d key of Some (PStr _) \<Rightarrow> True | _ \<Rightarrow> False"
    using assms unfolding keyed_def list_all_iff by blast
  then show ?thesis using that by (auto split: option.splits pyval.splits)
qed

lemma find_matching_self:
  "keyed key ds \<Longrightarrow> c \<in> set ds \<Longrightarrow> find_matching key c ds = Inr (Some c)"
proof (induction ds)
  case Nil
  then show ?case by simp
next
  case (Cons d ds)
  obtain a where a: "map_of d key = Some (PStr a)"
    using keyed_string [OF Cons.prems(1), of d] by auto
  show ?case
  proof (cases "c = d")
    case True
    then show ?thesis using a by (simp add: dict_lookup_def)
  next
    case False
    with Cons.prems have c: "c \<in> set ds" "keyed key ds" by (auto simp: keyed_def)
    obtain b where b: "map_of c key = Some (PStr b)"
      using keyed_string [OF c(2,1)] by auto
    have "a \<noteq> b" using Cons.prems(1) c(1) a b by (force simp: keyed_def)
    then show ?thesis using Cons.IH [OF c(2,1)] a b by (simp add: dict_lookup_def)
  qed
qed

lemma mapE_const: "(\<And>x. x \<in> set xs \<Longrightarrow> f x = Inr []) \<Longrightarrow> mapE f xs = Inr (map (\<lambda>_. []) xs)"
  by (induction xs) auto

lemma item_changes_none:
  assumes "keyed_items key items"
    and "\<And>ds c. items \<noteq> None \<Longrightarrow> dict_list (the items) = Inr ds \<Longrightarrow> keyed key ds \<Longrightarrow> c \<in> set ds \<Longrightarrow> f c = Inr []"
  shows "item_changes items f = Inr []"
proof (cases items)
  case None
  then show ?thesis by (simp add: item_changes_def)
next
  case (Some v)
  then obtain ds where ds: "dict_list v = Inr ds" "keyed key ds"
    using assms(1) by (auto simp: keyed_items_def split: sum.splits)
  have "mapE f ds = Inr (map (\<lambda>_. []) ds)" using assms(2) Some ds by (intro mapE_const) auto
  then show ?thesis using Some ds by (simp add: item_changes_def)
qed

lemma self_changes_none:
  assumes "raw_wf raw"
  shows "pod_object_changes pt now (map_of (por_status raw)) raw = Inr []"
proof -
  have ty: "por_type raw \<in> set known_types" "por_type raw \<noteq> ''DELETED''"
    using assms by (auto simp: raw_wf_def known_types_def)
  have wf: "map_of (por_status raw) k = Some v \<Longrightarrow> pv_wf v" for k v
    using assms by (auto simp: raw_wf_def list_all_iff dest!: map_of_SomeD)
  have self: "equal_dicts (Some c) (Some c) ks" if "keyed key ds" "c \<in> set ds" for key ds c ks
    using that by (intro equal_dicts_refl) (simp add: keyed_def list_all_iff)
  have conds: "item_changes (map_of (por_status raw) ''conditions'')
      (condition_changes pt now (map_of (por_status raw) ''conditions'') raw) = Inr []"
  proof (rule item_changes_none [where key = "''type''"])
    show "keyed_items ''type'' (map_of (por_status raw) ''conditions'')" using assms by (simp add: raw_wf_def)
    fix ds c assume h: "map_of (por_status raw) ''conditions'' \<noteq> None"
      "dict_list (the (map_of (por_status raw) ''conditions'')) = Inr ds" "keyed ''type'' ds" "c \<in> set ds"
    then show "condition_changes pt now (map_of (por_status raw) ''conditions'') raw c = Inr []"
      using find_matching_self [OF h(3,4)] self [OF h(3,4)]
      by (auto simp: condition_changes_def last_matching_def)
  qed
  have conts: "item_changes (map_of (por_status raw) ''containerStatuses'')
      (container_changes now (map_of (por_status raw) ''containerStatuses'') raw) = Inr []"
  proof (rule item_changes_none [where key = "''name''"])
    show "keyed_items ''name'' (map_of (por_status raw) ''containerStatuses'')" using assms by (simp add: raw_wf_def)
    fix ds c assume h: "map_of (por_status raw) ''containerStatuses'' \<noteq> None"
      "dict_list (the (map_of (por_status raw) ''containerStatuses'')) = Inr ds" "keyed ''name'' ds" "c \<in> set ds"
    then show "container_changes now (map_of (por_status raw) ''containerStatuses'') raw c = Inr []"
      using find_matching_self [OF h(3,4)] self [OF h(3,4)]
      by (auto simp: container_changes_def last_matching_def CONTAINER_CHANGES_def)
  qed
  have "phase_changes now (map_of (por_status raw) ''phase'') raw = []"
    using wf py_eq_refl by (auto simp: phase_changes_def split: option.split)
  then show ?thesis using conds conts ty by (simp add: pod_object_changes_def)
qed

lemma update_twice [simp]: "AList.update k v (AList.update k v d) = AList.update k v d"
  by (induction d) auto

lemma last_status_set: "last_status (fst (set_last_raw_pod raw s)) (por_pod_name raw) = map_of (por_status raw)"
  by (simp add: last_status_def set_last_raw_pod_def fun_eq_iff)

section \<open>Health counters\<close>

lemma health_store_lookup:
  assumes "health_store pod c probe n ks = Inr ks'"
  shows "health_lookup ks' p c' probe' =
    (if p = pod \<and> c' = c \<and> probe' = probe then Inr n else health_lookup ks p c' probe')"
proof -
  from assms obtain pc cs where h: "map_of (unhealthy_count ks) pod = Some pc" "map_of pc c = Some cs"
    "ks' = ks\<lparr>unhealthy_count := dict_put pod (dict_put c (dict_put probe n cs) pc) (unhealthy_count ks)\<rparr>"
    by (auto simp: health_store_def)
  then show ?thesis
    by (cases "p = pod"; cases "c' = c"; cases "probe' = probe")
      (simp_all add: health_lookup_def dict_lookup_def)
qed

text \<open>The containers of a pod that have counters.\<close>

definition counted :: "kube_watcher_state \<Rightarrow> string \<Rightarrow> string option \<Rightarrow> bool" where
  "counted ks pod c =
     (case map_of (unhealthy_count ks) pod of
        None \<Rightarrow> False
      | Some per_container \<Rightarrow>
          (case map_of per_container c of
             None \<Rightarrow> False
           | Some counts \<Rightarrow> list_all (dict_has counts) [''startup'', ''liveness'', ''readiness'']))"

lemma counted_lookup:
  "counted ks pod c \<Longrightarrow> probe \<in> {''startup'', ''liveness'', ''readiness''} \<Longrightarrow>
   \<exists>n. health_lookup ks pod c probe = Inr n"
  by (auto simp: counted_def health_lookup_def dict_lookup_def dict_has_def split: option.splits)

lemma counted_store:
  assumes "health_store pod c probe n ks = Inr ks'" "counted ks p c'"
  shows "counted ks' p c'"
  using assms by (auto simp: health_store_def counted_def split: option.splits if_splits)

definition probe_of_message :: "string \<Rightarrow> string option" where
  "probe_of_message m =
     (if startswith m ''Startup'' then Some ''startup''
      else if startswith m ''Liveness'' then Some ''liveness''
      else if startswith m ''Readiness'' then Some ''readiness'' else None)"

lemma unhealthy_update_counts:
  assumes "unhealthy_update pod c m ks = Inr (reason, n, ks')"
  shows "\<exists>probe k. probe_of_message m = Some probe \<and>
      health_lookup (ensure_pod_counts pod c ks) pod c probe = Inr k \<and> n = k + 1 \<and>
      health_lookup ks' pod c probe = Inr (k + 1) \<and>
      (\<forall>p c' pr. (p, c', pr) \<noteq> (pod, c, probe) \<longrightarrow>
         health_lookup ks' p c' pr = health_lookup (ensure_pod_counts pod c ks) p c' pr)"
  using assms
  by (auto simp: unhealthy_update_def probe_of_message_def Let_def health_store_lookup
      split: if_splits)

end
