(* ===== verification/KubeWatcher.thy ===== *)
theory KubeWatcher
  imports KubeLogs
begin

text \<open>
  \<^verbatim>\<open>perf/kube_watcher/kube_watcher.py\<close>: the watch loops over the streams Kubernetes delivers, with
  the deduplication by resource version of the kube-event channels, and starting and
  stopping the channel threads; then the properties of watcher and logs. A stream is given
  as the batches \<open>watcher.stream\<close> delivers, each message with the value of \<open>self.running\<close> read
  after it arrived.
\<close>

section \<open>Watch loops\<close>

record 's watch_state =
  last_resource_version :: string
  seen_resource_versions :: "string list"
  ws_log :: 's

text \<open>One \<open>watcher.stream\<close> call of \<open>_watch_kube_events_blocking\<close>.\<close>

fun watch_kube_batch :: "(kube_raw \<Rightarrow> 's \<Rightarrow> 's pyres) \<Rightarrow> (bool \<times> kube_raw) list \<Rightarrow> 's watch_state \<Rightarrow> 's watch_state pyres" where
  "watch_kube_batch update_state [] ws = Inr ws"
| "watch_kube_batch update_state ((running, raw_event) # messages) ws =
     (if \<not> running then Inr ws
      else
        let ws1 = ws\<lparr>last_resource_version := kr_resource_version raw_event\<rparr>
        in if kr_resource_version raw_event \<in> set (seen_resource_versions ws1)
           then watch_kube_batch update_state messages ws1
           else
             let ws2 = ws1\<lparr>seen_resource_versions := kr_resource_version raw_event # seen_resource_versions ws1\<rparr>
             in bindE (update_state raw_event (ws_log ws2)) (\<lambda>l.
                  watch_kube_batch update_state messages (ws2\<lparr>ws_log := l\<rparr>)))"

text \<open>The \<open>while self.running\<close> loop: one flag and one batch per iteration.\<close>

fun watch_kube_events :: "(kube_raw \<Rightarrow> 's \<Rightarrow> 's pyres) \<Rightarrow> (bool \<times> (bool \<times> kube_raw) list) list \<Rightarrow> 's watch_state \<Rightarrow> 's watch_state pyres" where
  "watch_kube_events update_state [] ws = Inr ws"
| "watch_kube_events update_state ((running, batch) # rest) ws =
     (if \<not> running then Inr ws
      else bindE (watch_kube_batch update_state batch ws) (watch_kube_events update_state rest))"

definition watch_kube_events_blocking :: "string \<Rightarrow> (kube_raw \<Rightarrow> 's \<Rightarrow> 's pyres) \<Rightarrow> (bool \<times> (bool \<times> kube_raw) list) list \<Rightarrow> 's \<Rightarrow> 's pyres" where
  "watch_kube_events_blocking list_resource_version update_state stream events_log =
     bindE (watch_kube_events update_state stream
              \<lparr>last_resource_version = list_resource_version, seen_resource_versions = [], ws_log = events_log\<rparr>)
       (\<lambda>ws. Inr (ws_log ws))"

text \<open>The object channels turn every message into a raw event and log it.\<close>

fun watch_object_batch :: "(watch_message \<Rightarrow> raw_event pyres) \<Rightarrow> (raw_event \<Rightarrow> 's \<Rightarrow> 's pyres) \<Rightarrow> (bool \<times> watch_message) list \<Rightarrow> 's \<Rightarrow> 's pyres" where
  "watch_object_batch parse update_state [] s = Inr s"
| "watch_object_batch parse update_state ((running, message) # messages) s =
     (if \<not> running then Inr s
      else bindE (parse message) (\<lambda>raw_event.
           bindE (update_state raw_event s) (watch_object_batch parse update_state messages)))"

fun watch_objects :: "(watch_message \<Rightarrow> raw_event pyres) \<Rightarrow> (raw_event \<Rightarrow> 's \<Rightarrow> 's pyres) \<Rightarrow> (bool \<times> (bool \<times> watch_message) list) list \<Rightarrow> 's \<Rightarrow> 's pyres" where
  "watch_objects parse update_state [] s = Inr s"
| "watch_objects parse update_state ((running, batch) # rest) s =
     (if \<not> running then Inr s
      else bindE (watch_object_batch parse update_state batch s) (watch_objects parse update_state rest))"

definition watch_pod_object_events_blocking :: "(raw_event \<Rightarrow> 's \<Rightarrow> 's pyres) \<Rightarrow> (bool \<times> (bool \<times> watch_message) list) list \<Rightarrow> 's \<Rightarrow> 's pyres" where
  "watch_pod_object_events_blocking =
     watch_objects (\<lambda>m. bindE (pod_object_raw_event m) (\<lambda>r. Inr (PodObjectRawEvent r)))"

definition watch_node_object_events_blocking :: "(raw_event \<Rightarrow> 's \<Rightarrow> 's pyres) \<Rightarrow> (bool \<times> (bool \<times> watch_message) list) list \<Rightarrow> 's \<Rightarrow> 's pyres" where
  "watch_node_object_events_blocking =
     watch_objects (\<lambda>m. bindE (node_object_raw_event m) (\<lambda>r. Inr (NodeObjectRawEvent r)))"

section \<open>Starting and stopping\<close>

text \<open>A channel is its thread's life (a \<^verbatim>\<open>Thread\<close> can be started once) and whether its stream was
  told to stop.\<close>

datatype thread_life = NotStarted | Started | Joined

record kube_watcher =
  kw_running :: bool
  kw_threads :: "(string, thread_life) dict"
  kw_stopped_streams :: "string list"

definition CHANNELS :: "string list" where
  "CHANNELS = [''CHANNEL_NODE_KUBE_EVENTS'', ''CHANNEL_NODE_OBJECT_EVENTS'',
               ''CHANNEL_DF_POD_KUBE_EVENTS'', ''CHANNEL_DF_POD_OBJECT_EVENTS'']"

definition init_kube_watcher :: kube_watcher where
  "init_kube_watcher =
     \<lparr>kw_running = False, kw_threads = map (\<lambda>c. (c, NotStarted)) CHANNELS, kw_stopped_streams = []\<rparr>"

definition thread_start :: "string \<Rightarrow> kube_watcher \<Rightarrow> kube_watcher pyres" where
  "thread_start name kw =
     bindE (dict_lookup (kw_threads kw) name) (\<lambda>life.
       if life = NotStarted then Inr (kw\<lparr>kw_threads := dict_put name Started (kw_threads kw)\<rparr>)
       else Inl RuntimeError)"

definition thread_join :: "string \<Rightarrow> kube_watcher \<Rightarrow> kube_watcher pyres" where
  "thread_join name kw =
     bindE (dict_lookup (kw_threads kw) name) (\<lambda>life.
       if life = NotStarted then Inl RuntimeError
       else Inr (kw\<lparr>kw_threads := dict_put name Joined (kw_threads kw)\<rparr>))"

definition watcher_stop :: "string \<Rightarrow> kube_watcher \<Rightarrow> kube_watcher pyres" where
  "watcher_stop name kw =
     bindE (dict_lookup (kw_threads kw) name) (\<lambda>_.
       Inr (kw\<lparr>kw_stopped_streams := name # kw_stopped_streams kw\<rparr>))"

definition kube_watcher_start :: "string list \<Rightarrow> kube_watcher \<Rightarrow> kube_watcher pyres" where
  "kube_watcher_start channels kw =
     (if kw_running kw then Inr kw
      else foldE thread_start channels (kw\<lparr>kw_running := True\<rparr>))"

definition kube_watcher_stop :: "string list \<Rightarrow> kube_watcher \<Rightarrow> kube_watcher pyres" where
  "kube_watcher_stop channels kw =
     (if \<not> kw_running kw then Inr kw
      else bindE (foldE watcher_stop channels (kw\<lparr>kw_running := False\<rparr>)) (foldE thread_join channels))"

section \<open>The watch loop handles every resource version once\<close>

text \<open>The messages a run delivers while it is running, in order.\<close>

fun delivered_batch :: "(bool \<times> 'm) list \<Rightarrow> 'm list" where
  "delivered_batch [] = []"
| "delivered_batch ((running, m) # ms) = (if running then m # delivered_batch ms else [])"

fun delivered :: "(bool \<times> (bool \<times> 'm) list) list \<Rightarrow> 'm list" where
  "delivered [] = []"
| "delivered ((running, b) # bs) = (if running then delivered_batch b @ delivered bs else [])"

text \<open>The first message of every resource version not in \<open>seen\<close>.\<close>

fun fresh_messages :: "string list \<Rightarrow> kube_raw list \<Rightarrow> kube_raw list" where
  "fresh_messages seen [] = []"
| "fresh_messages seen (m # ms) =
     (if kr_resource_version m \<in> set seen then fresh_messages seen ms
      else m # fresh_messages (kr_resource_version m # seen) ms)"

lemma fresh_cong: "set seen = set seen' \<Longrightarrow> fresh_messages seen ms = fresh_messages seen' ms"
proof (induction ms arbitrary: seen seen')
  case (Cons m ms)
  have "fresh_messages (kr_resource_version m # seen) ms = fresh_messages (kr_resource_version m # seen') ms"
    by (rule Cons.IH) (simp add: Cons.prems)
  then show ?case using Cons.IH [OF Cons.prems] Cons.prems by simp
qed simp

lemma fresh_append:
  "fresh_messages seen (xs @ ys) =
   fresh_messages seen xs @ fresh_messages (map kr_resource_version xs @ seen) ys"
proof (induction xs arbitrary: seen)
  case Nil
  then show ?case by simp
next
  case (Cons x xs)
  have "fresh_messages (map kr_resource_version xs @ kr_resource_version x # seen) ys =
      fresh_messages (kr_resource_version x # map kr_resource_version xs @ seen) ys"
    by (rule fresh_cong) auto
  moreover have "kr_resource_version x \<in> set seen \<Longrightarrow>
      fresh_messages (map kr_resource_version xs @ seen) ys =
      fresh_messages (kr_resource_version x # map kr_resource_version xs @ seen) ys"
    by (rule fresh_cong) auto
  ultimately show ?case using Cons.IH by simp
qed

lemma fresh_distinct:
  "distinct (map kr_resource_version (fresh_messages seen ms)) \<and>
   set (map kr_resource_version (fresh_messages seen ms)) =
     set (map kr_resource_version ms) - set seen"
  by (induction ms arbitrary: seen) auto

lemma watch_kube_batch_spec:
  "watch_kube_batch up b ws = Inr ws' \<Longrightarrow>
   foldE up (fresh_messages (seen_resource_versions ws) (delivered_batch b)) (ws_log ws) = Inr (ws_log ws') \<and>
   set (seen_resource_versions ws') =
     set (seen_resource_versions ws) \<union> set (map kr_resource_version (delivered_batch b))"
proof (induction up b ws rule: watch_kube_batch.induct)
  case (1 up ws)
  then show ?case by simp
next
  case (2 up running raw ms ws)
  then show ?case by (auto simp: Let_def split: if_splits)
qed

lemma watch_kube_events_spec:
  "watch_kube_events up bs ws = Inr ws' \<Longrightarrow>
   foldE up (fresh_messages (seen_resource_versions ws) (delivered bs)) (ws_log ws) = Inr (ws_log ws')"
proof (induction bs arbitrary: ws)
  case Nil
  then show ?case by simp
next
  case (Cons rb bs)
  obtain r b where rb: "rb = (r, b)" by (cases rb)
  show ?case
  proof (cases r)
    case False
    then show ?thesis using Cons.prems rb by simp
  next
    case True
    with Cons.prems rb obtain ws1 where ws1: "watch_kube_batch up b ws = Inr ws1"
      "watch_kube_events up bs ws1 = Inr ws'" by auto
    note b = watch_kube_batch_spec [OF ws1(1)]
    have "fresh_messages (map kr_resource_version (delivered_batch b) @ seen_resource_versions ws) (delivered bs)
        = fresh_messages (seen_resource_versions ws1) (delivered bs)"
      using b by (intro fresh_cong) auto
    then show ?thesis using True rb b Cons.IH [OF ws1(2)] by (simp add: fresh_append foldE_append)
  qed
qed

section \<open>Counters over a run\<close>

definition health_value :: "kube_watcher_state \<Rightarrow> string \<Rightarrow> string option \<Rightarrow> string \<Rightarrow> int" where
  "health_value ks pod c probe = (case health_lookup ks pod c probe of Inr n \<Rightarrow> n | Inl _ \<Rightarrow> 0)"

text \<open>The messages that report the failure of a probe of a container.\<close>

definition reports :: "string \<Rightarrow> string option \<Rightarrow> string \<Rightarrow> kube_raw \<Rightarrow> bool" where
  "reports pod c probe raw \<longleftrightarrow>
     kr_type raw \<in> {''ADDED'', ''MODIFIED''} \<and> kr_object_reason raw = ''Unhealthy'' \<and>
     kr_involved_object_name raw = pod \<and>
     container_of_path (kr_involved_object_field_path raw) = Inr c \<and>
     probe_of_message (kr_object_message raw) = Some probe"

lemma health_value_ensure [simp]: "health_value (ensure_pod_counts pod c ks) p c' pr = health_value ks p c' pr"
  by (auto simp: health_value_def ensure_pod_counts_def health_lookup_def dict_has_def dict_lookup_def
      initial_counts_def split: option.splits)

lemma pod_log_counts:
  "pod_log_event_and_callback cbs e s = Inr s' \<Longrightarrow> unhealthy_count (fst s') = unhealthy_count (fst s)"
  by (cases "(cbs, e, s)" rule: pod_log_event_and_callback.cases) auto

lemma health_value_cong: "unhealthy_count ks = unhealthy_count ks' \<Longrightarrow> health_value ks = health_value ks'"
  by (simp add: fun_eq_iff health_value_def health_lookup_def)

lemma unhealthy_update_value:
  assumes "unhealthy_update pod c m ks = Inr (reason, n, ks')"
  shows "health_value ks' p c' pr =
    health_value ks p c' pr + of_bool (p = pod \<and> c' = c \<and> probe_of_message m = Some pr)"
proof -
  from unhealthy_update_counts [OF assms] obtain probe k where h: "probe_of_message m = Some probe"
    "health_lookup (ensure_pod_counts pod c ks) pod c probe = Inr k"
    "health_lookup ks' pod c probe = Inr (k + 1)"
    "\<And>p c' pr. (p, c', pr) \<noteq> (pod, c, probe) \<Longrightarrow>
       health_lookup ks' p c' pr = health_lookup (ensure_pod_counts pod c ks) p c' pr" by blast
  have e: "health_value (ensure_pod_counts pod c ks) p c' pr = health_value ks p c' pr" by simp
  show ?thesis
  proof (cases "(p, c', pr) = (pod, c, probe)")
    case True
    then show ?thesis using h(1-3) e by (simp add: health_value_def)
  next
    case False
    then show ?thesis using h(1) h(4) [OF False] e by (auto simp: health_value_def)
  qed
qed

lemma pod_kube_update_value:
  assumes "pod_kube_update_state cbs now (KubeRawEvent raw) s = Inr s'"
  shows "health_value (fst s') p c pr = health_value (fst s) p c pr + of_bool (reports p c pr raw)"
proof (cases "kr_type raw \<in> {''ADDED'', ''MODIFIED''}")
  case False
  then show ?thesis using assms by (auto simp: pod_kube_update_state_def reports_def)
next
  case True
  with assms obtain cont reason n ks' where h:
    "container_of_path (kr_involved_object_field_path raw) = Inr cont"
    "pod_kube_reason cont raw (fst s) = Inr (reason, n, ks')"
    "pod_log_event_and_callback cbs (pod_kube_event cont (kube_data reason n (kr_object_message raw)) now raw)
       (ks', snd s) = Inr s'"
    by (auto simp: pod_kube_update_state_def)
  have v: "health_value (fst s') = health_value ks'"
    by (rule health_value_cong) (use pod_log_counts [OF h(3)] in simp)
  show ?thesis
  proof (cases "kr_object_reason raw = ''Unhealthy''")
    case True2: True
    with h(2) obtain reason2 m where "unhealthy_update (kr_involved_object_name raw) cont (kr_object_message raw) (fst s)
        = Inr (reason2, m, ks')" by (auto simp: pod_kube_reason_def)
    from unhealthy_update_value [OF this, of p c pr] show ?thesis
      using v True True2 h(1) by (auto simp: reports_def)
  next
    case False
    then show ?thesis using h(2) v by (simp add: reports_def pod_kube_reason_def)
  qed
qed

lemma pod_kube_updates_value:
  "foldE (\<lambda>raw. pod_kube_update_state cbs now (KubeRawEvent raw)) raws s = Inr s' \<Longrightarrow>
   health_value (fst s') p c pr = health_value (fst s) p c pr + int (length (filter (reports p c pr) raws))"
proof (induction raws arbitrary: s)
  case Nil
  then show ?case by simp
next
  case (Cons raw raws)
  from Cons.prems obtain s1 where s1: "pod_kube_update_state cbs now (KubeRawEvent raw) s = Inr s1"
    "foldE (\<lambda>raw. pod_kube_update_state cbs now (KubeRawEvent raw)) raws s1 = Inr s'" by auto
  show ?case using Cons.IH [OF s1(2)] pod_kube_update_value [OF s1(1), of p c pr] by simp
qed

section \<open>Properties\<close>

text \<open>C24. The pod-object log refines a pure difference. Handling a pod message returns exactly when
  the difference between the message and the last one of that pod can be computed and its
  events can be logged; it then logs precisely those events, in order: the pod's queue grows by
  them, no other queue changes, and the message becomes the last one.\<close>

theorem pod_object_update_spec:
  assumes "pod_object_update_state cbs pt now (PodObjectRawEvent raw) s = Inr s'"
  shows "\<exists>es. pod_object_changes pt now (last_status (fst s) (por_pod_name raw)) raw = Inr es \<and>
    (\<forall>p. pod_queue (fst s') p = (if p = por_pod_name raw then pod_queue (fst s) p @ es else pod_queue (fst s) p)) \<and>
    last_status (fst s') (por_pod_name raw) = map_of (por_status raw)"
proof -
  from assms pod_object_update_refines [of cbs pt now raw s s'] obtain es s1 where h:
    "pod_object_changes pt now (last_status (fst s) (por_pod_name raw)) raw = Inr es"
    "log_events cbs es s = Inr s1" "s' = set_last_raw_pod raw s1" by auto
  have q: "pod_queue (fst s') p = pod_queue (fst s1) p" for p
    by (simp add: h(3) set_last_raw_pod_def pod_queue_def)
  have "pod_queue (fst s') p = (if p = por_pod_name raw then pod_queue (fst s) p @ es else pod_queue (fst s) p)" for p
    using log_events_queue [OF h(2), of p] pod_object_changes_pod [OF h(1)] q [of p]
    by (auto simp: filter_id_conv filter_empty_conv)
  then show ?thesis using h by (auto simp: last_status_set)
qed

text \<open>A message, a state that has never seen its pod, no callbacks.\<close>

definition sample_raw :: pod_object_raw where
  "sample_raw = \<lparr>por_type = ''MODIFIED'', por_resource_version = ''7'', por_pod_name = ''pod-a'',
     por_status = [(''phase'', PStr ''Running''),
       (''conditions'', PList [PDict [(''type'', PStr ''Ready''), (''status'', PStr ''True'')]]),
       (''containerStatuses'', PList [PDict [(''name'', PStr ''redis''), (''started'', PBool True), (''restartCount'', PInt 0)]])]\<rparr>"

definition sample_state :: "kube_watcher_state \<times> nat" where
  "sample_state = (init_kube_watcher_state, 0)"

definition sample_callback :: "nat callback" where
  "sample_callback e n = Inr (n + 1)"

definition sample_step :: "kube_watcher_state \<times> nat" where
  "sample_step =
     (case pod_object_update_state [sample_callback] (\<lambda>_. Inl ValueError) 5 (PodObjectRawEvent sample_raw) sample_state
      of Inr s \<Rightarrow> s | Inl _ \<Rightarrow> sample_state)"

lemma sample_step_run:
  "pod_object_update_state [sample_callback] (\<lambda>_. Inl ValueError) 5 (PodObjectRawEvent sample_raw) sample_state
   = Inr sample_step"
  by code_simp

theorem pod_object_update_spec_witness:
  "last_status (fst sample_step) ''pod-a'' = map_of (por_status sample_raw) \<and>
   length (pod_queue (fst sample_step) ''pod-a'') = 6"
proof -
  have "por_pod_name sample_raw = ''pod-a''" by code_simp
  with pod_object_update_spec [OF sample_step_run]
  have "last_status (fst sample_step) ''pod-a'' = map_of (por_status sample_raw)" by auto
  moreover have "length (pod_queue (fst sample_step) ''pod-a'') = 6" by code_simp
  ultimately show ?thesis by simp
qed

text \<open>Replays are silent. After a well-formed message of a pod has been handled, handling the
  same message again, at any time and with any callbacks, logs nothing, calls no callback and
  changes no state.\<close>

theorem replay_logs_nothing:
  assumes "raw_wf raw" "pod_object_update_state cbs pt now (PodObjectRawEvent raw) s = Inr s'"
  shows "pod_object_update_state cbs' pt' now' (PodObjectRawEvent raw) s' = Inr s'"
proof -
  from assms(2) pod_object_update_refines [of cbs pt now raw s s'] obtain s1 where
    s1: "s' = set_last_raw_pod raw s1" by auto
  have "pod_object_changes pt' now' (last_status (fst s') (por_pod_name raw)) raw = Inr []"
    using self_changes_none [OF assms(1)] by (simp add: s1 last_status_set)
  moreover have "set_last_raw_pod raw s' = s'" by (simp add: s1 set_last_raw_pod_def)
  ultimately show ?thesis
    using pod_object_update_refines [of cbs' pt' now' raw s' s'] by (simp del: split_paired_Ex)
qed

theorem replay_logs_nothing_witness:
  "pod_object_update_state [sample_callback] (\<lambda>_. Inl ValueError) 9 (PodObjectRawEvent sample_raw) sample_step
   = Inr sample_step"
  by (rule replay_logs_nothing [OF _ sample_step_run]) code_simp

text \<open>Every resource version is handled at most once. A run of the watch loop over any stream
  of batches that returns has handled exactly the first message of every resource
  version delivered while the watcher was running, in the order of delivery.\<close>

theorem watch_handles_once:
  assumes "watch_kube_events_blocking rv up stream l = Inr l'"
  shows "foldE up (fresh_messages [] (delivered stream)) l = Inr l' \<and>
    distinct (map kr_resource_version (fresh_messages [] (delivered stream))) \<and>
    set (map kr_resource_version (fresh_messages [] (delivered stream))) =
      set (map kr_resource_version (delivered stream))"
  using assms fresh_distinct [of "[]" "delivered stream"]
  by (auto simp: watch_kube_events_blocking_def dest!: watch_kube_events_spec)

definition sample_kube :: "string \<Rightarrow> string \<Rightarrow> string \<Rightarrow> kube_raw" where
  "sample_kube rv container message =
     \<lparr>kr_type = ''ADDED'', kr_resource_version = rv, kr_object_kind = ''Event'', kr_object_type = ''Warning'',
      kr_object_reason = ''Unhealthy'', kr_object_message = message, kr_object_count = Some 1,
      kr_involved_object_kind = ''Pod'', kr_involved_object_name = ''pod-a'',
      kr_involved_object_field_path = Some (''spec.containers{'' @ container @ ''}''),
      kr_object_first_timestamp = None, kr_object_last_timestamp = Some 3,
      kr_creation_timestamp = None, kr_event_time = None\<rparr>"

definition sample_stream :: "(bool \<times> (bool \<times> kube_raw) list) list" where
  "sample_stream =
     [(True, [(True, sample_kube ''1'' ''redis'' ''Liveness probe failed''),
              (True, sample_kube ''2'' ''redis'' ''Startup probe failed'')]),
      (True, [(True, sample_kube ''2'' ''redis'' ''Startup probe failed'')]),
      (False, [])]"

theorem watch_handles_once_witness:
  "foldE (\<lambda>raw n. Inr (n + 1)) (fresh_messages [] (delivered sample_stream)) 0 = Inr (2 :: nat)"
proof -
  have "watch_kube_events_blocking ''0'' (\<lambda>raw n. Inr (n + 1)) sample_stream 0 = Inr (2 :: nat)" by code_simp
  from watch_handles_once [OF this] show ?thesis by simp
qed

text \<open>The unhealthy counters count. After any list of kube events has been handled, the counter
  of a probe of a container has grown by exactly the number of ADDED or MODIFIED Unhealthy
  messages of that pod and container about that probe; a counter that did not exist
  counts as zero.\<close>

theorem unhealthy_counters_count:
  assumes "foldE (\<lambda>raw. pod_kube_update_state cbs now (KubeRawEvent raw)) raws s = Inr s'"
  shows "health_value (fst s') p c probe =
    health_value (fst s) p c probe + int (length (filter (reports p c probe) raws))"
  by (rule pod_kube_updates_value [OF assms])

theorem unhealthy_counters_count_witness:
  "\<exists>s'. foldE (\<lambda>raw. pod_kube_update_state [sample_callback] 5 (KubeRawEvent raw))
           [sample_kube ''1'' ''redis'' ''Liveness probe failed'', sample_kube ''2'' ''redis'' ''Liveness probe failed'']
           sample_state = Inr s' \<and>
        health_value (fst s') ''pod-a'' (Some ''redis'') ''liveness'' = 2"
proof -
  define raws where "raws = [sample_kube ''1'' ''redis'' ''Liveness probe failed'', sample_kube ''2'' ''redis'' ''Liveness probe failed'']"
  have "\<not> isl (foldE (\<lambda>raw. pod_kube_update_state [sample_callback] 5 (KubeRawEvent raw)) raws sample_state)"
    unfolding raws_def by code_simp
  then obtain s' where s': "foldE (\<lambda>raw. pod_kube_update_state [sample_callback] 5 (KubeRawEvent raw)) raws sample_state = Inr s'"
    by (cases "foldE (\<lambda>raw. pod_kube_update_state [sample_callback] 5 (KubeRawEvent raw)) raws sample_state") simp_all
  have "length (filter (reports ''pod-a'' (Some ''redis'') ''liveness'') raws) = 2"
    "health_value (fst sample_state) ''pod-a'' (Some ''redis'') ''liveness'' = 0"
    unfolding raws_def by code_simp+
  with unhealthy_counters_count [OF s', of "''pod-a''" "Some ''redis''" "''liveness''"]
  have "health_value (fst s') ''pod-a'' (Some ''redis'') ''liveness'' = 2" by simp
  then show ?thesis using s' unfolding raws_def by blast
qed

text \<open>Counters exist for one container of a pod only. They are created with the first unhealthy
  container of a pod; an Unhealthy message about another container of that pod raises
  \<open>KeyError\<close>, whatever its text.\<close>

theorem second_container_raises:
  assumes "map_of (unhealthy_count ks) pod = None" "c' \<noteq> c"
    "unhealthy_update pod c message ks = Inr (reason, n, ks')"
  shows "unhealthy_update pod c' message' ks' = Inl KeyError"
proof -
  have "map_of (unhealthy_count (ensure_pod_counts pod c ks)) pod = Some [(c, initial_counts)]"
    using assms(1) by (simp add: ensure_pod_counts_def dict_has_def)
  then have "\<exists>counts. map_of (unhealthy_count ks') pod = Some [(c, counts)]"
    using assms(3) by (auto simp: unhealthy_update_def health_store_def Let_def split: if_splits)
  then show ?thesis using assms(2)
    by (auto simp: unhealthy_update_def ensure_pod_counts_def dict_has_def health_lookup_def
        dict_lookup_def Let_def)
qed

definition sample_counts :: "kube_watcher_state" where
  "sample_counts = \<lparr>event_queues_per_pod = [], event_queues_per_node = [], last_raw_event_per_pod = [],
     last_raw_event_per_node = [],
     unhealthy_count = [(''pod-a'', [(Some ''redis'', [(''startup'', 0), (''liveness'', 1), (''readiness'', 0)])])]\<rparr>"

theorem second_container_raises_witness:
  "unhealthy_update ''pod-a'' (Some ''data-feed-container'') ''Startup probe failed'' sample_counts = Inl KeyError"
proof -
  have "unhealthy_update ''pod-a'' (Some ''redis'') ''Liveness probe failed'' init_kube_watcher_state
      = Inr (''UnhealthyLiveness'', 1, sample_counts)" by code_simp
  from second_container_raises [OF _ _ this] show ?thesis
    by (simp add: init_kube_watcher_state_def)
qed

end
