(* ===== verification/PhaseResult.thy ===== *)
theory PhaseResult
  imports Events
begin

text \<open>
  \<^verbatim>\<open>perf/state/phase_result_state.py\<close> and its two subclasses: per pod, the phases it went
  through, the results it got and the \<open>threading.Event\<close> a worker thread waits on. The state
  is a record of the three dictionaries; an Event object is its flag. The local clock is an
  argument \<open>now\<close> (microseconds); what other threads do while a thread sleeps or waits is an
  argument too (\<open>env\<close>, \<open>during\<close>).
\<close>

record phase_result_state =
  phase_events_per_pod :: "(string, pod_logged_event list) dict"
  result_events_per_pod :: "(string, pod_logged_event list) dict"
  wait_event_per_pod :: "(string, bool) dict"

definition init_phase_result_state :: phase_result_state where
  "init_phase_result_state =
     \<lparr>phase_events_per_pod = [], result_events_per_pod = [], wait_event_per_pod = []\<rparr>"

section \<open>Interrupts of the two subclasses, timeouts\<close>

definition estimation_interrupts :: "event_type list" where
  "estimation_interrupts = map EstResult
     [PodEstimationResultEvent.INTERRUPTED_INTERNAL_ERROR,
      PodEstimationResultEvent.INTERRUPTED_TIMEOUT,
      PodEstimationResultEvent.INTERRUPTED_DF_CONTAINER_HEALTH_LIVENESS,
      PodEstimationResultEvent.INTERRUPTED_DF_CONTAINER_HEALTH_STARTUP,
      PodEstimationResultEvent.INTERRUPTED_UNEXPECTED_POD_DELETION,
      PodEstimationResultEvent.INTERRUPTED_UNEXPECTED_CONTAINER_TERMINATION,
      PodEstimationResultEvent.INTERRUPTED_OOM,
      PodEstimationResultEvent.INTERRUPTED_STOP]"

definition scheduling_interrupts :: "event_type list" where
  "scheduling_interrupts = map SchedResult
     [PodSchedulingResultEvent.INTERRUPTED_POD_NOT_FOUND,
      PodSchedulingResultEvent.INTERRUPTED_POD_ALREADY_EXISTS,
      PodSchedulingResultEvent.INTERRUPTED_TIMEOUT,
      PodSchedulingResultEvent.INTERRUPTED_INTERNAL_ERROR,
      PodSchedulingResultEvent.INTERRUPTED_STOP]"

definition DF_CONTAINER_PULL_IMAGE_TIMEOUT :: int where "DF_CONTAINER_PULL_IMAGE_TIMEOUT = 20 * 60"
definition POD_START_ESTIMATION_RUN_TIMEOUT :: int where "POD_START_ESTIMATION_RUN_TIMEOUT = 2 * 60"
definition POD_ESTIMATION_RUN_DURATION :: int where "POD_ESTIMATION_RUN_DURATION = RUN_ESTIMATION_FOR"
definition POD_SCHEDULED_TIMEOUT :: int where "POD_SCHEDULED_TIMEOUT = 2 * 60"
definition POD_DELETED_TIMEOUT :: int where "POD_DELETED_TIMEOUT = 2 * 60"

section \<open>Operations\<close>

text \<open>\<open>d[pod][-1]\<close> when the pod has an entry, \<open>None\<close> otherwise.\<close>

definition last_event_of :: "(string, pod_logged_event list) dict \<Rightarrow> string \<Rightarrow> pod_logged_event option pyres" where
  "last_event_of d pod =
     (case map_of d pod of None \<Rightarrow> Inr None | Some es \<Rightarrow> bindE (py_last es) (\<lambda>e. Inr (Some e)))"

definition get_last_result_event :: "'z phase_result_state_scheme \<Rightarrow> string \<Rightarrow> pod_logged_event option pyres" where
  "get_last_result_event st pod = last_event_of (result_events_per_pod st) pod"

definition get_last_result_event_type :: "'z phase_result_state_scheme \<Rightarrow> string \<Rightarrow> event_type option pyres" where
  "get_last_result_event_type st pod =
     bindE (get_last_result_event st pod) (\<lambda>e. Inr (map_option pe_type e))"

definition is_interrupted :: "event_type list \<Rightarrow> 'z phase_result_state_scheme \<Rightarrow> string \<Rightarrow> bool pyres" where
  "is_interrupted interrupts st pod =
     bindE (get_last_result_event_type st pod) (\<lambda>t. Inr (t \<in> Some ` set interrupts))"

definition has_result_type :: "'z phase_result_state_scheme \<Rightarrow> string \<Rightarrow> event_type \<Rightarrow> bool" where
  "has_result_type st pod t =
     (case map_of (result_events_per_pod st) pod of
        None \<Rightarrow> False
      | Some es \<Rightarrow> list_ex (\<lambda>e. pe_type e = t) es)"

definition add_result_event :: "int \<Rightarrow> pyval \<Rightarrow> string \<Rightarrow> event_type \<Rightarrow> 'z phase_result_state_scheme \<Rightarrow> 'z phase_result_state_scheme" where
  "add_result_event now data pod t st =
     (let event = \<lparr>pe_type = t, pe_pod_name = pod, pe_container_name = None, pe_data = data,
                   pe_cluster_time = None, pe_local_time = now, pe_raw_event = None\<rparr>
      in case map_of (result_events_per_pod st) pod of
           Some es \<Rightarrow> st\<lparr>result_events_per_pod := dict_put pod (es @ [event]) (result_events_per_pod st)\<rparr>
         | None \<Rightarrow> st\<lparr>result_events_per_pod := dict_put pod [event] (result_events_per_pod st)\<rparr>)"

definition get_last_phase_event :: "'z phase_result_state_scheme \<Rightarrow> string \<Rightarrow> pod_logged_event option pyres" where
  "get_last_phase_event st pod = last_event_of (phase_events_per_pod st) pod"

definition get_last_phase_event_type :: "'z phase_result_state_scheme \<Rightarrow> string \<Rightarrow> event_type option pyres" where
  "get_last_phase_event_type st pod =
     bindE (get_last_phase_event st pod) (\<lambda>e. Inr (map_option pe_type e))"

definition add_phase_event :: "int \<Rightarrow> string \<Rightarrow> event_type \<Rightarrow> 'z phase_result_state_scheme \<Rightarrow> 'z phase_result_state_scheme" where
  "add_phase_event now pod t st =
     (let event = \<lparr>pe_type = t, pe_pod_name = pod, pe_container_name = None, pe_data = PNone,
                   pe_cluster_time = None, pe_local_time = now, pe_raw_event = None\<rparr>
      in case map_of (phase_events_per_pod st) pod of
           Some es \<Rightarrow> st\<lparr>phase_events_per_pod := dict_put pod (es @ [event]) (phase_events_per_pod st)\<rparr>
         | None \<Rightarrow> st\<lparr>phase_events_per_pod := dict_put pod [event] (phase_events_per_pod st)\<rparr>)"

text \<open>The retry loop of \<open>wake_event\<close>: \<open>env n\<close> is what other threads do during the sleep
  with \<open>n\<close> sleeps left; it gives up after \<open>max_retries + 1\<close> sleeps.\<close>

fun await_wait_event :: "(nat \<Rightarrow> 'z phase_result_state_scheme \<Rightarrow> 'z phase_result_state_scheme) \<Rightarrow> string \<Rightarrow> nat \<Rightarrow> 'z phase_result_state_scheme \<Rightarrow> 'z phase_result_state_scheme" where
  "await_wait_event env pod 0 st = st"
| "await_wait_event env pod (Suc n) st =
     (if dict_has (wait_event_per_pod st) pod then st else await_wait_event env pod n (env n st))"

definition wake_event :: "(nat \<Rightarrow> 'z phase_result_state_scheme \<Rightarrow> 'z phase_result_state_scheme) \<Rightarrow> nat \<Rightarrow> string \<Rightarrow> 'z phase_result_state_scheme \<Rightarrow> 'z phase_result_state_scheme" where
  "wake_event env max_retries pod st =
     (let st' = await_wait_event env pod (Suc max_retries) st
      in if dict_has (wait_event_per_pod st') pod
         then st'\<lparr>wait_event_per_pod := dict_put pod True (wait_event_per_pod st')\<rparr>
         else st')"

text \<open>\<open>wait_event\<close> installs a fresh Event and blocks; \<open>during\<close> is what the other threads do
  until the flag is set or the timeout expires. The result is the flag.\<close>

definition wait_event :: "('z phase_result_state_scheme \<Rightarrow> 'z phase_result_state_scheme) \<Rightarrow> string \<Rightarrow> 'z phase_result_state_scheme \<Rightarrow> bool \<times> 'z phase_result_state_scheme" where
  "wait_event during pod st =
     (let st' = during (st\<lparr>wait_event_per_pod := dict_put pod False (wait_event_per_pod st)\<rparr>)
      in (map_of (wait_event_per_pod st') pod = Some True, st'))"

definition clean_phase_result_events :: "string \<Rightarrow> 'z phase_result_state_scheme \<Rightarrow> 'z phase_result_state_scheme" where
  "clean_phase_result_events pod st =
     (let st1 = (if dict_has (result_events_per_pod st) pod
                 then st\<lparr>result_events_per_pod := AList.delete pod (result_events_per_pod st)\<rparr> else st)
      in if dict_has (phase_events_per_pod st1) pod
         then st1\<lparr>phase_events_per_pod := AList.delete pod (phase_events_per_pod st1)\<rparr> else st1)"

definition clean_wait_event :: "string \<Rightarrow> 'z phase_result_state_scheme \<Rightarrow> 'z phase_result_state_scheme" where
  "clean_wait_event pod st =
     (if dict_has (wait_event_per_pod st) pod
      then st\<lparr>wait_event_per_pod := AList.delete pod (wait_event_per_pod st)\<rparr> else st)"

section \<open>The event stores\<close>

text \<open>The types of the results and phases of a pod, oldest first: the abstract view.\<close>

definition event_types :: "(string, pod_logged_event list) dict \<Rightarrow> string \<Rightarrow> event_type list" where
  "event_types d pod = (case map_of d pod of None \<Rightarrow> [] | Some es \<Rightarrow> map pe_type es)"

definition result_types :: "'z phase_result_state_scheme \<Rightarrow> string \<Rightarrow> event_type list" where
  "result_types st = event_types (result_events_per_pod st)"

definition phase_types :: "'z phase_result_state_scheme \<Rightarrow> string \<Rightarrow> event_type list" where
  "phase_types st = event_types (phase_events_per_pod st)"

text \<open>
  The interface the callbacks, the estimator and the scheduler rely on: a store of typed
  events per key, appended to and cleaned per key.
\<close>

locale event_store =
  fixes types :: "'s \<Rightarrow> 'k \<Rightarrow> 't list"
    and add :: "'k \<Rightarrow> 't \<Rightarrow> 's \<Rightarrow> 's"
    and clean :: "'k \<Rightarrow> 's \<Rightarrow> 's"
  assumes types_add: "types (add p t s) q = (if q = p then types s p @ [t] else types s q)"
    and types_clean: "types (clean p s) q = (if q = p then [] else types s q)"
begin

lemma types_add_same: "types (add p t s) p = types s p @ [t]"
  by (simp add: types_add)

lemma types_add_other: "q \<noteq> p \<Longrightarrow> types (add p t s) q = types s q"
  by (simp add: types_add)

lemma last_add: "last (types (add p t s) p) = t"
  by (simp add: types_add)

lemma types_add_nonempty: "types (add p t s) p \<noteq> []"
  by (simp add: types_add)

lemma set_types_add: "set (types (add p t s) q) = (if q = p then insert t (set (types s p)) else set (types s q))"
  by (auto simp: types_add)

lemma types_fold_add: "types (fold (add p) ts s) q = (if q = p then types s p @ ts else types s q)"
  by (induction ts arbitrary: s) (auto simp: types_add)

lemma clean_add: "types (clean p (add p t s)) = types (clean p s)"
  by (rule ext) (simp add: types_clean types_add)

end

lemma event_types_put:
  "event_types (dict_put p es d) q = (if q = p then map pe_type es else event_types d q)"
  by (simp add: event_types_def)

lemma event_types_Some: "map_of d p = Some es \<Longrightarrow> event_types d p = map pe_type es"
  by (simp add: event_types_def)

lemma event_types_None: "map_of d p = None \<Longrightarrow> event_types d p = []"
  by (simp add: event_types_def)

lemma result_types_add:
  "result_types (add_result_event now data p t st) q =
     (if q = p then result_types st p @ [t] else result_types st q)"
  by (simp add: result_types_def add_result_event_def Let_def event_types_put event_types_Some
      event_types_None split: option.split)

lemma phase_types_add:
  "phase_types (add_phase_event now p t st) q =
     (if q = p then phase_types st p @ [t] else phase_types st q)"
  by (simp add: phase_types_def add_phase_event_def Let_def event_types_put event_types_Some
      event_types_None split: option.split)

lemma event_types_delete: "event_types (AList.delete p d) q = (if q = p then [] else event_types d q)"
  by (simp add: event_types_def)

lemma event_types_absent: "\<not> dict_has d p \<Longrightarrow> event_types d p = []"
  by (simp add: event_types_def dict_has_def)

lemma result_types_clean:
  "result_types (clean_phase_result_events p st) q = (if q = p then [] else result_types st q)"
  by (auto simp: clean_phase_result_events_def result_types_def event_types_delete
      event_types_absent Let_def)

lemma phase_types_clean:
  "phase_types (clean_phase_result_events p st) q = (if q = p then [] else phase_types st q)"
  by (auto simp: clean_phase_result_events_def phase_types_def event_types_delete
      event_types_absent Let_def)

interpretation results: event_store result_types "add_result_event now data" clean_phase_result_events
  for now data
  by unfold_locales (simp_all add: result_types_add result_types_clean)

interpretation phases: event_store phase_types "add_phase_event now" clean_phase_result_events
  for now
  by unfold_locales (simp_all add: phase_types_add phase_types_clean)

section \<open>Invariant: no entry is empty\<close>

definition prs_inv :: "'z phase_result_state_scheme \<Rightarrow> bool" where
  "prs_inv st \<longleftrightarrow>
     dict_wf (phase_events_per_pod st) \<and> dict_wf (result_events_per_pod st) \<and>
     dict_wf (wait_event_per_pod st) \<and>
     dict_all (\<lambda>es. es \<noteq> []) (phase_events_per_pod st) \<and>
     dict_all (\<lambda>es. es \<noteq> []) (result_events_per_pod st)"

lemma init_prs_inv: "prs_inv init_phase_result_state"
  by (simp add: prs_inv_def init_phase_result_state_def)

lemma add_result_event_inv: "prs_inv st \<Longrightarrow> prs_inv (add_result_event now data p t st)"
  by (auto simp: prs_inv_def add_result_event_def Let_def split: option.split)

lemma add_phase_event_inv: "prs_inv st \<Longrightarrow> prs_inv (add_phase_event now p t st)"
  by (auto simp: prs_inv_def add_phase_event_def Let_def split: option.split)

lemma clean_phase_result_events_inv: "prs_inv st \<Longrightarrow> prs_inv (clean_phase_result_events p st)"
  by (auto simp: prs_inv_def clean_phase_result_events_def Let_def)

lemma clean_wait_event_inv: "prs_inv st \<Longrightarrow> prs_inv (clean_wait_event p st)"
  by (simp add: prs_inv_def clean_wait_event_def)

lemma await_wait_event_inv:
  "(\<And>n s. prs_inv s \<Longrightarrow> prs_inv (env n s)) \<Longrightarrow> prs_inv st \<Longrightarrow> prs_inv (await_wait_event env p n st)"
  by (induction n arbitrary: st) auto

lemma wake_event_inv:
  "(\<And>n s. prs_inv s \<Longrightarrow> prs_inv (env n s)) \<Longrightarrow> prs_inv st \<Longrightarrow> prs_inv (wake_event env r p st)"
  using await_wait_event_inv [of env st p "Suc r"]
  by (simp add: wake_event_def Let_def prs_inv_def del: await_wait_event.simps)

lemma prs_inv_entry:
  "prs_inv st \<Longrightarrow> map_of (result_events_per_pod st) p = Some es \<Longrightarrow> es \<noteq> []"
  "prs_inv st \<Longrightarrow> map_of (phase_events_per_pod st) p = Some es \<Longrightarrow> es \<noteq> []"
  by (auto simp: prs_inv_def dest: dict_all_get)

text \<open>Under the invariant the accessors never raise and read the abstract view.\<close>

definition last_type :: "'t list \<Rightarrow> 't option" where
  "last_type ts = (if ts = [] then None else Some (last ts))"

lemma last_type_snoc [simp]: "last_type (ts @ [t]) = Some t"
  by (simp add: last_type_def)

lemma last_type_Nil [simp]: "last_type [] = None"
  by (simp add: last_type_def)

lemma get_last_result_event_type_eq:
  "prs_inv st \<Longrightarrow> get_last_result_event_type st p = Inr (last_type (result_types st p))"
  using prs_inv_entry(1) [of st p]
  by (auto simp: get_last_result_event_type_def get_last_result_event_def last_event_of_def
      result_types_def event_types_def last_type_def py_last_def last_map split: option.split)

lemma get_last_phase_event_type_eq:
  "prs_inv st \<Longrightarrow> get_last_phase_event_type st p = Inr (last_type (phase_types st p))"
  using prs_inv_entry(2) [of st p]
  by (auto simp: get_last_phase_event_type_def get_last_phase_event_def last_event_of_def
      phase_types_def event_types_def last_type_def py_last_def last_map split: option.split)

lemma has_result_type_eq: "has_result_type st p t \<longleftrightarrow> t \<in> set (result_types st p)"
  by (auto simp: has_result_type_def result_types_def event_types_def list_ex_iff split: option.split)

lemma is_interrupted_eq:
  "prs_inv st \<Longrightarrow> is_interrupted ints st p = Inr (\<exists>t\<in>set ints. last_type (result_types st p) = Some t)"
  by (auto simp: is_interrupted_def get_last_result_event_type_eq)

text \<open>Frames: waking and cleaning the Event leave the logs alone, adding leaves the Events alone.\<close>

lemma add_frames [simp]:
  "phase_types (add_result_event now data p t st) = phase_types st"
  "result_types (add_phase_event now p t st) = result_types st"
  "wait_event_per_pod (add_result_event now data p t st) = wait_event_per_pod st"
  "wait_event_per_pod (add_phase_event now p t st) = wait_event_per_pod st"
  by (simp_all add: phase_types_def result_types_def add_result_event_def add_phase_event_def
      Let_def split: option.split)

lemma wake_event_present:
  "dict_has (wait_event_per_pod st) p \<Longrightarrow>
   wake_event env r p st = st\<lparr>wait_event_per_pod := dict_put p True (wait_event_per_pod st)\<rparr>"
  by (simp add: wake_event_def)

lemma await_quiet: "await_wait_event (\<lambda>_ s. s) p n st = st"
  by (induction n) auto

lemma wake_event_absent:
  "\<not> dict_has (wait_event_per_pod st) p \<Longrightarrow> wake_event (\<lambda>_ s. s) r p st = st"
  by (simp add: wake_event_def await_quiet del: await_wait_event.simps)

lemma wake_event_types [simp]:
  "result_types (wake_event (\<lambda>_ s. s) r p st) = result_types st"
  "phase_types (wake_event (\<lambda>_ s. s) r p st) = phase_types st"
  by (cases "dict_has (wait_event_per_pod st) p";
      simp add: wake_event_present wake_event_absent result_types_def phase_types_def)+

end
