(* ===== verification/SchedulingState.thy ===== *)
theory SchedulingState
  imports PhaseResult
begin

text \<open>
  \<^verbatim>\<open>perf/state/scheduling_state.py\<close>: the scheduler's own state on top of the phase and
  result logs (a subclass, so a record extension): the work queue, the pods done, the pods on
  each node with their priorities, the reschedule reasons and the global lock, whose flag says
  whether it is held.
\<close>

text \<open>\<open>oom_score\<close> and \<open>oom_score_adj\<close> of a process, as the script printed them.\<close>

type_synonym oom_scores = "string option \<times> string option"

record scheduling_state = phase_result_state +
  pods_work_queue :: "string list option"
  pods_done :: "string list"
  pods_per_node :: "(string, string list) dict"
  pids_per_container_per_pod :: "(string, (string, (string, oom_scores) dict) dict) dict"
  pods_priorities :: "(string, int) dict"
  reschedule_events_per_pod :: "(string, event_type option list) dict"
  last_oom_event_time_per_node :: "(string, int) dict"
  global_lock :: bool

definition init_scheduling_state :: scheduling_state where
  "init_scheduling_state =
     \<lparr>phase_events_per_pod = [], result_events_per_pod = [], wait_event_per_pod = [],
      pods_work_queue = None, pods_done = [], pods_per_node = [],
      pids_per_container_per_pod = [], pods_priorities = [], reschedule_events_per_pod = [],
      last_oom_event_time_per_node = [], global_lock = False\<rparr>"

definition MAX_RESCHEDULES :: nat where "MAX_RESCHEDULES = 1"

definition init_pods_work_queue :: "string list \<Rightarrow> scheduling_state \<Rightarrow> scheduling_state" where
  "init_pods_work_queue work_queue st = st\<lparr>pods_work_queue := Some work_queue\<rparr>"

section \<open>Pods on nodes\<close>

definition get_last_scheduled_pod :: "scheduling_state \<Rightarrow> string \<Rightarrow> string option" where
  "get_last_scheduled_pod st node =
     (case map_of (pods_per_node st) node of
        None \<Rightarrow> None
      | Some pods \<Rightarrow> if length pods = 0 then None else Some (last pods))"

definition get_node_for_scheduled_pod :: "scheduling_state \<Rightarrow> string \<Rightarrow> string option" where
  "get_node_for_scheduled_pod st pod =
     map_option fst (find (\<lambda>(node, pods). list_ex (\<lambda>p. p = pod) pods) (pods_per_node st))"

definition get_containers_per_pod :: "string \<Rightarrow> string list" where
  "get_containers_per_pod pod = [DATA_FEED_CONTAINER, REDIS_CONTAINER, REDIS_EXPORTER_CONTAINER]"

definition get_schedulable_pod_priority :: "scheduling_state \<Rightarrow> string \<Rightarrow> int pyres" where
  "get_schedulable_pod_priority st node_name =
     (case get_last_scheduled_pod st node_name of
        None \<Rightarrow> Inr 10000
      | Some last_pod \<Rightarrow>
          bindE (dict_lookup (pods_priorities st) last_pod) (\<lambda>last_priority. Inr (last_priority - 1)))"

definition add_pod_to_schedule_state :: "string \<Rightarrow> string \<Rightarrow> int \<Rightarrow> scheduling_state \<Rightarrow> scheduling_state pyres" where
  "add_pod_to_schedule_state pod_name node_name priority st =
     (if list_ex (\<lambda>(node, pods). pod_name \<in> set pods) (pods_per_node st) then Inl PlainException
      else
        let per_node = (case map_of (pods_per_node st) node_name of
                          Some pods \<Rightarrow> dict_put node_name (pods @ [pod_name]) (pods_per_node st)
                        | None \<Rightarrow> dict_put node_name [pod_name] (pods_per_node st))
        in Inr (st\<lparr>pods_per_node := per_node,
                   pods_priorities := dict_put pod_name priority (pods_priorities st)\<rparr>))"

definition remove_pod_from_schedule_state :: "string \<Rightarrow> scheduling_state \<Rightarrow> scheduling_state pyres" where
  "remove_pod_from_schedule_state pod_name st =
     (let (node_name, count) =
            fold (\<lambda>(node, pods) (name, n). if pod_name \<in> set pods then (Some node, n + 1) else (name, n))
              (pods_per_node st) (None, 0::nat)
      in case node_name of
           None \<Rightarrow> Inr st
         | Some node \<Rightarrow>
             if count > 1 then Inl PlainException
             else
               bindE (dict_lookup (pods_per_node st) node) (\<lambda>pods.
               bindE (py_remove pod_name pods) (\<lambda>rest.
               bindE (dict_del pod_name (pods_priorities st)) (\<lambda>prios.
                 Inr (st\<lparr>pods_per_node := dict_put node rest (pods_per_node st),
                         pods_priorities := prios\<rparr>)))))"

section \<open>The work queue and the global lock\<close>

text \<open>\<open>len(None)\<close> and \<open>None.append\<close> before the queue is installed raise.\<close>

definition queue_of :: "scheduling_state \<Rightarrow> string list pyres" where
  "queue_of st = (case pods_work_queue st of None \<Rightarrow> Inl TypeError | Some q \<Rightarrow> Inr q)"

definition pop_work_queue :: "scheduling_state \<Rightarrow> (string \<times> scheduling_state) pyres" where
  "pop_work_queue st =
     bindE (queue_of st) (\<lambda>q. bindE (py_pop q) (\<lambda>(rest, pod).
       Inr (pod, st\<lparr>pods_work_queue := Some rest\<rparr>)))"

definition push_work_queue :: "string \<Rightarrow> scheduling_state \<Rightarrow> scheduling_state pyres" where
  "push_work_queue pod st =
     (case pods_work_queue st of
        None \<Rightarrow> Inl AttributeError
      | Some q \<Rightarrow> Inr (st\<lparr>pods_work_queue := Some (q @ [pod])\<rparr>))"

definition lock_release :: "scheduling_state \<Rightarrow> scheduling_state pyres" where
  "lock_release st = (if global_lock st then Inr (st\<lparr>global_lock := False\<rparr>) else Inl RuntimeError)"

definition lock_acquire :: "scheduling_state \<Rightarrow> scheduling_state" where
  "lock_acquire st = st\<lparr>global_lock := True\<rparr>"

text \<open>The end of \<open>pop_or_wait_work_queue\<close>: release the lock if anybody holds it.\<close>

definition release_if_locked :: "scheduling_state \<Rightarrow> scheduling_state pyres" where
  "release_if_locked st = (if global_lock st then lock_release st else Inr st)"

text \<open>
  \<open>concurrent.futures.as_completed\<close> yields once per pending future. A round \<open>(env, dones)\<close>
  holds what the other threads do until this thread has the lock, and the answers of
  \<open>f.done()\<close> for the pending futures, in order.
\<close>

type_synonym wait_round = "(scheduling_state \<Rightarrow> scheduling_state) \<times> bool list"

definition all_futures_done :: "bool list \<Rightarrow> bool" where
  "all_futures_done dones = fold (\<lambda>d all_done. if \<not> d then False else all_done) dones True"

fun wait_rounds :: "wait_round list \<Rightarrow> scheduling_state \<Rightarrow> (string option \<times> scheduling_state) pyres" where
  "wait_rounds [] st = bindE (release_if_locked st) (\<lambda>st'. Inr (None, st'))"
| "wait_rounds ((env, dones) # rounds) st =
     (let st1 = lock_acquire (env st)
      in bindE (queue_of st1) (\<lambda>q.
           if length q = 0 then
             if all_futures_done dones then bindE (lock_release st1) (\<lambda>st2. Inr (None, st2))
             else bindE (lock_release st1) (wait_rounds rounds)
           else
             bindE (pop_work_queue st1) (\<lambda>(pod_name, st2).
             bindE (release_if_locked st2) (\<lambda>st3. Inr (Some pod_name, st3)))))"

definition pop_or_wait_work_queue :: "wait_round list \<Rightarrow> scheduling_state \<Rightarrow> (string option \<times> scheduling_state) pyres" where
  "pop_or_wait_work_queue pending st =
     bindE (queue_of st) (\<lambda>q.
       if length q = 0 then wait_rounds pending st
       else bindE (pop_work_queue st) (\<lambda>(pod_name, st1).
            bindE (release_if_locked st1) (\<lambda>st2. Inr (Some pod_name, st2))))"

section \<open>Reschedules\<close>

definition get_reschedule_reasons :: "scheduling_state \<Rightarrow> string \<Rightarrow> event_type option list" where
  "get_reschedule_reasons st pod_name =
     (case map_of (reschedule_events_per_pod st) pod_name of None \<Rightarrow> [] | Some rs \<Rightarrow> rs)"

definition inc_reschedule_counter :: "string \<Rightarrow> event_type option \<Rightarrow> scheduling_state \<Rightarrow> scheduling_state" where
  "inc_reschedule_counter pod_name reason st =
     (let d = (if dict_has (reschedule_events_per_pod st) pod_name then reschedule_events_per_pod st
               else dict_put pod_name [] (reschedule_events_per_pod st))
      in st\<lparr>reschedule_events_per_pod :=
              dict_put pod_name (the (map_of d pod_name) @ [reason]) d\<rparr>)"

text \<open>What \<open>reschedule_or_complete\<close> does between acquiring and releasing the lock.\<close>

definition reschedule_decision :: "string \<Rightarrow> bool \<Rightarrow> event_type option \<Rightarrow> scheduling_state \<Rightarrow> scheduling_state pyres" where
  "reschedule_decision pod_name reschedule reason st =
     (if \<not> reschedule then Inr (st\<lparr>pods_done := pods_done st @ [pod_name]\<rparr>)
      else
        let reschedule_counter = length (get_reschedule_reasons st pod_name)
        in if reschedule_counter < MAX_RESCHEDULES
           then push_work_queue pod_name (inc_reschedule_counter pod_name reason st)
           else Inr (st\<lparr>pods_done := pods_done st @ [pod_name]\<rparr>))"

definition reschedule_or_complete :: "string \<Rightarrow> bool \<Rightarrow> event_type option \<Rightarrow> scheduling_state \<Rightarrow> scheduling_state pyres" where
  "reschedule_or_complete pod_name reschedule reason st =
     bindE (remove_pod_from_schedule_state pod_name st) (\<lambda>st1.
     bindE (reschedule_decision pod_name reschedule reason (lock_acquire st1)) lock_release)"

section \<open>Processes and OOM times\<close>

definition find_pod_container_by_pid :: "scheduling_state \<Rightarrow> string \<Rightarrow> string option \<times> string option" where
  "find_pod_container_by_pid st pid =
     (case find (\<lambda>(pod, container, pids). dict_has pids pid)
             (concat (map (\<lambda>(pod, cs). map (\<lambda>(c, pids). (pod, c, pids)) cs) (pids_per_container_per_pod st)))
      of None \<Rightarrow> (None, None)
       | Some (pod, container, pids) \<Rightarrow> (Some pod, Some container))"

definition get_last_oom_time :: "scheduling_state \<Rightarrow> string \<Rightarrow> int option" where
  "get_last_oom_time st node = map_of (last_oom_event_time_per_node st) node"

definition mark_last_oom_time :: "int \<Rightarrow> string \<Rightarrow> scheduling_state \<Rightarrow> scheduling_state" where
  "mark_last_oom_time now node st =
     st\<lparr>last_oom_event_time_per_node := dict_put node now (last_oom_event_time_per_node st)\<rparr>"

section \<open>Invariants\<close>

definition scheduled_pods :: "scheduling_state \<Rightarrow> string list" where
  "scheduled_pods st = flat (pods_per_node st)"

definition ss_inv :: "scheduling_state \<Rightarrow> bool" where
  "ss_inv st \<longleftrightarrow>
     dict_wf (pods_per_node st) \<and> dict_wf (pods_priorities st) \<and>
     distinct (scheduled_pods st) \<and>
     fst ` set (pods_priorities st) = set (scheduled_pods st) \<and>
     dict_all (\<lambda>rs. length rs \<le> MAX_RESCHEDULES) (reschedule_events_per_pod st)"

definition priority_of :: "scheduling_state \<Rightarrow> string \<Rightarrow> int" where
  "priority_of st pod = the (map_of (pods_priorities st) pod)"

text \<open>On every node, pods scheduled later have smaller priorities.\<close>

definition priorities_ordered :: "scheduling_state \<Rightarrow> bool" where
  "priorities_ordered st \<longleftrightarrow>
     (\<forall>node pods. map_of (pods_per_node st) node = Some pods \<longrightarrow>
        sorted_wrt (\<lambda>p q. priority_of st p > priority_of st q) pods)"

lemma init_ss_inv: "ss_inv (init_pods_work_queue q init_scheduling_state)"
  by (simp add: ss_inv_def init_pods_work_queue_def init_scheduling_state_def scheduled_pods_def)

lemma list_ex_scheduled:
  "list_ex (\<lambda>(node, pods). pod \<in> set pods) d \<longleftrightarrow> pod \<in> set (flat d)"
  by (induction d) auto

lemma add_pod_scheduled_twice:
  "pod \<in> set (scheduled_pods st) \<Longrightarrow> add_pod_to_schedule_state pod node pr st = Inl PlainException"
  by (simp add: add_pod_to_schedule_state_def list_ex_scheduled scheduled_pods_def)

lemma add_pod_ok:
  "pod \<notin> set (scheduled_pods st) \<Longrightarrow>
   \<exists>st'. add_pod_to_schedule_state pod node pr st = Inr st'"
  by (simp add: add_pod_to_schedule_state_def list_ex_scheduled scheduled_pods_def Let_def)

lemma add_pod_mset:
  assumes "add_pod_to_schedule_state pod node pr st = Inr st'"
  shows "mset (scheduled_pods st') = add_mset pod (mset (scheduled_pods st))"
  using assms
  by (auto simp: add_pod_to_schedule_state_def scheduled_pods_def Let_def mset_flat_append
      mset_flat_put_new split: if_splits option.splits)

lemma add_pod_fields:
  assumes "add_pod_to_schedule_state pod node pr st = Inr st'"
  shows "pods_work_queue st' = pods_work_queue st" "pods_done st' = pods_done st"
    "reschedule_events_per_pod st' = reschedule_events_per_pod st"
    "global_lock st' = global_lock st" "pod \<notin> set (scheduled_pods st)"
    "pods_priorities st' = dict_put pod pr (pods_priorities st)"
  using assms
  by (auto simp: add_pod_to_schedule_state_def scheduled_pods_def Let_def list_ex_scheduled
      split: if_splits)

lemma add_pod_inv:
  assumes inv: "ss_inv st" and add: "add_pod_to_schedule_state pod node pr st = Inr st'"
  shows "ss_inv st'"
proof -
  note f = add_pod_fields [OF add]
  have m: "mset (scheduled_pods st') = mset (pod # scheduled_pods st)"
    using add_pod_mset [OF add] by simp
  have "distinct (scheduled_pods st')"
    using mset_eq_imp_distinct_iff [OF m] f(5) inv by (simp add: ss_inv_def)
  moreover have "set (scheduled_pods st') = insert pod (set (scheduled_pods st))"
    using mset_eq_setD [OF m] by simp
  moreover have "dict_wf (pods_per_node st')"
    using add inv by (auto simp: add_pod_to_schedule_state_def ss_inv_def Let_def
        split: if_splits option.splits)
  ultimately show ?thesis using inv f by (simp add: ss_inv_def dom_update)
qed

lemma find_node_none:
  "pod \<notin> set (flat d) \<Longrightarrow>
   fold (\<lambda>(node, pods) (name, n). if pod \<in> set pods then (Some node, n + 1) else (name, n)) d acc = acc"
  by (induction d arbitrary: acc) (auto split: prod.split)

lemma find_node_one:
  "distinct (flat d) \<Longrightarrow> dict_wf d \<Longrightarrow> pod \<in> set (flat d) \<Longrightarrow>
   \<exists>node pods. map_of d node = Some pods \<and> pod \<in> set pods \<and>
     fold (\<lambda>(node, pods) (name, n). if pod \<in> set pods then (Some node, n + 1) else (name, n)) d (nm, n::nat)
       = (Some node, n + 1)"
proof (induction d arbitrary: nm n)
  case Nil
  then show ?case by simp
next
  case (Cons a d)
  obtain k xs where a: "a = (k, xs)" by (cases a)
  show ?case
  proof (cases "pod \<in> set xs")
    case True
    then have "pod \<notin> set (flat d)" using Cons.prems(1) a by auto
    with True a show ?thesis by (intro exI [of _ k] exI [of _ xs]) (simp add: find_node_none)
  next
    case False
    have "distinct (flat d)" "dict_wf d" "pod \<in> set (flat d)"
      using Cons.prems a False by (auto simp: dict_wf_def)
    from Cons.IH [OF this] obtain node pods where
      h: "map_of d node = Some pods" "pod \<in> set pods"
        "fold (\<lambda>(node, pods) (name, n). if pod \<in> set pods then (Some node, n + 1) else (name, n)) d (nm, n)
          = (Some node, n + 1)" by blast
    have "node \<noteq> k" using h(1) Cons.prems(2) a by (force simp: dict_wf_def dest: map_of_SomeD)
    with h a False show ?thesis by auto
  qed
qed

lemma remove_pod_absent:
  "pod \<notin> set (scheduled_pods st) \<Longrightarrow> remove_pod_from_schedule_state pod st = Inr st"
  by (simp add: remove_pod_from_schedule_state_def scheduled_pods_def find_node_none)

lemma remove_pod_present:
  assumes inv: "ss_inv st" and pod: "pod \<in> set (scheduled_pods st)"
  shows "\<exists>node pods. map_of (pods_per_node st) node = Some pods \<and> pod \<in> set pods \<and>
    remove_pod_from_schedule_state pod st =
      Inr (st\<lparr>pods_per_node := dict_put node (remove1 pod pods) (pods_per_node st),
              pods_priorities := AList.delete pod (pods_priorities st)\<rparr>)"
proof -
  have d: "distinct (flat (pods_per_node st))" "dict_wf (pods_per_node st)"
    "pod \<in> set (flat (pods_per_node st))"
    using inv pod by (simp_all add: ss_inv_def scheduled_pods_def)
  from find_node_one [OF d, of None 0] obtain node pods where
    h: "map_of (pods_per_node st) node = Some pods" "pod \<in> set pods"
      "fold (\<lambda>(node, pods) (name, n). if pod \<in> set pods then (Some node, n + 1) else (name, n))
         (pods_per_node st) (None, 0) = (Some node, 0 + 1::nat)" by blast
  have "dict_has (pods_priorities st) pod"
    using inv pod by (simp add: ss_inv_def dict_has_iff)
  with h show ?thesis
    by (intro exI [of _ node] exI [of _ pods])
      (simp add: remove_pod_from_schedule_state_def dict_lookup_def py_remove_def dict_del_def)
qed

lemma remove_pod_ok: "ss_inv st \<Longrightarrow> \<exists>st'. remove_pod_from_schedule_state pod st = Inr st'"
  using remove_pod_present [of st pod] remove_pod_absent [of pod st] by blast

lemma remove_pod_mset:
  assumes "ss_inv st" "pod \<in> set (scheduled_pods st)" "remove_pod_from_schedule_state pod st = Inr st'"
  shows "add_mset pod (mset (scheduled_pods st')) = mset (scheduled_pods st)"
  using remove_pod_present [OF assms(1,2)] assms(3)
  by (auto simp: scheduled_pods_def mset_flat_remove)

lemma remove_pod_fields:
  assumes "ss_inv st" "remove_pod_from_schedule_state pod st = Inr st'"
  shows "pods_work_queue st' = pods_work_queue st" "pods_done st' = pods_done st"
    "reschedule_events_per_pod st' = reschedule_events_per_pod st"
    "global_lock st' = global_lock st"
proof -
  have "pods_work_queue st' = pods_work_queue st \<and> pods_done st' = pods_done st \<and>
    reschedule_events_per_pod st' = reschedule_events_per_pod st \<and> global_lock st' = global_lock st"
  proof (cases "pod \<in> set (scheduled_pods st)")
    case True
    from remove_pod_present [OF assms(1) True] assms(2) show ?thesis by force
  next
    case False
    from remove_pod_absent [OF False] assms(2) show ?thesis by simp
  qed
  then show "pods_work_queue st' = pods_work_queue st" "pods_done st' = pods_done st"
    "reschedule_events_per_pod st' = reschedule_events_per_pod st"
    "global_lock st' = global_lock st" by simp_all
qed

lemma remove_pod_inv:
  assumes inv: "ss_inv st" and rem: "remove_pod_from_schedule_state pod st = Inr st'"
  shows "ss_inv st' \<and> pod \<notin> set (scheduled_pods st')"
proof (cases "pod \<in> set (scheduled_pods st)")
  case True
  from remove_pod_present [OF inv True] obtain node pods where
    h: "map_of (pods_per_node st) node = Some pods"
      "st' = st\<lparr>pods_per_node := dict_put node (remove1 pod pods) (pods_per_node st),
                pods_priorities := AList.delete pod (pods_priorities st)\<rparr>"
    using rem by auto
  have m: "mset (pod # scheduled_pods st') = mset (scheduled_pods st)"
    using remove_pod_mset [OF inv True rem] by simp
  have d: "distinct (pod # scheduled_pods st')"
    using mset_eq_imp_distinct_iff [OF m] inv by (simp add: ss_inv_def)
  have s: "insert pod (set (scheduled_pods st')) = set (scheduled_pods st)"
    using mset_eq_setD [OF m] by simp
  have "set (scheduled_pods st) - {pod} = set (scheduled_pods st')" using d s by auto
  moreover have "fst ` set (AList.delete pod (pods_priorities st)) = fst ` set (pods_priorities st) - {pod}"
    by (auto simp: AList.delete_eq)
  ultimately show ?thesis using d inv h(2) by (simp add: ss_inv_def)
next
  case False
  then show ?thesis using remove_pod_absent [OF False] rem inv by simp
qed

section \<open>Priorities\<close>

lemma add_pod_keeps_order:
  assumes inv: "ss_inv st" and ord: "priorities_ordered st"
    and pr: "get_schedulable_pod_priority st node = Inr pr"
    and add: "add_pod_to_schedule_state pod node pr st = Inr st'"
  shows "priorities_ordered st'"
  unfolding priorities_ordered_def
proof (intro allI impI)
  fix n pods
  assume n: "map_of (pods_per_node st') n = Some pods"
  note f = add_pod_fields [OF add]
  have prio: "priority_of st' p = (if p = pod then pr else priority_of st p)" for p
    by (simp add: priority_of_def f(6))
  have old: "pod \<notin> set ps" if "map_of (pods_per_node st) m = Some ps" for m ps
    using flat_get [OF that] f(5) by (auto simp: scheduled_pods_def)
  have keep: "sorted_wrt (\<lambda>p q. priority_of st' p > priority_of st' q) ps"
    if "map_of (pods_per_node st) m = Some ps" for m ps
  proof -
    have "sorted_wrt (\<lambda>p q. priority_of st p > priority_of st q) ps"
      using ord that by (simp add: priorities_ordered_def)
    moreover have "\<And>p. p \<in> set ps \<Longrightarrow> priority_of st' p = priority_of st p"
      using old [OF that] prio by auto
    ultimately show ?thesis by (metis (no_types, lifting) sorted_wrt_mono_rel)
  qed
  show "sorted_wrt (\<lambda>p q. priority_of st' p > priority_of st' q) pods"
  proof (cases "map_of (pods_per_node st) node")
    case None
    then have "pods_per_node st' = dict_put node [pod] (pods_per_node st)"
      using add by (auto simp: add_pod_to_schedule_state_def Let_def split: if_splits)
    then show ?thesis using n keep by (cases "n = node") auto
  next
    case (Some ps)
    then have st': "pods_per_node st' = dict_put node (ps @ [pod]) (pods_per_node st)"
      using add by (auto simp: add_pod_to_schedule_state_def Let_def split: if_splits)
    have "pr < priority_of st' p" if "p \<in> set ps" for p
    proof -
      have ne: "ps \<noteq> []" using that by auto
      then have pr': "pr = priority_of st (last ps) - 1"
        using pr Some by (auto simp: get_schedulable_pod_priority_def get_last_scheduled_pod_def
            priority_of_def)
      have "sorted_wrt (\<lambda>p q. priority_of st p > priority_of st q) (butlast ps @ [last ps])"
        using ord Some ne by (simp add: priorities_ordered_def)
      then have "p = last ps \<or> priority_of st p > priority_of st (last ps)"
        using that ne by (metis append_butlast_last_id in_set_butlastD list.set_intros(1)
            rotate1.simps(2) set_ConsD set_rotate1 sorted_wrt_append)
      then show ?thesis using old [OF Some] that pr' prio by auto
    qed
    moreover have "priority_of st' pod = pr" by (simp add: prio)
    ultimately have "sorted_wrt (\<lambda>p q. priority_of st' p > priority_of st' q) (ps @ [pod])"
      using keep [OF Some] by (simp add: sorted_wrt_append)
    then show ?thesis using n keep st' by (cases "n = node") simp_all
  qed
qed

lemma sorted_wrt_remove1: "sorted_wrt P xs \<Longrightarrow> sorted_wrt P (remove1 x xs)"
  by (induction xs) (simp_all, meson notin_set_remove1)

lemma sorted_wrt_eq: "(\<And>x y. x \<in> set xs \<Longrightarrow> y \<in> set xs \<Longrightarrow> P x y = Q x y) \<Longrightarrow> sorted_wrt P xs = sorted_wrt Q xs"
  by (induction xs) auto

lemma remove_pod_keeps_order:
  assumes inv: "ss_inv st" and ord: "priorities_ordered st"
    and rem: "remove_pod_from_schedule_state pod st = Inr st'"
  shows "priorities_ordered st'"
proof (cases "pod \<in> set (scheduled_pods st)")
  case True
  from remove_pod_present [OF inv True] obtain node pods where
    h: "map_of (pods_per_node st) node = Some pods" "pod \<in> set pods"
      "st' = st\<lparr>pods_per_node := dict_put node (remove1 pod pods) (pods_per_node st),
                pods_priorities := AList.delete pod (pods_priorities st)\<rparr>"
    using rem by auto
  have gone: "pod \<notin> set (scheduled_pods st')" using remove_pod_inv [OF inv rem] by simp
  have prio: "p \<noteq> pod \<Longrightarrow> priority_of st' p = priority_of st p" for p
    by (simp add: priority_of_def h(3))
  show ?thesis
    unfolding priorities_ordered_def
  proof (intro allI impI)
    fix n ps
    assume n: "map_of (pods_per_node st') n = Some ps"
    have np: "pod \<notin> set ps" using flat_get [OF n] gone by (auto simp: scheduled_pods_def)
    have "sorted_wrt (\<lambda>p q. priority_of st p > priority_of st q) ps"
      using n h ord by (auto simp: priorities_ordered_def split: if_splits intro: sorted_wrt_remove1)
    then show "sorted_wrt (\<lambda>p q. priority_of st' p > priority_of st' q) ps"
      using np prio by (metis (no_types, lifting) sorted_wrt_mono_rel)
  qed
next
  case False
  then show ?thesis using remove_pod_absent [OF False] rem ord by simp
qed

section \<open>Reschedules are bounded\<close>

lemma inc_reschedule_reasons:
  "get_reschedule_reasons (inc_reschedule_counter pod r st) q =
     (if q = pod then get_reschedule_reasons st pod @ [r] else get_reschedule_reasons st q)"
  by (auto simp: get_reschedule_reasons_def inc_reschedule_counter_def Let_def dict_has_def
      split: option.split)

lemma inc_reschedule_fields [simp]:
  "pods_work_queue (inc_reschedule_counter pod r st) = pods_work_queue st"
  "pods_done (inc_reschedule_counter pod r st) = pods_done st"
  "pods_per_node (inc_reschedule_counter pod r st) = pods_per_node st"
  "pods_priorities (inc_reschedule_counter pod r st) = pods_priorities st"
  "global_lock (inc_reschedule_counter pod r st) = global_lock st"
  by (simp_all add: inc_reschedule_counter_def Let_def)

lemma inc_reschedule_inv:
  assumes "ss_inv st" "length (get_reschedule_reasons st pod) < MAX_RESCHEDULES"
  shows "ss_inv (inc_reschedule_counter pod r st)"
proof -
  have "dict_all (\<lambda>rs. length rs \<le> MAX_RESCHEDULES)
      (reschedule_events_per_pod (inc_reschedule_counter pod r st))"
    using assms by (auto simp: ss_inv_def inc_reschedule_counter_def Let_def dict_has_def
        get_reschedule_reasons_def intro!: dict_all_put split: option.splits)
  then show ?thesis using assms(1) by (simp add: ss_inv_def scheduled_pods_def)
qed

lemma reschedule_decision_cases:
  assumes "pods_work_queue st = Some q"
  shows "reschedule_decision pod resch reason st =
    (if resch \<and> length (get_reschedule_reasons st pod) < MAX_RESCHEDULES
     then Inr (inc_reschedule_counter pod reason st\<lparr>pods_work_queue := Some (q @ [pod])\<rparr>)
     else Inr (st\<lparr>pods_done := pods_done st @ [pod]\<rparr>))"
  using assms by (auto simp: reschedule_decision_def push_work_queue_def Let_def)

lemma ss_inv_queue [simp]:
  "ss_inv (st\<lparr>pods_work_queue := q\<rparr>) = ss_inv st"
  "ss_inv (st\<lparr>pods_done := d\<rparr>) = ss_inv st"
  "ss_inv (st\<lparr>global_lock := b\<rparr>) = ss_inv st"
  by (simp_all add: ss_inv_def scheduled_pods_def)

lemma order_queue [simp]:
  "priorities_ordered (st\<lparr>pods_work_queue := q\<rparr>) = priorities_ordered st"
  "priorities_ordered (st\<lparr>pods_done := d\<rparr>) = priorities_ordered st"
  "priorities_ordered (st\<lparr>global_lock := b\<rparr>) = priorities_ordered st"
  "priorities_ordered (inc_reschedule_counter pod r st) = priorities_ordered st"
  by (simp_all add: priorities_ordered_def priority_of_def)

lemma scheduled_queue [simp]:
  "scheduled_pods (st\<lparr>pods_work_queue := q\<rparr>) = scheduled_pods st"
  "scheduled_pods (st\<lparr>pods_done := d\<rparr>) = scheduled_pods st"
  "scheduled_pods (st\<lparr>global_lock := b\<rparr>) = scheduled_pods st"
  "scheduled_pods (inc_reschedule_counter pod r st) = scheduled_pods st"
  by (simp_all add: scheduled_pods_def)

lemma reschedule_decision_ok:
  assumes "pods_work_queue st = Some q"
  shows "\<exists>st'. reschedule_decision pod resch reason st = Inr st'"
  using reschedule_decision_cases [OF assms] by simp

definition queued_pods :: "scheduling_state \<Rightarrow> string list" where
  "queued_pods st = (case pods_work_queue st of None \<Rightarrow> [] | Some q \<Rightarrow> q)"

lemma reschedule_decision_props:
  assumes inv: "ss_inv st" and q: "pods_work_queue st \<noteq> None"
    and dec: "reschedule_decision pod resch reason st = Inr st'"
  shows "ss_inv st'" "scheduled_pods st' = scheduled_pods st" "global_lock st' = global_lock st"
    "pods_work_queue st' \<noteq> None" "priorities_ordered st' = priorities_ordered st"
    "mset (queued_pods st') + mset (pods_done st') =
       add_mset pod (mset (queued_pods st) + mset (pods_done st))"
proof -
  from q obtain w where w: "pods_work_queue st = Some w" by auto
  note c = reschedule_decision_cases [OF w, of pod resch reason]
  show "ss_inv st'" using c dec inv inc_reschedule_inv [OF inv] by (auto split: if_splits)
  show "scheduled_pods st' = scheduled_pods st" "global_lock st' = global_lock st"
    "pods_work_queue st' \<noteq> None" "priorities_ordered st' = priorities_ordered st"
    using c dec w by (auto split: if_splits)
  show "mset (queued_pods st') + mset (pods_done st') =
      add_mset pod (mset (queued_pods st) + mset (pods_done st))"
    using c dec w by (auto simp: queued_pods_def split: if_splits)
qed

lemma pop_work_queue_props:
  assumes "pop_work_queue st = Inr (pod, st')"
  shows "mset (queued_pods st) = add_mset pod (mset (queued_pods st'))"
    "\<exists>q. pods_work_queue st = Some q \<and> q \<noteq> [] \<and> pod = last q \<and>
         st' = st\<lparr>pods_work_queue := Some (butlast q)\<rparr>"
proof -
  from assms obtain q rest where q: "pods_work_queue st = Some q" "py_pop q = Inr (rest, pod)"
    "st' = st\<lparr>pods_work_queue := Some rest\<rparr>"
    by (auto simp: pop_work_queue_def queue_of_def split: option.splits)
  then show "mset (queued_pods st) = add_mset pod (mset (queued_pods st'))"
    using py_pop_mset [OF q(2)] by (simp add: queued_pods_def)
  from q show "\<exists>q. pods_work_queue st = Some q \<and> q \<noteq> [] \<and> pod = last q \<and>
      st' = st\<lparr>pods_work_queue := Some (butlast q)\<rparr>"
    by (auto simp: py_pop_def split: if_splits)
qed

text \<open>The whole call, nobody else holding the lock: a pod that was scheduled moves to exactly one
  of the queue and the list of pods done, and the lock is free again.\<close>

lemma reschedule_or_complete_ok:
  assumes inv: "ss_inv st" and q: "pods_work_queue st \<noteq> None" and pod: "pod \<in> set (scheduled_pods st)"
  obtains st' where "reschedule_or_complete pod resch reason st = Inr st'" "ss_inv st'"
    "mset (queued_pods st') + mset (pods_done st') + mset (scheduled_pods st') =
     mset (queued_pods st) + mset (pods_done st) + mset (scheduled_pods st)"
    "pod \<notin> set (scheduled_pods st')" "\<not> global_lock st'"
proof -
  obtain st1 where st1: "remove_pod_from_schedule_state pod st = Inr st1"
    using remove_pod_ok [OF inv] by blast
  note f1 = remove_pod_fields [OF inv st1] and i1 = remove_pod_inv [OF inv st1]
    and m1 = remove_pod_mset [OF inv pod st1]
  have q1: "pods_work_queue (lock_acquire st1) \<noteq> None" using f1 q by (simp add: lock_acquire_def)
  then obtain st2 where st2: "reschedule_decision pod resch reason (lock_acquire st1) = Inr st2"
    using reschedule_decision_ok by blast
  have i: "ss_inv (lock_acquire st1)" using i1 by (simp add: lock_acquire_def)
  note d = reschedule_decision_props [OF i q1 st2]
  have "reschedule_or_complete pod resch reason st = Inr (st2\<lparr>global_lock := False\<rparr>)"
    using st1 st2 d(3) by (simp add: reschedule_or_complete_def lock_release_def lock_acquire_def)
  moreover have "ss_inv (st2\<lparr>global_lock := False\<rparr>)" using d(1) by simp
  moreover have "mset (queued_pods (st2\<lparr>global_lock := False\<rparr>)) + mset (pods_done (st2\<lparr>global_lock := False\<rparr>))
      + mset (scheduled_pods (st2\<lparr>global_lock := False\<rparr>)) =
      mset (queued_pods st) + mset (pods_done st) + mset (scheduled_pods st)"
    using d(2,6) f1 m1 by (simp add: queued_pods_def lock_acquire_def ac_simps flip: m1)
  moreover have "pod \<notin> set (scheduled_pods (st2\<lparr>global_lock := False\<rparr>))"
    using d(2) i1 by (simp add: lock_acquire_def)
  ultimately show ?thesis using that by simp
qed

end
