(* ===== verification/Oom.thy ===== *)
theory Oom
  imports SchedulingState PyString
begin

text \<open>
  \<^verbatim>\<open>perf/scheduler/oom\<close>: the client that decides which pods the OOM killer should pick first, and
  the parameters and output of the script that marks them. The client's lock is a flag; an
  operation that would block on it is \<open>None\<close>, one that raises returns the exception together
  with the state it leaves behind, lock included.
\<close>

section \<open>Script parameters and output\<close>

definition construct_containers_script_param :: "(string, string list) dict \<Rightarrow> string" where
  "construct_containers_script_param pod_container =
     py_strip (concat (concat (map (\<lambda>(pod, containers).
       map (\<lambda>container. container @ ''_'' @ pod @ '' '') containers) pod_container)))"

type_synonym marks = "(string, (string, (string, oom_scores) dict) dict) dict"

text \<open>The fields of one line, folded over its comma-separated parts.\<close>

record oom_line =
  ol_container_pod :: "string option"
  ol_pid :: "string option"
  ol_oom_score :: "string option"
  ol_oom_score_adj :: "string option"

definition parse_field :: "string \<Rightarrow> oom_line \<Rightarrow> oom_line pyres" where
  "parse_field ss l =
     (let split3 = py_split '':'' ss in
      bindE (py_nth split3 0) (\<lambda>k.
      bindE (py_nth split3 1) (\<lambda>v.
        let key = py_strip k; value = (if py_strip v = ''None'' then None else Some (py_strip v))
        in if key = ''container'' then Inr (l\<lparr>ol_container_pod := value\<rparr>)
           else if key = ''pid'' then Inr (l\<lparr>ol_pid := value\<rparr>)
           else if key = ''oom_score'' then Inr (l\<lparr>ol_oom_score := value\<rparr>)
           else if key = ''oom_score_adj'' then Inr (l\<lparr>ol_oom_score_adj := value\<rparr>)
           else Inl PlainException)))"

definition store_mark :: "string \<Rightarrow> string \<Rightarrow> string \<Rightarrow> oom_scores \<Rightarrow> marks \<Rightarrow> marks" where
  "store_mark pod container pid scores res =
     (case map_of res pod of
        Some per_container \<Rightarrow>
          (case map_of per_container container of
             Some pids \<Rightarrow> dict_put pod (dict_put container (dict_put pid scores pids) per_container) res
           | None \<Rightarrow> dict_put pod (dict_put container [(pid, scores)] per_container) res)
      | None \<Rightarrow> dict_put pod [(container, [(pid, scores)])] res)"

definition parse_line :: "string \<Rightarrow> marks \<Rightarrow> marks pyres" where
  "parse_line s res =
     (let split2 = py_split '','' s in
      if length split2 < 2 then Inr res
      else
        bindE (foldE parse_field split2
                 \<lparr>ol_container_pod = None, ol_pid = None, ol_oom_score = None, ol_oom_score_adj = None\<rparr>) (\<lambda>l.
        case (ol_container_pod l, ol_pid l) of
          (Some container_pod, Some pid) \<Rightarrow>
            bindE (py_nth (py_split ''_'' container_pod) 0) (\<lambda>container.
            bindE (py_nth (py_split ''_'' container_pod) 1) (\<lambda>pod.
              Inr (store_mark pod container pid (ol_oom_score l, ol_oom_score_adj l) res)))
        | _ \<Rightarrow> Inl PlainException))"

definition newline :: string where "newline = [CHR 0x0A]"

definition parse_output :: "string \<Rightarrow> marks pyres" where
  "parse_output output = foldE parse_line (py_split newline output) []"

text \<open>\<open>NAME=""\<close> becomes \<open>NAME="value"\<close>.\<close>

definition parse_script_and_replace_param_vars :: "string \<Rightarrow> (string, string) dict \<Rightarrow> string" where
  "parse_script_and_replace_param_vars tmpl params =
     fold (\<lambda>(param_name, value) t.
        py_replace (param_name @ ''='' @ [CHR 0x22, CHR 0x22])
                   (param_name @ ''='' @ [CHR 0x22] @ value @ [CHR 0x22]) t) params tmpl"

text \<open>The script handed to the node.\<close>

definition oom_script :: "string \<Rightarrow> (string, string list) dict \<Rightarrow> int \<Rightarrow> string" where
  "oom_script tmpl pod_container score =
     parse_script_and_replace_param_vars tmpl
       [(''OOM_SCORE_ADJ_PARAM'', show_int score),
        (''CONTAINERS_PARAM'', construct_containers_script_param pod_container)]"

definition set_oom_score_adj :: "(string \<Rightarrow> string \<Rightarrow> string) \<Rightarrow> string \<Rightarrow> (string, string list) dict \<Rightarrow> int \<Rightarrow> string \<Rightarrow> marks pyres" where
  "set_oom_score_adj execute_remote_script tmpl pod_container score node =
     parse_output (execute_remote_script (oom_script tmpl pod_container score) node)"

section \<open>The client\<close>

definition MIN_OOM_SCORE_ADJ :: int where "MIN_OOM_SCORE_ADJ = - 997"
definition MAX_OOM_SCORE_ADJ :: int where "MAX_OOM_SCORE_ADJ = 998"

datatype mark = MARKED_LOW | MARKED_HIGH

type_synonym marking = "(string, string list) dict \<times> int \<times> string"

record oom_client =
  in_flight_pods :: "(string, mark) dict"
  last_marked_high_pod :: "string option"
  marking_lock :: bool
  oc_running :: bool

definition init_oom_client :: oom_client where
  "init_oom_client =
     \<lparr>in_flight_pods = [], last_marked_high_pod = None, marking_lock = False, oc_running = False\<rparr>"

definition build_oom_script_args :: "string \<Rightarrow> mark \<Rightarrow> (string, string list) dict \<times> int" where
  "build_oom_script_args pod mark =
     ([(pod, get_containers_per_pod pod)],
      if mark = MARKED_HIGH then MAX_OOM_SCORE_ADJ else MIN_OOM_SCORE_ADJ)"

definition marking_of :: "string \<Rightarrow> mark \<Rightarrow> string \<Rightarrow> marking" where
  "marking_of pod mark node = (let (pod_container, score) = build_oom_script_args pod mark in (pod_container, score, node))"

text \<open>\<open>last_marked_high_pod\<close> is forgotten when it left the node.\<close>

definition drop_stale_high :: "string list \<Rightarrow> oom_client \<Rightarrow> oom_client" where
  "drop_stale_high pods_on_node c =
     (case last_marked_high_pod c of
        None \<Rightarrow> c
      | Some p \<Rightarrow> if p \<in> set pods_on_node then c else c\<lparr>last_marked_high_pod := None\<rparr>)"

definition mark_idle :: "string \<Rightarrow> string \<Rightarrow> oom_client \<Rightarrow> marking list \<times> oom_client" where
  "mark_idle pod node c =
     (let c1 = c\<lparr>in_flight_pods := dict_put pod MARKED_HIGH (in_flight_pods c)\<rparr>;
          res = [marking_of pod MARKED_HIGH node]
      in case last_marked_high_pod c1 of
           None \<Rightarrow> (res, c1\<lparr>last_marked_high_pod := Some pod\<rparr>)
         | Some p \<Rightarrow>
             (res @ [marking_of p MARKED_LOW node],
              c1\<lparr>in_flight_pods := dict_put p MARKED_LOW (in_flight_pods c1), last_marked_high_pod := Some pod\<rparr>))"

definition mark_busy :: "string \<Rightarrow> string \<Rightarrow> oom_client \<Rightarrow> marking list \<times> oom_client" where
  "mark_busy pod node c =
     (let has_high = list_ex (\<lambda>(p, m). m = MARKED_HIGH) (in_flight_pods c);
          mark = (if has_high then MARKED_LOW else MARKED_HIGH);
          c1 = c\<lparr>in_flight_pods := dict_put pod mark (in_flight_pods c)\<rparr>
      in ([marking_of pod mark node],
          if mark = MARKED_HIGH then c1\<lparr>last_marked_high_pod := Some pod\<rparr> else c1))"

text \<open>The early return for a pod in flight and the exception for a pod on no node leave the lock
  held.\<close>

definition decide_pods_marking :: "scheduling_state \<Rightarrow> string \<Rightarrow> oom_client \<Rightarrow> (marking list pyres \<times> oom_client) option" where
  "decide_pods_marking ss pod c0 =
     (if marking_lock c0 then None
      else
        let c = c0\<lparr>marking_lock := True\<rparr>
        in Some (case get_node_for_scheduled_pod ss pod of
             None \<Rightarrow> (Inl ValueError, c)
           | Some node \<Rightarrow>
               let c1 = drop_stale_high (the (map_of (pods_per_node ss) node)) c
               in if length (in_flight_pods c1) = 0 then
                    let (res, c2) = mark_idle pod node c1 in (Inr res, c2\<lparr>marking_lock := False\<rparr>)
                  else if dict_has (in_flight_pods c1) pod then (Inr [], c1)
                  else let (res, c2) = mark_busy pod node c1 in (Inr res, c2\<lparr>marking_lock := False\<rparr>)))"

text \<open>A pod's processes go into the scheduling state, then the pod leaves the set in flight; one
  that is not in flight raises with the lock held.\<close>

definition store_pod_marks :: "string \<Rightarrow> (string, (string, oom_scores) dict) dict \<Rightarrow> scheduling_state \<Rightarrow> scheduling_state" where
  "store_pod_marks pod per_container ss =
     fold (\<lambda>(container, pids).
       fold (\<lambda>(pid, scores) s. s\<lparr>pids_per_container_per_pod :=
               store_mark pod container pid scores (pids_per_container_per_pod s)\<rparr>) pids)
       per_container ss"

fun handle_results :: "marks \<Rightarrow> oom_client \<Rightarrow> scheduling_state \<Rightarrow> unit pyres \<times> oom_client \<times> scheduling_state" where
  "handle_results [] c ss = (Inr (), c\<lparr>marking_lock := False\<rparr>, ss)"
| "handle_results ((pod, per_container) # res) c ss =
     (let ss1 = store_pod_marks pod per_container ss
      in if dict_has (in_flight_pods c) pod
         then handle_results res (c\<lparr>in_flight_pods := AList.delete pod (in_flight_pods c)\<rparr>) ss1
         else (Inl KeyError, c, ss1))"

definition handle_oom_score_adj_script_result :: "marks \<Rightarrow> oom_client \<Rightarrow> scheduling_state \<Rightarrow> (unit pyres \<times> oom_client \<times> scheduling_state) option" where
  "handle_oom_score_adj_script_result res c ss =
     (if \<not> oc_running c then Some (Inr (), c, ss)
      else if marking_lock c then None
      else Some (handle_results res (c\<lparr>marking_lock := True\<rparr>) ss))"

text \<open>\<open>notify_pod_started\<close> hands the marking to the handler process's queue.\<close>

definition notify_pod_started :: "scheduling_state \<Rightarrow> string \<Rightarrow> oom_client \<Rightarrow> marking list list \<Rightarrow> (unit pyres \<times> oom_client \<times> marking list list) option" where
  "notify_pod_started ss pod c args_queue =
     (case decide_pods_marking ss pod c of
        None \<Rightarrow> None
      | Some (Inl e, c') \<Rightarrow> Some (Inl e, c', args_queue)
      | Some (Inr pods_marking, c') \<Rightarrow> Some (Inr (), c', args_queue @ [pods_marking]))"

section \<open>One pod marked high at a time\<close>

definition high_in_flight :: "oom_client \<Rightarrow> string list" where
  "high_in_flight c = map fst (filter (\<lambda>pm. snd pm = MARKED_HIGH) (in_flight_pods c))"

definition oc_inv :: "oom_client \<Rightarrow> bool" where
  "oc_inv c \<longleftrightarrow> dict_wf (in_flight_pods c) \<and> length (high_in_flight c) \<le> 1"

lemma init_oc_inv: "oc_inv init_oom_client"
  by (simp add: oc_inv_def init_oom_client_def high_in_flight_def)

lemma oc_inv_frame [simp]:
  "oc_inv (c\<lparr>marking_lock := b\<rparr>) = oc_inv c"
  "oc_inv (c\<lparr>last_marked_high_pod := p\<rparr>) = oc_inv c"
  "oc_inv (c\<lparr>oc_running := b\<rparr>) = oc_inv c"
  by (simp_all add: oc_inv_def high_in_flight_def)

lemma drop_stale_frame [simp]:
  "in_flight_pods (drop_stale_high ps c) = in_flight_pods c"
  "marking_lock (drop_stale_high ps c) = marking_lock c"
  "oc_inv (drop_stale_high ps c) = oc_inv c"
  by (simp_all add: drop_stale_high_def split: option.split)

lemma filter_update_new:
  "k \<notin> fst ` set d \<Longrightarrow> filter P (AList.update k v d) = filter P d @ (if P (k, v) then [(k, v)] else [])"
  by (induction d) auto

lemma mark_idle_inv:
  assumes "in_flight_pods c = []"
  shows "oc_inv (snd (mark_idle pod node c))"
  using assms by (auto simp: mark_idle_def oc_inv_def high_in_flight_def dict_wf_def Let_def split: option.split)

lemma mark_busy_inv:
  assumes "oc_inv c" "\<not> dict_has (in_flight_pods c) pod"
  shows "oc_inv (snd (mark_busy pod node c))"
proof -
  have new: "pod \<notin> fst ` set (in_flight_pods c)" using assms(2) by (simp add: dict_has_iff)
  show ?thesis
  proof (cases "list_ex (\<lambda>(p, m). m = MARKED_HIGH) (in_flight_pods c)")
    case True
    then show ?thesis using assms(1) new
      by (simp add: mark_busy_def oc_inv_def high_in_flight_def filter_update_new)
  next
    case False
    then have "filter (\<lambda>pm. snd pm = MARKED_HIGH) (in_flight_pods c) = []"
      by (auto simp: filter_empty_conv list_ex_iff)
    then show ?thesis using False assms(1) new
      by (simp add: mark_busy_def oc_inv_def high_in_flight_def filter_update_new)
  qed
qed

lemma decide_inv:
  assumes "oc_inv c" "decide_pods_marking ss pod c = Some (r, c')"
  shows "oc_inv c'"
proof -
  have h: "marking_lock c = False" using assms(2) by (simp add: decide_pods_marking_def split: if_splits)
  show ?thesis
  proof (cases "get_node_for_scheduled_pod ss pod")
    case None
    then show ?thesis using assms h by (auto simp: decide_pods_marking_def Let_def)
  next
    case (Some node)
    define c1 where "c1 = drop_stale_high (the (map_of (pods_per_node ss) node)) (c\<lparr>marking_lock := True\<rparr>)"
    have i: "oc_inv c1" using assms(1) by (simp add: c1_def)
    have d: "decide_pods_marking ss pod c = Some
        (if length (in_flight_pods c1) = 0 then
           let (res, c2) = mark_idle pod node c1 in (Inr res, c2\<lparr>marking_lock := False\<rparr>)
         else if dict_has (in_flight_pods c1) pod then (Inr [], c1)
         else let (res, c2) = mark_busy pod node c1 in (Inr res, c2\<lparr>marking_lock := False\<rparr>))"
      using Some h by (simp add: decide_pods_marking_def c1_def Let_def)
    consider "in_flight_pods c1 = []" | "in_flight_pods c1 \<noteq> []" "dict_has (in_flight_pods c1) pod"
      | "in_flight_pods c1 \<noteq> []" "\<not> dict_has (in_flight_pods c1) pod" by blast
    then show ?thesis
    proof cases
      case 1
      then show ?thesis using assms(2) d mark_idle_inv [OF 1, of pod node] by (auto simp: split_def Let_def)
    next
      case 2
      then show ?thesis using assms(2) d i by simp
    next
      case 3
      then show ?thesis using assms(2) d mark_busy_inv [OF i 3(2), of node] by (auto simp: split_def Let_def)
    qed
  qed
qed

lemma high_delete:
  "length (filter P (AList.delete k d)) \<le> length (filter P d)"
  by (induction d) (auto simp: AList.delete_eq)

lemma handle_results_inv:
  "oc_inv c \<Longrightarrow> handle_results res c ss = (r, c', ss') \<Longrightarrow> oc_inv c'"
proof (induction res c ss rule: handle_results.induct)
  case (1 c ss)
  then show ?case by auto
next
  case (2 pod per_container res c ss)
  have "oc_inv (c\<lparr>in_flight_pods := AList.delete pod (in_flight_pods c)\<rparr>)"
    using "2.prems"(1) high_delete [of "\<lambda>pm. snd pm = MARKED_HIGH" pod "in_flight_pods c"]
    by (auto simp: oc_inv_def high_in_flight_def)
  then show ?case using "2.IH" [OF refl] "2.prems" by (auto simp: Let_def split: if_splits)
qed

section \<open>Reading the script's output\<close>

text \<open>A name the line format can carry.\<close>

definition plain_name :: "string \<Rightarrow> bool" where
  "plain_name s \<longleftrightarrow> s \<noteq> [] \<and> s \<noteq> ''None'' \<and>
     list_all (\<lambda>c. \<not> is_space c \<and> c \<notin> set '',:_'') s"

text \<open>The \<open>echo\<close> of \<^verbatim>\<open>set_containers_oom_score_adj.sh\<close> for one process.\<close>

definition script_line :: "string \<times> string \<times> string \<times> string \<Rightarrow> string" where
  "script_line = (\<lambda>(container, pod, pid, adj).
     ''container: '' @ container @ ''_'' @ pod @ '', pid: '' @ pid @ '', oom_score_adj: '' @ adj)"

definition plain_mark :: "string \<times> string \<times> string \<times> string \<Rightarrow> bool" where
  "plain_mark = (\<lambda>(container, pod, pid, adj).
     plain_name container \<and> plain_name pod \<and> plain_name pid \<and> plain_name adj)"

lemma plain_chars:
  assumes "plain_name s"
  shows "CHR '','' \<notin> set s" "CHR '':'' \<notin> set s" "CHR ''_'' \<notin> set s" "CHR '' '' \<notin> set s"
    "CHR 0x0A \<notin> set s" "py_strip s = s" "s \<noteq> ''None''"
    "py_strip (CHR '' '' # s) = s"
proof -
  have a: "\<forall>c\<in>set s. \<not> is_space c \<and> c \<notin> set '',:_''" using assms by (simp add: plain_name_def list_all_iff)
  then show "CHR '','' \<notin> set s" "CHR '':'' \<notin> set s" "CHR ''_'' \<notin> set s" by auto
  show "CHR '' '' \<notin> set s" "CHR 0x0A \<notin> set s" using a by (auto simp: is_space_def)
  show "py_strip s = s" using a by (intro py_strip_no_space) auto
  moreover have "dropWhile is_space (CHR '' '' # s) = dropWhile is_space s" by (simp add: is_space_def)
  ultimately show "py_strip (CHR '' '' # s) = s" by (simp add: py_strip_def)
  show "s \<noteq> ''None''" using assms by (simp add: plain_name_def)
qed

lemma split_field:
  "CHR '':'' \<notin> set k \<Longrightarrow> CHR '':'' \<notin> set v \<Longrightarrow> py_split '':'' (k @ CHR '':'' # v) = [k, v]"
  by (simp add: py_split_char py_split_char_absent)

lemma parse_field_eq:
  assumes "plain_name v \<or> (\<exists>a b. plain_name a \<and> plain_name b \<and> v = a @ CHR ''_'' # b)"
    and "CHR '':'' \<notin> set k" "py_strip k = key"
  shows "parse_field (k @ CHR '':'' # CHR '' '' # v) l =
    (if key = ''container'' then Inr (l\<lparr>ol_container_pod := Some v\<rparr>)
     else if key = ''pid'' then Inr (l\<lparr>ol_pid := Some v\<rparr>)
     else if key = ''oom_score'' then Inr (l\<lparr>ol_oom_score := Some v\<rparr>)
     else if key = ''oom_score_adj'' then Inr (l\<lparr>ol_oom_score_adj := Some v\<rparr>)
     else Inl PlainException)"
proof -
  have v: "CHR '':'' \<notin> set v \<and> py_strip (CHR '' '' # v) = v \<and> v \<noteq> ''None''"
    using assms(1)
  proof
    assume "plain_name v"
    then show ?thesis using plain_chars by simp
  next
    assume "\<exists>a b. plain_name a \<and> plain_name b \<and> v = a @ CHR ''_'' # b"
    then obtain a b where ab: "plain_name a" "plain_name b" "v = a @ CHR ''_'' # b" by blast
    have ns: "\<forall>c\<in>set v. \<not> is_space c" using ab by (auto simp: plain_name_def list_all_iff is_space_def)
    have "py_strip v = v" using ns by (intro py_strip_no_space) auto
    moreover have "dropWhile is_space (CHR '' '' # v) = dropWhile is_space v" by (simp add: is_space_def)
    ultimately have "py_strip (CHR '' '' # v) = v" by (simp add: py_strip_def)
    moreover have "CHR ''_'' \<in> set v" using ab(3) by simp
    then have "v \<noteq> ''None''" by auto
    ultimately show ?thesis using plain_chars(2) [OF ab(1)] plain_chars(2) [OF ab(2)] ab(3) by simp
  qed
  have "py_split '':'' (k @ CHR '':'' # CHR '' '' # v) = [k, CHR '' '' # v]"
    using v assms(2) by (intro split_field) auto
  then show ?thesis using v assms(3) by (simp add: parse_field_def py_nth_def Let_def)
qed

lemma script_line_split:
  assumes "plain_mark (container, pod, pid, adj)"
  shows "py_split '','' (script_line (container, pod, pid, adj)) =
    [''container'' @ CHR '':'' # CHR '' '' # (container @ CHR ''_'' # pod),
     '' pid'' @ CHR '':'' # CHR '' '' # pid,
     '' oom_score_adj'' @ CHR '':'' # CHR '' '' # adj]"
proof -
  note c = plain_chars(1)
  have h: "plain_name container" "plain_name pod" "plain_name pid" "plain_name adj"
    using assms by (simp_all add: plain_mark_def)
  have s: "script_line (container, pod, pid, adj) =
      (''container: '' @ container @ ''_'' @ pod) @ CHR '','' #
      ((CHR '' '' # ''pid: '' @ pid) @ CHR '','' # (CHR '' '' # ''oom_score_adj: '' @ adj))"
    by (simp add: script_line_def)
  show ?thesis unfolding s
    using c [OF h(1)] c [OF h(2)] c [OF h(3)] c [OF h(4)]
    by (subst py_split_char, simp, subst py_split_char, simp, subst py_split_char_absent, simp_all)
qed

lemma parse_line_eq:
  assumes "plain_mark (container, pod, pid, adj)"
  shows "parse_line (script_line (container, pod, pid, adj)) res =
    Inr (store_mark pod container pid (None, Some adj) res)"
proof -
  have h: "plain_name container" "plain_name pod" "plain_name pid" "plain_name adj"
    using assms by (simp_all add: plain_mark_def)
  have sp: "py_split ''_'' (container @ CHR ''_'' # pod) = [container, pod]"
    using plain_chars(3) [OF h(1)] plain_chars(3) [OF h(2)]
    by (simp add: py_split_char py_split_char_absent)
  have f1: "parse_field (''container'' @ CHR '':'' # CHR '' '' # (container @ CHR ''_'' # pod)) l =
      Inr (l\<lparr>ol_container_pod := Some (container @ CHR ''_'' # pod)\<rparr>)" for l
    using h by (subst parse_field_eq [where key = "''container''"]) (auto simp: py_strip_def is_space_def)
  have f2: "parse_field ('' pid'' @ CHR '':'' # CHR '' '' # pid) l = Inr (l\<lparr>ol_pid := Some pid\<rparr>)" for l
    using h by (subst parse_field_eq [where key = "''pid''"]) (auto simp: py_strip_def is_space_def)
  have f3: "parse_field ('' oom_score_adj'' @ CHR '':'' # CHR '' '' # adj) l =
      Inr (l\<lparr>ol_oom_score_adj := Some adj\<rparr>)" for l
    using h by (subst parse_field_eq [where key = "''oom_score_adj''"]) (auto simp: py_strip_def is_space_def)
  show ?thesis
    unfolding parse_line_def script_line_split [OF assms] Let_def foldE.simps f1 f2 f3 bindE_simps
    using sp by (simp add: py_nth_def)
qed

lemma script_line_no_newline:
  assumes "plain_mark m"
  shows "CHR 0x0A \<notin> set (script_line m)"
proof -
  obtain a b c d where m: "m = (a, b, c, d)" by (cases m)
  then show ?thesis using assms plain_chars(5) by (auto simp: plain_mark_def script_line_def)
qed

lemma parse_lines_eq:
  "list_all plain_mark ms \<Longrightarrow>
   foldE parse_line (map script_line ms) res =
   Inr (fold (\<lambda>(container, pod, pid, adj). store_mark pod container pid (None, Some adj)) ms res)"
proof (induction ms arbitrary: res)
  case Nil
  then show ?case by simp
next
  case (Cons m ms)
  obtain a b c d where m: "m = (a, b, c, d)" by (cases m)
  show ?case using Cons m by (simp add: parse_line_eq)
qed

lemma parse_line_short: "length (py_split '','' s) < 2 \<Longrightarrow> parse_line s res = Inr res"
  by (simp add: parse_line_def)

lemma store_mark_get:
  "(case map_of (store_mark pod c pid sc res) pod' of
      None \<Rightarrow> None
    | Some cs \<Rightarrow> (case map_of cs c' of None \<Rightarrow> None | Some pids \<Rightarrow> map_of pids pid')) =
   (if pod' = pod \<and> c' = c \<and> pid' = pid then Some sc
    else (case map_of res pod' of
      None \<Rightarrow> None
    | Some cs \<Rightarrow> (case map_of cs c' of None \<Rightarrow> None | Some pids \<Rightarrow> map_of pids pid')))"
  by (cases "map_of res pod"; cases "pod' = pod"; cases "c' = c"; cases "pid' = pid")
    (auto simp: store_mark_def split: option.split)

definition script_output :: "(string \<times> string \<times> string \<times> string) list \<Rightarrow> string" where
  "script_output ms = concat (map (\<lambda>m. script_line m @ newline) ms)"

lemma split_script_output:
  "list_all plain_mark ms \<Longrightarrow> py_split newline (script_output ms) = map script_line ms @ [[]]"
proof (induction ms)
  case Nil
  then show ?case by (simp add: script_output_def newline_def py_split_char_absent)
next
  case (Cons m ms)
  have "script_output (m # ms) = script_line m @ CHR 0x0A # script_output ms"
    by (simp add: script_output_def newline_def)
  then show ?case using Cons script_line_no_newline [of m]
    by (simp add: newline_def py_split_char)
qed

lemma parse_script_output:
  assumes "list_all plain_mark ms"
  shows "parse_output (script_output ms) =
    Inr (fold (\<lambda>(container, pod, pid, adj). store_mark pod container pid (None, Some adj)) ms [])"
proof -
  have "parse_line [] res = Inr res" for res
    by (rule parse_line_short) (simp add: py_split_char_absent)
  then show ?thesis
    by (simp add: parse_output_def split_script_output [OF assms] foldE_append parse_lines_eq [OF assms])
qed

definition mark_of :: "marks \<Rightarrow> string \<Rightarrow> string \<Rightarrow> string \<Rightarrow> oom_scores option" where
  "mark_of res pod c pid =
     (case map_of res pod of
        None \<Rightarrow> None
      | Some cs \<Rightarrow> (case map_of cs c of None \<Rightarrow> None | Some pids \<Rightarrow> map_of pids pid))"

lemma mark_of_store:
  "mark_of (store_mark pod c pid sc res) pod' c' pid' =
   (if pod' = pod \<and> c' = c \<and> pid' = pid then Some sc else mark_of res pod' c' pid')"
  unfolding mark_of_def by (rule store_mark_get)

lemma mark_of_fold:
  "mark_of (fold (\<lambda>(container, pod, pid, adj). store_mark pod container pid (None, Some adj)) ms res) p c pid =
   (case find (\<lambda>(container, pod, pid', adj). container = c \<and> pod = p \<and> pid' = pid) (rev ms) of
      Some (_, _, _, adj) \<Rightarrow> Some (None, Some adj)
    | None \<Rightarrow> mark_of res p c pid)"
proof (induction ms rule: rev_induct)
  case Nil
  then show ?case by simp
next
  case (snoc m ms)
  obtain a b d e where m: "m = (a, b, d, e)" by (cases m)
  then show ?case using snoc by (auto simp: mark_of_store)
qed

section \<open>Properties\<close>

text \<open>What the client goes through: notifications, script results, the start of its loop. An
  operation that blocks changes nothing.\<close>

datatype client_op =
    PodStarted scheduling_state string
  | ScriptResult marks scheduling_state
  | ReturnLoopStarts

fun apply_client_op :: "client_op \<Rightarrow> oom_client \<Rightarrow> oom_client" where
  "apply_client_op (PodStarted ss pod) c =
     (case notify_pod_started ss pod c [] of None \<Rightarrow> c | Some (r, c', queue) \<Rightarrow> c')"
| "apply_client_op (ScriptResult res ss) c =
     (case handle_oom_score_adj_script_result res c ss of None \<Rightarrow> c | Some (r, c', ss') \<Rightarrow> c')"
| "apply_client_op ReturnLoopStarts c = c\<lparr>oc_running := True\<rparr>"

lemma notify_inv: "oc_inv c \<Longrightarrow> notify_pod_started ss pod c q = Some (r, c', q') \<Longrightarrow> oc_inv c'"
  by (auto simp: notify_pod_started_def split: option.splits sum.splits dest: decide_inv)

lemma client_op_inv: "oc_inv c \<Longrightarrow> oc_inv (apply_client_op op c)"
  by (cases op) (auto simp: handle_oom_score_adj_script_result_def
      split: option.splits if_splits prod.splits dest: notify_inv dest!: handle_results_inv [rotated])

lemma client_ops_inv: "oc_inv c \<Longrightarrow> oc_inv (fold apply_client_op ops c)"
  by (induction ops arbitrary: c) (auto simp: client_op_inv)

text \<open>At most one pod in flight is marked for the OOM killer: after any sequence of
  notifications and script results, returning, raising or blocking, the client has at most one
  pod marked high in flight.\<close>

theorem one_high_mark: "length (high_in_flight (fold apply_client_op ops init_oom_client)) \<le> 1"
  using client_ops_inv [OF init_oc_inv, of ops] by (simp add: oc_inv_def)

text \<open>The marking lock leaks. A decision keeps the lock exactly when the pod is on no node, or
  some pods are in flight and this one is among them; and then every later decision and every
  script result blocks for ever.\<close>

theorem marking_lock_leaks:
  assumes "decide_pods_marking ss pod c = Some (r, c')"
  shows "(marking_lock c' \<longleftrightarrow>
      get_node_for_scheduled_pod ss pod = None \<or> dict_has (in_flight_pods c) pod) \<and>
    (marking_lock c' \<longrightarrow>
      (\<forall>ss' pod'. decide_pods_marking ss' pod' c' = None) \<and>
      (\<forall>res ss'. oc_running c' \<longrightarrow> handle_oom_score_adj_script_result res c' ss' = None))"
proof -
  have "marking_lock c' \<longleftrightarrow> get_node_for_scheduled_pod ss pod = None \<or> dict_has (in_flight_pods c) pod"
  proof (cases "get_node_for_scheduled_pod ss pod")
    case None
    then show ?thesis using assms by (auto simp: decide_pods_marking_def Let_def split: if_splits)
  next
    case (Some node)
    then show ?thesis using assms
      by (auto simp: decide_pods_marking_def Let_def split_def split: if_splits)
  qed
  then show ?thesis by (simp add: decide_pods_marking_def handle_oom_score_adj_script_result_def)
qed

definition busy_client :: oom_client where
  "busy_client = \<lparr>in_flight_pods = [(''pod-a'', MARKED_HIGH)], last_marked_high_pod = Some ''pod-a'',
     marking_lock = False, oc_running = True\<rparr>"

definition one_node_state :: scheduling_state where
  "one_node_state = init_scheduling_state\<lparr>pods_per_node := [(''node-1'', [''pod-a'', ''pod-b''])]\<rparr>"

theorem marking_lock_leaks_witness:
  "decide_pods_marking one_node_state ''pod-a'' busy_client = Some (Inr [], busy_client\<lparr>marking_lock := True\<rparr>) \<and>
   decide_pods_marking one_node_state ''pod-b'' (busy_client\<lparr>marking_lock := True\<rparr>) = None"
proof -
  have 1: "decide_pods_marking one_node_state ''pod-a'' busy_client = Some (Inr [], busy_client\<lparr>marking_lock := True\<rparr>)"
    by code_simp
  from marking_lock_leaks [OF 1] 1 show ?thesis by simp
qed

text \<open>The script's output is read back. For any processes with plain names, parsing what the
  marking script prints, one line per process, returns for every process the score of its
  last line and nothing else.\<close>

theorem script_output_roundtrip:
  assumes "list_all plain_mark ms"
  shows "\<exists>res. parse_output (script_output ms) = Inr res \<and>
    (\<forall>c p pid. mark_of res p c pid =
       map_option (\<lambda>(_, _, _, adj). (None, Some adj))
         (find (\<lambda>(container, pod, pid', adj). container = c \<and> pod = p \<and> pid' = pid) (rev ms)))"
proof -
  have "mark_of (fold (\<lambda>(container, pod, pid, adj). store_mark pod container pid (None, Some adj)) ms []) p c pid =
      map_option (\<lambda>(_, _, _, adj). (None, Some adj))
        (find (\<lambda>(container, pod, pid', adj). container = c \<and> pod = p \<and> pid' = pid) (rev ms))" for p c pid
    unfolding mark_of_fold by (auto simp: mark_of_def split: option.split)
  then show ?thesis using parse_script_output [OF assms] by blast
qed

theorem script_output_roundtrip_witness:
  "\<exists>res. parse_output (script_output [(''redis'', ''pod-a'', ''17'', ''998''), (''redis'', ''pod-a'', ''18'', ''998'')]) = Inr res \<and>
     mark_of res ''pod-a'' ''redis'' ''18'' = Some (None, Some ''998'')"
proof -
  have "list_all plain_mark [(''redis'', ''pod-a'', ''17'', ''998''), (''redis'', ''pod-a'', ''18'', ''998'')]"
    by code_simp
  from script_output_roundtrip [OF this] show ?thesis by auto
qed

end
