(* ===== verification/Callbacks.thy ===== *)
theory Callbacks
  imports KubeLogs Oom
begin

text \<open>
  \<^verbatim>\<open>perf/callback\<close>: what the watcher threads do with logged events. They read the scheduling and
  estimation states of the pod, wake the worker waiting for the event, or interrupt the
  estimation. \<open>wake_event\<close> may sleep for the waiting thread to appear; what other threads do
  meanwhile is the argument \<open>env\<close>, \<open>300\<close> sleeps at most.
\<close>

section \<open>The world of a callback\<close>

record world =
  w_estimation :: phase_result_state
  w_scheduling :: scheduling_state
  w_enable_oom_handler :: bool
  w_oom_client :: oom_client
  w_args_queue :: "marking list list"

type_synonym thread_env = "nat \<Rightarrow> phase_result_state \<Rightarrow> phase_result_state"

definition WAKE_RETRIES :: nat where "WAKE_RETRIES = 300"

definition est_interrupt :: "thread_env \<Rightarrow> int \<Rightarrow> string \<Rightarrow> PodEstimationResultEvent \<Rightarrow> world \<Rightarrow> world" where
  "est_interrupt env now pod t w =
     w\<lparr>w_estimation := wake_event env WAKE_RETRIES pod
          (add_result_event now PNone pod (EstResult t) (w_estimation w))\<rparr>"

definition est_wake :: "thread_env \<Rightarrow> string \<Rightarrow> world \<Rightarrow> world" where
  "est_wake env pod w = w\<lparr>w_estimation := wake_event env WAKE_RETRIES pod (w_estimation w)\<rparr>"

definition sched_wake :: "(nat \<Rightarrow> scheduling_state \<Rightarrow> scheduling_state) \<Rightarrow> string \<Rightarrow> world \<Rightarrow> world" where
  "sched_wake env pod w = w\<lparr>w_scheduling := wake_event env WAKE_RETRIES pod (w_scheduling w)\<rparr>"

section \<open>\<^verbatim>\<open>PodCallback\<close>\<close>

text \<open>The scan over \<open>containerStatuses\<close> of the raw event: all running, all started.\<close>

definition scan_container :: "pydict \<Rightarrow> bool \<times> bool \<Rightarrow> (bool \<times> bool) pyres" where
  "scan_container status = (\<lambda>(running, started).
     bindE (bindE (dict_lookup status ''state'') (\<lambda>st. pv_has st ''running'')) (\<lambda>r.
     bindE (dict_lookup status ''started'') (\<lambda>s.
       Inr (if r then running else False, if truthy s then started else False))))"

definition containers_up :: "pydict \<Rightarrow> (bool \<times> bool) pyres" where
  "containers_up status =
     (case map_of status ''containerStatuses'' of
        None \<Rightarrow> Inr (False, False)
      | Some v \<Rightarrow> bindE (dict_list v) (\<lambda>ds. foldE scan_container ds (True, True)))"

text \<open>\<open>event.raw_event.status\<close>: only pod-object events carry one.\<close>

definition raw_status :: "pod_logged_event \<Rightarrow> pydict pyres" where
  "raw_status e = (case pe_raw_event e of Some (PodObjectRawEvent raw) \<Rightarrow> Inr (por_status raw) | _ \<Rightarrow> Inl AttributeError)"

definition data_is :: "pod_logged_event \<Rightarrow> string \<Rightarrow> string \<Rightarrow> bool pyres" where
  "data_is e key value = bindE (pv_get (pe_data e) key) (\<lambda>v. Inr (py_eq v (PStr value)))"

definition count_at_least :: "pod_logged_event \<Rightarrow> int \<Rightarrow> bool pyres" where
  "count_at_least e n =
     bindE (pv_get (pe_data e) ''count'') (\<lambda>v. case v of PInt i \<Rightarrow> Inr (n \<le> i) | PBool b \<Rightarrow> Inr (n \<le> of_bool b) | _ \<Rightarrow> Inl TypeError)"

text \<open>\<open>a and b\<close> of Python on computations that may raise.\<close>

definition andE :: "bool \<Rightarrow> bool pyres \<Rightarrow> bool pyres" where
  "andE a b = (if a then b else Inr False)"

text \<open>\<open>self.scheduler.oom_handler_client.notify_pod_started(pod)\<close>; it may block for ever, which
  the result \<open>None\<close> says.\<close>

definition notify_oom :: "string \<Rightarrow> world \<Rightarrow> world pyres option" where
  "notify_oom pod w =
     (case notify_pod_started (w_scheduling w) pod (w_oom_client w) (w_args_queue w) of
        None \<Rightarrow> None
      | Some (r, c, q) \<Rightarrow> Some (bindE r (\<lambda>_. Inr (w\<lparr>w_oom_client := c, w_args_queue := q\<rparr>))))"

text \<open>The interrupts, from line 75 on.\<close>

definition pod_scheduled_and_kept :: "world \<Rightarrow> string \<Rightarrow> bool pyres" where
  "pod_scheduled_and_kept w pod =
     bindE (get_last_phase_event_type (w_scheduling w) pod) (\<lambda>t.
       Inr (t \<noteq> Some (SchedPhase WAITING_FOR_POD_TO_BE_DELETED) \<and>
            has_result_type (w_scheduling w) pod (SchedResult PodSchedulingResultEvent.POD_SCHEDULED)))"

definition pod_interrupts :: "thread_env \<Rightarrow> int \<Rightarrow> pod_logged_event \<Rightarrow> world \<Rightarrow> world pyres" where
  "pod_interrupts env now event w =
     (let pod = pe_pod_name event in
      bindE (andE (pe_type event = PodObject CONTAINER_STATE_CHANGED)
               (bindE (bindE (pv_get (pe_data event) ''state'') (\<lambda>st. pv_has st ''terminated'')) (\<lambda>terminated.
                  andE terminated (pod_scheduled_and_kept w pod)))) (\<lambda>terminated.
      let w1 = (if terminated then est_interrupt env now pod INTERRUPTED_UNEXPECTED_CONTAINER_TERMINATION w else w) in
      bindE (andE (pe_type event = PodObject PodObjectLoggedEvent.POD_DELETED) (pod_scheduled_and_kept w1 pod)) (\<lambda>deleted.
      if deleted then Inr (est_interrupt env now pod INTERRUPTED_UNEXPECTED_POD_DELETION w1)
      else if pe_type event = PodKube CONTAINER_EVENT \<and> pe_container_name event = Some DATA_FEED_CONTAINER then
        bindE (data_is event ''reason'' ''UnhealthyLiveness'') (\<lambda>liveness.
        bindE (data_is event ''reason'' ''UnhealthyStartup'') (\<lambda>startup.
        bindE (andE liveness (count_at_least event 5)) (\<lambda>dead.
        if dead then Inr (est_interrupt env now pod INTERRUPTED_DF_CONTAINER_HEALTH_LIVENESS w1)
        else bindE (andE startup (count_at_least event 10)) (\<lambda>stuck.
             if stuck then Inr (est_interrupt env now pod INTERRUPTED_DF_CONTAINER_HEALTH_STARTUP w1)
             else Inr w1))))
      else Inr w1)))"

text \<open>The whole handler: skips, wake-ups of the scheduling and estimation threads, interrupts.\<close>

definition pod_callback :: "thread_env \<Rightarrow> (nat \<Rightarrow> scheduling_state \<Rightarrow> scheduling_state) \<Rightarrow> int \<Rightarrow> logged_event \<Rightarrow> world \<Rightarrow> world pyres option" where
  "pod_callback env senv now logged w =
     (case logged of NodeLoggedEvent _ \<Rightarrow> Some (Inl ValueError)
      | PodLoggedEvent event \<Rightarrow>
     (let pod = pe_pod_name event; est = w_estimation w; sched = w_scheduling w in
      case get_last_phase_event_type sched pod of Inl e \<Rightarrow> Some (Inl e) | Inr sphase \<Rightarrow>
      case andE (sphase \<noteq> Some (SchedPhase WAITING_FOR_POD_TO_BE_DELETED))
             (is_interrupted estimation_interrupts est pod) of Inl e \<Rightarrow> Some (Inl e) | Inr skip \<Rightarrow>
      if skip then Some (Inr w)
      else
      case andE (sphase = Some (SchedPhase WAITING_FOR_POD_TO_BE_SCHEDULED) \<and> pe_type event = PodKube POD_EVENT)
             (data_is event ''reason'' ''Scheduled'') of Inl e \<Rightarrow> Some (Inl e) | Inr scheduled \<Rightarrow>
      if scheduled then Some (Inr (sched_wake senv pod w))
      else if sphase = Some (SchedPhase WAITING_FOR_POD_TO_BE_DELETED) \<and>
              pe_type event = PodObject PodObjectLoggedEvent.POD_DELETED
      then Some (Inr (sched_wake senv pod w))
      else
      case get_last_phase_event_type est pod of Inl e \<Rightarrow> Some (Inl e) | Inr ephase \<Rightarrow>
      case andE (ephase = Some (EstPhase WAITING_FOR_DF_CONTAINER_TO_PULL_IMAGE) \<and>
                 pe_type event = PodKube CONTAINER_EVENT \<and> pe_container_name event = Some DATA_FEED_CONTAINER)
             (data_is event ''reason'' ''Pulled'') of Inl e \<Rightarrow> Some (Inl e) | Inr pulled \<Rightarrow>
      if pulled then Some (Inr (est_wake env pod w))
      else
      case (if ephase = Some (EstPhase WAITING_FOR_POD_TO_START_ESTIMATION_RUN) \<and>
                 (pe_type event = PodObject CONTAINER_STATE_CHANGED \<or>
                  pe_type event = PodObject CONTAINER_STARTUP_PROBE_STATE_CHANGED)
            then bindE (bindE (raw_status event) containers_up) (\<lambda>(running, started). Inr (running \<and> started))
            else Inr False) of Inl e \<Rightarrow> Some (Inl e) | Inr up \<Rightarrow>
      if up then
        (if w_enable_oom_handler w then notify_oom pod (est_wake env pod w)
         else Some (Inr (est_wake env pod w)))
      else Some (pod_interrupts env now event w)))"

section \<open>\<^verbatim>\<open>NodeCallback\<close>\<close>

definition node_callback :: "thread_env \<Rightarrow> int \<Rightarrow> logged_event \<Rightarrow> world \<Rightarrow> world pyres" where
  "node_callback env now logged w =
     (case logged of PodLoggedEvent _ \<Rightarrow> Inl ValueError
      | NodeLoggedEvent event \<Rightarrow>
          if ne_type event = NodeKube OOM_KILLED_PROCESS \<or> ne_type event = NodeKube OOM_VICTIM_PROCESS then
            bindE (bindE (pv_get (ne_data event) ''pid'') as_str) (\<lambda>pid.
            let (pod, container) = find_pod_container_by_pid (w_scheduling w) pid;
                w1 = w\<lparr>w_scheduling := mark_last_oom_time now (ne_node_name event) (w_scheduling w)\<rparr>
            in case pod of
                 None \<Rightarrow> Inr w1
               | Some p \<Rightarrow>
                   bindE (is_interrupted estimation_interrupts (w_estimation w1) p) (\<lambda>interrupted.
                     Inr (if interrupted then w1 else est_interrupt env now p INTERRUPTED_OOM w1)))
          else Inr w)"

section \<open>What a callback does to the logs\<close>

text \<open>Other threads may touch the wait events while a callback sleeps, not the results.\<close>

definition keeps_results :: "thread_env \<Rightarrow> bool" where
  "keeps_results env \<longleftrightarrow> (\<forall>n s. result_types (env n s) = result_types s)"

lemma await_keeps: "keeps_results env \<Longrightarrow> result_types (await_wait_event env pod n st) = result_types st"
  by (induction n arbitrary: st) (auto simp: keeps_results_def)

lemma result_types_wait [simp]: "result_types (st\<lparr>wait_event_per_pod := d\<rparr>) = result_types st"
  by (simp add: result_types_def fun_eq_iff)

lemma wake_keeps: "keeps_results env \<Longrightarrow> result_types (wake_event env r pod st) = result_types st"
  by (simp add: wake_event_def Let_def await_keeps del: await_wait_event.simps)

definition interrupts_pod :: "string \<Rightarrow> world \<Rightarrow> world \<Rightarrow> bool" where
  "interrupts_pod pod w w' \<longleftrightarrow>
     (\<exists>ts. length ts \<le> 1 \<and> set ts \<subseteq> set estimation_interrupts \<and>
        result_types (w_estimation w') =
          (result_types (w_estimation w))(pod := result_types (w_estimation w) pod @ ts))"

lemma interrupts_pod_refl: "interrupts_pod pod w w"
  unfolding interrupts_pod_def by (rule exI [of _ "[]"]) simp

lemma est_wake_interrupts: "keeps_results env \<Longrightarrow> interrupts_pod pod w (est_wake env p w)"
  unfolding interrupts_pod_def by (rule exI [of _ "[]"]) (simp add: est_wake_def wake_keeps)

lemma sched_wake_interrupts: "interrupts_pod pod w (sched_wake senv p w)"
  unfolding interrupts_pod_def by (rule exI [of _ "[]"]) (simp add: sched_wake_def)

lemma est_interrupt_interrupts:
  assumes "keeps_results env" "EstResult t \<in> set estimation_interrupts"
  shows "interrupts_pod pod w (est_interrupt env now pod t w)"
  unfolding interrupts_pod_def
  using assms by (intro exI [of _ "[EstResult t]"])
    (auto simp: est_interrupt_def wake_keeps fun_eq_iff results.types_add)

lemma interrupt_types:
  "EstResult INTERRUPTED_UNEXPECTED_CONTAINER_TERMINATION \<in> set estimation_interrupts"
  "EstResult INTERRUPTED_UNEXPECTED_POD_DELETION \<in> set estimation_interrupts"
  "EstResult INTERRUPTED_DF_CONTAINER_HEALTH_LIVENESS \<in> set estimation_interrupts"
  "EstResult INTERRUPTED_DF_CONTAINER_HEALTH_STARTUP \<in> set estimation_interrupts"
  "EstResult INTERRUPTED_OOM \<in> set estimation_interrupts"
  by (simp_all add: estimation_interrupts_def)

lemma pod_interrupts_spec:
  assumes k: "keeps_results env" and r: "pod_interrupts env now e w = Inr w'"
  shows "interrupts_pod (pe_pod_name e) w w'"
proof (cases "pe_type e = PodObject CONTAINER_STATE_CHANGED")
  case True
  then have "w' = w \<or> w' = est_interrupt env now (pe_pod_name e) INTERRUPTED_UNEXPECTED_CONTAINER_TERMINATION w"
    using r by (auto simp: pod_interrupts_def andE_def Let_def split: if_splits)
  then show ?thesis
    using interrupts_pod_refl est_interrupt_interrupts [OF k interrupt_types(1)] by auto
next
  case False
  show ?thesis
  proof (cases "pe_type e = PodObject PodObjectLoggedEvent.POD_DELETED")
    case True
    then have "w' = w \<or> w' = est_interrupt env now (pe_pod_name e) INTERRUPTED_UNEXPECTED_POD_DELETION w"
      using r by (auto simp: pod_interrupts_def andE_def Let_def split: if_splits)
    then show ?thesis
      using interrupts_pod_refl est_interrupt_interrupts [OF k interrupt_types(2)] by auto
  next
    case nd: False
    have "w' = w \<or> w' = est_interrupt env now (pe_pod_name e) INTERRUPTED_DF_CONTAINER_HEALTH_LIVENESS w
        \<or> w' = est_interrupt env now (pe_pod_name e) INTERRUPTED_DF_CONTAINER_HEALTH_STARTUP w"
      using r False nd by (auto simp: pod_interrupts_def andE_def Let_def split: if_splits)
    then show ?thesis
      using interrupts_pod_refl est_interrupt_interrupts [OF k interrupt_types(3)]
        est_interrupt_interrupts [OF k interrupt_types(4)] by auto
  qed
qed

lemma notify_oom_interrupts:
  assumes "interrupts_pod pod w w1" "notify_oom p w1 = Some (Inr w')"
  shows "interrupts_pod pod w w'"
proof -
  have "w_estimation w' = w_estimation w1"
    using assms(2) by (auto simp: notify_oom_def split: option.splits)
  then show ?thesis using assms(1) by (simp add: interrupts_pod_def)
qed

text \<open>What a callback can have done when it returns, and when it skips.\<close>

lemma pod_callback_cases:
  assumes "pod_callback env senv now (PodLoggedEvent e) w = Some (Inr w')"
  shows "w' = w \<or> w' = sched_wake senv (pe_pod_name e) w \<or> w' = est_wake env (pe_pod_name e) w \<or>
    notify_oom (pe_pod_name e) (est_wake env (pe_pod_name e) w) = Some (Inr w') \<or>
    pod_interrupts env now e w = Inr w'"
  using assms by (auto simp: pod_callback_def Let_def split: sum.splits if_splits)

lemma pod_callback_skips:
  assumes "get_last_phase_event_type (w_scheduling w) (pe_pod_name e) = Inr p"
    "p \<noteq> Some (SchedPhase WAITING_FOR_POD_TO_BE_DELETED)"
    "is_interrupted estimation_interrupts (w_estimation w) (pe_pod_name e) = Inr True"
  shows "pod_callback env senv now (PodLoggedEvent e) w = Some (Inr w)"
  using assms by (simp add: pod_callback_def andE_def)

section \<open>Properties\<close>

text \<open>A pod event interrupts an estimation at most once. A pod callback that returns has added at
  most one result to the pod's log, an interrupt, and none to any other pod's; and while the
  pod is interrupted and not waiting for its deletion, every event of the pod is ignored.\<close>

theorem pod_callback_interrupts_once:
  assumes "keeps_results env" "pod_callback env senv now (PodLoggedEvent e) w = Some (Inr w')"
    "prs_inv (w_estimation w)" "prs_inv (w_scheduling w)"
  shows "interrupts_pod (pe_pod_name e) w w' \<and>
    ((\<exists>t\<in>set estimation_interrupts. last_type (result_types (w_estimation w) (pe_pod_name e)) = Some t) \<and>
     last_type (phase_types (w_scheduling w) (pe_pod_name e)) \<noteq> Some (SchedPhase WAITING_FOR_POD_TO_BE_DELETED)
     \<longrightarrow> w' = w)"
proof
  show "interrupts_pod (pe_pod_name e) w w'"
    using pod_callback_cases [OF assms(2)] interrupts_pod_refl sched_wake_interrupts
      est_wake_interrupts [OF assms(1)] notify_oom_interrupts pod_interrupts_spec [OF assms(1)]
    by metis
next
  show "(\<exists>t\<in>set estimation_interrupts. last_type (result_types (w_estimation w) (pe_pod_name e)) = Some t) \<and>
     last_type (phase_types (w_scheduling w) (pe_pod_name e)) \<noteq> Some (SchedPhase WAITING_FOR_POD_TO_BE_DELETED)
     \<longrightarrow> w' = w"
    using pod_callback_skips [of w e "last_type (phase_types (w_scheduling w) (pe_pod_name e))" env senv now] assms
    by (auto simp: get_last_phase_event_type_eq is_interrupted_eq)
qed

definition sample_world :: world where
  "sample_world =
     \<lparr>w_estimation = snd (wait_event id ''pod-a''
        (add_phase_event 1 ''pod-a'' (EstPhase WAITING_FOR_POD_TO_FINISH_ESTIMATION_RUN) init_phase_result_state)),
      w_scheduling =
        mark_last_oom_time 0 ''node-0''
          (add_result_event 1 PNone ''pod-a'' (SchedResult PodSchedulingResultEvent.POD_SCHEDULED)
            (init_scheduling_state\<lparr>pods_per_node := [(''node-1'', [''pod-a''])],
               pids_per_container_per_pod := [(''pod-a'', [(''redis'', [(''17'', (None, Some ''998''))])])]\<rparr>)),
      w_enable_oom_handler = False, w_oom_client = init_oom_client, w_args_queue = []\<rparr>"

definition deleted_event :: pod_logged_event where
  "deleted_event = \<lparr>pe_type = PodObject PodObjectLoggedEvent.POD_DELETED, pe_pod_name = ''pod-a'',
     pe_container_name = None, pe_data = PNone, pe_cluster_time = None, pe_local_time = 4, pe_raw_event = None\<rparr>"

definition interrupted_world :: world where
  "interrupted_world =
     (case pod_callback (\<lambda>_ s. s) (\<lambda>_ s. s) 5 (PodLoggedEvent deleted_event) sample_world of
        Some (Inr w) \<Rightarrow> w | _ \<Rightarrow> sample_world)"

theorem pod_callback_interrupts_once_witness:
  "interrupts_pod ''pod-a'' sample_world interrupted_world \<and>
   result_types (w_estimation interrupted_world) ''pod-a'' = [EstResult INTERRUPTED_UNEXPECTED_POD_DELETION] \<and>
   pod_callback (\<lambda>_ s. s) (\<lambda>_ s. s) 6 (PodLoggedEvent deleted_event) interrupted_world = Some (Inr interrupted_world)"
proof -
  have 1: "pod_callback (\<lambda>_ s. s) (\<lambda>_ s. s) 5 (PodLoggedEvent deleted_event) sample_world = Some (Inr interrupted_world)"
    by code_simp
  have k: "keeps_results (\<lambda>_ s. s)" by (simp add: keeps_results_def)
  have i: "prs_inv (w_estimation sample_world)" "prs_inv (w_scheduling sample_world)"
    by (simp add: sample_world_def wait_event_def prs_inv_def add_phase_event_def init_phase_result_state_def
        dict_all_def dict_wf_def)
      (simp add: sample_world_def prs_inv_def add_result_event_def init_scheduling_state_def mark_last_oom_time_def
        dict_all_def dict_wf_def)
  have "interrupts_pod ''pod-a'' sample_world interrupted_world"
    using conjunct1 [OF pod_callback_interrupts_once [OF k 1 i]] by (simp add: deleted_event_def)
  moreover have "result_types (w_estimation interrupted_world) ''pod-a'' = [EstResult INTERRUPTED_UNEXPECTED_POD_DELETION]"
    "pod_callback (\<lambda>_ s. s) (\<lambda>_ s. s) 6 (PodLoggedEvent deleted_event) interrupted_world = Some (Inr interrupted_world)"
    by code_simp+
  ultimately show ?thesis by simp
qed

text \<open>The node's OOM report reaches the right pod. When the marking script reported the pid in a
  pod's container and no other, and the kubelet reports that a process with this pid was killed,
  the node callback records the time of the kill on the node and, unless that pod's
  estimation is already interrupted, interrupts it and nobody else.\<close>

theorem oom_kill_interrupts_owner:
  assumes "keeps_results env" "prs_inv (w_estimation w)"
    and "kr_object_reason raw = ''OOMKilling''"
    and "oom_killed_process (kr_object_message raw) = Inr (pid, pname)"
    and "find_pod_container_by_pid (w_scheduling w) pid = (Some pod, c)"
  shows "\<exists>w'. node_callback env now (node_kube_event now' raw) w = Inr w' \<and>
    get_last_oom_time (w_scheduling w') (kr_involved_object_name raw) = Some now \<and>
    interrupts_pod pod w w' \<and>
    ((\<forall>t\<in>set estimation_interrupts. last_type (result_types (w_estimation w) pod) \<noteq> Some t)
      \<longrightarrow> last_type (result_types (w_estimation w') pod) = Some (EstResult INTERRUPTED_OOM))"
proof -
  define w1 where "w1 = w\<lparr>w_scheduling := mark_last_oom_time now (kr_involved_object_name raw) (w_scheduling w)\<rparr>"
  define intr where "intr = (\<exists>t\<in>set estimation_interrupts. last_type (result_types (w_estimation w) pod) = Some t)"
  have cb: "node_callback env now (node_kube_event now' raw) w =
      Inr (if intr then w1 else est_interrupt env now pod INTERRUPTED_OOM w1)"
    using assms(2-5)
    by (simp add: node_callback_def node_kube_event_def node_event_def Let_def dict_lookup_def
        kube_data_def is_interrupted_eq w1_def intr_def)
  have e: "w_estimation w1 = w_estimation w" by (simp add: w1_def)
  have i: "interrupts_pod pod w w1 = interrupts_pod pod w w" "interrupts_pod pod w1 w2 = interrupts_pod pod w w2" for w2
    by (simp_all add: interrupts_pod_def e)
  show ?thesis
  proof (cases intr)
    case True
    then show ?thesis using cb i(1) interrupts_pod_refl [of pod w]
      by (intro exI [of _ w1]) (auto simp: intr_def w1_def get_last_oom_time_def mark_last_oom_time_def)
  next
    case False
    let ?w' = "est_interrupt env now pod INTERRUPTED_OOM w1"
    have "interrupts_pod pod w ?w'"
      using est_interrupt_interrupts [OF assms(1) interrupt_types(5), of pod w1 now] i(2) by simp
    moreover have "last_type (result_types (w_estimation ?w') pod) = Some (EstResult INTERRUPTED_OOM)"
      by (simp add: est_interrupt_def wake_keeps [OF assms(1)] results.types_add_same)
    moreover have "get_last_oom_time (w_scheduling ?w') (kr_involved_object_name raw) = Some now"
      by (simp add: est_interrupt_def w1_def get_last_oom_time_def mark_last_oom_time_def)
    ultimately show ?thesis using cb False by auto
  qed
qed

definition oom_report :: kube_raw where
  "oom_report =
     \<lparr>kr_type = ''ADDED'', kr_resource_version = ''9'', kr_object_kind = ''Event'', kr_object_type = ''Warning'',
      kr_object_reason = ''OOMKilling'',
      kr_object_message = ''Memory cgroup out of memory: Killed process 17 (svoe_data_feed_) total-vm:842716kB'',
      kr_object_count = Some 1, kr_involved_object_kind = ''Node'', kr_involved_object_name = ''node-1'',
      kr_involved_object_field_path = None, kr_object_first_timestamp = None, kr_object_last_timestamp = Some 3,
      kr_creation_timestamp = None, kr_event_time = None\<rparr>"

theorem oom_kill_interrupts_owner_witness:
  "\<exists>w'. node_callback (\<lambda>_ s. s) 7 (node_kube_event 6 oom_report) sample_world = Inr w' \<and>
     get_last_oom_time (w_scheduling w') ''node-1'' = Some 7"
proof -
  have k: "keeps_results (\<lambda>_ s. s)" by (simp add: keeps_results_def)
  have i: "prs_inv (w_estimation sample_world)"
    by (simp add: sample_world_def wait_event_def prs_inv_def add_phase_event_def init_phase_result_state_def
        dict_all_def dict_wf_def)
  have "kr_object_reason oom_report = ''OOMKilling''"
    "oom_killed_process (kr_object_message oom_report) = Inr (''17'', ''svoe_data_feed_'')"
    "find_pod_container_by_pid (w_scheduling sample_world) ''17'' = (Some ''pod-a'', Some ''redis'')"
    by code_simp+
  from oom_kill_interrupts_owner [OF k i this, of 7 6] show ?thesis by (auto simp: oom_report_def)
qed

end
