(* ===== verification/KubeApi.thy ===== *)
theory KubeApi
  imports Events PyString
begin

text \<open>
  \<^verbatim>\<open>perf/kube_api\<close>: resource quantities, object names and the parts of \<open>KubeApi\<close> that compute.
  The Kubernetes client is an argument: what a call returns or raises.
\<close>

section \<open>\<^verbatim>\<open>ResourceConvert\<close>\<close>

text \<open>\<open>re.match("[0-9]{1,n}u", s)\<close>: the digits at the front number between 1 and \<open>n\<close> and the
  character \<open>u\<close> follows. \<open>re.sub("[^0-9]", "", s)\<close> keeps the digits.\<close>

definition unit_match :: "nat \<Rightarrow> char \<Rightarrow> string \<Rightarrow> bool" where
  "unit_match n u s =
     (let k = length (takeWhile is_digit s)
      in 1 \<le> k \<and> k \<le> n \<and> k < length s \<and> s ! k = u)"

definition bare_match :: "nat \<Rightarrow> string \<Rightarrow> bool" where
  "bare_match n s =
     (let k = length (takeWhile is_digit s)
      in 1 \<le> k \<and> k \<le> n \<and> (drop k s = [] \<or> drop k s = [CHR 0x0A]))"

definition digits_of :: "string \<Rightarrow> int" where
  "digits_of s = int (read_digits (filter is_digit s))"

definition cpu :: "string \<Rightarrow> int pyres" where
  "cpu s =
     (if unit_match 9 (CHR ''m'') s then Inr (digits_of s)
      else if bare_match 4 s then bindE (py_int s) (\<lambda>n. Inr (n * 1000))
      else if unit_match 15 (CHR ''n'') s then Inr (digits_of s div 1000000)
      else if unit_match 15 (CHR ''u'') s then Inr (digits_of s div 1000)
      else Inl UnboundLocalError)"

definition memory :: "string \<Rightarrow> int pyres" where
  "memory s =
     (if unit_match 9 (CHR ''M'') s then Inr (digits_of s)
      else if unit_match 9 (CHR ''K'') s then Inr (digits_of s div 1024)
      else if unit_match 9 (CHR ''G'') s then Inr (digits_of s * 1024)
      else Inl UnboundLocalError)"

section \<open>Names\<close>

definition pod_name_from_ss_name :: "string \<Rightarrow> string" where
  "pod_name_from_ss_name ss_name = take (length ss_name - 3) ss_name"

definition ss_name_from_pod_name :: "string \<Rightarrow> string" where
  "ss_name_from_pod_name pod_name = pod_name @ ''-ss''"

definition cm_name_pod_name :: "string \<Rightarrow> string" where
  "cm_name_pod_name pod_name = pod_name @ ''-cm''"

definition get_payload_config :: "pyval \<Rightarrow> pyval pyres" where
  "get_payload_config payload = pv_get payload ''payload_config''"

definition get_payload_hash :: "pyval \<Rightarrow> pyval pyres" where
  "get_payload_hash payload = pv_get payload ''payload_hash''"

section \<open>Which pods to estimate\<close>

record container_spec =
  cs_name :: string
  cs_limits :: "pydict option"
  cs_requests :: "pydict option"

record ss_spec =
  ss_name :: string
  ss_containers :: "container_spec list"

definition should_estimate :: "ss_spec \<Rightarrow> bool" where
  "should_estimate spec =
     list_ex (\<lambda>c. cs_name c = DATA_FEED_CONTAINER \<and> cs_limits c = None \<and> cs_requests c = None) (ss_containers spec)"

text \<open>\<open>specs\<close> is what listing the stateful sets returned.\<close>

definition load_pod_names_from_ss :: "ss_spec list \<Rightarrow> string list option \<Rightarrow> string list" where
  "load_pod_names_from_ss specs only =
     (let filtered_ss_names = map ss_name (filter should_estimate specs);
          kept = (case only of
                    None \<Rightarrow> filtered_ss_names
                  | Some sub \<Rightarrow> if length sub > 0 then filter (\<lambda>name. name \<in> set sub) filtered_ss_names
                                else filtered_ss_names)
      in map pod_name_from_ss_name kept)"

section \<open>Node usage\<close>

record node_usage =
  nu_cpu :: int
  nu_memory :: int
  nu_cluster_timestamp :: int

text \<open>An item of the metrics API: node name, cpu and memory quantities, timestamp.\<close>

type_synonym usage_item = "string \<times> string \<times> string \<times> string"

definition usage_of_item :: "(string \<Rightarrow> int pyres) \<Rightarrow> usage_item \<Rightarrow> (string, node_usage) dict \<Rightarrow> (string, node_usage) dict pyres" where
  "usage_of_item parse_timestamp item res =
     (case item of (name, c, m, ts) \<Rightarrow>
        bindE (cpu c) (\<lambda>c'. bindE (memory m) (\<lambda>m'. bindE (parse_timestamp ts) (\<lambda>t.
          Inr (dict_put name \<lparr>nu_cpu = c', nu_memory = m', nu_cluster_timestamp = t\<rparr> res)))))"

text \<open>An API call returns, or raises an \<open>ApiException\<close> with a reason.\<close>

datatype 'a api_call = ApiReturns 'a | ApiRaises string

definition SERVICE_UNAVAILABLE :: string where "SERVICE_UNAVAILABLE = ''Service Unavailable''"

definition get_nodes_resource_usage :: "(string \<Rightarrow> int pyres) \<Rightarrow> usage_item list api_call \<Rightarrow> (string + (string, node_usage) dict) pyres" where
  "get_nodes_resource_usage parse_timestamp call =
     (case call of
        ApiRaises reason \<Rightarrow> if reason = SERVICE_UNAVAILABLE then Inr (Inl reason) else Inl PlainException
      | ApiReturns items \<Rightarrow> bindE (foldE (usage_of_item parse_timestamp) items []) (\<lambda>res. Inr (Inr res)))"

section \<open>Priority classes\<close>

definition priority_class_name :: "int \<Rightarrow> string" where
  "priority_class_name priority =
     (if priority \<ge> 0 then ''data-feed-estimation-priority-class-'' @ show_int priority
      else ''data-feed-estimation-priority-class-negative-'' @ show_int \<bar>priority\<bar>)"

text \<open>\<open>create\<close> is the API call for a name and a value; the pool caches the names.\<close>

definition get_or_create_priority_class :: "(string \<Rightarrow> int \<Rightarrow> unit api_call) \<Rightarrow> int \<Rightarrow> (int, string) dict \<Rightarrow> (string \<times> (int, string) dict) pyres" where
  "get_or_create_priority_class create priority pool =
     (case map_of pool priority of
        Some name \<Rightarrow> Inr (name, pool)
      | None \<Rightarrow>
          let name = priority_class_name priority in
          (case create name priority of
             ApiRaises reason \<Rightarrow>
               if reason = ''AlreadyExists''
               then Inr (name, dict_put priority name (dict_put priority name pool))
               else Inl PlainException
           | ApiReturns _ \<Rightarrow> Inr (name, dict_put priority name pool)))"

section \<open>The raw pod\<close>

text \<open>Updating a nested value in place: \<open>v[k1][k2]... = f(...)\<close>, keys or list positions.\<close>

datatype path_key = Key string | Idx nat

fun pv_modify :: "path_key list \<Rightarrow> (pyval \<Rightarrow> pyval pyres) \<Rightarrow> pyval \<Rightarrow> pyval pyres" where
  "pv_modify [] f v = f v"
| "pv_modify (Key k # ks) f (PDict d) =
     bindE (dict_lookup d k) (\<lambda>v. bindE (pv_modify ks f v) (\<lambda>v'. Inr (PDict (dict_put k v' d))))"
| "pv_modify (Idx i # ks) f (PList xs) =
     (if i < length xs then bindE (pv_modify ks f (xs ! i)) (\<lambda>v'. Inr (PList (xs[i := v'])))
      else Inl IndexError)"
| "pv_modify (k # ks) f v = Inl TypeError"

fun pv_set :: "string \<Rightarrow> pyval \<Rightarrow> pyval \<Rightarrow> pyval pyres" where
  "pv_set k x (PDict d) = Inr (PDict (dict_put k x d))"
| "pv_set k x _ = Inl TypeError"

fun pv_append :: "pyval \<Rightarrow> pyval \<Rightarrow> pyval pyres" where
  "pv_append x (PList xs) = Inr (PList (xs @ [x]))"
| "pv_append x _ = Inl AttributeError"

text \<open>The \<open>ENV\<close> variable of a container: the first one is overwritten, else one is appended.\<close>

fun set_env_var :: "pyval list \<Rightarrow> (pyval list \<times> bool) pyres" where
  "set_env_var [] = Inr ([], False)"
| "set_env_var (v # vs) =
     bindE (pv_get v ''name'') (\<lambda>n.
       if py_eq n (PStr ''ENV'') then
         bindE (pv_set ''value'' (PStr ''TESTING'') v) (\<lambda>v'. Inr (v' # vs, True))
       else bindE (set_env_var vs) (\<lambda>(vs', found). Inr (v # vs', found)))"

definition env_to_testing :: "pyval \<Rightarrow> pyval pyres" where
  "env_to_testing env =
     (case env of
        PList vars \<Rightarrow>
          bindE (set_env_var vars) (\<lambda>(vars', has_env_var).
            Inr (PList (if has_env_var then vars'
                        else vars' @ [PDict [(''name'', PStr ''ENV''), (''value'', PStr ''TESTING'')]])))
      | _ \<Rightarrow> Inl TypeError)"

definition container_to_testing :: "pyval \<Rightarrow> pyval pyres" where
  "container_to_testing container =
     bindE (pv_get container ''name'') (\<lambda>n.
       if py_eq n (PStr DATA_FEED_CONTAINER) then pv_modify [Key ''env''] env_to_testing container
       else Inr container)"

fun pv_map :: "(pyval \<Rightarrow> pyval pyres) \<Rightarrow> pyval \<Rightarrow> pyval pyres" where
  "pv_map f (PList xs) = bindE (mapE f xs) (\<lambda>ys. Inr (PList ys))"
| "pv_map f _ = Inl TypeError"

definition host_expression :: "string \<Rightarrow> pyval" where
  "host_expression node_name =
     PDict [(''key'', PStr ''kubernetes.io/hostname''), (''operator'', PStr ''In''),
            (''values'', PList [PStr node_name])]"

definition estimator_toleration :: pyval where
  "estimator_toleration =
     PDict [(''key'', PStr ''svoe-role''), (''value'', PStr ''resource-estimator''),
            (''operator'', PStr ''Equal''), (''effect'', PStr ''NoSchedule'')]"

definition AFFINITY_PATH :: "path_key list" where
  "AFFINITY_PATH =
     [Key ''spec'', Key ''affinity'', Key ''nodeAffinity'',
      Key ''requiredDuringSchedulingIgnoredDuringExecution'', Key ''nodeSelectorTerms'', Idx 0,
      Key ''matchExpressions'']"

definition raw_pod_base :: "string \<Rightarrow> pyval \<Rightarrow> pyval pyres" where
  "raw_pod_base pod_name template =
     bindE (pv_modify [Key ''metadata''] (pv_set ''name'' (PStr pod_name)) template)
       (pv_modify [Key ''spec''] (pv_set ''restartPolicy'' (PStr ''Never'')))"

definition raw_pod_definition :: "string \<Rightarrow> string \<Rightarrow> pyval \<Rightarrow> pyval pyres" where
  "raw_pod_definition node_name priority_class t2 =
     bindE (pv_modify [Key ''spec''] (pv_set ''priorityClassName'' (PStr priority_class)) t2) (\<lambda>t3.
     bindE (pv_modify AFFINITY_PATH (pv_append (host_expression node_name)) t3) (\<lambda>t4.
     bindE (pv_modify [Key ''spec'', Key ''containers''] (pv_map container_to_testing) t4) (\<lambda>t5.
     bindE (pv_modify [Key ''spec'', Key ''tolerations''] (pv_append estimator_toleration) t5) (\<lambda>t6.
     bindE (as_dict t6) (\<lambda>t.
       Inr (PDict (fold (\<lambda>(k, v). dict_put k v) t
              [(''apiVersion'', PStr ''v1''), (''kind'', PStr ''Pod'')])))))))"

text \<open>\<open>template_of\<close> reads the stateful set's template, \<open>create_pod\<close> submits the definition.\<close>

definition create_raw_pod :: "(string \<Rightarrow> pyval pyres) \<Rightarrow> (string \<Rightarrow> int \<Rightarrow> unit api_call) \<Rightarrow> (pyval \<Rightarrow> unit pyres) \<Rightarrow>
    string \<Rightarrow> string \<Rightarrow> int \<Rightarrow> (int, string) dict \<Rightarrow> (int, string) dict pyres" where
  "create_raw_pod template_of create create_pod pod_name node_name pod_priority pool =
     bindE (template_of (ss_name_from_pod_name pod_name)) (\<lambda>template.
     bindE (raw_pod_base pod_name template) (\<lambda>base.
     bindE (get_or_create_priority_class create pod_priority pool) (\<lambda>(name, pool').
     bindE (raw_pod_definition node_name name base) (\<lambda>d.
     bindE (create_pod d) (\<lambda>_. Inr pool')))))"

section \<open>Remote scripts\<close>

text \<open>\<open>lookup_pod\<close> finds the scripts pod of a node, \<open>exec\<close> runs the command in a pod. The cache
  also remembers that a node had none.\<close>

definition HANDSHAKE_404 :: string where "HANDSHAKE_404 = ''Handshake status 404 Not Found''"

definition remote_cmd :: "string \<Rightarrow> string list" where
  "remote_cmd script_string = [''nsenter'', ''--mount=/proc/1/ns/mnt'', ''--'', ''bash'', ''-c'', script_string]"

definition execute_remote_script :: "(string \<Rightarrow> string option) \<Rightarrow> (string \<Rightarrow> string list \<Rightarrow> string api_call) \<Rightarrow> string \<Rightarrow> string \<Rightarrow>
    (string, string option) dict \<Rightarrow> string option pyres \<times> (string, string option) dict" where
  "execute_remote_script lookup_pod exec script_string node_name cache =
     (let cmd = remote_cmd script_string;
          cache1 = (if dict_has cache node_name then cache
                    else dict_put node_name (lookup_pod node_name) cache)
      in case the (map_of cache1 node_name) of
           None \<Rightarrow> (Inr None, cache1)
         | Some pod \<Rightarrow>
             (case exec pod cmd of
                ApiReturns out \<Rightarrow> (Inr (Some out), cache1)
              | ApiRaises reason \<Rightarrow>
                  if reason = HANDSHAKE_404 then
                    (case lookup_pod node_name of
                       None \<Rightarrow> (Inr None, cache1)
                     | Some pod2 \<Rightarrow>
                         let cache2 = dict_put node_name (Some pod2) cache1
                         in (case exec pod2 cmd of
                               ApiReturns out \<Rightarrow> (Inr (Some out), cache2)
                             | ApiRaises _ \<Rightarrow> (Inl PlainException, cache2)))
                  else (Inl PlainException, cache1)))"

section \<open>Facts\<close>

lemma show_nat_takeWhile: "\<not> is_digit c \<Longrightarrow> takeWhile is_digit (show_nat n @ c # s) = show_nat n"
  using show_nat_digits [of n] by (simp add: takeWhile_append list_all_iff)

lemma show_nat_takeWhile_all: "takeWhile is_digit (show_nat n) = show_nat n"
  using show_nat_digits [of n] by (simp add: takeWhile_eq_all_conv list_all_iff)

lemma show_nat_filter: "filter is_digit (show_nat n) = show_nat n"
  using show_nat_digits [of n] by (simp add: filter_id_conv list_all_iff)

lemma unit_match_show:
  "\<not> is_digit c \<Longrightarrow> unit_match k u (show_nat n @ c # s) \<longleftrightarrow> length (show_nat n) \<le> k \<and> c = u"
  using show_nat_nonempty [of n]
  by (auto simp: unit_match_def Let_def show_nat_takeWhile Suc_le_eq simp del: show_nat_nonempty)

lemma digits_of_show: "list_all (\<lambda>c. \<not> is_digit c) s \<Longrightarrow> digits_of (show_nat n @ s) = int n"
  by (simp add: digits_of_def show_nat_filter filter_False list_all_iff)

lemma bare_match_show: "bare_match k (show_nat n) \<longleftrightarrow> length (show_nat n) \<le> k"
  using show_nat_nonempty [of n]
  by (auto simp: bare_match_def Let_def show_nat_takeWhile_all Suc_le_eq simp del: show_nat_nonempty)

lemma bare_match_unit: "\<not> is_digit c \<Longrightarrow> c \<noteq> CHR 0x0A \<Longrightarrow> \<not> bare_match k (show_nat n @ c # s)"
  by (simp add: bare_match_def Let_def show_nat_takeWhile)

lemma unit_match_bare: "\<not> unit_match k u (show_nat n)"
  by (simp add: unit_match_def Let_def show_nat_takeWhile_all)

lemma not_digit_chars:
  "\<not> is_digit (CHR ''m'')" "\<not> is_digit (CHR ''n'')" "\<not> is_digit (CHR ''u'')"
  "\<not> is_digit (CHR ''M'')" "\<not> is_digit (CHR ''K'')" "\<not> is_digit (CHR ''G'')" "\<not> is_digit (CHR ''i'')"
  by (simp_all add: is_digit_def)

lemma show_nat_long: "10 ^ k \<le> n \<Longrightarrow> k < length (show_nat n)"
proof (induction k arbitrary: n)
  case 0
  then show ?case using show_nat_nonempty [of n] by (simp del: show_nat_nonempty)
next
  case (Suc k)
  have "10 \<le> (10::nat) ^ Suc k" by simp
  then have "\<not> n < 10" using Suc.prems by linarith
  moreover have "10 ^ k \<le> n div 10" using Suc.prems by (simp add: less_eq_div_iff_mult_less_eq mult.commute)
  ultimately have n: "\<not> n < 10" "10 ^ k \<le> n div 10" by simp_all
  from Suc.IH [OF n(2)] n(1) show ?case by (simp add: show_nat.simps [of n])
qed

lemma ss_name_roundtrip [simp]: "pod_name_from_ss_name (ss_name_from_pod_name p) = p"
  by (simp add: pod_name_from_ss_name_def ss_name_from_pod_name_def)

lemma conversions:
  "n < 10 ^ 9 \<Longrightarrow> cpu (show_nat n @ ''m'') = Inr (int n)"
  "n < 10 ^ 4 \<Longrightarrow> cpu (show_nat n) = Inr (int n * 1000)"
  "n < 10 ^ 15 \<Longrightarrow> cpu (show_nat n @ ''n'') = Inr (int n div 1000000)"
  "n < 10 ^ 15 \<Longrightarrow> cpu (show_nat n @ ''u'') = Inr (int n div 1000)"
  "n < 10 ^ 9 \<Longrightarrow> memory (show_nat n @ ''Mi'') = Inr (int n)"
  "n < 10 ^ 9 \<Longrightarrow> memory (show_nat n @ ''Ki'') = Inr (int n div 1024)"
  "n < 10 ^ 9 \<Longrightarrow> memory (show_nat n @ ''Gi'') = Inr (int n * 1024)"
  "10 ^ 4 \<le> n \<Longrightarrow> cpu (show_nat n) = Inl UnboundLocalError"
  "memory (show_nat n) = Inl UnboundLocalError"
proof -
  note len = show_nat_length
  note r = cpu_def memory_def unit_match_show bare_match_unit bare_match_show unit_match_bare
    not_digit_chars digits_of_show
  show "n < 10 ^ 9 \<Longrightarrow> cpu (show_nat n @ ''m'') = Inr (int n)" using len [of 9 n] by (simp add: r)
  show "n < 10 ^ 4 \<Longrightarrow> cpu (show_nat n) = Inr (int n * 1000)" using len [of 4 n] by (simp add: r)
  show "n < 10 ^ 15 \<Longrightarrow> cpu (show_nat n @ ''n'') = Inr (int n div 1000000)" using len [of 15 n] by (simp add: r)
  show "n < 10 ^ 15 \<Longrightarrow> cpu (show_nat n @ ''u'') = Inr (int n div 1000)" using len [of 15 n] by (simp add: r)
  show "n < 10 ^ 9 \<Longrightarrow> memory (show_nat n @ ''Mi'') = Inr (int n)" using len [of 9 n] by (simp add: r)
  show "n < 10 ^ 9 \<Longrightarrow> memory (show_nat n @ ''Ki'') = Inr (int n div 1024)" using len [of 9 n] by (simp add: r)
  show "n < 10 ^ 9 \<Longrightarrow> memory (show_nat n @ ''Gi'') = Inr (int n * 1024)" using len [of 9 n] by (simp add: r)
  show "10 ^ 4 \<le> n \<Longrightarrow> cpu (show_nat n) = Inl UnboundLocalError" using show_nat_long [of 4 n] by (simp add: r)
  show "memory (show_nat n) = Inl UnboundLocalError" by (simp add: r)
qed

section \<open>Properties\<close>

text \<open>Quantities are converted as documented, and only within bounds. A cpu of \<open>n\<close> millicores
  reads \<open>n\<close>, of \<open>n\<close> cores \<open>1000 n\<close>, of nano- and microcores the rounded-down millicores; a
  memory in Mi, Ki, Gi reads in mebibytes rounded down; and a plain number of bytes, or a number
  of five or more digits of cores, has no branch and raises \<open>UnboundLocalError\<close>.\<close>

theorem quantities_converted:
  "(n < 10 ^ 9 \<longrightarrow> cpu (show_nat n @ ''m'') = Inr (int n)) \<and>
   (n < 10 ^ 4 \<longrightarrow> cpu (show_nat n) = Inr (int n * 1000)) \<and>
   (n < 10 ^ 15 \<longrightarrow> cpu (show_nat n @ ''n'') = Inr (int n div 1000000)) \<and>
   (n < 10 ^ 15 \<longrightarrow> cpu (show_nat n @ ''u'') = Inr (int n div 1000)) \<and>
   (n < 10 ^ 9 \<longrightarrow> memory (show_nat n @ ''Mi'') = Inr (int n)) \<and>
   (n < 10 ^ 9 \<longrightarrow> memory (show_nat n @ ''Ki'') = Inr (int n div 1024)) \<and>
   (n < 10 ^ 9 \<longrightarrow> memory (show_nat n @ ''Gi'') = Inr (int n * 1024)) \<and>
   (10 ^ 4 \<le> n \<longrightarrow> cpu (show_nat n) = Inl UnboundLocalError) \<and>
   memory (show_nat n) = Inl UnboundLocalError"
  by (intro conjI impI conversions)

theorem quantities_converted_witness:
  "cpu (show_nat 250 @ ''m'') = Inr 250 \<and> memory (show_nat 2048 @ ''Ki'') = Inr 2 \<and>
   cpu (show_nat 12345) = Inl UnboundLocalError"
  using quantities_converted [of 250] quantities_converted [of 2048] quantities_converted [of 12345]
  by simp

end
