(* ===== verification/Stats.thy ===== *)
theory Stats
  imports KubeLogs SchedulingState KubeApi
begin

text \<open>
  \<^verbatim>\<open>perf/stats/stats.py\<close>: what is collected about every pod, and the container logs kept per
  exchange and instrument type. The per-pod dictionary has a fixed set of optional keys, so it is
  a record of options; an event is kept as it is, its printed form is an argument.
\<close>

record pod_stats =
  ps_pod_name :: "string option"
  ps_payload_config :: "pyval option"
  ps_payload_hash :: "pyval option"
  ps_symbol_distribution :: "pyval option"
  ps_metrics :: "pyval option"
  ps_events :: "string list option"
  ps_final_result :: "event_type option option"
  ps_reschedule_reasons :: "event_type option list option"
  ps_log_files :: "string list option"

definition no_stats :: pod_stats where
  "no_stats = \<lparr>ps_pod_name = None, ps_payload_config = None, ps_payload_hash = None,
     ps_symbol_distribution = None, ps_metrics = None, ps_events = None, ps_final_result = None,
     ps_reschedule_reasons = None, ps_log_files = None\<rparr>"

type_synonym log_file = "string \<times> string"

record stats_state =
  pods_stats :: "(string, pod_stats) dict"
  df_logs :: "(string, (string option, log_file list) dict) dict"

definition init_stats :: stats_state where
  "init_stats = \<lparr>pods_stats = [], df_logs = []\<rparr>"

text \<open>\<open>if pod not in stats: stats[pod] = {}\<close>, then an assignment of one of its keys.\<close>

definition in_stats :: "string \<Rightarrow> (pod_stats \<Rightarrow> pod_stats) \<Rightarrow> stats_state \<Rightarrow> stats_state" where
  "in_stats pod f s =
     (let d = (if dict_has (pods_stats s) pod then pods_stats s else dict_put pod no_stats (pods_stats s))
      in s\<lparr>pods_stats := dict_put pod (f (the (map_of d pod))) d\<rparr>)"

definition set_pod_info :: "pyval \<Rightarrow> string \<Rightarrow> stats_state \<Rightarrow> stats_state pyres" where
  "set_pod_info payload pod_name s =
     bindE (get_payload_hash payload) (\<lambda>h.
     bindE (get_payload_config payload) (\<lambda>c.
     bindE (pv_get payload ''svoe'') (\<lambda>svoe.
     bindE (pv_has svoe ''symbol_distribution'') (\<lambda>has.
     bindE (if has then pv_get svoe ''symbol_distribution'' else Inr (PStr ''UNKNOWN_SYMBOL_DISTRIBUTION'')) (\<lambda>sd.
       Inr (in_stats pod_name (\<lambda>p. p\<lparr>ps_pod_name := Some pod_name, ps_payload_config := Some c,
              ps_payload_hash := Some h, ps_symbol_distribution := Some sd\<rparr>) s))))))"

definition set_metric_results :: "string \<Rightarrow> pyval option \<Rightarrow> stats_state \<Rightarrow> stats_state" where
  "set_metric_results pod_name metrics_results s =
     (case metrics_results of
        None \<Rightarrow> s
      | Some m \<Rightarrow> in_stats pod_name (\<lambda>p. p\<lparr>ps_metrics := Some m\<rparr>) s)"

text \<open>All events about a pod by local time (a stable sort), the data-feed container's and the
  pod's own.\<close>

definition queued_pod_events :: "kube_watcher_state \<Rightarrow> string \<Rightarrow> pod_logged_event list" where
  "queued_pod_events ks pod =
     concat (map (\<lambda>e. case e of PodLoggedEvent p \<Rightarrow> [p] | NodeLoggedEvent _ \<Rightarrow> []) (pod_queue ks pod))"

definition events_of :: "(string, pod_logged_event list) dict \<Rightarrow> string \<Rightarrow> pod_logged_event list" where
  "events_of d pod = (case map_of d pod of None \<Rightarrow> [] | Some es \<Rightarrow> es)"

definition df_events :: "string \<Rightarrow> kube_watcher_state \<Rightarrow> phase_result_state \<Rightarrow> scheduling_state \<Rightarrow> pod_logged_event list" where
  "df_events pod ks est sched =
     filter (\<lambda>e. pe_container_name e = None \<or> pe_container_name e = Some DATA_FEED_CONTAINER)
       (sort_key pe_local_time
         (queued_pod_events ks pod @ events_of (phase_events_per_pod est) pod @
          events_of (result_events_per_pod est) pod @ events_of (phase_events_per_pod sched) pod @
          events_of (result_events_per_pod sched) pod))"

definition set_df_events :: "(pod_logged_event \<Rightarrow> string) \<Rightarrow> string \<Rightarrow> kube_watcher_state \<Rightarrow> phase_result_state \<Rightarrow> scheduling_state \<Rightarrow> stats_state \<Rightarrow> stats_state" where
  "set_df_events str pod ks est sched s =
     in_stats pod (\<lambda>p. p\<lparr>ps_events := Some (map str (df_events pod ks est sched))\<rparr>) s"

definition set_final_result :: "string \<Rightarrow> event_type option \<Rightarrow> stats_state \<Rightarrow> stats_state" where
  "set_final_result pod_name result s = in_stats pod_name (\<lambda>p. p\<lparr>ps_final_result := Some result\<rparr>) s"

definition set_reschedule_reasons :: "string \<Rightarrow> scheduling_state \<Rightarrow> stats_state \<Rightarrow> stats_state" where
  "set_reschedule_reasons pod_name sched s =
     in_stats pod_name (\<lambda>p. p\<lparr>ps_reschedule_reasons := Some (get_reschedule_reasons sched pod_name)\<rparr>) s"

section \<open>Container logs\<close>

definition INSTRUMENT_TYPES :: "string list" where
  "INSTRUMENT_TYPES = [''perpetual'', ''spot'', ''option'', ''futures'']"

fun first_key :: "pyval \<Rightarrow> string pyres" where
  "first_key (PDict ((k, v) # d)) = Inr k"
| "first_key (PDict []) = Inl IndexError"
| "first_key _ = Inl AttributeError"

definition get_logs_key :: "string \<Rightarrow> pyval \<Rightarrow> (string \<times> string option) pyres" where
  "get_logs_key pod_name payload_config =
     bindE (first_key payload_config) (\<lambda>exchange.
       Inr (exchange, find (\<lambda>it. py_contains it pod_name) INSTRUMENT_TYPES))"

definition logs_at :: "stats_state \<Rightarrow> string \<Rightarrow> string option \<Rightarrow> log_file list option" where
  "logs_at s exchange it = (case map_of (df_logs s) exchange of None \<Rightarrow> None | Some d \<Rightarrow> map_of d it)"

definition should_fetch_df_logs :: "pyval \<Rightarrow> string \<Rightarrow> stats_state \<Rightarrow> bool pyres" where
  "should_fetch_df_logs payload pod_name s =
     bindE (get_payload_config payload) (\<lambda>payload_config.
     bindE (get_logs_key pod_name payload_config) (\<lambda>(exchange, it).
       Inr (case logs_at s exchange it of None \<Rightarrow> True | Some ls \<Rightarrow> length ls < 2)))"

definition log_file_name :: "string \<Rightarrow> string" where
  "log_file_name pod_name = pod_name @ ''.log''"

text \<open>Every entry of that name gets the new contents; a new name is appended.\<close>

definition put_log :: "string \<Rightarrow> string \<Rightarrow> log_file list \<Rightarrow> log_file list" where
  "put_log name logs ls =
     (let duplicate = list_ex (\<lambda>(n, l). n = name) ls;
          ls' = map (\<lambda>(n, l). if n = name then (n, logs) else (n, l)) ls
      in if duplicate then ls' else ls' @ [(name, logs)])"

definition set_df_logs :: "pyval \<Rightarrow> string \<Rightarrow> string \<Rightarrow> stats_state \<Rightarrow> stats_state pyres" where
  "set_df_logs payload pod_name logs s =
     bindE (get_payload_config payload) (\<lambda>payload_config.
     bindE (get_logs_key pod_name payload_config) (\<lambda>(exchange, it).
     let name = log_file_name pod_name;
         d = (if dict_has (df_logs s) exchange then df_logs s else dict_put exchange [] (df_logs s));
         per_type = the (map_of d exchange);
         ls = (case map_of per_type it of None \<Rightarrow> [(name, logs)] | Some ls \<Rightarrow> put_log name logs ls)
     in Inr (in_stats pod_name (\<lambda>p. p\<lparr>ps_log_files :=
               (case ps_log_files p of
                  None \<Rightarrow> Some [name]
                | Some fs \<Rightarrow> if name \<in> set fs then Some fs else Some (fs @ [name]))\<rparr>)
             (s\<lparr>df_logs := dict_put exchange (dict_put it ls per_type) d\<rparr>))))"

text \<open>The files \<open>save\<close> writes, relative to the directory of the run, when there are stats.\<close>

definition saved_log_files :: "stats_state \<Rightarrow> (string \<times> string) list" where
  "saved_log_files s =
     (if pods_stats s = [] then []
      else map (\<lambda>(name, logs). (''logs/'' @ name, logs))
             (concat (map (\<lambda>(exchange, d). flat d) (df_logs s))))"

section \<open>The logs stay few\<close>

text \<open>At most two logs per exchange and instrument type, under distinct names.\<close>

definition logs_inv :: "stats_state \<Rightarrow> bool" where
  "logs_inv s \<longleftrightarrow> (\<forall>exchange it ls. logs_at s exchange it = Some ls \<longrightarrow>
     length ls \<le> 2 \<and> distinct (map fst ls))"

lemma init_logs_inv: "logs_inv init_stats"
  by (simp add: logs_inv_def init_stats_def logs_at_def)

lemma in_stats_logs [simp]: "df_logs (in_stats pod f s) = df_logs s"
  by (simp add: in_stats_def Let_def)

lemma logs_at_cong: "df_logs s = df_logs s' \<Longrightarrow> logs_at s = logs_at s'"
  by (simp add: logs_at_def fun_eq_iff)

lemma map_put_fst: "map fst (map (\<lambda>(n, l). if n = name then (n, logs) else (n, l)) ls) = map fst ls"
  by (induction ls) auto

lemma put_log_props:
  "length (put_log name logs ls) \<le> Suc (length ls)"
  "distinct (map fst ls) \<Longrightarrow> distinct (map fst (put_log name logs ls))"
  "map_of (put_log name logs ls) name = Some logs"
proof -
  have m: "map_of (map (\<lambda>(n, l). if n = name then (n, logs) else (n, l)) ls) name =
      (if name \<in> fst ` set ls then Some logs else None)"
    by (induction ls) auto
  have ex: "list_ex (\<lambda>(n, l). n = name) ls \<longleftrightarrow> name \<in> fst ` set ls"
    by (force simp: list_ex_iff)
  show "length (put_log name logs ls) \<le> Suc (length ls)" by (simp add: put_log_def Let_def)
  show "distinct (map fst ls) \<Longrightarrow> distinct (map fst (put_log name logs ls))"
    using ex by (simp add: put_log_def Let_def map_put_fst del: map_map)
  show "map_of (put_log name logs ls) name = Some logs"
    using m ex by (simp add: put_log_def Let_def map_add_def)
qed

lemma set_df_logs_at:
  assumes "set_df_logs payload pod logs s = Inr s'"
    "get_payload_config payload = Inr c" "get_logs_key pod c = Inr (exchange, it)"
  shows "logs_at s' e i =
    (if e = exchange \<and> i = it
     then Some (case logs_at s exchange it of None \<Rightarrow> [(log_file_name pod, logs)]
                | Some ls \<Rightarrow> put_log (log_file_name pod) logs ls)
     else logs_at s e i)"
proof -
  define d where "d = (if dict_has (df_logs s) exchange then df_logs s else dict_put exchange [] (df_logs s))"
  define per where "per = the (map_of d exchange)"
  have d: "map_of d exchange = Some per" "\<And>x. x \<noteq> exchange \<Longrightarrow> map_of d x = map_of (df_logs s) x"
    by (auto simp: d_def per_def dict_has_def)
  have per: "map_of per it' = logs_at s exchange it'" for it'
    by (auto simp: per_def d_def dict_has_def logs_at_def split: option.split)
  have s': "df_logs s' = dict_put exchange (dict_put it
      (case map_of per it of None \<Rightarrow> [(log_file_name pod, logs)] | Some ls \<Rightarrow> put_log (log_file_name pod) logs ls) per) d"
    using assms by (auto simp: set_df_logs_def Let_def d_def per_def)
  show ?thesis
    by (cases "e = exchange"; cases "i = it")
      (auto simp: per [symmetric] logs_at_def [of s'] logs_at_def [of s e] s' d)
qed

end
