(* ===== verification/Estimator.thy ===== *)
theory Estimator
  imports Callbacks Stats
begin

text \<open>
  \<^verbatim>\<open>perf/estimator/estimator.py\<close>: a worker walks a pod through the phases of an estimation,
  blocking on an Event in each, then collects metrics and logs and says whether to try again.
  What the other threads do while it blocks in a phase is the argument \<open>during\<close>; the phase
  gets the state after it and the flag.
\<close>

record est_sys =
  es_estimation :: phase_result_state
  es_stats :: stats_state

definition PHASES :: "(PodEstimationPhaseEvent \<times> PodEstimationResultEvent) list" where
  "PHASES =
     [(WAITING_FOR_DF_CONTAINER_TO_PULL_IMAGE, DF_CONTAINER_IMAGE_PULLED),
      (WAITING_FOR_POD_TO_START_ESTIMATION_RUN, POD_STARTED_ESTIMATION_RUN),
      (WAITING_FOR_POD_TO_FINISH_ESTIMATION_RUN, POD_FINISHED_ESTIMATION_RUN)]"

text \<open>The timeouts handed to \<open>wait_event\<close>, in seconds.\<close>

definition PHASE_TIMEOUTS :: "int list" where
  "PHASE_TIMEOUTS =
     [DF_CONTAINER_PULL_IMAGE_TIMEOUT, POD_START_ESTIMATION_RUN_TIMEOUT, POD_ESTIMATION_RUN_DURATION]"

type_synonym phase_env = "PodEstimationPhaseEvent \<Rightarrow> phase_result_state \<Rightarrow> phase_result_state"

fun run_phases :: "phase_env \<Rightarrow> int \<Rightarrow> string \<Rightarrow> (PodEstimationPhaseEvent \<times> PodEstimationResultEvent) list \<Rightarrow>
    phase_result_state \<Rightarrow> phase_result_state pyres" where
  "run_phases during now pod [] st = Inr st"
| "run_phases during now pod ((phase, result) # phases) st =
     (let st1 = add_phase_event now pod (EstPhase phase) st;
          (woken, st2) = wait_event (during phase) pod st1;
          timed_out = (\<not> woken)
      in bindE (is_interrupted estimation_interrupts st2 pod) (\<lambda>interrupted.
         if interrupted then Inr st2
         else if timed_out \<and> phase \<noteq> WAITING_FOR_POD_TO_FINISH_ESTIMATION_RUN then
           Inr (add_result_event now PNone pod (EstResult PodEstimationResultEvent.INTERRUPTED_TIMEOUT) st2)
         else run_phases during now pod phases (add_result_event now PNone pod (EstResult result) st2)))"

text \<open>The metrics request: the fetcher runs \<open>metrics_done\<close> when the future is finished. Submitting
  it is the flag in the result.\<close>

definition request_metrics :: "int \<Rightarrow> string \<Rightarrow> phase_result_state \<Rightarrow> (bool \<times> phase_result_state) pyres" where
  "request_metrics now pod st =
     bindE (get_last_result_event_type st pod) (\<lambda>t.
       if t = Some (EstResult POD_FINISHED_ESTIMATION_RUN)
       then Inr (True, add_result_event now PNone pod (EstPhase COLLECTING_METRICS) st)
       else Inr (False, st))"

definition metrics_done :: "int \<Rightarrow> string \<Rightarrow> pydict option \<Rightarrow> est_sys \<Rightarrow> est_sys" where
  "metrics_done now pod metrics s =
     (let result = (case metrics of
                      None \<Rightarrow> METRICS_COLLECTED_MISSING
                    | Some m \<Rightarrow> if dict_has m ''has_errors'' then METRICS_COLLECTED_MISSING else METRICS_COLLECTED_ALL);
          stats1 = set_metric_results pod (map_option PDict metrics) (es_stats s);
          est1 = add_result_event now PNone pod (EstResult result) (es_estimation s)
      in \<lparr>es_estimation = est1, es_stats = set_final_result pod (Some (EstResult result)) stats1\<rparr>)"

definition LOG_RESULTS :: "event_type list" where
  "LOG_RESULTS = map EstResult
     [INTERRUPTED_UNEXPECTED_CONTAINER_TERMINATION, INTERRUPTED_DF_CONTAINER_HEALTH_LIVENESS,
      INTERRUPTED_DF_CONTAINER_HEALTH_STARTUP]"

definition RESCHEDULE_RESULTS :: "event_type list" where
  "RESCHEDULE_RESULTS = map EstResult
     [INTERRUPTED_OOM, INTERRUPTED_UNEXPECTED_CONTAINER_TERMINATION,
      INTERRUPTED_UNEXPECTED_POD_DELETION, INTERRUPTED_DF_CONTAINER_HEALTH_LIVENESS,
      INTERRUPTED_DF_CONTAINER_HEALTH_STARTUP, PodEstimationResultEvent.INTERRUPTED_INTERNAL_ERROR]"

text \<open>\<open>logs_of\<close> is what fetching the container's log returns.\<close>

definition fetch_logs_for :: "(string \<Rightarrow> string pyres) \<Rightarrow> pyval \<Rightarrow> string \<Rightarrow> event_type \<Rightarrow> est_sys \<Rightarrow> est_sys pyres" where
  "fetch_logs_for logs_of payload pod result_type s =
     bindE (andE (has_result_type (es_estimation s) pod result_type)
              (should_fetch_df_logs payload pod (es_stats s))) (\<lambda>fetch.
       if fetch then
         bindE (logs_of pod) (\<lambda>logs.
         bindE (set_df_logs payload pod logs (es_stats s)) (\<lambda>stats. Inr (s\<lparr>es_stats := stats\<rparr>)))
       else Inr s)"

definition reschedule_verdict :: "string \<Rightarrow> phase_result_state \<Rightarrow> (bool \<times> event_type option) pyres" where
  "reschedule_verdict pod st =
     (case find (has_result_type st pod) RESCHEDULE_RESULTS of
        Some t \<Rightarrow> Inr (True, Some t)
      | None \<Rightarrow> bindE (get_last_result_event_type st pod) (\<lambda>t. Inr (False, t)))"

text \<open>The whole call; the boolean in front says whether metrics were requested.\<close>

definition estimate_resources :: "phase_env \<Rightarrow> (string \<Rightarrow> string pyres) \<Rightarrow> int \<Rightarrow> string \<Rightarrow> pyval \<Rightarrow> est_sys \<Rightarrow>
    (bool \<times> (bool \<times> event_type option) \<times> est_sys) pyres" where
  "estimate_resources during logs_of now pod payload s =
     bindE (run_phases during now pod PHASES (es_estimation s)) (\<lambda>est1.
     bindE (request_metrics now pod est1) (\<lambda>(requested, est2).
     bindE (foldE (fetch_logs_for logs_of payload pod) LOG_RESULTS (s\<lparr>es_estimation := est2\<rparr>)) (\<lambda>s3.
     bindE (reschedule_verdict pod (es_estimation s3)) (\<lambda>verdict.
       Inr (requested, verdict, s3)))))"

section \<open>Phases\<close>

text \<open>What the watcher threads may do to a pod while it is in a phase: nothing but append
  interrupts, as the callbacks do, and set its Event.\<close>

definition only_interrupts :: "string \<Rightarrow> (phase_result_state \<Rightarrow> phase_result_state) \<Rightarrow> bool" where
  "only_interrupts pod f \<longleftrightarrow>
     (\<forall>st. prs_inv st \<longrightarrow> prs_inv (f st) \<and> phase_types (f st) = phase_types st \<and>
        (\<exists>ts. set ts \<subseteq> set estimation_interrupts \<and>
              result_types (f st) pod = result_types st pod @ ts))"

lemma wait_event_types:
  assumes "prs_inv st" "only_interrupts pod f" "wait_event f pod st = (woken, st')"
  shows "prs_inv st' \<and> phase_types st' = phase_types st \<and>
    (\<exists>ts. set ts \<subseteq> set estimation_interrupts \<and> result_types st' pod = result_types st pod @ ts)"
proof -
  define st0 where "st0 = st\<lparr>wait_event_per_pod := dict_put pod False (wait_event_per_pod st)\<rparr>"
  have "prs_inv st0" using assms(1) by (simp add: st0_def prs_inv_def)
  moreover have "result_types st0 = result_types st" "phase_types st0 = phase_types st"
    by (simp_all add: st0_def result_types_def phase_types_def fun_eq_iff)
  moreover have "st' = f st0" using assms(3) by (simp add: wait_event_def Let_def st0_def)
  ultimately show ?thesis using assms(2) unfolding only_interrupts_def by metis
qed

text \<open>The abstract run of the phases: interrupts may come in each phase; without one the phase
  times out, which ends the run except in the last phase, or succeeds.\<close>

inductive phase_runs :: "(PodEstimationPhaseEvent \<times> PodEstimationResultEvent) list \<Rightarrow> event_type list \<Rightarrow> event_type list \<Rightarrow> bool" where
  finished: "phase_runs [] ts ts"
| interrupted: "set us \<subseteq> set estimation_interrupts \<Longrightarrow> last_type (ts @ us) = Some u \<Longrightarrow>
    u \<in> set estimation_interrupts \<Longrightarrow> phase_runs (p # ps) ts (ts @ us)"
| timed_out: "fst p \<noteq> WAITING_FOR_POD_TO_FINISH_ESTIMATION_RUN \<Longrightarrow>
    phase_runs (p # ps) ts (ts @ [EstResult PodEstimationResultEvent.INTERRUPTED_TIMEOUT])"
| succeeded: "phase_runs ps (ts @ [EstResult (snd p)]) ts' \<Longrightarrow> phase_runs (p # ps) ts ts'"

inductive_cases phase_runs_NilE: "phase_runs [] ts ts'"
inductive_cases phase_runs_ConsE: "phase_runs (p # ps) ts ts'"

lemma not_interrupted_last:
  assumes "set us \<subseteq> set estimation_interrupts"
    "\<not> (\<exists>t\<in>set estimation_interrupts. last_type (ts @ us) = Some t)"
  shows "us = []"
proof (rule ccontr)
  assume "us \<noteq> []"
  then have "last_type (ts @ us) = Some (last us)" "last us \<in> set estimation_interrupts"
    using assms(1) by (auto simp: last_type_def)
  then show False using assms(2) by blast
qed

lemma run_phases_spec:
  assumes "prs_inv st" "\<And>ph. only_interrupts pod (during ph)"
  shows "\<exists>st'. run_phases during now pod ps st = Inr st' \<and> prs_inv st' \<and>
    phase_runs ps (result_types st pod) (result_types st' pod)"
  using assms(1)
proof (induction ps arbitrary: st)
  case Nil
  then show ?case by (auto intro: phase_runs.finished)
next
  case (Cons p ps)
  obtain phase result where p: "p = (phase, result)" by (cases p)
  define st1 where "st1 = add_phase_event now pod (EstPhase phase) st"
  have i1: "prs_inv st1" "result_types st1 = result_types st"
    using Cons.prems by (simp_all add: st1_def add_phase_event_inv)
  obtain woken st2 where w: "wait_event (during phase) pod st1 = (woken, st2)" by fastforce
  from wait_event_types [OF i1(1) assms(2) w] i1(2) obtain us where
    i2: "prs_inv st2" "set us \<subseteq> set estimation_interrupts" "result_types st2 pod = result_types st pod @ us"
    by auto
  define intr where "intr = (\<exists>t\<in>set estimation_interrupts. last_type (result_types st2 pod) = Some t)"
  have step: "run_phases during now pod (p # ps) st =
      (if intr then Inr st2
       else if \<not> woken \<and> phase \<noteq> WAITING_FOR_POD_TO_FINISH_ESTIMATION_RUN then
         Inr (add_result_event now PNone pod (EstResult PodEstimationResultEvent.INTERRUPTED_TIMEOUT) st2)
       else run_phases during now pod ps (add_result_event now PNone pod (EstResult result) st2))"
    using w by (simp add: p st1_def is_interrupted_eq [OF i2(1)] intr_def)
  show ?case
  proof (cases intr)
    case True
    then obtain u where "u \<in> set estimation_interrupts" "last_type (result_types st pod @ us) = Some u"
      using i2(3) by (auto simp: intr_def)
    then have "phase_runs (p # ps) (result_types st pod) (result_types st2 pod)"
      unfolding i2(3) by (intro phase_runs.interrupted [OF i2(2)])
    then show ?thesis using True step i2(1) by simp
  next
    case False
    then have "us = []" using not_interrupted_last [OF i2(2)] i2(3) by (simp add: intr_def)
    then have r: "result_types st2 pod = result_types st pod" using i2(3) by simp
    show ?thesis
    proof (cases "\<not> woken \<and> phase \<noteq> WAITING_FOR_POD_TO_FINISH_ESTIMATION_RUN")
      case True
      then show ?thesis using False step i2(1) r p
        by (auto simp: add_result_event_inv results.types_add_same intro!: phase_runs.timed_out)
    next
      case nt: False
      define st3 where "st3 = add_result_event now PNone pod (EstResult result) st2"
      have "prs_inv st3" "result_types st3 pod = result_types st pod @ [EstResult result]"
        using i2(1) r by (simp_all add: st3_def add_result_event_inv results.types_add_same)
      from Cons.IH [OF this(1)] this(2) obtain st' where
        "run_phases during now pod ps st3 = Inr st'" "prs_inv st'"
        "phase_runs ps (result_types st pod @ [EstResult result]) (result_types st' pod)" by auto
      then show ?thesis using False nt step p phase_runs.succeeded [of ps _ p] by (auto simp: st3_def)
    qed
  qed
qed

section \<open>Logs and verdict\<close>

lemma set_df_logs_inv:
  assumes "logs_inv s" "should_fetch_df_logs payload pod s = Inr True" "set_df_logs payload pod logs s = Inr s'"
  shows "logs_inv s'"
proof -
  obtain c exchange it where h: "get_payload_config payload = Inr c" "get_logs_key pod c = Inr (exchange, it)"
    using assms(2) by (auto simp: should_fetch_df_logs_def)
  have few: "case logs_at s exchange it of None \<Rightarrow> True | Some ls \<Rightarrow> length ls < 2"
    using assms(2) h by (auto simp: should_fetch_df_logs_def split: option.splits)
  note at = set_df_logs_at [OF assms(3) h]
  show ?thesis
    unfolding logs_inv_def
  proof (intro allI impI)
    fix e i ls
    assume ls: "logs_at s' e i = Some ls"
    show "length ls \<le> 2 \<and> distinct (map fst ls)"
    proof (cases "e = exchange \<and> i = it")
      case False
      then have "logs_at s e i = Some ls" using ls at [of e i] by (simp split: if_splits)
      then show ?thesis using assms(1) by (simp add: logs_inv_def)
    next
      case True
      show ?thesis
      proof (cases "logs_at s exchange it")
        case None
        then have "ls = [(log_file_name pod, logs)]" using ls at [of exchange it] True by simp
        then show ?thesis by simp
      next
        case (Some old)
        then have "ls = put_log (log_file_name pod) logs old" using ls at [of exchange it] True by simp
        moreover have "length old < 2" "distinct (map fst old)"
          using Some few assms(1) by (auto simp: logs_inv_def)
        ultimately show ?thesis
          using put_log_props(1) [of "log_file_name pod" logs old] put_log_props(2) [of old] by simp
      qed
    qed
  qed
qed

lemma fetch_logs_ok:
  assumes "logs_of pod = Inr l" "get_payload_config payload = Inr c" "first_key c = Inr x" "logs_inv (es_stats s)"
  shows "\<exists>s'. foldE (fetch_logs_for logs_of payload pod) ts s = Inr s' \<and>
    es_estimation s' = es_estimation s \<and> logs_inv (es_stats s')"
proof -
  define I :: "est_sys \<Rightarrow> bool" where "I = (\<lambda>s1. es_estimation s1 = es_estimation s \<and> logs_inv (es_stats s1))"
  have "\<exists>s2. fetch_logs_for logs_of payload pod t s1 = Inr s2 \<and> I s2" if "I s1" for t s1
  proof -
    obtain b where b: "should_fetch_df_logs payload pod (es_stats s1) = Inr b"
      using assms(2,3) by (simp add: should_fetch_df_logs_def get_logs_key_def)
    obtain st where st: "set_df_logs payload pod l (es_stats s1) = Inr st"
      using assms(2,3) by (simp add: set_df_logs_def get_logs_key_def Let_def)
    show ?thesis
    proof (cases "has_result_type (es_estimation s1) pod t \<and> b")
      case True
      then have "logs_inv st" using set_df_logs_inv [OF _ _ st] b that by (simp add: I_def)
      then show ?thesis using True b st assms(1) that by (simp add: fetch_logs_for_def andE_def I_def)
    next
      case False
      then show ?thesis using b that by (auto simp: fetch_logs_for_def andE_def I_def)
    qed
  qed
  then have "\<exists>s'. foldE (fetch_logs_for logs_of payload pod) ts s = Inr s' \<and> I s'"
    by (intro foldE_total) (use assms(4) in \<open>simp_all add: I_def\<close>)
  then show ?thesis by (auto simp: I_def)
qed

lemma reschedule_verdict_eq:
  assumes "prs_inv st"
  shows "\<exists>t. reschedule_verdict pod st = Inr ((\<exists>r\<in>set RESCHEDULE_RESULTS. r \<in> set (result_types st pod)), t) \<and>
    ((\<forall>r\<in>set RESCHEDULE_RESULTS. r \<notin> set (result_types st pod)) \<longrightarrow> t = last_type (result_types st pod))"
proof (cases "find (has_result_type st pod) RESCHEDULE_RESULTS")
  case None
  then have "\<forall>r\<in>set RESCHEDULE_RESULTS. r \<notin> set (result_types st pod)"
    by (auto simp: find_None_iff has_result_type_eq)
  then show ?thesis using None assms
    by (auto simp: reschedule_verdict_def get_last_result_event_type_eq)
next
  case (Some t)
  then have "t \<in> set RESCHEDULE_RESULTS" "t \<in> set (result_types st pod)"
    by (auto simp: find_Some_iff has_result_type_eq)
  then show ?thesis using Some by (auto simp: reschedule_verdict_def)
qed

definition SUCCESSES :: "event_type list" where
  "SUCCESSES = map (EstResult \<circ> snd) PHASES"

lemma phase_runs_finished:
  assumes "phase_runs PHASES [] ts" "last_type ts = Some (EstResult POD_FINISHED_ESTIMATION_RUN)"
  shows "ts = SUCCESSES"
proof -
  have no: "EstResult POD_FINISHED_ESTIMATION_RUN \<notin> set estimation_interrupts"
    by (simp add: estimation_interrupts_def)
  show ?thesis
    using assms(1) unfolding PHASES_def SUCCESSES_def
  proof (elim phase_runs_ConsE phase_runs_NilE; clarsimp)
  qed (use assms(2) no in \<open>auto simp: last_type_def\<close>)
qed

lemma phase_runs_success_no_reschedule: "r \<in> set RESCHEDULE_RESULTS \<Longrightarrow> r \<notin> set SUCCESSES"
  by (auto simp: RESCHEDULE_RESULTS_def SUCCESSES_def PHASES_def)

section \<open>Properties\<close>


text \<open>A run in which the watcher wakes the worker in every phase, and one interrupted by an OOM.\<close>

definition wake_always :: "string \<Rightarrow> phase_env" where
  "wake_always pod ph = wake_event (\<lambda>_ s. s) 1 pod"

definition sample_payload :: pyval where
  "sample_payload = PDict [(''payload_config'', PDict [(''BINANCE'', PDict [(''l2_book'', PList [PStr ''BTC-USDT''])])]),
     (''payload_hash'', PStr ''6d1641b134''), (''svoe'', PDict [])]"

lemma wake_only_interrupts: "only_interrupts pod (wake_always p ph)"
  unfolding only_interrupts_def wake_always_def
  by (auto simp: wake_event_inv intro: exI [of _ "[]"])


end
