(* ===== verification/SchedulerProtocol.thy ===== *)
theory SchedulerProtocol
  imports SchedulingState
begin

text \<open>
  The threads of \<^verbatim>\<open>Scheduler.run\<close>: the scheduler thread pops pods and submits them to the
  executor, and every finished estimation runs \<open>reschedule_or_complete\<close> in a worker thread.
  Both sides share the scheduling state and its lock. An action is one atomic step of one
  thread; \<open>act\<close> says what it does and when it is enabled, built from the operations of
  \<open>SchedulingState\<close>. Reachable states are all the interleavings.
\<close>

section \<open>Control points\<close>

text \<open>
  The scheduler thread: at the loop head; about to call \<open>pop_or_wait_work_queue\<close>; waiting for
  one of the listed futures; holding the lock it acquired after a future finished (the futures
  left to wait for kept aside); at the final \<open>locked()\<close> test with the popped pod, between the
  test and the \<open>release\<close>, back in \<open>run\<close> with a pod to place; out of the loop; dead of an
  exception, with the pod it had in hand.
\<close>

datatype main_pc =
    MLoop
  | MPop
  | MWait "nat list"
  | MHolding "nat list"
  | MCheck "string option"
  | MRelease "string option"
  | MPlace string
  | MFinished
  | MRaised py_error "string option"

text \<open>
  A worker: estimating; its future is finished and the callback has cleaned the pod's logs;
  the pod is removed from its node; the lock is held; the decision is taken and the lock not
  yet released; finished; or dead before, or at, the release.
\<close>

datatype worker_pc =
    WEstimating
  | WFinished bool "event_type option"
  | WRemoved bool "event_type option"
  | WLocked bool "event_type option"
  | WDecided
  | WDone
  | WFailed
  | WRaised py_error

record sched_sys =
  sys_state :: scheduling_state
  sys_main :: main_pc
  sys_workers :: "(string \<times> worker_pc) list"
  sys_futures :: "nat list"
  sys_init_size :: nat

definition init_sys :: "string list \<Rightarrow> sched_sys" where
  "init_sys pods =
     \<lparr>sys_state = init_pods_work_queue pods init_scheduling_state, sys_main = MLoop,
      sys_workers = [], sys_futures = [], sys_init_size = length pods\<rparr>"

text \<open>\<open>f.done()\<close>: the executor finishes the future first and runs its callbacks after.\<close>

definition future_done :: "sched_sys \<Rightarrow> nat \<Rightarrow> bool" where
  "future_done s i = (snd (sys_workers s ! i) \<noteq> WEstimating)"

definition all_done :: "sched_sys \<Rightarrow> bool" where
  "all_done s = all_futures_done (map (future_done s) (sys_futures s))"

section \<open>Actions\<close>

datatype action =
    LoopHead
  | PopOrWait
  | FutureCompleted nat
  | WaitExhausted
  | CheckQueue
  | TestLocked
  | ReleaseLock
  | PlaceOn string
  | EstimationEnds nat bool "event_type option"
  | CallbackFails nat
  | RemovePod nat
  | AcquireLock nat
  | Decide nat
  | WorkerRelease nat

definition set_worker :: "nat \<Rightarrow> worker_pc \<Rightarrow> sched_sys \<Rightarrow> sched_sys" where
  "set_worker i pc s = s\<lparr>sys_workers := (sys_workers s)[i := (fst (sys_workers s ! i), pc)]\<rparr>"

definition worker_at :: "sched_sys \<Rightarrow> nat \<Rightarrow> worker_pc option" where
  "worker_at s i = (if i < length (sys_workers s) then Some (snd (sys_workers s ! i)) else None)"

definition worker_pod :: "sched_sys \<Rightarrow> nat \<Rightarrow> string" where
  "worker_pod s i = fst (sys_workers s ! i)"

text \<open>Run an operation of the state; an exception leaves the state and goes to \<open>bad\<close>.\<close>

definition run_op :: "scheduling_state pyres \<Rightarrow> (py_error \<Rightarrow> sched_sys \<Rightarrow> sched_sys) \<Rightarrow>
    (sched_sys \<Rightarrow> sched_sys) \<Rightarrow> sched_sys \<Rightarrow> sched_sys" where
  "run_op r bad good s = (case r of Inl e \<Rightarrow> bad e s | Inr st \<Rightarrow> good (s\<lparr>sys_state := st\<rparr>))"

definition goto :: "main_pc \<Rightarrow> sched_sys \<Rightarrow> sched_sys" where
  "goto pc s = s\<lparr>sys_main := pc\<rparr>"

text \<open>The steps of the scheduler thread.\<close>

definition act_loop_head :: "sched_sys \<Rightarrow> sched_sys option" where
  "act_loop_head s =
     (if sys_main s = MLoop then
        if length (pods_done (sys_state s)) \<noteq> sys_init_size s
        then Some (goto MPop (s\<lparr>sys_futures := filter (\<lambda>i. \<not> future_done s i) (sys_futures s)\<rparr>))
        else Some (goto MFinished s)
      else None)"

definition act_pop_or_wait :: "sched_sys \<Rightarrow> sched_sys option" where
  "act_pop_or_wait s =
     (if sys_main s = MPop then
        (case queue_of (sys_state s) of
           Inl e \<Rightarrow> Some (goto (MRaised e None) s)
         | Inr q \<Rightarrow>
             if length q = 0 then Some (goto (MWait (sys_futures s)) s)
             else (case pop_work_queue (sys_state s) of
                     Inl e \<Rightarrow> Some (goto (MRaised e None) s)
                   | Inr (pod, st) \<Rightarrow> Some (goto (MCheck (Some pod)) (s\<lparr>sys_state := st\<rparr>))))
      else None)"

definition act_future_completed :: "nat \<Rightarrow> sched_sys \<Rightarrow> sched_sys option" where
  "act_future_completed i s =
     (case sys_main s of
        MWait rest \<Rightarrow>
          if i \<in> set rest \<and> future_done s i \<and> \<not> global_lock (sys_state s)
          then Some (goto (MHolding (remove1 i rest)) (s\<lparr>sys_state := lock_acquire (sys_state s)\<rparr>))
          else None
      | _ \<Rightarrow> None)"

definition act_wait_exhausted :: "sched_sys \<Rightarrow> sched_sys option" where
  "act_wait_exhausted s = (if sys_main s = MWait [] then Some (goto (MCheck None) s) else None)"

definition act_check_queue :: "sched_sys \<Rightarrow> sched_sys option" where
  "act_check_queue s =
     (case sys_main s of
        MHolding rest \<Rightarrow>
          (case queue_of (sys_state s) of
             Inl e \<Rightarrow> Some (goto (MRaised e None) s)
           | Inr q \<Rightarrow>
               if length q = 0 then
                 Some (run_op (lock_release (sys_state s)) (\<lambda>e. goto (MRaised e None))
                   (goto (if all_done s then MFinished else MWait rest)) s)
               else (case pop_work_queue (sys_state s) of
                       Inl e \<Rightarrow> Some (goto (MRaised e None) s)
                     | Inr (pod, st) \<Rightarrow> Some (goto (MCheck (Some pod)) (s\<lparr>sys_state := st\<rparr>))))
      | _ \<Rightarrow> None)"

definition after_pop :: "string option \<Rightarrow> main_pc" where
  "after_pop p = (case p of None \<Rightarrow> MFinished | Some pod \<Rightarrow> MPlace pod)"

definition act_test_locked :: "sched_sys \<Rightarrow> sched_sys option" where
  "act_test_locked s =
     (case sys_main s of
        MCheck p \<Rightarrow> Some (goto (if global_lock (sys_state s) then MRelease p else after_pop p) s)
      | _ \<Rightarrow> None)"

definition act_release_lock :: "sched_sys \<Rightarrow> sched_sys option" where
  "act_release_lock s =
     (case sys_main s of
        MRelease p \<Rightarrow>
          Some (run_op (lock_release (sys_state s)) (\<lambda>e. goto (MRaised e p)) (goto (after_pop p)) s)
      | _ \<Rightarrow> None)"

definition act_place_on :: "string \<Rightarrow> sched_sys \<Rightarrow> sched_sys option" where
  "act_place_on node s =
     (case sys_main s of
        MPlace pod \<Rightarrow>
          Some (run_op
            (bindE (get_schedulable_pod_priority (sys_state s) node) (\<lambda>priority.
               add_pod_to_schedule_state pod node priority (sys_state s)))
            (\<lambda>e. goto (MRaised e (Some pod)))
            (\<lambda>s'. goto MLoop (s'\<lparr>sys_workers := sys_workers s' @ [(pod, WEstimating)],
                               sys_futures := sys_futures s' @ [length (sys_workers s')]\<rparr>)) s)
      | _ \<Rightarrow> None)"

text \<open>The steps of a worker thread.\<close>

definition act_remove_pod :: "nat \<Rightarrow> sched_sys \<Rightarrow> sched_sys option" where
  "act_remove_pod i s =
     (case worker_at s i of
        Some (WFinished r why) \<Rightarrow>
          Some (run_op (remove_pod_from_schedule_state (worker_pod s i) (sys_state s))
            (\<lambda>e. set_worker i (WRaised e)) (set_worker i (WRemoved r why)) s)
      | _ \<Rightarrow> None)"

definition act_acquire :: "nat \<Rightarrow> sched_sys \<Rightarrow> sched_sys option" where
  "act_acquire i s =
     (case worker_at s i of
        Some (WRemoved r why) \<Rightarrow>
          if global_lock (sys_state s) then None
          else Some (set_worker i (WLocked r why) (s\<lparr>sys_state := lock_acquire (sys_state s)\<rparr>))
      | _ \<Rightarrow> None)"

definition act_decide :: "nat \<Rightarrow> sched_sys \<Rightarrow> sched_sys option" where
  "act_decide i s =
     (case worker_at s i of
        Some (WLocked r why) \<Rightarrow>
          Some (run_op (reschedule_decision (worker_pod s i) r why (sys_state s))
            (\<lambda>e. set_worker i (WRaised e)) (set_worker i WDecided) s)
      | _ \<Rightarrow> None)"

definition act_worker_release :: "nat \<Rightarrow> sched_sys \<Rightarrow> sched_sys option" where
  "act_worker_release i s =
     (case worker_at s i of
        Some WDecided \<Rightarrow>
          Some (run_op (lock_release (sys_state s)) (\<lambda>e. set_worker i (WRaised e)) (set_worker i WDone) s)
      | _ \<Rightarrow> None)"

fun act :: "action \<Rightarrow> sched_sys \<Rightarrow> sched_sys option" where
  "act LoopHead s = act_loop_head s"
| "act PopOrWait s = act_pop_or_wait s"
| "act (FutureCompleted i) s = act_future_completed i s"
| "act WaitExhausted s = act_wait_exhausted s"
| "act CheckQueue s = act_check_queue s"
| "act TestLocked s = act_test_locked s"
| "act ReleaseLock s = act_release_lock s"
| "act (PlaceOn node) s = act_place_on node s"
| "act (EstimationEnds i r why) s =
     (if worker_at s i = Some WEstimating then Some (set_worker i (WFinished r why) s) else None)"
| "act (CallbackFails i) s =
     (case worker_at s i of Some (WFinished r why) \<Rightarrow> Some (set_worker i WFailed s) | _ \<Rightarrow> None)"
| "act (RemovePod i) s = act_remove_pod i s"
| "act (AcquireLock i) s = act_acquire i s"
| "act (Decide i) s = act_decide i s"
| "act (WorkerRelease i) s = act_worker_release i s"

inductive reachable :: "string list \<Rightarrow> sched_sys \<Rightarrow> bool" for pods :: "string list" where
  start: "reachable pods (init_sys pods)"
| step: "reachable pods s \<Longrightarrow> act a s = Some s' \<Longrightarrow> reachable pods s'"

fun run_actions :: "action list \<Rightarrow> sched_sys \<Rightarrow> sched_sys option" where
  "run_actions [] s = Some s"
| "run_actions (a # as) s = (case act a s of None \<Rightarrow> None | Some s' \<Rightarrow> run_actions as s')"

lemma run_actions_reachable:
  "reachable pods s \<Longrightarrow> run_actions as s = Some s' \<Longrightarrow> reachable pods s'"
  by (induction as arbitrary: s) (auto split: option.splits intro: reachable.step)

section \<open>Where a pod can be\<close>

definition main_holds :: "main_pc \<Rightarrow> string multiset" where
  "main_holds pc =
     (case pc of
        MCheck (Some p) \<Rightarrow> {#p#}
      | MRelease (Some p) \<Rightarrow> {#p#}
      | MPlace p \<Rightarrow> {#p#}
      | MRaised e (Some p) \<Rightarrow> {#p#}
      | _ \<Rightarrow> {#})"

lemma main_holds_simps [simp]:
  "main_holds MLoop = {#}" "main_holds MPop = {#}" "main_holds (MWait is) = {#}"
  "main_holds (MHolding is) = {#}" "main_holds (MCheck (Some p)) = {#p#}"
  "main_holds (MCheck None) = {#}" "main_holds (MRelease (Some p)) = {#p#}"
  "main_holds (MRelease None) = {#}" "main_holds (MPlace p) = {#p#}" "main_holds MFinished = {#}"
  "main_holds (MRaised e None) = {#}" "main_holds (MRaised e (Some p)) = {#p#}"
  by (simp_all add: main_holds_def)

text \<open>A worker's pod is on a node until \<open>RemovePod\<close> and undecided until \<open>Decide\<close>.\<close>

definition placed_pc :: "worker_pc \<Rightarrow> bool" where
  "placed_pc pc = (case pc of WEstimating \<Rightarrow> True | WFinished _ _ \<Rightarrow> True | WFailed \<Rightarrow> True | _ \<Rightarrow> False)"

definition undecided_pc :: "worker_pc \<Rightarrow> bool" where
  "undecided_pc pc =
     (case pc of WEstimating \<Rightarrow> True | WFinished _ _ \<Rightarrow> True | WFailed \<Rightarrow> True
               | WRemoved _ _ \<Rightarrow> True | WLocked _ _ \<Rightarrow> True | _ \<Rightarrow> False)"

definition pods_at :: "(worker_pc \<Rightarrow> bool) \<Rightarrow> (string \<times> worker_pc) list \<Rightarrow> string multiset" where
  "pods_at P ws = mset (map fst (filter (\<lambda>w. P (snd w)) ws))"

lemma pods_at_update:
  "i < length ws \<Longrightarrow> ws ! i = (p, pc) \<Longrightarrow>
   pods_at P (ws[i := (p, pc')]) + (if P pc then {#p#} else {#}) =
   pods_at P ws + (if P pc' then {#p#} else {#})"
proof (induction ws arbitrary: i)
  case Nil
  then show ?case by simp
next
  case (Cons w ws)
  then show ?case by (cases i) (auto simp: pods_at_def split: if_splits)
qed

lemma pods_at_snoc: "pods_at P (ws @ [(p, pc)]) = pods_at P ws + (if P pc then {#p#} else {#})"
  by (simp add: pods_at_def)

definition reasons_count :: "scheduling_state \<Rightarrow> string \<Rightarrow> nat" where
  "reasons_count st p = length (get_reschedule_reasons st p)"

definition runs_of :: "sched_sys \<Rightarrow> string \<Rightarrow> nat" where
  "runs_of s p = count (mset (map fst (sys_workers s))) p"

text \<open>
  The invariant of the system: the state's own; every pod of the initial list is exactly
  once queued, done, in the scheduler thread's hands or with a worker that has not decided;
  the pods on nodes are those of the workers that have not removed them; and every run of a pod
  is one of the initial list or was paid for by a reschedule.
\<close>

definition sys_inv :: "string list \<Rightarrow> sched_sys \<Rightarrow> bool" where
  "sys_inv pods s \<longleftrightarrow>
     ss_inv (sys_state s) \<and> priorities_ordered (sys_state s) \<and>
     pods_work_queue (sys_state s) \<noteq> None \<and>
     mset (queued_pods (sys_state s)) + mset (pods_done (sys_state s)) +
       main_holds (sys_main s) + pods_at undecided_pc (sys_workers s) = mset pods \<and>
     mset (scheduled_pods (sys_state s)) = pods_at placed_pc (sys_workers s) \<and>
     (\<forall>p. count (mset (queued_pods (sys_state s)) + main_holds (sys_main s)) p + runs_of s p =
          count (mset pods) p + reasons_count (sys_state s) p)"

lemma init_sys_inv: "sys_inv pods (init_sys pods)"
  by (simp add: sys_inv_def init_sys_def init_ss_inv, simp add: init_pods_work_queue_def
      init_scheduling_state_def priorities_ordered_def queued_pods_def main_holds_def pods_at_def
      scheduled_pods_def runs_of_def reasons_count_def get_reschedule_reasons_def)

section \<open>The scheduler thread keeps the invariant\<close>

lemma sys_inv_goto:
  "main_holds pc = main_holds (sys_main s) \<Longrightarrow> sys_inv pods s \<Longrightarrow> sys_inv pods (goto pc s)"
  by (simp add: sys_inv_def goto_def runs_of_def)

lemma sys_inv_futures: "sys_inv pods (s\<lparr>sys_futures := fs\<rparr>) = sys_inv pods s"
  by (simp add: sys_inv_def runs_of_def)

lemma sys_inv_lock:
  "sys_inv pods (s\<lparr>sys_state := sys_state s\<lparr>global_lock := b\<rparr>\<rparr>) = sys_inv pods s"
  by (simp add: sys_inv_def runs_of_def queued_pods_def reasons_count_def get_reschedule_reasons_def)

lemma sys_inv_queue_of: "sys_inv pods s \<Longrightarrow> \<exists>q. queue_of (sys_state s) = Inr q"
  by (auto simp: sys_inv_def queue_of_def)

lemma act_loop_head_inv: "sys_inv pods s \<Longrightarrow> act_loop_head s = Some s' \<Longrightarrow> sys_inv pods s'"
  by (auto simp: act_loop_head_def main_holds_def sys_inv_futures split: if_splits
      intro!: sys_inv_goto)

lemma lock_release_inv:
  "lock_release (sys_state s) = Inr st \<Longrightarrow> sys_inv pods s \<Longrightarrow> sys_inv pods (s\<lparr>sys_state := st\<rparr>)"
  by (auto simp: lock_release_def sys_inv_lock split: if_splits)

lemma lock_acquire_inv: "sys_inv pods s \<Longrightarrow> sys_inv pods (s\<lparr>sys_state := lock_acquire (sys_state s)\<rparr>)"
  by (simp add: lock_acquire_def sys_inv_lock)

lemma pop_inv:
  assumes "sys_inv pods s" "main_holds (sys_main s) = {#}" "pop_work_queue (sys_state s) = Inr (pod, st)"
  shows "sys_inv pods (goto (MCheck (Some pod)) (s\<lparr>sys_state := st\<rparr>))"
proof -
  note p = pop_work_queue_props [OF assms(3)]
  from p(2) obtain q where q: "pods_work_queue (sys_state s) = Some q" "q \<noteq> []" "pod = last q"
    "st = sys_state s\<lparr>pods_work_queue := Some (butlast q)\<rparr>" by blast
  show ?thesis
    using assms(1,2) p(1) q(4)
    by (auto simp: sys_inv_def goto_def runs_of_def reasons_count_def
        get_reschedule_reasons_def ac_simps)
qed

lemma act_pop_or_wait_inv:
  assumes inv: "sys_inv pods s" and a: "act_pop_or_wait s = Some s'"
  shows "sys_inv pods s'"
proof -
  obtain q where q: "queue_of (sys_state s) = Inr q" using sys_inv_queue_of [OF inv] by blast
  have m: "sys_main s = MPop" using a by (simp add: act_pop_or_wait_def split: if_splits)
  show ?thesis
    using a q m inv by (auto simp: act_pop_or_wait_def split: if_splits sum.splits
        intro: sys_inv_goto pop_inv)
qed

lemma act_future_completed_inv:
  "sys_inv pods s \<Longrightarrow> act_future_completed i s = Some s' \<Longrightarrow> sys_inv pods s'"
  by (auto simp: act_future_completed_def split: main_pc.splits if_splits
      intro!: sys_inv_goto lock_acquire_inv)

lemma act_wait_exhausted_inv:
  "sys_inv pods s \<Longrightarrow> act_wait_exhausted s = Some s' \<Longrightarrow> sys_inv pods s'"
  by (auto simp: act_wait_exhausted_def split: if_splits intro!: sys_inv_goto)

lemma act_check_queue_inv:
  assumes inv: "sys_inv pods s" and a: "act_check_queue s = Some s'"
  shows "sys_inv pods s'"
proof -
  obtain q where q: "queue_of (sys_state s) = Inr q" using sys_inv_queue_of [OF inv] by blast
  obtain rest where m: "sys_main s = MHolding rest"
    using a by (simp add: act_check_queue_def split: main_pc.splits)
  show ?thesis
    using a q m inv by (auto simp: act_check_queue_def run_op_def split: if_splits sum.splits
        intro: sys_inv_goto pop_inv lock_release_inv)
qed

lemma main_holds_after_pop: "main_holds (after_pop p) = main_holds (MCheck p)"
  by (simp add: after_pop_def split: option.split)

lemma main_holds_release: "main_holds (MRelease p) = main_holds (MCheck p)"
  "main_holds (MRaised e p) = main_holds (MCheck p)"
  by (cases p; simp)+

lemma act_test_locked_inv: "sys_inv pods s \<Longrightarrow> act_test_locked s = Some s' \<Longrightarrow> sys_inv pods s'"
  by (auto simp: act_test_locked_def main_holds_after_pop main_holds_release
      split: main_pc.splits if_splits intro!: sys_inv_goto)

lemma act_release_lock_inv: "sys_inv pods s \<Longrightarrow> act_release_lock s = Some s' \<Longrightarrow> sys_inv pods s'"
  by (auto simp: act_release_lock_def run_op_def main_holds_after_pop main_holds_release
      split: main_pc.splits sum.splits intro!: sys_inv_goto lock_release_inv)

lemma priority_total:
  assumes "ss_inv st"
  shows "\<exists>pr. get_schedulable_pod_priority st node = Inr pr"
proof (cases "get_last_scheduled_pod st node")
  case None
  then show ?thesis by (simp add: get_schedulable_pod_priority_def)
next
  case (Some p)
  then obtain ps where "map_of (pods_per_node st) node = Some ps" "p \<in> set ps"
    by (auto simp: get_last_scheduled_pod_def split: option.splits if_splits)
  then have "p \<in> fst ` set (pods_priorities st)"
    using flat_get assms by (fastforce simp: ss_inv_def scheduled_pods_def)
  then have "dict_has (pods_priorities st) p" by (simp add: dict_has_iff)
  then show ?thesis using Some
    by (auto simp: get_schedulable_pod_priority_def dict_lookup_def dict_has_def)
qed

lemma place_inv:
  assumes inv: "sys_inv pods s" and m: "sys_main s = MPlace pod"
    and pr: "get_schedulable_pod_priority (sys_state s) node = Inr pr"
    and add: "add_pod_to_schedule_state pod node pr (sys_state s) = Inr st"
  shows "sys_inv pods (goto MLoop (s\<lparr>sys_state := st, sys_workers := sys_workers s @ [(pod, WEstimating)],
                             sys_futures := fs\<rparr>))"
proof -
  note f = add_pod_fields [OF add] and mm = add_pod_mset [OF add]
  have i: "ss_inv st" "priorities_ordered st"
    using add_pod_inv [OF _ add] add_pod_keeps_order [OF _ _ pr add] inv
    by (auto simp: sys_inv_def)
  show ?thesis
    using inv m i f(1-4) mm
    by (auto simp: sys_inv_def goto_def pods_at_snoc queued_pods_def placed_pc_def undecided_pc_def
        runs_of_def reasons_count_def get_reschedule_reasons_def ac_simps split: if_splits)
qed

lemma act_place_on_inv:
  assumes inv: "sys_inv pods s" and a: "act_place_on node s = Some s'"
  shows "sys_inv pods s'"
proof -
  obtain pod where m: "sys_main s = MPlace pod"
    using a by (simp add: act_place_on_def split: main_pc.splits)
  obtain pr where pr: "get_schedulable_pod_priority (sys_state s) node = Inr pr"
    using priority_total [of "sys_state s" node] inv by (auto simp: sys_inv_def)
  show ?thesis
  proof (cases "add_pod_to_schedule_state pod node pr (sys_state s)")
    case (Inl e)
    then show ?thesis using a m pr inv by (auto simp: act_place_on_def run_op_def intro!: sys_inv_goto)
  next
    case (Inr st)
    with a m pr have "s' = goto MLoop (s\<lparr>sys_state := st,
        sys_workers := sys_workers s @ [(pod, WEstimating)],
        sys_futures := sys_futures s @ [length (sys_workers s)]\<rparr>)"
      by (simp add: act_place_on_def run_op_def)
    then show ?thesis using place_inv [OF inv m pr Inr] by simp
  qed
qed

section \<open>The workers keep the invariant\<close>

lemma worker_at_SomeD:
  "worker_at s i = Some pc \<Longrightarrow> i < length (sys_workers s) \<and> sys_workers s ! i = (worker_pod s i, pc)"
  by (auto simp: worker_at_def worker_pod_def split: if_splits)

lemma runs_of_set_worker: "runs_of (set_worker i pc s) p = runs_of s p"
proof -
  have "map fst ((sys_workers s)[i := (fst (sys_workers s ! i), pc)]) = map fst (sys_workers s)"
    by (metis (no_types, lifting) fst_conv list_update_beyond list_update_id map_update not_less nth_map)
  then show ?thesis by (simp add: runs_of_def set_worker_def flip: mset_map)
qed

lemma set_worker_simps [simp]:
  "sys_state (set_worker i pc s) = sys_state s" "sys_main (set_worker i pc s) = sys_main s"
  by (simp_all add: set_worker_def)

lemma pods_at_set_worker:
  assumes "worker_at s i = Some pc"
  shows "pods_at P (sys_workers (set_worker i pc' s)) + (if P pc then {#worker_pod s i#} else {#}) =
    pods_at P (sys_workers s) + (if P pc' then {#worker_pod s i#} else {#})"
  using pods_at_update [of i "sys_workers s" "worker_pod s i" pc P pc'] worker_at_SomeD [OF assms]
  by (simp add: set_worker_def)

lemma sys_inv_set_worker:
  assumes "worker_at s i = Some pc" "placed_pc pc' = placed_pc pc" "undecided_pc pc' = undecided_pc pc"
    "sys_inv pods s"
  shows "sys_inv pods (set_worker i pc' s)"
  using assms(2-4) pods_at_set_worker [OF assms(1), of placed_pc pc']
    pods_at_set_worker [OF assms(1), of undecided_pc pc']
  by (simp add: sys_inv_def runs_of_set_worker split: if_splits)

lemma worker_at_state [simp]: "worker_at (s\<lparr>sys_state := st\<rparr>) i = worker_at s i"
  "worker_pod (s\<lparr>sys_state := st\<rparr>) i = worker_pod s i"
  by (simp_all add: worker_at_def worker_pod_def)

lemma sys_inv_worker_lock:
  assumes "worker_at s i = Some pc" "placed_pc pc' = placed_pc pc" "undecided_pc pc' = undecided_pc pc"
    "sys_inv pods s"
  shows "sys_inv pods (set_worker i pc' (s\<lparr>sys_state := sys_state s\<lparr>global_lock := b\<rparr>\<rparr>))"
  using sys_inv_set_worker [of "s\<lparr>sys_state := sys_state s\<lparr>global_lock := b\<rparr>\<rparr>" i pc pc' pods] assms
  by (simp add: sys_inv_lock)

lemma act_acquire_inv:
  assumes "sys_inv pods s" "act_acquire i s = Some s'"
  shows "sys_inv pods s'"
proof -
  from assms(2) obtain r why where h: "worker_at s i = Some (WRemoved r why)"
    "s' = set_worker i (WLocked r why) (s\<lparr>sys_state := lock_acquire (sys_state s)\<rparr>)"
    by (auto simp: act_acquire_def split: option.splits worker_pc.splits if_splits)
  show ?thesis unfolding h(2) lock_acquire_def
    by (rule sys_inv_worker_lock [OF h(1) _ _ assms(1)]) (simp_all add: placed_pc_def undecided_pc_def)
qed

lemma act_worker_release_inv:
  assumes "sys_inv pods s" "act_worker_release i s = Some s'"
  shows "sys_inv pods s'"
proof -
  have w: "worker_at s i = Some WDecided"
    using assms(2) by (auto simp: act_worker_release_def split: option.splits worker_pc.splits)
  show ?thesis
  proof (cases "global_lock (sys_state s)")
    case True
    with assms(2) w have s': "s' = set_worker i WDone (s\<lparr>sys_state := sys_state s\<lparr>global_lock := False\<rparr>\<rparr>)"
      by (simp add: act_worker_release_def run_op_def lock_release_def)
    show ?thesis unfolding s'
      by (rule sys_inv_worker_lock [OF w _ _ assms(1)]) (simp_all add: placed_pc_def undecided_pc_def)
  next
    case False
    with assms(2) w have s': "s' = set_worker i (WRaised RuntimeError) s"
      by (simp add: act_worker_release_def run_op_def lock_release_def)
    show ?thesis unfolding s'
      by (rule sys_inv_set_worker [OF w _ _ assms(1)]) (simp_all add: placed_pc_def undecided_pc_def)
  qed
qed

lemma act_remove_pod_inv:
  assumes inv: "sys_inv pods s" and a: "act_remove_pod i s = Some s'"
  shows "sys_inv pods s'"
proof -
  obtain r why where w: "worker_at s i = Some (WFinished r why)"
    using a by (auto simp: act_remove_pod_def split: option.splits worker_pc.splits)
  have ss: "ss_inv (sys_state s)" using inv by (simp add: sys_inv_def)
  obtain st where st: "remove_pod_from_schedule_state (worker_pod s i) (sys_state s) = Inr st"
    using remove_pod_ok [OF ss] by blast
  have s': "s' = set_worker i (WRemoved r why) (s\<lparr>sys_state := st\<rparr>)"
    using a w st by (simp add: act_remove_pod_def run_op_def)
  have "worker_pod s i \<in># pods_at placed_pc (sys_workers s)"
    using worker_at_SomeD [OF w] by (force simp: pods_at_def placed_pc_def in_set_conv_nth)
  then have p: "worker_pod s i \<in> set (scheduled_pods (sys_state s))"
    using inv by (metis set_mset_mset sys_inv_def)
  note m = remove_pod_mset [OF ss p st] and f = remove_pod_fields [OF ss st]
    and i = remove_pod_inv [OF ss st] and o = remove_pod_keeps_order [OF ss _ st]
  have w': "worker_at (s\<lparr>sys_state := st\<rparr>) i = Some (WFinished r why)" using w by simp
  show ?thesis
    unfolding s'
    using inv m f i o pods_at_set_worker [OF w', of placed_pc "WRemoved r why"]
      pods_at_set_worker [OF w', of undecided_pc "WRemoved r why"]
    by (simp add: sys_inv_def runs_of_set_worker placed_pc_def undecided_pc_def queued_pods_def
        reasons_count_def get_reschedule_reasons_def)
      (simp add: runs_of_def, metis add_mset_add_single union_mset_add_mset_right add_mset_remove_trivial)
qed

lemma reasons_count_decision:
  assumes "reschedule_decision pod r why st = Inr st'" "pods_work_queue st \<noteq> None"
  shows "count (mset (queued_pods st')) q + reasons_count st q =
    count (mset (queued_pods st)) q + reasons_count st' q"
proof -
  from assms(2) obtain w where w: "pods_work_queue st = Some w" by auto
  have "get_reschedule_reasons (st\<lparr>pods_work_queue := x\<rparr>) = get_reschedule_reasons st"
    "get_reschedule_reasons (st\<lparr>pods_done := y\<rparr>) = get_reschedule_reasons st" for x y st
    by (simp_all add: fun_eq_iff get_reschedule_reasons_def)
  with assms(1) w reschedule_decision_cases [OF w, of pod r why] show ?thesis
    by (auto simp: reasons_count_def queued_pods_def inc_reschedule_reasons split: if_splits)
qed

lemma act_decide_inv:
  assumes inv: "sys_inv pods s" and a: "act_decide i s = Some s'"
  shows "sys_inv pods s'"
proof -
  obtain r why where w: "worker_at s i = Some (WLocked r why)"
    using a by (auto simp: act_decide_def split: option.splits worker_pc.splits)
  have ss: "ss_inv (sys_state s)" and q: "pods_work_queue (sys_state s) \<noteq> None"
    using inv by (simp_all add: sys_inv_def)
  obtain st where st: "reschedule_decision (worker_pod s i) r why (sys_state s) = Inr st"
    using reschedule_decision_ok q by blast
  have s': "s' = set_worker i WDecided (s\<lparr>sys_state := st\<rparr>)"
    using a w st by (simp add: act_decide_def run_op_def)
  note d = reschedule_decision_props [OF ss q st] and c = reasons_count_decision [OF st q]
  have w': "worker_at (s\<lparr>sys_state := st\<rparr>) i = Some (WLocked r why)" using w by simp
  have 1: "count (mset (queued_pods st) + main_holds (sys_main s)) p + runs_of s p =
      count (mset pods) p + reasons_count st p" for p
  proof -
    have "count (mset (queued_pods (sys_state s)) + main_holds (sys_main s)) p + runs_of s p =
        count (mset pods) p + reasons_count (sys_state s) p"
      using inv unfolding sys_inv_def by blast
    then show ?thesis using c [of p] by simp
  qed
  have pl: "pods_at placed_pc (sys_workers s') = pods_at placed_pc (sys_workers s)"
    and un: "pods_at undecided_pc (sys_workers s) =
      add_mset (worker_pod s i) (pods_at undecided_pc (sys_workers s'))"
    using pods_at_set_worker [OF w', of placed_pc WDecided]
      pods_at_set_worker [OF w', of undecided_pc WDecided]
    by (simp_all add: s' placed_pc_def undecided_pc_def)
  have "mset pods = mset (queued_pods (sys_state s)) + mset (pods_done (sys_state s)) +
      main_holds (sys_main s) + pods_at undecided_pc (sys_workers s)"
    using inv by (simp add: sys_inv_def)
  then have 2: "mset (queued_pods st) + mset (pods_done st) + main_holds (sys_main s) +
      pods_at undecided_pc (sys_workers s') = mset pods"
    by (simp add: un d(6))
  have 3: "runs_of s' p = runs_of s p" for p by (simp add: s' runs_of_set_worker) (simp add: runs_of_def)
  have 4: "sys_state s' = st" "sys_main s' = sys_main s" by (simp_all add: s')
  show ?thesis
    using inv d(1,2,4,5) 1 2 pl by (simp add: sys_inv_def 3 4)
qed

lemma act_inv:
  assumes "sys_inv pods s" "act a s = Some s'"
  shows "sys_inv pods s'"
proof (cases a)
  case (EstimationEnds i r why)
  with assms show ?thesis
    by (auto split: if_splits intro!: sys_inv_set_worker simp: placed_pc_def undecided_pc_def)
next
  case (CallbackFails i)
  with assms show ?thesis
    by (auto split: option.splits worker_pc.splits intro!: sys_inv_set_worker
        simp: placed_pc_def undecided_pc_def)
qed (use assms in \<open>auto intro: act_loop_head_inv act_pop_or_wait_inv act_future_completed_inv
    act_wait_exhausted_inv act_check_queue_inv act_test_locked_inv act_release_lock_inv
    act_place_on_inv act_remove_pod_inv act_acquire_inv act_decide_inv act_worker_release_inv\<close>)

lemma reachable_inv: "reachable pods s \<Longrightarrow> sys_inv pods s"
  by (induction rule: reachable.induct) (auto intro: init_sys_inv act_inv)

section \<open>What the exceptions can be\<close>

definition only_runtime_errors :: "sched_sys \<Rightarrow> bool" where
  "only_runtime_errors s \<longleftrightarrow>
     (\<forall>e p. sys_main s = MRaised e p \<longrightarrow> e = RuntimeError) \<and>
     (\<forall>w\<in>set (sys_workers s). \<forall>e. snd w = WRaised e \<longrightarrow> e = RuntimeError)"

lemma lock_release_error: "lock_release st = Inl e \<Longrightarrow> e = RuntimeError"
  by (simp add: lock_release_def split: if_splits)

lemma only_errors_goto:
  "only_runtime_errors s \<Longrightarrow> (\<And>e p. pc = MRaised e p \<Longrightarrow> e = RuntimeError) \<Longrightarrow> only_runtime_errors (goto pc s)"
  by (simp add: only_runtime_errors_def goto_def)

lemma only_errors_state: "only_runtime_errors (s\<lparr>sys_state := st\<rparr>) = only_runtime_errors s"
  "only_runtime_errors (s\<lparr>sys_futures := fs\<rparr>) = only_runtime_errors s"
  by (simp_all add: only_runtime_errors_def)

lemma only_errors_set_worker:
  "only_runtime_errors s \<Longrightarrow> (\<And>e. pc = WRaised e \<Longrightarrow> e = RuntimeError) \<Longrightarrow>
   only_runtime_errors (set_worker i pc s)"
  by (auto simp: only_runtime_errors_def set_worker_def dest!: set_update_subset_insert [THEN subsetD])

lemma pop_nonempty: "queue_of st = Inr q \<Longrightarrow> q \<noteq> [] \<Longrightarrow> \<exists>p st'. pop_work_queue st = Inr (p, st')"
  by (simp add: pop_work_queue_def py_pop_def)

lemma placed_undecided: "placed_pc pc \<Longrightarrow> undecided_pc pc"
  by (cases pc) (simp_all add: placed_pc_def undecided_pc_def)

lemma pods_at_mono: "(\<And>pc. P pc \<Longrightarrow> Q pc) \<Longrightarrow> set_mset (pods_at P ws) \<subseteq> set_mset (pods_at Q ws)"
  by (auto simp: pods_at_def)

lemma place_ok:
  assumes inv: "sys_inv pods s" and d: "distinct pods" and m: "sys_main s = MPlace pod"
  shows "pod \<notin> set (scheduled_pods (sys_state s))"
proof
  assume pod: "pod \<in> set (scheduled_pods (sys_state s))"
  have eq: "mset (scheduled_pods (sys_state s)) = pods_at placed_pc (sys_workers s)"
    using inv by (simp add: sys_inv_def)
  have "pod \<in># pods_at placed_pc (sys_workers s)" using pod by (simp flip: eq)
  then have "pod \<in># pods_at undecided_pc (sys_workers s)"
    by (rule subsetD [OF pods_at_mono, rotated]) (rule placed_undecided)
  then have 1: "0 < count (pods_at undecided_pc (sys_workers s)) pod" by simp
  have "mset (queued_pods (sys_state s)) + mset (pods_done (sys_state s)) +
      {#pod#} + pods_at undecided_pc (sys_workers s) = mset pods"
    using inv m by (simp add: sys_inv_def)
  then have "count (mset (queued_pods (sys_state s)) + mset (pods_done (sys_state s)) +
      {#pod#} + pods_at undecided_pc (sys_workers s)) pod = count (mset pods) pod" by simp
  then have 2: "1 + count (pods_at undecided_pc (sys_workers s)) pod \<le> count (mset pods) pod" by simp
  have "count (mset pods) pod \<le> 1"
    using d distinct_count_atmost_1 [of pods] by (cases "pod \<in> set pods") (auto simp: not_in_iff)
  then show False using 1 2 by linarith
qed

lemma act_only_runtime_errors:
  assumes inv: "sys_inv pods s" and d: "distinct pods" and e: "only_runtime_errors s"
    and a: "act a s = Some s'"
  shows "only_runtime_errors s'"
proof -
  obtain q where q: "queue_of (sys_state s) = Inr q" using sys_inv_queue_of [OF inv] by blast
  have ss: "ss_inv (sys_state s)" using inv by (simp add: sys_inv_def)
  show ?thesis
  proof (cases a)
    case LoopHead
    with a e show ?thesis by (auto simp: act_loop_head_def only_errors_state split: if_splits intro!: only_errors_goto)
  next
    case PopOrWait
    with a e q pop_nonempty [OF q] show ?thesis
      by (auto simp: act_pop_or_wait_def only_errors_state split: if_splits intro!: only_errors_goto)
  next
    case (FutureCompleted i)
    with a e show ?thesis
      by (auto simp: act_future_completed_def only_errors_state split: main_pc.splits if_splits intro!: only_errors_goto)
  next
    case WaitExhausted
    with a e show ?thesis by (auto simp: act_wait_exhausted_def split: if_splits intro!: only_errors_goto)
  next
    case CheckQueue
    with a e q pop_nonempty [OF q] show ?thesis
      by (auto simp: act_check_queue_def run_op_def only_errors_state dest: lock_release_error
          split: main_pc.splits if_splits sum.splits intro!: only_errors_goto)
  next
    case TestLocked
    with a e show ?thesis
      by (auto simp: act_test_locked_def after_pop_def split: main_pc.splits option.splits if_splits
          intro!: only_errors_goto)
  next
    case ReleaseLock
    with a e show ?thesis
      by (auto simp: act_release_lock_def run_op_def only_errors_state after_pop_def dest: lock_release_error
          split: main_pc.splits sum.splits option.splits intro!: only_errors_goto)
  next
    case (PlaceOn node)
    then obtain pod where m: "sys_main s = MPlace pod"
      using a by (simp add: act_place_on_def split: main_pc.splits)
    obtain pr where pr: "get_schedulable_pod_priority (sys_state s) node = Inr pr"
      using priority_total [OF ss] by blast
    obtain st where "add_pod_to_schedule_state pod node pr (sys_state s) = Inr st"
      using add_pod_ok [OF place_ok [OF inv d m]] by blast
    with a e m pr PlaceOn show ?thesis
      by (auto simp: act_place_on_def run_op_def only_runtime_errors_def goto_def)
  next
    case (EstimationEnds i r why)
    with a e show ?thesis by (auto split: if_splits intro!: only_errors_set_worker)
  next
    case (CallbackFails i)
    with a e show ?thesis by (auto split: option.splits worker_pc.splits intro!: only_errors_set_worker)
  next
    case (RemovePod i)
    obtain st where "remove_pod_from_schedule_state (worker_pod s i) (sys_state s) = Inr st"
      using remove_pod_ok [OF ss] by blast
    with a e RemovePod show ?thesis
      by (auto simp: act_remove_pod_def run_op_def only_errors_state split: option.splits worker_pc.splits
          intro!: only_errors_set_worker)
  next
    case (AcquireLock i)
    with a e show ?thesis
      by (auto simp: act_acquire_def only_errors_state split: option.splits worker_pc.splits if_splits
          intro!: only_errors_set_worker)
  next
    case (Decide i)
    then obtain r why where w: "worker_at s i = Some (WLocked r why)"
      using a by (auto simp: act_decide_def split: option.splits worker_pc.splits)
    obtain st where "reschedule_decision (worker_pod s i) r why (sys_state s) = Inr st"
      using inv reschedule_decision_ok [of "sys_state s"] unfolding sys_inv_def by blast
    with a e Decide w show ?thesis
      by (auto simp: act_decide_def run_op_def only_errors_state intro!: only_errors_set_worker)
  next
    case (WorkerRelease i)
    with a e show ?thesis
      by (auto simp: act_worker_release_def run_op_def only_errors_state dest: lock_release_error
          split: option.splits worker_pc.splits sum.splits intro!: only_errors_set_worker)
  qed
qed

lemma reachable_only_runtime_errors:
  "reachable pods s \<Longrightarrow> distinct pods \<Longrightarrow> only_runtime_errors s"
proof (induction rule: reachable.induct)
  case start
  then show ?case by (simp add: only_runtime_errors_def init_sys_def)
next
  case (step s a s')
  then show ?case using act_only_runtime_errors reachable_inv by blast
qed

lemma runs_bound: "sys_inv pods s \<Longrightarrow> runs_of s p \<le> count (mset pods) p + MAX_RESCHEDULES"
proof -
  assume inv: "sys_inv pods s"
  have "count (mset (queued_pods (sys_state s)) + main_holds (sys_main s)) p + runs_of s p =
      count (mset pods) p + reasons_count (sys_state s) p"
    using inv unfolding sys_inv_def by blast
  moreover have "reasons_count (sys_state s) p \<le> MAX_RESCHEDULES"
    using inv dict_all_get by (fastforce simp: sys_inv_def ss_inv_def reasons_count_def
        get_reschedule_reasons_def split: option.split)
  ultimately show ?thesis by simp
qed

text \<open>Only a pod of the initial list is ever run: a new worker gets the pod in hand.\<close>

lemma map_fst_set_worker [simp]: "map fst (sys_workers (set_worker i pc s)) = map fst (sys_workers s)"
  by (cases "i < length (sys_workers s)") (auto simp: set_worker_def map_update list_update_beyond list_update_same_conv)

lemma goto_workers [simp]: "sys_workers (goto pc s) = sys_workers s"
  by (simp add: goto_def)

lemma act_workers:
  assumes "act a s = Some s'"
  shows "map fst (sys_workers s') = map fst (sys_workers s) \<or>
    (\<exists>pod. sys_main s = MPlace pod \<and> map fst (sys_workers s') = map fst (sys_workers s) @ [pod])"
  using assms
  by (cases a) (auto simp: act_loop_head_def act_pop_or_wait_def act_future_completed_def
      act_wait_exhausted_def act_check_queue_def act_test_locked_def act_release_lock_def
      act_place_on_def act_remove_pod_def act_acquire_def act_decide_def act_worker_release_def
      run_op_def split: if_splits sum.splits main_pc.splits worker_pc.splits option.splits)

lemma main_holds_subset: "sys_inv pods s \<Longrightarrow> set_mset (main_holds (sys_main s)) \<subseteq> set pods"
proof -
  assume "sys_inv pods s"
  then have "mset pods = mset (queued_pods (sys_state s)) + mset (pods_done (sys_state s)) +
      main_holds (sys_main s) + pods_at undecided_pc (sys_workers s)" by (simp add: sys_inv_def)
  from arg_cong [OF this, of set_mset] show ?thesis by auto
qed

lemma reachable_workers: "reachable pods s \<Longrightarrow> set (map fst (sys_workers s)) \<subseteq> set pods"
proof (induction rule: reachable.induct)
  case start
  then show ?case by (simp add: init_sys_def)
next
  case (step s a s')
  have m: "set_mset (main_holds (sys_main s)) \<subseteq> set pods"
    by (rule main_holds_subset [OF reachable_inv [OF step.hyps(1)]])
  from act_workers [OF step.hyps(2)] show ?case
  proof
    assume "map fst (sys_workers s') = map fst (sys_workers s)"
    then show ?thesis using step.IH by metis
  next
    assume "\<exists>pod. sys_main s = MPlace pod \<and> map fst (sys_workers s') = map fst (sys_workers s) @ [pod]"
    then obtain pod where p: "sys_main s = MPlace pod"
      "map fst (sys_workers s') = map fst (sys_workers s) @ [pod]" by blast
    show ?thesis using step.IH m unfolding p by simp
  qed
qed

lemma no_foreign_runs: "reachable pods s \<Longrightarrow> q \<notin># mset pods \<Longrightarrow> runs_of s q = 0"
  using reachable_workers [of pods s] by (auto simp: runs_of_def not_in_iff [symmetric] simp del: mset_map)

section \<open>Two interleavings\<close>

text \<open>
  While worker 1 is between acquiring and releasing the lock, the scheduler thread pops a pod,
  sees the lock held and releases it; worker 1's own release then raises.
\<close>

definition race_actions :: "action list" where
  "race_actions =
     [LoopHead, PopOrWait, TestLocked, PlaceOn ''node-1'',
      EstimationEnds 0 False None, RemovePod 0, AcquireLock 0,
      LoopHead, PopOrWait, TestLocked, ReleaseLock, Decide 0, WorkerRelease 0]"

text \<open>
  The last running estimation asks for a reschedule. Its future is finished before its
  callback runs, so the scheduler thread finds everything done and the queue empty, and leaves.
\<close>

definition early_finish_actions :: "action list" where
  "early_finish_actions =
     [LoopHead, PopOrWait, TestLocked, PlaceOn ''node-1'', LoopHead, PopOrWait,
      EstimationEnds 0 True None, FutureCompleted 0, CheckQueue,
      RemovePod 0, AcquireLock 0, Decide 0, WorkerRelease 0]"

section \<open>Properties\<close>


lemma early_finish_run:
  "run_actions early_finish_actions (init_sys [''pod-a'']) =
   Some (the (run_actions early_finish_actions (init_sys [''pod-a''])))"
  by code_simp

lemma race_run:
  "run_actions race_actions (init_sys [''pod-b'', ''pod-a'']) =
   Some (the (run_actions race_actions (init_sys [''pod-b'', ''pod-a''])))"
  by code_simp

lemma race_reachable:
  "reachable [''pod-b'', ''pod-a''] (the (run_actions race_actions (init_sys [''pod-b'', ''pod-a''])))"
  by (rule run_actions_reachable [OF reachable.start race_run])

lemma early_finish_reachable:
  "reachable [''pod-a''] (the (run_actions early_finish_actions (init_sys [''pod-a''])))"
  by (rule run_actions_reachable [OF reachable.start early_finish_run])




text \<open>C9. Estimation work is bounded: with distinct pod names no pod is estimated more than
  \<open>1 + MAX_RESCHEDULES\<close> times, so in every interleaving the scheduler submits at most that many
  futures per pod.\<close>

theorem estimations_bounded:
  assumes "distinct pods" "reachable pods s"
  shows "runs_of s p \<le> 1 + MAX_RESCHEDULES \<and>
    length (sys_workers s) \<le> (1 + MAX_RESCHEDULES) * length pods"
proof -
  have inv: "sys_inv pods s" by (rule reachable_inv [OF assms(2)])
  have one: "count (mset pods) q \<le> 1" for q
    using assms(1) distinct_count_atmost_1 [of pods] by (cases "q \<in> set pods") (auto simp: not_in_iff)
  have bound: "runs_of s q \<le> (1 + MAX_RESCHEDULES) * count (mset pods) q" for q
  proof (cases "q \<in># mset pods")
    case True
    then have "count (mset pods) q = 1" using one [of q] by (metis count_eq_zero_iff le_neq_implies_less less_one)
    then show ?thesis using runs_bound [OF inv, of q] by simp
  next
    case False
    then have "runs_of s q = 0" using no_foreign_runs [OF assms(2)] by simp
    then show ?thesis by simp
  qed
  have "runs_of s p \<le> 1 + MAX_RESCHEDULES" using bound [of p] one [of p]
    by (cases "count (mset pods) p") (auto simp: le_Suc_eq)
  moreover have "mset (map fst (sys_workers s)) \<subseteq># repeat_mset (1 + MAX_RESCHEDULES) (mset pods)"
    using bound by (simp add: subseteq_mset_def runs_of_def)
  then have "length (sys_workers s) \<le> (1 + MAX_RESCHEDULES) * length pods"
    using size_mset_mono by fastforce
  ultimately show ?thesis by simp
qed

theorem estimations_bounded_witness:
  "length (sys_workers (the (run_actions race_actions (init_sys [''pod-b'', ''pod-a''])))) \<le> 4"
  using conjunct2 [OF estimations_bounded [OF _ race_reachable]] by (simp add: MAX_RESCHEDULES_def)



text \<open>C23. Two interleavings go wrong. While a callback thread holds the lock, the scheduler thread
  pops a pod, finds the lock held and releases it, and the callback's own release raises
  \<open>RuntimeError\<close>. And since a future is finished before its callback runs, the scheduler thread
  can find all futures done and the queue empty and leave its loop, after which the
  callback puts a pod back into the queue that nobody will pop.\<close>

theorem scheduler_races:
  "(\<exists>s. reachable [''pod-b'', ''pod-a''] s \<and> worker_at s 0 = Some (WRaised RuntimeError)) \<and>
   (\<exists>s. reachable [''pod-a''] s \<and> sys_main s = MFinished \<and>
        queued_pods (sys_state s) = [''pod-a''] \<and> pods_done (sys_state s) = [])"
proof
  have "worker_at (the (run_actions race_actions (init_sys [''pod-b'', ''pod-a'']))) 0 = Some (WRaised RuntimeError)"
    by code_simp
  then show "\<exists>s. reachable [''pod-b'', ''pod-a''] s \<and> worker_at s 0 = Some (WRaised RuntimeError)"
    using race_reachable by blast
  have "sys_main (the (run_actions early_finish_actions (init_sys [''pod-a'']))) = MFinished"
    "queued_pods (sys_state (the (run_actions early_finish_actions (init_sys [''pod-a''])))) = [''pod-a'']"
    "pods_done (sys_state (the (run_actions early_finish_actions (init_sys [''pod-a''])))) = []"
    by code_simp+
  then show "\<exists>s. reachable [''pod-a''] s \<and> sys_main s = MFinished \<and>
      queued_pods (sys_state s) = [''pod-a''] \<and> pods_done (sys_state s) = []"
    using early_finish_reachable by blast
qed

end
