(* ===== verification/Scheduler.thy ===== *)
theory Scheduler
  imports Estimator SchedulerProtocol
begin

text \<open>
  \<^verbatim>\<open>perf/scheduler/scheduler.py\<close>, the operations of one thread: scheduling and deleting a pod with
  their retries, the estimator run, its completion callback, and the choice of a node. The loop
  of the scheduler thread and its interleaving with the callbacks are in \<open>SchedulerProtocol\<close>. A
  Kubernetes call is its outcome; \<open>running k\<close> is \<open>self.running\<close> as read before attempt \<open>k\<close>.
\<close>

section \<open>Scheduling and deleting with retries\<close>

datatype 'a k8s_call =
    Returns 'a
  | ApiException string string  \<comment> \<open>class name, reason in the body\<close>
  | OtherException string       \<comment> \<open>class name\<close>

definition SCHEDULE_RETRIES :: nat where "SCHEDULE_RETRIES = 6"
definition DELETE_RETRIES :: nat where "DELETE_RETRIES = 3"

text \<open>How the retry loop of \<open>schedule_pod\<close> ends; the payload read so far comes along.\<close>

datatype schedule_end =
    Created pyval
  | AlreadyThere "pyval option"
  | GaveUp "string option"

record schedule_attempt =
  sa_payload :: "pyval k8s_call"
  sa_create :: "unit k8s_call"

text \<open>One attempt: \<open>Inl\<close> ends the loop, \<open>Inr\<close> is the exception to retry after.\<close>

definition schedule_attempt_result :: "schedule_attempt \<Rightarrow> pyval option \<Rightarrow> schedule_end + (pyval option \<times> string)" where
  "schedule_attempt_result a payload =
     (case sa_payload a of
        Returns p \<Rightarrow>
          (case sa_create a of
             Returns _ \<Rightarrow> Inl (Created p)
           | ApiException c reason \<Rightarrow>
               if reason = ''AlreadyExists'' then Inl (AlreadyThere (Some p)) else Inr (Some p, c)
           | OtherException c \<Rightarrow> Inr (Some p, c))
      | ApiException c reason \<Rightarrow>
          if reason = ''AlreadyExists'' then Inl (AlreadyThere payload) else Inr (payload, c)
      | OtherException c \<Rightarrow> Inr (payload, c))"

text \<open>\<open>left\<close> attempts remain; the attempts are numbered upwards.\<close>

fun schedule_loop :: "(nat \<Rightarrow> bool) \<Rightarrow> (nat \<Rightarrow> schedule_attempt) \<Rightarrow> nat \<Rightarrow> nat \<Rightarrow> pyval option \<Rightarrow> string option \<Rightarrow> schedule_end" where
  "schedule_loop running attempts 0 k payload exc = GaveUp exc"
| "schedule_loop running attempts (Suc left) k payload exc =
     (if \<not> running k then GaveUp exc
      else case schedule_attempt_result (attempts k) payload of
             Inl e \<Rightarrow> e
           | Inr (p, c) \<Rightarrow> schedule_loop running attempts left (Suc k) p (Some c))"

definition exception_data :: "string option \<Rightarrow> pyval" where
  "exception_data exc = PDict [(''exception'', case exc of None \<Rightarrow> PNone | Some c \<Rightarrow> PStr c)]"

text \<open>\<open>stopped\<close> is \<open>not self.running\<close> after the loop; \<open>during\<close> is what the others do while this thread
  waits for the pod to appear.\<close>

definition schedule_pod :: "(nat \<Rightarrow> bool) \<Rightarrow> (nat \<Rightarrow> schedule_attempt) \<Rightarrow> bool \<Rightarrow> (scheduling_state \<Rightarrow> scheduling_state) \<Rightarrow> int \<Rightarrow>
    string \<Rightarrow> scheduling_state \<Rightarrow> pyval option \<times> scheduling_state" where
  "schedule_pod running attempts stopped during now pod st =
     (case schedule_loop running attempts (Suc SCHEDULE_RETRIES) 0 None None of
        AlreadyThere payload \<Rightarrow>
          (payload, add_result_event now PNone pod (SchedResult INTERRUPTED_POD_ALREADY_EXISTS) st)
      | GaveUp exc \<Rightarrow>
          (None, add_result_event now (exception_data exc) pod
                   (SchedResult PodSchedulingResultEvent.INTERRUPTED_INTERNAL_ERROR) st)
      | Created payload \<Rightarrow>
          if stopped then (Some payload, st)
          else
            let (woken, st1) = wait_event during pod st
            in (Some payload, add_result_event now PNone pod
                  (SchedResult (if woken then PodSchedulingResultEvent.POD_SCHEDULED
                                else PodSchedulingResultEvent.INTERRUPTED_TIMEOUT)) st1))"

datatype delete_end = Deleted | NotFound | DeleteGaveUp "string option"

fun delete_loop :: "(nat \<Rightarrow> unit k8s_call) \<Rightarrow> nat \<Rightarrow> nat \<Rightarrow> string option \<Rightarrow> delete_end" where
  "delete_loop attempts 0 k exc = DeleteGaveUp exc"
| "delete_loop attempts (Suc left) k exc =
     (case attempts k of
        Returns _ \<Rightarrow> Deleted
      | ApiException c reason \<Rightarrow>
          if reason = ''NotFound'' then NotFound else delete_loop attempts left (Suc k) (Some c)
      | OtherException c \<Rightarrow> delete_loop attempts left (Suc k) (Some c))"

definition delete_pod :: "(nat \<Rightarrow> unit k8s_call) \<Rightarrow> bool \<Rightarrow> (scheduling_state \<Rightarrow> scheduling_state) \<Rightarrow> int \<Rightarrow>
    string \<Rightarrow> scheduling_state \<Rightarrow> scheduling_state" where
  "delete_pod attempts stopped during now pod st0 =
     (let st = add_phase_event now pod (SchedPhase WAITING_FOR_POD_TO_BE_DELETED) st0
      in case delete_loop attempts (Suc DELETE_RETRIES) 0 None of
           NotFound \<Rightarrow> add_result_event now PNone pod (SchedResult INTERRUPTED_POD_NOT_FOUND) st
         | DeleteGaveUp exc \<Rightarrow>
             add_result_event now (exception_data exc) pod
               (SchedResult PodSchedulingResultEvent.INTERRUPTED_INTERNAL_ERROR) st
         | Deleted \<Rightarrow>
             if stopped then st
             else
               let (woken, st1) = wait_event during pod st
               in add_result_event now PNone pod
                    (SchedResult (if woken then PodSchedulingResultEvent.POD_DELETED
                                  else PodSchedulingResultEvent.INTERRUPTED_TIMEOUT)) st1)"

section \<open>A run and its completion\<close>

record sched_world =
  sw_scheduling :: scheduling_state
  sw_estimation :: phase_result_state
  sw_stats :: stats_state
  sw_watcher :: kube_watcher_state

text \<open>\<open>run_estimator\<close> returns a tuple of four when there is no payload, of three otherwise.\<close>

datatype estimator_result =
    FourTuple bool "event_type option" "pyval option" "pyval option"
  | ThreeTuple bool "event_type option" "pyval option"

text \<open>What one run meets: the outcomes of the API calls, the flag at the reads of \<open>self.running\<close>,
  and what the other threads do while it waits.\<close>

record run_env =
  re_running :: "nat \<Rightarrow> bool"
  re_attempts :: "nat \<Rightarrow> schedule_attempt"
  re_stopped_scheduling :: bool
  re_running_estimation :: bool
  re_deletes :: "nat \<Rightarrow> unit k8s_call"
  re_stopped_deleting :: bool
  re_during_scheduling :: "scheduling_state \<Rightarrow> scheduling_state"
  re_during_phase :: phase_env
  re_during_deleting :: "scheduling_state \<Rightarrow> scheduling_state"
  re_logs_of :: "string \<Rightarrow> string pyres"
  re_now :: int

definition run_estimation_if_scheduled :: "run_env \<Rightarrow> string \<Rightarrow> pyval \<Rightarrow> sched_world \<Rightarrow>
    ((bool \<times> event_type option) \<times> sched_world) pyres" where
  "run_estimation_if_scheduled env pod payload w =
     bindE (if re_running_estimation env
            then bindE (get_last_result_event_type (sw_scheduling w) pod) (\<lambda>t.
                   Inr (t = Some (SchedResult PodSchedulingResultEvent.POD_SCHEDULED)))
            else Inr False) (\<lambda>go.
     if go then
       bindE (estimate_resources (re_during_phase env) (re_logs_of env) (re_now env) pod payload
                \<lparr>es_estimation = sw_estimation w, es_stats = sw_stats w\<rparr>) (\<lambda>(requested, verdict, s).
         Inr (verdict, w\<lparr>sw_estimation := es_estimation s, sw_stats := es_stats s\<rparr>))
     else Inr ((False, None), w))"

definition run_estimator :: "run_env \<Rightarrow> string \<Rightarrow> sched_world \<Rightarrow> (estimator_result \<times> sched_world) pyres" where
  "run_estimator env pod w0 =
     (let st1 = add_phase_event (re_now env) pod (SchedPhase WAITING_FOR_POD_TO_BE_SCHEDULED) (sw_scheduling w0);
          (payload, st2) = schedule_pod (re_running env) (re_attempts env) (re_stopped_scheduling env)
                             (re_during_scheduling env) (re_now env) pod st1;
          w = w0\<lparr>sw_scheduling := st2\<rparr>
      in case payload of
           None \<Rightarrow> bindE (get_last_result_event_type (sw_scheduling w) pod) (\<lambda>t.
                     Inr (FourTuple True t None None, w))
         | Some p \<Rightarrow>
             bindE (run_estimation_if_scheduled env pod p w) (\<lambda>((reschedule, reason), w1).
             let w2 = w1\<lparr>sw_scheduling := delete_pod (re_deletes env) (re_stopped_deleting env)
                           (re_during_deleting env) (re_now env) pod (sw_scheduling w1)\<rparr>
             in bindE (case reason of
                         None \<Rightarrow> get_last_result_event_type (sw_scheduling w2) pod
                       | Some r \<Rightarrow> Inr (Some r)) (\<lambda>reason'.
                  Inr (ThreeTuple reschedule reason' (Some p), w2))))"

definition clean_states :: "string \<Rightarrow> sched_world \<Rightarrow> sched_world pyres" where
  "clean_states pod w =
     (let w1 = w\<lparr>sw_estimation := clean_phase_result_events pod (clean_wait_event pod (sw_estimation w)),
                 sw_scheduling := clean_phase_result_events pod (clean_wait_event pod (sw_scheduling w))\<rparr>
      in bindE (dict_del pod (event_queues_per_pod (sw_watcher w1))) (\<lambda>q.
           Inr (w1\<lparr>sw_watcher := (sw_watcher w1)\<lparr>event_queues_per_pod := q\<rparr>\<rparr>)))"

definition record_stats :: "(pod_logged_event \<Rightarrow> string) \<Rightarrow> string \<Rightarrow> pyval \<Rightarrow> sched_world \<Rightarrow> sched_world pyres" where
  "record_stats str pod payload w =
     (let s1 = set_df_events str pod (sw_watcher w) (sw_estimation w) (sw_scheduling w) (sw_stats w);
          s2 = set_reschedule_reasons pod (sw_scheduling w) s1
      in bindE (get_last_result_event_type (sw_estimation w) pod) (\<lambda>t.
         bindE (set_pod_info payload pod (set_final_result pod t s2)) (\<lambda>s3.
           Inr (w\<lparr>sw_stats := s3\<rparr>))))"

text \<open>\<open>reschedule, reason, payload = future.result()\<close> needs exactly three values.\<close>

definition done_estimation_callback :: "(pod_logged_event \<Rightarrow> string) \<Rightarrow> estimator_result \<Rightarrow> string \<Rightarrow> sched_world \<Rightarrow> sched_world pyres" where
  "done_estimation_callback str result pod w =
     (case result of
        FourTuple _ _ _ _ \<Rightarrow> Inl ValueError
      | ThreeTuple reschedule reason payload \<Rightarrow>
          bindE (case payload of None \<Rightarrow> Inr w | Some p \<Rightarrow> record_stats str pod p w) (\<lambda>w1.
          bindE (clean_states pod w1) (\<lambda>w2.
          bindE (reschedule_or_complete pod reschedule reason (sw_scheduling w2)) (\<lambda>st.
            Inr (w2\<lparr>sw_scheduling := st\<rparr>)))))"

text \<open>\<open>futures\<close> maps a future to its pod; \<open>finished\<close> is \<open>f.done()\<close>.\<close>

definition remove_done_futures :: "(nat \<Rightarrow> bool) \<Rightarrow> (nat, string) dict \<Rightarrow> (nat, string) dict" where
  "remove_done_futures finished futures =
     fold (\<lambda>f d. if finished f then AList.delete f d else d) (map fst futures) futures"

text \<open>The interrupts \<open>stop\<close> sends to every running pod.\<close>

definition interrupt_pod :: "int \<Rightarrow> string \<Rightarrow> sched_world \<Rightarrow> sched_world" where
  "interrupt_pod now pod w =
     w\<lparr>sw_scheduling := wake_event (\<lambda>_ s. s) 1 pod
         (add_result_event now PNone pod (SchedResult PodSchedulingResultEvent.INTERRUPTED_STOP) (sw_scheduling w)),
       sw_estimation := wake_event (\<lambda>_ s. s) 1 pod
         (add_result_event now PNone pod (EstResult PodEstimationResultEvent.INTERRUPTED_STOP) (sw_estimation w))\<rparr>"

definition interrupt_running :: "int \<Rightarrow> (nat, string) dict \<Rightarrow> sched_world \<Rightarrow> sched_world" where
  "interrupt_running now futures w = fold (interrupt_pod now) (map snd futures) w"

section \<open>Choosing a node\<close>

datatype NodeStateReason =
    SCHEDULABLE_BULK
  | SCHEDULABLE_SEQUENCE
  | NO_RESOURCE_ESTIMATOR_LABEL
  | NOT_READY
  | NOT_ENOUGH_CPU
  | NOT_ENOUGH_MEMORY
  | LAST_POD_NOT_APPEARED
  | LAST_POD_NOT_IN_ESTIMATING_STATE
  | NOT_ENOUGH_TIME_SINCE_LAST_POD_STARTED_ESTIMATION
  | NO_RESOURCE_METRICS
  | RESOURCES_METRICS_NOT_FRESH_SINCE_OOM_EVENT
  | RESOURCES_METRICS_NOT_FRESH_SINCE_LAST_POD_STARTED_ESTIMATION

record node =
  nd_name :: string
  nd_labels :: "(string, string) dict"
  nd_conditions :: "(string \<times> string) list"
  nd_cpu :: string
  nd_memory :: string

definition has_estimator_label :: "node \<Rightarrow> bool" where
  "has_estimator_label n =
     list_ex (\<lambda>(label, v). label = ''svoe-role'' \<and> v = ''resource-estimator'') (nd_labels n)"

definition is_ready :: "node \<Rightarrow> bool" where
  "is_ready n = list_ex (\<lambda>(t, s). t = ''Ready'' \<and> s = ''True'') (nd_conditions n)"

text \<open>The usage of a node; when the metrics were unavailable and the scheduler is stopping, the
  "usage" is the reason, a string.\<close>

definition usage_lookup :: "string + (string, node_usage) dict \<Rightarrow> string \<Rightarrow> node_usage option pyres" where
  "usage_lookup usage name =
     (case usage of
        Inl reason \<Rightarrow> if py_contains name reason then Inl TypeError else Inr None
      | Inr d \<Rightarrow> Inr (map_of d name))"

definition memory_share :: "node_usage \<Rightarrow> node \<Rightarrow> rat pyres" where
  "memory_share u n =
     bindE (cpu (nd_cpu n)) (\<lambda>alloc_cpu.
     bindE (memory (nd_memory n)) (\<lambda>alloc_mem.
       if alloc_mem = 0 then Inl ZeroDivisionError
       else Inr (of_int (nu_memory u) / of_int alloc_mem)))"

definition seconds_since :: "int \<Rightarrow> int \<Rightarrow> int" where
  "seconds_since now t = int_trunc (of_int (now - t) / 1000000)"

definition sequence_state :: "int \<Rightarrow> string + (string, node_usage) dict \<Rightarrow> scheduling_state \<Rightarrow> node \<Rightarrow> pod_logged_event \<Rightarrow>
    (bool \<times> NodeStateReason) pyres" where
  "sequence_state now usage sched n phase_event =
     (if pe_type phase_event \<noteq> EstPhase WAITING_FOR_POD_TO_FINISH_ESTIMATION_RUN
      then Inr (False, LAST_POD_NOT_IN_ESTIMATING_STATE)
      else if seconds_since now (pe_local_time phase_event) < NODE_NEXT_SCHEDULE_PERIOD
      then Inr (False, NOT_ENOUGH_TIME_SINCE_LAST_POD_STARTED_ESTIMATION)
      else
        bindE (usage_lookup usage (nd_name n)) (\<lambda>mu.
        case mu of
          None \<Rightarrow> Inr (False, NO_RESOURCE_METRICS)
        | Some u \<Rightarrow>
            if pe_local_time phase_event > nu_cluster_timestamp u
            then Inr (False, RESOURCES_METRICS_NOT_FRESH_SINCE_LAST_POD_STARTED_ESTIMATION)
            else if (case get_last_oom_time sched (nd_name n) of
                       None \<Rightarrow> False | Some t \<Rightarrow> t > nu_cluster_timestamp u)
            then Inr (False, RESOURCES_METRICS_NOT_FRESH_SINCE_OOM_EVENT)
            else
              bindE (memory_share u n) (\<lambda>share.
                if share > NODE_MEMORY_ALLOC_THRESHOLD then Inr (False, NOT_ENOUGH_MEMORY)
                else Inr (True, SCHEDULABLE_SEQUENCE))))"

definition node_state :: "int \<Rightarrow> string + (string, node_usage) dict \<Rightarrow> scheduling_state \<Rightarrow> phase_result_state \<Rightarrow> node \<Rightarrow>
    (bool \<times> NodeStateReason) pyres" where
  "node_state now usage sched est n =
     (if \<not> has_estimator_label n then Inr (False, NO_RESOURCE_ESTIMATOR_LABEL)
      else if \<not> is_ready n then Inr (False, NOT_READY)
      else if (case map_of (pods_per_node sched) (nd_name n) of
                 None \<Rightarrow> True | Some pods \<Rightarrow> length pods < BULK_SCHEDULE_SIZE)
      then Inr (True, SCHEDULABLE_BULK)
      else
        bindE (case get_last_scheduled_pod sched (nd_name n) of
                 None \<Rightarrow> Inr None
               | Some last_pod \<Rightarrow> get_last_phase_event est last_pod) (\<lambda>phase_event.
        case phase_event of
          None \<Rightarrow> Inr (False, LAST_POD_NOT_APPEARED)
        | Some e \<Rightarrow> sequence_state now usage sched n e))"

definition nodes_states :: "int \<Rightarrow> string + (string, node_usage) dict \<Rightarrow> scheduling_state \<Rightarrow> phase_result_state \<Rightarrow> node list \<Rightarrow>
    (string, bool \<times> NodeStateReason) dict pyres" where
  "nodes_states now usage sched est ns =
     foldE (\<lambda>n d. bindE (node_state now usage sched est n) (\<lambda>v. Inr (dict_put (nd_name n) v d))) ns []"

text \<open>The retries of \<open>fetch_nodes_state\<close>: the nodes and usage of each try, with the flag read after
  it; \<open>None\<close> when the tries given run out before one succeeds or the flag is down.\<close>

fun await_usage :: "(node list \<times> (string + (string, node_usage) dict) \<times> bool) list \<Rightarrow>
    (node list \<times> (string + (string, node_usage) dict)) option" where
  "await_usage [] = None"
| "await_usage ((ns, usage, running) # tries) =
     (if running \<and> isl usage then await_usage tries else Some (ns, usage))"

definition fetch_nodes_state :: "int \<Rightarrow> (node list \<times> (string + (string, node_usage) dict) \<times> bool) list \<Rightarrow> scheduling_state \<Rightarrow>
    phase_result_state \<Rightarrow> (string, bool \<times> NodeStateReason) dict pyres option" where
  "fetch_nodes_state now tries sched est =
     map_option (\<lambda>(ns, usage). nodes_states now usage sched est ns) (await_usage tries)"

definition get_schedulable_node :: "(string, bool \<times> NodeStateReason) dict \<Rightarrow> (string \<times> NodeStateReason) option" where
  "get_schedulable_node states =
     map_option (\<lambda>(node, ok, reason). (node, reason)) (find (\<lambda>(node, ok, reason). ok) states)"

section \<open>Frames\<close>

text \<open>The logs of a pod and its placement are separate parts of the scheduling state.\<close>

lemma add_event_placement [simp]:
  "scheduled_pods (add_result_event now d p t st) = scheduled_pods st"
  "scheduled_pods (add_phase_event now p t2 st) = scheduled_pods st"
  "scheduled_pods (clean_phase_result_events p st) = scheduled_pods st"
  "scheduled_pods (clean_wait_event p st) = scheduled_pods st"
  "pods_work_queue (clean_phase_result_events p st) = pods_work_queue st"
  "pods_work_queue (clean_wait_event p st) = pods_work_queue st"
  "pods_done (clean_phase_result_events p st) = pods_done st"
  "pods_done (clean_wait_event p st) = pods_done st"
  by (simp_all add: scheduled_pods_def add_result_event_def add_phase_event_def
      clean_phase_result_events_def clean_wait_event_def Let_def split: option.split)

lemma clean_ss_inv [simp]:
  "ss_inv (clean_phase_result_events p st) = ss_inv st"
  "ss_inv (clean_wait_event p st) = ss_inv st"
proof -
  have a: "pods_per_node (clean_phase_result_events p st) = pods_per_node st"
    "pods_priorities (clean_phase_result_events p st) = pods_priorities st"
    "reschedule_events_per_pod (clean_phase_result_events p st) = reschedule_events_per_pod st"
    by (simp_all add: clean_phase_result_events_def Let_def)
  show "ss_inv (clean_phase_result_events p st) = ss_inv st" unfolding ss_inv_def by (simp add: a)
  have b: "pods_per_node (clean_wait_event p st) = pods_per_node st"
    "pods_priorities (clean_wait_event p st) = pods_priorities st"
    "reschedule_events_per_pod (clean_wait_event p st) = reschedule_events_per_pod st"
    by (simp_all add: clean_wait_event_def)
  show "ss_inv (clean_wait_event p st) = ss_inv st" unfolding ss_inv_def by (simp add: b)
qed

lemma set_df_events_frame: "df_logs (set_df_events str pod ks e s st) = df_logs st"
  by (simp add: set_df_events_def)

section \<open>Nodes\<close>

text \<open>When a node is schedulable.\<close>

definition fit_for_more :: "int \<Rightarrow> string + (string, node_usage) dict \<Rightarrow> scheduling_state \<Rightarrow> phase_result_state \<Rightarrow> node \<Rightarrow> bool" where
  "fit_for_more now usage sched est n \<longleftrightarrow>
     (\<exists>last_pod e u share. get_last_scheduled_pod sched (nd_name n) = Some last_pod \<and>
        get_last_phase_event est last_pod = Inr (Some e) \<and>
        pe_type e = EstPhase WAITING_FOR_POD_TO_FINISH_ESTIMATION_RUN \<and>
        NODE_NEXT_SCHEDULE_PERIOD \<le> seconds_since now (pe_local_time e) \<and>
        usage_lookup usage (nd_name n) = Inr (Some u) \<and>
        pe_local_time e \<le> nu_cluster_timestamp u \<and>
        (\<forall>t. get_last_oom_time sched (nd_name n) = Some t \<longrightarrow> t \<le> nu_cluster_timestamp u) \<and>
        memory_share u n = Inr share \<and> share \<le> NODE_MEMORY_ALLOC_THRESHOLD)"

lemma node_state_True:
  "node_state now usage sched est n = Inr (True, r) \<longleftrightarrow>
   has_estimator_label n \<and> is_ready n \<and>
   ((case map_of (pods_per_node sched) (nd_name n) of None \<Rightarrow> True | Some pods \<Rightarrow> length pods < BULK_SCHEDULE_SIZE) \<and> r = SCHEDULABLE_BULK \<or>
    \<not> (case map_of (pods_per_node sched) (nd_name n) of None \<Rightarrow> True | Some pods \<Rightarrow> length pods < BULK_SCHEDULE_SIZE) \<and>
    fit_for_more now usage sched est n \<and> r = SCHEDULABLE_SEQUENCE)"
  (is "?l \<longleftrightarrow> ?r")
proof -
  have seq: "sequence_state now usage sched n e = Inr (True, r) \<longleftrightarrow>
      pe_type e = EstPhase WAITING_FOR_POD_TO_FINISH_ESTIMATION_RUN \<and>
      NODE_NEXT_SCHEDULE_PERIOD \<le> seconds_since now (pe_local_time e) \<and>
      (\<exists>u share. usage_lookup usage (nd_name n) = Inr (Some u) \<and>
        pe_local_time e \<le> nu_cluster_timestamp u \<and>
        (\<forall>t. get_last_oom_time sched (nd_name n) = Some t \<longrightarrow> t \<le> nu_cluster_timestamp u) \<and>
        memory_share u n = Inr share \<and> share \<le> NODE_MEMORY_ALLOC_THRESHOLD) \<and> r = SCHEDULABLE_SEQUENCE" for e
  proof (cases "usage_lookup usage (nd_name n)")
    case (Inl err)
    then show ?thesis by (simp add: sequence_state_def not_less)
  next
    case (Inr mu)
    show ?thesis
    proof (cases mu)
      case None
      then show ?thesis using Inr by (simp add: sequence_state_def not_less)
    next
      case (Some u)
      then show ?thesis using Inr
        by (cases "memory_share u n"; cases "get_last_oom_time sched (nd_name n)")
          (auto simp: sequence_state_def not_less)
    qed
  qed
  show ?thesis
  proof (cases "has_estimator_label n \<and> is_ready n \<and>
      \<not> (case map_of (pods_per_node sched) (nd_name n) of None \<Rightarrow> True | Some pods \<Rightarrow> length pods < BULK_SCHEDULE_SIZE)")
    case False
    then show ?thesis by (auto simp: node_state_def)
  next
    case True
    have "?l \<longleftrightarrow> (\<exists>last_pod e. get_last_scheduled_pod sched (nd_name n) = Some last_pod \<and>
        get_last_phase_event est last_pod = Inr (Some e) \<and> sequence_state now usage sched n e = Inr (True, r))"
      using True by (auto simp: node_state_def split: option.splits)
    also have "\<dots> \<longleftrightarrow> fit_for_more now usage sched est n \<and> r = SCHEDULABLE_SEQUENCE"
      unfolding seq fit_for_more_def by blast
    finally show ?thesis using True by simp
  qed
qed

lemma nodes_states_get:
  assumes "nodes_states now usage sched est ns = Inr d" "map_of d name = Some v"
  shows "\<exists>n\<in>set ns. nd_name n = name \<and> node_state now usage sched est n = Inr v"
proof -
  have "foldE (\<lambda>n d. bindE (node_state now usage sched est n) (\<lambda>v. Inr (dict_put (nd_name n) v d))) ns d0 = Inr d \<Longrightarrow>
      map_of d name = Some v \<Longrightarrow> map_of d0 name = Some v \<or>
      (\<exists>n\<in>set ns. nd_name n = name \<and> node_state now usage sched est n = Inr v)" for d0
  proof (induction ns arbitrary: d0)
    case Nil
    then show ?case by simp
  next
    case (Cons n ns)
    from Cons.prems(1) obtain x where x: "node_state now usage sched est n = Inr x"
      "foldE (\<lambda>n d. bindE (node_state now usage sched est n) (\<lambda>v. Inr (dict_put (nd_name n) v d))) ns
         (dict_put (nd_name n) x d0) = Inr d" by auto
    from Cons.IH [OF x(2) Cons.prems(2)] show ?case using x(1) by (auto split: if_splits)
  qed
  from this [of "[]"] assms show ?thesis by (auto simp: nodes_states_def)
qed

lemma nodes_states_wf:
  assumes "nodes_states now usage sched est ns = Inr d"
  shows "dict_wf d"
  using foldE_invariant [where I = dict_wf, OF assms [unfolded nodes_states_def]] by auto

section \<open>Properties\<close>

text \<open>C26. The scheduler only picks fit nodes. If the node states can be computed and one is picked,
  then a node of that name carries the estimator label, is ready, and either has fewer than
  \<open>BULK_SCHEDULE_SIZE\<close> pods or its last pod has been estimating for at least the schedule period,
  its metrics are newer than that pod's start and the last OOM, and at most the threshold of its
  memory is in use.\<close>

theorem picked_node_is_fit:
  assumes "nodes_states now usage sched est ns = Inr d" "get_schedulable_node d = Some (name, r)"
  shows "\<exists>n\<in>set ns. nd_name n = name \<and> has_estimator_label n \<and> is_ready n \<and>
    ((case map_of (pods_per_node sched) name of None \<Rightarrow> True | Some pods \<Rightarrow> length pods < BULK_SCHEDULE_SIZE) \<or>
     fit_for_more now usage sched est n)"
proof -
  from assms(2) obtain ok where "find (\<lambda>(node, ok, reason). ok) d = Some (name, ok, r)"
    by (auto simp: get_schedulable_node_def)
  then have "(name, True, r) \<in> set d" by (auto simp: find_Some_iff in_set_conv_nth)
  then have "map_of d name = Some (True, r)"
    using nodes_states_wf [OF assms(1)] by (simp add: dict_wf_def)
  from nodes_states_get [OF assms(1) this] obtain n where
    "n \<in> set ns" "nd_name n = name" "node_state now usage sched est n = Inr (True, r)" by blast
  then show ?thesis using node_state_True [of now usage sched est n r] by auto
qed

definition sample_node :: "string \<Rightarrow> node" where
  "sample_node name = \<lparr>nd_name = name, nd_labels = [(''svoe-role'', ''resource-estimator'')],
     nd_conditions = [(''Ready'', ''True'')], nd_cpu = ''4'', nd_memory = ''8000Mi''\<rparr>"

theorem picked_node_is_fit_witness:
  "\<exists>n\<in>set [sample_node ''node-1'']. nd_name n = ''node-1'' \<and> has_estimator_label n \<and> is_ready n"
proof -
  have "nodes_states 0 (Inl SERVICE_UNAVAILABLE) init_scheduling_state init_phase_result_state [sample_node ''node-1'']
      = Inr [(''node-1'', True, SCHEDULABLE_BULK)]" by code_simp
  moreover have "get_schedulable_node [(''node-1'', True, SCHEDULABLE_BULK)] = Some (''node-1'', SCHEDULABLE_BULK)"
    by code_simp
  ultimately show ?thesis using picked_node_is_fit by blast
qed

text \<open>C27. A pod that cannot be created is stuck. If the attempts to create it run out or the
  scheduler stops before one succeeds, the run ends in a tuple of four and its completion
  callback raises \<open>ValueError\<close> on unpacking it, so the pod stays on its node and is neither done
  nor rescheduled.\<close>

theorem uncreatable_pod_is_stuck:
  assumes "prs_inv (sw_scheduling w)"
    and "schedule_loop (re_running env) (re_attempts env) (Suc SCHEDULE_RETRIES) 0 None None = GaveUp exc"
  shows "\<exists>w'. run_estimator env pod w =
      Inr (FourTuple True (Some (SchedResult PodSchedulingResultEvent.INTERRUPTED_INTERNAL_ERROR)) None None, w') \<and>
    scheduled_pods (sw_scheduling w') = scheduled_pods (sw_scheduling w) \<and>
    done_estimation_callback str
      (FourTuple True (Some (SchedResult PodSchedulingResultEvent.INTERRUPTED_INTERNAL_ERROR)) None None) pod w'
      = Inl ValueError"
proof -
  define st1 where "st1 = add_phase_event (re_now env) pod (SchedPhase WAITING_FOR_POD_TO_BE_SCHEDULED) (sw_scheduling w)"
  define st2 where "st2 = add_result_event (re_now env) (exception_data exc) pod
      (SchedResult PodSchedulingResultEvent.INTERRUPTED_INTERNAL_ERROR) st1"
  have "prs_inv st2" using assms(1) by (simp add: st1_def st2_def add_phase_event_inv add_result_event_inv)
  then have last: "get_last_result_event_type st2 pod =
      Inr (Some (SchedResult PodSchedulingResultEvent.INTERRUPTED_INTERNAL_ERROR))"
    by (simp add: get_last_result_event_type_eq st2_def results.types_add_same)
  have "schedule_pod (re_running env) (re_attempts env) (re_stopped_scheduling env) (re_during_scheduling env)
      (re_now env) pod st1 = (None, st2)"
    using assms(2) by (simp add: schedule_pod_def st2_def)
  then have "run_estimator env pod w =
      Inr (FourTuple True (Some (SchedResult PodSchedulingResultEvent.INTERRUPTED_INTERNAL_ERROR)) None None,
           w\<lparr>sw_scheduling := st2\<rparr>)"
    using last by (simp add: run_estimator_def st1_def [symmetric])
  then show ?thesis by (simp add: done_estimation_callback_def st2_def st1_def)
qed

definition failing_env :: run_env where
  "failing_env =
     \<lparr>re_running = (\<lambda>_. True), re_attempts = (\<lambda>_. \<lparr>sa_payload = Returns sample_payload, sa_create = OtherException ''MaxRetryError''\<rparr>),
      re_stopped_scheduling = False, re_running_estimation = True, re_deletes = (\<lambda>_. Returns ()),
      re_stopped_deleting = False, re_during_scheduling = id, re_during_phase = (\<lambda>_ s. s),
      re_during_deleting = id, re_logs_of = (\<lambda>_. Inr []), re_now = 3\<rparr>"

definition sample_sched_world :: sched_world where
  "sample_sched_world =
     \<lparr>sw_scheduling = init_pods_work_queue [] init_scheduling_state, sw_estimation = init_phase_result_state,
      sw_stats = init_stats, sw_watcher = init_kube_watcher_state\<rparr>"

theorem uncreatable_pod_is_stuck_witness:
  "\<exists>w'. run_estimator failing_env ''pod-a'' sample_sched_world =
      Inr (FourTuple True (Some (SchedResult PodSchedulingResultEvent.INTERRUPTED_INTERNAL_ERROR)) None None, w')"
proof -
  have "schedule_loop (re_running failing_env) (re_attempts failing_env) (Suc SCHEDULE_RETRIES) 0 None None
      = GaveUp (Some ''MaxRetryError'')" by code_simp
  moreover have "prs_inv (sw_scheduling sample_sched_world)"
    by (simp add: prs_inv_def sample_sched_world_def init_pods_work_queue_def init_scheduling_state_def)
  ultimately show ?thesis using uncreatable_pod_is_stuck by blast
qed

lemma set_pod_info_ok:
  assumes "get_payload_hash p = Inr h" "get_payload_config p = Inr c" "pv_get p ''svoe'' = Inr (PDict sv)"
  shows "\<exists>s'. set_pod_info p pod s = Inr s'"
proof (cases "map_of sv ''symbol_distribution''")
  case None
  then show ?thesis using assms by (simp add: set_pod_info_def dict_has_def)
next
  case (Some v)
  then show ?thesis using assms by (simp add: set_pod_info_def dict_has_def dict_lookup_def)
qed

lemma record_stats_ok:
  assumes "prs_inv (sw_estimation w)" "get_payload_hash p = Inr h" "get_payload_config p = Inr c"
    "pv_get p ''svoe'' = Inr (PDict sv)"
  shows "\<exists>s'. record_stats str pod p w = Inr (w\<lparr>sw_stats := s'\<rparr>)"
  using set_pod_info_ok [OF assms(2-4)] get_last_result_event_type_eq [OF assms(1)]
  by (fastforce simp: record_stats_def Let_def)

text \<open>Completion puts a pod in its place and cleans up, or dies before it. With a well-formed
  payload the callback of a finished run succeeds exactly when the watcher has a queue for the
  pod; it then moves the pod from its node to exactly one of queue and done list, frees the
  lock, and erases the pod's phases, results and events; without a queue it raises
  \<open>KeyError\<close> and the pod is neither rescheduled nor done.\<close>

theorem completion_cleans_up:
  assumes "ss_inv (sw_scheduling w)" "pods_work_queue (sw_scheduling w) \<noteq> None"
    and "pod \<in> set (scheduled_pods (sw_scheduling w))" "prs_inv (sw_estimation w)"
    and "get_payload_hash p = Inr h" "get_payload_config p = Inr c" "pv_get p ''svoe'' = Inr (PDict sv)"
  shows "if dict_has (event_queues_per_pod (sw_watcher w)) pod
    then \<exists>w'. done_estimation_callback str (ThreeTuple reschedule reason (Some p)) pod w = Inr w' \<and>
      mset (queued_pods (sw_scheduling w')) + mset (pods_done (sw_scheduling w')) + mset (scheduled_pods (sw_scheduling w'))
      = mset (queued_pods (sw_scheduling w)) + mset (pods_done (sw_scheduling w)) + mset (scheduled_pods (sw_scheduling w)) \<and>
      pod \<notin> set (scheduled_pods (sw_scheduling w')) \<and> \<not> global_lock (sw_scheduling w') \<and>
      result_types (sw_estimation w') pod = [] \<and> phase_types (sw_estimation w') pod = [] \<and>
      \<not> dict_has (event_queues_per_pod (sw_watcher w')) pod
    else done_estimation_callback str (ThreeTuple reschedule reason (Some p)) pod w = Inl KeyError"
proof -
  from record_stats_ok [OF assms(4-7), of str pod] obtain s1 where
    s1: "record_stats str pod p w = Inr (w\<lparr>sw_stats := s1\<rparr>)" by blast
  define sched where "sched = clean_phase_result_events pod (clean_wait_event pod (sw_scheduling w))"
  define est where "est = clean_phase_result_events pod (clean_wait_event pod (sw_estimation w))"
  have i: "ss_inv sched" "pods_work_queue sched \<noteq> None" "pod \<in> set (scheduled_pods sched)"
    using assms(1-3) by (simp_all add: sched_def)
  have q: "queued_pods sched = queued_pods (sw_scheduling w)" "pods_done sched = pods_done (sw_scheduling w)"
    "scheduled_pods sched = scheduled_pods (sw_scheduling w)"
    by (simp_all add: sched_def queued_pods_def)
  show ?thesis
  proof (cases "dict_has (event_queues_per_pod (sw_watcher w)) pod")
    case False
    then have "clean_states pod (w\<lparr>sw_stats := s1\<rparr>) = Inl KeyError"
      by (simp add: clean_states_def dict_del_def)
    then show ?thesis using s1 False by (simp add: done_estimation_callback_def)
  next
    case True
    obtain st where st: "reschedule_or_complete pod reschedule reason sched = Inr st"
      "mset (queued_pods st) + mset (pods_done st) + mset (scheduled_pods st) =
       mset (queued_pods sched) + mset (pods_done sched) + mset (scheduled_pods sched)"
      "pod \<notin> set (scheduled_pods st)" "\<not> global_lock st"
      by (rule reschedule_or_complete_ok [OF i])
    define w2 where "w2 = w\<lparr>sw_stats := s1, sw_estimation := est, sw_scheduling := sched,
        sw_watcher := (sw_watcher w)\<lparr>event_queues_per_pod := AList.delete pod (event_queues_per_pod (sw_watcher w))\<rparr>\<rparr>"
    have "clean_states pod (w\<lparr>sw_stats := s1\<rparr>) = Inr w2"
      using True by (simp add: clean_states_def dict_del_def w2_def est_def sched_def)
    then have "done_estimation_callback str (ThreeTuple reschedule reason (Some p)) pod w =
        Inr (w2\<lparr>sw_scheduling := st\<rparr>)"
      using s1 st(1) by (simp add: done_estimation_callback_def w2_def)
    moreover have "result_types est pod = []" "phase_types est pod = []"
      by (simp_all add: est_def results.types_clean phases.types_clean)
    ultimately show ?thesis using True st(2-4) q by (simp add: w2_def)
  qed
qed

definition running_world :: sched_world where
  "running_world =
     \<lparr>sw_scheduling = init_scheduling_state\<lparr>pods_work_queue := Some [''pod-b''],
        pods_per_node := [(''node-1'', [''pod-a''])], pods_priorities := [(''pod-a'', 10000)]\<rparr>,
      sw_estimation = init_phase_result_state, sw_stats = init_stats,
      sw_watcher = init_kube_watcher_state\<lparr>event_queues_per_pod := [(''pod-a'', [])]\<rparr>\<rparr>"

theorem completion_cleans_up_witness:
  "\<exists>w'. done_estimation_callback (\<lambda>_. []) (ThreeTuple True None (Some sample_payload)) ''pod-a'' running_world = Inr w' \<and>
     ''pod-a'' \<notin> set (scheduled_pods (sw_scheduling w'))"
proof -
  have "ss_inv (sw_scheduling running_world)"
    by (simp add: ss_inv_def running_world_def init_scheduling_state_def scheduled_pods_def dict_wf_def)
  moreover have "pods_work_queue (sw_scheduling running_world) \<noteq> None"
    "''pod-a'' \<in> set (scheduled_pods (sw_scheduling running_world))"
    by (simp_all add: running_world_def scheduled_pods_def)
  moreover have "prs_inv (sw_estimation running_world)"
    using init_prs_inv by (simp add: running_world_def)
  moreover have "get_payload_hash sample_payload = Inr (PStr ''6d1641b134'')"
    "get_payload_config sample_payload = Inr (PDict [(''BINANCE'', PDict [(''l2_book'', PList [PStr ''BTC-USDT''])])])"
    "pv_get sample_payload ''svoe'' = Inr (PDict [])" by code_simp+
  moreover have "dict_has (event_queues_per_pod (sw_watcher running_world)) ''pod-a''"
    by (simp add: running_world_def dict_has_def)
  ultimately show ?thesis
    using completion_cleans_up [of running_world "''pod-a''" sample_payload _ _ "[]" "\<lambda>_. []" True None] by fastforce
qed

end
