(* ===== verification/Metrics.thy ===== *)
theory Metrics
  imports Events PyString KubeApi
begin

text \<open>
  \<^verbatim>\<open>perf/metrics/metrics.py\<close>, the Prometheus queries of a pod, the retries of one query and the
  collection of all results; \<^verbatim>\<open>perf/runner.py\<close>, which pods to run again; and the groupings of
  \<^verbatim>\<open>resources-estimation-out/result_analyzer.py\<close>. The queries run concurrently in one event loop
  and store their results in one dictionary; the model takes them in any order.
\<close>

section \<open>Queries\<close>

definition AGG_ABSENT :: string where "AGG_ABSENT = ''absent''"
definition AGG_AVG :: string where "AGG_AVG = ''avg''"
definition AGG_MAX :: string where "AGG_MAX = ''max''"
definition AGG_MIN :: string where "AGG_MIN = ''min''"
definition AGG_P95 :: string where "AGG_P95 = ''p95''"
definition AGG_P50 :: string where "AGG_P50 = ''p50''"

definition over_time :: "string \<Rightarrow> string \<Rightarrow> int \<Rightarrow> int \<Rightarrow> string" where
  "over_time f metric duration_s offset_s =
     f @ metric @ ''['' @ show_int duration_s @ ''s] offset '' @ show_int offset_s @ ''s)''"

definition query_function :: "string \<Rightarrow> string \<Rightarrow> int \<Rightarrow> int \<Rightarrow> string pyres" where
  "query_function agg metric duration_s offset_s =
     (if agg = AGG_ABSENT then
        Inr (''avg_over_time((max(absent('' @ metric @ '')) or vector(0))['' @ show_int duration_s @
             ''s:] offset '' @ show_int offset_s @ ''s)'')
      else if agg = AGG_AVG then Inr (over_time ''avg_over_time('' metric duration_s offset_s)
      else if agg = AGG_MAX then Inr (over_time ''max_over_time('' metric duration_s offset_s)
      else if agg = AGG_MIN then Inr (over_time ''min_over_time('' metric duration_s offset_s)
      else if agg = AGG_P95 then Inr (over_time ''quantile_over_time(0.95, '' metric duration_s offset_s)
      else if agg = AGG_P50 then Inr (over_time ''quantile_over_time(0.5, '' metric duration_s offset_s)
      else Inl KeyError)"

definition DATA_FEED_HEALTH :: string where "DATA_FEED_HEALTH = ''df_health''"
definition MS_MEMORY :: string where "MS_MEMORY = ''metrics_server_mem''"
definition MS_CPU :: string where "MS_CPU = ''metrics_server_cpu''"

definition quoted :: "string \<Rightarrow> string" where
  "quoted s = [CHR 0x22] @ s @ [CHR 0x22]"

definition df_health_metric :: "string \<Rightarrow> string \<Rightarrow> string \<Rightarrow> string" where
  "df_health_metric exchange data_type symbol =
     ''svoe_data_feed_collector_conn_health_gauge{exchange='' @ quoted exchange @ '', symbol='' @
     quoted symbol @ '', data_type='' @ quoted data_type @ ''}''"

definition ms_metric :: "string \<Rightarrow> string \<Rightarrow> string \<Rightarrow> string" where
  "ms_metric metric_type pod container =
     (if metric_type = MS_MEMORY then ''kube_metrics_server_pods_mem{pod_name='' else ''kube_metrics_server_pods_cpu{pod_name='')
     @ quoted pod @ '', pod_container_name='' @ quoted container @ ''}''"

type_synonym queries = "(string, string list) dict"

definition add_query :: "string pyres \<Rightarrow> string list \<Rightarrow> queries \<Rightarrow> queries pyres" where
  "add_query q location d = bindE q (\<lambda>text. Inr (dict_put text location d))"

text \<open>The payload's configuration: exchange, data type, symbols.\<close>

type_synonym payload_config = "(string, (string, string list) dict) dict"

definition get_data_feed_health_metrics_queries :: "payload_config \<Rightarrow> int \<Rightarrow> queries pyres" where
  "get_data_feed_health_metrics_queries config offset =
     foldE (\<lambda>(exchange, data_type, symbol, agg).
        add_query (query_function agg (df_health_metric exchange data_type symbol) RUN_ESTIMATION_FOR offset)
          [DATA_FEED_HEALTH, data_type, symbol, agg])
       (concat (map (\<lambda>(exchange, per_type).
          concat (map (\<lambda>(data_type, symbols).
            concat (map (\<lambda>symbol. map (\<lambda>agg. (exchange, data_type, symbol, agg)) [AGG_ABSENT, AGG_AVG]) symbols))
          per_type)) config)) []"

definition window_key :: "int \<Rightarrow> string" where
  "window_key window = (if window = RUN_ESTIMATION_FOR then ''run_duration'' else show_int window @ ''s'')"

definition perf_series :: "(string \<times> string \<times> string \<times> int) list" where
  "perf_series =
     concat (map (\<lambda>container.
       concat (map (\<lambda>metric_type.
         concat (map (\<lambda>agg. map (\<lambda>window. (container, metric_type, agg, window)) [RUN_ESTIMATION_FOR, 600])
           [AGG_ABSENT, AGG_AVG, AGG_MIN, AGG_MAX, AGG_P95, AGG_P50])) [MS_CPU, MS_MEMORY]))
       [DATA_FEED_CONTAINER, REDIS_CONTAINER, REDIS_EXPORTER_CONTAINER])"

definition get_perf_kube_metrics_server_queries :: "string \<Rightarrow> int \<Rightarrow> queries pyres" where
  "get_perf_kube_metrics_server_queries pod_name offset =
     foldE (\<lambda>(container, metric_type, agg, window).
        add_query (query_function agg (ms_metric metric_type pod_name container) window offset)
          [metric_type, container, window_key window, agg])
       perf_series []"

definition metric_queries :: "string \<Rightarrow> payload_config \<Rightarrow> int \<Rightarrow> queries pyres" where
  "metric_queries pod_name config elapsed =
     (let offset = (if elapsed < 1 then 1 else elapsed)
      in bindE (get_data_feed_health_metrics_queries config offset) (\<lambda>health.
         bindE (get_perf_kube_metrics_server_queries pod_name offset) (\<lambda>perf.
           Inr (fold (\<lambda>(k, v). dict_put k v) perf health))))"

section \<open>One query with retries\<close>

text \<open>An attempt meets the flag \<open>is_stopping\<close> (read first), and a response or an exception, given by
  its text.\<close>

record fetch_attempt =
  fa_stopping :: bool
  fa_response :: "string + pyval"

definition FETCH_RETRIES :: nat where "FETCH_RETRIES = 10"

text \<open>\<open>(metric value, error)\<close> of a response; a malformed one raises inside the \<open>try\<close>, which turns into
  an error text.\<close>

definition read_response :: "(py_error \<Rightarrow> string) \<Rightarrow> string + pyval \<Rightarrow> pyval option \<Rightarrow> pyval option \<times> pyval" where
  "read_response exc_text r metric_value =
     (case r of
        Inl text \<Rightarrow> (metric_value, PStr text)
      | Inr resp \<Rightarrow>
          (case bindE (pv_get resp ''status'') (\<lambda>status.
                if \<not> py_eq status (PStr ''success'')
                then bindE (pv_get resp ''error'') (\<lambda>e. Inr (metric_value, e))
                else
                  bindE (bindE (pv_get resp ''data'') (\<lambda>d. bindE (pv_get d ''result'') pv_items)) (\<lambda>rs.
                  bindE (py_nth rs 0) (\<lambda>r0.
                  bindE (bindE (pv_get r0 ''value'') pv_items) (\<lambda>vs.
                  bindE (py_nth vs 1) (\<lambda>v. Inr (Some v, PNone))))))
           of Inr x \<Rightarrow> x | Inl e \<Rightarrow> (metric_value, PStr (exc_text e))))"

fun fetch_loop :: "(py_error \<Rightarrow> string) \<Rightarrow> (nat \<Rightarrow> fetch_attempt) \<Rightarrow> nat \<Rightarrow> nat \<Rightarrow> pyval option \<Rightarrow> pyval \<Rightarrow> pyval option \<times> pyval" where
  "fetch_loop exc_text attempts 0 k v e = (v, e)"
| "fetch_loop exc_text attempts (Suc left) k v e =
     (if fa_stopping (attempts k) \<and> k \<ge> 5 then (v, e)
      else
        let (v', e') = read_response exc_text (fa_response (attempts k)) v
        in if truthy e' then fetch_loop exc_text attempts left (Suc k) v' e' else (v', e'))"

definition fetch_metric :: "(py_error \<Rightarrow> string) \<Rightarrow> (nat \<Rightarrow> fetch_attempt) \<Rightarrow> pyval option \<times> pyval" where
  "fetch_metric exc_text attempts = fetch_loop exc_text attempts FETCH_RETRIES 0 None PNone"

text \<open>The result is stored as a pair, Python's tuple as a list of two.\<close>

definition metric_result :: "pyval option \<times> pyval \<Rightarrow> pyval" where
  "metric_result r = PList [case fst r of None \<Rightarrow> PNone | Some v \<Rightarrow> v, snd r]"

definition store_result :: "string list \<Rightarrow> pyval option \<times> pyval \<Rightarrow> pydict \<Rightarrow> pydict pyres" where
  "store_result location r res =
     nested_set (if truthy (snd r) then dict_put ''has_errors'' (PBool True) res else res) location (metric_result r)"

text \<open>All queries, in the order in which they finish.\<close>

definition collect_results :: "(string list \<times> (pyval option \<times> pyval)) list \<Rightarrow> pydict pyres" where
  "collect_results finished = foldE (\<lambda>(location, r). store_result location r) finished []"

section \<open>Facts\<close>

lemma fetch_loop_attempts:
  assumes "\<And>i. k \<le> i \<Longrightarrow> i < k + n \<Longrightarrow> attempts i = attempts' i"
  shows "fetch_loop exc_text attempts n k v e = fetch_loop exc_text attempts' n k v e"
  using assms
proof (induction n arbitrary: k v e)
  case 0
  then show ?case by simp
next
  case (Suc n)
  have a: "attempts k = attempts' k" using Suc.prems by simp
  have "fetch_loop exc_text attempts n (Suc k) v e = fetch_loop exc_text attempts' n (Suc k) v e" for v e
    using Suc.prems by (intro Suc.IH) auto
  then show ?case by (simp add: a split_def Let_def)
qed

lemma fetch_loop_success:
  assumes "n > 0" "\<not> (fa_stopping (attempts k) \<and> k \<ge> 5)"
    "read_response exc_text (fa_response (attempts k)) v = (w, PNone)"
  shows "fetch_loop exc_text attempts n k v e = (w, PNone)"
  using assms by (cases n) (auto simp: Let_def)

text \<open>Paths of one length under distinct locations do not disturb one another.\<close>

lemma paths_part:
  "length p = length q \<Longrightarrow> p \<noteq> q \<Longrightarrow> \<exists>r a ks b js. p = r @ a # ks \<and> q = r @ b # js \<and> a \<noteq> b"
proof (induction p q rule: list_induct2)
  case Nil
  then show ?case by simp
next
  case (Cons x xs y ys)
  show ?case
  proof (cases "x = y")
    case False
    then show ?thesis by (intro exI [of _ "[]"]) auto
  next
    case True
    then have "xs \<noteq> ys" using Cons.prems by simp
    from Cons.IH [OF this] obtain r a ks b js where p: "xs = r @ a # ks" "ys = r @ b # js" "a \<noteq> b" by blast
    have "x # xs = (x # r) @ a # ks \<and> y # ys = (x # r) @ b # js \<and> a \<noteq> b" using p True by simp
    then show ?thesis by blast
  qed
qed

lemma nested_set_distinct:
  assumes "nested_set d p v = Inr d'" "length p = length q" "p \<noteq> q"
  shows "nested_get d' q = nested_get d q"
proof -
  from paths_part [OF assms(2,3)] obtain r a ks b js where
    "p = r @ a # ks" "q = r @ b # js" "a \<noteq> b" by blast
  then show ?thesis using nested_set_other [of d r a ks v d' b js] assms(1) by simp
qed

text \<open>Every dictionary the results go through has dictionaries down to depth three.\<close>

fun deep :: "nat \<Rightarrow> pydict \<Rightarrow> bool" where
  "deep 0 d = True"
| "deep (Suc n) d = list_all (\<lambda>(k, v). case v of PDict i \<Rightarrow> deep n i | _ \<Rightarrow> k = ''has_errors'') d"

lemma update_subset: "set (AList.update k v d) \<subseteq> insert (k, v) (set d)"
  by (induction d) auto

lemma deep_put:
  assumes "deep (Suc n) d" "deep n i"
  shows "deep (Suc n) (dict_put k (PDict i) d)"
  using assms update_subset [of k "PDict i" d] by (auto simp: list_all_iff)

lemma deep_put_leaf: "deep 0 (dict_put k v d)"
  by simp

lemma deep_put_error: "deep n d \<Longrightarrow> deep n (dict_put ''has_errors'' (PBool True) d)"
  using update_subset [of "''has_errors''" "PBool True" d] by (cases n) (auto simp: list_all_iff)

lemma deep_get:
  assumes "deep (Suc n) d" "k \<noteq> ''has_errors''" "map_of d k = Some v"
  obtains i where "v = PDict i" "deep n i"
  using assms map_of_SomeD [OF assms(3)] by (auto simp: list_all_iff split: pyval.splits)

lemma nested_set_deep:
  "deep n d \<Longrightarrow> length p = Suc n \<Longrightarrow> ''has_errors'' \<notin> set p \<Longrightarrow>
   \<exists>d'. nested_set d p v = Inr d' \<and> deep n d'"
proof (induction n arbitrary: d p)
  case 0
  then obtain k where "p = [k]" by (cases p) auto
  then show ?case by simp
next
  case (Suc n)
  then obtain k k2 ks where p: "p = k # k2 # ks" by (cases p; cases "tl p") auto
  have rest: "length (k2 # ks) = Suc n" "''has_errors'' \<notin> set (k2 # ks)" "k \<noteq> ''has_errors''"
    using Suc.prems p by auto
  show ?case
  proof (cases "map_of d k")
    case None
    have "deep n []" by (cases n) simp_all
    from Suc.IH [OF this rest(1,2)] obtain i where "nested_set [] (k2 # ks) v = Inr i" "deep n i" by blast
    then show ?thesis using None p deep_put [OF Suc.prems(1)] by auto
  next
    case (Some w)
    from deep_get [OF Suc.prems(1) rest(3) Some] obtain i0 where i0: "w = PDict i0" "deep n i0" .
    from Suc.IH [OF i0(2) rest(1,2)] obtain i where "nested_set i0 (k2 # ks) v = Inr i" "deep n i" by blast
    then show ?thesis using Some p i0(1) deep_put [OF Suc.prems(1)] by auto
  qed
qed

lemma nested_set_has_errors:
  "nested_set d p v = Inr d' \<Longrightarrow> ''has_errors'' \<notin> set p \<Longrightarrow> dict_has d' ''has_errors'' = dict_has d ''has_errors''"
  by (induction d p v rule: nested_set.induct) (auto split: option.splits pyval.splits)

lemma nested_get_error_put:
  "p \<noteq> [] \<Longrightarrow> hd p \<noteq> ''has_errors'' \<Longrightarrow> nested_get (dict_put ''has_errors'' b d) p = nested_get d p"
  by (induction d p rule: nested_get.induct) auto

lemma store_result_ok:
  assumes "deep n d" "length loc = Suc n" "''has_errors'' \<notin> set loc"
  shows "\<exists>d'. store_result loc r d = Inr d' \<and> deep n d' \<and>
    nested_get d' loc = Some (metric_result r) \<and>
    (\<forall>q. length q = Suc n \<longrightarrow> q \<noteq> loc \<longrightarrow> ''has_errors'' \<notin> set q \<longrightarrow> nested_get d' q = nested_get d q) \<and>
    (dict_has d' ''has_errors'' \<longleftrightarrow> dict_has d ''has_errors'' \<or> truthy (snd r))"
proof -
  define d0 where "d0 = (if truthy (snd r) then dict_put ''has_errors'' (PBool True) d else d)"
  have "deep n d0" using assms(1) deep_put_error by (simp add: d0_def)
  from nested_set_deep [OF this assms(2,3), of "metric_result r"] obtain d' where
    d': "nested_set d0 loc (metric_result r) = Inr d'" "deep n d'" by blast
  have same: "nested_get d0 q = nested_get d q" if "length q = Suc n" "''has_errors'' \<notin> set q" for q
    using that nested_get_error_put [of q "PBool True" d] by (cases q) (auto simp: d0_def)
  have "nested_get d' q = nested_get d q" if "length q = Suc n" "q \<noteq> loc" "''has_errors'' \<notin> set q" for q
    using nested_set_distinct [OF d'(1), of q] that assms(2) same by simp
  moreover have "dict_has d' ''has_errors'' \<longleftrightarrow> dict_has d ''has_errors'' \<or> truthy (snd r)"
    using nested_set_has_errors [OF d'(1) assms(3)] by (auto simp: d0_def)
  ultimately show ?thesis
    using d' nested_set_get [OF d'(1)] by (auto simp: store_result_def d0_def)
qed

lemma collect_results_ok:
  assumes "list_all (\<lambda>(loc, r). length loc = Suc n \<and> ''has_errors'' \<notin> set loc) fs" "deep n d"
    "distinct (map fst fs)"
  shows "\<exists>d'. foldE (\<lambda>(location, r). store_result location r) fs d = Inr d' \<and>
    (\<forall>(loc, r)\<in>set fs. nested_get d' loc = Some (metric_result r)) \<and>
    (\<forall>q. length q = Suc n \<longrightarrow> q \<notin> fst ` set fs \<longrightarrow> ''has_errors'' \<notin> set q \<longrightarrow> nested_get d' q = nested_get d q) \<and>
    (dict_has d' ''has_errors'' \<longleftrightarrow> dict_has d ''has_errors'' \<or> (\<exists>(loc, r)\<in>set fs. truthy (snd r)))"
  using assms
proof (induction fs arbitrary: d)
  case Nil
  then show ?case by simp
next
  case (Cons f fs)
  obtain loc r where f: "f = (loc, r)" by (cases f)
  have l: "length loc = Suc n" "''has_errors'' \<notin> set loc" using Cons.prems(1) f by auto
  from store_result_ok [OF Cons.prems(2) l, of r] obtain d1 where
    d1: "store_result loc r d = Inr d1" "deep n d1" "nested_get d1 loc = Some (metric_result r)"
      "\<forall>q. length q = Suc n \<longrightarrow> q \<noteq> loc \<longrightarrow> ''has_errors'' \<notin> set q \<longrightarrow> nested_get d1 q = nested_get d q"
      "dict_has d1 ''has_errors'' \<longleftrightarrow> dict_has d ''has_errors'' \<or> truthy (snd r)" by blast
  have p: "list_all (\<lambda>(loc, r). length loc = Suc n \<and> ''has_errors'' \<notin> set loc) fs" "distinct (map fst fs)"
    "loc \<notin> fst ` set fs"
    using Cons.prems f by auto
  from Cons.IH [OF p(1) d1(2) p(2)] obtain d' where
    d': "foldE (\<lambda>(location, r). store_result location r) fs d1 = Inr d'"
      "\<forall>(loc, r)\<in>set fs. nested_get d' loc = Some (metric_result r)"
      "\<forall>q. length q = Suc n \<longrightarrow> q \<notin> fst ` set fs \<longrightarrow> ''has_errors'' \<notin> set q \<longrightarrow> nested_get d' q = nested_get d1 q"
      "dict_has d' ''has_errors'' \<longleftrightarrow> dict_has d1 ''has_errors'' \<or> (\<exists>(loc, r)\<in>set fs. truthy (snd r))" by blast
  have "nested_get d' loc = Some (metric_result r)" using d'(3) l p(3) d1(3) by simp
  then show ?case
    using f d1 d' by (intro exI [of _ d']) auto
qed

lemma query_keys_4:
  "get_perf_kube_metrics_server_queries pod_name offset = Inr qs \<Longrightarrow> loc \<in> snd ` set qs \<Longrightarrow> length loc = 4"
proof -
  assume qs: "get_perf_kube_metrics_server_queries pod_name offset = Inr qs" and loc: "loc \<in> snd ` set qs"
  have "\<forall>loc\<in>snd ` set qs. length loc = 4"
  proof (rule foldE_invariant [where I = "\<lambda>d. \<forall>loc\<in>snd ` set d. length loc = 4", OF qs [unfolded get_perf_kube_metrics_server_queries_def]])
    fix x and s s' :: queries
    assume I: "\<forall>loc\<in>snd ` set s. length loc = 4"
      and step: "(case x of (container, metric_type, agg, window) \<Rightarrow>
        add_query (query_function agg (ms_metric metric_type pod_name container) window offset)
          [metric_type, container, window_key window, agg]) s = Inr s'"
    obtain c m a w where x: "x = (c, m, a, w)" by (cases x)
    from step obtain k where k: "s' = dict_put k [m, c, window_key w, a] s" by (auto simp: x add_query_def)
    show "\<forall>loc\<in>snd ` set s'. length loc = 4"
    proof
      fix loc assume "loc \<in> snd ` set s'"
      then have "loc = [m, c, window_key w, a] \<or> loc \<in> snd ` set s"
        using update_values [of k "[m, c, window_key w, a]" s] unfolding k by blast
      then show "length loc = 4" using I by auto
    qed
  qed simp
  then show "length loc = 4" using loc by blast
qed

lemma fetch_metric_first_success:
  "read_response exc_text (fa_response (attempts 0)) None = (w, PNone) \<Longrightarrow> fetch_metric exc_text attempts = (w, PNone)"
  unfolding fetch_metric_def by (rule fetch_loop_success) (simp_all add: FETCH_RETRIES_def)

section \<open>Properties\<close>

text \<open>Collecting the results of queries stored at distinct locations of one length never raises,
  whatever the order in which the queries finish: every location holds its query's result, and the
  error mark is set exactly when some query ended with an error.\<close>

theorem all_metrics_collected:
  assumes "list_all (\<lambda>(loc, r). length loc = Suc n \<and> ''has_errors'' \<notin> set loc) finished"
    "distinct (map fst finished)"
    "mset finished' = mset finished"
  shows "\<exists>res. collect_results finished' = Inr res \<and>
    (\<forall>(loc, r)\<in>set finished. nested_get res loc = Some (metric_result r)) \<and>
    (dict_has res ''has_errors'' \<longleftrightarrow> (\<exists>(loc, r)\<in>set finished. truthy (snd r)))"
proof -
  have s: "set finished' = set finished" using assms(3) by (metis set_mset_mset)
  have "mset (map fst finished') = mset (map fst finished)" using assms(3) by simp
  then have d: "distinct (map fst finished')" using assms(2) by (metis mset_eq_imp_distinct_iff)
  have l: "list_all (\<lambda>(loc, r). length loc = Suc n \<and> ''has_errors'' \<notin> set loc) finished'"
    using assms(1) by (simp add: list_all_iff s)
  have "deep n []" by (cases n) simp_all
  from collect_results_ok [OF l this d] obtain res where
    "foldE (\<lambda>(location, r). store_result location r) finished' [] = Inr res"
    "\<forall>(loc, r)\<in>set finished'. nested_get res loc = Some (metric_result r)"
    "dict_has res ''has_errors'' \<longleftrightarrow> dict_has ([] :: pydict) ''has_errors'' \<or> (\<exists>(loc, r)\<in>set finished'. truthy (snd r))" by blast
  then show ?thesis by (intro exI [of _ res]) (simp add: collect_results_def s)
qed

theorem all_metrics_collected_witness:
  "\<exists>res. collect_results
       [([''metrics_server_cpu'', ''redis'', ''600s'', ''p50''], (None, PStr ''timeout'')),
        ([''metrics_server_cpu'', ''redis'', ''600s'', ''max''], (Some (PInt 3), PNone))] = Inr res \<and>
     nested_get res [''metrics_server_cpu'', ''redis'', ''600s'', ''max''] = Some (PList [PInt 3, PNone]) \<and>
     dict_has res ''has_errors''"
  using all_metrics_collected [of 3
      "[([''metrics_server_cpu'', ''redis'', ''600s'', ''max''], (Some (PInt 3), PNone)),
        ([''metrics_server_cpu'', ''redis'', ''600s'', ''p50''], (None, PStr ''timeout''))]"
      "[([''metrics_server_cpu'', ''redis'', ''600s'', ''p50''], (None, PStr ''timeout'')),
        ([''metrics_server_cpu'', ''redis'', ''600s'', ''max''], (Some (PInt 3), PNone))]"]
  by (auto simp: metric_result_def numeral_eq_Suc)

end
