(* ===== verification/Runner.thy ===== *)
theory Runner
  imports Metrics Stats
begin

text \<open>
  \<^verbatim>\<open>perf/runner.py\<close>: which pods a re-run selects, and the order of the start and the stop of the
  parts; \<^verbatim>\<open>resources-estimation-out/result_analyzer.py\<close>: the groupings of a saved run. The statistics
  are here what \<open>json.load\<close> returns.
\<close>

section \<open>Runs again\<close>

definition pod_name_of :: "pyval \<Rightarrow> string pyres" where
  "pod_name_of item = bindE (pv_get item ''pod_name'') (\<lambda>v. case v of PStr s \<Rightarrow> Inr s | _ \<Rightarrow> Inl TypeError)"

definition missing_metric_ss :: "pydict \<Rightarrow> string list pyres" where
  "missing_metric_ss loaded =
     bindE (mapE (\<lambda>(h, item).
       bindE (pod_name_of item) (\<lambda>pod_name.
       bindE (pv_has item ''metrics'') (\<lambda>has.
         Inr (if \<not> has then [ss_name_from_pod_name pod_name] else [])))) loaded) (\<lambda>xs. Inr (concat xs))"

text \<open>The order of \<open>list(set(a) - set(b))\<close> is not defined; the model keeps the order of \<open>a\<close>.\<close>

definition missing_queried_ss :: "string list \<Rightarrow> pydict \<Rightarrow> string list pyres" where
  "missing_queried_ss queried_pods loaded =
     bindE (mapE (\<lambda>(h, item). pod_name_of item) loaded) (\<lambda>processed_pods.
       Inr (map ss_name_from_pod_name (filter (\<lambda>p. p \<notin> set processed_pods) (remdups queried_pods))))"

definition rerun_subset :: "string list option \<Rightarrow> pydict \<Rightarrow> string list pyres" where
  "rerun_subset queried loaded =
     bindE (missing_metric_ss loaded) (\<lambda>missing_metric_pods.
       case queried of
         None \<Rightarrow> Inr missing_metric_pods
       | Some queried_pods \<Rightarrow>
           bindE (missing_queried_ss queried_pods loaded) (\<lambda>missing_queried_pods.
             Inr (missing_metric_pods @ missing_queried_pods)))"

section \<open>Start and stop\<close>

text \<open>The calls the runner makes, in their order. \<open>self.scheduler.run\<close> is an attribute access, not a
  call, so it leaves no event.\<close>

datatype runner_call =
    PromStart
  | WatcherStart "string list"
  | PromStop
  | SchedulerStop
  | StatsSave
  | WatcherStop "string list"

record runner =
  rn_running :: bool
  rn_prom :: bool
  rn_scheduler :: bool
  rn_watcher :: bool
  rn_calls :: "runner_call list"

definition init_runner :: runner where
  "init_runner = \<lparr>rn_running = False, rn_prom = True, rn_scheduler = True, rn_watcher = True, rn_calls = []\<rparr>"

definition call :: "runner_call \<Rightarrow> runner \<Rightarrow> runner" where
  "call c r = r\<lparr>rn_calls := rn_calls r @ [c]\<rparr>"

definition RUNNER_CHANNELS :: "string list" where
  "RUNNER_CHANNELS = [''CHANNEL_NODE_OBJECT_EVENTS'', ''CHANNEL_NODE_KUBE_EVENTS'',
     ''CHANNEL_DF_POD_OBJECT_EVENTS'', ''CHANNEL_DF_POD_KUBE_EVENTS'']"

definition runner_cleanup :: "runner \<Rightarrow> runner" where
  "runner_cleanup r =
     (if \<not> rn_running r then r
      else
        let r = r\<lparr>rn_running := False\<rparr>;
            r = (if rn_prom r then (call PromStop r)\<lparr>rn_prom := False\<rparr> else r);
            r = (if rn_scheduler r then (call SchedulerStop r)\<lparr>rn_scheduler := False\<rparr> else r);
            r = call StatsSave r
        in if rn_watcher r then (call (WatcherStop RUNNER_CHANNELS) r)\<lparr>rn_watcher := False\<rparr> else r)"

text \<open>\<open>signals i\<close> says whether a signal, whose handler is \<open>cleanup\<close>, arrives at point \<open>i\<close>: while the
  connection starts, and after the watcher's start. The handler drops the scheduler, so that the
  attribute access after it raises.\<close>

definition runner_run :: "(nat \<Rightarrow> bool) \<Rightarrow> bool \<Rightarrow> runner \<Rightarrow> unit pyres \<times> runner" where
  "runner_run signals minikube r =
     (let r = r\<lparr>rn_running := True\<rparr>;
          r = (if minikube then call PromStart r else r);
          r = (if signals 0 then runner_cleanup r else r)
      in if \<not> rn_running r then (Inr (), r)
         else
           let r = call (WatcherStart RUNNER_CHANNELS) r;
               r = (if signals 1 then runner_cleanup r else r)
           in if \<not> rn_scheduler r then (Inl AttributeError, r)
              else (Inr (), runner_cleanup r))"

section \<open>Groupings of a saved run\<close>

definition UNKNOWN_SYMBOL_DISTRIBUTION :: string where
  "UNKNOWN_SYMBOL_DISTRIBUTION = ''UNKNOWN_SYMBOL_DISTRIBUTION''"

definition AGGS :: "string list" where
  "AGGS = [''absent'', ''avg'', ''max'', ''min'', ''p95'', ''p50'']"

type_synonym groups = "(pyval, pydict) dict"

definition distribution_of :: "pyval \<Rightarrow> pyval pyres" where
  "distribution_of item =
     bindE (pv_has item ''symbol_distribution'') (\<lambda>has.
       if has then pv_get item ''symbol_distribution'' else Inr (PStr UNKNOWN_SYMBOL_DISTRIBUTION))"

definition hashable :: "pyval \<Rightarrow> bool" where
  "hashable v = (case v of PList _ \<Rightarrow> False | PDict _ \<Rightarrow> False | _ \<Rightarrow> True)"

definition group_item :: "string \<times> pyval \<Rightarrow> groups \<Rightarrow> groups pyres" where
  "group_item p g =
     (case p of (key, item) \<Rightarrow>
        bindE (distribution_of item) (\<lambda>sd.
          if \<not> hashable sd then Inl TypeError
          else
            let g = (if dict_has g sd then g else dict_put sd [] g)
            in bindE (dict_lookup g sd) (\<lambda>d. Inr (dict_put sd (dict_put key item d) g))))"

definition load_date_and_group_by_distribution :: "pydict \<Rightarrow> groups \<Rightarrow> groups pyres" where
  "load_date_and_group_by_distribution loaded g = foldE group_item loaded g"

definition no_metrics :: "groups \<Rightarrow> pyval list pyres" where
  "no_metrics g =
     bindE (mapE (\<lambda>(sd, d).
       bindE (mapE (\<lambda>(key, item).
         bindE (pv_has item ''metrics'') (\<lambda>has.
           if \<not> has then bindE (pv_get item ''pod_name'') (\<lambda>n. Inr [n]) else Inr [])) d)
       (\<lambda>xs. Inr (concat xs))) g) (\<lambda>xs. Inr (concat xs))"

text \<open>A symbol parsed by \<open>cryptofeed\<close>'s \<open>str_to_symbol\<close>, a parameter: type and normalized name.\<close>

record feed_symbol =
  fs_type :: string
  fs_normalized :: string

definition first_exchange :: "pyval \<Rightarrow> (string \<times> pyval) pyres" where
  "first_exchange payload_config =
     bindE (first_key payload_config) (\<lambda>exchange.
     bindE (pv_get payload_config exchange) (\<lambda>channels. Inr (exchange, channels)))"

definition symbols_at :: "(pyval \<Rightarrow> feed_symbol pyres) \<Rightarrow> pyval \<Rightarrow> string \<Rightarrow> feed_symbol list pyres" where
  "symbols_at str_to_symbol channels channel =
     bindE (bindE (pv_get channels channel) pv_items) (\<lambda>symbols_str. mapE str_to_symbol symbols_str)"

definition pv_path :: "pyval \<Rightarrow> string list \<Rightarrow> pyval pyres" where
  "pv_path v ks = foldE (\<lambda>k w. pv_get w k) ks v"

definition metric_or :: "pyval \<Rightarrow> pyval \<Rightarrow> string \<Rightarrow> pyval pyres" where
  "metric_or dflt ms agg =
     bindE (bindE (pv_get ms agg) pv_items) (\<lambda>pair.
     bindE (py_nth pair 0) (\<lambda>v. Inr (if v = PNone then dflt else v)))"

type_synonym perf_item = "feed_symbol list \<times> pyval list"

definition add_to_group :: "'k \<Rightarrow> 'v \<Rightarrow> ('k, 'v list) dict \<Rightarrow> ('k, 'v list) dict" where
  "add_to_group key item grouped =
     (case map_of grouped key of
        Some items \<Rightarrow> dict_put key (items @ [item]) grouped
      | None \<Rightarrow> dict_put key [item] grouped)"

definition perf_item_of :: "(pyval \<Rightarrow> feed_symbol pyres) \<Rightarrow> pyval \<Rightarrow> (string \<times> perf_item) pyres" where
  "perf_item_of str_to_symbol pod_data =
     bindE (pv_get pod_data ''payload_config'') (\<lambda>payload_config.
     bindE (first_exchange payload_config) (\<lambda>(exchange, channels).
     bindE (first_key channels) (\<lambda>first_channel.
     bindE (symbols_at str_to_symbol channels first_channel) (\<lambda>symbols.
     bindE (py_nth symbols 0) (\<lambda>s0.
     bindE (pv_has pod_data ''metrics'') (\<lambda>has.
     bindE (if \<not> has then Inr (map (\<lambda>_. PInt 0) AGGS)
            else bindE (pv_path pod_data [''metrics'', ''metrics_server_mem'', ''data-feed-container'', ''run_duration''])
                   (\<lambda>ms. mapE (metric_or (PInt 0) ms) AGGS)) (\<lambda>values.
       Inr (exchange @ ''.'' @ fs_type s0, symbols, values))))))))"

definition grouped_perf_metrics :: "(pyval \<Rightarrow> feed_symbol pyres) \<Rightarrow> groups \<Rightarrow> pyval \<Rightarrow> (string, perf_item list) dict pyres" where
  "grouped_perf_metrics str_to_symbol g symbol_distribution =
     bindE (dict_lookup g symbol_distribution) (\<lambda>d.
       foldE (\<lambda>(k, pod_data) grouped.
         bindE (perf_item_of str_to_symbol pod_data) (\<lambda>(key, item). Inr (add_to_group key item grouped))) d [])"

text \<open>\<open>to_float\<close> is Python's \<open>float\<close> on the strings Prometheus returns.\<close>

type_synonym health_item = "string \<times> rat \<times> rat"

definition health_reading :: "(pyval \<Rightarrow> rat pyres) \<Rightarrow> pyval \<Rightarrow> string \<Rightarrow> rat pyres" where
  "health_reading to_float ms agg =
     bindE (metric_or PNone ms agg) (\<lambda>v. if v \<noteq> PNone then to_float v else Inr (- 1))"

definition health_item_of :: "(pyval \<Rightarrow> rat pyres) \<Rightarrow> pyval \<Rightarrow> string \<Rightarrow> feed_symbol \<Rightarrow> health_item pyres" where
  "health_item_of to_float pod_data channel symbol =
     bindE (pv_has pod_data ''metrics'') (\<lambda>has.
       if \<not> has then Inr (fs_normalized symbol, - 1, - 1)
       else
         bindE (pv_path pod_data [''metrics'', ''df_health'', channel, fs_normalized symbol]) (\<lambda>ms.
         bindE (health_reading to_float ms ''absent'') (\<lambda>absent.
         bindE (health_reading to_float ms ''avg'') (\<lambda>avg. Inr (fs_normalized symbol, absent, avg)))))"

definition add_health :: "string \<Rightarrow> string \<Rightarrow> health_item \<Rightarrow> (string, (string, health_item list) dict) dict \<Rightarrow>
    (string, (string, health_item list) dict) dict" where
  "add_health key channel item grouped =
     (case map_of grouped key of
        Some per_channel \<Rightarrow> dict_put key (add_to_group channel item per_channel) grouped
      | None \<Rightarrow> dict_put key [(channel, [item])] grouped)"

definition grouped_health_metrics :: "(pyval \<Rightarrow> feed_symbol pyres) \<Rightarrow> (pyval \<Rightarrow> rat pyres) \<Rightarrow> groups \<Rightarrow> pyval \<Rightarrow>
    (string, (string, health_item list) dict) dict pyres" where
  "grouped_health_metrics str_to_symbol to_float g symbol_distribution =
     bindE (dict_lookup g symbol_distribution) (\<lambda>d.
       foldE (\<lambda>(k, pod_data) grouped.
         bindE (pv_get pod_data ''payload_config'') (\<lambda>payload_config.
         bindE (first_exchange payload_config) (\<lambda>(exchange, channels).
         bindE (case channels of PDict cs \<Rightarrow> Inr (map fst cs) | _ \<Rightarrow> Inl AttributeError) (\<lambda>names.
           foldE (\<lambda>channel grouped.
             bindE (symbols_at str_to_symbol channels channel) (\<lambda>symbols.
               foldE (\<lambda>symbol grouped.
                 bindE (health_item_of to_float pod_data channel symbol) (\<lambda>item.
                   Inr (add_health (exchange @ ''.'' @ fs_type symbol) channel item grouped))) symbols grouped))
             names grouped)))) d [])"

section \<open>Selecting pods\<close>

text \<open>The test of one item; a payload's symbols and the wanted ones are compared as sets.\<close>

definition item_selected :: "string list \<Rightarrow> pyval list \<Rightarrow> pyval list \<Rightarrow> pyval \<Rightarrow> bool pyres" where
  "item_selected exchanges distrs symbols item =
     bindE (pv_get item ''payload_config'') (\<lambda>payload.
     bindE (first_exchange payload) (\<lambda>(exchange, channels).
     bindE (first_key channels) (\<lambda>first_channel.
     bindE (bindE (pv_get channels first_channel) pv_items) (\<lambda>s.
     bindE (if distrs = [] then Inr True
            else bindE (pv_get item ''symbol_distribution'') (\<lambda>sd. Inr (sd \<in> set distrs))) (\<lambda>ok_distr.
       Inr (ok_distr \<and> (exchanges = [] \<or> exchange \<in> set exchanges) \<and>
            (symbols = [] \<or> set s \<inter> set symbols \<noteq> {})))))))"

definition get_items :: "string list \<Rightarrow> pyval list \<Rightarrow> pyval list \<Rightarrow> pydict \<Rightarrow> pyval list pyres" where
  "get_items exchanges distrs symbols loaded =
     foldE (\<lambda>exchange res.
       foldE (\<lambda>distr res.
         foldE (\<lambda>(key, item) res.
           bindE (item_selected exchanges distrs symbols item) (\<lambda>ok.
             if ok then bindE (pv_get item ''payload_hash'') (\<lambda>h. Inr (res @ [h])) else Inr res))
         loaded res) distrs res) exchanges []"

section \<open>Facts\<close>

lemma get_items_inner:
  assumes "mapE (\<lambda>(key, item). bindE (item_selected exchanges distrs symbols item) (\<lambda>ok.
      if ok then bindE (pv_get item ''payload_hash'') (\<lambda>h. Inr [h]) else Inr [])) loaded = Inr hs"
  shows "foldE (\<lambda>(key, item) res.
           bindE (item_selected exchanges distrs symbols item) (\<lambda>ok.
             if ok then bindE (pv_get item ''payload_hash'') (\<lambda>h. Inr (res @ [h])) else Inr res)) loaded res
         = Inr (res @ concat hs)"
  using assms
proof (induction loaded arbitrary: res hs)
  case Nil
  then show ?case by simp
next
  case (Cons p loaded)
  obtain key item where p: "p = (key, item)" by (cases p)
  from Cons.prems obtain ok where ok: "item_selected exchanges distrs symbols item = Inr ok"
    by (auto simp: p)
  show ?case
  proof (cases ok)
    case True
    with Cons.prems ok obtain h hs' where h: "pv_get item ''payload_hash'' = Inr h" "hs = [h] # hs'"
      "mapE (\<lambda>(key, item). bindE (item_selected exchanges distrs symbols item) (\<lambda>ok.
        if ok then bindE (pv_get item ''payload_hash'') (\<lambda>h. Inr [h]) else Inr [])) loaded = Inr hs'"
      by (auto simp: p)
    then show ?thesis using True ok Cons.IH [OF h(3)] by (simp add: p)
  next
    case False
    with Cons.prems ok obtain hs' where h: "hs = [] # hs'"
      "mapE (\<lambda>(key, item). bindE (item_selected exchanges distrs symbols item) (\<lambda>ok.
        if ok then bindE (pv_get item ''payload_hash'') (\<lambda>h. Inr [h]) else Inr [])) loaded = Inr hs'"
      by (auto simp: p)
    then show ?thesis using False ok Cons.IH [OF h(2)] by (simp add: p)
  qed
qed

lemma foldE_repeat:
  "(\<And>s. f s = Inr (s @ ys)) \<Longrightarrow> foldE (\<lambda>x s. f s) xs s = Inr (s @ concat (replicate (length xs) ys))"
  by (induction xs arbitrary: s) simp_all

lemma concat_replicate_times:
  "concat (replicate m (concat (replicate n ys))) = concat (replicate (m * n) ys)"
  by (induction m) (simp_all add: replicate_add)

lemma get_items_value:
  assumes "mapE (\<lambda>(key, item). bindE (item_selected exchanges distrs symbols item) (\<lambda>ok.
      if ok then bindE (pv_get item ''payload_hash'') (\<lambda>h. Inr [h]) else Inr [])) loaded = Inr hs"
  shows "get_items exchanges distrs symbols loaded =
    Inr (concat (replicate (length exchanges * length distrs) (concat hs)))"
proof -
  have inner: "foldE (\<lambda>distr res. foldE (\<lambda>(key, item) res.
           bindE (item_selected exchanges distrs symbols item) (\<lambda>ok.
             if ok then bindE (pv_get item ''payload_hash'') (\<lambda>h. Inr (res @ [h])) else Inr res)) loaded res) distrs res
      = Inr (res @ concat (replicate (length distrs) (concat hs)))" for res
    by (rule foldE_repeat) (rule get_items_inner [OF assms])
  show ?thesis unfolding get_items_def
    by (subst foldE_repeat [OF inner]) (simp add: concat_replicate_times)
qed

lemma strip_ss: "pod_name_from_ss_name (ss_name_from_pod_name p) = p"
  by (simp add: pod_name_from_ss_name_def ss_name_from_pod_name_def)

lemma load_pods_from_missing:
  assumes "list_all (\<lambda>spec. \<exists>p. ss_name spec = ss_name_from_pod_name p) specs"
    "loaded_pods = load_pod_names_from_ss specs None"
    "set missing \<subseteq> set loaded_pods"
  shows "set (load_pod_names_from_ss specs (Some (map ss_name_from_pod_name missing))) =
    (if missing = [] then set loaded_pods else set missing)"
proof -
  define names where "names = map ss_name (filter should_estimate specs)"
  have n: "\<exists>p. n = ss_name_from_pod_name p" if "n \<in> set names" for n
    using assms(1) that by (auto simp: names_def list_all_iff)
  have lp: "loaded_pods = map pod_name_from_ss_name names"
    by (simp add: assms(2) load_pod_names_from_ss_def names_def)
  have "pod_name_from_ss_name ` {n \<in> set names. n \<in> ss_name_from_pod_name ` set missing} = set missing"
  proof (intro set_eqI iffI)
    fix p assume "p \<in> pod_name_from_ss_name ` {n \<in> set names. n \<in> ss_name_from_pod_name ` set missing}"
    then show "p \<in> set missing" by (auto simp: strip_ss)
  next
    fix p assume p: "p \<in> set missing"
    then obtain n where "n \<in> set names" "p = pod_name_from_ss_name n" using assms(3) lp by auto
    moreover from this n obtain q where "n = ss_name_from_pod_name q" by blast
    ultimately have "n = ss_name_from_pod_name p" by (simp add: strip_ss)
    then show "p \<in> pod_name_from_ss_name ` {n \<in> set names. n \<in> ss_name_from_pod_name ` set missing}"
      using \<open>n \<in> set names\<close> p \<open>p = pod_name_from_ss_name n\<close> by blast
  qed
  then show ?thesis
    using lp by (auto simp: load_pod_names_from_ss_def Let_def names_def [symmetric])
qed

section \<open>Properties\<close>

text \<open>Selecting the pods a saved run does not mention: with stateful sets named after their pods, the
  names \<^verbatim>\<open>missing_queried_ss\<close> returns are distinct and, given back to the listing as the subset, select
  exactly the queried pods that are not in the saved statistics; but when none is missing, the
  empty subset selects every queried pod again.\<close>

theorem rerun_selects_missing:
  assumes "list_all (\<lambda>spec. \<exists>p. ss_name spec = ss_name_from_pod_name p) specs"
    "queried = load_pod_names_from_ss specs None"
    "mapE (\<lambda>(h, item). pod_name_of item) loaded = Inr processed"
  shows "\<exists>missing. missing_queried_ss queried loaded = Inr missing \<and> distinct missing \<and>
    set (load_pod_names_from_ss specs (Some missing)) =
      (if set queried \<subseteq> set processed then set queried else set queried - set processed)"
proof -
  define ms where "ms = filter (\<lambda>p. p \<notin> set processed) (remdups queried)"
  have ms: "set ms = set queried - set processed" by (auto simp: ms_def)
  have "ss_name_from_pod_name p = ss_name_from_pod_name q \<Longrightarrow> p = q" for p q
    by (metis strip_ss)
  then have "distinct (map ss_name_from_pod_name ms)"
    by (auto simp: distinct_map ms_def intro: inj_onI)
  moreover have "missing_queried_ss queried loaded = Inr (map ss_name_from_pod_name ms)"
    using assms(3) by (simp add: missing_queried_ss_def ms_def)
  moreover have "ms = [] \<longleftrightarrow> set queried \<subseteq> set processed"
    using ms by (metis Diff_eq_empty_iff set_empty)
  ultimately show ?thesis
    using load_pods_from_missing [OF assms(1,2), of ms] ms by (intro exI [of _ "map ss_name_from_pod_name ms"]) auto
qed

definition two_specs :: "ss_spec list" where
  "two_specs =
     [\<lparr>ss_name = ''feed-a-ss'', ss_containers = [\<lparr>cs_name = DATA_FEED_CONTAINER, cs_limits = None, cs_requests = None\<rparr>]\<rparr>,
      \<lparr>ss_name = ''feed-b-ss'', ss_containers = [\<lparr>cs_name = DATA_FEED_CONTAINER, cs_limits = None, cs_requests = None\<rparr>]\<rparr>]"

lemma two_specs_names: "list_all (\<lambda>spec. \<exists>p. ss_name spec = ss_name_from_pod_name p) two_specs"
  by (auto simp: two_specs_def ss_name_from_pod_name_def intro: exI [of _ "''feed-a''"] exI [of _ "''feed-b''"])

theorem rerun_selects_missing_witness:
  "\<exists>missing. missing_queried_ss [''feed-a'', ''feed-b''] [(''feed-a'', PDict [(''pod_name'', PStr ''feed-a'')])] = Inr missing \<and>
     set (load_pod_names_from_ss two_specs (Some missing)) = {''feed-b''}"
proof -
  have q: "[''feed-a'', ''feed-b''] = load_pod_names_from_ss two_specs None"
    by (simp add: two_specs_def load_pod_names_from_ss_def should_estimate_def pod_name_from_ss_name_def)
  have p: "mapE (\<lambda>(h, item). pod_name_of item) [(''feed-a'', PDict [(''pod_name'', PStr ''feed-a'')])] = Inr [''feed-a'']"
    by (simp add: pod_name_of_def dict_lookup_def)
  from rerun_selects_missing [OF two_specs_names q p] show ?thesis by fastforce
qed

text \<open>\<^verbatim>\<open>get_items\<close> on a well-formed saved run lists the hashes of the items that pass the filters once
  per pair of a wanted exchange and a wanted distribution, so that an empty list of exchanges or of
  distributions, which the filters mean as no restriction, yields nothing.\<close>

theorem get_items_repeats:
  assumes "\<And>key item. (key, item) \<in> set loaded \<Longrightarrow>
      item_selected exchanges distrs symbols item = Inr (wanted item) \<and> pv_get item ''payload_hash'' = Inr (hash_of item)"
  shows "get_items exchanges distrs symbols loaded =
    Inr (concat (replicate (length exchanges * length distrs) (map hash_of (filter wanted (map snd loaded)))))"
proof -
  have "mapE (\<lambda>(key, item). bindE (item_selected exchanges distrs symbols item) (\<lambda>ok.
      if ok then bindE (pv_get item ''payload_hash'') (\<lambda>h. Inr [h]) else Inr [])) loaded =
    Inr (map (\<lambda>(key, item). if wanted item then [hash_of item] else []) loaded)"
    using assms by (induction loaded) fastforce+
  moreover have "concat (map (\<lambda>(key, item). if wanted item then [hash_of item] else []) loaded) =
      map hash_of (filter wanted (map snd loaded))"
    by (induction loaded) auto
  ultimately show ?thesis by (simp add: get_items_value)
qed

definition saved_item :: pyval where
  "saved_item = PDict
     [(''payload_config'', PDict [(''BINANCE'', PDict [(''l2_book'', PList [PStr ''ETC-USDT''])])]),
      (''payload_hash'', PStr ''6d16''), (''symbol_distribution'', PStr ''EQUAL_BUCKETS'')]"

theorem get_items_repeats_witness:
  "get_items [''BINANCE'', ''PHEMEX''] [PStr ''EQUAL_BUCKETS''] [PStr ''ETC-USDT''] [(''feed'', saved_item)] =
     Inr [PStr ''6d16'', PStr ''6d16'']"
proof -
  have "item_selected [''BINANCE'', ''PHEMEX''] [PStr ''EQUAL_BUCKETS''] [PStr ''ETC-USDT''] saved_item = Inr True"
    "pv_get saved_item ''payload_hash'' = Inr (PStr ''6d16'')" by code_simp+
  then have "get_items [''BINANCE'', ''PHEMEX''] [PStr ''EQUAL_BUCKETS''] [PStr ''ETC-USDT''] [(''feed'', saved_item)] =
    Inr (concat (replicate (length [''BINANCE'', ''PHEMEX''] * length [PStr ''EQUAL_BUCKETS''])
      (map (\<lambda>_. PStr ''6d16'') (filter (\<lambda>_. True) (map snd [(''feed'', saved_item)])))))"
    by (intro get_items_repeats) auto
  then show ?thesis by (simp add: numeral_2_eq_2)
qed

text \<open>Whether or not a signal interrupts the start, the stops run once each and in one order, the
  scheduler's before the statistics are saved and the watcher's last, and stopping again does
  nothing; the scheduler is never run; a signal after the watcher's start makes the run raise.\<close>

theorem runner_stops_once:
  "rn_calls (snd (runner_run signals minikube init_runner)) =
     (if minikube then [PromStart] else []) @
     (if signals 0 then [] else [WatcherStart RUNNER_CHANNELS]) @
     [PromStop, SchedulerStop, StatsSave, WatcherStop RUNNER_CHANNELS] \<and>
   runner_cleanup (snd (runner_run signals minikube init_runner)) = snd (runner_run signals minikube init_runner) \<and>
   (fst (runner_run signals minikube init_runner) = Inl AttributeError \<longleftrightarrow> \<not> signals 0 \<and> signals 1)"
  by (simp add: runner_run_def runner_cleanup_def init_runner_def call_def Let_def)

end
