(* ===== verification/Wallets.thy ===== *)
theory Wallets
  imports PyString
begin

text \<open>
  \<^verbatim>\<open>backtester/models\<close>: instruments and their two assets, wallets with the amounts locked for orders,
  the portfolio, orders and trades. A Python float is a rational number here, so that sums are exact.
  A wallet is shared between the portfolio, the strategy and the simulator; since the portfolio finds
  it by its asset, which never changes, the model refers to it by that asset.
\<close>

section \<open>Instruments\<close>

record AssetInstrument =
  ai_exchange :: string
  ai_instrument_type :: string
  ai_asset :: string

record Instrument =
  in_exchange :: string
  in_instrument_type :: string
  in_symbol :: string

definition parse_symbol :: "string \<Rightarrow> (string \<times> string) pyres" where
  "parse_symbol symbol =
     (let s = py_split ''-'' symbol
      in bindE (py_nth s 0) (\<lambda>base. bindE (py_nth s 1) (\<lambda>quote. Inr (base, quote))))"

definition compose_symbol :: "string \<Rightarrow> string \<Rightarrow> string" where
  "compose_symbol base quote = base @ ''-'' @ quote"

definition to_asset_instruments :: "Instrument \<Rightarrow> (AssetInstrument \<times> AssetInstrument) pyres" where
  "to_asset_instruments i =
     bindE (parse_symbol (in_symbol i)) (\<lambda>(base, quote).
       Inr (\<lparr>ai_exchange = in_exchange i, ai_instrument_type = in_instrument_type i, ai_asset = base\<rparr>,
            \<lparr>ai_exchange = in_exchange i, ai_instrument_type = in_instrument_type i, ai_asset = quote\<rparr>))"

definition from_asset_instruments :: "AssetInstrument \<Rightarrow> AssetInstrument \<Rightarrow> Instrument pyres" where
  "from_asset_instruments base quote =
     (if ai_exchange base \<noteq> ai_exchange quote then Inl ValueError
      else if ai_instrument_type base \<noteq> ai_instrument_type quote then Inl ValueError
      else Inr \<lparr>in_exchange = ai_exchange base, in_instrument_type = ai_instrument_type base,
                in_symbol = compose_symbol (ai_asset base) (ai_asset quote)\<rparr>)"

section \<open>Wallets\<close>

record Wallet =
  asset_instrument :: AssetInstrument
  balance :: rat
  locked :: "(string, rat) dict"

definition lock_from_balance :: "string \<Rightarrow> rat \<Rightarrow> Wallet \<Rightarrow> Wallet pyres" where
  "lock_from_balance order_id qty w =
     (if qty > balance w then Inl ValueError
      else if dict_has (locked w) order_id then Inl ValueError
      else Inr (w\<lparr>locked := dict_put order_id qty (locked w), balance := balance w - qty\<rparr>))"

definition unlock :: "string \<Rightarrow> Wallet \<Rightarrow> (rat \<times> Wallet) pyres" where
  "unlock order_id w =
     (case map_of (locked w) order_id of
        None \<Rightarrow> Inl ValueError
      | Some qty \<Rightarrow> Inr (qty, w\<lparr>locked := AList.delete order_id (locked w)\<rparr>))"

definition deposit :: "rat \<Rightarrow> Wallet \<Rightarrow> Wallet" where
  "deposit qty w = w\<lparr>balance := balance w + qty\<rparr>"

definition unlock_to_balance :: "string \<Rightarrow> Wallet \<Rightarrow> Wallet pyres" where
  "unlock_to_balance order_id w = bindE (unlock order_id w) (\<lambda>(qty, w'). Inr (deposit qty w'))"

definition withdraw :: "rat \<Rightarrow> Wallet \<Rightarrow> Wallet pyres" where
  "withdraw qty w = (if qty > balance w then Inl ValueError else Inr (w\<lparr>balance := balance w - qty\<rparr>))"

definition locked_balance :: "Wallet \<Rightarrow> rat" where
  "locked_balance w = fold (\<lambda>(order_id, qty) res. res + qty) (locked w) 0"

definition free_balance :: "Wallet \<Rightarrow> rat" where
  "free_balance w = balance w"

definition total_balance :: "Wallet \<Rightarrow> rat" where
  "total_balance w = balance w + locked_balance w"

definition get_free_and_locked_balance :: "Wallet \<Rightarrow> rat \<times> rat" where
  "get_free_and_locked_balance w = (free_balance w, locked_balance w)"

section \<open>The portfolio\<close>

record Portfolio =
  wallets :: "Wallet list"
  portfolio_quote :: AssetInstrument

fun find_wallet :: "AssetInstrument \<Rightarrow> Wallet list \<Rightarrow> Wallet option \<Rightarrow> Wallet pyres" where
  "find_wallet a [] found = (case found of None \<Rightarrow> Inl ValueError | Some w \<Rightarrow> Inr w)"
| "find_wallet a (w # ws) found =
     (if asset_instrument w = a then
        (if found \<noteq> None then Inl ValueError else find_wallet a ws (Some w))
      else find_wallet a ws found)"

definition get_wallet :: "Portfolio \<Rightarrow> AssetInstrument \<Rightarrow> Wallet pyres" where
  "get_wallet p a = find_wallet a (wallets p) None"

text \<open>An operation on the wallet found in the portfolio changes it there.\<close>

definition put_wallet :: "Wallet \<Rightarrow> Portfolio \<Rightarrow> Portfolio" where
  "put_wallet w p = p\<lparr>wallets := map (\<lambda>v. if asset_instrument v = asset_instrument w then w else v) (wallets p)\<rparr>"

section \<open>Orders and trades\<close>

datatype OrderStatus = PENDING | OPEN | CANCELLED | PARTIALLY_FILLED | FILLED

datatype OrderType = LIMIT | MARKET

datatype OrderSide = BUY | SELL

record Order =
  order_id :: string
  order_type :: OrderType
  side :: OrderSide
  instrument :: Instrument
  price :: rat
  quantity :: rat
  status :: OrderStatus

record Trade =
  trade_id :: string
  tr_order_id :: string
  tr_timestamp :: rat
  tr_instrument :: Instrument
  tr_side :: OrderSide
  trade_type :: OrderType
  tr_quantity :: rat
  tr_price :: rat
  commission :: rat

text \<open>\<open>make_order\<close> of \<^verbatim>\<open>backtester/strategy/base.py\<close>; \<open>oid\<close> is the fresh \<open>uuid4\<close>.\<close>

definition make_order :: "string \<Rightarrow> OrderSide \<Rightarrow> OrderType \<Rightarrow> Instrument \<Rightarrow> rat \<Rightarrow> rat \<Rightarrow> Portfolio \<Rightarrow> (Order \<times> Portfolio) pyres" where
  "make_order oid sd t i qty pr p =
     bindE (to_asset_instruments i) (\<lambda>(base_instr, quote_instr).
     bindE (get_wallet p base_instr) (\<lambda>base_wallet.
     bindE (get_wallet p quote_instr) (\<lambda>quote_wallet.
     bindE (case sd of
              BUY \<Rightarrow> lock_from_balance oid (pr * qty) quote_wallet
            | SELL \<Rightarrow> lock_from_balance oid qty base_wallet) (\<lambda>w.
       Inr (\<lparr>order_id = oid, order_type = t, side = sd, instrument = i, price = pr, quantity = qty,
             status = OPEN\<rparr>, put_wallet w p)))))"

section \<open>Facts about instruments\<close>

text \<open>A symbol of exactly two parts is put together again as it was; of a longer one the tail is lost.\<close>

lemma parse_compose: "CHR ''-'' \<notin> set base \<Longrightarrow> CHR ''-'' \<notin> set quote \<Longrightarrow>
    parse_symbol (compose_symbol base quote) = Inr (base, quote)"
  by (simp add: parse_symbol_def compose_symbol_def py_split_char py_split_char_absent py_nth_def)

lemma parse_compose_longer: "CHR ''-'' \<notin> set base \<Longrightarrow> CHR ''-'' \<notin> set quote \<Longrightarrow>
    parse_symbol (base @ ''-'' @ quote @ ''-'' @ rest) = Inr (base, quote)"
  by (simp add: parse_symbol_def py_split_char py_nth_def)

lemma parse_no_dash: "CHR ''-'' \<notin> set s \<Longrightarrow> parse_symbol s = Inl IndexError"
  by (simp add: parse_symbol_def py_split_char_absent py_nth_def)

section \<open>Facts about wallets\<close>

lemma locked_balance_sum: "locked_balance w = sum_list (map snd (locked w))"
proof -
  have "fold (\<lambda>(order_id, qty) res. res + qty) d r = r + sum_list (map snd d)" for d :: "(string, rat) dict" and r
    by (induction d arbitrary: r) (auto simp: ac_simps)
  then show ?thesis by (simp add: locked_balance_def)
qed

lemma sum_put_new: "map_of d k = None \<Longrightarrow> sum_list (map snd (AList.update k v d)) = sum_list (map snd d) + (v :: rat)"
  by (induction d) (auto split: if_splits)

lemma sum_delete:
  "distinct (map fst d) \<Longrightarrow> map_of d k = Some v \<Longrightarrow>
   sum_list (map snd (AList.delete k d)) = sum_list (map snd d) - (v :: rat)"
proof (induction d)
  case Nil
  then show ?case by simp
next
  case (Cons p d)
  show ?case
  proof (cases "fst p = k")
    case True
    then have "k \<notin> fst ` set d" using Cons.prems(1) by auto
    then show ?thesis using True Cons.prems(2) by (cases p) (simp add: delete_notin_dom)
  next
    case False
    then show ?thesis using Cons by (cases p) auto
  qed
qed

text \<open>The invariant: one entry per order, nothing negative.\<close>

definition wallet_inv :: "Wallet \<Rightarrow> bool" where
  "wallet_inv w \<longleftrightarrow> dict_wf (locked w) \<and> 0 \<le> balance w \<and> dict_all (\<lambda>q. 0 \<le> q) (locked w)"

lemma lock_spec:
  assumes "lock_from_balance oid qty w = Inr w'"
  shows "asset_instrument w' = asset_instrument w \<and> balance w' = balance w - qty \<and> qty \<le> balance w \<and>
    \<not> dict_has (locked w) oid \<and> locked w' = dict_put oid qty (locked w) \<and> total_balance w' = total_balance w"
  using assms
  by (auto simp: lock_from_balance_def total_balance_def locked_balance_sum sum_put_new dict_has_def split: if_splits)

lemma lock_inv: "wallet_inv w \<Longrightarrow> 0 \<le> qty \<Longrightarrow> lock_from_balance oid qty w = Inr w' \<Longrightarrow> wallet_inv w'"
  using lock_spec [of oid qty w w'] by (auto simp: wallet_inv_def)

lemma unlock_spec:
  assumes "unlock oid w = Inr (qty, w')" "wallet_inv w"
  shows "asset_instrument w' = asset_instrument w \<and> balance w' = balance w \<and> map_of (locked w) oid = Some qty \<and>
    locked w' = AList.delete oid (locked w) \<and> total_balance w' = total_balance w - qty \<and> 0 \<le> qty \<and> wallet_inv w'"
proof -
  have q: "map_of (locked w) oid = Some qty" "w' = w\<lparr>locked := AList.delete oid (locked w)\<rparr>"
    using assms(1) by (auto simp: unlock_def split: option.splits)
  have "0 \<le> qty" using assms(2) q(1) dict_all_get [of "\<lambda>q. 0 \<le> q" "locked w" oid qty] by (simp add: wallet_inv_def)
  then show ?thesis
    using q assms(2) by (auto simp: wallet_inv_def total_balance_def locked_balance_sum sum_delete dict_wf_def distinct_delete)
qed

lemma deposit_spec: "asset_instrument (deposit q w) = asset_instrument w" "balance (deposit q w) = balance w + q"
  "locked (deposit q w) = locked w" "total_balance (deposit q w) = total_balance w + q"
  by (simp_all add: deposit_def total_balance_def locked_balance_def)

lemma deposit_inv: "wallet_inv w \<Longrightarrow> 0 \<le> q \<Longrightarrow> wallet_inv (deposit q w)"
  by (simp add: wallet_inv_def deposit_spec)

text \<open>Unlocking what was locked gives the wallet back.\<close>

lemma lock_unlock: "lock_from_balance oid qty w = Inr w' \<Longrightarrow> unlock_to_balance oid w' = Inr w"
  by (auto simp: lock_from_balance_def unlock_to_balance_def unlock_def deposit_def dict_has_iff
      delete_update_same delete_idem split: if_splits)

section \<open>Facts about portfolios\<close>

abbreviation assets :: "Portfolio \<Rightarrow> AssetInstrument list" where
  "assets p \<equiv> map asset_instrument (wallets p)"

lemma find_wallet_Some: "find_wallet a ws (Some v) = (if filter (\<lambda>w. asset_instrument w = a) ws = [] then Inr v else Inl ValueError)"
  by (induction ws) auto

lemma find_wallet_None: "find_wallet a ws None = Inr w \<longleftrightarrow> filter (\<lambda>w. asset_instrument w = a) ws = [w]"
  by (induction ws) (auto simp: find_wallet_Some)

lemma filter_one:
  "filter P xs = [w] \<longleftrightarrow> (\<exists>us vs. xs = us @ w # vs \<and> P w \<and> (\<forall>u\<in>set us. \<not> P u) \<and> (\<forall>v\<in>set vs. \<not> P v))"
  unfolding filter_eq_Cons_iff by (metis (no_types, lifting) filter_empty_conv)

lemma get_wallet_filter: "get_wallet p a = Inr w \<longleftrightarrow> filter (\<lambda>w. asset_instrument w = a) (wallets p) = [w]"
  by (simp add: get_wallet_def find_wallet_None)

lemma get_wallet_Inr:
  "get_wallet p a = Inr w \<longleftrightarrow> (\<exists>us vs. wallets p = us @ w # vs \<and> asset_instrument w = a \<and>
     (\<forall>u\<in>set us. asset_instrument u \<noteq> a) \<and> (\<forall>v\<in>set vs. asset_instrument v \<noteq> a))"
  unfolding get_wallet_filter by (rule filter_one)

lemma get_wallet_in: "get_wallet p a = Inr w \<Longrightarrow> w \<in> set (wallets p) \<and> asset_instrument w = a"
  by (auto simp: get_wallet_Inr)

lemma distinct_parts:
  "distinct (map f (us @ w # vs)) \<Longrightarrow> (\<forall>u\<in>set us. f u \<noteq> f w) \<and> (\<forall>v\<in>set vs. f v \<noteq> f w)"
proof -
  assume "distinct (map f (us @ w # vs))"
  then have "f w \<notin> f ` set us" "f w \<notin> f ` set vs" by auto
  then show ?thesis by (metis imageI)
qed

lemma get_wallet_total: "distinct (assets p) \<Longrightarrow> a \<in> set (assets p) \<Longrightarrow> \<exists>w. get_wallet p a = Inr w"
proof -
  assume d: "distinct (assets p)" and "a \<in> set (assets p)"
  then obtain us w vs where "wallets p = us @ w # vs" "asset_instrument w = a" by (auto dest: split_list)
  moreover from this d have "distinct (map asset_instrument (us @ w # vs))" by simp
  ultimately show ?thesis using distinct_parts [of asset_instrument us w vs] unfolding get_wallet_Inr by blast
qed

lemma put_wallet_assets [simp]: "assets (put_wallet w p) = assets p"
  by (auto simp: put_wallet_def)

lemma put_wallet_quote [simp]: "portfolio_quote (put_wallet w p) = portfolio_quote p"
  by (simp add: put_wallet_def)

lemma put_wallet_at:
  assumes "get_wallet p a = Inr w" "asset_instrument w' = a"
  shows "get_wallet (put_wallet w' p) a = Inr w'"
proof -
  from assms(1) obtain us vs where p: "wallets p = us @ w # vs" "asset_instrument w = a"
    "\<forall>u\<in>set us. asset_instrument u \<noteq> a" "\<forall>v\<in>set vs. asset_instrument v \<noteq> a"
    unfolding get_wallet_Inr by blast
  have "map (\<lambda>v. if asset_instrument v = a then w' else v) us = us"
    "map (\<lambda>v. if asset_instrument v = a then w' else v) vs = vs"
    using p by (auto intro!: map_idI)
  then have "wallets (put_wallet w' p) = us @ w' # vs" using p assms(2) by (simp add: put_wallet_def)
  then show ?thesis using p assms(2) unfolding get_wallet_Inr by blast
qed

lemma find_wallet_map:
  "a \<noteq> asset_instrument w \<Longrightarrow>
   find_wallet a (map (\<lambda>v. if asset_instrument v = asset_instrument w then w else v) ws) found = find_wallet a ws found"
  by (induction ws arbitrary: found) auto

lemma put_wallet_other: "a \<noteq> asset_instrument w \<Longrightarrow> get_wallet (put_wallet w p) a = get_wallet p a"
  by (simp add: get_wallet_def put_wallet_def find_wallet_map)

definition portfolio_inv :: "Portfolio \<Rightarrow> bool" where
  "portfolio_inv p \<longleftrightarrow> distinct (assets p) \<and> list_all wallet_inv (wallets p)"

lemma portfolio_inv_get: "portfolio_inv p \<Longrightarrow> get_wallet p a = Inr w \<Longrightarrow> wallet_inv w"
  using get_wallet_in [of p a w] by (auto simp: portfolio_inv_def list_all_iff)

lemma portfolio_inv_put: "portfolio_inv p \<Longrightarrow> wallet_inv w \<Longrightarrow> portfolio_inv (put_wallet w p)"
proof -
  assume "portfolio_inv p" "wallet_inv w"
  then have "list_all wallet_inv (wallets (put_wallet w p))"
    by (auto simp: portfolio_inv_def list_all_iff put_wallet_def)
  then show ?thesis using \<open>portfolio_inv p\<close> unfolding portfolio_inv_def put_wallet_assets by simp
qed

text \<open>The worth of a portfolio at prices per asset; replacing one wallet changes it by that wallet.\<close>

definition worth :: "(AssetInstrument \<Rightarrow> rat) \<Rightarrow> Portfolio \<Rightarrow> rat" where
  "worth prices p = sum_list (map (\<lambda>w. total_balance w * prices (asset_instrument w)) (wallets p))"

lemma worth_put:
  assumes "get_wallet p a = Inr w" "asset_instrument w' = a"
  shows "worth prices (put_wallet w' p) = worth prices p + (total_balance w' - total_balance w) * prices a"
proof -
  from assms(1) obtain us vs where p: "wallets p = us @ w # vs" "asset_instrument w = a"
    "\<forall>u\<in>set us. asset_instrument u \<noteq> a" "\<forall>v\<in>set vs. asset_instrument v \<noteq> a"
    unfolding get_wallet_Inr by blast
  have "map (\<lambda>v. if asset_instrument v = a then w' else v) us = us"
    "map (\<lambda>v. if asset_instrument v = a then w' else v) vs = vs"
    using p by (auto intro!: map_idI)
  then have "wallets (put_wallet w' p) = us @ w' # vs" using p assms(2) by (simp add: put_wallet_def)
  then show ?thesis using p assms(2) by (simp add: worth_def algebra_simps)
qed

text \<open>A made order has locked its cost in the wallet it pays from and changed nothing else.\<close>

definition paying_asset :: "Order \<Rightarrow> AssetInstrument pyres" where
  "paying_asset o' =
     bindE (to_asset_instruments (instrument o')) (\<lambda>(base, quote). Inr (case side o' of BUY \<Rightarrow> quote | SELL \<Rightarrow> base))"

definition order_cost :: "Order \<Rightarrow> rat" where
  "order_cost o' = (case side o' of BUY \<Rightarrow> price o' * quantity o' | SELL \<Rightarrow> quantity o')"

lemma make_order_spec:
  assumes "make_order oid sd t i qty pr p = Inr (ord, p')"
  obtains a w w' where "paying_asset ord = Inr a" "get_wallet p a = Inr w"
    "lock_from_balance oid (order_cost ord) w = Inr w'" "p' = put_wallet w' p"
    "ord = \<lparr>order_id = oid, order_type = t, side = sd, instrument = i, price = pr, quantity = qty, status = OPEN\<rparr>"
proof -
  from assms obtain base quote bw qw w where
    i: "to_asset_instruments i = Inr (base, quote)" "get_wallet p base = Inr bw" "get_wallet p quote = Inr qw"
    and w: "(case sd of BUY \<Rightarrow> lock_from_balance oid (pr * qty) qw | SELL \<Rightarrow> lock_from_balance oid qty bw) = Inr w"
    and o': "ord = \<lparr>order_id = oid, order_type = t, side = sd, instrument = i, price = pr, quantity = qty, status = OPEN\<rparr>"
      "p' = put_wallet w p"
    by (auto simp: make_order_def)
  show ?thesis
    using i w o' by (cases sd) (auto simp: paying_asset_def order_cost_def intro: that)
qed

end
