(* ===== verification/FeatureStream.thy ===== *)
theory FeatureStream
  imports Wallets
begin

text \<open>
  \<^verbatim>\<open>featurizer/feature_stream/feature_stream_generator.py\<close>: the generator a backtest reads. It groups
  the merged input events by timestamp, pushes each into the stream trees of the features that
  consume it, and collects what comes out of the unified stream into one event. A feature is any
  type; the stream library is the parameter \<open>emit\<close>, which says what comes out of the unified stream
  when an input is pushed into the tree of a feature.
\<close>

section \<open>Events\<close>

type_synonym values_dict = "(string, rat) dict"

record 'f DataStreamEvent =
  ev_timestamp :: rat
  ev_receipt_timestamp :: rat
  feature_values :: "('f, values_dict) dict"

text \<open>\<open>data_sources\<close> gives the parameters of the data sources of a feature.\<close>

definition get_instrument_for_feature :: "('f \<Rightarrow> (string, string) dict list) \<Rightarrow> 'f \<Rightarrow> Instrument pyres" where
  "get_instrument_for_feature data_sources f =
     (case data_sources f of
        [params] \<Rightarrow>
          bindE (dict_lookup params ''exchange'') (\<lambda>e.
          bindE (dict_lookup params ''instrument_type'') (\<lambda>t.
          bindE (dict_lookup params ''symbol'') (\<lambda>s.
            Inr \<lparr>in_exchange = e, in_instrument_type = t, in_symbol = s\<rparr>)))
      | _ \<Rightarrow> Inl ValueError)"

definition get_mid_prices_from_event :: "('f \<Rightarrow> (string, string) dict list) \<Rightarrow> 'f DataStreamEvent \<Rightarrow> (Instrument, rat) dict pyres" where
  "get_mid_prices_from_event data_sources e =
     foldE (\<lambda>(f, cols) mid_prices.
       case map_of cols ''mid_price'' of
         None \<Rightarrow> Inl ValueError
       | Some mid_price \<Rightarrow>
           bindE (get_instrument_for_feature data_sources f) (\<lambda>i. Inr (dict_put i mid_price mid_prices)))
       (feature_values e) []"

text \<open>The variant with a feature definition filters by it first.\<close>

definition get_feature_for_instrument :: "('f \<Rightarrow> (string, string) dict list) \<Rightarrow> ('f \<Rightarrow> bool) option \<Rightarrow> 'f DataStreamEvent \<Rightarrow> Instrument \<Rightarrow> 'f option pyres" where
  "get_feature_for_instrument data_sources has_definition e i =
     foldE (\<lambda>(f, cols) found.
       if (case has_definition of None \<Rightarrow> False | Some p \<Rightarrow> \<not> p f) then Inr found
       else
         bindE (get_instrument_for_feature data_sources f) (\<lambda>instr.
           if instr = i then (if found \<noteq> None then Inl ValueError else Inr (Some f)) else Inr found))
       (feature_values e) None"

section \<open>The generator\<close>

record ('f, 'e, 'st) generator =
  streams :: 'st
  cur_out_event :: "'f DataStreamEvent option"
  should_construct_new_out_event :: bool
  input_data_events :: "('f \<times> 'e) list"
  cur_input_event_index :: nat
  sampled_mid_prices :: "(Instrument, (rat \<times> rat) list) dict"
  last_sampled_ts :: "rat option"

definition init_generator :: "'st \<Rightarrow> ('f \<times> 'e) list \<Rightarrow> ('f, 'e, 'st) generator" where
  "init_generator st events =
     \<lparr>streams = st, cur_out_event = None, should_construct_new_out_event = True, input_data_events = events,
      cur_input_event_index = 0, sampled_mid_prices = [], last_sampled_ts = None\<rparr>"

definition has_next :: "('f, 'e, 'st) generator \<Rightarrow> bool" where
  "has_next g \<longleftrightarrow> cur_input_event_index g < length (input_data_events g)"

text \<open>The events from the current one on that share its timestamp, and the index after them.\<close>

fun same_ts :: "('e \<Rightarrow> rat) \<Rightarrow> rat \<Rightarrow> ('f \<times> 'e) list \<Rightarrow> ('f \<times> 'e) list" where
  "same_ts ts_of t [] = []"
| "same_ts ts_of t ((d, e) # es) = (if t = ts_of e then (d, e) # same_ts ts_of t es else [])"

definition pop_input_events :: "('e \<Rightarrow> rat) \<Rightarrow> ('f, 'e, 'st) generator \<Rightarrow> (('f \<times> 'e) list \<times> ('f, 'e, 'st) generator) pyres" where
  "pop_input_events ts_of g =
     (case drop (cur_input_event_index g) (input_data_events g) of
        [] \<Rightarrow> Inl IndexError
      | (d, e) # es \<Rightarrow>
          let res = (d, e) # same_ts ts_of (ts_of e) es
          in Inr (res, g\<lparr>cur_input_event_index := cur_input_event_index g + length res\<rparr>))"

text \<open>The sink of the unified stream. It starts a new event with the first element after the last call
  of \<open>next\<close> returned.\<close>

definition sink_elem :: "'f \<times> values_dict \<Rightarrow> ('f, 'e, 'st) generator \<Rightarrow> ('f, 'e, 'st) generator pyres" where
  "sink_elem l g =
     (case l of (f, event) \<Rightarrow>
        bindE (if should_construct_new_out_event g then
                 bindE (dict_lookup event ''timestamp'') (\<lambda>t.
                 bindE (dict_lookup event ''receipt_timestamp'') (\<lambda>r.
                   Inr (g\<lparr>cur_out_event := Some \<lparr>ev_timestamp = t, ev_receipt_timestamp = r, feature_values = []\<rparr>,
                          should_construct_new_out_event := False\<rparr>)))
               else Inr g) (\<lambda>g1.
        case cur_out_event g1 of
          None \<Rightarrow> Inl AttributeError
        | Some out \<Rightarrow> Inr (g1\<lparr>cur_out_event := Some (out\<lparr>feature_values := dict_put f event (feature_values out)\<rparr>)\<rparr>)))"

definition unified_out_stream :: "('f \<times> values_dict) list option \<Rightarrow> ('f, 'e, 'st) generator \<Rightarrow> ('f, 'e, 'st) generator pyres" where
  "unified_out_stream elems g = (case elems of None \<Rightarrow> Inl ValueError | Some ls \<Rightarrow> foldE sink_elem ls g)"

type_synonym ('f, 'e, 'st) emitter = "'f \<Rightarrow> 'f \<times> 'e \<Rightarrow> 'st \<Rightarrow> 'st \<times> ('f \<times> values_dict) list option list"

text \<open>What the generator is given: the stream library, which data source each feature's tree consumes, the
  features, the timestamp of an input event, and the parameters of a feature's data sources.\<close>

record ('f, 'e, 'st) feed =
  fd_emit :: "('f, 'e, 'st) emitter"
  fd_consumes :: "'f \<Rightarrow> 'f \<Rightarrow> bool"
  fd_features :: "'f list"
  fd_ts_of :: "'e \<Rightarrow> rat"
  fd_data_sources :: "'f \<Rightarrow> (string, string) dict list"

definition push_input :: "('f, 'e, 'st) feed \<Rightarrow> 'f \<times> 'e \<Rightarrow> ('f, 'e, 'st) generator \<Rightarrow> ('f, 'e, 'st) generator pyres" where
  "push_input feed input g =
     foldE (\<lambda>f g.
       if fd_consumes feed f (fst input) then
         (case fd_emit feed f input (streams g) of (st, outs) \<Rightarrow> foldE unified_out_stream outs (g\<lparr>streams := st\<rparr>))
       else Inr g) (fd_features feed) g"

text \<open>The period is a string, so that comparing a difference of timestamps with it raises; but
  \<open>_last_sampled_ts\<close> is never set, and every event is sampled.\<close>

definition sample_mid_prices :: "('f \<Rightarrow> (string, string) dict list) \<Rightarrow> ('f, 'e, 'st) generator \<Rightarrow> ('f, 'e, 'st) generator pyres" where
  "sample_mid_prices data_sources g =
     (case cur_out_event g of
        None \<Rightarrow> Inr g
      | Some e \<Rightarrow>
          (case last_sampled_ts g of
             Some t \<Rightarrow> Inl TypeError
           | None \<Rightarrow>
               bindE (get_mid_prices_from_event data_sources e) (\<lambda>mid_prices.
                 Inr (g\<lparr>sampled_mid_prices :=
                   fold (\<lambda>(i, p) d. case map_of d i of
                           Some ps \<Rightarrow> dict_put i (ps @ [(ev_timestamp e, p)]) d
                         | None \<Rightarrow> dict_put i [(ev_timestamp e, p)] d) mid_prices (sampled_mid_prices g)\<rparr>))))"

definition generator_next :: "('f, 'e, 'st) feed \<Rightarrow> ('f, 'e, 'st) generator \<Rightarrow> ('f DataStreamEvent option \<times> ('f, 'e, 'st) generator) pyres" where
  "generator_next feed g =
     bindE (pop_input_events (fd_ts_of feed) g) (\<lambda>(grouped_input_events, g1).
     bindE (foldE (push_input feed) grouped_input_events g1) (\<lambda>g2.
     bindE (sample_mid_prices (fd_data_sources feed) (g2\<lparr>should_construct_new_out_event := True\<rparr>)) (\<lambda>g3.
       Inr (cur_out_event g3, g3))))"

definition get_cur_mid_prices :: "('f \<Rightarrow> (string, string) dict list) \<Rightarrow> ('f, 'e, 'st) generator \<Rightarrow> (Instrument, rat) dict pyres" where
  "get_cur_mid_prices data_sources g =
     (case cur_out_event g of None \<Rightarrow> Inl AttributeError | Some e \<Rightarrow> get_mid_prices_from_event data_sources e)"

section \<open>Groups of input events\<close>

text \<open>The groups a generator pops until it has none left; popping advances, so this ends.\<close>

lemma same_ts_takeWhile: "same_ts ts_of t es = takeWhile (\<lambda>x. t = ts_of (snd x)) es"
  by (induction es) auto

lemma pop_input_spec:
  assumes "has_next g"
  obtains d e es where "drop (cur_input_event_index g) (input_data_events g) = (d, e) # es"
    "pop_input_events ts_of g = Inr ((d, e) # takeWhile (\<lambda>x. ts_of e = ts_of (snd x)) es,
       g\<lparr>cur_input_event_index := cur_input_event_index g + Suc (length (takeWhile (\<lambda>x. ts_of e = ts_of (snd x)) es))\<rparr>)"
proof -
  from assms obtain d e es where "drop (cur_input_event_index g) (input_data_events g) = (d, e) # es"
    unfolding has_next_def by (metis Cons_nth_drop_Suc surj_pair)
  then show ?thesis by (intro that) (simp_all add: pop_input_events_def same_ts_takeWhile)
qed

fun pop_groups :: "('e \<Rightarrow> rat) \<Rightarrow> nat \<Rightarrow> ('f, 'e, 'st) generator \<Rightarrow> ('f \<times> 'e) list list" where
  "pop_groups ts_of 0 g = []"
| "pop_groups ts_of (Suc n) g =
     (if \<not> has_next g then []
      else case pop_input_events ts_of g of Inl _ \<Rightarrow> [] | Inr (es, g') \<Rightarrow> es # pop_groups ts_of n g')"

definition one_ts :: "('e \<Rightarrow> rat) \<Rightarrow> ('f \<times> 'e) list \<Rightarrow> bool" where
  "one_ts ts_of es \<longleftrightarrow> es \<noteq> [] \<and> (\<forall>x\<in>set es. \<forall>y\<in>set es. ts_of (snd x) = ts_of (snd y))"

lemma pop_groups_spec:
  "length (input_data_events g) - cur_input_event_index g \<le> n \<Longrightarrow>
   concat (pop_groups ts_of n g) = drop (cur_input_event_index g) (input_data_events g) \<and>
   list_all (one_ts ts_of) (pop_groups ts_of n g)"
proof (induction n arbitrary: g)
  case 0
  then show ?case by simp
next
  case (Suc n)
  show ?case
  proof (cases "has_next g")
    case False
    then show ?thesis by (simp add: has_next_def)
  next
    case True
    then obtain d e es where d: "drop (cur_input_event_index g) (input_data_events g) = (d, e) # es" and
      pop: "pop_input_events ts_of g = Inr ((d, e) # takeWhile (\<lambda>x. ts_of e = ts_of (snd x)) es,
       g\<lparr>cur_input_event_index := cur_input_event_index g + Suc (length (takeWhile (\<lambda>x. ts_of e = ts_of (snd x)) es))\<rparr>)"
      by (rule pop_input_spec [where ts_of = ts_of])
    define g' where "g' = g\<lparr>cur_input_event_index := cur_input_event_index g + Suc (length (takeWhile (\<lambda>x. ts_of e = ts_of (snd x)) es))\<rparr>"
    have rest: "drop (cur_input_event_index g') (input_data_events g') = dropWhile (\<lambda>x. ts_of e = ts_of (snd x)) es"
    proof -
      have "drop (cur_input_event_index g') (input_data_events g') =
          drop (length (takeWhile (\<lambda>x. ts_of e = ts_of (snd x)) es)) (tl (drop (cur_input_event_index g) (input_data_events g)))"
        by (simp add: g'_def drop_Suc tl_drop ac_simps)
      then show ?thesis by (simp add: d dropWhile_eq_drop)
    qed
    have "length (input_data_events g') - cur_input_event_index g' \<le> n"
      using Suc.prems by (simp add: g'_def)
    note IH = Suc.IH [OF this]
    have groups: "pop_groups ts_of (Suc n) g = ((d, e) # takeWhile (\<lambda>x. ts_of e = ts_of (snd x)) es) # pop_groups ts_of n g'"
      using True pop unfolding g'_def by simp
    have "one_ts ts_of ((d, e) # takeWhile (\<lambda>x. ts_of e = ts_of (snd x)) es)"
      by (auto simp: one_ts_def dest!: set_takeWhileD)
    then show ?thesis unfolding groups using IH rest d by simp
  qed
qed

section \<open>The generator advances\<close>

definition remaining :: "('f, 'e, 'st) generator \<Rightarrow> nat" where
  "remaining g = length (input_data_events g) - cur_input_event_index g"

definition same_input :: "('f, 'e, 'st) generator \<Rightarrow> ('f, 'e, 'st) generator \<Rightarrow> bool" where
  "same_input g g' \<longleftrightarrow> input_data_events g' = input_data_events g \<and> cur_input_event_index g' = cur_input_event_index g \<and>
     last_sampled_ts g' = last_sampled_ts g \<and> sampled_mid_prices g' = sampled_mid_prices g"

lemma same_input_refl [simp]: "same_input g g"
  by (simp add: same_input_def)

lemma same_input_trans: "same_input g1 g2 \<Longrightarrow> same_input g2 g3 \<Longrightarrow> same_input g1 g3"
  by (simp add: same_input_def)

lemma foldE_same_input:
  assumes "foldE f xs g = Inr g'" "\<And>x g g'. f x g = Inr g' \<Longrightarrow> same_input g g'"
  shows "same_input g g'"
  by (rule foldE_invariant [where I = "same_input g", OF assms(1)]) (auto intro: same_input_trans assms(2))

lemma sink_elem_input: "sink_elem l g = Inr g' \<Longrightarrow> same_input g g'"
  by (auto simp: sink_elem_def same_input_def split: prod.splits if_splits option.splits)

lemma unified_input: "unified_out_stream elems g = Inr g' \<Longrightarrow> same_input g g'"
  by (auto simp: unified_out_stream_def split: option.splits intro: foldE_same_input sink_elem_input)

lemma push_step_input:
  assumes "(if c then (case r of (st, outs) \<Rightarrow> foldE unified_out_stream outs (g\<lparr>streams := st\<rparr>)) else Inr g) = Inr g'"
  shows "same_input g g'"
proof (cases c)
  case False
  then show ?thesis using assms by simp
next
  case True
  obtain st outs where r: "r = (st, outs)" by (cases r)
  then have "same_input (g\<lparr>streams := st\<rparr>) g'"
    using assms True by (auto intro: foldE_same_input unified_input)
  then show ?thesis by (simp add: same_input_def)
qed

lemma push_input_input: "push_input feed input g = Inr g' \<Longrightarrow> same_input g g'"
  unfolding push_input_def by (erule foldE_same_input) (erule push_step_input)

lemma sample_input:
  "sample_mid_prices ds g = Inr g' \<Longrightarrow> input_data_events g' = input_data_events g \<and>
   cur_input_event_index g' = cur_input_event_index g \<and> last_sampled_ts g' = last_sampled_ts g"
  by (auto simp: sample_mid_prices_def split: option.splits)

lemma generator_next_advances:
  assumes "generator_next feed g = Inr (e, g')"
  shows "remaining g' < remaining g \<and> last_sampled_ts g' = last_sampled_ts g"
proof -
  from assms obtain es g1 g2 where p: "pop_input_events (fd_ts_of feed) g = Inr (es, g1)"
    "foldE (push_input feed) es g1 = Inr g2"
    "sample_mid_prices (fd_data_sources feed) (g2\<lparr>should_construct_new_out_event := True\<rparr>) = Inr g'"
    by (auto simp: generator_next_def)
  have "same_input g1 g2" using p(2) push_input_input by (rule foldE_same_input)
  moreover have "cur_input_event_index g < cur_input_event_index g1" "input_data_events g1 = input_data_events g"
    "cur_input_event_index g < length (input_data_events g)" "last_sampled_ts g1 = last_sampled_ts g"
    using p(1) by (auto simp: pop_input_events_def Let_def split: list.splits)
      (metis drop_all leI list.distinct(1))
  ultimately show ?thesis
    using sample_input [OF p(3)] by (auto simp: remaining_def same_input_def)
qed

section \<open>Prices of the events\<close>

text \<open>The stream library emits positive mid prices only; then every event of the generator has computable,
  positive prices, since the generator samples them before it returns the event.\<close>

definition positive_values :: "'f \<times> values_dict \<Rightarrow> bool" where
  "positive_values l \<longleftrightarrow> (\<forall>m. map_of (snd l) ''mid_price'' = Some m \<longrightarrow> 0 < m)"

definition positive_feed :: "('f, 'e, 'st) feed \<Rightarrow> bool" where
  "positive_feed feed \<longleftrightarrow> (\<forall>f input st ls. Some ls \<in> set (snd (fd_emit feed f input st)) \<longrightarrow> (\<forall>l\<in>set ls. positive_values l))"

definition positive_out :: "('f, 'e, 'st) generator \<Rightarrow> bool" where
  "positive_out g \<longleftrightarrow> last_sampled_ts g = None \<and>
     (\<forall>e. cur_out_event g = Some e \<longrightarrow> (\<forall>l\<in>set (feature_values e). positive_values l))"

lemma put_set: "l \<in> set (AList.update k v d) \<Longrightarrow> l = (k, v) \<or> l \<in> set d"
  by (induction d) (auto split: if_splits)

lemma sink_elem_positive:
  "sink_elem l g = Inr g' \<Longrightarrow> positive_out g \<Longrightarrow> positive_values l \<Longrightarrow> positive_out g'"
  by (cases l) (auto simp: sink_elem_def positive_out_def positive_values_def split: if_splits option.splits dest!: put_set)

lemma unified_positive:
  assumes "unified_out_stream elems g = Inr g'" "positive_out g" "\<And>ls l. elems = Some ls \<Longrightarrow> l \<in> set ls \<Longrightarrow> positive_values l"
  shows "positive_out g'"
proof -
  from assms(1) obtain ls where ls: "elems = Some ls" "foldE sink_elem ls g = Inr g'"
    by (auto simp: unified_out_stream_def split: option.splits)
  show ?thesis
    by (rule foldE_invariant [where I = positive_out, OF ls(2) assms(2)]) (use sink_elem_positive assms(3) [OF ls(1)] in blast)
qed

lemma push_step_positive:
  assumes "(if c then (case fd_emit feed f input (streams g) of (st, outs) \<Rightarrow> foldE unified_out_stream outs (g\<lparr>streams := st\<rparr>)) else Inr g) = Inr g'"
    "positive_out g" "positive_feed feed"
  shows "positive_out g'"
proof (cases c)
  case False
  then show ?thesis using assms by simp
next
  case True
  obtain st outs where r: "fd_emit feed f input (streams g) = (st, outs)" by (cases "fd_emit feed f input (streams g)")
  then have run: "foldE unified_out_stream outs (g\<lparr>streams := st\<rparr>) = Inr g'" using assms(1) True by simp
  have pos: "positive_values l" if "Some ls \<in> set outs" "l \<in> set ls" for ls l
    using assms(3) r that unfolding positive_feed_def by (metis snd_conv)
  have "positive_out (g\<lparr>streams := st\<rparr>)" using assms(2) by (simp add: positive_out_def)
  from foldE_invariant [where I = positive_out, OF run this] show ?thesis
    using unified_positive pos by blast
qed

lemma push_input_positive:
  assumes "push_input feed input g = Inr g'" "positive_out g" "positive_feed feed"
  shows "positive_out g'"
  by (rule foldE_invariant [where I = positive_out, OF assms(1) [unfolded push_input_def] assms(2)])
    (rule push_step_positive [OF _ _ assms(3)])

lemma mid_prices_positive:
  assumes "get_mid_prices_from_event ds e = Inr d" "\<forall>l\<in>set (feature_values e). positive_values l"
  shows "\<forall>i m. map_of d i = Some m \<longrightarrow> 0 < m"
  by (rule foldE_invariant [where I = "\<lambda>d. \<forall>i m. map_of d i = Some m \<longrightarrow> 0 < m", OF assms(1) [unfolded get_mid_prices_from_event_def]])
    (use assms(2) in \<open>auto simp: positive_values_def split: option.splits if_splits\<close>)

lemma generator_next_positive:
  assumes "generator_next feed g = Inr (e, g')" "positive_out g" "positive_feed feed"
  shows "positive_out g' \<and> (\<forall>ev. e = Some ev \<longrightarrow>
    (\<exists>d. get_mid_prices_from_event (fd_data_sources feed) ev = Inr d \<and> (\<forall>i m. map_of d i = Some m \<longrightarrow> 0 < m)))"
proof -
  from assms(1) obtain es g1 g2 where p: "pop_input_events (fd_ts_of feed) g = Inr (es, g1)"
    "foldE (push_input feed) es g1 = Inr g2"
    "sample_mid_prices (fd_data_sources feed) (g2\<lparr>should_construct_new_out_event := True\<rparr>) = Inr g'" "e = cur_out_event g'"
    by (auto simp: generator_next_def)
  have "positive_out g1"
    using p(1) assms(2) by (auto simp: pop_input_events_def positive_out_def Let_def split: list.splits)
  from foldE_invariant [where I = positive_out, OF p(2) this] have g2: "positive_out g2"
    using push_input_positive assms(3) by blast
  show ?thesis
  proof (cases "cur_out_event g2")
    case None
    then have "g' = g2\<lparr>should_construct_new_out_event := True\<rparr>" using p(3) by (simp add: sample_mid_prices_def)
    then show ?thesis using p(4) g2 None by (simp add: positive_out_def)
  next
    case (Some ev)
    then obtain d where d: "get_mid_prices_from_event (fd_data_sources feed) ev = Inr d"
      "cur_out_event g' = Some ev" "last_sampled_ts g' = None"
      using p(3) g2 by (auto simp: sample_mid_prices_def positive_out_def)
    then show ?thesis
      using mid_prices_positive [OF d(1)] g2 Some p(4) by (simp add: positive_out_def)
  qed
qed

end
