(* ===== verification/Execution.thy ===== *)
theory Execution
  imports FeatureStream
begin

text \<open>
  \<^verbatim>\<open>backtester/execution/execution_simulator.py\<close>: staged orders are executed at the current mid price
  against the wallets of the shared portfolio, trades and snapshots of the balances are recorded.
  \<open>uuid n\<close> is the \<open>n\<close>-th identifier drawn from \<open>uuid4\<close>; the counter is threaded.
\<close>

section \<open>The simulator\<close>

definition COMMISSION :: rat where "COMMISSION = 5 / 1000"

type_synonym mids = "(Instrument, rat) dict"

record Snapshot =
  sn_portfolio :: Portfolio
  sn_mid_prices :: mids
  sn_timestamp :: rat
  sn_total_balance :: rat

record Simulator =
  orders :: "Order list"
  state_snapshots :: "Snapshot list"
  executed_trades :: "(Instrument, Trade list) dict"

definition init_simulator :: Simulator where
  "init_simulator = \<lparr>orders = [], state_snapshots = [], executed_trades = []\<rparr>"

text \<open>What the locked quantity is converted into, before and after commission.\<close>

definition converted :: "OrderSide \<Rightarrow> rat \<Rightarrow> rat \<Rightarrow> rat pyres" where
  "converted sd qty pr =
     (case sd of
        BUY \<Rightarrow> if pr = 0 then Inl ZeroDivisionError else Inr (qty / pr)
      | SELL \<Rightarrow> Inr (qty * pr))"

definition execute_order :: "string \<Rightarrow> rat \<Rightarrow> mids pyres \<Rightarrow> Order \<Rightarrow> Portfolio \<Rightarrow> (Trade \<times> Order \<times> Portfolio) pyres" where
  "execute_order tid now mid_prices ord p =
     bindE mid_prices (\<lambda>ms.
     bindE (dict_lookup ms (instrument ord)) (\<lambda>pr.
     bindE (to_asset_instruments (instrument ord)) (\<lambda>(base, quote).
     let (asset_from, asset_to) = (case side ord of BUY \<Rightarrow> (quote, base) | SELL \<Rightarrow> (base, quote)) in
     bindE (get_wallet p asset_from) (\<lambda>wallet_from.
     bindE (get_wallet p asset_to) (\<lambda>_.
     bindE (unlock (order_id ord) wallet_from) (\<lambda>(qty, wallet_from').
     bindE (converted (side ord) qty pr) (\<lambda>amount.
     let fee = amount * COMMISSION; net = amount - fee; p1 = put_wallet wallet_from' p in
     bindE (get_wallet p1 asset_to) (\<lambda>wallet_to.
       Inr (\<lparr>trade_id = tid, tr_order_id = order_id ord, tr_timestamp = now, tr_instrument = instrument ord,
              tr_side = side ord, trade_type = order_type ord,
              tr_quantity = (case side ord of BUY \<Rightarrow> net | SELL \<Rightarrow> qty), tr_price = pr, commission = fee\<rparr>,
            ord\<lparr>status := FILLED\<rparr>, put_wallet (deposit net wallet_to) p1)))))))))"

text \<open>Whether a staged order is executed now. A limit order to buy is executed when its price is at
  most the mid price, as the code has it.\<close>

definition should_execute :: "mids pyres \<Rightarrow> Order \<Rightarrow> bool pyres" where
  "should_execute mid_prices ord =
     (case order_type ord of
        MARKET \<Rightarrow> Inr True
      | LIMIT \<Rightarrow>
          bindE mid_prices (\<lambda>ms.
            case map_of ms (instrument ord) of
              None \<Rightarrow> Inl ValueError
            | Some m \<Rightarrow> Inr (case side ord of BUY \<Rightarrow> price ord \<le> m | SELL \<Rightarrow> price ord \<ge> m)))"

text \<open>The staged orders in turn; the second component is the orders after it, with their new status.\<close>

fun execute_staged_orders :: "(nat \<Rightarrow> string) \<Rightarrow> rat \<Rightarrow> mids pyres \<Rightarrow> Order list \<Rightarrow> Portfolio \<times> nat \<Rightarrow>
    (Trade list \<times> Order list \<times> Portfolio \<times> nat) pyres" where
  "execute_staged_orders uuid now mid_prices [] (p, n) = Inr ([], [], p, n)"
| "execute_staged_orders uuid now mid_prices (ord # ords) (p, n) =
     (if status ord = CANCELLED \<or> status ord = FILLED then
        bindE (execute_staged_orders uuid now mid_prices ords (p, n)) (\<lambda>(trades, ords', pn).
          Inr (trades, ord # ords', pn))
      else
        bindE (should_execute mid_prices ord) (\<lambda>go.
        if go then
          bindE (execute_order (uuid n) now mid_prices ord p) (\<lambda>(trade, ord', p').
          bindE (execute_staged_orders uuid now mid_prices ords (p', Suc n)) (\<lambda>(trades, ords', pn).
            Inr (trade # trades, ord' # ords', pn)))
        else
          bindE (execute_staged_orders uuid now mid_prices ords (p, n)) (\<lambda>(trades, ords', pn).
            Inr (trades, ord # ords', pn))))"

text \<open>The total of a snapshot: the quote wallet, and every other wallet that has a mid price in the
  quote currency.\<close>

definition add_wallet_value :: "mids \<Rightarrow> Portfolio \<Rightarrow> Wallet \<Rightarrow> rat \<Rightarrow> rat pyres" where
  "add_wallet_value ms p w tot =
     (if asset_instrument w = portfolio_quote p then Inr tot
      else
        bindE (from_asset_instruments (asset_instrument w) (portfolio_quote p)) (\<lambda>i.
        case map_of ms i of
          None \<Rightarrow> Inr tot
        | Some m \<Rightarrow>
            bindE (get_wallet p (asset_instrument w)) (\<lambda>v. Inr (tot + total_balance v * m))))"

definition snapshot_total :: "mids pyres \<Rightarrow> Portfolio \<Rightarrow> (rat \<times> mids) pyres" where
  "snapshot_total mid_prices p =
     bindE (get_wallet p (portfolio_quote p)) (\<lambda>quote_wallet.
     bindE mid_prices (\<lambda>ms.
     bindE (foldE (add_wallet_value ms p) (wallets p) (total_balance quote_wallet)) (\<lambda>tot. Inr (tot, ms))))"

definition record_state_snapshot :: "rat \<Rightarrow> mids pyres \<Rightarrow> Portfolio \<Rightarrow> Simulator \<Rightarrow> Simulator pyres" where
  "record_state_snapshot now mid_prices p sim =
     bindE (snapshot_total mid_prices p) (\<lambda>(tot, ms).
       Inr (sim\<lparr>state_snapshots := state_snapshots sim @
              [\<lparr>sn_portfolio = p, sn_mid_prices = ms, sn_timestamp = now, sn_total_balance = tot\<rparr>]\<rparr>))"

definition stage_for_execution :: "rat \<Rightarrow> mids pyres \<Rightarrow> Order list \<Rightarrow> Portfolio \<Rightarrow> Simulator \<Rightarrow> Simulator pyres" where
  "stage_for_execution now mid_prices ords p sim =
     (if length ords > 0 then record_state_snapshot now mid_prices p (sim\<lparr>orders := orders sim @ ords\<rparr>)
      else Inr sim)"

definition add_trade :: "Trade \<Rightarrow> (Instrument, Trade list) dict \<Rightarrow> (Instrument, Trade list) dict" where
  "add_trade trade d =
     (case map_of d (tr_instrument trade) of
        Some ts \<Rightarrow> dict_put (tr_instrument trade) (ts @ [trade]) d
      | None \<Rightarrow> dict_put (tr_instrument trade) [trade] d)"

definition update_state :: "(nat \<Rightarrow> string) \<Rightarrow> rat \<Rightarrow> mids pyres \<Rightarrow> Simulator \<times> Portfolio \<times> nat \<Rightarrow> (Simulator \<times> Portfolio \<times> nat) pyres" where
  "update_state uuid now mid_prices = (\<lambda>(sim, pn).
     bindE (execute_staged_orders uuid now mid_prices (orders sim) pn) (\<lambda>(trades, ords, p', n').
     let sim1 = sim\<lparr>orders := ords\<rparr> in
     if length trades > 0 then
       bindE (record_state_snapshot now mid_prices p'
                (sim1\<lparr>executed_trades := fold add_trade trades (executed_trades sim1)\<rparr>)) (\<lambda>sim2.
         Inr (sim2, p', n'))
     else Inr (sim1, p', n')))"

record PortfolioBalanceRecord =
  pb_timestamp :: rat
  pb_total :: rat
  per_wallet :: "(AssetInstrument, rat \<times> rat) dict"

definition get_portfolio_balances :: "Simulator \<Rightarrow> PortfolioBalanceRecord list" where
  "get_portfolio_balances sim =
     map (\<lambda>s. \<lparr>pb_timestamp = sn_timestamp s, pb_total = sn_total_balance s,
        per_wallet = fold (\<lambda>w d. dict_put (asset_instrument w) (get_free_and_locked_balance w) d)
          (wallets (sn_portfolio s)) []\<rparr>) (state_snapshots sim)"

section \<open>Locks\<close>

text \<open>The amount locked for an order in the wallet of an asset.\<close>

definition lock_of :: "Portfolio \<Rightarrow> AssetInstrument \<Rightarrow> string \<Rightarrow> rat option" where
  "lock_of p a oid = (case get_wallet p a of Inl _ \<Rightarrow> None | Inr w \<Rightarrow> map_of (locked w) oid)"

definition has_wallet :: "Portfolio \<Rightarrow> AssetInstrument \<Rightarrow> bool" where
  "has_wallet p a = (case get_wallet p a of Inl _ \<Rightarrow> False | Inr _ \<Rightarrow> True)"

lemma has_wallet_iff: "has_wallet p a \<longleftrightarrow> (\<exists>w. get_wallet p a = Inr w)"
  by (simp add: has_wallet_def split: sum.split)

lemma get_put_wallet:
  assumes "get_wallet p a = Inr w" "asset_instrument w' = a"
  shows "get_wallet (put_wallet w' p) b = (if b = a then Inr w' else get_wallet p b)"
  using put_wallet_at [OF assms] put_wallet_other [of b w' p] assms(2) by simp

lemma has_wallet_put [simp]:
  "get_wallet p a = Inr w \<Longrightarrow> asset_instrument w' = a \<Longrightarrow> has_wallet (put_wallet w' p) b = has_wallet p b"
  by (auto simp: has_wallet_iff get_put_wallet)

lemma lock_of_put:
  "get_wallet p a = Inr w \<Longrightarrow> asset_instrument w' = a \<Longrightarrow>
   lock_of (put_wallet w' p) b oid = (if b = a then map_of (locked w') oid else lock_of p b oid)"
  by (auto simp: lock_of_def get_put_wallet)

definition receiving_asset :: "Order \<Rightarrow> AssetInstrument pyres" where
  "receiving_asset ord =
     bindE (to_asset_instruments (instrument ord)) (\<lambda>(base, quote). Inr (case side ord of BUY \<Rightarrow> base | SELL \<Rightarrow> quote))"

lemma execute_order_unfold:
  "execute_order tid now (Inr ms) ord p = Inr (tr, ord', p') \<longleftrightarrow>
   (\<exists>pr a b wf wt qty wf' amount. map_of ms (instrument ord) = Some pr \<and>
      paying_asset ord = Inr a \<and> receiving_asset ord = Inr b \<and>
      get_wallet p a = Inr wf \<and> has_wallet p b \<and> unlock (order_id ord) wf = Inr (qty, wf') \<and>
      converted (side ord) qty pr = Inr amount \<and> get_wallet (put_wallet wf' p) b = Inr wt \<and>
      tr = \<lparr>trade_id = tid, tr_order_id = order_id ord, tr_timestamp = now, tr_instrument = instrument ord,
            tr_side = side ord, trade_type = order_type ord,
            tr_quantity = (case side ord of BUY \<Rightarrow> amount - amount * COMMISSION | SELL \<Rightarrow> qty), tr_price = pr,
            commission = amount * COMMISSION\<rparr> \<and>
      ord' = ord\<lparr>status := FILLED\<rparr> \<and>
      p' = put_wallet (deposit (amount - amount * COMMISSION) wt) (put_wallet wf' p))"
  by (cases "side ord")
    (auto simp: execute_order_def paying_asset_def receiving_asset_def Let_def has_wallet_iff)

lemma execute_order_spec:
  assumes "execute_order tid now (Inr ms) ord p = Inr (tr, ord', p')" "portfolio_inv p"
    "map_of ms (instrument ord) = Some pr" "0 < pr"
  shows "\<exists>a b qty amount. paying_asset ord = Inr a \<and> receiving_asset ord = Inr b \<and>
    lock_of p a (order_id ord) = Some qty \<and> converted (side ord) qty pr = Inr amount \<and>
    portfolio_inv p' \<and> portfolio_quote p' = portfolio_quote p \<and> assets p' = assets p \<and>
    (\<forall>c oid. lock_of p' c oid = (if c = a \<and> oid = order_id ord then None else lock_of p c oid)) \<and>
    (\<forall>c. has_wallet p' c = has_wallet p c) \<and>
    (\<forall>prices. worth prices p' = worth prices p - qty * prices a + (amount - amount * COMMISSION) * prices b) \<and>
    commission tr = amount * COMMISSION \<and> 0 \<le> amount"
proof -
  from assms(1,3) obtain a b wf wt qty wf' amount where
    e: "paying_asset ord = Inr a" "receiving_asset ord = Inr b"
      "get_wallet p a = Inr wf" "has_wallet p b" "unlock (order_id ord) wf = Inr (qty, wf')"
      "converted (side ord) qty pr = Inr amount" "get_wallet (put_wallet wf' p) b = Inr wt"
      "commission tr = amount * COMMISSION"
      "p' = put_wallet (deposit (amount - amount * COMMISSION) wt) (put_wallet wf' p)"
    unfolding execute_order_unfold by auto
  have wf: "wallet_inv wf" using assms(2) e(3) by (rule portfolio_inv_get)
  note u = unlock_spec [OF e(5) wf]
  have a: "asset_instrument wf' = a" using u get_wallet_in [OF e(3)] by simp
  have p1: "portfolio_inv (put_wallet wf' p)" using u assms(2) by (simp add: portfolio_inv_put)
  have b: "asset_instrument wt = b" "wallet_inv wt"
    using get_wallet_in [OF e(7)] portfolio_inv_get [OF p1 e(7)] by simp_all
  have amount: "0 \<le> amount"
    using e(6) u assms(4) by (auto simp: converted_def split: OrderSide.splits if_splits)
  have net: "0 \<le> amount - amount * COMMISSION"
    using amount by (simp add: COMMISSION_def)
  have "portfolio_inv p'"
    unfolding e(9) by (rule portfolio_inv_put [OF p1 deposit_inv [OF b(2) net]])
  moreover have "worth prices p' = worth prices p - qty * prices a + (amount - amount * COMMISSION) * prices b" for prices
    unfolding e(9) using worth_put [OF e(3) a] worth_put [OF e(7), of "deposit (amount - amount * COMMISSION) wt"] b u
    by (simp add: deposit_spec)
  moreover have "lock_of p' c oid = (if c = a \<and> oid = order_id ord then None else lock_of p c oid)" for c oid
  proof -
    have "lock_of p' c oid = lock_of (put_wallet wf' p) c oid"
      unfolding e(9) using b e(7) by (simp add: lock_of_put deposit_spec) (simp add: lock_of_def)
    also have "\<dots> = (if c = a \<and> oid = order_id ord then None else lock_of p c oid)"
      using u e(3) a by (simp add: lock_of_put) (simp add: lock_of_def)
    finally show ?thesis .
  qed
  moreover have "has_wallet p' c = has_wallet p c" for c
    unfolding e(9) using a b e(3,7) by (simp add: deposit_spec)
  moreover have "lock_of p a (order_id ord) = Some qty"
    using u e(3) by (simp add: lock_of_def)
  ultimately show ?thesis using e amount by (simp add: deposit_spec)
qed

lemma execute_order_total:
  assumes "paying_asset ord = Inr a" "receiving_asset ord = Inr b" "has_wallet p b"
    "lock_of p a (order_id ord) = Some qty" "map_of ms (instrument ord) = Some pr" "0 < pr"
  shows "\<exists>tr p'. execute_order tid now (Inr ms) ord p = Inr (tr, ord\<lparr>status := FILLED\<rparr>, p') \<and> tr_order_id tr = order_id ord"
proof -
  from assms(4) obtain wf where wf: "get_wallet p a = Inr wf" "map_of (locked wf) (order_id ord) = Some qty"
    by (auto simp: lock_of_def split: sum.splits)
  define wf' where "wf' = wf\<lparr>locked := AList.delete (order_id ord) (locked wf)\<rparr>"
  have u: "unlock (order_id ord) wf = Inr (qty, wf')" using wf by (simp add: unlock_def wf'_def)
  have "asset_instrument wf' = a" using get_wallet_in [OF wf(1)] by (simp add: wf'_def)
  then have "has_wallet (put_wallet wf' p) b" using wf(1) assms(3) by simp
  then obtain wt where wt: "get_wallet (put_wallet wf' p) b = Inr wt"
    by (auto simp: has_wallet_iff)
  obtain amount where "converted (side ord) qty pr = Inr amount"
    using assms(6) by (cases "side ord") (simp_all add: converted_def)
  with assms wf(1) u wt show ?thesis
    unfolding execute_order_unfold by auto
qed

section \<open>The book\<close>

text \<open>Orders the simulator may have to execute are backed by a lock of their cost, and every lock backs
  an order that is still open.\<close>

definition is_open :: "Order \<Rightarrow> bool" where
  "is_open ord \<longleftrightarrow> status ord \<noteq> CANCELLED \<and> status ord \<noteq> FILLED"

definition backed :: "Portfolio \<Rightarrow> Order \<Rightarrow> bool" where
  "backed p ord \<longleftrightarrow> (\<exists>a b. paying_asset ord = Inr a \<and> receiving_asset ord = Inr b \<and> has_wallet p b \<and>
     lock_of p a (order_id ord) = Some (order_cost ord))"

definition book_inv :: "Portfolio \<Rightarrow> Order list \<Rightarrow> bool" where
  "book_inv p os \<longleftrightarrow> portfolio_inv p \<and> distinct (map order_id os) \<and>
     (\<forall>ord\<in>set os. is_open ord \<longrightarrow> backed p ord) \<and>
     (\<forall>a oid. lock_of p a oid \<noteq> None \<longrightarrow>
        (\<exists>ord\<in>set os. is_open ord \<and> order_id ord = oid \<and> paying_asset ord = Inr a))"

definition fill :: "Order \<Rightarrow> Order" where
  "fill ord = (if is_open ord then ord\<lparr>status := FILLED\<rparr> else ord)"

lemma fill_simps [simp]: "order_id (fill ord) = order_id ord" "\<not> is_open (fill ord)"
  by (simp_all add: fill_def is_open_def)

text \<open>Executing one open order of the book keeps it.\<close>

lemma book_execute:
  assumes "book_inv p (us @ ord # vs)" "is_open ord" "map_of ms (instrument ord) = Some pr" "0 < pr"
  shows "\<exists>tr p'. execute_order tid now (Inr ms) ord p = Inr (tr, ord\<lparr>status := FILLED\<rparr>, p') \<and>
    tr_order_id tr = order_id ord \<and> book_inv p' (us @ fill ord # vs)"
proof -
  have inv: "portfolio_inv p" "distinct (map order_id (us @ ord # vs))" "backed p ord"
    using assms(1,2) by (auto simp: book_inv_def)
  from inv(3) obtain a b where ab: "paying_asset ord = Inr a" "receiving_asset ord = Inr b" "has_wallet p b"
    "lock_of p a (order_id ord) = Some (order_cost ord)" by (auto simp: backed_def)
  from execute_order_total [OF ab(1-3) ab(4) assms(3,4)] obtain tr p' where
    e: "execute_order tid now (Inr ms) ord p = Inr (tr, ord\<lparr>status := FILLED\<rparr>, p')" "tr_order_id tr = order_id ord"
    by blast
  from execute_order_spec [OF e(1) inv(1) assms(3,4)] ab(1)
  have p': "portfolio_inv p'"
    "\<And>c oid. lock_of p' c oid = (if c = a \<and> oid = order_id ord then None else lock_of p c oid)"
    "\<And>c. has_wallet p' c = has_wallet p c" by auto
  have others: "ord2 \<in> set us \<union> set vs \<Longrightarrow> order_id ord2 \<noteq> order_id ord" for ord2
    using distinct_parts [OF inv(2)] by blast
  have "backed p' ord2" if "ord2 \<in> set (us @ fill ord # vs)" "is_open ord2" for ord2
  proof -
    have in_uv: "ord2 \<in> set us \<union> set vs" using that by auto
    then have "backed p ord2" using assms(1) that(2) by (auto simp: book_inv_def)
    then show ?thesis using others [OF in_uv] by (simp add: backed_def p')
  qed
  moreover have "\<exists>ord2\<in>set (us @ fill ord # vs). is_open ord2 \<and> order_id ord2 = oid \<and> paying_asset ord2 = Inr c"
    if "lock_of p' c oid \<noteq> None" for c oid
  proof -
    have l: "lock_of p c oid \<noteq> None" "\<not> (c = a \<and> oid = order_id ord)" using that by (auto simp: p'(2) split: if_splits)
    then obtain ord2 where o2: "ord2 \<in> set (us @ ord # vs)" "is_open ord2" "order_id ord2 = oid" "paying_asset ord2 = Inr c"
      using assms(1) unfolding book_inv_def by blast
    then have "ord2 \<noteq> ord" using l(2) ab(1) by auto
    then show ?thesis using o2 by auto
  qed
  ultimately have "book_inv p' (us @ fill ord # vs)"
    using p'(1) inv(2) by (simp add: book_inv_def)
  then show ?thesis using e by blast
qed

lemma execute_market_orders:
  assumes "book_inv p (us @ os)"
    "\<forall>ord\<in>set os. is_open ord \<longrightarrow> order_type ord = MARKET \<and> (\<exists>pr. map_of ms (instrument ord) = Some pr \<and> 0 < pr)"
  shows "\<exists>trades p'. execute_staged_orders uuid now (Inr ms) os (p, n) =
      Inr (trades, map fill os, p', n + length trades) \<and>
    map tr_order_id trades = map order_id (filter is_open os) \<and> book_inv p' (us @ map fill os)"
  using assms
proof (induction os arbitrary: p us n)
  case Nil
  then show ?case by simp
next
  case (Cons ord os)
  show ?case
  proof (cases "is_open ord")
    case False
    then have f: "fill ord = ord" "status ord = CANCELLED \<or> status ord = FILLED" by (auto simp: fill_def is_open_def)
    have "book_inv p ((us @ [ord]) @ os)" using Cons.prems(1) by simp
    from Cons.IH [OF this, of n] Cons.prems(2) obtain trades p' where
      "execute_staged_orders uuid now (Inr ms) os (p, n) = Inr (trades, map fill os, p', n + length trades)"
      "map tr_order_id trades = map order_id (filter is_open os)" "book_inv p' ((us @ [ord]) @ map fill os)" by auto
    then show ?thesis using False f by auto
  next
    case True
    then have pr: "order_type ord = MARKET" "\<not> (status ord = CANCELLED \<or> status ord = FILLED)"
      using Cons.prems(2) by (auto simp: is_open_def)
    obtain q where q: "map_of ms (instrument ord) = Some q" "0 < q" using True Cons.prems(2) by auto
    from book_execute [OF Cons.prems(1) True q] obtain tr p1 where
      e: "execute_order (uuid n) now (Inr ms) ord p = Inr (tr, ord\<lparr>status := FILLED\<rparr>, p1)"
        "tr_order_id tr = order_id ord" "book_inv p1 (us @ fill ord # os)" by blast
    have "book_inv p1 ((us @ [fill ord]) @ os)" using e(3) by simp
    from Cons.IH [OF this, of "Suc n"] Cons.prems(2) obtain trades p' where
      "execute_staged_orders uuid now (Inr ms) os (p1, Suc n) = Inr (trades, map fill os, p', Suc n + length trades)"
      "map tr_order_id trades = map order_id (filter is_open os)" "book_inv p' ((us @ [fill ord]) @ map fill os)" by auto
    moreover have "fill ord = ord\<lparr>status := FILLED\<rparr>" using True by (simp add: fill_def)
    ultimately show ?thesis
      using True pr e(1,2) by (auto simp: should_execute_def)
  qed
qed

lemma no_open_no_locks:
  assumes "book_inv p os" "\<forall>ord\<in>set os. \<not> is_open ord" "w \<in> set (wallets p)"
  shows "locked w = []"
proof -
  have "distinct (assets p)" using assms(1) by (simp add: book_inv_def portfolio_inv_def)
  then obtain v where v: "get_wallet p (asset_instrument w) = Inr v"
    using get_wallet_total assms(3) by force
  obtain us vs where "wallets p = us @ w # vs" using assms(3) by (auto dest: split_list)
  with \<open>distinct (assets p)\<close> have "get_wallet p (asset_instrument w) = Inr w"
    unfolding get_wallet_Inr using distinct_parts [of asset_instrument us w vs] by auto
  then have "map_of (locked w) oid = None" for oid
    using assms(1,2) unfolding book_inv_def lock_of_def by (metis sum.simps(6))
  then show ?thesis
    by (metis dict_has_def dict_has_iff image_eqI list.exhaust list.set_intros(1))
qed

section \<open>Made orders\<close>

text \<open>What a strategy may do to the portfolio: make orders, each under a new identifier and of a cost
  that is not negative.\<close>

inductive made_orders :: "(nat \<Rightarrow> string) \<Rightarrow> Portfolio \<times> nat \<Rightarrow> Order list \<Rightarrow> Portfolio \<times> nat \<Rightarrow> bool" for uuid where
  made_none: "made_orders uuid pn [] pn"
| made_one: "make_order (uuid n) sd MARKET i qty pr p = Inr (ord, p1) \<Longrightarrow> 0 \<le> order_cost ord \<Longrightarrow>
    made_orders uuid (p1, Suc n) os pn \<Longrightarrow> made_orders uuid (p, n) (ord # os) pn"

lemma made_orders_append:
  "made_orders uuid pn os pn1 \<Longrightarrow> made_orders uuid pn1 os' pn2 \<Longrightarrow> made_orders uuid pn (os @ os') pn2"
  by (induction rule: made_orders.induct) (auto intro: made_orders.intros)

text \<open>Every identifier in the book was drawn before.\<close>

definition drawn :: "(nat \<Rightarrow> string) \<Rightarrow> nat \<Rightarrow> Order list \<Rightarrow> bool" where
  "drawn uuid n os \<longleftrightarrow> (\<forall>ord\<in>set os. \<exists>k<n. order_id ord = uuid k)"

lemma make_order_has_wallets:
  "make_order oid sd t i qty pr p = Inr (ord, p') \<Longrightarrow> receiving_asset ord = Inr b \<Longrightarrow> has_wallet p b"
  by (cases sd) (auto simp: make_order_def receiving_asset_def has_wallet_iff)

lemma make_order_receives:
  "make_order oid sd t i qty pr p = Inr (ord, p') \<Longrightarrow> \<exists>b. receiving_asset ord = Inr b"
  by (cases sd) (auto simp: make_order_def receiving_asset_def)

lemma book_make_order:
  assumes "make_order (uuid n) sd MARKET i qty pr p = Inr (ord, p1)" "0 \<le> order_cost ord"
    "book_inv p os" "drawn uuid n os" "inj uuid"
  shows "book_inv p1 (os @ [ord]) \<and> drawn uuid (Suc n) (os @ [ord]) \<and> is_open ord \<and> order_type ord = MARKET \<and>
    instrument ord = i \<and> (\<forall>prices. worth prices p1 = worth prices p)"
proof -
  obtain a w w' where m: "paying_asset ord = Inr a" "get_wallet p a = Inr w"
    "lock_from_balance (uuid n) (order_cost ord) w = Inr w'" "p1 = put_wallet w' p"
    "ord = \<lparr>order_id = uuid n, order_type = MARKET, side = sd, instrument = i, price = pr, quantity = qty, status = OPEN\<rparr>"
    by (rule make_order_spec [OF assms(1)])
  have inv: "portfolio_inv p" using assms(3) by (simp add: book_inv_def)
  note l = lock_spec [OF m(3)]
  have a: "asset_instrument w' = a" using l get_wallet_in [OF m(2)] by simp
  have "wallet_inv w'" using lock_inv [OF portfolio_inv_get [OF inv m(2)] assms(2) m(3)] .
  then have p1: "portfolio_inv p1" unfolding m(4) by (rule portfolio_inv_put [OF inv])
  have lock: "lock_of p1 c oid = (if c = a \<and> oid = uuid n then Some (order_cost ord) else lock_of p c oid)" for c oid
    unfolding m(4) using l m(2) a by (simp add: lock_of_put) (simp add: lock_of_def)
  have wal: "has_wallet p1 c = has_wallet p c" for c unfolding m(4) using m(2) a by simp
  have fresh: "order_id ord2 \<noteq> uuid n" if "ord2 \<in> set os" for ord2
    using that assms(4,5) by (auto simp: drawn_def inj_eq dest!: bspec)
  obtain b where b: "receiving_asset ord = Inr b" using make_order_receives [OF assms(1)] by blast
  have op: "is_open ord" "order_id ord = uuid n" by (simp_all add: m(5) is_open_def)
  have "backed p1 ord"
    using b m(1) op(2) make_order_has_wallets [OF assms(1) b] by (auto simp: backed_def lock wal)
  moreover have "backed p1 ord2" if "ord2 \<in> set os" "is_open ord2" for ord2
    using assms(3) that fresh [OF that(1)] by (auto simp: book_inv_def backed_def lock wal)
  moreover have "\<exists>ord2\<in>set (os @ [ord]). is_open ord2 \<and> order_id ord2 = oid \<and> paying_asset ord2 = Inr c"
    if "lock_of p1 c oid \<noteq> None" for c oid
  proof (cases "c = a \<and> oid = uuid n")
    case True
    then show ?thesis using op m(1) by auto
  next
    case False
    then have "lock_of p c oid \<noteq> None" using that by (auto simp: lock)
    then show ?thesis using assms(3) unfolding book_inv_def by auto
  qed
  moreover have distinct_snoc: "uuid n \<notin> order_id ` set os" using fresh by (metis imageE)
  ultimately have "book_inv p1 (os @ [ord])"
    using p1 assms(3) op(2) distinct_snoc by (auto simp: book_inv_def)
  moreover have "drawn uuid (Suc n) (os @ [ord])"
    using assms(4) op(2) by (auto simp: drawn_def less_Suc_eq)
  moreover have "worth prices p1 = worth prices p" for prices
    unfolding m(4) using worth_put [OF m(2) a] l by simp
  ultimately show ?thesis using op m(5) by simp
qed

lemma book_made_orders:
  assumes "made_orders uuid pn os' pn'" "book_inv (fst pn) os" "drawn uuid (snd pn) os" "inj uuid"
  shows "book_inv (fst pn') (os @ os') \<and> drawn uuid (snd pn') (os @ os') \<and>
    (\<forall>ord\<in>set os'. is_open ord \<and> order_type ord = MARKET) \<and>
    (\<forall>prices. worth prices (fst pn') = worth prices (fst pn))"
  using assms
proof (induction arbitrary: os rule: made_orders.induct)
  case (made_none pn)
  then show ?case by simp
next
  case (made_one n sd i qty pr p ord p1 os' pn)
  note m = book_make_order [OF made_one.hyps(1,2) made_one.prems(1) [simplified] made_one.prems(2) [simplified] made_one.prems(3)]
  from made_one.IH [of "os @ [ord]"] m made_one.prems(3) show ?case by simp
qed

end
