(* ===== verification/Strategies.thy ===== *)
theory Strategies
  imports Execution
begin

text \<open>
  \<^verbatim>\<open>backtester/strategy\<close>: the base class, the buy-low-sell-high strategy and the machine-learning
  strategy, and what a backtest may rely on of any strategy: it touches the portfolio only by making
  market orders on instruments that have a price.
\<close>

section \<open>Base class\<close>

type_synonym account = "Portfolio \<times> nat"

definition get_latest_inference_input_values :: "'f DataStreamEvent option \<Rightarrow> rat list" where
  "get_latest_inference_input_values latest_data_event =
     (case latest_data_event of
        None \<Rightarrow> []
      | Some e \<Rightarrow> concat (map (\<lambda>(f, cols).
          concat (map (\<lambda>(name, v). if name \<notin> {''timestamp'', ''receipt_timestamp''} then [v] else []) cols)) (feature_values e)))"

section \<open>Buy low, sell high\<close>

record StatePerInstrument =
  sp_instrument :: Instrument
  quote_allocation :: rat
  base_wallet :: AssetInstrument
  quote_wallet :: AssetInstrument
  local_min :: "rat option"
  local_max :: "rat option"
  three_vals :: "rat list"
  is_buying :: bool
  buy_signal_thresh :: rat
  sell_signal_thresh :: rat

definition init_state_per_instrument :: "Instrument \<Rightarrow> Portfolio \<Rightarrow> rat \<Rightarrow> rat \<Rightarrow> rat \<Rightarrow> StatePerInstrument pyres" where
  "init_state_per_instrument i p buy_thresh sell_thresh allocation =
     bindE (to_asset_instruments i) (\<lambda>(base, quote).
     bindE (get_wallet p base) (\<lambda>_. bindE (get_wallet p quote) (\<lambda>_.
       Inr \<lparr>sp_instrument = i, quote_allocation = allocation, base_wallet = base, quote_wallet = quote,
            local_min = None, local_max = None, three_vals = [], is_buying = True,
            buy_signal_thresh = buy_thresh, sell_signal_thresh = sell_thresh\<rparr>)))"

definition is_local_min :: "rat list \<Rightarrow> bool" where
  "is_local_min vs = (if length vs < 3 then False else vs ! 0 > vs ! 1 \<and> vs ! 2 > vs ! 1)"

definition is_local_max :: "rat list \<Rightarrow> bool" where
  "is_local_max vs = (if length vs < 3 then False else vs ! 0 < vs ! 1 \<and> vs ! 2 < vs ! 1)"

text \<open>The window of three values and the extrema, before the signals.\<close>

definition track_price :: "rat \<Rightarrow> StatePerInstrument \<Rightarrow> StatePerInstrument" where
  "track_price mid_price st =
     (let vs = three_vals st @ [mid_price];
          vs = (if length vs > 3 then tl vs else vs)
      in st\<lparr>three_vals := vs,
            local_min := (if is_local_min vs then Some (vs ! 1) else local_min st),
            local_max := (if is_local_max vs then Some (vs ! 1) else local_max st)\<rparr>)"

definition flip_side :: "StatePerInstrument \<Rightarrow> StatePerInstrument" where
  "flip_side st = st\<lparr>is_buying := \<not> is_buying st, local_min := None, local_max := None\<rparr>"

definition ALLOCATED :: rat where "ALLOCATED = 9 / 10"

definition on_price_update :: "(nat \<Rightarrow> string) \<Rightarrow> rat \<Rightarrow> StatePerInstrument \<times> account \<Rightarrow> (Order list option \<times> StatePerInstrument \<times> account) pyres" where
  "on_price_update uuid mid_price = (\<lambda>(st0, p, n).
     let st = track_price mid_price st0 in
     if is_buying st then
       (case local_min st of
          None \<Rightarrow> Inr (None, st, p, n)
        | Some m \<Rightarrow>
            if mid_price - m > sell_signal_thresh st * m then
              bindE (get_wallet p (quote_wallet st)) (\<lambda>w.
              if mid_price = 0 then Inl ZeroDivisionError
              else
                bindE (make_order (uuid n) BUY MARKET (sp_instrument st)
                         (ALLOCATED * quote_allocation st * free_balance w / mid_price) mid_price p) (\<lambda>(ord, p').
                  Inr (Some [ord], flip_side st, p', Suc n)))
            else Inr (None, st, p, n))
     else
       (case local_max st of
          None \<Rightarrow> Inr (None, st, p, n)
        | Some m \<Rightarrow>
            if m - mid_price > buy_signal_thresh st * m then
              bindE (get_wallet p (base_wallet st)) (\<lambda>w.
              bindE (make_order (uuid n) SELL MARKET (sp_instrument st)
                       (ALLOCATED * free_balance w) mid_price p) (\<lambda>(ord, p').
                Inr (Some [ord], flip_side st, p', Suc n)))
            else Inr (None, st, p, n)))"

type_synonym blsh = "(Instrument, StatePerInstrument) dict"

definition init_buy_low_sell_high :: "(string, rat) dict \<Rightarrow> Instrument list \<Rightarrow> Portfolio \<Rightarrow> blsh pyres" where
  "init_buy_low_sell_high params instruments p =
     foldE (\<lambda>i states.
       bindE (dict_lookup params ''buy_signal_thresh'') (\<lambda>b.
       bindE (dict_lookup params ''sell_signal_thresh'') (\<lambda>s.
       bindE (init_state_per_instrument i p b s (1 / of_nat (length instruments))) (\<lambda>st.
         Inr (dict_put i st states))))) instruments []"

text \<open>The loop over the instruments; \<open>feature\<close> is the one found for the last instrument seen, which is
  what the check after the loop looks at.\<close>

fun blsh_loop :: "(nat \<Rightarrow> string) \<Rightarrow> ('f \<Rightarrow> (string, string) dict list) \<Rightarrow> 'f DataStreamEvent \<Rightarrow> blsh \<Rightarrow> account \<Rightarrow>
    'f option \<Rightarrow> (Order list \<times> 'f option \<times> blsh \<times> account) pyres" where
  "blsh_loop uuid data_sources e [] acc feature = Inr ([], feature, [], acc)"
| "blsh_loop uuid data_sources e ((i, st) # states) acc feature =
     bindE (get_feature_for_instrument data_sources None e i) (\<lambda>found.
     case found of
       None \<Rightarrow>
         bindE (blsh_loop uuid data_sources e states acc None) (\<lambda>(ords, f, states', acc').
           Inr (ords, f, (i, st) # states', acc'))
     | Some f \<Rightarrow>
         bindE (dict_lookup (feature_values e) f) (\<lambda>cols.
         bindE (dict_lookup cols ''mid_price'') (\<lambda>mid_price.
         bindE (on_price_update uuid mid_price (st, acc)) (\<lambda>(made, st', acc1).
         bindE (blsh_loop uuid data_sources e states acc1 (Some f)) (\<lambda>(ords, f', states', acc').
           Inr ((case made of None \<Rightarrow> [] | Some os \<Rightarrow> os) @ ords, f', (i, st') # states', acc'))))))"

definition blsh_on_data :: "('f \<Rightarrow> (string, string) dict list) \<Rightarrow> (nat \<Rightarrow> string) \<Rightarrow> 'f DataStreamEvent \<Rightarrow> blsh \<times> account \<Rightarrow>
    (Order list option \<times> blsh \<times> account) pyres" where
  "blsh_on_data data_sources uuid e = (\<lambda>(states, acc).
     bindE (blsh_loop uuid data_sources e states acc None) (\<lambda>(all_orders, feature, states', acc').
       if feature = None then Inl ValueError else Inr (Some all_orders, states', acc')))"

section \<open>Following predictions\<close>

record ml_strategy =
  ml_is_buying :: bool
  ml_instrument :: Instrument
  ml_base_wallet :: AssetInstrument
  ml_quote_wallet :: AssetInstrument
  ml_params :: "(string, rat) dict"

definition init_ml_strategy :: "(string, rat) dict \<Rightarrow> Instrument list \<Rightarrow> Portfolio \<Rightarrow> ml_strategy pyres" where
  "init_ml_strategy params instruments p =
     bindE (py_nth instruments 0) (\<lambda>i.
     bindE (to_asset_instruments i) (\<lambda>(base, quote).
     bindE (get_wallet p base) (\<lambda>_. bindE (get_wallet p quote) (\<lambda>_.
       Inr \<lparr>ml_is_buying = True, ml_instrument = i, ml_base_wallet = base, ml_quote_wallet = quote, ml_params = params\<rparr>))))"

text \<open>\<open>prediction\<close> is the latest inference: no loop, no result yet, or a number.\<close>

datatype inference = NoInferenceLoop | NoInference | Inference rat

definition latest_prediction :: "inference \<Rightarrow> rat pyres" where
  "latest_prediction infr = (case infr of NoInferenceLoop \<Rightarrow> Inl AttributeError | NoInference \<Rightarrow> Inl TypeError | Inference r \<Rightarrow> Inr r)"

definition ml_on_data :: "('f \<Rightarrow> (string, string) dict list) \<Rightarrow> (nat \<Rightarrow> string) \<Rightarrow> 'f DataStreamEvent \<times> inference \<Rightarrow> ml_strategy \<times> account \<Rightarrow>
    (Order list option \<times> ml_strategy \<times> account) pyres" where
  "ml_on_data data_sources uuid = (\<lambda>(e, infr) (st, p, n).
     bindE (dict_lookup (ml_params st) ''buy_delta'') (\<lambda>buy_delta.
     bindE (dict_lookup (ml_params st) ''sell_delta'') (\<lambda>sell_delta.
     bindE (bindE (get_mid_prices_from_event data_sources e) (\<lambda>ms. dict_lookup ms (ml_instrument st))) (\<lambda>cur_price.
     bindE (latest_prediction infr) (\<lambda>prediction.
     if ml_is_buying st then
       (if prediction - cur_price > buy_delta then
          bindE (get_wallet p (ml_quote_wallet st)) (\<lambda>w.
          if cur_price = 0 then Inl ZeroDivisionError
          else
            bindE (make_order (uuid n) BUY MARKET (ml_instrument st) (ALLOCATED * free_balance w / cur_price) cur_price p) (\<lambda>(ord, p').
              Inr (Some [ord], st\<lparr>ml_is_buying := False\<rparr>, p', Suc n)))
        else Inr (None, st, p, n))
     else
       (if prediction - cur_price < sell_delta then
          bindE (get_wallet p (ml_base_wallet st)) (\<lambda>w.
          bindE (make_order (uuid n) SELL MARKET (ml_instrument st) (ALLOCATED * free_balance w) cur_price p) (\<lambda>(ord, p').
            Inr (Some [ord], st\<lparr>ml_is_buying := True\<rparr>, p', Suc n)))
        else Inr (None, st, p, n)))))))"

section \<open>What a backtest relies on\<close>

text \<open>The contract of a strategy: \<open>mids\<close> are the prices of an event, \<open>ok\<close> is the strategy's own
  invariant. A call that returns has made market orders on instruments with a positive price.\<close>

abbreviation made_list :: "Order list option \<Rightarrow> Order list" where
  "made_list os \<equiv> (case os of None \<Rightarrow> [] | Some xs \<Rightarrow> xs)"

definition priced :: "mids pyres \<Rightarrow> Order \<Rightarrow> bool" where
  "priced ms ord \<longleftrightarrow> (\<exists>d pr. ms = Inr d \<and> map_of d (instrument ord) = Some pr \<and> 0 < pr)"

definition positive_mids :: "mids pyres \<Rightarrow> bool" where
  "positive_mids ms \<longleftrightarrow> (\<exists>d. ms = Inr d \<and> (\<forall>i pr. map_of d i = Some pr \<longrightarrow> 0 < pr))"

locale strategy =
  fixes on_data :: "(nat \<Rightarrow> string) \<Rightarrow> 'e \<Rightarrow> 's \<times> account \<Rightarrow> (Order list option \<times> 's \<times> account) pyres"
    and mids :: "'e \<Rightarrow> mids pyres"
    and ok :: "'s \<Rightarrow> bool"
  assumes makes_orders:
    "on_data uuid e (s, p, n) = Inr (os, s', p', n') \<Longrightarrow> ok s \<Longrightarrow> portfolio_inv p \<Longrightarrow> positive_mids (mids e) \<Longrightarrow>
     made_orders uuid (p, n) (made_list os) (p', n') \<and> ok s' \<and> (\<forall>ord\<in>set (made_list os). priced (mids e) ord)"

section \<open>The strategies keep the contract\<close>

lemma ALLOCATED_pos: "0 < ALLOCATED"
  by (simp add: ALLOCATED_def)

lemma made_single:
  assumes "make_order (uuid n) sd MARKET i qty pr p = Inr (ord, p')" "0 \<le> order_cost ord"
  shows "made_orders uuid (p, n) [ord] (p', Suc n)"
  by (rule made_one [of uuid n, OF assms made_none])

lemma make_order_instrument:
  "make_order oid sd t i qty pr p = Inr (ord, p') \<Longrightarrow>
   instrument ord = i \<and> side ord = sd \<and> price ord = pr \<and> quantity ord = qty"
  by (auto simp: make_order_def)

lemma make_buy_cost:
  "make_order oid BUY t i qty pr p = Inr (ord, p') \<Longrightarrow> order_cost ord = pr * qty"
  by (auto simp: make_order_def order_cost_def)

lemma make_sell_cost:
  "make_order oid SELL t i qty pr p = Inr (ord, p') \<Longrightarrow> order_cost ord = qty"
  by (auto simp: make_order_def order_cost_def)

definition sp_ok :: "Instrument \<Rightarrow> StatePerInstrument \<Rightarrow> bool" where
  "sp_ok i st \<longleftrightarrow> sp_instrument st = i \<and> 0 \<le> quote_allocation st"

definition blsh_ok :: "blsh \<Rightarrow> bool" where
  "blsh_ok states \<longleftrightarrow> (\<forall>(i, st)\<in>set states. sp_ok i st)"

lemma track_price_ok [simp]: "sp_ok i (track_price m st) = sp_ok i st" "sp_ok i (flip_side st) = sp_ok i st"
  by (simp_all add: sp_ok_def track_price_def flip_side_def Let_def)

lemma on_price_update_makes:
  assumes "on_price_update uuid m (st, p, n) = Inr (os, st', p', n')" "sp_ok i st" "portfolio_inv p" "0 < m"
  shows "made_orders uuid (p, n) (made_list os) (p', n') \<and> sp_ok i st' \<and>
    (\<forall>ord\<in>set (made_list os). instrument ord = i)"
proof -
  define st1 where "st1 = track_price m st"
  have ok1: "sp_ok i st1" using assms(2) by (simp add: st1_def)
  note step = assms(1) [unfolded on_price_update_def Let_def prod.case, folded st1_def]
  have "(os = None \<and> st' = st1 \<and> p' = p \<and> n' = n) \<or>
    (\<exists>w ord. get_wallet p (quote_wallet st1) = Inr w \<and>
        make_order (uuid n) BUY MARKET (sp_instrument st1) (ALLOCATED * quote_allocation st1 * free_balance w / m) m p = Inr (ord, p') \<and>
        os = Some [ord] \<and> st' = flip_side st1 \<and> n' = Suc n) \<or>
    (\<exists>w ord. get_wallet p (base_wallet st1) = Inr w \<and>
        make_order (uuid n) SELL MARKET (sp_instrument st1) (ALLOCATED * free_balance w) m p = Inr (ord, p') \<and>
        os = Some [ord] \<and> st' = flip_side st1 \<and> n' = Suc n)"
  proof (cases "is_buying st1")
    case True
    then show ?thesis using step by (cases "local_min st1") (auto simp del: mult_eq_0_iff split: if_split_asm)
  next
    case False
    then show ?thesis using step by (cases "local_max st1") (auto simp del: mult_eq_0_iff split: if_split_asm)
  qed
  then consider (none) "os = None" "st' = st1" "p' = p" "n' = n"
    | (buy) w ord where "get_wallet p (quote_wallet st1) = Inr w"
        "make_order (uuid n) BUY MARKET (sp_instrument st1) (ALLOCATED * quote_allocation st1 * free_balance w / m) m p = Inr (ord, p')"
        "os = Some [ord]" "st' = flip_side st1" "n' = Suc n"
    | (sell) w ord where "get_wallet p (base_wallet st1) = Inr w"
        "make_order (uuid n) SELL MARKET (sp_instrument st1) (ALLOCATED * free_balance w) m p = Inr (ord, p')"
        "os = Some [ord]" "st' = flip_side st1" "n' = Suc n"
    by blast
  then show ?thesis
  proof cases
    case none
    then show ?thesis using ok1 by (simp add: made_none)
  next
    case buy
    have "0 \<le> balance w" using portfolio_inv_get [OF assms(3) buy(1)] by (simp add: wallet_inv_def)
    then have "0 \<le> order_cost ord"
      using make_buy_cost [OF buy(2)] assms(4) ok1 ALLOCATED_pos by (simp add: sp_ok_def free_balance_def)
    then show ?thesis
      using made_single [of uuid n, OF buy(2)] make_order_instrument [OF buy(2)] buy ok1 by (auto simp: sp_ok_def flip_side_def)
  next
    case sell
    have "0 \<le> balance w" using portfolio_inv_get [OF assms(3) sell(1)] by (simp add: wallet_inv_def)
    then have "0 \<le> order_cost ord"
      using make_sell_cost [OF sell(2)] ALLOCATED_pos by (simp add: free_balance_def)
    then show ?thesis
      using made_single [of uuid n, OF sell(2)] make_order_instrument [OF sell(2)] sell ok1 by (auto simp: sp_ok_def flip_side_def)
  qed
qed

lemma made_orders_inv: "made_orders uuid pn os pn' \<Longrightarrow> portfolio_inv (fst pn) \<Longrightarrow> portfolio_inv (fst pn')"
proof (induction rule: made_orders.induct)
  case (made_none pn)
  then show ?case by simp
next
  case (made_one n sd i qty pr p ord p1 os pn)
  obtain a w w' where m: "paying_asset ord = Inr a" "get_wallet p a = Inr w"
    "lock_from_balance (uuid n) (order_cost ord) w = Inr w'" "p1 = put_wallet w' p"
    by (rule make_order_spec [OF made_one.hyps(1)])
  have "wallet_inv w'"
    using lock_inv [OF portfolio_inv_get [OF made_one.prems [simplified] m(2)] made_one.hyps(2) m(3)] .
  then have "portfolio_inv p1" unfolding m(4) using made_one.prems by (simp add: portfolio_inv_put)
  then show ?case using made_one.IH by simp
qed

text \<open>The feature found for an instrument carries the price the event has for that instrument.\<close>

lemma feature_mid:
  "foldE (\<lambda>(f, cols) found.
     if (case None of None \<Rightarrow> False | Some p \<Rightarrow> \<not> p f) then Inr found
     else bindE (get_instrument_for_feature ds f) (\<lambda>instr.
       if instr = i then (if found \<noteq> None then Inl ValueError else Inr (Some f)) else Inr found)) fv found = Inr (Some f) \<Longrightarrow>
   foldE (\<lambda>(f, cols) mid_prices.
     case map_of cols ''mid_price'' of
       None \<Rightarrow> Inl ValueError
     | Some mid_price \<Rightarrow> bindE (get_instrument_for_feature ds f) (\<lambda>i. Inr (dict_put i mid_price mid_prices))) fv d0 = Inr d \<Longrightarrow>
   (found = Some f \<and> map_of d i = map_of d0 i) \<or>
   (found = None \<and> get_instrument_for_feature ds f = Inr i \<and>
     (\<exists>cols m. map_of fv f = Some cols \<and> map_of cols ''mid_price'' = Some m \<and> map_of d i = Some m))"
proof (induction fv arbitrary: found d0)
  case Nil
  then show ?case by simp
next
  case (Cons e fv)
  obtain g c where e: "e = (g, c)" by (cases e)
  from Cons.prems(2) obtain m j where m: "map_of c ''mid_price'' = Some m" "get_instrument_for_feature ds g = Inr j"
    and rest2: "foldE (\<lambda>(f, cols) mid_prices.
     case map_of cols ''mid_price'' of
       None \<Rightarrow> Inl ValueError
     | Some mid_price \<Rightarrow> bindE (get_instrument_for_feature ds f) (\<lambda>i. Inr (dict_put i mid_price mid_prices))) fv (dict_put j m d0) = Inr d"
    by (auto simp: e split: option.splits)
  show ?case
  proof (cases "j = i")
    case True
    then have "found = None" using Cons.prems(1) m(2) by (auto simp: e split: if_splits)
    from Cons.IH [OF _ rest2, of "Some g"] show ?thesis
      using Cons.prems(1) m True \<open>found = None\<close> by (auto simp: e)
  next
    case False
    then show ?thesis
      using Cons.IH [OF _ rest2, of found] Cons.prems(1) m by (auto simp: e)
  qed
qed

lemma feature_for_instrument_price:
  assumes "get_feature_for_instrument ds None e i = Inr (Some f)" "get_mid_prices_from_event ds e = Inr d"
    "dict_lookup (feature_values e) f = Inr cols" "dict_lookup cols ''mid_price'' = Inr m"
  shows "map_of d i = Some m"
  using feature_mid [OF assms(1) [unfolded get_feature_for_instrument_def] assms(2) [unfolded get_mid_prices_from_event_def]]
    assms(3,4) by auto

lemma blsh_loop_makes:
  assumes "blsh_loop uuid ds e states (p, n) feature = Inr (os, f, states', p', n')"
    "blsh_ok states" "portfolio_inv p" "get_mid_prices_from_event ds e = Inr d" "\<forall>i pr. map_of d i = Some pr \<longrightarrow> 0 < pr"
  shows "made_orders uuid (p, n) os (p', n') \<and> blsh_ok states' \<and>
    (\<forall>ord\<in>set os. \<exists>pr. map_of d (instrument ord) = Some pr \<and> 0 < pr)"
  using assms
proof (induction states arbitrary: p n feature os states')
  case Nil
  then show ?case by (simp add: made_none)
next
  case (Cons s states)
  obtain i st where s: "s = (i, st)" by (cases s)
  have ok: "sp_ok i st" "blsh_ok states" using Cons.prems(2) by (simp_all add: s blsh_ok_def)
  from Cons.prems(1) obtain found where found: "get_feature_for_instrument ds None e i = Inr found" by (auto simp: s)
  show ?case
  proof (cases found)
    case None
    then obtain states1 where r: "blsh_loop uuid ds e states (p, n) None = Inr (os, f, states1, p', n')" "states' = (i, st) # states1"
      using Cons.prems(1) found by (auto simp: s)
    from Cons.IH [OF r(1) ok(2) Cons.prems(3-5)] show ?thesis using ok(1) r(2) by (auto simp: blsh_ok_def)
  next
    case (Some g)
    then obtain cols m made st' p1 n1 os2 states1 where
      c: "dict_lookup (feature_values e) g = Inr cols" "dict_lookup cols ''mid_price'' = Inr m"
      and u: "on_price_update uuid m (st, p, n) = Inr (made, st', p1, n1)"
      and r: "blsh_loop uuid ds e states (p1, n1) (Some g) = Inr (os2, f, states1, p', n')"
      and o': "os = made_list made @ os2" "states' = (i, st') # states1"
      using Cons.prems(1) found by (auto simp: s)
    have m: "map_of d i = Some m"
      using feature_for_instrument_price [OF found [unfolded Some] Cons.prems(4) c] .
    then have "0 < m" using Cons.prems(5) by blast
    note mk = on_price_update_makes [OF u ok(1) Cons.prems(3) this]
    have "portfolio_inv p1" using made_orders_inv [of uuid "(p, n)" _ "(p1, n1)"] mk Cons.prems(3) by force
    from Cons.IH [OF r ok(2) this Cons.prems(4,5)] mk m \<open>0 < m\<close> show ?thesis
      unfolding o' by (auto simp: blsh_ok_def intro: made_orders_append)
  qed
qed

lemma blsh_makes:
  assumes "blsh_on_data ds uuid e (s, p, n) = Inr (os, s', p', n')" "blsh_ok s" "portfolio_inv p"
    "positive_mids (get_mid_prices_from_event ds e)"
  shows "made_orders uuid (p, n) (made_list os) (p', n') \<and> blsh_ok s' \<and>
    (\<forall>ord\<in>set (made_list os). priced (get_mid_prices_from_event ds e) ord)"
proof -
  from assms(1) obtain os1 f where l: "blsh_loop uuid ds e s (p, n) None = Inr (os1, f, s', p', n')" "os = Some os1"
    by (auto simp: blsh_on_data_def split: if_splits)
  from assms(4) obtain d where d: "get_mid_prices_from_event ds e = Inr d" "\<forall>i pr. map_of d i = Some pr \<longrightarrow> 0 < pr"
    by (auto simp: positive_mids_def)
  from blsh_loop_makes [OF l(1) assms(2,3) d] show ?thesis using l(2) d(1) by (simp add: priced_def)
qed

lemma ml_makes:
  assumes "ml_on_data ds uuid (e, infr) (s, p, n) = Inr (os, s', p', n')" "portfolio_inv p"
    "positive_mids (get_mid_prices_from_event ds e)"
  shows "made_orders uuid (p, n) (made_list os) (p', n') \<and>
    (\<forall>ord\<in>set (made_list os). priced (get_mid_prices_from_event ds e) ord)"
proof -
  from assms(1) obtain bd sd d m where
    d: "get_mid_prices_from_event ds e = Inr d" "map_of d (ml_instrument s) = Some m"
    and cases: "(os = None \<and> p' = p \<and> n' = n) \<or>
      (\<exists>w ord. get_wallet p (ml_quote_wallet s) = Inr w \<and> m \<noteq> 0 \<and>
        make_order (uuid n) BUY MARKET (ml_instrument s) (ALLOCATED * free_balance w / m) m p = Inr (ord, p') \<and> os = Some [ord] \<and> n' = Suc n) \<or>
      (\<exists>w ord. get_wallet p (ml_base_wallet s) = Inr w \<and>
        make_order (uuid n) SELL MARKET (ml_instrument s) (ALLOCATED * free_balance w) m p = Inr (ord, p') \<and> os = Some [ord] \<and> n' = Suc n)"
    by (auto simp: ml_on_data_def split: if_splits)
  have m: "0 < m" using assms(3) d by (auto simp: positive_mids_def)
  from cases consider "os = None" "p' = p" "n' = n"
    | w ord where "get_wallet p (ml_quote_wallet s) = Inr w"
        "make_order (uuid n) BUY MARKET (ml_instrument s) (ALLOCATED * free_balance w / m) m p = Inr (ord, p')" "os = Some [ord]" "n' = Suc n"
    | w ord where "get_wallet p (ml_base_wallet s) = Inr w"
        "make_order (uuid n) SELL MARKET (ml_instrument s) (ALLOCATED * free_balance w) m p = Inr (ord, p')" "os = Some [ord]" "n' = Suc n"
    by blast
  then show ?thesis
  proof cases
    case 1
    then show ?thesis by (simp add: made_none)
  next
    case 2
    have "0 \<le> balance w" using portfolio_inv_get [OF assms(2) 2(1)] by (simp add: wallet_inv_def)
    then have "0 \<le> order_cost ord" using make_buy_cost [OF 2(2)] m ALLOCATED_pos by (simp add: free_balance_def)
    then show ?thesis
      using made_single [of uuid n, OF 2(2)] make_order_instrument [OF 2(2)] 2 d m by (simp add: priced_def)
  next
    case 3
    have "0 \<le> balance w" using portfolio_inv_get [OF assms(2) 3(1)] by (simp add: wallet_inv_def)
    then have "0 \<le> order_cost ord" using make_sell_cost [OF 3(2)] ALLOCATED_pos by (simp add: free_balance_def)
    then show ?thesis
      using made_single [of uuid n, OF 3(2)] make_order_instrument [OF 3(2)] 3 d m by (simp add: priced_def)
  qed
qed

lemma ml_contract: "strategy (ml_on_data ds) (\<lambda>(e, infr). get_mid_prices_from_event ds e) (\<lambda>s. True)"
proof
  fix uuid :: "nat \<Rightarrow> string" and e s p n os s' p' n'
  assume a: "ml_on_data ds uuid e (s, p, n) = Inr (os, s', p', n')" "True" "portfolio_inv p"
    "positive_mids (case e of (e, infr) \<Rightarrow> get_mid_prices_from_event ds e)"
  obtain e1 infr where e: "e = (e1, infr)" by (cases e)
  from ml_makes [of ds uuid e1 infr s p n os s' p' n'] a
  show "made_orders uuid (p, n) (made_list os) (p', n') \<and> True \<and>
      (\<forall>ord\<in>set (made_list os). priced (case e of (e, infr) \<Rightarrow> get_mid_prices_from_event ds e) ord)"
    by (simp add: e)
qed

interpretation blsh: strategy "blsh_on_data ds" "get_mid_prices_from_event ds" blsh_ok for ds
  by unfold_locales (rule blsh_makes)

interpretation ml: strategy "ml_on_data ds" "\<lambda>(e, infr). get_mid_prices_from_event ds e" "\<lambda>s. True" for ds
  by (rule ml_contract)

section \<open>Signals of one instrument\<close>

text \<open>Every lock of the portfolio was made under an identifier already drawn.\<close>

definition locks_drawn :: "(nat \<Rightarrow> string) \<Rightarrow> nat \<Rightarrow> Portfolio \<Rightarrow> bool" where
  "locks_drawn uuid n p \<longleftrightarrow> (\<forall>a oid. lock_of p a oid \<noteq> None \<longrightarrow> (\<exists>k<n. oid = uuid k))"

definition sp_ready :: "Portfolio \<Rightarrow> StatePerInstrument \<Rightarrow> bool" where
  "sp_ready p st \<longleftrightarrow> to_asset_instruments (sp_instrument st) = Inr (base_wallet st, quote_wallet st) \<and>
     has_wallet p (base_wallet st) \<and> has_wallet p (quote_wallet st) \<and> 0 \<le> quote_allocation st \<and> quote_allocation st \<le> 1"

lemma make_order_total:
  assumes "to_asset_instruments i = Inr (base, quote)" "get_wallet p base = Inr bw" "get_wallet p quote = Inr qw"
    "locks_drawn uuid n p" "inj uuid"
    "case sd of BUY \<Rightarrow> pr * qty \<le> balance qw | SELL \<Rightarrow> qty \<le> balance bw"
  shows "\<exists>ord p'. make_order (uuid n) sd t i qty pr p = Inr (ord, p') \<and> locks_drawn uuid (Suc n) p' \<and>
    (\<forall>c. has_wallet p' c = has_wallet p c)"
proof -
  have free: "\<not> dict_has (locked w) (uuid n)" if "get_wallet p a = Inr w" for a w
    using assms(4,5) that unfolding locks_drawn_def dict_has_def lock_of_def
    by (metis (no_types, lifting) inj_eq less_irrefl sum.simps(6))
  define w where "w = (case sd of BUY \<Rightarrow> qw | SELL \<Rightarrow> bw)"
  define a where "a = (case sd of BUY \<Rightarrow> quote | SELL \<Rightarrow> base)"
  define cost where "cost = (case sd of BUY \<Rightarrow> pr * qty | SELL \<Rightarrow> qty)"
  have w: "get_wallet p a = Inr w" "cost \<le> balance w"
    using assms(2,3,6) by (cases sd; simp add: w_def a_def cost_def)+
  define w' where "w' = w\<lparr>locked := dict_put (uuid n) cost (locked w), balance := balance w - cost\<rparr>"
  have l: "lock_from_balance (uuid n) cost w = Inr w'"
    using w(2) free [OF w(1)] by (simp add: lock_from_balance_def w'_def)
  have a': "asset_instrument w' = a" using get_wallet_in [OF w(1)] by (simp add: w'_def)
  have "make_order (uuid n) sd t i qty pr p = Inr (\<lparr>order_id = uuid n, order_type = t, side = sd, instrument = i,
      price = pr, quantity = qty, status = OPEN\<rparr>, put_wallet w' p)"
    using assms(1-3) l by (cases sd) (simp_all add: make_order_def w_def cost_def)
  moreover have "locks_drawn uuid (Suc n) (put_wallet w' p)"
    unfolding locks_drawn_def
  proof (intro allI impI)
    fix c oid assume c: "lock_of (put_wallet w' p) c oid \<noteq> None"
    show "\<exists>k<Suc n. oid = uuid k"
    proof (cases "oid = uuid n")
      case True
      then show ?thesis by auto
    next
      case False
      have "lock_of (put_wallet w' p) c oid = (if c = a then map_of (locked w') oid else lock_of p c oid)"
        using w(1) a' by (rule lock_of_put)
      also have "\<dots> = lock_of p c oid" using False w(1) by (simp add: w'_def) (simp add: lock_of_def)
      finally have "lock_of p c oid \<noteq> None" using c by simp
      then show ?thesis using assms(4) unfolding locks_drawn_def by (metis less_Suc_eq)
    qed
  qed
  ultimately show ?thesis using w(1) a' by simp
qed

lemma on_price_update_total:
  assumes "sp_ready p st" "portfolio_inv p" "locks_drawn uuid n p" "inj uuid" "0 < m"
  shows "\<exists>os st' p' n'. on_price_update uuid m (st, p, n) = Inr (os, st', p', n') \<and>
    sp_ready p' st' \<and> portfolio_inv p' \<and> locks_drawn uuid n' p' \<and>
    ((os = None \<and> is_buying st' = is_buying st) \<or>
     (\<exists>ord. os = Some [ord] \<and> is_buying st' = (\<not> is_buying st) \<and> side ord = (if is_buying st then BUY else SELL)))"
proof -
  define st1 where "st1 = track_price m st"
  have ready: "sp_ready p st1" "is_buying st1 = is_buying st"
    using assms(1) by (simp_all add: sp_ready_def st1_def track_price_def Let_def)
  obtain bw qw where w: "get_wallet p (base_wallet st1) = Inr bw" "get_wallet p (quote_wallet st1) = Inr qw"
    using ready(1) by (auto simp: sp_ready_def has_wallet_iff)
  have to: "to_asset_instruments (sp_instrument st1) = Inr (base_wallet st1, quote_wallet st1)"
    using ready(1) by (simp add: sp_ready_def)
  have bal: "0 \<le> balance bw" "0 \<le> balance qw"
    using portfolio_inv_get [OF assms(2)] w by (auto simp: wallet_inv_def)
  have step: "on_price_update uuid m (st, p, n) =
    (if is_buying st1 then
       (case local_min st1 of
          None \<Rightarrow> Inr (None, st1, p, n)
        | Some l \<Rightarrow>
            if m - l > sell_signal_thresh st1 * l then
              bindE (make_order (uuid n) BUY MARKET (sp_instrument st1)
                       (ALLOCATED * quote_allocation st1 * free_balance qw / m) m p) (\<lambda>(ord, p').
                Inr (Some [ord], flip_side st1, p', Suc n))
            else Inr (None, st1, p, n))
     else
       (case local_max st1 of
          None \<Rightarrow> Inr (None, st1, p, n)
        | Some l \<Rightarrow>
            if l - m > buy_signal_thresh st1 * l then
              bindE (make_order (uuid n) SELL MARKET (sp_instrument st1) (ALLOCATED * free_balance bw) m p) (\<lambda>(ord, p').
                Inr (Some [ord], flip_side st1, p', Suc n))
            else Inr (None, st1, p, n)))"
    using assms(5) w unfolding on_price_update_def Let_def prod.case st1_def [symmetric]
    by (simp split: option.split)
  define sd where "sd = (if is_buying st1 then BUY else SELL)"
  define qty where "qty = (if is_buying st1 then ALLOCATED * quote_allocation st1 * free_balance qw / m else ALLOCATED * free_balance bw)"
  have "ALLOCATED * quote_allocation st1 \<le> 1"
    using ready(1) unfolding sp_ready_def ALLOCATED_def by (simp add: mult_left_le_one_le)
  then have "ALLOCATED * quote_allocation st1 * balance qw \<le> balance qw"
    using bal(2) by (metis mult_left_le_one_le mult.commute mult_right_mono mult_1)
  moreover have "ALLOCATED * balance bw \<le> balance bw" using bal(1) by (simp add: ALLOCATED_def)
  ultimately have "case sd of BUY \<Rightarrow> m * qty \<le> balance qw | SELL \<Rightarrow> qty \<le> balance bw"
    using assms(5) by (simp add: sd_def qty_def free_balance_def)
  from make_order_total [OF to w assms(3,4) this, of MARKET] obtain ord p' where
    mk: "make_order (uuid n) sd MARKET (sp_instrument st1) qty m p = Inr (ord, p')" "locks_drawn uuid (Suc n) p'"
      "\<forall>c. has_wallet p' c = has_wallet p c" by blast
  have ok: "sp_ok (sp_instrument st) st" using assms(1) by (simp add: sp_ok_def sp_ready_def)
  have flip: "sp_ready p' (flip_side st1)" "is_buying (flip_side st1) = (\<not> is_buying st)"
    using ready mk(3) by (simp_all add: sp_ready_def flip_side_def)
  have sd: "side ord = (if is_buying st then BUY else SELL)"
    using make_order_instrument [OF mk(1)] ready(2) by (simp add: sd_def)
  have res: "on_price_update uuid m (st, p, n) \<in> {Inr (None, st1, p, n), Inr (Some [ord], flip_side st1, p', Suc n)}"
  proof (cases "is_buying st1")
    case True
    then show ?thesis using mk(1) unfolding step by (simp add: sd_def qty_def split: option.split)
  next
    case False
    then show ?thesis using mk(1) unfolding step by (simp add: sd_def qty_def split: option.split)
  qed
  have inv: "on_price_update uuid m (st, p, n) = Inr (Some [ord], flip_side st1, p', Suc n) \<Longrightarrow> portfolio_inv p'"
    using on_price_update_makes [OF _ ok assms(2,5)] made_orders_inv [of uuid "(p, n)" _ "(p', Suc n)"] assms(2) by fastforce
  from res consider "on_price_update uuid m (st, p, n) = Inr (None, st1, p, n)"
    | "on_price_update uuid m (st, p, n) = Inr (Some [ord], flip_side st1, p', Suc n)" by blast
  then show ?thesis
  proof cases
    case 1
    then show ?thesis using ready assms(2,3) by auto
  next
    case 2
    then show ?thesis using flip sd mk(2) inv by auto
  qed
qed

text \<open>The orders over a sequence of prices.\<close>

fun price_run :: "(nat \<Rightarrow> string) \<Rightarrow> rat list \<Rightarrow> StatePerInstrument \<times> account \<Rightarrow> (Order list \<times> StatePerInstrument \<times> account) pyres" where
  "price_run uuid [] s = Inr ([], s)"
| "price_run uuid (m # ms) s =
     bindE (on_price_update uuid m s) (\<lambda>(os, s1). bindE (price_run uuid ms s1) (\<lambda>(os', s2). Inr (made_list os @ os', s2)))"

text \<open>C28. The strategy of one instrument buys and sells in turn and can always pay: over any positive
  prices, with its wallets in the portfolio and at most the whole quote balance allocated to it, no
  price makes it raise, and its orders alternate, beginning with the side it is on.\<close>

theorem signals_alternate:
  assumes "sp_ready p st" "portfolio_inv p" "locks_drawn uuid n p" "inj uuid" "\<forall>m\<in>set ms. 0 < m"
  shows "\<exists>os st' p' n'. price_run uuid ms (st, p, n) = Inr (os, st', p', n') \<and> portfolio_inv p' \<and>
    (\<forall>k<length os. side (os ! k) = (if is_buying st = even k then BUY else SELL))"
  using assms
proof (induction ms arbitrary: st p n)
  case Nil
  then show ?case by simp
next
  case (Cons m ms)
  have m: "0 < m" "\<forall>m\<in>set ms. 0 < m" using Cons.prems(5) by auto
  from on_price_update_total [OF Cons.prems(1-4) m(1)] obtain os st1 p1 n1 where
    u: "on_price_update uuid m (st, p, n) = Inr (os, st1, p1, n1)" "sp_ready p1 st1" "portfolio_inv p1" "locks_drawn uuid n1 p1"
      "(os = None \<and> is_buying st1 = is_buying st) \<or>
       (\<exists>ord. os = Some [ord] \<and> is_buying st1 = (\<not> is_buying st) \<and> side ord = (if is_buying st then BUY else SELL))" by blast
  from Cons.IH [OF u(2-4) Cons.prems(4) m(2)] obtain os2 st2 p2 n2 where
    r: "price_run uuid ms (st1, p1, n1) = Inr (os2, st2, p2, n2)" "portfolio_inv p2"
      "\<forall>k<length os2. side (os2 ! k) = (if is_buying st1 = even k then BUY else SELL)" by blast
  have "side ((made_list os @ os2) ! k) = (if is_buying st = even k then BUY else SELL)" if "k < length (made_list os @ os2)" for k
    using u(5) r(3) that by (cases k) auto
  then show ?case using u(1) r(1,2) by simp
qed

definition btc_usdt :: Instrument where
  "btc_usdt = \<lparr>in_exchange = ''BINANCE'', in_instrument_type = ''spot'', in_symbol = ''BTC-USDT''\<rparr>"

definition asset :: "string \<Rightarrow> AssetInstrument" where
  "asset a = \<lparr>ai_exchange = ''BINANCE'', ai_instrument_type = ''spot'', ai_asset = a\<rparr>"

definition two_wallets :: Portfolio where
  "two_wallets = \<lparr>wallets = [\<lparr>asset_instrument = asset ''BTC'', balance = 1, locked = []\<rparr>,
       \<lparr>asset_instrument = asset ''USDT'', balance = 1000, locked = []\<rparr>], portfolio_quote = asset ''USDT''\<rparr>"

lemma two_wallets_inv: "portfolio_inv two_wallets"
  by (simp add: portfolio_inv_def two_wallets_def wallet_inv_def asset_def)

lemma no_locks: "\<forall>w\<in>set (wallets p). locked w = [] \<Longrightarrow> lock_of p a oid = None"
  using get_wallet_in [of p a] by (auto simp: lock_of_def split: sum.splits)

lemma show_nat_injective: "inj show_nat"
  by (simp add: inj_def show_nat_inj)

lemma two_wallets_free: "locks_drawn show_nat 0 two_wallets"
  using no_locks [of two_wallets] by (simp add: locks_drawn_def two_wallets_def)

definition btc_state :: StatePerInstrument where
  "btc_state = \<lparr>sp_instrument = btc_usdt, quote_allocation = 1, base_wallet = asset ''BTC'', quote_wallet = asset ''USDT'',
     local_min = None, local_max = None, three_vals = [], is_buying = True,
     buy_signal_thresh = 5 / 100, sell_signal_thresh = 5 / 100\<rparr>"

lemma btc_usdt_assets: "to_asset_instruments btc_usdt = Inr (asset ''BTC'', asset ''USDT'')"
  by code_simp

lemma two_wallets_has: "has_wallet two_wallets (asset ''BTC'')" "has_wallet two_wallets (asset ''USDT'')"
  by (simp_all add: has_wallet_def get_wallet_def two_wallets_def asset_def)

theorem signals_alternate_witness:
  "\<exists>os st' p' n'. price_run show_nat [10, 8, 12, 14, 9] (btc_state, two_wallets, 0) = Inr (os, st', p', n') \<and>
     (\<forall>k<length os. side (os ! k) = (if even k then BUY else SELL))"
proof -
  have "sp_ready two_wallets btc_state"
    using two_wallets_has btc_usdt_assets by (simp add: sp_ready_def btc_state_def)
  moreover have "is_buying btc_state" by (simp add: btc_state_def)
  ultimately show ?thesis
    using signals_alternate [OF _ two_wallets_inv two_wallets_free show_nat_injective, of btc_state "[10, 8, 12, 14, 9]"] by auto
qed

end
