(* ===== verification/BacktestLoop.thy ===== *)
theory BacktestLoop
  imports Strategies
begin

text \<open>
  \<^verbatim>\<open>backtester/loop\<close>, \<^verbatim>\<open>backtester/clock.py\<close>, \<^verbatim>\<open>backtester/inference\<close> and the aggregation of \<^verbatim>\<open>backtester/runner.py\<close>:
  a backtest pulls events from the generator, lets the strategy make orders, stages and executes
  them. What every strategy that keeps the contract guarantees of the whole run is proved once,
  in the locale, and then read off for the two strategies.
\<close>

section \<open>The loop\<close>

record 's backtest =
  bt_strategy :: 's
  bt_simulator :: Simulator
  bt_portfolio :: Portfolio
  bt_uuids :: nat
  bt_clock :: rat

definition init_backtest :: "'s \<Rightarrow> Portfolio \<Rightarrow> 's backtest" where
  "init_backtest s p =
     \<lparr>bt_strategy = s, bt_simulator = init_simulator, bt_portfolio = p, bt_uuids = 0, bt_clock = -1\<rparr>"

type_synonym ('e, 's) on_data = "(nat \<Rightarrow> string) \<Rightarrow> 'e \<Rightarrow> 's \<times> account \<Rightarrow> (Order list option \<times> 's \<times> account) pyres"

text \<open>One pass of the loop's body for an event; \<open>ts_of\<close> is its timestamp, \<open>mids\<close> the prices it carries.\<close>

definition loop_step :: "('e, 's) on_data \<Rightarrow> ('e \<Rightarrow> mids pyres) \<Rightarrow> ('e \<Rightarrow> rat) \<Rightarrow> (nat \<Rightarrow> string) \<Rightarrow> 'e \<Rightarrow> 's backtest \<Rightarrow> 's backtest pyres" where
  "loop_step on_data mids ts_of uuid e bt =
     (let now = ts_of e in
      bindE (on_data uuid e (bt_strategy bt, bt_portfolio bt, bt_uuids bt)) (\<lambda>(made, s', p', n').
      bindE (case made of
               None \<Rightarrow> Inr (bt_simulator bt)
             | Some os \<Rightarrow> if length os > 0 then stage_for_execution now (mids e) os p' (bt_simulator bt)
                          else Inr (bt_simulator bt)) (\<lambda>sim1.
      bindE (update_state uuid now (mids e) (sim1, p', n')) (\<lambda>(sim2, p2, n2).
        Inr \<lparr>bt_strategy = s', bt_simulator = sim2, bt_portfolio = p2, bt_uuids = n2, bt_clock = now\<rparr>))))"

text \<open>The loop over the generator; \<open>running k\<close> is \<open>self.is_running\<close> before pass \<open>k\<close>, \<open>view\<close> adds to the event
  what the strategy sees beside it. The generator advances, so the loop ends.\<close>

function run_loop :: "('f, 'd, 'st) feed \<Rightarrow> ('f DataStreamEvent \<Rightarrow> nat \<Rightarrow> 'e) \<Rightarrow> ('e \<Rightarrow> 's backtest \<Rightarrow> 's backtest pyres) \<Rightarrow> (nat \<Rightarrow> bool) \<Rightarrow> nat \<Rightarrow>
    ('f, 'd, 'st) generator \<times> 's backtest \<Rightarrow> (('f, 'd, 'st) generator \<times> 's backtest) pyres" where
  "run_loop feed view step running k (g, bt) =
     (if running k \<and> has_next g then
        (case generator_next feed g of
           Inl err \<Rightarrow> Inl err
         | Inr (data_event, g') \<Rightarrow>
             (case (case data_event of None \<Rightarrow> Inr bt | Some e \<Rightarrow> step (view e k) bt) of
                Inl err \<Rightarrow> Inl err
              | Inr bt' \<Rightarrow> run_loop feed view step running (Suc k) (g', bt')))
      else Inr (g, bt))"
  by pat_completeness auto
termination
  by (relation "measure (\<lambda>(feed, view, step, running, k, g, bt). remaining g)") (auto dest: generator_next_advances)

declare run_loop.simps [simp del]

record LoopRunResult =
  lr_executed_trades :: "(Instrument, Trade list) dict"
  lr_portfolio_balances :: "PortfolioBalanceRecord list"
  lr_sampled_prices :: "(Instrument, (rat \<times> rat) list) dict"
  lr_inference_results :: "(rat option \<times> rat) list"

text \<open>\<open>run\<close>: after the loop the inference loop is stopped, whether there is one or not.\<close>

definition loop_run :: "('f, 'd, 'st) feed \<Rightarrow> ('f DataStreamEvent \<Rightarrow> nat \<Rightarrow> 'e) \<Rightarrow> ('e \<Rightarrow> 's backtest \<Rightarrow> 's backtest pyres) \<Rightarrow> (nat \<Rightarrow> bool) \<Rightarrow>
    (rat option \<times> rat) list option \<Rightarrow> ('f, 'd, 'st) generator \<times> 's backtest \<Rightarrow> LoopRunResult pyres" where
  "loop_run feed view step running inference_loop gb =
     bindE (run_loop feed view step running 0 gb) (\<lambda>(g, bt).
       case inference_loop of
         None \<Rightarrow> Inl AttributeError
       | Some inference_results \<Rightarrow>
           Inr \<lparr>lr_executed_trades = executed_trades (bt_simulator bt),
                lr_portfolio_balances = get_portfolio_balances (bt_simulator bt),
                lr_sampled_prices = sampled_mid_prices g, lr_inference_results = inference_results\<rparr>)"

section \<open>Inference\<close>

record inference_loop =
  il_running :: bool
  inference_results :: "(rat option \<times> rat) list"
  latest_inference_result :: "rat option"
  latest_inference_ts :: "rat option"

definition init_inference_loop :: inference_loop where
  "init_inference_loop = \<lparr>il_running = False, inference_results = [], latest_inference_result = None, latest_inference_ts = None\<rparr>"

text \<open>One request; \<open>response\<close> is the post to the endpoint and the reading of its answer, whose
  exceptions are caught and printed.\<close>

definition make_request :: "(rat list \<Rightarrow> rat pyres) \<Rightarrow> rat list \<Rightarrow> rat option" where
  "make_request response vs = (case response vs of Inl e \<Rightarrow> None | Inr resp \<Rightarrow> Some resp)"

definition inference_pass :: "(rat list \<Rightarrow> rat pyres) \<Rightarrow> rat list \<Rightarrow> rat \<Rightarrow> inference_loop \<Rightarrow> inference_loop" where
  "inference_pass response vs now l =
     (let r = make_request response vs
      in l\<lparr>latest_inference_result := r, latest_inference_ts := Some now,
           inference_results := inference_results l @ [(r, now)]\<rparr>)"

text \<open>The thread's loop over the values and clock readings its passes meet, while it runs.\<close>

definition inference_run :: "(rat list \<Rightarrow> rat pyres) \<Rightarrow> (bool \<times> rat list \<times> rat) list \<Rightarrow> inference_loop \<Rightarrow> inference_loop" where
  "inference_run response passes l =
     fold (\<lambda>(running, vs, now) l. inference_pass response vs now l) (takeWhile fst passes) l"

definition get_latest_inference :: "inference_loop \<Rightarrow> rat option \<times> rat option" where
  "get_latest_inference l = (latest_inference_result l, latest_inference_ts l)"

section \<open>Aggregation of the workers' results\<close>

definition extend_at :: "Instrument \<Rightarrow> 'a list \<Rightarrow> (Instrument, 'a list) dict \<Rightarrow> (Instrument, 'a list) dict" where
  "extend_at i xs d = (case map_of d i of Some ys \<Rightarrow> dict_put i (ys @ xs) d | None \<Rightarrow> dict_put i xs d)"

definition aggregate_one :: "LoopRunResult \<Rightarrow> LoopRunResult \<Rightarrow> LoopRunResult pyres" where
  "aggregate_one res agg =
     bindE (foldE (\<lambda>(i, trades) prices.
              bindE (dict_lookup (lr_sampled_prices res) i) (\<lambda>ps. Inr (extend_at i ps prices)))
              (lr_executed_trades res) (lr_sampled_prices agg)) (\<lambda>prices.
       Inr \<lparr>lr_executed_trades = fold (\<lambda>(i, trades) d. extend_at i trades d) (lr_executed_trades res) (lr_executed_trades agg),
            lr_portfolio_balances = lr_portfolio_balances agg @ lr_portfolio_balances res,
            lr_sampled_prices = prices,
            lr_inference_results = lr_inference_results agg @ lr_inference_results res\<rparr>)"

definition aggregate_loop_run_results :: "LoopRunResult list \<Rightarrow> LoopRunResult pyres" where
  "aggregate_loop_run_results results =
     foldE aggregate_one results
       \<lparr>lr_executed_trades = [], lr_portfolio_balances = [], lr_sampled_prices = [], lr_inference_results = []\<rparr>"

section \<open>The books of a run\<close>

text \<open>Between passes no order is open, nothing is locked, no balance is negative, and the trades are
  exactly the orders, each once.\<close>

definition settled :: "(nat \<Rightarrow> string) \<Rightarrow> 's backtest \<Rightarrow> bool" where
  "settled uuid bt \<longleftrightarrow>
     (let os = orders (bt_simulator bt) in
      book_inv (bt_portfolio bt) os \<and> (\<forall>ord\<in>set os. \<not> is_open ord) \<and> drawn uuid (bt_uuids bt) os \<and>
      mset (map tr_order_id (flat (executed_trades (bt_simulator bt)))) = mset (map order_id os))"

lemma add_trade_flat: "mset (flat (add_trade t d)) = add_mset t (mset (flat d))"
  by (auto simp: add_trade_def mset_flat_append mset_flat_put_new split: option.split)

lemma add_trades_flat: "mset (flat (fold add_trade ts d)) = mset (flat d) + mset ts"
  by (induction ts arbitrary: d) (simp_all add: add_trade_flat)

lemma drawn_fill: "drawn uuid n os \<Longrightarrow> n \<le> n' \<Longrightarrow> drawn uuid n' (map fill os)"
  by (fastforce simp: drawn_def intro: less_le_trans)

lemma stage_spec:
  "stage_for_execution now ms os p sim = Inr sim' \<Longrightarrow>
   orders sim' = orders sim @ os \<and> executed_trades sim' = executed_trades sim"
  by (auto simp: stage_for_execution_def record_state_snapshot_def split: if_splits)

lemma update_state_settles:
  assumes "update_state uuid now (Inr ms) (sim, p, n) = Inr (sim', p', n')"
    "book_inv p (orders sim)" "drawn uuid n (orders sim)"
    "\<forall>ord\<in>set (orders sim). is_open ord \<longrightarrow> order_type ord = MARKET \<and> (\<exists>pr. map_of ms (instrument ord) = Some pr \<and> 0 < pr)"
  shows "orders sim' = map fill (orders sim) \<and> book_inv p' (orders sim') \<and> drawn uuid n' (orders sim') \<and>
    mset (map tr_order_id (flat (executed_trades sim'))) =
      mset (map tr_order_id (flat (executed_trades sim))) + mset (map order_id (filter is_open (orders sim)))"
proof -
  have "book_inv p ([] @ orders sim)" using assms(2) by simp
  from execute_market_orders [OF this assms(4), of uuid now n] obtain trades p1 where
    e: "execute_staged_orders uuid now (Inr ms) (orders sim) (p, n) = Inr (trades, map fill (orders sim), p1, n + length trades)"
      "map tr_order_id trades = map order_id (filter is_open (orders sim))" "book_inv p1 ([] @ map fill (orders sim))"
    by blast
  have u: "orders sim' = map fill (orders sim) \<and> p' = p1 \<and> n' = n + length trades \<and>
    executed_trades sim' = fold add_trade trades (executed_trades sim)"
    using assms(1) e(1) by (auto simp: update_state_def record_state_snapshot_def Let_def split: if_splits)
  have "drawn uuid (n + length trades) (map fill (orders sim))"
    using drawn_fill [OF assms(3)] by simp
  moreover have "mset (map tr_order_id (flat (executed_trades sim'))) =
      mset (map tr_order_id (flat (executed_trades sim))) + mset (map tr_order_id trades)"
    using u by (metis add_trades_flat image_mset_union mset_map)
  ultimately show ?thesis using u e(2,3) by simp
qed

context strategy
begin

lemma step_settles:
  assumes "loop_step on_data mids ts_of uuid e bt = Inr bt'" "settled uuid bt" "ok (bt_strategy bt)"
    "positive_mids (mids e)" "inj uuid"
  shows "settled uuid bt' \<and> ok (bt_strategy bt')"
proof -
  from assms(1) obtain made s' p1 n1 sim1 sim2 p2 n2 where
    od: "on_data uuid e (bt_strategy bt, bt_portfolio bt, bt_uuids bt) = Inr (made, s', p1, n1)"
    and st: "(case made of None \<Rightarrow> Inr (bt_simulator bt)
       | Some os \<Rightarrow> if length os > 0 then stage_for_execution (ts_of e) (mids e) os p1 (bt_simulator bt)
                    else Inr (bt_simulator bt)) = Inr sim1"
    and up: "update_state uuid (ts_of e) (mids e) (sim1, p1, n1) = Inr (sim2, p2, n2)"
    and bt': "bt' = \<lparr>bt_strategy = s', bt_simulator = sim2, bt_portfolio = p2, bt_uuids = n2, bt_clock = ts_of e\<rparr>"
    unfolding loop_step_def Let_def by auto
  define os where "os = orders (bt_simulator bt)"
  have S: "book_inv (bt_portfolio bt) os" "\<forall>ord\<in>set os. \<not> is_open ord" "drawn uuid (bt_uuids bt) os"
    "mset (map tr_order_id (flat (executed_trades (bt_simulator bt)))) = mset (map order_id os)"
    using assms(2) by (simp_all add: settled_def os_def Let_def)
  have inv: "portfolio_inv (bt_portfolio bt)" using S(1) by (simp add: book_inv_def)
  note mk = makes_orders [OF od assms(3) inv assms(4)]
  note bm = book_made_orders [OF mk [THEN conjunct1], of os, simplified, OF S(1,3) assms(5)]
  have sim1: "orders sim1 = os @ made_list made" "executed_trades sim1 = executed_trades (bt_simulator bt)"
    using st stage_spec [of "ts_of e" "mids e" "made_list made" p1 "bt_simulator bt" sim1]
    by (auto simp: os_def split: option.splits if_splits)
  obtain ms where ms: "mids e = Inr ms" using assms(4) by (auto simp: positive_mids_def)
  have op: "\<forall>ord\<in>set (orders sim1). is_open ord \<longrightarrow> order_type ord = MARKET \<and> (\<exists>pr. map_of ms (instrument ord) = Some pr \<and> 0 < pr)"
    using S(2) bm mk by (auto simp: sim1 priced_def ms)
  have bk: "book_inv p1 (orders sim1)" "drawn uuid n1 (orders sim1)" using bm by (simp_all add: sim1)
  note us = update_state_settles [OF up [unfolded ms] bk op]
  have "filter is_open (orders sim1) = made_list made"
    using S(2) bm by (simp add: sim1 filter_empty_conv filter_True)
  then show ?thesis
    using us mk S(4) by (auto simp: settled_def bt' Let_def sim1 multiset.map_comp comp_def)
qed

lemma run_settles:
  assumes "run_loop feed view (loop_step on_data mids ts_of uuid) running k (g, bt) = Inr (g', bt')"
    "settled uuid bt" "ok (bt_strategy bt)" "inj uuid" "I g"
    "\<And>g e g' k. I g \<Longrightarrow> generator_next feed g = Inr (e, g') \<Longrightarrow>
       I g' \<and> (\<forall>ev. e = Some ev \<longrightarrow> positive_mids (mids (view ev k)))"
  shows "settled uuid bt' \<and> ok (bt_strategy bt')"
  using assms
proof (induction feed view "loop_step on_data mids ts_of uuid" running k "(g, bt)" arbitrary: g bt rule: run_loop.induct)
  case (1 feed view running k g bt)
  show ?case
  proof (cases "running k \<and> has_next g")
    case False
    then have "run_loop feed view (loop_step on_data mids ts_of uuid) running k (g, bt) = Inr (g, bt)"
      by (subst run_loop.simps) auto
    then show ?thesis using 1(2-4) by simp
  next
    case True
    have unfolded: "(case generator_next feed g of Inl err \<Rightarrow> Inl err
         | Inr (data_event, g') \<Rightarrow>
             (case (case data_event of None \<Rightarrow> Inr bt | Some e \<Rightarrow> loop_step on_data mids ts_of uuid (view e k) bt) of
                Inl err \<Rightarrow> Inl err
              | Inr bt' \<Rightarrow> run_loop feed view (loop_step on_data mids ts_of uuid) running (Suc k) (g', bt'))) = Inr (g', bt')"
      using 1(2) True by (subst (asm) run_loop.simps) simp
    then obtain ev g1 bt1 where n: "generator_next feed g = Inr (ev, g1)"
      "(case ev of None \<Rightarrow> Inr bt | Some e \<Rightarrow> loop_step on_data mids ts_of uuid (view e k) bt) = Inr bt1"
      "run_loop feed view (loop_step on_data mids ts_of uuid) running (Suc k) (g1, bt1) = Inr (g', bt')"
      by (auto split: sum.splits)
    have "settled uuid bt1 \<and> ok (bt_strategy bt1)"
      using n(2) 1(3,4) step_settles [OF _ 1(3,4) _ 1(5)] 1(7) [OF 1(6) n(1), of k] by (auto split: option.splits)
    moreover have "I g1" using 1(7) [OF 1(6) n(1)] by simp
    ultimately show ?thesis using 1(1) [OF True n(1) refl n(2) n(3)] 1(5,7) by blast
  qed
qed

end

lemma init_settled:
  assumes "portfolio_inv p" "\<forall>w\<in>set (wallets p). locked w = []"
  shows "settled uuid (init_backtest s p)"
proof -
  have "lock_of p a oid = None" for a oid
    using assms(2) get_wallet_in [of p a] by (auto simp: lock_of_def split: sum.splits)
  then show ?thesis
    using assms(1) by (simp add: settled_def init_backtest_def init_simulator_def book_inv_def drawn_def)
qed

section \<open>Properties\<close>

text \<open>Trading at the market costs the commission and nothing else: executing an order changes the worth of
  the portfolio, at prices that agree with the mid price, by exactly the trade's commission; the order is
  filled, its lock is gone, no other lock and no wallet appears or disappears, and no balance is negative.\<close>

theorem execution_costs_commission:
  assumes "execute_order tid now (Inr ms) ord p = Inr (tr, ord', p')" "portfolio_inv p"
    "map_of ms (instrument ord) = Some pr" "0 < pr"
    "to_asset_instruments (instrument ord) = Inr (base, quote)" "prices base = pr * prices quote"
  shows "worth prices p' = worth prices p - commission tr * prices (case side ord of BUY \<Rightarrow> base | SELL \<Rightarrow> quote) \<and>
    0 \<le> commission tr \<and> status ord' = FILLED \<and> portfolio_inv p' \<and> assets p' = assets p \<and>
    (\<forall>a oid. lock_of p' a oid =
       (if oid = order_id ord \<and> a = (case side ord of BUY \<Rightarrow> quote | SELL \<Rightarrow> base) then None else lock_of p a oid))"
proof -
  from execute_order_spec [OF assms(1-4)] obtain a b qty amount where
    s: "paying_asset ord = Inr a" "receiving_asset ord = Inr b" "converted (side ord) qty pr = Inr amount" "portfolio_inv p'"
      "assets p' = assets p" "\<forall>c oid. lock_of p' c oid = (if c = a \<and> oid = order_id ord then None else lock_of p c oid)"
      "\<forall>prices. worth prices p' = worth prices p - qty * prices a + (amount - amount * COMMISSION) * prices b"
      "commission tr = amount * COMMISSION" "0 \<le> amount" by blast
  have filled: "status ord' = FILLED" using assms(1) unfolding execute_order_unfold by auto
  have cost: "worth prices p' = worth prices p - commission tr * prices b" if "qty * prices a = amount * prices b"
    using s(7) that by (simp add: s(8) left_diff_distrib)
  have fee: "0 \<le> commission tr" using s(8,9) by (simp add: COMMISSION_def)
  show ?thesis
  proof (cases "side ord")
    case BUY
    then have "a = quote" "b = base" using s(1,2) assms(5) by (simp_all add: paying_asset_def receiving_asset_def)
    moreover have "qty * prices quote = amount * prices base"
      using s(3) BUY assms(4,6) by (auto simp: converted_def field_simps)
    ultimately show ?thesis using s(4-6) cost filled fee BUY by auto
  next
    case SELL
    then have "a = base" "b = quote" using s(1,2) assms(5) by (simp_all add: paying_asset_def receiving_asset_def)
    moreover have "qty * prices base = amount * prices quote"
      using s(3) SELL assms(6) by (simp add: converted_def)
    ultimately show ?thesis using s(4-6) cost filled fee SELL by auto
  qed
qed

text \<open>C2. The books of a backtest balance. Whatever the stream library emits, as long as the prices are
  positive, and whenever the run is stopped: if the loop returns, every order of the strategy has been
  executed exactly once, nothing is locked and no balance is negative; and then \<^verbatim>\<open>run\<close> itself raises,
  because it stops an inference loop that the strategy does not have.\<close>

theorem backtest_books_balance:
  assumes "init_buy_low_sell_high params instruments p = Inr s" "portfolio_inv p" "\<forall>w\<in>set (wallets p). locked w = []"
    "inj uuid" "positive_feed feed"
    "run_loop feed (\<lambda>e k. e) (loop_step (blsh_on_data (fd_data_sources feed)) (get_mid_prices_from_event (fd_data_sources feed)) ev_timestamp uuid)
       running 0 (init_generator st events, init_backtest s p) = Inr (g, bt)"
  shows "(\<forall>ord\<in>set (orders (bt_simulator bt)). status ord = FILLED \<or> status ord = CANCELLED) \<and>
    distinct (map order_id (orders (bt_simulator bt))) \<and>
    mset (map tr_order_id (flat (executed_trades (bt_simulator bt)))) = mset (map order_id (orders (bt_simulator bt))) \<and>
    (\<forall>w\<in>set (wallets (bt_portfolio bt)). locked w = [] \<and> 0 \<le> balance w) \<and>
    loop_run feed (\<lambda>e k. e) (loop_step (blsh_on_data (fd_data_sources feed)) (get_mid_prices_from_event (fd_data_sources feed)) ev_timestamp uuid)
       running None (init_generator st events, init_backtest s p) = Inl AttributeError"
proof -
  have "0 \<le> (1 :: rat) / of_nat (length instruments)" by simp
  then have "blsh_ok s"
    by (intro foldE_invariant [where I = blsh_ok, OF assms(1) [unfolded init_buy_low_sell_high_def]])
      (auto simp: blsh_ok_def sp_ok_def init_state_per_instrument_def split: prod.splits dest!: put_set)
  then have "settled uuid bt"
    using blsh.run_settles [OF assms(6) init_settled [OF assms(2,3)] _ assms(4), where I = positive_out]
      generator_next_positive [OF _ _ assms(5)]
    by (auto simp: init_backtest_def positive_out_def init_generator_def positive_mids_def)
  then have S: "book_inv (bt_portfolio bt) (orders (bt_simulator bt))" "\<forall>ord\<in>set (orders (bt_simulator bt)). \<not> is_open ord"
    "mset (map tr_order_id (flat (executed_trades (bt_simulator bt)))) = mset (map order_id (orders (bt_simulator bt)))"
    by (simp_all add: settled_def Let_def)
  have "\<forall>w\<in>set (wallets (bt_portfolio bt)). locked w = [] \<and> 0 \<le> balance w"
    using no_open_no_locks [OF S(1,2)] S(1) by (auto simp: book_inv_def portfolio_inv_def list_all_iff wallet_inv_def)
  moreover have "distinct (map order_id (orders (bt_simulator bt)))" using S(1) by (simp add: book_inv_def)
  ultimately show ?thesis
    using S(2,3) assms(6) by (auto simp: is_open_def loop_run_def)
qed

definition price_feed :: "(string, rat \<times> rat, unit) feed" where
  "price_feed =
     \<lparr>fd_emit = (\<lambda>f (d, t, price) st.
        (st, [Some [(f, [(''timestamp'', t), (''receipt_timestamp'', t), (''mid_price'', max 1 price)])]])),
      fd_consumes = (\<lambda>f d. f = d), fd_features = [''mid''], fd_ts_of = fst,
      fd_data_sources = (\<lambda>f. [[(''exchange'', ''BINANCE''), (''instrument_type'', ''spot''), (''symbol'', ''BTC-USDT'')]])\<rparr>"

definition price_events :: "(string \<times> rat \<times> rat) list" where
  "price_events = [(''mid'', 1, 10), (''mid'', 2, 8), (''mid'', 3, 12), (''mid'', 4, 14)]"

definition thresholds :: "(string, rat) dict" where
  "thresholds = [(''buy_signal_thresh'', 5 / 100), (''sell_signal_thresh'', 5 / 100)]"

definition sample_blsh :: blsh where
  "sample_blsh = [(btc_usdt, btc_state)]"

definition sample_run :: "((string, rat \<times> rat, unit) generator \<times> blsh backtest) pyres" where
  "sample_run = run_loop price_feed (\<lambda>e k. e)
     (loop_step (blsh_on_data (fd_data_sources price_feed)) (get_mid_prices_from_event (fd_data_sources price_feed)) ev_timestamp show_nat)
     (\<lambda>k. True) 0 (init_generator () price_events, init_backtest sample_blsh two_wallets)"

lemma sample_run_orders:
  "(case sample_run of Inl e \<Rightarrow> False | Inr (g, bt) \<Rightarrow> map order_id (orders (bt_simulator bt)) = [''0''])"
  by code_simp

lemma price_feed_positive: "positive_feed price_feed"
  by (auto simp: positive_feed_def price_feed_def positive_values_def)

theorem backtest_books_balance_witness:
  "\<exists>g bt. sample_run = Inr (g, bt) \<and> orders (bt_simulator bt) \<noteq> [] \<and>
     mset (map tr_order_id (flat (executed_trades (bt_simulator bt)))) = {#''0''#} \<and>
     (\<forall>w\<in>set (wallets (bt_portfolio bt)). locked w = [] \<and> 0 \<le> balance w)"
proof -
  obtain g bt where run: "sample_run = Inr (g, bt)" "map order_id (orders (bt_simulator bt)) = [''0'']"
    using sample_run_orders by (auto split: sum.splits)
  have init: "init_buy_low_sell_high thresholds [btc_usdt] two_wallets = Inr sample_blsh" by code_simp
  have free: "\<forall>w\<in>set (wallets two_wallets). locked w = []" by (simp add: two_wallets_def)
  from backtest_books_balance [OF init two_wallets_inv free show_nat_injective price_feed_positive run(1) [unfolded sample_run_def]]
  show ?thesis using run by (intro exI [of _ g] exI [of _ bt]) (auto simp del: mset_map)
qed

definition buy_order :: Order where
  "buy_order = \<lparr>order_id = ''7'', order_type = MARKET, side = BUY, instrument = btc_usdt, price = 10, quantity = 90,
     status = OPEN\<rparr>"

definition locked_wallets :: Portfolio where
  "locked_wallets = \<lparr>wallets = [\<lparr>asset_instrument = asset ''BTC'', balance = 1, locked = []\<rparr>,
       \<lparr>asset_instrument = asset ''USDT'', balance = 100, locked = [(''7'', 900)]\<rparr>], portfolio_quote = asset ''USDT''\<rparr>"

theorem execution_costs_commission_witness:
  "\<exists>tr ord' p'. execute_order ''8'' 5 (Inr [(btc_usdt, 10)]) buy_order locked_wallets = Inr (tr, ord', p') \<and>
     worth (\<lambda>a. if a = asset ''BTC'' then 10 else 1) p' = 1010 - commission tr * 10"
proof -
  have inv: "portfolio_inv locked_wallets"
    by (simp add: portfolio_inv_def locked_wallets_def wallet_inv_def asset_def dict_wf_def dict_all_def)
  have "\<not> isl (execute_order ''8'' 5 (Inr [(btc_usdt, 10)]) buy_order locked_wallets)" by code_simp
  then obtain tr ord' p' where run: "execute_order ''8'' 5 (Inr [(btc_usdt, 10)]) buy_order locked_wallets = Inr (tr, ord', p')"
    by (metis isl_def sum.exhaust surj_pair)
  have to: "to_asset_instruments (instrument buy_order) = Inr (asset ''BTC'', asset ''USDT'')"
    using btc_usdt_assets by (simp add: buy_order_def)
  have "map_of [(btc_usdt, 10 :: rat)] (instrument buy_order) = Some 10" by (simp add: buy_order_def)
  from execution_costs_commission [OF run inv this _ to, of "\<lambda>a. if a = asset ''BTC'' then 10 else 1"]
  have "worth (\<lambda>a. if a = asset ''BTC'' then 10 else 1) p' =
      worth (\<lambda>a. if a = asset ''BTC'' then 10 else 1) locked_wallets - commission tr * 10"
    by (simp add: asset_def buy_order_def)
  moreover have "worth (\<lambda>a. if a = asset ''BTC'' then 10 else 1) locked_wallets = 1010"
    by (simp add: worth_def locked_wallets_def total_balance_def locked_balance_def asset_def)
  ultimately show ?thesis using run by auto
qed

end
