(* ===== verification/Executor.thy ===== *)
theory Executor
  imports Prelude
begin

text \<open>
  featurizer/task_graph/executor.py: the nodes of a task graph are started under a bound on
  the number of running tasks and their results collected per key. Ray is the environment:
  \<open>execute\<close> gives the reference of a started node, and every call of \<open>ray.wait\<close> is answered
  by the next function of a list, from the references asked for to the ready ones. When the
  list runs out the call has not returned yet (\<open>None\<close>).
\<close>

section \<open>The loops of \<open>execute_flattened_nodes\<close>\<close>

record ('k, 'r) executor =
  next_node :: nat
  executing_refs_per_key :: "('k, 'r list) dict"
  results_refs_per_key :: "('k, 'r list) dict"

definition init_executor :: "('k, 'r) executor" where
  "init_executor = \<lparr>next_node = 0, executing_refs_per_key = [], results_refs_per_key = []\<rparr>"

fun get_key_by_ref :: "'r \<Rightarrow> ('k, 'r list) dict \<Rightarrow> 'k option" where
  "get_key_by_ref ref [] = None"
| "get_key_by_ref ref ((k, refs) # d) = (if ref \<in> set refs then Some k else get_key_by_ref ref d)"

text \<open>\<open>d[k].append(x) if k in d else d[k] = [x]\<close>.\<close>

definition append_ref :: "'k \<Rightarrow> 'r \<Rightarrow> ('k, 'r list) dict \<Rightarrow> ('k, 'r list) dict" where
  "append_ref k r d = (case map_of d k of Some rs \<Rightarrow> dict_put k (rs @ [r]) d | None \<Rightarrow> dict_put k [r] d)"

definition schedule_node ::
    "('n \<Rightarrow> 'r) \<Rightarrow> int \<Rightarrow> ('k \<times> 'n) list \<Rightarrow> ('k, 'r) executor \<Rightarrow> ('k, 'r) executor" where
  "schedule_node execute parallelism nodes s =
     (if (\<Sum>k\<leftarrow>executing_refs_per_key s. int (length (snd k))) < parallelism
      then let (key, node) = nodes ! next_node s
           in s\<lparr>executing_refs_per_key := append_ref key (execute node) (executing_refs_per_key s),
                next_node := next_node s + 1\<rparr>
      else s)"

text \<open>One ready reference moves from the running ones of its key to the results.\<close>

definition collect_ref :: "'r \<Rightarrow> ('k, 'r) executor \<Rightarrow> ('k, 'r) executor pyres" where
  "collect_ref ref s =
     (case get_key_by_ref ref (executing_refs_per_key s) of
        None \<Rightarrow> Inl KeyError
      | Some key \<Rightarrow>
          bindE (dict_lookup (executing_refs_per_key s) key) (\<lambda>refs.
          bindE (py_remove ref refs) (\<lambda>refs'.
            Inr (s\<lparr>results_refs_per_key := append_ref key ref (results_refs_per_key s),
                   executing_refs_per_key := dict_put key refs' (executing_refs_per_key s)\<rparr>))))"

fun run_nodes ::
    "('n \<Rightarrow> 'r) \<Rightarrow> int \<Rightarrow> ('k \<times> 'n) list \<Rightarrow> ('r list \<Rightarrow> 'r list) list \<Rightarrow> ('k, 'r) executor
     \<Rightarrow> (('k, 'r) executor \<times> ('r list \<Rightarrow> 'r list) list) option pyres" where
  "run_nodes execute par nodes [] s =
     Inr (if next_node s < length nodes \<or> flat (executing_refs_per_key s) \<noteq> [] then None else Some (s, []))"
| "run_nodes execute par nodes (w # ws) s =
     (if next_node s < length nodes then
        let s1 = schedule_node execute par nodes s
        in bindE (foldE collect_ref (w (flat (executing_refs_per_key s1))) s1) (run_nodes execute par nodes ws)
      else if flat (executing_refs_per_key s) \<noteq> [] then
        bindE (foldE collect_ref (w (flat (executing_refs_per_key s))) s) (run_nodes execute par nodes ws)
      else Inr (Some (s, w # ws)))"

definition execute_flattened_nodes ::
    "('n \<Rightarrow> 'r) \<Rightarrow> ('k \<times> 'n) list \<Rightarrow> int \<Rightarrow> ('r list \<Rightarrow> 'r list) list
     \<Rightarrow> (('k, 'r list) dict \<times> ('r list \<Rightarrow> 'r list) list) option pyres" where
  "execute_flattened_nodes execute nodes parallelism waits =
     bindE (run_nodes execute parallelism nodes waits init_executor)
       (\<lambda>r. Inr (map_option (\<lambda>(s, ws). (results_refs_per_key s, ws)) r))"

text \<open>\<open>execute_graph\<close> runs the ranges one after the other; \<open>sorted_items\<close> is Python's sort under
  the order of the interval library, \<open>get\<close> is \<open>ray.get\<close>.\<close>

definition dict_update :: "('k, 'v) dict \<Rightarrow> ('k, 'v) dict \<Rightarrow> ('k, 'v) dict" where
  "dict_update d e = fold (\<lambda>(k, v) d. dict_put k v d) e d"

fun run_ranges ::
    "('n \<Rightarrow> 'r) \<Rightarrow> int \<Rightarrow> ('i, ('k, 'n) dict) dict \<Rightarrow> ('r list \<Rightarrow> 'r list) list \<Rightarrow> ('k, 'r list) dict
     \<Rightarrow> ('k, 'r list) dict option pyres" where
  "run_ranges execute par [] waits refs_by_interval = Inr (Some refs_by_interval)"
| "run_ranges execute par ((range_interval, nodes) # dag) waits refs_by_interval =
     bindE (execute_flattened_nodes execute nodes par waits) (\<lambda>r. case r of
       None \<Rightarrow> Inr None
     | Some (refs, waits') \<Rightarrow> run_ranges execute par dag waits' (dict_update refs_by_interval refs))"

definition execute_graph ::
    "('n \<Rightarrow> 'r) \<Rightarrow> (('k \<times> 'r list) list \<Rightarrow> ('k \<times> 'r list) list) \<Rightarrow> ('r \<Rightarrow> 'b)
     \<Rightarrow> ('i, ('k, 'n) dict) dict \<Rightarrow> int \<Rightarrow> ('r list \<Rightarrow> 'r list) list \<Rightarrow> 'b list option pyres" where
  "execute_graph execute sorted_items get dag parallelism waits =
     bindE (run_ranges execute parallelism dag waits [])
       (\<lambda>r. Inr (map_option (\<lambda>refs. map get (flat (sorted_items refs))) r))"

section \<open>The dictionaries of references\<close>

definition refs_at :: "('k, 'r list) dict \<Rightarrow> 'k \<Rightarrow> 'r list" where
  "refs_at d k = (case map_of d k of None \<Rightarrow> [] | Some rs \<Rightarrow> rs)"

lemma refs_at_Nil [simp]: "refs_at [] k = []"
  by (simp add: refs_at_def)

lemma refs_at_put [simp]: "refs_at (dict_put k rs d) k' = (if k' = k then rs else refs_at d k')"
  by (simp add: refs_at_def)

lemma append_ref_at [simp]: "refs_at (append_ref k r d) k' = refs_at d k' @ (if k' = k then [r] else [])"
  by (simp add: append_ref_def refs_at_def split: option.split)

lemma append_ref_wf [simp]: "dict_wf d \<Longrightarrow> dict_wf (append_ref k r d)"
  by (auto simp: append_ref_def split: option.split)

lemma append_ref_flat [simp]: "mset (flat (append_ref k r d)) = add_mset r (mset (flat d))"
  by (auto simp: append_ref_def mset_flat_put_new mset_flat_append split: option.split)

lemma refs_at_flat: "set (refs_at d k) \<subseteq> set (flat d)"
  using flat_get [of d k] by (cases "map_of d k") (simp_all add: refs_at_def)

lemma flat_refs_at: "dict_wf d \<Longrightarrow> r \<in> set (flat d) \<Longrightarrow> \<exists>k. r \<in> set (refs_at d k)"
  by (force simp: set_flat refs_at_def dict_wf_def split: option.splits)

lemma get_key_by_ref_in: "ref \<in> set (flat d) \<Longrightarrow> dict_wf d \<Longrightarrow>
  \<exists>k rs. get_key_by_ref ref d = Some k \<and> map_of d k = Some rs \<and> ref \<in> set rs"
proof (induction d)
  case Nil
  then show ?case by simp
next
  case (Cons p d)
  obtain k rs where p: "p = (k, rs)" by (cases p)
  show ?case
  proof (cases "ref \<in> set rs")
    case True
    with p show ?thesis by simp
  next
    case False
    with Cons.prems p have "ref \<in> set (flat d)" "dict_wf d" "k \<notin> fst ` set d" by (auto simp: dict_wf_def)
    with Cons.IH False p show ?thesis by (force dest: map_of_SomeD)
  qed
qed

lemma sum_length_flat: "(\<Sum>k\<leftarrow>d. int (length (snd k))) = int (length (flat d))"
  by (induction d) auto

section \<open>Nothing is lost\<close>

text \<open>The references of the started nodes of a key.\<close>

definition started :: "('n \<Rightarrow> 'r) \<Rightarrow> ('k \<times> 'n) list \<Rightarrow> nat \<Rightarrow> 'k \<Rightarrow> 'r list" where
  "started execute nodes i k = map (execute \<circ> snd) (filter (\<lambda>p. fst p = k) (take i nodes))"

definition executor_inv :: "('n \<Rightarrow> 'r) \<Rightarrow> int \<Rightarrow> ('k \<times> 'n) list \<Rightarrow> ('k, 'r) executor \<Rightarrow> bool" where
  "executor_inv execute par nodes s \<longleftrightarrow>
     next_node s \<le> length nodes \<and>
     dict_wf (executing_refs_per_key s) \<and> dict_wf (results_refs_per_key s) \<and>
     int (length (flat (executing_refs_per_key s))) \<le> max par 0 \<and>
     mset (flat (executing_refs_per_key s)) + mset (flat (results_refs_per_key s))
        = mset (map (execute \<circ> snd) (take (next_node s) nodes)) \<and>
     (\<forall>k. mset (refs_at (executing_refs_per_key s) k) + mset (refs_at (results_refs_per_key s) k)
        = mset (started execute nodes (next_node s) k))"

lemma init_executor_inv: "executor_inv execute par nodes init_executor"
  by (simp add: executor_inv_def init_executor_def started_def dict_wf_def)

lemma schedule_node_inv:
  assumes "executor_inv execute par nodes s" "next_node s < length nodes"
  shows "executor_inv execute par nodes (schedule_node execute par nodes s)"
proof (cases "int (length (flat (executing_refs_per_key s))) < par")
  case False
  then show ?thesis using assms by (simp add: schedule_node_def sum_length_flat)
next
  case True
  obtain key node where n: "nodes ! next_node s = (key, node)" by (cases "nodes ! next_node s")
  have len: "length (flat (append_ref key (execute node) (executing_refs_per_key s)))
      = Suc (length (flat (executing_refs_per_key s)))"
    by (metis append_ref_flat size_add_mset size_mset)
  show ?thesis
    using assms True n len
    by (simp add: schedule_node_def sum_length_flat executor_inv_def started_def take_Suc_conv_app_nth)
qed

lemma collect_ref_inv:
  assumes "executor_inv execute par nodes s" "ref \<in> set (flat (executing_refs_per_key s))"
  shows "\<exists>s'. collect_ref ref s = Inr s' \<and> executor_inv execute par nodes s' \<and>
    next_node s' = next_node s \<and>
    add_mset ref (mset (flat (executing_refs_per_key s'))) = mset (flat (executing_refs_per_key s))"
proof -
  from assms get_key_by_ref_in [OF assms(2)] obtain k rs where
    k: "get_key_by_ref ref (executing_refs_per_key s) = Some k"
      "map_of (executing_refs_per_key s) k = Some rs" "ref \<in> set rs"
    by (auto simp: executor_inv_def)
  let ?s' = "s\<lparr>results_refs_per_key := append_ref k ref (results_refs_per_key s),
    executing_refs_per_key := dict_put k (remove1 ref rs) (executing_refs_per_key s)\<rparr>"
  from k have eq: "collect_ref ref s = Inr ?s'" by (simp add: collect_ref_def dict_lookup_def py_remove_def)
  from k have flat: "add_mset ref (mset (flat (executing_refs_per_key ?s'))) = mset (flat (executing_refs_per_key s))"
    by (simp add: mset_flat_remove)
  have "length (flat (executing_refs_per_key ?s')) < length (flat (executing_refs_per_key s))"
    using arg_cong [OF flat, of size] by simp
  moreover have "mset (refs_at (executing_refs_per_key s) k) = add_mset ref (mset (remove1 ref rs))"
    using k by (simp add: refs_at_def)
  ultimately have "executor_inv execute par nodes ?s'"
    using assms(1) k flat [symmetric] unfolding executor_inv_def
    by (auto simp del: mset_remove1) (metis union_mset_add_mset_left)
  with eq flat show ?thesis by auto
qed

lemma collect_refs_inv:
  assumes "executor_inv execute par nodes s" "distinct refs" "set refs \<subseteq> set (flat (executing_refs_per_key s))"
  shows "\<exists>s'. foldE collect_ref refs s = Inr s' \<and> executor_inv execute par nodes s' \<and>
    next_node s' = next_node s \<and>
    mset refs + mset (flat (executing_refs_per_key s')) = mset (flat (executing_refs_per_key s))"
  using assms
proof (induction refs arbitrary: s)
  case Nil
  then show ?case by simp
next
  case (Cons r refs)
  from Cons.prems collect_ref_inv [of execute par nodes s r] obtain s1 where
    s1: "collect_ref r s = Inr s1" "executor_inv execute par nodes s1" "next_node s1 = next_node s"
      "add_mset r (mset (flat (executing_refs_per_key s1))) = mset (flat (executing_refs_per_key s))"
    by auto
  have "x \<in> set (flat (executing_refs_per_key s1))" if "x \<in> set refs" for x
  proof -
    from that Cons.prems have "x \<noteq> r" "x \<in># mset (flat (executing_refs_per_key s))" by auto
    with s1(4) show ?thesis by (metis insert_iff set_mset_add_mset_insert set_mset_mset)
  qed
  with Cons.IH [OF s1(2)] Cons.prems(2) obtain s2 where "foldE collect_ref refs s1 = Inr s2"
    "executor_inv execute par nodes s2" "next_node s2 = next_node s1"
    "mset refs + mset (flat (executing_refs_per_key s2)) = mset (flat (executing_refs_per_key s1))" by auto
  with s1 show ?case by (auto simp flip: s1(4))
qed

section \<open>Runs\<close>

text \<open>What \<open>ray.wait\<close> documents: the ready references are among those asked for, each once;
  when it is asked to wait for some, at least one comes back.\<close>

definition wait_ok :: "('r list \<Rightarrow> 'r list) \<Rightarrow> bool" where
  "wait_ok w = (\<forall>refs. distinct refs \<longrightarrow> distinct (w refs) \<and> set (w refs) \<subseteq> set refs)"

definition wait_progress :: "('r list \<Rightarrow> 'r list) \<Rightarrow> bool" where
  "wait_progress w = (\<forall>refs. refs \<noteq> [] \<longrightarrow> w refs \<noteq> [])"

definition fresh_refs :: "('n \<Rightarrow> 'r) \<Rightarrow> ('k \<times> 'n) list \<Rightarrow> bool" where
  "fresh_refs execute nodes = distinct (map (execute \<circ> snd) nodes)"

text \<open>The running references are distinct, for every started node has its own.\<close>

lemma executing_distinct:
  assumes "executor_inv execute par nodes s" "fresh_refs execute nodes"
  shows "distinct (flat (executing_refs_per_key s))"
proof -
  have "distinct (map (execute \<circ> snd) (take (next_node s) nodes))"
    using assms(2) unfolding fresh_refs_def by (metis distinct_take take_map)
  moreover have "mset (flat (executing_refs_per_key s) @ flat (results_refs_per_key s))
      = mset (map (execute \<circ> snd) (take (next_node s) nodes))"
    using assms(1) by (simp add: executor_inv_def)
  ultimately have "distinct (flat (executing_refs_per_key s) @ flat (results_refs_per_key s))"
    by (metis mset_eq_imp_distinct_iff)
  then show ?thesis by simp
qed

lemma collect_wait_inv:
  assumes "executor_inv execute par nodes s" "fresh_refs execute nodes" "wait_ok w"
  shows "\<exists>s'. foldE collect_ref (w (flat (executing_refs_per_key s))) s = Inr s' \<and>
    executor_inv execute par nodes s' \<and> next_node s' = next_node s \<and>
    length (w (flat (executing_refs_per_key s))) + length (flat (executing_refs_per_key s'))
      = length (flat (executing_refs_per_key s))"
proof -
  have "distinct (flat (executing_refs_per_key s))" using executing_distinct [OF assms(1,2)] .
  with assms(3) have "distinct (w (flat (executing_refs_per_key s)))"
    "set (w (flat (executing_refs_per_key s))) \<subseteq> set (flat (executing_refs_per_key s))"
    by (simp_all add: wait_ok_def)
  from collect_refs_inv [OF assms(1) this] obtain s' where
    s': "foldE collect_ref (w (flat (executing_refs_per_key s))) s = Inr s'"
      "executor_inv execute par nodes s'" "next_node s' = next_node s"
      "mset (w (flat (executing_refs_per_key s))) + mset (flat (executing_refs_per_key s'))
        = mset (flat (executing_refs_per_key s))" by blast
  from arg_cong [OF s'(4), of size] have "length (w (flat (executing_refs_per_key s)))
      + length (flat (executing_refs_per_key s')) = length (flat (executing_refs_per_key s))" by simp
  with s'(1-3) show ?thesis by blast
qed

lemma run_nodes_inv:
  assumes "executor_inv execute par nodes s" "fresh_refs execute nodes" "list_all wait_ok waits"
  shows "\<exists>r. run_nodes execute par nodes waits s = Inr r \<and>
    (\<forall>s' ws. r = Some (s', ws) \<longrightarrow> executor_inv execute par nodes s' \<and>
       next_node s' = length nodes \<and> flat (executing_refs_per_key s') = [] \<and> list_all wait_ok ws)"
  using assms
proof (induction waits arbitrary: s)
  case Nil
  then show ?case by (auto simp: executor_inv_def)
next
  case (Cons w ws)
  consider (more) "next_node s < length nodes" | (rest) "\<not> next_node s < length nodes" "flat (executing_refs_per_key s) \<noteq> []"
    | (finished) "\<not> next_node s < length nodes" "flat (executing_refs_per_key s) = []" by blast
  then show ?case
  proof cases
    case more
    let ?s1 = "schedule_node execute par nodes s"
    from collect_wait_inv [OF schedule_node_inv [OF Cons.prems(1) more] Cons.prems(2), of w] Cons.prems(3)
    obtain s2 where "foldE collect_ref (w (flat (executing_refs_per_key ?s1))) ?s1 = Inr s2"
      "executor_inv execute par nodes s2" by auto
    with Cons.IH [of s2] Cons.prems more show ?thesis by (simp add: Let_def)
  next
    case rest
    from collect_wait_inv [OF Cons.prems(1,2), of w] Cons.prems(3)
    obtain s2 where "foldE collect_ref (w (flat (executing_refs_per_key s))) s = Inr s2"
      "executor_inv execute par nodes s2" by auto
    with Cons.IH [of s2] Cons.prems rest show ?thesis by simp
  next
    case finished
    with Cons.prems show ?thesis by (auto simp: executor_inv_def)
  qed
qed

text \<open>However Ray answers the waits, running a list of nodes raises nothing, and when it returns the results of every key are exactly the
  references of the nodes started under it.\<close>

theorem execution_collects_every_node:
  assumes "fresh_refs execute nodes" "list_all wait_ok waits"
  shows "\<exists>r. execute_flattened_nodes execute nodes par waits = Inr r \<and>
    (\<forall>results ws k. r = Some (results, ws) \<longrightarrow>
       mset (refs_at results k) = mset (map (execute \<circ> snd) (filter (\<lambda>p. fst p = k) nodes)))"
proof -
  have none: "refs_at (executing_refs_per_key s) k = []" if "flat (executing_refs_per_key s) = []" for s :: "('c, 'b) executor" and k
    using refs_at_flat [of "executing_refs_per_key s" k] that by simp
  from run_nodes_inv [OF init_executor_inv assms, of par] obtain r where
    r: "run_nodes execute par nodes waits init_executor = Inr r"
      "\<And>s' ws. r = Some (s', ws) \<Longrightarrow> executor_inv execute par nodes s' \<and> next_node s' = length nodes \<and>
        flat (executing_refs_per_key s') = []" by blast
  have "mset (refs_at (results_refs_per_key s') k) = mset (map (execute \<circ> snd) (filter (\<lambda>p. fst p = k) nodes))"
    if "r = Some (s', ws)" for s' ws k
    using r(2) [OF that] none [of s' k] unfolding executor_inv_def started_def
    by (metis add_0 mset.simps(1) order_refl take_all)
  with r(1) show ?thesis by (auto simp: execute_flattened_nodes_def)
qed

theorem execution_collects_every_node_witness:
  "\<exists>r. execute_flattened_nodes id [(CHR ''a'', 1 :: nat), (CHR ''b'', 2), (CHR ''a'', 3)] 2 (replicate 6 (take 1)) = Inr r \<and>
    (\<forall>results ws k. r = Some (results, ws) \<longrightarrow>
       mset (refs_at results k) = mset (map (id \<circ> snd) (filter (\<lambda>p. fst p = k) [(CHR ''a'', 1 :: nat), (CHR ''b'', 2), (CHR ''a'', 3)])))"
  by (rule execution_collects_every_node)
    (simp_all add: fresh_refs_def wait_ok_def set_take_subset list_all_iff)

section \<open>The bound on running tasks\<close>

inductive executor_reach ::
    "('n \<Rightarrow> 'r) \<Rightarrow> int \<Rightarrow> ('k \<times> 'n) list \<Rightarrow> ('k, 'r) executor \<Rightarrow> bool"
  for execute par nodes where
  reach_init: "executor_reach execute par nodes init_executor"
| reach_schedule: "executor_reach execute par nodes s \<Longrightarrow> next_node s < length nodes \<Longrightarrow>
    executor_reach execute par nodes (schedule_node execute par nodes s)"
| reach_collect: "executor_reach execute par nodes s \<Longrightarrow> ref \<in> set (flat (executing_refs_per_key s)) \<Longrightarrow>
    collect_ref ref s = Inr s' \<Longrightarrow> executor_reach execute par nodes s'"

lemma executor_reach_inv: "executor_reach execute par nodes s \<Longrightarrow> executor_inv execute par nodes s"
proof (induction rule: executor_reach.induct)
  case reach_init
  show ?case by (rule init_executor_inv)
next
  case (reach_schedule s)
  then show ?case by (blast intro: schedule_node_inv)
next
  case (reach_collect s ref s')
  then show ?case using collect_ref_inv [of execute par nodes s ref] by auto
qed

text \<open>C5. At every moment of a run, after every start and every collected result, at most
  \<open>parallelism\<close> tasks are running, whatever the nodes and whatever becomes ready.\<close>

theorem execution_is_bounded:
  assumes "executor_reach execute par nodes s" "0 \<le> par"
  shows "int (length (flat (executing_refs_per_key s))) \<le> par"
  using executor_reach_inv [OF assms(1)] assms(2) by (simp add: executor_inv_def)

theorem execution_is_bounded_witness:
  "int (length (flat (executing_refs_per_key
     (schedule_node id 1 [(CHR ''a'', 1 :: nat), (CHR ''b'', 2)]
       (schedule_node id 1 [(CHR ''a'', 1), (CHR ''b'', 2)] init_executor))))) \<le> 1"
proof (rule execution_is_bounded)
  let ?nodes = "[(CHR ''a'', 1 :: nat), (CHR ''b'', 2)]"
  have "executor_reach id 1 ?nodes (schedule_node id 1 ?nodes init_executor)"
    by (rule reach_schedule [OF reach_init]) (simp add: init_executor_def)
  moreover have "next_node (schedule_node id 1 ?nodes init_executor) < length ?nodes"
    by (simp add: schedule_node_def init_executor_def)
  ultimately show "executor_reach id 1 ?nodes (schedule_node id 1 ?nodes (schedule_node id 1 ?nodes init_executor))"
    by (rule reach_schedule)
qed simp

section \<open>A run ends\<close>

definition work_left :: "('k \<times> 'n) list \<Rightarrow> ('k, 'r) executor \<Rightarrow> nat" where
  "work_left nodes s = 2 * (length nodes - next_node s) + length (flat (executing_refs_per_key s))"

lemma schedule_node_work:
  assumes "next_node s < length nodes" "0 < par"
  shows "work_left nodes (schedule_node execute par nodes s) \<le> work_left nodes s"
    "flat (executing_refs_per_key (schedule_node execute par nodes s)) \<noteq> []"
proof -
  obtain key node where n: "nodes ! next_node s = (key, node)" by (cases "nodes ! next_node s")
  have len: "length (flat (append_ref key (execute node) (executing_refs_per_key s)))
      = Suc (length (flat (executing_refs_per_key s)))"
    by (metis append_ref_flat size_add_mset size_mset)
  show "work_left nodes (schedule_node execute par nodes s) \<le> work_left nodes s"
    using assms n len by (auto simp: schedule_node_def work_left_def)
  show "flat (executing_refs_per_key (schedule_node execute par nodes s)) \<noteq> []"
    using assms n len by (auto simp: schedule_node_def sum_length_flat)
qed

lemma run_nodes_ends:
  assumes "executor_inv execute par nodes s" "fresh_refs execute nodes" "0 < par"
    "list_all wait_ok waits" "list_all wait_progress waits" "work_left nodes s \<le> length waits"
  shows "\<exists>s' ws. run_nodes execute par nodes waits s = Inr (Some (s', ws))"
  using assms
proof (induction waits arbitrary: s)
  case Nil
  then show ?case by (auto simp: work_left_def)
next
  case (Cons w ws)
  have collect: "\<exists>s2. foldE collect_ref (w (flat (executing_refs_per_key s1))) s1 = Inr s2 \<and>
      executor_inv execute par nodes s2 \<and> work_left nodes s2 < work_left nodes s1"
    if "executor_inv execute par nodes s1" "flat (executing_refs_per_key s1) \<noteq> []" for s1
  proof -
    note s1 = that
    have "w (flat (executing_refs_per_key s1)) \<noteq> []" using Cons.prems(5) that(2) by (simp add: wait_progress_def)
    then have "0 < length (w (flat (executing_refs_per_key s1)))" by simp
    moreover obtain s2 where "foldE collect_ref (w (flat (executing_refs_per_key s1))) s1 = Inr s2"
      "executor_inv execute par nodes s2" "next_node s2 = next_node s1"
      "length (w (flat (executing_refs_per_key s1))) + length (flat (executing_refs_per_key s2))
        = length (flat (executing_refs_per_key s1))"
      using collect_wait_inv [OF s1(1) Cons.prems(2), of w] Cons.prems(4) by auto
    ultimately show ?thesis unfolding work_left_def length_greater_0_conv [symmetric] by (intro exI [of _ s2]) linarith+
  qed
  consider (more) "next_node s < length nodes" | (rest) "\<not> next_node s < length nodes" "flat (executing_refs_per_key s) \<noteq> []"
    | (finished) "\<not> next_node s < length nodes" "flat (executing_refs_per_key s) = []" by blast
  then show ?case
  proof cases
    case more
    note work = schedule_node_work [OF more Cons.prems(3), of execute]
    from collect [OF schedule_node_inv [OF Cons.prems(1) more] work(2)] obtain s2 where
      s2: "foldE collect_ref (w (flat (executing_refs_per_key (schedule_node execute par nodes s))))
          (schedule_node execute par nodes s) = Inr s2" "executor_inv execute par nodes s2"
        "work_left nodes s2 < work_left nodes s" using work(1) by auto
    with Cons.IH [OF s2(2)] Cons.prems more show ?thesis by (simp add: Let_def)
  next
    case rest
    from collect [OF Cons.prems(1) rest(2)] obtain s2 where
      s2: "foldE collect_ref (w (flat (executing_refs_per_key s))) s = Inr s2"
        "executor_inv execute par nodes s2" "work_left nodes s2 < work_left nodes s" by blast
    with Cons.IH [OF s2(2)] Cons.prems rest show ?thesis by simp
  next
    case finished
    then show ?thesis by simp
  qed
qed



text \<open>With a bound of zero the scheduling loop never starts a node.\<close>

lemma no_parallelism_never_returns:
  assumes "par \<le> 0" "nodes \<noteq> []" "list_all wait_ok waits"
  shows "run_nodes execute par nodes waits init_executor = Inr None"
proof -
  have nil: "w [] = []" if "wait_ok w" for w :: "'r list \<Rightarrow> 'r list" using that unfolding wait_ok_def by (metis distinct.simps(1) empty_set subset_empty set_empty)
  show ?thesis using assms
  proof (induction waits)
    case Nil
    then show ?case by (simp add: init_executor_def)
  next
    case (Cons w ws)
    then show ?case using nil [of w] by (simp add: init_executor_def schedule_node_def)
  qed
qed

end
