(* ===== verification/FeatureTree.thy ===== *)
theory FeatureTree
  imports Prelude "HOL-Library.Countable"
begin

text \<open>
  featurizer/features/feature_tree/feature_tree.py: features as trees over data definitions,
  their keys, and the construction of the features of a configuration. Keys and names are
  elements of a linearly ordered type (strings); the hash, the loading of definitions and the
  reading of a parameter dictionary are fields of an environment.
\<close>

section \<open>Features and their keys\<close>

datatype ('d, 'p, 's) Feature =
  Feature (children: "('d, 'p, 's) Feature list") (data_definition: 'd) (feat_params: 'p) (feat_name: "'s option") (is_label: bool)

datatype 'p param_set = ParamDict "(int, 'p) dict" | ParamList "'p list" | ParamOther

record ('d, 'p, 's) defs_env =
  load_def :: "'s \<Rightarrow> 'd pyres"
  is_data_source :: "'d \<Rightarrow> bool"
  dep_upstream_definitions :: "'d \<Rightarrow> 's option \<Rightarrow> 'd list pyres"
  data_source_params :: "'p \<Rightarrow> 'p param_set pyres"
  feature_params :: "'p \<Rightarrow> 'p param_set option"
  dep_schema :: "'p \<Rightarrow> 's option"
  no_params :: 'p
  key_hash :: "bool \<Rightarrow> 'd \<Rightarrow> 'p \<Rightarrow> 's list \<Rightarrow> 's"
  label_prefix :: "'s \<Rightarrow> 's"

fun calculate_key :: "('d, 'p, 's::linorder) defs_env \<Rightarrow> ('d, 'p, 's) Feature \<Rightarrow> 's" where
  "calculate_key env (Feature cs d p n l) = key_hash env l d p (sort (map (calculate_key env) cs))"

definition feature_eq :: "('d, 'p, 's::linorder) defs_env \<Rightarrow> ('d, 'p, 's) Feature \<Rightarrow> ('d, 'p, 's) Feature \<Rightarrow> bool" where
  "feature_eq env f g = (calculate_key env f = calculate_key env g)"

definition make_label :: "('d, 'p, 's) defs_env \<Rightarrow> ('d, 'p, 's) Feature \<Rightarrow> ('d, 'p, 's) Feature" where
  "make_label env f =
     Feature (children f) (data_definition f) (feat_params f) (map_option (label_prefix env) (feat_name f)) True"

fun postorder :: "('d, 'p, 's) Feature \<Rightarrow> ('d, 'p, 's) Feature list" where
  "postorder (Feature cs d p n l) = concat (map postorder cs) @ [Feature cs d p n l]"

fun inorder :: "('d, 'p, 's) Feature \<Rightarrow> ('d, 'p, 's) Feature list" where
  "inorder (Feature cs d p n l) = Feature cs d p n l # concat (map inorder cs)"

definition get_data_sources :: "('d, 'p, 's) defs_env \<Rightarrow> ('d, 'p, 's) Feature \<Rightarrow> ('d, 'p, 's) Feature list" where
  "get_data_sources env f = filter (\<lambda>n. is_data_source env (data_definition n)) (postorder f)"

definition get_dep_features_inorder :: "('d, 'p, 's) defs_env \<Rightarrow> ('d, 'p, 's) Feature \<Rightarrow> ('d, 'p, 's) Feature list" where
  "get_dep_features_inorder env f = filter (\<lambda>n. \<not> is_data_source env (data_definition n)) (inorder f)"

fun get_feature_by_key_or_name ::
    "('d, 'p, 's::linorder) defs_env \<Rightarrow> ('d, 'p, 's) Feature list \<Rightarrow> 's \<Rightarrow> ('d, 'p, 's) Feature option" where
  "get_feature_by_key_or_name env [] k = None"
| "get_feature_by_key_or_name env (f # fs) k =
     (if calculate_key env f = k \<or> feat_name f = Some k then Some f else get_feature_by_key_or_name env fs k)"

text \<open>\<open>existing[existing.index(f)] if f in existing else f\<close>; membership is equality of keys.\<close>

fun reuse :: "('d, 'p, 's::linorder) defs_env \<Rightarrow> ('d, 'p, 's) Feature list \<Rightarrow> ('d, 'p, 's) Feature \<Rightarrow> ('d, 'p, 's) Feature" where
  "reuse env [] f = f"
| "reuse env (e # es) f = (if feature_eq env e f then e else reuse env es f)"

text \<open>The canonical form of a feature forgets names and the order of dependencies.\<close>

datatype ('d, 'p) shape = Shape bool 'd 'p "('d, 'p) shape multiset"

fun shape_of :: "('d, 'p, 's) Feature \<Rightarrow> ('d, 'p) shape" where
  "shape_of (Feature cs d p n l) = Shape l d p (mset (map shape_of cs))"

lemma sort_eq_iff: "sort xs = sort ys \<longleftrightarrow> mset xs = mset ys"
  by (metis mset_sort properties_for_sort sorted_sort)

lemma mset_map_cong_iff:
  assumes "\<And>x y. x \<in> set xs \<Longrightarrow> y \<in> set ys \<Longrightarrow> f x = f y \<longleftrightarrow> g x = g y"
  shows "mset (map f xs) = mset (map f ys) \<Longrightarrow> mset (map g xs) = mset (map g ys)"
  using assms
proof (induction xs arbitrary: ys)
  case Nil
  then show ?case by simp
next
  case (Cons x xs)
  then have "f x \<in> f ` set ys" by (metis list.set_intros(1) list.set_map list.simps(9) set_mset_mset)
  then obtain y where y: "y \<in> set ys" "f x = f y" by auto
  then have ys: "mset ys = add_mset y (mset (remove1 y ys))" by simp
  have "mset (map f xs) = mset (map f (remove1 y ys))"
    using Cons.prems(1) y ys by (metis add_mset_add_single add_right_cancel image_mset_add_mset list.simps(9) mset.simps(2) mset_map)
  moreover have "f x' = f y' \<longleftrightarrow> g x' = g y'" if "x' \<in> set xs" "y' \<in> set (remove1 y ys)" for x' y'
    using Cons.prems(2) that by (meson list.set_intros(2) notin_set_remove1)
  ultimately have "mset (map g xs) = mset (map g (remove1 y ys))" by (rule Cons.IH)
  moreover have "g x = g y" using Cons.prems(2) y by (meson list.set_intros(1))
  ultimately show ?case using ys by (metis image_mset_add_mset list.simps(9) mset.simps(2) mset_map)
qed

definition injective_hash :: "('d, 'p, 's) defs_env \<Rightarrow> bool" where
  "injective_hash env \<longleftrightarrow>
     (\<forall>l d p ks l' d' p' ks'. key_hash env l d p ks = key_hash env l' d' p' ks' \<longrightarrow> l = l' \<and> d = d' \<and> p = p' \<and> ks = ks')"

lemma injective_hash_iff:
  assumes "injective_hash env"
  shows "key_hash env l d p ks = key_hash env l' d' p' ks' \<longleftrightarrow> l = l' \<and> d = d' \<and> p = p' \<and> ks = ks'"
  using assms [unfolded injective_hash_def, rule_format, of l d p ks l' d' p' ks'] by blast


text \<open>An environment for evaluation: definitions are numbers, zero the only data source, a
  definition depends on the one below it and on the data source; a collision-free hash.\<close>

definition nat_env :: "(nat, nat, nat) defs_env" where
  "nat_env = \<lparr>load_def = Inr, is_data_source = (\<lambda>d. d = 0),
     dep_upstream_definitions = (\<lambda>d s. Inr (if d = 1 then [0] else [d - 1, 0])),
     data_source_params = (\<lambda>p. Inr (ParamList [p, p, p])), feature_params = (\<lambda>p. None), dep_schema = (\<lambda>p. None),
     no_params = 0, key_hash = (\<lambda>l d p ks. to_nat (l, d, p, ks)), label_prefix = Suc\<rparr>"


text \<open>A feature and its label have different keys.\<close>

lemma label_key_differs:
  "injective_hash env \<Longrightarrow> \<not> is_label f \<Longrightarrow> calculate_key env (make_label env f) \<noteq> calculate_key env f"
  by (cases f) (simp add: make_label_def injective_hash_iff)

section \<open>Construction\<close>

definition parse_params :: "('d, 'p, 's) defs_env \<Rightarrow> 'p param_set option \<Rightarrow> int \<Rightarrow> 'p pyres" where
  "parse_params env params position =
     (case params of
        None \<Rightarrow> Inr (no_params env)
      | Some (ParamDict d) \<Rightarrow> Inr (case map_of d position of None \<Rightarrow> no_params env | Some p \<Rightarrow> p)
      | Some (ParamList ps) \<Rightarrow> if position \<le> int (length ps) then py_nth ps position else Inl ValueError
      | Some ParamOther \<Rightarrow> Inl ValueError)"

lemma parse_params_just_past_the_end:
  "parse_params env (Some (ParamList ps)) (int (length ps)) = Inl IndexError"
  by (simp add: parse_params_def py_nth_def)

text \<open>The two position references are threaded as a pair (feature, data source). The recursion
  over the definitions is bounded by Python's recursion limit: running out of \<open>depth\<close> is its
  \<open>RuntimeError\<close>.\<close>

fun construct_tree ::
    "('d, 'p, 's::linorder) defs_env \<Rightarrow> nat \<Rightarrow> 'd \<Rightarrow> int \<times> int \<Rightarrow> 'p param_set option \<Rightarrow> 'p param_set option
     \<Rightarrow> ('d, 'p, 's) Feature list \<Rightarrow> 's option \<Rightarrow> (('d, 'p, 's) Feature \<times> int \<times> int) pyres" where
  "construct_tree env 0 root_def pos ds_params f_params existing name = Inl RuntimeError"
| "construct_tree env (Suc depth) root_def pos ds_params f_params existing name =
     (if is_data_source env root_def then
        bindE (parse_params env ds_params (snd pos)) (\<lambda>p.
          Inr (reuse env existing (Feature [] root_def p name False), fst pos, snd pos + 1))
      else
        bindE (parse_params env f_params (fst pos)) (\<lambda>params.
        bindE (dep_upstream_definitions env root_def (dep_schema env params)) (\<lambda>deps.
        bindE (foldE (\<lambda>dep_fd (cs, fp, dp).
            bindE (construct_tree env depth dep_fd (if \<not> is_data_source env dep_fd then fp + 1 else fp, dp)
                     ds_params f_params existing None)
              (\<lambda>(c, pos'). Inr (cs @ [c], pos'))) deps ([], pos))
          (\<lambda>(cs, fp, dp). Inr (reuse env existing (Feature cs root_def params name False), fp - 1, dp)))))"

definition construct_feature ::
    "('d, 'p, 's::linorder) defs_env \<Rightarrow> nat \<Rightarrow> 's \<Rightarrow> 'p \<Rightarrow> ('d, 'p, 's) Feature list \<Rightarrow> 's option \<Rightarrow> 's list option
     \<Rightarrow> ('d, 'p, 's) Feature pyres" where
  "construct_feature env depth root_def_name params existing name deps =
     bindE (load_def env root_def_name) (\<lambda>root_def.
     case deps of
       Some ds \<Rightarrow>
         bindE (mapE (\<lambda>k. case get_feature_by_key_or_name env existing k of None \<Rightarrow> Inl ValueError | Some f \<Rightarrow> Inr f) ds)
           (\<lambda>dep_features. Inr (reuse env existing (Feature dep_features root_def params name False)))
     | None \<Rightarrow>
         bindE (data_source_params env params) (\<lambda>ds.
         bindE (construct_tree env depth root_def (0, 0) (Some ds) (feature_params env params) existing name)
           (\<lambda>(f, _). Inr f)))"

record ('p, 's) FeatureConfig =
  feature_definition :: 's
  config_params :: 'p
  config_name :: "'s option"
  config_deps :: "'s list option"

text \<open>\<open>if x not in existing: existing.append(x)\<close> over the dependencies and data sources of a new
  feature.\<close>

definition add_if_new ::
    "('d, 'p, 's::linorder) defs_env \<Rightarrow> ('d, 'p, 's) Feature \<Rightarrow> ('d, 'p, 's) Feature list \<Rightarrow> ('d, 'p, 's) Feature list" where
  "add_if_new env f existing = (if \<exists>e\<in>set existing. feature_eq env e f then existing else existing @ [f])"

definition register ::
    "('d, 'p, 's::linorder) defs_env \<Rightarrow> ('d, 'p, 's) Feature \<Rightarrow> ('d, 'p, 's) Feature list \<Rightarrow> ('d, 'p, 's) Feature list" where
  "register env f existing =
     fold (add_if_new env) (get_data_sources env f)
       (fold (add_if_new env) (get_dep_features_inorder env f) (existing @ [f]))"

text \<open>One pass of the \<open>for\<close> loop over a list the body removes from: the loop goes by index, so a
  removal makes it skip the next element; a configuration without dependencies ends the pass.\<close>

type_synonym ('d, 'p, 's) built = "('d, 'p, 's) Feature list \<times> ('d, 'p, 's) Feature list"

function config_pass ::
    "('d, 'p, 's::linorder) defs_env \<Rightarrow> nat \<Rightarrow> ('p, 's) FeatureConfig list \<Rightarrow> nat \<Rightarrow> ('d, 'p, 's) built
     \<Rightarrow> (('p, 's) FeatureConfig list \<times> ('d, 'p, 's) built) pyres" where
  "config_pass env depth configs i b =
     (if i < length configs then
        let c = configs ! i; (features, existing) = b in
        case config_deps c of
          None \<Rightarrow>
            bindE (construct_feature env depth (feature_definition c) (config_params c) existing (config_name c) None)
              (\<lambda>f. Inr (remove1 c configs, features @ [f], register env f existing))
        | Some ds \<Rightarrow>
            if list_all (\<lambda>k. get_feature_by_key_or_name env existing k \<noteq> None) ds then
              bindE (construct_feature env depth (feature_definition c) (config_params c) existing (config_name c) (Some ds))
                (\<lambda>f. config_pass env depth (remove1 c configs) (i + 1) (features @ [f], register env f existing))
            else config_pass env depth configs (i + 1) b
      else Inr (configs, b))"
  by pat_completeness auto
termination
  by (relation "measure (\<lambda>(env, depth, configs, i, b). length configs - i)")
    (auto simp: length_remove1)

declare config_pass.simps [simp del]

partial_function (option) config_loop ::
    "('d, 'p, 's::linorder) defs_env \<Rightarrow> nat \<Rightarrow> ('p, 's) FeatureConfig list \<Rightarrow> ('d, 'p, 's) built
     \<Rightarrow> ('d, 'p, 's) Feature list pyres option" where
  "config_loop env depth configs b =
     (if length configs \<noteq> 0 then
        (case config_pass env depth configs 0 b of
           Inl e \<Rightarrow> Some (Inl e)
         | Inr (configs', b') \<Rightarrow>
             if length configs' = length configs then Some (Inl ValueError) else config_loop env depth configs' b')
      else Some (Inr (fst b)))"

definition construct_features_from_configs ::
    "('d, 'p, 's::linorder) defs_env \<Rightarrow> nat \<Rightarrow> ('p, 's) FeatureConfig list \<Rightarrow> ('d, 'p, 's) Feature list pyres option" where
  "construct_features_from_configs env depth feature_configs = config_loop env depth feature_configs ([], [])"

section \<open>Every configuration is built once\<close>

definition built_from ::
    "('d, 'p, 's::linorder) defs_env \<Rightarrow> nat \<Rightarrow> ('p, 's) FeatureConfig \<Rightarrow> ('d, 'p, 's) Feature \<Rightarrow> bool" where
  "built_from env depth c f \<longleftrightarrow>
     (\<exists>existing. construct_feature env depth (feature_definition c) (config_params c) existing (config_name c) (config_deps c) = Inr f)"

lemma mset_remove1_nth: "i < length xs \<Longrightarrow> mset xs = add_mset (xs ! i) (mset (remove1 (xs ! i) xs))"
  by (simp add: nth_mem)

lemma config_pass_builds:
  assumes "config_pass env depth configs i b = Inr (configs', b')"
  shows "\<exists>cs fs. mset configs = mset configs' + mset cs \<and> fst b' = fst b @ fs \<and> list_all2 (built_from env depth) cs fs"
  using assms
proof (induction env depth configs i b rule: config_pass.induct)
  case (1 env depth configs i b)
  obtain features existing where b: "b = (features, existing)" by (cases b)
  show ?case
  proof (cases "i < length configs")
    case False
    with 1 have "configs' = configs" "b' = b" by (auto simp: config_pass.simps [of env depth configs i b])
    then show ?thesis by (intro exI [of _ "[]"]) simp
  next
    case True
    let ?c = "configs ! i"
    note run = "1.prems" [unfolded config_pass.simps [of env depth configs i b]]
    show ?thesis
    proof (cases "config_deps ?c")
      case None
      with run True b obtain f where f: "construct_feature env depth (feature_definition ?c) (config_params ?c) existing
          (config_name ?c) None = Inr f" "configs' = remove1 ?c configs" "fst b' = features @ [f]"
        by (auto simp: Let_def)
      then have "built_from env depth ?c f" using None by (auto simp: built_from_def)
      with f b mset_remove1_nth [OF True] show ?thesis
        by (intro exI [of _ "[?c]"] exI [of _ "[f]"]) simp
    next
      case (Some ds)
      show ?thesis
      proof (cases "list_all (\<lambda>k. get_feature_by_key_or_name env existing k \<noteq> None) ds")
        case False
        with run True b Some have "config_pass env depth configs (i + 1) b = Inr (configs', b')" by (simp add: Let_def)
        with "1.IH" (2) [OF True refl refl b [symmetric] Some False] show ?thesis by blast
      next
        case deps: True
        with run True b Some obtain f where f: "construct_feature env depth (feature_definition ?c) (config_params ?c) existing
            (config_name ?c) (Some ds) = Inr f"
          "config_pass env depth (remove1 ?c configs) (i + 1) (features @ [f], register env f existing) = Inr (configs', b')"
          by (auto simp: Let_def)
        from "1.IH" (1) [OF True refl refl b [symmetric] Some deps f(1) f(2)] obtain cs fs where
          rest: "mset (remove1 ?c configs) = mset configs' + mset cs" "fst b' = (features @ [f]) @ fs"
          "list_all2 (built_from env depth) cs fs" by auto
        have "mset configs = mset configs' + mset (?c # cs)"
          unfolding mset_remove1_nth [OF True] rest(1) by (simp only: mset.simps union_mset_add_mset_right)
        moreover have "built_from env depth ?c f" using Some f(1) by (auto simp: built_from_def)
        then have "list_all2 (built_from env depth) (?c # cs) (f # fs)" using rest(3) by (rule list_all2_Cons [THEN iffD2, OF conjI])
        moreover have "fst b' = fst b @ f # fs" using b rest(2) by (simp only: fst_conv append_assoc append_Cons append_Nil)
        ultimately show ?thesis by blast
      qed
    qed
  qed
qed

lemma config_loop_builds:
  "\<exists>r. config_loop env depth configs b = Some r \<and>
    (\<forall>fs. r = Inr fs \<longrightarrow> (\<exists>cs new. mset cs = mset configs \<and> fs = fst b @ new \<and> list_all2 (built_from env depth) cs new))"
proof (induction "length configs" arbitrary: configs b rule: less_induct)
  case less
  show ?case
  proof (cases "configs = []")
    case True
    then have "config_loop env depth configs b = Some (Inr (fst b))" by (subst config_loop.simps) simp
    with True show ?thesis by auto
  next
    case False
    show ?thesis
    proof (cases "config_pass env depth configs 0 b")
      case (Inl e)
      with False have "config_loop env depth configs b = Some (Inl e)" by (subst config_loop.simps) simp
      then show ?thesis by auto
    next
      case (Inr q)
      obtain configs' b' where q: "config_pass env depth configs 0 b = Inr (configs', b')" using Inr by (cases q) simp
      from config_pass_builds [OF this] obtain cs fs where
        cs: "mset configs = mset configs' + mset cs" "fst b' = fst b @ fs" "list_all2 (built_from env depth) cs fs" by blast
      show ?thesis
      proof (cases "length configs' = length configs")
        case True
        with q False have "config_loop env depth configs b = Some (Inl ValueError)" by (subst config_loop.simps) simp
        then show ?thesis by auto
      next
        case unequal: False
        have "length configs = length configs' + length cs" using arg_cong [OF cs(1), of size] by simp
        with unequal have "length configs' < length configs" by simp
        from less [OF this, of b'] obtain r where
          r: "config_loop env depth configs' b' = Some r"
          "\<And>fs. r = Inr fs \<Longrightarrow> \<exists>cs new. mset cs = mset configs' \<and> fs = fst b' @ new \<and> list_all2 (built_from env depth) cs new"
          by blast
        have "config_loop env depth configs b = Some r"
          using q False unequal r(1) by (subst config_loop.simps) simp
        moreover have "\<exists>cs' new. mset cs' = mset configs \<and> fs' = fst b @ new \<and> list_all2 (built_from env depth) cs' new"
          if "r = Inr fs'" for fs'
        proof -
          from r(2) [OF that] obtain cs2 new where
            "mset cs2 = mset configs'" "fs' = fst b' @ new" "list_all2 (built_from env depth) cs2 new" by blast
          with cs show ?thesis
            by (intro exI [of _ "cs @ cs2"] exI [of _ "fs @ new"]) (simp add: list_all2_appendI add.commute)
        qed
        ultimately show ?thesis by blast
      qed
    qed
  qed
qed

text \<open>C40. Constructing the features of a configuration always returns, however the configurations
  depend on each other and although the loop removes from the list it goes over: it raises, or
  every configuration has been built exactly once, each feature from its own configuration.\<close>

theorem every_config_is_built_once:
  "\<exists>r. construct_features_from_configs env depth configs = Some r \<and>
    (\<forall>features. r = Inr features \<longrightarrow>
       (\<exists>cs. mset cs = mset configs \<and> list_all2 (built_from env depth) cs features))"
  using config_loop_builds [of env depth configs "([], [])"] by (simp add: construct_features_from_configs_def)

theorem every_config_is_built_once_witness:
  "\<exists>r. construct_features_from_configs nat_env 5 [\<lparr>feature_definition = 2, config_params = 0, config_name = None, config_deps = None\<rparr>] = Some r \<and>
    (\<forall>features. r = Inr features \<longrightarrow>
       (\<exists>cs. mset cs = mset [\<lparr>feature_definition = 2, config_params = 0, config_name = None, config_deps = None\<rparr>] \<and>
         list_all2 (built_from nat_env 5) cs features))"
  by (rule every_config_is_built_once)

section \<open>Positions\<close>

text \<open>Every feature of the tree reads the parameters at the position of its depth: a feature is
  entered one deeper and steps back when it is done, so sibling features share a position.\<close>

lemma construct_tree_position:
  assumes "construct_tree env depth d pos ds fps existing name = Inr (f, pos')"
  shows "fst pos' = (if is_data_source env d then fst pos else fst pos - 1)"
  using assms
proof (induction depth arbitrary: d pos name f pos')
  case 0
  then show ?case by simp
next
  case (Suc depth)
  show ?case
  proof (cases "is_data_source env d")
    case True
    with Suc.prems show ?thesis by auto
  next
    case False
    with Suc.prems obtain params deps cs fp dp where
      fold: "foldE (\<lambda>dep_fd (cs, fp, dp).
            bindE (construct_tree env depth dep_fd (if \<not> is_data_source env dep_fd then fp + 1 else fp, dp) ds fps existing None)
              (\<lambda>(c, pos'). Inr (cs @ [c], pos'))) deps ([], pos) = Inr (cs, fp, dp)"
      and fst: "fst pos' = fp - 1" by auto
    have "fst (snd (cs, fp, dp)) = fst pos"
      using fold
    proof (rule foldE_invariant [where I = "\<lambda>s. fst (snd s) = fst pos"])
      fix dep s s'
      assume "fst (snd s) = fst pos" and step: "(\<lambda>(cs, fp, dp).
            bindE (construct_tree env depth dep (if \<not> is_data_source env dep then fp + 1 else fp, dp) ds fps existing None)
              (\<lambda>(c, pos'). Inr (cs @ [c], pos'))) s = Inr s'"
      then show "fst (snd s') = fst pos"
        by (cases s) (auto dest!: Suc.IH split: if_splits)
    qed simp
    with fst False show ?thesis by simp
  qed
qed

section \<open>The streams of a feature\<close>

text \<open>The stream of a definition is the value of its call: the source of a data feature, or the
  definition applied to the streams of its dependencies, keyed by feature, and its parameters.\<close>

datatype ('d, 'p, 's) stream_net = Source 's | Derived 'd "('s \<times> ('d, 'p, 's) stream_net) list" 'p

type_synonym ('d, 'p, 's) data_streams = "('s, ('d, 'p, 's) stream_net) dict"

fun stream_tree ::
      "('d, 'p, 's::linorder) defs_env \<Rightarrow> ('d, 'p, 's) Feature \<Rightarrow> ('d, 'p, 's) data_streams
       \<Rightarrow> (('d, 'p, 's) stream_net \<times> ('d, 'p, 's) data_streams) pyres"
  and stream_trees ::
      "('d, 'p, 's) defs_env \<Rightarrow> ('d, 'p, 's) Feature list \<Rightarrow> ('d, 'p, 's) data_streams \<Rightarrow> ('d, 'p, 's) data_streams
       \<Rightarrow> (('d, 'p, 's) data_streams \<times> ('d, 'p, 's) data_streams) pyres" where
  "stream_tree env (Feature [] d p n l) data_streams =
     (let key = calculate_key env (Feature [] d p n l); s = Source key in
      if dict_has data_streams key then Inl ValueError else Inr (s, dict_put key s data_streams))"
| "stream_tree env (Feature (c # cs) d p n l) data_streams =
     bindE (stream_trees env (c # cs) [] data_streams) (\<lambda>(upstreams, data_streams').
       Inr (Derived d upstreams p, data_streams'))"
| "stream_trees env [] upstreams data_streams = Inr (upstreams, data_streams)"
| "stream_trees env (c # cs) upstreams data_streams =
     bindE (stream_tree env c data_streams) (\<lambda>(s, data_streams').
       stream_trees env cs (dict_put (calculate_key env c) s upstreams) data_streams')"

definition construct_stream_tree ::
    "('d, 'p, 's::linorder) defs_env \<Rightarrow> ('d, 'p, 's) Feature
     \<Rightarrow> (('d, 'p, 's) stream_net \<times> ('d, 'p, 's) data_streams) pyres" where
  "construct_stream_tree env feature = stream_tree env feature []"

definition leaf_keys :: "('d, 'p, 's::linorder) defs_env \<Rightarrow> ('d, 'p, 's) Feature \<Rightarrow> 's list" where
  "leaf_keys env f = map (calculate_key env) (filter (\<lambda>g. children g = []) (postorder f))"

lemma leaf_keys_simps [simp]:
  "leaf_keys env (Feature [] d p n l) = [calculate_key env (Feature [] d p n l)]"
  "leaf_keys env (Feature (c # cs) d p n l) = concat (map (leaf_keys env) (c # cs))"
  by (simp_all add: leaf_keys_def [abs_def] filter_concat map_concat comp_def)

definition fresh_leaves :: "'s list \<Rightarrow> ('d, 'p, 's) data_streams \<Rightarrow> bool" where
  "fresh_leaves ks data_streams \<longleftrightarrow> distinct ks \<and> set ks \<inter> fst ` set data_streams = {}"

definition add_sources :: "'s list \<Rightarrow> ('d, 'p, 's) data_streams \<Rightarrow> ('d, 'p, 's) data_streams" where
  "add_sources ks data_streams = data_streams @ map (\<lambda>k. (k, Source k)) ks"

lemma fresh_leaves_append:
  "fresh_leaves (ks @ ks') ds \<longleftrightarrow> fresh_leaves ks ds \<and> fresh_leaves ks' (add_sources ks ds)"
  by (auto simp: fresh_leaves_def add_sources_def image_Un image_image)

lemma add_sources_append: "add_sources (ks @ ks') ds = add_sources ks' (add_sources ks ds)"
  by (simp add: add_sources_def)

lemma stream_tree_sources:
  shows "if fresh_leaves (leaf_keys env f) ds
      then \<exists>s. stream_tree env f ds = Inr (s, add_sources (leaf_keys env f) ds)
      else stream_tree env f ds = Inl ValueError"
    and "if fresh_leaves (concat (map (leaf_keys env) fs)) ds
      then \<exists>ups'. stream_trees env fs ups ds = Inr (ups', add_sources (concat (map (leaf_keys env) fs)) ds)
      else stream_trees env fs ups ds = Inl ValueError"
proof (induction env f ds and env fs ups ds rule: stream_tree_stream_trees.induct)
  case (1 env d p n l data_streams)
  then show ?case
    by (auto simp: Let_def fresh_leaves_def add_sources_def dict_has_iff dict_put_fresh)
next
  case (2 env c cs d p n l data_streams)
  then show ?case by (auto simp: if_split_eq1 split: if_splits)
next
  case (3 env upstreams data_streams)
  then show ?case by (simp add: fresh_leaves_def add_sources_def)
next
  case (4 env c cs upstreams data_streams)
  show ?case
  proof (cases "fresh_leaves (leaf_keys env c) data_streams")
    case True
    with "4.IH"(1) obtain s where s: "stream_tree env c data_streams = Inr (s, add_sources (leaf_keys env c) data_streams)"
      by auto
    from "4.IH"(2) [OF s refl] s True show ?thesis by (simp add: fresh_leaves_append add_sources_append)
  next
    case False
    with 4 show ?thesis by (simp add: fresh_leaves_append)
  qed
qed

text \<open>The stream tree of a feature. It is built exactly when no data source occurs twice in the
  tree, with one source stream per data source in postorder; a second occurrence is a
  \<open>ValueError\<close>.\<close>

theorem stream_tree_needs_distinct_sources:
  "(if distinct (leaf_keys env f)
    then \<exists>s. construct_stream_tree env f = Inr (s, map (\<lambda>k. (k, Source k)) (leaf_keys env f))
    else construct_stream_tree env f = Inl ValueError)"
  using stream_tree_sources(1) [of env f "[]"]
  by (simp add: construct_stream_tree_def fresh_leaves_def add_sources_def split: if_splits)

end
