(* ===== verification/TimeUtils.thy ===== *)
theory TimeUtils
  imports PyString
begin

text \<open>
  common/time/utils.py: window strings, sampling buckets, the split of a time range and
  the millisecond rounding of block bounds. A timestamp is a rational number of seconds.
  The machine's time zone is a parameter: \<open>day_start t\<close> is the timestamp of the local
  midnight \<open>datetime.fromtimestamp(t).replace(hour=0, \<dots>).timestamp()\<close> computes.
  A closed interval of the portion library is the pair of its bounds.
\<close>

record Interval =
  lower :: rat
  upper :: rat

abbreviation closed_ivl :: "rat \<Rightarrow> rat \<Rightarrow> Interval" where
  "closed_ivl a b \<equiv> \<lparr>lower = a, upper = b\<rparr>"

section \<open>Window strings\<close>

definition seconds_per_unit :: "(char, rat) dict" where
  "seconds_per_unit = [(CHR ''s'', 1), (CHR ''m'', 60), (CHR ''h'', 3600), (CHR ''d'', 86400), (CHR ''w'', 604800)]"

text \<open>\<open>s[:-n]\<close> of a string.\<close>

definition drop_end :: "nat \<Rightarrow> string \<Rightarrow> string" where
  "drop_end n s = take (length s - n) s"

definition convert_str_to_seconds :: "string \<Rightarrow> rat pyres" where
  "convert_str_to_seconds s =
     (if py_contains ''ms'' s then bindE (py_int (drop_end 2 s)) (\<lambda>n. Inr (of_int n * (1 / 1000)))
      else bindE (py_int (drop_end 1 s)) (\<lambda>n.
           bindE (py_last s) (\<lambda>u.
           bindE (dict_lookup seconds_per_unit u) (\<lambda>k. Inr (of_int n * k)))))"

lemma show_nat_no_m: "CHR ''m'' \<notin> set (show_nat n)" "CHR ''s'' \<notin> set (show_nat n)"
  using show_nat_digits [of n] by (auto simp: list_all_iff is_digit_def)

lemma find_ms_absent: "CHR ''m'' \<notin> set s \<Longrightarrow> py_find ''ms'' (s @ [c]) = None"
  by (induction s) (auto simp: startswith_def)

lemma find_ms: "CHR ''m'' \<notin> set s \<Longrightarrow> py_find ''ms'' (s @ ''ms'') \<noteq> None"
  by (induction s) (auto simp: startswith_def)

lemma convert_unit:
  assumes "map_of seconds_per_unit u = Some k"
  shows "convert_str_to_seconds (show_nat n @ [u]) = Inr (of_nat n * k)"
  using assms find_ms_absent [OF show_nat_no_m(1), of n u]
  by (simp add: convert_str_to_seconds_def py_contains_def drop_end_def dict_lookup_def py_last_def)

lemma convert_ms: "convert_str_to_seconds (show_nat n @ ''ms'') = Inr (of_nat n / 1000)"
  using find_ms [OF show_nat_no_m(1), of n]
  by (simp add: convert_str_to_seconds_def py_contains_def drop_end_def)

section \<open>Sampling buckets\<close>

definition get_sampling_bucket_ts :: "(rat \<Rightarrow> rat) \<Rightarrow> rat \<Rightarrow> string \<Rightarrow> bool \<Rightarrow> rat pyres" where
  "get_sampling_bucket_ts day_start timestamp bucket return_bucket_start =
     bindE (convert_str_to_seconds bucket) (\<lambda>bucket_s.
       if bucket_s > 24 * 60 * 60 \<or> bucket_s < 1 / 1000 then Inl ValueError
       else let start_ts = day_start timestamp;
                num_buckets = int_trunc ((timestamp - start_ts) / bucket_s);
                bucket_start_ts = start_ts + of_int num_buckets * bucket_s
            in Inr (if return_bucket_start then bucket_start_ts else bucket_start_ts + bucket_s))"

text \<open>The UTC instance of the zone parameter, for evaluation.\<close>

definition utc_day_start :: "rat \<Rightarrow> rat" where
  "utc_day_start t = of_int \<lfloor>t / 86400\<rfloor> * 86400"

lemma floor_bucket:
  fixes x b :: rat
  assumes "0 < b"
  shows "of_int \<lfloor>x / b\<rfloor> * b \<le> x" "x < of_int \<lfloor>x / b\<rfloor> * b + b"
proof -
  have "of_int \<lfloor>x / b\<rfloor> \<le> x / b" "x / b < of_int \<lfloor>x / b\<rfloor> + 1" by linarith+
  then show "of_int \<lfloor>x / b\<rfloor> * b \<le> x" "x < of_int \<lfloor>x / b\<rfloor> * b + b"
    using assms by (simp_all only: pos_le_divide_eq pos_divide_less_eq distrib_right mult_1)
qed

lemma bucket_bounds:
  assumes "day_start t \<le> t" "get_sampling_bucket_ts day_start t bucket True = Inr b"
    "convert_str_to_seconds bucket = Inr s"
  shows "day_start t \<le> b" "b \<le> t" "t < b + s" "\<exists>n. b = day_start t + of_nat n * s"
proof -
  from assms(2,3) have s: "\<not> (s > 24 * 60 * 60 \<or> s < 1 / 1000)"
    by (auto simp: get_sampling_bucket_ts_def split: if_splits)
  then have pos: "0 < s" by simp
  let ?k = "\<lfloor>(t - day_start t) / s\<rfloor>"
  from assms s have b: "b = day_start t + of_int ?k * s"
    using pos by (auto simp: get_sampling_bucket_ts_def int_trunc_def Let_def)
  from pos assms(1) have "0 \<le> ?k" by simp
  then have "?k = int (nat ?k)" by simp
  then show "\<exists>n. b = day_start t + of_nat n * s" using b by (metis of_int_of_nat_eq)
  show "day_start t \<le> b" using b pos \<open>0 \<le> ?k\<close> by simp
  show "b \<le> t" "t < b + s" using floor_bucket [OF pos, of "t - day_start t"] b by simp_all
qed

text \<open>The end of the bucket is the start shifted by one bucket.\<close>

lemma bucket_end:
  "get_sampling_bucket_ts day_start t bucket False =
   bindE (get_sampling_bucket_ts day_start t bucket True) (\<lambda>b.
   bindE (convert_str_to_seconds bucket) (\<lambda>s. Inr (b + s)))"
  by (cases "convert_str_to_seconds bucket") (simp_all add: get_sampling_bucket_ts_def Let_def)

section \<open>Splitting a time range\<close>

text \<open>The loop of \<open>split_time_range_between_ts\<close>; it does not return when the step
  \<open>split_size + diff_between\<close> is not positive, which is the value \<open>None\<close>.\<close>

partial_function (option) split_loop :: "rat \<Rightarrow> rat \<Rightarrow> rat \<Rightarrow> rat \<Rightarrow> rat \<Rightarrow> Interval list \<Rightarrow> Interval list option" where
  "split_loop end_ts split_size diff cur_start cur_end intervals =
     (if cur_start < end_ts then
        split_loop end_ts split_size diff (cur_end + diff) (cur_end + diff + split_size)
          (intervals @ [if cur_end \<le> end_ts then closed_ivl cur_start cur_end else closed_ivl cur_start end_ts])
      else Some intervals)"

definition split_time_range_between_ts :: "rat \<Rightarrow> rat \<Rightarrow> int \<Rightarrow> rat \<Rightarrow> Interval list pyres option" where
  "split_time_range_between_ts start_ts end_ts num_splits diff_between =
     (if num_splits = 1 then Some (Inr [closed_ivl start_ts end_ts])
      else if num_splits = 0 then Some (Inl ZeroDivisionError)
      else let split_size = of_int (int_trunc ((end_ts - start_ts) / of_int num_splits))
           in map_option Inr (split_loop end_ts split_size diff_between start_ts (start_ts + split_size) []))"

text \<open>Consecutive pieces are \<open>diff\<close> apart, all of sz \<open>split_size\<close> but the last, which
  ends with the range.\<close>

fun pieces :: "rat \<Rightarrow> rat \<Rightarrow> rat \<Rightarrow> rat \<Rightarrow> Interval list \<Rightarrow> bool" where
  "pieces sz diff s e [] = (e \<le> s)"
| "pieces sz diff s e (i # ivs) =
     (s < e \<and> lower i = s \<and> upper i = min (s + sz) e \<and> pieces sz diff (s + sz + diff) e ivs)"

lemma split_loop_pieces:
  assumes "0 < sz + diff"
  shows "\<exists>ivs. split_loop e sz diff s (s + sz) acc = Some (acc @ ivs) \<and> pieces sz diff s e ivs"
proof (induction "nat \<lceil>(e - s) / (sz + diff)\<rceil>" arbitrary: s acc rule: less_induct)
  case less
  show ?case
  proof (cases "s < e")
    case False
    then have "split_loop e sz diff s (s + sz) acc = Some (acc @ []) \<and> pieces sz diff s e []"
      by (simp add: split_loop.simps)
    then show ?thesis by blast
  next
    case True
    let ?s = "s + sz + diff"
    have "(e - ?s) / (sz + diff) = (e - s) / (sz + diff) - 1"
      using assms by (simp add: field_simps)
    moreover have "0 < (e - s) / (sz + diff)" using True assms by simp
    ultimately have "nat \<lceil>(e - ?s) / (sz + diff)\<rceil> < nat \<lceil>(e - s) / (sz + diff)\<rceil>" by linarith
    from less [OF this, of "acc @ [if s + sz \<le> e then closed_ivl s (s + sz) else closed_ivl s e]"]
    obtain ivs where "split_loop e sz diff ?s (?s + sz)
          (acc @ [if s + sz \<le> e then closed_ivl s (s + sz) else closed_ivl s e]) =
          Some (acc @ (if s + sz \<le> e then closed_ivl s (s + sz) else closed_ivl s e) # ivs)"
      and "pieces sz diff ?s e ivs" by auto
    then have "split_loop e sz diff s (s + sz) acc =
          Some (acc @ (if s + sz \<le> e then closed_ivl s (s + sz) else closed_ivl s e) # ivs) \<and>
        pieces sz diff s e ((if s + sz \<le> e then closed_ivl s (s + sz) else closed_ivl s e) # ivs)"
      using True by (subst split_loop.simps) (simp add: min_def)
    then show ?thesis by blast
  qed
qed

lemma pieces_facts:
  assumes "pieces sz diff s e ivs" "s < e" "0 \<le> sz" "0 \<le> diff"
  shows "ivs \<noteq> [] \<and> lower (hd ivs) = s \<and> upper (last ivs) \<le> e \<and> e \<le> upper (last ivs) + diff \<and>
    (\<forall>i<length ivs - 1. lower (ivs ! Suc i) = upper (ivs ! i) + diff)"
  using assms
proof (induction ivs arbitrary: s)
  case Nil
  then show ?case by simp
next
  case (Cons i ivs)
  show ?case
  proof (cases ivs)
    case Nil
    with Cons.prems show ?thesis by (auto simp: min_def max_def)
  next
    case (Cons j js)
    with Cons.prems have "s + sz + diff < e" "pieces sz diff (s + sz + diff) e ivs" by auto
    from Cons.IH [OF this(2,1) Cons.prems(3,4)] have IH: "lower (hd ivs) = s + sz + diff"
      "upper (last ivs) \<le> e" "e \<le> upper (last ivs) + diff"
      "\<forall>n<length ivs - 1. lower (ivs ! Suc n) = upper (ivs ! n) + diff" by auto
    moreover have "n < length (i # ivs) - 1 \<Longrightarrow> lower ((i # ivs) ! Suc n) = upper ((i # ivs) ! n) + diff" for n
      using IH(1,4) Cons Cons.prems by (cases n) (auto simp: min_def hd_conv_nth)
    ultimately show ?thesis using Cons Cons.prems by simp
  qed
qed

section \<open>Rounding\<close>

text \<open>\<open>round(f, 3)\<close> of Python: to the nearest thousandth, ties to the even one.\<close>

definition round_half_even :: "rat \<Rightarrow> int" where
  "round_half_even q = (let f = \<lfloor>q\<rfloor>; r = q - of_int f in
     if r < 1 / 2 then f else if 1 / 2 < r then f + 1 else if even f then f else f + 1)"

definition round_float :: "rat \<Rightarrow> rat" where
  "round_float f = of_int (round_half_even (f * 1000)) / 1000"

lemma round_half_even_int [simp]: "round_half_even (of_int n) = n"
  by (simp add: round_half_even_def Let_def)

lemma round_float_idem [simp]: "round_float (round_float f) = round_float f"
  by (simp add: round_float_def)

lemma round_half_even_mono:
  assumes "q \<le> q'"
  shows "round_half_even q \<le> round_half_even q'"
proof -
  have "\<lfloor>q\<rfloor> \<le> \<lfloor>q'\<rfloor>" using assms by (rule floor_mono)
  moreover have "\<lfloor>q\<rfloor> \<le> round_half_even q" "round_half_even q \<le> \<lfloor>q\<rfloor> + 1"
    "\<lfloor>q'\<rfloor> \<le> round_half_even q'" by (auto simp: round_half_even_def Let_def)
  ultimately consider "\<lfloor>q\<rfloor> = \<lfloor>q'\<rfloor>" | "round_half_even q \<le> round_half_even q'" by linarith
  then show ?thesis
  proof cases
    case 1
    then have "q - of_int \<lfloor>q\<rfloor> \<le> q' - of_int \<lfloor>q'\<rfloor>" using assms by simp
    with 1 show ?thesis by (auto simp: round_half_even_def Let_def)
  qed
qed

lemma round_float_mono: "a \<le> b \<Longrightarrow> round_float a \<le> round_float b"
  by (simp add: round_float_def divide_right_mono round_half_even_mono)

text \<open>Splitting a time range always returns when the gap between the pieces is positive:
  the pieces start with the range, follow each other at exactly that gap, do not pass the
  end of the range, and leave at most one gap of its end uncovered.\<close>

theorem split_covers_range:
  assumes "start < end_ts" "1 < n" "0 < diff"
  shows "\<exists>ivs. split_time_range_between_ts start end_ts n diff = Some (Inr ivs) \<and> ivs \<noteq> [] \<and>
    lower (hd ivs) = start \<and> upper (last ivs) \<le> end_ts \<and> end_ts \<le> upper (last ivs) + diff \<and>
    (\<forall>i<length ivs - 1. lower (ivs ! Suc i) = upper (ivs ! i) + diff)"
proof -
  let ?size = "of_int (int_trunc ((end_ts - start) / of_int n)) :: rat"
  have "0 \<le> (end_ts - start) / of_int n" using assms by simp
  then have size: "0 \<le> ?size" by (simp add: int_trunc_def)
  with assms have "0 < ?size + diff" by simp
  from split_loop_pieces [OF this, of end_ts start "[]"] obtain ivs where
    ivs: "split_loop end_ts ?size diff start (start + ?size) [] = Some ivs" "pieces ?size diff start end_ts ivs"
    by auto
  then have "split_time_range_between_ts start end_ts n diff = Some (Inr ivs)"
    using assms by (simp add: split_time_range_between_ts_def Let_def)
  with pieces_facts [OF ivs(2) assms(1) size] assms(3) show ?thesis by auto
qed

theorem split_covers_range_witness:
  "\<exists>ivs. split_time_range_between_ts 0 10 3 (1 / 10) = Some (Inr ivs) \<and> ivs \<noteq> [] \<and>
    lower (hd ivs) = 0 \<and> upper (last ivs) \<le> 10 \<and> 10 \<le> upper (last ivs) + 1 / 10 \<and>
    (\<forall>i<length ivs - 1. lower (ivs ! Suc i) = upper (ivs ! i) + 1 / 10)"
  using split_covers_range [of 0 10 3 "1 / 10"] by simp

text \<open>Rounding the size of a piece down makes one more piece than asked for.\<close>

lemma split_makes_extra_piece:
  "split_time_range_between_ts 0 10 3 (1 / 10) =
   Some (Inr [closed_ivl 0 3, closed_ivl (31 / 10) (61 / 10), closed_ivl (31 / 5) (46 / 5), closed_ivl (93 / 10) 10])"
proof -
  have f: "\<lfloor>10 / 3 :: rat\<rfloor> = 3" by (simp add: floor_eq_iff)
  show ?thesis by (simp add: split_time_range_between_ts_def int_trunc_def f split_loop.simps)
qed

end
