(* ===== verification/Blocks.thy ===== *)
theory Blocks
  imports TimeUtils
begin

text \<open>
  featurizer/blocks/blocks.py: block metadata and ranges of consecutive blocks, the grouping
  of blocks into intervals and the overlaps of several features. The metadata of a block is
  its time range and the rest of its entries. The dictionaries keyed by intervals are those
  of the portion library and come in as an operation table.
\<close>

section \<open>Metadata and intervals\<close>

record 'x BlockMeta =
  start_ts :: rat
  end_ts :: rat
  block_info :: 'x

definition checked_interval :: "rat \<Rightarrow> rat \<Rightarrow> Interval pyres" where
  "checked_interval start end_t = (if start > end_t then Inl ValueError else Inr (closed_ivl start end_t))"

definition meta_to_interval :: "'x BlockMeta \<Rightarrow> Interval pyres" where
  "meta_to_interval meta = checked_interval (round_float (start_ts meta)) (round_float (end_ts meta))"

definition range_meta_to_interval :: "'x BlockMeta list \<Rightarrow> Interval pyres" where
  "range_meta_to_interval range_meta =
     bindE (py_nth range_meta 0) (\<lambda>first.
     bindE (py_last range_meta) (\<lambda>final.
       checked_interval (round_float (start_ts first)) (round_float (end_ts final))))"

definition interval_to_meta :: "Interval \<Rightarrow> unit BlockMeta" where
  "interval_to_meta interval = \<lparr>start_ts = lower interval, end_ts = upper interval, block_info = ()\<rparr>"

lemma meta_interval_roundtrip:
  "meta_to_interval m = Inr i \<Longrightarrow> meta_to_interval (interval_to_meta i) = Inr i"
  by (auto simp: meta_to_interval_def checked_interval_def interval_to_meta_def split: if_splits)

text \<open>\<open>make_ranges\<close>: the index loop, \<open>cur_range\<close> collecting the blocks of the current range.\<close>

definition SAME_RANGE_DIFF_S :: rat where "SAME_RANGE_DIFF_S = 1"

fun make_ranges_loop :: "'x BlockMeta list \<Rightarrow> nat \<Rightarrow> nat \<Rightarrow> 'x BlockMeta list list \<Rightarrow> 'x BlockMeta list \<Rightarrow> 'x BlockMeta list list" where
  "make_ranges_loop data 0 i ranges cur_range = (if length cur_range \<noteq> 0 then ranges @ [cur_range] else ranges)"
| "make_ranges_loop data (Suc left) i ranges cur_range =
     (let cur_range = cur_range @ [data ! i] in
      if i + 1 < length data \<and> start_ts (data ! (i + 1)) - end_ts (data ! i) > SAME_RANGE_DIFF_S
      then make_ranges_loop data left (i + 1) (ranges @ [cur_range]) []
      else make_ranges_loop data left (i + 1) ranges cur_range)"

definition make_ranges :: "'x BlockMeta list \<Rightarrow> 'x BlockMeta list list" where
  "make_ranges data = make_ranges_loop data (length data) 0 [] []"

text \<open>The recursive reference: a new range starts wherever the gap is too large.\<close>

definition same_range :: "'x BlockMeta \<Rightarrow> 'x BlockMeta \<Rightarrow> bool" where
  "same_range a b = (start_ts b - end_ts a \<le> SAME_RANGE_DIFF_S)"

fun ranges_of :: "'x BlockMeta list \<Rightarrow> 'x BlockMeta list list" where
  "ranges_of [] = []"
| "ranges_of [b] = [[b]]"
| "ranges_of (a # b # bs) =
     (if same_range a b then (a # hd (ranges_of (b # bs))) # tl (ranges_of (b # bs))
      else [a] # ranges_of (b # bs))"

lemma ranges_of_shape: "ranges_of (b # bs) \<noteq> [] \<and> hd (ranges_of (b # bs)) \<noteq> [] \<and> hd (hd (ranges_of (b # bs))) = b"
  by (induction bs arbitrary: b) simp_all

lemma make_ranges_loop_eq:
  "rest \<noteq> [] \<Longrightarrow> drop i data = rest \<Longrightarrow> i + length rest = length data \<Longrightarrow>
   make_ranges_loop data (length rest) i ranges cur =
   ranges @ (cur @ hd (ranges_of rest)) # tl (ranges_of rest)"
proof (induction rest arbitrary: i ranges cur)
  case Nil
  then show ?case by simp
next
  case (Cons a rest)
  then have a: "data ! i = a" by (metis nth_via_drop)
  have drop: "drop (i + 1) data = rest" using Cons.prems(2) by (metis drop_Suc Suc_eq_plus1 list.sel(3) tl_drop)
  show ?case
  proof (cases rest)
    case Nil
    with Cons.prems a show ?thesis by simp
  next
    case (Cons b bs)
    then have b: "data ! (i + 1) = b" using drop by (metis nth_via_drop)
    have "i + 1 < length data" "i + 1 + length rest = length data" using Cons.prems Cons by simp_all
    note IH = Cons.IH [OF _ drop this(2)]
    have ne: "rest \<noteq> []" using Cons by simp
    have unfold: "make_ranges_loop data (length (a # rest)) i ranges cur =
      (if same_range a b then make_ranges_loop data (length rest) (i + 1) ranges (cur @ [a])
       else make_ranges_loop data (length rest) (i + 1) (ranges @ [cur @ [a]]) [])"
      using \<open>i + 1 < length data\<close> a b by (auto simp: same_range_def)
    have shape: "ranges_of rest \<noteq> []" using ranges_of_shape [of b bs] Cons by simp
    show ?thesis unfolding unfold IH [OF ne] using Cons shape by simp
  qed
qed

lemma make_ranges_eq: "make_ranges data = ranges_of data"
proof (cases data)
  case Nil
  then show ?thesis by (simp add: make_ranges_def)
next
  case (Cons a bs)
  then show ?thesis
    using make_ranges_loop_eq [of data 0 data "[]" "[]"] ranges_of_shape [of a bs]
    by (simp add: make_ranges_def)
qed

text \<open>C13. The ranges made of a list of blocks are the list cut into non-empty pieces: within a
  piece consecutive blocks are at most \<open>SAME_RANGE_DIFF_S\<close> apart, between the last block of a
  piece and the first of the next the gap is larger.\<close>

theorem make_ranges_cuts_at_gaps:
  "concat (make_ranges data) = data \<and>
   (\<forall>r\<in>set (make_ranges data). r \<noteq> [] \<and> (\<forall>i<length r - 1. start_ts (r ! Suc i) - end_ts (r ! i) \<le> SAME_RANGE_DIFF_S)) \<and>
   (\<forall>i<length (make_ranges data) - 1.
      start_ts (hd (make_ranges data ! Suc i)) - end_ts (last (make_ranges data ! i)) > SAME_RANGE_DIFF_S)"
  unfolding make_ranges_eq
proof (induction data rule: ranges_of.induct)
  case (3 a b bs)
  obtain r rs where rs: "ranges_of (b # bs) = r # rs" "r \<noteq> []" "hd r = b"
    using ranges_of_shape [of b bs] by (cases "ranges_of (b # bs)") auto
  have step: "\<forall>i<length (x # xs) - 1. P ((x # xs) ! Suc i) ((x # xs) ! i) \<Longrightarrow> P x y \<Longrightarrow>
      \<forall>i<length (y # x # xs) - 1. P ((y # x # xs) ! Suc i) ((y # x # xs) ! i)" for P and x y :: 'z and xs
    by (auto simp: less_Suc_eq_0_disj)
  show ?case
  proof (cases "same_range a b")
    case True
    from rs obtain r' where r': "r = b # r'" by (cases r) auto
    have "\<forall>i<length (a # r) - 1. start_ts ((a # r) ! Suc i) - end_ts ((a # r) ! i) \<le> SAME_RANGE_DIFF_S"
      using step [of b r' "\<lambda>x y. start_ts x - end_ts y \<le> SAME_RANGE_DIFF_S" a] 3 True rs r'
      by (simp add: same_range_def)
    moreover have "start_ts (hd (((a # r) # rs) ! Suc i)) - end_ts (last (((a # r) # rs) ! i)) > SAME_RANGE_DIFF_S"
      if "i < length rs" for i
      using 3 True rs that by (cases i) (auto simp: same_range_def)
    ultimately show ?thesis using 3 True rs by (auto simp: same_range_def)
  next
    case False
    have "\<forall>i<length ([a] # r # rs) - 1.
        start_ts (hd (([a] # r # rs) ! Suc i)) - end_ts (last (([a] # r # rs) ! i)) > SAME_RANGE_DIFF_S"
      using step [of r rs "\<lambda>x y. start_ts (hd x) - end_ts (last y) > SAME_RANGE_DIFF_S" "[a]"] 3 False rs
      by (simp add: same_range_def)
    then show ?thesis using 3 False rs by (auto simp: same_range_def)
  qed
qed simp_all

theorem make_ranges_cuts_at_gaps_witness:
  "start_ts (hd (make_ranges [\<lparr>start_ts = 0, end_ts = 1, block_info = ()\<rparr>, \<lparr>start_ts = 2, end_ts = 3, block_info = ()\<rparr>,
     \<lparr>start_ts = 5, end_ts = 6, block_info = ()\<rparr>] ! Suc 0)) -
   end_ts (last (make_ranges [\<lparr>start_ts = 0, end_ts = 1, block_info = ()\<rparr>, \<lparr>start_ts = 2, end_ts = 3, block_info = ()\<rparr>,
     \<lparr>start_ts = 5, end_ts = 6, block_info = ()\<rparr>] ! 0)) > SAME_RANGE_DIFF_S"
proof -
  let ?data = "[\<lparr>start_ts = 0, end_ts = 1, block_info = ()\<rparr>, \<lparr>start_ts = 2, end_ts = 3, block_info = ()\<rparr>,
     \<lparr>start_ts = 5, end_ts = 6, block_info = ()\<rparr>]"
  have "length (make_ranges ?data) = 2" by code_simp
  with make_ranges_cuts_at_gaps [of ?data] show ?thesis by simp
qed

section \<open>Dictionaries keyed by intervals\<close>

text \<open>What the sources use of portion's \<open>IntervalDict\<close>: an empty one, storing under an interval,
  its keys and items, and \<open>i.overlaps(interval)\<close>. Keys may be unions of intervals, hence a type
  of their own.\<close>

record ('d, 'key, 'v) idict_ops =
  idict_empty :: 'd
  idict_set :: "Interval \<Rightarrow> 'v \<Rightarrow> 'd \<Rightarrow> 'd"
  idict_keys :: "'d \<Rightarrow> 'key list"
  idict_overlaps :: "'key \<Rightarrow> Interval \<Rightarrow> bool"

fun overlaps_any :: "('key \<Rightarrow> Interval \<Rightarrow> bool) \<Rightarrow> Interval \<Rightarrow> 'key list \<Rightarrow> bool" where
  "overlaps_any ov interval [] = False"
| "overlaps_any ov interval (i # keys) = (if ov i interval then True else overlaps_any ov interval keys)"

definition overlaps_keys :: "('d, 'key, 'v) idict_ops \<Rightarrow> Interval \<Rightarrow> 'd \<Rightarrow> bool" where
  "overlaps_keys ops interval d = overlaps_any (idict_overlaps ops) interval (idict_keys ops d)"

definition ranges_to_interval_dict ::
    "('d, 'key, 'x BlockMeta list) idict_ops \<Rightarrow> 'x BlockMeta list list \<Rightarrow> 'd pyres" where
  "ranges_to_interval_dict ops ranges =
     foldE (\<lambda>block_range res.
       bindE (range_meta_to_interval block_range) (\<lambda>interval.
       if overlaps_keys ops interval res then Inl ValueError
       else Inr (idict_set ops interval block_range res))) ranges (idict_empty ops)"

definition identity_grouping ::
    "('d, 'key, 'x BlockMeta list) idict_ops \<Rightarrow> 'x BlockMeta list \<Rightarrow> 'd pyres" where
  "identity_grouping ops ranges =
     foldE (\<lambda>meta res. bindE (meta_to_interval meta) (\<lambda>i. Inr (idict_set ops i [meta] res))) ranges (idict_empty ops)"

text \<open>The look-back of a windowed block: the earlier blocks, nearest first, while they end
  within the window.\<close>

fun look_back :: "'x BlockMeta list \<Rightarrow> string \<Rightarrow> 'x BlockMeta \<Rightarrow> nat \<Rightarrow> 'x BlockMeta list \<Rightarrow> 'x BlockMeta list pyres" where
  "look_back ranges window cur 0 windowed_blocks = Inr windowed_blocks"
| "look_back ranges window cur (Suc j) windowed_blocks =
     bindE (convert_str_to_seconds window) (\<lambda>s.
       if start_ts cur - end_ts (ranges ! j) \<le> s
       then look_back ranges window cur j (windowed_blocks @ [ranges ! j])
       else Inr windowed_blocks)"

definition windowed_grouping ::
    "('d, 'key, 'x BlockMeta list) idict_ops \<Rightarrow> 'x BlockMeta list \<Rightarrow> string \<Rightarrow> 'd pyres" where
  "windowed_grouping ops ranges window =
     foldE (\<lambda>i res.
       bindE (look_back ranges window (ranges ! i) i [ranges ! i]) (\<lambda>windowed_blocks.
       bindE (meta_to_interval (ranges ! i)) (\<lambda>interval.
         Inr (idict_set ops interval windowed_blocks res)))) [0..<length ranges] (idict_empty ops)"

lemma look_back_takeWhile:
  assumes "convert_str_to_seconds window = Inr s" "j \<le> length ranges"
  shows "look_back ranges window cur j acc =
    Inr (acc @ takeWhile (\<lambda>b. start_ts cur - end_ts b \<le> s) (rev (take j ranges)))"
  using assms(2)
proof (induction j arbitrary: acc)
  case 0
  then show ?case by simp
next
  case (Suc j)
  then have "rev (take (Suc j) ranges) = ranges ! j # rev (take j ranges)"
    by (simp add: take_Suc_conv_app_nth)
  with Suc assms(1) show ?case by simp
qed

lemma takeWhile_sorted_ends:
  "sorted_wrt (\<lambda>a b. end_ts b \<le> end_ts a) bs \<Longrightarrow>
   takeWhile (\<lambda>b. t - end_ts b \<le> s) bs = filter (\<lambda>b. t - end_ts b \<le> s) bs"
proof (induction bs)
  case (Cons b bs)
  have "filter (\<lambda>b. t - end_ts b \<le> s) bs = []" if "\<not> t - end_ts b \<le> s"
    using Cons.prems that by (force simp: filter_empty_conv)
  with Cons show ?case by auto
qed simp

text \<open>In blocks sorted by their end the blocks grouped with a block for a window are
  the block itself and exactly the earlier ones that end within the window before its start.\<close>

theorem look_back_finds_window:
  assumes "convert_str_to_seconds window = Inr s" "i < length ranges" "sorted (map end_ts ranges)"
    "look_back ranges window (ranges ! i) i [ranges ! i] = Inr bs"
  shows "set bs = insert (ranges ! i) {ranges ! j |j. j < i \<and> start_ts (ranges ! i) - end_ts (ranges ! j) \<le> s}"
proof -
  let ?P = "\<lambda>b. start_ts (ranges ! i) - end_ts b \<le> s"
  have "sorted (map end_ts (take i ranges))" using assms(3) by (metis sorted_wrt_take take_map)
  then have "sorted_wrt (\<lambda>a b. end_ts b \<le> end_ts a) (rev (take i ranges))"
    by (simp add: sorted_wrt_rev sorted_map)
  from takeWhile_sorted_ends [OF this, of "start_ts (ranges ! i)" s] assms(2,4)
  have "bs = ranges ! i # filter ?P (rev (take i ranges))"
    using look_back_takeWhile [OF assms(1), of i ranges "ranges ! i" "[ranges ! i]"] by simp
  moreover have "set (take i ranges) = {ranges ! j |j. j < i}"
    using assms(2) by (force simp: in_set_conv_nth)
  ultimately show ?thesis by auto
qed

theorem look_back_finds_window_witness:
  "set [\<lparr>start_ts = 8, end_ts = 9, block_info = ()\<rparr>, \<lparr>start_ts = 4, end_ts = 6, block_info = ()\<rparr>] =
   insert ([\<lparr>start_ts = 0, end_ts = 3, block_info = ()\<rparr>, \<lparr>start_ts = 4, end_ts = 6, block_info = ()\<rparr>,
       \<lparr>start_ts = 8, end_ts = 9, block_info = ()\<rparr>] ! 2)
     {[\<lparr>start_ts = 0, end_ts = 3, block_info = ()\<rparr>, \<lparr>start_ts = 4, end_ts = 6, block_info = ()\<rparr>,
         \<lparr>start_ts = 8, end_ts = 9, block_info = ()\<rparr>] ! j |j.
       j < 2 \<and> start_ts ([\<lparr>start_ts = 0, end_ts = 3, block_info = ()\<rparr>, \<lparr>start_ts = 4, end_ts = 6, block_info = ()\<rparr>,
         \<lparr>start_ts = 8, end_ts = 9, block_info = ()\<rparr>] ! 2) -
       end_ts ([\<lparr>start_ts = 0, end_ts = 3, block_info = ()\<rparr>, \<lparr>start_ts = 4, end_ts = 6, block_info = ()\<rparr>,
         \<lparr>start_ts = 8, end_ts = 9, block_info = ()\<rparr>] ! j) \<le> 2}"
proof (rule look_back_finds_window)
  have two: "convert_str_to_seconds ''2s'' = Inr 2"
    by code_simp
  then show "convert_str_to_seconds ''2s'' = Inr 2" .
  show "look_back [\<lparr>start_ts = 0, end_ts = 3, block_info = ()\<rparr>, \<lparr>start_ts = 4, end_ts = 6, block_info = ()\<rparr>,
        \<lparr>start_ts = 8, end_ts = 9, block_info = ()\<rparr>] ''2s''
      ([\<lparr>start_ts = 0, end_ts = 3, block_info = ()\<rparr>, \<lparr>start_ts = 4, end_ts = 6, block_info = ()\<rparr>,
        \<lparr>start_ts = 8, end_ts = 9, block_info = ()\<rparr>] ! 2) 2
      [[\<lparr>start_ts = 0, end_ts = 3, block_info = ()\<rparr>, \<lparr>start_ts = 4, end_ts = 6, block_info = ()\<rparr>,
        \<lparr>start_ts = 8, end_ts = 9, block_info = ()\<rparr>] ! 2] =
    Inr [\<lparr>start_ts = 8, end_ts = 9, block_info = ()\<rparr>, \<lparr>start_ts = 4, end_ts = 6, block_info = ()\<rparr>]"
    by (simp add: two numeral_2_eq_2)
qed simp_all

section \<open>Overlaps\<close>

text \<open>\<open>get_overlaps\<close> on the joins of the library: \<open>items\<close> lists an interval dictionary,
  \<open>start\<close> builds the dictionary of the first key, \<open>inner_join\<close> is
  \<open>d.combine(e, how)[d.domain() & e.domain()]\<close>.\<close>

record ('d, 'e, 'k, 'v) overlap_ops =
  value_items :: "'e \<Rightarrow> (Interval \<times> 'v) list"
  named_from :: "(Interval \<times> ('k, 'v) dict) list \<Rightarrow> 'd"
  inner_join :: "(('k, 'v) dict \<Rightarrow> 'v \<Rightarrow> ('k, 'v) dict) \<Rightarrow> 'd \<Rightarrow> 'e \<Rightarrow> 'd"
  named_items :: "'d \<Rightarrow> (Interval \<times> ('k, 'v) dict) list"

definition join_key :: "('d, 'e, 'k, 'v) overlap_ops \<Rightarrow> 'k \<Rightarrow> 'k \<times> 'e \<Rightarrow> 'd \<Rightarrow> 'd" where
  "join_key ops first_key p d =
     (if fst p = first_key then d
      else inner_join ops (\<lambda>named values. dict_put (fst p) values named) d (snd p))"

definition get_overlaps ::
    "('d, 'e, 'k, 'v) overlap_ops \<Rightarrow> ('k, 'e) dict \<Rightarrow> (Interval, ('k, 'v) dict) dict pyres" where
  "get_overlaps ops key_intervaled_value =
     bindE (py_nth (dict_keys key_intervaled_value) 0) (\<lambda>first_key.
     bindE (dict_lookup key_intervaled_value first_key) (\<lambda>first.
       let d = named_from ops (map (\<lambda>(interval, values). (interval, [(first_key, values)])) (value_items ops first));
           d' = fold (join_key ops first_key) key_intervaled_value d
       in Inr (fold (\<lambda>(interval, value) res. dict_put (closed_ivl (lower interval) (upper interval)) value res)
                (named_items ops d') [])))"

text \<open>What portion documents of these calls: the dictionary built from a list holds values of the
  list, the inner join combines a value of the one side with a value of the other.\<close>

definition overlap_laws :: "('d, 'e, 'k, 'v) overlap_ops \<Rightarrow> bool" where
  "overlap_laws ops \<longleftrightarrow>
     (\<forall>l. snd ` set (named_items ops (named_from ops l)) \<subseteq> snd ` set l) \<and>
     (\<forall>how d e. snd ` set (named_items ops (inner_join ops how d e))
        \<subseteq> {how a b |a b. a \<in> snd ` set (named_items ops d) \<and> b \<in> snd ` set (value_items ops e)})"

lemma overlap_join:
  assumes "overlap_laws ops" "v \<in> snd ` set (named_items ops (inner_join ops how d e))"
  shows "\<exists>a b. v = how a b \<and> a \<in> snd ` set (named_items ops d) \<and> b \<in> snd ` set (value_items ops e)"
proof -
  from assms(1) have "snd ` set (named_items ops (inner_join ops how d e))
      \<subseteq> {how a b |a b. a \<in> snd ` set (named_items ops d) \<and> b \<in> snd ` set (value_items ops e)}"
    by (simp only: overlap_laws_def)
  from subsetD [OF this assms(2)] show ?thesis by simp
qed

text \<open>A value of the result names one value of every feature, in the order of the features.\<close>

definition one_per_key :: "('d, 'e, 'k, 'v) overlap_ops \<Rightarrow> ('k, 'e) dict \<Rightarrow> ('k, 'v) dict \<Rightarrow> bool" where
  "one_per_key ops es = list_all2 (\<lambda>(k, e) (k', x). k' = k \<and> x \<in> snd ` set (value_items ops e)) es"

lemma one_per_key_keys: "one_per_key ops es v \<Longrightarrow> map fst v = map fst es"
  unfolding one_per_key_def by (induction rule: list_all2_induct) auto

lemma join_one_per_key:
  assumes "overlap_laws ops" "k \<notin> fst ` set pre" "\<forall>v\<in>snd ` set (named_items ops d). one_per_key ops pre v"
  shows "\<forall>v\<in>snd ` set (named_items ops (inner_join ops (\<lambda>named values. dict_put k values named) d e)).
    one_per_key ops (pre @ [(k, e)]) v"
proof
  fix v
  assume "v \<in> snd ` set (named_items ops (inner_join ops (\<lambda>named values. dict_put k values named) d e))"
  from overlap_join [OF assms(1) this] obtain a x where v: "v = dict_put k x a"
    "a \<in> snd ` set (named_items ops d)" "x \<in> snd ` set (value_items ops e)" by (elim exE conjE)
  then have a: "one_per_key ops pre a" using assms(3) by blast
  then have "v = a @ [(k, x)]"
    using v(1) assms(2) dict_put_fresh one_per_key_keys [OF a] by (metis list.set_map)
  with a v(3) show "one_per_key ops (pre @ [(k, e)]) v"
    by (auto simp: one_per_key_def intro!: list_all2_appendI)
qed

lemma get_overlaps_fold:
  assumes "overlap_laws ops" "distinct (map fst (pre @ todo))" "first \<in> fst ` set pre"
    "\<forall>v\<in>snd ` set (named_items ops d). one_per_key ops pre v"
  shows "\<forall>v\<in>snd ` set (named_items ops (fold (join_key ops first) todo d)).
       one_per_key ops (pre @ todo) v"
  using assms(2-4)
proof (induction todo arbitrary: pre d)
  case Nil
  then show ?case by simp
next
  case (Cons p todo)
  obtain k e where p: "p = (k, e)" by (cases p)
  have new: "k \<notin> fst ` set pre" "k \<noteq> first" using Cons.prems p by auto
  have "first \<in> fst ` set (pre @ [(k, e)])" "distinct (map fst ((pre @ [(k, e)]) @ todo))"
    using Cons.prems p by auto
  from Cons.IH [OF this(2,1) join_one_per_key [OF assms(1) new(1) Cons.prems(3)]]
  show ?case using new(2) by (simp add: p join_key_def [of ops first "(k, e)"])
qed

lemma fold_put_values:
  "snd ` set (fold (\<lambda>(i, v) r. dict_put (f i) v r) l acc) \<subseteq> snd ` set l \<union> snd ` set acc"
proof (induction l arbitrary: acc)
  case (Cons p l)
  obtain i v where "p = (i, v)" by (cases p)
  with Cons.IH [of "dict_put (f i) v acc"] update_values [of "f i" v acc] show ?case by auto
qed simp

text \<open>Whatever intervals the library computes, every entry of the overlaps of several
  features holds exactly one value per feature, taken from that feature's own dictionary and in
  the order of the features.\<close>

lemma overlaps_name_every_feature:
  assumes "overlap_laws ops" "distinct (dict_keys d)" "get_overlaps ops d = Inr res" "(i, named) \<in> set res"
  shows "one_per_key ops d named"
proof -
  from assms(3) obtain first e rest where d: "d = (first, e) # rest"
    by (cases d) (auto simp: get_overlaps_def py_nth_def)
  let ?start = "named_from ops (map (\<lambda>(interval, values). (interval, [(first, values)])) (value_items ops e))"
  let ?all = "fold (join_key ops first) rest ?start"
  have "\<forall>v\<in>snd ` set (named_items ops ?start). one_per_key ops [(first, e)] v"
  proof
    fix v
    assume "v \<in> snd ` set (named_items ops ?start)"
    then have "v \<in> snd ` set (map (\<lambda>(interval, values). (interval, [(first, values)])) (value_items ops e))"
      using assms(1) unfolding overlap_laws_def by blast
    then show "one_per_key ops [(first, e)] v" by (force simp: one_per_key_def)
  qed
  then have all: "\<forall>v\<in>snd ` set (named_items ops ?all). one_per_key ops d v"
    using get_overlaps_fold [OF assms(1), of "[(first, e)]" rest first ?start] assms(2) d by simp
  have "res = fold (\<lambda>(interval, value) r. dict_put (closed_ivl (lower interval) (upper interval)) value r)
      (named_items ops ?all) []"
    using assms(3) d by (simp add: get_overlaps_def py_nth_def dict_lookup_def join_key_def [of ops first "(first, e)"])
  then have "named \<in> snd ` set (named_items ops ?all)"
    using assms(4) fold_put_values [of "\<lambda>interval. closed_ivl (lower interval) (upper interval)" "named_items ops ?all" "[]"]
    by force
  with all show ?thesis by blast
qed

text \<open>An instance of the operation table on lists of disjoint closed intervals, for evaluation.\<close>

definition list_overlap_ops ::
    "((Interval \<times> ('k, 'v) dict) list, (Interval \<times> 'v) list, 'k, 'v) overlap_ops" where
  "list_overlap_ops = \<lparr>value_items = (\<lambda>e. e), named_from = (\<lambda>l. l),
     inner_join = (\<lambda>how d e. [(closed_ivl (max (lower i) (lower j)) (min (upper i) (upper j)), how a b).
        (i, a) \<leftarrow> d, (j, b) \<leftarrow> e, max (lower i) (lower j) \<le> min (upper i) (upper j)]),
     named_items = (\<lambda>d. d)\<rparr>"

lemma list_overlap_laws: "overlap_laws list_overlap_ops"
  unfolding overlap_laws_def list_overlap_ops_def by (simp, intro conjI allI subsetI) (auto, force)

lemma overlaps_of_two_features:
  "one_per_key list_overlap_ops [(CHR ''a'', [(closed_ivl 0 4, 1 :: nat), (closed_ivl 5 9, 2)]), (CHR ''b'', [(closed_ivl 2 7, 3)])]
     [(CHR ''a'', 2), (CHR ''b'', 3)]"
proof (rule overlaps_name_every_feature [OF list_overlap_laws])
  show "get_overlaps list_overlap_ops
      [(CHR ''a'', [(closed_ivl 0 4, 1 :: nat), (closed_ivl 5 9, 2)]), (CHR ''b'', [(closed_ivl 2 7, 3)])] =
    Inr [(closed_ivl 2 4, [(CHR ''a'', 1), (CHR ''b'', 3)]), (closed_ivl 5 7, [(CHR ''a'', 2), (CHR ''b'', 3)])]"
    by (simp add: get_overlaps_def list_overlap_ops_def py_nth_def dict_lookup_def join_key_def)
qed simp_all

section \<open>Pruning and order\<close>

text \<open>An element of an overlap is a tuple that starts with its interval, or a block's metadata.\<close>

datatype ('x, 'n) element = Tagged Interval 'n | Meta "'x BlockMeta"

definition element_interval :: "('x, 'n) element \<Rightarrow> Interval pyres" where
  "element_interval e = (case e of Tagged i n \<Rightarrow> Inr i | Meta m \<Rightarrow> meta_to_interval m)"

definition prune_elements ::
    "(Interval \<Rightarrow> Interval \<Rightarrow> bool) \<Rightarrow> Interval \<Rightarrow> ('x, 'n) element list \<Rightarrow> ('x, 'n) element list pyres" where
  "prune_elements overlaps interval block_range =
     bindE (foldE (\<lambda>e pruned. bindE (element_interval e) (\<lambda>i.
         Inr (if overlaps interval i then pruned @ [e] else pruned))) block_range [])
       (\<lambda>pruned. if length pruned = 0 then Inl ValueError else Inr pruned)"

definition prune_overlaps ::
    "(Interval \<Rightarrow> Interval \<Rightarrow> bool) \<Rightarrow> (Interval, ('k, ('x, 'n) element list) dict) dict
     \<Rightarrow> (Interval, ('k, ('x, 'n) element list) dict) dict pyres" where
  "prune_overlaps overlaps d =
     mapE (\<lambda>(interval, ranges).
       bindE (mapE (\<lambda>(key, block_range). bindE (prune_elements overlaps interval block_range) (\<lambda>r. Inr (key, r))) ranges)
         (\<lambda>ranges'. Inr (interval, ranges'))) d"

lemma prune_fold:
  "foldE (\<lambda>e pruned. bindE (element_interval e) (\<lambda>i. Inr (if overlaps interval i then pruned @ [e] else pruned))) block_range acc = Inr r \<Longrightarrow>
   r = acc @ filter (\<lambda>e. \<exists>i. element_interval e = Inr i \<and> overlaps interval i) block_range"
proof (induction block_range arbitrary: acc)
  case (Cons e es)
  from Cons.prems obtain i where i: "element_interval e = Inr i" by auto
  show ?case using Cons.prems Cons.IH [of "if overlaps interval i then acc @ [e] else acc"] i
    by (simp split: if_splits)
qed simp

lemma prune_elements_spec:
  assumes "prune_elements overlaps interval block_range = Inr r"
  shows "r \<noteq> []" "r = filter (\<lambda>e. \<exists>i. element_interval e = Inr i \<and> overlaps interval i) block_range"
  using assms prune_fold [of overlaps interval block_range "[]"] by (auto simp: prune_elements_def split: if_splits)

text \<open>Pruning keeps intervals and keys and leaves every list non-empty.\<close>

definition pruned_to :: "(Interval \<Rightarrow> Interval \<Rightarrow> bool) \<Rightarrow> Interval \<Rightarrow> ('x, 'n) element list \<Rightarrow> ('x, 'n) element list \<Rightarrow> bool" where
  "pruned_to overlaps i r r' \<longleftrightarrow>
     r' \<noteq> [] \<and> r' = filter (\<lambda>e. \<exists>j. element_interval e = Inr j \<and> overlaps i j) r"

lemma prune_elements_to: "prune_elements overlaps i r = Inr r' \<Longrightarrow> pruned_to overlaps i r r'"
  using prune_elements_spec [of overlaps i r r'] by (simp add: pruned_to_def)

lemma prune_overlaps_shape:
  assumes "prune_overlaps overlaps d = Inr d'"
  shows "list_all2 (\<lambda>(i, rs) (i', rs'). i' = i \<and>
    list_all2 (\<lambda>(k, r) (k', r'). k' = k \<and> pruned_to overlaps i r r') rs rs') d d'"
  using assms unfolding prune_overlaps_def mapE_Inr_iff
  by (rule list_all2_mono)
    (auto simp: mapE_Inr_iff prune_elements_to elim!: list_all2_mono)

fun is_sorted_from :: "Interval list \<Rightarrow> nat \<Rightarrow> nat \<Rightarrow> bool" where
  "is_sorted_from intervals i 0 = True"
| "is_sorted_from intervals i (Suc n) =
     (if upper (intervals ! (i - 1)) > lower (intervals ! i) then False else is_sorted_from intervals (i + 1) n)"

definition is_sorted_intervals :: "Interval list \<Rightarrow> bool" where
  "is_sorted_intervals intervals = is_sorted_from intervals 1 (length intervals - 1)"

lemma is_sorted_from_iff:
  "is_sorted_from intervals i n \<longleftrightarrow> (\<forall>j. i \<le> j \<and> j < i + n \<longrightarrow> upper (intervals ! (j - 1)) \<le> lower (intervals ! j))"
proof (induction n arbitrary: i)
  case (Suc n)
  have "i \<le> j \<and> j < i + Suc n \<longleftrightarrow> j = i \<or> i + 1 \<le> j \<and> j < i + 1 + n" for j by arith
  with Suc show ?case by (auto simp: not_less)
qed simp

lemma is_sorted_intervals_iff:
  "is_sorted_intervals intervals \<longleftrightarrow>
   (\<forall>j. Suc j < length intervals \<longrightarrow> upper (intervals ! j) \<le> lower (intervals ! Suc j))"
  unfolding is_sorted_intervals_def is_sorted_from_iff
proof (intro iffI allI impI)
  fix j
  assume "\<forall>j. 1 \<le> j \<and> j < 1 + (length intervals - 1) \<longrightarrow> upper (intervals ! (j - 1)) \<le> lower (intervals ! j)"
    "Suc j < length intervals"
  then show "upper (intervals ! j) \<le> lower (intervals ! Suc j)" by (elim allE [of _ "Suc j"]) simp
next
  fix j
  assume "\<forall>j. Suc j < length intervals \<longrightarrow> upper (intervals ! j) \<le> lower (intervals ! Suc j)"
    "1 \<le> j \<and> j < 1 + (length intervals - 1)"
  then show "upper (intervals ! (j - 1)) \<le> lower (intervals ! j)" by (cases j) auto
qed

definition intervals_almost_equal :: "Interval \<Rightarrow> Interval \<Rightarrow> rat \<Rightarrow> bool" where
  "intervals_almost_equal i1 i2 diff = (\<bar>upper i1 - upper i2\<bar> \<le> diff \<and> \<bar>lower i1 - lower i2\<bar> \<le> diff)"

lemma intervals_almost_equal_sym: "intervals_almost_equal i j diff \<longleftrightarrow> intervals_almost_equal j i diff"
  by (simp add: intervals_almost_equal_def abs_minus_commute)

text \<open>Being almost equal is not transitive, so a block can match two stored ones.\<close>

lemma almost_equal_twice:
  "intervals_almost_equal (closed_ivl 0 10) (closed_ivl (1 / 10) 10) (15 / 100) \<and>
   intervals_almost_equal (closed_ivl (1 / 10) 10) (closed_ivl (2 / 10) 10) (15 / 100) \<and>
   \<not> intervals_almost_equal (closed_ivl 0 10) (closed_ivl (2 / 10) 10) (15 / 100)"
  by (simp add: intervals_almost_equal_def)

end
