(* ===== verification/BlockCache.thy ===== *)
theory BlockCache
  imports TimeUtils
begin

text \<open>
  The block cache of a featurizer run: featurizer/actors/cache_actor.py and the tasks of
  featurizer/task_graph/tasks.py that fill and read it. While the graph is built every bound
  task counts one use of its block, at run time every task takes one use back, and a block
  with several uses is put in Ray's object store by the first task that produces it.
  \<open>ray.put\<close> and \<open>ray.get\<close> of one reference are parameters, as are the data store and the
  computation of a feature block.
\<close>

section \<open>The actor\<close>

type_synonym ('i, 'r) uses = "('i, int \<times> 'r option) dict"
type_synonym ('k, 'i, 'r) obj_cache = "('k, ('i, 'r) uses) dict"

definition bind_use :: "'k \<Rightarrow> 'i \<Rightarrow> ('k, 'i, 'r) obj_cache \<Rightarrow> ('k, 'i, 'r) obj_cache" where
  "bind_use feature_key interval cache =
     (case map_of cache feature_key of
        None \<Rightarrow> dict_put feature_key [(interval, (1, None))] cache
      | Some m \<Rightarrow>
          (case map_of m interval of
             Some (ref_count, ref) \<Rightarrow> dict_put feature_key (dict_put interval (ref_count + 1, ref) m) cache
           | None \<Rightarrow> dict_put feature_key (dict_put interval (1, None) m) cache))"

text \<open>\<open>bind_and_cache\<close> returns the bound node (\<open>bind\<close> is Ray's) and counts the use.\<close>

definition bind_and_cache ::
    "('k \<times> 'i \<Rightarrow> 'n) \<Rightarrow> ('k, 'i, 'r) obj_cache \<Rightarrow> 'k \<times> 'i \<Rightarrow> 'n \<times> ('k, 'i, 'r) obj_cache" where
  "bind_and_cache bind cache ctx = (bind ctx, bind_use (fst ctx) (snd ctx) cache)"

definition check_cache ::
    "'k \<times> 'i \<Rightarrow> ('k, 'i, 'r) obj_cache \<Rightarrow> ('r option \<times> bool) \<times> ('k, 'i, 'r) obj_cache" where
  "check_cache ctx cache =
     (let (feature_key, interval) = ctx in
      case map_of cache feature_key of
        None \<Rightarrow> ((None, False), cache)
      | Some m \<Rightarrow>
          (case map_of m interval of
             None \<Rightarrow> ((None, False), cache)
           | Some (ref_counter, obj_ref) \<Rightarrow>
               ((obj_ref, ref_counter > 1 \<and> obj_ref = None),
                if ref_counter = 1 then cache
                else dict_put feature_key (dict_put interval (ref_counter - 1, obj_ref) m) cache)))"

definition cache_obj_ref ::
    "'r list \<Rightarrow> 'k \<times> 'i \<Rightarrow> ('k, 'i, 'r) obj_cache \<Rightarrow> ('k, 'i, 'r) obj_cache pyres" where
  "cache_obj_ref obj_ref_list ctx cache =
     (let (feature_key, interval) = ctx in
      case map_of cache feature_key of
        None \<Rightarrow> Inl ValueError
      | Some m \<Rightarrow>
          (case map_of m interval of
             None \<Rightarrow> Inl ValueError
           | Some (ref_counter, _) \<Rightarrow>
               bindE (py_nth obj_ref_list 0) (\<lambda>ref.
                 Inr (dict_put feature_key (dict_put interval (ref_counter, Some ref) m) cache))))"

section \<open>The tasks\<close>

text \<open>\<open>_get_from_cache\<close>: a reference that can no longer be resolved counts as absent.\<close>

definition get_from_cache ::
    "('r \<Rightarrow> 'b option) \<Rightarrow> 'k \<times> 'i \<Rightarrow> ('k, 'i, 'r) obj_cache \<Rightarrow> ('b option \<times> bool) \<times> ('k, 'i, 'r) obj_cache" where
  "get_from_cache ray_get ctx cache =
     (let ((obj_ref, should_cache), cache') = check_cache ctx cache in
      case obj_ref of
        None \<Rightarrow> ((None, should_cache), cache')
      | Some ref \<Rightarrow> ((ray_get ref, should_cache), cache'))"

definition cache_obj ::
    "('b \<Rightarrow> 'r) \<Rightarrow> 'b \<Rightarrow> 'k \<times> 'i \<Rightarrow> ('k, 'i, 'r) obj_cache \<Rightarrow> ('k, 'i, 'r) obj_cache pyres" where
  "cache_obj ray_put obj ctx cache = cache_obj_ref [ray_put obj] ctx cache"

text \<open>A task's effects survive its exception: the result of a task is its value or exception,
  with the cache and whether the data store was read.\<close>

definition load_if_needed ::
    "('b \<Rightarrow> 'r) \<Rightarrow> ('r \<Rightarrow> 'b option) \<Rightarrow> ('p \<Rightarrow> 'b pyres) \<Rightarrow> ('b \<Rightarrow> bool) \<Rightarrow> 'k \<times> 'i \<Rightarrow> 'p
     \<Rightarrow> ('k, 'i, 'r) obj_cache \<Rightarrow> ('b pyres \<times> bool) \<times> ('k, 'i, 'r) obj_cache" where
  "load_if_needed ray_put ray_get load_df is_ts_sorted ctx path cache =
     (let ((df, should_cache), cache1) = get_from_cache ray_get ctx cache in
      case df of
        Some b \<Rightarrow> ((Inr b, False), cache1)
      | None \<Rightarrow>
          (case load_df path of
             Inl e \<Rightarrow> ((Inl e, True), cache1)
           | Inr b \<Rightarrow>
               if \<not> is_ts_sorted b then ((Inl ValueError, True), cache1)
               else if should_cache then
                 (case cache_obj ray_put b ctx cache1 of
                    Inl e \<Rightarrow> ((Inl e, True), cache1)
                  | Inr cache2 \<Rightarrow> ((Inr b, True), cache2))
               else ((Inr b, True), cache1)))"

text \<open>\<open>calculate_feature\<close>. \<open>ray.get\<close> takes one positional argument, the list of references; the
  task passes one list per dependency. \<open>run\<close> merges the blocks of the dependencies and runs
  the feature's stream on them; the metadata table is the list of rows, looked up by hash.\<close>

record ('f, 'b, 'm, 'h) feature_store =
  make_metadata :: "'f \<Rightarrow> 'b \<Rightarrow> Interval \<Rightarrow> 'm pyres"
  hash_of :: "'m \<Rightarrow> 'h"

definition get_all_blocks :: "('r \<Rightarrow> 'b) \<Rightarrow> 'r list list \<Rightarrow> 'b list pyres" where
  "get_all_blocks deref all_block_refs =
     (case all_block_refs of [refs] \<Rightarrow> Inr (map deref refs) | _ \<Rightarrow> Inl TypeError)"

fun split_deps :: "'b list \<Rightarrow> ('f, 'r list) dict \<Rightarrow> ('f \<times> 'b list) list" where
  "split_deps objs [] = []"
| "split_deps objs ((dep, refs) # deps) =
     (dep, take (length refs) objs) # split_deps (drop (length refs) objs) deps"

definition store_feature_block ::
    "('f, 'b, 'm, 'h) feature_store \<Rightarrow> 'f \<Rightarrow> 'b \<Rightarrow> Interval \<Rightarrow> ('m \<times> 'b) list \<Rightarrow> ('m \<times> 'b) list pyres" where
  "store_feature_block fs feature df interval stored =
     bindE (make_metadata fs feature df interval) (\<lambda>m.
       Inr (if hash_of fs m \<in> hash_of fs ` fst ` set stored then stored else stored @ [(m, df)]))"

definition calculate_feature ::
    "('b \<Rightarrow> 'r) \<Rightarrow> ('r \<Rightarrow> 'b option) \<Rightarrow> ('r \<Rightarrow> 'b)
     \<Rightarrow> ('f \<Rightarrow> ('f \<times> 'b list) list \<Rightarrow> Interval \<Rightarrow> 'b pyres) \<Rightarrow> ('b \<Rightarrow> bool) \<Rightarrow> ('f, 'b, 'm, 'h) feature_store
     \<Rightarrow> 'k \<times> 'i \<Rightarrow> 'f \<Rightarrow> ('f, 'r list) dict \<Rightarrow> Interval \<Rightarrow> bool
     \<Rightarrow> ('k, 'i, 'r) obj_cache \<times> ('m \<times> 'b) list \<Rightarrow> 'b pyres \<times> ('k, 'i, 'r) obj_cache \<times> ('m \<times> 'b) list" where
  "calculate_feature ray_put ray_get deref run is_ts_sorted fs ctx feature dep_refs interval store s =
     (let (cache, stored) = s; ((df, should_cache), cache1) = get_from_cache ray_get ctx cache in
      case df of
        Some b \<Rightarrow> (Inr b, cache1, stored)
      | None \<Rightarrow>
          (case bindE (get_all_blocks deref (map snd dep_refs)) (\<lambda>objs. run feature (split_deps objs dep_refs) interval) of
             Inl e \<Rightarrow> (Inl e, cache1, stored)
           | Inr b \<Rightarrow>
               if \<not> is_ts_sorted b then (Inl ValueError, cache1, stored)
               else (case (if should_cache then cache_obj ray_put b ctx cache1 else Inr cache1) of
                   Inl e \<Rightarrow> (Inl e, cache1, stored)
                 | Inr cache2 \<Rightarrow>
                     if store then
                       (case store_feature_block fs feature b interval stored of
                          Inl e \<Rightarrow> (Inl e, cache2, stored)
                        | Inr stored' \<Rightarrow> (Inr b, cache2, stored'))
                     else (Inr b, cache2, stored))))"

section \<open>The uses of one block\<close>

definition uses_of :: "('k, 'i, 'r) obj_cache \<Rightarrow> 'k \<times> 'i \<Rightarrow> (int \<times> 'r option) option" where
  "uses_of cache ctx = (case map_of cache (fst ctx) of None \<Rightarrow> None | Some m \<Rightarrow> map_of m (snd ctx))"

lemma uses_of_bind:
  "uses_of (bind_use (fst ctx) (snd ctx) cache) ctx' =
     (if ctx' = ctx then Some (case uses_of cache ctx of None \<Rightarrow> (1, None) | Some (n, r) \<Rightarrow> (n + 1, r))
      else uses_of cache ctx')"
  by (cases ctx; cases ctx') (auto simp: uses_of_def bind_use_def split: option.split)

text \<open>The actor refines a table of counted blocks: one transition per call.\<close>

lemma uses_of_check:
  "check_cache ctx cache = (r, cache') \<Longrightarrow>
   uses_of cache' ctx' = (if ctx' = ctx then map_option (\<lambda>(n, o'). (if n = 1 then 1 else n - 1, o')) (uses_of cache ctx)
                          else uses_of cache ctx') \<and>
   r = (case uses_of cache ctx of None \<Rightarrow> (None, False) | Some (n, o') \<Rightarrow> (o', n > 1 \<and> o' = None))"
  by (cases ctx; cases ctx') (auto simp: check_cache_def uses_of_def split: option.splits if_splits)

lemma uses_of_cache:
  "cache_obj_ref [ref] ctx cache =
     (case uses_of cache ctx of None \<Rightarrow> Inl ValueError
      | Some (n, _) \<Rightarrow> Inr (dict_put (fst ctx) (dict_put (snd ctx) (n, Some ref) (the (map_of cache (fst ctx)))) cache))"
  by (cases ctx) (auto simp: cache_obj_ref_def uses_of_def py_nth_def split: option.split)

lemma uses_of_cache_put:
  "uses_of cache ctx = Some (n, o') \<Longrightarrow>
   uses_of (dict_put (fst ctx) (dict_put (snd ctx) v (the (map_of cache (fst ctx)))) cache) ctx' =
     (if ctx' = ctx then Some v else uses_of cache ctx')"
  by (cases ctx; cases ctx') (auto simp: uses_of_def split: option.splits)

definition cache_inv :: "('k, 'i, 'r) obj_cache \<Rightarrow> bool" where
  "cache_inv cache = (\<forall>ctx n r. uses_of cache ctx = Some (n, r) \<longrightarrow> 1 \<le> n)"

lemma bind_cache_inv: "cache_inv cache \<Longrightarrow> cache_inv (bind_use (fst ctx) (snd ctx) cache)"
  unfolding cache_inv_def by (fastforce simp: uses_of_bind split: if_splits option.splits)

lemma check_cache_inv: "cache_inv cache \<Longrightarrow> check_cache ctx cache = (r, cache') \<Longrightarrow> cache_inv cache'"
  unfolding cache_inv_def using uses_of_check [of ctx cache r cache']
  by (fastforce split: if_splits option.splits)

lemma cache_obj_inv: "cache_inv cache \<Longrightarrow> cache_obj ray_put b ctx cache = Inr cache' \<Longrightarrow> cache_inv cache'"
  unfolding cache_inv_def cache_obj_def
  by (fastforce simp: uses_of_cache uses_of_cache_put split: option.splits if_splits)

text \<open>Binding a block \<open>n\<close> times gives it \<open>n\<close> uses.\<close>

lemma bind_counts:
  "uses_of cache ctx = None \<Longrightarrow>
   uses_of ((bind_use (fst ctx) (snd ctx) ^^ Suc n) cache) ctx = Some (int (Suc n), None)"
  by (induction n) (auto simp: uses_of_bind)

section \<open>Every block is loaded once\<close>

fun run_loads ::
    "('b \<Rightarrow> 'r) \<Rightarrow> ('r \<Rightarrow> 'b option) \<Rightarrow> ('p \<Rightarrow> 'b pyres) \<Rightarrow> ('b \<Rightarrow> bool) \<Rightarrow> ('k \<times> 'i \<Rightarrow> 'p)
     \<Rightarrow> ('k \<times> 'i) list \<Rightarrow> ('k, 'i, 'r) obj_cache \<Rightarrow> ('b pyres \<times> bool) list" where
  "run_loads ray_put ray_get load_df srtd path_of [] cache = []"
| "run_loads ray_put ray_get load_df srtd path_of (ctx # ctxs) cache =
     (let (r, cache') = load_if_needed ray_put ray_get load_df srtd ctx (path_of ctx) cache
      in r # run_loads ray_put ray_get load_df srtd path_of ctxs cache')"

text \<open>What the actor holds of a block bound \<open>n\<close> times after \<open>c\<close> of its tasks.\<close>

definition uses_after :: "'r \<Rightarrow> nat \<Rightarrow> nat \<Rightarrow> (int \<times> 'r option) option" where
  "uses_after ref n c =
     (if n = 0 then None
      else if c = 0 then Some (int n, None)
      else Some (max 1 (int n - int c), if 1 < n then Some ref else None))"

lemma bound_uses:
  "uses_of (fold (\<lambda>c. bind_use (fst c) (snd c)) ctxs cache) ctx =
     (case uses_of cache ctx of
        None \<Rightarrow> uses_after ref (count_list ctxs ctx) 0
      | Some (n, r) \<Rightarrow> Some (n + int (count_list ctxs ctx), r))"
  by (induction ctxs arbitrary: cache)
    (auto simp: uses_of_bind uses_after_def split: option.splits)

lemma load_step:
  assumes "\<And>b. ray_get (ray_put b) = Some b" "load_df path = Inr blk" "is_ts_sorted blk"
    "uses_of cache ctx = uses_after (ray_put blk) n c" "c < n"
  shows "\<exists>cache'. load_if_needed ray_put ray_get load_df is_ts_sorted ctx path cache = ((Inr blk, c = 0), cache') \<and>
    uses_of cache' ctx = uses_after (ray_put blk) n (Suc c) \<and> (\<forall>ctx'. ctx' \<noteq> ctx \<longrightarrow> uses_of cache' ctx' = uses_of cache ctx')"
proof -
  obtain r cache1 where r: "check_cache ctx cache = (r, cache1)" by (cases "check_cache ctx cache")
  note u = uses_of_check [OF r]
  show ?thesis
  proof (cases "c = 0 \<and> 1 < n")
    case False
    then have "\<not> snd r" and fst: "fst r = (if c = 0 then None else Some (ray_put blk))"
      using u assms(4,5) by (auto simp: uses_after_def)
    then have "load_if_needed ray_put ray_get load_df is_ts_sorted ctx path cache = ((Inr blk, c = 0), cache1)"
      using assms(1-3) r by (cases r) (auto simp: load_if_needed_def get_from_cache_def)
    moreover have "uses_of cache1 ctx = uses_after (ray_put blk) n (Suc c)"
      using False u assms(4,5) by (auto simp: uses_after_def)
    ultimately show ?thesis using u by auto
  next
    case True
    then have "r = (None, True)" and u1: "uses_of cache1 ctx = Some (int n - 1, None)"
      using u assms(4) by (auto simp: uses_after_def)
    let ?cache2 = "dict_put (fst ctx) (dict_put (snd ctx) (int n - 1, Some (ray_put blk)) (the (map_of cache1 (fst ctx)))) cache1"
    have "load_if_needed ray_put ray_get load_df is_ts_sorted ctx path cache = ((Inr blk, True), ?cache2)"
      using assms r \<open>r = _\<close> u1
      by (simp add: load_if_needed_def get_from_cache_def cache_obj_def uses_of_cache)
    moreover have "uses_of ?cache2 ctx = uses_after (ray_put blk) n (Suc c)"
      using True uses_of_cache_put [OF u1] by (simp add: uses_after_def)
    moreover have "\<forall>ctx'. ctx' \<noteq> ctx \<longrightarrow> uses_of ?cache2 ctx' = uses_of cache ctx'"
      using uses_of_cache_put [OF u1] u by simp
    ultimately show ?thesis using True by (intro exI [of _ ?cache2]) simp
  qed
qed

lemma run_loads_from:
  assumes "\<And>b. ray_get (ray_put b) = Some b" "\<And>ctx. ctx \<in> set ts \<Longrightarrow> load_df (path_of ctx) = Inr (blk ctx) \<and> srtd (blk ctx)"
    "\<And>ctx. uses_of cache ctx = uses_after (ray_put (blk ctx)) (bound ctx) (count_list earlier ctx)"
    "\<And>ctx. count_list earlier ctx + count_list ts ctx \<le> bound ctx"
  shows "run_loads ray_put ray_get load_df srtd path_of ts cache =
    map (\<lambda>i. (Inr (blk (ts ! i)), ts ! i \<notin> set (earlier @ take i ts))) [0..<length ts]"
  using assms
proof (induction ts arbitrary: cache earlier)
  case Nil
  then show ?case by simp
next
  case (Cons ctx ts)
  have "count_list earlier ctx < bound ctx" using Cons.prems(4) [of ctx] by simp
  moreover have "load_df (path_of ctx) = Inr (blk ctx)" "srtd (blk ctx)"
    using Cons.prems(2) [of ctx] by simp_all
  ultimately have "\<exists>cache'. load_if_needed ray_put ray_get load_df srtd ctx (path_of ctx) cache =
      ((Inr (blk ctx), count_list earlier ctx = 0), cache') \<and>
    uses_of cache' ctx = uses_after (ray_put (blk ctx)) (bound ctx) (Suc (count_list earlier ctx)) \<and>
    (\<forall>ctx'. ctx' \<noteq> ctx \<longrightarrow> uses_of cache' ctx' = uses_of cache ctx')"
    by (intro load_step Cons.prems(1,3))
  then obtain cache' where c': "load_if_needed ray_put ray_get load_df srtd ctx (path_of ctx) cache =
      ((Inr (blk ctx), count_list earlier ctx = 0), cache')"
    "uses_of cache' ctx = uses_after (ray_put (blk ctx)) (bound ctx) (Suc (count_list earlier ctx))"
    "\<forall>ctx'. ctx' \<noteq> ctx \<longrightarrow> uses_of cache' ctx' = uses_of cache ctx'" by blast
  have "run_loads ray_put ray_get load_df srtd path_of ts cache' =
      map (\<lambda>i. (Inr (blk (ts ! i)), ts ! i \<notin> set ((earlier @ [ctx]) @ take i ts))) [0..<length ts]"
  proof (rule Cons.IH)
    show "uses_of cache' ctx' = uses_after (ray_put (blk ctx')) (bound ctx') (count_list (earlier @ [ctx]) ctx')" for ctx'
      using c'(2) c'(3) [rule_format, of ctx'] Cons.prems(3) [of ctx'] by (cases "ctx' = ctx") auto
    show "count_list (earlier @ [ctx]) ctx' + count_list ts ctx' \<le> bound ctx'" for ctx'
      using Cons.prems(4) [of ctx'] by (auto split: if_splits)
  qed (use Cons.prems in auto)
  moreover have "[0..<length (ctx # ts)] = 0 # map Suc [0..<length ts]" by (simp add: upt_conv_Cons map_Suc_upt del: upt_Suc)
  ultimately show ?case using c'(1) by (auto simp: count_list_0_iff simp del: upt_Suc)
qed



section \<open>A feature with several dependencies\<close>

text \<open>The task passes \<open>ray.get\<close> one list per dependency: with any number of dependencies but one
  the call raises, after the use of the block has been taken back.\<close>

lemma calculate_feature_one_dependency_only:
  assumes "length dep_refs \<noteq> 1" "get_from_cache ray_get ctx cache = ((None, b), cache1)"
  shows "calculate_feature ray_put ray_get deref run srtd fs ctx feature dep_refs interval store (cache, stored) =
    (Inl TypeError, cache1, stored)"
  using assms
  by (cases dep_refs rule: list.exhaust; cases "tl dep_refs")
    (auto simp: calculate_feature_def get_all_blocks_def)

text \<open>A computed block is stored under its hash at most once.\<close>

lemma store_feature_block_hashes:
  assumes "distinct (map (hash_of fs \<circ> fst) stored)" "store_feature_block fs f df i stored = Inr stored'"
  shows "distinct (map (hash_of fs \<circ> fst) stored')" "\<exists>m. make_metadata fs f df i = Inr m \<and> hash_of fs m \<in> hash_of fs ` fst ` set stored'"
  using assms by (auto simp: store_feature_block_def image_image split: if_splits)

end
