(* ===== verification/TaskGraph.thy ===== *)
theory TaskGraph
  imports FeatureTree Blocks BlockCache
begin

text \<open>
  featurizer/task_graph/builder.py: the graph of tasks of a set of features over ranges of
  blocks, the look-ahead shift of a label and the join. A task is the value of its function and
  arguments; dictionaries keyed by features are keyed by their keys. Interval dictionaries and
  the grouping of a definition are fields of the environment.
\<close>

section \<open>Tasks and graphs\<close>

datatype 's task =
    LoadAndPreprocess 's Interval string
  | GenSynthEvents 's Interval
  | LoadIfNeeded 's Interval string
  | CalculateFeature 's Interval "('s \<times> 's task list) list" bool
  | LookaheadShift "'s task list" Interval string
  | JoinBlock Interval "('s \<times> 's task) list" "('s \<times> 's task) list" "'s option"

type_synonym 's nodes = "(Interval, 's task) dict"
type_synonym 's feature_graph = "(Interval, 's nodes) dict"
type_synonym 's dag = "('s, 's feature_graph) dict"
type_synonym path_meta = "string option BlockMeta"
type_synonym ('s, 'r) ref_cache = "('s, Interval, 'r) obj_cache"

record ('d, 'p, 's, 'dr, 'key, 'rd, 'dg, 'gd) graph_env =
  defs :: "('d, 'p, 's) defs_env"
  is_synthetic :: "'d \<Rightarrow> bool"
  range_ops :: "('dr, 'key, path_meta list) idict_ops"
  range_join :: "('rd, 'dr, 's, path_meta list) overlap_ops"
  group_ranges :: "'d \<Rightarrow> path_meta list \<Rightarrow> ('d, 'p, 's) Feature \<Rightarrow> ('d, 'p, 's) Feature \<Rightarrow> 'dg pyres"
  group_join :: "('gd, 'dg, 's, path_meta list) overlap_ops"
  ivl_overlaps :: "Interval \<Rightarrow> Interval \<Rightarrow> bool"

definition block_path :: "path_meta \<Rightarrow> string pyres" where
  "block_path m = (case block_info m of None \<Rightarrow> Inl KeyError | Some p \<Rightarrow> Inr p)"

text \<open>The metadata of a computed block has its interval only.\<close>

definition computed_meta :: "Interval \<Rightarrow> path_meta" where
  "computed_meta i = \<lparr>start_ts = lower i, end_ts = upper i, block_info = None\<rparr>"

section \<open>The graph of one feature\<close>

definition data_block_node ::
    "('d, 'p, 's, 'dr, 'key, 'rd, 'dg, 'gd) graph_env \<Rightarrow> 's \<Rightarrow> 'd \<Rightarrow> path_meta
     \<Rightarrow> 's nodes \<times> ('s, 'r) ref_cache \<Rightarrow> ('s nodes \<times> ('s, 'r) ref_cache) pyres" where
  "data_block_node env key d block_meta s = (let (nodes, cache) = s in
     bindE (meta_to_interval block_meta) (\<lambda>interval.
     bindE (if is_synthetic env d then Inr (GenSynthEvents key interval)
            else bindE (block_path block_meta) (\<lambda>path. Inr (LoadAndPreprocess key interval path))) (\<lambda>task.
     let (node, cache') = bind_and_cache (\<lambda>ctx. task) cache (key, interval)
     in Inr (dict_put interval node nodes, cache'))))"

definition put_range :: "'s \<Rightarrow> Interval \<Rightarrow> 's nodes \<Rightarrow> 's dag \<Rightarrow> 's dag" where
  "put_range key range_interval nodes dag =
     dict_put key (dict_put range_interval nodes (case map_of dag key of None \<Rightarrow> [] | Some g \<Rightarrow> g)) dag"

definition build_data_source ::
    "('d, 'p, 's, 'dr, 'key, 'rd, 'dg, 'gd) graph_env \<Rightarrow> 's \<Rightarrow> 'd \<Rightarrow> path_meta list list
     \<Rightarrow> 's dag \<times> ('s, 'r) ref_cache \<Rightarrow> ('s dag \<times> ('s, 'r) ref_cache) pyres" where
  "build_data_source env key d ranges =
     foldE (\<lambda>block_range_meta (dag, cache).
       bindE (range_meta_to_interval block_range_meta) (\<lambda>range_interval.
       bindE (foldE (data_block_node env key d) block_range_meta ([], cache)) (\<lambda>(nodes, cache').
         Inr (put_range key range_interval nodes dag, cache')))) ranges"

fun find_almost_equal :: "Interval list \<Rightarrow> Interval \<Rightarrow> Interval option \<Rightarrow> Interval option pyres" where
  "find_almost_equal [] interval found = Inr found"
| "find_almost_equal (i # ivls) interval found =
     (if intervals_almost_equal i interval (15 / 100) then
        (if found \<noteq> None then Inl ValueError else find_almost_equal ivls interval (Some i))
      else find_almost_equal ivls interval found)"

definition feature_block_task ::
    "('s, (Interval, string) dict) dict option \<Rightarrow> 's list option \<Rightarrow> 's \<Rightarrow> Interval \<Rightarrow> ('s \<times> 's task list) list \<Rightarrow> 's task pyres" where
  "feature_block_task stored_blocks features_to_store key interval dep_nodes =
     (let calc = CalculateFeature key interval dep_nodes
            (case features_to_store of None \<Rightarrow> False | Some fs \<Rightarrow> key \<in> set fs) in
      case (case stored_blocks of None \<Rightarrow> None | Some st \<Rightarrow> map_of st key) of
        None \<Rightarrow> Inr calc
      | Some blocks \<Rightarrow>
          bindE (find_almost_equal (dict_keys blocks) interval None) (\<lambda>found.
            case found of
              None \<Rightarrow> Inr calc
            | Some i \<Rightarrow> bindE (dict_lookup blocks i) (\<lambda>path. Inr (LoadIfNeeded key interval path))))"

text \<open>The tasks of one overlap of a range: the dependencies' nodes are looked up in the graph
  under the same range interval.\<close>

definition dep_tasks ::
    "'s dag \<Rightarrow> Interval \<Rightarrow> ('s, path_meta list) dict \<Rightarrow> ('s \<times> 's task list) list pyres" where
  "dep_tasks dag range_interval overlap =
     mapE (\<lambda>(dep, blocks).
       bindE (mapE (\<lambda>m.
           bindE (meta_to_interval m) (\<lambda>dep_interval.
           bindE (dict_lookup dag dep) (\<lambda>g.
           bindE (dict_lookup g range_interval) (\<lambda>nodes. dict_lookup nodes dep_interval)))) blocks)
         (\<lambda>ds. Inr (dep, ds))) overlap"

definition as_elements :: "(Interval, ('s, path_meta list) dict) dict \<Rightarrow> (Interval, ('s, (string option, unit) element list) dict) dict" where
  "as_elements = map (\<lambda>(i, d). (i, map (\<lambda>(k, ms). (k, map Meta ms)) d))"

definition element_meta :: "('x, 'n) element \<Rightarrow> 'x BlockMeta option" where
  "element_meta e = (case e of Meta m \<Rightarrow> Some m | Tagged i n \<Rightarrow> None)"

definition as_metas :: "(Interval, ('s, (string option, unit) element list) dict) dict \<Rightarrow> (Interval, ('s, path_meta list) dict) dict" where
  "as_metas = map (\<lambda>(i, d). (i, map (\<lambda>(k, es). (k, List.map_filter element_meta es)) d))"

definition build_range ::
    "('d, 'p, 's::linorder, 'dr, 'key, 'rd, 'dg, 'gd) graph_env \<Rightarrow> ('s, (Interval, string) dict) dict option \<Rightarrow> 's list option
     \<Rightarrow> ('d, 'p, 's) Feature \<Rightarrow> Interval \<times> ('s, path_meta list) dict
     \<Rightarrow> 's dag \<times> ('s, 'r) ref_cache \<times> path_meta list list
     \<Rightarrow> ('s dag \<times> ('s, 'r) ref_cache \<times> path_meta list list) pyres" where
  "build_range env stored_blocks features_to_store feature range_metas s =
     (let (range_interval, per_dep) = range_metas; (dag, cache, metas) = s; key = calculate_key (defs env) feature in
      bindE (mapE (\<lambda>dep.
          bindE (dict_lookup per_dep (calculate_key (defs env) dep)) (\<lambda>dep_ranges.
          bindE (group_ranges env (data_definition feature) dep_ranges feature dep) (\<lambda>g.
            Inr (calculate_key (defs env) dep, g)))) (children feature)) (\<lambda>grouped.
      bindE (get_overlaps (group_join env) (fold (\<lambda>(k, g) d. dict_put k g d) grouped [])) (\<lambda>overlaps.
      bindE (foldE (\<lambda>(interval, overlap) (nodes, cache, block_range_meta).
          bindE (dep_tasks dag range_interval overlap) (\<lambda>dep_nodes.
          bindE (feature_block_task stored_blocks features_to_store key interval dep_nodes) (\<lambda>task.
          let (node, cache') = bind_and_cache (\<lambda>ctx. task) cache (key, interval)
          in Inr (dict_put interval node nodes, cache', block_range_meta @ [computed_meta interval]))))
        overlaps ([], cache, [])) (\<lambda>(nodes, cache', block_range_meta).
      if overlaps = [] \<and> \<not> dict_has dag key then Inl KeyError
      else Inr (put_range key range_interval nodes dag, cache', metas @ [block_range_meta])))))"

definition build_node ::
    "('d, 'p, 's::linorder, 'dr, 'key, 'rd, 'dg, 'gd) graph_env \<Rightarrow> ('s, path_meta list list) dict
     \<Rightarrow> ('s, (Interval, string) dict) dict option \<Rightarrow> 's list option \<Rightarrow> ('d, 'p, 's) Feature
     \<Rightarrow> 's dag \<times> ('s, 'r) ref_cache \<times> ('s, path_meta list list) dict
     \<Rightarrow> ('s dag \<times> ('s, 'r) ref_cache \<times> ('s, path_meta list list) dict) pyres" where
  "build_node env data_ranges_meta stored_blocks features_to_store feature s =
     (let (dag, cache, features_ranges_meta) = s; key = calculate_key (defs env) feature in
      if is_data_source (defs env) (data_definition feature) then
        bindE (dict_lookup data_ranges_meta key) (\<lambda>ranges.
        bindE (build_data_source env key (data_definition feature) ranges (dag, cache)) (\<lambda>(dag', cache').
          Inr (dag', cache', features_ranges_meta)))
      else
        bindE (mapE (\<lambda>dep.
            let k = calculate_key (defs env) dep in
            bindE (if is_data_source (defs env) (data_definition dep) then dict_lookup data_ranges_meta k
                   else dict_lookup features_ranges_meta k) (\<lambda>meta.
            bindE (ranges_to_interval_dict (range_ops env) meta) (\<lambda>d. Inr (k, d)))) (children feature)) (\<lambda>per_dep.
        bindE (get_overlaps (range_join env) (fold (\<lambda>(k, d) m. dict_put k d m) per_dep [])) (\<lambda>overlaps.
        bindE (prune_overlaps (ivl_overlaps env) (as_elements overlaps)) (\<lambda>pruned.
        bindE (foldE (build_range env stored_blocks features_to_store feature) (as_metas pruned) (dag, cache, []))
          (\<lambda>(dag', cache', metas).
            Inr (dag', cache',
              if metas = [] then features_ranges_meta
              else dict_put key ((case map_of features_ranges_meta key of None \<Rightarrow> [] | Some ms \<Rightarrow> ms) @ metas)
                     features_ranges_meta))))))"

definition build_feature_task_graph ::
    "('d, 'p, 's::linorder, 'dr, 'key, 'rd, 'dg, 'gd) graph_env \<Rightarrow> ('s, path_meta list list) dict
     \<Rightarrow> ('s, (Interval, string) dict) dict option \<Rightarrow> 's list option \<Rightarrow> ('d, 'p, 's) Feature
     \<Rightarrow> 's dag \<times> ('s, 'r) ref_cache \<Rightarrow> ('s dag \<times> ('s, 'r) ref_cache) pyres" where
  "build_feature_task_graph env data_ranges_meta stored_blocks features_to_store feature s =
     bindE (foldE (build_node env data_ranges_meta stored_blocks features_to_store) (postorder feature) (fst s, snd s, []))
       (\<lambda>(dag, cache, _). Inr (dag, cache))"

definition build_feature_set_task_graph ::
    "('d, 'p, 's::linorder, 'dr, 'key, 'rd, 'dg, 'gd) graph_env \<Rightarrow> ('s, path_meta list list) dict
     \<Rightarrow> ('s, (Interval, string) dict) dict option \<Rightarrow> 's list option \<Rightarrow> ('d, 'p, 's) Feature list
     \<Rightarrow> ('s, 'r) ref_cache \<Rightarrow> ('s dag \<times> ('s, 'r) ref_cache) pyres" where
  "build_feature_set_task_graph env data_ranges_meta stored_blocks features_to_store features cache =
     foldE (build_feature_task_graph env data_ranges_meta stored_blocks features_to_store) features ([], cache)"

text \<open>The builder calls \<open>group_dep_ranges\<close> with three arguments, every definition of the
  repository takes two: the environment of those definitions has \<open>TypeError\<close> there, and no range
  of a computed feature with a dependency is built.\<close>

lemma three_argument_grouping_raises:
  assumes "\<And>d ms f g. group_ranges env d ms f g = Inl TypeError" "children feature = dep # deps"
    "map_of per_dep (calculate_key (defs env) dep) = Some ms"
  shows "build_range env stored_blocks features_to_store feature (range_interval, per_dep) (dag, cache, metas) = Inl TypeError"
  using assms by (simp add: build_range_def Let_def dict_lookup_def)

text \<open>A block that two stored blocks almost match is an error.\<close>

lemma find_almost_equal_found:
  "find_almost_equal ivls interval (Some i) =
   (if filter (\<lambda>i. intervals_almost_equal i interval (15 / 100)) ivls = [] then Inr (Some i) else Inl ValueError)"
  by (induction ivls) auto

lemma find_almost_equal_unique:
  "find_almost_equal ivls interval None =
   (case filter (\<lambda>i. intervals_almost_equal i interval (15 / 100)) ivls of
      [] \<Rightarrow> Inr None | [i] \<Rightarrow> Inr (Some i) | _ \<Rightarrow> Inl ValueError)"
  by (induction ivls) (auto simp: find_almost_equal_found split: list.split)

section \<open>The look-ahead of a label\<close>

text \<open>The following nodes a shifted block needs: those whose block has begun by its end.\<close>

fun following :: "(Interval \<times> 's task) list \<Rightarrow> rat \<Rightarrow> 's task list" where
  "following [] end_t = []"
| "following ((j, node) # rest) end_t =
     (if upper j \<le> end_t \<or> (lower j \<le> end_t \<and> end_t \<le> upper j) then node # following rest end_t else [])"

fun shift_nodes :: "rat \<Rightarrow> string \<Rightarrow> rat \<Rightarrow> (Interval \<times> 's task) list \<Rightarrow> 's nodes \<Rightarrow> 's nodes" where
  "shift_nodes lookahead_s lookahead last_upper [] shifted = shifted"
| "shift_nodes lookahead_s lookahead last_upper ((interval, node) # rest) shifted =
     (let group = node # following rest (min (upper interval + lookahead_s) last_upper) in
      if rest \<noteq> [] then
        shift_nodes lookahead_s lookahead last_upper rest (dict_put interval (LookaheadShift group interval lookahead) shifted)
      else if upper interval - lookahead_s > lower interval then
        let interval' = closed_ivl (lower interval) (upper interval - lookahead_s)
        in dict_put interval' (LookaheadShift group interval' lookahead) shifted
      else shifted)"

definition build_lookahead_graph :: "'s feature_graph \<Rightarrow> string \<Rightarrow> 's feature_graph pyres" where
  "build_lookahead_graph feature_graph lookahead =
     bindE (convert_str_to_seconds lookahead) (\<lambda>lookahead_s.
     foldE (\<lambda>(range_interval, nodes) res.
       if \<not> is_sorted_intervals (dict_keys nodes) then Inl ValueError
       else Inr (dict_put range_interval
              (shift_nodes lookahead_s lookahead (case nodes of [] \<Rightarrow> 0 | _ \<Rightarrow> upper (fst (last nodes))) nodes []) res))
       feature_graph [])"

definition sorted_blocks :: "(Interval \<times> 'a) list \<Rightarrow> bool" where
  "sorted_blocks nodes \<longleftrightarrow> is_sorted_intervals (map fst nodes) \<and> (\<forall>(i, n)\<in>set nodes. lower i < upper i)"

lemma sorted_blocks_Nil [simp]: "sorted_blocks []"
  by (simp add: sorted_blocks_def is_sorted_intervals_iff)

lemma sorted_blocks_Cons:
  "sorted_blocks (p # nodes) \<longleftrightarrow> lower (fst p) < upper (fst p) \<and> sorted_blocks nodes \<and>
     (nodes \<noteq> [] \<longrightarrow> upper (fst p) \<le> lower (fst (hd nodes)))"
proof (cases nodes)
  case Nil
  then show ?thesis by (cases p) (auto simp: sorted_blocks_def is_sorted_intervals_iff)
next
  case (Cons q rest)
  have "(\<forall>j. Suc j < length (map fst (p # nodes)) \<longrightarrow> upper (map fst (p # nodes) ! j) \<le> lower (map fst (p # nodes) ! Suc j)) \<longleftrightarrow>
      upper (fst p) \<le> lower (fst q) \<and>
      (\<forall>j. Suc j < length (map fst nodes) \<longrightarrow> upper (map fst nodes ! j) \<le> lower (map fst nodes ! Suc j))"
    using Cons by (auto simp: less_Suc_eq_0_disj all_conj_distrib nth_Cons split: nat.splits)
  with Cons show ?thesis by (auto simp: sorted_blocks_def is_sorted_intervals_iff)
qed

lemma following_begun:
  assumes "sorted_blocks rest"
  shows "following rest end_t = map snd (filter (\<lambda>(j, n). lower j \<le> end_t) rest)"
  using assms
proof (induction rest end_t rule: following.induct)
  case (2 j node rest end_t)
  have later: "lower j \<le> lower (fst q)" if "sorted_blocks ((j, node) # rest)" "q \<in> set rest" for q
    using that
  proof (induction rest arbitrary: j node)
    case (Cons p rest)
    then show ?case
      by (cases p) (fastforce simp: sorted_blocks_Cons)
  qed simp
  have "filter (\<lambda>(j, n). lower j \<le> end_t) rest = []" if "\<not> lower j \<le> end_t"
    using later [OF "2.prems"] that by (force simp: filter_empty_conv)
  with 2 show ?case by (auto simp: sorted_blocks_Cons)
qed simp

lemma sorted_blocks_after:
  assumes "sorted_blocks (p # nodes)" "q \<in> set nodes"
  shows "lower (fst p) < lower (fst q)"
  using assms
proof (induction nodes arbitrary: p)
  case (Cons r nodes)
  then have "lower (fst p) < lower (fst r)" "q = r \<or> lower (fst r) < lower (fst q)"
    using Cons.IH [of r] by (auto simp: sorted_blocks_Cons)
  then show ?case by auto
qed simp

text \<open>The shifted blocks as a list: every block but the last keeps its interval, the last one
  loses the look-ahead or is left out.\<close>

definition begun_group :: "rat \<Rightarrow> rat \<Rightarrow> Interval \<times> 's task \<Rightarrow> (Interval \<times> 's task) list \<Rightarrow> 's task list" where
  "begun_group s last_upper p rest =
     snd p # map snd (filter (\<lambda>(j, n). lower j \<le> min (upper (fst p) + s) last_upper) rest)"

fun shifted_blocks :: "rat \<Rightarrow> string \<Rightarrow> rat \<Rightarrow> (Interval \<times> 's task) list \<Rightarrow> 's nodes" where
  "shifted_blocks s la last_upper [] = []"
| "shifted_blocks s la last_upper (p # rest) =
     (let g = begun_group s last_upper p rest; cut = closed_ivl (lower (fst p)) (upper (fst p) - s) in
      if rest \<noteq> [] then (fst p, LookaheadShift g (fst p) la) # shifted_blocks s la last_upper rest
      else if upper (fst p) - s > lower (fst p) then [(cut, LookaheadShift g cut la)] else [])"

lemma shift_nodes_blocks:
  assumes "sorted_blocks nodes" "\<And>p q. p \<in> set shifted \<Longrightarrow> q \<in> set nodes \<Longrightarrow> lower (fst p) < lower (fst q)"
  shows "shift_nodes s la last_upper nodes shifted = shifted @ shifted_blocks s la last_upper nodes"
  using assms
proof (induction nodes arbitrary: shifted)
  case (Cons p rest)
  obtain i n where p: "p = (i, n)" by (cases p)
  have fresh: "j \<notin> fst ` set shifted" if "lower j = lower i" for j
    using Cons.prems(2) [of _ p] that p by force
  have sorted: "sorted_blocks rest" and group: "n # following rest (min (upper i + s) last_upper) = begun_group s last_upper p rest"
    using Cons.prems(1) p by (auto simp: sorted_blocks_Cons begun_group_def following_begun)
  show ?case
  proof (cases "rest = []")
    case True
    with p group fresh show ?thesis by (auto simp: Let_def dict_put_fresh)
  next
    case False
    have "shift_nodes s la last_upper rest (shifted @ [(i, t)]) = (shifted @ [(i, t)]) @ shifted_blocks s la last_upper rest" for t
    proof (rule Cons.IH [OF sorted])
      fix a b
      assume "a \<in> set (shifted @ [(i, t)])" "b \<in> set rest"
      then show "lower (fst a) < lower (fst b)"
        using Cons.prems(2) [of a b] sorted_blocks_after [OF Cons.prems(1), of b] p by auto
    qed
    with False p group fresh show ?thesis by (simp add: Let_def dict_put_fresh)
  qed
qed simp

lemma shifted_blocks_keys:
  "map fst (shifted_blocks s la last_upper nodes) =
     map fst (butlast nodes) @ (if nodes \<noteq> [] \<and> lower (fst (last nodes)) < upper (fst (last nodes)) - s
       then [closed_ivl (lower (fst (last nodes))) (upper (fst (last nodes)) - s)] else [])"
  by (induction nodes) (auto simp: Let_def)

lemma shifted_blocks_lowers:
  "q \<in> set (shifted_blocks s la last_upper nodes) \<Longrightarrow> \<exists>p\<in>set nodes. lower (fst p) = lower (fst q)"
  by (induction nodes) (auto simp: Let_def split: if_splits)

lemma shifted_blocks_distinct:
  "sorted_blocks nodes \<Longrightarrow> distinct (map fst (shifted_blocks s la last_upper nodes))"
proof (induction nodes)
  case (Cons p nodes)
  have "fst p \<noteq> fst q" if "q \<in> set (shifted_blocks s la last_upper nodes)" for q
    using shifted_blocks_lowers [OF that] sorted_blocks_after [OF Cons.prems] by force
  with Cons show ?case by (auto simp: Let_def sorted_blocks_Cons)
qed simp

lemma shifted_blocks_nth:
  "Suc k < length nodes \<Longrightarrow> k < length (shifted_blocks s la last_upper nodes) \<and>
     shifted_blocks s la last_upper nodes ! k =
       (fst (nodes ! k), LookaheadShift (begun_group s last_upper (nodes ! k) (drop (Suc k) nodes)) (fst (nodes ! k)) la)"
proof (induction nodes arbitrary: k)
  case (Cons p nodes)
  then show ?case by (cases k) (auto simp: Let_def)
qed simp

definition last_upper_of :: "'s nodes \<Rightarrow> rat" where
  "last_upper_of nodes = (case nodes of [] \<Rightarrow> 0 | _ \<Rightarrow> upper (fst (last nodes)))"

lemma lookahead_fold:
  assumes "\<And>r nodes. (r, nodes) \<in> set graph \<Longrightarrow> sorted_blocks nodes" "distinct (map fst graph)"
    "fst ` set res \<inter> fst ` set graph = {}"
  shows "foldE (\<lambda>(range_interval, nodes) res.
       if \<not> is_sorted_intervals (dict_keys nodes) then Inl ValueError
       else Inr (dict_put range_interval
              (shift_nodes s la (case nodes of [] \<Rightarrow> 0 | _ \<Rightarrow> upper (fst (last nodes))) nodes []) res)) graph res =
     Inr (res @ map (\<lambda>(r, nodes). (r, shifted_blocks s la (last_upper_of nodes) nodes)) graph)"
  using assms
proof (induction graph arbitrary: res)
  case (Cons g graph)
  obtain r nodes where g: "g = (r, nodes)" by (cases g)
  have blocks: "sorted_blocks nodes" and fresh: "r \<notin> fst ` set res" using Cons.prems g by auto
  have "shift_nodes s la u nodes [] = shifted_blocks s la u nodes" for u
    using shift_nodes_blocks [OF blocks, of "[]"] by simp
  moreover have "foldE (\<lambda>(range_interval, nodes) res.
       if \<not> is_sorted_intervals (dict_keys nodes) then Inl ValueError
       else Inr (dict_put range_interval
              (shift_nodes s la (case nodes of [] \<Rightarrow> 0 | _ \<Rightarrow> upper (fst (last nodes))) nodes []) res)) graph (res @ [(r, t)]) =
     Inr ((res @ [(r, t)]) @ map (\<lambda>(r, nodes). (r, shifted_blocks s la (last_upper_of nodes) nodes)) graph)" for t
  proof (rule Cons.IH)
    show "sorted_blocks nodes'" if "(r', nodes') \<in> set graph" for r' nodes' using Cons.prems(1) that by (meson list.set_intros(2))
    show "distinct (map fst graph)" "fst ` set (res @ [(r, t)]) \<inter> fst ` set graph = {}" using Cons.prems(2,3) g by auto
  qed
  ultimately show ?case
    using blocks fresh g by (simp add: sorted_blocks_def dict_put_fresh last_upper_of_def)
qed simp

text \<open>The contract of a shifted range, over the positions of the blocks.\<close>

definition looks_ahead :: "rat \<Rightarrow> string \<Rightarrow> 's nodes \<Rightarrow> 's nodes \<Rightarrow> bool" where
  "looks_ahead s la nodes shifted \<longleftrightarrow>
     map fst shifted = map fst (butlast nodes) @
       (if lower (fst (last nodes)) < upper (fst (last nodes)) - s
        then [closed_ivl (lower (fst (last nodes))) (upper (fst (last nodes)) - s)] else []) \<and>
     (\<forall>k. Suc k < length nodes \<longrightarrow>
        map_of shifted (fst (nodes ! k)) = Some (LookaheadShift
          (snd (nodes ! k) # map snd (filter (\<lambda>(j, n). lower j \<le> min (upper (fst (nodes ! k)) + s) (upper (fst (last nodes))))
             (drop (Suc k) nodes))) (fst (nodes ! k)) la))"

lemma shifted_blocks_look_ahead:
  assumes "sorted_blocks nodes" "nodes \<noteq> []"
  shows "looks_ahead s la nodes (shifted_blocks s la (last_upper_of nodes) nodes)"
proof -
  have "last_upper_of nodes = upper (fst (last nodes))" using assms(2) by (simp add: last_upper_of_def split: list.split)
  moreover have "map_of (shifted_blocks s la u nodes) (fst (nodes ! k)) =
      Some (LookaheadShift (begun_group s u (nodes ! k) (drop (Suc k) nodes)) (fst (nodes ! k)) la)"
    if "Suc k < length nodes" for u k
    using shifted_blocks_nth [OF that] shifted_blocks_distinct [OF assms(1)] by (metis map_of_is_SomeI nth_mem)
  ultimately show ?thesis
    using assms(2) shifted_blocks_keys [of s la "upper (fst (last nodes))" nodes]
    by (simp add: looks_ahead_def begun_group_def)
qed

text \<open>C11. Look-ahead of a label. Over ranges of sorted blocks the shifted graph has the same
  ranges. In each of them the task of every block but the last gets the block and exactly the
  following blocks that begin before the block's end plus the look-ahead (and before the end of
  the range), in order; the last block is cut by the look-ahead, and left out when it is not longer
  than it.\<close>

theorem lookahead_groups_begun_blocks:
  assumes "convert_str_to_seconds la = Inr s" "distinct (map fst graph)"
    "\<And>r nodes. (r, nodes) \<in> set graph \<Longrightarrow> sorted_blocks nodes \<and> nodes \<noteq> []"
  shows "\<exists>res. build_lookahead_graph graph la = Inr res \<and>
     list_all2 (\<lambda>(r, nodes) (r', shifted). r' = r \<and> looks_ahead s la nodes shifted) graph res"
proof (intro exI conjI)
  let ?res = "map (\<lambda>(r, nodes). (r, shifted_blocks s la (last_upper_of nodes) nodes)) graph"
  show "build_lookahead_graph graph la = Inr ?res"
    using lookahead_fold [of graph "[]"] assms by (simp add: build_lookahead_graph_def)
  show "list_all2 (\<lambda>(r, nodes) (r', shifted). r' = r \<and> looks_ahead s la nodes shifted) graph ?res"
    using assms(3) by (auto simp: list.rel_map(2) intro!: list.rel_refl_strong shifted_blocks_look_ahead)
qed

theorem lookahead_groups_begun_blocks_witness:
  "\<exists>res. build_lookahead_graph
      [(closed_ivl 0 9, [(closed_ivl 0 2, GenSynthEvents (0::nat) (closed_ivl 0 2)),
         (closed_ivl 3 5, GenSynthEvents 0 (closed_ivl 3 5)), (closed_ivl 6 9, GenSynthEvents 0 (closed_ivl 6 9))])]
      ''2s'' = Inr res \<and>
    list_all2 (\<lambda>(r, nodes) (r', shifted). r' = r \<and> looks_ahead 2 ''2s'' nodes shifted)
      [(closed_ivl 0 9, [(closed_ivl 0 2, GenSynthEvents (0::nat) (closed_ivl 0 2)),
         (closed_ivl 3 5, GenSynthEvents 0 (closed_ivl 3 5)), (closed_ivl 6 9, GenSynthEvents 0 (closed_ivl 6 9))])] res"
proof (rule lookahead_groups_begun_blocks)
  show "convert_str_to_seconds ''2s'' = Inr 2" by code_simp
qed (auto simp: sorted_blocks_Cons)

section \<open>The point-in-time join\<close>

record ('s, 'rr, 'kr, 'rj, 'nn, 'kn, 'nj) join_env =
  block_lists :: "('rr, 'kr, (Interval \<times> 's task) list) idict_ops"
  block_list_join :: "('rj, 'rr, 's, (Interval \<times> 's task) list) overlap_ops"
  block_tasks :: "('nn, 'kn, 's task) idict_ops"
  block_task_join :: "('nj, 'nn, 's, 's task) overlap_ops"
  range_overlaps :: "Interval \<Rightarrow> Interval \<Rightarrow> bool"

text \<open>\<open>ranges_per_feature\<close>: the (interval, node) pairs of every range of a feature.\<close>

definition feature_ranges :: "('s, 'rr, 'kr, 'rj, 'nn, 'kn, 'nj) join_env \<Rightarrow> 's dag \<Rightarrow> 's \<Rightarrow> 'rr pyres" where
  "feature_ranges env dag feature =
     (case map_of dag feature of
        None \<Rightarrow> Inl ValueError
      | Some graph \<Rightarrow>
          foldE (\<lambda>(range_interval, nodes) ranges_dict.
            if overlaps_keys (block_lists env) range_interval ranges_dict then Inl ValueError
            else Inr (idict_set (block_lists env) range_interval nodes ranges_dict))
            graph (idict_empty (block_lists env)))"

definition tagged :: "(Interval, ('s, (Interval \<times> 's task) list) dict) dict \<Rightarrow> (Interval, ('s, (unit, 's task) element list) dict) dict" where
  "tagged = map (\<lambda>(r, d). (r, map (\<lambda>(f, ns). (f, map (\<lambda>(i, n). Tagged i n) ns)) d))"

text \<open>\<open>get_prev_nodes\<close>: the node before the current one among the feature's nodes, if any.\<close>

fun prev_node :: "'t option \<Rightarrow> 't list \<Rightarrow> 't \<Rightarrow> 't option \<Rightarrow> 't option" where
  "prev_node before [] cur_node found = found"
| "prev_node before (n # nodes) cur_node found =
     prev_node (Some n) nodes cur_node (if n = cur_node \<and> before \<noteq> None then before else found)"

definition get_prev_nodes ::
    "('s, 'rr, 'kr, 'rj, 'nn, 'kn, 'nj) join_env \<Rightarrow> ('s, 'nn) dict \<Rightarrow> ('s, 's task) dict \<Rightarrow> ('s, 's task) dict pyres" where
  "get_prev_nodes env nodes_per_feature cur_nodes =
     foldE (\<lambda>(feature, cur_node) res.
       bindE (dict_lookup nodes_per_feature feature) (\<lambda>d.
         Inr (case prev_node None (map snd (value_items (block_task_join env) d)) cur_node None of
            None \<Rightarrow> res | Some n \<Rightarrow> dict_put feature n res))) cur_nodes []"

definition tasks_of_elements :: "('s, 'rr, 'kr, 'rj, 'nn, 'kn, 'nj) join_env \<Rightarrow> (unit, 's task) element list \<Rightarrow> 'nn" where
  "tasks_of_elements env es =
     fold (\<lambda>e d. case e of Tagged i n \<Rightarrow> idict_set (block_tasks env) i n d | Meta m \<Rightarrow> d) es (idict_empty (block_tasks env))"

definition join_range ::
    "('s, 'rr, 'kr, 'rj, 'nn, 'kn, 'nj) join_env \<Rightarrow> 's option \<Rightarrow> ('s, (unit, 's task) element list) dict \<Rightarrow> 's nodes pyres" where
  "join_range env label_feature nodes_per_feature =
     (let per_interval = map (\<lambda>(f, es). (f, tasks_of_elements env es)) nodes_per_feature in
      bindE (get_overlaps (block_task_join env) per_interval) (\<lambda>overlaps.
      foldE (\<lambda>(interval, cur) joined.
        bindE (get_prev_nodes env per_interval cur) (\<lambda>prev.
          Inr (dict_put interval (JoinBlock interval cur prev label_feature) joined))) overlaps []))"

definition point_in_time_join_dag ::
    "('s, 'rr, 'kr, 'rj, 'nn, 'kn, 'nj) join_env \<Rightarrow> 's dag \<Rightarrow> 's list \<Rightarrow> 's option \<Rightarrow> 's feature_graph pyres" where
  "point_in_time_join_dag env dag features_to_join label_feature =
     bindE (foldE (\<lambda>f d. bindE (feature_ranges env dag f) (\<lambda>r. Inr (dict_put f r d))) features_to_join []) (\<lambda>ranges_per_feature.
     bindE (get_overlaps (block_list_join env) ranges_per_feature) (\<lambda>overlaps.
     bindE (prune_overlaps (range_overlaps env) (tagged overlaps)) (\<lambda>pruned.
     foldE (\<lambda>(range_interval, nodes_per_feature) res.
       bindE (join_range env label_feature nodes_per_feature) (\<lambda>joined. Inr (dict_put range_interval joined res))) pruned [])))"

definition build_feature_label_set_task_graph ::
    "('d, 'p, 's::linorder, 'dr, 'key, 'rd, 'dg, 'gd) graph_env \<Rightarrow> ('s, 'rr, 'kr, 'rj, 'nn, 'kn, 'nj) join_env
     \<Rightarrow> ('d, 'p, 's) Feature list \<Rightarrow> ('d, 'p, 's) Feature option \<Rightarrow> string \<Rightarrow> ('s, path_meta list list) dict
     \<Rightarrow> ('s, (Interval, string) dict) dict option \<Rightarrow> 's list option \<Rightarrow> ('s, 'r) ref_cache
     \<Rightarrow> ('s feature_graph \<times> ('d, 'p, 's) Feature list \<times> ('s, 'r) ref_cache) pyres" where
  "build_feature_label_set_task_graph env jenv features label label_lookahead data_ranges_meta stored_blocks features_to_store cache =
     bindE (build_feature_set_task_graph env data_ranges_meta stored_blocks features_to_store features cache) (\<lambda>(dag, cache').
     bindE (case label of
         None \<Rightarrow> Inr (dag, None, features)
       | Some l \<Rightarrow>
           bindE (dict_lookup dag (calculate_key (defs env) l)) (\<lambda>g.
           bindE (build_lookahead_graph g label_lookahead) (\<lambda>lookahead_dag.
           let label_feature = make_label (defs env) l
           in Inr (dict_put (calculate_key (defs env) label_feature) lookahead_dag dag,
                   Some (calculate_key (defs env) label_feature), features @ [label_feature]))))
       (\<lambda>(dag', label_feature, features').
     bindE (point_in_time_join_dag jenv dag' (map (calculate_key (defs env)) features') label_feature) (\<lambda>res.
       Inr (res, features', cache'))))"

text \<open>The previous node is the one before the current one, of the first node there is none.\<close>

lemma prev_node_absent: "cur_node \<notin> set nodes \<Longrightarrow> prev_node before nodes cur_node found = found"
  by (induction before nodes cur_node found rule: prev_node.induct) auto

lemma prev_node_nth:
  "distinct nodes \<Longrightarrow> i < length nodes \<Longrightarrow>
     prev_node before nodes (nodes ! i) found =
       (if i = 0 then (if before \<noteq> None then before else found) else Some (nodes ! (i - 1)))"
proof (induction nodes arbitrary: i before found)
  case (Cons n nodes)
  show ?case
  proof (cases i)
    case 0
    with Cons.prems show ?thesis by (simp add: prev_node_absent)
  next
    case (Suc j)
    then have "n \<noteq> nodes ! j" using Cons.prems by auto
    with Suc Cons show ?thesis by (cases j) auto
  qed
qed simp

lemma foldE_put_all:
  assumes "foldE (\<lambda>(a, b) d. bindE (f a b) (\<lambda>v. Inr (dict_put a (h a b v) d))) xs d0 = Inr d"
    "\<And>k v. (k, v) \<in> set d0 \<Longrightarrow> P k v" "\<And>a b v. (a, b) \<in> set xs \<Longrightarrow> f a b = Inr v \<Longrightarrow> P a (h a b v)" "(k, v) \<in> set d"
  shows "P k v"
  using assms
proof (induction xs arbitrary: d0)
  case (Cons x xs)
  obtain a b where x: "x = (a, b)" by (cases x)
  from Cons.prems(1) x obtain w where w: "f a b = Inr w"
    "foldE (\<lambda>(a, b) d. bindE (f a b) (\<lambda>v. Inr (dict_put a (h a b v) d))) xs (dict_put a (h a b w) d0) = Inr d" by auto
  show ?case
  proof (rule Cons.IH [OF w(2) _ _ Cons.prems(4)])
    show "P k v" if "(k, v) \<in> set (dict_put a (h a b w) d0)" for k v
      using dict_put_member [OF that] Cons.prems(2,3) w(1) x by auto
  qed (use Cons.prems(3) in auto)
qed simp

lemma prev_nodes_keys:
  assumes "get_prev_nodes env d cur = Inr prev" "k \<in> fst ` set prev"
  shows "k \<in> fst ` set cur"
proof -
  have "k \<in> fst ` set cur \<union> fst ` set res0" if "foldE (\<lambda>(feature, cur_node) res.
       bindE (dict_lookup d feature) (\<lambda>e.
         Inr (case prev_node None (map snd (value_items (block_task_join env) e)) cur_node None of
            None \<Rightarrow> res | Some n \<Rightarrow> dict_put feature n res))) cur res0 = Inr prev" for res0
    using that
  proof (induction cur arbitrary: res0)
    case (Cons x cur)
    obtain f c where x: "x = (f, c)" by (cases x)
    from Cons.prems x obtain e where
      "foldE (\<lambda>(feature, cur_node) res.
         bindE (dict_lookup d feature) (\<lambda>e.
         Inr (case prev_node None (map snd (value_items (block_task_join env) e)) cur_node None of
            None \<Rightarrow> res | Some n \<Rightarrow> dict_put feature n res))) cur
        (case prev_node None (map snd (value_items (block_task_join env) e)) c None of
            None \<Rightarrow> res0 | Some n \<Rightarrow> dict_put f n res0) = Inr prev" by auto
    from Cons.IH [OF this] x show ?case by (auto split: option.splits simp: dom_update)
  qed (use assms(2) in simp)
  from this [OF assms(1) [unfolded get_prev_nodes_def]] show ?thesis by simp
qed

lemma join_range_names:
  assumes "overlap_laws (block_task_join env)" "distinct (map fst nodes_per_feature)"
    "join_range env label nodes_per_feature = Inr joined" "(i, t) \<in> set joined"
  shows "\<exists>cur prev. t = JoinBlock i cur prev label \<and> map fst cur = map fst nodes_per_feature \<and>
    fst ` set prev \<subseteq> fst ` set nodes_per_feature"
proof -
  let ?per = "map (\<lambda>(f, es). (f, tasks_of_elements env es)) nodes_per_feature"
  have keys: "map fst ?per = map fst nodes_per_feature" by (simp add: comp_def split_def)
  from assms(3) obtain overlaps where overlaps: "get_overlaps (block_task_join env) ?per = Inr overlaps"
    and joins: "foldE (\<lambda>(interval, cur) joined. bindE (get_prev_nodes env ?per cur) (\<lambda>prev.
          Inr (dict_put interval (JoinBlock interval cur prev label) joined))) overlaps [] = Inr joined"
    by (auto simp: join_range_def Let_def)
  have d: "distinct (dict_keys ?per)" unfolding keys by (rule assms(2))
  show ?thesis
  proof (rule foldE_put_all [OF joins _ _ assms(4)])
    fix interval cur prev
    assume member: "(interval, cur) \<in> set overlaps" and prev: "get_prev_nodes env ?per cur = Inr prev"
    have named: "map fst cur = map fst nodes_per_feature"
      using one_per_key_keys [OF overlaps_name_every_feature [OF assms(1) d overlaps member]] unfolding keys .
    then have "fst ` set cur = fst ` set nodes_per_feature" by (metis image_set)
    moreover have "fst ` set prev \<subseteq> fst ` set cur" using prev_nodes_keys [OF prev] by (rule subsetI)
    ultimately show "\<exists>cur' prev'. JoinBlock interval cur prev label = JoinBlock interval cur' prev' label \<and>
        map fst cur' = map fst nodes_per_feature \<and> fst ` set prev' \<subseteq> fst ` set nodes_per_feature"
      using named by (intro exI [of _ cur] exI [of _ prev]) simp
  qed simp
qed

lemma ranges_per_feature_keys:
  assumes "foldE (\<lambda>f d. bindE (feature_ranges env dag f) (\<lambda>r. Inr (dict_put f r d))) features d0 = Inr d"
    "distinct (map fst d0)"
  shows "distinct (map fst d) \<and> fst ` set d = fst ` set d0 \<union> set features"
  using assms
proof (induction features arbitrary: d0)
  case (Cons f features)
  from Cons.prems(1) obtain r where "foldE (\<lambda>f d. bindE (feature_ranges env dag f) (\<lambda>r. Inr (dict_put f r d))) features (dict_put f r d0) = Inr d"
    by auto
  with Cons.IH [of "dict_put f r d0"] Cons.prems(2) show ?case
    by (simp add: distinct_update dom_map_of_conv_image_fst [symmetric] update_conv')
qed simp

lemma list_all2_member: "list_all2 R xs ys \<Longrightarrow> y \<in> set ys \<Longrightarrow> \<exists>x\<in>set xs. R x y"
  by (induction rule: list_all2_induct) auto

lemma list_all2_keys: "list_all2 (\<lambda>(k, x) (k', x'). k' = k \<and> R x x') xs ys \<Longrightarrow> map fst ys = map fst xs"
  by (induction rule: list_all2_induct) auto

lemma pruned_keys:
  assumes "prune_overlaps ov (tagged overlaps) = Inr pruned" "(r, per) \<in> set pruned"
  shows "\<exists>named. (r, named) \<in> set overlaps \<and> map fst per = map fst named"
proof -
  from list_all2_member [OF prune_overlaps_shape [OF assms(1)] assms(2)] obtain rs
    where q: "(r, rs) \<in> set (tagged overlaps)" "list_all2 (\<lambda>(k, x) (k', x'). k' = k \<and> pruned_to ov r x x') rs per"
    by auto
  from q(1) show ?thesis using list_all2_keys [OF q(2)] by (auto simp: tagged_def comp_def split_def)
qed

text \<open>The point-in-time join. Every join task of the graph the joins of the dictionaries give
  names exactly one node of each of the features to join, and its previous nodes belong to those
  features.\<close>

theorem join_names_every_feature:
  assumes "overlap_laws (block_list_join env)" "overlap_laws (block_task_join env)"
    "point_in_time_join_dag env dag features label = Inr res" "(r, joined) \<in> set res" "(i, t) \<in> set joined"
  shows "\<exists>cur prev. t = JoinBlock i cur prev label \<and> distinct (map fst cur) \<and> fst ` set cur = set features \<and>
    fst ` set prev \<subseteq> set features"
proof -
  let ?P = "\<lambda>joined. \<forall>(i, t)\<in>set joined. \<exists>cur prev. t = JoinBlock i cur prev label \<and> distinct (map fst cur) \<and>
    fst ` set cur = set features \<and> fst ` set prev \<subseteq> set features"
  from assms(3) obtain ranges overlaps pruned
    where ranges: "foldE (\<lambda>f d. bindE (feature_ranges env dag f) (\<lambda>r. Inr (dict_put f r d))) features [] = Inr ranges"
      and overlaps: "get_overlaps (block_list_join env) ranges = Inr overlaps"
      and pruned: "prune_overlaps (range_overlaps env) (tagged overlaps) = Inr pruned"
      and joins: "foldE (\<lambda>(range_interval, nodes_per_feature) res.
        bindE (join_range env label nodes_per_feature) (\<lambda>joined. Inr (dict_put range_interval joined res))) pruned [] = Inr res"
    by (auto simp: point_in_time_join_dag_def)
  have keys: "distinct (map fst ranges)" "fst ` set ranges = set features"
    using ranges_per_feature_keys [OF ranges] by auto
  have per: "distinct (map fst per) \<and> fst ` set per = set features" if "(r, per) \<in> set pruned" for r per
  proof -
    obtain named where "(r, named) \<in> set overlaps" "map fst per = map fst named" using pruned_keys [OF pruned] \<open>(r, per) \<in> set pruned\<close> by blast
    then have "map fst per = map fst ranges"
      using one_per_key_keys [OF overlaps_name_every_feature [OF assms(1) keys(1) overlaps]] by metis
    with keys show ?thesis by (metis list.set_map)
  qed
  have "?P joined"
  proof (rule foldE_put_all [OF joins _ _ assms(4)])
    fix r per joined
    assume p: "(r, per) \<in> set pruned" "join_range env label per = Inr joined"
    have d: "distinct (map fst per)" "fst ` set per = set features" using per [OF p(1)] by auto
    show "?P joined"
    proof (intro ballI, clarify)
      fix i t assume "(i, t) \<in> set joined"
      from join_range_names [OF assms(2) d(1) p(2) this] obtain cur prev where
        "t = JoinBlock i cur prev label" "map fst cur = map fst per" "fst ` set prev \<subseteq> fst ` set per" by blast
      with d show "\<exists>cur prev. t = JoinBlock i cur prev label \<and> distinct (map fst cur) \<and>
          fst ` set cur = set features \<and> fst ` set prev \<subseteq> set features" by (metis image_set)
    qed
  qed simp
  with assms(5) show ?thesis by blast
qed

text \<open>Interval dictionaries as lists of disjoint closed intervals, for evaluation.\<close>

definition closed_overlaps :: "Interval \<Rightarrow> Interval \<Rightarrow> bool" where
  "closed_overlaps i j = (max (lower i) (lower j) \<le> min (upper i) (upper j))"

definition list_idict_ops :: "((Interval \<times> 'v) list, Interval, 'v) idict_ops" where
  "list_idict_ops = \<lparr>idict_empty = [], idict_set = (\<lambda>i v d. d @ [(i, v)]), idict_keys = map fst,
     idict_overlaps = closed_overlaps\<rparr>"

definition list_join_env where
  "list_join_env = \<lparr>block_lists = list_idict_ops, block_list_join = list_overlap_ops,
     block_tasks = list_idict_ops, block_task_join = list_overlap_ops, range_overlaps = closed_overlaps\<rparr>"

theorem join_names_every_feature_witness:
  "\<exists>cur prev. JoinBlock (closed_ivl 5 7)
       [(0 :: nat, GenSynthEvents 0 (closed_ivl 5 9)), (1, GenSynthEvents 1 (closed_ivl 2 7))]
       [(0, GenSynthEvents 0 (closed_ivl 0 4))] None = JoinBlock (closed_ivl 5 7) cur prev None \<and>
     distinct (map fst cur) \<and> fst ` set cur = set [0, 1] \<and> fst ` set prev \<subseteq> set [0, 1]"
proof (rule join_names_every_feature)
  let ?a1 = "GenSynthEvents (0 :: nat) (closed_ivl 0 4)" and ?a2 = "GenSynthEvents (0 :: nat) (closed_ivl 5 9)"
    and ?b = "GenSynthEvents (1 :: nat) (closed_ivl 2 7)"
  show "overlap_laws (block_list_join list_join_env)" "overlap_laws (block_task_join list_join_env)"
    by (simp_all add: list_join_env_def list_overlap_laws)
  show "point_in_time_join_dag list_join_env
      [(0, [(closed_ivl 0 9, [(closed_ivl 0 4, ?a1), (closed_ivl 5 9, ?a2)])]), (1, [(closed_ivl 2 7, [(closed_ivl 2 7, ?b)])])]
      [0, 1] None =
    Inr [(closed_ivl 2 7,
      [(closed_ivl 2 4, JoinBlock (closed_ivl 2 4) [(0, ?a1), (1, ?b)] [] None),
       (closed_ivl 5 7, JoinBlock (closed_ivl 5 7) [(0, ?a2), (1, ?b)] [(0, ?a1)] None)])]"
    by (simp add: point_in_time_join_dag_def feature_ranges_def list_join_env_def list_idict_ops_def overlaps_keys_def
        get_overlaps_def list_overlap_ops_def py_nth_def dict_lookup_def join_key_def prune_overlaps_def prune_elements_def
        element_interval_def tagged_def join_range_def tasks_of_elements_def get_prev_nodes_def closed_overlaps_def)
qed (simp, simp)

end
