(* ===== verification/DataFrames.thy ===== *)
theory DataFrames
  imports TimeUtils
begin

text \<open>
  common/pandas/df_utils.py, df_to_events of featurizer/data_definitions/data_definition.py and
  featurizer/featurizer_utils/featurizer_utils.py. A data frame is the list of its rows;
  \<open>ts\<close> reads the timestamp column of a row. The size of a frame in memory is a parameter.
\<close>

section \<open>Frames\<close>

definition is_ts_sorted :: "('row \<Rightarrow> rat) \<Rightarrow> 'row list \<Rightarrow> bool" where
  "is_ts_sorted ts df = sorted (map ts df)"

definition df_to_events :: "('row \<Rightarrow> rat) \<Rightarrow> 'row list \<Rightarrow> 'row list pyres" where
  "df_to_events ts df = (if \<not> is_ts_sorted ts df then Inl ValueError else Inr df)"

definition sub_df :: "'row list \<Rightarrow> int \<Rightarrow> int \<Rightarrow> 'row list" where
  "sub_df df start end_i = py_slice df start (end_i + 1)"

definition sub_df_ts :: "('row \<Rightarrow> rat) \<Rightarrow> 'row list \<Rightarrow> rat \<Rightarrow> rat \<Rightarrow> 'row list pyres" where
  "sub_df_ts ts df start_ts end_ts =
     (let res = filter (\<lambda>r. start_ts \<le> ts r \<and> ts r \<le> end_ts) df
      in if length res = 0 then Inl ValueError else Inr res)"

definition concat_dfs :: "'row list list \<Rightarrow> 'row list" where
  "concat_dfs dfs = concat dfs"

definition time_range :: "('row \<Rightarrow> rat) \<Rightarrow> 'row list \<Rightarrow> (rat \<times> rat \<times> rat) pyres" where
  "time_range ts df = bindE (py_nth df 0) (\<lambda>first. bindE (py_nth df (- 1)) (\<lambda>final.
     Inr (ts final - ts first, ts first, ts final)))"

definition get_time_diff :: "('row \<Rightarrow> rat) \<Rightarrow> 'row list option \<Rightarrow> 'row list option \<Rightarrow> rat pyres" where
  "get_time_diff ts df1 df2 =
     (case (df1, df2) of
        (Some d1, Some d2) \<Rightarrow> bindE (py_nth d1 0) (\<lambda>r1. bindE (py_nth d2 0) (\<lambda>r2. Inr (ts r1 - ts r2)))
      | _ \<Rightarrow> Inr 0)"

text \<open>The comparison \<open>sort_dfs\<close> sorts by: the difference of the first timestamps cut to whole
  seconds.\<close>

definition compare_dfs :: "('row \<Rightarrow> rat) \<Rightarrow> 'row list \<Rightarrow> 'row list \<Rightarrow> int" where
  "compare_dfs ts df1 df2 =
     (if length df1 = 0 then - 1 else if length df2 = 0 then 1
      else int_trunc (ts (df1 ! 0) - ts (df2 ! 0)))"

lemma compare_dfs_within_a_second:
  assumes "df1 \<noteq> []" "df2 \<noteq> []" "\<bar>ts (df1 ! 0) - ts (df2 ! 0)\<bar> < 1"
  shows "compare_dfs ts df1 df2 = 0"
proof -
  have "int_trunc q = 0" if "\<bar>q\<bar> < 1" for q
    using that by (auto simp: int_trunc_def floor_eq_iff ceiling_eq_iff)
  with assms show ?thesis by (simp add: compare_dfs_def)
qed

fun downsample_uniform_from :: "'row list \<Rightarrow> nat \<Rightarrow> nat \<Rightarrow> 'row list" where
  "downsample_uniform_from [] n k = []"
| "downsample_uniform_from (r # df) n k =
     (if k = 0 then r # downsample_uniform_from df n (n - 1) else downsample_uniform_from df n (k - 1))"

definition downsample_uniform :: "'row list \<Rightarrow> nat \<Rightarrow> 'row list pyres" where
  "downsample_uniform df every_n_row =
     (if every_n_row = 0 then Inl ValueError else Inr (downsample_uniform_from df every_n_row 0))"

section \<open>Merging blocks\<close>

text \<open>\<open>heapq.merge\<close> of two iterables with a key: the smaller head, of equal heads the first's.\<close>

fun heapq_merge :: "('a \<Rightarrow> rat) \<Rightarrow> 'a list \<Rightarrow> 'a list \<Rightarrow> 'a list" where
  "heapq_merge key [] ys = ys"
| "heapq_merge key (x # xs) [] = x # xs"
| "heapq_merge key (x # xs) (y # ys) =
     (if key y < key x then y # heapq_merge key (x # xs) ys else x # heapq_merge key xs (y # ys))"

definition merge_range :: "('e \<Rightarrow> rat) \<Rightarrow> 'f \<Rightarrow> 'e list list \<Rightarrow> ('f \<times> 'e) list pyres" where
  "merge_range ts feature block_range =
     foldE (\<lambda>block named_events.
       bindE (df_to_events ts block) (\<lambda>events.
         Inr (heapq_merge (\<lambda>e. ts (snd e)) named_events (map (\<lambda>e. (feature, e)) events)))) block_range []"

definition merge_blocks :: "('e \<Rightarrow> rat) \<Rightarrow> ('f, 'e list list) dict \<Rightarrow> ('f \<times> 'e) list option pyres" where
  "merge_blocks ts blocks =
     foldE (\<lambda>(feature, block_range) merged.
       bindE (merge_range ts feature block_range) (\<lambda>named_events.
         Inr (Some (case merged of None \<Rightarrow> named_events
                    | Some m \<Rightarrow> heapq_merge (\<lambda>e. ts (snd e)) m named_events)))) blocks None"

lemma heapq_merge_Nil [simp]: "heapq_merge key xs [] = xs"
  by (cases xs) simp_all

lemma heapq_merge_mset [simp]: "mset (heapq_merge key xs ys) = mset xs + mset ys"
  by (induction key xs ys rule: heapq_merge.induct) simp_all

lemma heapq_merge_set [simp]: "set (heapq_merge key xs ys) = set xs \<union> set ys"
  by (metis heapq_merge_mset set_mset_mset set_mset_union)

lemma heapq_merge_sorted:
  "sorted (map key xs) \<Longrightarrow> sorted (map key ys) \<Longrightarrow> sorted (map key (heapq_merge key xs ys))"
  by (induction key xs ys rule: heapq_merge.induct) (auto simp: not_less)

lemma heapq_merge_filter:
  "sorted (map key xs) \<Longrightarrow> sorted (map key ys) \<Longrightarrow>
   filter (\<lambda>x. key x = k) (heapq_merge key xs ys) = filter (\<lambda>x. key x = k) xs @ filter (\<lambda>x. key x = k) ys"
proof (induction key xs ys rule: heapq_merge.induct)
  case (3 key x xs y ys)
  have "filter (\<lambda>z. key z = key y) (x # xs) = []" if "key y < key x"
    using "3.prems"(1) that by (force simp: filter_empty_conv)
  with 3 show ?case by auto
qed simp_all

lemma sort_key_unique:
  assumes "mset ys = mset xs" "\<And>k. filter (\<lambda>x. f x = k) ys = filter (\<lambda>x. f x = k) xs" "sorted (map f ys)"
  shows "sort_key f xs = ys"
proof (rule properties_for_sort_key [OF assms(1) _ assms(3)])
  fix k
  have "(\<lambda>x. f k = f x) = (\<lambda>x. f x = f k)" by auto
  then show "filter (\<lambda>x. f k = f x) ys = filter (\<lambda>x. f k = f x) xs" using assms(2) by simp
qed

lemma heapq_merge_sort:
  "sorted (map key xs) \<Longrightarrow> sorted (map key ys) \<Longrightarrow> heapq_merge key xs ys = sort_key key (xs @ ys)"
  by (rule sort_key_unique [symmetric]) (simp_all add: heapq_merge_filter heapq_merge_sorted)

lemma sort_key_filter: "filter (\<lambda>x. f x = k) (sort_key f xs) = filter (\<lambda>x. f x = k) xs"
  by (metis (mono_tags, lifting) filter_cong sort_key_stable)

lemma heapq_merge_sorts: "heapq_merge key (sort_key key xs) (sort_key key ys) = sort_key key (xs @ ys)"
  by (rule sort_key_unique [symmetric]) (simp_all add: heapq_merge_filter heapq_merge_sorted sort_key_filter)

lemma sorted_sort_key: "sorted (map f xs) \<Longrightarrow> sort_key f xs = xs"
  by (rule sort_key_unique) simp_all

text \<open>The reference: the tagged events of all blocks, stably sorted.\<close>

definition tagged :: "('f, 'e list list) dict \<Rightarrow> ('f \<times> 'e) list" where
  "tagged blocks = concat (map (\<lambda>(f, bs). map (\<lambda>e. (f, e)) (concat bs)) blocks)"

lemma merge_range_from:
  "foldE (\<lambda>block named_events. bindE (df_to_events ts block) (\<lambda>events.
       Inr (heapq_merge (\<lambda>e. ts (snd e)) named_events (map (\<lambda>e. (f, e)) events)))) bs
     (sort_key (\<lambda>e. ts (snd e)) acc) =
   (if list_all (is_ts_sorted ts) bs
    then Inr (sort_key (\<lambda>e. ts (snd e)) (acc @ map (\<lambda>e. (f, e)) (concat bs))) else Inl ValueError)"
proof (induction bs arbitrary: acc)
  case Nil
  then show ?case by simp
next
  case (Cons b bs)
  show ?case
  proof (cases "is_ts_sorted ts b")
    case False
    then show ?thesis by (simp add: df_to_events_def)
  next
    case True
    then have "sort_key (\<lambda>e. ts (snd e)) (map (Pair f) b) = map (Pair f) b"
      by (intro sorted_sort_key) (simp add: is_ts_sorted_def comp_def)
    then have "heapq_merge (\<lambda>e. ts (snd e)) (sort_key (\<lambda>e. ts (snd e)) acc) (map (Pair f) b) =
        sort_key (\<lambda>e. ts (snd e)) (acc @ map (Pair f) b)"
      by (metis heapq_merge_sorts)
    with Cons [of "acc @ map (Pair f) b"] True show ?thesis by (simp add: df_to_events_def)
  qed
qed

lemma merge_range_eq:
  "merge_range ts f bs = (if list_all (is_ts_sorted ts) bs
     then Inr (sort_key (\<lambda>e. ts (snd e)) (map (\<lambda>e. (f, e)) (concat bs))) else Inl ValueError)"
  using merge_range_from [of ts f bs "[]"] by (simp add: merge_range_def)

lemma merge_blocks_from:
  "foldE (\<lambda>(feature, block_range) merged. bindE (merge_range ts feature block_range) (\<lambda>named_events.
       Inr (Some (case merged of None \<Rightarrow> named_events
                  | Some m \<Rightarrow> heapq_merge (\<lambda>e. ts (snd e)) m named_events)))) blocks
     (Some (sort_key (\<lambda>e. ts (snd e)) acc)) =
   (if list_all (list_all (is_ts_sorted ts)) (map snd blocks)
    then Inr (Some (sort_key (\<lambda>e. ts (snd e)) (acc @ tagged blocks))) else Inl ValueError)"
proof (induction blocks arbitrary: acc)
  case Nil
  then show ?case by (simp add: tagged_def)
next
  case (Cons p blocks)
  obtain f bs where p: "p = (f, bs)" by (cases p)
  show ?case using Cons.IH [of "acc @ map (Pair f) (concat bs)"] p
    by (simp add: merge_range_eq heapq_merge_sorts tagged_def)
qed

text \<open>C14. Merging the blocks of several features gives exactly the stable sort of all their events
  by timestamp, each event tagged with its feature: equal timestamps keep the order of the
  features, then of the blocks, then of the rows. It raises \<open>ValueError\<close> exactly when some block
  is not sorted, and without features there is nothing, not an empty list.\<close>

theorem merge_blocks_is_stable_sort:
  "merge_blocks ts blocks =
   (if \<not> list_all (list_all (is_ts_sorted ts)) (map snd blocks) then Inl ValueError
    else if blocks = [] then Inr None
    else Inr (Some (sort_key (\<lambda>e. ts (snd e)) (tagged blocks))))"
proof (cases blocks)
  case Nil
  then show ?thesis by (simp add: merge_blocks_def)
next
  case (Cons p rest)
  obtain f bs where p: "p = (f, bs)" by (cases p)
  show ?thesis using merge_blocks_from [of ts rest "map (Pair f) (concat bs)"] Cons p
    by (simp add: merge_blocks_def merge_range_eq tagged_def)
qed

section \<open>Splitting a frame by size\<close>

text \<open>The inner loop of \<open>gen_split_df_by_mem\<close>: the end moves on while the timestamp stays.\<close>

function move_end :: "('row \<Rightarrow> rat) \<Rightarrow> 'row list \<Rightarrow> rat \<Rightarrow> int \<Rightarrow> int pyres" where
  "move_end ts df end_ts e =
     (if e < int (length df) then
        bindE (py_nth df e) (\<lambda>r. if ts r = end_ts then move_end ts df end_ts (e + 1) else Inr e)
      else Inr e)"
  by pat_completeness auto
termination
  by (relation "measure (\<lambda>(ts, df, end_ts, e). nat (int (length df) - e))") auto

declare move_end.simps [simp del]

text \<open>The chunks the generator yields, \<open>None\<close> when it yields for ever.\<close>

partial_function (option) split_chunks ::
    "('row \<Rightarrow> rat) \<Rightarrow> 'row list \<Rightarrow> int \<Rightarrow> int \<Rightarrow> 'row list list \<Rightarrow> 'row list list pyres option" where
  "split_chunks ts df chunk_num_rows start chunks =
     (if start < int (length df) then
        let e = min (start + chunk_num_rows) (int (length df)) - 1 in
        case py_nth df e of
          Inl err \<Rightarrow> Some (Inl err)
        | Inr r \<Rightarrow>
            (case move_end ts df (ts r) e of
               Inl err \<Rightarrow> Some (Inl err)
             | Inr e' \<Rightarrow> split_chunks ts df chunk_num_rows e' (chunks @ [py_slice df start e']))
      else Some (Inr chunks))"

definition gen_split_df_by_mem ::
    "('row \<Rightarrow> rat) \<Rightarrow> ('row list \<Rightarrow> int) \<Rightarrow> 'row list \<Rightarrow> int \<Rightarrow> 'row list list pyres option" where
  "gen_split_df_by_mem ts get_size_kb df chunk_size_kb =
     (if \<not> is_ts_sorted ts df then Some (Inl ValueError)
      else if chunk_size_kb > get_size_kb df then Some (Inl ValueError)
      else if length df = 0 \<or> get_size_kb df = 0 then Some (Inl ZeroDivisionError)
      else let row_size_kb = of_int (get_size_kb df) / of_nat (length df)
           in split_chunks ts df (int_trunc (of_int chunk_size_kb / row_size_kb)) 0 [])"

lemma move_end_nat:
  "i \<le> length df \<Longrightarrow>
   move_end ts df t (int i) = Inr (int (i + length (takeWhile (\<lambda>r. ts r = t) (drop i df))))"
proof (induction "length df - i" arbitrary: i)
  case 0
  then show ?case by (subst move_end.simps) simp
next
  case (Suc n)
  then have i: "i < length df" by simp
  then have drop: "drop i df = df ! i # drop (Suc i) df" by (rule Cons_nth_drop_Suc [symmetric])
  have "py_nth df (int i) = Inr (df ! i)" using i by (simp add: py_nth_def)
  moreover have "move_end ts df t (int i + 1) =
      Inr (int (Suc i + length (takeWhile (\<lambda>r. ts r = t) (drop (Suc i) df))))"
    using Suc.hyps(1) [of "Suc i"] Suc.hyps(2) i by (simp add: add.commute)
  ultimately show ?case using i drop by (subst move_end.simps) simp
qed

text \<open>One chunk: it starts at \<open>start\<close>, has at least \<open>k\<close> rows or reaches the end, and the row after it,
  if any, has a later timestamp.\<close>

lemma chunk_step:
  assumes "sorted (map ts df)" "start < length df" "0 < k"
  shows "\<exists>e. start < e \<and> e \<le> length df \<and> min (start + k) (length df) \<le> e \<and>
    (e < length df \<longrightarrow> ts (df ! (e - 1)) < ts (df ! e)) \<and>
    split_chunks ts df (int k) (int start) acc = split_chunks ts df (int k) (int e) (acc @ [drop start (take e df)])"
proof -
  let ?n = "length df"
  obtain e0 where e0_def: "e0 = min (start + k) (length df) - 1" by simp
  let ?t = "ts (df ! e0)"
  let ?w = "takeWhile (\<lambda>r. ts r = ?t) (drop e0 df)"
  let ?e = "e0 + length ?w"
  have e0: "start \<le> e0" "e0 < ?n" using assms e0_def by auto
  then have drop: "drop e0 df = df ! e0 # drop (Suc e0) df" by (metis Cons_nth_drop_Suc)
  then have w: "0 < length ?w" by simp
  have le: "?e \<le> ?n" using length_takeWhile_le [of "\<lambda>r. ts r = ?t" "drop e0 df"] e0 by simp
  have last: "ts (df ! (?e - 1)) = ?t"
  proof -
    have "?w ! (length ?w - 1) \<in> set ?w" using w by (intro nth_mem) simp
    then have "ts (?w ! (length ?w - 1)) = ?t" by (auto dest: set_takeWhileD)
    moreover have "?w ! (length ?w - 1) = drop e0 df ! (length ?w - 1)"
      using w by (intro takeWhile_nth) simp
    moreover have "e0 + (length ?w - 1) = ?e - 1" using w by linarith
    then have "drop e0 df ! (length ?w - 1) = df ! (?e - 1)" using e0 by simp
    ultimately show ?thesis by simp
  qed
  have lt: "ts (df ! (?e - 1)) < ts (df ! ?e)" if "?e < ?n"
  proof -
    have "length ?w < length (drop e0 df)" using that by simp
    from nth_length_takeWhile [OF this] have "ts (df ! ?e) \<noteq> ?t" using e0 by simp
    moreover have "ts (df ! (?e - 1)) \<le> ts (df ! ?e)"
      using sorted_nth_mono [OF assms(1), of "?e - 1" ?e] that by simp
    ultimately show ?thesis using last by simp
  qed
  have ints: "min (int start + int k) (int ?n) - 1 = int e0" using assms e0_def by auto
  have nth: "py_nth df (int e0) = Inr (df ! e0)" using e0(2) by (simp add: py_nth_def)
  have move: "move_end ts df ?t (int e0) = Inr (int ?e)" using e0 by (intro move_end_nat) simp
  have slice: "py_slice df (int start) (int ?e) = drop start (take ?e df)"
    using e0 w le by (intro py_slice_nat) auto
  have "split_chunks ts df (int k) (int start) acc =
      split_chunks ts df (int k) (int ?e) (acc @ [drop start (take ?e df)])"
    using assms(2) by (subst split_chunks.simps) (simp only: Let_def ints nth move slice sum.case of_nat_less_iff if_True)
  moreover have "start < ?e" "min (start + k) ?n \<le> ?e" using w e0(1) e0_def by arith+
  ultimately show ?thesis using le lt by blast
qed

text \<open>Chunks of the rows from \<open>start\<close>: none empty, no timestamp in two of them, all but the last of
  at least \<open>k\<close> rows.\<close>

definition chunks_of :: "('row \<Rightarrow> rat) \<Rightarrow> nat \<Rightarrow> 'row list \<Rightarrow> 'row list list \<Rightarrow> bool" where
  "chunks_of ts k rows cs \<longleftrightarrow> concat cs = rows \<and> [] \<notin> set cs \<and>
     successively (\<lambda>a b. ts (last a) < ts (hd b)) cs \<and> list_all (\<lambda>c. k \<le> length c) (butlast cs)"

lemma chunks_of_Nil [simp]: "chunks_of ts k rows [] \<longleftrightarrow> rows = []"
  by (auto simp: chunks_of_def)

lemma chunks_of_Cons:
  assumes "chunks_of ts k rows cs" "c \<noteq> []" "rows \<noteq> [] \<Longrightarrow> ts (last c) < ts (hd rows) \<and> k \<le> length c"
  shows "chunks_of ts k (c @ rows) (c # cs)"
proof (cases cs)
  case Nil
  with assms show ?thesis by (simp add: chunks_of_def)
next
  case (Cons d ds)
  with assms have "d \<noteq> []" "rows = d @ concat ds" by (auto simp: chunks_of_def)
  with assms Cons show ?thesis by (auto simp: chunks_of_def)
qed

lemma split_chunks_spec:
  assumes "sorted (map ts df)" "start \<le> length df" "0 < k"
  shows "\<exists>cs. split_chunks ts df (int k) (int start) acc = Some (Inr (acc @ cs)) \<and> chunks_of ts k (drop start df) cs"
  using assms(2)
proof (induction "length df - start" arbitrary: start acc rule: less_induct)
  case less
  show ?case
  proof (cases "start < length df")
    case False
    then have "split_chunks ts df (int k) (int start) acc = Some (Inr (acc @ []))"
      by (subst split_chunks.simps) simp
    with False show ?thesis by (intro exI [of _ "[]"]) simp
  next
    case True
    from chunk_step [OF assms(1) True assms(3), of acc] obtain e where
      e: "start < e" "e \<le> length df" "min (start + k) (length df) \<le> e"
        "e < length df \<Longrightarrow> ts (df ! (e - 1)) < ts (df ! e)"
        "split_chunks ts df (int k) (int start) acc = split_chunks ts df (int k) (int e) (acc @ [drop start (take e df)])"
      by blast
    let ?c = "drop start (take e df)"
    have "length df - e < length df - start" using e(1) True by simp
    from less.hyps [OF this e(2), of "acc @ [?c]"] obtain cs where
      cs: "split_chunks ts df (int k) (int e) (acc @ [?c]) = Some (Inr ((acc @ [?c]) @ cs))"
        "chunks_of ts k (drop e df) cs" by blast
    have c: "?c \<noteq> []" "last ?c = df ! (e - 1)" "length ?c = e - start"
      using e(1,2) by (simp_all add: last_conv_nth)
    have "drop start (take e df @ drop e df) = ?c @ drop e df"
      unfolding drop_append using e(1,2) by simp
    then have "?c @ drop e df = drop start df" by simp
    moreover have "chunks_of ts k (?c @ drop e df) (?c # cs)"
      using cs(2) c(1)
    proof (rule chunks_of_Cons)
      assume "drop e df \<noteq> []"
      then have "e < length df" by simp
      then show "ts (last ?c) < ts (hd (drop e df)) \<and> k \<le> length ?c"
        using e(3,4) c by (auto simp: hd_drop_conv_nth)
    qed
    ultimately show ?thesis using cs(1) e(5) by auto
  qed
qed

text \<open>When a chunk has room for at least one row the generator ends: the chunks put together
  are the frame, none is empty, every chunk but the last has at least the computed number of
  rows, and no timestamp occurs in two chunks.\<close>

theorem split_by_mem_partitions:
  assumes "is_ts_sorted ts df" "df \<noteq> []" "0 < mem df" "chunk_size \<le> mem df"
    "mem df \<le> chunk_size * int (length df)"
  shows "\<exists>cs. gen_split_df_by_mem ts mem df chunk_size = Some (Inr cs) \<and>
    chunks_of ts (nat (int_trunc (of_int chunk_size / (of_int (mem df) / of_nat (length df))))) df cs"
proof -
  let ?k = "int_trunc (of_int chunk_size / (of_int (mem df) / of_nat (length df)))"
  have "1 \<le> of_int chunk_size / (of_int (mem df) / of_nat (length df) :: rat)"
  proof -
    from assms(5) have "(of_int (mem df) :: rat) \<le> of_int (chunk_size * int (length df))"
      by (simp only: of_int_le_iff)
    then show ?thesis using assms(2,3) by (simp add: field_simps)
  qed
  then have "1 \<le> ?k" by (simp add: int_trunc_def le_floor_iff)
  then have k: "0 < nat ?k" "int (nat ?k) = ?k" by simp_all
  have "sorted (map ts df)" using assms(1) by (simp add: is_ts_sorted_def)
  from split_chunks_spec [OF this _ k(1), of 0 "[]"] k(2)
  obtain cs where "split_chunks ts df ?k 0 [] = Some (Inr cs)" "chunks_of ts (nat ?k) df cs" by auto
  with assms show ?thesis by (auto simp: gen_split_df_by_mem_def Let_def)
qed

theorem split_by_mem_partitions_witness:
  "\<exists>cs. gen_split_df_by_mem id (\<lambda>df. 10) [1, 2, 2, 2, 3] 4 = Some (Inr cs) \<and>
    chunks_of id (nat (int_trunc (of_int 4 / (of_int 10 / of_nat (length [1, 2, 2, 2, 3 :: rat]))))) [1, 2, 2, 2, 3] cs"
  using split_by_mem_partitions [of id "[1, 2, 2, 2, 3]" "\<lambda>df. 10" 4] by (simp add: is_ts_sorted_def)

text \<open>A chunk size below the size of a row leaves the generator in place: it yields empty chunks
  for ever unless all timestamps are equal.\<close>

lemma split_chunks_stuck:
  assumes "df \<noteq> []" "ts (last df) \<noteq> ts (hd df)"
  shows "split_chunks ts df 0 0 acc = None"
proof -
  have end0: "move_end ts df (ts (last df)) (- 1) = Inr 0"
    using assms by (subst move_end.simps, subst move_end.simps)
      (auto simp: py_nth_def last_conv_nth hd_conv_nth nat_diff_distrib')
  have nth: "py_nth df (- 1) = Inr (last df)"
    using assms(1) by (auto simp: py_nth_def last_conv_nth nat_diff_distrib' Suc_le_eq)
  have step: "split_chunks ts df 0 0 acc = split_chunks ts df 0 0 (acc @ [[]])" for acc
    using assms(1) nth end0 by (subst split_chunks.simps) (simp add: py_slice_def slice_bound_def)
  have "ts' = ts \<and> df' = df \<and> k = 0 \<and> start = 0 \<longrightarrow> False" if "split_chunks ts' df' k start acc = Some y"
    for ts' df' k start acc y
    using that by (rule split_chunks.raw_induct [rotated,
      where P = "\<lambda>ts' df' k start acc y. ts' = ts \<and> df' = df \<and> k = 0 \<and> start = 0 \<longrightarrow> False"])
      (use assms(1) nth end0 in \<open>fastforce simp: Let_def\<close>)
  then show ?thesis by (metis not_None_eq)
qed

end
