(* ===== verification/EventStreams.thy ===== *)
theory EventStreams
  imports TimeUtils
begin

text \<open>
  Events and the stream operators of common/streamz/stream_utils.py. An event is the dictionary
  of one row; the functions the sources hand to streamz's \<open>accumulate\<close> are step functions from
  a state and an event to the next state and an output, and a run of a stream is the sequence
  of those calls.
\<close>

section \<open>Events\<close>

datatype event_value = Num rat | Txt string | Seq "event_value list"

type_synonym event = "(string, event_value) dict"

definition num_at :: "string \<Rightarrow> event \<Rightarrow> rat pyres" where
  "num_at k e = bindE (dict_lookup e k) (\<lambda>v. case v of Num q \<Rightarrow> Inr q | _ \<Rightarrow> Inl TypeError)"

definition seq_at :: "string \<Rightarrow> event \<Rightarrow> event_value list pyres" where
  "seq_at k e = bindE (dict_lookup e k) (\<lambda>v. case v of Seq vs \<Rightarrow> Inr vs | _ \<Rightarrow> Inl TypeError)"

text \<open>\<open>DataDefinition.construct_event\<close>: the schema's names zipped with the values.\<close>

definition construct_event :: "string list \<Rightarrow> event_value list \<Rightarrow> event" where
  "construct_event schema args = fold (\<lambda>(k, v) d. dict_put k v d) (zip schema args) []"

text \<open>The calls a stream makes of an accumulating step, in order, with what it emits.\<close>

fun run_stream :: "('s \<Rightarrow> 'e \<Rightarrow> ('s \<times> 'o) pyres) \<Rightarrow> 's \<Rightarrow> 'e list \<Rightarrow> ('s \<times> 'o list) pyres" where
  "run_stream step s [] = Inr (s, [])"
| "run_stream step s (e # es) =
     bindE (step s e) (\<lambda>(s', out). bindE (run_stream step s' es) (\<lambda>(s'', outs). Inr (s'', out # outs)))"

definition filter_none :: "'o option list \<Rightarrow> 'o list" where
  "filter_none outs = map the (filter (\<lambda>x. x \<noteq> None) outs)"

text \<open>The interface of the accumulating operators: a state invariant, the events the operator
  accepts in it, and what every emitted value satisfies. Provided that, a run over accepted
  events raises nothing.\<close>

locale stateful_stream =
  fixes step :: "'s \<Rightarrow> 'e \<Rightarrow> ('s \<times> 'o option) pyres"
    and inv :: "'s \<Rightarrow> bool"
    and accepted :: "'e \<Rightarrow> bool"
    and emitted :: "'o \<Rightarrow> bool"
  assumes accepts: "inv s \<Longrightarrow> accepted e \<Longrightarrow>
    \<exists>s' out. step s e = Inr (s', out) \<and> inv s' \<and> (case out of None \<Rightarrow> True | Some x \<Rightarrow> emitted x)"
begin

lemma runs:
  "inv s \<Longrightarrow> list_all accepted es \<Longrightarrow>
     \<exists>s' outs. run_stream step s es = Inr (s', outs) \<and> inv s' \<and> list_all emitted (filter_none outs)"
proof (induction es arbitrary: s)
  case Nil
  then show ?case by (simp add: filter_none_def)
next
  case (Cons e es)
  then obtain s1 out where s1: "step s e = Inr (s1, out)" "inv s1" "case out of None \<Rightarrow> True | Some x \<Rightarrow> emitted x"
    using accepts by fastforce
  from Cons.IH [OF s1(2)] Cons.prems(2) obtain s' outs where
    "run_stream step s1 es = Inr (s', outs)" "inv s'" "list_all emitted (filter_none outs)" by auto
  with s1 show ?case by (auto simp: filter_none_def split: option.splits)
qed

end

section \<open>The operators\<close>

definition pass_if_needed :: "string \<Rightarrow> rat option \<Rightarrow> event \<Rightarrow> (rat option \<times> event option) pyres" where
  "pass_if_needed window last_ts event =
     bindE (num_at ''timestamp'' event) (\<lambda>ts.
       case last_ts of
         None \<Rightarrow> Inr (Some ts, Some event)
       | Some l \<Rightarrow> bindE (convert_str_to_seconds window) (\<lambda>w.
           if ts - l > w then Inr (Some ts, Some event) else Inr (last_ts, None)))"

definition throttle :: "string \<Rightarrow> event list \<Rightarrow> event list pyres" where
  "throttle window events =
     bindE (run_stream (pass_if_needed window) None events) (\<lambda>(_, outs). Inr (filter_none outs))"

fun pop_expired :: "rat \<Rightarrow> string \<Rightarrow> event list \<Rightarrow> event list pyres" where
  "pop_expired ts window [] = Inl IndexError"
| "pop_expired ts window (e # es) =
     bindE (num_at ''timestamp'' e) (\<lambda>t.
     bindE (convert_str_to_seconds window) (\<lambda>w.
       if ts - t > w then pop_expired ts window es else Inr (e # es)))"

definition deque_and_apply ::
    "string \<Rightarrow> (event list \<Rightarrow> 'o pyres) \<Rightarrow> event list \<Rightarrow> event \<Rightarrow> (event list \<times> 'o) pyres" where
  "deque_and_apply window apply_f events_deque event =
     bindE (num_at ''timestamp'' event) (\<lambda>ts.
     bindE (pop_expired ts window (events_deque @ [event])) (\<lambda>d.
     bindE (apply_f d) (\<lambda>out. Inr (d, out))))"

definition lookback_apply :: "string \<Rightarrow> (event list \<Rightarrow> 'o pyres) \<Rightarrow> event list \<Rightarrow> 'o list pyres" where
  "lookback_apply window apply_f events =
     bindE (run_stream (deque_and_apply window apply_f) [] events) (\<lambda>(_, outs). Inr outs)"

text \<open>\<open>run_named_events_stream\<close>: \<open>emit\<close> pushes an event into the source of its key and gives what
  reaches the sink.\<close>

definition run_named_events_stream ::
    "('k \<Rightarrow> event \<Rightarrow> 's \<Rightarrow> ('s \<times> event list) pyres) \<Rightarrow> ('k \<times> event) list \<Rightarrow> Interval option \<Rightarrow> 's \<Rightarrow> event list pyres" where
  "run_named_events_stream emit named_events interval s =
     bindE (foldE (\<lambda>(key, event) (s, res).
         bindE (emit key event s) (\<lambda>(s', elems).
         bindE (foldE (\<lambda>elem res.
             case interval of
               None \<Rightarrow> Inr (res @ [elem])
             | Some i \<Rightarrow> bindE (num_at ''timestamp'' elem) (\<lambda>t.
                 Inr (if lower i \<le> t \<and> t \<le> upper i then res @ [elem] else res))) elems res)
           (\<lambda>res'. Inr (s', res')))) named_events (s, []))
       (\<lambda>(s, res). Inr res)"

section \<open>What the operators do\<close>

definition ts_of :: "event \<Rightarrow> rat" where
  "ts_of e = (case num_at ''timestamp'' e of Inr t \<Rightarrow> t | Inl _ \<Rightarrow> 0)"

definition timed :: "event \<Rightarrow> bool" where
  "timed e = (num_at ''timestamp'' e = Inr (ts_of e))"

lemma timed_num [simp]: "timed e \<Longrightarrow> num_at ''timestamp'' e = Inr (ts_of e)"
  by (simp add: timed_def)

lemma pop_expired_dropWhile:
  assumes "convert_str_to_seconds window = Inr w" "list_all timed es"
  shows "pop_expired ts window es =
    (let d = dropWhile (\<lambda>e. ts - ts_of e > w) es in if d = [] then Inl IndexError else Inr d)"
  using assms(2) by (induction es) (simp_all add: assms(1) Let_def)

lemma dropWhile_sorted_ts:
  "sorted (map ts_of es) \<Longrightarrow> dropWhile (\<lambda>e. t - ts_of e > w) es = filter (\<lambda>e. t - ts_of e \<le> w) es"
proof (induction es)
  case (Cons e es)
  have "filter (\<lambda>e. t - ts_of e \<le> w) es = es" if "t - ts_of e \<le> w"
    using Cons.prems that by (force intro: filter_True)
  with Cons show ?case by (auto simp: not_less)
qed simp

definition window_of :: "rat \<Rightarrow> event list \<Rightarrow> event \<Rightarrow> event list" where
  "window_of w earlier e = filter (\<lambda>x. ts_of e - ts_of x \<le> w) (earlier @ [e])"

lemma lookback_state:
  assumes "convert_str_to_seconds window = Inr w" "0 \<le> w"
    "list_all timed (earlier @ es)" "sorted (map ts_of (earlier @ es))"
    "d = filter (\<lambda>x. t0 \<le> ts_of x + w) earlier" "\<And>e. e \<in> set es \<Longrightarrow> t0 \<le> ts_of e"
  shows "run_stream (deque_and_apply window (\<lambda>d. Inr (f d))) d es =
    Inr (if es = [] then d else window_of w (earlier @ butlast es) (last es),
         map (\<lambda>i. f (window_of w (earlier @ take i es) (es ! i))) [0..<length es])"
  using assms(3-6)
proof (induction es arbitrary: d earlier t0)
  case Nil
  then show ?case by simp
next
  case (Cons e es)
  have sorted: "sorted (map ts_of (d @ [e]))" and timed: "list_all timed (d @ [e])"
    using Cons.prems(1-3) by (auto simp: sorted_append sorted_map sorted_wrt_filter list_all_iff)
  have narrow: "filter (\<lambda>x. ts_of e - ts_of x \<le> w) (d @ [e]) = window_of w earlier e"
    using Cons.prems(3,4) by (force simp: window_of_def intro: filter_cong)
  have "e \<in> set (window_of w earlier e)" using assms(2) by (simp add: window_of_def)
  then have "window_of w earlier e \<noteq> []" by auto
  moreover have "dropWhile (\<lambda>x. ts_of e - ts_of x > w) (d @ [e]) = window_of w earlier e"
    unfolding narrow [symmetric] by (rule dropWhile_sorted_ts [OF sorted])
  ultimately have "pop_expired (ts_of e) window (d @ [e]) = Inr (window_of w earlier e)"
    using pop_expired_dropWhile [OF assms(1) timed, of "ts_of e"] by (simp only: Let_def if_False)
  then have step: "deque_and_apply window (\<lambda>d. Inr (f d)) d e = Inr (window_of w earlier e, f (window_of w earlier e))"
    using Cons.prems(1) by (simp add: deque_and_apply_def)
  have rest: "run_stream (deque_and_apply window (\<lambda>d. Inr (f d))) (window_of w earlier e) es =
    Inr (if es = [] then window_of w earlier e else window_of w ((earlier @ [e]) @ butlast es) (last es),
         map (\<lambda>i. f (window_of w ((earlier @ [e]) @ take i es) (es ! i))) [0..<length es])"
  proof (rule Cons.IH)
    show "window_of w earlier e = filter (\<lambda>x. ts_of e \<le> ts_of x + w) (earlier @ [e])"
      by (simp add: window_of_def algebra_simps)
  qed (use Cons.prems in \<open>auto simp: sorted_append\<close>)
  have "[0..<length (e # es)] = 0 # map Suc [0..<length es]"
    by (simp add: upt_conv_Cons map_Suc_upt del: upt_Suc)
  with step rest show ?case by (auto simp del: upt_Suc)
qed

text \<open>On events sorted by timestamp \<open>lookback_apply\<close> applies its function, event by event, to
  exactly the events up to that one that lie within the window before it: the deque it keeps
  and pops from the left is that window at every step, and no call finds it empty.\<close>

theorem lookback_sees_the_window:
  assumes "convert_str_to_seconds window = Inr w" "0 \<le> w" "list_all timed es" "sorted (map ts_of es)"
  shows "lookback_apply window (\<lambda>d. Inr (f d)) es =
    Inr (map (\<lambda>i. f (filter (\<lambda>x. ts_of (es ! i) - ts_of x \<le> w) (take (Suc i) es))) [0..<length es])"
proof -
  obtain t where t: "\<And>e. e \<in> set es \<Longrightarrow> t \<le> ts_of e"
    using assms(4) by (cases es) auto
  from lookback_state [OF assms(1,2), of "[]" es "[]" t f] assms(3,4) t
  have "run_stream (deque_and_apply window (\<lambda>d. Inr (f d))) [] es =
      Inr (if es = [] then [] else window_of w (butlast es) (last es),
           map (\<lambda>i. f (window_of w (take i es) (es ! i))) [0..<length es])" by simp
  moreover have "map (\<lambda>i. f (window_of w (take i es) (es ! i))) [0..<length es] =
      map (\<lambda>i. f (filter (\<lambda>x. ts_of (es ! i) - ts_of x \<le> w) (take (Suc i) es))) [0..<length es]"
    by (auto simp: window_of_def take_Suc_conv_app_nth)
  ultimately show ?thesis by (simp add: lookback_apply_def)
qed

theorem lookback_sees_the_window_witness:
  "lookback_apply ''2s'' (\<lambda>d. Inr (length d)) [[(''timestamp'', Num 1)], [(''timestamp'', Num 2)], [(''timestamp'', Num 4)]] =
   Inr (map (\<lambda>i. length (filter (\<lambda>x. ts_of ([[(''timestamp'', Num 1)], [(''timestamp'', Num 2)], [(''timestamp'', Num 4)]] ! i) - ts_of x \<le> 2)
     (take (Suc i) [[(''timestamp'', Num 1)], [(''timestamp'', Num 2)], [(''timestamp'', Num 4)]])))
     [0..<length [[(''timestamp'', Num 1)], [(''timestamp'', Num 2)], [(''timestamp'', Num 4)]]])"
proof (rule lookback_sees_the_window)
  show "convert_str_to_seconds ''2s'' = Inr 2" by code_simp
qed (simp_all add: timed_def ts_of_def num_at_def dict_lookup_def)

end
