(* ===== verification/L2Book.thy ===== *)
theory L2Book
  imports DataFrames Blocks EventStreams
begin

text \<open>
  Order books from incremental updates: featurizer/features/definitions/l2_book/l2_snapshot_fd
  and the splitting of a day of updates with a snapshot before each piece, in
  featurizer/data_definitions/common/l2_book_incremental/cryptotick/utils.py. The book of the
  order_book package is an operation table: the levels of a side in its order, the size at a
  price, storing and deleting a price.
\<close>

section \<open>The book\<close>

datatype BookSide = Bid | Ask

record 'b book_ops =
  new_book :: 'b
  size_at :: "'b \<Rightarrow> BookSide \<Rightarrow> rat \<Rightarrow> rat option"
  put_level :: "BookSide \<Rightarrow> rat \<Rightarrow> rat \<Rightarrow> 'b \<Rightarrow> 'b"
  del_level :: "BookSide \<Rightarrow> rat \<Rightarrow> 'b \<Rightarrow> 'b"
  levels :: "'b \<Rightarrow> BookSide \<Rightarrow> (rat \<times> rat) list"

text \<open>What the package documents: a side is a dictionary from prices to sizes, and its levels
  list that dictionary, each price once.\<close>

definition book_laws :: "'b book_ops \<Rightarrow> bool" where
  "book_laws ops \<longleftrightarrow>
     (\<forall>sd p. size_at ops (new_book ops) sd p = None) \<and>
     (\<forall>b sd p q sd' p'. size_at ops (put_level ops sd p q b) sd' p' =
        (if sd' = sd \<and> p' = p then Some q else size_at ops b sd' p')) \<and>
     (\<forall>b sd p sd' p'. size_at ops (del_level ops sd p b) sd' p' =
        (if sd' = sd \<and> p' = p then None else size_at ops b sd' p')) \<and>
     (\<forall>b sd. distinct (map fst (levels ops b sd)) \<and> (\<forall>p. map_of (levels ops b sd) p = size_at ops b sd p))"

type_synonym order = "BookSide \<times> rat \<times> rat"

record l2_event =
  l2_ts :: rat
  l2_receipt_ts :: rat
  update_type :: string
  orders :: "order list"

record 'b l2_state =
  timestamp :: rat
  receipt_timestamp :: rat
  order_book :: 'b
  data_inconsistencies :: "(string, int) dict"
  inited :: bool
  ob_count :: nat
  last_emitted_ts :: rat

definition init_l2 :: "'b book_ops \<Rightarrow> 'b l2_state" where
  "init_l2 ops = \<lparr>timestamp = - 1, receipt_timestamp = - 1, order_book = new_book ops,
     data_inconsistencies = [], inited = False, ob_count = 0, last_emitted_ts = - 1\<rparr>"

section \<open>Updates of cryptotick\<close>

definition add_order :: "'b book_ops \<Rightarrow> order \<Rightarrow> 'b \<Rightarrow> 'b" where
  "add_order ops o' b = (let (sd, price, sz) = o' in
     case size_at ops b sd price of
       Some old \<Rightarrow> put_level ops sd price (old + sz) b
     | None \<Rightarrow> put_level ops sd price sz b)"

definition drop_if_zero :: "'b book_ops \<Rightarrow> BookSide \<Rightarrow> rat \<Rightarrow> 'b \<Rightarrow> 'b" where
  "drop_if_zero ops sd price b = (if size_at ops b sd price = Some 0 then del_level ops sd price b else b)"

definition set_order :: "'b book_ops \<Rightarrow> order \<Rightarrow> 'b \<Rightarrow> 'b" where
  "set_order ops o' b = (let (sd, price, sz) = o' in drop_if_zero ops sd price (put_level ops sd price sz b))"

definition sub_order :: "'b book_ops \<Rightarrow> order \<Rightarrow> 'b \<times> nat \<Rightarrow> 'b \<times> nat" where
  "sub_order ops o' s = (let (sd, price, sz) = o'; (b, no_keys) = s in
     case size_at ops b sd price of
       None \<Rightarrow> (b, no_keys + 1)
     | Some old \<Rightarrow> (drop_if_zero ops sd price (put_level ops sd price (old - sz) b), no_keys))"

definition cryptotick_update_state ::
    "'b book_ops \<Rightarrow> 'b l2_state \<Rightarrow> l2_event \<Rightarrow> ('b l2_state \<times> bool) pyres" where
  "cryptotick_update_state ops s event =
     (if update_type event \<noteq> ''SNAPSHOT'' \<and> \<not> inited s then Inr (s, True)
      else
        let s1 = (if update_type event = ''SNAPSHOT''
                  then s\<lparr>inited := True, order_book := new_book ops, ob_count := ob_count s + 1\<rparr> else s)
        in bindE
             (if update_type event = ''ADD'' \<or> update_type event = ''SNAPSHOT''
              then Inr (fold (add_order ops) (orders event) (order_book s1))
              else if update_type event = ''SET'' then Inr (fold (set_order ops) (orders event) (order_book s1))
              else if update_type event = ''SUB'' then Inr (fst (fold (sub_order ops) (orders event) (order_book s1, 0)))
              else Inl ValueError)
             (\<lambda>b. Inr (s1\<lparr>order_book := b, timestamp := l2_ts event, receipt_timestamp := l2_receipt_ts event\<rparr>, False)))"

section \<open>Updates of cryptofeed\<close>

record delta_event =
  delta_ts :: rat
  delta_receipt_ts :: rat
  delta :: bool
  delta_orders :: "order list"

definition cryptofeed_order :: "'b book_ops \<Rightarrow> order \<Rightarrow> 'b l2_state \<Rightarrow> 'b l2_state" where
  "cryptofeed_order ops o' s = (let (sd, price, sz) = o' in
     if sz = 0 then
       (case size_at ops (order_book s) sd price of
          Some _ \<Rightarrow> s\<lparr>order_book := del_level ops sd price (order_book s)\<rparr>
        | None \<Rightarrow> s\<lparr>data_inconsistencies :=
            dict_put ''no_price_with_zero_size''
              ((case map_of (data_inconsistencies s) ''no_price_with_zero_size'' of None \<Rightarrow> 0 | Some n \<Rightarrow> n) + 1)
              (data_inconsistencies s)\<rparr>)
     else s\<lparr>order_book := put_level ops sd price sz (order_book s)\<rparr>)"

definition cryptofeed_update_state ::
    "'b book_ops \<Rightarrow> 'b l2_state \<Rightarrow> delta_event \<Rightarrow> 'b l2_state \<times> bool" where
  "cryptofeed_update_state ops s event =
     (if delta event \<and> \<not> inited s then (s, True)
      else
        let s1 = (if \<not> delta event
                  then s\<lparr>inited := True, order_book := new_book ops, ob_count := ob_count s + 1\<rparr> else s);
            s2 = fold (cryptofeed_order ops) (delta_orders event) s1
        in (s2\<lparr>timestamp := delta_ts event, receipt_timestamp := delta_receipt_ts event\<rparr>, False))"

section \<open>Snapshots\<close>

record snapshot =
  snap_ts :: rat
  snap_receipt_ts :: rat
  bids :: "(rat \<times> rat) list"
  asks :: "(rat \<times> rat) list"

text \<open>\<open>orders.index(level)[0]\<close> with the size looked up under that price.\<close>

definition level_at :: "'b book_ops \<Rightarrow> 'b \<Rightarrow> BookSide \<Rightarrow> nat \<Rightarrow> (rat \<times> rat) pyres" where
  "level_at ops b sd i =
     (let price = fst (levels ops b sd ! i) in
      case size_at ops b sd price of None \<Rightarrow> Inl KeyError | Some q \<Rightarrow> Inr (price, q))"

definition snapshot_depth :: "'b book_ops \<Rightarrow> 'b \<Rightarrow> int \<Rightarrow> nat" where
  "snapshot_depth ops b depth =
     (let shorter = min (int (length (levels ops b Bid))) (int (length (levels ops b Ask)))
      in nat (if depth = - 1 then shorter else min depth shorter))"

definition state_snapshot :: "'b book_ops \<Rightarrow> 'b l2_state \<Rightarrow> int \<Rightarrow> snapshot pyres" where
  "state_snapshot ops s depth =
     (let b = order_book s; d = snapshot_depth ops b depth in
      bindE (mapE (level_at ops b Bid) [0..<d]) (\<lambda>bid_levels.
      bindE (mapE (level_at ops b Ask) [0..<d]) (\<lambda>ask_levels.
        Inr \<lparr>snap_ts = timestamp s, snap_receipt_ts = receipt_timestamp s, bids = bid_levels, asks = ask_levels\<rparr>)))"

datatype l2_input = Tick l2_event | Feed delta_event

text \<open>An event of the other schema lacks the field the update reads first.\<close>

definition dep_update_state ::
    "'b book_ops \<Rightarrow> string option \<Rightarrow> 'b l2_state \<Rightarrow> l2_input \<Rightarrow> ('b l2_state \<times> bool) pyres" where
  "dep_update_state ops dep_schema s event =
     (if dep_schema = None \<or> dep_schema = Some ''cryptotick'' then
        (case event of Tick e \<Rightarrow> cryptotick_update_state ops s e | Feed _ \<Rightarrow> Inl KeyError)
      else if dep_schema = Some ''cryptofeed'' then
        (case event of Feed e \<Rightarrow> Inr (cryptofeed_update_state ops s e) | Tick _ \<Rightarrow> Inl KeyError)
      else Inl ValueError)"

definition l2_update_state ::
    "'b book_ops \<Rightarrow> int \<Rightarrow> string \<Rightarrow> string option \<Rightarrow> 'b l2_state \<Rightarrow> l2_input \<Rightarrow> ('b l2_state \<times> snapshot option) pyres" where
  "l2_update_state ops depth sampling dep_schema s event =
     bindE (dep_update_state ops dep_schema s event) (\<lambda>(s1, skip_event).
     if sampling = ''raw'' then
       if skip_event then Inr (s1, None) else bindE (state_snapshot ops s1 depth) (\<lambda>snap. Inr (s1, Some snap))
     else if sampling = ''skip_all'' then Inr (s1, None)
     else bindE (convert_str_to_seconds sampling) (\<lambda>sampling_s.
       if (last_emitted_ts s1 < 0 \<or> timestamp s1 - last_emitted_ts s1 > sampling_s) \<and> \<not> skip_event
       then let s2 = s1\<lparr>last_emitted_ts := timestamp s1\<rparr>
            in bindE (state_snapshot ops s2 depth) (\<lambda>snap. Inr (s2, Some snap))
       else Inr (s1, None)))"

section \<open>The book is a map\<close>

text \<open>The specification: two finite maps from prices to sizes.\<close>

type_synonym book_map = "BookSide \<Rightarrow> rat \<Rightarrow> rat option"

definition set_size :: "BookSide \<Rightarrow> rat \<Rightarrow> rat option \<Rightarrow> book_map \<Rightarrow> book_map" where
  "set_size sd p q m = m(sd := (m sd)(p := q))"

fun spec_add :: "order \<Rightarrow> book_map \<Rightarrow> book_map" where
  "spec_add (sd, p, q) m = set_size sd p (Some (case m sd p of None \<Rightarrow> q | Some old \<Rightarrow> old + q)) m"

fun spec_set :: "order \<Rightarrow> book_map \<Rightarrow> book_map" where
  "spec_set (sd, p, q) m = set_size sd p (if q = 0 then None else Some q) m"

fun spec_sub :: "order \<Rightarrow> book_map \<Rightarrow> book_map" where
  "spec_sub (sd, p, q) m =
     (case m sd p of None \<Rightarrow> m | Some old \<Rightarrow> set_size sd p (if old = q then None else Some (old - q)) m)"

definition empty_map :: book_map where "empty_map = (\<lambda>sd p. None)"

text \<open>The abstract state: no book before the first snapshot.\<close>

definition spec_event :: "l2_event \<Rightarrow> book_map option \<Rightarrow> book_map option" where
  "spec_event e m =
     (if update_type e = ''SNAPSHOT'' then Some (fold spec_add (orders e) empty_map)
      else map_option (fold (if update_type e = ''ADD'' then spec_add
                             else if update_type e = ''SET'' then spec_set else spec_sub) (orders e)) m)"

definition view :: "'b book_ops \<Rightarrow> 'b l2_state \<Rightarrow> book_map option" where
  "view ops s = (if inited s then Some (size_at ops (order_book s)) else None)"

definition known_update :: "l2_event \<Rightarrow> bool" where
  "known_update e = (update_type e \<in> {''SNAPSHOT'', ''ADD'', ''SET'', ''SUB''})"

lemma law_new: "book_laws ops \<Longrightarrow> size_at ops (new_book ops) = empty_map"
  by (simp add: book_laws_def empty_map_def fun_eq_iff)

lemma law_put: "book_laws ops \<Longrightarrow> size_at ops (put_level ops sd p q b) = set_size sd p (Some q) (size_at ops b)"
  by (auto simp: book_laws_def set_size_def fun_eq_iff)

lemma law_del: "book_laws ops \<Longrightarrow> size_at ops (del_level ops sd p b) = set_size sd p None (size_at ops b)"
  by (auto simp: book_laws_def set_size_def fun_eq_iff)

lemma law_levels: "book_laws ops \<Longrightarrow> distinct (map fst (levels ops b sd)) \<and> map_of (levels ops b sd) = size_at ops b sd"
  by (simp add: book_laws_def fun_eq_iff)

lemma set_size_again [simp]: "set_size sd p q (set_size sd p q' m) = set_size sd p q m"
  by (simp add: set_size_def)

lemma set_size_same [simp]: "set_size sd p q m sd p = q"
  by (simp add: set_size_def)

lemma add_order_view: "book_laws ops \<Longrightarrow> size_at ops (add_order ops o' b) = spec_add o' (size_at ops b)"
  by (cases o') (simp add: add_order_def law_put split: option.split)

lemma drop_if_zero_view:
  "book_laws ops \<Longrightarrow> size_at ops (drop_if_zero ops sd p (put_level ops sd p q b)) =
   set_size sd p (if q = 0 then None else Some q) (size_at ops b)"
  by (simp add: drop_if_zero_def law_put law_del)

lemma set_order_view: "book_laws ops \<Longrightarrow> size_at ops (set_order ops o' b) = spec_set o' (size_at ops b)"
  by (cases o') (simp add: set_order_def drop_if_zero_view)

lemma sub_order_view: "book_laws ops \<Longrightarrow> size_at ops (fst (sub_order ops o' (b, n))) = spec_sub o' (size_at ops b)"
  by (cases o') (simp add: sub_order_def drop_if_zero_view split: option.split)

lemma fold_view:
  "(\<And>x b. size_at ops (f x b) = g x (size_at ops b)) \<Longrightarrow>
   size_at ops (fold f xs b) = fold g xs (size_at ops b)"
  by (induction xs arbitrary: b) simp_all

lemma fold_sub_view:
  "book_laws ops \<Longrightarrow> size_at ops (fst (fold (sub_order ops) xs (b, n))) = fold spec_sub xs (size_at ops b)"
proof (induction xs arbitrary: b n)
  case (Cons x xs)
  obtain b' n' where "sub_order ops x (b, n) = (b', n')" by (cases "sub_order ops x (b, n)")
  with Cons sub_order_view [OF Cons.prems, of x b n] show ?case by simp
qed simp

lemma update_refines:
  assumes "book_laws ops" "known_update e"
  shows "\<exists>s' skip. cryptotick_update_state ops s e = Inr (s', skip) \<and> view ops s' = spec_event e (view ops s)"
proof -
  note views = fold_view [where f = "add_order ops" and g = spec_add] fold_view [where f = "set_order ops" and g = spec_set]
  show ?thesis
    using assms
    by (auto simp: cryptotick_update_state_def known_update_def spec_event_def view_def Let_def law_new
        fold_sub_view views add_order_view set_order_view)
qed

text \<open>The run of a stream that only keeps the book.\<close>

definition run_updates :: "'b book_ops \<Rightarrow> l2_event list \<Rightarrow> 'b l2_state \<Rightarrow> 'b l2_state pyres" where
  "run_updates ops events s =
     foldE (\<lambda>e s. bindE (cryptotick_update_state ops s e) (\<lambda>(s', _). Inr s')) events s"

text \<open>C6. Updates of the four known kinds never raise, and the book they leave is the one of two
  finite maps under the obvious updates: nothing before the first snapshot, each snapshot from
  scratch, ADD adds to what is there, SET replaces and a zero removes, SUB subtracts and removes
  the level when nothing is left.\<close>

theorem book_refines_maps:
  assumes "book_laws ops" "list_all known_update events"
  shows "\<exists>s'. run_updates ops events s = Inr s' \<and> view ops s' = fold spec_event events (view ops s)"
  using assms(2)
proof (induction events arbitrary: s)
  case Nil
  then show ?case by (simp add: run_updates_def)
next
  case (Cons e events)
  from Cons.prems update_refines [OF assms(1), of e s] obtain s1 skip where
    s1: "cryptotick_update_state ops s e = Inr (s1, skip)" "view ops s1 = spec_event e (view ops s)" by auto
  from Cons.IH [of s1] Cons.prems obtain s' where
    "run_updates ops events s1 = Inr s'" "view ops s' = fold spec_event events (view ops s1)" by auto
  with s1 show ?case by (simp add: run_updates_def)
qed

text \<open>A book on association lists, for evaluation.\<close>

definition list_book :: "((rat, rat) dict \<times> (rat, rat) dict) book_ops" where
  "list_book = \<lparr>new_book = ([], []),
     size_at = (\<lambda>b sd p. map_of (if sd = Bid then fst b else snd b) p),
     put_level = (\<lambda>sd p q b. if sd = Bid then (dict_put p q (fst b), snd b) else (fst b, dict_put p q (snd b))),
     del_level = (\<lambda>sd p b. if sd = Bid then (AList.delete p (fst b), snd b) else (fst b, AList.delete p (snd b))),
     levels = (\<lambda>b sd. AList.clearjunk (if sd = Bid then fst b else snd b))\<rparr>"

lemma list_book_laws: "book_laws list_book"
  by (auto simp: book_laws_def list_book_def map_of_clearjunk distinct_clearjunk) (metis BookSide.exhaust)+

definition sample_snapshot :: l2_event where
  "sample_snapshot = \<lparr>l2_ts = 1, l2_receipt_ts = 1, update_type = ''SNAPSHOT'', orders = [(Bid, 9, 2), (Bid, 8, 1), (Ask, 10, 3)]\<rparr>"

definition sample_sub :: l2_event where
  "sample_sub = \<lparr>l2_ts = 2, l2_receipt_ts = 2, update_type = ''SUB'', orders = [(Bid, 9, 2), (Ask, 7, 1)]\<rparr>"

theorem book_refines_maps_witness:
  "\<exists>s'. run_updates list_book [sample_sub, sample_snapshot, sample_sub] (init_l2 list_book) = Inr s' \<and>
    view list_book s' = fold spec_event [sample_sub, sample_snapshot, sample_sub] (view list_book (init_l2 list_book))"
  by (rule book_refines_maps [OF list_book_laws]) (simp add: known_update_def sample_sub_def sample_snapshot_def)

section \<open>Restoring a book from its snapshot\<close>

text \<open>The update that the rows prepended by \<open>prepend_snap\<close> make when they are read back.\<close>

definition snapshot_event :: "rat \<Rightarrow> rat \<Rightarrow> snapshot \<Rightarrow> l2_event" where
  "snapshot_event ts receipt_ts snap =
     \<lparr>l2_ts = ts, l2_receipt_ts = receipt_ts, update_type = ''SNAPSHOT'',
      orders = map (\<lambda>(p, q). (Bid, p, q)) (bids snap) @ map (\<lambda>(p, q). (Ask, p, q)) (asks snap)\<rparr>"

lemma level_at_levels:
  assumes "book_laws ops" "i < length (levels ops b sd)"
  shows "level_at ops b sd i = Inr (levels ops b sd ! i)"
proof -
  have "map_of (levels ops b sd) (fst (levels ops b sd ! i)) = Some (snd (levels ops b sd ! i))"
    using law_levels [OF assms(1), of b sd] assms(2) by (intro map_of_is_SomeI) simp_all
  then show ?thesis using law_levels [OF assms(1), of b sd] by (simp add: level_at_def Let_def)
qed

lemma mapE_levels:
  assumes "book_laws ops" "d \<le> length (levels ops b sd)"
  shows "mapE (level_at ops b sd) [0..<d] = Inr (take d (levels ops b sd))"
  using assms by (auto simp: mapE_Inr_iff list_all2_conv_all_nth level_at_levels)

lemma snapshot_levels:
  assumes "book_laws ops"
  shows "state_snapshot ops s depth = Inr \<lparr>snap_ts = timestamp s, snap_receipt_ts = receipt_timestamp s,
    bids = take (snapshot_depth ops (order_book s) depth) (levels ops (order_book s) Bid),
    asks = take (snapshot_depth ops (order_book s) depth) (levels ops (order_book s) Ask)\<rparr>"
proof -
  have "snapshot_depth ops (order_book s) depth \<le> length (levels ops (order_book s) sd)" for sd
    by (cases sd) (auto simp: snapshot_depth_def Let_def)
  then show ?thesis by (simp add: state_snapshot_def Let_def mapE_levels [OF assms])
qed

lemma fold_spec_add_fresh:
  assumes "distinct (map fst l)" "\<forall>p\<in>fst ` set l. m sd p = None"
  shows "fold spec_add (map (\<lambda>(p, q). (sd, p, q)) l) m = m(sd := m sd ++ map_of l)"
  using assms
proof (induction l arbitrary: m)
  case (Cons x l)
  obtain p q where x: "x = (p, q)" by (cases x)
  let ?m = "set_size sd p (Some q) m"
  have "spec_add (sd, p, q) m = ?m" using Cons.prems x by simp
  moreover have "\<forall>p\<in>fst ` set l. ?m sd p = None" using Cons.prems x by (auto simp: set_size_def)
  then have "fold spec_add (map (\<lambda>(p, q). (sd, p, q)) l) ?m = ?m(sd := ?m sd ++ map_of l)"
    using Cons.prems(1) by (intro Cons.IH) simp_all
  ultimately have "fold spec_add (map (\<lambda>(p, q). (sd, p, q)) (x # l)) m = ?m(sd := ?m sd ++ map_of l)"
    using x by (simp only: list.map fold_simps prod.case)
  also have "\<dots> = m(sd := m sd ++ map_of (x # l))"
    using Cons.prems x by (auto simp: set_size_def map_add_def fun_eq_iff image_iff dest!: map_of_SomeD split: option.split)
  finally show ?case .
qed simp

lemma map_of_take:
  "distinct (map fst l) \<Longrightarrow> map_of (take d l) p = (if p \<in> fst ` set (take d l) then map_of l p else None)"
proof (induction l arbitrary: d)
  case (Cons x l)
  then show ?case by (cases d) (auto simp: map_of_eq_None_iff dest: in_set_takeD)
qed simp


lemma two_sided_snapshot:
  "state_snapshot list_book ((init_l2 list_book)\<lparr>order_book := ([(9, 2), (8, 1)], [(10, 3), (11, 4)])\<rparr>) 5 =
   Inr \<lparr>snap_ts = - 1, snap_receipt_ts = - 1, bids = [(9, 2), (8, 1)], asks = [(10, 3), (11, 4)]\<rparr>"
  by code_simp


text \<open>A book with more levels on one side loses them: the deeper bid is gone, and a later SUB of
  its price finds no level.\<close>

lemma unbalanced_book_loses_levels:
  "bindE (state_snapshot list_book ((init_l2 list_book)\<lparr>order_book := ([(9, 2), (8, 1)], [(10, 3)])\<rparr>) 5000) (\<lambda>snap.
   bindE (cryptotick_update_state list_book (init_l2 list_book) (snapshot_event 5 5 snap)) (\<lambda>(s, _).
     Inr (order_book s, snd (sub_order list_book (Bid, 8, 1) (order_book s, 0))))) = Inr (([(9, 2)], [(10, 3)]), 1)"
  by code_simp

section \<open>Splitting a day of updates\<close>

record l2_row =
  row_ts :: rat
  row_receipt_ts :: rat
  row_update_type :: string
  row_side :: BookSide
  row_price :: rat
  row_size :: rat

text \<open>\<open>preprocess_impl\<close>: \<open>grouped\<close> is pandas' grouping by timestamp and update type, each group
  one event; the groups are sorted, stably, by timestamp.\<close>

definition event_of_group :: "l2_row list \<Rightarrow> l2_event pyres" where
  "event_of_group df =
     bindE (py_nth df 0) (\<lambda>first.
       Inr \<lparr>l2_ts = row_ts first, l2_receipt_ts = row_receipt_ts first, update_type = row_update_type first,
            orders = map (\<lambda>v. (row_side v, row_price v, row_size v)) df\<rparr>)"

definition preprocess_l2 :: "(l2_row list \<Rightarrow> l2_row list list) \<Rightarrow> l2_row list \<Rightarrow> l2_event list pyres" where
  "preprocess_l2 grouped df = mapE event_of_group (sort_key (\<lambda>g. row_ts (hd g)) (grouped df))"

definition run_l2_snapshot_stream ::
    "'b book_ops \<Rightarrow> (l2_row list \<Rightarrow> l2_row list list) \<Rightarrow> l2_row list \<Rightarrow> snapshot pyres" where
  "run_l2_snapshot_stream ops grouped df =
     bindE (preprocess_l2 grouped df) (\<lambda>events.
     bindE (df_to_events l2_ts events) (\<lambda>events.
     bindE (run_stream (l2_update_state ops 5000 ''skip_all'' (Some ''cryptotick'')) (init_l2 ops) (map Tick events)) (\<lambda>(s, _).
       state_snapshot ops s 5000)))"

definition snap_rows :: "rat \<Rightarrow> rat \<Rightarrow> BookSide \<Rightarrow> (rat \<times> rat) list \<Rightarrow> l2_row list" where
  "snap_rows ts receipt_ts sd lvls =
     map (\<lambda>(p, q). \<lparr>row_ts = ts, row_receipt_ts = receipt_ts, row_update_type = ''SNAPSHOT'',
                       row_side = sd, row_price = p, row_size = q\<rparr>) lvls"

definition prepend_snap :: "l2_row list \<Rightarrow> snapshot \<Rightarrow> l2_row list pyres" where
  "prepend_snap df snap =
     (let ts = snap_ts snap + 1 / 1000000; receipt_ts = snap_receipt_ts snap + 1 / 1000000 in
      bindE (py_nth df 0) (\<lambda>first.
        if ts \<ge> row_ts first \<or> receipt_ts \<ge> row_receipt_ts first then Inl ValueError
        else Inr (concat_dfs [concat_dfs [snap_rows ts receipt_ts Bid (bids snap), snap_rows ts receipt_ts Ask (asks snap)], df])))"

definition pad_split ::
    "'b book_ops \<Rightarrow> (l2_row list \<Rightarrow> l2_row list list) \<Rightarrow> l2_row list \<Rightarrow> l2_row list list \<times> snapshot option
     \<Rightarrow> (l2_row list list \<times> snapshot option) pyres" where
  "pad_split ops grouped split s = (let (out, prev_snap) = s in
     bindE (case prev_snap of None \<Rightarrow> Inr split | Some snap \<Rightarrow> prepend_snap split snap) (\<lambda>split.
     bindE (run_l2_snapshot_stream ops grouped split) (\<lambda>snap. Inr (out @ [split], Some snap))))"

text \<open>The function has a \<open>yield\<close>, so it is a generator and its \<open>return [processed_df]\<close> on a
  negative size ends it without an item.\<close>

definition gen_split_l2_inc_df_and_pad_with_snapshot ::
    "'b book_ops \<Rightarrow> (l2_row list \<Rightarrow> l2_row list list) \<Rightarrow> (l2_row list \<Rightarrow> int) \<Rightarrow> l2_row list \<Rightarrow> int
     \<Rightarrow> l2_row list list pyres option" where
  "gen_split_l2_inc_df_and_pad_with_snapshot ops grouped mem processed_df split_size_kb =
     (if split_size_kb < 0 then Some (Inr [])
      else map_option (\<lambda>gen. bindE gen (\<lambda>splits.
             bindE (foldE (pad_split ops grouped) splits ([], None)) (\<lambda>(out, _). Inr out)))
           (gen_split_df_by_mem row_ts mem processed_df split_size_kb))"

definition get_snapshot_ts :: "l2_row list \<Rightarrow> rat list option" where
  "get_snapshot_ts df =
     (let snaps = filter (\<lambda>r. row_update_type r = ''SNAPSHOT'') df in
      if length snaps = 0 then None else Some (map round_float (remdups (map row_ts snaps))))"

definition starts_with_snapshot :: "l2_row list \<Rightarrow> bool" where
  "starts_with_snapshot df = (if length df = 0 then False else row_update_type (df ! 0) = ''SNAPSHOT'')"

definition remove_snap :: "l2_row list \<Rightarrow> l2_row list" where
  "remove_snap df = filter (\<lambda>r. row_update_type r \<noteq> ''SNAPSHOT'') df"

definition get_snapshot_depth :: "l2_row list \<Rightarrow> nat \<times> nat" where
  "get_snapshot_depth df =
     (length (filter (\<lambda>r. row_update_type r = ''SNAPSHOT'' \<and> row_side r = Bid) df),
      length (filter (\<lambda>r. row_update_type r = ''SNAPSHOT'' \<and> row_side r = Ask) df))"

text \<open>Prepending keeps the frame sorted, and removing the snapshot gives back a split without one.\<close>

lemma prepend_snap_rows:
  assumes "prepend_snap df snap = Inr df'" "is_ts_sorted row_ts df"
  shows "is_ts_sorted row_ts df'" "remove_snap df' = remove_snap df"
    "get_snapshot_depth df' = (length (bids snap) + fst (get_snapshot_depth df), length (asks snap) + snd (get_snapshot_depth df))"
proof -
  let ?t = "snap_ts snap + 1 / 1000000" and ?r = "snap_receipt_ts snap + 1 / 1000000"
  from assms(1) obtain first rest where df: "df = first # rest" "?t < row_ts first"
    "df' = snap_rows ?t ?r Bid (bids snap) @ snap_rows ?t ?r Ask (asks snap) @ df"
    by (cases df) (auto simp: prepend_snap_def py_nth_def concat_dfs_def Let_def split: if_splits)
  have ts: "map row_ts (snap_rows t r sd l) = replicate (length l) t" for t r sd l
    by (induction l) (auto simp: snap_rows_def)
  have snap: "filter (\<lambda>x. row_update_type x \<noteq> ''SNAPSHOT'') (snap_rows t r sd l) = []" for t r sd l
    by (auto simp: snap_rows_def filter_empty_conv)
  have depth: "length (filter (\<lambda>x. row_update_type x = ''SNAPSHOT'' \<and> row_side x = sd') (snap_rows t r sd l)) =
      (if sd = sd' then length l else 0)" for t r sd sd' l
  proof -
    have "filter (\<lambda>x. row_update_type x = ''SNAPSHOT'' \<and> row_side x = sd') (snap_rows t r sd l) =
        (if sd = sd' then snap_rows t r sd l else [])"
      by (simp add: filter_id_conv filter_empty_conv) (auto simp: snap_rows_def)
    then show ?thesis by (simp add: snap_rows_def)
  qed
  show "is_ts_sorted row_ts df'"
    using assms(2) df by (auto simp: is_ts_sorted_def ts sorted_append)
  show "remove_snap df' = remove_snap df" using df(3) snap by (simp add: remove_snap_def)
  show "get_snapshot_depth df' = (length (bids snap) + fst (get_snapshot_depth df), length (asks snap) + snd (get_snapshot_depth df))"
    using df(3) depth by (simp add: get_snapshot_depth_def)
qed

lemma prepended_keeps_updates:
  assumes "prepend_snap d snap = Inr d'"
  shows "remove_snap d' = remove_snap d"
proof -
  from assms have "d' = snap_rows (snap_ts snap + 1 / 1000000) (snap_receipt_ts snap + 1 / 1000000) Bid (bids snap) @
      snap_rows (snap_ts snap + 1 / 1000000) (snap_receipt_ts snap + 1 / 1000000) Ask (asks snap) @ d"
    by (auto simp: prepend_snap_def concat_dfs_def Let_def split: if_splits)
  moreover have "filter (\<lambda>x. row_update_type x \<noteq> ''SNAPSHOT'') (snap_rows t r sd l) = []" for t r sd l
    by (auto simp: snap_rows_def filter_empty_conv)
  ultimately show ?thesis by (simp add: remove_snap_def)
qed

text \<open>Every piece after the first is its split with the snapshot of the piece before it.\<close>

definition linked :: "'b book_ops \<Rightarrow> (l2_row list \<Rightarrow> l2_row list list) \<Rightarrow> l2_row list list \<Rightarrow> l2_row list list \<Rightarrow> bool" where
  "linked ops grouped out splits \<longleftrightarrow> (\<forall>i<length out - 1. \<exists>snap. run_l2_snapshot_stream ops grouped (out ! i) = Inr snap \<and>
     prepend_snap (splits ! Suc i) snap = Inr (out ! Suc i))"

lemma linked_snoc:
  assumes "linked ops grouped out0 pre" "length out0 = length pre"
    "out0 \<noteq> [] \<Longrightarrow> \<exists>snap. run_l2_snapshot_stream ops grouped (last out0) = Inr snap \<and> prepend_snap split snap = Inr split'"
  shows "linked ops grouped (out0 @ [split']) (pre @ [split])"
  unfolding linked_def
proof (intro allI impI)
  fix i
  assume i: "i < length (out0 @ [split']) - 1"
  show "\<exists>snap. run_l2_snapshot_stream ops grouped ((out0 @ [split']) ! i) = Inr snap \<and>
      prepend_snap ((pre @ [split]) ! Suc i) snap = Inr ((out0 @ [split']) ! Suc i)"
  proof (cases "Suc i < length out0")
    case True
    then show ?thesis using assms(1,2) by (simp add: linked_def nth_append)
  next
    case False
    with i have "Suc i = length out0" "out0 \<noteq> []" by auto
    moreover from this have "last out0 = out0 ! i" by (metis diff_Suc_1 last_conv_nth)
    ultimately show ?thesis using assms(2,3) by (auto simp: nth_append)
  qed
qed

lemma pad_splits_link:
  assumes "foldE (pad_split ops grouped) todo (out0, prev) = Inr (out, prev')" "length out0 = length pre"
    "map remove_snap out0 = map remove_snap pre" "linked ops grouped out0 pre"
    "if out0 = [] then prev = None else \<exists>snap. prev = Some snap \<and> run_l2_snapshot_stream ops grouped (last out0) = Inr snap"
  shows "length out = length pre + length todo \<and> map remove_snap out = map remove_snap (pre @ todo) \<and>
    linked ops grouped out (pre @ todo)"
  using assms
proof (induction todo arbitrary: pre out0 prev)
  case (Cons split todo)
  from Cons.prems(1) obtain split' snap where
    split': "(case prev of None \<Rightarrow> Inr split | Some snap \<Rightarrow> prepend_snap split snap) = Inr split'"
    and snap: "run_l2_snapshot_stream ops grouped split' = Inr snap"
    and rest: "foldE (pad_split ops grouped) todo (out0 @ [split'], Some snap) = Inr (out, prev')"
    by (auto simp: pad_split_def [of ops grouped split])
  have "remove_snap split' = remove_snap split" using split' prepended_keeps_updates by (auto split: option.splits)
  moreover have "linked ops grouped (out0 @ [split']) (pre @ [split])"
    using Cons.prems(2,4,5) split' by (intro linked_snoc) auto
  ultimately show ?case using Cons.IH [OF rest, of "pre @ [split]"] Cons.prems(2,3) snap by simp
qed simp


text \<open>A day of three rows: a snapshot of two and an update a second later.\<close>

definition day_row :: "rat \<Rightarrow> string \<Rightarrow> BookSide \<Rightarrow> rat \<Rightarrow> l2_row" where
  "day_row t u sd p = \<lparr>row_ts = t, row_receipt_ts = t, row_update_type = u, row_side = sd, row_price = p, row_size = 2\<rparr>"

definition sample_day :: "l2_row list" where
  "sample_day = [day_row 1 ''SNAPSHOT'' Bid 9, day_row 1 ''SNAPSHOT'' Ask 10, day_row 2 ''ADD'' Bid 8]"

definition by_timestamp :: "l2_row list \<Rightarrow> l2_row list list" where
  "by_timestamp df = map (\<lambda>t. filter (\<lambda>r. row_ts r = t) df) (remdups (map row_ts df))"

definition sample_padded :: "l2_row list list" where
  "sample_padded = [take 2 sample_day,
     [day_row (1 + 1 / 1000000) ''SNAPSHOT'' Bid 9, day_row (1 + 1 / 1000000) ''SNAPSHOT'' Ask 10, day_row 2 ''ADD'' Bid 8]]"


text \<open>A negative size, meant to give the whole frame, gives nothing.\<close>

lemma negative_size_yields_nothing:
  "size_kb < 0 \<Longrightarrow> gen_split_l2_inc_df_and_pad_with_snapshot ops grouped mem df size_kb = Some (Inr [])"
  by (simp add: gen_split_l2_inc_df_and_pad_with_snapshot_def)

section \<open>Grouping blocks between snapshots\<close>

text \<open>The metadata of a block lists the timestamps of its snapshots, when it has any.\<close>

record 'd grouping =
  grouped_blocks :: 'd
  group_start :: "rat option"
  found_snapshot :: bool
  cur_ranges :: "rat list option BlockMeta list"

definition group_block ::
    "('d, 'key, rat list option BlockMeta list) idict_ops \<Rightarrow> rat list option BlockMeta \<Rightarrow> 'd grouping \<Rightarrow> 'd grouping pyres" where
  "group_block ops r g =
     (let g1 = (if block_info r \<noteq> None then g\<lparr>found_snapshot := True\<rparr> else g);
          g2 = (if found_snapshot g1 then g1\<lparr>cur_ranges := cur_ranges g1 @ [r]\<rparr> else g1)
      in case block_info r of
           None \<Rightarrow> Inr g2
         | Some snapshot_ts \<Rightarrow>
             bindE (py_nth snapshot_ts 0) (\<lambda>ts.
               case group_start g2 of
                 None \<Rightarrow> Inr (g2\<lparr>group_start := Some ts\<rparr>)
               | Some start \<Rightarrow>
                   Inr (g2\<lparr>grouped_blocks := idict_set ops (closed_ivl (round_float start) (round_float ts)) (cur_ranges g2) (grouped_blocks g2),
                          group_start := Some ts, cur_ranges := [r]\<rparr>)))"

definition l2_group_dep_ranges ::
    "('d, 'key, rat list option BlockMeta list) idict_ops \<Rightarrow> (Interval \<Rightarrow> 'd \<Rightarrow> bool)
     \<Rightarrow> rat list option BlockMeta list \<Rightarrow> 'd pyres" where
  "l2_group_dep_ranges ops idict_in ranges =
     bindE (foldE (group_block ops) ranges
        \<lparr>grouped_blocks = idict_empty ops, group_start = None, found_snapshot = False, cur_ranges = []\<rparr>) (\<lambda>g.
     if \<not> found_snapshot g then Inr (grouped_blocks g)
     else bindE (py_last ranges) (\<lambda>final.
       case group_start g of
         None \<Rightarrow> Inl TypeError
       | Some start \<Rightarrow>
           let interval = closed_ivl (round_float start) (round_float (end_ts final)) in
           Inr (if length (cur_ranges g) \<noteq> 0 \<and> \<not> idict_in interval (grouped_blocks g)
                then idict_set ops interval (cur_ranges g) (grouped_blocks g) else grouped_blocks g)))"

text \<open>Without a snapshot in any block there is nothing to group, and every group starts with a
  block that has a snapshot.\<close>

lemma group_block_inv:
  assumes "group_block ops r g = Inr g'"
    "found_snapshot g \<longleftrightarrow> cur_ranges g \<noteq> []" "cur_ranges g \<noteq> [] \<longrightarrow> block_info (hd (cur_ranges g)) \<noteq> None"
    "group_start g \<noteq> None \<longleftrightarrow> found_snapshot g"
  shows "found_snapshot g' \<longleftrightarrow> cur_ranges g' \<noteq> []" "cur_ranges g' \<noteq> [] \<longrightarrow> block_info (hd (cur_ranges g')) \<noteq> None"
    "group_start g' \<noteq> None \<longleftrightarrow> found_snapshot g'"
  using assms by (auto simp: group_block_def Let_def hd_append split: option.splits if_splits)

end
