(* ===== verification/TradeFeatures.thy ===== *)
theory TradeFeatures
  imports EventStreams Blocks
begin

text \<open>
  The feature definitions over trades and prices, featurizer/features/definitions: candles
  (ohlcv_fd), trade volume imbalance (trade_volume_imb_fd), mid price, relative spread,
  volatility and percentage difference. Each is the step function it hands to its stream.
\<close>

section \<open>Candles\<close>

definition ohlcv_schema :: "string list" where
  "ohlcv_schema = [''timestamp'', ''receipt_timestamp'', ''open'', ''high'', ''low'', ''close'', ''volume'', ''vwap'', ''num_trades'']"

record ohlcv_state =
  last_ts :: "rat option"
  ohlcv :: "event option"
  ohlcv_start_ts :: "rat option"

definition init_ohlcv :: ohlcv_state where
  "init_ohlcv = \<lparr>last_ts = None, ohlcv = None, ohlcv_start_ts = None\<rparr>"

definition value_len :: "event_value \<Rightarrow> rat pyres" where
  "value_len v = (case v of Num q \<Rightarrow> Inl TypeError | Txt s \<Rightarrow> Inr (of_nat (length s)) | Seq vs \<Rightarrow> Inr (of_nat (length vs)))"

text \<open>A price or amount of the event enters arithmetic and comparisons as a number.\<close>

definition update_candle :: "event \<Rightarrow> rat \<Rightarrow> rat \<Rightarrow> event \<Rightarrow> event pyres" where
  "update_candle event price amount c0 =
     (let c1 = dict_put ''close'' (Num price) c0 in
      bindE (num_at ''volume'' c1) (\<lambda>vol.
      let c2 = dict_put ''volume'' (Num (vol + amount)) c1 in
      bindE (num_at ''high'' c2) (\<lambda>high.
      let c3 = (if price > high then dict_put ''high'' (Num price) c2 else c2) in
      bindE (num_at ''low'' c3) (\<lambda>low.
      let c4 = (if price < low then dict_put ''low'' (Num price) c3 else c3) in
      bindE (num_at ''vwap'' c4) (\<lambda>vwap.
      let c5 = dict_put ''vwap'' (Num (vwap + price * amount)) c4 in
      bindE (num_at ''num_trades'' c5) (\<lambda>n.
      bindE (dict_lookup event ''trades'') (\<lambda>trades.
      bindE (value_len trades) (\<lambda>k.
        Inr (dict_put ''num_trades'' (Num (n + k)) c5)))))))))"

definition emit_candle :: "event \<Rightarrow> event pyres" where
  "emit_candle c =
     bindE (num_at ''vwap'' c) (\<lambda>vwap.
     bindE (num_at ''volume'' c) (\<lambda>vol.
       if vol = 0 then Inl ZeroDivisionError
       else let c' = dict_put ''vwap'' (Num (vwap / vol)) c in
         bindE (mapE (dict_lookup c') ohlcv_schema) (\<lambda>args. Inr (construct_event ohlcv_schema args))))"

definition ohlcv_update_state ::
    "(rat \<Rightarrow> rat) \<Rightarrow> string \<Rightarrow> ohlcv_state \<Rightarrow> event \<Rightarrow> (ohlcv_state \<times> event option) pyres" where
  "ohlcv_update_state day_start window s event =
     bindE (num_at ''timestamp'' event) (\<lambda>timestamp.
     bindE (num_at ''receipt_timestamp'' event) (\<lambda>receipt_timestamp.
     bindE (case ohlcv_start_ts s of
         None \<Rightarrow> bindE (get_sampling_bucket_ts day_start timestamp window False)
                   (\<lambda>b. Inr (s\<lparr>ohlcv_start_ts := Some b\<rparr>, b))
       | Some b \<Rightarrow> Inr (s, b)) (\<lambda>(s, start).
     if timestamp < start then Inr (s, None)
     else
       bindE (dict_lookup event ''side'') (\<lambda>side.
       bindE (num_at ''amount'' event) (\<lambda>amount.
       bindE (num_at ''price'' event) (\<lambda>price.
       bindE (dict_lookup event ''trade_id'') (\<lambda>trade_id.
       let c0 = (case ohlcv s of Some c \<Rightarrow> c
              | None \<Rightarrow> zip ohlcv_schema [Num timestamp, Num receipt_timestamp, Num price, Num price, Num price, Num price, Num 0, Num 0, Num 0]);
           last = (case last_ts s of Some l \<Rightarrow> l | None \<Rightarrow> timestamp)
       in bindE (update_candle event price amount c0) (\<lambda>c.
          bindE (convert_str_to_seconds window) (\<lambda>w.
            if timestamp - last > w then
              bindE (emit_candle c) (\<lambda>out. Inr (s\<lparr>last_ts := Some timestamp, ohlcv := None\<rparr>, Some out))
            else Inr (s\<lparr>last_ts := Some last, ohlcv := Some c\<rparr>, None))))))))))"

definition ohlcv_stream :: "(rat \<Rightarrow> rat) \<Rightarrow> string \<Rightarrow> event list \<Rightarrow> event list pyres" where
  "ohlcv_stream day_start window events =
     bindE (run_stream (ohlcv_update_state day_start window) init_ohlcv events) (\<lambda>(_, outs). Inr (filter_none outs))"

text \<open>The rows of \<open>TradesData\<close> have no \<open>trade_id\<close>: the first trade after the start raises.\<close>

lemma trades_rows_raise:
  assumes "ohlcv_start_ts s = Some b" "map_of e ''timestamp'' = Some (Num t)" "b \<le> t"
    "map_of e ''receipt_timestamp'' = Some (Num r)" "map_of e ''side'' = Some sd"
    "map_of e ''amount'' = Some (Num a)" "map_of e ''price'' = Some (Num p)" "map_of e ''trade_id'' = None"
  shows "ohlcv_update_state day_start window s e = Inl KeyError"
  using assms by (simp add: ohlcv_update_state_def num_at_def dict_lookup_def)

text \<open>A candle in progress, as the dictionary the code keeps.\<close>

definition candle :: "rat \<Rightarrow> rat \<Rightarrow> rat \<Rightarrow> rat \<Rightarrow> rat \<Rightarrow> rat \<Rightarrow> rat \<Rightarrow> rat \<Rightarrow> rat \<Rightarrow> event" where
  "candle t r op hi lo cl vol vwap n =
     zip ohlcv_schema [Num t, Num r, Num op, Num hi, Num lo, Num cl, Num vol, Num vwap, Num n]"

text \<open>Open and close within low and high, and the sum of the traded values within what the
  volume is worth at the low and at the high.\<close>

definition candle_ok :: "event \<Rightarrow> bool" where
  "candle_ok c \<longleftrightarrow> (\<exists>t r op hi lo cl vol vwap n. c = candle t r op hi lo cl vol vwap n \<and>
     lo \<le> op \<and> op \<le> hi \<and> lo \<le> cl \<and> cl \<le> hi \<and> 0 < vol \<and> lo * vol \<le> vwap \<and> vwap \<le> hi * vol)"

definition candle_closed :: "event \<Rightarrow> bool" where
  "candle_closed c \<longleftrightarrow> (\<exists>t r op hi lo cl vol vwap n. c = candle t r op hi lo cl vol vwap n \<and>
     lo \<le> op \<and> op \<le> hi \<and> lo \<le> cl \<and> cl \<le> hi \<and> 0 < vol \<and> lo \<le> vwap \<and> vwap \<le> hi)"

lemma candle_update:
  assumes "map_of event ''trades'' = Some (Seq ts)"
  shows "update_candle event p a (candle t r op hi lo cl vol vwap n) =
    Inr (candle t r op (max hi p) (min lo p) p (vol + a) (vwap + p * a) (n + of_nat (length ts)))"
  using assms
  by (simp add: update_candle_def candle_def ohlcv_schema_def num_at_def dict_lookup_def value_len_def Let_def
      max_def min_def)

lemma candle_emit:
  assumes "vol \<noteq> 0"
  shows "emit_candle (candle t r op hi lo cl vol vwap n) = Inr (candle t r op hi lo cl vol (vwap / vol) n)"
  using assms
  by (simp add: emit_candle_def candle_def ohlcv_schema_def num_at_def dict_lookup_def Let_def construct_event_def)

definition candle_started :: "event \<Rightarrow> bool" where
  "candle_started c \<longleftrightarrow> (\<exists>t r op hi lo cl vol vwap n. c = candle t r op hi lo cl vol vwap n \<and>
     lo \<le> op \<and> op \<le> hi \<and> 0 \<le> vol \<and> lo * vol \<le> vwap \<and> vwap \<le> hi * vol)"

lemma candle_ok_started: "candle_ok c \<Longrightarrow> candle_started c"
  unfolding candle_ok_def candle_started_def by (metis less_imp_le)

lemma candle_step:
  assumes "candle_started c" "0 < a" "map_of event ''trades'' = Some (Seq ts)"
  shows "\<exists>c'. update_candle event p a c = Inr c' \<and> candle_ok c'"
proof -
  from assms(1) obtain t r op hi lo cl vol vwap n where c: "c = candle t r op hi lo cl vol vwap n"
    "lo \<le> op" "op \<le> hi" "0 \<le> vol" "lo * vol \<le> vwap" "vwap \<le> hi * vol"
    by (auto simp: candle_started_def)
  have "min lo p * (vol + a) \<le> vwap + p * a"
  proof -
    have "min lo p * vol \<le> lo * vol" "min lo p * a \<le> p * a"
      using c(4) assms(2) by (simp_all add: mult_right_mono)
    with c(5) show ?thesis by (simp add: distrib_left)
  qed
  moreover have "vwap + p * a \<le> max hi p * (vol + a)"
  proof -
    have "hi * vol \<le> max hi p * vol" "p * a \<le> max hi p * a"
      using c(4) assms(2) by (simp_all add: mult_right_mono)
    with c(6) show ?thesis by (simp add: distrib_left)
  qed
  ultimately have "candle_ok (candle t r op (max hi p) (min lo p) p (vol + a) (vwap + p * a) (n + of_nat (length ts)))"
    using c(2-4) assms(2) unfolding candle_ok_def
    by (intro exI conjI) (auto simp: min_le_iff_disj le_max_iff_disj)
  then show ?thesis using candle_update [OF assms(3)] c(1) by simp
qed

lemma candle_emits: "candle_ok c \<Longrightarrow> \<exists>c'. emit_candle c = Inr c' \<and> candle_closed c'"
proof -
  assume "candle_ok c"
  then obtain t r op hi lo cl vol vwap n where c: "c = candle t r op hi lo cl vol vwap n"
    "lo \<le> op" "op \<le> hi" "lo \<le> cl" "cl \<le> hi" "0 < vol" "lo * vol \<le> vwap" "vwap \<le> hi * vol"
    by (auto simp: candle_ok_def)
  then have "lo \<le> vwap / vol" "vwap / vol \<le> hi"
    by (simp_all add: pos_le_divide_eq pos_divide_le_eq)
  with c have "candle_closed (candle t r op hi lo cl vol (vwap / vol) n)"
    unfolding candle_closed_def by blast
  with c show ?thesis by (simp add: candle_emit)
qed

text \<open>An event with everything the candles read.\<close>

definition full_trade :: "event \<Rightarrow> bool" where
  "full_trade e \<longleftrightarrow> timed e \<and> (\<exists>r sd a p i ts. map_of e ''receipt_timestamp'' = Some (Num r) \<and>
     map_of e ''side'' = Some sd \<and> map_of e ''amount'' = Some (Num a) \<and> 0 < a \<and>
     map_of e ''price'' = Some (Num p) \<and> map_of e ''trade_id'' = Some i \<and> map_of e ''trades'' = Some (Seq ts))"

definition ohlcv_inv :: "ohlcv_state \<Rightarrow> bool" where
  "ohlcv_inv s = (case ohlcv s of None \<Rightarrow> True | Some c \<Rightarrow> candle_ok c)"

definition window_ok :: "string \<Rightarrow> bool" where
  "window_ok window \<longleftrightarrow> (\<exists>w. convert_str_to_seconds window = Inr w \<and> 1 / 1000 \<le> w \<and> w \<le> 86400)"

lemma ohlcv_step:
  assumes "ohlcv_inv s" "full_trade e" "window_ok window"
  shows "\<exists>s' out. ohlcv_update_state day_start window s e = Inr (s', out) \<and> ohlcv_inv s' \<and>
    (case out of None \<Rightarrow> True | Some c \<Rightarrow> candle_closed c)"
proof -
  from assms(3) obtain w where w: "convert_str_to_seconds window = Inr w" "1 / 1000 \<le> w" "w \<le> 86400"
    by (auto simp: window_ok_def)
  from assms(2) obtain r sd a p i ts where e: "num_at ''timestamp'' e = Inr (ts_of e)"
    "map_of e ''receipt_timestamp'' = Some (Num r)" "map_of e ''side'' = Some sd" "map_of e ''amount'' = Some (Num a)"
    "0 < a" "map_of e ''price'' = Some (Num p)" "map_of e ''trade_id'' = Some i" "map_of e ''trades'' = Some (Seq ts)"
    by (auto simp: full_trade_def)
  let ?c0 = "case ohlcv s of Some c \<Rightarrow> c | None \<Rightarrow>
      zip ohlcv_schema [Num (ts_of e), Num r, Num p, Num p, Num p, Num p, Num 0, Num 0, Num 0]"
  have "candle_started ?c0"
  proof (cases "ohlcv s")
    case None
    then have "?c0 = candle (ts_of e) r p p p p 0 0 0" by (simp add: candle_def)
    then show ?thesis unfolding candle_started_def by fastforce
  next
    case (Some c)
    then show ?thesis using assms(1) by (simp add: ohlcv_inv_def candle_ok_started)
  qed
  from candle_step [OF this e(5,8)] obtain c where c: "update_candle e p a ?c0 = Inr c" "candle_ok c" by blast
  from candle_emits [OF c(2)] obtain out where out: "emit_candle c = Inr out" "candle_closed out" by blast
  obtain b where b: "(case ohlcv_start_ts s of None \<Rightarrow> bindE (get_sampling_bucket_ts day_start (ts_of e) window False)
        (\<lambda>b. Inr (s\<lparr>ohlcv_start_ts := Some b\<rparr>, b)) | Some b \<Rightarrow> Inr (s, b)) = Inr (s\<lparr>ohlcv_start_ts := Some b\<rparr>, b)"
  proof (cases "ohlcv_start_ts s")
    case None
    then show ?thesis using w that by (simp add: get_sampling_bucket_ts_def Let_def)
  next
    case (Some b)
    then have "s\<lparr>ohlcv_start_ts := Some b\<rparr> = s" by simp
    then show ?thesis using Some that [of b] by simp
  qed
  show ?thesis
    using assms(1) e(1-4,6,7) w(1) b c out
    by (simp add: ohlcv_update_state_def num_at_def [of "''receipt_timestamp''"] num_at_def [of "''amount''"]
        num_at_def [of "''price''"] dict_lookup_def Let_def ohlcv_inv_def)
qed

interpretation candles: stateful_stream "ohlcv_update_state day_start window" ohlcv_inv
    "\<lambda>e. full_trade e \<and> window_ok window" candle_closed for day_start window
  by unfold_locales (blast intro: ohlcv_step)

text \<open>On trades that carry the fields the candles read and positive amounts, and a window
  between a millisecond and a day, the stream never raises and every candle it emits is well
  formed: open, close and the volume-weighted price lie between low and high.\<close>

theorem candles_are_well_formed:
  assumes "window_ok window" "list_all full_trade events"
  shows "\<exists>candles. ohlcv_stream day_start window events = Inr candles \<and> list_all candle_closed candles"
proof -
  have "ohlcv_inv init_ohlcv" by (simp add: ohlcv_inv_def init_ohlcv_def)
  moreover have "list_all (\<lambda>e. full_trade e \<and> window_ok window) events" using assms by (simp add: list_all_iff)
  ultimately show ?thesis using candles.runs [of init_ohlcv window events day_start] by (auto simp: ohlcv_stream_def)
qed

definition sample_trade :: "rat \<Rightarrow> rat \<Rightarrow> rat \<Rightarrow> event" where
  "sample_trade t p a = [(''timestamp'', Num t), (''receipt_timestamp'', Num t), (''side'', Txt ''BUY''),
     (''amount'', Num a), (''price'', Num p), (''trade_id'', Txt ''1''), (''trades'', Seq [])]"

theorem candles_are_well_formed_witness:
  "\<exists>candles. ohlcv_stream utc_day_start ''2s'' [sample_trade 1 10 1, sample_trade 2 11 2, sample_trade 5 9 1] = Inr candles \<and>
    list_all candle_closed candles"
proof (rule candles_are_well_formed)
  have "convert_str_to_seconds ''2s'' = Inr 2" by code_simp
  then show "window_ok ''2s''" by (simp add: window_ok_def)
  show "list_all full_trade [sample_trade 1 10 1, sample_trade 2 11 2, sample_trade 5 9 1]"
    by (simp add: sample_trade_def full_trade_def timed_def ts_of_def num_at_def dict_lookup_def)
qed

lemma candles_example:
  "ohlcv_stream utc_day_start ''2s'' [sample_trade 1 10 1, sample_trade 2 11 2, sample_trade 5 9 1] =
   Inr [candle 2 2 11 11 9 9 3 (31 / 3) 0]"
  by code_simp

section \<open>Grouping blocks by a fixed window\<close>

definition in_group :: "rat \<Rightarrow> rat \<Rightarrow> 'x BlockMeta \<Rightarrow> bool" where
  "in_group group_start group_end b \<longleftrightarrow>
     (group_start \<le> start_ts b \<and> start_ts b \<le> group_end \<and> group_start \<le> end_ts b \<and> end_ts b \<le> group_end) \<or>
     (start_ts b \<le> group_start \<and> group_start \<le> end_ts b) \<or> (start_ts b \<le> group_end \<and> group_end \<le> end_ts b)"

partial_function (option) fixed_window_loop ::
    "('d, 'key, 'x BlockMeta list) idict_ops \<Rightarrow> 'x BlockMeta list \<Rightarrow> rat \<Rightarrow> int \<Rightarrow> rat \<Rightarrow> rat \<Rightarrow> 'd \<Rightarrow> 'd option" where
  "fixed_window_loop ops ranges w num_grouped_windows last_end group_start res =
     (if group_start \<le> last_end then
        let group_end = group_start + of_int num_grouped_windows * w;
            group = filter (in_group group_start group_end) ranges
        in if length group \<noteq> 0 \<and> start_ts (hd group) \<le> group_start \<and> end_ts (last group) \<ge> group_end
           then fixed_window_loop ops ranges w num_grouped_windows last_end group_end
                  (idict_set ops (closed_ivl group_start group_end) group res)
           else fixed_window_loop ops ranges w num_grouped_windows last_end (group_start + w) res
      else Some res)"

definition group_by_fixed_window ::
    "(rat \<Rightarrow> rat) \<Rightarrow> ('d, 'key, 'x BlockMeta list) idict_ops \<Rightarrow> 'x BlockMeta list \<Rightarrow> string \<Rightarrow> int \<Rightarrow> 'd pyres option" where
  "group_by_fixed_window day_start ops ranges window num_grouped_windows =
     (case bindE (py_nth ranges 0) (\<lambda>first. bindE (py_last ranges) (\<lambda>final.
           bindE (get_sampling_bucket_ts day_start (start_ts first) window True) (\<lambda>g.
           bindE (convert_str_to_seconds window) (\<lambda>w. Inr (final, g, w))))) of
        Inl e \<Rightarrow> Some (Inl e)
      | Inr (final, g, w) \<Rightarrow>
          map_option Inr (fixed_window_loop ops ranges w num_grouped_windows (end_ts final) g (idict_empty ops)))"

lemma fixed_window_loop_ends:
  assumes "0 < w" "1 \<le> n"
  shows "\<exists>res'. fixed_window_loop ops ranges w n last_end g res = Some res'"
proof (induction "nat \<lceil>(last_end + w - g) / w\<rceil>" arbitrary: g res rule: less_induct)
  case less
  show ?case
  proof (cases "g \<le> last_end")
    case False
    then show ?thesis by (subst fixed_window_loop.simps) simp
  next
    case True
    have "nat \<lceil>(last_end + w - g') / w\<rceil> < nat \<lceil>(last_end + w - g) / w\<rceil>" if "g + w \<le> g'" for g'
    proof -
      have "(last_end + w - g') / w \<le> (last_end + w - (g + w)) / w"
        using assms(1) that by (intro divide_right_mono) simp_all
      also have "\<dots> = (last_end + w - g) / w - 1" using assms(1) by (simp add: diff_divide_distrib add_divide_distrib)
      finally have "(last_end + w - g') / w \<le> (last_end + w - g) / w - 1" .
      moreover have "0 < (last_end + w - g) / w" using True assms(1) by simp
      ultimately show ?thesis by linarith
    qed
    note smaller = less [OF this]
    have "w \<le> of_int n * w" using assms by simp
    then have "g + w \<le> g + of_int n * w" by simp
    with True smaller [of "g + w"] smaller [of "g + of_int n * w"] show ?thesis
      by (subst fixed_window_loop.simps) (simp add: Let_def)
  qed
qed

text \<open>Grouping blocks by a fixed window ends, on every non-empty list of blocks, for a window
  between a millisecond and a day and groups of at least one window.\<close>

theorem fixed_window_grouping_ends:
  assumes "ranges \<noteq> []" "window_ok window" "1 \<le> n"
  shows "\<exists>d. group_by_fixed_window day_start ops ranges window n = Some (Inr d)"
proof -
  from assms(2) obtain w where w: "convert_str_to_seconds window = Inr w" "1 / 1000 \<le> w" "w \<le> 86400"
    by (auto simp: window_ok_def)
  then obtain g where g: "get_sampling_bucket_ts day_start (start_ts (hd ranges)) window True = Inr g"
    by (simp add: get_sampling_bucket_ts_def Let_def)
  have "0 < w" using w(2) by simp
  from fixed_window_loop_ends [OF this assms(3), of ops ranges "end_ts (last ranges)" g "idict_empty ops"]
  obtain d where "fixed_window_loop ops ranges w n (end_ts (last ranges)) g (idict_empty ops) = Some d" by blast
  moreover have "py_nth ranges 0 = Inr (hd ranges)" "py_last ranges = Inr (last ranges)"
    using assms(1) by (auto simp: py_nth_def py_last_def hd_conv_nth)
  ultimately show ?thesis using assms(1) w(1) g by (simp add: group_by_fixed_window_def py_last_def)
qed

theorem fixed_window_grouping_ends_witness:
  "\<exists>d. group_by_fixed_window utc_day_start
     \<lparr>idict_empty = [], idict_set = dict_put, idict_keys = map fst, idict_overlaps = (\<lambda>i j. lower i \<le> upper j \<and> lower j \<le> upper i)\<rparr>
     [\<lparr>start_ts = 2, end_ts = 5, block_info = ()\<rparr>, \<lparr>start_ts = 6, end_ts = 9, block_info = ()\<rparr>] ''8s'' 1 = Some (Inr d)"
proof (rule fixed_window_grouping_ends)
  have "convert_str_to_seconds ''8s'' = Inr 8" by code_simp
  then show "window_ok ''8s''" by (simp add: window_ok_def)
qed simp_all

section \<open>Trade volume imbalance\<close>

text \<open>The queue is an attribute of the class: a new state starts with whatever queue the class
  holds, and with its own volumes at zero.\<close>

record tvi_state =
  last_sampling_bucket_ts :: rat
  queue :: "event list"
  sell_vol :: rat
  buy_vol :: rat

definition new_tvi :: "event list \<Rightarrow> tvi_state" where
  "new_tvi class_queue = \<lparr>last_sampling_bucket_ts = - 1, queue = class_queue, sell_vol = 0, buy_vol = 0\<rparr>"

definition tvi_schema :: "string list" where
  "tvi_schema = [''timestamp'', ''receipt_timestamp'', ''tvi'', ''dt_ts'']"

definition add_volume :: "rat \<Rightarrow> event \<Rightarrow> tvi_state \<Rightarrow> tvi_state pyres" where
  "add_volume sign e s =
     bindE (dict_lookup e ''side'') (\<lambda>side.
     bindE (num_at ''price'' e) (\<lambda>price.
     bindE (num_at ''amount'' e) (\<lambda>amount.
       Inr (if side = Txt ''BUY'' then s\<lparr>buy_vol := buy_vol s + sign * (price * amount)\<rparr>
            else s\<lparr>sell_vol := sell_vol s + sign * (price * amount)\<rparr>))))"

fun drop_old :: "rat \<Rightarrow> rat \<Rightarrow> event list \<Rightarrow> tvi_state \<Rightarrow> tvi_state pyres" where
  "drop_old ts window_s [] s = Inl IndexError"
| "drop_old ts window_s (e # q) s =
     bindE (num_at ''timestamp'' e) (\<lambda>t.
       if ts - t > window_s then bindE (add_volume (- 1) e s) (\<lambda>s'. drop_old ts window_s q (s'\<lparr>queue := q\<rparr>))
       else Inr (s\<lparr>queue := e # q\<rparr>))"

definition tvi_update_state ::
    "(rat \<Rightarrow> rat) \<Rightarrow> string \<Rightarrow> rat \<Rightarrow> tvi_state \<Rightarrow> event \<Rightarrow> (tvi_state \<times> event option) pyres" where
  "tvi_update_state day_start sampling window_s s event =
     bindE (num_at ''timestamp'' event) (\<lambda>ts.
     bindE (num_at ''receipt_timestamp'' event) (\<lambda>receipt_ts.
     bindE (drop_old ts window_s (queue s @ [event]) s) (\<lambda>s1.
     bindE (add_volume 1 event s1) (\<lambda>s2.
       if buy_vol s2 + sell_vol s2 = 0 then Inl ZeroDivisionError
       else let tvi = 2 * (buy_vol s2 - sell_vol s2) / (buy_vol s2 + sell_vol s2) in
         if sampling = ''raw'' then
           Inr (s2, Some (construct_event tvi_schema [Num ts, Num receipt_ts, Num tvi, Num (last_sampling_bucket_ts s2)]))
         else bindE (get_sampling_bucket_ts day_start ts sampling True) (\<lambda>bucket.
           if last_sampling_bucket_ts s2 \<noteq> bucket then
             Inr (s2\<lparr>last_sampling_bucket_ts := bucket\<rparr>,
                  Some (construct_event tvi_schema [Num ts, Num receipt_ts, Num tvi, Num bucket]))
           else Inr (s2, None))))))"

text \<open>The traded value of an event, of the buys and of the sells of a queue.\<close>

definition traded :: "event \<Rightarrow> rat" where
  "traded e = (case (num_at ''price'' e, num_at ''amount'' e) of (Inr p, Inr a) \<Rightarrow> p * a | _ \<Rightarrow> 0)"

definition is_buy :: "event \<Rightarrow> bool" where
  "is_buy e = (map_of e ''side'' = Some (Txt ''BUY''))"

definition side_sum :: "bool \<Rightarrow> event list \<Rightarrow> rat" where
  "side_sum b q = (\<Sum>e\<leftarrow>filter (\<lambda>e. is_buy e = b) q. traded e)"

definition tvi_trade :: "event \<Rightarrow> bool" where
  "tvi_trade e \<longleftrightarrow> timed e \<and> (\<exists>r sd p a. num_at ''receipt_timestamp'' e = Inr r \<and> map_of e ''side'' = Some sd \<and>
     num_at ''price'' e = Inr p \<and> num_at ''amount'' e = Inr a \<and> 0 < p \<and> 0 < a)"

lemma side_sum_simps [simp]:
  "side_sum b [] = 0"
  "side_sum b (e # q) = (if is_buy e = b then traded e else 0) + side_sum b q"
  "side_sum b (q @ q') = side_sum b q + side_sum b q'"
  by (simp_all add: side_sum_def)

lemma traded_pos: "tvi_trade e \<Longrightarrow> 0 < traded e"
  by (auto simp: tvi_trade_def traded_def)

lemma side_sum_nonneg: "list_all tvi_trade q \<Longrightarrow> 0 \<le> side_sum b q"
  by (induction q) (auto dest: traded_pos simp: less_imp_le add_nonneg_nonneg)

lemma add_volume_traded:
  "tvi_trade e \<Longrightarrow> add_volume sg e s =
     Inr (s\<lparr>buy_vol := buy_vol s + (if is_buy e then sg * traded e else 0),
            sell_vol := sell_vol s + (if is_buy e then 0 else sg * traded e)\<rparr>)"
  by (auto simp: tvi_trade_def add_volume_def traded_def is_buy_def dict_lookup_def)

text \<open>The volumes are those of the queue.\<close>

definition tvi_inv :: "tvi_state \<Rightarrow> bool" where
  "tvi_inv s \<longleftrightarrow> list_all tvi_trade (queue s) \<and> buy_vol s = side_sum True (queue s) \<and> sell_vol s = side_sum False (queue s)"

lemma new_tvi_inv: "tvi_inv (new_tvi [])"
  by (simp add: tvi_inv_def new_tvi_def)

lemma drop_old_window:
  assumes "list_all tvi_trade q" "tvi_trade e" "0 \<le> w"
    "buy_vol s = side_sum True q" "sell_vol s = side_sum False q"
  shows "\<exists>s' d. drop_old (ts_of e) w (q @ [e]) s = Inr s' \<and> queue s' = d @ [e] \<and> list_all tvi_trade d \<and>
    buy_vol s' = side_sum True d \<and> sell_vol s' = side_sum False d \<and>
    last_sampling_bucket_ts s' = last_sampling_bucket_ts s"
  using assms(1,4,5)
proof (induction q arbitrary: s)
  case Nil
  then show ?case using assms(2,3) by (intro exI [of _ "s\<lparr>queue := [e]\<rparr>"] exI [of _ "[]"]) (simp add: tvi_trade_def)
next
  case (Cons x q)
  then have x: "tvi_trade x" "num_at ''timestamp'' x = Inr (ts_of x)" by (simp_all add: tvi_trade_def)
  show ?case
  proof (cases "ts_of e - ts_of x > w")
    case False
    then show ?thesis using Cons.prems x
      by (intro exI [of _ "s\<lparr>queue := x # q @ [e]\<rparr>"] exI [of _ "x # q"]) simp
  next
    case True
    let ?s = "s\<lparr>buy_vol := buy_vol s + (if is_buy x then (- 1) * traded x else 0),
            sell_vol := sell_vol s + (if is_buy x then 0 else (- 1) * traded x), queue := q @ [e]\<rparr>"
    have "drop_old (ts_of e) w ((x # q) @ [e]) s = drop_old (ts_of e) w (q @ [e]) ?s"
      using True x by (simp add: add_volume_traded)
    moreover have "buy_vol ?s = side_sum True q" "sell_vol ?s = side_sum False q"
      using Cons.prems by simp_all
    moreover note Cons.IH [of ?s]
    ultimately show ?thesis using Cons.prems(1) by simp
  qed
qed

lemma tvi_step:
  assumes "tvi_inv s" "tvi_trade e" "0 \<le> w" "sampling = ''raw'' \<or> window_ok sampling"
  shows "\<exists>s' out. tvi_update_state day_start sampling w s e = Inr (s', out) \<and> tvi_inv s' \<and>
    (case out of None \<Rightarrow> True | Some o' \<Rightarrow> \<exists>x. num_at ''tvi'' o' = Inr x \<and> - 2 \<le> x \<and> x \<le> 2)"
proof -
  obtain s1 d where s1: "drop_old (ts_of e) w (queue s @ [e]) s = Inr s1" "queue s1 = d @ [e]" "list_all tvi_trade d"
    "buy_vol s1 = side_sum True d" "sell_vol s1 = side_sum False d"
    using drop_old_window [of "queue s" e w s] assms(1-3) unfolding tvi_inv_def by blast
  let ?s2 = "s1\<lparr>buy_vol := side_sum True (d @ [e]), sell_vol := side_sum False (d @ [e])\<rparr>"
  have s2: "add_volume 1 e s1 = Inr ?s2" using s1 assms(2) by (simp add: add_volume_traded)
  have inv: "tvi_inv ?s2" using s1 assms(2) by (simp add: tvi_inv_def)
  have pos: "0 \<le> side_sum True (d @ [e])" "0 \<le> side_sum False (d @ [e])"
    "0 < side_sum True (d @ [e]) + side_sum False (d @ [e])"
    using side_sum_nonneg [OF s1(3), of True] side_sum_nonneg [OF s1(3), of False] traded_pos [OF assms(2)] by auto
  let ?b = "side_sum True (d @ [e])" and ?s = "side_sum False (d @ [e])"
  have "- 2 \<le> 2 * (?b - ?s) / (?b + ?s) \<and> 2 * (?b - ?s) / (?b + ?s) \<le> 2"
    using pos by (simp add: pos_le_divide_eq pos_divide_le_eq del: side_sum_simps)
  then have out: "\<exists>x. num_at ''tvi'' (construct_event tvi_schema [Num a, Num r, Num (2 * (?b - ?s) / (?b + ?s)), Num c]) = Inr x \<and>
      - 2 \<le> x \<and> x \<le> 2" for a r c
    by (simp add: construct_event_def tvi_schema_def num_at_def dict_lookup_def del: side_sum_simps)
  from assms(2) obtain r where e: "num_at ''timestamp'' e = Inr (ts_of e)" "num_at ''receipt_timestamp'' e = Inr r"
    by (auto simp: tvi_trade_def)
  show ?thesis
  proof (cases "sampling = ''raw''")
    case True
    then show ?thesis using e s1(1) s2 inv out pos(3)
      by (simp add: tvi_update_state_def Let_def del: side_sum_simps)
  next
    case False
    with assms(4) obtain bucket where "get_sampling_bucket_ts day_start (ts_of e) sampling True = Inr bucket"
      by (auto simp: window_ok_def get_sampling_bucket_ts_def Let_def)
    then show ?thesis using False e s1(1) s2 inv out pos(3)
      by (cases "last_sampling_bucket_ts s1 = bucket") (simp_all add: tvi_update_state_def Let_def tvi_inv_def del: side_sum_simps)
  qed
qed

interpretation imbalance: stateful_stream "tvi_update_state day_start sampling w" tvi_inv
    "\<lambda>e. tvi_trade e \<and> 0 \<le> w \<and> (sampling = ''raw'' \<or> window_ok sampling)"
    "\<lambda>out. \<exists>x. num_at ''tvi'' out = Inr x \<and> - 2 \<le> x \<and> x \<le> 2" for day_start sampling w
  by unfold_locales (blast intro: tvi_step)



text \<open>A second stream of the same class starts on the queue the first one left: dropping that
  trade takes its value out of volumes that never held it.\<close>

lemma imbalance_of_second_stream:
  "run_stream (tvi_update_state utc_day_start ''raw'' 2) (new_tvi [sample_trade 1 10 1]) [sample_trade 9 4 1] =
   Inr (\<lparr>last_sampling_bucket_ts = - 1, queue = [sample_trade 9 4 1], sell_vol = 0, buy_vol = - 6\<rparr>,
        [Some (construct_event tvi_schema [Num 9, Num 9, Num 2, Num (- 1)])])"
  by code_simp

section \<open>Prices\<close>

text \<open>\<open>snap[side][0][0]\<close>: the price of the best level of a book snapshot.\<close>

definition first_item :: "event_value list \<Rightarrow> event_value pyres" where
  "first_item vs = py_nth vs 0"

definition best_price :: "string \<Rightarrow> event \<Rightarrow> rat pyres" where
  "best_price side snap =
     bindE (seq_at side snap) (\<lambda>levels.
     bindE (first_item levels) (\<lambda>level.
     bindE (case level of Seq vs \<Rightarrow> first_item vs | _ \<Rightarrow> Inl TypeError) (\<lambda>p.
       case p of Num q \<Rightarrow> Inr q | _ \<Rightarrow> Inl TypeError)))"

definition mid_price_event :: "event \<Rightarrow> event pyres" where
  "mid_price_event snap =
     bindE (dict_lookup snap ''timestamp'') (\<lambda>ts.
     bindE (dict_lookup snap ''receipt_timestamp'') (\<lambda>receipt_ts.
     bindE (best_price ''bids'' snap) (\<lambda>bid.
     bindE (best_price ''asks'' snap) (\<lambda>ask.
       Inr (construct_event [''timestamp'', ''receipt_timestamp'', ''mid_price''] [ts, receipt_ts, Num ((bid + ask) / 2)])))))"

definition spread_event :: "event \<Rightarrow> event pyres" where
  "spread_event snap =
     bindE (dict_lookup snap ''timestamp'') (\<lambda>ts.
     bindE (dict_lookup snap ''receipt_timestamp'') (\<lambda>receipt_ts.
     bindE (best_price ''bids'' snap) (\<lambda>bid.
     bindE (best_price ''asks'' snap) (\<lambda>ask.
       if bid + ask = 0 then Inl ZeroDivisionError
       else Inr (construct_event [''timestamp'', ''receipt_timestamp'', ''spread'']
              [ts, receipt_ts, Num (2 * \<bar>bid - ask\<bar> / (bid + ask))])))))"

lemma spread_of_mid_price:
  assumes "spread_event snap = Inr s" "mid_price_event snap = Inr m"
    "best_price ''bids'' snap = Inr bid" "best_price ''asks'' snap = Inr ask" "0 < bid" "bid \<le> ask"
  shows "\<exists>p q. num_at ''spread'' s = Inr p \<and> num_at ''mid_price'' m = Inr q \<and> bid \<le> q \<and> q \<le> ask \<and>
    p * q = ask - bid"
proof -
  have "s = construct_event [''timestamp'', ''receipt_timestamp'', ''spread'']
      [the (map_of snap ''timestamp''), the (map_of snap ''receipt_timestamp''), Num (2 * \<bar>bid - ask\<bar> / (bid + ask))]"
    "m = construct_event [''timestamp'', ''receipt_timestamp'', ''mid_price'']
      [the (map_of snap ''timestamp''), the (map_of snap ''receipt_timestamp''), Num ((bid + ask) / 2)]"
    using assms by (auto simp: spread_event_def mid_price_event_def split: if_splits)
  then have "num_at ''spread'' s = Inr (2 * \<bar>bid - ask\<bar> / (bid + ask))" "num_at ''mid_price'' m = Inr ((bid + ask) / 2)"
    by (simp_all add: construct_event_def num_at_def dict_lookup_def)
  moreover have "2 * \<bar>bid - ask\<bar> / (bid + ask) * ((bid + ask) / 2) = ask - bid" using assms(5,6) by simp
  moreover have "bid \<le> (bid + ask) / 2" "(bid + ask) / 2 \<le> ask" using assms(6) by simp_all
  ultimately show ?thesis by blast
qed

text \<open>\<open>std\<close> is numpy's standard deviation.\<close>

definition prices_to_volatility :: "(rat list \<Rightarrow> rat) \<Rightarrow> event list \<Rightarrow> event pyres" where
  "prices_to_volatility std prices =
     bindE (py_last prices) (\<lambda>last_price.
     bindE (mapE (num_at ''mid_price'') prices) (\<lambda>p.
     bindE (dict_lookup last_price ''timestamp'') (\<lambda>ts.
     bindE (dict_lookup last_price ''receipt_timestamp'') (\<lambda>receipt_ts.
       Inr (construct_event [''timestamp'', ''receipt_timestamp'', ''volatility''] [ts, receipt_ts, Num (std p)])))))"

definition volatility_stream :: "(rat list \<Rightarrow> rat) \<Rightarrow> string option \<Rightarrow> event list \<Rightarrow> event list pyres" where
  "volatility_stream std window events =
     lookback_apply (case window of None \<Rightarrow> ''1m'' | Some w \<Rightarrow> w) (prices_to_volatility std) events"

definition diff_percent :: "event list \<Rightarrow> event pyres" where
  "diff_percent elems =
     bindE (py_last elems) (\<lambda>last_elem.
     bindE (py_remove ''timestamp'' (dict_keys last_elem)) (\<lambda>keys.
     bindE (py_remove ''receipt_timestamp'' keys) (\<lambda>keys.
       if length keys \<noteq> 1 then Inl ValueError
       else bindE (py_nth keys 0) (\<lambda>key.
            bindE (num_at key last_elem) (\<lambda>last_value.
            bindE (py_nth elems 0) (\<lambda>first_elem.
            bindE (num_at key first_elem) (\<lambda>first_value.
            if first_value = 0 then Inl ZeroDivisionError
            else bindE (dict_lookup last_elem ''timestamp'') (\<lambda>ts.
              bindE (dict_lookup last_elem ''receipt_timestamp'') (\<lambda>receipt_ts.
                Inr (construct_event [''timestamp'', ''receipt_timestamp'', ''val'']
                  [ts, receipt_ts, Num ((last_value - first_value) / first_value)]))))))))))"

definition diff_stream :: "string option \<Rightarrow> event list \<Rightarrow> event list pyres" where
  "diff_stream window events = lookback_apply (case window of None \<Rightarrow> ''1m'' | Some w \<Rightarrow> w) diff_percent events"

end
