(* ===== verification/SymbolDistribution.thy ===== *)
theory SymbolDistribution
  imports PyValue PyString
begin

text \<open>
  helm/values/local/data-feed/config_builder/gen_configs.py, the symbols of the pods: the symbols
  of a configuration and its excludes, and the distribution of symbols over pods - by reusing the
  blocks of the resource index and by the three strategies over trading volumes. A symbol is an
  object of the cryptofeed library, compared by identity; here it is its base, its quote and its
  normalized name, and objects are told apart by their place in the list.
\<close>

section \<open>Symbols and excludes\<close>

record symbol =
  base :: string
  quote :: string
  normalized :: string

text \<open>\<open>for symbol in symbols: if symbol.base == exclude: symbols.remove(symbol)\<close>: the iterator goes
  by position, so the element after a removed one is passed over.\<close>

function exclude_from :: "('a \<Rightarrow> bool) \<Rightarrow> 'a list \<Rightarrow> nat \<Rightarrow> 'a list" where
  "exclude_from excluded symbols i =
     (if i < length symbols then
        if excluded (symbols ! i) then exclude_from excluded (take i symbols @ drop (i + 1) symbols) (i + 1)
        else exclude_from excluded symbols (i + 1)
      else symbols)"
  by pat_completeness auto
termination
  by (relation "measure (\<lambda>(excluded, symbols, i). length symbols - i)") auto

declare exclude_from.simps [simp del]

definition filter_excludes :: "string list \<Rightarrow> string list \<Rightarrow> symbol list \<Rightarrow> symbol list" where
  "filter_excludes exclude_bases exclude_quotes symbols =
     fold (\<lambda>q symbols. exclude_from (\<lambda>s. quote s = q) symbols 0) exclude_quotes
       (fold (\<lambda>b symbols. exclude_from (\<lambda>s. base s = b) symbols 0) exclude_bases symbols)"

text \<open>The loop as a recursion: a removal passes over the next element.\<close>

fun exclude_pass :: "('a \<Rightarrow> bool) \<Rightarrow> 'a list \<Rightarrow> 'a list" where
  "exclude_pass excluded [] = []"
| "exclude_pass excluded [x] = (if excluded x then [] else [x])"
| "exclude_pass excluded (x # y # xs) =
     (if excluded x then y # exclude_pass excluded xs else x # exclude_pass excluded (y # xs))"

lemma exclude_from_pass:
  "exclude_from excluded (pre @ xs) (length pre) = pre @ exclude_pass excluded xs"
proof (induction excluded xs arbitrary: pre rule: exclude_pass.induct)
  case (1 excluded)
  then show ?case by (simp add: exclude_from.simps)
next
  case (2 excluded x)
  have "exclude_from excluded pre (Suc (length pre)) = pre" "exclude_from excluded (pre @ [x]) (Suc (length pre)) = pre @ [x]"
    by (simp_all add: exclude_from.simps)
  then show ?case by (simp add: exclude_from.simps [of excluded "pre @ [x]"])
next
  case (3 excluded x y xs)
  show ?case
    using "3.IH"(1) [of "pre @ [y]"] "3.IH"(2) [of "pre @ [x]"]
    by (simp add: exclude_from.simps [of excluded "pre @ x # y # xs"])
qed

text \<open>Two excluded elements side by side are what the loop gets wrong, and all it gets wrong.\<close>

fun adjacent :: "('a \<Rightarrow> bool) \<Rightarrow> 'a list \<Rightarrow> bool" where
  "adjacent excluded (x # y # xs) = (excluded x \<and> excluded y \<or> adjacent excluded (y # xs))"
| "adjacent excluded _ = False"

lemma exclude_pass_filter:
  "\<not> adjacent excluded xs \<Longrightarrow> exclude_pass excluded xs = filter (\<lambda>x. \<not> excluded x) xs"
proof (induction excluded xs rule: exclude_pass.induct)
  case (3 excluded x y xs)
  then show ?case by (cases xs) auto
qed simp_all

lemma exclude_pass_keeps:
  "adjacent excluded xs \<Longrightarrow> \<exists>x\<in>set (exclude_pass excluded xs). excluded x"
  by (induction excluded xs rule: exclude_pass.induct) (auto, metis adjacent.simps list.exhaust)

text \<open>An exclude of a configuration removes exactly the symbols it names if and only if no two of
  them stand side by side; the symbols of a quote always do when there is more than one base.\<close>

theorem exclude_is_exact_iff:
  "exclude_from excluded symbols 0 = filter (\<lambda>x. \<not> excluded x) symbols \<longleftrightarrow> \<not> adjacent excluded symbols"
proof -
  have "exclude_from excluded symbols 0 = exclude_pass excluded symbols"
    using exclude_from_pass [of excluded "[]" symbols] by simp
  moreover have "exclude_pass excluded symbols \<noteq> filter (\<lambda>x. \<not> excluded x) symbols" if "adjacent excluded symbols"
    using exclude_pass_keeps [OF that] by (metis (mono_tags) mem_Collect_eq set_filter)
  ultimately show ?thesis using exclude_pass_filter by metis
qed

text \<open>Of two neighbours with the excluded quote one stays.\<close>

lemma excluded_quote_survives:
  "filter_excludes [] [''USD''] [\<lparr>base = ''BTC'', quote = ''USD'', normalized = ''BTC-USD''\<rparr>,
     \<lparr>base = ''ETH'', quote = ''USD'', normalized = ''ETH-USD''\<rparr>] =
   [\<lparr>base = ''ETH'', quote = ''USD'', normalized = ''ETH-USD''\<rparr>]"
  by (simp add: filter_excludes_def exclude_from.simps)

section \<open>Reusing the blocks of the resource index\<close>

text \<open>An entry of the resource index, under its payload hash. A payload maps its exchange to the
  symbols of every channel.\<close>

type_synonym payload = "(string, (string, string list) dict) dict"

datatype unhealthy_reason = AVG_IS_NONE | ABSENT_THRESH rat | AVG_THRESH rat

record container_spec =
  requests :: "(string, string) dict"
  limits :: "(string, string) dict"

record index_entry =
  payload_config :: payload
  resource_spec :: "(string, container_spec) dict"
  symbol_distributions :: "string list"
  skipped_channels :: "(string, unhealthy_reason) dict option"

type_synonym resource_index = "(string, index_entry) dict"

text \<open>The exchange of a payload and the symbols of its first channel.\<close>

definition payload_symbols :: "payload \<Rightarrow> (string \<times> string list) pyres" where
  "payload_symbols payload =
     bindE (py_nth (dict_keys payload) 0) (\<lambda>exchange.
     bindE (dict_lookup payload exchange) (\<lambda>channels.
     bindE (py_nth (dict_keys channels) 0) (\<lambda>first_channel.
     bindE (dict_lookup channels first_channel) (\<lambda>symbols. Inr (exchange, symbols)))))"

text \<open>The positions to remove are computed before the first removal.\<close>

definition move_symbol :: "nat \<Rightarrow> symbol list \<times> symbol list \<Rightarrow> (symbol list \<times> symbol list) pyres" where
  "move_symbol i s = (let (symbols, bucket) = s in
     bindE (py_nth symbols (int i)) (\<lambda>x. Inr (take i symbols @ drop (i + 1) symbols, bucket @ [x])))"

definition move_named :: "string \<Rightarrow> symbol list \<times> symbol list \<Rightarrow> (symbol list \<times> symbol list) pyres" where
  "move_named s st =
     (let to_remove = filter (\<lambda>i. normalized (fst st ! i) = s) [0..<length (fst st)] in foldE move_symbol to_remove st)"

definition reuse_entry ::
    "string \<Rightarrow> string \<Rightarrow> symbol \<Rightarrow> string \<times> index_entry \<Rightarrow> symbol list \<times> symbol list list \<times> string option
     \<Rightarrow> (symbol list \<times> symbol list list \<times> string option) pyres" where
  "reuse_entry exchange strategy symbol = (\<lambda>(payload_hash, entry) (symbols, buckets, block_hash).
     if strategy \<in> set (symbol_distributions entry) then
       bindE (payload_symbols (payload_config entry)) (\<lambda>(ex, names).
       if ex = exchange \<and> normalized symbol \<in> set names then
         bindE (foldE move_named names (symbols, [])) (\<lambda>(symbols', bucket).
           Inr (symbols', buckets @ [bucket], Some payload_hash))
       else Inr (symbols, buckets, block_hash))
     else Inr (symbols, buckets, block_hash))"

partial_function (option) reuse_loop ::
    "string \<Rightarrow> string \<Rightarrow> resource_index \<Rightarrow> symbol list \<Rightarrow> symbol list list \<Rightarrow> (symbol list \<times> symbol list list) pyres option" where
  "reuse_loop exchange strategy index symbols buckets =
     (case symbols of
        [] \<Rightarrow> Some (Inr (symbols, buckets))
      | symbol # _ \<Rightarrow>
          (case foldE (reuse_entry exchange strategy symbol) index (symbols, buckets, None) of
             Inl e \<Rightarrow> Some (Inl e)
           | Inr (symbols', buckets', block_hash) \<Rightarrow>
               if block_hash = None then Some (Inr (symbols', buckets'))
               else reuse_loop exchange strategy index symbols' buckets'))"

definition BUCKET_SIZE :: nat where "BUCKET_SIZE = 4"

definition leftover_buckets :: "'a list \<Rightarrow> 'a list list" where
  "leftover_buckets symbols =
     map (\<lambda>k. take BUCKET_SIZE (drop (k * BUCKET_SIZE) symbols))
       [0..<(length symbols + BUCKET_SIZE - 1) div BUCKET_SIZE]"

definition distribute_reusing_index ::
    "string \<Rightarrow> symbol list \<Rightarrow> string \<Rightarrow> resource_index \<Rightarrow> (nat, symbol list) dict pyres option" where
  "distribute_reusing_index exchange symbols strategy index =
     (case reuse_loop exchange strategy index symbols [] of
        None \<Rightarrow> None
      | Some r \<Rightarrow> Some (bindE r (\<lambda>(symbols', buckets). Inr (enumerate 0 (buckets @ leftover_buckets symbols')))))"

text \<open>Every step moves symbols from the list to a bucket and loses none.\<close>

lemma move_symbol_mset:
  "move_symbol i st = Inr st' \<Longrightarrow> mset (fst st') + mset (snd st') = mset (fst st) + mset (snd st) \<and>
     length (fst st') < length (fst st)"
proof -
  assume moved: "move_symbol i st = Inr st'"
  obtain symbols bucket where st: "st = (symbols, bucket)" by (cases st)
  from moved st have i: "i < length symbols" "st' = (take i symbols @ drop (i + 1) symbols, bucket @ [symbols ! i])"
    by (auto simp: move_symbol_def py_nth_def split: if_splits)
  then have "mset symbols = mset (take i symbols) + add_mset (symbols ! i) (mset (drop (i + 1) symbols))"
    by (metis Cons_nth_drop_Suc Suc_eq_plus1 append_take_drop_id mset.simps(2) mset_append)
  with i st show ?thesis by simp
qed

lemma move_all_mset:
  "foldE move_symbol is st = Inr st' \<Longrightarrow> mset (fst st') + mset (snd st') = mset (fst st) + mset (snd st) \<and>
     length (fst st') \<le> length (fst st) \<and> (is \<noteq> [] \<longrightarrow> length (fst st') < length (fst st))"
proof (induction "is" arbitrary: st)
  case (Cons i js)
  from Cons.prems obtain st1 where st1: "move_symbol i st = Inr st1" "foldE move_symbol js st1 = Inr st'" by auto
  from move_symbol_mset [OF st1(1)] Cons.IH [OF st1(2)] show ?case by auto
qed simp

lemma move_named_mset:
  assumes "move_named s st = Inr st'"
  shows "mset (fst st') + mset (snd st') = mset (fst st) + mset (snd st) \<and> length (fst st') \<le> length (fst st) \<and>
    (if \<exists>x\<in>set (fst st). normalized x = s then length (fst st') < length (fst st) else st' = st)"
proof -
  have "filter (\<lambda>i. normalized (fst st ! i) = s) [0..<length (fst st)] = []" if "\<not> (\<exists>x\<in>set (fst st). normalized x = s)"
    using that by (auto simp: filter_empty_conv)
  moreover
  have "filter (\<lambda>i. normalized (fst st ! i) = s) [0..<length (fst st)] \<noteq> []" if "\<exists>x\<in>set (fst st). normalized x = s"
    using that by (force simp: filter_empty_conv in_set_conv_nth)
  ultimately show ?thesis
    using move_all_mset [OF assms [unfolded move_named_def Let_def]] assms by (auto simp: move_named_def)
qed

lemma move_block_mset:
  assumes "foldE move_named names st = Inr st'"
  shows "mset (fst st') + mset (snd st') = mset (fst st) + mset (snd st) \<and> length (fst st') \<le> length (fst st) \<and>
    (\<forall>x\<in>set (fst st). normalized x \<in> set names \<longrightarrow> length (fst st') < length (fst st))"
  using assms
proof (induction names arbitrary: st)
  case (Cons s names)
  from Cons.prems obtain st1 where st1: "move_named s st = Inr st1" "foldE move_named names st1 = Inr st'" by auto
  note moved = move_named_mset [OF st1(1)] Cons.IH [OF st1(2)]
  have "length (fst st') < length (fst st)" if "x \<in> set (fst st)" "normalized x \<in> set (s # names)" for x
  proof (cases "normalized x = s \<or> length (fst st1) < length (fst st)")
    case True
    with moved(1) that(1) have "length (fst st1) < length (fst st)" by (metis (mono_tags))
    with moved(2) show ?thesis by simp
  next
    case False
    with moved(1) have "st1 = st" by (auto split: if_splits)
    with moved(2) that False show ?thesis by auto
  qed
  with moved show ?case by auto
qed simp

definition placed :: "symbol list \<times> symbol list list \<times> 'h \<Rightarrow> symbol multiset" where
  "placed s = mset (fst s) + mset (concat (fst (snd s)))"

lemma reuse_entry_placed:
  assumes "reuse_entry exchange strategy symbol e s = Inr s'"
  shows "placed s' = placed s \<and> length (fst s') \<le> length (fst s) \<and>
    (symbol \<in> set (fst s) \<longrightarrow> s' = s \<or> length (fst s') < length (fst s))"
proof -
  obtain payload_hash entry symbols buckets h where e: "e = (payload_hash, entry)" "s = (symbols, buckets, h)"
    by (cases e, cases s) auto
  consider (same) "s' = s" | (block) names symbols' bucket where "normalized symbol \<in> set names"
      "foldE move_named names (symbols, []) = Inr (symbols', bucket)" "s' = (symbols', buckets @ [bucket], Some payload_hash)"
    using assms e by (auto simp: reuse_entry_def split: if_splits)
  then show ?thesis
  proof cases
    case block
    from move_block_mset [OF block(2)] block(1,3) e show ?thesis by (auto simp: placed_def ac_simps)
  qed simp
qed

text \<open>A pass over the index either leaves everything as it is or takes symbols away, and says which.\<close>

lemma reuse_pass_placed:
  assumes "foldE (reuse_entry exchange strategy symbol) index s = Inr s'"
  shows "placed s' = placed s \<and> length (fst s') \<le> length (fst s) \<and>
    (symbol \<in> set (fst s) \<longrightarrow> s' = s \<or> length (fst s') < length (fst s))"
  using assms
proof (induction index arbitrary: s)
  case (Cons e index)
  from Cons.prems obtain s1 where s1: "reuse_entry exchange strategy symbol e s = Inr s1"
    "foldE (reuse_entry exchange strategy symbol) index s1 = Inr s'" by auto
  from reuse_entry_placed [OF s1(1)] Cons.IH [OF s1(2)] show ?case by fastforce
qed simp

lemma reuse_loop_returns:
  "\<exists>r. reuse_loop exchange strategy index symbols buckets = Some r \<and>
    (\<forall>symbols' buckets'. r = Inr (symbols', buckets') \<longrightarrow>
       mset symbols' + mset (concat buckets') = mset symbols + mset (concat buckets))"
proof (induction "length symbols" arbitrary: symbols buckets rule: less_induct)
  case less
  show ?case
  proof (cases symbols)
    case Nil
    then show ?thesis by (simp add: reuse_loop.simps)
  next
    case (Cons symbol rest)
    show ?thesis
    proof (cases "foldE (reuse_entry exchange strategy symbol) index (symbols, buckets, None)")
      case (Inl e)
      with Cons show ?thesis by (simp add: reuse_loop.simps)
    next
      case (Inr q)
      obtain symbols' buckets' h where q: "q = (symbols', buckets', h)" by (cases q)
      note pass = reuse_pass_placed [OF Inr [unfolded q]]
      show ?thesis
      proof (cases h)
        case None
        with Cons Inr q pass show ?thesis by (simp add: reuse_loop.simps placed_def)
      next
        case (Some p)
        with pass Cons have "length symbols' < length symbols" by auto
        note rest = less [OF this, of buckets']
        have "reuse_loop exchange strategy index symbols buckets = reuse_loop exchange strategy index symbols' buckets'"
          using Cons Inr q Some by (subst reuse_loop.simps) simp
        moreover have "mset symbols' + mset (concat buckets') = mset symbols + mset (concat buckets)"
          using pass by (simp add: placed_def)
        ultimately show ?thesis using rest by metis
      qed
    qed
  qed
qed

lemma concat_leftovers: "concat (leftover_buckets xs) = xs"
proof -
  have "length xs \<le> (length xs + BUCKET_SIZE - 1) div BUCKET_SIZE * BUCKET_SIZE"
    unfolding BUCKET_SIZE_def by linarith
  then show ?thesis by (simp add: leftover_buckets_def concat_chunks)
qed

lemma index_distribution_returns: "\<exists>r. distribute_reusing_index exchange symbols strategy index = Some r"
  using reuse_loop_returns [of exchange strategy index symbols "[]"] by (auto simp: distribute_reusing_index_def)

text \<open>C20. Distributing symbols by the resource index always returns, whatever the index holds: it
  raises, or the pods are numbered from zero and every symbol is in exactly one bucket, as often
  as it was listed.\<close>

theorem index_distribution_partitions:
  "\<exists>r. distribute_reusing_index exchange symbols strategy index = Some r \<and>
    (\<forall>dist. r = Inr dist \<longrightarrow> map fst dist = [0..<length dist] \<and> mset (concat (map snd dist)) = mset symbols)"
proof -
  obtain r where r: "reuse_loop exchange strategy index symbols [] = Some r"
    "\<And>symbols' buckets'. r = Inr (symbols', buckets') \<Longrightarrow> mset symbols' + mset (concat buckets') = mset symbols"
    using reuse_loop_returns [of exchange strategy index symbols "[]"] by auto
  have "map fst dist = [0..<length dist] \<and> mset (concat (map snd dist)) = mset symbols"
    if "r = Inr (symbols', buckets')" "dist = enumerate 0 (buckets' @ leftover_buckets symbols')" for symbols' buckets' dist
    using r(2) [OF that(1)] that(2) by (simp add: concat_leftovers add.commute)
  with r(1) show ?thesis by (auto simp: distribute_reusing_index_def)
qed

text \<open>With distinct names the stale positions do no harm: there is at most one. What raises then is
  an entry of the index without exchange or channel.\<close>

lemma one_position:
  assumes "distinct (map f xs)"
  shows "filter (\<lambda>i. f (xs ! i) = s) [0..<length xs] = [] \<or>
    (\<exists>i<length xs. filter (\<lambda>i. f (xs ! i) = s) [0..<length xs] = [i])"
proof (cases "filter (\<lambda>i. f (xs ! i) = s) [0..<length xs]")
  case (Cons i js)
  have "j = i" if "j \<in> set js" for j
  proof -
    have "j \<in> set (i # js)" "i \<in> set (i # js)" using that by auto
    then have "f (xs ! j) = s \<and> j < length xs" "f (xs ! i) = s \<and> i < length xs"
      unfolding Cons [symmetric] by auto
    with assms show ?thesis by (metis length_map nth_eq_iff_index_eq nth_map)
  qed
  moreover have "distinct (i # js)" unfolding Cons [symmetric] by simp
  ultimately have "js = []" by (cases js) auto
  moreover have "i \<in> set (filter (\<lambda>i. f (xs ! i) = s) [0..<length xs])" unfolding Cons by simp
  then have "i < length xs" by simp
  ultimately show ?thesis using Cons by auto
qed simp

lemma distinct_without: "distinct xs \<Longrightarrow> i < length xs \<Longrightarrow> distinct (take i xs @ drop (Suc i) xs)"
  using id_take_nth_drop [of i xs] by (metis distinct.simps(2) distinct_append disjoint_insert(1) list.simps(15))

definition names_distinct :: "symbol list \<times> 'b \<Rightarrow> bool" where
  "names_distinct s \<longleftrightarrow> distinct (map normalized (fst s))"

lemma move_named_total:
  assumes "names_distinct st"
  shows "\<exists>st'. move_named s st = Inr st' \<and> names_distinct st'"
proof -
  obtain xs bucket where st: "st = (xs, bucket)" by (cases st)
  from one_position [of normalized xs s] assms st
  consider "filter (\<lambda>i. normalized (xs ! i) = s) [0..<length xs] = []"
    | i where "i < length xs" "filter (\<lambda>i. normalized (xs ! i) = s) [0..<length xs] = [i]"
    by (auto simp: names_distinct_def)
  then show ?thesis
  proof cases
    case 1
    with st assms show ?thesis by (simp add: move_named_def)
  next
    case 2
    have "distinct (map normalized (take i xs @ drop (i + 1) xs))"
      using distinct_without [of "map normalized xs" i] assms st 2(1) by (simp add: names_distinct_def take_map drop_map)
    with 2 st show ?thesis by (simp add: move_named_def move_symbol_def py_nth_def names_distinct_def)
  qed
qed

lemma reuse_entry_total:
  assumes "names_distinct s" "\<exists>q. payload_symbols (payload_config (snd e)) = Inr q"
  shows "\<exists>s'. reuse_entry exchange strategy symbol e s = Inr s' \<and> names_distinct s'"
proof -
  obtain payload_hash entry symbols buckets h where e: "e = (payload_hash, entry)" "s = (symbols, buckets, h)"
    by (cases e, cases s) auto
  from assms(2) e obtain ex names where q: "payload_symbols (payload_config entry) = Inr (ex, names)" by auto
  have "\<exists>st'. foldE move_named names (symbols, []) = Inr st' \<and> names_distinct st'"
    using assms(1) e by (intro foldE_total move_named_total) (simp_all add: names_distinct_def)
  with assms(1) e q show ?thesis by (fastforce simp: reuse_entry_def names_distinct_def)
qed

definition index_ok :: "resource_index \<Rightarrow> bool" where
  "index_ok index \<longleftrightarrow> (\<forall>(h, entry)\<in>set index. \<exists>q. payload_symbols (payload_config entry) = Inr q)"

lemma reuse_loop_total:
  assumes "index_ok index" "distinct (map normalized symbols)" "reuse_loop exchange strategy index symbols buckets = Some r"
  shows "\<exists>q. r = Inr q"
  using assms(2,3)
proof (induction "length symbols" arbitrary: symbols buckets rule: less_induct)
  case less
  show ?case
  proof (cases symbols)
    case Nil
    with less.prems show ?thesis by (auto simp: reuse_loop.simps)
  next
    case (Cons symbol rest)
    have "\<exists>s'. foldE (reuse_entry exchange strategy symbol) index (symbols, buckets, None) = Inr s' \<and> names_distinct s'"
      using assms(1) less.prems(1)
      by (intro foldE_total reuse_entry_total) (force simp: index_ok_def names_distinct_def)+
    then obtain symbols' buckets' h where pass: "distinct (map normalized symbols')"
      "foldE (reuse_entry exchange strategy symbol) index (symbols, buckets, None) = Inr (symbols', buckets', h)"
      by (force simp: names_distinct_def)
    show ?thesis
    proof (cases h)
      case None
      with Cons pass less.prems(2) show ?thesis by (subst (asm) reuse_loop.simps) auto
    next
      case (Some p)
      with reuse_pass_placed [OF pass(2)] Cons have "length symbols' < length symbols" by auto
      moreover have "reuse_loop exchange strategy index symbols' buckets' = Some r"
        using Cons pass less.prems(2) Some by (subst (asm) reuse_loop.simps) auto
      ultimately show ?thesis using less.hyps pass(1) by blast
    qed
  qed
qed

lemma index_distribution_total:
  assumes "index_ok index" "distinct (map normalized symbols)"
  shows "\<exists>dist. distribute_reusing_index exchange symbols strategy index = Some (Inr dist)"
proof -
  obtain r where "reuse_loop exchange strategy index symbols [] = Some r"
    using reuse_loop_returns by blast
  with reuse_loop_total [OF assms this] show ?thesis by (auto simp: distribute_reusing_index_def)
qed

theorem index_distribution_partitions_witness:
  "let s = (\<lambda>b. \<lparr>base = b, quote = ''USDT'', normalized = b @ ''-USDT''\<rparr>) in
   \<exists>dist. distribute_reusing_index ''BINANCE'' [s ''BTC'', s ''ETH''] ''ONE_TO_ONE'' [] = Some (Inr dist) \<and>
     map fst dist = [0..<length dist] \<and> mset (concat (map snd dist)) = mset [s ''BTC'', s ''ETH'']"
proof -
  let ?s = "\<lambda>b. \<lparr>base = b, quote = ''USDT'', normalized = b @ ''-USDT''\<rparr>"
  have "index_ok []" "distinct (map normalized [?s ''BTC'', ?s ''ETH''])" by (simp_all add: index_ok_def)
  from index_distribution_total [OF this, of "''BINANCE''" "''ONE_TO_ONE''"]
    index_distribution_partitions [of "''BINANCE''" "[?s ''BTC'', ?s ''ETH'']" "''ONE_TO_ONE''" "[]"]
  show ?thesis by (auto simp: Let_def)
qed

text \<open>The reuse ends at the first symbol no block has, even when the blocks have all the others;
  and a symbol two blocks have gets a bucket for each, the later ones without it.\<close>

lemma reuse_stops_at_first_unknown:
  assumes "\<And>h e ex names. (h, e) \<in> set index \<Longrightarrow> payload_symbols (payload_config e) = Inr (ex, names) \<Longrightarrow> normalized s \<notin> set names"
    "index_ok index"
  shows "distribute_reusing_index exchange (s # symbols) strategy index = Some (Inr (enumerate 0 (leftover_buckets (s # symbols))))"
proof -
  have "foldE (reuse_entry exchange strategy s) idx st = Inr st" if "set idx \<subseteq> set index" for idx st
    using that
  proof (induction idx)
    case (Cons p idx)
    obtain h e where p: "p = (h, e)" by (cases p)
    with Cons.prems assms(2) obtain ex names where "payload_symbols (payload_config e) = Inr (ex, names)"
      by (fastforce simp: index_ok_def)
    with assms(1) [of h e] Cons p show ?case by (cases st) (auto simp: reuse_entry_def)
  qed simp
  then show ?thesis by (simp add: distribute_reusing_index_def reuse_loop.simps)
qed

definition sample_symbol :: "string \<Rightarrow> symbol" where
  "sample_symbol b = \<lparr>base = b, quote = ''USDT'', normalized = b @ ''-USDT''\<rparr>"

definition sample_entry :: "string list \<Rightarrow> string \<Rightarrow> index_entry" where
  "sample_entry bases channel = \<lparr>payload_config = [(''BINANCE'', [(channel, map (\<lambda>b. b @ ''-USDT'') bases)])],
     resource_spec = [], symbol_distributions = [''ONE_TO_ONE''], skipped_channels = None\<rparr>"

lemma blocks_with_common_symbols_give_empty_pods:
  "distribute_reusing_index ''BINANCE'' [sample_symbol ''BTC''] ''ONE_TO_ONE''
     [(''h1'', sample_entry [''BTC''] ''trades''), (''h2'', sample_entry [''BTC''] ''ticker'')] =
   Some (Inr [(0, [sample_symbol ''BTC'']), (1, [])])"
  by (simp add: distribute_reusing_index_def reuse_loop.simps reuse_entry_def payload_symbols_def py_nth_def dict_lookup_def
      sample_entry_def sample_symbol_def move_named_def move_symbol_def leftover_buckets_def BUCKET_SIZE_def)

text \<open>Duplicate symbols: the second stale position is past the end or hits a neighbour.\<close>

lemma duplicate_symbols_raise:
  "distribute_reusing_index ''BINANCE'' [sample_symbol ''BTC'', sample_symbol ''BTC''] ''ONE_TO_ONE''
     [(''h1'', sample_entry [''BTC''] ''trades'')] = Some (Inl IndexError)"
  by (simp add: distribute_reusing_index_def reuse_loop.simps reuse_entry_def payload_symbols_def py_nth_def dict_lookup_def
      sample_entry_def sample_symbol_def move_named_def move_symbol_def)

section \<open>The strategies over trading volumes\<close>

text \<open>\<open>_sort_by_binance_usdt_trading_vol\<close> with \<open>reverse\<close>: the volumes come from the tickers of the
  exchange, equal volumes keep their order.\<close>

definition sort_by_vol :: "(string \<Rightarrow> int pyres) \<Rightarrow> symbol list \<Rightarrow> (symbol \<times> int) list pyres" where
  "sort_by_vol volume symbols =
     bindE (mapE (\<lambda>s. bindE (volume (base s)) (\<lambda>v. Inr (s, v))) symbols) (\<lambda>svs. Inr (sort_key (\<lambda>p. - snd p) svs))"

fun one_to_one :: "nat \<Rightarrow> 'a list \<Rightarrow> (nat, 'a list) dict" where
  "one_to_one n [] = []"
| "one_to_one n (x # xs) = (n, [x]) # one_to_one (n + 1) xs"

fun largest_with_smallest :: "'a list \<Rightarrow> nat \<Rightarrow> nat \<Rightarrow> (nat, 'a list) dict" where
  "largest_with_smallest xs i 0 = []"
| "largest_with_smallest xs i (Suc left) =
     (if i < length xs - i - 1 then (i, [xs ! i, xs ! (length xs - i - 1)]) # largest_with_smallest xs (i + 1) left
      else if length xs - i - 1 = i then (i, [xs ! i]) # largest_with_smallest xs (i + 1) left
      else [])"

definition LIMIT_PER_BUCKET :: nat where "LIMIT_PER_BUCKET = 4"

text \<open>\<open>dist\<close> and \<open>dist_sum_vols\<close> have the same keys and are one dictionary here.\<close>

function equal_buckets ::
    "rat \<Rightarrow> ('a \<times> int) list \<Rightarrow> nat \<Rightarrow> nat \<Rightarrow> (nat, 'a list \<times> int) dict \<Rightarrow> (nat, 'a list \<times> int) dict" where
  "equal_buckets thresh sorted_symbols i index pods =
     (if i < length sorted_symbols then
        let (symbol, volume) = sorted_symbols ! i in
        case map_of pods index of
          None \<Rightarrow> equal_buckets thresh sorted_symbols (i + 1) index (dict_put index ([symbol], volume) pods)
        | Some (bucket, vol_sum) \<Rightarrow>
            if of_int vol_sum < thresh \<and> length bucket < LIMIT_PER_BUCKET
            then equal_buckets thresh sorted_symbols (i + 1) index (dict_put index (bucket @ [symbol], vol_sum + volume) pods)
            else equal_buckets thresh sorted_symbols i (index + 1) pods
      else pods)"
  by pat_completeness auto
termination
proof (relation "measures [\<lambda>(thresh, symbols, i, index, pods). length symbols - i,
      \<lambda>(thresh, symbols, i, index, pods). card {k \<in> fst ` set pods. index \<le> k}]", goal_cases)
  case (4 thresh symbols i index pods p symbol volume v bucket vol_sum)
  then have "index \<in> fst ` set pods" by (force dest: map_of_SomeD)
  then have "index \<in> {k \<in> fst ` set pods. index \<le> k}" "index \<notin> {k \<in> fst ` set pods. index + 1 \<le> k}" by simp_all
  moreover have "{k \<in> fst ` set pods. index + 1 \<le> k} \<subseteq> {k \<in> fst ` set pods. index \<le> k}" by auto
  ultimately have "{k \<in> fst ` set pods. index + 1 \<le> k} \<subset> {k \<in> fst ` set pods. index \<le> k}" by blast
  then have "card {k \<in> fst ` set pods. index + 1 \<le> k} < card {k \<in> fst ` set pods. index \<le> k}"
    by (intro psubset_card_mono) auto
  then show ?case by simp
qed (simp_all add: diff_less_mono2)

declare equal_buckets.simps [simp del]

definition mean_volume :: "int list \<Rightarrow> rat" where
  "mean_volume volumes = of_int (sum_list volumes) / of_nat (length volumes)"

definition distribute_by_strategy ::
    "(string \<Rightarrow> int pyres) \<Rightarrow> symbol list \<Rightarrow> string \<Rightarrow> (nat, symbol list) dict pyres" where
  "distribute_by_strategy volume symbols strategy =
     (if strategy = ''ONE_TO_ONE'' then
        bindE (sort_by_vol volume symbols) (\<lambda>sv. Inr (one_to_one 0 (map fst sv)))
      else if strategy = ''LARGEST_WITH_SMALLEST'' then
        bindE (sort_by_vol volume symbols) (\<lambda>sv. Inr (largest_with_smallest (map fst sv) 0 (length sv)))
      else if strategy = ''EQUAL_BUCKETS'' then
        bindE (sort_by_vol volume symbols) (\<lambda>sv.
          Inr (map (\<lambda>(index, bucket, s). (index, bucket)) (equal_buckets (mean_volume (map snd sv)) sv 0 0 [])))
      else Inl ValueError)"

definition distribute_symbols ::
    "(string \<Rightarrow> int pyres) \<Rightarrow> string \<Rightarrow> symbol list \<Rightarrow> string \<Rightarrow> bool \<Rightarrow> resource_index \<Rightarrow> (nat, symbol list) dict pyres option" where
  "distribute_symbols volume exchange symbols strategy reuse_index index =
     (if reuse_index then distribute_reusing_index exchange symbols strategy index
      else Some (distribute_by_strategy volume symbols strategy))"

lemma sort_by_vol_mset:
  assumes "sort_by_vol volume symbols = Inr sv"
  shows "mset (map fst sv) = mset symbols" "sorted (map (\<lambda>p. - snd p) sv)"
proof -
  from assms obtain svs where svs: "mapE (\<lambda>s. bindE (volume (base s)) (\<lambda>v. Inr (s, v))) symbols = Inr svs"
    "sv = sort_key (\<lambda>p. - snd p) svs" by (auto simp: sort_by_vol_def)
  from svs(1) have "map fst svs = symbols"
    by (induction symbols arbitrary: svs) auto
  then show "mset (map fst sv) = mset symbols" using svs(2) by (metis mset_map mset_sort)
  show "sorted (map (\<lambda>p. - snd p) sv)" using svs(2) by simp
qed

lemma one_to_one_values: "map snd (one_to_one n xs) = map (\<lambda>x. [x]) xs"
  by (induction n xs rule: one_to_one.induct) simp_all

text \<open>The pairs of the ends take up the slice between two positions that move inwards.\<close>

lemma largest_with_smallest_slice:
  assumes "2 * i \<le> length xs" "length xs - 2 * i \<le> left" "left \<le> length xs - i"
  shows "mset (concat (map snd (largest_with_smallest xs i left))) = mset (take (length xs - 2 * i) (drop i xs))"
  using assms
proof (induction xs i left rule: largest_with_smallest.induct)
  case (2 xs i left)
  let ?j = "length xs - i - 1"
  consider "i < ?j" | "?j = i" | "?j < i" by linarith
  then show ?case
  proof cases
    case 1
    let ?m = "length xs - 2 * (i + 1)"
    have step: "drop i xs = xs ! i # drop (i + 1) xs" "length xs - 2 * i = Suc (Suc ?m)" "i + 1 + ?m = ?j"
      using 1 by (simp_all add: Cons_nth_drop_Suc)
    have "take (Suc ?m) (drop (i + 1) xs) = take ?m (drop (i + 1) xs) @ [xs ! ?j]"
      using 1 step(3) by (subst take_Suc_conv_app_nth) simp_all
    then have "take (length xs - 2 * i) (drop i xs) = xs ! i # take ?m (drop (i + 1) xs) @ [xs ! ?j]"
      unfolding step(1,2) by simp
    moreover have "mset (concat (map snd (largest_with_smallest xs (i + 1) left))) = mset (take ?m (drop (i + 1) xs))"
      using 2 1 by simp
    ultimately show ?thesis using 1 by simp
  next
    case 2
    then have "length xs = 2 * i + 1" using "2.prems" by linarith
    moreover from this have "largest_with_smallest xs (i + 1) left = []" by (cases left) auto
    moreover from calculation(1) have "take 1 (drop i xs) = [xs ! i]" by (simp add: take_Suc_conv_app_nth)
    ultimately show ?thesis using 2 by simp
  next
    case 3
    with "2.prems" show ?thesis by simp
  qed
qed simp

lemma largest_with_smallest_mset:
  "mset (concat (map snd (largest_with_smallest xs 0 (length xs)))) = mset xs"
  using largest_with_smallest_slice [of 0 xs "length xs"] by simp

text \<open>The greedy buckets: numbered from zero, at most four symbols each and none empty, and every
  bucket but the last one full or at the mean.\<close>

definition bucket_full :: "rat \<Rightarrow> 'a list \<times> int \<Rightarrow> bool" where
  "bucket_full thresh b \<longleftrightarrow> thresh \<le> of_int (snd b) \<or> length (fst b) = LIMIT_PER_BUCKET"

definition buckets_inv :: "rat \<Rightarrow> (nat, 'a list \<times> int) dict \<Rightarrow> bool" where
  "buckets_inv thresh pods \<longleftrightarrow> map fst pods = [0..<length pods] \<and>
     list_all (\<lambda>p. fst (snd p) \<noteq> [] \<and> length (fst (snd p)) \<le> LIMIT_PER_BUCKET) pods \<and>
     list_all (\<lambda>p. bucket_full thresh (snd p)) (butlast pods)"

lemma equal_buckets_spec:
  assumes "buckets_inv thresh pods"
    "index = length pods \<and> list_all (\<lambda>p. bucket_full thresh (snd p)) pods \<or> index + 1 = length pods"
  shows "buckets_inv thresh (equal_buckets thresh sv i index pods) \<and>
    concat (map (fst \<circ> snd) (equal_buckets thresh sv i index pods)) =
      concat (map (fst \<circ> snd) pods) @ map fst (drop i sv)"
  using assms
proof (induction thresh sv i index pods rule: equal_buckets.induct)
  case (1 thresh sv i index pods)
  show ?case
  proof (cases "i < length sv")
    case False
    with 1 show ?thesis by (simp add: equal_buckets.simps [of thresh sv i index pods])
  next
    case True
    obtain symbol volume where sv: "sv ! i = (symbol, volume)" by (cases "sv ! i")
    have rest: "map fst (drop i sv) = symbol # map fst (drop (i + 1) sv)"
      using True sv by (simp add: Cons_nth_drop_Suc [symmetric])
    note step = equal_buckets.simps [of thresh sv i index pods]
    from "1.prems"(2) show ?thesis
    proof (elim disjE conjE)
      assume new: "index = length pods" "list_all (\<lambda>p. bucket_full thresh (snd p)) pods"
      have fresh: "index \<notin> fst ` set pods"
      proof -
        have "fst ` set pods = set [0..<length pods]" using "1.prems"(1) by (metis buckets_inv_def image_set)
        with new(1) show ?thesis by simp
      qed
      then have none: "map_of pods index = None" by (simp add: map_of_eq_None_iff)
      let ?pods = "pods @ [(index, [symbol], volume)]"
      have put: "dict_put index ([symbol], volume) pods = ?pods" using fresh by (rule dict_put_fresh)
      have inv: "buckets_inv thresh ?pods"
        using "1.prems"(1) new by (simp add: buckets_inv_def LIMIT_PER_BUCKET_def)
      have "equal_buckets thresh sv i index pods = equal_buckets thresh sv (i + 1) index ?pods"
        using True sv none put by (simp add: step)
      with "1.IH"(1) [OF True sv [symmetric] refl none] inv new(1) rest put show ?thesis by simp
    next
      assume cur: "index + 1 = length pods"
      then obtain pre bucket vol_sum where pods: "pods = pre @ [(index, bucket, vol_sum)]"
      proof -
        from cur obtain pre q where q: "pods = pre @ [q]" by (cases pods rule: rev_cases) auto
        with "1.prems"(1) cur have "fst q = index" by (auto simp: buckets_inv_def)
        with q that show ?thesis by (cases q) auto
      qed
      then have keys: "map fst pre = [0..<index]" using "1.prems"(1) cur by (auto simp: buckets_inv_def)
      have fresh: "index \<notin> fst ` set pre" using arg_cong [OF keys, of set] by auto
      then have "map_of pre index = None" by (simp add: map_of_eq_None_iff)
      then have some: "map_of pods index = Some (bucket, vol_sum)"
        using pods by (simp add: map_add_def)
      show ?thesis
      proof (cases "of_int vol_sum < thresh \<and> length bucket < LIMIT_PER_BUCKET")
        case room: True
        let ?pods = "pre @ [(index, bucket @ [symbol], vol_sum + volume)]"
        have put: "dict_put index (bucket @ [symbol], vol_sum + volume) pods = ?pods"
          unfolding pods using fresh by (rule dict_put_last)
        have inv: "buckets_inv thresh ?pods"
          using "1.prems"(1) pods room by (simp add: buckets_inv_def)
        have "equal_buckets thresh sv i index pods = equal_buckets thresh sv (i + 1) index ?pods"
          using True sv some room put by (simp add: step)
        with "1.IH"(2) [OF True sv [symmetric] refl some refl room] inv cur pods rest put show ?thesis by simp
      next
        case full: False
        then have "list_all (\<lambda>p. bucket_full thresh (snd p)) pods"
          using "1.prems"(1) pods by (auto simp: buckets_inv_def bucket_full_def)
        with "1.IH"(3) [OF True sv [symmetric] refl some refl full] "1.prems"(1) cur
        have "buckets_inv thresh (equal_buckets thresh sv i (index + 1) pods) \<and>
            concat (map (fst \<circ> snd) (equal_buckets thresh sv i (index + 1) pods)) =
              concat (map (fst \<circ> snd) pods) @ map fst (drop i sv)" by (simp add: comp_def)
        moreover have "equal_buckets thresh sv i index pods = equal_buckets thresh sv i (index + 1) pods"
          using True sv some full by (auto simp: step)
        ultimately show ?thesis by (simp add: comp_def)
      qed
    qed
  qed
qed

text \<open>Every strategy over trading volumes puts each symbol in exactly one pod; the greedy buckets
  have between one and four symbols, and all but the last are full or have reached the mean
  volume. An unknown strategy is a \<open>ValueError\<close>.\<close>

theorem strategies_partition:
  assumes "distribute_by_strategy volume symbols strategy = Inr pods"
  shows "mset (concat (map snd pods)) = mset symbols \<and>
    strategy \<in> {''ONE_TO_ONE'', ''LARGEST_WITH_SMALLEST'', ''EQUAL_BUCKETS''} \<and>
    (strategy = ''EQUAL_BUCKETS'' \<longrightarrow> list_all (\<lambda>p. snd p \<noteq> [] \<and> length (snd p) \<le> LIMIT_PER_BUCKET) pods)"
proof -
  from assms obtain sv where sv: "sort_by_vol volume symbols = Inr sv"
    and cases: "strategy = ''ONE_TO_ONE'' \<and> pods = one_to_one 0 (map fst sv) \<or>
      strategy = ''LARGEST_WITH_SMALLEST'' \<and> pods = largest_with_smallest (map fst sv) 0 (length sv) \<or>
      strategy = ''EQUAL_BUCKETS'' \<and>
        pods = map (\<lambda>(index, bucket, s). (index, bucket)) (equal_buckets (mean_volume (map snd sv)) sv 0 0 [])"
    by (auto simp: distribute_by_strategy_def split: if_splits)
  note same = sort_by_vol_mset(1) [OF sv]
  from cases show ?thesis
  proof (elim disjE conjE)
    assume "strategy = ''ONE_TO_ONE''" "pods = one_to_one 0 (map fst sv)"
    with same show ?thesis by (simp add: one_to_one_values comp_def concat_map_singleton)
  next
    assume "strategy = ''LARGEST_WITH_SMALLEST''" "pods = largest_with_smallest (map fst sv) 0 (length sv)"
    with same largest_with_smallest_mset [of "map fst sv"] show ?thesis by simp
  next
    let ?b = "equal_buckets (mean_volume (map snd sv)) sv 0 0 []"
    assume eq: "strategy = ''EQUAL_BUCKETS''" "pods = map (\<lambda>(index, bucket, s). (index, bucket)) ?b"
    have spec: "buckets_inv (mean_volume (map snd sv)) ?b" "concat (map (fst \<circ> snd) ?b) = map fst sv"
      using equal_buckets_spec [of "mean_volume (map snd sv)" "[]" 0 sv 0] by (simp_all add: buckets_inv_def)
    have snds: "map snd pods = map (fst \<circ> snd) ?b" using eq(2) by (simp add: comp_def split_def)
    have "list_all (\<lambda>p. snd p \<noteq> [] \<and> length (snd p) \<le> LIMIT_PER_BUCKET) pods"
      using spec(1) eq(2) by (auto simp: buckets_inv_def list_all_iff)
    with snds spec(2) same eq(1) show ?thesis by simp
  qed
qed

definition sample_volume :: "string \<Rightarrow> int pyres" where
  "sample_volume b = (if b = ''BTC'' then Inr 90 else if b = ''ETH'' then Inr 40 else if b = ''XRP'' then Inr 5 else Inl KeyError)"

theorem strategies_partition_witness:
  "mset (concat (map snd [(0 :: nat, [sample_symbol ''BTC'']), (1, [sample_symbol ''ETH'', sample_symbol ''XRP''])])) =
     mset [sample_symbol ''XRP'', sample_symbol ''BTC'', sample_symbol ''ETH'']"
proof -
  let ?syms = "[sample_symbol ''XRP'', sample_symbol ''BTC'', sample_symbol ''ETH'']"
  have "distribute_by_strategy sample_volume ?syms ''EQUAL_BUCKETS'' =
      Inr [(0, [sample_symbol ''BTC'']), (1, [sample_symbol ''ETH'', sample_symbol ''XRP''])]"
    by (simp add: distribute_by_strategy_def sort_by_vol_def sample_volume_def sample_symbol_def mean_volume_def
        equal_buckets.simps LIMIT_PER_BUCKET_def)
  from strategies_partition [OF this] show ?thesis by blast
qed

end
