(* ===== verification/ResourceIndex.thy ===== *)
theory ResourceIndex
  imports SymbolDistribution
begin

text \<open>
  gen_configs.py, \<open>_build_resource_index\<close>: from the results of an estimation, per payload of
  healthy channels, the resources its containers request. The file of a date is a dictionary of
  items by pod name; the hash of a payload is a parameter.
\<close>

section \<open>Results of an estimation\<close>

record health_metric =
  absent :: "rat option"
  avg :: "rat option"

record usage_metric =
  usage_absent :: "rat option"
  usage_p95 :: "rat option"
  usage_avg :: "rat option"

type_synonym usage = "(string, (string, usage_metric) dict) dict"

record item_metrics =
  df_health :: "(string, (string, health_metric) dict) dict"
  metrics_server_cpu :: usage
  metrics_server_mem :: usage

record estimation_item =
  item_payload_hash :: string
  item_payload_config :: payload
  item_symbol_distribution :: string
  item_metrics :: "item_metrics option"

definition HEALTH_THRESHOLD_PER_CHANNEL :: "(string, rat) dict" where
  "HEALTH_THRESHOLD_PER_CHANNEL =
     [(''ticker'', 1 / 2), (''l2_book'', 1 / 2), (''trades'', 1 / 2), (''open_interest'', 0), (''liquidations'', 0), (''funding'', 0)]"

text \<open>\<open>float(None)\<close> is a \<open>TypeError\<close>.\<close>

definition py_float :: "rat option \<Rightarrow> rat pyres" where
  "py_float x = (case x of None \<Rightarrow> Inl TypeError | Some v \<Rightarrow> Inr v)"

section \<open>Unhealthy channels\<close>

definition check_symbol :: "string \<Rightarrow> health_metric \<Rightarrow> (string, unhealthy_reason) dict \<Rightarrow> (string, unhealthy_reason) dict pyres" where
  "check_symbol channel m unhealthy =
     (case avg m of
        None \<Rightarrow> Inr (dict_put channel AVG_IS_NONE unhealthy)
      | Some a \<Rightarrow>
          bindE (py_float (absent m)) (\<lambda>ab.
          if ab > 1 / 2 then Inr (dict_put channel (ABSENT_THRESH ab) unhealthy)
          else bindE (dict_lookup HEALTH_THRESHOLD_PER_CHANNEL channel) (\<lambda>th.
            Inr (if a < th then dict_put channel (AVG_THRESH a) unhealthy else unhealthy))))"

definition unhealthy_channels :: "item_metrics \<Rightarrow> (string, unhealthy_reason) dict pyres" where
  "unhealthy_channels ms =
     foldE (\<lambda>(channel, symbols) unhealthy. foldE (\<lambda>(symbol, m). check_symbol channel m) symbols unhealthy) (df_health ms) []"

text \<open>\<open>del payload_config[exch][channel]\<close> for every unhealthy channel; the payload is the item's own.\<close>

definition drop_channels :: "payload \<Rightarrow> string list \<Rightarrow> payload pyres" where
  "drop_channels payload channels =
     bindE (py_nth (dict_keys payload) 0) (\<lambda>exch.
     foldE (\<lambda>channel p.
       bindE (dict_lookup p exch) (\<lambda>chs. bindE (dict_del channel chs) (\<lambda>chs'. Inr (dict_put exch chs' p)))) channels payload)"

section \<open>Requests and limits\<close>

definition REQUEST_UP :: rat where "REQUEST_UP = 1 / 10"
definition LIMIT_UP :: rat where "LIMIT_UP = 5 / 10"

definition spec_of :: "(string, container_spec) dict \<Rightarrow> string \<Rightarrow> container_spec" where
  "spec_of spec container = (case map_of spec container of None \<Rightarrow> \<lparr>requests = [], limits = []\<rparr> | Some c \<Rightarrow> c)"

definition set_cpu :: "usage_metric \<Rightarrow> rat \<Rightarrow> container_spec \<Rightarrow> container_spec" where
  "set_cpu m v_avg c =
     (if dict_has (requests c) ''cpu'' then c
      else c\<lparr>requests := dict_put ''cpu''
             (show_int (int_trunc (v_avg / (1000 * 1000) * (1 + REQUEST_UP))) @ ''m'') (requests c)\<rparr>)"

definition set_memory :: "usage_metric \<Rightarrow> rat \<Rightarrow> container_spec \<Rightarrow> container_spec" where
  "set_memory m v_p95 c =
     (let request = v_p95 / 1000 * (1 + REQUEST_UP); limit = request * (1 + LIMIT_UP) in
      if dict_has (requests c) ''memory'' then c
      else c\<lparr>requests := dict_put ''memory'' (show_int (int_trunc request) @ ''Mi'') (requests c),
             limits := dict_put ''memory'' (show_int (int_trunc limit) @ ''Mi'') (limits c)\<rparr>)"

definition usage_step ::
    "bool \<Rightarrow> string \<Rightarrow> (string, usage_metric) dict \<Rightarrow> string \<Rightarrow> (string, container_spec) dict \<Rightarrow> (string, container_spec) dict pyres" where
  "usage_step is_cpu container durations duration spec =
     bindE (dict_lookup durations duration) (\<lambda>m. Inr
       (case (usage_absent m, usage_p95 m, usage_avg m) of
          (Some ab, Some p, Some a) \<Rightarrow>
            if ab > 1 / 2 then spec
            else dict_put container ((if is_cpu then set_cpu m a else set_memory m p) (spec_of spec container)) spec
        | _ \<Rightarrow> spec))"

definition resource_specs :: "item_metrics \<Rightarrow> (string, container_spec) dict pyres" where
  "resource_specs ms =
     foldE (\<lambda>(is_cpu, usage) spec.
       foldE (\<lambda>(container, durations) spec.
         foldE (usage_step is_cpu container durations) [''run_duration'', ''600s''] spec) usage spec)
       [(True, metrics_server_cpu ms), (False, metrics_server_mem ms)] []"

section \<open>The index\<close>

definition index_item :: "(payload \<Rightarrow> string) \<Rightarrow> string \<times> estimation_item \<Rightarrow> resource_index \<Rightarrow> resource_index pyres" where
  "index_item hash_payload = (\<lambda>(key, item) index.
     case item_metrics item of
       None \<Rightarrow> Inr index
     | Some ms \<Rightarrow>
         bindE (unhealthy_channels ms) (\<lambda>unhealthy.
         bindE (if length (dict_keys unhealthy) \<noteq> 0 then
                  bindE (drop_channels (item_payload_config item) (dict_keys unhealthy)) (\<lambda>p. Inr (p, hash_payload p))
                else Inr (item_payload_config item, item_payload_hash item)) (\<lambda>(payload, payload_hash).
         case map_of index payload_hash of
           Some e \<Rightarrow>
             Inr (if item_symbol_distribution item \<in> set (symbol_distributions e) then index
                  else dict_put payload_hash
                    (e\<lparr>symbol_distributions := symbol_distributions e @ [item_symbol_distribution item]\<rparr>) index)
         | None \<Rightarrow>
             bindE (resource_specs ms) (\<lambda>spec.
               Inr (dict_put payload_hash
                 \<lparr>payload_config = payload, resource_spec = spec, symbol_distributions = [item_symbol_distribution item],
                  skipped_channels = (if length (dict_keys unhealthy) \<noteq> 0 then Some unhealthy else None)\<rparr> index)))))"

text \<open>The function returns inside its loop over the dates: the first date is the only one read, and
  without dates the result is \<open>None\<close>.\<close>

definition build_resource_index ::
    "(payload \<Rightarrow> string) \<Rightarrow> (string \<Rightarrow> (string, estimation_item) dict pyres) \<Rightarrow> string list \<Rightarrow> resource_index option pyres" where
  "build_resource_index hash_payload load resource_estimation_dates =
     (case resource_estimation_dates of
        [] \<Rightarrow> Inr None
      | date # _ \<Rightarrow>
          bindE (load date) (\<lambda>data. bindE (foldE (index_item hash_payload) data []) (\<lambda>index. Inr (Some index))))"

lemma only_the_first_date:
  "build_resource_index hash_payload load (date # dates) = build_resource_index hash_payload load [date]"
  by (simp add: build_resource_index_def)

section \<open>What an entry of the index is\<close>

lemma drop_fold:
  assumes "foldE (\<lambda>channel p. bindE (dict_lookup p exch) (\<lambda>chs.
      bindE (dict_del channel chs) (\<lambda>chs'. Inr (dict_put exch chs' p)))) channels payload = Inr p"
    "map_of payload exch = Some chs"
  shows "\<exists>chs'. map_of p exch = Some chs' \<and> (\<forall>ch. map_of chs' ch = (if ch \<in> set channels then None else map_of chs ch)) \<and>
    map fst p = map fst payload"
  using assms
proof (induction channels arbitrary: payload chs)
  case (Cons c channels)
  let ?p = "dict_put exch (AList.delete c chs) payload"
  from Cons.prems have "foldE (\<lambda>channel p. bindE (dict_lookup p exch) (\<lambda>chs.
      bindE (dict_del channel chs) (\<lambda>chs'. Inr (dict_put exch chs' p)))) channels ?p = Inr p" by auto
  from Cons.IH [OF this] obtain chs' where "map_of p exch = Some chs'"
    "\<forall>ch. map_of chs' ch = (if ch \<in> set channels then None else map_of (AList.delete c chs) ch)" "map fst p = map fst ?p" by auto
  moreover have "map fst ?p = map fst payload" using Cons.prems(2) by (force simp: update_keys dest: map_of_SomeD)
  ultimately show ?case by auto
qed simp

text \<open>The payload of an entry: the one of an item, without the channels that failed the checks.\<close>

definition healthy_part :: "payload \<Rightarrow> (string, unhealthy_reason) dict \<Rightarrow> payload \<Rightarrow> bool" where
  "healthy_part payload unhealthy p \<longleftrightarrow> (if unhealthy = [] then p = payload else map fst p = map fst payload \<and>
     (\<exists>chs chs'. map_of payload (hd (map fst payload)) = Some chs \<and> map_of p (hd (map fst payload)) = Some chs' \<and>
        (\<forall>ch. map_of chs' ch = (if dict_has unhealthy ch then None else map_of chs ch))))"

lemma drop_channels_healthy:
  assumes "drop_channels payload (map fst unhealthy) = Inr p" "unhealthy \<noteq> []"
  shows "healthy_part payload unhealthy p"
proof -
  from assms(1) obtain exch chs where payload: "payload \<noteq> []" "exch = hd (map fst payload)" "map_of payload exch = Some chs"
    "foldE (\<lambda>channel p. bindE (dict_lookup p exch) (\<lambda>chs.
      bindE (dict_del channel chs) (\<lambda>chs'. Inr (dict_put exch chs' p)))) (map fst unhealthy) payload = Inr p"
    by (cases payload) (auto simp: drop_channels_def py_nth_def)
  from drop_fold [OF payload(4,3)] payload(2,3) assms(2) show ?thesis
    by (auto simp: healthy_part_def dict_has_iff)
qed

definition entry_from :: "(payload \<Rightarrow> string) \<Rightarrow> (string, estimation_item) dict \<Rightarrow> string \<Rightarrow> index_entry \<Rightarrow> bool" where
  "entry_from hash_payload data h e \<longleftrightarrow> h = hash_payload (payload_config e) \<and>
     distinct (symbol_distributions e) \<and> set (symbol_distributions e) \<subseteq> item_symbol_distribution ` snd ` set data \<and>
     (\<exists>item\<in>snd ` set data. \<exists>ms unhealthy. item_metrics item = Some ms \<and> unhealthy_channels ms = Inr unhealthy \<and>
        healthy_part (item_payload_config item) unhealthy (payload_config e) \<and> resource_specs ms = Inr (resource_spec e))"

definition index_from :: "(payload \<Rightarrow> string) \<Rightarrow> (string, estimation_item) dict \<Rightarrow> resource_index \<Rightarrow> bool" where
  "index_from hash_payload data index \<longleftrightarrow> dict_wf index \<and> (\<forall>(h, e)\<in>set index. entry_from hash_payload data h e)"

lemma index_from_put:
  assumes "index_from hash_payload data index" "entry_from hash_payload data h e"
  shows "index_from hash_payload data (dict_put h e index)"
  using assms dict_wf_put [of index h e] by (force simp: index_from_def dest: dict_put_member)

lemma entry_from_distribution:
  "entry_from hash_payload data h e \<Longrightarrow> d \<in> item_symbol_distribution ` snd ` set data \<Longrightarrow> d \<notin> set (symbol_distributions e) \<Longrightarrow>
   entry_from hash_payload data h (e\<lparr>symbol_distributions := symbol_distributions e @ [d]\<rparr>)"
  by (simp add: entry_from_def)

lemma index_item_from:
  assumes "index_item hash_payload (key, item) index = Inr index'" "index_from hash_payload data index"
    "(key, item) \<in> set data" "item_payload_hash item = hash_payload (item_payload_config item)"
  shows "index_from hash_payload data index'"
proof (cases "item_metrics item")
  case None
  with assms(1,2) show ?thesis by (simp add: index_item_def)
next
  case (Some ms)
  from assms(1) Some obtain unhealthy payload where u: "unhealthy_channels ms = Inr unhealthy"
    "healthy_part (item_payload_config item) unhealthy payload"
    and store: "(case map_of index (hash_payload payload) of
           Some e \<Rightarrow>
             Inr (if item_symbol_distribution item \<in> set (symbol_distributions e) then index
                  else dict_put (hash_payload payload)
                    (e\<lparr>symbol_distributions := symbol_distributions e @ [item_symbol_distribution item]\<rparr>) index)
         | None \<Rightarrow>
             bindE (resource_specs ms) (\<lambda>spec.
               Inr (dict_put (hash_payload payload)
                 \<lparr>payload_config = payload, resource_spec = spec, symbol_distributions = [item_symbol_distribution item],
                  skipped_channels = (if unhealthy \<noteq> [] then Some unhealthy else None)\<rparr> index))) = Inr index'"
    using assms(4) drop_channels_healthy
    by (fastforce simp: index_item_def healthy_part_def split: if_splits)
  have dist: "item_symbol_distribution item \<in> item_symbol_distribution ` snd ` set data" using assms(3) by force
  show ?thesis
  proof (cases "map_of index (hash_payload payload)")
    case None
    with store obtain spec where spec: "resource_specs ms = Inr spec"
      "index' = dict_put (hash_payload payload)
        \<lparr>payload_config = payload, resource_spec = spec, symbol_distributions = [item_symbol_distribution item],
         skipped_channels = (if unhealthy \<noteq> [] then Some unhealthy else None)\<rparr> index" by auto
    have "item \<in> snd ` set data" using assms(3) by force
    then have "entry_from hash_payload data (hash_payload payload)
        \<lparr>payload_config = payload, resource_spec = spec, symbol_distributions = [item_symbol_distribution item],
         skipped_channels = (if unhealthy \<noteq> [] then Some unhealthy else None)\<rparr>"
      unfolding entry_from_def using dist Some u spec(1) by (intro conjI bexI [of _ item] exI) simp_all
    then show ?thesis unfolding spec(2) by (rule index_from_put [OF assms(2)])
  next
    case e: (Some e)
    then have "entry_from hash_payload data (hash_payload payload) e"
      using assms(2) by (auto simp: index_from_def dest!: map_of_SomeD)
    from store e consider "index' = index" | "item_symbol_distribution item \<notin> set (symbol_distributions e)"
        "index' = dict_put (hash_payload payload)
          (e\<lparr>symbol_distributions := symbol_distributions e @ [item_symbol_distribution item]\<rparr>) index"
      by (auto split: if_splits)
    then show ?thesis
      using \<open>entry_from hash_payload data (hash_payload payload) e\<close> dist assms(2)
      by cases (simp_all add: index_from_put entry_from_distribution)
  qed
qed

text \<open>The resource index is content-addressed: when the items of the file carry the hash of
  their payload, every entry is stored under the hash of its own payload, that payload is the one
  of an item without exactly its unhealthy channels, the requests are those of the item's metrics
  and the distributions are distinct ones of the file.\<close>

theorem index_is_content_addressed:
  assumes "build_resource_index hash_payload load dates = Inr (Some index)"
    "load (hd dates) = Inr data"
    "\<And>key item. (key, item) \<in> set data \<Longrightarrow> item_payload_hash item = hash_payload (item_payload_config item)"
  shows "index_from hash_payload data index"
proof -
  from assms(1,2) have "foldE (index_item hash_payload) data [] = Inr index"
    by (auto simp: build_resource_index_def split: list.splits)
  then show ?thesis
  proof (rule foldE_invariant)
    show "index_from hash_payload data []" by (simp add: index_from_def)
    fix x s s'
    assume "x \<in> set data" "index_from hash_payload data s" "index_item hash_payload x s = Inr s'"
    then show "index_from hash_payload data s'"
      using index_item_from [of hash_payload "fst x" "snd x" s s' data] assms(3) [of "fst x" "snd x"] by simp
  qed
qed

text \<open>Two pods of an estimation: all channels of the first are healthy, the only channel of the second is
  not.\<close>

definition sample_hash :: "payload \<Rightarrow> string" where
  "sample_hash p = concat (map (\<lambda>(ex, chs). ex @ concat (map fst chs)) p)"

definition sample_item :: "string \<Rightarrow> string \<Rightarrow> rat \<Rightarrow> estimation_item" where
  "sample_item b channel health =
     \<lparr>item_payload_hash = sample_hash [(''BINANCE'', [(channel, [b @ ''-USDT''])])],
      item_payload_config = [(''BINANCE'', [(channel, [b @ ''-USDT''])])], item_symbol_distribution = ''ONE_TO_ONE'',
      item_metrics = Some \<lparr>df_health = [(channel, [(b, \<lparr>absent = Some 0, avg = Some health\<rparr>)])],
        metrics_server_cpu = [(''redis'', [(''run_duration'', \<lparr>usage_absent = Some 0, usage_p95 = Some 1, usage_avg = Some 20000000\<rparr>),
          (''600s'', \<lparr>usage_absent = Some 0, usage_p95 = Some 1, usage_avg = Some 30000000\<rparr>)])],
        metrics_server_mem = [(''redis'', [(''run_duration'', \<lparr>usage_absent = None, usage_p95 = None, usage_avg = None\<rparr>),
          (''600s'', \<lparr>usage_absent = Some 0, usage_p95 = Some 40000, usage_avg = Some 1\<rparr>)])]\<rparr>\<rparr>"

definition sample_data :: "(string, estimation_item) dict" where
  "sample_data = [(''pod-0'', sample_item ''BTC'' ''trades'' 1), (''pod-1'', sample_item ''ETH'' ''ticker'' 0)]"

definition sample_index :: resource_index where
  "sample_index = [(''BINANCEtrades'', \<lparr>payload_config = [(''BINANCE'', [(''trades'', [''BTC-USDT''])])],
       resource_spec = [(''redis'', \<lparr>requests = [(''cpu'', ''22m''), (''memory'', ''44Mi'')], limits = [(''memory'', ''66Mi'')]\<rparr>)],
       symbol_distributions = [''ONE_TO_ONE''], skipped_channels = None\<rparr>),
     (''BINANCE'', \<lparr>payload_config = [(''BINANCE'', [])],
       resource_spec = [(''redis'', \<lparr>requests = [(''cpu'', ''22m''), (''memory'', ''44Mi'')], limits = [(''memory'', ''66Mi'')]\<rparr>)],
       symbol_distributions = [''ONE_TO_ONE''], skipped_channels = Some [(''ticker'', AVG_THRESH 0)]\<rparr>)]"

lemma sample_index_built:
  "build_resource_index sample_hash (\<lambda>date. Inr sample_data) [''d1'', ''d2''] = Inr (Some sample_index)"
  by code_simp

theorem index_is_content_addressed_witness: "index_from sample_hash sample_data sample_index"
proof (rule index_is_content_addressed [OF sample_index_built])
  show "item_payload_hash item = sample_hash (item_payload_config item)" if "(key, item) \<in> set sample_data" for key item
    using that by (auto simp: sample_data_def sample_item_def)
qed simp

text \<open>An entry without channels makes every distribution that tries the entry raise, whatever its
  symbols.\<close>

lemma entry_without_channels_raises:
  "distribute_reusing_index ''BINANCE'' [sample_symbol ''XRP''] ''ONE_TO_ONE'' sample_index = Some (Inl IndexError)"
  by (simp add: distribute_reusing_index_def reuse_loop.simps reuse_entry_def payload_symbols_def py_nth_def dict_lookup_def
      sample_index_def sample_symbol_def)

end
