(* ===== verification/PodConfigs.thy ===== *)
theory PodConfigs
  imports ResourceIndex "HOL-Library.Char_ord" "HOL-Library.List_Lexorder"
begin

text \<open>
  gen_configs.py, the configurations of the data feed pods: the symbols of an exchange
  configuration, the data feed configuration of a pod with its overrides and its payload, the pod
  configurations with their hashes, labels and resources, the counters of the summary and the
  mapping of clusters. The libraries, the YAML template, the hashes and the labels of an image are
  fields of an environment; the tables the script keeps are a state.
\<close>

section \<open>Configurations\<close>

datatype symbol_ref = Explicit "string list" | NamedSet string

record exchange_config =
  launchOnDeploy :: "bool option"
  instrumentType :: string
  symbolPodDistributionStrategy :: string
  bases_ref :: symbol_ref
  quotes_ref :: symbol_ref
  explicit_symbols :: "(string \<times> string) list"
  exclude_bases_ref :: symbol_ref
  exclude_quotes_ref :: symbol_ref
  channels :: "string list"
  dataFeedImageVersion :: string
  clusterId :: string
  dataFeedConfigOverrides :: pydict
  exchangeConfigOverrides :: pydict
  channelsConfigOverrides :: "(string, pydict) dict"
  numPods :: "int option"

record gen_env =
  symbol_sets :: "(string, string list) dict"
  normalize :: "string \<Rightarrow> string \<Rightarrow> string \<Rightarrow> string"
  exchange_symbols :: "string \<Rightarrow> string list pyres"
  channel_exists :: "string \<Rightarrow> string \<Rightarrow> bool"
  config_template :: pydict
  hash_payload :: "payload \<Rightarrow> string"
  hash_config :: "pydict \<Rightarrow> string"
  yaml_dump :: "pydict \<Rightarrow> string"
  latest_labels :: "string \<Rightarrow> pyval pyres"
  RESOURCE_INDEX :: resource_index

record counters =
  skipped_payloads_count :: nat
  set_payloads_count :: nat
  total_count :: nat

record gen_state =
  BUILD_INFO_LOOKUP :: "(string, pyval) dict"
  SUMMARY :: "(string \<times> string \<times> string, counters) dict"

definition read_symbol_set :: "gen_env \<Rightarrow> symbol_ref \<Rightarrow> string list pyres" where
  "read_symbol_set env r = (case r of Explicit l \<Rightarrow> Inr l | NamedSet n \<Rightarrow> dict_lookup (symbol_sets env) n)"

definition make_symbol :: "gen_env \<Rightarrow> string \<Rightarrow> string \<times> string \<Rightarrow> symbol" where
  "make_symbol env itype p = \<lparr>base = fst p, quote = snd p, normalized = normalize env (fst p) (snd p) itype\<rparr>"

definition config_symbols :: "gen_env \<Rightarrow> exchange_config \<Rightarrow> symbol list pyres" where
  "config_symbols env ec =
     bindE (read_symbol_set env (bases_ref ec)) (\<lambda>bases.
     bindE (read_symbol_set env (quotes_ref ec)) (\<lambda>quotes.
     bindE (read_symbol_set env (exclude_bases_ref ec)) (\<lambda>exclude_bases.
     bindE (read_symbol_set env (exclude_quotes_ref ec)) (\<lambda>exclude_quotes.
       Inr (filter_excludes exclude_bases exclude_quotes
         (map (make_symbol env (instrumentType ec)) (explicit_symbols ec @ [(b, q). q \<leftarrow> quotes, b \<leftarrow> bases])))))))"

definition validate_config :: "gen_env \<Rightarrow> string \<Rightarrow> exchange_config \<Rightarrow> symbol list \<Rightarrow> unit pyres" where
  "validate_config env exchange ec symbols =
     bindE (exchange_symbols env exchange) (\<lambda>known.
       if list_ex (\<lambda>s. normalized s \<notin> set known) symbols then Inl ValueError
       else if list_ex (\<lambda>c. \<not> channel_exists env exchange c) (channels ec) then Inl ValueError
       else Inr ())"

section \<open>The configuration of a data feed\<close>

text \<open>\<open>v[key] = x\<close> on a dynamic value: a list takes no string.\<close>

fun pv_set :: "pyval \<Rightarrow> string \<Rightarrow> pyval \<Rightarrow> pyval pyres" where
  "pv_set (PDict d) k v = Inr (PDict (dict_put k v d))"
| "pv_set _ k v = Inl TypeError"

definition get_in :: "pydict \<Rightarrow> string \<Rightarrow> string \<Rightarrow> pyval pyres" where
  "get_in config a b = bindE (dict_lookup config a) (\<lambda>c. pv_get c b)"

definition set_in :: "pydict \<Rightarrow> string \<Rightarrow> string \<Rightarrow> pyval \<Rightarrow> pydict pyres" where
  "set_in config a b v = bindE (dict_lookup config a) (\<lambda>c. bindE (pv_set c b v) (\<lambda>c'. Inr (dict_put a c' config)))"

definition names_val :: "symbol list \<Rightarrow> pyval" where
  "names_val symbols = PList (map (PStr \<circ> normalized) symbols)"

definition channels_config :: "symbol list \<Rightarrow> string list \<Rightarrow> (string, pydict) dict \<Rightarrow> pydict pyres" where
  "channels_config symbols chs overrides =
     foldE (\<lambda>(channel, ks) config. foldE (\<lambda>(k, v) config. set_in config channel k v) ks config) overrides
       (fold (\<lambda>c config. dict_put c
          (if c \<in> {''l2_book'', ''l3_book''} then PDict [(''symbols'', names_val symbols)] else names_val symbols) config) chs [])"

definition payload_config_of :: "string \<Rightarrow> symbol list \<Rightarrow> string list \<Rightarrow> payload" where
  "payload_config_of exchange symbols chs =
     [(exchange, fold (\<lambda>c d. dict_put c (sort (map normalized symbols)) d) (sort chs) [])]"

definition payload_val :: "payload \<Rightarrow> pyval" where
  "payload_val p = PDict (map (\<lambda>(ex, chs). (ex, PDict (map (\<lambda>(c, ns). (c, PList (map PStr ns))) chs))) p)"

definition hash_short :: "string \<Rightarrow> string" where
  "hash_short h = take 10 h"

text \<open>The values of overrides are taken to be the pod's own. In the script they are the objects of the
  master configuration: an override of \<open>svoe\<close>, \<open>prometheus\<close> or \<open>exchanges\<close>, dictionaries the script
  later assigns into, would be shared by the pods of the exchange; the master configuration
  overrides none of them.\<close>

definition data_feed_config :: "gen_env \<Rightarrow> string \<Rightarrow> exchange_config \<Rightarrow> symbol list \<Rightarrow> pydict pyres" where
  "data_feed_config env exchange ec symbols =
     (let config = fold (\<lambda>(k, v) c. dict_put k v c) (dataFeedConfigOverrides ec) (config_template env) in
      bindE (channels_config symbols (channels ec) (channelsConfigOverrides ec)) (\<lambda>chs.
      let config = (if dict_has config ''exchanges'' then config else dict_put ''exchanges'' (PDict []) config) in
      bindE (set_in config ''exchanges'' exchange (PDict chs)) (\<lambda>config.
      bindE (foldE (\<lambda>(k, v) config.
          bindE (get_in config ''exchanges'' exchange) (\<lambda>e.
          bindE (pv_set e k v) (\<lambda>e'. set_in config ''exchanges'' exchange e'))) (exchangeConfigOverrides ec) config) (\<lambda>config.
      let payload = payload_config_of exchange symbols (channels ec) in
      Inr (dict_put ''payload_hash'' (PStr (hash_short (hash_payload env payload)))
            (dict_put ''payload_config'' (payload_val payload) config))))))"

section \<open>Pod configurations\<close>

datatype label = LStr string | LBool bool

record pod_config =
  pod_name :: string
  pod_exchange :: string
  pod_instrument_type :: string
  pod_symbols :: "symbol list"
  pod_image_version :: string
  redis_port :: pyval
  prometheus_metrics_port :: pyval
  prometheus_multiproc_dir :: pyval
  data_feed_health_path :: pyval
  data_feed_health_port :: pyval
  pod_data_feed_config :: string
  pod_cluster_id :: string
  labels :: "(string, label) dict"
  launch_on_deploy :: bool
  data_feed_resources :: "(string, container_spec) dict option"

text \<open>\<open>_get_build_info\<close> remembers the labels of a version; falsy labels are an exception.\<close>

definition get_build_info :: "gen_env \<Rightarrow> string \<Rightarrow> gen_state \<Rightarrow> (pyval \<times> gen_state) pyres" where
  "get_build_info env version st =
     (case map_of (BUILD_INFO_LOOKUP st) version of
        Some info \<Rightarrow> Inr (info, st)
      | None \<Rightarrow>
          bindE (latest_labels env version) (\<lambda>info.
            if \<not> truthy info then Inl PlainException
            else Inr (info, st\<lparr>BUILD_INFO_LOOKUP := dict_put version info (BUILD_INFO_LOOKUP st)\<rparr>)))"

definition feed_pod_name :: "string \<Rightarrow> string \<Rightarrow> string \<Rightarrow> string" where
  "feed_pod_name exchange itype short =
     dashes (py_lower (''data-feed-'' @ exchange @ ''-'' @ itype @ ''-'' @ short))"

text \<open>The hash of a configuration is taken before the version, the short hash and the directory are
  set.\<close>

definition hashify ::
    "gen_env \<Rightarrow> exchange_config \<Rightarrow> pydict \<Rightarrow> gen_state \<Rightarrow> (string \<times> pydict \<times> gen_state) pyres" where
  "hashify env ec config st =
     bindE (set_in config ''svoe'' ''instrument_type'' (PStr (instrumentType ec))) (\<lambda>config.
     bindE (set_in config ''svoe'' ''data_feed_image_version'' (PStr (dataFeedImageVersion ec))) (\<lambda>config.
     bindE (set_in config ''svoe'' ''cluster_id'' (PStr (clusterId ec))) (\<lambda>config.
     bindE (set_in config ''svoe'' ''symbol_distribution'' (PStr (symbolPodDistributionStrategy ec))) (\<lambda>config.
     bindE (get_build_info env (dataFeedImageVersion ec) st) (\<lambda>(info, st).
     let config = dict_put ''build_info'' info config; h = hash_config env config in
     bindE (set_in config ''svoe'' ''version'' (PStr h)) (\<lambda>config.
     bindE (set_in config ''svoe'' ''hash_short'' (PStr (hash_short h))) (\<lambda>config.
     bindE (get_in config ''prometheus'' ''multiproc_dir_prefix'') (\<lambda>prefix.
     bindE (case prefix of PStr s \<Rightarrow> Inr (PStr (s @ ''_'' @ hash_short h)) | _ \<Rightarrow> Inl TypeError) (\<lambda>dir.
     bindE (set_in config ''prometheus'' ''multiproc_dir'' dir) (\<lambda>config. Inr (h, config, st)))))))))))"

definition quote_label :: "label \<Rightarrow> label" where
  "quote_label l = (case l of LStr s \<Rightarrow> LStr (''\"'' @ s @ ''\"'') | LBool b \<Rightarrow> LBool b)"

definition pod_labels ::
    "string \<Rightarrow> exchange_config \<Rightarrow> string \<Rightarrow> string \<Rightarrow> string \<Rightarrow> symbol list \<Rightarrow> (string, label) dict" where
  "pod_labels exchange ec h name payload_hash symbols =
     (let fixed = [(''svoe.service'', LStr ''data-feed''), (''svoe.version'', LStr h), (''svoe.hash-short'', LStr (hash_short h)),
            (''svoe.instrument-type'', LStr (instrumentType ec)), (''svoe.exchange'', LStr exchange), (''svoe.name'', LStr name),
            (''svoe.cluster-id'', LStr (clusterId ec)), (''svoe.data-feed-image-version'', LStr (dataFeedImageVersion ec)),
            (''svoe.payload-hash'', LStr payload_hash), (''svoe.symbol-distribution'', LStr (symbolPodDistributionStrategy ec))];
          of_symbols = fold (\<lambda>s d. dict_put (''svoe.symbol.'' @ normalized s) (LBool True)
            (dict_put (''svoe.quote.'' @ quote s) (LBool True) (dict_put (''svoe.base.'' @ base s) (LBool True) d))) symbols fixed;
          of_channels = fold (\<lambda>c d. dict_put (''svoe.channel.'' @ c) (LBool True) d) (channels ec) of_symbols
      in map (\<lambda>(k, l). (k, quote_label l)) of_channels)"

definition pod_resources :: "(string, container_spec) dict \<Rightarrow> (string, container_spec) dict" where
  "pod_resources spec =
     fold (\<lambda>c d. case map_of spec c of None \<Rightarrow> d | Some r \<Rightarrow> dict_put c r d) [''data-feed-container'', ''redis'', ''redis-exporter''] []"

definition count_payload :: "string \<times> string \<times> string \<Rightarrow> nat \<Rightarrow> bool \<Rightarrow> gen_state \<Rightarrow> gen_state" where
  "count_payload key pods_count has_resources st =
     (let c = (case map_of (SUMMARY st) key of
          None \<Rightarrow> \<lparr>skipped_payloads_count = 0, set_payloads_count = 0, total_count = pods_count\<rparr> | Some c \<Rightarrow> c)
      in st\<lparr>SUMMARY := dict_put key
             (if has_resources then c\<lparr>set_payloads_count := set_payloads_count c + 1\<rparr>
              else c\<lparr>skipped_payloads_count := skipped_payloads_count c + 1\<rparr>) (SUMMARY st)\<rparr>)"

definition build_pod ::
    "gen_env \<Rightarrow> string \<Rightarrow> exchange_config \<Rightarrow> nat \<Rightarrow> symbol list \<times> pydict \<Rightarrow> pod_config list \<times> gen_state
     \<Rightarrow> (pod_config list \<times> gen_state) pyres" where
  "build_pod env exchange ec pods_count = (\<lambda>(symbols, config) (pods, st).
     bindE (hashify env ec config st) (\<lambda>(h, config, st).
     let name = feed_pod_name exchange (instrumentType ec) (hash_short h) in
     bindE (case map_of config ''payload_hash'' of Some (PStr ph) \<Rightarrow> Inr ph | Some _ \<Rightarrow> Inl TypeError | None \<Rightarrow> Inl KeyError) (\<lambda>ph.
     bindE (get_in config ''redis'' ''port'') (\<lambda>redis.
     bindE (get_in config ''prometheus'' ''port'') (\<lambda>prom_port.
     bindE (get_in config ''prometheus'' ''multiproc_dir'') (\<lambda>prom_dir.
     bindE (get_in config ''health_check'' ''path'') (\<lambda>health_path.
     bindE (get_in config ''health_check'' ''port'') (\<lambda>health_port.
     let indexed = map_of (RESOURCE_INDEX env) ph;
         pod = \<lparr>pod_name = name, pod_exchange = exchange, pod_instrument_type = instrumentType ec, pod_symbols = symbols,
           pod_image_version = dataFeedImageVersion ec, redis_port = redis, prometheus_metrics_port = prom_port,
           prometheus_multiproc_dir = prom_dir, data_feed_health_path = health_path, data_feed_health_port = health_port,
           pod_data_feed_config = yaml_dump env config, pod_cluster_id = clusterId ec,
           labels = dict_put ''svoe.has-resources'' (LBool (indexed \<noteq> None)) (pod_labels exchange ec h name ph symbols),
           launch_on_deploy = (launchOnDeploy ec = Some True),
           data_feed_resources = map_option (\<lambda>e. pod_resources (resource_spec e)) indexed\<rparr>
     in Inr (pods @ [pod],
             count_payload (exchange, instrumentType ec, symbolPodDistributionStrategy ec) pods_count (indexed \<noteq> None) st)))))))))"

definition build_pod_configs ::
    "gen_env \<Rightarrow> string \<Rightarrow> exchange_config \<Rightarrow> gen_state \<Rightarrow> (pod_config list \<times> gen_state) pyres option" where
  "build_pod_configs env exchange ec st =
     (case bindE (config_symbols env ec) (\<lambda>symbols. bindE (validate_config env exchange ec symbols) (\<lambda>_. Inr symbols)) of
        Inl e \<Rightarrow> Some (Inl e)
      | Inr symbols \<Rightarrow>
          (case distribute_reusing_index exchange symbols (symbolPodDistributionStrategy ec) (RESOURCE_INDEX env) of
             None \<Rightarrow> None
           | Some r \<Rightarrow> Some (bindE r (\<lambda>mapping.
               bindE (mapE (\<lambda>(pod_id, syms). bindE (data_feed_config env exchange ec syms) (\<lambda>config. Inr (syms, config))) mapping) (\<lambda>configs.
               bindE (foldE (build_pod env exchange ec (length mapping)) configs ([], st)) (\<lambda>(pods, st').
               case numPods ec of
                 None \<Rightarrow> Inr (pods, st')
               | Some n \<Rightarrow> if n > int (length mapping) then Inl ValueError else Inr (py_slice pods 0 n, st')))))))"

text \<open>The pods of all exchanges, and the mapping of clusters to their pods.\<close>

fun all_pod_configs ::
    "gen_env \<Rightarrow> (string \<times> exchange_config) list \<Rightarrow> gen_state \<Rightarrow> (pod_config list \<times> gen_state) pyres option" where
  "all_pod_configs env [] st = Some (Inr ([], st))"
| "all_pod_configs env ((exchange, ec) # ecs) st =
     (case build_pod_configs env exchange ec st of
        None \<Rightarrow> None
      | Some (Inl e) \<Rightarrow> Some (Inl e)
      | Some (Inr (pods, st')) \<Rightarrow>
          (case all_pod_configs env ecs st' of
             None \<Rightarrow> None
           | Some r \<Rightarrow> Some (bindE r (\<lambda>(rest, st''). Inr (pods @ rest, st'')))))"

definition cluster_mapping :: "pod_config list \<Rightarrow> (string, pod_config list) dict" where
  "cluster_mapping pods =
     fold (\<lambda>p m. dict_put (pod_cluster_id p)
       (case map_of m (pod_cluster_id p) of Some ps \<Rightarrow> ps @ [p] | None \<Rightarrow> [p]) m) pods []"

definition gen_helm_values ::
    "gen_env \<Rightarrow> (string, exchange_config list) dict \<Rightarrow> gen_state \<Rightarrow> (string, pod_config list) dict pyres option" where
  "gen_helm_values env exchangeConfigSets st =
     (case all_pod_configs env (concat (map (\<lambda>(ex, ecs). map (Pair ex) ecs) exchangeConfigSets)) st of
        None \<Rightarrow> None
      | Some r \<Rightarrow> Some (bindE r (\<lambda>(pods, st'). Inr (cluster_mapping pods))))"

section \<open>The pods of a configuration\<close>

lemma cluster_mapping_fold:
  "map_of (fold (\<lambda>p m. dict_put (pod_cluster_id p)
       (case map_of m (pod_cluster_id p) of Some ps \<Rightarrow> ps @ [p] | None \<Rightarrow> [p]) m) pods m) c =
   (case map_of m c of
      Some ps \<Rightarrow> Some (ps @ filter (\<lambda>p. pod_cluster_id p = c) pods)
    | None \<Rightarrow> if filter (\<lambda>p. pod_cluster_id p = c) pods = [] then None else Some (filter (\<lambda>p. pod_cluster_id p = c) pods))"
  by (induction pods arbitrary: m) (auto split: option.splits)

lemma cluster_mapping_get:
  "map_of (cluster_mapping pods) c =
     (let ps = filter (\<lambda>p. pod_cluster_id p = c) pods in if ps = [] then None else Some ps)"
  by (simp add: cluster_mapping_def cluster_mapping_fold)

definition counted :: "gen_state \<Rightarrow> string \<times> string \<times> string \<Rightarrow> nat" where
  "counted st key = (case map_of (SUMMARY st) key of None \<Rightarrow> 0 | Some c \<Rightarrow> skipped_payloads_count c + set_payloads_count c)"

lemma counted_count_payload:
  "counted (count_payload key n b st) key = Suc (counted st key)"
  "counted (count_payload key n b st) key' = (if key' = key then Suc (counted st key) else counted st key')"
  by (auto simp: counted_def count_payload_def Let_def split: option.split)

lemma get_build_info_summary: "get_build_info env v st = Inr (info, st') \<Longrightarrow> SUMMARY st' = SUMMARY st"
  by (auto simp: get_build_info_def split: option.splits if_splits)

lemma hashify_summary: "hashify env ec config st = Inr (h, config', st') \<Longrightarrow> SUMMARY st' = SUMMARY st"
  by (auto simp: hashify_def Let_def dest: get_build_info_summary)

text \<open>A pod is labelled as having resources exactly when it has them.\<close>

definition pod_ok :: "gen_env \<Rightarrow> string \<Rightarrow> exchange_config \<Rightarrow> pod_config \<Rightarrow> bool" where
  "pod_ok env exchange ec p \<longleftrightarrow> pod_exchange p = exchange \<and> pod_cluster_id p = clusterId ec \<and>
     map_of (labels p) ''svoe.has-resources'' = Some (LBool (data_feed_resources p \<noteq> None))"

lemma build_pod_spec:
  assumes "build_pod env exchange ec n (symbols, config) (pods, st) = Inr (pods', st')"
  shows "\<exists>p. pods' = pods @ [p] \<and> pod_symbols p = symbols \<and> pod_ok env exchange ec p \<and>
    counted st' (exchange, instrumentType ec, symbolPodDistributionStrategy ec) =
      Suc (counted st (exchange, instrumentType ec, symbolPodDistributionStrategy ec))"
proof -
  from assms obtain h config' st1 where "hashify env ec config st = Inr (h, config', st1)" by (auto simp: build_pod_def)
  from hashify_summary [OF this] have "counted st1 key = counted st key" for key by (simp add: counted_def)
  with assms \<open>hashify env ec config st = Inr (h, config', st1)\<close> show ?thesis
    by (auto simp: build_pod_def Let_def pod_ok_def counted_count_payload)
qed

lemma build_pods_spec:
  assumes "foldE (build_pod env exchange ec n) configs (pods, st) = Inr (pods', st')"
  shows "\<exists>new. pods' = pods @ new \<and> map pod_symbols new = map fst configs \<and> list_all (pod_ok env exchange ec) new \<and>
    counted st' (exchange, instrumentType ec, symbolPodDistributionStrategy ec) =
      counted st (exchange, instrumentType ec, symbolPodDistributionStrategy ec) + length configs"
  using assms
proof (induction configs arbitrary: pods st)
  case (Cons c configs)
  obtain symbols config where c: "c = (symbols, config)" by (cases c)
  from Cons.prems obtain pods1 st1 where one: "build_pod env exchange ec n (symbols, config) (pods, st) = Inr (pods1, st1)"
    "foldE (build_pod env exchange ec n) configs (pods1, st1) = Inr (pods', st')" by (auto simp: c)
  from build_pod_spec [OF one(1)] obtain p where p: "pods1 = pods @ [p]" "pod_symbols p = symbols" "pod_ok env exchange ec p"
    "counted st1 (exchange, instrumentType ec, symbolPodDistributionStrategy ec) =
      Suc (counted st (exchange, instrumentType ec, symbolPodDistributionStrategy ec))" by blast
  from Cons.IH [OF one(2)] obtain new where "pods' = pods1 @ new" "map pod_symbols new = map fst configs"
    "list_all (pod_ok env exchange ec) new"
    "counted st' (exchange, instrumentType ec, symbolPodDistributionStrategy ec) =
      counted st1 (exchange, instrumentType ec, symbolPodDistributionStrategy ec) + length configs" by blast
  with p c show ?case by (intro exI [of _ "p # new"]) simp
qed simp

lemma pods_of_buckets:
  assumes "mapE (\<lambda>(pod_id, syms). bindE (data_feed_config env exchange ec syms) (\<lambda>config. Inr (syms, config))) buckets = Inr configs"
    and "foldE (build_pod env exchange ec (length buckets)) configs ([], st) = Inr (all, st')"
    and cut: "(case numPods ec of None \<Rightarrow> Inr (all, st')
             | Some n \<Rightarrow> if n > int (length buckets) then Inl ValueError else Inr (py_slice all 0 n, st')) = Inr (pods, st'')"
  shows "map pod_symbols pods = (case numPods ec of None \<Rightarrow> map snd buckets | Some n \<Rightarrow> py_slice (map snd buckets) 0 n)"
    and "list_all (pod_ok env exchange ec) pods"
    and "counted st'' (exchange, instrumentType ec, symbolPodDistributionStrategy ec) =
      counted st (exchange, instrumentType ec, symbolPodDistributionStrategy ec) + length buckets"
proof -
  from assms(1) have configs: "map fst configs = map snd buckets"
    by (induction buckets arbitrary: configs) auto
  from build_pods_spec [OF assms(2)] configs
  have all: "map pod_symbols all = map snd buckets" "list_all (pod_ok env exchange ec) all"
    "counted st' (exchange, instrumentType ec, symbolPodDistributionStrategy ec) =
      counted st (exchange, instrumentType ec, symbolPodDistributionStrategy ec) + length buckets"
    by (auto dest: map_eq_imp_length_eq)
  from cut all show "map pod_symbols pods = (case numPods ec of None \<Rightarrow> map snd buckets | Some n \<Rightarrow> py_slice (map snd buckets) 0 n)"
    "list_all (pod_ok env exchange ec) pods"
    "counted st'' (exchange, instrumentType ec, symbolPodDistributionStrategy ec) =
      counted st (exchange, instrumentType ec, symbolPodDistributionStrategy ec) + length buckets"
    by (auto simp: list_all_py_slice simp flip: py_slice_map split: option.splits if_splits)
qed

lemma build_pod_configs_returns: "\<exists>r. build_pod_configs env exchange ec st = Some r"
proof -
  have "\<exists>r. distribute_reusing_index exchange symbols (symbolPodDistributionStrategy ec) (RESOURCE_INDEX env) = Some r" for symbols
    by (rule index_distribution_returns)
  then show ?thesis by (auto simp: build_pod_configs_def split: sum.split option.split) (metis option.distinct(1))
qed

lemma all_pod_configs_returns: "\<exists>r. all_pod_configs env ecs st = Some r"
proof (induction env ecs st rule: all_pod_configs.induct)
  case (2 env exchange ec ecs st)
  then show ?case using build_pod_configs_returns [of env exchange ec st]
    by (auto split: sum.split option.split) blast+
qed simp

text \<open>C21. The pods of an exchange configuration. When building them does not raise, there is a pod
  for every bucket of a distribution of symbols the exchange has, in order and with the symbols of
  the bucket (the first \<open>numPods\<close> of them when that is set and not negative), every pod carries its
  exchange and cluster and is labelled as having resources exactly when it has, and the summary
  counts each bucket once, those cut off by \<open>numPods\<close> included.\<close>

theorem pods_cover_the_distribution:
  assumes built: "build_pod_configs env exchange ec st = Some (Inr (pods, st'))"
  shows "\<exists>symbols buckets known.
    distribute_reusing_index exchange symbols (symbolPodDistributionStrategy ec) (RESOURCE_INDEX env) = Some (Inr buckets) \<and>
    config_symbols env ec = Inr symbols \<and>
    exchange_symbols env exchange = Inr known \<and> normalized ` set symbols \<subseteq> set known \<and>
    map pod_symbols pods = (case numPods ec of None \<Rightarrow> map snd buckets | Some n \<Rightarrow> py_slice (map snd buckets) 0 n) \<and>
    list_all (pod_ok env exchange ec) pods \<and>
    counted st' (exchange, instrumentType ec, symbolPodDistributionStrategy ec) =
      counted st (exchange, instrumentType ec, symbolPodDistributionStrategy ec) + length buckets"
proof -
  from built obtain symbols where symbols: "config_symbols env ec = Inr symbols" "validate_config env exchange ec symbols = Inr ()"
    by (auto simp: build_pod_configs_def split: sum.splits)
  then obtain known where known: "exchange_symbols env exchange = Inr known" "normalized ` set symbols \<subseteq> set known"
    by (auto simp: validate_config_def list_ex_iff split: if_splits)
  from built symbols obtain buckets configs all st1 where
    "distribute_reusing_index exchange symbols (symbolPodDistributionStrategy ec) (RESOURCE_INDEX env) = Some (Inr buckets)"
    "mapE (\<lambda>(pod_id, syms). bindE (data_feed_config env exchange ec syms) (\<lambda>config. Inr (syms, config))) buckets = Inr configs"
    "foldE (build_pod env exchange ec (length buckets)) configs ([], st) = Inr (all, st1)"
    "(case numPods ec of None \<Rightarrow> Inr (all, st1)
      | Some n \<Rightarrow> if n > int (length buckets) then Inl ValueError else Inr (py_slice all 0 n, st1)) = Inr (pods, st')"
    by (auto simp: build_pod_configs_def split: option.splits)
  from this(1) pods_of_buckets [OF this(2-4)] symbols(1) known show ?thesis by blast
qed


definition sample_env :: gen_env where
  "sample_env = \<lparr>symbol_sets = [], normalize = (\<lambda>b q t. b @ ''-'' @ q),
     exchange_symbols = (\<lambda>e. Inr [''BTC-USDT'']), channel_exists = (\<lambda>e c. True),
     config_template = [(''svoe'', PDict []), (''redis'', PDict [(''port'', PInt 6379)]),
       (''prometheus'', PDict [(''port'', PInt 8000), (''multiproc_dir_prefix'', PStr ''/tmp/m'')]),
       (''health_check'', PDict [(''path'', PStr ''/h''), (''port'', PInt 1234)])],
     hash_payload = (\<lambda>p. ''0123456789abcdef''), hash_config = (\<lambda>c. ''fedcba9876543210''), yaml_dump = (\<lambda>c. ''yaml''),
     latest_labels = (\<lambda>v. Inr (PDict [(''v'', PStr v)])), RESOURCE_INDEX = []\<rparr>"

definition sample_config :: exchange_config where
  "sample_config = \<lparr>launchOnDeploy = None, instrumentType = ''spot'', symbolPodDistributionStrategy = ''ONE_TO_ONE'',
     bases_ref = Explicit [''BTC''], quotes_ref = Explicit [''USDT''], explicit_symbols = [],
     exclude_bases_ref = Explicit [], exclude_quotes_ref = Explicit [], channels = [''l2_book'', ''trades''],
     dataFeedImageVersion = ''v1'', clusterId = ''1'', dataFeedConfigOverrides = [], exchangeConfigOverrides = [],
     channelsConfigOverrides = [], numPods = None\<rparr>"

abbreviation btc_usdt_symbol :: symbol where
  "btc_usdt_symbol \<equiv> \<lparr>base = ''BTC'', quote = ''USDT'', normalized = ''BTC-USDT''\<rparr>"

lemma sample_symbols:
  "config_symbols sample_env sample_config = Inr [btc_usdt_symbol]"
  "validate_config sample_env ''BINANCE_FUTURES'' sample_config [btc_usdt_symbol] = Inr ()"
  by code_simp+

lemma sample_distribution:
  "distribute_reusing_index ''BINANCE_FUTURES'' [btc_usdt_symbol] ''ONE_TO_ONE'' [] = Some (Inr [(0, [btc_usdt_symbol])])"
  by (simp add: distribute_reusing_index_def reuse_loop.simps leftover_buckets_def BUCKET_SIZE_def)

lemma sample_pods:
  "\<exists>pods st. build_pod_configs sample_env ''BINANCE_FUTURES'' sample_config \<lparr>BUILD_INFO_LOOKUP = [], SUMMARY = []\<rparr> = Some (Inr (pods, st)) \<and>
     map pod_name pods = [''data-feed-binance-futures-spot-fedcba9876''] \<and>
     map_of (labels (pods ! 0)) ''svoe.payload-hash'' = Some (LStr (''\"'' @ ''0123456789'' @ ''\"''))"
proof -
  let ?R = "bindE (mapE (\<lambda>(pod_id, syms). bindE (data_feed_config sample_env ''BINANCE_FUTURES'' sample_config syms) (\<lambda>config. Inr (syms, config)))
        [(0::nat, [btc_usdt_symbol])]) (\<lambda>configs.
      foldE (build_pod sample_env ''BINANCE_FUTURES'' sample_config 1) configs ([], \<lparr>BUILD_INFO_LOOKUP = [], SUMMARY = []\<rparr>))"
  have "case ?R of Inr (pods, st) \<Rightarrow> map pod_name pods = [''data-feed-binance-futures-spot-fedcba9876''] \<and>
      map_of (labels (pods ! 0)) ''svoe.payload-hash'' = Some (LStr (''\"'' @ ''0123456789'' @ ''\"'')) | _ \<Rightarrow> False"
    by code_simp
  moreover have "numPods sample_config = None" "symbolPodDistributionStrategy sample_config = ''ONE_TO_ONE''"
    "RESOURCE_INDEX sample_env = []" by (simp_all add: sample_config_def sample_env_def)
  ultimately show ?thesis
    by (auto simp: build_pod_configs_def sample_symbols sample_distribution split: sum.splits)
qed

theorem pods_cover_the_distribution_witness:
  "\<exists>pods st' (buckets :: (nat \<times> symbol list) list).
     build_pod_configs sample_env ''BINANCE_FUTURES'' sample_config \<lparr>BUILD_INFO_LOOKUP = [], SUMMARY = []\<rparr> = Some (Inr (pods, st')) \<and>
     map pod_symbols pods = map snd buckets \<and> counted st' (''BINANCE_FUTURES'', ''spot'', ''ONE_TO_ONE'') = length buckets \<and>
     map pod_name pods = [''data-feed-binance-futures-spot-fedcba9876'']"
proof -
  from sample_pods obtain pods st' where pods: "build_pod_configs sample_env ''BINANCE_FUTURES'' sample_config
      \<lparr>BUILD_INFO_LOOKUP = [], SUMMARY = []\<rparr> = Some (Inr (pods, st'))" "map pod_name pods = [''data-feed-binance-futures-spot-fedcba9876'']"
    by (elim exE conjE)
  have c: "numPods sample_config = None" "instrumentType sample_config = ''spot''"
    "symbolPodDistributionStrategy sample_config = ''ONE_TO_ONE''" by (simp_all add: sample_config_def)
  from pods_cover_the_distribution [OF pods(1), unfolded c option.case] have "\<exists>buckets :: (nat \<times> symbol list) list.
    map pod_symbols pods = map snd buckets \<and>
    counted st' (''BINANCE_FUTURES'', ''spot'', ''ONE_TO_ONE'') =
       counted \<lparr>BUILD_INFO_LOOKUP = [], SUMMARY = []\<rparr> (''BINANCE_FUTURES'', ''spot'', ''ONE_TO_ONE'') + length buckets"
    by (elim exE conjE, intro exI conjI)
  moreover have "counted \<lparr>BUILD_INFO_LOOKUP = [], SUMMARY = []\<rparr> key = 0" for key by (simp add: counted_def)
  ultimately show ?thesis using pods by (elim exE conjE, intro exI conjI) simp_all
qed

end
