(* ===== verification/ConfigBuilders.thy ===== *)
theory ConfigBuilders
  imports PyValue PyString
begin

text \<open>
  configs/data_feed: the symbols of an exchange (base_config_builder.py), the configuration of the
  feed (cryptostore_config_builder.py) and the Kubernetes objects it is deployed with
  (kubernetes_config_builder.py). The exchanges and channels of cryptofeed are constructors, their
  names and the symbols an exchange lists are parameters.
\<close>

section \<open>Symbols\<close>

datatype exchange_id =
  BINANCE | COINBASE | BITMEX | OKEX | FTX | BINANCE_FUTURES | PHEMEX | BYBIT | KRAKEN | KRAKEN_FUTURES | OTHER_EXCHANGE string

datatype feed_channel = TICKER | TRADES | L2_BOOK | L3_BOOK | LIQUIDATIONS | OPEN_INTEREST | FUNDING

definition SPOT :: string where "SPOT = ''S''"
definition FUTURES :: string where "FUTURES = ''F''"

definition TOP_20 :: "string list" where "TOP_20 = [''BTC'']"

text \<open>\<open>[*filter(lambda item: len(item.split('-')) == k and ..., symbols)]\<close>, for the quotes tested and
  for spot symbols of two parts and perpetuals of three.\<close>

definition part :: "string \<Rightarrow> nat \<Rightarrow> string" where
  "part item i = py_split ''-'' item ! i"

definition spot_of :: "string list \<Rightarrow> string list \<Rightarrow> string list" where
  "spot_of quotes symbols = filter (\<lambda>item. length (py_split ''-'' item) = 2 \<and> part item 1 \<in> set quotes) symbols"

definition perp_of :: "string list \<Rightarrow> string list \<Rightarrow> string list" where
  "perp_of quotes symbols =
     filter (\<lambda>item. length (py_split ''-'' item) = 3 \<and> part item 1 \<in> set quotes \<and> part item 2 = ''PERP'') symbols"

definition with_suffix :: "string list \<Rightarrow> string \<Rightarrow> string list \<Rightarrow> string list" where
  "with_suffix coins suffix listed =
     fold (\<lambda>coin res. let symbol = coin @ suffix in if symbol \<in> set listed then res @ [symbol] else res) coins []"

definition usdt_or_usd :: "string list \<Rightarrow> string \<Rightarrow> string list \<Rightarrow> string list" where
  "usdt_or_usd coins suffix listed =
     fold (\<lambda>coin res.
       let symbol_usd = coin @ ''-USD'' @ suffix; symbol_usdt = coin @ ''-USDT'' @ suffix in
       if symbol_usdt \<in> set listed then res @ [symbol_usdt]
       else if symbol_usd \<in> set listed then res @ [symbol_usd] else res) coins []"

definition builder_symbols ::
    "(exchange_id \<Rightarrow> string list) \<Rightarrow> string list \<Rightarrow> exchange_id \<Rightarrow> string \<Rightarrow> string list pyres" where
  "builder_symbols exchange_symbols coins exchange instrument =
     (let symbols = exchange_symbols exchange in
      case exchange of
        BINANCE \<Rightarrow>
          if instrument \<noteq> SPOT then Inl ValueError
          else Inr (with_suffix coins ''-USDT'' (spot_of [''USDT''] symbols))
      | COINBASE \<Rightarrow>
          if instrument \<noteq> SPOT then Inl ValueError
          else Inr (with_suffix coins ''-USD'' (spot_of [''USD''] symbols))
      | OKEX \<Rightarrow>
          if instrument \<notin> {SPOT, FUTURES} then Inl ValueError
          else if instrument = SPOT then Inr (with_suffix coins ''-USDT'' (spot_of [''USDT''] symbols))
          else Inr (with_suffix coins ''-USDT-PERP'' (perp_of [''USDT''] symbols))
      | FTX \<Rightarrow>
          if instrument \<notin> {SPOT, FUTURES} then Inl ValueError
          else if instrument = SPOT then Inr (with_suffix coins ''-USD'' (spot_of [''USD''] symbols))
          else Inr (with_suffix coins ''-USD-PERP'' (perp_of [''USD''] symbols))
      | BITMEX \<Rightarrow>
          if instrument \<noteq> FUTURES then Inl ValueError
          else Inr (usdt_or_usd coins ''-PERP'' (perp_of [''USDT'', ''USD''] symbols))
      | BINANCE_FUTURES \<Rightarrow>
          if instrument \<noteq> FUTURES then Inl ValueError
          else Inr (with_suffix coins ''-USDT-PERP'' (perp_of [''USDT''] symbols))
      | PHEMEX \<Rightarrow>
          if instrument \<notin> {SPOT, FUTURES} then Inl ValueError
          else if instrument = SPOT then Inr (with_suffix coins ''-USDT'' (spot_of [''USDT''] symbols))
          else Inr (with_suffix coins ''-USD-PERP'' (perp_of [''USD''] symbols))
      | BYBIT \<Rightarrow>
          if instrument \<noteq> FUTURES then Inl ValueError
          else Inr (usdt_or_usd coins ''-PERP'' (perp_of [''USDT'', ''USD''] symbols))
      | KRAKEN \<Rightarrow>
          if instrument \<noteq> SPOT then Inl ValueError
          else Inr (usdt_or_usd coins [] (spot_of [''USDT'', ''USD''] symbols))
      | KRAKEN_FUTURES \<Rightarrow>
          if instrument \<noteq> FUTURES then Inl ValueError
          else Inr (with_suffix coins ''-USD-PERP'' (perp_of [''USD''] symbols))
      | OTHER_EXCHANGE e \<Rightarrow> Inl ValueError)"

section \<open>The configuration of a feed\<close>

text \<open>An entry of \<open>exchanges_config\<close>: symbols, depth of the book, channels, symbols per pod.\<close>

record instrument_config =
  ic_symbols :: "string list"
  max_depth_l2 :: int
  ic_channels :: "feed_channel list"
  symbols_per_pod :: int

type_synonym exchanges_config = "(exchange_id, (string, instrument_config) dict) dict"

record book_config =
  book_symbols :: "string list"
  book_delta :: bool
  max_depth :: "int option"

datatype feed_key = RETRIES | CHANNEL feed_channel

datatype feed_val = NUM int | SYMBOLS "string list" | BOOK book_config

type_synonym feed_config = "(exchange_id, (feed_key, feed_val) dict) dict"

definition instrument_of :: "exchanges_config \<Rightarrow> exchange_id \<Rightarrow> string \<Rightarrow> instrument_config pyres" where
  "instrument_of conf exchange instrument = bindE (dict_lookup conf exchange) (\<lambda>d. dict_lookup d instrument)"

text \<open>The configuration the builder starts with.\<close>

definition instrument_entry ::
    "(exchange_id \<Rightarrow> string list) \<Rightarrow> exchange_id \<Rightarrow> string \<Rightarrow> feed_channel list \<Rightarrow> (exchange_id \<times> (string, instrument_config) dict) pyres" where
  "instrument_entry exchange_symbols exchange instrument chs =
     bindE (builder_symbols exchange_symbols TOP_20 exchange instrument) (\<lambda>symbols.
       Inr (exchange, [(instrument, \<lparr>ic_symbols = symbols, max_depth_l2 = 100, ic_channels = chs, symbols_per_pod = 1\<rparr>)]))"

definition init_exchanges_config :: "(exchange_id \<Rightarrow> string list) \<Rightarrow> exchanges_config pyres" where
  "init_exchanges_config exchange_symbols =
     bindE (instrument_entry exchange_symbols BINANCE SPOT [TICKER, TRADES, L2_BOOK]) (\<lambda>binance.
     bindE (instrument_entry exchange_symbols BYBIT FUTURES [TRADES, L2_BOOK, LIQUIDATIONS, OPEN_INTEREST, FUNDING]) (\<lambda>bybit.
     bindE (instrument_entry exchange_symbols KRAKEN SPOT [TICKER, TRADES, L2_BOOK]) (\<lambda>kraken.
     Inr [binance, bybit, kraken])))"

text \<open>One channel of a list of symbols, and one of the two book channels.\<close>

definition populate_plain :: "feed_channel \<Rightarrow> string list \<Rightarrow> (feed_key, feed_val) dict \<Rightarrow> (feed_key, feed_val) dict pyres" where
  "populate_plain ch symbols c =
     (case map_of c (CHANNEL ch) of
        None \<Rightarrow> Inr (dict_put (CHANNEL ch) (SYMBOLS symbols) c)
      | Some (SYMBOLS l) \<Rightarrow> Inr (dict_put (CHANNEL ch) (SYMBOLS (l @ symbols)) c)
      | Some _ \<Rightarrow> Inl TypeError)"

definition populate_book ::
    "feed_channel \<Rightarrow> int option \<Rightarrow> string list \<Rightarrow> (feed_key, feed_val) dict \<Rightarrow> (feed_key, feed_val) dict pyres" where
  "populate_book ch depth symbols c =
     (case map_of c (CHANNEL ch) of
        None \<Rightarrow> Inr (dict_put (CHANNEL ch) (BOOK \<lparr>book_symbols = symbols, book_delta = True, max_depth = depth\<rparr>) c)
      | Some (BOOK b) \<Rightarrow> Inr (dict_put (CHANNEL ch) (BOOK (b\<lparr>book_symbols := book_symbols b @ symbols\<rparr>)) c)
      | Some _ \<Rightarrow> Inl TypeError)"

definition populate_channel ::
    "instrument_config \<Rightarrow> exchange_id \<Rightarrow> string list \<Rightarrow> feed_channel \<Rightarrow> feed_config \<Rightarrow> feed_config pyres" where
  "populate_channel ic exchange symbols ch config =
     (if ch \<notin> set (ic_channels ic) then Inr config
      else bindE (dict_lookup config exchange) (\<lambda>c.
        bindE (case ch of
            L2_BOOK \<Rightarrow> populate_book L2_BOOK (if 0 < max_depth_l2 ic then Some (max_depth_l2 ic) else None) symbols c
          | L3_BOOK \<Rightarrow> populate_book L3_BOOK None symbols c
          | _ \<Rightarrow> populate_plain ch symbols c) (\<lambda>c'.
        Inr (dict_put exchange c' config))))"

definition CHANNEL_ORDER :: "feed_channel list" where
  "CHANNEL_ORDER = [TICKER, L2_BOOK, L3_BOOK, TRADES, OPEN_INTEREST, FUNDING, LIQUIDATIONS]"

definition populate_channels ::
    "exchanges_config \<Rightarrow> exchange_id \<Rightarrow> string \<Rightarrow> string list \<Rightarrow> feed_config \<Rightarrow> feed_config pyres" where
  "populate_channels conf exchange instrument symbols config =
     bindE (instrument_of conf exchange instrument) (\<lambda>ic.
       foldE (populate_channel ic exchange symbols) CHANNEL_ORDER config)"

definition exchange_feed_config :: "exchanges_config \<Rightarrow> exchange_id \<Rightarrow> string \<Rightarrow> string list \<Rightarrow> feed_config pyres" where
  "exchange_feed_config conf exchange instrument symbols =
     populate_channels conf exchange instrument symbols [(exchange, [(RETRIES, NUM (-1))])]"

definition exchanges_config_FULL_DEBUG :: "exchanges_config \<Rightarrow> feed_config pyres" where
  "exchanges_config_FULL_DEBUG conf =
     foldE (\<lambda>(exchange, instruments) config.
       foldE (\<lambda>(instrument, ic) config. populate_channels conf exchange instrument (ic_symbols ic) config) instruments
         (if dict_has config exchange then config else dict_put exchange [(RETRIES, NUM (-1))] config)) conf []"

section \<open>The Kubernetes objects\<close>

definition REDIS_IP :: string where "REDIS_IP = ''127.0.0.1''"
definition REDIS_PORT :: int where "REDIS_PORT = 6379"
definition START_FLUSH :: bool where "START_FLUSH = True"

definition cryptostore_template :: "string \<times> string \<times> string \<Rightarrow> pydict" where
  "cryptostore_template aws_credentials =
     (let (key_id, secret, bucket) = aws_credentials in
      [(''cache'', PStr ''redis''),
       (''redis'', PDict [(''ip'', PStr REDIS_IP), (''port'', PInt REDIS_PORT), (''socket'', PNone), (''del_after_read'', PBool True),
          (''retention_time'', PNone), (''start_flush'', PBool START_FLUSH)]),
       (''storage'', PList [PStr ''svoe'']), (''storage_retries'', PInt 3), (''storage_retry_wait'', PInt 10),
       (''write_on_stop'', PBool True), (''num_write_threads'', PInt 100),
       (''svoe'', PDict [(''s3_key_id'', PStr key_id), (''s3_secret'', PStr secret), (''s3_bucket'', PStr bucket),
          (''s3_prefix'', PStr ''data_lake''), (''glue_database'', PStr ''svoe_glue_db''), (''compression'', PStr ''gzip''),
          (''version'', PStr ''local'')]),
       (''storage_interval'', PInt 30),
       (''health_check'', PDict [(''port'', PInt 1234), (''path'', PStr ''/health'')]),
       (''prometheus'', PDict [(''port'', PInt 8000),
          (''multiproc_dir'', PStr ''/Users/anov/IdeaProjects/svoe/prometheus_multiproc_dir'')])])"

record cryptostore_config =
  cc_template :: pydict
  cc_exchanges :: feed_config

definition cryptostore_config ::
    "string \<times> string \<times> string \<Rightarrow> exchanges_config \<Rightarrow> exchange_id \<Rightarrow> string \<Rightarrow> string list \<Rightarrow> cryptostore_config pyres" where
  "cryptostore_config aws conf exchange instrument symbols =
     bindE (exchange_feed_config conf exchange instrument symbols) (\<lambda>exs.
       Inr \<lparr>cc_template = cryptostore_template aws, cc_exchanges = exs\<rparr>)"

definition cryptostore_config_FULL_DEBUG :: "string \<times> string \<times> string \<Rightarrow> exchanges_config \<Rightarrow> cryptostore_config pyres" where
  "cryptostore_config_FULL_DEBUG aws conf =
     bindE (exchanges_config_FULL_DEBUG conf) (\<lambda>exs. Inr \<lparr>cc_template = cryptostore_template aws, cc_exchanges = exs\<rparr>)"

text \<open>The symbols of an instrument in slices, one for each pod.\<close>

definition pod_slice :: "string list \<Rightarrow> int \<Rightarrow> int \<Rightarrow> string list" where
  "pod_slice symbols per_pod pod = py_slice symbols (per_pod * pod) (min (int (length symbols)) (per_pod * (pod + 1)))"

definition kuber_cryptostore_mapping ::
    "string \<times> string \<times> string \<Rightarrow> exchanges_config \<Rightarrow> exchange_id \<Rightarrow> string \<Rightarrow> (int, cryptostore_config) dict pyres" where
  "kuber_cryptostore_mapping aws conf exchange instrument =
     bindE (instrument_of conf exchange instrument) (\<lambda>ic.
     if symbols_per_pod ic = 0 then Inl ZeroDivisionError
     else let pods_count = \<lceil>rat_of_int (int (length (ic_symbols ic))) / rat_of_int (symbols_per_pod ic)\<rceil> in
       mapE (\<lambda>pod. bindE (cryptostore_config aws conf exchange instrument (pod_slice (ic_symbols ic) (symbols_per_pod ic) pod))
         (\<lambda>c. Inr (pod, c))) [0..pods_count - 1])"

text \<open>The script of the init container: a branch for pod 0 and one for each other pod.\<close>

definition config_file :: "int \<Rightarrow> string" where
  "config_file pod = ''data-feed-config-'' @ show_int pod @ ''.yaml''"

definition nl :: string where "nl = [CHR 0x0A]"

definition script_head :: string where
  "script_head = nl @ ''#!/bin/sh'' @ nl @ ''SET_INDEX=${HOSTNAME##*-}'' @ nl @
     ''echo \"Starting initializing for pod $SET_INDEX\"'' @ nl @
     ''if [ \"$SET_INDEX\" = \"0\" ]; then'' @ nl @
     ''    cp /mnt/scripts/data-feed-config-0.yaml /mnt/data/data-feed-config.yaml''"

definition script_branch :: "int \<Rightarrow> string" where
  "script_branch pod = nl @ ''elif [ \"$SET_INDEX\" = \"'' @ show_int pod @ ''\" ]; then'' @ nl @
     ''    cp /mnt/scripts/data-feed-config-'' @ show_int pod @ ''.yaml /mnt/data/data-feed-config.yaml''"

definition script_tail :: string where
  "script_tail = nl @ ''else'' @ nl @ ''    echo \"Invalid stateful set index\"'' @ nl @ ''    exit 1'' @ nl @ ''fi''"

definition launch_script :: "int list \<Rightarrow> string" where
  "launch_script pods =
     py_strip (fold (\<lambda>pod script. if pod = 0 then script else script @ script_branch pod) pods script_head @ script_tail)"

definition config_map ::
    "(cryptostore_config \<Rightarrow> string) \<Rightarrow> string \<times> string \<times> string \<Rightarrow> exchanges_config \<Rightarrow> string \<Rightarrow> exchange_id \<Rightarrow> string \<Rightarrow> pydict pyres" where
  "config_map yaml_dump aws conf name exchange instrument =
     bindE (kuber_cryptostore_mapping aws conf exchange instrument) (\<lambda>mapping.
     let data = fold (\<lambda>(pod, c) d. dict_put (config_file pod) (PStr (yaml_dump c)) d) mapping
           [(''run.sh'', PStr (launch_script (map fst mapping)))] in
     Inr [(''apiVersion'', PStr ''v1''), (''kind'', PStr ''ConfigMap''), (''metadata'', PDict [(''name'', PStr name)]),
          (''data'', PDict data)])"

text \<open>The headless service and the stateful set of an instrument.\<close>

definition CONTAINER_NAME :: string where "CONTAINER_NAME = ''svoe-data-feed-container''"
definition IMAGE :: string where "IMAGE = ''050011372339.dkr.ecr.ap-northeast-1.amazonaws.com/anov/svoe_data_feed:v7''"
definition CONFIG_DIR :: string where "CONFIG_DIR = ''/etc/svoe/data_feed/configs''"
definition INIT_CONTAINER_NAME :: string where "INIT_CONTAINER_NAME = ''svoe-data-feed-init-container''"
definition INIT_IMAGE :: string where "INIT_IMAGE = ''busybox''"

definition named :: "string \<Rightarrow> pyval" where
  "named x = PDict [(''name'', PStr x)]"

definition service_spec :: "string \<Rightarrow> string \<Rightarrow> pydict" where
  "service_spec service_name stateful_set_name =
     [(''apiVersion'', PStr ''v1''), (''kind'', PStr ''Service''),
      (''metadata'', PDict [(''name'', PStr service_name),
         (''labels'', PDict [(''name'', PStr service_name), (''monitored'', PStr ''all'')])]),
      (''spec'', PDict [(''clusterIP'', PStr ''None''),
         (''ports'', PList [
            PDict [(''name'', PStr ''http''), (''port'', PInt 80)],
            PDict [(''name'', PStr ''redis''), (''port'', PInt 6379), (''targetPort'', PInt 6379), (''protocol'', PStr ''TCP'')],
            PDict [(''name'', PStr ''redis-metrics''), (''port'', PInt 9121), (''targetPort'', PInt 9121), (''protocol'', PStr ''TCP'')]]),
         (''selector'', named stateful_set_name)])]"

definition pod_spec :: "string \<Rightarrow> string \<Rightarrow> string \<Rightarrow> pydict" where
  "pod_spec configs_volume_name scripts_volume_name config_map_name =
     [(''containers'', PList [
         PDict [(''name'', PStr ''redis''), (''image'', PStr ''redis:alpine''),
           (''ports'', PList [PDict [(''containerPort'', PInt 6379)]])],
         PDict [(''name'', PStr ''redis-exporter''), (''image'', PStr ''oliver006/redis_exporter:latest''),
           (''ports'', PList [PDict [(''containerPort'', PInt 9121), (''name'', PStr ''redis-metrics'')]])],
         PDict [(''name'', PStr CONTAINER_NAME), (''image'', PStr IMAGE), (''imagePullPolicy'', PStr ''IfNotPresent''),
           (''volumeMounts'', PList [PDict [(''name'', PStr configs_volume_name), (''mountPath'', PStr CONFIG_DIR)]])]]),
      (''initContainers'', PList [
         PDict [(''name'', PStr INIT_CONTAINER_NAME), (''image'', PStr INIT_IMAGE),
           (''command'', PList [PStr ''/mnt/scripts/run.sh'']),
           (''volumeMounts'', PList [
              PDict [(''name'', PStr scripts_volume_name), (''mountPath'', PStr ''/mnt/scripts'')],
              PDict [(''name'', PStr configs_volume_name), (''mountPath'', PStr ''/mnt/data'')]])]]),
      (''volumes'', PList [
         PDict [(''name'', PStr scripts_volume_name),
           (''configMap'', PDict [(''name'', PStr config_map_name), (''defaultMode'', PInt 365)])],
         PDict [(''name'', PStr configs_volume_name), (''emptyDir'', PDict [])]])]"

definition stateful_set_spec :: "string \<Rightarrow> string \<Rightarrow> string \<Rightarrow> string \<Rightarrow> string \<Rightarrow> pydict" where
  "stateful_set_spec service_name stateful_set_name configs_volume_name scripts_volume_name config_map_name =
     [(''apiVersion'', PStr ''apps/v1''), (''kind'', PStr ''StatefulSet''),
      (''metadata'', PDict [(''name'', PStr stateful_set_name), (''labels'', named stateful_set_name)]),
      (''spec'', PDict [(''serviceName'', PStr service_name), (''replicas'', PInt 0),
         (''selector'', PDict [(''matchLabels'', named stateful_set_name)]),
         (''template'', PDict [
            (''metadata'', PDict [(''labels'', named stateful_set_name)]),
            (''spec'', PDict (pod_spec configs_volume_name scripts_volume_name config_map_name))])])]"

definition service_and_stateful_set :: "string \<Rightarrow> string \<Rightarrow> string \<Rightarrow> string \<Rightarrow> string \<Rightarrow> pydict list" where
  "service_and_stateful_set service_name stateful_set_name configs_volume_name scripts_volume_name config_map_name =
     [service_spec service_name stateful_set_name,
      stateful_set_spec service_name stateful_set_name configs_volume_name scripts_volume_name config_map_name]"

definition CONFIG_MAP_NAME_PREFIX :: string where "CONFIG_MAP_NAME_PREFIX = ''svoe-data-feed-cm''"
definition STATEFUL_SET_NAME_REFIX :: string where "STATEFUL_SET_NAME_REFIX = ''svoe-data-feed-ss''"
definition SERVICE_NAME_REFIX :: string where "SERVICE_NAME_REFIX = ''svoe-data-feed-ss-svc''"
definition SCRIPTS_VOLUME_NAME_PREFIX :: string where "SCRIPTS_VOLUME_NAME_PREFIX = ''svoe-data-feed-scripts-vol''"
definition CONFIGS_VOLUME_NAME_PREFIX :: string where "CONFIGS_VOLUME_NAME_PREFIX = ''svoe-data-feed-conf-vol''"

definition object_name :: "string \<Rightarrow> string \<Rightarrow> string \<Rightarrow> string" where
  "object_name exchange instrument prefix = py_lower (dashes (exchange @ ''-'' @ instrument @ ''-'' @ prefix))"

text \<open>The objects of all instruments: the config maps, and services with their stateful sets. Writing
  them to two files is left out.\<close>

definition gen_kubernetes ::
    "(exchange_id \<Rightarrow> string) \<Rightarrow> (cryptostore_config \<Rightarrow> string) \<Rightarrow> string \<times> string \<times> string \<Rightarrow> exchanges_config
     \<Rightarrow> (pydict list \<times> pydict list) pyres" where
  "gen_kubernetes exchange_name yaml_dump aws conf =
     foldE (\<lambda>(exchange, instruments). foldE (\<lambda>(instrument, ic) (config_map_specs, service_set_specs).
       let named = object_name (exchange_name exchange) instrument in
       bindE (config_map yaml_dump aws conf (named CONFIG_MAP_NAME_PREFIX) exchange instrument) (\<lambda>spec.
       Inr (config_map_specs @ [spec],
            service_set_specs @ service_and_stateful_set (named SERVICE_NAME_REFIX) (named STATEFUL_SET_NAME_REFIX)
              (named CONFIGS_VOLUME_NAME_PREFIX) (named SCRIPTS_VOLUME_NAME_PREFIX) (named CONFIG_MAP_NAME_PREFIX)))) instruments)
       conf ([], [])"

section \<open>Symbols against a table\<close>

text \<open>The branches of \<open>symbols\<close> as a table: what an exchange trades, with the suffixes tried in
  order.\<close>

fun suffixes :: "exchange_id \<Rightarrow> string \<Rightarrow> string list option" where
  "suffixes BINANCE i = (if i = SPOT then Some [''-USDT''] else None)"
| "suffixes COINBASE i = (if i = SPOT then Some [''-USD''] else None)"
| "suffixes OKEX i = (if i = SPOT then Some [''-USDT''] else if i = FUTURES then Some [''-USDT-PERP''] else None)"
| "suffixes FTX i = (if i = SPOT then Some [''-USD''] else if i = FUTURES then Some [''-USD-PERP''] else None)"
| "suffixes BITMEX i = (if i = FUTURES then Some [''-USDT-PERP'', ''-USD-PERP''] else None)"
| "suffixes BINANCE_FUTURES i = (if i = FUTURES then Some [''-USDT-PERP''] else None)"
| "suffixes PHEMEX i = (if i = SPOT then Some [''-USDT''] else if i = FUTURES then Some [''-USD-PERP''] else None)"
| "suffixes BYBIT i = (if i = FUTURES then Some [''-USDT-PERP'', ''-USD-PERP''] else None)"
| "suffixes KRAKEN i = (if i = SPOT then Some [''-USDT'', ''-USD''] else None)"
| "suffixes KRAKEN_FUTURES i = (if i = FUTURES then Some [''-USD-PERP''] else None)"
| "suffixes (OTHER_EXCHANGE e) i = None"

definition first_listed :: "string list \<Rightarrow> string list \<Rightarrow> string \<Rightarrow> string list" where
  "first_listed listed sfx coin = (case List.find (\<lambda>s. coin @ s \<in> set listed) sfx of None \<Rightarrow> [] | Some s \<Rightarrow> [coin @ s])"

lemma fold_collect: "fold (\<lambda>x res. if P x then res @ f x else res) xs acc = acc @ concat (map f (filter P xs))"
  by (induction xs arbitrary: acc) simp_all

lemma with_suffix_table:
  assumes "\<And>coin. coin \<in> set coins \<Longrightarrow> coin @ suffix \<in> set listed \<longleftrightarrow> coin @ suffix \<in> set symbols"
  shows "with_suffix coins suffix listed = concat (map (first_listed symbols [suffix]) coins)"
proof -
  have "fold (\<lambda>coin res. if coin @ suffix \<in> set listed then res @ [coin @ suffix] else res) coins acc =
      acc @ concat (map (first_listed symbols [suffix]) coins)" for acc
    using assms by (induction coins arbitrary: acc) (simp_all add: first_listed_def)
  from this [of "[]"] show ?thesis by (simp add: with_suffix_def Let_def)
qed

lemma usdt_or_usd_table:
  assumes "\<And>coin. coin \<in> set coins \<Longrightarrow> coin @ ''-USDT'' @ sfx \<in> set listed \<longleftrightarrow> coin @ ''-USDT'' @ sfx \<in> set symbols"
    "\<And>coin. coin \<in> set coins \<Longrightarrow> coin @ ''-USD'' @ sfx \<in> set listed \<longleftrightarrow> coin @ ''-USD'' @ sfx \<in> set symbols"
  shows "usdt_or_usd coins sfx listed = concat (map (first_listed symbols [''-USDT'' @ sfx, ''-USD'' @ sfx]) coins)"
proof -
  have "fold (\<lambda>coin res. if coin @ ''-USDT'' @ sfx \<in> set listed then res @ [coin @ ''-USDT'' @ sfx]
        else if coin @ ''-USD'' @ sfx \<in> set listed then res @ [coin @ ''-USD'' @ sfx] else res) coins acc =
      acc @ concat (map (first_listed symbols [''-USDT'' @ sfx, ''-USD'' @ sfx]) coins)" for acc
    using assms by (induction coins arbitrary: acc) (simp_all add: first_listed_def)
  from this [of "[]"] show ?thesis unfolding usdt_or_usd_def Let_def append_Nil .
qed

lemma spot_of_listed:
  assumes "CHR ''-'' \<notin> set coin" "CHR ''-'' \<notin> set q" "q \<in> set quotes"
  shows "coin @ ''-'' @ q \<in> set (spot_of quotes symbols) \<longleftrightarrow> coin @ ''-'' @ q \<in> set symbols"
proof -
  have "py_split ''-'' (coin @ CHR ''-'' # q) = [coin, q]"
    using assms by (simp add: py_split_char py_split_char_absent)
  with assms(3) show ?thesis by (auto simp: spot_of_def part_def)
qed

lemma perp_of_listed:
  assumes "CHR ''-'' \<notin> set coin" "CHR ''-'' \<notin> set q" "q \<in> set quotes"
  shows "coin @ ''-'' @ q @ ''-PERP'' \<in> set (perp_of quotes symbols) \<longleftrightarrow> coin @ ''-'' @ q @ ''-PERP'' \<in> set symbols"
proof -
  have "py_split ''-'' (coin @ CHR ''-'' # q @ CHR ''-'' # ''PERP'') = [coin, q, ''PERP'']"
    using assms py_split_char [of "CHR ''-''" coin "q @ ''-PERP''"] py_split_char [of "CHR ''-''" q "''PERP''"]
    by (simp add: py_split_char_absent)
  with assms(3) show ?thesis by (auto simp: perp_of_def part_def)
qed

lemmas listed_quotes =
  spot_of_listed [where q = "''USDT''", simplified] spot_of_listed [where q = "''USD''", simplified]
  perp_of_listed [where q = "''USDT''", simplified] perp_of_listed [where q = "''USD''", simplified]

text \<open>The branches of the symbol generator are one table: for coins without a dash the symbols
  of an exchange are, in the order of the coins, the first listed symbol of each coin among the
  suffixes the exchange is tried with, coins without one being skipped; an instrument the exchange
  is not supported with raises, whatever it lists.\<close>

theorem symbols_follow_the_table:
  assumes "\<And>coin. coin \<in> set coins \<Longrightarrow> CHR ''-'' \<notin> set coin"
  shows "builder_symbols exchange_symbols coins exchange instrument =
    (case suffixes exchange instrument of
       None \<Rightarrow> Inl ValueError
     | Some sfx \<Rightarrow> Inr (concat (map (first_listed (exchange_symbols exchange) sfx) coins)))"
proof -
  have neq: "SPOT \<noteq> FUTURES" by (simp add: SPOT_def FUTURES_def)
  have spot: "with_suffix coins (''-'' @ q) (spot_of [q] symbols) = concat (map (first_listed symbols [''-'' @ q]) coins)"
    if "CHR ''-'' \<notin> set q" for q symbols
    using assms that by (intro with_suffix_table spot_of_listed) auto
  have perp: "with_suffix coins (''-'' @ q @ ''-PERP'') (perp_of [q] symbols) =
      concat (map (first_listed symbols [''-'' @ q @ ''-PERP'']) coins)" if "CHR ''-'' \<notin> set q" for q symbols
    using assms that by (intro with_suffix_table perp_of_listed) auto
  have both: "usdt_or_usd coins [] (spot_of [''USDT'', ''USD''] symbols) =
      concat (map (first_listed symbols [''-USDT'', ''-USD'']) coins)"
    "usdt_or_usd coins ''-PERP'' (perp_of [''USDT'', ''USD''] symbols) =
      concat (map (first_listed symbols [''-USDT-PERP'', ''-USD-PERP'']) coins)" for symbols
    using usdt_or_usd_table [of coins "[]" "spot_of [''USDT'', ''USD''] symbols" symbols]
      usdt_or_usd_table [of coins "''-PERP''" "perp_of [''USDT'', ''USD''] symbols" symbols]
      assms by (simp_all add: listed_quotes)
  show ?thesis
    using spot [of "''USDT''"] spot [of "''USD''"] perp [of "''USDT''"] perp [of "''USD''"] neq
    by (cases exchange) (simp_all add: builder_symbols_def Let_def both)
qed

theorem symbols_follow_the_table_witness:
  "builder_symbols (\<lambda>e. [''ETH-USD'', ''BTC-USD'', ''BTC-USDT'']) TOP_20 KRAKEN SPOT = Inr [''BTC-USDT''] \<and>
   builder_symbols (\<lambda>e. [''BTC-USDT'']) TOP_20 KRAKEN FUTURES = Inl ValueError"
  by (subst symbols_follow_the_table, simp add: TOP_20_def)+
    (simp add: SPOT_def FUTURES_def TOP_20_def first_listed_def)

section \<open>The symbols of a channel\<close>

definition feed_symbols :: "feed_config \<Rightarrow> exchange_id \<Rightarrow> feed_channel \<Rightarrow> string list" where
  "feed_symbols config exchange ch =
     (case map_of config exchange of None \<Rightarrow> []
      | Some c \<Rightarrow> (case map_of c (CHANNEL ch) of Some (SYMBOLS l) \<Rightarrow> l | Some (BOOK b) \<Rightarrow> book_symbols b | _ \<Rightarrow> []))"

text \<open>Books are entered as books and the other channels as lists, so that extending them cannot fail.\<close>

fun val_ok :: "feed_channel \<Rightarrow> feed_val \<Rightarrow> bool" where
  "val_ok ch (BOOK b) = (ch \<in> {L2_BOOK, L3_BOOK})"
| "val_ok ch (SYMBOLS l) = (ch \<notin> {L2_BOOK, L3_BOOK})"
| "val_ok ch (NUM i) = False"

definition feed_ok :: "feed_config \<Rightarrow> bool" where
  "feed_ok config \<longleftrightarrow> (\<forall>ex c ch v. map_of config ex = Some c \<longrightarrow> map_of c (CHANNEL ch) = Some v \<longrightarrow> val_ok ch v)"

lemma feed_okD: "feed_ok config \<Longrightarrow> map_of config ex = Some c \<Longrightarrow> map_of c (CHANNEL ch) = Some v \<Longrightarrow> val_ok ch v"
  by (simp add: feed_ok_def)

lemma populate_channel_spec:
  assumes "feed_ok config" "dict_has config exchange"
  shows "\<exists>config'. populate_channel ic exchange symbols ch config = Inr config' \<and> feed_ok config' \<and>
    (\<forall>ex. dict_has config' ex \<longleftrightarrow> dict_has config ex) \<and>
    (\<forall>ex ch'. feed_symbols config' ex ch' = feed_symbols config ex ch' @
       (if ex = exchange \<and> ch' = ch \<and> ch \<in> set (ic_channels ic) then symbols else []))"
proof (cases "ch \<in> set (ic_channels ic)")
  case True
  from assms(2) obtain c where c: "map_of config exchange = Some c" by (auto simp: dict_has_def)
  define depth where "depth = (if ch = L2_BOOK \<and> 0 < max_depth_l2 ic then Some (max_depth_l2 ic) else None)"
  define c' where "c' = (if ch \<in> {L2_BOOK, L3_BOOK}
      then populate_book ch depth symbols c else populate_plain ch symbols c)"
  have run: "populate_channel ic exchange symbols ch config = bindE c' (\<lambda>c'. Inr (dict_put exchange c' config))"
    using True c by (simp add: populate_channel_def c'_def dict_lookup_def depth_def split: feed_channel.split)
  have "\<exists>v. c' = Inr (dict_put (CHANNEL ch) v c) \<and> val_ok ch v \<and>
      (case v of SYMBOLS l \<Rightarrow> l | BOOK b \<Rightarrow> book_symbols b | _ \<Rightarrow> []) = feed_symbols config exchange ch @ symbols"
    using feed_okD [OF assms(1) c, of ch] c
    by (cases "map_of c (CHANNEL ch)")
       (auto simp: c'_def populate_book_def populate_plain_def feed_symbols_def split: feed_val.splits)
  then obtain v where v: "c' = Inr (dict_put (CHANNEL ch) v c)" "val_ok ch v"
    "(case v of SYMBOLS l \<Rightarrow> l | BOOK b \<Rightarrow> book_symbols b | _ \<Rightarrow> []) = feed_symbols config exchange ch @ symbols" by blast
  have "feed_ok (dict_put exchange (dict_put (CHANNEL ch) v c) config)"
    using assms(1) c v(2) by (auto simp: feed_ok_def)
  moreover have "feed_symbols (dict_put exchange (dict_put (CHANNEL ch) v c) config) ex ch' = feed_symbols config ex ch' @
       (if ex = exchange \<and> ch' = ch then symbols else [])" for ex ch'
    using c v(3) by (auto simp: feed_symbols_def split: feed_val.splits)
  ultimately show ?thesis using run v(1) assms(2) True by auto
qed (use assms in \<open>simp add: populate_channel_def\<close>)

lemma populate_channel_list:
  assumes "feed_ok config" "dict_has config exchange" "distinct chs"
  shows "\<exists>config'. foldE (populate_channel ic exchange symbols) chs config = Inr config' \<and> feed_ok config' \<and>
    (\<forall>ex. dict_has config' ex \<longleftrightarrow> dict_has config ex) \<and>
    (\<forall>ex ch. feed_symbols config' ex ch = feed_symbols config ex ch @
       (if ex = exchange \<and> ch \<in> set chs \<and> ch \<in> set (ic_channels ic) then symbols else []))"
  using assms
proof (induction chs arbitrary: config)
  case (Cons c chs)
  from populate_channel_spec [OF Cons.prems(1,2)] obtain config1 where
    one: "populate_channel ic exchange symbols c config = Inr config1" "feed_ok config1"
      "\<forall>ex. dict_has config1 ex \<longleftrightarrow> dict_has config ex"
      "\<forall>ex ch'. feed_symbols config1 ex ch' = feed_symbols config ex ch' @
         (if ex = exchange \<and> ch' = c \<and> c \<in> set (ic_channels ic) then symbols else [])" by metis
  from Cons.IH [of config1] one(2,3) Cons.prems(2,3) obtain config2 where
    "foldE (populate_channel ic exchange symbols) chs config1 = Inr config2" "feed_ok config2"
    "\<forall>ex. dict_has config2 ex \<longleftrightarrow> dict_has config1 ex"
    "\<forall>ex ch. feed_symbols config2 ex ch = feed_symbols config1 ex ch @
       (if ex = exchange \<and> ch \<in> set chs \<and> ch \<in> set (ic_channels ic) then symbols else [])" by auto
  with one Cons.prems(3) show ?case by auto
qed simp

lemma populate_channels_spec:
  assumes "instrument_of conf exchange instrument = Inr ic" "feed_ok config" "dict_has config exchange"
  shows "\<exists>config'. populate_channels conf exchange instrument symbols config = Inr config' \<and> feed_ok config' \<and>
    (\<forall>ex. dict_has config' ex \<longleftrightarrow> dict_has config ex) \<and>
    (\<forall>ex ch. feed_symbols config' ex ch = feed_symbols config ex ch @
       (if ex = exchange \<and> ch \<in> set (ic_channels ic) then symbols else []))"
proof -
  have "distinct CHANNEL_ORDER" "\<And>ch. ch \<in> set CHANNEL_ORDER"
    by (simp add: CHANNEL_ORDER_def, rename_tac ch, case_tac ch) (simp_all add: CHANNEL_ORDER_def)
  with populate_channel_list [OF assms(2,3), of CHANNEL_ORDER ic symbols] assms(1)
  show ?thesis by (simp add: populate_channels_def)
qed

lemma exchange_feed_config_spec:
  assumes "instrument_of conf exchange instrument = Inr ic"
  shows "\<exists>config. exchange_feed_config conf exchange instrument symbols = Inr config \<and>
    (\<forall>ch. feed_symbols config exchange ch = (if ch \<in> set (ic_channels ic) then symbols else []))"
proof -
  let ?start = "[(exchange, [(RETRIES, NUM (-1))])]"
  have "feed_ok ?start" "dict_has ?start exchange" "\<And>ex ch. feed_symbols ?start ex ch = []"
    by (auto simp: feed_ok_def dict_has_def feed_symbols_def split: if_splits)
  with populate_channels_spec [OF assms this(1,2), of symbols] show ?thesis
    by (auto simp: exchange_feed_config_def)
qed

section \<open>Pods take consecutive slices\<close>

lemma pod_slice_nat:
  assumes "0 < k" "i * k < length xs"
  shows "pod_slice xs (int k) (int i) = take k (drop (i * k) xs)"
proof -
  have "int k * (int i + 1) = int (i * k + k)" by (simp add: algebra_simps)
  then have "min (int (length xs)) (int k * (int i + 1)) = int (min (length xs) (i * k + k))" by (simp only: of_nat_min)
  moreover have "int k * int i = int (i * k)" by simp
  moreover have "drop (i * k) (take (min (length xs) (i * k + k)) xs) = take k (drop (i * k) xs)"
    using assms by (simp add: drop_take min_def)
  moreover have "i * k \<le> min (length xs) (i * k + k)" using assms by simp
  ultimately show ?thesis unfolding pod_slice_def by (simp only: py_slice_nat min.cobounded1)
qed

lemma pods_ceiling:
  assumes "0 < k" "n = nat \<lceil>rat_of_nat len / rat_of_nat k\<rceil>"
  shows "len \<le> n * k" "i < n \<Longrightarrow> i * k < len"
proof -
  have "rat_of_nat len / rat_of_nat k \<le> rat_of_nat n" unfolding assms(2) by linarith
  then have "rat_of_nat len \<le> rat_of_nat (n * k)" using assms(1) by (simp add: field_simps)
  then show "len \<le> n * k" by (simp only: of_nat_le_iff)
  assume "i < n"
  then have "rat_of_nat i < rat_of_nat len / rat_of_nat k" unfolding assms(2) by linarith
  then have "rat_of_nat (i * k) < rat_of_nat len" using assms(1) by (simp add: field_simps)
  then show "i * k < len" by (simp only: of_nat_less_iff)
qed

lemma upto_int: "[0..int n - 1] = map int [0..<n]"
  by (induction n) (simp_all add: upto_rec2)

text \<open>With a positive number of symbols per pod the mapping of an instrument does not raise. Its
  pods are numbered from zero, every pod is configured with each channel of the instrument for a
  non-empty slice of at most that many symbols and with no other channel, and the slices of the
  pods in order are the symbols of the instrument.\<close>

theorem pods_take_slices:
  assumes "instrument_of conf exchange instrument = Inr ic" and "0 < symbols_per_pod ic"
  shows "\<exists>mapping. kuber_cryptostore_mapping aws conf exchange instrument = Inr mapping \<and>
    map fst mapping = map int [0..<length mapping] \<and>
    list_all (\<lambda>(pod, c). \<exists>slice. slice \<noteq> [] \<and> int (length slice) \<le> symbols_per_pod ic \<and>
      slice = pod_slice (ic_symbols ic) (symbols_per_pod ic) pod \<and>
      (\<forall>ch. feed_symbols (cc_exchanges c) exchange ch = (if ch \<in> set (ic_channels ic) then slice else []))) mapping \<and>
    concat (map (\<lambda>(pod, c). pod_slice (ic_symbols ic) (symbols_per_pod ic) pod) mapping) = ic_symbols ic"
proof -
  define xs where "xs = ic_symbols ic"
  define k where "k = nat (symbols_per_pod ic)"
  define n where "n = nat \<lceil>rat_of_nat (length xs) / rat_of_nat k\<rceil>"
  have k: "0 < k" "symbols_per_pod ic = int k" using assms(2) by (simp_all add: k_def)
  note bounds = pods_ceiling [OF k(1) n_def]
  have pods: "[0..\<lceil>rat_of_int (int (length xs)) / rat_of_int (int k)\<rceil> - 1] = map int [0..<n]"
  proof -
    have "0 \<le> \<lceil>rat_of_nat (length xs) / rat_of_nat k\<rceil>" using zero_le_divide_iff [of "rat_of_nat (length xs)" "rat_of_nat k"] by linarith
    then have "[0..\<lceil>rat_of_int (int (length xs)) / rat_of_int (int k)\<rceil> - 1] = [0..int n - 1]" by (simp add: n_def)
    also have "\<dots> = map int [0..<n]" by (rule upto_int)
    finally show ?thesis .
  qed
  obtain f where f: "\<And>syms. exchange_feed_config conf exchange instrument syms = Inr (f syms)"
    "\<And>syms ch. feed_symbols (f syms) exchange ch = (if ch \<in> set (ic_channels ic) then syms else [])"
    using exchange_feed_config_spec [OF assms(1)] by metis
  let ?c = "\<lambda>pod. \<lparr>cc_template = cryptostore_template aws, cc_exchanges = f (pod_slice xs (int k) pod)\<rparr>"
  have "kuber_cryptostore_mapping aws conf exchange instrument = Inr (map (\<lambda>i. (int i, ?c (int i))) [0..<n])"
    using assms(1) k by (simp add: kuber_cryptostore_mapping_def cryptostore_config_def f(1) flip: xs_def)
      (simp add: pods [simplified] o_def flip: xs_def)
  moreover have slice: "pod_slice xs (int k) (int i) = take k (drop (i * k) xs)" "take k (drop (i * k) xs) \<noteq> []" if "i < n" for i
    using pod_slice_nat [OF k(1) bounds(2) [OF that]] bounds(2) [OF that] k(1) by auto
  moreover have "map (\<lambda>i. pod_slice xs (int k) (int i)) [0..<n] = map (\<lambda>i. take k (drop (i * k) xs)) [0..<n]"
    by (rule map_cong [OF refl]) (use slice(1) in simp)
  then have "concat (map (\<lambda>i. pod_slice xs (int k) (int i)) [0..<n]) = take (n * k) xs" by (simp only: concat_chunks)
  with bounds(1) have "concat (map (\<lambda>i. pod_slice xs (int k) (int i)) [0..<n]) = xs" by simp
  ultimately show ?thesis
    using k
    by (intro exI [of _ "map (\<lambda>i. (int i, ?c (int i))) [0..<n]"])
      (auto simp: o_def list_all_iff f(2) simp flip: xs_def)
qed

theorem pods_take_slices_witness:
  "\<exists>mapping. kuber_cryptostore_mapping (''id'', ''secret'', ''bucket'')
      [(KRAKEN, [(SPOT, \<lparr>ic_symbols = [''BTC-USD'', ''ETH-USD'', ''ADA-USD''], max_depth_l2 = 100,
         ic_channels = [TICKER, L2_BOOK], symbols_per_pod = 2\<rparr>)])] KRAKEN SPOT = Inr mapping \<and>
    map (\<lambda>(pod, c). pod_slice [''BTC-USD'', ''ETH-USD'', ''ADA-USD''] 2 pod) mapping = [[''BTC-USD'', ''ETH-USD''], [''ADA-USD'']]"
proof -
  define ic where "ic = \<lparr>ic_symbols = [''BTC-USD'', ''ETH-USD'', ''ADA-USD''], max_depth_l2 = 100,
         ic_channels = [TICKER, L2_BOOK], symbols_per_pod = 2\<rparr>"
  have "instrument_of [(KRAKEN, [(SPOT, ic)])] KRAKEN SPOT = Inr ic" "0 < symbols_per_pod ic"
    by (simp_all add: instrument_of_def dict_lookup_def ic_def)
  from pods_take_slices [OF this, of "(''id'', ''secret'', ''bucket'')"] obtain mapping where
    m: "kuber_cryptostore_mapping (''id'', ''secret'', ''bucket'') [(KRAKEN, [(SPOT, ic)])] KRAKEN SPOT = Inr mapping" by blast
  have "map fst mapping = [0, 1]"
    using m by (auto simp: kuber_cryptostore_mapping_def instrument_of_def ic_def mapE_Inr_iff upto.simps list_all2_Cons1)
  then have "map (\<lambda>(pod, c). pod_slice xs 2 pod) mapping = map (pod_slice xs 2) [0, 1]" for xs
    by (auto simp: map_eq_Cons_conv split: prod.split)
  moreover have "map (pod_slice [''BTC-USD'', ''ETH-USD'', ''ADA-USD''] 2) [0, 1] = [[''BTC-USD'', ''ETH-USD''], [''ADA-USD'']]"
    by code_simp
  ultimately show ?thesis using m unfolding ic_def by auto
qed

text \<open>Without a positive number there is no pod and no error, or a division by zero.\<close>

lemma no_pods_without_slices:
  assumes "instrument_of conf exchange instrument = Inr ic"
  shows "symbols_per_pod ic = 0 \<Longrightarrow> kuber_cryptostore_mapping aws conf exchange instrument = Inl ZeroDivisionError"
    and "symbols_per_pod ic < 0 \<Longrightarrow> kuber_cryptostore_mapping aws conf exchange instrument = Inr []"
proof -
  assume "symbols_per_pod ic < 0"
  then have "rat_of_int (int (length (ic_symbols ic))) / rat_of_int (symbols_per_pod ic) \<le> 0"
    by (intro divide_nonneg_nonpos) simp_all
  then have "\<lceil>rat_of_int (int (length (ic_symbols ic))) / rat_of_int (symbols_per_pod ic)\<rceil> \<le> 0" by linarith
  with assms \<open>symbols_per_pod ic < 0\<close> show "kuber_cryptostore_mapping aws conf exchange instrument = Inr []"
    by (simp add: kuber_cryptostore_mapping_def)
qed (use assms in \<open>simp add: kuber_cryptostore_mapping_def\<close>)

section \<open>The debug configuration\<close>

lemma debug_instruments:
  assumes "map_of conf exchange = Some all" "\<forall>(i, ic)\<in>set instruments. map_of all i = Some ic"
    "feed_ok config" "dict_has config exchange"
  shows "\<exists>config'. foldE (\<lambda>(instrument, ic) config. populate_channels conf exchange instrument (ic_symbols ic) config) instruments config = Inr config' \<and>
    feed_ok config' \<and> (\<forall>ex. dict_has config' ex \<longleftrightarrow> dict_has config ex) \<and>
    (\<forall>ex ch. feed_symbols config' ex ch = feed_symbols config ex ch @
       (if ex = exchange then concat (map (\<lambda>(i, ic). if ch \<in> set (ic_channels ic) then ic_symbols ic else []) instruments) else []))"
  using assms(2-4)
proof (induction instruments arbitrary: config)
  case (Cons x instruments)
  obtain i ic where x: "x = (i, ic)" by (cases x)
  have "instrument_of conf exchange i = Inr ic" using assms(1) Cons.prems(1) by (simp add: instrument_of_def dict_lookup_def x)
  from populate_channels_spec [OF this Cons.prems(2,3), of "ic_symbols ic"] obtain config1 where
    one: "populate_channels conf exchange i (ic_symbols ic) config = Inr config1" "feed_ok config1"
      "\<forall>ex. dict_has config1 ex \<longleftrightarrow> dict_has config ex"
      "\<forall>ex ch. feed_symbols config1 ex ch = feed_symbols config ex ch @
        (if ex = exchange \<and> ch \<in> set (ic_channels ic) then ic_symbols ic else [])" by blast
  from Cons.IH [of config1] one(2,3) Cons.prems(1,3) obtain config2 where
    "foldE (\<lambda>(instrument, ic) config. populate_channels conf exchange instrument (ic_symbols ic) config) instruments config1 = Inr config2"
    "feed_ok config2" "\<forall>ex. dict_has config2 ex \<longleftrightarrow> dict_has config1 ex"
    "\<forall>ex ch. feed_symbols config2 ex ch = feed_symbols config1 ex ch @
       (if ex = exchange then concat (map (\<lambda>(i, ic). if ch \<in> set (ic_channels ic) then ic_symbols ic else []) instruments) else [])"
    by auto
  with one show ?case by (auto simp: x)
qed simp

definition collected :: "exchanges_config \<Rightarrow> exchange_id \<Rightarrow> feed_channel \<Rightarrow> string list" where
  "collected conf exchange ch =
     concat (map (\<lambda>(ex, instruments). if ex = exchange
       then concat (map (\<lambda>(i, ic). if ch \<in> set (ic_channels ic) then ic_symbols ic else []) instruments) else []) conf)"

lemma debug_exchanges:
  assumes "\<forall>(ex, ins)\<in>set exs. map_of conf ex = Some ins \<and> dict_wf ins" "feed_ok config"
  shows "\<exists>config'. foldE (\<lambda>(exchange, instruments) config.
       foldE (\<lambda>(instrument, ic) config. populate_channels conf exchange instrument (ic_symbols ic) config) instruments
         (if dict_has config exchange then config else dict_put exchange [(RETRIES, NUM (-1))] config)) exs config = Inr config' \<and>
    feed_ok config' \<and> (\<forall>ex ch. feed_symbols config' ex ch = feed_symbols config ex ch @ collected exs ex ch)"
  using assms
proof (induction exs arbitrary: config)
  case Nil
  then show ?case by (simp add: collected_def)
next
  case (Cons x exs)
  obtain ex ins where x: "x = (ex, ins)" by (cases x)
  define start where "start = (if dict_has config ex then config else dict_put ex [(RETRIES, NUM (-1))] config)"
  have start: "feed_ok start" "dict_has start ex" "\<And>e ch. feed_symbols start e ch = feed_symbols config e ch"
    using Cons.prems(2) by (auto simp: start_def feed_ok_def feed_symbols_def dict_has_def split: if_splits)
  have ins: "map_of conf ex = Some ins" "\<forall>(i, ic)\<in>set ins. map_of ins i = Some ic"
    using Cons.prems(1) by (auto simp: x dict_wf_def)
  from debug_instruments [OF ins start(1,2)] obtain config1 where
    one: "foldE (\<lambda>(instrument, ic) config. populate_channels conf ex instrument (ic_symbols ic) config) ins start = Inr config1"
      "feed_ok config1" "\<forall>e ch. feed_symbols config1 e ch = feed_symbols start e ch @
       (if e = ex then concat (map (\<lambda>(i, ic). if ch \<in> set (ic_channels ic) then ic_symbols ic else []) ins) else [])" by blast
  from Cons.IH [OF _ one(2)] Cons.prems(1) one(1,3) start(3) show ?case
    by (auto simp: x collected_def simp flip: start_def)
qed

text \<open>The debug configuration of all exchanges never raises: every channel of an exchange lists
  the symbols of its instruments that have the channel, one instrument after the other, whether
  the channel is a list or a book.\<close>

theorem debug_config_collects:
  assumes "dict_wf conf" and "dict_all dict_wf conf"
  shows "\<exists>config. exchanges_config_FULL_DEBUG conf = Inr config \<and> (\<forall>ex ch. feed_symbols config ex ch = collected conf ex ch)"
proof -
  have "\<forall>(ex, ins)\<in>set conf. map_of conf ex = Some ins \<and> dict_wf ins"
    using assms by (auto simp: dict_wf_def dict_all_def)
  moreover have "feed_ok []" "\<And>ex ch. feed_symbols [] ex ch = []" by (simp_all add: feed_ok_def feed_symbols_def)
  ultimately show ?thesis using debug_exchanges [of conf conf "[]"] by (auto simp: exchanges_config_FULL_DEBUG_def)
qed

theorem debug_config_collects_witness:
  "let ic = (\<lambda>ss. \<lparr>ic_symbols = ss, max_depth_l2 = 100, ic_channels = [TRADES, L2_BOOK], symbols_per_pod = 1\<rparr>);
       conf = [(OKEX, [(SPOT, ic [''BTC-USDT'']), (FUTURES, ic [''BTC-USDT-PERP''])])] in
   \<exists>config. exchanges_config_FULL_DEBUG conf = Inr config \<and>
     feed_symbols config OKEX L2_BOOK = [''BTC-USDT'', ''BTC-USDT-PERP'']"
proof -
  let ?ic = "\<lambda>ss. \<lparr>ic_symbols = ss, max_depth_l2 = 100, ic_channels = [TRADES, L2_BOOK], symbols_per_pod = 1\<rparr>"
  let ?conf = "[(OKEX, [(SPOT, ?ic [''BTC-USDT'']), (FUTURES, ?ic [''BTC-USDT-PERP''])])]"
  have "dict_wf ?conf" "dict_all dict_wf ?conf" by (simp_all add: dict_wf_def dict_all_def SPOT_def FUTURES_def)
  from debug_config_collects [OF this] show ?thesis by (auto simp: Let_def collected_def)
qed

end
