(* ===== verification/HealthCheck.thy ===== *)
theory HealthCheck
  imports ConfigBuilders
begin

text \<open>
  data_feed/health_check/health_check.py, the liveness probe of a data feed, and what it makes of
  the configurations that configs/data_feed writes. Redis, the clock and the time of the last
  change of the log are parameters; the printed tails of the logs are left out.
\<close>

section \<open>The probe\<close>

definition SUCCESS :: int where "SUCCESS = 0"
definition FAILURE :: int where "FAILURE = 1"

text \<open>\<open>len(v)\<close> and \<open>len(v['symbols'])\<close> of an entry of an exchange; a list takes no string.\<close>

definition len_of :: "feed_val \<Rightarrow> nat pyres" where
  "len_of v = (case v of
     SYMBOLS l \<Rightarrow> Inr (length l)
   | BOOK b \<Rightarrow> Inr (if max_depth b = None then 2 else 3)
   | NUM i \<Rightarrow> Inl TypeError)"

definition len_of_symbols :: "feed_val \<Rightarrow> nat pyres" where
  "len_of_symbols v = (case v of BOOK b \<Rightarrow> Inr (length (book_symbols b)) | _ \<Rightarrow> Inl TypeError)"

definition keys_of :: "(feed_val \<Rightarrow> nat pyres) \<Rightarrow> feed_channel \<Rightarrow> (feed_key, feed_val) dict \<Rightarrow> nat \<Rightarrow> nat pyres" where
  "keys_of len ch ex_conf n = (case map_of ex_conf (CHANNEL ch) of None \<Rightarrow> Inr n | Some v \<Rightarrow> bindE (len v) (\<lambda>k. Inr (n + k)))"

definition exchange_keys :: "(feed_key, feed_val) dict \<Rightarrow> nat \<Rightarrow> nat pyres" where
  "exchange_keys ex_conf n =
     bindE (foldE (\<lambda>ch. keys_of len_of ch ex_conf) [TRADES, TICKER] n)
       (foldE (\<lambda>ch. keys_of len_of_symbols ch ex_conf) [L2_BOOK, L3_BOOK, LIQUIDATIONS, OPEN_INTEREST, FUNDING])"

definition num_redis_keys :: "feed_config \<Rightarrow> nat pyres" where
  "num_redis_keys config = foldE (\<lambda>(exchange, ex_conf). exchange_keys ex_conf) config 0"

definition health_check :: "feed_config \<Rightarrow> rat \<Rightarrow> nat \<Rightarrow> rat \<Rightarrow> rat \<Rightarrow> int pyres" where
  "health_check config storage_interval_seconds redis_keys mtime_cryptostore now =
     bindE (num_redis_keys config) (\<lambda>num_keys.
       if num_keys \<noteq> redis_keys then Inr FAILURE
       else if now - mtime_cryptostore > storage_interval_seconds + 2 then Inr FAILURE
       else Inr SUCCESS)"

section \<open>Probing a generated configuration\<close>

definition fresh_val :: "instrument_config \<Rightarrow> string list \<Rightarrow> feed_channel \<Rightarrow> feed_val" where
  "fresh_val ic symbols ch =
     (if ch = L2_BOOK then BOOK \<lparr>book_symbols = symbols, book_delta = True,
        max_depth = if 0 < max_depth_l2 ic then Some (max_depth_l2 ic) else None\<rparr>
      else if ch = L3_BOOK then BOOK \<lparr>book_symbols = symbols, book_delta = True, max_depth = None\<rparr>
      else SYMBOLS symbols)"

lemma populate_fresh:
  assumes "distinct chs" "\<forall>ch\<in>set chs. CHANNEL ch \<notin> fst ` set d"
  shows "foldE (populate_channel ic exchange symbols) chs [(exchange, d)] =
    Inr [(exchange, d @ map (\<lambda>ch. (CHANNEL ch, fresh_val ic symbols ch)) (filter (\<lambda>ch. ch \<in> set (ic_channels ic)) chs))]"
  using assms
proof (induction chs arbitrary: d)
  case (Cons ch chs)
  have none: "map_of d (CHANNEL ch) = None" using Cons.prems(2) by (simp add: map_of_eq_None_iff)
  show ?case
  proof (cases "ch \<in> set (ic_channels ic)")
    case True
    have "populate_channel ic exchange symbols ch [(exchange, d)] = Inr [(exchange, d @ [(CHANNEL ch, fresh_val ic symbols ch)])]"
      using True none Cons.prems(2)
      by (auto simp: populate_channel_def dict_lookup_def populate_plain_def populate_book_def fresh_val_def dict_put_fresh
          split: feed_channel.split)
    moreover have "\<forall>c\<in>set chs. CHANNEL c \<notin> fst ` set (d @ [(CHANNEL ch, fresh_val ic symbols ch)])"
      using Cons.prems by auto
    ultimately show ?thesis using True Cons.IH [of "d @ [(CHANNEL ch, fresh_val ic symbols ch)]"] Cons.prems(1) by simp
  next
    case False
    then show ?thesis using Cons.IH [of d] Cons.prems by (simp add: populate_channel_def)
  qed
qed simp

lemma exchange_feed_config_eq:
  assumes "instrument_of conf exchange instrument = Inr ic"
  shows "exchange_feed_config conf exchange instrument symbols =
    Inr [(exchange, (RETRIES, NUM (-1)) # map (\<lambda>ch. (CHANNEL ch, fresh_val ic symbols ch))
      (filter (\<lambda>ch. ch \<in> set (ic_channels ic)) CHANNEL_ORDER))]"
proof -
  have "distinct CHANNEL_ORDER" by (simp add: CHANNEL_ORDER_def)
  from populate_fresh [OF this, of "[(RETRIES, NUM (-1))]"] assms show ?thesis
    by (simp add: exchange_feed_config_def populate_channels_def)
qed

lemma map_of_channels:
  "map_of ((RETRIES, x) # map (\<lambda>ch. (CHANNEL ch, f ch)) chs) (CHANNEL ch) = (if ch \<in> set chs then Some (f ch) else None)"
  by (induction chs) auto

definition has :: "instrument_config \<Rightarrow> feed_channel \<Rightarrow> nat" where
  "has ic ch = (if ch \<in> set (ic_channels ic) then 1 else 0)"

text \<open>What the probe makes of the configuration of a pod. When the instrument has liquidations,
  open interest or funding, the probe always raises TypeError: it expects these channels to be entered
  like books, and they are entered as lists. Otherwise it expects as many keys in Redis as there are pairs
  of a symbol of the pod and a channel.\<close>

theorem probe_of_a_generated_config:
  assumes "instrument_of conf exchange instrument = Inr ic"
    and "exchange_feed_config conf exchange instrument symbols = Inr config"
  shows "health_check config interval redis_keys mtime now =
    (if {LIQUIDATIONS, OPEN_INTEREST, FUNDING} \<inter> set (ic_channels ic) \<noteq> {} then Inl TypeError
     else if redis_keys = length symbols * (has ic TRADES + has ic TICKER + has ic L2_BOOK + has ic L3_BOOK)
       \<and> now - mtime \<le> interval + 2 then Inr SUCCESS else Inr FAILURE)"
proof -
  define ex_conf where "ex_conf = (RETRIES, NUM (-1)) # map (\<lambda>ch. (CHANNEL ch, fresh_val ic symbols ch))
      (filter (\<lambda>ch. ch \<in> set (ic_channels ic)) CHANNEL_ORDER)"
  have config: "config = [(exchange, ex_conf)]"
    using assms(2) exchange_feed_config_eq [OF assms(1), of symbols] by (simp add: ex_conf_def)
  have get: "map_of ex_conf (CHANNEL ch) = (if ch \<in> set (ic_channels ic) then Some (fresh_val ic symbols ch) else None)" for ch
    unfolding ex_conf_def map_of_channels by (cases ch) (simp_all add: CHANNEL_ORDER_def)
  have plain: "keys_of len_of ch ex_conf n = Inr (n + has ic ch * length symbols)" if "ch \<in> {TRADES, TICKER}" for ch n
    using that by (auto simp: keys_of_def get fresh_val_def len_of_def has_def)
  have book: "keys_of len_of_symbols ch ex_conf n = Inr (n + has ic ch * length symbols)" if "ch \<in> {L2_BOOK, L3_BOOK}" for ch n
    using that by (auto simp: keys_of_def get fresh_val_def len_of_symbols_def has_def)
  have other: "keys_of len_of_symbols ch ex_conf n = (if ch \<in> set (ic_channels ic) then Inl TypeError else Inr n)"
    if "ch \<in> {LIQUIDATIONS, OPEN_INTEREST, FUNDING}" for ch n
    using that by (auto simp: keys_of_def get fresh_val_def len_of_symbols_def)
  have "num_redis_keys config =
    (if {LIQUIDATIONS, OPEN_INTEREST, FUNDING} \<inter> set (ic_channels ic) \<noteq> {} then Inl TypeError
     else Inr (length symbols * (has ic TRADES + has ic TICKER + has ic L2_BOOK + has ic L3_BOOK)))"
    by (simp add: num_redis_keys_def config exchange_keys_def plain book other algebra_simps)
  then show ?thesis by (auto simp: health_check_def not_less)
qed

theorem probe_of_a_generated_config_witness:
  "let ic = (\<lambda>chs. \<lparr>ic_symbols = [''BTC-USDT''], max_depth_l2 = 100, ic_channels = chs, symbols_per_pod = 1\<rparr>);
       feed = (\<lambda>chs. exchange_feed_config [(BYBIT, [(FUTURES, ic chs)])] BYBIT FUTURES [''BTC-USDT'']) in
   (\<exists>c. feed [TRADES, L2_BOOK, FUNDING] = Inr c \<and> health_check c 30 3 100 101 = Inl TypeError) \<and>
   (\<exists>c. feed [TRADES, L2_BOOK] = Inr c \<and> health_check c 30 2 100 101 = Inr SUCCESS)"
proof -
  define ic where "ic = (\<lambda>chs. \<lparr>ic_symbols = [''BTC-USDT''], max_depth_l2 = 100, ic_channels = chs, symbols_per_pod = 1\<rparr>)"
  have get: "instrument_of [(BYBIT, [(FUTURES, ic chs)])] BYBIT FUTURES = Inr (ic chs)" for chs
    by (simp add: instrument_of_def dict_lookup_def)
  obtain c where c: "exchange_feed_config [(BYBIT, [(FUTURES, ic [TRADES, L2_BOOK, FUNDING])])] BYBIT FUTURES [''BTC-USDT''] = Inr c"
    using exchange_feed_config_eq [OF get] by blast
  obtain d where d: "exchange_feed_config [(BYBIT, [(FUTURES, ic [TRADES, L2_BOOK])])] BYBIT FUTURES [''BTC-USDT''] = Inr d"
    using exchange_feed_config_eq [OF get] by blast
  show ?thesis
    using probe_of_a_generated_config [OF get c, of 30 3 100 101] probe_of_a_generated_config [OF get d, of 30 2 100 101] c d
    by (simp add: Let_def ic_def has_def)
qed

end
