(* ===== verification/SqlClient.thy ===== *)
theory SqlClient
  imports Blocks PyValue PyString "HOL-Library.Char_ord" "HOL-Library.List_Lexorder"
begin

text \<open>
  featurizer/sql: the tables (sql/models, sql/feature_def/models.py) and the client that reads and
  writes them (client.py). A table is the list of its rows. A commit fails as a whole when a primary
  key or a unique column would repeat, which is what the declared columns ask of the database.
\<close>

section \<open>Tables\<close>

definition DEFAULT_COMPACTION :: string where "DEFAULT_COMPACTION = ''raw''"

text \<open>A row of the block tables, of data sources and of features alike; \<open>None\<close> is NULL.\<close>

record block_row =
  br_owner :: string
  br_key :: string
  br_definition :: string
  br_start_ts :: string
  br_end_ts :: string
  br_day :: string
  br_compaction :: string
  br_path :: "string option"
  br_hash :: "string option"
  br_num_rows :: int
  br_size_kb :: rat
  br_size_in_memory_kb :: int
  br_meta :: pyval
  br_extras :: pydict

record metadata_row =
  mr_owner :: string
  mr_key :: string
  mr_definition :: string
  mr_version :: string
  mr_name :: "string option"
  mr_params :: pydict

record feature_def_row =
  fd_owner :: string
  fd_group :: string
  fd_definition :: string
  fd_version :: string
  fd_path :: string
  fd_tags :: pyval

record catalog_db =
  data_source_blocks :: "block_row list"
  feature_blocks :: "block_row list"
  data_sources :: "metadata_row list"
  features_metadata :: "metadata_row list"
  feature_definitions :: "feature_def_row list"

text \<open>Unique columns ignore NULL.\<close>

definition unique_column :: "('r \<Rightarrow> 'v option) \<Rightarrow> 'r list \<Rightarrow> bool" where
  "unique_column col rows = distinct (filter (\<lambda>v. v \<noteq> None) (map col rows))"

definition block_key :: "block_row \<Rightarrow> string list" where
  "block_key r = [br_owner r, br_key r, br_definition r, br_start_ts r, br_end_ts r, br_day r, br_compaction r]"

definition blocks_ok :: "block_row list \<Rightarrow> bool" where
  "blocks_ok rows \<longleftrightarrow> distinct (map block_key rows) \<and> unique_column br_path rows \<and> unique_column br_hash rows"

definition metadata_key :: "metadata_row \<Rightarrow> string list" where
  "metadata_key r = [mr_owner r, mr_key r, mr_definition r, mr_version r]"

definition metadata_ok :: "metadata_row list \<Rightarrow> bool" where
  "metadata_ok rows \<longleftrightarrow> distinct (map metadata_key rows) \<and> unique_column mr_name rows"

definition feature_def_key :: "feature_def_row \<Rightarrow> string \<times> string \<times> string \<times> string" where
  "feature_def_key r = (fd_owner r, fd_group r, fd_definition r, fd_version r)"

definition feature_defs_ok :: "feature_def_row list \<Rightarrow> bool" where
  "feature_defs_ok rows \<longleftrightarrow> distinct (map feature_def_key rows) \<and> distinct (map fd_path rows)"

definition insert_rows :: "('r list \<Rightarrow> bool) \<Rightarrow> 'r list \<Rightarrow> 'r list \<Rightarrow> 'r list pyres" where
  "insert_rows ok batch rows = (if ok (rows @ batch) then Inr (rows @ batch) else Inl IntegrityError)"

section \<open>Paths\<close>

definition path_fields :: "string list \<Rightarrow> string \<Rightarrow> string" where
  "path_fields cols prefix = fold (\<lambda>v res. if v \<noteq> [] then res @ v @ ''/'' else res) cols prefix"

text \<open>\<open>build_data_source_block_path\<close> and \<open>build_feature_block_path\<close>; the start is a float at this point.\<close>

definition block_path_of :: "string list \<Rightarrow> rat \<Rightarrow> string \<Rightarrow> string \<Rightarrow> string" where
  "block_path_of cols start hash prefix =
     path_fields cols prefix @ show_int (int_trunc start) @ ''-'' @ hash @ ''.parquet.gz''"

definition construct_feature_def_s3_path :: "feature_def_row \<Rightarrow> string" where
  "construct_feature_def_s3_path r =
     fold (\<lambda>v res. res @ v @ ''/'') [fd_owner r, fd_group r, fd_definition r, fd_version r] ''s3://svoe-feature-definitions/''"

section \<open>The client\<close>

datatype block_batch = DataBlocks "block_row list" | FeatureBlocks "block_row list"

definition new_rows :: "block_row list \<Rightarrow> block_row list \<Rightarrow> block_row list" where
  "new_rows batch rows =
     (let hashes = map br_hash batch;
          existing_hashes = map br_hash (filter (\<lambda>r. br_hash r \<noteq> None \<and> br_hash r \<in> set hashes) rows)
      in filter (\<lambda>i. br_hash i \<notin> set existing_hashes) batch)"

definition store_block_metadata_batch :: "block_batch \<Rightarrow> catalog_db \<Rightarrow> catalog_db pyres" where
  "store_block_metadata_batch batch db =
     (case batch of
        DataBlocks rows \<Rightarrow>
          if rows = [] then Inl IndexError
          else bindE (insert_rows blocks_ok (new_rows rows (data_source_blocks db)) (data_source_blocks db))
            (\<lambda>t. Inr (db\<lparr>data_source_blocks := t\<rparr>))
      | FeatureBlocks rows \<Rightarrow>
          if rows = [] then Inl IndexError
          else bindE (insert_rows blocks_ok (new_rows rows (feature_blocks db)) (feature_blocks db))
            (\<lambda>t. Inr (db\<lparr>feature_blocks := t\<rparr>)))"

text \<open>\<open>col.in_(keys)\<close>, the filters on the day and the order by start, all on the strings stored.\<close>

definition select_blocks :: "string list \<Rightarrow> string option \<Rightarrow> string option \<Rightarrow> block_row list \<Rightarrow> block_row list" where
  "select_blocks ks start_day end_day rows =
     sort_key br_start_ts (filter (\<lambda>r. br_key r \<in> set ks \<and>
       (case start_day of None \<Rightarrow> True | Some d \<Rightarrow> d \<le> br_day r) \<and>
       (case end_day of None \<Rightarrow> True | Some d \<Rightarrow> br_day r \<le> d)) rows)"

definition select_data_source_metadata ::
    "string list \<Rightarrow> string option \<Rightarrow> pydict option \<Rightarrow> string option \<Rightarrow> string option \<Rightarrow> catalog_db \<Rightarrow> block_row list" where
  "select_data_source_metadata ks compaction extras start_day end_day db =
     select_blocks ks start_day end_day (filter (\<lambda>r.
       (case compaction of None \<Rightarrow> True | Some c \<Rightarrow> br_compaction r = c) \<and>
       (case extras of None \<Rightarrow> True | Some e \<Rightarrow> br_extras r = e)) (data_source_blocks db))"

definition select_feature_blocks_metadata :: "string list \<Rightarrow> string option \<Rightarrow> string option \<Rightarrow> catalog_db \<Rightarrow> block_row list" where
  "select_feature_blocks_metadata feature_keys start_day end_day db =
     select_blocks feature_keys start_day end_day (feature_blocks db)"

definition feature_block_exists :: "block_row \<Rightarrow> catalog_db \<Rightarrow> bool" where
  "feature_block_exists item db = list_ex (\<lambda>r. br_hash r \<noteq> None \<and> br_hash r = br_hash item) (feature_blocks db)"

datatype metadata_items = DataSources "metadata_row list" | FeatureItems "metadata_row list"

definition new_metadata :: "metadata_row list \<Rightarrow> metadata_row list \<Rightarrow> metadata_row list" where
  "new_metadata items rows =
     (let keys = map mr_key items; existing_keys = map mr_key (filter (\<lambda>r. mr_key r \<in> set keys) rows)
      in filter (\<lambda>i. mr_key i \<notin> set existing_keys) items)"

definition store_metadata_if_needed :: "metadata_items \<Rightarrow> catalog_db \<Rightarrow> (nat \<times> catalog_db) pyres" where
  "store_metadata_if_needed items db =
     (case items of
        DataSources rows \<Rightarrow>
          if rows = [] then Inl IndexError
          else let batch = new_metadata rows (data_sources db) in
            if batch = [] then Inr (0, db)
            else bindE (insert_rows metadata_ok batch (data_sources db)) (\<lambda>t. Inr (length batch, db\<lparr>data_sources := t\<rparr>))
      | FeatureItems rows \<Rightarrow>
          if rows = [] then Inl IndexError
          else let batch = new_metadata rows (features_metadata db) in
            if batch = [] then Inr (0, db)
            else bindE (insert_rows metadata_ok batch (features_metadata db)) (\<lambda>t. Inr (length batch, db\<lparr>features_metadata := t\<rparr>)))"

definition delete_feature_metadata :: "string list \<Rightarrow> catalog_db \<Rightarrow> catalog_db" where
  "delete_feature_metadata feature_keys db =
     db\<lparr>features_metadata := filter (\<lambda>r. mr_key r \<notin> set feature_keys) (features_metadata db),
        feature_blocks := filter (\<lambda>r. br_key r \<notin> set feature_keys) (feature_blocks db)\<rparr>"

definition write_feature_def :: "feature_def_row \<Rightarrow> catalog_db \<Rightarrow> catalog_db pyres" where
  "write_feature_def item db =
     bindE (insert_rows feature_defs_ok [item] (feature_definitions db)) (\<lambda>t. Inr (db\<lparr>feature_definitions := t\<rparr>))"

definition get_feature_def :: "string \<Rightarrow> string \<Rightarrow> string \<Rightarrow> string \<Rightarrow> catalog_db \<Rightarrow> feature_def_row option" where
  "get_feature_def owner grp defn version db =
     List.find (\<lambda>r. feature_def_key r = (owner, grp, defn, version)) (feature_definitions db)"

text \<open>\<open>filter_cryptotick_batch\<close>: the files of a batch the table does not have all splits of. A file
  without rows is new; the number of splits of one with rows is read off its first row.\<close>

definition source_path :: "block_row \<Rightarrow> string option" where
  "source_path r = (case map_of (br_extras r) ''source_path'' of Some (PStr p) \<Rightarrow> Some p | _ \<Rightarrow> None)"

definition item_is_new :: "block_row list \<Rightarrow> string \<Rightarrow> bool pyres" where
  "item_is_new rows path =
     (let rows_for_item = filter (\<lambda>r. source_path r = Some path) rows in
      if rows_for_item = [] then Inr True
      else bindE (dict_lookup (br_extras (hd rows_for_item)) ''num_splits'') (\<lambda>num_splits.
        Inr (\<not> py_eq (PInt (int (length rows_for_item))) num_splits)))"

definition filter_cryptotick_batch :: "('i \<Rightarrow> string) \<Rightarrow> 'i list \<Rightarrow> catalog_db \<Rightarrow> 'i list pyres" where
  "filter_cryptotick_batch item_path items db =
     (let rows = filter (\<lambda>r. source_path r \<in> set (map (Some \<circ> item_path) items)) (data_source_blocks db) in
      if rows = [] then Inr items
      else foldE (\<lambda>item non_exist. bindE (item_is_new rows (item_path item)) (\<lambda>new.
        Inr (if new then non_exist @ [item] else non_exist))) items [])"

section \<open>Keys stay unique\<close>

definition db_ok :: "catalog_db \<Rightarrow> bool" where
  "db_ok db \<longleftrightarrow> blocks_ok (data_source_blocks db) \<and> blocks_ok (feature_blocks db) \<and>
     metadata_ok (data_sources db) \<and> metadata_ok (features_metadata db) \<and> feature_defs_ok (feature_definitions db)"

text \<open>The writes of the client, in any order; a failed one leaves the tables as they are.\<close>

inductive catalog_step :: "catalog_db \<Rightarrow> catalog_db \<Rightarrow> bool" where
  store_blocks: "store_block_metadata_batch batch db = Inr db' \<Longrightarrow> catalog_step db db'"
| store_metadata: "store_metadata_if_needed items db = Inr (n, db') \<Longrightarrow> catalog_step db db'"
| delete_metadata: "catalog_step db (delete_feature_metadata ks db)"
| write_def: "write_feature_def item db = Inr db' \<Longrightarrow> catalog_step db db'"

lemma insert_rows_Inr [simp]: "insert_rows ok batch rows = Inr t \<longleftrightarrow> t = rows @ batch \<and> ok t"
  by (auto simp: insert_rows_def)

lemma unique_column_filter: "unique_column col rows \<Longrightarrow> unique_column col (filter P rows)"
  by (induction rows) (auto simp: unique_column_def split: if_splits)

lemma distinct_map_filtered: "distinct (map f rows) \<Longrightarrow> distinct (map f (filter P rows))"
  by (rule distinct_map_filter)

lemma catalog_step_ok: "catalog_step db db' \<Longrightarrow> db_ok db \<Longrightarrow> db_ok db'"
proof (induction rule: catalog_step.induct)
  case (store_blocks batch db db')
  then show ?case by (auto simp: store_block_metadata_batch_def db_ok_def split: block_batch.splits if_splits)
next
  case (store_metadata items db n db')
  then show ?case by (auto simp: store_metadata_if_needed_def db_ok_def Let_def split: metadata_items.splits if_splits)
next
  case (delete_metadata db ks)
  then show ?case
    by (simp add: delete_feature_metadata_def db_ok_def blocks_ok_def metadata_ok_def unique_column_filter distinct_map_filtered)
next
  case (write_def item db db')
  then show ?case by (auto simp: write_feature_def_def db_ok_def)
qed

text \<open>A batch is found again: its hashes are in the table, and storing it a second time changes
  nothing.\<close>

lemma new_rows_stored:
  assumes "\<forall>r\<in>set batch. br_hash r \<noteq> None"
  shows "br_hash ` set batch \<subseteq> br_hash ` set (rows @ new_rows batch rows)"
    and "new_rows batch (rows @ new_rows batch rows) = []"
proof -
  show covered: "br_hash ` set batch \<subseteq> br_hash ` set (rows @ new_rows batch rows)"
    by (auto simp: new_rows_def Let_def)
  have found: "new_rows batch t = []" if t: "br_hash ` set batch \<subseteq> br_hash ` set t" for t
  proof -
    have "br_hash i \<in> br_hash ` {r \<in> set t. br_hash r \<noteq> None \<and> br_hash r \<in> br_hash ` set batch}" if "i \<in> set batch" for i
    proof -
      from t that obtain r where "r \<in> set t" "br_hash r = br_hash i" by (metis image_eqI imageE subsetD)
      with assms that show ?thesis by (intro image_eqI [of _ _ r]) auto
    qed
    then show ?thesis by (simp add: new_rows_def Let_def filter_empty_conv)
  qed
  from found [OF covered] show "new_rows batch (rows @ new_rows batch rows) = []" .
qed

text \<open>Whatever writes succeed, primary keys and unique columns stay unique in all tables. A batch
  of data blocks with hashes that is stored adds rows of the batch only, leaves every row there
  was, has every hash of the batch in the table afterwards, and storing it again changes nothing.\<close>

theorem stored_batches_are_found:
  assumes "catalog_step\<^sup>*\<^sup>* db0 db" and "db_ok db0"
    and "store_block_metadata_batch (DataBlocks batch) db = Inr db'" and "\<forall>r\<in>set batch. br_hash r \<noteq> None"
  shows "db_ok db' \<and>
    (\<exists>new. data_source_blocks db' = data_source_blocks db @ new \<and> set new \<subseteq> set batch) \<and>
    br_hash ` set batch \<subseteq> br_hash ` set (data_source_blocks db') \<and>
    store_block_metadata_batch (DataBlocks batch) db' = Inr db'"
proof (intro conjI)
  from assms(1,2) have "db_ok db" by (induction rule: rtranclp_induct) (auto intro: catalog_step_ok)
  moreover from assms(3) have "catalog_step db db'" by (rule store_blocks)
  ultimately show ok: "db_ok db'" by (rule catalog_step_ok [rotated])
  from assms(3) have db': "batch \<noteq> []" "db' = db\<lparr>data_source_blocks := data_source_blocks db @ new_rows batch (data_source_blocks db)\<rparr>"
    by (auto simp: store_block_metadata_batch_def split: if_splits)
  show "\<exists>new. data_source_blocks db' = data_source_blocks db @ new \<and> set new \<subseteq> set batch"
    by (auto simp: db' new_rows_def Let_def)
  show "br_hash ` set batch \<subseteq> br_hash ` set (data_source_blocks db')"
    using new_rows_stored(1) [OF assms(4), of "data_source_blocks db"] by (simp add: db')
  show "store_block_metadata_batch (DataBlocks batch) db' = Inr db'"
    using db' ok new_rows_stored(2) [OF assms(4), of "data_source_blocks db"]
    by (simp add: store_block_metadata_batch_def db_ok_def)
qed

definition empty_db :: catalog_db where
  "empty_db = \<lparr>data_source_blocks = [], feature_blocks = [], data_sources = [], features_metadata = [], feature_definitions = []\<rparr>"

definition sample_row :: "string \<Rightarrow> string \<Rightarrow> string \<Rightarrow> block_row" where
  "sample_row start end_t hash = \<lparr>br_owner = ''0'', br_key = ''k'', br_definition = ''TradesData'', br_start_ts = start,
     br_end_ts = end_t, br_day = ''1970-01-01'', br_compaction = DEFAULT_COMPACTION, br_path = Some hash, br_hash = Some hash,
     br_num_rows = 1, br_size_kb = 1, br_size_in_memory_kb = 1, br_meta = PNone, br_extras = []\<rparr>"

theorem stored_batches_are_found_witness:
  "\<exists>db'. store_block_metadata_batch (DataBlocks [sample_row ''1'' ''2'' ''a'', sample_row ''3'' ''4'' ''b'']) empty_db = Inr db' \<and>
    db_ok db' \<and>
    store_block_metadata_batch (DataBlocks [sample_row ''1'' ''2'' ''a'', sample_row ''3'' ''4'' ''b'']) db' = Inr db'"
proof -
  let ?batch = "[sample_row ''1'' ''2'' ''a'', sample_row ''3'' ''4'' ''b'']"
  have start: "catalog_step\<^sup>*\<^sup>* empty_db empty_db" "db_ok empty_db"
    by (simp_all add: db_ok_def empty_db_def blocks_ok_def metadata_ok_def feature_defs_ok_def unique_column_def)
  moreover have "store_block_metadata_batch (DataBlocks ?batch) empty_db = Inr (empty_db\<lparr>data_source_blocks := ?batch\<rparr>)"
    by (simp add: store_block_metadata_batch_def new_rows_def insert_rows_def blocks_ok_def unique_column_def block_key_def
        empty_db_def sample_row_def)
  moreover have "\<forall>r\<in>set ?batch. br_hash r \<noteq> None" by (simp add: sample_row_def)
  ultimately show ?thesis using stored_batches_are_found [of empty_db empty_db ?batch] by blast
qed

end
