(* ===== verification/FeaturizerStorage.thy ===== *)
theory FeaturizerStorage
  imports SqlClient
begin

text \<open>
  featurizer/storage/featurizer_storage.py: the ranges of blocks of data sources and the intervals
  of features in a time range, deleting features, and storing and reading feature definitions.
  Parsing dates, formatting days and \<open>float\<close> are parameters, and so is the object store.
\<close>

section \<open>Ranges of data sources\<close>

record storage_env =
  float_of :: "string \<Rightarrow> rat pyres"
  date_str_to_ts :: "string \<Rightarrow> rat pyres"
  day_str_from_ts :: "rat \<Rightarrow> string"

definition date_str_to_day_str :: "storage_env \<Rightarrow> string \<Rightarrow> string pyres" where
  "date_str_to_day_str env date = bindE (date_str_to_ts env date) (\<lambda>ts. Inr (day_str_from_ts env ts))"

definition optional :: "('a \<Rightarrow> 'b pyres) \<Rightarrow> 'a option \<Rightarrow> 'b option pyres" where
  "optional f x = (case x of None \<Rightarrow> Inr None | Some a \<Rightarrow> bindE (f a) (\<lambda>b. Inr (Some b)))"

text \<open>The two \<open>continue\<close> of the loops over the rows, and the rounding of the times of a block.\<close>

definition in_range :: "rat option \<Rightarrow> rat option \<Rightarrow> rat \<Rightarrow> rat \<Rightarrow> bool" where
  "in_range start_q end_q s e \<longleftrightarrow>
     \<not> (case start_q of None \<Rightarrow> False | Some a \<Rightarrow> e < a) \<and> \<not> (case end_q of None \<Rightarrow> False | Some b \<Rightarrow> b < s)"

definition rounded_meta :: "block_row \<Rightarrow> rat \<Rightarrow> rat \<Rightarrow> block_row BlockMeta" where
  "rounded_meta r s e = \<lparr>start_ts = round_float s, end_ts = round_float e, block_info = r\<rparr>"

definition group_row ::
    "storage_env \<Rightarrow> rat option \<Rightarrow> rat option \<Rightarrow> block_row \<Rightarrow> (string, block_row BlockMeta list) dict
     \<Rightarrow> (string, block_row BlockMeta list) dict pyres" where
  "group_row env start_q end_q r groups =
     bindE (float_of env (br_start_ts r)) (\<lambda>s.
     bindE (float_of env (br_end_ts r)) (\<lambda>e.
     if \<not> in_range start_q end_q s e then Inr groups
     else Inr (case map_of groups (br_key r) of
         Some g \<Rightarrow> dict_put (br_key r) (g @ [rounded_meta r s e]) groups
       | None \<Rightarrow> dict_put (br_key r) [rounded_meta r s e] groups)))"

definition data_sources_meta_by_key ::
    "storage_env \<Rightarrow> string list \<Rightarrow> string option \<Rightarrow> string option \<Rightarrow> catalog_db
     \<Rightarrow> (string, block_row BlockMeta list list) dict pyres" where
  "data_sources_meta_by_key env ks start_date end_date db =
     bindE (optional (date_str_to_day_str env) start_date) (\<lambda>start_day.
     bindE (optional (date_str_to_day_str env) end_date) (\<lambda>end_day.
     let raw_data = select_data_source_metadata ks None None start_day end_day db in
     bindE (optional (date_str_to_ts env) start_date) (\<lambda>start_q.
     bindE (optional (date_str_to_ts env) end_date) (\<lambda>end_q.
     bindE (foldE (group_row env start_q end_q) raw_data []) (\<lambda>groups.
     Inr (map (\<lambda>(k, g). (k, make_ranges g)) groups))))))"

text \<open>Data sources are compared by key; the set of them is a list without repetitions.\<close>

record 'f source_ops =
  sources_of :: "'f \<Rightarrow> 'f list"
  source_key :: "'f \<Rightarrow> string"
  is_synthetic :: "'f \<Rightarrow> bool"
  gen_synthetic_ranges_meta :: "'f \<Rightarrow> string option \<Rightarrow> string option \<Rightarrow> block_row BlockMeta list list pyres"

definition add_source :: "('f \<Rightarrow> string) \<Rightarrow> 'f \<Rightarrow> 'f list \<Rightarrow> 'f list" where
  "add_source key d ds = (if key d \<in> key ` set ds then ds else ds @ [d])"

definition get_data_sources_meta ::
    "storage_env \<Rightarrow> 'f source_ops \<Rightarrow> 'f list \<Rightarrow> string option \<Rightarrow> string option \<Rightarrow> catalog_db
     \<Rightarrow> ('f \<times> block_row BlockMeta list list) list pyres" where
  "get_data_sources_meta env ops features start_date end_date db =
     (let all = concat (map (sources_of ops) features);
          data_deps = fold (add_source (source_key ops)) (filter (\<lambda>d. \<not> is_synthetic ops d) all) [];
          synthetic = fold (add_source (source_key ops)) (filter (is_synthetic ops) all) [];
          data_keys = map (source_key ops) data_deps in
      bindE (if data_keys = [] then Inr [] else data_sources_meta_by_key env data_keys start_date end_date db) (\<lambda>ranges.
      if data_deps \<noteq> [] \<and> ranges = [] then Inl ValueError
      else bindE (mapE (\<lambda>d. bindE (dict_lookup ranges (source_key ops d)) (\<lambda>r. Inr (d, r))) data_deps) (\<lambda>res.
        bindE (mapE (\<lambda>d. bindE (gen_synthetic_ranges_meta ops d start_date end_date) (\<lambda>r. Inr (d, r))) synthetic) (\<lambda>syn.
        Inr (res @ syn)))))"

section \<open>Intervals of features\<close>

text \<open>\<open>closed(a, b)\<close> of portion as a key; all empty intervals are equal.\<close>

definition closed_key :: "rat \<Rightarrow> rat \<Rightarrow> Interval option" where
  "closed_key a b = (if b < a then None else Some (closed_ivl a b))"

type_synonym 'f feature_blocks_meta = "('f option, (Interval option, block_row) dict) dict"

definition feature_by_key :: "('f \<Rightarrow> string) \<Rightarrow> 'f list \<Rightarrow> string \<Rightarrow> 'f option" where
  "feature_by_key key features k = List.find (\<lambda>f. key f = k) features"

definition group_feature_row ::
    "storage_env \<Rightarrow> ('f \<Rightarrow> string) \<Rightarrow> 'f list \<Rightarrow> rat option \<Rightarrow> rat option \<Rightarrow> block_row \<Rightarrow> 'f feature_blocks_meta
     \<Rightarrow> 'f feature_blocks_meta pyres" where
  "group_feature_row env key features start_q end_q r groups =
     bindE (float_of env (br_start_ts r)) (\<lambda>s.
     bindE (float_of env (br_end_ts r)) (\<lambda>e.
     if \<not> in_range start_q end_q s e then Inr groups
     else let interval = closed_key (round_float s) (round_float e); feature = feature_by_key key features (br_key r) in
       case map_of groups feature of
         Some g \<Rightarrow> if dict_has g interval then Inl ValueError else Inr (dict_put feature (dict_put interval r g) groups)
       | None \<Rightarrow> Inr (dict_put feature [(interval, r)] groups)))"

definition get_features_meta ::
    "storage_env \<Rightarrow> ('f \<Rightarrow> string) \<Rightarrow> 'f list \<Rightarrow> string option \<Rightarrow> string option \<Rightarrow> catalog_db
     \<Rightarrow> 'f feature_blocks_meta pyres" where
  "get_features_meta env key features start_date end_date db =
     bindE (optional (date_str_to_day_str env) start_date) (\<lambda>start_day.
     bindE (optional (date_str_to_day_str env) end_date) (\<lambda>end_day.
     let raw_data = select_feature_blocks_metadata (map key features) start_day end_day db in
     bindE (optional (date_str_to_ts env) start_date) (\<lambda>start_q.
     bindE (optional (date_str_to_ts env) end_date) (\<lambda>end_q.
     foldE (group_feature_row env key features start_q end_q) raw_data []))))"

definition store_features_metadata_if_needed ::
    "('f \<Rightarrow> metadata_row) \<Rightarrow> 'f list \<Rightarrow> catalog_db \<Rightarrow> catalog_db pyres" where
  "store_features_metadata_if_needed row features db =
     bindE (store_metadata_if_needed (FeatureItems (map row features)) db) (\<lambda>(n, db'). Inr db')"

section \<open>The object store\<close>

text \<open>What the code uses of s3fs and boto3, and the paths of common/s3/s3_utils.py.\<close>

record ('s, 'c) s3_ops =
  s3_put :: "string \<Rightarrow> (string, 'c) dict \<Rightarrow> 's \<Rightarrow> 's pyres"
  s3_ls :: "string \<Rightarrow> 's \<Rightarrow> string list pyres"
  s3_read :: "string \<Rightarrow> 's \<Rightarrow> 'c pyres"
  s3_delete_objects :: "string \<Rightarrow> string list \<Rightarrow> 's \<Rightarrow> 's pyres"

definition removeprefix :: "string \<Rightarrow> string \<Rightarrow> string" where
  "removeprefix p s = (if startswith s p then drop (length p) s else s)"

definition to_bucket_and_key :: "string \<Rightarrow> string \<times> string" where
  "to_bucket_and_key path =
     (let path = removeprefix ''s3://'' path; bucket_name = hd (py_split ''/'' path)
      in (bucket_name, removeprefix (bucket_name @ ''/'') path))"

definition delete_files :: "('s, 'c) s3_ops \<Rightarrow> string \<Rightarrow> string list \<Rightarrow> 's \<Rightarrow> 's pyres" where
  "delete_files ops bucket_name paths st =
     (if 1000 < length paths then Inl ValueError
      else s3_delete_objects ops bucket_name (map (\<lambda>p. snd (to_bucket_and_key p)) paths) st)"

definition SVOE_S3_FEATURE_CATALOG_BUCKET :: string where
  "SVOE_S3_FEATURE_CATALOG_BUCKET = ''svoe-feature-catalog-data''"

definition delete_features ::
    "('s, 'c) s3_ops \<Rightarrow> ('f \<Rightarrow> string) \<Rightarrow> 'f list \<Rightarrow> 's \<times> catalog_db \<Rightarrow> ('s \<times> catalog_db) pyres" where
  "delete_features ops key features = (\<lambda>(st, db).
     let feature_keys = map key features; raw_data = select_feature_blocks_metadata feature_keys None None db in
     bindE (mapE (\<lambda>r. case br_path r of None \<Rightarrow> Inl AttributeError | Some p \<Rightarrow> Inr p) raw_data) (\<lambda>paths.
     bindE (delete_files ops SVOE_S3_FEATURE_CATALOG_BUCKET paths st) (\<lambda>st'.
     Inr (st', delete_feature_metadata feature_keys db))))"

section \<open>Feature definitions\<close>

text \<open>\<open>store_feature_def\<close> catches every exception; what it did before stays done. The received files
  are first written to a directory, where a later file of the same name replaces an earlier one.\<close>

datatype store_error = NO_FILES | FAILED_TO_STORE py_error | NOT_IN_DB | FAILED_TO_GET py_error

definition write_files :: "(string \<times> 'c) list \<Rightarrow> (string, 'c) dict" where
  "write_files files = fold (\<lambda>(name, content) d. dict_put name content d) files []"

definition feature_def_item :: "string \<Rightarrow> string \<Rightarrow> string \<Rightarrow> string \<Rightarrow> pyval \<Rightarrow> feature_def_row" where
  "feature_def_item owner grp defn version tags =
     (let item = \<lparr>fd_owner = owner, fd_group = grp, fd_definition = defn, fd_version = version, fd_path = [], fd_tags = tags\<rparr>
      in item\<lparr>fd_path := construct_feature_def_s3_path item\<rparr>)"

definition store_feature_def ::
    "('s, 'c) s3_ops \<Rightarrow> string \<Rightarrow> string \<Rightarrow> string \<Rightarrow> string \<Rightarrow> pyval \<Rightarrow> (string \<times> 'c) list \<Rightarrow> 's \<times> catalog_db
     \<Rightarrow> (bool \<times> store_error option) \<times> 's \<times> catalog_db" where
  "store_feature_def ops owner grp defn version tags files = (\<lambda>(st, db).
     if files = [] then ((False, Some NO_FILES), st, db)
     else let item = feature_def_item owner grp defn version tags in
       case s3_put ops (fd_path item) (write_files files) st of
         Inl e \<Rightarrow> ((False, Some (FAILED_TO_STORE e)), st, db)
       | Inr st' \<Rightarrow>
           (case write_feature_def item db of
              Inl e \<Rightarrow> ((False, Some (FAILED_TO_STORE e)), st', db)
            | Inr db' \<Rightarrow> ((True, None), st', db')))"

text \<open>The name of a file without its directory, and the files of a definition as entries of an
  archive.\<close>

definition base_name :: "string \<Rightarrow> string" where
  "base_name path = last (py_split ''/'' path)"

definition download_dir :: "('s, 'c) s3_ops \<Rightarrow> string \<Rightarrow> 's \<Rightarrow> (string \<times> 'c) list pyres" where
  "download_dir ops s3_path st =
     bindE (s3_ls ops s3_path st) (\<lambda>files.
     mapE (\<lambda>f. bindE (s3_read ops f st) (\<lambda>c. Inr (removeprefix (removeprefix ''s3://'' s3_path) f, c))) files)"

definition get_feature_def_files_zipped ::
    "('s, 'c) s3_ops \<Rightarrow> string \<Rightarrow> string \<Rightarrow> string \<Rightarrow> string \<Rightarrow> 's \<times> catalog_db \<Rightarrow> store_error + (string \<times> 'c) list" where
  "get_feature_def_files_zipped ops owner grp defn version = (\<lambda>(st, db).
     case get_feature_def owner grp defn version db of
       None \<Rightarrow> Inl NOT_IN_DB
     | Some fd_db \<Rightarrow>
         (case download_dir ops (fd_path fd_db) st of
            Inl e \<Rightarrow> Inl (FAILED_TO_GET e)
          | Inr local_files \<Rightarrow> Inr (map (\<lambda>(path, c). (base_name path, c)) local_files)))"

section \<open>Queries are exact\<close>

text \<open>Blocks lie within a day, which is the day of their row, and later times have no earlier day.\<close>

definition row_ok :: "storage_env \<Rightarrow> block_row \<Rightarrow> bool" where
  "row_ok env r \<longleftrightarrow> (\<exists>s e. float_of env (br_start_ts r) = Inr s \<and> float_of env (br_end_ts r) = Inr e \<and> s \<le> e \<and>
     br_day r = day_str_from_ts env s \<and> br_day r = day_str_from_ts env e)"

definition days_in_order :: "storage_env \<Rightarrow> bool" where
  "days_in_order env \<longleftrightarrow> (\<forall>a b. a \<le> b \<longrightarrow> day_str_from_ts env a \<le> day_str_from_ts env b)"

definition row_start :: "storage_env \<Rightarrow> block_row \<Rightarrow> rat" where
  "row_start env r = (case float_of env (br_start_ts r) of Inl e \<Rightarrow> 0 | Inr s \<Rightarrow> s)"

definition row_end :: "storage_env \<Rightarrow> block_row \<Rightarrow> rat" where
  "row_end env r = (case float_of env (br_end_ts r) of Inl e \<Rightarrow> 0 | Inr s \<Rightarrow> s)"

definition row_meta :: "storage_env \<Rightarrow> block_row \<Rightarrow> block_row BlockMeta" where
  "row_meta env r = rounded_meta r (row_start env r) (row_end env r)"

definition row_in_range :: "storage_env \<Rightarrow> rat option \<Rightarrow> rat option \<Rightarrow> block_row \<Rightarrow> bool" where
  "row_in_range env start_q end_q r = in_range start_q end_q (row_start env r) (row_end env r)"

lemma row_ok_floats:
  "row_ok env r \<Longrightarrow> float_of env (br_start_ts r) = Inr (row_start env r) \<and> float_of env (br_end_ts r) = Inr (row_end env r)"
  by (auto simp: row_ok_def row_start_def row_end_def)

text \<open>The filter on days of the database loses no row of the range.\<close>

lemma day_filter_redundant:
  assumes "row_ok env r" "days_in_order env" "row_in_range env start_q end_q r"
  shows "case map_option (day_str_from_ts env) start_q of None \<Rightarrow> True | Some d \<Rightarrow> d \<le> br_day r"
    and "case map_option (day_str_from_ts env) end_q of None \<Rightarrow> True | Some d \<Rightarrow> br_day r \<le> d"
proof -
  have day: "br_day r = day_str_from_ts env (row_start env r)" "br_day r = day_str_from_ts env (row_end env r)"
    using assms(1) row_ok_floats [OF assms(1)] by (auto simp: row_ok_def)
  show "case map_option (day_str_from_ts env) start_q of None \<Rightarrow> True | Some d \<Rightarrow> d \<le> br_day r"
    using assms(2,3) unfolding day(2)
    by (auto simp: row_in_range_def in_range_def days_in_order_def not_less split: option.splits)
  show "case map_option (day_str_from_ts env) end_q of None \<Rightarrow> True | Some d \<Rightarrow> br_day r \<le> d"
    using assms(2,3) unfolding day(1)
    by (auto simp: row_in_range_def in_range_def days_in_order_def not_less split: option.splits)
qed

lemma rows_in_range:
  assumes "list_all (row_ok env) rows" "days_in_order env"
  shows "filter (\<lambda>r. br_key r = k \<and> row_in_range env start_q end_q r)
      (select_blocks ks (map_option (day_str_from_ts env) start_q) (map_option (day_str_from_ts env) end_q) rows) =
    (if k \<in> set ks then filter (\<lambda>r. br_key r = k \<and> row_in_range env start_q end_q r) (sort_key br_start_ts rows) else [])"
proof -
  have "(br_key r = k \<and> row_in_range env start_q end_q r) \<and> br_key r \<in> set ks \<and>
       (case map_option (day_str_from_ts env) start_q of None \<Rightarrow> True | Some d \<Rightarrow> d \<le> br_day r) \<and>
       (case map_option (day_str_from_ts env) end_q of None \<Rightarrow> True | Some d \<Rightarrow> br_day r \<le> d) \<longleftrightarrow>
     k \<in> set ks \<and> br_key r = k \<and> row_in_range env start_q end_q r" if "r \<in> set rows" for r
    using day_filter_redundant [of env r start_q end_q] assms that by (auto simp: list_all_iff)
  then have "filter (\<lambda>r. (br_key r = k \<and> row_in_range env start_q end_q r) \<and> br_key r \<in> set ks \<and>
       (case map_option (day_str_from_ts env) start_q of None \<Rightarrow> True | Some d \<Rightarrow> d \<le> br_day r) \<and>
       (case map_option (day_str_from_ts env) end_q of None \<Rightarrow> True | Some d \<Rightarrow> br_day r \<le> d)) rows =
     filter (\<lambda>r. k \<in> set ks \<and> br_key r = k \<and> row_in_range env start_q end_q r) rows"
    by (intro filter_cong) auto
  then show ?thesis by (simp add: select_blocks_def filter_sort conj_commute)
qed

lemma group_rows:
  assumes "list_all (row_ok env) rows" "\<forall>k g. map_of groups k = Some g \<longrightarrow> g \<noteq> []"
  shows "\<exists>groups'. foldE (group_row env start_q end_q) rows groups = Inr groups' \<and>
    (\<forall>k. (case map_of groups' k of None \<Rightarrow> [] | Some g \<Rightarrow> g) = (case map_of groups k of None \<Rightarrow> [] | Some g \<Rightarrow> g) @
       map (row_meta env) (filter (\<lambda>r. br_key r = k \<and> row_in_range env start_q end_q r) rows)) \<and>
    (\<forall>k g. map_of groups' k = Some g \<longrightarrow> g \<noteq> [])"
  using assms
proof (induction rows arbitrary: groups)
  case (Cons r rows)
  define groups1 where "groups1 = (if row_in_range env start_q end_q r
      then dict_put (br_key r) ((case map_of groups (br_key r) of None \<Rightarrow> [] | Some g \<Rightarrow> g) @ [row_meta env r]) groups else groups)"
  have step: "group_row env start_q end_q r groups = Inr groups1"
    using Cons.prems(1) row_ok_floats [of env r]
    by (simp add: group_row_def groups1_def row_in_range_def row_meta_def split: option.split)
  have "\<forall>k g. map_of groups1 k = Some g \<longrightarrow> g \<noteq> []" using Cons.prems(2) by (auto simp: groups1_def)
  from Cons.IH [OF _ this] Cons.prems(1) obtain groups' where
    "foldE (group_row env start_q end_q) rows groups1 = Inr groups'"
    "\<forall>k. (case map_of groups' k of None \<Rightarrow> [] | Some g \<Rightarrow> g) = (case map_of groups1 k of None \<Rightarrow> [] | Some g \<Rightarrow> g) @
       map (row_meta env) (filter (\<lambda>r. br_key r = k \<and> row_in_range env start_q end_q r) rows)"
    "\<forall>k g. map_of groups' k = Some g \<longrightarrow> g \<noteq> []" by auto
  with step show ?case by (auto simp: groups1_def)
qed simp

definition parsed :: "storage_env \<Rightarrow> string option \<Rightarrow> rat option \<Rightarrow> bool" where
  "parsed env date q \<longleftrightarrow> optional (date_str_to_ts env) date = Inr q"

lemma parsed_day: "parsed env date q \<Longrightarrow> optional (date_str_to_day_str env) date = Inr (map_option (day_str_from_ts env) q)"
  by (cases date) (auto simp: parsed_def optional_def date_str_to_day_str_def)

lemma map_of_values: "map_of (map (\<lambda>(k, v). (k, f v)) d) k = map_option f (map_of d k)"
  by (induction d) auto

lemma select_blocks_ok: "list_all (row_ok env) rows \<Longrightarrow> list_all (row_ok env) (select_blocks ks a b rows)"
  by (auto simp: select_blocks_def list_all_iff)


text \<open>The blocks of a feature as they are entered under it.\<close>

definition row_interval :: "storage_env \<Rightarrow> block_row \<Rightarrow> Interval option" where
  "row_interval env r = closed_key (round_float (row_start env r)) (round_float (row_end env r))"

definition feature_rows :: "storage_env \<Rightarrow> rat option \<Rightarrow> rat option \<Rightarrow> string \<Rightarrow> block_row list \<Rightarrow> block_row list" where
  "feature_rows env start_q end_q k rows = filter (\<lambda>r. br_key r = k \<and> row_in_range env start_q end_q r) rows"

definition entered :: "'f feature_blocks_meta \<Rightarrow> 'f \<Rightarrow> (Interval option, block_row) dict" where
  "entered groups f = (case map_of groups (Some f) of None \<Rightarrow> [] | Some g \<Rightarrow> g)"

definition no_duplicates :: "storage_env \<Rightarrow> rat option \<Rightarrow> rat option \<Rightarrow> string list \<Rightarrow> block_row list \<Rightarrow> bool" where
  "no_duplicates env start_q end_q ks rows \<longleftrightarrow> (\<forall>k\<in>set ks. distinct (map (row_interval env) (feature_rows env start_q end_q k rows)))"

lemma feature_by_key_found:
  assumes "distinct (map key features)" "f \<in> set features"
  shows "feature_by_key key features (key f) = Some f"
  using assms unfolding feature_by_key_def by (induction features) auto

lemma group_feature_rows:
  assumes "list_all (row_ok env) rows2" "distinct (map key features)" "br_key ` set rows2 \<subseteq> key ` set features"
    "\<forall>f\<in>set features. entered groups f = map (\<lambda>r. (row_interval env r, r)) (feature_rows env start_q end_q (key f) rows1)"
    "no_duplicates env start_q end_q (map key features) rows1"
  shows "if no_duplicates env start_q end_q (map key features) (rows1 @ rows2)
    then \<exists>groups'. foldE (group_feature_row env key features start_q end_q) rows2 groups = Inr groups' \<and>
      (\<forall>f\<in>set features. entered groups' f = map (\<lambda>r. (row_interval env r, r)) (feature_rows env start_q end_q (key f) (rows1 @ rows2)))
    else foldE (group_feature_row env key features start_q end_q) rows2 groups = Inl ValueError"
  using assms
proof (induction rows2 arbitrary: groups rows1)
  case (Cons r rows)
  from Cons.prems(3) obtain f where f: "f \<in> set features" "br_key r = key f" by auto
  note found = feature_by_key_found [OF Cons.prems(2) f(1)]
  have other: "key f' = key f \<longleftrightarrow> f' = f" "key f = key f' \<longleftrightarrow> f' = f" if "f' \<in> set features" for f'
    using Cons.prems(2) f(1) that by (auto simp: distinct_map inj_on_def)
  have inv: "entered groups f = map (\<lambda>r. (row_interval env r, r)) (feature_rows env start_q end_q (key f) rows1)"
    using Cons.prems(4) f(1) by blast
  have floats: "float_of env (br_start_ts r) = Inr (row_start env r)" "float_of env (br_end_ts r) = Inr (row_end env r)"
    using Cons.prems(1) row_ok_floats [of env r] by simp_all
  show ?case
  proof (cases "row_in_range env start_q end_q r \<and> dict_has (entered groups f) (row_interval env r)")
    case True
    then have "group_feature_row env key features start_q end_q r groups = Inl ValueError"
      using floats found f(2)
      by (auto simp: group_feature_row_def row_in_range_def row_interval_def entered_def Let_def split: option.splits)
    moreover have "\<not> distinct (map (row_interval env) (feature_rows env start_q end_q (key f) (rows1 @ r # rows)))"
      using True inv f(2) by (auto simp: dict_has_iff feature_rows_def)
    then have "\<not> no_duplicates env start_q end_q (map key features) (rows1 @ r # rows)"
      using f(1) by (auto simp: no_duplicates_def)
    ultimately show ?thesis by simp
  next
    case False
    define groups1 where "groups1 = (if row_in_range env start_q end_q r
        then dict_put (Some f) (entered groups f @ [(row_interval env r, r)]) groups else groups)"
    have "group_feature_row env key features start_q end_q r groups = Inr groups1"
      using False floats found f(2)
      by (auto simp: group_feature_row_def groups1_def row_in_range_def row_interval_def entered_def Let_def dict_has_iff
          dict_put_fresh split: option.splits)
    moreover have "\<forall>f'\<in>set features. entered groups1 f' =
        map (\<lambda>r. (row_interval env r, r)) (feature_rows env start_q end_q (key f') (rows1 @ [r]))"
      using Cons.prems(4) inv f(2) other by (auto simp: groups1_def entered_def feature_rows_def)
    moreover have "no_duplicates env start_q end_q (map key features) (rows1 @ [r])"
      using Cons.prems(5) False inv f(2) other by (auto simp: no_duplicates_def feature_rows_def dict_has_iff image_image)
    ultimately show ?thesis using Cons.IH [of groups1 "rows1 @ [r]"] Cons.prems(1-3) by (simp split: if_splits)
  qed
qed simp

text \<open>The stored intervals of features are exact. For features with distinct keys, dates that parse
  and blocks within the day of their row, the query raises ValueError exactly when two blocks of a
  feature in the time range have the same rounded interval, and otherwise enters under every feature
  exactly its blocks that meet the range, each under its rounded interval.\<close>

theorem stored_intervals_are_exact:
  assumes "parsed env start_date start_q" and "parsed env end_date end_q"
    and "list_all (row_ok env) (feature_blocks db)" and "days_in_order env" and "distinct (map key features)"
  shows "let rows = sort_key br_start_ts (feature_blocks db); r = get_features_meta env key features start_date end_date db in
    if no_duplicates env start_q end_q (map key features) rows
    then \<exists>groups. r = Inr groups \<and> (\<forall>f\<in>set features.
      entered groups f = map (\<lambda>b. (row_interval env b, b)) (feature_rows env start_q end_q (key f) rows))
    else r = Inl ValueError"
proof -
  let ?sel = "select_feature_blocks_metadata (map key features) (map_option (day_str_from_ts env) start_q)
    (map_option (day_str_from_ts env) end_q) db"
  have run: "get_features_meta env key features start_date end_date db = foldE (group_feature_row env key features start_q end_q) ?sel []"
    using parsed_day [OF assms(1)] parsed_day [OF assms(2)] assms(1,2) by (simp add: get_features_meta_def parsed_def)
  have sel: "list_all (row_ok env) ?sel" "br_key ` set ?sel \<subseteq> key ` set features"
    using select_blocks_ok [OF assms(3)] by (auto simp: select_feature_blocks_metadata_def) (auto simp: select_blocks_def)
  have rows: "feature_rows env start_q end_q k ?sel = feature_rows env start_q end_q k (sort_key br_start_ts (feature_blocks db))"
    if "k \<in> key ` set features" for k
    using rows_in_range [OF assms(3,4), of k start_q end_q "map key features"] that
    by (simp add: feature_rows_def select_feature_blocks_metadata_def)
  then have same: "no_duplicates env start_q end_q (map key features) ?sel \<longleftrightarrow>
      no_duplicates env start_q end_q (map key features) (sort_key br_start_ts (feature_blocks db))"
    by (simp add: no_duplicates_def)
  have start: "\<forall>f\<in>set features. entered [] f = map (\<lambda>r. (row_interval env r, r)) (feature_rows env start_q end_q (key f) [])"
    "no_duplicates env start_q end_q (map key features) []"
    by (simp_all add: entered_def feature_rows_def no_duplicates_def)
  have "if no_duplicates env start_q end_q (map key features) ?sel
    then \<exists>groups'. foldE (group_feature_row env key features start_q end_q) ?sel [] = Inr groups' \<and>
      (\<forall>f\<in>set features. entered groups' f = map (\<lambda>r. (row_interval env r, r)) (feature_rows env start_q end_q (key f) ?sel))
    else foldE (group_feature_row env key features start_q end_q) ?sel [] = Inl ValueError"
    using group_feature_rows [OF sel(1) assms(5) sel(2) start] unfolding append_Nil .
  then show ?thesis using rows by (simp add: run Let_def same split: if_splits)
qed

section \<open>Deleting features\<close>


section \<open>Instances\<close>

definition sample_storage :: storage_env where
  "sample_storage = \<lparr>float_of = (\<lambda>s. bindE (py_int s) (\<lambda>i. Inr (of_int i))),
     date_str_to_ts = (\<lambda>s. bindE (py_int s) (\<lambda>i. Inr (of_int i))),
     day_str_from_ts = (\<lambda>ts. if ts < 86400 then ''1970-01-01'' else ''1970-01-02'')\<rparr>"

definition sample_blocks :: "block_row list" where
  "sample_blocks = [sample_row ''3'' ''4'' ''b'', sample_row ''1'' ''2'' ''a'', sample_row ''7'' ''8'' ''c'']"

lemma sample_rows_ok: "list_all (row_ok sample_storage) sample_blocks"
proof -
  have "float_of sample_storage ''1'' = Inr 1" "float_of sample_storage ''2'' = Inr 2" "float_of sample_storage ''3'' = Inr 3"
    "float_of sample_storage ''4'' = Inr 4" "float_of sample_storage ''7'' = Inr 7" "float_of sample_storage ''8'' = Inr 8"
    by code_simp+
  then show ?thesis by (simp add: sample_blocks_def row_ok_def sample_row_def) (simp add: sample_storage_def)
qed

lemma sample_days: "days_in_order sample_storage"
  by (auto simp: days_in_order_def sample_storage_def)

lemma sample_parsed: "parsed sample_storage (Some ''2'') (Some 2)" "parsed sample_storage None None"
  unfolding parsed_def by code_simp+


theorem stored_intervals_are_exact_witness:
  "\<exists>groups. get_features_meta sample_storage id [''k''] (Some ''5'') None (empty_db\<lparr>feature_blocks := sample_blocks\<rparr>) = Inr groups \<and>
    map (br_hash \<circ> snd) (entered groups ''k'') = [Some ''c'']"
proof -
  let ?rows = "feature_blocks (empty_db\<lparr>feature_blocks := sample_blocks\<rparr>)"
  have "list_all (row_ok sample_storage) ?rows" "distinct (map id [''k''])" using sample_rows_ok by simp_all
  note q = stored_intervals_are_exact [OF _ sample_parsed(2) this(1) sample_days this(2), unfolded Let_def]
  have day5: "parsed sample_storage (Some ''5'') (Some 5)" unfolding parsed_def by code_simp
  have sel: "feature_rows sample_storage (Some 5) None ''k'' (sort_key br_start_ts ?rows) = [sample_row ''7'' ''8'' ''c'']"
    by code_simp
  have free: "no_duplicates sample_storage (Some 5) None (map id [''k'']) (sort_key br_start_ts ?rows)"
    using sel by (simp add: no_duplicates_def)
  from q [OF day5, unfolded if_P [OF free]] obtain groups where
    g: "get_features_meta sample_storage id [''k''] (Some ''5'') None (empty_db\<lparr>feature_blocks := sample_blocks\<rparr>) = Inr groups"
      "\<forall>f\<in>set [''k'']. entered groups f = map (\<lambda>b. (row_interval sample_storage b, b))
        (feature_rows sample_storage (Some 5) None (id f) (sort_key br_start_ts ?rows))" by (elim exE conjE)
  have "''k'' \<in> set [''k'']" by simp
  from bspec [OF g(2) this] sel have "map (br_hash \<circ> snd) (entered groups ''k'') = [Some ''c'']"
    by (simp only: id_apply list.map comp_apply snd_conv) (simp add: sample_row_def)
  with g(1) show ?thesis by (intro exI conjI)
qed

definition sample_s3 :: "(string list, string) s3_ops" where
  "sample_s3 = \<lparr>s3_put = (\<lambda>p files st. Inr st), s3_ls = (\<lambda>p st. Inr st), s3_read = (\<lambda>p st. Inr p),
     s3_delete_objects = (\<lambda>bucket ks st. Inr (filter (\<lambda>k. k \<notin> set ks) st))\<rparr>"


section \<open>A stored definition is read back\<close>

text \<open>What the code relies on in s3fs: files put under a path are listed there without the scheme and
  read back.\<close>

definition s3_laws :: "('s, 'c) s3_ops \<Rightarrow> bool" where
  "s3_laws ops \<longleftrightarrow> (\<forall>p files st st'. s3_put ops p files st = Inr st' \<longrightarrow> s3_ls ops p st = Inr [] \<longrightarrow>
     distinct (map fst files) \<longrightarrow> (\<forall>(n, c)\<in>set files. CHR ''/'' \<notin> set n) \<longrightarrow>
     s3_ls ops p st' = Inr (map (\<lambda>(n, c). removeprefix ''s3://'' p @ n) files) \<and>
     (\<forall>(n, c)\<in>set files. s3_read ops (removeprefix ''s3://'' p @ n) st' = Inr c))"

lemma startswith_append [simp]: "startswith (p @ s) p"
  by (simp add: startswith_def)

lemma write_files_distinct:
  "distinct (map fst files) \<Longrightarrow> write_files files = files"
proof -
  have "distinct (map fst (d @ files)) \<Longrightarrow> fold (\<lambda>(n, c) d. dict_put n c d) files d = d @ files" for d
  proof (induction files arbitrary: d)
    case (Cons f files)
    obtain n c where f: "f = (n, c)" by (cases f)
    have "dict_put n c d = d @ [f]" using Cons.prems by (intro trans [OF dict_put_fresh]) (auto simp: f)
    with Cons.IH [of "d @ [f]"] Cons.prems show ?case by (simp add: f)
  qed simp
  from this [of "[]"] show "distinct (map fst files) \<Longrightarrow> write_files files = files" by (simp add: write_files_def)
qed

lemma find_snoc:
  "(\<forall>r\<in>set rows. \<not> P r) \<Longrightarrow> P x \<Longrightarrow> List.find P (rows @ [x]) = Some x"
  by (induction rows) auto


text \<open>A store that keeps the uploads, the latest first.\<close>

definition stored_files :: "(string \<times> (string, string) dict) list \<Rightarrow> (string, string) dict" where
  "stored_files st = concat (map (\<lambda>(p, files). map (\<lambda>(n, c). (removeprefix ''s3://'' p @ n, c)) files) st)"

definition list_s3 :: "((string \<times> (string, string) dict) list, string) s3_ops" where
  "list_s3 = \<lparr>s3_put = (\<lambda>p files st. Inr ((p, files) # st)),
     s3_ls = (\<lambda>p st. Inr (case map_of st p of None \<Rightarrow> [] | Some files \<Rightarrow> map (\<lambda>(n, c). removeprefix ''s3://'' p @ n) files)),
     s3_read = (\<lambda>path st. dict_lookup (stored_files st) path), s3_delete_objects = (\<lambda>bucket ks st. Inr st)\<rparr>"

lemma list_s3_laws: "s3_laws list_s3"
proof -
  have "map_of (stored_files ((p, files) # st)) (removeprefix ''s3://'' p @ n) = Some c"
    if "distinct (map fst files)" "(n, c) \<in> set files" for p files st n c
  proof -
    let ?d = "map (\<lambda>(n, c). (removeprefix ''s3://'' p @ n, c)) files"
    have "map fst ?d = map (\<lambda>x. removeprefix ''s3://'' p @ x) (map fst files)" by auto
    with that(1) have "distinct (map fst ?d)" by (simp add: distinct_map inj_on_def del: map_map)
    moreover have "(removeprefix ''s3://'' p @ n, c) \<in> set ?d" using that(2) by force
    ultimately have "map_of ?d (removeprefix ''s3://'' p @ n) = Some c" by (rule map_of_is_SomeI)
    then show ?thesis by (simp add: stored_files_def)
  qed
  then show ?thesis by (auto simp: s3_laws_def list_s3_def dict_lookup_def)
qed


end
