(* ===== verification/IngestItems.thy ===== *)
theory IngestItems
  imports FeaturizerStorage DataFrames
begin

text \<open>
  featurizer/data_ingest: the items and batches made of the files of a configuration (config.py,
  utils/cryptotick_utils.py), the time columns of raw files and the preprocessing of trades and of
  incremental books. The task that ingests an item is in IngestTask.
\<close>

section \<open>Files and items\<close>

datatype ingest_definition = CryptotickL2BookIncrementalData | TradesData | OtherDefinition string

record data_source_files =
  data_source_definition :: ingest_definition
  plain_files :: "string list option"
  files_and_sizes :: "(string \<times> rat) list option"

record ingest_config =
  provider_name :: string
  batch_size :: int
  max_executing_tasks :: int
  data_source_files :: "data_source_files list"

text \<open>\<open>num_files\<close>, and the check of \<open>load_config\<close>.\<close>

definition num_files :: "ingest_config \<Rightarrow> nat pyres" where
  "num_files c =
     foldE (\<lambda>fs res. case plain_files fs of
         Some l \<Rightarrow> Inr (res + length l)
       | None \<Rightarrow> (case files_and_sizes fs of Some l \<Rightarrow> Inr (res + length l) | None \<Rightarrow> Inl TypeError)) (data_source_files c) 0"

definition check_config :: "ingest_config \<Rightarrow> ingest_config pyres" where
  "check_config c =
     (if list_ex (\<lambda>fs. plain_files fs = None \<and> files_and_sizes fs = None) (data_source_files c) then Inl ValueError else Inr c)"

record Instrument =
  inst_exchange :: string
  inst_type :: string
  inst_symbol :: string

record input_item =
  it_path :: string
  it_day :: string
  it_size_kb :: rat
  it_key :: string
  it_definition :: ingest_definition
  it_params :: Instrument

definition CRYPTOTICK_RAW_BUCKET_NAME :: string where
  "CRYPTOTICK_RAW_BUCKET_NAME = ''svoe-cryptotick-data''"

text \<open>\<open>_parse_s3_key\<close>: the key of a data source is a parameter, the hash of its definition and
  parameters.\<close>

definition parse_s3_key ::
    "(ingest_definition \<Rightarrow> Instrument \<Rightarrow> string) \<Rightarrow> string \<Rightarrow> rat \<Rightarrow> ingest_definition \<Rightarrow> input_item option pyres" where
  "parse_s3_key key_of path size_kb defn =
     (if py_contains ''testing'' path then Inr None
      else let s = py_split ''/'' path in
        bindE (py_nth s 1) (\<lambda>raw_date.
        let day = py_slice raw_date 6 8 @ ''-'' @ py_slice raw_date 4 6 @ ''-'' @ py_slice raw_date 0 4 in
        bindE (py_nth s 2) (\<lambda>file.
        let f = py_split ''_'' file in
        bindE (py_nth f 0) (\<lambda>exchange.
        bindE (py_nth f 1) (\<lambda>kind.
        if kind \<noteq> ''SPOT'' then Inl ValueError
        else bindE (py_nth f 2) (\<lambda>base.
        bindE (py_nth f 3) (\<lambda>final.
        let quote = hd (py_split ''.'' final);
            instrument = \<lparr>inst_exchange = exchange, inst_type = ''spot'', inst_symbol = base @ ''-'' @ quote\<rparr> in
        Inr (Some \<lparr>it_path = ''s3://'' @ CRYPTOTICK_RAW_BUCKET_NAME @ ''/'' @ path, it_day = day, it_size_kb = size_kb,
          it_key = key_of defn instrument, it_definition = defn, it_params = instrument\<rparr>))))))))"

text \<open>\<open>cryptotick_input_items\<close>: the items of a definition in batches; a new batch is begun when the last
  has exactly the size of a batch.\<close>

definition put_item ::
    "int \<Rightarrow> input_item \<Rightarrow> (ingest_definition, input_item list list) dict \<Rightarrow> (ingest_definition, input_item list list) dict" where
  "put_item max_items item grouped =
     (case map_of grouped (it_definition item) of
        None \<Rightarrow> dict_put (it_definition item) [[item]] grouped
      | Some batches \<Rightarrow>
          let batches = (if int (length (last batches)) = max_items then batches @ [[]] else batches) in
          dict_put (it_definition item) (butlast batches @ [last batches @ [item]]) grouped)"

definition grouped_items ::
    "(ingest_definition \<Rightarrow> Instrument \<Rightarrow> string) \<Rightarrow> ingest_config \<Rightarrow> (ingest_definition, input_item list list) dict pyres" where
  "grouped_items key_of c =
     foldE (\<lambda>fs grouped.
       case files_and_sizes fs of
         None \<Rightarrow> Inl TypeError
       | Some l \<Rightarrow> foldE (\<lambda>(raw_path, size_kb) grouped.
           bindE (parse_s3_key key_of raw_path size_kb (data_source_definition fs)) (\<lambda>item.
           Inr (case item of None \<Rightarrow> grouped | Some it \<Rightarrow> put_item (batch_size c) it grouped))) l grouped)
       (data_source_files c) []"

definition cryptotick_input_items ::
    "(ingest_definition \<Rightarrow> Instrument \<Rightarrow> string) \<Rightarrow> ingest_config \<Rightarrow> (nat \<times> input_item list) list pyres" where
  "cryptotick_input_items key_of c =
     bindE (grouped_items key_of c) (\<lambda>grouped. Inr (enumerate 0 (flat grouped)))"

section \<open>Time columns\<close>

text \<open>\<open>process_cryptotick_timestamps\<close>: the date in front of the times, parsed, and the rows sorted, which
  pandas need not do stably; the sorting is a parameter.\<close>

record 'x raw_row =
  time_exchange :: string
  time_coinapi :: string
  raw_rest :: 'x

record 'x timed_row =
  tr_timestamp :: rat
  tr_receipt_timestamp :: rat
  tr_rest :: 'x

definition date_prefix :: "string option \<Rightarrow> string" where
  "date_prefix date_str = (case date_str of None \<Rightarrow> [] | Some d \<Rightarrow> py_slice d 6 10 @ ''-'' @ py_slice d 3 5 @ ''-'' @ py_slice d 0 2 @ ''T'')"

definition process_cryptotick_timestamps ::
    "(string \<Rightarrow> rat pyres) \<Rightarrow> ('x timed_row list \<Rightarrow> 'x timed_row list) \<Rightarrow> 'x raw_row list \<Rightarrow> string option \<Rightarrow> 'x timed_row list pyres" where
  "process_cryptotick_timestamps parse_datetime sort_values df date_str =
     bindE (mapE (\<lambda>r. parse_datetime (date_prefix date_str @ time_exchange r @ ''Z'')) df) (\<lambda>ts.
     bindE (mapE (\<lambda>r. parse_datetime (date_prefix date_str @ time_coinapi r @ ''Z'')) df) (\<lambda>rts.
     let df = sort_values (map2 (\<lambda>r (t, rt). \<lparr>tr_timestamp = t, tr_receipt_timestamp = rt, tr_rest = raw_rest r\<rparr>) df (zip ts rts)) in
     if is_ts_sorted tr_timestamp df then Inr df else Inl ValueError))"

text \<open>\<open>preprocess_trades_df\<close> and \<open>preprocess_l2_inc_df\<close>; a row is its remaining columns.\<close>

definition drop_columns :: "string list \<Rightarrow> pydict \<Rightarrow> pydict pyres" where
  "drop_columns cols row = foldE dict_del cols row"

definition rename_columns :: "(string, string) dict \<Rightarrow> pydict \<Rightarrow> pydict" where
  "rename_columns names row = map (\<lambda>(c, v). (case map_of names c of Some c' \<Rightarrow> c' | None \<Rightarrow> c, v)) row"

definition with_rest :: "(pydict \<Rightarrow> pydict pyres) \<Rightarrow> pydict timed_row \<Rightarrow> pydict timed_row pyres" where
  "with_rest f r = bindE (f (tr_rest r)) (\<lambda>rest. Inr (r\<lparr>tr_rest := rest\<rparr>))"

definition preprocess_trades_df ::
    "(string \<Rightarrow> rat pyres) \<Rightarrow> (pydict timed_row list \<Rightarrow> pydict timed_row list) \<Rightarrow> pydict raw_row list \<Rightarrow> pydict timed_row list pyres" where
  "preprocess_trades_df parse_datetime sort_values df =
     bindE (process_cryptotick_timestamps parse_datetime sort_values df None) (\<lambda>df.
     mapE (with_rest (\<lambda>row. bindE (drop_columns [''id_exch_guid'', ''id_exch_int_inc'', ''order_id_maker'', ''order_id_taker''] row) (\<lambda>row.
       Inr (rename_columns [(''base_amount'', ''amount''), (''taker_side'', ''side''), (''guid'', ''id'')] row)))) df)"

definition side_of :: "pyval \<Rightarrow> pyval" where
  "side_of is_buy = (if py_eq is_buy (PInt 1) then PStr ''bid'' else PStr ''ask'')"

definition l2_columns :: "pydict \<Rightarrow> pydict pyres" where
  "l2_columns row =
     bindE (dict_lookup row ''is_buy'') (\<lambda>is_buy.
     bindE (dict_del ''is_buy'' (dict_put ''side'' (side_of is_buy) (AList.delete ''order_id'' row))) (\<lambda>row.
     Inr (rename_columns [(''entry_px'', ''price''), (''entry_sx'', ''size'')] row)))"

definition preprocess_l2_inc_df ::
    "(string \<Rightarrow> rat pyres) \<Rightarrow> (pydict timed_row list \<Rightarrow> pydict timed_row list) \<Rightarrow> pydict raw_row list \<Rightarrow> string
     \<Rightarrow> pydict timed_row list pyres" where
  "preprocess_l2_inc_df parse_datetime sort_values df date_str =
     bindE (process_cryptotick_timestamps parse_datetime sort_values df (Some date_str)) (\<lambda>df.
     if list_ex (\<lambda>r. map_of (tr_rest r) ''order_id'' \<notin> {None, Some PNone}) df then Inl ValueError
     else mapE (with_rest l2_columns) df)"

section \<open>Keys of raw files\<close>

definition raw_path :: "string \<Rightarrow> string \<Rightarrow> string \<Rightarrow> string \<Rightarrow> string \<Rightarrow> string \<Rightarrow> string \<Rightarrow> string" where
  "raw_path folder year month day exchange base quote =
     folder @ ''/'' @ year @ month @ day @ ''/'' @ exchange @ ''_SPOT_'' @ base @ ''_'' @ quote @ ''.csv.gz''"

lemma split_raw_path:
  assumes "CHR ''/'' \<notin> set (folder @ year @ month @ day @ exchange @ base @ quote)"
  shows "py_split ''/'' (raw_path folder year month day exchange base quote) =
    [folder, year @ month @ day, exchange @ ''_SPOT_'' @ base @ ''_'' @ quote @ ''.csv.gz'']"
proof -
  let ?file = "exchange @ ''_SPOT_'' @ base @ ''_'' @ quote @ ''.csv.gz''"
  have "py_split ''/'' (folder @ CHR ''/'' # (year @ month @ day) @ CHR ''/'' # ?file) =
      [folder, year @ month @ day, ?file]"
    using assms py_split_char [of "CHR ''/''" folder "(year @ month @ day) @ CHR ''/'' # ?file"]
      py_split_char [of "CHR ''/''" "year @ month @ day" ?file] py_split_char_absent [of "CHR ''/''" ?file] by auto
  then show ?thesis by (simp add: raw_path_def)
qed

lemma split_file_name:
  assumes "CHR ''_'' \<notin> set (exchange @ base @ quote)"
  shows "py_split ''_'' (exchange @ ''_SPOT_'' @ base @ ''_'' @ quote @ ''.csv.gz'') = [exchange, ''SPOT'', base, quote @ ''.csv.gz'']"
  using assms py_split_char [of "CHR ''_''" exchange "''SPOT_'' @ base @ ''_'' @ quote @ ''.csv.gz''"]
    py_split_char [of "CHR ''_''" "''SPOT''" "base @ ''_'' @ quote @ ''.csv.gz''"]
    py_split_char [of "CHR ''_''" base "quote @ ''.csv.gz''"]
    py_split_char_absent [of "CHR ''_''" "quote @ ''.csv.gz''"] by auto

text \<open>The key of a raw file is read back: for names without slashes and underscores, a quote
  without a dot and a path that is not for testing, the item made of the key has the day, exchange
  and symbol the key was made of, the whole key as its path, and the key of that data source.\<close>

theorem raw_key_roundtrip:
  assumes "CHR ''/'' \<notin> set (folder @ year @ month @ day @ exchange @ base @ quote)"
    and "CHR ''_'' \<notin> set (exchange @ base @ quote)" and "CHR ''.'' \<notin> set quote"
    and "length year = 4" and "length month = 2" and "length day = 2"
    and "\<not> py_contains ''testing'' (raw_path folder year month day exchange base quote)"
  shows "parse_s3_key key_of (raw_path folder year month day exchange base quote) size_kb defn =
    (let instrument = \<lparr>inst_exchange = exchange, inst_type = ''spot'', inst_symbol = base @ ''-'' @ quote\<rparr> in
     Inr (Some \<lparr>it_path = ''s3://svoe-cryptotick-data/'' @ raw_path folder year month day exchange base quote,
       it_day = day @ ''-'' @ month @ ''-'' @ year, it_size_kb = size_kb, it_key = key_of defn instrument,
       it_definition = defn, it_params = instrument\<rparr>))"
proof -
  have "py_split ''.'' (quote @ ''.csv.gz'') = quote # py_split ''.'' ''csv.gz''"
    using assms(3) py_split_char [of "CHR ''.''" quote "''csv.gz''"] by simp
  moreover have "py_slice (year @ month @ day) 6 8 = day" "py_slice (year @ month @ day) 4 6 = month"
    "py_slice (year @ month @ day) 0 4 = year"
    using assms(4-6) by (simp_all add: py_slice_def slice_bound_def)
  moreover have "py_nth [x, y, z] 1 = Inr y" "py_nth [x, y, z] 2 = Inr z" for x y z :: string by (simp_all add: py_nth_def)
  moreover have "py_nth [x, y, z, w] 0 = Inr x" "py_nth [x, y, z, w] 1 = Inr y" "py_nth [x, y, z, w] 2 = Inr z"
    "py_nth [x, y, z, w] 3 = Inr w" for x y z w :: string by (simp_all add: py_nth_def)
  ultimately show ?thesis
    unfolding parse_s3_key_def split_raw_path [OF assms(1)] using assms(7)
    by (simp only: split_file_name [OF assms(2)] Let_def bindE_simps if_False not_True_eq_False list.sel CRYPTOTICK_RAW_BUCKET_NAME_def)
      simp
qed

theorem raw_key_roundtrip_witness:
  "parse_s3_key (\<lambda>d i. inst_symbol i) ''quotes/20230201/BINANCE_SPOT_BTC_USDT.csv.gz'' 252 TradesData =
   Inr (Some \<lparr>it_path = ''s3://svoe-cryptotick-data/quotes/20230201/BINANCE_SPOT_BTC_USDT.csv.gz'', it_day = ''01-02-2023'',
     it_size_kb = 252, it_key = ''BTC-USDT'', it_definition = TradesData,
     it_params = \<lparr>inst_exchange = ''BINANCE'', inst_type = ''spot'', inst_symbol = ''BTC-USDT''\<rparr>\<rparr>)"
proof -
  have "\<not> py_contains ''testing'' (raw_path ''quotes'' ''2023'' ''02'' ''01'' ''BINANCE'' ''BTC'' ''USDT'')" by code_simp
  from raw_key_roundtrip [OF _ _ _ _ _ _ this, of "\<lambda>d i. inst_symbol i" 252 TradesData] show ?thesis
    by (simp add: raw_path_def)
qed

section \<open>Batches\<close>

definition some_items :: "input_item option list \<Rightarrow> input_item list" where
  "some_items xs = concat (map (\<lambda>x. case x of None \<Rightarrow> [] | Some i \<Rightarrow> [i]) xs)"

definition items_of_files ::
    "(ingest_definition \<Rightarrow> Instrument \<Rightarrow> string) \<Rightarrow> data_source_files \<Rightarrow> input_item option list pyres" where
  "items_of_files key_of fs =
     (case files_and_sizes fs of
        None \<Rightarrow> Inl TypeError
      | Some l \<Rightarrow> mapE (\<lambda>(raw_path, size_kb). parse_s3_key key_of raw_path size_kb (data_source_definition fs)) l)"

definition items_of_config :: "(ingest_definition \<Rightarrow> Instrument \<Rightarrow> string) \<Rightarrow> ingest_config \<Rightarrow> input_item list pyres" where
  "items_of_config key_of c =
     bindE (mapE (items_of_files key_of) (data_source_files c)) (\<lambda>itemss. Inr (some_items (concat itemss)))"

lemma foldE_parsed:
  "foldE (\<lambda>p g. bindE (f p) (\<lambda>it. Inr (case it of None \<Rightarrow> g | Some i \<Rightarrow> h i g))) l g =
   bindE (mapE f l) (\<lambda>its. Inr (fold h (some_items its) g))"
proof (induction l arbitrary: g)
  case (Cons p l)
  then show ?case
    by (cases "f p"; cases "mapE f l") (auto simp: some_items_def split: option.split)
qed (simp add: some_items_def)

lemma grouped_items_eq:
  "grouped_items key_of c = bindE (items_of_config key_of c) (\<lambda>items. Inr (fold (put_item (batch_size c)) items []))"
proof -
  have "foldE (\<lambda>fs grouped.
       case files_and_sizes fs of
         None \<Rightarrow> Inl TypeError
       | Some l \<Rightarrow> foldE (\<lambda>(raw_path, size_kb) grouped.
           bindE (parse_s3_key key_of raw_path size_kb (data_source_definition fs)) (\<lambda>item.
           Inr (case item of None \<Rightarrow> grouped | Some it \<Rightarrow> put_item n it grouped))) l grouped) fss g =
     bindE (mapE (items_of_files key_of) fss) (\<lambda>itemss. Inr (fold (put_item n) (some_items (concat itemss)) g))" for fss g n
  proof (induction fss arbitrary: g)
    case (Cons fs fss)
    show ?case
    proof (cases "files_and_sizes fs")
      case (Some l)
      have "foldE (\<lambda>(raw_path, size_kb) grouped. bindE (parse_s3_key key_of raw_path size_kb (data_source_definition fs)) (\<lambda>item.
           Inr (case item of None \<Rightarrow> grouped | Some it \<Rightarrow> put_item n it grouped))) l g =
         bindE (items_of_files key_of fs) (\<lambda>its. Inr (fold (put_item n) (some_items its) g))"
        using foldE_parsed [of "\<lambda>(raw_path, size_kb). parse_s3_key key_of raw_path size_kb (data_source_definition fs)" "put_item n" l g]
        by (simp add: items_of_files_def Some split_def)
      then show ?thesis
        by (cases "items_of_files key_of fs"; cases "mapE (items_of_files key_of) fss")
           (simp_all add: Some Cons.IH some_items_def)
    qed (simp add: items_of_files_def)
  qed (simp add: some_items_def)
  then show ?thesis by (simp add: grouped_items_def items_of_config_def bindE_assoc)
qed

text \<open>A list in consecutive full batches, the last one possibly not full.\<close>

definition batched :: "nat \<Rightarrow> 'a list \<Rightarrow> 'a list list \<Rightarrow> bool" where
  "batched n xs bs \<longleftrightarrow> concat bs = xs \<and> bs \<noteq> [] \<and> list_all (\<lambda>b. length b = n) (butlast bs) \<and>
     last bs \<noteq> [] \<and> length (last bs) \<le> n"

lemma batched_snoc:
  assumes "batched n xs bs" "0 < n"
  shows "let bs' = (if length (last bs) = n then bs @ [[]] else bs) in batched n (xs @ [x]) (butlast bs' @ [last bs' @ [x]])"
proof -
  from assms(1) obtain ys y where bs: "bs = ys @ [y]" by (cases bs rule: rev_cases) (auto simp: batched_def)
  with assms show ?thesis by (auto simp: batched_def Let_def butlast_append)
qed

definition items_for :: "ingest_definition \<Rightarrow> input_item list \<Rightarrow> input_item list" where
  "items_for d items = filter (\<lambda>i. it_definition i = d) items"

lemma put_items:
  assumes "0 < n" "dict_wf g"
    "\<forall>d. case map_of g d of None \<Rightarrow> items_for d before = [] | Some bs \<Rightarrow> batched n (items_for d before) bs"
  shows "dict_wf (fold (put_item (int n)) items g) \<and>
    (\<forall>d. case map_of (fold (put_item (int n)) items g) d of None \<Rightarrow> items_for d (before @ items) = []
         | Some bs \<Rightarrow> batched n (items_for d (before @ items)) bs)"
  using assms(2,3)
proof (induction items arbitrary: g before)
  case (Cons i items)
  have put: "dict_wf (put_item (int n) i g)"
    using Cons.prems(1) by (auto simp: put_item_def Let_def split: option.split)
  have step: "case map_of (put_item (int n) i g) d of None \<Rightarrow> items_for d (before @ [i]) = []
      | Some bs \<Rightarrow> batched n (items_for d (before @ [i])) bs" for d
  proof (cases "it_definition i = d")
    case True
    show ?thesis
    proof (cases "map_of g d")
      case None
      with True assms(1) Cons.prems(2) [rule_format, of d] show ?thesis
        by (simp add: put_item_def items_for_def batched_def)
    next
      case (Some bs)
      with Cons.prems(2) [rule_format, of d] have "batched n (items_for d before) bs" by simp
      from batched_snoc [OF this assms(1), of i] True Some show ?thesis
        by (simp add: put_item_def items_for_def Let_def)
    qed
  next
    case False
    with Cons.prems(2) [rule_format, of d] show ?thesis
      by (auto simp: put_item_def items_for_def Let_def split: option.split)
  qed
  show ?case unfolding fold_simps by (rule Cons.IH [OF put allI [OF step], unfolded append_assoc append_Cons append_Nil])
next
  case Nil
  then show ?case unfolding append_Nil2 fold_simps by blast
qed

text \<open>The batches of a configuration, for a positive size. Numbered from zero, they are for every
  definition the items of its files in order, cut into batches that are all full but for the last,
  and no batch mixes definitions; together they are all items that were parsed.\<close>

theorem batches_partition_the_items:
  assumes "0 < batch_size c" and "items_of_config key_of c = Inr items"
  shows "\<exists>grouped. cryptotick_input_items key_of c = Inr (enumerate 0 (concat (map snd grouped))) \<and>
    distinct (map fst grouped) \<and> set (map fst grouped) = it_definition ` set items \<and>
    list_all (\<lambda>(d, bs). batched (nat (batch_size c)) (items_for d items) bs) grouped"
proof -
  define g where "g = fold (put_item (batch_size c)) items []"
  have "0 < nat (batch_size c)" "int (nat (batch_size c)) = batch_size c" using assms(1) by simp_all
  with put_items [of "nat (batch_size c)" "[]" "[]" items] have g: "dict_wf g"
    "\<And>d. case map_of g d of None \<Rightarrow> items_for d items = [] | Some bs \<Rightarrow> batched (nat (batch_size c)) (items_for d items) bs"
    unfolding g_def append_Nil by (simp_all add: items_for_def [of _ "[]"])
  have "list_all (\<lambda>(d, bs). batched (nat (batch_size c)) (items_for d items) bs) g"
  proof -
    have "batched (nat (batch_size c)) (items_for d items) bs" if "(d, bs) \<in> set g" for d bs
      using g(2) [of d] map_of_is_SomeI [of g d bs] that g(1) by (simp add: dict_wf_def)
    then show ?thesis by (auto simp: list_all_iff)
  qed
  moreover have "d \<in> set (map fst g) \<longleftrightarrow> d \<in> it_definition ` set items" for d
  proof -
    have "items_for d items = [] \<longleftrightarrow> d \<notin> it_definition ` set items" by (auto simp: items_for_def filter_empty_conv)
    moreover have "batched (nat (batch_size c)) [] bs \<Longrightarrow> False" for bs
      by (cases bs rule: rev_cases) (auto simp: batched_def)
    ultimately have "map_of g d = None \<longleftrightarrow> d \<notin> it_definition ` set items" using g(2) [of d]
      by (cases "map_of g d") auto
    then show ?thesis by (simp add: map_of_eq_None_iff)
  qed
  moreover have "cryptotick_input_items key_of c = Inr (enumerate 0 (concat (map snd g)))"
    by (simp add: cryptotick_input_items_def grouped_items_eq assms(2) g_def flat_def)
  ultimately show ?thesis using g(1) by (intro exI [of _ g]) (auto simp: dict_wf_def)
qed

theorem batches_partition_the_items_witness:
  "\<exists>items grouped. cryptotick_input_items (\<lambda>d i. inst_symbol i)
      \<lparr>provider_name = ''cryptotick'', batch_size = 2, max_executing_tasks = 1, data_source_files =
        [\<lparr>data_source_definition = TradesData, plain_files = None, files_and_sizes = Some
          [(''q/20230201/B_SPOT_A_X.csv.gz'', 1), (''q/20230201/B_SPOT_B_X.csv.gz'', 1), (''q/20230201/B_SPOT_C_X.csv.gz'', 1)]\<rparr>]\<rparr>
      = Inr (enumerate 0 (concat (map snd grouped))) \<and>
    map (inst_symbol \<circ> it_params) items = [''A-X'', ''B-X'', ''C-X''] \<and>
    list_all (\<lambda>(d, bs). batched 2 (items_for d items) bs) grouped"
proof -
  let ?c = "\<lparr>provider_name = ''cryptotick'', batch_size = 2, max_executing_tasks = 1, data_source_files =
        [\<lparr>data_source_definition = TradesData, plain_files = None, files_and_sizes = Some
          [(''q/20230201/B_SPOT_A_X.csv.gz'', 1), (''q/20230201/B_SPOT_B_X.csv.gz'', 1), (''q/20230201/B_SPOT_C_X.csv.gz'', 1)]\<rparr>]\<rparr>"
  have "case items_of_config (\<lambda>d i. inst_symbol i) ?c of Inl e \<Rightarrow> False
      | Inr items \<Rightarrow> map (inst_symbol \<circ> it_params) items = [''A-X'', ''B-X'', ''C-X'']" by code_simp
  then obtain items where items: "items_of_config (\<lambda>d i. inst_symbol i) ?c = Inr items"
    "map (inst_symbol \<circ> it_params) items = [''A-X'', ''B-X'', ''C-X'']" by (auto split: sum.splits)
  have "0 < batch_size ?c" by simp
  from batches_partition_the_items [OF this items(1)] obtain grouped where
    "cryptotick_input_items (\<lambda>d i. inst_symbol i) ?c = Inr (enumerate 0 (concat (map snd grouped)))"
    "list_all (\<lambda>(d, bs). batched (nat (batch_size ?c)) (items_for d items) bs) grouped" by (elim exE conjE)
  moreover have "nat (batch_size ?c) = 2" by simp
  ultimately show ?thesis using items(2) by (metis (no_types))
qed

end
