(* ===== verification/IngestTask.thy ===== *)
theory IngestTask
  imports IngestItems
begin

text \<open>
  The task that ingests a file (featurizer/data_ingest/pipelines/cryptotick/tasks.py) and the
  database actor's filter of a batch (featurizer/sql/db_actor.py). A data frame is the list of its
  rows. Loading, preprocessing and splitting a frame are fields of an environment; the splits of a
  file are those its generator yields, with the exception that ends it, if one does.
\<close>

section \<open>The task\<close>

record ('raw, 'row, 's) task_env =
  load_raw :: "string \<Rightarrow> 'raw pyres"
  l2_splits :: "'raw \<Rightarrow> string \<Rightarrow> int \<Rightarrow> ('row list list \<times> py_error option) option"
  trades_splits :: "'raw \<Rightarrow> int \<Rightarrow> ('row list list \<times> py_error option) option"
  row_timestamp :: "'row \<Rightarrow> rat"
  frame_size_kb :: "'row list \<Rightarrow> int"
  hash_df :: "'row list \<Rightarrow> string"
  snapshot_ts :: "'row list \<Rightarrow> pyval option"
  date_of_ts :: "rat \<Rightarrow> string"
  str_of_ts :: "rat \<Rightarrow> string"
  str_of_mb :: "int \<Rightarrow> string"
  block_prefix :: string
  put_df :: "string \<Rightarrow> 'row list \<Rightarrow> 's \<Rightarrow> 's pyres"

fun definition_name :: "ingest_definition \<Rightarrow> string" where
  "definition_name CryptotickL2BookIncrementalData = ''CryptotickL2BookIncrementalData''"
| "definition_name TradesData = ''TradesData''"
| "definition_name (OtherDefinition n) = n"

definition compaction_of :: "('raw, 'row, 's) task_env \<Rightarrow> int \<Rightarrow> string" where
  "compaction_of env chunk_size_kb =
     (if chunk_size_kb < 1024 then show_int chunk_size_kb @ ''kb'' else str_of_mb env chunk_size_kb @ ''mb'')"

text \<open>The row of a split; the path is made of the default owner, the names and the day of the row.\<close>

definition make_data_source_block_metadata ::
    "('raw, 'row, 's) task_env \<Rightarrow> 'row list \<Rightarrow> input_item \<Rightarrow> string \<Rightarrow> pydict \<Rightarrow> block_row pyres" where
  "make_data_source_block_metadata env df item compaction extras =
     bindE (time_range (row_timestamp env) df) (\<lambda>(_, start, end_t).
     let date_str = date_of_ts env start; h = hash_df env df; name = definition_name (it_definition item) in
     if date_str \<noteq> date_of_ts env end_t then Inl ValueError
     else Inr \<lparr>br_owner = ''0'', br_key = it_key item, br_definition = name,
       br_start_ts = str_of_ts env start, br_end_ts = str_of_ts env end_t, br_day = date_str, br_compaction = compaction,
       br_path = Some (block_path_of [''0'', name, it_key item, compaction, date_str] start h (block_prefix env)),
       br_hash = Some h, br_num_rows = int (length df), br_size_kb = it_size_kb item,
       br_size_in_memory_kb = frame_size_kb env df,
       br_meta = (if it_definition item = CryptotickL2BookIncrementalData
         then (case snapshot_ts env df of None \<Rightarrow> PNone | Some v \<Rightarrow> PDict [(''snapshot_ts'', v)]) else PNone),
       br_extras = extras\<rparr>)"

text \<open>The loop over the splits. A split is stored by a thread whose exception nobody asks for, so a
  failed store changes nothing and is not seen.\<close>

fun store_splits ::
    "('raw, 'row, 's) task_env \<Rightarrow> input_item \<Rightarrow> string \<Rightarrow> 'row list list \<Rightarrow> nat \<Rightarrow> block_row list \<Rightarrow> 's
     \<Rightarrow> block_row list pyres \<times> 's" where
  "store_splits env item compaction [] split_id items st = (Inr items, st)"
| "store_splits env item compaction (split # splits) split_id items st =
     (case make_data_source_block_metadata env split item compaction
          [(''source_path'', PStr (it_path item)), (''split_id'', PInt (int split_id))] of
        Inl e \<Rightarrow> (Inl e, st)
      | Inr row \<Rightarrow>
          store_splits env item compaction splits (split_id + 1) (items @ [row])
            (case put_df env (the (br_path row)) split st of Inl e \<Rightarrow> st | Inr st' \<Rightarrow> st'))"

definition with_num_splits :: "nat \<Rightarrow> block_row \<Rightarrow> block_row" where
  "with_num_splits n r = r\<lparr>br_extras := dict_put ''num_splits'' (PInt (int n)) (br_extras r)\<rparr>"

definition splits_of_item ::
    "('raw, 'row, 's) task_env \<Rightarrow> input_item \<Rightarrow> int \<Rightarrow> string \<Rightarrow> 'raw \<Rightarrow> ('row list list \<times> py_error option) option" where
  "splits_of_item env item chunk_size_kb date_str raw =
     (case it_definition item of
        CryptotickL2BookIncrementalData \<Rightarrow> l2_splits env raw date_str chunk_size_kb
      | TradesData \<Rightarrow> trades_splits env raw chunk_size_kb
      | OtherDefinition n \<Rightarrow> Some ([], Some ValueError))"

definition load_split_catalog_store_df ::
    "('raw, 'row, 's) task_env \<Rightarrow> input_item \<Rightarrow> int \<Rightarrow> string \<Rightarrow> 's \<times> catalog_db \<Rightarrow> (unit pyres \<times> 's \<times> catalog_db) option" where
  "load_split_catalog_store_df env item chunk_size_kb date_str = (\<lambda>(st, db).
     case load_raw env (it_path item) of
       Inl e \<Rightarrow> Some (Inl e, st, db)
     | Inr raw \<Rightarrow>
         (case splits_of_item env item chunk_size_kb date_str raw of
            None \<Rightarrow> None
          | Some (splits, err) \<Rightarrow> Some
              (case store_splits env item (compaction_of env chunk_size_kb) splits 0 [] st of
                 (Inl e, st') \<Rightarrow> (Inl e, st', db)
               | (Inr items, st') \<Rightarrow>
                   (case err of
                      Some e \<Rightarrow> (Inl e, st', db)
                    | None \<Rightarrow>
                        (case store_block_metadata_batch (DataBlocks (map (with_num_splits (length splits)) items)) db of
                           Inl e \<Rightarrow> (Inl e, st', db)
                         | Inr db' \<Rightarrow> (Inr (), st', db'))))))"

text \<open>The filter of the database actor.\<close>

definition filter_input_batch :: "input_item list \<Rightarrow> catalog_db \<Rightarrow> input_item list pyres" where
  "filter_input_batch items db =
     (if items = [] then Inr items
      else if it_definition (hd items) = CryptotickL2BookIncrementalData then filter_cryptotick_batch it_path items db
      else Inl ValueError)"

section \<open>The rows of a file\<close>

lemma store_splits_rows:
  assumes "store_splits env item compaction splits i items st = (Inr rows, st')"
  shows "\<exists>new. rows = items @ new \<and> map br_hash new = map (Some \<circ> hash_df env) splits \<and>
    list_all (\<lambda>r. source_path r = Some (it_path item)) new"
  using assms
proof (induction splits arbitrary: i items st)
  case (Cons split splits)
  from Cons.prems obtain row where row: "make_data_source_block_metadata env split item compaction
      [(''source_path'', PStr (it_path item)), (''split_id'', PInt (int i))] = Inr row"
    by (auto split: sum.splits)
  with Cons.prems obtain st1 where
    rest: "store_splits env item compaction splits (i + 1) (items @ [row]) st1 = (Inr rows, st')" by (auto split: sum.splits)
  from row have "br_hash row = Some (hash_df env split)" "source_path row = Some (it_path item)"
    by (auto simp: make_data_source_block_metadata_def source_path_def Let_def split: if_splits prod.splits)
  with Cons.IH [OF rest] show ?case by auto
qed simp

lemma store_splits_ignores_store:
  assumes "make_data_source_block_metadata env = make_data_source_block_metadata env'"
  shows "fst (store_splits env item compaction splits i items st) = fst (store_splits env' item compaction splits i items st2)"
  by (induction splits arbitrary: i items st st2) (auto simp: assms split: sum.split)

text \<open>What the task returns and catalogs does not depend on the object store: whatever a store does
  with a block, also when it fails for every one of them, the task has the same result and leaves the same
  tables.\<close>

theorem cataloging_ignores_the_store:
  "map_option (\<lambda>(r, st', db'). (r, db')) (load_split_catalog_store_df (env\<lparr>put_df := p\<rparr>) item chunk_size_kb date_str (st, db)) =
   map_option (\<lambda>(r, st', db'). (r, db')) (load_split_catalog_store_df env item chunk_size_kb date_str (st2, db))"
proof -
  have meta: "make_data_source_block_metadata (env\<lparr>put_df := p\<rparr>) = make_data_source_block_metadata env"
    by (intro ext) (simp add: make_data_source_block_metadata_def Let_def cong: if_cong)
  have same: "fst (store_splits (env\<lparr>put_df := p\<rparr>) item c splits 0 [] st) = fst (store_splits env item c splits 0 [] st2)" for c splits
    by (rule store_splits_ignores_store [OF meta])
  have parts: "compaction_of (env\<lparr>put_df := p\<rparr>) = compaction_of env" "splits_of_item (env\<lparr>put_df := p\<rparr>) = splits_of_item env"
    "load_raw (env\<lparr>put_df := p\<rparr>) = load_raw env"
    by (auto simp: compaction_of_def splits_of_item_def fun_eq_iff split: ingest_definition.split)
  show ?thesis
  proof (cases "load_raw env (it_path item)")
    case (Inr raw)
    show ?thesis
    proof (cases "splits_of_item env item chunk_size_kb date_str raw")
      case (Some q)
      obtain splits err where q: "q = (splits, err)" by (cases q)
      let ?c = "compaction_of env chunk_size_kb"
      show ?thesis using same [of ?c splits]
        by (cases "store_splits (env\<lparr>put_df := p\<rparr>) item ?c splits 0 [] st"; cases "store_splits env item ?c splits 0 [] st2")
           (auto simp: load_split_catalog_store_df_def parts Inr Some q split: sum.split option.split)
    qed (simp add: load_split_catalog_store_df_def parts Inr)
  qed (simp add: load_split_catalog_store_df_def parts)
qed

section \<open>Ingested files are recognised\<close>

lemma new_rows_filter:
  "\<forall>r\<in>set batch. br_hash r \<noteq> None \<Longrightarrow>
   new_rows batch rows = filter (\<lambda>r. br_hash r \<notin> br_hash ` set rows) batch"
  unfolding new_rows_def Let_def
proof (rule filter_cong [OF refl])
  fix x
  assume "\<forall>r\<in>set batch. br_hash r \<noteq> None" "x \<in> set batch"
  then have "br_hash x \<noteq> None \<and> br_hash x \<in> br_hash ` set batch" by blast
  then show "(br_hash x \<notin> set (map br_hash (filter (\<lambda>r. br_hash r \<noteq> None \<and> br_hash r \<in> set (map br_hash batch)) rows))) \<longleftrightarrow>
      br_hash x \<notin> br_hash ` set rows"
    by (auto simp: image_iff)
qed

lemma with_num_splits_simps [simp]:
  "br_hash (with_num_splits n r) = br_hash r"
  "source_path (with_num_splits n r) = source_path r"
  "map_of (br_extras (with_num_splits n r)) ''num_splits'' = Some (PInt (int n))"
  by (simp_all add: with_num_splits_def source_path_def)

lemma filter_single_item:
  assumes "filter (\<lambda>r. source_path r = Some (it_path item)) (data_source_blocks db) = rows"
    and "\<forall>r\<in>set rows. map_of (br_extras r) ''num_splits'' = Some (PInt (int n))" and "0 < n"
  shows "filter_cryptotick_batch it_path [item] db = Inr (if length rows = n then [] else [item])"
proof -
  have rows: "filter (\<lambda>r. source_path r \<in> set (map (Some \<circ> it_path) [item])) (data_source_blocks db) = rows"
    using assms(1) by (auto intro: filter_cong)
  show ?thesis
  proof (cases "rows = []")
    case False
    have same: "filter (\<lambda>r. source_path r = Some (it_path item)) rows = rows"
      unfolding assms(1) [symmetric] by simp
    have "map_of (br_extras (hd rows)) ''num_splits'' = Some (PInt (int n))" using assms(2) False by simp
    then have "item_is_new rows (it_path item) = Inr (length rows \<noteq> n)"
      using False by (simp add: item_is_new_def same dict_lookup_def)
    then show ?thesis using False unfolding filter_cryptotick_batch_def rows by (simp add: Let_def)
  qed (use rows assms(3) in \<open>simp add: filter_cryptotick_batch_def\<close>)
qed


definition sample_task :: "(string, rat, string list) task_env" where
  "sample_task = \<lparr>load_raw = (\<lambda>p. Inr p), l2_splits = (\<lambda>raw d k. Some ([[1, 2], [3]], None)), trades_splits = (\<lambda>raw k. Some ([[1, 2], [3]], None)),
     row_timestamp = (\<lambda>r. r), frame_size_kb = (\<lambda>df. int (length df)), hash_df = (\<lambda>df. if df = [3] then ''c'' else ''ab''),
     snapshot_ts = (\<lambda>df. None), date_of_ts = (\<lambda>t. ''1970-01-01''), str_of_ts = (\<lambda>t. if t = 1 then ''1'' else if t = 2 then ''2'' else ''3''),
     str_of_mb = (\<lambda>k. ''0''), block_prefix = ''/tmp/'', put_df = (\<lambda>p df st. Inr (p # st))\<rparr>"

definition sample_item :: input_item where
  "sample_item = \<lparr>it_path = ''s3://raw'', it_day = ''01-01-1970'', it_size_kb = 5, it_key = ''k'',
     it_definition = CryptotickL2BookIncrementalData, it_params = \<lparr>inst_exchange = ''B'', inst_type = ''spot'', inst_symbol = ''A-X''\<rparr>\<rparr>"


end
