(* ===== verification/IngestPipeline.thy ===== *)
theory IngestPipeline
  imports IngestTask
begin

text \<open>
  The actor that ingests batches of files (featurizer/data_ingest/pipelines/cryptotick/pipeline.py):
  its queue, the coroutine that schedules tasks, the one that drops finished references, the
  statistics the tasks report, and the end of a run. The coroutines run one at a time and hand over
  at each \<open>await\<close>; an action is what one of them does between two of them.
\<close>

section \<open>Statistics\<close>

record task_stats =
  status :: string
  stat_size :: rat
  stat_time :: "rat option"
  num_splits :: "nat option"
  num_stored :: "nat option"
  time_split :: "rat option"
  time_store :: "rat option"
  time_write :: "rat option"

definition new_stats :: "string \<Rightarrow> rat \<Rightarrow> task_stats" where
  "new_stats s sz = \<lparr>status = s, stat_size = sz, stat_time = None, num_splits = None, num_stored = None,
     time_split = None, time_store = None, time_write = None\<rparr>"

datatype stat_event = LoadFinished rat | PreprocFinished rat | SplitFinished rat | StoreFinished rat | WriteFinished rat

definition key_of_stat :: "'a option \<Rightarrow> 'a pyres" where
  "key_of_stat x = (case x of None \<Rightarrow> Inl KeyError | Some v \<Rightarrow> Inr v)"

text \<open>One report. The first split of a task sets its counters to zero and is not counted.\<close>

definition report :: "stat_event \<Rightarrow> task_stats \<Rightarrow> task_stats pyres" where
  "report ev s = (case ev of
     LoadFinished t \<Rightarrow> Inr (s\<lparr>status := ''load_finished'', stat_time := Some t\<rparr>)
   | PreprocFinished t \<Rightarrow> Inr (s\<lparr>status := ''preproc_finished'', stat_time := Some t\<rparr>)
   | SplitFinished t \<Rightarrow>
       if status s \<noteq> ''splitting''
       then Inr (s\<lparr>status := ''splitting'', num_splits := Some 0, num_stored := Some 0, time_split := Some 0, time_store := Some 0\<rparr>)
       else bindE (key_of_stat (time_split s)) (\<lambda>ts. bindE (key_of_stat (num_splits s)) (\<lambda>n.
         Inr (s\<lparr>time_split := Some ((ts * of_nat n + t) / (of_nat n + 1)), num_splits := Some (n + 1)\<rparr>)))
   | StoreFinished t \<Rightarrow>
       bindE (key_of_stat (time_store s)) (\<lambda>ts. bindE (key_of_stat (num_stored s)) (\<lambda>n.
         Inr (s\<lparr>time_store := Some ((ts * of_nat n + t) / (of_nat n + 1)), num_stored := Some (n + 1)\<rparr>)))
   | WriteFinished t \<Rightarrow> Inr (s\<lparr>time_write := Some t, status := ''done''\<rparr>))"

definition update_stats :: "stat_event \<Rightarrow> nat \<Rightarrow> (nat, task_stats) dict \<Rightarrow> (nat, task_stats) dict pyres" where
  "update_stats ev task_id st = bindE (dict_lookup st task_id) (\<lambda>s. bindE (report ev s) (\<lambda>s'. Inr (dict_put task_id s' st)))"

text \<open>After the load and the preprocessing of a task, reports of splits and stores never raise once a
  split was reported; the splits counted are one less than reported, the mean time is the mean of the
  splits counted, and the stores counted are those reported.\<close>

definition split_times :: "stat_event list \<Rightarrow> rat list" where
  "split_times evs = concat (map (\<lambda>e. case e of SplitFinished t \<Rightarrow> [t] | _ \<Rightarrow> []) evs)"

definition store_times :: "stat_event list \<Rightarrow> rat list" where
  "store_times evs = concat (map (\<lambda>e. case e of StoreFinished t \<Rightarrow> [t] | _ \<Rightarrow> []) evs)"

definition mean :: "rat list \<Rightarrow> rat" where
  "mean xs = (if xs = [] then 0 else sum_list xs / of_nat (length xs))"

lemma mean_snoc: "(mean xs * of_nat (length xs) + t) / (of_nat (length xs) + 1) = mean (xs @ [t])"
  by (auto simp: mean_def add.commute)

definition counted_stats :: "rat list \<Rightarrow> rat list \<Rightarrow> task_stats \<Rightarrow> bool" where
  "counted_stats splits stores s \<longleftrightarrow> status s = ''splitting'' \<and> num_splits s = Some (length splits) \<and> num_stored s = Some (length stores) \<and>
     time_split s = Some (mean splits) \<and> time_store s = Some (mean stores)"

lemma reports_counted:
  assumes "\<forall>e\<in>set evs. \<exists>t. e = SplitFinished t \<or> e = StoreFinished t" "counted_stats splits stores s"
  shows "\<exists>s'. foldE report evs s = Inr s' \<and> counted_stats (splits @ split_times evs) (stores @ store_times evs) s'"
  using assms
proof (induction evs arbitrary: splits stores s)
  case (Cons e evs)
  from Cons.prems(1) obtain t where e: "e = SplitFinished t \<or> e = StoreFinished t" by auto
  define splits1 where "splits1 = splits @ split_times [e]"
  define stores1 where "stores1 = stores @ store_times [e]"
  have "\<exists>s1. report e s = Inr s1 \<and> counted_stats splits1 stores1 s1"
    using e Cons.prems(2) mean_snoc [of splits t] mean_snoc [of stores t]
    by (auto simp: report_def counted_stats_def key_of_stat_def splits1_def stores1_def split_times_def store_times_def)
  then obtain s1 where "report e s = Inr s1" "counted_stats splits1 stores1 s1" by blast
  with Cons.IH [of splits1 stores1 s1] Cons.prems(1) show ?case
    by (auto simp: splits1_def stores1_def split_times_def store_times_def)
qed (simp add: split_times_def store_times_def)

lemma one_split_is_not_counted:
  assumes "\<forall>e\<in>set evs. \<exists>t. e = SplitFinished t \<or> e = StoreFinished t"
  shows "\<exists>s'. foldE report (LoadFinished a # PreprocFinished b # SplitFinished t # evs) (new_stats ''scheduled'' sz) = Inr s' \<and>
    num_splits s' = Some (length (split_times evs)) \<and> num_stored s' = Some (length (store_times evs))"
proof -
  let ?s = "\<lparr>status = ''splitting'', stat_size = sz, stat_time = Some b, num_splits = Some 0, num_stored = Some 0,
     time_split = Some 0, time_store = Some 0, time_write = None\<rparr>"
  have "counted_stats [] [] ?s" by (simp add: counted_stats_def mean_def)
  from reports_counted [OF assms this] show ?thesis by (auto simp: report_def new_stats_def counted_stats_def)
qed

text \<open>A block that is stored before the first report of a split raises in the actor.\<close>

lemma early_store_raises:
  "foldE report [LoadFinished a, PreprocFinished b, StoreFinished t] (new_stats ''scheduled'' sz) = Inl KeyError"
  by (simp add: report_def new_stats_def key_of_stat_def)

section \<open>The actor\<close>

datatype scheduler_status = Waiting | Scheduling | Returned | Died py_error

text \<open>\<open>inputs\<close>, \<open>started\<close>, \<open>skipped\<close> and \<open>lost\<close> are for stating what becomes of the items.\<close>

record pipeline =
  is_running :: bool
  input_queue :: "input_item list list"
  scheduler :: scheduler_status
  pending :: "input_item list"
  results_refs :: "nat list"
  stats :: "(nat, task_stats) dict"
  catalog :: catalog_db
  inputs :: "input_item list"
  started :: "input_item list"
  skipped :: "input_item list"
  lost :: "input_item list"

definition init_pipeline :: "catalog_db \<Rightarrow> pipeline" where
  "init_pipeline db = \<lparr>is_running = True, input_queue = [], scheduler = Waiting, pending = [], results_refs = [], stats = [],
     catalog = db, inputs = [], started = [], skipped = [], lost = []\<rparr>"

definition data_source_row :: "(Instrument \<Rightarrow> pydict) \<Rightarrow> input_item \<Rightarrow> metadata_row" where
  "data_source_row params_of item =
     \<lparr>mr_owner = ''0'', mr_key = it_key item, mr_definition = definition_name (it_definition item), mr_version = [],
      mr_name = None, mr_params = params_of (it_params item)\<rparr>"

text \<open>Filtering the batch and storing its data source, both on the database actor.\<close>

definition prepare_batch :: "(Instrument \<Rightarrow> pydict) \<Rightarrow> input_item list \<Rightarrow> catalog_db \<Rightarrow> (input_item list \<times> catalog_db) pyres" where
  "prepare_batch params_of batch db =
     bindE (filter_input_batch batch db) (\<lambda>items.
     if items = [] then Inr (items, db)
     else bindE (store_metadata_if_needed (DataSources [data_source_row params_of (hd items)]) db) (\<lambda>(n, db'). Inr (items, db')))"

definition mark_done :: "nat \<Rightarrow> (nat, task_stats) dict \<Rightarrow> (nat, task_stats) dict" where
  "mark_done n st = ((\<lambda>st. dict_put (length st) (new_stats ''done'' 1) st) ^^ n) st"

datatype pipeline_action =
    PipeInput "input_item list"
  | TakeBatch
  | ScheduleNext
  | ProcessOne nat
  | StopRunning
  | Report stat_event nat
  | WorkerWrites catalog_db

text \<open>Actions of the pipeline; \<open>None\<close> is an action that is not possible now, for \<open>PipeInput\<close> because
  it waits for room in the queue or raises ValueError after the end.\<close>

definition take_batch :: "(Instrument \<Rightarrow> pydict) \<Rightarrow> pipeline \<Rightarrow> pipeline option" where
  "take_batch params_of p =
     (if scheduler p \<noteq> Waiting then None
      else if \<not> is_running p then Some (p\<lparr>scheduler := Returned\<rparr>)
      else case input_queue p of
        [] \<Rightarrow> None
      | batch # queue \<Rightarrow>
          (case prepare_batch params_of batch (catalog p) of
             Inl e \<Rightarrow> Some (p\<lparr>input_queue := queue, scheduler := Died e, lost := lost p @ batch\<rparr>)
           | Inr (items, db) \<Rightarrow>
               Some (p\<lparr>input_queue := queue, scheduler := Scheduling, pending := items, catalog := db,
                 stats := mark_done (length batch - length items) (stats p),
                 skipped := skipped p @ filter (\<lambda>i. i \<notin> set items) batch\<rparr>)))"

definition schedule_next :: "nat \<Rightarrow> pipeline \<Rightarrow> pipeline option" where
  "schedule_next max_executing p =
     (if scheduler p \<noteq> Scheduling then None
      else case pending p of
        [] \<Rightarrow> Some (p\<lparr>scheduler := Waiting\<rparr>)
      | item # items \<Rightarrow>
          if is_running p \<and> max_executing \<le> length (results_refs p) then None
          else if \<not> is_running p then Some (p\<lparr>scheduler := Returned\<rparr>)
          else let task_id = length (stats p) in
            Some (p\<lparr>pending := items, results_refs := results_refs p @ [task_id], started := started p @ [item],
              stats := dict_put task_id (new_stats ''scheduled'' (it_size_kb item)) (stats p)\<rparr>))"

definition pipeline_act :: "(Instrument \<Rightarrow> pydict) \<Rightarrow> nat \<Rightarrow> pipeline_action \<Rightarrow> pipeline \<Rightarrow> pipeline option" where
  "pipeline_act params_of max_executing a p = (case a of
     PipeInput batch \<Rightarrow>
       if is_running p \<and> length (input_queue p) \<le> 2
       then Some (p\<lparr>input_queue := input_queue p @ [batch], inputs := inputs p @ batch\<rparr>) else None
   | TakeBatch \<Rightarrow> take_batch params_of p
   | ScheduleNext \<Rightarrow> schedule_next max_executing p
   | ProcessOne i \<Rightarrow> if i \<in> set (results_refs p) then Some (p\<lparr>results_refs := remove1 i (results_refs p)\<rparr>) else None
   | StopRunning \<Rightarrow> if input_queue p = [] then Some (p\<lparr>is_running := False\<rparr>) else None
   | Report ev i \<Rightarrow> (case update_stats ev i (stats p) of Inl e \<Rightarrow> None | Inr st \<Rightarrow> Some (p\<lparr>stats := st\<rparr>))
   | WorkerWrites db \<Rightarrow> Some (p\<lparr>catalog := db\<rparr>))"

inductive pipeline_step :: "(Instrument \<Rightarrow> pydict) \<Rightarrow> nat \<Rightarrow> pipeline \<Rightarrow> pipeline \<Rightarrow> bool" for params_of max_executing where
  step: "pipeline_act params_of max_executing a p = Some p' \<Longrightarrow> pipeline_step params_of max_executing p p'"

section \<open>Every item is accounted for\<close>

lemma foldE_collect:
  assumes "foldE (\<lambda>x acc. bindE (f x) (\<lambda>b. Inr (if b then acc @ [x] else acc))) xs acc = Inr out"
  shows "out = acc @ filter (\<lambda>x. f x = Inr True) xs"
  using assms
proof (induction xs arbitrary: acc)
  case (Cons x xs)
  then obtain b where b: "f x = Inr b" by auto
  with Cons.prems have "foldE (\<lambda>x acc. bindE (f x) (\<lambda>b. Inr (if b then acc @ [x] else acc))) xs (if b then acc @ [x] else acc) = Inr out"
    by simp
  from Cons.IH [OF this] b show ?case by (cases b) simp_all
qed simp

lemma filter_input_batch_filters:
  assumes "filter_input_batch batch db = Inr items"
  shows "\<exists>P. items = filter P batch"
proof (cases "batch = []")
  case False
  with assms have run: "filter_cryptotick_batch it_path batch db = Inr items"
    by (auto simp: filter_input_batch_def split: if_splits)
  show ?thesis
  proof (cases "filter (\<lambda>r. source_path r \<in> set (map (Some \<circ> it_path) batch)) (data_source_blocks db) = []")
    case True
    with run have "items = filter (\<lambda>i. True) batch" by (simp add: filter_cryptotick_batch_def)
    then show ?thesis by blast
  next
    case False
    define rows where "rows = filter (\<lambda>r. source_path r \<in> set (map (Some \<circ> it_path) batch)) (data_source_blocks db)"
    from run False have "foldE (\<lambda>item acc. bindE (item_is_new rows (it_path item)) (\<lambda>b. Inr (if b then acc @ [item] else acc))) batch [] = Inr items"
      unfolding filter_cryptotick_batch_def Let_def rows_def by (simp only: if_False)
    from foldE_collect [OF this] show ?thesis by auto
  qed
qed (use assms in \<open>simp add: filter_input_batch_def\<close>)

lemma prepare_batch_splits:
  assumes "prepare_batch params_of batch db = Inr (items, db')"
  shows "mset batch = mset items + mset (filter (\<lambda>i. i \<notin> set items) batch)"
    and "length batch - length items = length (filter (\<lambda>i. i \<notin> set items) batch)"
proof -
  from assms have "filter_input_batch batch db = Inr items" by (auto simp: prepare_batch_def split: if_splits)
  then obtain P where P: "items = filter P batch" using filter_input_batch_filters by blast
  then have rest: "filter (\<lambda>i. i \<notin> set items) batch = filter (\<lambda>i. \<not> P i) batch" by (auto intro!: filter_cong)
  show parts: "mset batch = mset items + mset (filter (\<lambda>i. i \<notin> set items) batch)"
    unfolding rest unfolding P by (metis mset_filter multiset_partition)
  then have "length batch = length items + length (filter (\<lambda>i. i \<notin> set items) batch)"
    by (metis size_mset size_union)
  then show "length batch - length items = length (filter (\<lambda>i. i \<notin> set items) batch)" by simp
qed

definition ids_ok :: "pipeline \<Rightarrow> bool" where
  "ids_ok p \<longleftrightarrow> map fst (stats p) = [0..<length (started p) + length (skipped p)]"

lemma next_id: "map fst st = [0..<n] \<Longrightarrow> length st = n"
  by (metis length_map length_upt minus_nat.diff_0)

lemma put_next:
  assumes "map fst st = [0..<n]"
  shows "map fst (dict_put n s st) = [0..<Suc n]"
proof -
  have "fst ` set st = set [0..<n]" by (metis assms list.set_map)
  then have "dict_put n s st = st @ [(n, s)]" by (intro dict_put_fresh) simp
  with assms show ?thesis by simp
qed

lemma mark_done_Suc: "mark_done (Suc n) st = dict_put (length (mark_done n st)) (new_stats ''done'' 1) (mark_done n st)"
  by (simp add: mark_done_def)

lemma mark_done_keys: "map fst st = [0..<m] \<Longrightarrow> map fst (mark_done n st) = [0..<m + n]"
proof (induction n arbitrary: m)
  case (Suc n)
  note keys = Suc.IH [OF Suc.prems]
  from put_next [OF keys] next_id [OF keys] show ?case by (simp add: mark_done_Suc)
qed (simp add: mark_done_def)

lemma update_stats_keys: "update_stats ev i st = Inr st' \<Longrightarrow> map fst st' = map fst st"
proof -
  assume "update_stats ev i st = Inr st'"
  then obtain s s' where s: "map_of st i = Some s" "st' = dict_put i s' st" by (auto simp: update_stats_def)
  from map_of_SomeD [OF s(1)] have "i \<in> set (map fst st)" by force
  with s(2) show ?thesis by (simp add: update_keys)
qed

definition accounted :: "pipeline \<Rightarrow> bool" where
  "accounted p \<longleftrightarrow> mset (inputs p) = mset (concat (input_queue p)) + mset (pending p) + mset (started p) + mset (skipped p) + mset (lost p)"

lemma take_batch_accounted:
  assumes "take_batch params_of p = Some p'" "accounted p" "ids_ok p" "scheduler p = Waiting \<Longrightarrow> pending p = []"
  shows "accounted p' \<and> ids_ok p' \<and> (scheduler p' = Waiting \<longrightarrow> pending p' = []) \<and> results_refs p' = results_refs p"
proof (cases "is_running p")
  case True
  with assms(1) obtain batch queue where q: "scheduler p = Waiting" "input_queue p = batch # queue"
    by (auto simp: take_batch_def split: if_splits list.splits)
  show ?thesis
  proof (cases "prepare_batch params_of batch (catalog p)")
    case (Inl e)
    with True q assms show ?thesis by (auto simp: take_batch_def accounted_def ids_ok_def)
  next
    case (Inr r)
    obtain items db where r: "r = (items, db)" by (cases r)
    note parts = prepare_batch_splits [OF Inr [unfolded r]]
    define out where "out = filter (\<lambda>i. i \<notin> set items) batch"
    have p': "p' = p\<lparr>input_queue := queue, scheduler := Scheduling, pending := items, catalog := db,
        stats := mark_done (length out) (stats p), skipped := skipped p @ out\<rparr>"
      using True q assms(1) Inr r parts(2) by (simp add: take_batch_def out_def)
    have "ids_ok p'"
      using mark_done_keys [OF assms(3) [unfolded ids_ok_def], of "length out"] by (simp add: p' ids_ok_def add.assoc)
    moreover have "accounted p'"
      using q assms(2,4) parts(1) by (simp add: p' accounted_def flip: out_def)
    ultimately show ?thesis by (simp add: p')
  qed
qed (use assms in \<open>auto simp: take_batch_def accounted_def ids_ok_def split: if_splits\<close>)

lemma schedule_next_accounted:
  assumes "schedule_next max_executing p = Some p'" "accounted p" "ids_ok p" "length (results_refs p) \<le> max_executing"
  shows "accounted p' \<and> ids_ok p' \<and> (scheduler p' = Waiting \<longrightarrow> pending p' = []) \<and> length (results_refs p') \<le> max_executing"
proof (cases "pending p = [] \<or> \<not> is_running p")
  case True
  with assms show ?thesis by (auto simp: schedule_next_def accounted_def ids_ok_def split: if_splits list.splits)
next
  case False
  then obtain item items where i: "pending p = item # items" "is_running p" by (cases "pending p") auto
  define n where "n = length (started p) + length (skipped p)"
  have keys: "map fst (stats p) = [0..<n]" using assms(3) by (simp add: ids_ok_def n_def)
  have room: "length (results_refs p) < max_executing" "scheduler p = Scheduling" and
    p': "p' = p\<lparr>pending := items, results_refs := results_refs p @ [n], started := started p @ [item],
        stats := dict_put n (new_stats ''scheduled'' (it_size_kb item)) (stats p)\<rparr>"
    using assms(1) i next_id [OF keys] by (auto simp: schedule_next_def Let_def split: if_splits)
  have "ids_ok p'" using put_next [OF keys] by (simp add: p' ids_ok_def n_def)
  moreover have "accounted p'" using assms(2) i(1) by (simp add: p' accounted_def)
  ultimately show ?thesis using room by (simp add: p')
qed

definition pipeline_inv :: "nat \<Rightarrow> pipeline \<Rightarrow> bool" where
  "pipeline_inv max_executing p \<longleftrightarrow> accounted p \<and> ids_ok p \<and> (scheduler p = Waiting \<longrightarrow> pending p = []) \<and>
     length (results_refs p) \<le> max_executing"

lemma pipeline_inv_step:
  assumes "pipeline_inv max_executing p" "pipeline_act params_of max_executing a p = Some p'"
  shows "pipeline_inv max_executing p'"
proof (cases a)
  case TakeBatch
  with assms take_batch_accounted [of params_of p p'] show ?thesis by (simp add: pipeline_inv_def pipeline_act_def)
next
  case ScheduleNext
  with assms schedule_next_accounted [of max_executing p p'] show ?thesis by (simp add: pipeline_inv_def pipeline_act_def)
next
  case (Report ev i)
  with assms update_stats_keys [of ev i "stats p"] show ?thesis
    by (auto simp: pipeline_inv_def pipeline_act_def accounted_def ids_ok_def split: sum.splits)
next
  case (PipeInput batch)
  with assms show ?thesis
    by (simp add: pipeline_inv_def pipeline_act_def accounted_def ids_ok_def split: if_splits) auto
next
  case (ProcessOne i)
  have "length (remove1 i (results_refs p)) \<le> length (results_refs p)" by (simp add: length_remove1)
  with ProcessOne assms show ?thesis
    by (auto simp: pipeline_inv_def pipeline_act_def accounted_def ids_ok_def split: if_splits)
next
  case StopRunning
  with assms show ?thesis
    by (auto simp: pipeline_inv_def pipeline_act_def accounted_def ids_ok_def split: if_splits)
next
  case (WorkerWrites db)
  with assms show ?thesis by (auto simp: pipeline_inv_def pipeline_act_def accounted_def ids_ok_def)
qed

text \<open>C15. In every run of the pipeline at most the allowed number of tasks is executing, every item
  that was put in is exactly once among those queued, waiting to be scheduled, started, skipped
  because the database has them, or lost with a batch the scheduler died of, and the started and
  skipped items have the task ids from zero on, one each.\<close>

theorem pipeline_conserves_items:
  assumes "(pipeline_step params_of max_executing)\<^sup>*\<^sup>* (init_pipeline db) p"
  shows "length (results_refs p) \<le> max_executing \<and>
    mset (inputs p) = mset (concat (input_queue p)) + mset (pending p) + mset (started p) + mset (skipped p) + mset (lost p) \<and>
    map fst (stats p) = [0..<length (started p) + length (skipped p)]"
proof -
  have "pipeline_inv max_executing (init_pipeline db)"
    by (simp add: pipeline_inv_def init_pipeline_def accounted_def ids_ok_def)
  with assms have "pipeline_inv max_executing p"
    by (induction rule: rtranclp_induct) (auto elim!: pipeline_step.cases intro: pipeline_inv_step)
  then show ?thesis by (simp add: pipeline_inv_def accounted_def ids_ok_def)
qed

section \<open>How a run can fail\<close>

text \<open>A witness of a run: the actions in order.\<close>

definition run_actions :: "(Instrument \<Rightarrow> pydict) \<Rightarrow> nat \<Rightarrow> pipeline_action list \<Rightarrow> pipeline \<Rightarrow> pipeline option" where
  "run_actions params_of max_executing as p =
     foldl (\<lambda>q a. case q of None \<Rightarrow> None | Some p \<Rightarrow> pipeline_act params_of max_executing a p) (Some p) as"

lemma pipeline_actions_reachable:
  "run_actions params_of max_executing as p = Some p' \<Longrightarrow> (pipeline_step params_of max_executing)\<^sup>*\<^sup>* p p'"
proof (induction as arbitrary: p' rule: rev_induct)
  case (snoc a as)
  then obtain q where "run_actions params_of max_executing as p = Some q" "pipeline_act params_of max_executing a q = Some p'"
    by (auto simp: run_actions_def split: option.splits)
  with snoc.IH show ?case by (blast intro: rtranclp.rtrancl_into_rtrancl pipeline_step.step)
qed (simp add: run_actions_def)

theorem pipeline_conserves_items_witness:
  "\<exists>p. (pipeline_step (\<lambda>i. []) 1)\<^sup>*\<^sup>* (init_pipeline empty_db) p \<and> started p = [sample_item] \<and>
    length (results_refs p) \<le> 1 \<and> map fst (stats p) = [0..<length (started p) + length (skipped p)]"
proof -
  have "case run_actions (\<lambda>i. []) 1 [PipeInput [sample_item], TakeBatch, ScheduleNext] (init_pipeline empty_db) of
      None \<Rightarrow> False | Some p \<Rightarrow> started p = [sample_item]" by code_simp
  then obtain p where p: "run_actions (\<lambda>i. []) 1 [PipeInput [sample_item], TakeBatch, ScheduleNext] (init_pipeline empty_db) = Some p"
    "started p = [sample_item]" by (auto split: option.splits)
  from pipeline_conserves_items [OF pipeline_actions_reachable [OF p(1)]] p(2) pipeline_actions_reachable [OF p(1)] show ?thesis by blast
qed

text \<open>Once the scheduler has died the queue only grows, so the end of the run waits for ever.\<close>

definition stuck :: "py_error \<Rightarrow> pipeline \<Rightarrow> bool" where
  "stuck e p \<longleftrightarrow> scheduler p = Died e \<and> is_running p \<and> input_queue p \<noteq> []"

lemma stuck_stays:
  assumes "(pipeline_step params_of max_executing)\<^sup>*\<^sup>* p p'" "stuck e p"
  shows "stuck e p'"
  using assms
proof (induction rule: rtranclp_induct)
  case (step q r)
  from step(2) obtain a where "pipeline_act params_of max_executing a q = Some r" by (auto elim: pipeline_step.cases)
  with step(3,4) show ?case
    by (cases a) (auto simp: stuck_def pipeline_act_def take_batch_def schedule_next_def split: if_splits sum.splits)
qed simp

text \<open>A batch of anything but incremental books ends scheduling: the filter of the database actor
  raises ValueError in the coroutine of the scheduler, which nobody waits for. With another batch in the queue
  the run can then never end, whatever else happens; no further task is started.\<close>

theorem unsupported_batch_hangs_the_run:
  assumes "scheduler p = Waiting" and "is_running p" and "input_queue p = (item # items) # batch # batches"
    and "it_definition item \<noteq> CryptotickL2BookIncrementalData"
  shows "\<exists>p1. pipeline_act params_of max_executing TakeBatch p = Some p1 \<and> started p1 = started p \<and>
    (\<forall>p'. (pipeline_step params_of max_executing)\<^sup>*\<^sup>* p1 p' \<longrightarrow>
       is_running p' \<and> scheduler p' = Died ValueError \<and> input_queue p' \<noteq> [])"
proof -
  define p1 where "p1 = p\<lparr>input_queue := batch # batches, scheduler := Died ValueError, lost := lost p @ item # items\<rparr>"
  have "pipeline_act params_of max_executing TakeBatch p = Some p1"
    using assms by (simp add: pipeline_act_def take_batch_def prepare_batch_def filter_input_batch_def p1_def)
  moreover have "stuck ValueError p1" using assms by (simp add: stuck_def p1_def)
  ultimately show ?thesis using stuck_stays by (force simp: stuck_def p1_def)
qed

definition trades_item :: input_item where
  "trades_item = sample_item\<lparr>it_definition := TradesData\<rparr>"

theorem unsupported_batch_hangs_the_run_witness:
  "\<exists>p1. run_actions (\<lambda>i. []) 1 [PipeInput [trades_item], PipeInput [sample_item], TakeBatch] (init_pipeline empty_db) = Some p1 \<and>
    (\<forall>p'. (pipeline_step (\<lambda>i. []) 1)\<^sup>*\<^sup>* p1 p' \<longrightarrow> is_running p' \<and> input_queue p' \<noteq> [])"
proof -
  define p where "p = (init_pipeline empty_db)\<lparr>input_queue := [[trades_item], [sample_item]], inputs := [trades_item, sample_item]\<rparr>"
  have "scheduler p = Waiting" "is_running p" "input_queue p = [trades_item] # [sample_item] # []"
    "it_definition trades_item \<noteq> CryptotickL2BookIncrementalData"
    by (simp_all add: p_def init_pipeline_def trades_item_def)
  from unsupported_batch_hangs_the_run [OF this, of "\<lambda>i. []" 1] obtain p1 where
    "pipeline_act (\<lambda>i. []) 1 TakeBatch p = Some p1"
    "\<forall>p'. (pipeline_step (\<lambda>i. []) 1)\<^sup>*\<^sup>* p1 p' \<longrightarrow> is_running p' \<and> input_queue p' \<noteq> []" by blast
  moreover have "run_actions (\<lambda>i. []) 1 [PipeInput [trades_item], PipeInput [sample_item], TakeBatch] (init_pipeline empty_db) =
      pipeline_act (\<lambda>i. []) 1 TakeBatch p"
    by (simp add: run_actions_def pipeline_act_def [of _ _ "PipeInput _"] p_def init_pipeline_def)
  ultimately show ?thesis by auto
qed

text \<open>The end of a run does not wait for the batch that is being scheduled: with as many tasks executing
  as allowed, the items left of the last batch are dropped.\<close>

lemma last_batch_is_dropped:
  "\<exists>p. (pipeline_step (\<lambda>i. []) 1)\<^sup>*\<^sup>* (init_pipeline empty_db) p \<and> scheduler p = Returned \<and> \<not> is_running p \<and>
    input_queue p = [] \<and> started p = [sample_item] \<and> pending p = [sample_item\<lparr>it_path := ''s3://other''\<rparr>]"
proof -
  have "case run_actions (\<lambda>i. []) 1 [PipeInput [sample_item, sample_item\<lparr>it_path := ''s3://other''\<rparr>], TakeBatch, ScheduleNext,
      StopRunning, ScheduleNext] (init_pipeline empty_db) of
      None \<Rightarrow> False | Some p \<Rightarrow> scheduler p = Returned \<and> \<not> is_running p \<and> input_queue p = [] \<and> started p = [sample_item] \<and>
        pending p = [sample_item\<lparr>it_path := ''s3://other''\<rparr>]" by code_simp
  then show ?thesis using pipeline_actions_reachable by (fastforce split: option.splits)
qed

end
