(* ===== verification/ClusterManager.thy ===== *)
theory ClusterManager
  imports PyValue PyString
begin

text \<open>
  ray_cluster/manager/manager.py: the resource of a Ray cluster made of its configuration, the calls
  to the Kubernetes API with their errors, waiting for the status of a cluster and for the cluster,
  and the forwarding of a port. The API, the template, Ray and the ports are parameters; an answer of
  the API is a value or the status code of its exception.
\<close>

section \<open>The resource of a cluster\<close>

record worker_group =
  group_name :: string
  replicas :: int
  min_replicas :: int
  max_replicas :: int
  wg_cpu :: rat
  wg_memory :: string
  ray_resources :: "(string, string) dict"

record cluster_config =
  user_id :: string
  cluster_name :: string
  is_minikube :: bool
  enable_autoscaling :: bool
  head_cpu :: rat
  head_memory :: string
  worker_groups :: "worker_group list"

text \<open>The dictionary of resources as the template takes it; the last separator is cut off.\<close>

definition add_resource :: "string \<times> string \<Rightarrow> string \<Rightarrow> string" where
  "add_resource p s = s @ fst p @ [CHR 0x5C, CHR 0x22] @ '':'' @ snd p @ '', '' @ [CHR 0x5C, CHR 0x22]"

definition ray_resources_str :: "(string, string) dict \<Rightarrow> string" where
  "ray_resources_str d =
     (let s = fold add_resource d
            ([CHR 0x27] @ [CHR 0x22] @ ''{'' @ [CHR 0x5C, CHR 0x22]);
          s = (if 0 < length d then take (length s - 4) s else s)
      in s @ ''}'' @ [CHR 0x22, CHR 0x27])"

text \<open>A worker group as the template gets it: without resources when it has none.\<close>

definition worker_group_dict :: "worker_group \<Rightarrow> worker_group \<times> string option" where
  "worker_group_dict w = (w, if ray_resources w = [] then None else Some (ray_resources_str (ray_resources w)))"

definition ray_cluster_crd ::
    "(cluster_config \<Rightarrow> (worker_group \<times> string option) list \<Rightarrow> 'crd pyres) \<Rightarrow> cluster_config \<Rightarrow> 'crd pyres" where
  "ray_cluster_crd render config =
     render (config\<lparr>user_id := [CHR 0x27] @ user_id config @ [CHR 0x27]\<rparr>) (map worker_group_dict (worker_groups config))"

text \<open>The string is the entries between braces, joined by commas.\<close>

definition resource_entry :: "string \<times> string \<Rightarrow> string" where
  "resource_entry p = [CHR 0x5C, CHR 0x22] @ fst p @ [CHR 0x5C, CHR 0x22] @ '':'' @ snd p"

lemma ray_resources_fold:
  "fold add_resource d (s @ [CHR 0x5C, CHR 0x22]) =
   s @ concat (map (\<lambda>p. resource_entry p @ '', '') d) @ [CHR 0x5C, CHR 0x22]"
proof (induction d arbitrary: s)
  case (Cons p d)
  have "add_resource p (s @ [CHR 0x5C, CHR 0x22]) = (s @ resource_entry p @ '', '') @ [CHR 0x5C, CHR 0x22]"
    by (simp add: add_resource_def resource_entry_def)
  then show ?case by (simp only: fold_Cons o_apply Cons.IH) simp
qed simp

lemma concat_join:
  "d \<noteq> [] \<Longrightarrow> concat (map (\<lambda>p. f p @ sep) d) = py_join sep (map f d) @ sep"
proof (induction d)
  case (Cons p d)
  then show ?case by (cases d) simp_all
qed simp

lemma ray_resources_str_eq:
  assumes "d \<noteq> []"
  shows "ray_resources_str d = [CHR 0x27, CHR 0x22] @ ''{'' @ py_join '', '' (map resource_entry d) @ ''}'' @ [CHR 0x22, CHR 0x27]"
proof -
  have "fold add_resource d
       ([CHR 0x27] @ [CHR 0x22] @ ''{'' @ [CHR 0x5C, CHR 0x22]) =
     ([CHR 0x27, CHR 0x22] @ ''{'' @ py_join '', '' (map resource_entry d)) @ '', '' @ [CHR 0x5C, CHR 0x22]"
    using ray_resources_fold [of d "[CHR 0x27, CHR 0x22] @ ''{''"] concat_join [OF assms, of resource_entry "'', ''"] by simp
  then show ?thesis using assms by (simp add: ray_resources_str_def Let_def)
qed

section \<open>Calls of the API\<close>

datatype 'a answer = Answer 'a | ApiException int

datatype cluster_error =
    NotFound | FetchError int | NoItems | AlreadyExists | CreateError int | DeleteError int | PatchError int
  | NoCrd py_error | StatusTimeout | Reason pyval | HeadNotConnected | NoHeadPod | HeadPodPhase string
  | PingFailed | ConnectFailed

definition list_ray_clusters :: "pydict answer \<Rightarrow> pydict option \<times> cluster_error option" where
  "list_ray_clusters resp = (case resp of
     Answer r \<Rightarrow> if dict_has r ''items'' then (Some r, None) else (None, Some NoItems)
   | ApiException code \<Rightarrow> (None, Some (if code = 404 then NotFound else FetchError code)))"

definition get_ray_cluster :: "pydict answer \<Rightarrow> pydict option \<times> cluster_error option" where
  "get_ray_cluster resp = (case resp of
     Answer r \<Rightarrow> (Some r, None)
   | ApiException code \<Rightarrow> (None, Some (if code = 404 then NotFound else FetchError code)))"

definition create_ray_cluster :: "'crd pyres \<Rightarrow> ('crd \<Rightarrow> unit answer) \<Rightarrow> bool \<times> cluster_error option" where
  "create_ray_cluster crd create = (case crd of
     Inl e \<Rightarrow> (False, Some (NoCrd e))
   | Inr c \<Rightarrow> (case create c of
       Answer u \<Rightarrow> (True, None)
     | ApiException code \<Rightarrow> (False, Some (if code = 409 then AlreadyExists else CreateError code))))"

definition delete_ray_cluster :: "unit answer \<Rightarrow> bool \<times> cluster_error option" where
  "delete_ray_cluster resp = (case resp of
     Answer u \<Rightarrow> (True, None)
   | ApiException code \<Rightarrow> (False, Some (if code = 404 then NotFound else DeleteError code)))"

definition patch_ray_cluster :: "unit answer \<Rightarrow> bool \<times> cluster_error option" where
  "patch_ray_cluster resp = (case resp of Answer u \<Rightarrow> (True, None) | ApiException code \<Rightarrow> (False, Some (PatchError code)))"

text \<open>Polling the status: \<open>resp n\<close> is the answer to the n-th call. With a delay that is not positive the
  loop need not end.\<close>

definition has_status :: "pydict \<Rightarrow> bool" where
  "has_status r = (case map_of r ''status'' of None \<Rightarrow> False | Some v \<Rightarrow> v \<noteq> PNone)"

partial_function (option) poll_status ::
    "(nat \<Rightarrow> pydict answer) \<Rightarrow> int \<Rightarrow> nat \<Rightarrow> int \<Rightarrow> (pyval option \<times> cluster_error option) option" where
  "poll_status resp delay n timeout =
     (if timeout > 0 then
        (case resp n of
           ApiException code \<Rightarrow> Some (None, Some (if code = 404 then NotFound else FetchError code))
         | Answer r \<Rightarrow>
             if has_status r then Some (map_of r ''status'', None)
             else poll_status resp delay (n + 1) (timeout - delay))
      else Some (None, Some StatusTimeout))"

definition get_ray_cluster_status ::
    "(nat \<Rightarrow> pydict answer) \<Rightarrow> int \<Rightarrow> int \<Rightarrow> (pyval option \<times> cluster_error option) option" where
  "get_ray_cluster_status resp timeout delay = poll_status resp delay 0 timeout"

text \<open>Waiting for a cluster: its status, the pod of its head and a call through Ray. The address does
  not depend on the cluster.\<close>

record cluster_env =
  status_calls :: "nat \<Rightarrow> pydict answer"
  head_pod_phases :: "string list"
  ping_result :: "string pyres"

definition construct_head_address :: "string \<Rightarrow> string" where
  "construct_head_address name = ''ray://127.0.0.1:10001''"

definition status_verdict :: "pyval \<Rightarrow> cluster_error option pyres" where
  "status_verdict st =
     bindE (pv_has st ''state'') (\<lambda>s.
     bindE (if s then bindE (pv_get st ''state'') (\<lambda>v. Inr (\<not> py_eq v (PStr ''ready''))) else Inr False) (\<lambda>failed.
     if failed then bindE (pv_get st ''reason'') (\<lambda>r. Inr (Some (Reason r)))
     else bindE (pv_has st ''head'') (\<lambda>h.
       if \<not> h then Inr (Some HeadNotConnected)
       else bindE (pv_get st ''head'') (\<lambda>v.
         bindE (pv_has v ''serviceIP'') (\<lambda>b. Inr (if b then None else Some HeadNotConnected))))))"

definition wait_until_ray_cluster_ready ::
    "cluster_env \<Rightarrow> string \<Rightarrow> int \<Rightarrow> int \<Rightarrow> (string option \<times> cluster_error option) pyres option" where
  "wait_until_ray_cluster_ready env name timeout delay =
     (case get_ray_cluster_status (status_calls env) timeout delay of
        None \<Rightarrow> None
      | Some (None, err) \<Rightarrow> Some (Inr (None, err))
      | Some (Some st, err) \<Rightarrow> Some
          (bindE (status_verdict st) (\<lambda>v.
           case v of
             Some e \<Rightarrow> Inr (None, Some e)
           | None \<Rightarrow>
               (case head_pod_phases env of
                  [] \<Rightarrow> Inr (None, Some NoHeadPod)
                | phase # _ \<Rightarrow>
                    if phase \<noteq> ''Running'' then Inr (None, Some (HeadPodPhase phase))
                    else (case ping_result env of
                        Inl e \<Rightarrow> Inr (None, Some ConnectFailed)
                      | Inr p \<Rightarrow> if p \<noteq> ''ping'' then Inr (None, Some PingFailed)
                          else Inr (Some (construct_head_address name), None))))))"

text \<open>Forwarding a port: the globals of the module remember the process of a cluster.\<close>

definition port_forward_local :: "string \<Rightarrow> nat \<Rightarrow> nat \<Rightarrow> (string, nat) dict \<Rightarrow> (string \<times> (string, nat) dict) pyres" where
  "port_forward_local name port pid globs =
     (if dict_has globs name then Inl ValueError
      else Inr (''ray://127.0.0.1:'' @ show_nat port, dict_put name pid globs))"

section \<open>Polling ends\<close>

text \<open>The first attempt that ends the polling.\<close>

definition decides :: "pydict answer \<Rightarrow> bool" where
  "decides a = (case a of ApiException code \<Rightarrow> True | Answer r \<Rightarrow> has_status r)"

fun verdict :: "pydict answer \<Rightarrow> pyval option \<times> cluster_error option" where
  "verdict (ApiException code) = (None, Some (if code = 404 then NotFound else FetchError code))"
| "verdict (Answer r) = (map_of r ''status'', None)"

definition attempts :: "int \<Rightarrow> int \<Rightarrow> nat" where
  "attempts timeout delay = nat ((timeout + delay - 1) div delay)"

lemma attempts_step:
  assumes "0 < delay" "0 < timeout"
  shows "attempts timeout delay = Suc (attempts (timeout - delay) delay)"
proof -
  have "(timeout + delay - 1) div delay = (timeout - delay + delay - 1) div delay + 1"
    using assms(1) div_add_self2 [of delay "timeout - 1"] by (simp add: algebra_simps)
  moreover have "0 \<le> (timeout - delay + delay - 1) div delay" using assms by (simp add: pos_imp_zdiv_nonneg_iff)
  ultimately show ?thesis by (simp add: attempts_def nat_add_distrib)
qed

lemma poll_status_eq:
  assumes "0 < delay"
  shows "poll_status resp delay n timeout = Some
    (case List.find (\<lambda>i. decides (resp i)) [n..<n + attempts timeout delay] of
       None \<Rightarrow> (None, Some StatusTimeout) | Some i \<Rightarrow> verdict (resp i))"
proof (induction "attempts timeout delay" arbitrary: n timeout)
  case 0
  then have "timeout \<le> 0" using attempts_step [OF assms, of timeout] by (cases "0 < timeout") auto
  then show ?case using 0 by (simp add: poll_status.simps)
next
  case (Suc m)
  have t: "0 < timeout"
  proof (rule ccontr)
    assume "\<not> 0 < timeout"
    then have "(timeout + delay - 1) div delay \<le> (delay - 1) div delay"
      using assms by (intro zdiv_mono1) simp_all
    then show False using Suc.hyps(2) assms by (simp add: attempts_def)
  qed
  from Suc.hyps(2) have m: "m = attempts (timeout - delay) delay" using attempts_step [OF assms t] by simp
  have range: "[n..<n + attempts timeout delay] = n # [Suc n..<Suc n + m]"
    unfolding Suc.hyps(2) [symmetric] by (simp add: upt_conv_Cons)
  show ?case
  proof (cases "decides (resp n)")
    case True
    then show ?thesis unfolding range using t
      by (subst poll_status.simps) (auto simp: decides_def split: answer.splits)
  next
    case False
    with Suc.hyps(1) [OF m, of "Suc n"] m t show ?thesis unfolding range
      by (subst poll_status.simps) (auto simp: decides_def split: answer.splits)
  qed
qed

lemma wait_returns:
  assumes "0 < delay"
  shows "\<exists>r. wait_until_ray_cluster_ready env name timeout delay = Some r"
proof -
  have "\<exists>x. get_ray_cluster_status (status_calls env) timeout delay = Some x"
    by (simp add: get_ray_cluster_status_def poll_status_eq [OF assms])
  then show ?thesis
    by (auto simp: wait_until_ray_cluster_ready_def split: option.split prod.split)
qed

text \<open>Waiting for a cluster always returns when the delay is positive, after at most timeout / delay
  calls rounded up. It returns the address exactly when the first deciding answer among these calls has a
  status that is ready and connected, the first head pod is running and the ping comes back.\<close>

theorem cluster_is_ready_iff:
  assumes "0 < delay"
  shows "\<exists>r. wait_until_ray_cluster_ready env name timeout delay = Some r \<and>
    (r = Inr (Some (construct_head_address name), None) \<longleftrightarrow>
      (\<exists>i r st. List.find (\<lambda>i. decides (status_calls env i)) [0..<attempts timeout delay] = Some i \<and>
        status_calls env i = Answer r \<and> map_of r ''status'' = Some st \<and> status_verdict st = Inr None \<and>
        (\<exists>phases. head_pod_phases env = ''Running'' # phases) \<and> ping_result env = Inr ''ping''))"
proof (cases "List.find (\<lambda>i. decides (status_calls env i)) [0..<attempts timeout delay]")
  case None
  then show ?thesis
    by (simp add: wait_until_ray_cluster_ready_def get_ray_cluster_status_def poll_status_eq [OF assms])
next
  case (Some i)
  then have d: "decides (status_calls env i)" by (auto simp: find_Some_iff)
  show ?thesis
  proof (cases "status_calls env i")
    case (ApiException code)
    with Some show ?thesis
      by (simp add: wait_until_ray_cluster_ready_def get_ray_cluster_status_def poll_status_eq [OF assms])
  next
    case (Answer r)
    with d obtain v where v: "map_of r ''status'' = Some v" by (auto simp: decides_def has_status_def split: option.splits)
    have status: "get_ray_cluster_status (status_calls env) timeout delay = Some (Some v, None)"
      using Some Answer v by (simp add: get_ray_cluster_status_def poll_status_eq [OF assms])
    show ?thesis
    proof (cases "status_verdict v")
      case (Inr e)
      with status Some Answer v show ?thesis
        by (cases e; cases "head_pod_phases env"; cases "ping_result env")
          (auto simp: wait_until_ray_cluster_ready_def)
    qed (use status Some Answer v in \<open>auto simp: wait_until_ray_cluster_ready_def\<close>)
  qed
qed

definition ready_cluster :: cluster_env where
  "ready_cluster = \<lparr>
     status_calls = (\<lambda>n. Answer (if n = 0 then [] else
       [(''status'', PDict [(''state'', PStr ''ready''), (''head'', PDict [(''serviceIP'', PStr ''10.0.0.1'')])])])),
     head_pod_phases = [''Running''], ping_result = Inr ''ping''\<rparr>"

lemma cluster_is_ready_iff_witness:
  "wait_until_ray_cluster_ready ready_cluster ''c'' 60 5 = Some (Inr (Some ''ray://127.0.0.1:10001'', None))"
proof -
  have "List.find (\<lambda>i. decides (status_calls ready_cluster i)) [0..<attempts 60 5] = Some 1"
    by code_simp
  moreover have "status_calls ready_cluster 1 = Answer
      [(''status'', PDict [(''state'', PStr ''ready''), (''head'', PDict [(''serviceIP'', PStr ''10.0.0.1'')])])]"
    by code_simp
  moreover have "status_verdict
      (PDict [(''state'', PStr ''ready''), (''head'', PDict [(''serviceIP'', PStr ''10.0.0.1'')])]) = Inr None"
    by code_simp
  moreover have "head_pod_phases ready_cluster = [''Running'']" "ping_result ready_cluster = Inr ''ping''"
    by (simp_all add: ready_cluster_def)
  ultimately show ?thesis
    using cluster_is_ready_iff [of 5 ready_cluster "''c''" 60] unfolding construct_head_address_def
    by fastforce
qed

end
