(* ===== verification/DagStore.thy ===== *)
theory DagStore
  imports SqlClient
begin

text \<open>
  The configurations of user defined DAGs: their table (svoe_airflow/db/models.py,
  db/dags_sql_client.py), the yaml files Airflow reads (svoe_airflow/utils.py) and the script that
  keeps the two in step (svoe_airflow/gen_dags.py). The decoding of a configuration into the text of
  a file and the compilation of a file are parameters. The folder of the DAGs is a dictionary from
  paths relative to it to the contents of the file, \<open>None\<close> for a directory.
\<close>

section \<open>The table\<close>

record dag_conf_row =
  dc_owner :: string
  dc_name :: string
  dc_encoded :: string
  dc_error :: "string option"

type_synonym dags_db = "dag_conf_row list"

definition dags_ok :: "dags_db \<Rightarrow> bool" where
  "dags_ok db = distinct (map (\<lambda>r. (dc_owner r, dc_name r)) db)"

definition save_db_config_encoded :: "string \<Rightarrow> string \<Rightarrow> string \<Rightarrow> dags_db \<Rightarrow> dags_db pyres" where
  "save_db_config_encoded owner name enc db =
     insert_rows dags_ok [\<lparr>dc_owner = owner, dc_name = name, dc_encoded = enc, dc_error = None\<rparr>] db"

definition select_all_configs :: "dags_db \<Rightarrow> dag_conf_row list" where
  "select_all_configs db = db"

definition select_configs :: "string \<Rightarrow> dags_db \<Rightarrow> dag_conf_row list" where
  "select_configs owner db = filter (\<lambda>r. dc_owner r = owner) db"

definition delete_configs :: "string \<Rightarrow> dags_db \<Rightarrow> dags_db" where
  "delete_configs owner db = filter (\<lambda>r. dc_owner r \<noteq> owner) db"

text \<open>\<open>first()\<close> of the rows with a name; \<open>None\<close> has no attributes.\<close>

fun report_compilation_error :: "string \<Rightarrow> string \<Rightarrow> dags_db \<Rightarrow> dags_db pyres" where
  "report_compilation_error name err [] = Inl AttributeError"
| "report_compilation_error name err (r # db) =
     (if dc_name r = name then Inr (r\<lparr>dc_error := Some err\<rparr> # db)
      else bindE (report_compilation_error name err db) (\<lambda>db'. Inr (r # db')))"

definition get_compilation_error :: "string \<Rightarrow> dags_db \<Rightarrow> string option pyres" where
  "get_compilation_error name db =
     (case List.find (\<lambda>r. dc_name r = name) db of None \<Rightarrow> Inl AttributeError | Some r \<Rightarrow> Inr (dc_error r))"

section \<open>The files\<close>

type_synonym folder = "(string, string option) dict"

definition DEFAULT_DAG_YAML_SUFFIX :: string where "DEFAULT_DAG_YAML_SUFFIX = ''.yaml''"

definition construct_dag_yaml_path :: "string \<Rightarrow> string \<Rightarrow> string \<Rightarrow> string" where
  "construct_dag_yaml_path dags_folder name suffix = dags_folder @ ''/'' @ name @ suffix"

definition dag_name_from_yaml_path :: "string \<Rightarrow> string \<Rightarrow> string" where
  "dag_name_from_yaml_path path suffix = removesuffix (last (py_split ''/'' path)) suffix"

text \<open>\<open>os.path.join\<close> of a folder and an entry of it, and the entry a path in the folder is.\<close>

definition path_join :: "string \<Rightarrow> string \<Rightarrow> string" where
  "path_join dir file = (if dir = [] \<or> last dir = CHR ''/'' then dir @ file else dir @ ''/'' @ file)"

definition entry_of :: "string \<Rightarrow> string \<Rightarrow> string" where
  "entry_of dir path = dropWhile (\<lambda>c. c = CHR ''/'') (drop (length dir) path)"

definition write_file :: "string \<Rightarrow> string \<Rightarrow> folder \<Rightarrow> folder pyres" where
  "write_file f content fs = (if map_of fs f = Some None then Inl OSError else Inr (dict_put f (Some content) fs))"

definition store_configs_to_yaml_files ::
    "(string \<Rightarrow> string pyres) \<Rightarrow> string \<Rightarrow> string \<Rightarrow> dag_conf_row list \<Rightarrow> folder \<Rightarrow> folder pyres" where
  "store_configs_to_yaml_files decode dags_folder suffix =
     foldE (\<lambda>conf fs. bindE (decode (dc_encoded conf)) (\<lambda>content.
       write_file (entry_of dags_folder (construct_dag_yaml_path dags_folder (dc_name conf) suffix)) content fs))"

text \<open>\<open>to_delete\<close> only holds files, so \<open>os.remove\<close> does not raise.\<close>

definition delete_dag_files :: "string \<Rightarrow> string list \<Rightarrow> folder \<Rightarrow> folder" where
  "delete_dag_files dags_folder = fold (\<lambda>path fs.
     if dict_has fs (entry_of dags_folder path) then AList.delete (entry_of dags_folder path) fs else fs)"

definition files_on_disc :: "string \<Rightarrow> string \<Rightarrow> folder \<Rightarrow> string list" where
  "files_on_disc dags_folder suffix fs =
     filter (\<lambda>path. endswith path suffix)
       (map (\<lambda>p. path_join dags_folder (fst p)) (filter (\<lambda>p. CHR ''/'' \<notin> set (fst p) \<and> snd p \<noteq> None) fs))"

definition diff_configs ::
    "string \<Rightarrow> string \<Rightarrow> dag_conf_row list \<Rightarrow> folder \<Rightarrow> dag_conf_row list \<times> string list" where
  "diff_configs dags_folder suffix confs fs =
     (let names = map (\<lambda>e. construct_dag_yaml_path dags_folder (dc_name e) suffix) confs;
          on_disc = files_on_disc dags_folder suffix fs
      in (map snd (filter (\<lambda>p. fst p \<notin> set on_disc) (zip names confs)),
          filter (\<lambda>f. f \<notin> set names) on_disc))"

definition sync_configs ::
    "(string \<Rightarrow> string pyres) \<Rightarrow> string \<Rightarrow> string \<Rightarrow> dag_conf_row list \<Rightarrow> folder \<Rightarrow> folder pyres" where
  "sync_configs decode dags_folder suffix confs fs =
     (case diff_configs dags_folder suffix confs fs of (to_add, to_delete) \<Rightarrow>
      bindE (if 0 < length to_add then store_configs_to_yaml_files decode dags_folder suffix to_add fs else Inr fs) (\<lambda>fs1.
      Inr (if 0 < length to_delete then delete_dag_files dags_folder to_delete fs1 else fs1)))"

section \<open>The script\<close>

text \<open>\<open>generate\<close> compiles an entry of the folder and returns the trace of an exception. A file the table
  has no row for keeps its trace to itself.\<close>

definition compile_file ::
    "(string option \<Rightarrow> string option) \<Rightarrow> string \<Rightarrow> string \<Rightarrow> string \<times> string option \<Rightarrow> dags_db \<Rightarrow> dags_db" where
  "compile_file generate dags_folder suffix entry db =
     (case generate (snd entry) of
        None \<Rightarrow> db
      | Some trace \<Rightarrow>
          (case report_compilation_error (dag_name_from_yaml_path (path_join dags_folder (fst entry)) suffix) trace db of
             Inl e \<Rightarrow> db
           | Inr db' \<Rightarrow> db'))"

definition gen_dags ::
    "(string \<Rightarrow> string pyres) \<Rightarrow> (string option \<Rightarrow> string option) \<Rightarrow> string \<Rightarrow> string \<Rightarrow> folder \<times> dags_db \<Rightarrow>
     (folder \<times> dags_db) pyres" where
  "gen_dags decode generate dags_folder suffix s =
     (case s of (fs, db) \<Rightarrow>
      bindE (sync_configs decode dags_folder suffix (filter (\<lambda>c. dc_error c = None) (select_all_configs db)) fs) (\<lambda>fs'.
      Inr (fs', fold (compile_file generate dags_folder suffix) (filter (\<lambda>p. endswith (fst p) suffix) fs') db)))"

section \<open>Paths\<close>

lemma dag_name_roundtrip:
  assumes "CHR ''/'' \<notin> set name" "CHR ''/'' \<notin> set suffix"
  shows "dag_name_from_yaml_path (construct_dag_yaml_path dir name suffix) suffix = name"
  using assms last_split_char [of "CHR ''/''" "name @ suffix" dir]
  by (simp add: dag_name_from_yaml_path_def construct_dag_yaml_path_def)

lemma entry_of_path:
  "CHR ''/'' \<notin> set f \<Longrightarrow> entry_of dir (dir @ CHR ''/'' # f) = f"
  by (cases f) (auto simp: entry_of_def)

definition plain_folder :: "string \<Rightarrow> bool" where
  "plain_folder dir \<longleftrightarrow> dir \<noteq> [] \<and> last dir \<noteq> CHR ''/''"

lemma path_join_plain: "plain_folder dir \<Longrightarrow> path_join dir f = dir @ CHR ''/'' # f"
  by (simp add: plain_folder_def path_join_def)

lemma files_on_disc_iff:
  assumes "plain_folder dir" "CHR ''/'' \<notin> set suffix" "dict_wf fs"
  shows "path \<in> set (files_on_disc dir suffix fs) \<longleftrightarrow>
    (\<exists>f content. path = dir @ CHR ''/'' # f \<and> map_of fs f = Some (Some content) \<and> CHR ''/'' \<notin> set f \<and> endswith f suffix)"
proof -
  have "map_of fs f = Some e \<longleftrightarrow> (f, e) \<in> set fs" for f e
    using assms(3) by (simp add: dict_wf_def)
  then show ?thesis
    using assms(1,2) by (force simp: files_on_disc_def path_join_plain endswith_after_sep)
qed


section \<open>What a synchronisation leaves\<close>

text \<open>The yaml files a synchronisation owns.\<close>

definition dag_file :: "string \<Rightarrow> string \<Rightarrow> bool" where
  "dag_file suffix f \<longleftrightarrow> CHR ''/'' \<notin> set f \<and> endswith f suffix"

definition file_of :: "string \<Rightarrow> dag_conf_row \<Rightarrow> string" where
  "file_of suffix c = dc_name c @ suffix"

definition plain_configs :: "string \<Rightarrow> dag_conf_row list \<Rightarrow> folder \<Rightarrow> bool" where
  "plain_configs suffix confs fs \<longleftrightarrow> distinct (map dc_name confs) \<and>
     (\<forall>c\<in>set confs. CHR ''/'' \<notin> set (dc_name c) \<and> map_of fs (file_of suffix c) \<noteq> Some None)"

lemma entry_of_config:
  assumes "CHR ''/'' \<notin> set suffix" "CHR ''/'' \<notin> set (dc_name c)"
  shows "entry_of dir (construct_dag_yaml_path dir (dc_name c) suffix) = file_of suffix c"
  using assms entry_of_path [of "file_of suffix c" dir] by (simp add: construct_dag_yaml_path_def file_of_def)

lemma store_configs_effect:
  assumes "CHR ''/'' \<notin> set suffix"
  shows "plain_configs suffix cs fs \<Longrightarrow> dict_wf fs \<Longrightarrow> \<forall>c\<in>set cs. decode (dc_encoded c) = Inr (content c) \<Longrightarrow>
    \<exists>fs'. store_configs_to_yaml_files decode dir suffix cs fs = Inr fs' \<and> dict_wf fs' \<and>
      (\<forall>c\<in>set cs. map_of fs' (file_of suffix c) = Some (Some (content c))) \<and>
      (\<forall>f. f \<notin> file_of suffix ` set cs \<longrightarrow> map_of fs' f = map_of fs f)"
proof (induction cs arbitrary: fs)
  case (Cons c cs)
  let ?fs = "dict_put (file_of suffix c) (Some (content c)) fs"
  have "dc_name c \<notin> dc_name ` set cs" using Cons.prems(1) by (simp add: plain_configs_def)
  then have new: "file_of suffix d \<noteq> file_of suffix c" if "d \<in> set cs" for d
    using that by (metis append_same_eq file_of_def imageI)
  have "plain_configs suffix cs ?fs" using Cons.prems(1) by (auto simp: plain_configs_def)
  then obtain fs' where fs': "store_configs_to_yaml_files decode dir suffix cs ?fs = Inr fs'" "dict_wf fs'"
    "\<forall>c\<in>set cs. map_of fs' (file_of suffix c) = Some (Some (content c))"
    "\<forall>f. f \<notin> file_of suffix ` set cs \<longrightarrow> map_of fs' f = map_of ?fs f"
    using Cons.IH [of ?fs] Cons.prems(2,3) by auto
  have "file_of suffix c \<notin> file_of suffix ` set cs" using new by (metis imageE)
  with fs'(4) have "map_of fs' (file_of suffix c) = Some (Some (content c))" by simp
  moreover have "store_configs_to_yaml_files decode dir suffix (c # cs) fs = Inr fs'"
    using Cons.prems fs'(1) assms
    by (simp add: store_configs_to_yaml_files_def entry_of_config write_file_def plain_configs_def)
  ultimately show ?case using fs'(2,3,4) by auto
qed (simp add: store_configs_to_yaml_files_def)

lemma delete_dag_files_effect:
  "dict_wf fs \<Longrightarrow> dict_wf (delete_dag_files dir ds fs) \<and>
   map_of (delete_dag_files dir ds fs) f = (if f \<in> entry_of dir ` set ds then None else map_of fs f)"
  by (induction ds arbitrary: fs) (auto simp: delete_dag_files_def dict_has_def)

lemma diff_configs_iff:
  assumes "plain_folder dir" "CHR ''/'' \<notin> set suffix" "dict_wf fs" "plain_configs suffix confs fs"
  shows "diff_configs dir suffix confs fs =
    (filter (\<lambda>c. map_of fs (file_of suffix c) = None) confs,
     filter (\<lambda>p. p \<notin> (\<lambda>c. construct_dag_yaml_path dir (dc_name c) suffix) ` set confs) (files_on_disc dir suffix fs))"
proof -
  have on_disc: "construct_dag_yaml_path dir (dc_name c) suffix \<in> set (files_on_disc dir suffix fs) \<longleftrightarrow>
      map_of fs (file_of suffix c) \<noteq> None" if "c \<in> set confs" for c
    using assms that
    by (auto simp: files_on_disc_iff construct_dag_yaml_path_def plain_configs_def file_of_def endswith_iff)
  have "map snd (filter (\<lambda>p. fst p \<notin> A) (zip (map g xs) xs)) = filter (\<lambda>x. g x \<notin> A) xs"
    for A and g :: "dag_conf_row \<Rightarrow> string" and xs
    by (induction xs) auto
  with on_disc show ?thesis unfolding diff_configs_def Let_def by (auto cong: filter_cong)
qed

text \<open>The files a synchronisation deletes.\<close>

lemma deleted_entries:
  assumes "plain_folder dir" "CHR ''/'' \<notin> set suffix" "dict_wf fs"
  shows "entry_of dir ` set (filter (\<lambda>p. p \<notin> (\<lambda>c. construct_dag_yaml_path dir (dc_name c) suffix) ` set confs)
      (files_on_disc dir suffix fs)) =
    {f. dag_file suffix f \<and> (\<exists>e. map_of fs f = Some (Some e)) \<and> f \<notin> file_of suffix ` set confs}" (is "_ = ?F")
proof -
  let ?full = "\<lambda>f. dir @ CHR ''/'' # f"
  let ?A = "{f. dag_file suffix f \<and> (\<exists>e. map_of fs f = Some (Some e))}"
  have "(\<lambda>c. construct_dag_yaml_path dir (dc_name c) suffix) ` set confs = ?full ` file_of suffix ` set confs"
    by (simp add: construct_dag_yaml_path_def file_of_def image_image)
  moreover have "set (files_on_disc dir suffix fs) = ?full ` ?A"
    using files_on_disc_iff [OF assms] unfolding dag_file_def by blast
  moreover have "inj ?full" by (simp add: inj_on_def)
  ultimately have "set (filter (\<lambda>p. p \<notin> (\<lambda>c. construct_dag_yaml_path dir (dc_name c) suffix) ` set confs)
      (files_on_disc dir suffix fs)) = ?full ` (?A - file_of suffix ` set confs)"
    by (simp only: set_filter image_set_diff) (simp only: set_diff_eq)
  also have "?A - file_of suffix ` set confs = ?F" by auto
  finally have "set (filter (\<lambda>p. p \<notin> (\<lambda>c. construct_dag_yaml_path dir (dc_name c) suffix) ` set confs)
      (files_on_disc dir suffix fs)) = ?full ` ?F" .
  moreover have "entry_of dir ` ?full ` ?F = ?F"
    unfolding image_image by (rule trans [OF image_cong image_ident]) (simp_all add: entry_of_path dag_file_def)
  ultimately show ?thesis by simp
qed

text \<open>A synchronisation of configurations with different names makes their files the yaml files of
  the folder: the file of every configuration is there, with the content it had when it was there before
  and the decoded configuration otherwise, every other yaml file is gone, and nothing else is touched.\<close>

lemma sync_configs_effect:
  assumes "plain_folder dir" "CHR ''/'' \<notin> set suffix" "dict_wf fs" "plain_configs suffix confs fs"
    and "\<forall>c\<in>set confs. decode (dc_encoded c) = Inr (content c)"
  shows "\<exists>fs'. sync_configs decode dir suffix confs fs = Inr fs' \<and> dict_wf fs' \<and>
    (\<forall>c\<in>set confs. map_of fs' (file_of suffix c) =
       (case map_of fs (file_of suffix c) of None \<Rightarrow> Some (Some (content c)) | Some e \<Rightarrow> Some e)) \<and>
    (\<forall>f. f \<notin> file_of suffix ` set confs \<longrightarrow>
       map_of fs' f = (if dag_file suffix f \<and> map_of fs f \<noteq> Some None then None else map_of fs f))"
proof -
  let ?add = "filter (\<lambda>c. map_of fs (file_of suffix c) = None) confs"
  let ?del = "filter (\<lambda>p. p \<notin> (\<lambda>c. construct_dag_yaml_path dir (dc_name c) suffix) ` set confs) (files_on_disc dir suffix fs)"
  have "plain_configs suffix ?add fs"
    using assms(4) by (auto simp: plain_configs_def distinct_map_filter)
  then obtain fs1 where fs1: "store_configs_to_yaml_files decode dir suffix ?add fs = Inr fs1" "dict_wf fs1"
    "\<forall>c\<in>set ?add. map_of fs1 (file_of suffix c) = Some (Some (content c))"
    "\<forall>f. f \<notin> file_of suffix ` set ?add \<longrightarrow> map_of fs1 f = map_of fs f"
    using store_configs_effect [OF assms(2), of ?add fs decode content dir] assms(3,5) by auto
  note del = deleted_entries [OF assms(1-3), of confs]
  have stored: "(if 0 < length ?add then store_configs_to_yaml_files decode dir suffix ?add fs else Inr fs) = Inr fs1"
    using fs1(1) by (auto simp: store_configs_to_yaml_files_def)
  have "(if 0 < length ?del then delete_dag_files dir ?del fs1 else fs1) = delete_dag_files dir ?del fs1"
    by (auto simp: delete_dag_files_def)
  then have sync: "sync_configs decode dir suffix confs fs = Inr (delete_dag_files dir ?del fs1)"
    unfolding sync_configs_def diff_configs_iff [OF assms(1-4)] prod.case stored by simp
  have after: "map_of (delete_dag_files dir ?del fs1) f = (if f \<in> entry_of dir ` set ?del then None else map_of fs1 f)"
    for f using delete_dag_files_effect [OF fs1(2)] by blast
  show ?thesis unfolding sync
  proof (intro exI conjI ballI allI impI)
    fix c assume c: "c \<in> set confs"
    then have kept: "map_of (delete_dag_files dir ?del fs1) (file_of suffix c) = map_of fs1 (file_of suffix c)"
      unfolding after del by simp
    show "map_of (delete_dag_files dir ?del fs1) (file_of suffix c) =
       (case map_of fs (file_of suffix c) of None \<Rightarrow> Some (Some (content c)) | Some e \<Rightarrow> Some e)"
    proof (cases "map_of fs (file_of suffix c)")
      case None
      with c fs1(3) show ?thesis unfolding kept by simp
    next
      case (Some e)
      have "file_of suffix c \<notin> file_of suffix ` set ?add"
      proof
        assume "file_of suffix c \<in> file_of suffix ` set ?add"
        then obtain d where "file_of suffix c = file_of suffix d" "map_of fs (file_of suffix d) = None" by auto
        with Some show False by simp
      qed
      with fs1(4) Some show ?thesis unfolding kept by simp
    qed
  next
    fix f assume "f \<notin> file_of suffix ` set confs"
    then show "map_of (delete_dag_files dir ?del fs1) f =
        (if dag_file suffix f \<and> map_of fs f \<noteq> Some None then None else map_of fs f)"
      using fs1(4) unfolding after del by (cases "map_of fs f"; cases "the (map_of fs f)") auto
  qed (simp_all add: delete_dag_files_effect fs1(2))
qed

section \<open>What the script leaves\<close>

text \<open>Compiling an entry marks the row it belongs to.\<close>

definition mark_row :: "(string option \<Rightarrow> string option) \<Rightarrow> string \<Rightarrow> string \<times> string option \<Rightarrow> dag_conf_row \<Rightarrow> dag_conf_row" where
  "mark_row generate suffix p r =
     (if file_of suffix r = fst p then
        (case generate (snd p) of None \<Rightarrow> r | Some trace \<Rightarrow> r\<lparr>dc_error := Some trace\<rparr>)
      else r)"

lemma report_compilation_error_map:
  "distinct (map dc_name db) \<Longrightarrow> r \<in> set db \<Longrightarrow>
   report_compilation_error (dc_name r) trace db =
   Inr (map (\<lambda>x. if dc_name x = dc_name r then x\<lparr>dc_error := Some trace\<rparr> else x) db)"
proof (induction db)
  case (Cons x db)
  show ?case
  proof (cases "dc_name x = dc_name r")
    case True
    then have "dc_name y \<noteq> dc_name r" if "y \<in> set db" for y
      using Cons.prems(1) that True by (auto simp: image_iff)
    then have "map (\<lambda>x. if dc_name x = dc_name r then x\<lparr>dc_error := Some trace\<rparr> else x) db = db"
      by (intro map_idI) simp
    with True show ?thesis by simp
  next
    case False
    then show ?thesis using Cons by auto
  qed
qed simp

lemma report_compilation_error_absent:
  "name \<notin> dc_name ` set db \<Longrightarrow> report_compilation_error name trace db = Inl AttributeError"
  by (induction db) auto

lemma compile_file_map:
  assumes "plain_folder dir" "distinct (map dc_name db)" "dag_file suffix (fst p)" "CHR ''/'' \<notin> set suffix"
  shows "compile_file generate dir suffix p db = map (mark_row generate suffix p) db"
proof -
  obtain name where name: "fst p = name @ suffix" using assms(3) by (auto simp: dag_file_def endswith_iff)
  have path: "dag_name_from_yaml_path (path_join dir (fst p)) suffix = name"
    using dag_name_roundtrip [of name suffix dir] assms name
    by (simp add: path_join_plain construct_dag_yaml_path_def dag_file_def)
  have mark: "mark_row generate suffix p x =
      (if dc_name x = name then (case generate (snd p) of None \<Rightarrow> x | Some t \<Rightarrow> x\<lparr>dc_error := Some t\<rparr>) else x)" for x
    by (simp add: mark_row_def name file_of_def)
  show ?thesis
  proof (cases "generate (snd p)")
    case None
    then show ?thesis by (simp add: compile_file_def mark map_idI)
  next
    case (Some t)
    show ?thesis
    proof (cases "name \<in> dc_name ` set db")
      case True
      then obtain r where "r \<in> set db" "name = dc_name r" by blast
      with Some path report_compilation_error_map [OF assms(2)] show ?thesis
        by (simp add: compile_file_def mark)
    next
      case False
      then have "dc_name x \<noteq> name" if "x \<in> set db" for x using that by force
      then have "map (mark_row generate suffix p) db = db" by (intro map_idI) (simp add: mark)
      with Some path False show ?thesis by (simp add: compile_file_def report_compilation_error_absent)
    qed
  qed
qed

lemma mark_row_name [simp]: "dc_name (mark_row generate suffix p r) = dc_name r"
  "dc_encoded (mark_row generate suffix p r) = dc_encoded r"
  "dc_owner (mark_row generate suffix p r) = dc_owner r"
  by (simp_all add: mark_row_def split: option.split)

definition marked :: "(string option \<Rightarrow> string option) \<Rightarrow> string \<Rightarrow> folder \<Rightarrow> dag_conf_row \<Rightarrow> dag_conf_row" where
  "marked generate suffix fs r =
     (case map_of fs (file_of suffix r) of
        None \<Rightarrow> r
      | Some e \<Rightarrow> (case generate e of None \<Rightarrow> r | Some trace \<Rightarrow> r\<lparr>dc_error := Some trace\<rparr>))"

lemma compile_files_map:
  assumes "plain_folder dir" "CHR ''/'' \<notin> set suffix"
  shows "distinct (map dc_name db) \<Longrightarrow> \<forall>p\<in>set es. dag_file suffix (fst p) \<Longrightarrow> distinct (map fst es) \<Longrightarrow>
    fold (compile_file generate dir suffix) es db = map (marked generate suffix es) db"
proof (induction es arbitrary: db)
  case (Cons p es)
  let ?db = "map (mark_row generate suffix p) db"
  have "fold (compile_file generate dir suffix) es ?db = map (marked generate suffix es) ?db"
    using Cons by (intro Cons.IH) (simp_all add: comp_def)
  moreover have "marked generate suffix es (mark_row generate suffix p r) = marked generate suffix (p # es) r" for r
  proof -
    have "map_of es (fst p) = None" using Cons.prems(3) by (simp add: map_of_eq_None_iff)
    then show ?thesis
      by (cases p) (auto simp: marked_def mark_row_def file_of_def split: option.split)
  qed
  ultimately show ?case
    using compile_file_map [OF assms(1) Cons.prems(1), of suffix p generate] Cons.prems(2) assms(2) by simp
qed (simp add: marked_def map_idI)

definition live :: "dags_db \<Rightarrow> dag_conf_row list" where
  "live db = filter (\<lambda>c. dc_error c = None) db"

text \<open>The folder holds no yaml file or directory but files of its own level, and the files of the table
  have the content of their configuration.\<close>

definition tidy_folder :: "(string \<Rightarrow> string) \<Rightarrow> string \<Rightarrow> dags_db \<Rightarrow> folder \<Rightarrow> bool" where
  "tidy_folder text suffix db fs \<longleftrightarrow> dict_wf fs \<and> distinct (map dc_name db) \<and>
     (\<forall>c\<in>set db. CHR ''/'' \<notin> set (dc_name c) \<and>
        (map_of fs (file_of suffix c) = None \<or> map_of fs (file_of suffix c) = Some (Some (text (dc_encoded c))))) \<and>
     (\<forall>f e. map_of fs f = Some e \<longrightarrow> endswith f suffix \<longrightarrow> dag_file suffix f \<and> e \<noteq> None)"

lemma gen_dags_effect:
  assumes "plain_folder dir" "CHR ''/'' \<notin> set suffix" "tidy_folder text suffix db fs"
    and "\<forall>c\<in>set db. decode (dc_encoded c) = Inr (text (dc_encoded c))"
  obtains fs' where "gen_dags decode generate dir suffix (fs, db) = Inr (fs', map (marked generate suffix fs') db)"
    "dict_wf fs'"
    "\<And>c. c \<in> set (live db) \<Longrightarrow> map_of fs' (file_of suffix c) = Some (Some (text (dc_encoded c)))"
    "\<And>f. endswith f suffix \<Longrightarrow> f \<notin> file_of suffix ` set (live db) \<Longrightarrow> map_of fs' f = None"
    "\<And>f. \<not> endswith f suffix \<Longrightarrow> map_of fs' f = map_of fs f"
proof -
  have "plain_configs suffix (live db) fs" "\<forall>c\<in>set (live db). decode (dc_encoded c) = Inr (text (dc_encoded c))"
    using assms(3,4) by (auto simp: tidy_folder_def plain_configs_def live_def distinct_map_filter)
  then obtain fs' where fs': "sync_configs decode dir suffix (live db) fs = Inr fs'" "dict_wf fs'"
    "\<forall>c\<in>set (live db). map_of fs' (file_of suffix c) =
       (case map_of fs (file_of suffix c) of None \<Rightarrow> Some (Some (text (dc_encoded c))) | Some e \<Rightarrow> Some e)"
    "\<forall>f. f \<notin> file_of suffix ` set (live db) \<longrightarrow>
       map_of fs' f = (if dag_file suffix f \<and> map_of fs f \<noteq> Some None then None else map_of fs f)"
    using sync_configs_effect [OF assms(1,2), of fs "live db" decode "\<lambda>c. text (dc_encoded c)"] assms(3)
    by (auto simp: tidy_folder_def)
  have owned: "map_of fs' (file_of suffix c) = Some (Some (text (dc_encoded c)))" if "c \<in> set (live db)" for c
    using fs'(3) that assms(3) by (auto simp: tidy_folder_def live_def split: option.splits)
  have gone: "map_of fs' f = None" if "endswith f suffix" "f \<notin> file_of suffix ` set (live db)" for f
    using fs'(4) that assms(3) by (cases "map_of fs f") (auto simp: tidy_folder_def)
  have other: "map_of fs' f = map_of fs f" if "\<not> endswith f suffix" for f
    using fs'(4) that by (auto simp: file_of_def endswith_iff dag_file_def)
  let ?es = "filter (\<lambda>p. endswith (fst p) suffix) fs'"
  have "dag_file suffix (fst p)" if "p \<in> set ?es" for p
  proof -
    have "fst p \<in> file_of suffix ` set (live db)"
    proof (rule ccontr)
      assume "fst p \<notin> file_of suffix ` set (live db)"
      then have "map_of fs' (fst p) = None" using gone that by simp
      then show False using that by (simp add: map_of_eq_None_iff)
    qed
    then show ?thesis using assms(2,3) that by (auto simp: dag_file_def tidy_folder_def live_def file_of_def)
  qed
  then have "fold (compile_file generate dir suffix) ?es db = map (marked generate suffix ?es) db"
    using compile_files_map [OF assms(1,2)] fs'(2) assms(3)
    by (simp add: tidy_folder_def dict_wf_def distinct_map_filter)
  also have "map_of ?es (file_of suffix c) = map_of fs' (file_of suffix c)" for c
    by (induction fs') (auto simp: file_of_def endswith_iff)
  then have "map (marked generate suffix ?es) db = map (marked generate suffix fs') db" by (simp add: marked_def)
  finally have "gen_dags decode generate dir suffix (fs, db) = Inr (fs', map (marked generate suffix fs') db)"
    using fs'(1) by (simp add: gen_dags_def select_all_configs_def live_def)
  then show ?thesis by (rule that [OF _ fs'(2) owned gone other])
qed

definition checked_row :: "(string option \<Rightarrow> string option) \<Rightarrow> (string \<Rightarrow> string) \<Rightarrow> dag_conf_row \<Rightarrow> dag_conf_row" where
  "checked_row generate text c =
     (case dc_error c of
        Some e \<Rightarrow> c
      | None \<Rightarrow> (case generate (Some (text (dc_encoded c))) of None \<Rightarrow> c | Some trace \<Rightarrow> c\<lparr>dc_error := Some trace\<rparr>))"

lemma checked_row_keeps:
  "dc_name (checked_row generate text c) = dc_name c" "dc_encoded (checked_row generate text c) = dc_encoded c"
  by (simp_all add: checked_row_def split: option.split)

lemma dead_file_is_not_live:
  assumes "distinct (map dc_name db)" "c \<in> set db" "dc_error c \<noteq> None"
  shows "file_of suffix c \<notin> file_of suffix ` set (live db)"
  using assms by (auto simp: live_def file_of_def distinct_map inj_on_def)

lemma first_run:
  assumes "plain_folder dir" "CHR ''/'' \<notin> set suffix" "tidy_folder text suffix db fs"
    and "\<forall>c\<in>set db. decode (dc_encoded c) = Inr (text (dc_encoded c))"
  obtains fs1 where "gen_dags decode generate dir suffix (fs, db) = Inr (fs1, map (checked_row generate text) db)"
    "tidy_folder text suffix (map (checked_row generate text) db) fs1"
proof -
  obtain fs1 where fs1: "gen_dags decode generate dir suffix (fs, db) = Inr (fs1, map (marked generate suffix fs1) db)"
    "dict_wf fs1"
    "\<And>c. c \<in> set (live db) \<Longrightarrow> map_of fs1 (file_of suffix c) = Some (Some (text (dc_encoded c)))"
    "\<And>f. endswith f suffix \<Longrightarrow> f \<notin> file_of suffix ` set (live db) \<Longrightarrow> map_of fs1 f = None"
    "\<And>f. \<not> endswith f suffix \<Longrightarrow> map_of fs1 f = map_of fs f"
    by (rule gen_dags_effect [OF assms(1-3) assms(4), of generate]) blast
  let ?mark = "checked_row generate text"
  have names: "distinct (map dc_name db)" using assms(3) by (simp add: tidy_folder_def)
  note dead = dead_file_is_not_live [OF names]
  have mark: "marked generate suffix fs1 c = ?mark c" if "c \<in> set db" for c
  proof (cases "dc_error c")
    case None
    with that fs1(3) [of c] show ?thesis by (simp add: marked_def live_def checked_row_def)
  next
    case (Some e)
    with that dead [of c] fs1(4) [of "file_of suffix c"] show ?thesis
      by (simp add: marked_def checked_row_def file_of_def endswith_iff)
  qed
  then have db1: "map (marked generate suffix fs1) db = map ?mark db" by simp
  let ?db1 = "map ?mark db"
  note keep = checked_row_keeps [of generate "text"]
  have same_file: "file_of suffix (?mark c) = file_of suffix c" for c by (simp add: file_of_def keep)
  have "tidy_folder text suffix ?db1 fs1"
    unfolding tidy_folder_def
  proof (intro conjI ballI allI impI)
    show "distinct (map dc_name ?db1)" using names by (simp add: comp_def keep(1))
  next
    fix c assume "c \<in> set ?db1"
    then obtain d where d: "d \<in> set db" "c = ?mark d" by auto
    show "CHR ''/'' \<notin> set (dc_name c)" using d assms(3) keep(1) [of d] by (simp add: tidy_folder_def)
    show "map_of fs1 (file_of suffix c) = None \<or> map_of fs1 (file_of suffix c) = Some (Some (text (dc_encoded c)))"
    proof (cases "dc_error d")
      case None
      with d fs1(3) [of d] show ?thesis unfolding d(2) same_file keep(2) by (simp add: live_def)
    next
      case (Some e)
      with d dead [of d] fs1(4) [of "file_of suffix d"] show ?thesis
        unfolding d(2) same_file by (simp add: file_of_def endswith_iff)
    qed
  next
    fix f e assume f: "map_of fs1 f = Some e" "endswith f suffix"
    then obtain c where c: "c \<in> set (live db)" "f = file_of suffix c" using fs1(4) [of f] by auto
    then have "CHR ''/'' \<notin> set (dc_name c)" using assms(3) by (auto simp: tidy_folder_def live_def)
    then show "dag_file suffix f" using c(2) f(2) assms(2) by (simp add: dag_file_def file_of_def)
    show "e \<noteq> None" using fs1(3) [OF c(1)] c(2) f(1) by auto
  qed (rule fs1(2))
  then show ?thesis using that fs1(1) unfolding db1 by blast
qed

lemma checked_rows_compile:
  "c \<in> set (live (map (checked_row generate text) db)) \<Longrightarrow> generate (Some (text (dc_encoded c))) = None"
  by (auto simp: live_def checked_row_def split: option.splits)

lemma second_run:
  assumes "plain_folder dir" "CHR ''/'' \<notin> set suffix" "tidy_folder text suffix db fs"
    and "\<forall>c\<in>set db. decode (dc_encoded c) = Inr (text (dc_encoded c))"
    and compiles: "\<forall>c\<in>set (live db). generate (Some (text (dc_encoded c))) = None"
  obtains fs2 where "gen_dags decode generate dir suffix (fs, db) = Inr (fs2, db)"
    "\<And>c. c \<in> set (live db) \<Longrightarrow> map_of fs2 (file_of suffix c) = Some (Some (text (dc_encoded c)))"
    "\<And>f. endswith f suffix \<Longrightarrow> f \<notin> file_of suffix ` set (live db) \<Longrightarrow> map_of fs2 f = None"
proof -
  obtain fs2 where fs2: "gen_dags decode generate dir suffix (fs, db) = Inr (fs2, map (marked generate suffix fs2) db)"
    "\<And>c. c \<in> set (live db) \<Longrightarrow> map_of fs2 (file_of suffix c) = Some (Some (text (dc_encoded c)))"
    "\<And>f. endswith f suffix \<Longrightarrow> f \<notin> file_of suffix ` set (live db) \<Longrightarrow> map_of fs2 f = None"
    by (rule gen_dags_effect [OF assms(1-4), of generate]) blast
  have "marked generate suffix fs2 c = c" if "c \<in> set db" for c
  proof (cases "dc_error c")
    case None
    then have "c \<in> set (live db)" using that by (simp add: live_def)
    from fs2(2) [OF this] compiles this show ?thesis by (simp add: marked_def)
  next
    case (Some e)
    then have "map_of fs2 (file_of suffix c) = None"
      using dead_file_is_not_live [OF _ that] assms(3)
      by (intro fs2(3)) (auto simp: file_of_def endswith_iff tidy_folder_def)
    then show ?thesis by (simp add: marked_def)
  qed
  then have "map (marked generate suffix fs2) db = db" by (rule map_idI)
  then show ?thesis using that fs2 by metis
qed

text \<open>C16. Two runs of the script settle: the first gives every configuration that does not compile its
  error, the second removes its file, so that the yaml files left are those of the configurations without
  an error, each with its content and each compiling; the second changes no row of the table.\<close>

theorem broken_dags_are_removed:
  assumes "plain_folder dir" "CHR ''/'' \<notin> set suffix" "tidy_folder text suffix db fs"
    and "\<forall>c\<in>set db. decode (dc_encoded c) = Inr (text (dc_encoded c))"
  shows "\<exists>fs1 db1 fs2. gen_dags decode generate dir suffix (fs, db) = Inr (fs1, db1) \<and>
    gen_dags decode generate dir suffix (fs1, db1) = Inr (fs2, db1) \<and>
    db1 = map (checked_row generate text) db \<and>
    (\<forall>f. endswith f suffix \<longrightarrow> map_of fs2 f \<noteq> None \<longrightarrow>
       (\<exists>c\<in>set (live db1). f = file_of suffix c \<and> generate (Some (text (dc_encoded c))) = None)) \<and>
    (\<forall>c\<in>set (live db1). map_of fs2 (file_of suffix c) = Some (Some (text (dc_encoded c))))"
proof -
  let ?db1 = "map (checked_row generate text) db"
  obtain fs1 where fs1: "gen_dags decode generate dir suffix (fs, db) = Inr (fs1, ?db1)" "tidy_folder text suffix ?db1 fs1"
    by (rule first_run [OF assms]) blast
  have "\<forall>c\<in>set ?db1. decode (dc_encoded c) = Inr (text (dc_encoded c))"
    using assms(4) by (simp add: checked_row_keeps)
  then obtain fs2 where fs2: "gen_dags decode generate dir suffix (fs1, ?db1) = Inr (fs2, ?db1)"
    "\<And>c. c \<in> set (live ?db1) \<Longrightarrow> map_of fs2 (file_of suffix c) = Some (Some (text (dc_encoded c)))"
    "\<And>f. endswith f suffix \<Longrightarrow> f \<notin> file_of suffix ` set (live ?db1) \<Longrightarrow> map_of fs2 f = None"
    using second_run [OF assms(1,2) fs1(2), of decode generate] checked_rows_compile by metis
  show ?thesis
    using fs1(1) fs2(1) fs2(2,3) checked_rows_compile [of _ generate "text" db] by (intro exI conjI) (blast | metis imageE)+
qed

definition two_dags :: dags_db where
  "two_dags = [\<lparr>dc_owner = ''1'', dc_name = ''a'', dc_encoded = ''good'', dc_error = None\<rparr>,
               \<lparr>dc_owner = ''2'', dc_name = ''b'', dc_encoded = ''bad'', dc_error = None\<rparr>]"

definition refuse_bad :: "string option \<Rightarrow> string option" where
  "refuse_bad e = (if e = Some ''bad'' then Some ''trace'' else None)"

lemma broken_dags_are_removed_witness:
  "\<exists>fs1 db1 fs2. gen_dags Inr refuse_bad ''dags'' ''.yaml'' ([(''c.yaml'', Some ''old'')], two_dags) = Inr (fs1, db1) \<and>
     gen_dags Inr refuse_bad ''dags'' ''.yaml'' (fs1, db1) = Inr (fs2, db1) \<and>
     map dc_error db1 = [None, Some ''trace''] \<and> map_of fs2 ''a.yaml'' = Some (Some ''good'') \<and>
     map_of fs2 ''b.yaml'' = None \<and> map_of fs2 ''c.yaml'' = None"
proof -
  have folder: "plain_folder ''dags''" "CHR ''/'' \<notin> set ''.yaml''" by (simp_all add: plain_folder_def)
  have tidy: "tidy_folder (\<lambda>x. x) ''.yaml'' two_dags [(''c.yaml'', Some ''old'')]"
    by (simp add: tidy_folder_def two_dags_def file_of_def dict_wf_def dag_file_def)
  have decode: "\<forall>c\<in>set two_dags. Inr (dc_encoded c) = Inr (dc_encoded c)" by simp
  have db1: "map (checked_row refuse_bad (\<lambda>x. x)) two_dags =
      [\<lparr>dc_owner = ''1'', dc_name = ''a'', dc_encoded = ''good'', dc_error = None\<rparr>,
       \<lparr>dc_owner = ''2'', dc_name = ''b'', dc_encoded = ''bad'', dc_error = Some ''trace''\<rparr>]" (is "_ = ?db1")
    by (simp add: two_dags_def checked_row_def refuse_bad_def)
  have live: "live ?db1 = [\<lparr>dc_owner = ''1'', dc_name = ''a'', dc_encoded = ''good'', dc_error = None\<rparr>]"
    by (simp add: live_def)
  obtain fs1 fs2 where run: "gen_dags Inr refuse_bad ''dags'' ''.yaml'' ([(''c.yaml'', Some ''old'')], two_dags) = Inr (fs1, ?db1)"
    "gen_dags Inr refuse_bad ''dags'' ''.yaml'' (fs1, ?db1) = Inr (fs2, ?db1)"
    "\<forall>f. endswith f ''.yaml'' \<longrightarrow> map_of fs2 f \<noteq> None \<longrightarrow> (\<exists>c\<in>set (live ?db1). f = file_of ''.yaml'' c)"
    "\<forall>c\<in>set (live ?db1). map_of fs2 (file_of ''.yaml'' c) = Some (Some (dc_encoded c))"
    using broken_dags_are_removed [OF folder tidy, of Inr refuse_bad] unfolding db1 by blast
  have "map_of fs2 ''a.yaml'' = Some (Some ''good'')" using run(4) unfolding live by (simp add: file_of_def)
  moreover have "map_of fs2 ''b.yaml'' = None" "map_of fs2 ''c.yaml'' = None"
    using run(3) [rule_format, of "''b.yaml''"] run(3) [rule_format, of "''c.yaml''"] unfolding live
    by (auto simp: file_of_def endswith_def simp del: not_None_eq)
  ultimately show ?thesis using run(1,2) by (intro exI [of _ fs1] exI [of _ ?db1] exI [of _ fs2]) simp
qed

text \<open>A folder that ends with a slash: the paths listed and the paths constructed differ, and a
  synchronisation writes a file and then deletes it.\<close>

lemma trailing_slash_flaps:
  "sync_configs Inr ''dags/'' ''.yaml'' [\<lparr>dc_owner = ''1'', dc_name = ''a'', dc_encoded = ''x'', dc_error = None\<rparr>]
     [(''a.yaml'', Some ''x'')] = Inr []"
  by code_simp

end
