(* ===== verification/DagRunner.thy ===== *)
theory DagRunner
  imports DagStore "HOL-Library.Sublist"
begin

text \<open>
  svoe_airflow/dag_runner.py and user_dag_conf_to_airflow_dag_conf of utils.py: a user's DAG replaces the
  one stored for him, is registered by Airflow, run and watched. The clock, the answers of Airflow and
  what other processes do to the table between two questions are fields of an environment; S3 calls and
  deletions of DAGs in Airflow are lists of effects in order.
\<close>

section \<open>The configuration of a DAG\<close>

definition user_dag_conf_to_airflow_dag_conf :: "int \<Rightarrow> pydict \<Rightarrow> string option \<Rightarrow> string \<times> pydict" where
  "user_dag_conf_to_airflow_dag_conf now_ts conf owner_id =
     (let conf = dict_put ''default_args''
                   (PDict [(''owner'', PStr ''default''), (''start_date'', PStr ''1992-09-02'')]) conf;
          conf = dict_put ''schedule_interval'' PNone conf;
          conf = dict_put ''catchup'' (PBool False) conf;
          conf = dict_put ''is_paused_upon_creation'' (PBool False) conf;
          conf = dict_put ''max_active_runs'' (PInt 1) conf;
          dag_name = (case owner_id of
             Some o_id \<Rightarrow> ''dag-'' @ o_id @ ''-'' @ show_int now_ts
           | None \<Rightarrow> ''dag-'' @ show_int now_ts)
      in (dag_name, [(dag_name, PDict conf)]))"

section \<open>Running a DAG\<close>

record runner_env =
  name_ts :: int
  elapsed :: "nat \<Rightarrow> int"
  other_processes :: "nat \<Rightarrow> dags_db \<Rightarrow> dags_db"
  dag_found :: "nat \<Rightarrow> bool"
  run_ts :: int
  post_dag_run :: "string \<Rightarrow> string \<Rightarrow> (string \<times> string) pyres"
  encode_conf :: "pydict \<Rightarrow> string"

record runner_state =
  rs_db :: dags_db
  airflow_deletions :: "string list"

definition DAG_RUN_ID_PREFIX :: string where "DAG_RUN_ID_PREFIX = ''dag-run''"

definition REGISTER_TIMEOUT :: int where "REGISTER_TIMEOUT = 30"

text \<open>The exception of Airflow is swallowed, so only the request is kept.\<close>

definition delete_dag_config_and_metadata :: "string \<Rightarrow> string \<Rightarrow> runner_state \<Rightarrow> runner_state" where
  "delete_dag_config_and_metadata user dag_name s =
     s\<lparr>airflow_deletions := airflow_deletions s @ [dag_name], rs_db := delete_configs user (rs_db s)\<rparr>"

text \<open>Waiting for Airflow: the n-th round of the loop. An answer is whether the DAG was found; the loop ends
  with the clock, which a clock that stands still never lets it.\<close>

partial_function (option) wait_registered ::
    "runner_env \<Rightarrow> string \<Rightarrow> string \<Rightarrow> nat \<Rightarrow> runner_state \<Rightarrow> (bool pyres \<times> runner_state) option" where
  "wait_registered env user dag_name n s =
     (if elapsed env n < REGISTER_TIMEOUT then
        (let s = s\<lparr>rs_db := other_processes env n (rs_db s)\<rparr> in
         if dag_found env n then Some (Inr True, s)
         else (case get_compilation_error dag_name (rs_db s) of
             Inl e \<Rightarrow> Some (Inl e, s)
           | Inr (Some trace) \<Rightarrow> Some (Inl ValueError, delete_dag_config_and_metadata user dag_name s)
           | Inr None \<Rightarrow> wait_registered env user dag_name (n + 1) s))
      else Some (Inr False, s))"

definition run_dag ::
    "runner_env \<Rightarrow> string \<Rightarrow> pydict \<Rightarrow> runner_state \<Rightarrow> ((string \<times> string) pyres \<times> runner_state) option" where
  "run_dag env user conf s =
     (let confs = select_configs user (rs_db s) in
      if 1 < length confs then Some (Inl RuntimeError, s)
      else
        (let s = (if confs \<noteq> [] then delete_dag_config_and_metadata user (dc_name (hd confs)) s else s);
             (dag_name, dag_config) = user_dag_conf_to_airflow_dag_conf (name_ts env) conf (Some user)
         in case save_db_config_encoded user dag_name (encode_conf env dag_config) (rs_db s) of
              Inl e \<Rightarrow> Some (Inl e, s)
            | Inr db \<Rightarrow>
                (case wait_registered env user dag_name 0 (s\<lparr>rs_db := db\<rparr>) of
                   None \<Rightarrow> None
                 | Some (Inl e, s) \<Rightarrow> Some (Inl e, s)
                 | Some (Inr False, s) \<Rightarrow> Some (Inl ValueError, s)
                 | Some (Inr True, s) \<Rightarrow>
                     Some (post_dag_run env dag_name
                             (DAG_RUN_ID_PREFIX @ ''-'' @ user @ ''-'' @ show_int (run_ts env)), s))))"

definition get_dag_name_and_run_id_if_needed ::
    "(string \<Rightarrow> string list) \<Rightarrow> string \<Rightarrow> string option \<Rightarrow> string option \<Rightarrow> dags_db \<Rightarrow> (string \<times> string) pyres" where
  "get_dag_name_and_run_id_if_needed dag_runs user dag_name dag_run_id db =
     bindE (case dag_name of
              Some n \<Rightarrow> Inr n
            | None \<Rightarrow> (case select_configs user db of [] \<Rightarrow> Inl RuntimeError | c # cs \<Rightarrow> Inr (dc_name c))) (\<lambda>name.
     bindE (case dag_run_id of
              Some i \<Rightarrow> Inr i
            | None \<Rightarrow> (case filter (\<lambda>i. startswith i DAG_RUN_ID_PREFIX) (dag_runs name) of
                         [] \<Rightarrow> Inl RuntimeError | i # is \<Rightarrow> Inr i)) (\<lambda>i.
     Inr (name, i)))"

section \<open>Watching a DAG\<close>

text \<open>A poll is the run and the task instances Airflow answers, compared as the client compares them. The
  generator is given the polls made so far; it yields a view of each that differs from the one last
  yielded, and ends with the first run in a terminal state.\<close>

datatype 'v dag_update = DagUpdate 'v | DagFinished string

definition dag_terminal :: "string \<Rightarrow> bool" where
  "dag_terminal st \<longleftrightarrow> st \<in> {''success'', ''failed''}"

fun watch_polls ::
    "('r \<Rightarrow> string) \<Rightarrow> ('r \<times> 't \<Rightarrow> 'v pyres) \<Rightarrow> ('r \<times> 't) option \<Rightarrow> ('r \<times> 't) list \<Rightarrow> 'v dag_update list pyres" where
  "watch_polls state_of view prev [] = Inr []"
| "watch_polls state_of view prev (p # ps) =
     bindE (if prev \<noteq> Some p then bindE (view p) (\<lambda>v. Inr [DagUpdate v]) else Inr []) (\<lambda>ys.
     if dag_terminal (state_of (fst p)) then Inr (ys @ [DagFinished (state_of (fst p))])
     else bindE (watch_polls state_of view (if prev \<noteq> Some p then Some p else prev) ps) (\<lambda>zs. Inr (ys @ zs)))"

definition RUN_KEYS :: "string list" where
  "RUN_KEYS = [''state'', ''start_date'', ''end_date'', ''execution_date'', ''dag_id'', ''dag_run_id'']"

definition TASK_KEYS :: "string list" where
  "TASK_KEYS = [''task_id'', ''state'', ''start_date'', ''end_date'', ''execution_date'', ''duration'']"

definition pick_keys :: "string list \<Rightarrow> pydict \<Rightarrow> pydict pyres" where
  "pick_keys ks d = mapE (\<lambda>k. bindE (dict_lookup d k) (\<lambda>v. Inr (k, v))) ks"

definition dag_view :: "pydict \<times> pydict list \<Rightarrow> pydict pyres" where
  "dag_view p =
     bindE (pick_keys RUN_KEYS (fst p)) (\<lambda>res.
     bindE (mapE (pick_keys TASK_KEYS) (snd p)) (\<lambda>tasks.
     Inr (res @ [(''tasks'', PList (map PDict tasks))])))"

section \<open>Watching the log of a task\<close>

text \<open>A poll: the attempts to get the task instance, each with the time since the first and its state when
  it was answered, then the decoded log after a token, with a new token.\<close>

record 'tok log_poll =
  task_attempts :: "(int \<times> string option) list"
  log_after :: "'tok option \<Rightarrow> string \<times> 'tok"

datatype log_update = LogChunk string | NoTask | TaskFinished string

fun retrieve_task :: "int \<Rightarrow> (int \<times> string option) list \<Rightarrow> string option" where
  "retrieve_task timeout [] = None"
| "retrieve_task timeout ((t, a) # as) =
     (if t < timeout then (case a of Some st \<Rightarrow> Some st | None \<Rightarrow> retrieve_task timeout as) else None)"

definition task_terminal :: "string \<Rightarrow> bool" where
  "task_terminal st \<longleftrightarrow> st \<in> {''success'', ''failed'', ''upstream_failed'', ''shutdown''}"

fun watch_log_polls :: "int \<Rightarrow> 'tok option \<Rightarrow> 'tok log_poll list \<Rightarrow> log_update list" where
  "watch_log_polls timeout token [] = []"
| "watch_log_polls timeout token (p # ps) =
     (case retrieve_task timeout (task_attempts p) of
        None \<Rightarrow> [NoTask]
      | Some st \<Rightarrow>
          (case log_after p token of (decoded, new_token) \<Rightarrow>
           let changed = decoded \<noteq> [] \<and> token \<noteq> Some new_token;
               ys = (if changed then [LogChunk decoded] else [])
           in if task_terminal st then ys @ [TaskFinished st]
              else ys @ watch_log_polls timeout (if changed then Some new_token else token) ps))"

section \<open>Preparing the configuration of a user\<close>

datatype s3_call = DeletePrefix string | UploadDir string string

definition REMOTE_CODE_S3_BUCKET :: string where "REMOTE_CODE_S3_BUCKET = ''svoe-remote-code''"

text \<open>\<open>Path(p).name\<close>.\<close>

definition path_name :: "string \<Rightarrow> string" where
  "path_name p = (case rev (filter (\<lambda>c. c \<noteq> [] \<and> c \<noteq> ''.'') (py_split ''/'' p)) of [] \<Rightarrow> [] | c # cs \<Rightarrow> c)"

text \<open>The loop over the tasks; \<open>token i\<close> is the i-th random token. The operator is a string and
  the arguments are a dictionary; anything else raises.\<close>

definition preprocess_args :: "string \<Rightarrow> pyval \<Rightarrow> string \<Rightarrow> pydict \<Rightarrow> (pydict \<times> s3_call list) pyres" where
  "preprocess_args user operator_arg token args =
     (let args = dict_put ''user_id'' (PStr user) args in
      case map_of args ''remote_code_local_path'' of
        None \<Rightarrow> Inr (args, [])
      | Some v \<Rightarrow>
          bindE (py_str_of operator_arg) (\<lambda>operator.
          bindE (py_str_of v) (\<lambda>local_path.
          let s3_path = ''s3://'' @ REMOTE_CODE_S3_BUCKET @ ''/'' @ user @ ''/'' @ operator @ ''/'' @ token @ ''/'' @
                path_name local_path;
              s3_prefix = user @ ''/'' @ operator @ ''/''
          in Inr (dict_put ''_remote_code_remote_path'' (PStr s3_path) args,
                  [DeletePrefix (REMOTE_CODE_S3_BUCKET @ ''/'' @ s3_prefix), UploadDir s3_path local_path]))))"

definition preprocess_task :: "string \<Rightarrow> string \<Rightarrow> pydict \<Rightarrow> (pydict \<times> s3_call list) pyres" where
  "preprocess_task user token spec =
     bindE (dict_lookup spec ''operator'') (\<lambda>operator.
     case map_of spec ''args'' of
       None \<Rightarrow> Inr (spec, [])
     | Some (PDict args) \<Rightarrow>
         bindE (preprocess_args user operator token args) (\<lambda>(args, calls).
         Inr (dict_put ''args'' (PDict args) spec, calls))
     | Some v \<Rightarrow> Inl TypeError)"

fun preprocess_tasks ::
    "string \<Rightarrow> (nat \<Rightarrow> string) \<Rightarrow> nat \<Rightarrow> (string, pydict) dict \<Rightarrow> ((string, pydict) dict \<times> s3_call list) pyres" where
  "preprocess_tasks user token i [] = Inr ([], [])"
| "preprocess_tasks user token i ((task_id, spec) # tasks) =
     bindE (preprocess_task user (token i) spec) (\<lambda>(spec, calls).
     bindE (preprocess_tasks user token (i + 1) tasks) (\<lambda>(tasks, more).
     Inr ((task_id, spec) # tasks, calls @ more)))"

section \<open>One configuration per user\<close>

definition configs_of :: "dags_db \<Rightarrow> (string \<times> string \<times> string) list" where
  "configs_of db = map (\<lambda>r. (dc_owner r, dc_name r, dc_encoded r)) db"

lemma configs_of_delete: "configs_of (delete_configs user db) = filter (\<lambda>c. fst c \<noteq> user) (configs_of db)"
  by (simp add: configs_of_def delete_configs_def filter_map comp_def)

lemma report_compilation_error_configs:
  "report_compilation_error name trace db = Inr db' \<Longrightarrow> configs_of db' = configs_of db"
  by (induction db arbitrary: db') (auto simp: configs_of_def split: if_splits)

lemma compile_file_configs: "configs_of (compile_file generate dir sfx p db) = configs_of db"
  by (auto simp: compile_file_def report_compilation_error_configs split: option.split sum.split)

text \<open>The script is such another process: it changes no configuration.\<close>

lemma gen_dags_keeps_configs:
  "gen_dags decode generate dir sfx (fs, db) = Inr (fs', db') \<Longrightarrow> configs_of db' = configs_of db"
proof -
  have "configs_of (fold (compile_file generate dir sfx) es db) = configs_of db" for es
    by (induction es arbitrary: db) (simp_all add: compile_file_configs)
  then show "gen_dags decode generate dir sfx (fs, db) = Inr (fs', db') \<Longrightarrow> configs_of db' = configs_of db"
    by (auto simp: gen_dags_def)
qed

lemma get_compilation_error_exists:
  "(user, name, enc) \<in> set (configs_of db) \<Longrightarrow> \<exists>e. get_compilation_error name db = Inr e"
  by (force simp: configs_of_def get_compilation_error_def find_None_iff split: option.split)

definition runner_laws :: "runner_env \<Rightarrow> bool" where
  "runner_laws env \<longleftrightarrow> (\<forall>n. int n \<le> elapsed env n) \<and>
     (\<forall>n db. configs_of (other_processes env n db) = configs_of db)"

lemma wait_registered_returns:
  assumes "runner_laws env"
  shows "(user, name, enc) \<in> set (configs_of (rs_db s)) \<Longrightarrow>
    \<exists>r s'. wait_registered env user name n s = Some (r, s') \<and>
      ((r = Inr True \<or> r = Inr False) \<and> configs_of (rs_db s') = configs_of (rs_db s) \<or>
       r = Inl ValueError \<and> configs_of (rs_db s') = filter (\<lambda>c. fst c \<noteq> user) (configs_of (rs_db s)))"
proof (induction "nat (REGISTER_TIMEOUT - int n)" arbitrary: n s rule: less_induct)
  case less
  let ?s = "s\<lparr>rs_db := other_processes env n (rs_db s)\<rparr>"
  have same: "configs_of (rs_db ?s) = configs_of (rs_db s)" using assms by (simp add: runner_laws_def)
  obtain e where e: "get_compilation_error name (rs_db ?s) = Inr e"
    using get_compilation_error_exists less.prems same by metis
  show ?case
  proof (cases "elapsed env n < REGISTER_TIMEOUT \<and> \<not> dag_found env n")
    case False
    then show ?thesis using same by (subst wait_registered.simps) (auto simp: Let_def)
  next
    case True
    show ?thesis
    proof (cases e)
      case None
      have "int n < REGISTER_TIMEOUT" using True assms by (auto simp: runner_laws_def intro: le_less_trans)
      then have "nat (REGISTER_TIMEOUT - int (n + 1)) < nat (REGISTER_TIMEOUT - int n)" by simp
      moreover have "(user, name, enc) \<in> set (configs_of (rs_db ?s))" using less.prems same by simp
      ultimately have "\<exists>r s'. wait_registered env user name (n + 1) ?s = Some (r, s') \<and>
        ((r = Inr True \<or> r = Inr False) \<and> configs_of (rs_db s') = configs_of (rs_db s) \<or>
         r = Inl ValueError \<and> configs_of (rs_db s') = filter (\<lambda>c. fst c \<noteq> user) (configs_of (rs_db s)))"
        using less.hyps [of "n + 1" ?s] unfolding same by blast
      moreover have "wait_registered env user name n s = wait_registered env user name (n + 1) ?s"
        using True e None by (subst wait_registered.simps) (simp add: Let_def)
      ultimately show ?thesis by simp
    next
      case (Some trace)
      then show ?thesis using True e same
        by (subst wait_registered.simps)
          (simp add: Let_def delete_dag_config_and_metadata_def configs_of_delete)
    qed
  qed
qed

text \<open>The configurations by owner.\<close>

abbreviation others :: "string \<Rightarrow> dags_db \<Rightarrow> (string \<times> string \<times> string) list" where
  "others user db \<equiv> filter (\<lambda>c. fst c \<noteq> user) (configs_of db)"

lemma owners_configs: "distinct (map dc_owner db) \<longleftrightarrow> distinct (map fst (configs_of db))"
  by (simp add: configs_of_def comp_def)

lemma configs_of_select: "configs_of (select_configs user db) = filter (\<lambda>c. fst c = user) (configs_of db)"
  by (simp add: configs_of_def select_configs_def filter_map comp_def)

lemma others_without: "select_configs user db = [] \<Longrightarrow> others user db = configs_of db"
  by (auto simp: configs_of_def select_configs_def filter_empty_conv intro!: filter_True)

lemma at_most_one_config: "distinct (map dc_owner db) \<Longrightarrow> length (select_configs user db) \<le> 1"
  by (induction db) (auto simp: select_configs_def filter_empty_conv image_iff)

lemma save_new_config:
  assumes "distinct (map fst (configs_of db))" "user \<notin> fst ` set (configs_of db)"
  shows "\<exists>db'. save_db_config_encoded user name enc db = Inr db' \<and> configs_of db' = configs_of db @ [(user, name, enc)]"
proof -
  have "distinct (map (\<lambda>r. (dc_owner r, dc_name r)) db)"
    using assms(1) by (auto simp: configs_of_def comp_def distinct_map inj_on_def)
  moreover have "(user, name) \<notin> (\<lambda>r. (dc_owner r, dc_name r)) ` set db"
    using assms(2) by (auto simp: configs_of_def image_iff)
  ultimately show ?thesis
    by (simp add: save_db_config_encoded_def insert_rows_def dags_ok_def configs_of_def)
qed


definition demo_env :: runner_env where
  "demo_env = \<lparr>name_ts = 7, elapsed = int, other_processes = (\<lambda>n db. db), dag_found = (\<lambda>n. n = 2), run_ts = 9,
     post_dag_run = (\<lambda>name i. Inr (name, i)), encode_conf = (\<lambda>c. ''enc'')\<rparr>"

definition old_dag :: runner_state where
  "old_dag = \<lparr>rs_db = [\<lparr>dc_owner = ''1'', dc_name = ''dag-1-3'', dc_encoded = ''x'', dc_error = None\<rparr>],
     airflow_deletions = []\<rparr>"


section \<open>What a watcher sees\<close>

text \<open>A list up to its first element with a property, that element included.\<close>

fun until :: "('a \<Rightarrow> bool) \<Rightarrow> 'a list \<Rightarrow> 'a list" where
  "until P [] = []"
| "until P (x # xs) = (if P x then [x] else x # until P xs)"

definition terminal_poll :: "('r \<Rightarrow> string) \<Rightarrow> 'r \<times> 't \<Rightarrow> bool" where
  "terminal_poll state_of p \<longleftrightarrow> dag_terminal (state_of (fst p))"

definition final_update :: "('r \<Rightarrow> string) \<Rightarrow> ('r \<times> 't) list \<Rightarrow> 'v dag_update list" where
  "final_update state_of ps =
     (case List.find (terminal_poll state_of) ps of None \<Rightarrow> [] | Some p \<Rightarrow> [DagFinished (state_of (fst p))])"

lemma remdups_adj_head:
  obtains ys where "remdups_adj (x # xs) = x # ys"
  by (metis hd_remdups_adj list.exhaust_sel list.sel(1) remdups_adj_Nil_iff list.distinct(1))

lemma watch_polls_after:
  "\<forall>p\<in>set ps. view p = Inr (v p) \<Longrightarrow>
   watch_polls state_of view (Some q) ps =
   Inr (map (DagUpdate \<circ> v) (tl (remdups_adj (q # until (terminal_poll state_of) ps))) @ final_update state_of ps)"
proof (induction ps arbitrary: q)
  case (Cons p ps)
  obtain ys where "remdups_adj (p # until (terminal_poll state_of) ps) = p # ys" by (rule remdups_adj_head)
  with Cons.IH [of p] Cons.prems show ?case
    by (auto simp: final_update_def terminal_poll_def [of state_of p])
qed (simp add: final_update_def)

text \<open>Watching a DAG yields exactly one update per change: the views of the polls up to the first
  terminal one with neighbouring repetitions removed, and then, only when there is a terminal poll, the
  message that the run finished with its state.\<close>

theorem watch_yields_changes:
  assumes "\<forall>p\<in>set ps. view p = Inr (v p)"
  shows "watch_polls state_of view None ps =
    Inr (map (DagUpdate \<circ> v) (remdups_adj (until (terminal_poll state_of) ps)) @ final_update state_of ps)"
proof (cases ps)
  case (Cons p qs)
  obtain ys where "remdups_adj (p # until (terminal_poll state_of) qs) = p # ys" by (rule remdups_adj_head)
  with Cons assms watch_polls_after [of qs view v state_of p] show ?thesis
    by (auto simp: final_update_def terminal_poll_def [of state_of p])
qed (simp add: final_update_def)

lemma watch_yields_changes_witness:
  "watch_polls id (\<lambda>p. Inr (snd p)) None [(''running'', 1::int), (''running'', 1), (''running'', 2), (''success'', 2), (''late'', 3)] =
   Inr [DagUpdate 1, DagUpdate 2, DagUpdate 2, DagFinished ''success'']"
  using watch_yields_changes [of "[(''running'', 1::int), (''running'', 1), (''running'', 2), (''success'', 2), (''late'', 3)]"
    "\<lambda>p. Inr (snd p)" snd id]
  by (simp add: terminal_poll_def final_update_def dag_terminal_def)

text \<open>A server of logs: its tokens are positions, its log only grows.\<close>

definition log_text :: "log_update list \<Rightarrow> string" where
  "log_text ys = concat (map (\<lambda>y. case y of LogChunk c \<Rightarrow> c | _ \<Rightarrow> []) ys)"

lemma log_text_simps [simp]:
  "log_text [] = []" "log_text (LogChunk c # ys) = c @ log_text ys"
  "log_text (NoTask # ys) = log_text ys" "log_text (TaskFinished st # ys) = log_text ys"
  "log_text (xs @ ys) = log_text xs @ log_text ys"
  by (simp_all add: log_text_def)

definition log_position :: "nat option \<Rightarrow> nat" where
  "log_position tok = (case tok of None \<Rightarrow> 0 | Some k \<Rightarrow> k)"

definition serves_log :: "int \<Rightarrow> (nat log_poll \<Rightarrow> string) \<Rightarrow> (nat log_poll \<Rightarrow> string) \<Rightarrow> nat log_poll \<Rightarrow> bool" where
  "serves_log timeout st lg p \<longleftrightarrow> retrieve_task timeout (task_attempts p) = Some (st p) \<and>
     (\<forall>tok. log_after p tok = (drop (log_position tok) (lg p), length (lg p)))"

lemma watch_log_from:
  assumes "\<forall>p\<in>set ps. serves_log timeout st lg p"
    and "sorted_wrt (\<lambda>p q. prefix (lg p) (lg q)) ps" "\<forall>p\<in>set ps. log_position tok \<le> length (lg p)" "ps \<noteq> []"
  shows "log_text (watch_log_polls timeout tok ps) =
    drop (log_position tok) (lg (last (until (\<lambda>p. task_terminal (st p)) ps)))"
  using assms
proof (induction ps arbitrary: tok)
  case (Cons p ps)
  let ?k = "log_position tok"
  have poll: "retrieve_task timeout (task_attempts p) = Some (st p)"
    "log_after p tok = (drop ?k (lg p), length (lg p))" using Cons.prems(1) by (simp_all add: serves_log_def)
  define tok' where "tok' = (if drop ?k (lg p) \<noteq> [] \<and> tok \<noteq> Some (length (lg p)) then Some (length (lg p)) else tok)"
  have changed: "drop ?k (lg p) \<noteq> [] \<and> tok \<noteq> Some (length (lg p)) \<longleftrightarrow> drop ?k (lg p) \<noteq> []"
    by (auto simp: log_position_def)
  have k': "log_position tok' = length (lg p)"
    using Cons.prems(3) unfolding tok'_def changed by (auto simp: log_position_def)
  show ?case
  proof (cases "task_terminal (st p) \<or> ps = []")
    case True
    with poll changed show ?thesis by (cases "drop ?k (lg p) = []") (auto simp: Let_def)
  next
    case False
    have longer: "\<forall>q\<in>set ps. length (lg p) \<le> length (lg q)" using Cons.prems(2) by (auto simp: prefix_length_le)
    then have "log_text (watch_log_polls timeout tok' ps) = drop (length (lg p)) (lg (last (until (\<lambda>p. task_terminal (st p)) ps)))"
      using Cons.IH [of tok'] Cons.prems False k' by simp
    moreover have "until (\<lambda>p. task_terminal (st p)) ps \<noteq> []" using False by (cases ps) auto
    moreover have "set (until (\<lambda>p. task_terminal (st p)) ps) \<subseteq> set ps" by (induction ps) auto
    ultimately have rest: "log_text (watch_log_polls timeout tok' ps) =
        drop (length (lg p)) (lg (last (until (\<lambda>p. task_terminal (st p)) (p # ps))))"
      and last: "last (until (\<lambda>p. task_terminal (st p)) (p # ps)) \<in> set ps"
      using False last_in_set [of "until (\<lambda>p. task_terminal (st p)) ps"] by auto
    from last Cons.prems(2) have pre: "prefix (lg p) (lg (last (until (\<lambda>p. task_terminal (st p)) (p # ps))))" by simp
    from pre obtain t where t: "lg (last (until (\<lambda>p. task_terminal (st p)) (p # ps))) = lg p @ t" by (auto simp: prefix_def)
    have "log_text (watch_log_polls timeout tok (p # ps)) = drop ?k (lg p) @ log_text (watch_log_polls timeout tok' ps)"
      using poll False changed by (auto simp: Let_def tok'_def)
    with rest t Cons.prems(3) show ?thesis by simp
  qed
qed simp


definition growing_poll :: "string \<Rightarrow> string \<Rightarrow> nat log_poll" where
  "growing_poll st lg =
     \<lparr>task_attempts = [(0, None), (1, Some st)], log_after = (\<lambda>tok. (drop (log_position tok) lg, length lg))\<rparr>"


section \<open>Uploads of a configuration\<close>

text \<open>Two tasks with the same operator share the prefix that is cleaned up before an upload: the second
  task deletes what the first uploaded.\<close>

lemma second_task_deletes_first_upload:
  assumes "preprocess_args user (PStr operator) t1 a1 = Inr (b1, c1)" "preprocess_args user (PStr operator) t2 a2 = Inr (b2, c2)"
    and "dict_has a1 ''remote_code_local_path''" "dict_has a2 ''remote_code_local_path''"
  shows "\<exists>before path local pre rest. c1 = before @ [UploadDir (''s3://'' @ path) local] \<and>
    c2 = DeletePrefix pre # rest \<and> prefix pre path"
proof -
  have calls: "\<exists>path local pre rest. c = [DeletePrefix (REMOTE_CODE_S3_BUCKET @ ''/'' @ user @ ''/'' @ operator @ ''/''),
      UploadDir (''s3://'' @ (REMOTE_CODE_S3_BUCKET @ ''/'' @ user @ ''/'' @ operator @ ''/'') @ rest) local]"
    if "preprocess_args user (PStr operator) t a = Inr (b, c)" "dict_has a ''remote_code_local_path''" for t a b c
    using that by (auto simp: preprocess_args_def Let_def dict_has_def split: option.splits)
  from calls [OF assms(1,3)] calls [OF assms(2,4)] show ?thesis by force
qed

end
