(* ===== verification/ApiServer.thy ===== *)
theory ApiServer
  imports ClusterManager DagRunner FeaturizerStorage
begin

text \<open>
  apiserver/apiserver.py and the clients of it: client/base_client.py, ray_cluster_manager_client.py,
  dag_runner_client.py and featurizer_client.py. A response of the server is the JSON object its
  model is dumped to, which the client parses into results and errors that may be unset. HTTP, the
  texts of errors, base64 and zip archives are parameters.
\<close>

section \<open>Responses\<close>

record resp =
  resp_result :: pyval
  resp_error :: "string option"

definition resp_json :: "resp \<Rightarrow> pydict" where
  "resp_json r = [(''result'', resp_result r), (''error'', case resp_error r of None \<Rightarrow> PNone | Some e \<Rightarrow> PStr e)]"

definition resp_of :: "(cluster_error \<Rightarrow> string) \<Rightarrow> pyval \<Rightarrow> cluster_error option \<Rightarrow> resp" where
  "resp_of show_error v err = \<lparr>resp_result = v, resp_error = map_option show_error err\<rparr>"

definition opt_val :: "pydict option \<Rightarrow> pyval" where
  "opt_val d = (case d of None \<Rightarrow> PNone | Some x \<Rightarrow> PDict x)"

section \<open>Endpoints\<close>

definition list_clusters_endpoint :: "(cluster_error \<Rightarrow> string) \<Rightarrow> pydict answer \<Rightarrow> resp" where
  "list_clusters_endpoint show_error a = (case list_ray_clusters a of (v, err) \<Rightarrow> resp_of show_error (opt_val v) err)"

definition get_cluster_endpoint :: "(cluster_error \<Rightarrow> string) \<Rightarrow> pydict answer \<Rightarrow> resp" where
  "get_cluster_endpoint show_error a = (case get_ray_cluster a of (v, err) \<Rightarrow> resp_of show_error (opt_val v) err)"

definition delete_cluster_endpoint :: "(cluster_error \<Rightarrow> string) \<Rightarrow> unit answer \<Rightarrow> resp" where
  "delete_cluster_endpoint show_error a = (case delete_ray_cluster a of (b, err) \<Rightarrow> resp_of show_error (PBool b) err)"

definition create_cluster_endpoint ::
    "(cluster_error \<Rightarrow> string) \<Rightarrow> (cluster_config \<Rightarrow> (worker_group \<times> string option) list \<Rightarrow> 'crd pyres) \<Rightarrow>
     ('crd \<Rightarrow> unit answer) \<Rightarrow> cluster_config \<Rightarrow> resp" where
  "create_cluster_endpoint show_error render create config =
     (case create_ray_cluster (ray_cluster_crd render config) create of (b, err) \<Rightarrow> resp_of show_error (PBool b) err)"

definition get_cluster_status_endpoint :: "(cluster_error \<Rightarrow> string) \<Rightarrow> (nat \<Rightarrow> pydict answer) \<Rightarrow> resp option" where
  "get_cluster_status_endpoint show_error calls =
     (case get_ray_cluster_status calls 60 1 of
        None \<Rightarrow> None
      | Some (v, err) \<Rightarrow> Some (resp_of show_error (case v of None \<Rightarrow> PNone | Some x \<Rightarrow> x) err))"

definition upload_feature_definition_endpoint ::
    "('s, 'c) s3_ops \<Rightarrow> (store_error \<Rightarrow> string) \<Rightarrow> string \<Rightarrow> string \<Rightarrow> string \<Rightarrow> string \<Rightarrow> pyval list option \<Rightarrow>
     (string \<times> 'c) list \<Rightarrow> 's \<times> catalog_db \<Rightarrow> resp \<times> 's \<times> catalog_db" where
  "upload_feature_definition_endpoint ops show_error owner grp defn version tags files st =
     (let tags = (case tags of None \<Rightarrow> PNone | Some ts \<Rightarrow> if length ts = 0 then PNone else PList ts)
      in case store_feature_def ops owner grp defn version tags files st of
           ((b, err), st') \<Rightarrow> (\<lparr>resp_result = PBool b, resp_error = map_option show_error err\<rparr>, st'))"

text \<open>The files of a definition are answered as bytes, an error as an object with another key than the
  error of the other endpoints.\<close>

datatype 'z body = Json pyval | Bytes 'z

definition get_feature_definition_files_endpoint ::
    "('s, 'c) s3_ops \<Rightarrow> (store_error \<Rightarrow> string) \<Rightarrow> ((string \<times> 'c) list \<Rightarrow> 'z) \<Rightarrow> string \<Rightarrow> string \<Rightarrow> string \<Rightarrow> string \<Rightarrow>
     's \<times> catalog_db \<Rightarrow> 'z body" where
  "get_feature_definition_files_endpoint ops show_error zipped owner grp defn version st =
     (case get_feature_def_files_zipped ops owner grp defn version st of
        Inr files \<Rightarrow> Bytes (zipped files)
      | Inl e \<Rightarrow> Json (PDict [(''res'', PNone), (''err'', PStr (show_error e))]))"

definition run_dag_endpoint ::
    "(string \<Rightarrow> pydict pyres) \<Rightarrow> (py_error \<Rightarrow> string) \<Rightarrow> runner_env \<Rightarrow> string \<Rightarrow> string option \<Rightarrow> runner_state \<Rightarrow>
     (resp \<times> runner_state) option" where
  "run_dag_endpoint decode show_error env user encoded s =
     (case (case encoded of None \<Rightarrow> Inr [] | Some c \<Rightarrow> decode c) of
        Inl e \<Rightarrow> Some (\<lparr>resp_result = PNone,
          resp_error = Some (''Unable to decode base64 dag config: '' @ show_error e)\<rparr>, s)
      | Inr conf \<Rightarrow>
          (case run_dag env user conf s of
             None \<Rightarrow> None
           | Some (Inl e, s') \<Rightarrow> Some (\<lparr>resp_result = PNone, resp_error = Some (show_error e)\<rparr>, s')
           | Some (Inr ids, s') \<Rightarrow> Some (\<lparr>resp_result = PBool True, resp_error = None\<rparr>, s')))"

section \<open>Clients\<close>

text \<open>\<open>Resp.from_dict\<close>, where a key that is missing leaves the attribute unset, which is not \<open>None\<close>. The
  result handed on is \<open>None\<close> when there is an error.\<close>

definition parse_and_log_error :: "pydict \<Rightarrow> pyval option" where
  "parse_and_log_error d =
     (case map_of d ''error'' of Some PNone \<Rightarrow> map_of d ''result'' | _ \<Rightarrow> Some PNone)"

text \<open>An unset result is false.\<close>

definition client_bool :: "pyval option \<Rightarrow> bool" where
  "client_bool v = (case v of None \<Rightarrow> False | Some x \<Rightarrow> truthy x)"

definition client_create_ray_cluster :: "pydict \<Rightarrow> bool" where
  "client_create_ray_cluster body = client_bool (parse_and_log_error body)"

definition client_delete_ray_cluster :: "pydict \<Rightarrow> bool" where
  "client_delete_ray_cluster body = client_bool (parse_and_log_error body)"

definition client_run_dag :: "pydict \<Rightarrow> bool" where
  "client_run_dag body = client_bool (parse_and_log_error body)"

text \<open>Waiting for a cluster: \<open>statuses n\<close> is the n-th status or the exception of asking for it.\<close>

definition serves_ip :: "pyval \<Rightarrow> bool pyres" where
  "serves_ip status =
     (if \<not> truthy status then Inr False
      else bindE (pv_get status ''head'') (\<lambda>h.
        if \<not> truthy h then Inr False else bindE (pv_get h ''serviceIP'') (\<lambda>ip. Inr (truthy ip))))"

partial_function (option) client_wait ::
    "(nat \<Rightarrow> pyval pyres) \<Rightarrow> int \<Rightarrow> nat \<Rightarrow> int \<Rightarrow> pyval \<Rightarrow> bool pyres option" where
  "client_wait statuses delay n timeout seen =
     (if timeout > 0 then
        (case statuses n of
           Inl e \<Rightarrow> client_wait statuses delay (n + 1) (timeout - delay) seen
         | Inr status \<Rightarrow>
             (case serves_ip status of
                Inl e \<Rightarrow> client_wait statuses delay (n + 1) (timeout - delay) status
              | Inr ready \<Rightarrow>
                  if ready then Some (Inr True) else client_wait statuses delay (n + 1) timeout status))
      else Some (if truthy seen then bindE (pv_get seen ''state'') (\<lambda>v. Inr False) else Inr False))"

definition wait_until_ray_cluster_running :: "(nat \<Rightarrow> pyval pyres) \<Rightarrow> int \<Rightarrow> int \<Rightarrow> bool pyres option" where
  "wait_until_ray_cluster_running statuses timeout delay = client_wait statuses delay 0 timeout PNone"

text \<open>Loading a definition: anything that is no object with an error is taken for an archive.\<close>

definition load_feature_definition ::
    "('z body \<Rightarrow> 'z pyres) \<Rightarrow> 'z body \<Rightarrow> string \<Rightarrow> (string \<times> 'z) option pyres" where
  "load_feature_definition unzip resp_body extract_path =
     (case (case resp_body of Json v \<Rightarrow> bindE (pv_get v ''err'') (\<lambda>e. Inr ()) | Bytes z \<Rightarrow> Inl ValueError) of
        Inr u \<Rightarrow> Inr None
      | Inl e \<Rightarrow> bindE (unzip resp_body) (\<lambda>z. Inr (Some (extract_path, z))))"

section \<open>Waiting without a timeout\<close>

definition answers_ready :: "(nat \<Rightarrow> pyval pyres) \<Rightarrow> nat \<Rightarrow> bool" where
  "answers_ready statuses i \<longleftrightarrow> (case statuses i of Inl e \<Rightarrow> False | Inr v \<Rightarrow> serves_ip v = Inr True)"

definition answer_fails :: "(nat \<Rightarrow> pyval pyres) \<Rightarrow> nat \<Rightarrow> bool" where
  "answer_fails statuses i \<longleftrightarrow> (case statuses i of Inl e \<Rightarrow> True | Inr v \<Rightarrow> \<exists>e. serves_ip v = Inl e)"

definition failures :: "(nat \<Rightarrow> pyval pyres) \<Rightarrow> nat \<Rightarrow> nat \<Rightarrow> nat" where
  "failures statuses n m = length (filter (answer_fails statuses) [n..<m])"

lemma failures_step: "n < m \<Longrightarrow> failures statuses n m = of_bool (answer_fails statuses n) + failures statuses (n + 1) m"
  by (simp add: failures_def upt_conv_Cons)

lemma attempts_none: "0 < delay \<Longrightarrow> timeout \<le> 0 \<Longrightarrow> attempts timeout delay = 0"
proof -
  assume "0 < delay" "timeout \<le> 0"
  then have "(timeout + delay - 1) div delay \<le> (delay - 1) div delay" by (intro zdiv_mono1) simp_all
  with \<open>0 < delay\<close> show ?thesis by (simp add: attempts_def)
qed

lemma client_wait_returns:
  assumes "0 < delay"
  shows "n \<le> m \<Longrightarrow> answers_ready statuses m \<or> attempts timeout delay \<le> failures statuses n m \<Longrightarrow>
    \<exists>r. client_wait statuses delay n timeout seen = Some r"
proof (induction "m - n" arbitrary: n timeout seen)
  case 0
  then have "n = m" by simp
  show ?case
  proof (cases "0 < timeout")
    case True
    then have "answers_ready statuses n"
      using 0(3) \<open>n = m\<close> attempts_step [OF assms True] by (auto simp: failures_def)
    then show ?thesis using True
      by (subst client_wait.simps) (auto simp: answers_ready_def split: sum.splits)
  qed (subst client_wait.simps, simp)
next
  case (Suc k)
  then have k: "k = m - (n + 1)" "n + 1 \<le> m" "n < m" by simp_all
  show ?case
  proof (cases "0 < timeout")
    case True
    have "answers_ready statuses m \<or> attempts (timeout - delay) delay \<le> failures statuses (n + 1) m"
      if "answer_fails statuses n"
      using Suc.prems(2) attempts_step [OF assms True] failures_step [OF k(3)] that by auto
    then have fails: "\<exists>r. client_wait statuses delay (n + 1) (timeout - delay) l = Some r" if "answer_fails statuses n" for l
      using Suc.hyps(1) [OF k(1,2)] that by blast
    have "answers_ready statuses m \<or> attempts timeout delay \<le> failures statuses (n + 1) m" if "\<not> answer_fails statuses n"
      using Suc.prems(2) failures_step [OF k(3)] that by auto
    then have waits: "\<exists>r. client_wait statuses delay (n + 1) timeout l = Some r" if "\<not> answer_fails statuses n" for l
      using Suc.hyps(1) [OF k(1,2)] that by blast
    from True fails waits show ?thesis
      by (subst client_wait.simps) (auto simp: answer_fails_def split: sum.split)
  qed (subst client_wait.simps, simp)
qed

abbreviation ends_by :: "(nat \<Rightarrow> pyval pyres) \<Rightarrow> int \<Rightarrow> nat \<Rightarrow> int \<Rightarrow> bool" where
  "ends_by statuses delay n timeout \<equiv>
     \<exists>m\<ge>n. answers_ready statuses m \<or> attempts timeout delay \<le> failures statuses n m"

lemma ends_by_step:
  assumes "0 < delay" "0 < timeout"
    and "ends_by statuses delay (n + 1) (if answer_fails statuses n then timeout - delay else timeout)"
  shows "ends_by statuses delay n timeout"
proof -
  let ?t = "if answer_fails statuses n then timeout - delay else timeout"
  obtain m where m: "n + 1 \<le> m" "answers_ready statuses m \<or> attempts ?t delay \<le> failures statuses (n + 1) m"
    using assms(3) by blast
  have "attempts timeout delay = of_bool (answer_fails statuses n) + attempts ?t delay"
    using attempts_step [OF assms(1,2)] by simp
  with m failures_step [of n m statuses] show ?thesis by (intro exI [of _ m]) auto
qed

lemma client_wait_returned:
  assumes "client_wait statuses delay n timeout seen = Some r"
  shows "0 < delay \<longrightarrow> ends_by statuses delay n timeout"
  using assms
proof (rule client_wait.raw_induct [rotated,
    where P = "\<lambda>statuses delay n timeout seen r. 0 < delay \<longrightarrow> ends_by statuses delay n timeout"])
  fix again statuses delay n timeout seen and r :: "bool pyres"
  assume IH: "\<And>statuses delay n timeout seen r. again statuses delay n timeout seen = Some r \<Longrightarrow>
      0 < delay \<longrightarrow> ends_by statuses delay n timeout"
    and step: "(if 0 < timeout
      then case statuses n of
        Inl e \<Rightarrow> again statuses delay (n + 1) (timeout - delay) seen
      | Inr status \<Rightarrow> (case serves_ip status of
            Inl e \<Rightarrow> again statuses delay (n + 1) (timeout - delay) status
          | Inr ready \<Rightarrow> if ready then Some (Inr True) else again statuses delay (n + 1) timeout status)
      else Some (if truthy seen then bindE (pv_get seen ''state'') (\<lambda>v. Inr False) else Inr False)) = Some r"
  show "0 < delay \<longrightarrow> ends_by statuses delay n timeout"
  proof (cases "0 < delay \<and> 0 < timeout")
    case False
    then show ?thesis using attempts_none [of delay timeout] by auto
  next
    case True
    show ?thesis
    proof (cases "answers_ready statuses n")
      case False
      have "\<exists>s. again statuses delay (n + 1) (if answer_fails statuses n then timeout - delay else timeout) s = Some r"
        using step True False by (auto simp: answer_fails_def answers_ready_def split: sum.splits if_splits)
      then show ?thesis using IH ends_by_step True by blast
    qed auto
  qed
qed

text \<open>C22. Waiting for a cluster through the client returns exactly when at some point a status has the
  address of the head, or failing answers alone have used up the timeout. Answers without a status are no
  failures and take nothing off the timeout.\<close>

theorem client_wait_ends_iff:
  assumes "0 < delay"
  shows "(\<exists>r. wait_until_ray_cluster_running statuses timeout delay = Some r) \<longleftrightarrow>
    (\<exists>n. answers_ready statuses n \<or> attempts timeout delay \<le> length (filter (answer_fails statuses) [0..<n]))"
  unfolding wait_until_ray_cluster_running_def failures_def [symmetric]
proof
  assume "\<exists>r. client_wait statuses delay 0 timeout PNone = Some r"
  with client_wait_returned assms have "ends_by statuses delay 0 timeout" by metis
  then show "\<exists>n. answers_ready statuses n \<or> attempts timeout delay \<le> failures statuses 0 n" by auto
next
  assume "\<exists>n. answers_ready statuses n \<or> attempts timeout delay \<le> failures statuses 0 n"
  then obtain n where "answers_ready statuses n \<or> attempts timeout delay \<le> failures statuses 0 n" ..
  from client_wait_returns [OF assms le0 this] show "\<exists>r. client_wait statuses delay 0 timeout PNone = Some r" .
qed

lemma client_wait_ends_iff_witness:
  "\<not> (\<exists>r. wait_until_ray_cluster_running (\<lambda>n. Inr PNone) 60 1 = Some r)"
proof -
  have "\<not> answer_fails (\<lambda>n. Inr PNone) n" "\<not> answers_ready (\<lambda>n. Inr PNone) n" for n
    by (simp_all add: answer_fails_def answers_ready_def serves_ip_def)
  moreover have "attempts 60 1 = 60" by (simp add: attempts_def)
  ultimately show ?thesis using client_wait_ends_iff [of 1 "\<lambda>n. Inr PNone" 60] by simp
qed

section \<open>What the client is told\<close>

lemma client_reads_response:
  "parse_and_log_error (resp_json (resp_of show_error v err)) = Some (if err = None then v else PNone)"
  by (cases err) (simp_all add: parse_and_log_error_def resp_json_def resp_of_def)

lemma get_cluster_at_client:
  "parse_and_log_error (resp_json (get_cluster_endpoint show_error a)) =
     Some (case a of Answer r \<Rightarrow> PDict r | ApiException code \<Rightarrow> PNone)"
  by (cases a) (simp_all add: get_cluster_endpoint_def get_ray_cluster_def client_reads_response opt_val_def)

lemma list_clusters_at_client:
  "parse_and_log_error (resp_json (list_clusters_endpoint show_error a)) =
     Some (case a of Answer r \<Rightarrow> if dict_has r ''items'' then PDict r else PNone | ApiException code \<Rightarrow> PNone)"
  by (cases a) (simp_all add: list_clusters_endpoint_def list_ray_clusters_def client_reads_response opt_val_def)

lemma delete_cluster_at_client:
  "client_delete_ray_cluster (resp_json (delete_cluster_endpoint show_error d)) = (d = Answer ())"
  by (cases d) (simp_all add: client_delete_ray_cluster_def delete_cluster_endpoint_def delete_ray_cluster_def
      client_reads_response client_bool_def)

lemma create_cluster_at_client:
  "client_create_ray_cluster (resp_json (create_cluster_endpoint show_error render create config)) =
     (\<exists>crd. ray_cluster_crd render config = Inr crd \<and> create crd = Answer ())"
proof (cases "ray_cluster_crd render config")
  case (Inr crd)
  then show ?thesis
    by (cases "create crd") (simp_all add: client_create_ray_cluster_def create_cluster_endpoint_def
        create_ray_cluster_def client_reads_response client_bool_def)
qed (simp add: client_create_ray_cluster_def create_cluster_endpoint_def create_ray_cluster_def
    client_reads_response client_bool_def)

text \<open>The client of the cluster manager sees what the API answered: a cluster is listed or found
  exactly when the API returned it, and creating and deleting one is true exactly when the API accepted
  it, whatever the texts of the errors.\<close>

theorem client_sees_the_api:
  "parse_and_log_error (resp_json (get_cluster_endpoint show_error a)) =
     Some (case a of Answer r \<Rightarrow> PDict r | ApiException code \<Rightarrow> PNone) \<and>
   parse_and_log_error (resp_json (list_clusters_endpoint show_error a)) =
     Some (case a of Answer r \<Rightarrow> if dict_has r ''items'' then PDict r else PNone | ApiException code \<Rightarrow> PNone) \<and>
   client_delete_ray_cluster (resp_json (delete_cluster_endpoint show_error d)) = (d = Answer ()) \<and>
   client_create_ray_cluster (resp_json (create_cluster_endpoint show_error render create config)) =
     (\<exists>crd. ray_cluster_crd render config = Inr crd \<and> create crd = Answer ())"
  by (intro conjI get_cluster_at_client list_clusters_at_client delete_cluster_at_client create_cluster_at_client)

text \<open>Running a DAG through the client is true exactly when the runner returned without an exception.\<close>

lemma run_dag_at_client:
  assumes "run_dag_endpoint decode show_error env user (Some encoded) s = Some (r, s')"
  shows "client_run_dag (resp_json r) \<longleftrightarrow>
    (\<exists>conf ids. decode encoded = Inr conf \<and> run_dag env user conf s = Some (Inr ids, s'))"
  using assms
  by (auto simp: run_dag_endpoint_def client_run_dag_def parse_and_log_error_def resp_json_def client_bool_def
      split: sum.splits option.splits prod.splits)

text \<open>A definition the server has no files of is no definition for the client either.\<close>

lemma missing_definition_at_client:
  assumes "get_feature_def_files_zipped ops owner grp defn version st = Inl e"
  shows "load_feature_definition unzip
    (get_feature_definition_files_endpoint ops show_error zipped owner grp defn version st) path = Inr None"
  by (simp add: assms get_feature_definition_files_endpoint_def load_feature_definition_def dict_lookup_def)

end
