(* ===== verification/ClusterOperators.thy ===== *)
theory ClusterOperators
  imports ClusterManager
begin

text \<open>
  svoe_airflow/operators: the arguments that name a cluster (require_cluster_mixin.py), the hook that
  finds or creates it (hooks/ray_hook.py), the operator that does so for a DAG (cluster_operator.py) and
  the arguments of the featurizer's operator (featurizer_operator.py). The variables of Airflow are a
  dictionary; parsing a cluster configuration, the API and Ray are parameters. Users, names and
  operations are strings.
\<close>

section \<open>Arguments\<close>

definition arg :: "pydict \<Rightarrow> string \<Rightarrow> pyval option" where
  "arg args k = (case map_of args k of None \<Rightarrow> None | Some v \<Rightarrow> if v = PNone then None else Some v)"

definition parse_cluster_args ::
    "(pyval \<Rightarrow> cluster_config pyres) \<Rightarrow> pydict \<Rightarrow> (cluster_config option \<times> string \<times> pyval option) pyres" where
  "parse_cluster_args parse args =
     bindE (case arg args ''cluster_config'' of
              None \<Rightarrow> Inr None
            | Some raw \<Rightarrow> bindE (parse raw) (\<lambda>c. Inr (Some c))) (\<lambda>config.
     bindE (case config of
              Some c \<Rightarrow> Inr (cluster_name c)
            | None \<Rightarrow> (case arg args ''cluster_name'' of None \<Rightarrow> Inl ValueError | Some v \<Rightarrow> py_str_of v)) (\<lambda>user_defined.
     bindE (bindE (dict_lookup args ''user_id'') py_str_of) (\<lambda>user.
     let name = ''user-'' @ user @ ''-'' @ user_defined
     in Inr (map_option (cluster_name_update (\<lambda>_. name)) config, name, arg args ''operation''))))"

definition ray_head_addr_variable_key :: "string \<Rightarrow> string" where
  "ray_head_addr_variable_key name = ''ray_head_addr_'' @ name"

type_synonym variables = "(string, string) dict"

definition get_cluster_address :: "(pyval \<Rightarrow> cluster_config pyres) \<Rightarrow> pydict \<Rightarrow> variables \<Rightarrow> string option pyres" where
  "get_cluster_address parse args vars =
     bindE (parse_cluster_args parse args) (\<lambda>(config, name, operation).
     Inr (map_of vars (ray_head_addr_variable_key name)))"

section \<open>The hook\<close>

record 'crd hook_env =
  got_cluster :: "pydict answer"
  template :: "cluster_config \<Rightarrow> (worker_group \<times> string option) list \<Rightarrow> 'crd pyres"
  created_cluster :: "'crd \<Rightarrow> unit answer"
  cluster_calls :: cluster_env
  deleted_cluster :: "unit answer"

definition READY_DELAY :: int where "READY_DELAY = 5"

text \<open>Finding or creating the cluster decides how long to wait for it.\<close>

definition provision :: "'crd hook_env \<Rightarrow> cluster_config option \<Rightarrow> int pyres" where
  "provision env config =
     (let cluster = fst (get_ray_cluster (got_cluster env)) in
      case config of
        Some c \<Rightarrow>
          (if cluster = None then
             (if \<not> fst (create_ray_cluster (ray_cluster_crd (template env) c) (created_cluster env)) then Inl ValueError
              else Inr 60)
           else Inr 30)
      | None \<Rightarrow> if cluster = None then Inl ValueError else Inr 30)"

definition connect_or_create_cluster ::
    "'crd hook_env \<Rightarrow> cluster_config option \<Rightarrow> string \<Rightarrow> string pyres option" where
  "connect_or_create_cluster env config name =
     (case provision env config of
        Inl e \<Rightarrow> Some (Inl e)
      | Inr t \<Rightarrow>
          (case wait_until_ray_cluster_ready (cluster_calls env) name t READY_DELAY of
             None \<Rightarrow> None
           | Some r \<Rightarrow> Some (bindE r (\<lambda>(addr, err). case addr of None \<Rightarrow> Inl ValueError | Some a \<Rightarrow> Inr a))))"

definition delete_cluster :: "'crd hook_env \<Rightarrow> unit pyres" where
  "delete_cluster env = (if \<not> fst (delete_ray_cluster (deleted_cluster env)) then Inl ValueError else Inr ())"

section \<open>The operators\<close>

record cluster_operator =
  co_config :: "cluster_config option"
  co_name :: string
  co_operation :: pyval

definition init_cluster_operator :: "(pyval \<Rightarrow> cluster_config pyres) \<Rightarrow> pydict \<Rightarrow> cluster_operator pyres" where
  "init_cluster_operator parse args =
     bindE (parse_cluster_args parse args) (\<lambda>(config, name, operation).
     case operation of
       None \<Rightarrow> Inl ValueError
     | Some v \<Rightarrow> Inr \<lparr>co_config = config, co_name = name, co_operation = v\<rparr>)"

definition execute_cluster_operator ::
    "'crd hook_env \<Rightarrow> cluster_operator \<Rightarrow> variables \<Rightarrow> variables pyres option" where
  "execute_cluster_operator env op vars =
     (let key = ray_head_addr_variable_key (co_name op) in
      if py_eq (co_operation op) (PStr ''create'') then
        (case connect_or_create_cluster env (co_config op) (co_name op) of
           None \<Rightarrow> None
         | Some r \<Rightarrow> Some (bindE r (\<lambda>addr. Inr (dict_put key addr vars))))
      else if py_eq (co_operation op) (PStr ''delete'') then
        Some (bindE (delete_cluster env) (\<lambda>u. Inr (AList.delete key vars)))
      else Some (Inl ValueError))"

text \<open>The featurizer's operator: what its run gets.\<close>

definition init_featurizer_operator ::
    "(pyval \<Rightarrow> cluster_config pyres) \<Rightarrow> (pyval \<Rightarrow> 'f pyres) \<Rightarrow> pydict \<Rightarrow> 'f pyres" where
  "init_featurizer_operator parse parse_featurizer args =
     bindE (parse_cluster_args parse args) (\<lambda>_.
     case arg args ''featurizer_config'' of None \<Rightarrow> Inl ValueError | Some raw \<Rightarrow> parse_featurizer raw)"

definition execute_featurizer_operator ::
    "(pyval \<Rightarrow> cluster_config pyres) \<Rightarrow> pydict \<Rightarrow> 'f \<Rightarrow> variables \<Rightarrow> ('f \<times> string \<times> pyval) pyres" where
  "execute_featurizer_operator parse args config vars =
     bindE (get_cluster_address parse args vars) (\<lambda>addr.
     case addr of
       None \<Rightarrow> Inl ValueError
     | Some a \<Rightarrow> Inr (config, a, case arg args ''parallelism'' of None \<Rightarrow> PInt 1 | Some p \<Rightarrow> p))"

section \<open>Clusters of a DAG\<close>

text \<open>Creating a cluster always returns, and an address is one of this machine, whatever the cluster.\<close>

lemma create_returns: "\<exists>r. connect_or_create_cluster env config name = Some r"
proof (cases "provision env config")
  case (Inr t)
  have "0 < READY_DELAY" by (simp add: READY_DELAY_def)
  from wait_returns [OF this] obtain r where "wait_until_ray_cluster_ready (cluster_calls env) name t READY_DELAY = Some r"
    by blast
  with Inr show ?thesis by (simp add: connect_or_create_cluster_def)
qed (simp add: connect_or_create_cluster_def)

lemma variable_key_inj: "ray_head_addr_variable_key a = ray_head_addr_variable_key b \<longleftrightarrow> a = b"
  by (simp add: ray_head_addr_variable_key_def)

lemma ready_address:
  "wait_until_ray_cluster_ready env name timeout delay = Some (Inr (Some a, err)) \<Longrightarrow> a = ''ray://127.0.0.1:10001''"
  by (auto simp: wait_until_ray_cluster_ready_def construct_head_address_def
      split: option.splits prod.splits list.splits if_splits sum.splits)

lemma created_address:
  "connect_or_create_cluster env config name = Some (Inr a) \<Longrightarrow> a = ''ray://127.0.0.1:10001''"
  by (auto simp: connect_or_create_cluster_def dest: ready_address split: option.splits sum.splits prod.splits)

text \<open>A task that creates a cluster always returns. When it succeeds, every task of the DAG whose
  arguments name the same cluster of the same user gets the address, and after a task that deletes it
  none does; tasks of other clusters see what they saw before.\<close>

theorem cluster_of_a_dag:
  assumes "init_cluster_operator parse args = Inr op" "parse_cluster_args parse args2 = Inr (config2, name2, operation2)"
  shows "\<exists>r. execute_cluster_operator env op vars = Some r \<and>
    (\<forall>vars'. r = Inr vars' \<longrightarrow> get_cluster_address parse args2 vars' =
      (if name2 = co_name op then
         Inr (if py_eq (co_operation op) (PStr ''create'') then Some ''ray://127.0.0.1:10001'' else None)
       else get_cluster_address parse args2 vars))"
proof -
  obtain c where c: "connect_or_create_cluster env (co_config op) (co_name op) = Some c" using create_returns by blast
  show ?thesis
  proof (cases "py_eq (co_operation op) (PStr ''create'')")
    case True
    with c created_address [of env "co_config op" "co_name op"] assms(2) show ?thesis
      by (cases c) (auto simp: execute_cluster_operator_def Let_def get_cluster_address_def variable_key_inj)
  next
    case False
    with assms(2) show ?thesis
      by (cases "delete_cluster env")
        (auto simp: execute_cluster_operator_def Let_def get_cluster_address_def variable_key_inj)
  qed
qed

definition ready_hook :: "unit hook_env" where
  "ready_hook = \<lparr>got_cluster = Answer [], template = (\<lambda>c w. Inr ()), created_cluster = (\<lambda>u. Answer ()),
     cluster_calls = ready_cluster, deleted_cluster = Answer ()\<rparr>"

lemma cluster_of_a_dag_witness:
  "\<exists>op r. init_cluster_operator (\<lambda>v. Inl ValueError)
      [(''cluster_name'', PStr ''c''), (''user_id'', PStr ''1''), (''operation'', PStr ''create'')] = Inr op \<and>
    execute_cluster_operator ready_hook op [] = Some r \<and>
    (\<forall>vars'. r = Inr vars' \<longrightarrow>
      get_cluster_address (\<lambda>v. Inl ValueError) [(''cluster_name'', PStr ''c''), (''user_id'', PStr ''1'')] vars' =
      Inr (Some ''ray://127.0.0.1:10001''))"
proof -
  let ?parse = "\<lambda>v. Inl ValueError"
  let ?op = "\<lparr>co_config = None, co_name = ''user-1-c'', co_operation = PStr ''create''\<rparr>"
  have op: "init_cluster_operator ?parse
      [(''cluster_name'', PStr ''c''), (''user_id'', PStr ''1''), (''operation'', PStr ''create'')] = Inr ?op"
    by (simp add: init_cluster_operator_def parse_cluster_args_def arg_def dict_lookup_def)
  have args: "parse_cluster_args ?parse [(''cluster_name'', PStr ''c''), (''user_id'', PStr ''1'')] =
      Inr (None, ''user-1-c'', None)"
    by (simp add: parse_cluster_args_def arg_def dict_lookup_def)
  from cluster_of_a_dag [OF op args, of ready_hook "[]"] op show ?thesis by auto
qed

text \<open>A user and a cluster with dashes in their names can have the cluster of another user.\<close>

lemma cluster_names_collide:
  "parse_cluster_args parse [(''cluster_name'', PStr ''b-c''), (''user_id'', PStr ''a'')] =
   parse_cluster_args parse [(''cluster_name'', PStr ''c''), (''user_id'', PStr ''a-b'')]"
  by (simp add: parse_cluster_args_def arg_def dict_lookup_def)

end
