(* ===== verification/DataEng.thy ===== *)
theory DataEng
  imports L2Book
begin

text \<open>
  The older tools of data_eng/common.py: files grouped by the day in their names, the snapshots of
  a file of cryptofeed's order book updates with the checks on them, and the two exponentially weighted
  moving averages. The book of the order_book package is the operation table of L2Book. The averages
  are compiled without bounds checks, so that an empty array is read and written past its end: the
  result is then \<open>None\<close>.
\<close>

section \<open>Files by day\<close>

text \<open>The calendar of Python's \<open>datetime\<close>: the date of a day counted from the first of January of
  the year 1, and its text in the format \<open>%Y-%m-%d\<close>.\<close>

definition days_in_months :: "bool \<Rightarrow> int list" where
  "days_in_months leap = [31, if leap then 29 else 28, 31, 30, 31, 30, 31, 31, 30, 31, 30, 31]"

fun month_of_day :: "int list \<Rightarrow> int \<Rightarrow> int \<Rightarrow> int \<times> int" where
  "month_of_day [] m n = (m, n)"
| "month_of_day (d # ds) m n = (if n < d then (m, n) else month_of_day ds (m + 1) (n - d))"

definition ord2ymd :: "int \<Rightarrow> int \<times> int \<times> int" where
  "ord2ymd ordinal =
     (let n = ordinal - 1; n400 = n div 146097; n = n mod 146097;
          n100 = n div 36524; n = n mod 36524; n4 = n div 1461; n = n mod 1461;
          n1 = n div 365; n = n mod 365;
          year = n400 * 400 + 1 + n100 * 100 + n4 * 4 + n1
      in if n1 = 4 \<or> n100 = 4 then (year - 1, 12, 31)
         else let leap = (n1 = 3 \<and> (n4 \<noteq> 24 \<or> n100 = 3));
                  (m, d) = month_of_day (days_in_months leap) 1 n
              in (year, m, d + 1))"

definition two_digits :: "int \<Rightarrow> string" where
  "two_digits n = (if n < 10 then CHR ''0'' # show_int n else show_int n)"

definition utc_date :: "int \<Rightarrow> string pyres" where
  "utc_date ts =
     (let (y, m, d) = ord2ymd (ts div 86400 + 719163) in
      if y < 1 \<or> 9999 < y then Inl ValueError
      else Inr (show_int y @ ''-'' @ two_digits m @ ''-'' @ two_digits d))"

definition file_date :: "string \<Rightarrow> string pyres" where
  "file_date f =
     bindE (py_int (hd (py_split ''.'' (last (py_split ''-'' f))))) utc_date"

definition add_file :: "string \<Rightarrow> (string, string list) dict \<Rightarrow> (string, string list) dict pyres" where
  "add_file f res = bindE (file_date f) (\<lambda>d.
     case map_of res d of
       Some fs \<Rightarrow> Inr (dict_put d (fs @ [f]) res)
     | None \<Rightarrow> Inr (dict_put d [f] res))"

definition group_by_date :: "string list \<Rightarrow> (string, string list) dict pyres" where
  "group_by_date files = foldE add_file files []"

lemma group_by_date_snoc:
  "group_by_date (fs @ [f]) = bindE (group_by_date fs) (add_file f)"
  by (simp add: group_by_date_def foldE_append bindE_assoc) (simp add: bindE_def split: sum.split)

definition dated :: "string \<Rightarrow> string \<Rightarrow> bool" where
  "dated d f = (file_date f = Inr d)"

lemma add_file_cases:
  "add_file f res = Inr res' \<longleftrightarrow>
     (\<exists>d. file_date f = Inr d \<and> res' = dict_put d ((case map_of res d of Some fs \<Rightarrow> fs | None \<Rightarrow> []) @ [f]) res)"
  by (cases "file_date f") (auto simp: add_file_def split: option.splits)

text \<open>Every bucket holds the files of its day, in their order; a day without files has no bucket.\<close>

theorem group_by_date_buckets:
  "group_by_date files = Inr res \<Longrightarrow>
     map_of res d = (if filter (dated d) files = [] then None else Some (filter (dated d) files))"
proof (induction files arbitrary: res rule: rev_induct)
  case (snoc f fs)
  then obtain res0 d' where "group_by_date fs = Inr res0" and d': "file_date f = Inr d'"
    and res: "res = dict_put d' ((case map_of res0 d' of Some gs \<Rightarrow> gs | None \<Rightarrow> []) @ [f]) res0"
    by (auto simp: group_by_date_snoc add_file_cases)
  with snoc.IH have "map_of res0 d = (if filter (dated d) fs = [] then None else Some (filter (dated d) fs))" by simp
  moreover have "dated d f \<longleftrightarrow> d = d'" using d' by (auto simp: dated_def)
  ultimately show ?case by (auto simp: res split: if_splits)
qed (simp add: group_by_date_def)

theorem group_by_date_keeps_files:
  "group_by_date files = Inr res \<Longrightarrow> mset (flat res) = mset files"
proof (induction files arbitrary: res rule: rev_induct)
  case (snoc f fs)
  then obtain res0 d where "group_by_date fs = Inr res0" "file_date f = Inr d"
    and "res = dict_put d ((case map_of res0 d of Some gs \<Rightarrow> gs | None \<Rightarrow> []) @ [f]) res0"
    by (auto simp: group_by_date_snoc add_file_cases)
  with snoc.IH [of res0] show ?case
    by (cases "map_of res0 d") (simp_all add: mset_flat_put_new mset_flat_append)
qed (simp add: group_by_date_def)

lemma show_nat_no_punct: "CHR ''-'' \<notin> set (show_nat n)" "CHR ''.'' \<notin> set (show_nat n)"
  using show_nat_digits [of n] by (auto simp: list_all_iff is_digit_def)

text \<open>A name that ends in a dash, the seconds and an extension is filed under the day of the seconds.\<close>

theorem file_date_of_name:
  assumes "CHR ''-'' \<notin> set ext"
  shows "file_date (p @ ''-'' @ show_nat ts @ ''.'' @ ext) = utc_date (int ts)"
  using assms show_nat_no_punct [of ts]
  by (simp add: file_date_def last_split_char py_split_char)

lemma sample_date: "file_date (''l2-ADA'' @ ''-'' @ show_nat 1625077342 @ ''.'' @ ''parquet'') = Inr ''2021-06-30''"
proof -
  have "utc_date 1625077342 = Inr ''2021-06-30''" by code_simp
  then show ?thesis by (subst file_date_of_name) simp_all
qed

lemma leap_dates: "utc_date 951782400 = Inr ''2000-02-29''" "utc_date 4107456000 = Inr ''2100-02-28''"
  "utc_date 4107542400 = Inr ''2100-03-01''" "utc_date (- 1) = Inr ''1969-12-31''"
  by code_simp+

lemma undated_file_fails: "group_by_date [''BINANCE-trades.parquet''] = Inl ValueError"
  by code_simp

section \<open>Snapshots of a file\<close>

type_synonym flat_snapshot = "(string, rat) dict"

definition side_name :: "BookSide \<Rightarrow> string" where
  "side_name sd = (if sd = Bid then ''bid'' else ''ask'')"

definition price_key :: "BookSide \<Rightarrow> nat \<Rightarrow> string" where
  "price_key sd i = side_name sd @ ''['' @ show_nat i @ ''].price''"

definition size_key :: "BookSide \<Rightarrow> nat \<Rightarrow> string" where
  "size_key sd i = side_name sd @ ''['' @ show_nat i @ ''].size''"

definition put_side :: "'b book_ops \<Rightarrow> 'b \<Rightarrow> nat \<Rightarrow> BookSide \<Rightarrow> flat_snapshot \<Rightarrow> flat_snapshot pyres" where
  "put_side ops ob level sd snapshot =
     (if level < length (levels ops ob sd) then
        bindE (level_at ops ob sd level) (\<lambda>(price, sz).
          Inr (dict_put (size_key sd level) sz (dict_put (price_key sd level) price snapshot)))
      else Inr snapshot)"

definition ob_to_snap :: "'b book_ops \<Rightarrow> 'b \<Rightarrow> rat \<Rightarrow> flat_snapshot pyres" where
  "ob_to_snap ops ob ts =
     foldE (\<lambda>level snapshot. bindE (put_side ops ob level Bid snapshot) (put_side ops ob level Ask))
       [0..<max (length (levels ops ob Bid)) (length (levels ops ob Ask))] [(''timestamp'', ts)]"

record l2_delta =
  d_ts :: rat
  d_delta :: bool
  d_side :: BookSide
  d_price :: rat
  d_size :: rat

record 'b snaps_state =
  ob :: 'b
  snapshots :: "flat_snapshot list"
  current_timestamp :: rat
  found_first_snapshot :: bool
  inc :: nat

definition apply_delta :: "'b book_ops \<Rightarrow> l2_delta \<Rightarrow> 'b snaps_state \<Rightarrow> 'b snaps_state" where
  "apply_delta ops row s =
     (if d_size row = 0 then
        (case size_at ops (ob s) (d_side row) (d_price row) of
           Some _ \<Rightarrow> s\<lparr>ob := del_level ops (d_side row) (d_price row) (ob s)\<rparr>
         | None \<Rightarrow> s\<lparr>inc := inc s + 1\<rparr>)
      else s\<lparr>ob := put_level ops (d_side row) (d_price row) (d_size row) (ob s)\<rparr>)"

definition snaps_row :: "'b book_ops \<Rightarrow> l2_delta \<Rightarrow> 'b snaps_state \<Rightarrow> 'b snaps_state pyres" where
  "snaps_row ops row s =
     (if \<not> found_first_snapshot s \<and> d_delta row then Inr s
      else
        let s = (if found_first_snapshot s then s
                 else s\<lparr>found_first_snapshot := True, current_timestamp := d_ts row\<rparr>)
        in bindE
             (if current_timestamp s \<noteq> d_ts row then
                bindE (ob_to_snap ops (ob s) (current_timestamp s)) (\<lambda>snap.
                  Inr (s\<lparr>snapshots := snapshots s @ [snap], current_timestamp := d_ts row\<rparr>))
              else Inr s)
             (\<lambda>s. Inr (apply_delta ops row s)))"

definition init_snaps :: "'b book_ops \<Rightarrow> 'b snaps_state" where
  "init_snaps ops = \<lparr>ob = new_book ops, snapshots = [], current_timestamp = 0,
     found_first_snapshot = False, inc = 0\<rparr>"

definition l2_snaps :: "'b book_ops \<Rightarrow> l2_delta list \<Rightarrow> (flat_snapshot list \<times> nat) pyres" where
  "l2_snaps ops deltas =
     bindE (foldE (snaps_row ops) deltas (init_snaps ops)) (\<lambda>s.
       bindE (ob_to_snap ops (ob s) (current_timestamp s)) (\<lambda>snap. Inr (snapshots s @ [snap], inc s)))"

subsection \<open>What a snapshot shows\<close>

lemma key_inj [simp]:
  "price_key sd i = price_key sd' j \<longleftrightarrow> sd = sd' \<and> i = j"
  "size_key sd i = size_key sd' j \<longleftrightarrow> sd = sd' \<and> i = j"
  by (cases sd; cases sd'; simp add: price_key_def size_key_def side_name_def show_nat_inj)+

lemma key_differ [simp]: "price_key sd i \<noteq> size_key sd' j" "size_key sd' j \<noteq> price_key sd i"
proof -
  have "rev (price_key sd i) \<noteq> rev (size_key sd' j)" by (simp add: price_key_def size_key_def)
  then show "price_key sd i \<noteq> size_key sd' j" by metis
  then show "size_key sd' j \<noteq> price_key sd i" by metis
qed

lemma timestamp_differ [simp]: "''timestamp'' \<noteq> price_key sd i" "''timestamp'' \<noteq> size_key sd i"
  by (simp_all add: price_key_def size_key_def side_name_def)

definition shows_levels :: "(BookSide \<Rightarrow> (rat \<times> rat) list) \<Rightarrow> rat \<Rightarrow> flat_snapshot \<Rightarrow> bool" where
  "shows_levels lv ts snap \<longleftrightarrow> map_of snap ''timestamp'' = Some ts \<and>
     (\<forall>sd i. map_of snap (price_key sd i) = (if i < length (lv sd) then Some (fst (lv sd ! i)) else None) \<and>
             map_of snap (size_key sd i) = (if i < length (lv sd) then Some (snd (lv sd ! i)) else None))"

lemma put_side_reads:
  assumes "book_laws ops" "put_side ops b level sd snap = r"
  shows "\<exists>snap'. r = Inr snap' \<and> map_of snap' =
    (if level < length (levels ops b sd)
     then (map_of snap)(price_key sd level \<mapsto> fst (levels ops b sd ! level), size_key sd level \<mapsto> snd (levels ops b sd ! level))
     else map_of snap)"
  using assms level_at_levels [OF assms(1), of level b sd]
  by (auto simp: put_side_def update_conv' split: prod.splits)

lemma shows_levels_step:
  assumes laws: "book_laws ops" and shown: "shows_levels (\<lambda>sd. take n (levels ops b sd)) ts snap"
  shows "\<exists>snap'. bindE (put_side ops b n Bid snap) (put_side ops b n Ask) = Inr snap' \<and>
    shows_levels (\<lambda>sd. take (Suc n) (levels ops b sd)) ts snap'"
proof -
  obtain s1 where s1: "put_side ops b n Bid snap = Inr s1" "map_of s1 = (if n < length (levels ops b Bid)
     then (map_of snap)(price_key Bid n \<mapsto> fst (levels ops b Bid ! n), size_key Bid n \<mapsto> snd (levels ops b Bid ! n))
     else map_of snap)" using put_side_reads [OF laws refl, of b n Bid snap] by auto
  obtain s2 where s2: "put_side ops b n Ask s1 = Inr s2" "map_of s2 = (if n < length (levels ops b Ask)
     then (map_of s1)(price_key Ask n \<mapsto> fst (levels ops b Ask ! n), size_key Ask n \<mapsto> snd (levels ops b Ask ! n))
     else map_of s1)" using put_side_reads [OF laws refl, of b n Ask s1] by auto
  have "map_of s2 (price_key sd i) = (if i < length (take (Suc n) (levels ops b sd)) then Some (fst (take (Suc n) (levels ops b sd) ! i)) else None)"
    and "map_of s2 (size_key sd i) = (if i < length (take (Suc n) (levels ops b sd)) then Some (snd (take (Suc n) (levels ops b sd) ! i)) else None)"
    for sd i
    using shown by (cases sd; auto simp: s1(2) s2(2) shows_levels_def less_Suc_eq)+
  moreover have "map_of s2 ''timestamp'' = Some ts" using shown by (simp add: s1(2) s2(2) shows_levels_def)
  ultimately have "shows_levels (\<lambda>sd. take (Suc n) (levels ops b sd)) ts s2" by (simp add: shows_levels_def)
  with s1(1) s2(1) show ?thesis by simp
qed

text \<open>A snapshot has the price and the size of every level of both sides under its position, and no
  other key but its time.\<close>

theorem ob_to_snap_shows_levels:
  assumes "book_laws ops"
  shows "\<exists>snap. ob_to_snap ops b ts = Inr snap \<and> shows_levels (levels ops b) ts snap"
proof -
  let ?f = "\<lambda>level snapshot. bindE (put_side ops b level Bid snapshot) (put_side ops b level Ask)"
  have "\<exists>snap. foldE ?f [0..<n] [(''timestamp'', ts)] = Inr snap \<and> shows_levels (\<lambda>sd. take n (levels ops b sd)) ts snap" for n
  proof (induction n)
    case 0
    then show ?case by (simp add: shows_levels_def) (metis timestamp_differ)
  next
    case (Suc n)
    then show ?case using shows_levels_step [OF assms] by (force simp: foldE_append)
  qed
  from this [of "max (length (levels ops b Bid)) (length (levels ops b Ask))"]
  have "\<exists>snap. ob_to_snap ops b ts = Inr snap \<and>
     shows_levels (\<lambda>sd. take (max (length (levels ops b Bid)) (length (levels ops b Ask))) (levels ops b sd)) ts snap"
    by (simp add: ob_to_snap_def)
  moreover have "(\<lambda>sd. take (max (length (levels ops b Bid)) (length (levels ops b Ask))) (levels ops b sd)) = levels ops b"
    by (rule ext, case_tac sd) simp_all
  ultimately show ?thesis by simp
qed

subsection \<open>Which snapshots there are\<close>

definition spec_delta :: "l2_delta \<Rightarrow> book_map \<Rightarrow> book_map" where
  "spec_delta row = set_size (d_side row) (d_price row) (if d_size row = 0 then None else Some (d_size row))"

definition book_after :: "l2_delta list \<Rightarrow> book_map" where
  "book_after rows = fold spec_delta rows empty_map"

definition snapshot_of :: "book_map \<Rightarrow> rat \<Rightarrow> flat_snapshot \<Rightarrow> bool" where
  "snapshot_of m ts snap \<longleftrightarrow>
     (\<exists>lv. (\<forall>sd. distinct (map fst (lv sd)) \<and> map_of (lv sd) = m sd) \<and> shows_levels lv ts snap)"

text \<open>The positions at which the time of the rows changes, and the rows that take away a level that
  the book does not have.\<close>

definition time_changes :: "l2_delta list \<Rightarrow> nat list" where
  "time_changes rows = filter (\<lambda>k. d_ts (rows ! (k - 1)) \<noteq> d_ts (rows ! k)) [1..<length rows]"

definition removes_nothing :: "l2_delta list \<Rightarrow> nat \<Rightarrow> bool" where
  "removes_nothing rows k \<longleftrightarrow> d_size (rows ! k) = 0 \<and>
     book_after (take k rows) (d_side (rows ! k)) (d_price (rows ! k)) = None"

definition missing_levels :: "l2_delta list \<Rightarrow> nat" where
  "missing_levels rows = length (filter (removes_nothing rows) [0..<length rows])"

definition shown_at :: "l2_delta list \<Rightarrow> nat \<Rightarrow> flat_snapshot \<Rightarrow> bool" where
  "shown_at rows k snap \<longleftrightarrow> 0 < k \<and> snapshot_of (book_after (take k rows)) (d_ts (rows ! (k - 1))) snap"

definition snaps_inv :: "'b book_ops \<Rightarrow> l2_delta list \<Rightarrow> 'b snaps_state \<Rightarrow> bool" where
  "snaps_inv ops rows s \<longleftrightarrow> found_first_snapshot s \<and> current_timestamp s = d_ts (last rows) \<and>
     size_at ops (ob s) = book_after rows \<and>
     inc s = missing_levels rows \<and>
     list_all2 (shown_at rows) (time_changes rows) (snapshots s)"

lemma book_snapshot:
  assumes "book_laws ops"
  shows "\<exists>snap. ob_to_snap ops b ts = Inr snap \<and> snapshot_of (size_at ops b) ts snap"
  using ob_to_snap_shows_levels [OF assms, of b ts] law_levels [OF assms, of b]
  by (auto simp: snapshot_of_def)

lemma book_after_snoc: "book_after (rows @ [r]) = spec_delta r (book_after rows)"
  by (simp add: book_after_def)

lemma time_changes_snoc:
  assumes "rows \<noteq> []"
  shows "time_changes (rows @ [r]) = time_changes rows @ (if d_ts (last rows) \<noteq> d_ts r then [length rows] else [])"
proof -
  from assms have len: "1 \<le> length rows" by (cases rows) simp_all
  have "filter (\<lambda>k. d_ts ((rows @ [r]) ! (k - 1)) \<noteq> d_ts ((rows @ [r]) ! k)) [1..<length rows] = time_changes rows"
    unfolding time_changes_def by (rule filter_cong) (auto simp: nth_append)
  then show ?thesis using assms len by (simp add: time_changes_def nth_append last_conv_nth)
qed

lemma missing_levels_snoc:
  "missing_levels (rows @ [r]) =
     missing_levels rows + (if d_size r = 0 \<and> book_after rows (d_side r) (d_price r) = None then 1 else 0)"
proof -
  have "filter (removes_nothing (rows @ [r])) [0..<length rows] = filter (removes_nothing rows) [0..<length rows]"
    by (rule filter_cong) (auto simp: removes_nothing_def nth_append)
  then show ?thesis by (auto simp: missing_levels_def) (auto simp: removes_nothing_def)
qed

lemma shown_at_snoc: "k \<le> length rows \<Longrightarrow> shown_at (rows @ [r]) k snap = shown_at rows k snap"
  by (cases k) (auto simp: shown_at_def nth_append)

lemma shown_list_snoc:
  "list_all2 (shown_at rows) (time_changes rows) snaps \<Longrightarrow> list_all2 (shown_at (rows @ [r])) (time_changes rows) snaps"
  by (rule list.rel_mono_strong, assumption) (auto simp: time_changes_def shown_at_snoc)

lemma apply_delta_facts:
  assumes "book_laws ops"
  shows "size_at ops (ob (apply_delta ops r s)) = spec_delta r (size_at ops (ob s))"
    and "inc (apply_delta ops r s) = inc s + (if d_size r = 0 \<and> size_at ops (ob s) (d_side r) (d_price r) = None then 1 else 0)"
    and "snapshots (apply_delta ops r s) = snapshots s"
    and "current_timestamp (apply_delta ops r s) = current_timestamp s"
    and "found_first_snapshot (apply_delta ops r s) = found_first_snapshot s"
  by (auto simp: apply_delta_def spec_delta_def set_size_def law_put [OF assms] law_del [OF assms] fun_eq_iff split: option.splits)

lemma snaps_inv_step:
  assumes laws: "book_laws ops" and inv: "snaps_inv ops rows s" "rows \<noteq> []"
  shows "\<exists>s'. snaps_row ops r s = Inr s' \<and> snaps_inv ops (rows @ [r]) s'"
proof -
  obtain snap where snap: "ob_to_snap ops (ob s) (current_timestamp s) = Inr snap"
    "snapshot_of (size_at ops (ob s)) (current_timestamp s) snap" using book_snapshot [OF laws] by metis
  have at: "shown_at (rows @ [r]) (length rows) snap"
    using snap(2) inv by (simp add: shown_at_def snaps_inv_def nth_append last_conv_nth)
  have old: "list_all2 (shown_at (rows @ [r])) (time_changes rows) (snapshots s)"
    using inv(1) by (intro shown_list_snoc) (simp add: snaps_inv_def)
  show ?thesis
    using inv at old snap(1)
    by (auto simp: snaps_row_def snaps_inv_def Let_def apply_delta_facts [OF laws] time_changes_snoc
      missing_levels_snoc book_after_snoc intro: list_all2_appendI)
qed

lemma snaps_inv_run:
  assumes laws: "book_laws ops" and "\<not> d_delta r"
  shows "\<exists>s'. foldE (snaps_row ops) (r # rows) (init_snaps ops) = Inr s' \<and> snaps_inv ops (r # rows) s'"
proof (induction rows rule: rev_induct)
  case Nil
  have "size_at ops (ob (init_snaps ops)) = empty_map" by (simp add: init_snaps_def law_new [OF laws])
  with assms show ?case
    by (auto simp: snaps_row_def snaps_inv_def Let_def apply_delta_facts [OF laws] init_snaps_def
      time_changes_def missing_levels_def removes_nothing_def book_after_def law_new [OF laws])
next
  case (snoc x xs)
  then obtain s where "foldE (snaps_row ops) (r # xs) (init_snaps ops) = Inr s" "snaps_inv ops (r # xs) s" by blast
  with snaps_inv_step [OF laws, of "r # xs" s x] foldE_append [of "snaps_row ops" "r # xs" "[x]" "init_snaps ops"]
  show ?case by auto
qed

lemma leading_deltas_are_skipped:
  "foldE (snaps_row ops) deltas (init_snaps ops) = foldE (snaps_row ops) (dropWhile d_delta deltas) (init_snaps ops)"
  by (induction deltas) (auto simp: snaps_row_def init_snaps_def)

text \<open>C31. Rows before the first snapshot row are ignored. From there on, one snapshot is taken at every
  change of the time and one at the end, each shows the book that the rows up to it make, under
  their last time, and the count is that of the rows that remove a level the book does not have.\<close>

theorem snapshots_follow_the_times:
  assumes "book_laws ops" and "rows = dropWhile d_delta deltas" and "rows \<noteq> []"
  shows "\<exists>snaps. l2_snaps ops deltas = Inr (snaps, missing_levels rows) \<and>
    list_all2 (shown_at rows) (time_changes rows @ [length rows]) snaps"
proof -
  from assms(2,3) obtain r rs where rows: "rows = r # rs" "\<not> d_delta r"
    by (metis dropWhile_eq_Cons_conv list.exhaust)
  obtain s where s: "foldE (snaps_row ops) deltas (init_snaps ops) = Inr s" "snaps_inv ops rows s"
    using snaps_inv_run [OF assms(1) rows(2), of rs] leading_deltas_are_skipped [of ops deltas] rows(1) assms(2) by auto
  obtain snap where snap: "ob_to_snap ops (ob s) (current_timestamp s) = Inr snap"
    "snapshot_of (size_at ops (ob s)) (current_timestamp s) snap" using book_snapshot [OF assms(1)] by metis
  have "shown_at rows (length rows) snap"
    using snap(2) s(2) assms(3) last_conv_nth [OF assms(3)] by (simp add: shown_at_def snaps_inv_def)
  with s snap(1) show ?thesis by (auto simp: l2_snaps_def snaps_inv_def intro!: list_all2_appendI)
qed

lemma no_snapshot_row:
  assumes "book_laws ops" "dropWhile d_delta deltas = []"
  shows "\<exists>snap. l2_snaps ops deltas = Inr ([snap], 0) \<and> snapshot_of empty_map 0 snap"
proof -
  have "foldE (snaps_row ops) deltas (init_snaps ops) = Inr (init_snaps ops)"
    using leading_deltas_are_skipped [of ops deltas] assms(2) by simp
  with book_snapshot [OF assms(1), of "new_book ops" 0] show ?thesis
    by (auto simp: l2_snaps_def init_snaps_def law_new [OF assms(1)])
qed

definition sample_deltas :: "l2_delta list" where
  "sample_deltas = [\<lparr>d_ts = 1, d_delta = True, d_side = Bid, d_price = 8, d_size = 1\<rparr>,
     \<lparr>d_ts = 2, d_delta = False, d_side = Bid, d_price = 9, d_size = 2\<rparr>,
     \<lparr>d_ts = 2, d_delta = False, d_side = Ask, d_price = 10, d_size = 3\<rparr>,
     \<lparr>d_ts = 3, d_delta = True, d_side = Ask, d_price = 11, d_size = 0\<rparr>,
     \<lparr>d_ts = 4, d_delta = False, d_side = Bid, d_price = 7, d_size = 5\<rparr>]"

theorem snapshots_follow_the_times_witness:
  "\<exists>snaps. l2_snaps list_book sample_deltas =
      Inr (snaps, missing_levels (tl sample_deltas)) \<and>
    list_all2 (shown_at (tl sample_deltas)) (time_changes (tl sample_deltas) @ [length (tl sample_deltas)]) snaps"
  by (rule snapshots_follow_the_times [OF list_book_laws]) (simp_all add: sample_deltas_def)

text \<open>The book is not emptied by a later snapshot: the bid at 9 of the first one is still shown after the
  second, which does not list it, and a file without a snapshot yields one empty book at time 0.\<close>

lemma stale_level_survives_snapshot:
  "bindE (l2_snaps list_book sample_deltas) (\<lambda>(snaps, n).
     Inr (map_of (last snaps) ''bid[0].price'', map_of (last snaps) ''bid[1].price'', n)) = Inr (Some 9, Some 7, 1)"
  by code_simp

section \<open>Checks on snapshots\<close>

text \<open>These two expect another shape than \<open>l2_snaps\<close> returns: a time and, per side, the dictionary
  from prices to sizes.\<close>

type_synonym sided_snapshot = "rat \<times> (string, (rat, rat) dict) dict"

definition side_is_sorted :: "string \<times> (rat, rat) dict \<Rightarrow> unit pyres" where
  "side_is_sorted p =
     (let (side, lv) = p; prices = dict_keys lv in
      if side = ''bid'' then (if rev (sort prices) \<noteq> prices then Inl PlainException else Inr ())
      else if side = ''ask'' then (if sort prices \<noteq> prices then Inl PlainException else Inr ())
      else Inl PlainException)"

definition l2_is_sorted :: "sided_snapshot list \<Rightarrow> bool pyres" where
  "l2_is_sorted snaps =
     bindE (foldE (\<lambda>row _. foldE (\<lambda>p _. side_is_sorted p) (snd row) ()) snaps ()) (\<lambda>_. Inr True)"

definition count_key :: "string \<Rightarrow> (string, int) dict \<Rightarrow> (string, int) dict" where
  "count_key k hist = (case map_of hist k of Some n \<Rightarrow> dict_put k (n + 1) hist | None \<Rightarrow> dict_put k 1 hist)"

definition hist_row :: "sided_snapshot \<Rightarrow> (string, int) dict \<times> (string, int) dict \<Rightarrow>
    ((string, int) dict \<times> (string, int) dict) pyres" where
  "hist_row row hists =
     (let (hist_ask, hist_bid) = hists in
      bindE (dict_lookup (snd row) ''bid'') (\<lambda>bs.
      bindE (dict_lookup (snd row) ''ask'') (\<lambda>as.
        Inr (count_key (''ask_'' @ show_nat (length as)) hist_ask,
             count_key (''bid_'' @ show_nat (length bs)) hist_bid))))"

definition l2_hist :: "sided_snapshot list \<Rightarrow> ((string, int) dict \<times> (string, int) dict) pyres" where
  "l2_hist snaps = foldE hist_row snaps ([], [])"

lemma foldE_unit: "foldE f xs () = Inr () \<longleftrightarrow> (\<forall>x \<in> set xs. f x () = Inr ())"
  by (induction xs) auto

text \<open>Bids must fall and asks must rise from level to level; there is no way to return \<open>False\<close>.\<close>

theorem l2_is_sorted_iff:
  assumes "\<forall>row \<in> set snaps. \<forall>(side, lv) \<in> set (snd row). dict_wf lv"
  shows "l2_is_sorted snaps = Inr True \<longleftrightarrow>
    (\<forall>row \<in> set snaps. \<forall>(side, lv) \<in> set (snd row).
       side = ''bid'' \<and> sorted_wrt (>) (dict_keys lv) \<or> side = ''ask'' \<and> sorted_wrt (<) (dict_keys lv))"
proof -
  have falls: "rev (sort xs) = xs \<longleftrightarrow> sorted_wrt (>) xs" if "distinct xs" for xs :: "rat list"
  proof -
    have "rev (sort xs) = xs \<longleftrightarrow> sort xs = rev xs" by (rule rev_swap)
    also have "\<dots> \<longleftrightarrow> sorted (rev xs)"
      by (metis mset_rev properties_for_sort sorted_sort)
    also have "\<dots> \<longleftrightarrow> sorted_wrt (<) (rev xs)" using that by (simp add: strict_sorted_iff)
    finally show ?thesis by (simp add: sorted_wrt_rev)
  qed
  have rises: "sort xs = xs \<longleftrightarrow> sorted_wrt (<) xs" if "distinct xs" for xs :: "rat list"
    using that by (metis sorted_sort sorted_sort_id strict_sorted_iff)
  have side: "side_is_sorted (side, lv) = Inr () \<longleftrightarrow>
      side = ''bid'' \<and> sorted_wrt (>) (dict_keys lv) \<or> side = ''ask'' \<and> sorted_wrt (<) (dict_keys lv)"
    if "dict_wf lv" for side lv
    using that falls [of "dict_keys lv"] rises [of "dict_keys lv"] by (auto simp: side_is_sorted_def dict_wf_def Let_def split: if_splits)
  have "l2_is_sorted snaps = Inr True \<longleftrightarrow> (\<forall>row \<in> set snaps. \<forall>p \<in> set (snd row). side_is_sorted p = Inr ())"
    by (simp add: l2_is_sorted_def foldE_unit)
  with assms side show ?thesis by fastforce
qed

lemma count_key_get: "map_of (count_key k hist) k' =
  (if k' = k then Some (case map_of hist k of Some n \<Rightarrow> n + 1 | None \<Rightarrow> 1) else map_of hist k')"
  by (simp add: count_key_def split: option.split)

definition depth_count :: "string \<Rightarrow> sided_snapshot list \<Rightarrow> nat \<Rightarrow> nat" where
  "depth_count side snaps n =
     length (filter (\<lambda>row. \<exists>lv. map_of (snd row) side = Some lv \<and> length lv = n) snaps)"

lemma l2_hist_snoc: "l2_hist (snaps @ [row]) = bindE (l2_hist snaps) (hist_row row)"
  by (simp add: l2_hist_def foldE_append) (simp add: bindE_def split: sum.split)

theorem l2_hist_counts:
  "l2_hist snaps = Inr (hist_ask, hist_bid) \<Longrightarrow>
     map_of hist_ask (''ask_'' @ show_nat n) = (if depth_count ''ask'' snaps n = 0 then None else Some (int (depth_count ''ask'' snaps n))) \<and>
     map_of hist_bid (''bid_'' @ show_nat n) = (if depth_count ''bid'' snaps n = 0 then None else Some (int (depth_count ''bid'' snaps n)))"
proof (induction snaps arbitrary: hist_ask hist_bid rule: rev_induct)
  case (snoc row snaps)
  then obtain ha hb where h: "l2_hist snaps = Inr (ha, hb)" and "hist_row row (ha, hb) = Inr (hist_ask, hist_bid)"
    by (auto simp: l2_hist_snoc)
  then obtain bs as where sides: "map_of (snd row) ''bid'' = Some bs" "map_of (snd row) ''ask'' = Some as"
    and new: "hist_ask = count_key (''ask_'' @ show_nat (length as)) ha" "hist_bid = count_key (''bid_'' @ show_nat (length bs)) hb"
    by (auto simp: hist_row_def)
  show ?case using snoc.IH [OF h] sides
    by (auto simp: new count_key_get depth_count_def show_nat_inj)
qed (simp add: l2_hist_def depth_count_def)

section \<open>Moving averages\<close>

definition ewma_alpha :: "int \<Rightarrow> rat pyres" where
  "ewma_alpha window = (if window + 1 = 0 then Inl ZeroDivisionError else Inr (2 / of_int (window + 1)))"

definition ewma_step :: "rat \<Rightarrow> nat \<times> rat \<Rightarrow> rat \<times> rat \<times> rat list \<Rightarrow> (rat \<times> rat \<times> rat list) pyres" where
  "ewma_step alpha p s =
     (let (i, x) = p; (w, ewma_old, out) = s; w = w + (1 - alpha) ^ i; ewma_old = ewma_old * (1 - alpha) + x
      in if w = 0 then Inl ZeroDivisionError else Inr (w, ewma_old, out @ [ewma_old / w]))"

definition ewma :: "rat list \<Rightarrow> int \<Rightarrow> rat list pyres option" where
  "ewma arr window =
     (case ewma_alpha window of
        Inl e \<Rightarrow> Some (Inl e)
      | Inr alpha \<Rightarrow>
          (case arr of
             [] \<Rightarrow> None
           | x # xs \<Rightarrow> Some (bindE (foldE (ewma_step alpha) (enumerate 1 xs) (1, x, [x])) (\<lambda>s. Inr (snd (snd s))))))"

definition infinite_step :: "rat \<Rightarrow> rat \<Rightarrow> rat list \<Rightarrow> rat list" where
  "infinite_step alpha x out = out @ [x * alpha + last out * (1 - alpha)]"

definition ewma_infinite_hist :: "rat list \<Rightarrow> int \<Rightarrow> rat list pyres option" where
  "ewma_infinite_hist arr window =
     (case ewma_alpha window of
        Inl e \<Rightarrow> Some (Inl e)
      | Inr alpha \<Rightarrow>
          (case arr of
             [] \<Rightarrow> None
           | x # xs \<Rightarrow> Some (Inr (fold (infinite_step alpha) xs [x]))))"

text \<open>The two sums of the formula in the comment of \<open>ewma\<close>.\<close>

definition weighted_sum :: "rat \<Rightarrow> rat list \<Rightarrow> nat \<Rightarrow> rat" where
  "weighted_sum a xs t = (\<Sum>k\<le>t. (1 - a) ^ k * xs ! (t - k))"

definition weights :: "rat \<Rightarrow> nat \<Rightarrow> rat" where
  "weights a t = (\<Sum>k\<le>t. (1 - a) ^ k)"

lemma alpha_bounds:
  "1 \<le> window \<Longrightarrow> \<exists>a. ewma_alpha window = Inr a \<and> a = 2 / of_int (window + 1) \<and> 0 < a \<and> a \<le> 1"
  by (simp add: ewma_alpha_def)

lemma weights_pos: "a \<le> 1 \<Longrightarrow> 1 \<le> weights a t"
proof (induction t)
  case (Suc t)
  then have "0 \<le> (1 - a) ^ Suc t" by (intro zero_le_power) simp
  with Suc show ?case unfolding weights_def by (subst sum.atMost_Suc) linarith
qed (simp add: weights_def)

lemma weighted_sum_Suc: "weighted_sum a xs (Suc t) = weighted_sum a xs t * (1 - a) + xs ! Suc t"
  unfolding weighted_sum_def by (subst sum.atMost_Suc_shift) (simp add: sum_distrib_left ac_simps)

lemma weighted_sum_append: "t < length xs \<Longrightarrow> weighted_sum a (xs @ ys) t = weighted_sum a xs t"
  unfolding weighted_sum_def by (rule sum.cong) (auto simp: nth_append)

lemma enumerate_snoc: "enumerate n (xs @ [x]) = enumerate n xs @ [(n + length xs, x)]"
  by (simp add: enumerate_append_eq)

lemma ewma_run:
  assumes "a \<le> 1"
  shows "foldE (ewma_step a) (enumerate 1 xs) (1, x, [x]) =
    Inr (weights a (length xs), weighted_sum a (x # xs) (length xs),
         map (\<lambda>t. weighted_sum a (x # xs) t / weights a t) [0..<Suc (length xs)])"
proof (induction xs rule: rev_induct)
  case (snoc y xs)
  let ?n = "length xs"
  have w: "weights a ?n + (1 - a) ^ Suc ?n = weights a (Suc ?n)" by (simp add: weights_def)
  have s: "weighted_sum a (x # xs) ?n * (1 - a) + y = weighted_sum a (x # xs @ [y]) (Suc ?n)"
    using weighted_sum_append [of ?n "x # xs" a "[y]"] by (simp add: weighted_sum_Suc nth_append)
  have old: "map (\<lambda>t. weighted_sum a (x # xs @ [y]) t / weights a t) [0..<Suc ?n] =
    map (\<lambda>t. weighted_sum a (x # xs) t / weights a t) [0..<Suc ?n]"
    using weighted_sum_append [of _ "x # xs" a "[y]"] by (intro map_cong) auto
  have "weights a (Suc ?n) \<noteq> 0" using weights_pos [OF assms, of "Suc ?n"] by auto
  with w s have "ewma_step a (Suc ?n, y) (weights a ?n, weighted_sum a (x # xs) ?n, out) =
    Inr (weights a (Suc ?n), weighted_sum a (x # xs @ [y]) (Suc ?n),
      out @ [weighted_sum a (x # xs @ [y]) (Suc ?n) / weights a (Suc ?n)])" for out
    by (simp only: ewma_step_def Let_def prod.case if_False)
  then have "foldE (ewma_step a) (enumerate 1 (xs @ [y])) (1, x, [x]) =
      Inr (weights a (Suc ?n), weighted_sum a (x # xs @ [y]) (Suc ?n),
        map (\<lambda>t. weighted_sum a (x # xs) t / weights a t) [0..<Suc ?n] @
          [weighted_sum a (x # xs @ [y]) (Suc ?n) / weights a (Suc ?n)])"
    using snoc.IH by (simp add: foldE_append enumerate_snoc del: upt_Suc)
  then show ?case unfolding old [symmetric] by (simp only: length_append_singleton upt_Suc map_append) simp
qed (simp add: weights_def weighted_sum_def)

text \<open>For every window of at least one, \<open>ewma\<close> is the average its comment gives.\<close>

theorem ewma_is_the_weighted_average:
  assumes "1 \<le> window" and "arr \<noteq> []" and "a = 2 / of_int (window + 1)"
  shows "ewma arr window = Some (Inr (map (\<lambda>t. weighted_sum a arr t / weights a t) [0..<length arr]))"
proof -
  obtain x xs where arr: "arr = x # xs" using assms(2) by (cases arr) auto
  from alpha_bounds [OF assms(1)] assms(3) have "ewma_alpha window = Inr a" "a \<le> 1" by auto
  with ewma_run [of a xs x] show ?thesis by (simp add: ewma_def arr del: upt_Suc)
qed

theorem ewma_is_the_weighted_average_witness:
  "ewma [1, 2, 4] 3 = Some (Inr (map (\<lambda>t. weighted_sum (1 / 2) [1, 2, 4] t / weights (1 / 2) t) [0..<length [1, 2, 4 :: rat]]))"
  by (rule ewma_is_the_weighted_average) simp_all

lemma weighted_sum_between:
  assumes "a \<le> 1" "\<And>x. x \<in> set xs \<Longrightarrow> lo \<le> x \<and> x \<le> hi" "t < length xs"
  shows "lo * weights a t \<le> weighted_sum a xs t \<and> weighted_sum a xs t \<le> hi * weights a t"
  unfolding weights_def weighted_sum_def sum_distrib_left
  using assms by (auto intro!: sum_mono simp: mult.commute [of _ "(1 - a) ^ _"] mult_left_mono)

theorem ewma_stays_in_range:
  assumes "1 \<le> window" "\<forall>x \<in> set arr. lo \<le> x \<and> x \<le> hi" "ewma arr window = Some (Inr out)"
  shows "length out = length arr \<and> (\<forall>y \<in> set out. lo \<le> y \<and> y \<le> hi)"
proof -
  define a :: rat where "a = 2 / of_int (window + 1)"
  have a: "a \<le> 1" using assms(1) by (simp add: a_def)
  have "arr \<noteq> []" using assms(3) by (auto simp: ewma_def split: sum.splits)
  with assms(3) ewma_is_the_weighted_average [OF assms(1) this a_def]
  have out: "out = map (\<lambda>t. weighted_sum a arr t / weights a t) [0..<length arr]" by simp
  have "lo \<le> weighted_sum a arr t / weights a t \<and> weighted_sum a arr t / weights a t \<le> hi" if "t < length arr" for t
    using weighted_sum_between [OF a _ that, of lo hi] weights_pos [OF a, of t] assms(2)
    by (simp add: divide_le_eq le_divide_eq)
  then show ?thesis by (auto simp: out)
qed

text \<open>The recursive form in closed form: the first value keeps the weight that the others leave.\<close>

definition infinite_average :: "rat \<Rightarrow> rat list \<Rightarrow> nat \<Rightarrow> rat" where
  "infinite_average a xs t = (1 - a) ^ t * xs ! 0 + (\<Sum>k<t. a * (1 - a) ^ k * xs ! (t - k))"

lemma infinite_average_Suc:
  "infinite_average a xs (Suc t) = xs ! Suc t * a + infinite_average a xs t * (1 - a)"
  unfolding infinite_average_def
  by (subst sum.lessThan_Suc_shift) (simp add: sum_distrib_left distrib_left ac_simps)

lemma infinite_average_append: "t < length xs \<Longrightarrow> infinite_average a (xs @ ys) t = infinite_average a xs t"
  unfolding infinite_average_def by (cases xs) (auto simp: nth_append intro!: sum.cong)

lemma infinite_run:
  "fold (infinite_step a) xs [x] = map (infinite_average a (x # xs)) [0..<Suc (length xs)]"
proof (induction xs rule: rev_induct)
  case (snoc y xs)
  let ?n = "length xs"
  have old: "map (infinite_average a (x # xs @ [y])) [0..<Suc ?n] = map (infinite_average a (x # xs)) [0..<Suc ?n]"
    using infinite_average_append [of _ "x # xs" a "[y]"] by (intro map_cong) auto
  have "infinite_average a (x # xs @ [y]) (Suc ?n) = y * a + infinite_average a (x # xs) ?n * (1 - a)"
    using infinite_average_append [of ?n "x # xs" a "[y]"] by (simp add: infinite_average_Suc nth_append)
  with snoc.IH old show ?case
    by (simp add: infinite_step_def last_map del: upt_Suc) (simp add: upt_Suc_append)
qed (simp add: infinite_average_def)

theorem infinite_hist_closed_form:
  assumes "window \<noteq> - 1" and "arr \<noteq> []" and "a = 2 / of_int (window + 1)"
  shows "ewma_infinite_hist arr window = Some (Inr (map (infinite_average a arr) [0..<length arr]))"
proof -
  obtain x xs where arr: "arr = x # xs" using assms(2) by (cases arr) auto
  from assms have "ewma_alpha window = Inr a" by (auto simp: ewma_alpha_def)
  with infinite_run [of a xs x] show ?thesis by (simp add: ewma_infinite_hist_def arr del: upt_Suc)
qed

lemma window_one_is_the_identity: "ewma [3, 5, 8] 1 = Some (Inr [3, 5, 8])" "ewma_infinite_hist [3, 5, 8] 1 = Some (Inr [3, 5, 8])"
  by code_simp+

text \<open>A window of 0 gives the weights 1 and -1, which cancel in the second step; -1 has no decay.\<close>

lemma window_zero_divides_by_zero: "ewma [3, 5] 0 = Some (Inl ZeroDivisionError)"
  by code_simp

lemma window_minus_one: "ewma arr (- 1) = Some (Inl ZeroDivisionError)" "ewma_infinite_hist arr (- 1) = Some (Inl ZeroDivisionError)"
  by (simp_all add: ewma_def ewma_infinite_hist_def ewma_alpha_def)

text \<open>The comment of \<open>ewma\<close> shows the other function giving the adjusted average of pandas, which is that
  of \<open>ewma\<close>; they differ from the second value on.\<close>

lemma averages_differ: "ewma [0, 1] 3 = Some (Inr [0, 2 / 3])" "ewma_infinite_hist [0, 1] 3 = Some (Inr [0, 1 / 2])"
  by code_simp+

end
