(* ===== verification/DefinitionsLoader.thy ===== *)
theory DefinitionsLoader
  imports ApiServer
begin

text \<open>
  featurizer/featurizer_utils/definitions_loader.py, which finds the classes of data definitions by name,
  in the packages of the repository, among the files loaded before, or at the server, and
  dep_upstream_definitions of featurizer/features/definitions/feature_definition.py, which uses it.
  A module is the function from its names to its classes. The threads of the loader's pool are a schedule:
  which values of the loop's variables a job sees when it runs, and when it is finished.
\<close>

section \<open>Classes by name\<close>

type_synonym 'c module = "string \<Rightarrow> 'c option"

record ('z, 'c) loader_env =
  pascalize :: "string \<Rightarrow> string"
  packaged :: "string \<Rightarrow> 'c module option"
  module_in :: "'z \<Rightarrow> string \<Rightarrow> 'c module option"
  answer :: "string \<Rightarrow> string \<Rightarrow> 'z body"
  unzip_files :: "'z body \<Rightarrow> 'z pyres"

type_synonym 'z files = "(string, 'z) dict"

definition DEFINITIONS_PATH :: string where
  "DEFINITIONS_PATH = ''/tmp/svoe_feature_definitions''"

definition parse_definition_name :: "string \<Rightarrow> (string \<times> string \<times> string) pyres" where
  "parse_definition_name fd_name =
     (let s = py_split ''.'' fd_name in
      bindE (py_nth s 0) (\<lambda>grp. bindE (py_nth s 1) (\<lambda>defn. Inr (grp, defn, ''1''))))"

definition extract_path_of :: "string \<Rightarrow> string \<Rightarrow> string" where
  "extract_path_of grp defn = DEFINITIONS_PATH @ ''/'' @ grp @ ''/'' @ defn"

definition class_name_of :: "('z, 'c) loader_env \<Rightarrow> string \<Rightarrow> string" where
  "class_name_of env defn =
     (let class_name = pascalize env defn in
      if endswith class_name ''Fd'' then removesuffix class_name ''Fd'' @ ''FD'' else class_name)"

definition dotted_name :: "string \<Rightarrow> string \<Rightarrow> string \<Rightarrow> string" where
  "dotted_name pkg grp defn = pkg @ ''.'' @ grp @ ''.'' @ defn @ ''.'' @ defn"

definition find_module :: "('z, 'c) loader_env \<Rightarrow> 'z files \<Rightarrow> string \<Rightarrow> string \<Rightarrow> 'c module option" where
  "find_module env fs grp defn =
     (case packaged env (dotted_name ''featurizer.features.definitions'' grp defn) of
        Some m \<Rightarrow> Some m
      | None \<Rightarrow>
          (case packaged env (dotted_name ''featurizer.data_definitions'' grp defn) of
             Some m \<Rightarrow> Some m
           | None \<Rightarrow>
               (case map_of fs (extract_path_of grp defn) of
                  Some z \<Rightarrow> module_in env z defn
                | None \<Rightarrow> None)))"

definition load_local_class :: "('z, 'c) loader_env \<Rightarrow> 'z files \<Rightarrow> string \<Rightarrow> 'c option pyres" where
  "load_local_class env fs fd_name =
     bindE (parse_definition_name fd_name) (\<lambda>(grp, defn, version).
       case find_module env fs grp defn of
         None \<Rightarrow> Inr None
       | Some m \<Rightarrow>
           (case m (class_name_of env defn) of None \<Rightarrow> Inl AttributeError | Some c \<Rightarrow> Inr (Some c)))"

section \<open>Loading many\<close>

text \<open>The jobs of a call in the order of their submission. A job is a closure over the variables of the
  loop: \<open>sees\<close> gives the iterations whose group, definition and path it finds there. \<open>finish_order\<close>
  lists the jobs as they finish, and \<open>finished_by\<close> says how many have finished when the class of a name is
  looked up again.\<close>

type_synonym job = "string \<times> string \<times> string"

record schedule =
  sees :: "nat \<Rightarrow> nat \<times> nat \<times> nat"
  finish_order :: "nat list"
  finished_by :: "string \<Rightarrow> nat"

record 'z loader =
  futures :: "(string, string option pyres) dict"
  disk :: "'z files"

fun submit_missing ::
    "('z, 'c) loader_env \<Rightarrow> 'z loader \<Rightarrow> string list \<Rightarrow> job list \<Rightarrow> (string, 'c) dict \<Rightarrow> (string, 'c) dict pyres \<times> job list" where
  "submit_missing env ld [] jobs classes = (Inr classes, jobs)"
| "submit_missing env ld (n # ns) jobs classes =
     (case load_local_class env (disk ld) n of
        Inl e \<Rightarrow> (Inl e, jobs)
      | Inr (Some c) \<Rightarrow> submit_missing env ld ns jobs (dict_put n c classes)
      | Inr None \<Rightarrow>
          if dict_has (futures ld) n \<or> n \<in> fst ` set jobs then submit_missing env ld ns jobs classes
          else (case parse_definition_name n of
                  Inl e \<Rightarrow> (Inl e, jobs)
                | Inr (grp, defn, version) \<Rightarrow> submit_missing env ld ns (jobs @ [(n, grp, defn)]) classes))"

definition run_job :: "('z, 'c) loader_env \<Rightarrow> schedule \<Rightarrow> job list \<Rightarrow> nat \<Rightarrow> (string \<times> 'z) option pyres" where
  "run_job env sched jobs i =
     (let (a, b, c) = sees sched i;
          grp = fst (snd (jobs ! a)); defn = snd (snd (jobs ! b));
          extract_path = extract_path_of (fst (snd (jobs ! c))) (snd (snd (jobs ! c)))
      in load_feature_definition (unzip_files env) (answer env grp defn) extract_path)"

definition job_files :: "('z, 'c) loader_env \<Rightarrow> schedule \<Rightarrow> job list \<Rightarrow> nat \<Rightarrow> 'z files \<Rightarrow> 'z files" where
  "job_files env sched jobs i fs =
     (case run_job env sched jobs i of Inr (Some (p, z)) \<Rightarrow> dict_put p z fs | _ \<Rightarrow> fs)"

definition job_future :: "('z, 'c) loader_env \<Rightarrow> schedule \<Rightarrow> job list \<Rightarrow> nat \<Rightarrow> string \<times> string option pyres" where
  "job_future env sched jobs i =
     (fst (jobs ! i), bindE (run_job env sched jobs i) (\<lambda>r. Inr (map_option fst r)))"

definition disk_after :: "('z, 'c) loader_env \<Rightarrow> schedule \<Rightarrow> job list \<Rightarrow> nat list \<Rightarrow> 'z files \<Rightarrow> 'z files" where
  "disk_after env sched jobs order fs = fold (job_files env sched jobs) order fs"

definition await_name ::
    "('z, 'c) loader_env \<Rightarrow> (string, string option pyres) dict \<Rightarrow> (string \<Rightarrow> 'z files) \<Rightarrow> string \<Rightarrow> (string, 'c) dict \<Rightarrow>
     (string, 'c) dict pyres" where
  "await_name env futs disk_at n classes =
     (case map_of futs n of
        None \<Rightarrow> Inr classes
      | Some future \<Rightarrow>
          bindE future (\<lambda>extract_path.
            case extract_path of
              None \<Rightarrow> Inl ValueError
            | Some p \<Rightarrow>
                bindE (load_local_class env (disk_at n) n) (\<lambda>clazz.
                  case clazz of None \<Rightarrow> Inl ValueError | Some c \<Rightarrow> Inr (dict_put n c classes))))"

definition collect_class :: "(string, 'c) dict \<Rightarrow> string \<Rightarrow> 'c pyres" where
  "collect_class classes n = (case map_of classes n of None \<Rightarrow> Inl ValueError | Some c \<Rightarrow> Inr c)"

definition load_many :: "('z, 'c) loader_env \<Rightarrow> schedule \<Rightarrow> string list \<Rightarrow> 'z loader \<Rightarrow> 'c list pyres \<times> 'z loader" where
  "load_many env sched fd_names ld =
     (let (submitted, jobs) = submit_missing env ld fd_names [] [];
          futs = futures ld @ map (job_future env sched jobs) [0..<length jobs];
          disk_at = (\<lambda>n. disk_after env sched jobs (take (finished_by sched n) (finish_order sched)) (disk ld))
      in (bindE submitted (\<lambda>classes.
            bindE (foldE (await_name env futs disk_at) fd_names classes) (\<lambda>classes.
              mapE (collect_class classes) fd_names)),
          \<lparr>futures = futs, disk = disk_after env sched jobs (finish_order sched) (disk ld)\<rparr>))"

definition load :: "('z, 'c) loader_env \<Rightarrow> schedule \<Rightarrow> string \<Rightarrow> 'z loader \<Rightarrow> 'c pyres \<times> 'z loader" where
  "load env sched fd_name ld =
     (let (res, ld') = load_many env sched [fd_name] ld in (bindE res (\<lambda>cs. py_nth cs 0), ld'))"

text \<open>What the interpreter and the pool allow: a job sees the values of its own iteration or of a later one,
  every job finishes once, and the job of a name has finished when its future has a result.\<close>

definition possible :: "schedule \<Rightarrow> job list \<Rightarrow> bool" where
  "possible sched jobs \<longleftrightarrow>
     (\<forall>i < length jobs. \<forall>(a, b, c) \<in> {sees sched i}. i \<le> a \<and> i \<le> b \<and> i \<le> c \<and>
        a < length jobs \<and> b < length jobs \<and> c < length jobs) \<and>
     distinct (finish_order sched) \<and> set (finish_order sched) = {0..<length jobs} \<and>
     (\<forall>i < length jobs. i \<in> set (take (finished_by sched (fst (jobs ! i))) (finish_order sched)))"

definition prompt :: "schedule \<Rightarrow> job list \<Rightarrow> bool" where
  "prompt sched jobs \<longleftrightarrow> (\<forall>i < length jobs. sees sched i = (i, i, i))"

section \<open>Results are in the order of the names\<close>

lemma load_many_length: "fst (load_many env sched ns ld) = Inr cs \<Longrightarrow> length cs = length ns"
  by (auto simp: load_many_def Let_def mapE_length split: prod.splits)

lemma submitted_classes:
  "fst (submit_missing env ld ns jobs classes) = Inr classes' \<Longrightarrow>
   map_of classes' n = Some c \<Longrightarrow> map_of classes n = Some c \<or> load_local_class env (disk ld) n = Inr (Some c)"
  by (induction env ld ns jobs classes rule: submit_missing.induct)
    (auto split: sum.splits option.splits if_splits prod.splits)

lemma awaited_classes:
  "foldE (await_name env futs disk_at) ns classes = Inr classes' \<Longrightarrow> map_of classes' n = Some c \<Longrightarrow>
   map_of classes n = Some c \<or> load_local_class env (disk_at n) n = Inr (Some c)"
proof (induction ns arbitrary: classes)
  case (Cons m ns)
  then obtain cl where step: "await_name env futs disk_at m classes = Inr cl"
    and "foldE (await_name env futs disk_at) ns cl = Inr classes'" by auto
  with Cons have "map_of cl n = Some c \<or> load_local_class env (disk_at n) n = Inr (Some c)" by simp
  with step show ?case by (auto simp: await_name_def split: option.splits if_splits)
qed simp

text \<open>A successful call returns, for every name in its place, the class that the name has with the files
  at hand before the call or at its wait.\<close>

theorem loaded_classes_in_order:
  assumes "fst (load_many env sched ns ld) = Inr cs" and "i < length ns"
  shows "\<exists>fs. load_local_class env fs (ns ! i) = Inr (Some (cs ! i))"
proof -
  obtain submitted jobs where sub: "submit_missing env ld ns [] [] = (submitted, jobs)" by (cases "submit_missing env ld ns [] []")
  define futs where "futs = futures ld @ map (job_future env sched jobs) [0..<length jobs]"
  define disk_at where "disk_at = (\<lambda>n. disk_after env sched jobs (take (finished_by sched n) (finish_order sched)) (disk ld))"
  from assms(1) obtain cl cl' where *: "submitted = Inr cl" "foldE (await_name env futs disk_at) ns cl = Inr cl'"
    "mapE (collect_class cl') ns = Inr cs" by (auto simp: load_many_def Let_def sub futs_def disk_at_def)
  from *(3) assms(2) have "collect_class cl' (ns ! i) = Inr (cs ! i)"
    by (auto simp: mapE_Inr_iff list_all2_conv_all_nth)
  then have "map_of cl' (ns ! i) = Some (cs ! i)" by (simp add: collect_class_def split: option.splits)
  from awaited_classes [OF *(2) this] submitted_classes [of env ld ns "[]" "[]" cl "ns ! i" "cs ! i"] sub *(1)
  show ?thesis by auto
qed

section \<open>Loading when every job runs at once\<close>

definition archive :: "('z, 'c) loader_env \<Rightarrow> string \<Rightarrow> string \<Rightarrow> 'z option" where
  "archive env grp defn =
     (case load_feature_definition (unzip_files env) (answer env grp defn) [] of
        Inr (Some (p, z)) \<Rightarrow> Some z | _ \<Rightarrow> None)"

text \<open>A name is either found with the files at hand, or not found there and its archive, once
  extracted, gives the class. No earlier call has asked for it.\<close>

definition obtainable :: "('z, 'c) loader_env \<Rightarrow> 'z loader \<Rightarrow> (string \<Rightarrow> 'c) \<Rightarrow> string \<Rightarrow> bool" where
  "obtainable env ld cls n \<longleftrightarrow> CHR ''/'' \<notin> set n \<and> \<not> dict_has (futures ld) n \<and>
     (load_local_class env (disk ld) n = Inr (Some (cls n)) \<or>
      load_local_class env (disk ld) n = Inr None \<and>
        (\<exists>grp defn z. parse_definition_name n = Inr (grp, defn, ''1'') \<and> archive env grp defn = Some z \<and>
           load_local_class env [(extract_path_of grp defn, z)] n = Inr (Some (cls n))))"

definition is_missing :: "('z, 'c) loader_env \<Rightarrow> 'z loader \<Rightarrow> string \<Rightarrow> bool" where
  "is_missing env ld n \<longleftrightarrow> load_local_class env (disk ld) n = Inr None"

definition job_of :: "job \<Rightarrow> string \<Rightarrow> bool" where
  "job_of j n \<longleftrightarrow> (\<exists>grp defn. j = (n, grp, defn) \<and> parse_definition_name n = Inr (grp, defn, ''1''))"

lemma archive_path:
  "archive env grp defn = Some z \<longleftrightarrow>
     load_feature_definition (unzip_files env) (answer env grp defn) p = Inr (Some (p, z))"
  by (auto simp: archive_def load_feature_definition_def split: sum.splits body.splits option.splits)

lemma load_local_class_at:
  assumes "parse_definition_name n = Inr (grp, defn, v)"
    and "map_of fs (extract_path_of grp defn) = map_of fs' (extract_path_of grp defn)"
  shows "load_local_class env fs n = load_local_class env fs' n"
proof -
  have "find_module env fs grp defn = find_module env fs' grp defn" by (simp only: find_module_def assms(2))
  with assms(1) show ?thesis by (simp add: load_local_class_def)
qed

lemma split_parts_subset: "x \<in> set (py_split sep s) \<Longrightarrow> set x \<subseteq> set s"
proof (induction sep s rule: py_split.induct)
  case (1 sep s)
  show ?case
  proof (cases "sep = [] \<or> py_find sep s = None")
    case True
    with 1(2) show ?thesis by (subst (asm) py_split.simps) (auto split: if_splits)
  next
    case False
    then obtain i where i: "sep \<noteq> []" "py_find sep s = Some i" by auto
    with 1(2) consider "x = take i s" | "x \<in> set (py_split sep (drop (i + length sep) s))"
      by (auto simp: py_split_Some)
    then show ?thesis
    proof cases
      case 2
      with 1(1) [OF i] show ?thesis using set_drop_subset by fastforce
    qed (simp add: set_take_subset)
  qed
qed

lemma parsed_parts:
  assumes "parse_definition_name n = Inr (grp, defn, v)"
  shows "set grp \<subseteq> set n" "set defn \<subseteq> set n"
proof -
  from assms have "grp \<in> set (py_split ''.'' n)" "defn \<in> set (py_split ''.'' n)"
    by (auto simp: parse_definition_name_def Let_def py_nth_def split: if_splits)
  then show "set grp \<subseteq> set n" "set defn \<subseteq> set n" by (simp_all add: split_parts_subset)
qed

lemma first_part_unique:
  "c \<notin> set xs \<Longrightarrow> c \<notin> set ys \<Longrightarrow> xs @ c # us = ys @ c # vs \<Longrightarrow> xs = ys \<and> us = vs"
proof (induction xs arbitrary: ys)
  case (Cons x xs)
  then show ?case by (cases ys) auto
qed (case_tac ys; simp)

lemma extract_path_inj:
  assumes "CHR ''/'' \<notin> set grp" "CHR ''/'' \<notin> set grp'" "extract_path_of grp defn = extract_path_of grp' defn'"
  shows "grp = grp' \<and> defn = defn'"
  using first_part_unique [OF assms(1,2)] assms(3) by (simp add: extract_path_of_def)

lemma disk_after_prompt:
  assumes "prompt sched jobs" "set order \<subseteq> {0..<length jobs}"
    and plain: "\<forall>(n, g, d) \<in> set jobs. CHR ''/'' \<notin> set g" "CHR ''/'' \<notin> set grp"
    and got: "\<exists>i \<in> set order. snd (jobs ! i) = (grp, defn)" "archive env grp defn = Some z"
  shows "map_of (disk_after env sched jobs order fs) (extract_path_of grp defn) = Some z"
  using assms(2) got(1)
proof (induction order rule: rev_induct)
  case (snoc i order)
  obtain n g d where j: "jobs ! i = (n, g, d)" by (cases "jobs ! i")
  have i: "i < length jobs" using snoc.prems by simp
  with plain(1) j have g: "CHR ''/'' \<notin> set g" by (metis (no_types, lifting) case_prodD nth_mem)
  let ?old = "disk_after env sched jobs order fs"
  have new: "disk_after env sched jobs (order @ [i]) fs = job_files env sched jobs i ?old" by (simp add: disk_after_def)
  have job: "run_job env sched jobs i = load_feature_definition (unzip_files env) (answer env g d) (extract_path_of g d)"
    using assms(1) i by (simp add: run_job_def prompt_def j)
  show ?case
  proof (cases "(g, d) = (grp, defn)")
    case True
    with job archive_path [of env grp defn z "extract_path_of g d"] got(2) show ?thesis
      by (simp add: new job_files_def)
  next
    case False
    then have "extract_path_of g d \<noteq> extract_path_of grp defn" using extract_path_inj [OF g plain(2)] by auto
    moreover have "map_of ?old (extract_path_of grp defn) = Some z" using snoc False j by auto
    moreover have "p = extract_path_of g d" if "run_job env sched jobs i = Inr (Some (p, z'))" for p z'
      using that unfolding job by (auto simp: load_feature_definition_def split: sum.splits)
    ultimately show ?thesis by (auto simp: new job_files_def split: sum.splits option.splits)
  qed
qed simp

lemma obtainable_missing:
  "obtainable env ld cls n \<Longrightarrow> \<not> is_missing env ld n \<Longrightarrow> load_local_class env (disk ld) n = Inr (Some (cls n))"
  by (auto simp: obtainable_def is_missing_def)

definition good_job :: "('z, 'c) loader_env \<Rightarrow> 'z loader \<Rightarrow> string list \<Rightarrow> job \<Rightarrow> bool" where
  "good_job env ld ns j \<longleftrightarrow> fst j \<in> set ns \<and> is_missing env ld (fst j) \<and> job_of j (fst j)"

lemma submit_missing_total:
  assumes "\<forall>n \<in> set ns. obtainable env ld cls n"
  shows "\<exists>cl js. submit_missing env ld ns jobs classes = (Inr cl, jobs @ js) \<and>
     (\<forall>j \<in> set js. good_job env ld ns j) \<and>
     (\<forall>n. map_of cl n = (if n \<in> set ns \<and> \<not> is_missing env ld n then Some (cls n) else map_of classes n)) \<and>
     (\<forall>n \<in> set ns. is_missing env ld n \<longrightarrow> n \<in> fst ` set jobs \<union> fst ` set js)"
  using assms
proof (induction ns arbitrary: jobs classes)
  case (Cons n ns)
  show ?case
  proof (cases "is_missing env ld n")
    case False
    with Cons.prems obtainable_missing have "load_local_class env (disk ld) n = Inr (Some (cls n))" by fastforce
    with Cons.IH [of jobs "dict_put n (cls n) classes"] Cons.prems False show ?thesis
      by (auto simp: good_job_def)
  next
    case True
    then have look: "load_local_class env (disk ld) n = Inr None" by (simp add: is_missing_def)
    with Cons.prems obtain grp defn where parse: "parse_definition_name n = Inr (grp, defn, ''1'')"
      and fresh: "\<not> dict_has (futures ld) n" by (auto simp: obtainable_def)
    show ?thesis
    proof (cases "n \<in> fst ` set jobs")
      case in_jobs: True
      with Cons.IH [of jobs classes] Cons.prems True look show ?thesis by (auto simp: good_job_def)
    next
      case new: False
      have "good_job env ld (n # ns) (n, grp, defn)" using True parse by (simp add: good_job_def job_of_def)
      with Cons.IH [of "jobs @ [(n, grp, defn)]" classes] Cons.prems True look parse fresh new show ?thesis
        by (auto simp: good_job_def)
    qed
  qed
qed simp

lemma await_local: "\<not> dict_has futs n \<Longrightarrow> await_name env futs disk_at n classes = Inr classes"
  by (simp add: await_name_def dict_has_iff split: option.split) (metis domI dom_map_of_conv_image_fst)

lemma await_all:
  assumes "\<And>n. n \<in> set ns \<Longrightarrow> \<not> dict_has futs n \<and> map_of classes n = Some (cls n) \<or>
      (\<exists>p. map_of futs n = Some (Inr (Some p))) \<and> load_local_class env (disk_at n) n = Inr (Some (cls n))"
  shows "\<exists>cl. foldE (await_name env futs disk_at) ns classes = Inr cl \<and>
    (\<forall>n. map_of cl n = (if n \<in> set ns then Some (cls n) else map_of classes n))"
  using assms
proof (induction ns arbitrary: classes)
  case (Cons n ns)
  from Cons.prems [of n] consider
      "\<not> dict_has futs n" "map_of classes n = Some (cls n)"
    | p where "map_of futs n = Some (Inr (Some p))" "load_local_class env (disk_at n) n = Inr (Some (cls n))" by auto
  then show ?case
  proof cases
    case 1
    with Cons.IH [of classes] Cons.prems await_local [of futs n env disk_at classes] show ?thesis by auto
  next
    case 2
    then have "await_name env futs disk_at n classes = Inr (dict_put n (cls n) classes)" by (simp add: await_name_def)
    moreover have "\<exists>cl. foldE (await_name env futs disk_at) ns (dict_put n (cls n) classes) = Inr cl \<and>
      (\<forall>m. map_of cl m = (if m \<in> set ns then Some (cls m) else map_of (dict_put n (cls n) classes) m))"
      by (rule Cons.IH) (use Cons.prems in auto)
    ultimately show ?thesis by auto
  qed
qed simp

lemma job_futures_map:
  "\<not> dict_has futs0 n \<Longrightarrow>
   map_of (futs0 @ map (job_future env sched jobs) [0..<length jobs]) n =
   map_of (map (job_future env sched jobs) [0..<length jobs]) n"
  by (simp add: map_add_def dict_has_iff map_of_eq_None_iff [symmetric] split: option.split) 

lemma good_future:
  assumes "prompt sched jobs" "\<forall>j \<in> set jobs. good_job env ld ns j" "\<forall>n \<in> set ns. obtainable env ld cls n"
    and "n \<in> fst ` set jobs"
  shows "\<exists>p. map_of (map (job_future env sched jobs) [0..<length jobs]) n = Some (Inr (Some p))"
proof -
  have each: "\<exists>p. snd (job_future env sched jobs i) = Inr (Some p)" if i: "i < length jobs" for i
  proof -
    obtain m g d where j: "jobs ! i = (m, g, d)" by (cases "jobs ! i")
    with i assms(2) have "good_job env ld ns (m, g, d)" by (metis nth_mem)
    with assms(3) obtain z where "archive env g d = Some z"
      by (fastforce simp: good_job_def job_of_def is_missing_def obtainable_def)
    with archive_path [of env g d z "extract_path_of g d"] assms(1) i j show ?thesis
      by (simp add: job_future_def run_job_def prompt_def)
  qed
  let ?fs = "map (job_future env sched jobs) [0..<length jobs]"
  from assms(4) obtain i where "i < length jobs" "fst (jobs ! i) = n" by (auto simp: in_set_conv_nth)
  then have "n \<in> fst ` set ?fs" by (force simp: job_future_def image_iff)
  then obtain v where v: "map_of ?fs n = Some v" by (metis map_of_eq_None_iff not_None_eq)
  then have "(n, v) \<in> set ?fs" by (rule map_of_SomeD)
  then obtain k where "k < length jobs" "(n, v) = job_future env sched jobs k" by auto
  with each [of k] v show ?thesis by (metis snd_conv)
qed

lemma missing_name_loaded:
  assumes obt: "\<forall>n \<in> set ns. obtainable env ld cls n" and good: "\<forall>j \<in> set jobs. good_job env ld ns j"
    and "possible sched jobs" "prompt sched jobs" and n: "n \<in> set ns" "is_missing env ld n" "n \<in> fst ` set jobs"
  defines "fs \<equiv> disk_after env sched jobs (take (finished_by sched n) (finish_order sched)) (disk ld)"
  shows "load_local_class env fs n = Inr (Some (cls n))"
proof -
  from n(3) obtain i where i: "i < length jobs" "fst (jobs ! i) = n" by (auto simp: in_set_conv_nth)
  with good have "job_of (jobs ! i) n" by (metis good_job_def nth_mem)
  then obtain grp defn where parse: "jobs ! i = (n, grp, defn)" "parse_definition_name n = Inr (grp, defn, ''1'')"
    by (auto simp: job_of_def)
  from obt n(1,2) parse(2) obtain z where z: "archive env grp defn = Some z"
    "load_local_class env [(extract_path_of grp defn, z)] n = Inr (Some (cls n))" "CHR ''/'' \<notin> set n"
    by (fastforce simp: obtainable_def is_missing_def)
  have slashes: "\<forall>(n, g, d) \<in> set jobs. CHR ''/'' \<notin> set g"
    using good obt parsed_parts(1) by (fastforce simp: good_job_def job_of_def obtainable_def)
  have "set (take (finished_by sched n) (finish_order sched)) \<subseteq> {0..<length jobs}"
    using assms(3) set_take_subset by (fastforce simp: possible_def)
  moreover have "\<exists>i \<in> set (take (finished_by sched n) (finish_order sched)). snd (jobs ! i) = (grp, defn)"
    using assms(3) i parse(1) by (intro bexI [of _ i]) (auto simp: possible_def)
  moreover have "CHR ''/'' \<notin> set grp" using parsed_parts(1) [OF parse(2)] z(3) by auto
  ultimately have "map_of fs (extract_path_of grp defn) = Some z"
    unfolding fs_def using disk_after_prompt [OF assms(4) _ slashes _ _ z(1)] by blast
  with load_local_class_at [OF parse(2), of fs "[(extract_path_of grp defn, z)]" env] z(2)
  show ?thesis by simp
qed

lemma one_job_is_prompt: "possible sched jobs \<Longrightarrow> length jobs \<le> 1 \<Longrightarrow> prompt sched jobs"
  by (auto simp: possible_def prompt_def less_Suc_eq_le le_Suc_eq)


section \<open>Dependencies of a definition\<close>

text \<open>\<open>dep_upstream_schema\<close> lists classes and names; the names are loaded in one call and everything is put
  back in its place. A place that is never written keeps the base class.\<close>

datatype 'c dep = Name string | Class 'c

fun dep_name :: "'c dep \<Rightarrow> string option" where
  "dep_name (Name n) = Some n"
| "dep_name (Class c) = None"

definition remote_names :: "'c dep list \<Rightarrow> string list" where
  "remote_names defs = List.map_filter dep_name defs"

definition remote_indices :: "'c dep list \<Rightarrow> nat list" where
  "remote_indices defs = filter (\<lambda>i. dep_name (defs ! i) \<noteq> None) [0..<length defs]"

definition local_defs :: "'c dep list \<Rightarrow> (nat \<times> 'c) list" where
  "local_defs defs = List.map_filter (\<lambda>(i, d). case d of Name n \<Rightarrow> None | Class c \<Rightarrow> Some (i, c)) (enumerate 0 defs)"

definition put_at :: "(nat \<times> 'c) list \<Rightarrow> 'c list \<Rightarrow> 'c list" where
  "put_at ps res = fold (\<lambda>(i, d) res. res[i := d]) ps res"

definition dep_upstream_definitions :: "'c \<Rightarrow> (string list \<Rightarrow> 'c list pyres) \<Rightarrow> 'c dep list \<Rightarrow> 'c list pyres" where
  "dep_upstream_definitions base load_names defs =
     bindE (if length (remote_names defs) \<noteq> 0 then load_names (remote_names defs) else Inr []) (\<lambda>remote_defs.
       Inr (put_at (zip (remote_indices defs) remote_defs)
             (put_at (local_defs defs) (replicate (length defs) base))))"

fun resolved :: "(string \<Rightarrow> 'c \<Rightarrow> bool) \<Rightarrow> 'c dep \<Rightarrow> 'c \<Rightarrow> bool" where
  "resolved P (Name n) c = P n c"
| "resolved P (Class c') c = (c = c')"

lemma put_at_length [simp]: "length (put_at ps res) = length res"
  by (induction ps arbitrary: res) (auto simp: put_at_def)

lemma put_at_nth:
  assumes "distinct (map fst ps)" "i < length res"
  shows "put_at ps res ! i = (case map_of ps i of Some d \<Rightarrow> d | None \<Rightarrow> res ! i)"
  using assms
proof (induction ps arbitrary: res)
  case (Cons p ps)
  then have "put_at (p # ps) res ! i = (case map_of ps i of Some d \<Rightarrow> d | None \<Rightarrow> res[fst p := snd p] ! i)"
    using Cons.IH [of "res[fst p := snd p]"] by (simp add: put_at_def case_prod_unfold)
  moreover have "map_of ps (fst p) = None" using Cons.prems(1) by (simp add: map_of_eq_None_iff)
  ultimately show ?case using Cons.prems(2) by (cases p) (simp add: nth_list_update split: option.split)
qed (simp add: put_at_def)

lemma local_defs_snoc:
  "local_defs (defs @ [d]) = local_defs defs @ (case d of Name n \<Rightarrow> [] | Class c \<Rightarrow> [(length defs, c)])"
  by (simp add: local_defs_def enumerate_append_eq map_filter_def split: dep.split)

lemma local_defs_at:
  "distinct (map fst (local_defs defs)) \<and>
   (\<forall>i. map_of (local_defs defs) i = (if i < length defs then (case defs ! i of Name n \<Rightarrow> None | Class c \<Rightarrow> Some c) else None))"
proof (induction defs rule: rev_induct)
  case (snoc d defs)
  then have d: "distinct (map fst (local_defs defs))"
    and m: "\<And>i. map_of (local_defs defs) i = (if i < length defs then (case defs ! i of Name n \<Rightarrow> None | Class c \<Rightarrow> Some c) else None)"
    by auto
  have "length defs \<notin> fst ` set (local_defs defs)" using m [of "length defs"] by (simp add: map_of_eq_None_iff)
  with d m show ?case
    by (auto simp: local_defs_snoc map_add_def nth_append less_Suc_eq split: dep.split option.split)
qed (simp add: local_defs_def map_filter_def)

lemma remote_snoc:
  "remote_names (defs @ [d]) = remote_names defs @ (case d of Name n \<Rightarrow> [n] | Class c \<Rightarrow> [])"
  "remote_indices (defs @ [d]) = remote_indices defs @ (case d of Name n \<Rightarrow> [length defs] | Class c \<Rightarrow> [])"
  by (auto simp: remote_names_def remote_indices_def map_filter_def nth_append split: dep.split intro!: filter_cong)

lemma remote_at:
  "length (remote_indices defs) = length (remote_names defs) \<and> distinct (remote_indices defs) \<and>
   (\<forall>k < length (remote_indices defs). remote_indices defs ! k < length defs \<and>
      defs ! (remote_indices defs ! k) = Name (remote_names defs ! k)) \<and>
   (\<forall>i < length defs. \<forall>n. defs ! i = Name n \<longrightarrow> i \<in> set (remote_indices defs))"
proof (induction defs rule: rev_induct)
  case (snoc d defs)
  then have "length defs \<notin> set (remote_indices defs)" by (auto simp: in_set_conv_nth)
  with snoc show ?case
    by (cases d) (auto simp: remote_snoc nth_append less_Suc_eq)
qed (simp add: remote_names_def remote_indices_def map_filter_def)

text \<open>A loader answers a list of names with a list of the same length, in which each class goes by its
  name.\<close>

locale loads_names =
  fixes load_names :: "string list \<Rightarrow> 'c list pyres" and goes_by :: "string \<Rightarrow> 'c \<Rightarrow> bool"
  assumes load_length: "load_names ns = Inr cs \<Longrightarrow> length cs = length ns"
    and load_names_each: "load_names ns = Inr cs \<Longrightarrow> i < length ns \<Longrightarrow> goes_by (ns ! i) (cs ! i)"
begin

lemma deps_in_place:
  assumes run: "dep_upstream_definitions base load_names defs = Inr res"
  shows "list_all2 (resolved goes_by) defs res"
proof -
  let ?names = "remote_names defs" and ?at = "remote_indices defs"
  from run obtain cs where cs: "length cs = length ?names" "\<And>k. k < length cs \<Longrightarrow> goes_by (?names ! k) (cs ! k)"
    and res: "res = put_at (zip ?at cs) (put_at (local_defs defs) (replicate (length defs) base))"
    by (cases "remote_names defs = []") (force simp: dep_upstream_definitions_def dest: load_length load_names_each)+
  have lens: "length ?at = length cs" and dist: "distinct ?at"
    and at: "\<And>k. k < length cs \<Longrightarrow> ?at ! k < length defs \<and> defs ! (?at ! k) = Name (?names ! k)"
    and all: "\<And>i n. i < length defs \<Longrightarrow> defs ! i = Name n \<Longrightarrow> i \<in> set ?at"
    using remote_at [of defs] cs(1) by auto
  have keys: "distinct (map fst (zip ?at cs))" using lens dist by simp
  have "resolved goes_by (defs ! i) (res ! i)" if i: "i < length defs" for i
  proof (cases "defs ! i")
    case (Name n)
    with all [OF i] obtain k where k: "k < length cs" "?at ! k = i" using lens by (auto simp: in_set_conv_nth)
    then have "map_of (zip ?at cs) i = Some (cs ! k)" using keys lens
      by (intro map_of_is_SomeI) (auto simp: set_zip)
    with k at [OF k(1)] cs(2) [OF k(1)] Name i keys show ?thesis by (simp add: res put_at_nth)
  next
    case (Class c)
    have "i \<notin> set ?at" using at Class lens by (auto simp: in_set_conv_nth)
    then have "map_of (zip ?at cs) i = None" using lens by (simp add: map_of_zip_is_None)
    with Class i keys local_defs_at [of defs] show ?thesis by (simp add: res put_at_nth)
  qed
  moreover have "length res = length defs" by (simp add: res)
  ultimately show ?thesis by (simp add: list_all2_conv_all_nth)
qed

end

interpretation loader: loads_names "\<lambda>ns. fst (load_many env sched ns ld)"
    "\<lambda>n c. \<exists>fs. load_local_class env fs n = Inr (Some c)" for env sched ld
  by unfold_locales (rule load_many_length, assumption, rule loaded_classes_in_order)

text \<open>The dependencies are returned in the order of the schema, classes as they are and each name as a
  class that goes by it.\<close>

theorem dependencies_keep_their_places:
  "dep_upstream_definitions base (\<lambda>ns. fst (load_many env sched ns ld)) defs = Inr res \<Longrightarrow>
   list_all2 (resolved (\<lambda>n c. \<exists>fs. load_local_class env fs n = Inr (Some c))) defs res"
  by (rule loader.deps_in_place)

section \<open>What goes wrong\<close>

text \<open>A name whose future found nothing is refused by every later call, also when its class has come to
  be at hand; and no call asks the server for it again.\<close>

theorem failed_name_stays_failed:
  assumes "map_of (futures ld) n = Some (Inr None)" and "load_local_class env (disk ld) n = Inr found"
  shows "load env sched n ld = (Inl ValueError,
    \<lparr>futures = futures ld, disk = disk_after env sched [] (finish_order sched) (disk ld)\<rparr>)"
  using assms dict_has_SomeD [OF assms(1)]
  by (cases found) (simp_all add: load_def load_many_def Let_def await_name_def)

text \<open>The two definitions of the sample are both on the server. When both jobs run after the loop, both
  fetch the second one, the call fails on the first, and the first cannot be loaded afterwards.\<close>

definition sample_env :: "(string, string) loader_env" where
  "sample_env = \<lparr>pascalize = (\<lambda>s. s), packaged = (\<lambda>m. None),
     module_in = (\<lambda>z defn. if z = defn then Some (\<lambda>c. if c = defn then Some (''class '' @ defn) else None) else None),
     answer = (\<lambda>grp defn. Bytes defn), unzip_files = (\<lambda>b. case b of Bytes z \<Rightarrow> Inr z | Json v \<Rightarrow> Inl ValueError)\<rparr>"

definition late_schedule :: schedule where
  "late_schedule = \<lparr>sees = (\<lambda>i. (1, 1, 1)), finish_order = [0, 1], finished_by = (\<lambda>n. 2)\<rparr>"

definition prompt_schedule :: schedule where
  "prompt_schedule = \<lparr>sees = (\<lambda>i. (i, i, i)), finish_order = [1, 0], finished_by = (\<lambda>n. 2)\<rparr>"

definition empty_loader :: "string loader" where
  "empty_loader = \<lparr>futures = [], disk = []\<rparr>"

lemma sample_jobs:
  "snd (submit_missing sample_env empty_loader [''g.a'', ''g.b''] [] []) = [(''g.a'', ''g'', ''a''), (''g.b'', ''g'', ''b'')]"
  by code_simp

lemma late_schedule_is_possible: "possible late_schedule [(''g.a'', ''g'', ''a''), (''g.b'', ''g'', ''b'')]"
  by (auto simp: possible_def late_schedule_def less_Suc_eq)

lemma prompt_schedule_is_possible: "possible prompt_schedule [(''g.a'', ''g'', ''a''), (''g.b'', ''g'', ''b'')]"
  by (auto simp: possible_def prompt_schedule_def less_Suc_eq)

lemma prompt_sample:
  "fst (load_many sample_env prompt_schedule [''g.a'', ''g.b''] empty_loader) = Inr [''class a'', ''class b'']"
  by code_simp

lemma late_jobs_fetch_the_last:
  "fst (load_many sample_env late_schedule [''g.a'', ''g.b''] empty_loader) = Inl ValueError"
  "fst (load sample_env \<lparr>sees = (\<lambda>i. (i, i, i)), finish_order = [], finished_by = (\<lambda>n. 0)\<rparr> ''g.a''
     (snd (load_many sample_env late_schedule [''g.a'', ''g.b''] empty_loader))) = Inl ValueError"
  by code_simp+


theorem dependencies_keep_their_places_witness:
  "dep_upstream_definitions ''base'' (\<lambda>ns. fst (load_many sample_env prompt_schedule ns empty_loader))
     [Name ''g.b'', Class ''own'', Name ''g.a''] = Inr [''class b'', ''own'', ''class a''] \<and>
   list_all2 (resolved (\<lambda>n c. \<exists>fs. load_local_class sample_env fs n = Inr (Some c)))
     [Name ''g.b'', Class ''own'', Name ''g.a''] [''class b'', ''own'', ''class a'']"
proof -
  have run: "dep_upstream_definitions ''base'' (\<lambda>ns. fst (load_many sample_env prompt_schedule ns empty_loader))
     [Name ''g.b'', Class ''own'', Name ''g.a''] = Inr [''class b'', ''own'', ''class a'']" by code_simp
  with dependencies_keep_their_places [OF run] show ?thesis by simp
qed


end
