(* ===== verification/VpcMesh.thy ===== *)
theory VpcMesh
  imports PyValue PyString
begin

text \<open>
  The scripts that write the configuration of the clusters' networks:
  terraform/gen_terraform_vpc_mesh_json.py, which connects every pair of VPCs,
  helm/template_helmfile.py, which writes the values of each cluster, and
  kops/cilium/setup_cluster_mesh.py, which joins the clusters. Reading and writing files and running
  commands are left out: the scripts are functions from the parsed input to what they write or run.
\<close>

section \<open>Names\<close>

abbreviation quote_mark :: string where
  "quote_mark \<equiv> [CHR 0x22]"

definition vpc_output_values :: "string list" where
  "vpc_output_values = [''vpc_id'', ''vpc_cidr_block'', ''public_subnets'', ''private_subnets'', ''azs'',
     ''default_security_group_id'', ''natgw_ids'']"

definition get_vpcs_module_output :: "string \<Rightarrow> string \<Rightarrow> string" where
  "get_vpcs_module_output vpc_name output_name =
     ''${module.vpcs.vpcs_output['' @ quote_mark @ vpc_name @ quote_mark @ '']['' @ quote_mark @ output_name @ quote_mark @ '']}''"

definition get_peering_connection :: "string \<Rightarrow> string \<Rightarrow> string" where
  "get_peering_connection requester accepter = ''r-'' @ requester @ ''-to-'' @ accepter"

definition get_peering_connection_accepter :: "string \<Rightarrow> string" where
  "get_peering_connection_accepter vpc_name = ''a-'' @ vpc_name"

definition get_route_tables :: "string \<Rightarrow> string" where
  "get_route_tables vpc_name = ''rts-'' @ vpc_name"

definition get_common_sg :: "string \<Rightarrow> string" where
  "get_common_sg vpc_name = ''common-'' @ vpc_name"

definition get_routes :: "string \<Rightarrow> string \<Rightarrow> string" where
  "get_routes requester accepter = ''routes-'' @ requester @ ''-to-'' @ accepter"

type_synonym vpc_config = "(string, pydict) dict"

definition get_region :: "vpc_config \<Rightarrow> string \<Rightarrow> pyval pyres" where
  "get_region input_config vpc_name =
     bindE (dict_lookup input_config vpc_name) (\<lambda>d. dict_lookup d ''region'')"

text \<open>The alias of a provider is its region, which is joined to a text and so must be one.\<close>

definition get_provider :: "vpc_config \<Rightarrow> string \<Rightarrow> pyval pyres" where
  "get_provider input_config vpc_name =
     bindE (get_region input_config vpc_name) (\<lambda>r.
       case r of PStr s \<Rightarrow> Inr (PStr (''aws.'' @ s)) | _ \<Rightarrow> Inl TypeError)"

section \<open>Blocks of one VPC\<close>

definition resource_block :: "string \<Rightarrow> string \<Rightarrow> pydict \<Rightarrow> pyval" where
  "resource_block kind name body = PDict [(''resource'', PDict [(kind, PDict [(name, PDict body)])])]"

definition provider_block :: "pyval \<Rightarrow> pyval" where
  "provider_block region = PDict [(''provider'', PDict [(''aws'', PDict [(''region'', region),
     (''shared_credentials_file'', PStr ''~/.aws/credentials''), (''alias'', region)])])]"

definition vpc_inputs :: "pydict \<Rightarrow> pydict \<Rightarrow> pydict" where
  "vpc_inputs cfg body = fold (\<lambda>(k, v) d. if k \<in> {''region''} then d else dict_put k v d) cfg body"

definition vpc_block :: "string \<Rightarrow> pyval \<Rightarrow> pydict \<Rightarrow> pyval" where
  "vpc_block vpc_name prov cfg = PDict [(''module'', PDict [(vpc_name, PDict (vpc_inputs cfg
     [(''source'', PStr ''terraform-aws-modules/vpc/aws''), (''name'', PStr vpc_name),
      (''providers'', PDict [(''aws'', prov)])]))])]"

definition vpc_output :: "string \<Rightarrow> pyval \<Rightarrow> pyval" where
  "vpc_output vpc_name region = PDict (dict_put ''region'' region
     (map (\<lambda>v. (v, PStr (''${module.'' @ vpc_name @ ''.'' @ v @ ''}''))) vpc_output_values))"

definition route_tables_block :: "string \<Rightarrow> pyval \<Rightarrow> pyval" where
  "route_tables_block vpc_name prov = PDict [(''data'', PDict [(''aws_route_tables'', PDict [(get_route_tables vpc_name,
     PDict [(''vpc_id'', PStr (get_vpcs_module_output vpc_name ''vpc_id'')), (''provider'', prov)])])])]"

definition security_group_block :: "string \<Rightarrow> pyval \<Rightarrow> pyval" where
  "security_group_block vpc_name prov = resource_block ''aws_security_group'' (get_common_sg vpc_name)
     [(''name'', PStr (get_common_sg vpc_name)),
      (''vpc_id'', PStr (get_vpcs_module_output vpc_name ''vpc_id'')),
      (''ingress'', PList [PDict [(''description'', PStr ''Connectivity test''), (''from_port'', PInt 0),
         (''protocol'', PInt (- 1)), (''to_port'', PInt 0), (''cidr_blocks'', PList [PStr ''0.0.0.0/0'']),
         (''ipv6_cidr_blocks'', PList []), (''prefix_list_ids'', PList []), (''security_groups'', PList []),
         (''self'', PBool False)]]),
      (''provider'', prov)]"

definition mesh_output :: "string \<Rightarrow> pyval \<Rightarrow> pyval" where
  "mesh_output vpc_name region = PDict (dict_put ''security_group_override''
     (PStr (''${aws_security_group.'' @ get_common_sg vpc_name @ ''.id}''))
     (dict_put ''region'' region
       (map (\<lambda>v. (v, PStr (get_vpcs_module_output vpc_name v))) vpc_output_values)))"

record vpc_tables =
  providers :: "(string, pyval) dict"
  vpcs :: "(string, pyval) dict"
  vpcs_output :: pydict
  route_tables_data :: "(string, pyval) dict"
  security_groups :: "(string, pyval) dict"

definition add_vpc :: "vpc_config \<Rightarrow> string \<Rightarrow> vpc_tables \<Rightarrow> vpc_tables pyres" where
  "add_vpc input_config vpc_name t =
     bindE (dict_lookup input_config vpc_name) (\<lambda>cfg.
     bindE (get_region input_config vpc_name) (\<lambda>region.
     bindE (get_provider input_config vpc_name) (\<lambda>prov.
       Inr \<lparr>providers = dict_put vpc_name (provider_block region) (providers t),
            vpcs = dict_put vpc_name (vpc_block vpc_name prov cfg) (vpcs t),
            vpcs_output = dict_put vpc_name (vpc_output vpc_name region) (vpcs_output t),
            route_tables_data = dict_put vpc_name (route_tables_block vpc_name prov) (route_tables_data t),
            security_groups = dict_put vpc_name (security_group_block vpc_name prov) (security_groups t)\<rparr>)))"

section \<open>Blocks of a pair\<close>

definition peering_id :: "string \<Rightarrow> string \<Rightarrow> string" where
  "peering_id a b = ''${aws_vpc_peering_connection.'' @ get_peering_connection a b @ ''.id}''"

definition accepter_id :: "string \<Rightarrow> string" where
  "accepter_id b = ''${aws_vpc_peering_connection_accepter.'' @ get_peering_connection_accepter b @ ''.id}''"

definition peering_blocks :: "string \<Rightarrow> string \<Rightarrow> pyval \<Rightarrow> pyval \<Rightarrow> pyval \<Rightarrow> pyval list" where
  "peering_blocks a b prov_a prov_b region_b =
     [resource_block ''aws_vpc_peering_connection'' (get_peering_connection a b)
        [(''provider'', prov_a), (''vpc_id'', PStr (get_vpcs_module_output a ''vpc_id'')),
         (''peer_vpc_id'', PStr (get_vpcs_module_output b ''vpc_id'')), (''peer_region'', region_b),
         (''tags'', PDict [(''Side'', PStr ''Requester'')]),
         (''timeouts'', PDict [(''create'', PStr ''10m''), (''delete'', PStr ''10m'')])],
      resource_block ''aws_vpc_peering_connection_accepter'' (get_peering_connection_accepter b)
        [(''provider'', prov_b), (''vpc_peering_connection_id'', PStr (peering_id a b)),
         (''auto_accept'', PBool True), (''tags'', PDict [(''Side'', PStr ''Accepter'')])]]"

definition peering_flags :: pyval where
  "peering_flags = PDict [(''allow_remote_vpc_dns_resolution'', PBool True),
     (''allow_classic_link_to_remote_vpc'', PBool True), (''allow_vpc_to_remote_classic_link'', PBool True)]"

definition option_blocks :: "string \<Rightarrow> string \<Rightarrow> pyval \<Rightarrow> pyval \<Rightarrow> pyval list" where
  "option_blocks a b prov_a prov_b =
     [resource_block ''aws_vpc_peering_connection_options'' (get_peering_connection a b)
        [(''provider'', prov_a), (''vpc_peering_connection_id'', PStr (accepter_id b)), (''requester'', peering_flags)],
      resource_block ''aws_vpc_peering_connection_options'' (get_peering_connection_accepter b)
        [(''provider'', prov_b), (''vpc_peering_connection_id'', PStr (accepter_id b)), (''accepter'', peering_flags)]]"

definition route_block :: "string \<Rightarrow> string \<Rightarrow> pyval \<Rightarrow> string \<Rightarrow> pyval" where
  "route_block from_vpc to_vpc prov peering = resource_block ''aws_route'' (get_routes from_vpc to_vpc)
     [(''count'', PStr (''${length(data.aws_route_tables.'' @ get_route_tables from_vpc @ ''.ids)}'')),
      (''route_table_id'', PStr (''${tolist(data.aws_route_tables.'' @ get_route_tables from_vpc @ ''.ids)[count.index]}'')),
      (''provider'', prov),
      (''destination_cidr_block'', PStr (get_vpcs_module_output to_vpc ''vpc_cidr_block'')),
      (''vpc_peering_connection_id'', PStr peering)]"

fun combinations2 :: "'a list \<Rightarrow> ('a \<times> 'a) list" where
  "combinations2 [] = []"
| "combinations2 (x # xs) = map (Pair x) xs @ combinations2 xs"

record pair_tables =
  peerings :: "pyval list"
  peering_options :: "pyval list"
  routes :: "pyval list"

definition add_pair :: "vpc_config \<Rightarrow> string \<times> string \<Rightarrow> pair_tables \<Rightarrow> pair_tables pyres" where
  "add_pair input_config p t =
     (let (a, b) = p in
      bindE (get_provider input_config a) (\<lambda>prov_a.
      bindE (get_region input_config b) (\<lambda>region_b.
      bindE (get_provider input_config b) (\<lambda>prov_b.
        Inr \<lparr>peerings = peerings t @ peering_blocks a b prov_a prov_b region_b,
             peering_options = peering_options t @ option_blocks a b prov_a prov_b,
             routes = routes t @ [route_block a b prov_a (peering_id a b), route_block b a prov_b (peering_id a b)]\<rparr>))))"

section \<open>The two files\<close>

definition output_block :: "string \<Rightarrow> pydict \<Rightarrow> pyval" where
  "output_block name value = PDict [(''output'', PDict [(name, PDict [(''value'', PDict value)])])]"

definition add_mesh_output :: "vpc_config \<Rightarrow> string \<Rightarrow> pydict \<Rightarrow> pydict pyres" where
  "add_mesh_output input_config vpc_name out =
     bindE (get_region input_config vpc_name) (\<lambda>region. Inr (dict_put vpc_name (mesh_output vpc_name region) out))"

definition gen_vpc_mesh :: "vpc_config \<Rightarrow> (pyval list \<times> pyval list) pyres" where
  "gen_vpc_mesh input_config =
     (let names = dict_keys input_config in
      bindE (foldE (add_vpc input_config) names
               \<lparr>providers = [], vpcs = [], vpcs_output = [], route_tables_data = [], security_groups = []\<rparr>) (\<lambda>t.
      bindE (foldE (add_pair input_config) (combinations2 names) \<lparr>peerings = [], peering_options = [], routes = []\<rparr>) (\<lambda>m.
      bindE (foldE (add_mesh_output input_config) names []) (\<lambda>out.
        Inr (map snd (providers t) @ map snd (vpcs t) @ [output_block ''vpcs_output'' (vpcs_output t)],
             map snd (providers t) @ [PDict [(''module'', PDict [(''vpcs'', PDict [(''source'', PStr ''./vpcs'')])])]] @
             map snd (route_tables_data t) @ map snd (security_groups t) @
             peerings m @ peering_options m @ routes m @ [output_block ''vpc_mesh_output'' out])))))"

section \<open>Every pair is connected\<close>

text \<open>The type and the name that Terraform knows a resource by.\<close>

fun block_address :: "pyval \<Rightarrow> (string \<times> string) option" where
  "block_address (PDict [(key, PDict [(kind, PDict [(name, body)])])]) = (if key = ''resource'' then Some (kind, name) else None)"
| "block_address v = None"

definition addresses :: "pyval list \<Rightarrow> (string \<times> string) list" where
  "addresses = List.map_filter block_address"

definition provider_alias :: "pyval \<Rightarrow> pyval pyres" where
  "provider_alias v = bindE (pv_get v ''provider'') (\<lambda>p. bindE (pv_get p ''aws'') (\<lambda>a. pv_get a ''alias''))"

lemma addresses_append [simp]: "addresses (xs @ ys) = addresses xs @ addresses ys"
  by (simp add: addresses_def map_filter_def)

lemma resource_address [simp]: "block_address (resource_block kind name body) = Some (kind, name)"
  by (simp add: resource_block_def)

definition has_regions :: "vpc_config \<Rightarrow> bool" where
  "has_regions cfg \<longleftrightarrow> dict_wf cfg \<and> (\<forall>(n, d) \<in> set cfg. \<exists>r. map_of d ''region'' = Some (PStr r))"

definition region_text :: "vpc_config \<Rightarrow> string \<Rightarrow> string" where
  "region_text cfg n = (case map_of cfg n of None \<Rightarrow> [] | Some d \<Rightarrow>
     (case map_of d ''region'' of Some (PStr r) \<Rightarrow> r | _ \<Rightarrow> []))"

lemma get_region_text:
  assumes "has_regions cfg" "n \<in> set (dict_keys cfg)"
  shows "\<exists>d. map_of cfg n = Some d" "get_region cfg n = Inr (PStr (region_text cfg n))"
    "get_provider cfg n = Inr (PStr (''aws.'' @ region_text cfg n))"
proof -
  from assms obtain d where d: "map_of cfg n = Some d" by (metis map_of_eq_None_iff list.set_map not_None_eq)
  then have "(n, d) \<in> set cfg" by (rule map_of_SomeD)
  with assms(1) obtain r where "map_of d ''region'' = Some (PStr r)" by (auto simp: has_regions_def)
  with d show "\<exists>d. map_of cfg n = Some d" "get_region cfg n = Inr (PStr (region_text cfg n))"
    "get_provider cfg n = Inr (PStr (''aws.'' @ region_text cfg n))"
    by (simp_all add: get_provider_def get_region_def region_text_def dict_lookup_def)
qed

definition provider_of :: "vpc_config \<Rightarrow> string \<Rightarrow> pyval" where
  "provider_of cfg n = PStr (''aws.'' @ region_text cfg n)"

lemma combinations2_iff: "(a, b) \<in> set (combinations2 xs) \<longleftrightarrow> (\<exists>i j. i < j \<and> j < length xs \<and> a = xs ! i \<and> b = xs ! j)"
proof (induction xs)
  case (Cons x xs)
  show ?case
  proof
    assume "(a, b) \<in> set (combinations2 (x # xs))"
    then consider "a = x" "b \<in> set xs" | "(a, b) \<in> set (combinations2 xs)" by auto
    then show "\<exists>i j. i < j \<and> j < length (x # xs) \<and> a = (x # xs) ! i \<and> b = (x # xs) ! j"
    proof cases
      case 1
      then obtain j where "j < length xs" "b = xs ! j" by (auto simp: in_set_conv_nth)
      with 1 show ?thesis by (intro exI [of _ 0] exI [of _ "Suc j"]) simp
    next
      case 2
      with Cons obtain i j where "i < j" "j < length xs" "a = xs ! i" "b = xs ! j" by auto
      then show ?thesis by (intro exI [of _ "Suc i"] exI [of _ "Suc j"]) simp
    qed
  next
    assume "\<exists>i j. i < j \<and> j < length (x # xs) \<and> a = (x # xs) ! i \<and> b = (x # xs) ! j"
    then obtain i j where ij: "i < j" "j < length (x # xs)" "a = (x # xs) ! i" "b = (x # xs) ! j" by blast
    then obtain k where k: "j = Suc k" "k < length xs" "b = xs ! k" by (cases j) auto
    show "(a, b) \<in> set (combinations2 (x # xs))"
    proof (cases i)
      case (Suc l)
      with ij k have "l < k" "a = xs ! l" by simp_all
      with k Cons have "(a, b) \<in> set (combinations2 xs)" by blast
      then show ?thesis by simp
    qed (use ij k in simp)
  qed
qed simp

lemma combinations2_in: "(a, b) \<in> set (combinations2 xs) \<Longrightarrow> a \<in> set xs \<and> b \<in> set xs"
  by (induction xs) auto

lemma length_combinations2: "2 * length (combinations2 xs) = length xs * (length xs - 1)"
proof (induction xs)
  case (Cons x xs)
  then show ?case by (cases xs) (simp_all add: algebra_simps)
qed simp

definition pair_peerings :: "vpc_config \<Rightarrow> string \<times> string \<Rightarrow> pyval list" where
  "pair_peerings cfg p = peering_blocks (fst p) (snd p) (provider_of cfg (fst p)) (provider_of cfg (snd p)) (PStr (region_text cfg (snd p)))"

definition pair_options :: "vpc_config \<Rightarrow> string \<times> string \<Rightarrow> pyval list" where
  "pair_options cfg p = option_blocks (fst p) (snd p) (provider_of cfg (fst p)) (provider_of cfg (snd p))"

definition pair_routes :: "vpc_config \<Rightarrow> string \<times> string \<Rightarrow> pyval list" where
  "pair_routes cfg p =
     [route_block (fst p) (snd p) (provider_of cfg (fst p)) (peering_id (fst p) (snd p)),
      route_block (snd p) (fst p) (provider_of cfg (snd p)) (peering_id (fst p) (snd p))]"

lemma add_pairs:
  assumes "has_regions cfg" "\<forall>(a, b) \<in> set ps. a \<in> set (dict_keys cfg) \<and> b \<in> set (dict_keys cfg)"
  shows "foldE (add_pair cfg) ps t = Inr \<lparr>peerings = peerings t @ concat (map (pair_peerings cfg) ps),
    peering_options = peering_options t @ concat (map (pair_options cfg) ps),
    routes = routes t @ concat (map (pair_routes cfg) ps)\<rparr>"
  using assms(2)
proof (induction ps arbitrary: t)
  case (Cons p ps)
  then have "fst p \<in> set (dict_keys cfg)" "snd p \<in> set (dict_keys cfg)" by (simp_all add: case_prod_unfold)
  note here = get_region_text [OF assms(1) this(1)] get_region_text [OF assms(1) this(2)]
  have "add_pair cfg p t = Inr \<lparr>peerings = peerings t @ pair_peerings cfg p,
    peering_options = peering_options t @ pair_options cfg p, routes = routes t @ pair_routes cfg p\<rparr>"
    by (simp add: add_pair_def here pair_peerings_def pair_options_def pair_routes_def provider_of_def case_prod_unfold)
  with Cons show ?case by simp
qed simp

definition the_region :: "vpc_config \<Rightarrow> string \<Rightarrow> pyval" where
  "the_region cfg n = PStr (region_text cfg n)"

lemma add_vpcs:
  assumes "has_regions cfg" "set ns \<subseteq> set (dict_keys cfg)" "distinct ns" "set ns \<inter> fst ` set (providers t) = {}"
    "fst ` set (route_tables_data t) \<subseteq> fst ` set (providers t)" "fst ` set (security_groups t) \<subseteq> fst ` set (providers t)"
  shows "\<exists>t'. foldE (add_vpc cfg) ns t = Inr t' \<and>
    providers t' = providers t @ map (\<lambda>n. (n, provider_block (the_region cfg n))) ns \<and>
    route_tables_data t' = route_tables_data t @ map (\<lambda>n. (n, route_tables_block n (provider_of cfg n))) ns \<and>
    security_groups t' = security_groups t @ map (\<lambda>n. (n, security_group_block n (provider_of cfg n))) ns"
  using assms(2-)
proof (induction ns arbitrary: t)
  case (Cons n ns)
  then have n: "n \<in> set (dict_keys cfg)" by simp
  from get_region_text(1) [OF assms(1) n] obtain d where d: "map_of cfg n = Some d" by blast
  have fresh: "n \<notin> fst ` set (providers t)" "n \<notin> fst ` set (route_tables_data t)" "n \<notin> fst ` set (security_groups t)"
    using Cons.prems by auto
  obtain t1 where t1: "add_vpc cfg n t = Inr t1" "providers t1 = providers t @ [(n, provider_block (the_region cfg n))]"
    "route_tables_data t1 = route_tables_data t @ [(n, route_tables_block n (provider_of cfg n))]"
    "security_groups t1 = security_groups t @ [(n, security_group_block n (provider_of cfg n))]"
    by (simp add: add_vpc_def d dict_lookup_def get_region_text(2,3) [OF assms(1) n] the_region_def provider_of_def
      fresh dict_put_fresh)
  have "\<exists>t'. foldE (add_vpc cfg) ns t1 = Inr t' \<and>
    providers t' = providers t1 @ map (\<lambda>n. (n, provider_block (the_region cfg n))) ns \<and>
    route_tables_data t' = route_tables_data t1 @ map (\<lambda>n. (n, route_tables_block n (provider_of cfg n))) ns \<and>
    security_groups t' = security_groups t1 @ map (\<lambda>n. (n, security_group_block n (provider_of cfg n))) ns"
    by (rule Cons.IH) (use Cons.prems t1 in auto)
  with t1 show ?case by auto
qed simp

lemma add_outputs:
  assumes "has_regions cfg" "set ns \<subseteq> set (dict_keys cfg)"
  shows "\<exists>out'. foldE (add_mesh_output cfg) ns out = Inr out'"
  using assms(2)
proof (induction ns arbitrary: out)
  case (Cons n ns)
  then show ?case using get_region_text(2) [OF assms(1), of n] by (simp add: add_mesh_output_def)
qed simp

text \<open>What the mesh file holds, for a configuration in which every VPC has a region.\<close>

lemma mesh_contents:
  assumes "has_regions cfg"
  shows "\<exists>vpc_file out. gen_vpc_mesh cfg = Inr (vpc_file,
    map (\<lambda>n. provider_block (the_region cfg n)) (dict_keys cfg) @
    [PDict [(''module'', PDict [(''vpcs'', PDict [(''source'', PStr ''./vpcs'')])])]] @
    map (\<lambda>n. route_tables_block n (provider_of cfg n)) (dict_keys cfg) @
    map (\<lambda>n. security_group_block n (provider_of cfg n)) (dict_keys cfg) @
    concat (map (pair_peerings cfg) (combinations2 (dict_keys cfg))) @
    concat (map (pair_options cfg) (combinations2 (dict_keys cfg))) @
    concat (map (pair_routes cfg) (combinations2 (dict_keys cfg))) @ [output_block ''vpc_mesh_output'' out])"
proof -
  have keys: "distinct (dict_keys cfg)" using assms by (simp add: has_regions_def dict_wf_def)
  let ?t0 = "\<lparr>providers = [], vpcs = [], vpcs_output = [], route_tables_data = [], security_groups = []\<rparr>"
  obtain t where t: "foldE (add_vpc cfg) (dict_keys cfg) ?t0 = Inr t"
    "providers t = map (\<lambda>n. (n, provider_block (the_region cfg n))) (dict_keys cfg)"
    "route_tables_data t = map (\<lambda>n. (n, route_tables_block n (provider_of cfg n))) (dict_keys cfg)"
    "security_groups t = map (\<lambda>n. (n, security_group_block n (provider_of cfg n))) (dict_keys cfg)"
    using add_vpcs [OF assms order_refl keys, of ?t0] by auto
  have "\<forall>(a, b) \<in> set (combinations2 (dict_keys cfg)). a \<in> set (dict_keys cfg) \<and> b \<in> set (dict_keys cfg)"
    using combinations2_in [of _ _ "dict_keys cfg"] by blast
  note pairs = add_pairs [OF assms this, of "\<lparr>peerings = [], peering_options = [], routes = []\<rparr>"]
  obtain out where "foldE (add_mesh_output cfg) (dict_keys cfg) [] = Inr out" using add_outputs [OF assms order_refl] by blast
  with t pairs have "\<exists>vpc_file. gen_vpc_mesh cfg = Inr (vpc_file, map snd (providers t) @
    [PDict [(''module'', PDict [(''vpcs'', PDict [(''source'', PStr ''./vpcs'')])])]] @
    map snd (route_tables_data t) @ map snd (security_groups t) @
    concat (map (pair_peerings cfg) (combinations2 (dict_keys cfg))) @
    concat (map (pair_options cfg) (combinations2 (dict_keys cfg))) @
    concat (map (pair_routes cfg) (combinations2 (dict_keys cfg))) @ [output_block ''vpc_mesh_output'' out])"
    by (simp add: gen_vpc_mesh_def Let_def)
  then show ?thesis unfolding t(2-4) map_map comp_def snd_conv by blast
qed

text \<open>The file has a peering with its accepter, both options and the routes in both directions
  for every two VPCs, and no resource but these and one security group for each VPC.\<close>

definition pair_addresses :: "string \<times> string \<Rightarrow> (string \<times> string) set" where
  "pair_addresses p = (let (a, b) = p in
     {(''aws_vpc_peering_connection'', get_peering_connection a b),
      (''aws_vpc_peering_connection_accepter'', get_peering_connection_accepter b),
      (''aws_vpc_peering_connection_options'', get_peering_connection a b),
      (''aws_vpc_peering_connection_options'', get_peering_connection_accepter b),
      (''aws_route'', get_routes a b), (''aws_route'', get_routes b a)})"

lemma addresses_concat: "addresses (concat (map f ps)) = concat (map (\<lambda>p. addresses (f p)) ps)"
  by (induction ps) (simp_all add: addresses_def map_filter_def)

lemma pair_block_addresses:
  "addresses (pair_peerings cfg p) = [(''aws_vpc_peering_connection'', get_peering_connection (fst p) (snd p)),
      (''aws_vpc_peering_connection_accepter'', get_peering_connection_accepter (snd p))]"
  "addresses (pair_options cfg p) = [(''aws_vpc_peering_connection_options'', get_peering_connection (fst p) (snd p)),
      (''aws_vpc_peering_connection_options'', get_peering_connection_accepter (snd p))]"
  "addresses (pair_routes cfg p) = [(''aws_route'', get_routes (fst p) (snd p)), (''aws_route'', get_routes (snd p) (fst p))]"
  by (simp_all add: addresses_def map_filter_def pair_peerings_def pair_options_def pair_routes_def peering_blocks_def
    option_blocks_def route_block_def)

lemma plain_block_addresses:
  "addresses (map (\<lambda>n. provider_block (f n)) ns) = []"
  "addresses [PDict [(''module'', PDict [(''vpcs'', PDict [(''source'', PStr ''./vpcs'')])])]] = []"
  "addresses (map (\<lambda>n. route_tables_block n (g n)) ns) = []"
  "addresses [output_block x out] = []"
  "addresses (map (\<lambda>n. security_group_block n (g n)) ns) = map (\<lambda>n. (''aws_security_group'', get_common_sg n)) ns"
  by (induction ns) (simp_all add: addresses_def map_filter_def provider_block_def route_tables_block_def output_block_def
    security_group_block_def)

lemma mesh_addresses:
  assumes "has_regions cfg"
  shows "\<exists>vpc_file mesh. gen_vpc_mesh cfg = Inr (vpc_file, mesh) \<and>
    addresses mesh = map (\<lambda>n. (''aws_security_group'', get_common_sg n)) (dict_keys cfg) @
      concat (map (\<lambda>p. addresses (pair_peerings cfg p)) (combinations2 (dict_keys cfg))) @
      concat (map (\<lambda>p. addresses (pair_options cfg p)) (combinations2 (dict_keys cfg))) @
      concat (map (\<lambda>p. addresses (pair_routes cfg p)) (combinations2 (dict_keys cfg)))"
proof -
  from mesh_contents [OF assms] obtain vpc_file mesh out where g: "gen_vpc_mesh cfg = Inr (vpc_file, mesh)" and
    m: "mesh = map (\<lambda>n. provider_block (the_region cfg n)) (dict_keys cfg) @
    [PDict [(''module'', PDict [(''vpcs'', PDict [(''source'', PStr ''./vpcs'')])])]] @
    map (\<lambda>n. route_tables_block n (provider_of cfg n)) (dict_keys cfg) @
    map (\<lambda>n. security_group_block n (provider_of cfg n)) (dict_keys cfg) @
    concat (map (pair_peerings cfg) (combinations2 (dict_keys cfg))) @
    concat (map (pair_options cfg) (combinations2 (dict_keys cfg))) @
    concat (map (pair_routes cfg) (combinations2 (dict_keys cfg))) @ [output_block ''vpc_mesh_output'' out]" by blast
  show ?thesis
    by (rule exI, rule exI, rule conjI, rule g)
      (simp only: m addresses_append addresses_concat plain_block_addresses append_Nil append_Nil2)
qed

theorem every_pair_is_connected:
  assumes "has_regions cfg"
  shows "\<exists>vpc_file mesh. gen_vpc_mesh cfg = Inr (vpc_file, mesh) \<and>
    set (addresses mesh) = (\<Union>n \<in> set (dict_keys cfg). {(''aws_security_group'', get_common_sg n)}) \<union>
      (\<Union>i < length cfg. \<Union>j \<in> {i <..< length cfg}. pair_addresses (dict_keys cfg ! i, dict_keys cfg ! j))"
proof -
  let ?ps = "combinations2 (dict_keys cfg)"
  obtain vpc_file mesh where run: "gen_vpc_mesh cfg = Inr (vpc_file, mesh)" and
    all: "addresses mesh = map (\<lambda>n. (''aws_security_group'', get_common_sg n)) (dict_keys cfg) @
      concat (map (\<lambda>p. addresses (pair_peerings cfg p)) ?ps) @ concat (map (\<lambda>p. addresses (pair_options cfg p)) ?ps) @
      concat (map (\<lambda>p. addresses (pair_routes cfg p)) ?ps)"
    using mesh_addresses [OF assms] by blast
  have each: "set (addresses (pair_peerings cfg p)) \<union> set (addresses (pair_options cfg p)) \<union> set (addresses (pair_routes cfg p)) =
    pair_addresses p" for p by (auto simp: pair_block_addresses pair_addresses_def Let_def split: prod.split)
  have "set (addresses mesh) = (\<Union>n \<in> set (dict_keys cfg). {(''aws_security_group'', get_common_sg n)}) \<union>
      (\<Union>p \<in> set ?ps. pair_addresses p)" unfolding each [symmetric] by (auto simp: all)
  also have "(\<Union>p \<in> set ?ps. pair_addresses p) =
      (\<Union>i < length cfg. \<Union>j \<in> {i <..< length cfg}. pair_addresses (dict_keys cfg ! i, dict_keys cfg ! j))"
    by (fastforce simp: combinations2_iff)
  finally show ?thesis using run by blast
qed

text \<open>An accepter is named after its VPC alone. The last VPC of three accepts twice, and Terraform
  refuses two resources of one address.\<close>

theorem three_vpcs_clash:
  assumes "has_regions cfg" "3 \<le> length cfg"
  shows "\<exists>vpc_file mesh. gen_vpc_mesh cfg = Inr (vpc_file, mesh) \<and> \<not> distinct (addresses mesh)"
proof -
  obtain a b c rest where cfg: "dict_keys cfg = a # b # c # rest" using assms(2)
    by (cases cfg; cases "tl cfg"; cases "tl (tl cfg)") auto
  obtain vpc_file mesh where run: "gen_vpc_mesh cfg = Inr (vpc_file, mesh)" and
    all: "\<exists>u v. addresses mesh = u @ concat (map (\<lambda>p. addresses (pair_peerings cfg p)) (combinations2 (dict_keys cfg))) @ v"
    using mesh_addresses [OF assms(1)] by blast
  have "\<not> distinct (concat (map (\<lambda>p. addresses (pair_peerings cfg p)) (combinations2 (dict_keys cfg))))"
    by (auto simp: cfg pair_block_addresses)
  with run all show ?thesis by auto
qed

text \<open>The alias of a provider is its region: two VPCs of one region declare one provider twice.\<close>

lemma provider_aliases:
  assumes "has_regions cfg" "gen_vpc_mesh cfg = Inr (vpc_file, mesh)"
  shows "map provider_alias (take (length cfg) mesh) = map (\<lambda>n. Inr (the_region cfg n)) (dict_keys cfg)"
  using mesh_contents [OF assms(1)] assms(2)
  by (auto simp: provider_alias_def provider_block_def dict_lookup_def)

definition vpc_of :: "string \<Rightarrow> string \<Rightarrow> string \<times> pydict" where
  "vpc_of name region = (name, [(''region'', PStr region), (''cidr'', PStr ''10.0.0.0/16'')])"

lemma two_vpcs_have_one_address_each:
  "bindE (gen_vpc_mesh [vpc_of ''apn1'' ''ap-northeast-1'', vpc_of ''euw1'' ''eu-west-1'']) (\<lambda>(v, m). Inr (distinct (addresses m))) = Inr True"
  by code_simp

lemma vpc_without_region_fails: "gen_vpc_mesh [(''apn1'', [])] = Inl KeyError"
  by code_simp

theorem every_pair_is_connected_witness:
  "\<exists>vpc_file mesh. gen_vpc_mesh [vpc_of ''a'' ''r'', vpc_of ''b'' ''s''] = Inr (vpc_file, mesh) \<and>
    set (addresses mesh) = (\<Union>n \<in> set (dict_keys [vpc_of ''a'' ''r'', vpc_of ''b'' ''s'']). {(''aws_security_group'', get_common_sg n)}) \<union>
      (\<Union>i < length [vpc_of ''a'' ''r'', vpc_of ''b'' ''s'']. \<Union>j \<in> {i <..< length [vpc_of ''a'' ''r'', vpc_of ''b'' ''s'']}.
         pair_addresses (dict_keys [vpc_of ''a'' ''r'', vpc_of ''b'' ''s''] ! i, dict_keys [vpc_of ''a'' ''r'', vpc_of ''b'' ''s''] ! j))"
  by (rule every_pair_is_connected) (simp add: has_regions_def vpc_of_def dict_wf_def)

section \<open>Values of the clusters\<close>

definition get_helmfile_per_cluster_path :: "string \<Rightarrow> string" where
  "get_helmfile_per_cluster_path cluster_name = ''helmfiles_gen/'' @ cluster_name @ ''/helmfile.yaml''"

definition get_env_values_per_cluster_path :: "string \<Rightarrow> string" where
  "get_env_values_per_cluster_path cluster_name = ''helmfiles_gen/'' @ cluster_name @ ''/env_values.yaml''"

definition OBSERVER_CLUSTER_ID :: int where "OBSERVER_CLUSTER_ID = 1"
definition MYSQL_HOST_CLUSTER_ID :: int where "MYSQL_HOST_CLUSTER_ID = 1"

text \<open>\<open>clusters\<close> is the value of \<open>multicluster_config_output\<close>, \<open>repo\<close> that of the repository's URL.\<close>

type_synonym clusters = "(string, pydict) dict"

datatype helm_effect = WriteValues string pydict | CopyTemplate string

definition cluster_name_of :: "clusters \<Rightarrow> string \<Rightarrow> string \<Rightarrow> pyval pyres" where
  "cluster_name_of clusters cluster_id cluster_type =
     (if cluster_type = ''minikube'' then Inr (PStr (''minikube-'' @ cluster_id))
      else bindE (dict_lookup clusters cluster_id) (\<lambda>c. dict_lookup c ''cluster_name''))"

definition env_values_of :: "pyval \<Rightarrow> int list \<Rightarrow> int \<Rightarrow> string \<Rightarrow> pyval \<Rightarrow> pydict" where
  "env_values_of repo cluster_ids cluster_id cluster_type cluster_name =
     [(''dataFeedImagePrefix'', repo), (''clusterType'', PStr cluster_type), (''clusterName'', cluster_name),
      (''clusterId'', PInt cluster_id), (''clusterIds'', PList (map PInt cluster_ids)),
      (''observerClusterId'', PInt OBSERVER_CLUSTER_ID),
      (''isObserver'', PBool (cluster_id = OBSERVER_CLUSTER_ID)),
      (''isMysqlHost'', PBool (cluster_id = MYSQL_HOST_CLUSTER_ID)), (''thanosEnabled'', PBool False)]"

definition template_cluster ::
    "pyval \<Rightarrow> clusters \<Rightarrow> int list \<Rightarrow> string \<times> string \<Rightarrow> helm_effect list \<times> string list \<Rightarrow> (helm_effect list \<times> string list) pyres" where
  "template_cluster repo clusters cluster_ids p s =
     (let (cluster_id, cluster_type) = p; (effects, helmfiles) = s in
      bindE (bindE (cluster_name_of clusters cluster_id cluster_type) py_str_of) (\<lambda>cluster_name.
      bindE (py_int cluster_id) (\<lambda>i.
        let helmfile_path = get_helmfile_per_cluster_path cluster_name in
        Inr (effects @ [WriteValues (get_env_values_per_cluster_path cluster_name)
                          (env_values_of repo cluster_ids i cluster_type (PStr cluster_name)),
                        CopyTemplate helmfile_path],
             if cluster_type \<noteq> ''minikube'' then helmfiles @ [helmfile_path] else helmfiles))))"

definition template_helmfile :: "pyval \<Rightarrow> clusters \<Rightarrow> (helm_effect list \<times> string list) pyres" where
  "template_helmfile repo clusters =
     bindE (mapE py_int (dict_keys clusters)) (\<lambda>cluster_ids.
       foldE (template_cluster repo clusters cluster_ids)
         (concat (map (\<lambda>i. map (Pair i) [''minikube'', ''remote'']) (dict_keys clusters))) ([], []))"

definition remote_name :: "pydict \<Rightarrow> string" where
  "remote_name c = (case map_of c ''cluster_name'' of Some (PStr s) \<Rightarrow> s | _ \<Rightarrow> [])"

definition named_clusters :: "clusters \<Rightarrow> bool" where
  "named_clusters clusters \<longleftrightarrow> dict_wf clusters \<and>
     (\<forall>(i, c) \<in> set clusters. (\<exists>n. py_int i = Inr n) \<and> (\<exists>s. map_of c ''cluster_name'' = Some (PStr s)))"

text \<open>The global file lists the remote clusters in their order, and a minikube copy of none.\<close>

theorem global_helmfile_lists_remotes:
  assumes "named_clusters clusters"
  shows "\<exists>effects. template_helmfile repo clusters =
    Inr (effects, map (\<lambda>(i, c). get_helmfile_per_cluster_path (remote_name c)) clusters)"
proof -
  obtain ids where ids: "mapE py_int (dict_keys clusters) = Inr ids"
  proof -
    have "\<forall>i \<in> set (dict_keys clusters). \<exists>n. py_int i = Inr n" using assms by (auto simp: named_clusters_def)
    then have "mapE py_int ks = Inr (map (\<lambda>i. case py_int i of Inr n \<Rightarrow> n) ks)" if "set ks \<subseteq> set (dict_keys clusters)" for ks
      using that by (induction ks) auto
    with that show ?thesis by blast
  qed
  have "\<exists>effects'. foldE (template_cluster repo clusters ids)
      (concat (map (\<lambda>i. map (Pair i) [''minikube'', ''remote'']) (dict_keys cs))) (effects, helmfiles) =
    Inr (effects', helmfiles @ map (\<lambda>(i, c). get_helmfile_per_cluster_path (remote_name c)) cs)"
    if "set cs \<subseteq> set clusters" for cs effects helmfiles
    using that
  proof (induction cs arbitrary: effects helmfiles)
    case (Cons p cs)
    obtain i c where p: "p = (i, c)" by (cases p)
    then have in_cs: "(i, c) \<in> set clusters" using Cons.prems by simp
    with assms obtain n s where "py_int i = Inr n" "map_of c ''cluster_name'' = Some (PStr s)" "map_of clusters i = Some c"
      by (fastforce simp: named_clusters_def dict_wf_def)
    then have "\<exists>e1. foldE (template_cluster repo clusters ids) (map (Pair i) [''minikube'', ''remote'']) (effects, helmfiles) =
      Inr (e1, helmfiles @ [get_helmfile_per_cluster_path (remote_name c)])"
      by (simp add: template_cluster_def Let_def cluster_name_of_def dict_lookup_def remote_name_def)
    then obtain e1 where h1: "foldE (template_cluster repo clusters ids) (map (Pair i) [''minikube'', ''remote'']) (effects, helmfiles) =
      Inr (e1, helmfiles @ [get_helmfile_per_cluster_path (remote_name c)])" ..
    have "\<exists>effects'. foldE (template_cluster repo clusters ids)
        (concat (map (\<lambda>i. map (Pair i) [''minikube'', ''remote'']) (dict_keys cs))) (e1, helmfiles @ [get_helmfile_per_cluster_path (remote_name c)]) =
      Inr (effects', (helmfiles @ [get_helmfile_per_cluster_path (remote_name c)]) @ map (\<lambda>(i, c). get_helmfile_per_cluster_path (remote_name c)) cs)"
      by (rule Cons.IH) (use Cons.prems in simp)
    moreover have "concat (map f (dict_keys (p # cs))) = f i @ concat (map f (dict_keys cs))" for f :: "string \<Rightarrow> (string \<times> string) list"
      by (simp add: p)
    ultimately show ?case unfolding foldE_append h1 bindE_simps by (simp only: foldE_append h1 bindE_simps) (simp add: p)
  qed simp
  from this [of clusters "[]" "[]"] ids show ?thesis by (simp add: template_helmfile_def)
qed

section \<open>Joining the clusters\<close>

definition get_cilium_cluster_name :: "string \<Rightarrow> string \<Rightarrow> string" where
  "get_cilium_cluster_name cluster_id vpc_name = vpc_name @ ''-'' @ cluster_id"

definition str_field :: "pydict \<Rightarrow> string \<Rightarrow> string pyres" where
  "str_field d k = bindE (dict_lookup d k) py_str_of"

text \<open>The commands in the order they run; an exception in the first loop ends the script after the
  commands of the clusters before.\<close>

fun name_clusters :: "clusters \<Rightarrow> (string, string) dict \<Rightarrow> string list \<times> (string, string) dict pyres" where
  "name_clusters [] names = ([], Inr names)"
| "name_clusters ((i, c) # cs) names =
     (case bindE (str_field c ''cluster_name'') (\<lambda>n. bindE (str_field c ''vpc_name'') (\<lambda>v. Inr (n, v))) of
        Inl e \<Rightarrow> ([], Inl e)
      | Inr (n, v) \<Rightarrow>
          (let (cmds, res) = name_clusters cs (dict_put i n names) in
           ((''kubectl config use-context '' @ n @ '' && cilium config set cluster-id '' @ i @
             '' && cilium config set cluster-name '' @ get_cilium_cluster_name i v) # cmds, res)))"

definition enable_mesh :: "string \<Rightarrow> string" where
  "enable_mesh n = ''cilium clustermesh enable --context '' @ n @ '' --service-type NodePort''"

definition mesh_status :: "string \<Rightarrow> string" where
  "mesh_status n = ''cilium clustermesh status --context '' @ n @ '' --wait --wait-duration 30s''"

definition connect_clusters :: "string \<times> string \<Rightarrow> string" where
  "connect_clusters p = ''cilium clustermesh connect --context '' @ fst p @ '' --destination-context '' @ snd p"

definition restart_pods :: "string \<Rightarrow> string" where
  "restart_pods i = ''./restart_cilium_pods.sh '' @ i"

definition setup_cluster_mesh :: "clusters \<Rightarrow> string list \<times> unit pyres" where
  "setup_cluster_mesh clusters =
     (let (cmds, res) = name_clusters clusters [] in
      case res of
        Inl e \<Rightarrow> (cmds, Inl e)
      | Inr names \<Rightarrow>
          (cmds @ map (\<lambda>p. enable_mesh (snd p)) names @ map (\<lambda>p. mesh_status (snd p)) names @
           map (\<lambda>p. connect_clusters (snd (fst p), snd (snd p))) (combinations2 names) @
           map restart_pods (dict_keys clusters), Inr ()))"

lemma name_clusters_total:
  assumes "\<forall>(i, c) \<in> set cs. (\<exists>s. map_of c ''cluster_name'' = Some (PStr s)) \<and> (\<exists>v. map_of c ''vpc_name'' = Some (PStr v))"
    and "distinct (dict_keys cs)" "set (dict_keys cs) \<inter> fst ` set names = {}"
  shows "\<exists>cmds. name_clusters cs names = (cmds, Inr (names @ map (\<lambda>(i, c). (i, remote_name c)) cs)) \<and> length cmds = length cs"
  using assms
proof (induction cs names rule: name_clusters.induct)
  case (2 i c cs names)
  from 2(2) obtain s v where "map_of c ''cluster_name'' = Some (PStr s)" "map_of c ''vpc_name'' = Some (PStr v)" by auto
  then have f: "str_field c ''cluster_name'' = Inr s" "str_field c ''vpc_name'' = Inr v" "remote_name c = s"
    by (simp_all add: str_field_def dict_lookup_def remote_name_def)
  moreover have "i \<notin> fst ` set names" using 2(4) by auto
  moreover obtain cmds where
    "name_clusters cs (dict_put i s names) = (cmds, Inr (dict_put i s names @ map (\<lambda>(i, c). (i, remote_name c)) cs))"
    "length cmds = length cs"
  proof -
    have "\<exists>cmds. name_clusters cs (dict_put i s names) = (cmds, Inr (dict_put i s names @ map (\<lambda>(i, c). (i, remote_name c)) cs)) \<and>
      length cmds = length cs"
      by (rule 2(1)) (use 2(2-) f \<open>i \<notin> fst ` set names\<close> in \<open>auto simp: dict_put_fresh\<close>)
    with that show ?thesis by blast
  qed
  ultimately show ?case by (simp add: f dict_put_fresh)
qed simp

text \<open>Every two clusters are connected by one command, from the first to the second, after all of them
  are named, enabled and waited for.\<close>

theorem clusters_are_joined:
  assumes "dict_wf clusters"
    and "\<forall>(i, c) \<in> set clusters. (\<exists>s. map_of c ''cluster_name'' = Some (PStr s)) \<and> (\<exists>v. map_of c ''vpc_name'' = Some (PStr v))"
  shows "\<exists>cmds. length cmds = length clusters \<and> setup_cluster_mesh clusters =
    (cmds @ map (\<lambda>(i, c). enable_mesh (remote_name c)) clusters @ map (\<lambda>(i, c). mesh_status (remote_name c)) clusters @
     map (\<lambda>(p, q). connect_clusters (remote_name (snd p), remote_name (snd q))) (combinations2 clusters) @
     map (\<lambda>(i, c). restart_pods i) clusters, Inr ())"
proof -
  have pairs: "combinations2 (map f xs) = map (\<lambda>(p, q). (f p, f q)) (combinations2 xs)" for f :: "string \<times> pydict \<Rightarrow> string \<times> string" and xs
    by (induction xs) auto
  from name_clusters_total [OF assms(2), of "[]"] assms(1) obtain cmds where
    "name_clusters clusters [] = (cmds, Inr (map (\<lambda>(i, c). (i, remote_name c)) clusters))" "length cmds = length clusters"
    by (auto simp: dict_wf_def)
  then show ?thesis by (auto simp: setup_cluster_mesh_def pairs case_prod_unfold comp_def)
qed

end
