(* ===== verification/Trainer.thy ===== *)
theory Trainer
  imports PyValue PyString
begin

text \<open>
  Training runs: the configuration of a run (trainer/trainer_manager.py), the columns of a featurized
  dataset (featurizer/runner.py) and the choice of a model among the recorded runs
  (trainer/svoe_mlflow_client.py). The search functions of Ray, the splitting of a dataset and MLflow are
  parameters; training itself and predicting are theirs.
\<close>

section \<open>Columns of a dataset\<close>

definition label_column_step :: "string list \<Rightarrow> nat \<Rightarrow> nat option \<Rightarrow> nat option pyres" where
  "label_column_step cols i pos =
     (if startswith (cols ! i) ''label_''
      then (if pos \<noteq> None then Inl ValueError else Inr (Some i)) else Inr pos)"

definition get_label_column :: "string list \<Rightarrow> string pyres" where
  "get_label_column cols =
     bindE (foldE (label_column_step cols) [0..<length cols] None) (\<lambda>pos.
       case pos of None \<Rightarrow> Inl ValueError | Some i \<Rightarrow> Inr (cols ! i))"

definition get_feature_columns :: "string list \<Rightarrow> string list pyres" where
  "get_feature_columns cols =
     bindE (get_label_column cols) (\<lambda>label_column.
       Inr (filter (\<lambda>c. c \<notin> {''timestamp'', ''receipt_timestamp'', label_column}) cols))"

definition prediction_columns :: "string list \<Rightarrow> (string list \<times> string list) pyres" where
  "prediction_columns cols =
     bindE (get_feature_columns cols) (\<lambda>feature_columns.
     bindE (get_label_column cols) (\<lambda>label_column.
       Inr (feature_columns, [label_column, ''timestamp''] @ feature_columns)))"

definition is_label :: "string \<Rightarrow> bool" where
  "is_label c = startswith c ''label_''"

lemma label_positions:
  "n \<le> length cols \<Longrightarrow> foldE (label_column_step cols) [0..<n] None =
     (case filter (\<lambda>i. is_label (cols ! i)) [0..<n] of
        [] \<Rightarrow> Inr None | [i] \<Rightarrow> Inr (Some i) | _ \<Rightarrow> Inl ValueError)"
proof (induction n)
  case (Suc n)
  then show ?case
    by (auto simp: foldE_append label_column_step_def is_label_def split: list.splits)
qed simp

lemma labels_by_position: "map ((!) cols) (filter (\<lambda>i. is_label (cols ! i)) [0..<length cols]) = filter is_label cols"
  by (metis (no_types, lifting) comp_def filter_cong filter_map map_nth)

text \<open>The label is the only column whose name says so; two or none are refused.\<close>

theorem label_column_is_the_only_one:
  "get_label_column cols = (case filter is_label cols of [c] \<Rightarrow> Inr c | _ \<Rightarrow> Inl ValueError)"
proof -
  have "get_label_column cols = (case filter (\<lambda>i. is_label (cols ! i)) [0..<length cols] of
      [i] \<Rightarrow> Inr (cols ! i) | _ \<Rightarrow> Inl ValueError)"
    by (simp add: get_label_column_def label_positions split: list.split)
  also have "\<dots> = (case filter is_label cols of [c] \<Rightarrow> Inr c | _ \<Rightarrow> Inl ValueError)"
    unfolding labels_by_position [symmetric] by (simp split: list.split)
  finally show ?thesis .
qed

lemma kept_columns:
  assumes "l \<noteq> t" "l \<noteq> r" "t \<noteq> r" "l \<in> set cols" "t \<in> set cols"
  shows "set ([l, t] @ filter (\<lambda>c. c \<notin> {t, r, l}) cols) = set cols - {r}"
  using assms by auto

text \<open>The columns that predictions keep are those of the dataset but for the receipt time, none twice, and
  the model sees neither a time nor the label.\<close>

theorem predictions_keep_the_columns:
  assumes "prediction_columns cols = Inr (feature_columns, keep_columns)" "distinct cols" "''timestamp'' \<in> set cols"
  shows "distinct keep_columns" "set keep_columns = set cols - {''receipt_timestamp''}"
    "set feature_columns = {c \<in> set cols. \<not> is_label c \<and> c \<noteq> ''timestamp'' \<and> c \<noteq> ''receipt_timestamp''}"
proof -
  from assms(1) obtain l where l: "get_label_column cols = Inr l"
    and f: "feature_columns = filter (\<lambda>c. c \<notin> {''timestamp'', ''receipt_timestamp'', l}) cols"
    and k: "keep_columns = [l, ''timestamp''] @ feature_columns"
    by (auto simp: prediction_columns_def get_feature_columns_def)
  have only: "filter is_label cols = [l]"
    using l by (auto simp: label_column_is_the_only_one split: list.splits)
  then have "{c \<in> set cols. is_label c} = {l}" by (metis set_filter list.set(1) list.simps(15))
  then have label: "is_label l" "l \<in> set cols" "\<And>c. c \<in> set cols \<Longrightarrow> is_label c \<Longrightarrow> c = l" by auto
  have times: "\<not> is_label ''timestamp''" "\<not> is_label ''receipt_timestamp''" by (simp_all add: is_label_def startswith_def)
  with label(1) have differ: "l \<noteq> ''timestamp''" "l \<noteq> ''receipt_timestamp''" by auto
  show "distinct keep_columns" using differ assms(2) by (simp add: k f)
  show "set keep_columns = set cols - {''receipt_timestamp''}" 
    unfolding k f by (rule kept_columns) (use differ label(2) assms(3) in simp_all)
  show "set feature_columns = {c \<in> set cols. \<not> is_label c \<and> c \<noteq> ''timestamp'' \<and> c \<noteq> ''receipt_timestamp''}"
  proof (intro set_eqI iffI)
    fix c
    show "c \<in> set feature_columns \<Longrightarrow> c \<in> {c \<in> set cols. \<not> is_label c \<and> c \<noteq> ''timestamp'' \<and> c \<noteq> ''receipt_timestamp''}"
      using label(3) [of c] by (simp add: f) metis
    show "c \<in> {c \<in> set cols. \<not> is_label c \<and> c \<noteq> ''timestamp'' \<and> c \<noteq> ''receipt_timestamp''} \<Longrightarrow> c \<in> set feature_columns"
      using label(1) by (simp add: f) metis
  qed
qed

section \<open>Configuration\<close>

record xgboost_params =
  num_boost_rounds :: int
  train_valid_test_split :: "rat list"
  xgb_params :: pydict

type_synonym param_space = "(string, (string, (string, pydict) dict) dict) dict"

record tuner_config =
  tuner_space :: param_space
  num_samples :: "int option"
  tuner_metric :: string
  tuner_mode :: string
  max_concurrent_trials :: "int option"
  time_budget_s :: "int option"
  search_alg :: "string option"
  tuner_scheduler :: "string option"

record trainer_config =
  xgboost :: "xgboost_params option"
  num_workers :: int
  tuner :: "tuner_config option"

text \<open>\<open>config.__dict__\<close> of a parsed model has all its fields, given or not.\<close>

definition config_fields :: "trainer_config \<Rightarrow> string list" where
  "config_fields config = [''xgboost'', ''num_workers'', ''tuner_config'']"

definition validate_config :: "trainer_config \<Rightarrow> bool pyres" where
  "validate_config config =
     (let intersect = filter (\<lambda>p. p \<in> set (config_fields config)) [''xgboost'', ''pytorch''] in
      if length intersect \<noteq> 1 then Inl ValueError else Inr (tuner config \<noteq> None))"

definition search_functions :: "string list" where
  "search_functions = [''randint'', ''uniform'', ''quniform'', ''loguniform'', ''qloguniform'', ''choice'',
     ''lograndint'', ''qrandint'', ''qlograndint'', ''randn'', ''qrandn'']"

definition parse_param ::
    "(string \<Rightarrow> pydict \<Rightarrow> 'd pyres) \<Rightarrow> string \<times> (string, pydict) dict \<Rightarrow> (string, 'd) dict \<Rightarrow> (string, 'd) dict pyres" where
  "parse_param sample_func p params =
     bindE (py_nth (dict_keys (snd p)) 0) (\<lambda>func_name.
       if func_name \<notin> set search_functions then Inl ValueError
       else bindE (dict_lookup (snd p) func_name) (\<lambda>kwargs.
         bindE (sample_func func_name kwargs) (\<lambda>d. Inr (dict_put (fst p) d params))))"

definition parse_param_space_config ::
    "(string \<Rightarrow> pydict \<Rightarrow> 'd pyres) \<Rightarrow> param_space \<Rightarrow> (string, (string, 'd) dict) dict pyres" where
  "parse_param_space_config sample_func param_space_raw =
     bindE (dict_lookup param_space_raw ''params'') (\<lambda>params_raw.
     bindE (foldE (parse_param sample_func) params_raw []) (\<lambda>params. Inr [(''params'', params)]))"

record ('ds, 'd) training =
  training_data :: "(string \<times> 'ds) list"
  label :: string
  boost_rounds :: int
  model_params :: pydict
  workers :: int
  search_space :: "((string, (string, 'd) dict) dict \<times> int option \<times> string \<times> string \<times> int option) option"

text \<open>\<open>run\<close> up to the call of \<open>fit\<close>: the trainer is built of the dataset's columns and its splits, of which
  there must be three, and the search space is parsed after that.\<close>

definition build_trainer ::
    "('ds \<Rightarrow> rat list \<Rightarrow> 'ds list) \<Rightarrow> ('ds \<Rightarrow> string list) \<Rightarrow> ('ds \<Rightarrow> string list \<Rightarrow> 'ds) \<Rightarrow> 'ds \<Rightarrow> trainer_config \<Rightarrow>
     ('ds, 'd) training pyres" where
  "build_trainer split_proportionately cols drop_columns ds config =
     (case xgboost config of
        None \<Rightarrow> Inl ValueError
      | Some x \<Rightarrow>
          bindE (get_label_column (cols ds)) (\<lambda>label_column.
            case split_proportionately ds (train_valid_test_split x) of
              [train_ds, valid_ds, test_ds] \<Rightarrow>
                Inr \<lparr>training_data =
                       [(''train'', drop_columns train_ds [''timestamp'', ''receipt_timestamp'']),
                        (''valid'', drop_columns valid_ds [''timestamp'', ''receipt_timestamp''])],
                     label = label_column, boost_rounds = num_boost_rounds x, model_params = xgb_params x,
                     workers = num_workers config, search_space = None\<rparr>
            | _ \<Rightarrow> Inl ValueError))"

definition prepare_run ::
    "('ds \<Rightarrow> rat list \<Rightarrow> 'ds list) \<Rightarrow> ('ds \<Rightarrow> string list) \<Rightarrow> ('ds \<Rightarrow> string list \<Rightarrow> 'ds) \<Rightarrow> (string \<Rightarrow> pydict \<Rightarrow> 'd pyres) \<Rightarrow>
     'ds \<Rightarrow> trainer_config \<Rightarrow> ('ds, 'd) training pyres" where
  "prepare_run split_proportionately cols drop_columns sample_func ds config =
     bindE (validate_config config) (\<lambda>requires_tuner.
     bindE (build_trainer split_proportionately cols drop_columns ds config) (\<lambda>t.
       case tuner config of
         Some tc \<Rightarrow> bindE (parse_param_space_config sample_func (tuner_space tc)) (\<lambda>space. 
           Inr (t\<lparr>search_space := Some (space, num_samples tc, tuner_metric tc, tuner_mode tc, max_concurrent_trials tc)\<rparr>))
       | None \<Rightarrow> Inr t))"

text \<open>The validation never fails: it looks at the fields of the class, not at which are given. A configuration
  without a model fails when the run begins.\<close>

theorem validation_accepts_everything: "validate_config config = Inr (tuner config \<noteq> None)"
  by (simp add: validate_config_def config_fields_def)

lemma missing_model_fails_at_run:
  "xgboost config = None \<Longrightarrow> prepare_run sp cols dc sf ds config = Inl ValueError"
  by (simp add: prepare_run_def validation_accepts_everything build_trainer_def)

text \<open>A search space is parsed when every parameter names a known function first, whose arguments it accepts;
  later functions of a parameter are ignored.\<close>

theorem param_space_is_parsed:
  assumes "distinct (dict_keys params_raw)"
    and "\<forall>(name, fs) \<in> set params_raw. \<exists>f kwargs rest. fs = (f, kwargs) # rest \<and> f \<in> set search_functions \<and>
      sample_func f kwargs = Inr (drawn name)"
  shows "parse_param_space_config sample_func [(''params'', params_raw)] =
    Inr [(''params'', map (\<lambda>(name, fs). (name, drawn name)) params_raw)]"
proof -
  have "foldE (parse_param sample_func) ps params = Inr (params @ map (\<lambda>(name, fs). (name, drawn name)) ps)"
    if "set ps \<subseteq> set params_raw" "distinct (dict_keys ps)" "set (dict_keys ps) \<inter> set (dict_keys params) = {}" for ps params
    using that
  proof (induction ps arbitrary: params)
    case (Cons p ps)
    obtain name fs where p: "p = (name, fs)" by (cases p)
    with Cons.prems(1) assms(2) obtain f kwargs rest where "fs = (f, kwargs) # rest" "f \<in> set search_functions"
      "sample_func f kwargs = Inr (drawn name)" by fastforce
    moreover have "name \<notin> fst ` set params" using Cons.prems(3) p by auto
    ultimately have "parse_param sample_func p params = Inr (params @ [(name, drawn name)])"
      by (simp add: p parse_param_def py_nth_def dict_lookup_def dict_put_fresh)
    with Cons p show ?case by auto
  qed simp
  from this [of params_raw "[]"] assms(1) show ?thesis by (simp add: parse_param_space_config_def dict_lookup_def)
qed

theorem param_space_is_parsed_witness:
  "parse_param_space_config (\<lambda>f kwargs. Inr f)
     [(''params'', [(''max_depth'', [(''randint'', [(''lower'', PInt 2), (''upper'', PInt 8)])])])] =
   Inr [(''params'', map (\<lambda>(name, fs). (name, ''randint'')) [(''max_depth'', [(''randint'', [(''lower'', PInt 2), (''upper'', PInt 8)])])])]"
  by (rule param_space_is_parsed) (simp_all add: search_functions_def)

lemma unknown_function_fails:
  "parse_param_space_config sf [(''params'', [(''eta'', [(''normal'', [])])])] = Inl ValueError"
  by (simp add: parse_param_space_config_def dict_lookup_def parse_param_def py_nth_def search_functions_def)

section \<open>Recorded runs\<close>

record mlflow_run =
  run_id :: string
  artifact_uri :: string
  metrics :: "(string, rat) dict"

definition checkpoint_uri :: "string \<Rightarrow> string" where
  "checkpoint_uri uri =
     (if py_contains ''mlflow-artifacts:/'' uri then
        (let s = (if startswith uri ''mlflow-artifacts:/'' then drop (length ''mlflow-artifacts:/'') uri else uri)
         in ''s3://svoe-mlflow/'' @ s @ ''/checkpoint_000010'')
      else uri @ ''/checkpoint_000010'')"

text \<open>\<open>min\<close> and \<open>max\<close> with a key return the first of several.\<close>

fun first_best :: "(rat \<Rightarrow> rat \<Rightarrow> bool) \<Rightarrow> mlflow_run \<times> rat \<Rightarrow> (mlflow_run \<times> rat) list \<Rightarrow> mlflow_run" where
  "first_best better best [] = fst best"
| "first_best better best (r # rs) = first_best better (if better (snd r) (snd best) then r else best) rs"

definition get_best_run_for_experiment :: "mlflow_run list \<Rightarrow> string \<Rightarrow> string \<Rightarrow> mlflow_run pyres" where
  "get_best_run_for_experiment runs metric_name mode =
     (if mode \<notin> {''min'', ''max''} then Inl ValueError
      else bindE (mapE (\<lambda>r. bindE (dict_lookup (metrics r) metric_name) (\<lambda>v. Inr (r, v))) runs) (\<lambda>rated.
        case rated of
          [] \<Rightarrow> Inl ValueError
        | r # rs \<Rightarrow> Inr (first_best (if mode = ''min'' then (<) else (>)) r rs)))"

definition get_experiment_by_name :: "'e list \<Rightarrow> 'e pyres" where
  "get_experiment_by_name found = (if length found \<noteq> 1 then Inl ValueError else Inr (found ! 0))"

definition get_best_checkpoint_uri ::
    "'e list \<Rightarrow> (string \<Rightarrow> 'e list) \<Rightarrow> ('e \<Rightarrow> mlflow_run list) \<Rightarrow> string \<Rightarrow> string option \<Rightarrow> string \<Rightarrow> string pyres" where
  "get_best_checkpoint_uri by_creation by_name runs_of metric_name experiment_name mode =
     bindE (case experiment_name of None \<Rightarrow> py_last by_creation | Some n \<Rightarrow> get_experiment_by_name (by_name n)) (\<lambda>e.
     bindE (get_best_run_for_experiment (runs_of e) metric_name mode) (\<lambda>r. Inr (checkpoint_uri (artifact_uri r))))"

lemma first_best_in:
  "first_best better best rs \<in> fst ` set (best # rs)"
proof (induction rs arbitrary: best)
  case (Cons r rs)
  from Cons [of "if better (snd r) (snd best) then r else best"] show ?case by (auto split: if_splits)
qed simp

lemma first_best_least:
  fixes key :: "mlflow_run \<Rightarrow> rat"
  assumes "\<forall>p \<in> set (best # rs). key (fst p) = snd p"
  shows "\<forall>p \<in> set (best # rs). key (first_best (<) best rs) \<le> snd p"
    and "\<forall>p \<in> set (best # rs). snd p \<le> key (first_best (>) best rs)"
proof -
  show "\<forall>p \<in> set (best # rs). key (first_best (<) best rs) \<le> snd p"
    using assms
  proof (induction rs arbitrary: best)
    case (Cons r rs)
    let ?b = "if snd r < snd best then r else best"
    have "\<forall>p \<in> set (?b # rs). key (first_best (<) ?b rs) \<le> snd p" by (rule Cons.IH) (use Cons.prems in auto)
    then show ?case by (auto split: if_splits)
  qed simp
  show "\<forall>p \<in> set (best # rs). snd p \<le> key (first_best (>) best rs)"
    using assms
  proof (induction rs arbitrary: best)
    case (Cons r rs)
    let ?b = "if snd r > snd best then r else best"
    have "\<forall>p \<in> set (?b # rs). snd p \<le> key (first_best (>) ?b rs)" by (rule Cons.IH) (use Cons.prems in auto)
    then show ?case by (auto split: if_splits)
  qed simp
qed

text \<open>The best run is one of the runs, and no run has a better value of the metric, which all must
  have.\<close>

theorem best_run_is_best:
  assumes "get_best_run_for_experiment runs metric_name mode = Inr best"
  shows "best \<in> set runs \<and> (\<exists>v. map_of (metrics best) metric_name = Some v \<and>
    (\<forall>r \<in> set runs. \<exists>w. map_of (metrics r) metric_name = Some w \<and> (if mode = ''min'' then v \<le> w else w \<le> v)))"
proof -
  define key :: "mlflow_run \<Rightarrow> rat" where "key r = the (map_of (metrics r) metric_name)" for r
  from assms obtain rated where rated: "mapE (\<lambda>r. bindE (dict_lookup (metrics r) metric_name) (\<lambda>v. Inr (r, v))) runs = Inr rated"
    by (auto simp: get_best_run_for_experiment_def split: if_splits)
  then have all: "list_all2 (\<lambda>r p. p = (r, key r) \<and> map_of (metrics r) metric_name = Some (key r)) runs rated"
    unfolding mapE_Inr_iff by (rule list.rel_mono_strong) (auto simp: key_def)
  then have r: "rated = map (\<lambda>r. (r, key r)) runs" and has: "\<forall>r \<in> set runs. map_of (metrics r) metric_name = Some (key r)"
    by (induction rule: list_all2_induct) auto
  from assms rated r obtain x xs where runs: "runs = x # xs" "mode \<in> {''min'', ''max''}"
    and best: "best = first_best (if mode = ''min'' then (<) else (>)) (x, key x) (map (\<lambda>r. (r, key r)) xs)"
    by (cases runs) (auto simp: get_best_run_for_experiment_def split: if_splits)
  have "best \<in> set runs" using first_best_in [of _ "(x, key x)" "map (\<lambda>r. (r, key r)) xs"] by (fastforce simp: best runs(1))
  moreover have "if mode = ''min'' then key best \<le> key r else key r \<le> key best" if "r \<in> set runs" for r
    using first_best_least [of "(x, key x)" "map (\<lambda>r. (r, key r)) xs" key] that runs by (auto simp: best)
  ultimately show ?thesis using has by auto
qed

theorem best_run_is_best_witness:
  "\<lparr>run_id = ''b'', artifact_uri = ''u'', metrics = [(''loss'', 1)]\<rparr> \<in>
     set [\<lparr>run_id = ''a'', artifact_uri = ''u'', metrics = [(''loss'', 3)]\<rparr>, \<lparr>run_id = ''b'', artifact_uri = ''u'', metrics = [(''loss'', 1)]\<rparr>]"
proof -
  have "get_best_run_for_experiment [\<lparr>run_id = ''a'', artifact_uri = ''u'', metrics = [(''loss'', 3)]\<rparr>,
      \<lparr>run_id = ''b'', artifact_uri = ''u'', metrics = [(''loss'', 1)]\<rparr>] ''loss'' ''min'' =
    Inr \<lparr>run_id = ''b'', artifact_uri = ''u'', metrics = [(''loss'', 1)]\<rparr>"
    by (simp add: get_best_run_for_experiment_def dict_lookup_def)
  from best_run_is_best [OF this] show ?thesis by simp
qed

lemma sample_checkpoint_uris:
  "checkpoint_uri ''mlflow-artifacts:/1/ab/artifacts'' = ''s3://svoe-mlflow/1/ab/artifacts/checkpoint_000010''"
  "checkpoint_uri ''/tmp/mlruns/ab'' = ''/tmp/mlruns/ab/checkpoint_000010''"
  by code_simp+

end
