(* ===== verification/StoreAdapters.thy ===== *)
theory StoreAdapters
  imports FeaturizerStorage
begin

text \<open>
  Where blocks and tables live: the local and the remote adapter of featurizer/storage/data_store_adapter,
  the loading of frames from S3 through the local cache (common/s3/s3_utils.py, with get_cached_df and
  cache_df_if_needed of common/pandas/df_utils.py as the cache's dictionary), and the connection strings of
  common/db/sql_client.py. Environment variables are a dictionary; the contents of files are values.
\<close>

section \<open>Paths of blocks\<close>

definition SVOE_S3_FEATURE_CATALOG_BLOCK_PATH_PREFIX :: string where
  "SVOE_S3_FEATURE_CATALOG_BLOCK_PATH_PREFIX = ''s3://svoe-feature-catalog-data/''"

definition SVOE_S3_DATA_CATALOG_BLOCK_PATH_PREFIX :: string where
  "SVOE_S3_DATA_CATALOG_BLOCK_PATH_PREFIX = ''s3://svoe-cataloged-data/''"

definition LOCAL_FEATURE_CATALOG_BLOCK_PATH_PREFIX :: string where
  "LOCAL_FEATURE_CATALOG_BLOCK_PATH_PREFIX = ''/tmp/svoe/data_blocks/cataloged_features/''"

definition LOCAL_DATA_CATALOG_BLOCK_PATH_PREFIX :: string where
  "LOCAL_DATA_CATALOG_BLOCK_PATH_PREFIX = ''/tmp/svoe/data_blocks/cataloged_data/''"

text \<open>Both builders, over the columns of a row before it is stored: the start is still a number, a column
  may be missing.\<close>

record unstored_block =
  ub_owner :: "string option"
  ub_definition :: "string option"
  ub_key :: "string option"
  ub_compaction :: "string option"
  ub_day :: "string option"
  ub_start_ts :: rat
  ub_hash :: string

definition build_block_path :: "unstored_block \<Rightarrow> string \<Rightarrow> string" where
  "build_block_path item pre =
     fold (\<lambda>v res. case v of None \<Rightarrow> res | Some v \<Rightarrow> if length v > 0 then res @ v @ ''/'' else res)
       [ub_owner item, ub_definition item, ub_key item, ub_compaction item, ub_day item] pre @
     show_int (int_trunc (ub_start_ts item)) @ ''-'' @ ub_hash item @ ''.parquet.gz''"

definition local_feature_block_path :: "unstored_block \<Rightarrow> string" where
  "local_feature_block_path item = build_block_path item LOCAL_FEATURE_CATALOG_BLOCK_PATH_PREFIX"

definition local_data_source_block_path :: "unstored_block \<Rightarrow> string" where
  "local_data_source_block_path item = build_block_path item LOCAL_DATA_CATALOG_BLOCK_PATH_PREFIX"

definition remote_feature_block_path :: "unstored_block \<Rightarrow> string" where
  "remote_feature_block_path item = build_block_path item SVOE_S3_FEATURE_CATALOG_BLOCK_PATH_PREFIX"

definition remote_data_source_block_path :: "unstored_block \<Rightarrow> string" where
  "remote_data_source_block_path item = build_block_path item SVOE_S3_DATA_CATALOG_BLOCK_PATH_PREFIX"

text \<open>The path that the local adapter reads: that of a block indexed for the remote store is moved below the
  local directory.\<close>

definition local_path :: "string \<Rightarrow> string" where
  "local_path path =
     (let path = (if startswith path SVOE_S3_DATA_CATALOG_BLOCK_PATH_PREFIX
                  then LOCAL_DATA_CATALOG_BLOCK_PATH_PREFIX @ removeprefix SVOE_S3_DATA_CATALOG_BLOCK_PATH_PREFIX path else path)
      in if startswith path SVOE_S3_FEATURE_CATALOG_BLOCK_PATH_PREFIX
         then LOCAL_FEATURE_CATALOG_BLOCK_PATH_PREFIX @ removeprefix SVOE_S3_FEATURE_CATALOG_BLOCK_PATH_PREFIX path else path)"

type_synonym 'd disk_files = "(string, 'd) dict"

definition local_load_df :: "'d disk_files \<Rightarrow> string \<Rightarrow> 'd pyres" where
  "local_load_df files path = (case map_of files (local_path path) of None \<Rightarrow> Inl OSError | Some d \<Rightarrow> Inr d)"

definition local_store_df :: "string \<Rightarrow> 'd \<Rightarrow> 'd disk_files \<Rightarrow> 'd disk_files" where
  "local_store_df path df files = dict_put path df files"

lemma build_block_path_prefix: "\<exists>rest. \<forall>pre. build_block_path item pre = pre @ rest"
proof -
  have "\<exists>rest. \<forall>pre. fold (\<lambda>v res. case v of None \<Rightarrow> res | Some v \<Rightarrow> if length v > 0 then res @ v @ ''/'' else res) vs pre =
    pre @ rest" for vs :: "string option list"
  proof (induction vs)
    case (Cons v vs)
    then obtain rest where "\<forall>pre. fold (\<lambda>v res. case v of None \<Rightarrow> res | Some v \<Rightarrow> if length v > 0 then res @ v @ ''/'' else res) vs pre =
      pre @ rest" ..
    then show ?case by (cases v) auto
  qed simp
  from this [of "[ub_owner item, ub_definition item, ub_key item, ub_compaction item, ub_day item]"]
  show ?thesis by (auto simp: build_block_path_def)
qed

text \<open>A local run finds the blocks that a remote run has indexed where it would put them itself.\<close>

theorem remote_index_is_readable_locally:
  "local_path (remote_data_source_block_path item) = local_data_source_block_path item \<and>
   local_path (remote_feature_block_path item) = local_feature_block_path item \<and>
   local_path (local_data_source_block_path item) = local_data_source_block_path item \<and>
   local_path (local_feature_block_path item) = local_feature_block_path item"
proof -
  obtain rest where "\<And>pre. build_block_path item pre = pre @ rest" using build_block_path_prefix by blast
  then show ?thesis
    by (simp add: local_path_def Let_def remote_data_source_block_path_def local_data_source_block_path_def
      remote_feature_block_path_def local_feature_block_path_def startswith_def removeprefix_def
      SVOE_S3_DATA_CATALOG_BLOCK_PATH_PREFIX_def SVOE_S3_FEATURE_CATALOG_BLOCK_PATH_PREFIX_def
      LOCAL_DATA_CATALOG_BLOCK_PATH_PREFIX_def LOCAL_FEATURE_CATALOG_BLOCK_PATH_PREFIX_def)
qed

theorem local_blocks_roundtrip:
  "local_load_df (local_store_df (local_feature_block_path item) df files) (local_feature_block_path item) = Inr df \<and>
   local_load_df (local_store_df (local_feature_block_path item) df files) (remote_feature_block_path item) = Inr df"
  using remote_index_is_readable_locally [of item] by (simp add: local_load_df_def local_store_df_def)

text \<open>A frame stored under a remote path, in contrast, is not where the adapter looks for it.\<close>

lemma remote_path_is_not_mapped_on_store:
  "local_load_df (local_store_df ''s3://svoe-cataloged-data/a'' (1 :: nat) []) ''s3://svoe-cataloged-data/a'' = Inl OSError"
  by code_simp

section \<open>Frames from S3\<close>

definition split_s3_path :: "string \<Rightarrow> string \<times> string" where
  "split_s3_path path = (let suffix = last (py_split ''/'' path) in (removesuffix path suffix, suffix))"

record 'd s3_world =
  bucket_files :: "'d disk_files"
  df_cache :: "'d disk_files"

definition store_df_s3 :: "string \<Rightarrow> 'd \<Rightarrow> 'd s3_world \<Rightarrow> 'd s3_world" where
  "store_df_s3 path df w = w\<lparr>bucket_files := dict_put path df (bucket_files w)\<rparr>"

definition load_df_s3 :: "(string \<Rightarrow> string) \<Rightarrow> string \<Rightarrow> bool \<Rightarrow> 'd s3_world \<Rightarrow> 'd pyres \<times> 'd s3_world" where
  "load_df_s3 hash path use_cache w =
     (case (if use_cache then map_of (df_cache w) (hash path) else None) of
        Some df \<Rightarrow> (Inr df, w)
      | None \<Rightarrow>
          let (prefix, suffix) = split_s3_path path in
          if py_contains ''.csv'' path \<or> py_contains ''.parquet'' path then
            (case map_of (bucket_files w) (prefix @ suffix) of
               None \<Rightarrow> (Inl OSError, w)
             | Some df \<Rightarrow>
                 (Inr df, if use_cache \<and> \<not> dict_has (df_cache w) (hash path)
                          then w\<lparr>df_cache := dict_put (hash path) df (df_cache w)\<rparr> else w))
          else (Inl ValueError, w))"

lemma split_s3_path_joins: "fst (split_s3_path path) @ snd (split_s3_path path) = path"
proof (cases "CHR ''/'' \<in> set path")
  case True
  then obtain a b where "path = a @ CHR ''/'' # b" "CHR ''/'' \<notin> set b" by (metis split_list_last)
  then show ?thesis
    using last_split_char [of "CHR ''/''" b a] removesuffix_append [of "a @ ''/''" b]
    by (simp add: split_s3_path_def Let_def)
qed (simp add: split_s3_path_def Let_def py_split_char_absent removesuffix_def endswith_def)

text \<open>What was loaded once is loaded for ever: a later store does not reach the cache.\<close>

theorem cached_frame_is_never_refreshed:
  assumes "load_df_s3 hash path True w = (Inr df, w')"
  shows "fst (load_df_s3 hash path True (store_df_s3 path df' w')) = Inr df"
proof (cases "map_of (df_cache w) (hash path)")
  case (Some d)
  with assms show ?thesis by (simp add: load_df_s3_def store_df_s3_def)
next
  case None
  then have "\<not> dict_has (df_cache w) (hash path)" by (auto elim: dict_has_obtain)
  with assms None have "map_of (df_cache w') (hash path) = Some df"
    by (auto simp: load_df_s3_def split: option.splits prod.splits if_splits)
  then show ?thesis by (simp add: load_df_s3_def store_df_s3_def)
qed

text \<open>Without the cache a load returns what was stored last under the path.\<close>

lemma uncached_load_is_current:
  assumes "py_contains ''.parquet'' path"
  shows "fst (load_df_s3 hash path False (store_df_s3 path df w)) = Inr df"
  using assms split_s3_path_joins [of path] by (simp add: load_df_s3_def store_df_s3_def case_prod_unfold)

section \<open>Connection strings\<close>

datatype db_type = SQLITE | MYSQL

text \<open>\<open>os.getenv\<close> answers with a text when the variable is set and with the default, a member of the
  enumeration, when it is not. A member never equals a text.\<close>

datatype db_setting = Member db_type | Setting string

definition get_db_type :: "(string, string) dict \<Rightarrow> db_setting" where
  "get_db_type environ = (case map_of environ ''SVOE_DB_TYPE'' of Some s \<Rightarrow> Setting s | None \<Rightarrow> Member SQLITE)"

definition SVOE_DB_NAME :: string where "SVOE_DB_NAME = ''svoe_db''"

definition DEFAULT_MYSQL_CONFIG :: "(string, string) dict" where
  "DEFAULT_MYSQL_CONFIG = [(''mysql_user'', ''root''), (''mysql_password'', []), (''mysql_host'', ''127.0.0.1''),
     (''mysql_port'', ''3306''), (''mysql_database'', SVOE_DB_NAME)]"

definition sqlite_connection_string :: string where
  "sqlite_connection_string = ''sqlite:////tmp/svoe/sqlite/'' @ SVOE_DB_NAME @ ''.db''"

definition setting_of :: "(string, string) dict \<Rightarrow> string \<Rightarrow> (string, string) dict \<Rightarrow> string \<Rightarrow> string" where
  "setting_of environ var config key =
     (case map_of environ var of Some s \<Rightarrow> s | None \<Rightarrow> (case map_of config key of Some s \<Rightarrow> s | None \<Rightarrow> ''None''))"

definition mysql_connection_string :: "(string, string) dict \<Rightarrow> (string, string) dict option \<Rightarrow> bool \<Rightarrow> string" where
  "mysql_connection_string environ config add_db =
     (let config = (case config of None \<Rightarrow> DEFAULT_MYSQL_CONFIG | Some c \<Rightarrow> c);
          user = setting_of environ ''MYSQL_USER'' config ''mysql_user'';
          password = setting_of environ ''MYSQL_PASSWORD'' config ''mysql_password'';
          host = setting_of environ ''MYSQL_HOST'' config ''mysql_host'';
          port = setting_of environ ''MYSQL_PORT'' config ''mysql_port'';
          db = setting_of environ ''MYSQL_DATABASE'' config ''mysql_database'';
          url = ''mysql+pymysql://'' @ user @ '':'' @ password @ CHR 0x40 # host @ '':'' @ port
      in if add_db then url @ ''/'' @ db else url)"

definition get_conn_str :: "(string, string) dict \<Rightarrow> string pyres" where
  "get_conn_str environ =
     (case get_db_type environ of
        Member SQLITE \<Rightarrow> Inr sqlite_connection_string
      | Member MYSQL \<Rightarrow> Inr (mysql_connection_string environ None True)
      | Setting s \<Rightarrow> Inl ValueError)"

text \<open>The connection exists exactly when the variable that chooses it is not set; MySQL cannot be chosen.\<close>

theorem connection_needs_unset_variable:
  "get_conn_str environ = (if dict_has environ ''SVOE_DB_TYPE'' then Inl ValueError else Inr sqlite_connection_string)"
proof (cases "map_of environ ''SVOE_DB_TYPE''")
  case None
  then show ?thesis by (simp add: get_conn_str_def get_db_type_def dict_has_def)
next
  case (Some s)
  then show ?thesis by (simp add: get_conn_str_def get_db_type_def dict_has_SomeD)
qed

lemma default_mysql_url:
  "mysql_connection_string [] None True = ''mysql+pymysql://root:'' @ CHR 0x40 # ''127.0.0.1:3306/svoe_db''"
  by code_simp

end
