(* ===== verification/CryptofeedItems.thy ===== *)
theory CryptofeedItems
  imports IngestItems
begin

text \<open>
  The older feed's files: the items made of an inventory of the bucket
  (featurizer/data_ingest/utils/cryptofeed_utils.py) and the snapshots in a frame of its order book
  updates (featurizer/data_definitions/common/l2_book_incremental/cryptofeed/utils.py). An inventory
  is the list of its rows, key and size; an item is the dictionary of its fields.
\<close>

section \<open>Keys\<close>

definition parse_feed_symbol :: "string \<Rightarrow> string \<Rightarrow> (string \<times> string \<times> string \<times> string) pyres" where
  "parse_feed_symbol symbol_raw exchange =
     (let spl = py_split ''-'' symbol_raw in
      bindE (py_nth spl 0) (\<lambda>base.
      bindE (py_nth spl 1) (\<lambda>quote.
        let instrument_type = (if length spl > 2 then ''perpetual'' else ''spot'') in
        if exchange = ''FTX'' \<and> quote = ''PERP''
        then Inr (base @ ''-USDT-PERP'', base, ''USDT'', ''perpetual'')
        else Inr (symbol_raw, base, quote, instrument_type))))"

definition value_part :: "string list \<Rightarrow> int \<Rightarrow> string pyres" where
  "value_part spl i = bindE (py_nth spl i) (\<lambda>s. py_nth (py_split ''='' s) 1)"

definition feed_item :: "string \<Rightarrow> string \<Rightarrow> string \<Rightarrow> string \<times> string \<times> string \<times> string \<Rightarrow> pydict" where
  "feed_item key data_type exchange parts =
     (let (symbol, base, quote, instrument_type) = parts in
      [(''data_type'', PStr data_type), (''exchange'', PStr exchange), (''symbol'', PStr symbol),
       (''instrument_type'', PStr instrument_type), (''source'', PStr ''cryptofeed''), (''quote'', PStr quote),
       (''base'', PStr base), (''path'', PStr (''s3://svoe.test.1/'' @ key))])"

definition parse_s3_key :: "string \<Rightarrow> pydict option pyres" where
  "parse_s3_key key =
     (let spl = py_split ''/'' key in
      if length spl < 3 then Inr None
      else if spl ! 0 = ''data_lake'' \<and> spl ! 1 = ''data_feed_market_data'' then
        bindE (value_part spl 3) (\<lambda>exchange.
        bindE (value_part spl 6) (\<lambda>symbol_raw.
        bindE (parse_feed_symbol symbol_raw exchange) (\<lambda>parts. Inr (Some (feed_item key (spl ! 2) exchange parts)))))
      else if spl ! 0 = ''data_lake'' \<or> spl ! 0 = ''parquet'' then
        bindE (py_nth spl 3) (\<lambda>symbol_raw.
        bindE (parse_feed_symbol symbol_raw (spl ! 1)) (\<lambda>parts. Inr (Some (feed_item key (spl ! 2) (spl ! 1) parts))))
      else Inr None)"

section \<open>Batches\<close>

text \<open>The size goes beside the dictionary, whose values are texts.\<close>

type_synonym feed_input = "pydict \<times> rat"

definition input_of_row :: "string \<times> int \<Rightarrow> feed_input pyres" where
  "input_of_row row =
     (let size_kb = of_int (snd row) / 1024 in
      bindE (parse_s3_key (fst row)) (\<lambda>item. case item of None \<Rightarrow> Inl TypeError | Some d \<Rightarrow> Inr (d, size_kb)))"

text \<open>The generator yields as it goes, so that an exception comes after the batches yielded before it.\<close>

fun feed_batches :: "int \<Rightarrow> nat \<Rightarrow> feed_input list \<Rightarrow> (string \<times> int) list \<Rightarrow> (nat \<times> feed_input list) list \<times> unit pyres" where
  "feed_batches per_batch batch_id items [] = (if length items \<noteq> 0 then [(batch_id, items)] else [], Inr ())"
| "feed_batches per_batch batch_id items (row # rows) =
     (case input_of_row row of
        Inl e \<Rightarrow> ([], Inl e)
      | Inr i \<Rightarrow>
          let items = items @ [i] in
          if int (length items) = per_batch then
            let (bs, r) = feed_batches per_batch (batch_id + 1) [] rows in ((batch_id, items) # bs, r)
          else feed_batches per_batch batch_id items rows)"

definition generate_cryptofeed_input_items :: "int \<Rightarrow> (string \<times> int) list list \<Rightarrow> (nat \<times> feed_input list) list \<times> unit pyres" where
  "generate_cryptofeed_input_items per_batch inventory = feed_batches per_batch 0 [] (concat inventory)"

lemma feed_batches_spec:
  assumes "mapE input_of_row rows = Inr xs" "length items < n" "0 < n"
  shows "\<exists>bs. feed_batches (int n) k items rows = (zip [k..<k + length bs] bs, Inr ()) \<and>
    (if items @ xs = [] then bs = [] else batched n (items @ xs) bs)"
  using assms
proof (induction rows arbitrary: k items xs)
  case Nil
  then show ?case
    by (cases "items = []") (auto simp: batched_def upt_conv_Cons intro!: exI [of _ "[items]"])
next
  case (Cons row rows)
  then obtain x ys where x: "input_of_row row = Inr x" "mapE input_of_row rows = Inr ys" "xs = x # ys" by auto
  show ?case
  proof (cases "length items + 1 = n")
    case True
    have "length [] < n" using Cons.prems(3) by simp
    from Cons.IH [OF x(2) this Cons.prems(3), of "k + 1", unfolded append_Nil] obtain bs where
      bs: "feed_batches (int n) (k + 1) [] rows = (zip [k + 1..<k + 1 + length bs] bs, Inr ())"
      "if ys = [] then bs = [] else batched n ys bs" by blast
    let ?bs = "(items @ [x]) # bs"
    have "feed_batches (int n) k items (row # rows) = (zip [k..<k + length ?bs] ?bs, Inr ())"
    proof -
      have "[k..<k + length ?bs] = k # [k + 1..<k + 1 + length bs]" by (simp add: upt_conv_Cons del: upt_Suc)
      then show ?thesis using True bs(1) x(1) by (auto simp del: upt_Suc)
    qed
    moreover have "batched n (items @ xs) ?bs"
      using bs(2) True x(3) by (cases "ys = []") (auto simp: batched_def)
    ultimately show ?thesis using x(3) by (intro exI [of _ ?bs]) simp
  next
    case False
    then have "int (length (items @ [x])) \<noteq> int n" "length (items @ [x]) < n" using Cons.prems(2) by auto
    with Cons.IH [OF x(2) this(2) Cons.prems(3), of k] x show ?thesis by simp
  qed
qed

text \<open>The batches are the parsed items in order, numbered from zero and full but for the last.\<close>

theorem feed_batches_partition:
  assumes "mapE input_of_row (concat inventory) = Inr xs" "0 < n"
  shows "\<exists>bs. generate_cryptofeed_input_items (int n) inventory = (zip [0..<length bs] bs, Inr ()) \<and>
    (if xs = [] then bs = [] else batched n xs bs)"
  using feed_batches_spec [OF assms(1), of "[]" n 0, unfolded append_Nil add_0] assms(2)
  unfolding generate_cryptofeed_input_items_def by simp

text \<open>A key the parser gives up on, with \<open>None\<close>, ends the whole generation: the item is written to
  all the same.\<close>

theorem unparsable_key_ends_generation:
  assumes "mapE input_of_row rows = Inr xs" "parse_s3_key (fst row) = Inr None"
  shows "snd (feed_batches per_batch k items (rows @ row # rest)) = Inl TypeError"
  using assms(1)
proof (induction rows arbitrary: k items xs)
  case Nil
  then show ?case using assms(2) by (simp add: input_of_row_def)
next
  case (Cons r rows)
  then show ?case by (auto simp: Let_def split: prod.split) (metis snd_conv)
qed

lemma sample_keys:
  "parse_s3_key ''parquet/FTX/l2_book/ADA-PERP/f'' =
     Inr (Some (feed_item ''parquet/FTX/l2_book/ADA-PERP/f'' ''l2_book'' ''FTX'' (''ADA-USDT-PERP'', ''ADA'', ''USDT'', ''perpetual'')))"
  "parse_s3_key ''parquet/B/trades/ADA-USDT/f'' =
     Inr (Some (feed_item ''parquet/B/trades/ADA-USDT/f'' ''trades'' ''B'' (''ADA-USDT'', ''ADA'', ''USDT'', ''spot'')))"
  "parse_s3_key ''a/b'' = Inr None"
  "parse_s3_key ''parquet/B/trades'' = Inl IndexError"
  by code_simp+

section \<open>Snapshots in a frame\<close>

text \<open>A frame as the list of its index labels and delta flags.\<close>

type_synonym delta_frame = "(int \<times> bool) list"

definition frame_starts_with_snapshot :: "delta_frame \<Rightarrow> bool" where
  "frame_starts_with_snapshot df = (if df = [] then False else \<not> snd (hd df))"

definition ends_with_snapshot :: "delta_frame \<Rightarrow> bool" where
  "ends_with_snapshot df = (if df = [] then False else \<not> snd (last df))"

definition has_snapshot :: "delta_frame \<Rightarrow> bool" where
  "has_snapshot df = (if df = [] then False else False \<in> set (map snd df))"

definition get_first_snapshot_start :: "delta_frame \<Rightarrow> int pyres" where
  "get_first_snapshot_start df =
     (if df = [] then Inr (- 1)
      else case filter (\<lambda>r. \<not> snd r) df of [] \<Rightarrow> Inl IndexError | r # rs \<Rightarrow> Inr (fst r))"

text \<open>The groups of the run numbers that the shifted comparison and \<open>cumsum\<close> give to the rows: maximal runs
  of snapshot rows, in order.\<close>

function snapshot_runs :: "delta_frame \<Rightarrow> delta_frame list" where
  "snapshot_runs df =
     (case dropWhile snd df of
        [] \<Rightarrow> []
      | r # rs \<Rightarrow> (r # takeWhile (\<lambda>x. \<not> snd x) rs) # snapshot_runs (dropWhile (\<lambda>x. \<not> snd x) rs))"
  by pat_completeness auto
termination
proof (relation "measure length")
  fix df r rs
  assume "dropWhile snd df = r # (rs :: delta_frame)"
  then have "length (r # rs) \<le> length df" by (metis length_dropWhile_le)
  then show "(dropWhile (\<lambda>x. \<not> snd x) rs, df) \<in> measure length"
    using length_dropWhile_le [of "\<lambda>x. \<not> snd x" rs] by simp
qed simp

declare snapshot_runs.simps [simp del]

definition get_snapshots_ranges :: "delta_frame \<Rightarrow> (int \<times> int) list" where
  "get_snapshots_ranges df = (if df = [] then [] else map (\<lambda>run. (fst (hd run), fst (last run))) (snapshot_runs df))"

definition get_snapshot_start :: "delta_frame \<Rightarrow> int \<Rightarrow> int" where
  "get_snapshot_start df end_label =
     (if df = [] then - 1
      else case filter (\<lambda>r. snd r = end_label) (get_snapshots_ranges df) of [] \<Rightarrow> - 1 | r # rs \<Rightarrow> fst r)"

text \<open>The reference: a run of snapshot rows is ended by an update or by the end of the frame.\<close>

inductive run_split :: "delta_frame \<Rightarrow> delta_frame list \<Rightarrow> bool" where
  no_run: "\<forall>r \<in> set df. snd r \<Longrightarrow> run_split df []"
| next_run: "\<forall>r \<in> set updates. snd r \<Longrightarrow> run \<noteq> [] \<Longrightarrow> \<forall>r \<in> set run. \<not> snd r \<Longrightarrow> rest = [] \<or> snd (hd rest) \<Longrightarrow>
    run_split rest runs \<Longrightarrow> run_split (updates @ run @ rest) (run # runs)"

lemma snapshot_runs_split: "run_split df (snapshot_runs df)"
proof (induction df rule: snapshot_runs.induct)
  case (1 df)
  show ?case
  proof (cases "dropWhile snd df")
    case Nil
    then have "\<forall>r \<in> set df. snd r" by (simp add: dropWhile_eq_Nil_conv)
    then have "run_split df []" by (rule no_run)
    moreover have "snapshot_runs df = []" by (subst snapshot_runs.simps) (simp add: Nil)
    ultimately show ?thesis by simp
  next
    case (Cons r rs)
    let ?run = "r # takeWhile (\<lambda>x. \<not> snd x) rs" and ?rest = "dropWhile (\<lambda>x. \<not> snd x) rs"
    have r: "\<not> snd r" using Cons by (metis hd_dropWhile list.discI list.sel(1))
    have "?rest = [] \<or> snd (hd ?rest)" using hd_dropWhile [of "\<lambda>x. \<not> snd x" rs] by blast
    moreover have "\<forall>x \<in> set ?run. \<not> snd x" using r by (auto dest: set_takeWhileD)
    moreover have "\<forall>x \<in> set (takeWhile snd df). snd x" by (auto dest: set_takeWhileD)
    ultimately have "run_split (takeWhile snd df @ ?run @ ?rest) (?run # snapshot_runs ?rest)"
      using "1.IH" [OF Cons] by (intro next_run) simp_all
    moreover have "takeWhile snd df @ ?run @ ?rest = df" using Cons by (metis append_Cons takeWhile_dropWhile_id)
    ultimately show ?thesis by (subst snapshot_runs.simps) (simp add: Cons)
  qed
qed

theorem ranges_are_the_snapshot_runs: "run_split df runs \<longleftrightarrow> runs = snapshot_runs df"
proof
  show "run_split df runs \<Longrightarrow> runs = snapshot_runs df"
  proof (induction rule: run_split.induct)
    case (no_run df)
    then show ?case by (subst snapshot_runs.simps) (simp add: dropWhile_eq_Nil_conv [THEN iffD2])
  next
    case (next_run updates run rest runs)
    then obtain r rs where run: "run = r # rs" by (cases run) auto
    have "dropWhile snd (updates @ run @ rest) = r # (rs @ rest)"
      using next_run(1,3) by (simp add: run dropWhile_append2)
    moreover have "takeWhile (\<lambda>x. \<not> snd x) (rs @ rest) = rs" "dropWhile (\<lambda>x. \<not> snd x) (rs @ rest) = rest"
      using next_run(3,4) run by (cases rest; simp)+
    ultimately show ?case using next_run.IH by (subst snapshot_runs.simps) (simp add: run)
  qed
qed (simp add: snapshot_runs_split)

lemma no_snapshot_to_start_from: "get_first_snapshot_start [(0, True)] = Inl IndexError"
  by code_simp

lemma sample_ranges:
  "get_snapshots_ranges [(3, True), (4, False), (5, False), (6, True), (9, False)] = [(4, 5), (9, 9)]"
  "get_snapshot_start [(3, True), (4, False), (5, False), (6, True), (9, False)] 5 = 4"
  by code_simp+

end
