(* ===== verification/OomProtocol.thy ===== *)
theory OomProtocol
  imports Oom
begin

text \<open>
  The two processes of the OOM handler (perf/scheduler/oom/oom_handler.py and the loop of
  oom_handler_client.py) and the queues between them. Each queue has an event that its reader waits for
  and clears after taking one item; one lock guards both. An action is a stretch of code under one lock.
  The result of a script on a node belongs to the action; a script that raises leaves no trace.
\<close>

section \<open>The processes\<close>

record oom_sys =
  oom_client_of :: oom_client
  oom_sched :: scheduling_state
  decided :: "marking list list"
  args_queue :: "marking list list"
  args_wait_event :: bool
  running_scripts :: "marking list"
  return_queue :: "marks list"
  return_wait_event :: bool
  handler_running :: bool
  lock_kept :: bool

definition init_oom_sys :: "scheduling_state \<Rightarrow> oom_sys" where
  "init_oom_sys ss = \<lparr>oom_client_of = init_oom_client\<lparr>oc_running := True\<rparr>, oom_sched = ss, decided = [],
     args_queue = [], args_wait_event = False, running_scripts = [], return_queue = [], return_wait_event = False,
     handler_running = True, lock_kept = False\<rparr>"

text \<open>\<open>HandOver i\<close> is the second half of \<open>notify_pod_started\<close> for one of the callers that have decided.\<close>

datatype oom_action =
    Decide string
  | HandOver nat
  | HandlerTakes
  | ScriptReturns nat marks
  | ScriptRaises nat
  | ClientTakes
  | StopHandler

definition drop_nth :: "nat \<Rightarrow> 'a list \<Rightarrow> 'a list" where
  "drop_nth i xs = take i xs @ drop (Suc i) xs"

definition handler_takes :: "oom_sys \<Rightarrow> oom_sys option" where
  "handler_takes s =
     (if lock_kept s \<or> \<not> args_wait_event s \<or> \<not> handler_running s then None
      else case args_queue s of
             [] \<Rightarrow> Some (s\<lparr>lock_kept := True\<rparr>)
           | pods_marking # rest \<Rightarrow>
               Some (s\<lparr>args_queue := rest, running_scripts := running_scripts s @ pods_marking, args_wait_event := False\<rparr>))"

definition client_takes :: "oom_sys \<Rightarrow> oom_sys option" where
  "client_takes s =
     (if lock_kept s \<or> \<not> return_wait_event s \<or> \<not> handler_running s \<or> \<not> oc_running (oom_client_of s) then None
      else case return_queue s of
             [] \<Rightarrow> Some (s\<lparr>lock_kept := True\<rparr>)
           | res # rest \<Rightarrow>
               (case handle_oom_score_adj_script_result res (oom_client_of s) (oom_sched s) of
                  None \<Rightarrow> Some (s\<lparr>return_queue := rest, lock_kept := True\<rparr>)
                | Some (r, c, ss) \<Rightarrow>
                    let s' = s\<lparr>return_queue := rest, oom_client_of := c, oom_sched := ss\<rparr>
                    in (case r of
                          Inl e \<Rightarrow> Some (s'\<lparr>lock_kept := True\<rparr>)
                        | Inr u \<Rightarrow> Some (s'\<lparr>return_wait_event := False\<rparr>))))"

definition stop_handler :: "oom_sys \<Rightarrow> oom_sys" where
  "stop_handler s =
     (if handler_running s then s\<lparr>handler_running := False, args_wait_event := True, return_wait_event := True\<rparr> else s)"

fun oom_step :: "oom_action \<Rightarrow> oom_sys \<Rightarrow> oom_sys option" where
  "oom_step (Decide pod) s =
     (case decide_pods_marking (oom_sched s) pod (oom_client_of s) of
        None \<Rightarrow> None
      | Some (Inl e, c) \<Rightarrow> Some (s\<lparr>oom_client_of := c\<rparr>)
      | Some (Inr pods_marking, c) \<Rightarrow> Some (s\<lparr>oom_client_of := c, decided := decided s @ [pods_marking]\<rparr>))"
| "oom_step (HandOver i) s =
     (if lock_kept s \<or> length (decided s) \<le> i then None
      else Some (s\<lparr>decided := drop_nth i (decided s), args_queue := args_queue s @ [decided s ! i], args_wait_event := True\<rparr>))"
| "oom_step HandlerTakes s = handler_takes s"
| "oom_step (ScriptReturns i res) s =
     (if lock_kept s \<or> length (running_scripts s) \<le> i then None
      else Some (s\<lparr>running_scripts := drop_nth i (running_scripts s), return_queue := return_queue s @ [res],
                   return_wait_event := True\<rparr>))"
| "oom_step (ScriptRaises i) s =
     (if length (running_scripts s) \<le> i then None else Some (s\<lparr>running_scripts := drop_nth i (running_scripts s)\<rparr>))"
| "oom_step ClientTakes s = client_takes s"
| "oom_step StopHandler s = Some (stop_handler s)"

fun oom_run :: "oom_action list \<Rightarrow> oom_sys \<Rightarrow> oom_sys option" where
  "oom_run [] s = Some s"
| "oom_run (a # as) s = (case oom_step a s of None \<Rightarrow> None | Some s' \<Rightarrow> oom_run as s')"

section \<open>Lost wake-ups\<close>

text \<open>Items that no event announces, and how many actions of a run post to a queue whose event is
  already set.\<close>

definition args_behind :: "oom_sys \<Rightarrow> nat" where
  "args_behind s = length (args_queue s) - of_bool (args_wait_event s)"

definition returns_behind :: "oom_sys \<Rightarrow> nat" where
  "returns_behind s = length (return_queue s) - of_bool (return_wait_event s)"

definition events_announce :: "oom_sys \<Rightarrow> bool" where
  "events_announce s \<longleftrightarrow> (args_wait_event s \<longrightarrow> args_queue s \<noteq> []) \<and> (return_wait_event s \<longrightarrow> return_queue s \<noteq> [])"

fun posts_args :: "oom_action \<Rightarrow> bool" where
  "posts_args (HandOver i) = True"
| "posts_args a = False"

fun posts_result :: "oom_action \<Rightarrow> bool" where
  "posts_result (ScriptReturns i res) = True"
| "posts_result a = False"

fun coalesced :: "(oom_action \<Rightarrow> bool) \<Rightarrow> (oom_sys \<Rightarrow> bool) \<Rightarrow> oom_action list \<Rightarrow> oom_sys \<Rightarrow> nat" where
  "coalesced posts announced [] s = 0"
| "coalesced posts announced (a # as) s =
     of_bool (posts a \<and> announced s) + (case oom_step a s of None \<Rightarrow> 0 | Some s' \<Rightarrow> coalesced posts announced as s')"

lemma kept_lock_stays: "oom_step a s = Some s' \<Longrightarrow> lock_kept s \<Longrightarrow> lock_kept s'"
  by (cases a) (auto simp: handler_takes_def client_takes_def stop_handler_def split: option.splits sum.splits if_splits)

lemma kept_lock_stays_run: "oom_run as s = Some s' \<Longrightarrow> lock_kept s \<Longrightarrow> lock_kept s'"
  by (induction as arbitrary: s) (auto split: option.splits dest: kept_lock_stays)

lemma client_takes_cases:
  assumes "client_takes s = Some s'" "events_announce s" "\<not> lock_kept s'"
  shows "args_queue s' = args_queue s \<and> args_wait_event s' = args_wait_event s \<and> return_wait_event s \<and>
    \<not> return_wait_event s' \<and> return_queue s \<noteq> [] \<and> return_queue s' = tl (return_queue s)"
  using assms
  by (auto simp: client_takes_def events_announce_def Let_def split: if_splits list.splits option.splits sum.splits)

lemma handler_takes_cases:
  assumes "handler_takes s = Some s'" "events_announce s"
  shows "return_queue s' = return_queue s \<and> return_wait_event s' = return_wait_event s \<and> args_wait_event s \<and>
    \<not> args_wait_event s' \<and> args_queue s \<noteq> [] \<and> args_queue s' = tl (args_queue s)"
  using assms by (auto simp: handler_takes_def events_announce_def split: if_splits list.splits)

lemma step_behind:
  assumes "oom_step a s = Some s'" "events_announce s" "a \<noteq> StopHandler" "\<not> lock_kept s'"
  shows "events_announce s' \<and> args_behind s' = args_behind s + of_bool (posts_args a \<and> args_wait_event s) \<and>
    returns_behind s' = returns_behind s + of_bool (posts_result a \<and> return_wait_event s)"
proof (cases a)
  case HandlerTakes
  with assms(1) have "handler_takes s = Some s'" by simp
  with handler_takes_cases [OF this assms(2)] assms(2) HandlerTakes show ?thesis
    by (simp add: events_announce_def args_behind_def returns_behind_def)
next
  case ClientTakes
  with assms(1) have "client_takes s = Some s'" by simp
  with client_takes_cases [OF this assms(2,4)] assms(2) ClientTakes show ?thesis
    by (simp add: events_announce_def args_behind_def returns_behind_def)
next
  case (HandOver i)
  with assms show ?thesis
    by (cases "args_queue s") (auto simp: events_announce_def args_behind_def returns_behind_def split: if_splits)
next
  case (ScriptReturns i res)
  with assms show ?thesis
    by (cases "return_queue s") (auto simp: events_announce_def args_behind_def returns_behind_def split: if_splits)
qed (use assms in \<open>auto simp: events_announce_def args_behind_def returns_behind_def split: option.splits sum.splits if_splits\<close>)

text \<open>C35. Wake-ups that coincide are lost for good. In every run that is not stopped and does not end with the
  lock kept, a queue holds what it held unannounced before, one item for every post to an event already
  set, and one more while the event is set: a reader that has caught up with its event still leaves all
  of these unread.\<close>

theorem coinciding_wakeups_are_lost:
  assumes "oom_run acts s = Some s'" "events_announce s" "StopHandler \<notin> set acts" "\<not> lock_kept s'"
  shows "length (args_queue s') =
      args_behind s + coalesced posts_args args_wait_event acts s + of_bool (args_wait_event s') \<and>
    length (return_queue s') =
      returns_behind s + coalesced posts_result return_wait_event acts s + of_bool (return_wait_event s')"
  using assms
proof (induction acts arbitrary: s)
  case Nil
  then show ?case by (auto simp: events_announce_def args_behind_def returns_behind_def Suc_le_eq)
next
  case (Cons a acts)
  then obtain s1 where s1: "oom_step a s = Some s1" "oom_run acts s1 = Some s'" by (auto split: option.splits)
  have "\<not> lock_kept s1" using kept_lock_stays_run [OF s1(2)] Cons.prems(4) by blast
  with step_behind [OF s1(1) Cons.prems(2)] Cons.prems(3)
  have "events_announce s1" and "args_behind s1 = args_behind s + of_bool (posts_args a \<and> args_wait_event s)"
    and "returns_behind s1 = returns_behind s + of_bool (posts_result a \<and> return_wait_event s)" by auto
  with Cons.IH [OF s1(2)] Cons.prems(3,4) s1(1) show ?case by auto
qed

section \<open>Sample runs\<close>

definition oom_sched_sample :: scheduling_state where
  "oom_sched_sample = init_scheduling_state\<lparr>pods_per_node := [(''n'', [''a'', ''b''])]\<rparr>"

text \<open>Two pods start before the handler looks: both wake-ups are one, and with the scripts of the first
  done and handled the request for the second is still in the queue, unannounced.\<close>

definition two_starts :: "oom_action list" where
  "two_starts = [Decide ''a'', Decide ''b'', HandOver 0, HandOver 0, HandlerTakes, ScriptReturns 0 [(''a'', [])], ClientTakes]"

lemma two_starts_leave_one:
  "(case oom_run two_starts (init_oom_sys oom_sched_sample) of None \<Rightarrow> None | Some s \<Rightarrow>
      Some (length (args_queue s), args_wait_event s, dict_keys (in_flight_pods (oom_client_of s)), lock_kept s,
            handler_takes s = None)) = Some (1, False, [''b''], False, True)"
  by code_simp

theorem coinciding_wakeups_are_lost_witness:
  "\<exists>s'. oom_run two_starts (init_oom_sys oom_sched_sample) = Some s' \<and>
    length (args_queue s') = 1 + of_bool (args_wait_event s')"
proof -
  obtain s' where s': "oom_run two_starts (init_oom_sys oom_sched_sample) = Some s'" "\<not> lock_kept s'"
    using two_starts_leave_one by (auto split: option.splits)
  have "events_announce (init_oom_sys oom_sched_sample)" by (simp add: events_announce_def init_oom_sys_def)
  from coinciding_wakeups_are_lost [OF s'(1) this _ s'(2)]
  have "length (args_queue s') = args_behind (init_oom_sys oom_sched_sample) +
      coalesced posts_args args_wait_event two_starts (init_oom_sys oom_sched_sample) + of_bool (args_wait_event s')"
    by (simp add: two_starts_def)
  moreover have "args_behind (init_oom_sys oom_sched_sample) = 0" by code_simp
  moreover have "coalesced posts_args args_wait_event two_starts (init_oom_sys oom_sched_sample) = 1" by code_simp
  ultimately show ?thesis using s'(1) by auto
qed

text \<open>A pod that was marked last and starts again is marked high and low in one request; the second of the
  two results finds it no longer in flight, and the client's loop ends with both locks held.\<close>

lemma restarted_pod_ends_the_loop:
  "(case oom_run [Decide ''a'', HandOver 0, HandlerTakes, ScriptReturns 0 [(''a'', [])], ClientTakes,
                  Decide ''a'', HandOver 0, HandlerTakes, ScriptReturns 0 [(''a'', [])], ClientTakes,
                  ScriptReturns 0 [(''a'', [])], ClientTakes] (init_oom_sys oom_sched_sample) of
      None \<Rightarrow> None
    | Some s \<Rightarrow> Some (lock_kept s, marking_lock (oom_client_of s))) = Some (True, True)"
  by code_simp

end
