(* ===== verification/PointInTime.thy ===== *)
theory PointInTime
  imports DataFrames
begin

text \<open>
  The point-in-time join and the look-ahead label: merge_asof_multi and lookahead_shift of
  featurizer/blocks/blocks.py, prefix_cols, concat and sub_df_ts of common/pandas/df_utils.py on frames with
  named columns, and the tasks of featurizer/task_graph/tasks.py that are built of them. A frame is the
  dictionary of its columns. pandas' merge_asof is the parameter \<open>merge_asof\<close>; \<open>asof_laws\<close> states what its
  documentation promises.
\<close>

section \<open>Frames with named columns\<close>

datatype 'v cell = Num rat | Obj 'v | NaN

type_synonym 'v frame = "(string, 'v cell list) dict"

definition num_rows :: "'v frame \<Rightarrow> nat" where
  "num_rows f = (case f of [] \<Rightarrow> 0 | (c, vs) # rest \<Rightarrow> length vs)"

definition frame_ok :: "nat \<Rightarrow> 'v frame \<Rightarrow> bool" where
  "frame_ok n f \<longleftrightarrow> f \<noteq> [] \<and> distinct (map fst f) \<and> list_all (\<lambda>(c, vs). length vs = n) f"

fun numbers :: "'v cell list \<Rightarrow> rat list option" where
  "numbers [] = Some []"
| "numbers (Num q # vs) = map_option ((#) q) (numbers vs)"
| "numbers (v # vs) = None"

text \<open>A timestamp that is not a number counts as not sorted.\<close>

definition frame_is_sorted :: "'v frame \<Rightarrow> bool pyres" where
  "frame_is_sorted df = bindE (dict_lookup df ''timestamp'') (\<lambda>vs.
     Inr (case numbers vs of None \<Rightarrow> False | Some ks \<Rightarrow> sorted ks))"

fun add_seconds :: "rat \<Rightarrow> 'v cell \<Rightarrow> 'v cell" where
  "add_seconds s (Num q) = Num (q + s)"
| "add_seconds s v = v"

fun between :: "rat \<Rightarrow> rat \<Rightarrow> 'v cell \<Rightarrow> bool" where
  "between a b (Num q) = (a \<le> q \<and> q \<le> b)"
| "between a b v = False"

definition masked :: "bool list \<Rightarrow> 'a list \<Rightarrow> 'a list" where
  "masked bs xs = map snd (filter fst (zip bs xs))"

definition frame_sub_ts :: "'v frame \<Rightarrow> rat \<Rightarrow> rat \<Rightarrow> 'v frame pyres" where
  "frame_sub_ts df start_ts end_ts =
     bindE (dict_lookup df ''timestamp'') (\<lambda>vs.
       let inside = map (between start_ts end_ts) vs;
           res = map (\<lambda>(c, vs). (c, masked inside vs)) df
       in if num_rows res = 0 then Inl ValueError else Inr res)"

definition select_cols :: "string list \<Rightarrow> 'v frame \<Rightarrow> 'v frame pyres" where
  "select_cols cs df = mapE (\<lambda>c. bindE (dict_lookup df c) (\<lambda>vs. Inr (c, vs))) cs"

definition insert_col :: "nat \<Rightarrow> string \<Rightarrow> 'v cell list \<Rightarrow> 'v frame \<Rightarrow> 'v frame pyres" where
  "insert_col loc c vs df =
     (if dict_has df c then Inl ValueError
      else if length df < loc then Inl IndexError
      else Inr (take loc df @ [(c, vs)] @ drop loc df))"

definition rename_cols :: "(string, string) dict \<Rightarrow> 'v frame \<Rightarrow> 'v frame" where
  "rename_cols names df = map (\<lambda>(c, vs). (case map_of names c of None \<Rightarrow> c | Some c' \<Rightarrow> c', vs)) df"

definition drop_cols :: "string list \<Rightarrow> 'v frame \<Rightarrow> 'v frame pyres" where
  "drop_cols cs df = (if list_all (dict_has df) cs then Inr (filter (\<lambda>(c, vs). c \<notin> set cs) df) else Inl KeyError)"

text \<open>Rows of frames without a column are filled up, as \<open>pd.concat\<close> does.\<close>

definition concat_frames :: "'v frame list \<Rightarrow> 'v frame pyres" where
  "concat_frames dfs =
     (if dfs = [] then Inl ValueError
      else Inr (map (\<lambda>c. (c, concat (map (\<lambda>df. case map_of df c of None \<Rightarrow> replicate (num_rows df) NaN | Some vs \<Rightarrow> vs) dfs)))
                    (remdups (concat (map dict_keys dfs)))))"

definition time_columns :: "string list" where
  "time_columns = [''timestamp'', ''receipt_timestamp'']"

definition prefix_cols :: "'v frame \<Rightarrow> string \<Rightarrow> 'v frame" where
  "prefix_cols df prefix =
     rename_cols (map (\<lambda>c. (c, prefix @ ''-'' @ c)) (filter (\<lambda>c. c \<notin> set time_columns) (dict_keys df))) df"

section \<open>As-of merges\<close>

type_synonym 'v merge_asof = "string \<Rightarrow> string \<Rightarrow> 'v frame \<Rightarrow> 'v frame \<Rightarrow> 'v frame pyres"

text \<open>The value of column \<open>c\<close> in the last row whose key is at most \<open>t\<close>.\<close>

definition value_at :: "'v frame \<Rightarrow> string \<Rightarrow> rat \<Rightarrow> string \<Rightarrow> 'v cell" where
  "value_at f on t c =
     (case (map_of f on, map_of f c) of
        (Some ks, Some vs) \<Rightarrow>
          (case filter (\<lambda>(k, v). case k of Num q \<Rightarrow> q \<le> t | _ \<Rightarrow> False) (zip ks vs) of
             [] \<Rightarrow> NaN | rows \<Rightarrow> snd (last rows))
      | _ \<Rightarrow> NaN)"

text \<open>Columns both frames have get a suffix, except a key they share.\<close>

definition left_name :: "string \<Rightarrow> string \<Rightarrow> string list \<Rightarrow> string \<Rightarrow> string" where
  "left_name left_on right_on right_cols c =
     (if c \<in> set right_cols \<and> \<not> (left_on = right_on \<and> c = left_on) then c @ ''_x'' else c)"

definition right_name :: "string list \<Rightarrow> string \<Rightarrow> string" where
  "right_name left_cols c = (if c \<in> set left_cols then c @ ''_y'' else c)"

definition right_columns :: "string \<Rightarrow> string \<Rightarrow> string list \<Rightarrow> string list" where
  "right_columns left_on right_on cs = filter (\<lambda>c. \<not> (left_on = right_on \<and> c = left_on)) cs"

definition merged_names :: "string \<Rightarrow> string \<Rightarrow> string list \<Rightarrow> string list \<Rightarrow> string list" where
  "merged_names left_on right_on ls rs =
     map (left_name left_on right_on rs) ls @ map (right_name ls) (right_columns left_on right_on rs)"

definition keys_of :: "'v frame \<Rightarrow> string \<Rightarrow> rat list option" where
  "keys_of f on = Option.bind (map_of f on) numbers"

definition asof_laws :: "'v merge_asof \<Rightarrow> bool" where
  "asof_laws merge_asof \<longleftrightarrow>
     (\<forall>left_on right_on l r n n' ks ks'.
        frame_ok n l \<and> frame_ok n' r \<and> keys_of l left_on = Some ks \<and> keys_of r right_on = Some ks' \<and>
        sorted ks \<and> sorted ks' \<and> distinct (merged_names left_on right_on (dict_keys l) (dict_keys r)) \<longrightarrow>
        (\<exists>m. merge_asof left_on right_on l r = Inr m \<and> frame_ok n m \<and>
             dict_keys m = merged_names left_on right_on (dict_keys l) (dict_keys r) \<and>
             (\<forall>c\<in>set (dict_keys l). map_of m (left_name left_on right_on (dict_keys r) c) = map_of l c) \<and>
             (\<forall>c\<in>set (right_columns left_on right_on (dict_keys r)).
                map_of m (right_name (dict_keys l) c) = Some (map (\<lambda>t. value_at r right_on t c) ks))))"

definition merge_asof_step :: "'v merge_asof \<Rightarrow> 'v frame \<Rightarrow> 'v frame \<Rightarrow> 'v frame pyres" where
  "merge_asof_step merge_asof df res =
     bindE (merge_asof ''timestamp'' ''timestamp'' res df) (\<lambda>res.
       case map_of res ''receipt_timestamp_x'' of
         None \<Rightarrow> Inr res
       | Some vs \<Rightarrow> bindE (insert_col 1 ''receipt_timestamp'' vs res)
                      (drop_cols [''receipt_timestamp_x'', ''receipt_timestamp_y'']))"

definition merge_asof_multi :: "'v merge_asof \<Rightarrow> 'v frame list \<Rightarrow> 'v frame pyres" where
  "merge_asof_multi merge_asof dfs =
     (case dfs of [] \<Rightarrow> Inl IndexError | df # rest \<Rightarrow> foldE (merge_asof_step merge_asof) rest df)"

definition lookahead_shift :: "'v merge_asof \<Rightarrow> 'v frame \<Rightarrow> string \<Rightarrow> 'v frame pyres" where
  "lookahead_shift merge_asof df lookahead =
     bindE (frame_is_sorted df) (\<lambda>sorted. if \<not> sorted then Inl ValueError else
     bindE (convert_str_to_seconds lookahead) (\<lambda>lookahead_s. if lookahead_s < 1 then Inl ValueError else
     let cols = remove1 ''receipt_timestamp'' (remove1 ''timestamp'' (dict_keys df)) in
     bindE (dict_lookup df ''timestamp'') (\<lambda>ts.
     let df' = dict_put ''lookahead_timestamp'' (map (add_seconds lookahead_s) ts) df in
     bindE (merge_asof ''lookahead_timestamp'' ''timestamp'' df' df') (\<lambda>shifted.
     let cols_new = map (\<lambda>c. c @ ''_y'') cols in
     bindE (select_cols cols_new shifted) (\<lambda>res_df.
     bindE (dict_lookup shifted ''timestamp_x'') (\<lambda>ts_x.
     bindE (insert_col 0 ''timestamp'' ts_x res_df) (\<lambda>res_df.
     bindE (if dict_has shifted ''receipt_timestamp''
            then bindE (dict_lookup shifted ''receipt_timestamp_x'') (\<lambda>rs. insert_col 0 ''receipt_timestamp'' rs res_df)
            else Inr res_df) (\<lambda>res_df.
     bindE (py_nth ts 0) (\<lambda>first. bindE (py_nth ts (- 1)) (\<lambda>final.
       case (first, final) of
         (Num start_ts, Num final_ts) \<Rightarrow>
           frame_sub_ts (rename_cols (zip cols_new cols) res_df) start_ts (final_ts - lookahead_s)
       | _ \<Rightarrow> Inl TypeError))))))))))"

section \<open>Merging at a point in time\<close>

lemma num_rows_ok: "frame_ok n f \<Longrightarrow> num_rows f = n"
  by (cases f) (auto simp: frame_ok_def num_rows_def)

lemma frame_ok_length: "frame_ok n f \<Longrightarrow> map_of f c = Some vs \<Longrightarrow> length vs = n"
  by (auto simp: frame_ok_def list_all_iff dest!: map_of_SomeD)

lemma numbers_eq_Some: "numbers vs = Some ks \<longleftrightarrow> vs = map Num ks"
  by (induction vs arbitrary: ks rule: numbers.induct) auto

lemma keys_of_eq_Some: "keys_of f on = Some ks \<longleftrightarrow> map_of f on = Some (map Num ks)"
  by (simp add: keys_of_def numbers_eq_Some bind_eq_Some_conv)

definition names :: "'v frame \<Rightarrow> string set" where
  "names f = fst ` set f"

lemma fst_names [simp]: "fst ` set f = names f"
  by (simp add: names_def)

lemma dict_has_names [simp]: "dict_has f c \<longleftrightarrow> c \<in> names f"
  by (simp add: dict_has_iff)

lemma names_map_of: "c \<in> names f \<longleftrightarrow> (\<exists>vs. map_of f c = Some vs)"
  by (metis fst_names map_of_eq_None_iff not_None_eq)

lemma map_of_filter_keys: "map_of (filter (\<lambda>(c, vs). P c) f) c = (if P c then map_of f c else None)"
  by (induction f) auto

lemma map_of_inserted:
  assumes "c \<notin> names f"
  shows "map_of (take i f @ (c, vs) # drop i f) c' = (if c' = c then Some vs else map_of f c')"
proof -
  have "map_of (take i f) c = None" using assms by (auto simp: map_of_eq_None_iff names_def simp del: fst_names dest: in_set_takeD)
  moreover have "map_of (take i f @ drop i f) c' = map_of f c'" by simp
  then have "(map_of (drop i f) ++ map_of (take i f)) c' = map_of f c'" by (simp only: map_of_append)
  ultimately show ?thesis by (auto simp: map_add_def split: option.splits)
qed

lemma names_inserted: "names (take i f @ (c, vs) # drop i f) = insert c (names f)"
proof -
  have "set (take i f) \<union> set (drop i f) = set f" by (metis append_take_drop_id set_append)
  then show ?thesis by (simp add: names_def del: fst_names flip: image_Un)
qed

text \<open>What one merge of the loop gives: the columns of the left frame as they are, and the other's new
  columns as of the left timestamps.\<close>

definition merges_onto :: "rat list \<Rightarrow> 'v frame \<Rightarrow> 'v frame \<Rightarrow> 'v frame \<Rightarrow> bool" where
  "merges_onto ks res df m \<longleftrightarrow>
     names m = names res \<union> names df \<and> (\<forall>c\<in>names res. map_of m c = map_of res c) \<and>
     (\<forall>c\<in>names df - names res. map_of m c = Some (map (\<lambda>t. value_at df ''timestamp'' t c) ks))"

text \<open>Frames that can be merged one after the other.\<close>

definition plain_names :: "string set \<Rightarrow> bool" where
  "plain_names cs \<longleftrightarrow> ''receipt_timestamp_x'' \<notin> cs \<and> ''receipt_timestamp_y'' \<notin> cs"

definition timed_frame :: "'v frame \<Rightarrow> bool" where
  "timed_frame df \<longleftrightarrow> (\<exists>n ks. frame_ok n df \<and> keys_of df ''timestamp'' = Some ks \<and> sorted ks) \<and> plain_names (names df)"

text \<open>The names of one merge: only a receipt time that both frames have gets suffixes.\<close>

lemma left_name_step:
  assumes "names res \<inter> names df \<subseteq> set time_columns" "c \<in> names res"
  shows "left_name ''timestamp'' ''timestamp'' (dict_keys df) c =
    (if c = ''receipt_timestamp'' \<and> c \<in> names df then ''receipt_timestamp_x'' else c)"
proof -
  consider "c \<notin> names df" | "c \<in> names df" "c = ''timestamp''" | "c \<in> names df" "c = ''receipt_timestamp''"
    using assms unfolding time_columns_def by auto
  then show ?thesis by cases (simp_all add: left_name_def)
qed

lemma right_name_step:
  assumes "names res \<inter> names df \<subseteq> set time_columns" "c \<in> names df" "c \<noteq> ''timestamp''"
  shows "right_name (dict_keys res) c =
    (if c = ''receipt_timestamp'' \<and> c \<in> names res then ''receipt_timestamp_y'' else c)"
proof -
  have "c = ''receipt_timestamp''" if "c \<in> names res"
    using assms that unfolding time_columns_def by auto
  with assms(3) show ?thesis by (cases "c \<in> names res") (auto simp: right_name_def)
qed

lemma right_columns_step: "right_columns ''timestamp'' ''timestamp'' cs = filter (\<lambda>c. c \<noteq> ''timestamp'') cs"
  by (simp add: right_columns_def)

lemma distinct_maps:
  assumes "distinct xs" "distinct ys" "inj_on f (set xs)" "inj_on g (set ys)" "f ` set xs \<inter> g ` set ys = {}"
  shows "distinct (map f xs @ map g ys)"
  using assms by (simp add: distinct_map)

lemma merged_names_step:
  assumes "distinct (dict_keys res)" "distinct (dict_keys df)" "plain_names (names res)"
    "plain_names (names df)" "names res \<inter> names df \<subseteq> set time_columns" "''timestamp'' \<in> names res"
  shows "distinct (merged_names ''timestamp'' ''timestamp'' (dict_keys res) (dict_keys df))"
proof -
  let ?l = "left_name ''timestamp'' ''timestamp'' (dict_keys df)" and ?r = "right_name (dict_keys res)"
  note ln = left_name_step [OF assms(5)] and rn = right_name_step [OF assms(5)]
  note plain = assms(3,4) [unfolded plain_names_def]
  have li: "inj_on ?l (names res)"
  proof (rule inj_onI)
    fix a b assume "a \<in> names res" "b \<in> names res" "?l a = ?l b"
    with plain show "a = b" by (auto simp: ln split: if_splits)
  qed
  have ri: "inj_on ?r (names df - {''timestamp''})"
  proof (rule inj_onI)
    fix a b assume "a \<in> names df - {''timestamp''}" "b \<in> names df - {''timestamp''}" "?r a = ?r b"
    then have "a \<in> names df" "b \<in> names df" "a \<noteq> ''timestamp''" "b \<noteq> ''timestamp''" "?r a = ?r b" by blast+
    with plain show "a = b" by (auto simp: rn split: if_splits)
  qed
  have "?l a \<noteq> ?r b" if "a \<in> names res" "b \<in> names df - {''timestamp''}" for a b
  proof -
    have b: "b \<in> names df" "b \<noteq> ''timestamp''" using that(2) by blast+
    have "b = ''receipt_timestamp''" if "b \<in> names res"
      using that b assms(5) unfolding time_columns_def by auto
    with that(1) b plain show ?thesis by (auto simp: ln rn split: if_splits)
  qed
  then have "?l ` names res \<inter> ?r ` (names df - {''timestamp''}) = {}" by blast
  then show ?thesis unfolding merged_names_def right_columns_step using assms(1,2) li ri
    by (intro distinct_maps) (simp_all add: set_diff_eq)
qed

lemma merged_step_names:
  assumes "names res \<inter> names df \<subseteq> set time_columns" "''timestamp'' \<in> names res"
  shows "set (merged_names ''timestamp'' ''timestamp'' (dict_keys res) (dict_keys df)) =
    (if ''receipt_timestamp'' \<in> names res \<inter> names df
     then names res \<union> names df - {''receipt_timestamp''} \<union> {''receipt_timestamp_x'', ''receipt_timestamp_y''}
     else names res \<union> names df)"
proof -
  let ?l = "left_name ''timestamp'' ''timestamp'' (dict_keys df)" and ?r = "right_name (dict_keys res)"
  let ?both = "''receipt_timestamp'' \<in> names res \<inter> names df"
  have "?l ` names res = (\<lambda>c. if c = ''receipt_timestamp'' \<and> c \<in> names df then ''receipt_timestamp_x'' else c) ` names res"
    using left_name_step [OF assms(1)] by (rule image_cong [OF refl])
  also have "\<dots> = (if ?both then names res - {''receipt_timestamp''} \<union> {''receipt_timestamp_x''} else names res)"
    by (auto simp: image_iff)
  finally have l: "?l ` names res = \<dots>" .
  have "?r ` (names df - {''timestamp''}) =
      (\<lambda>c. if c = ''receipt_timestamp'' \<and> c \<in> names res then ''receipt_timestamp_y'' else c) ` (names df - {''timestamp''})"
    by (rule image_cong [OF refl], rule right_name_step [OF assms(1)]) simp_all
  also have "\<dots> = (if ?both then names df - {''timestamp'', ''receipt_timestamp''} \<union> {''receipt_timestamp_y''}
      else names df - {''timestamp''})"
    by (auto simp: image_iff)
  finally have r: "?r ` (names df - {''timestamp''}) = \<dots>" .
  have "set (merged_names ''timestamp'' ''timestamp'' (dict_keys res) (dict_keys df)) =
      ?l ` names res \<union> ?r ` (names df - {''timestamp''})"
    unfolding merged_names_def right_columns_step set_append set_map set_filter fst_names set_diff_eq by simp
  then show ?thesis using assms(2) unfolding l r by auto
qed

text \<open>The step once its merge is known: a receipt time of both sides becomes the left one again.\<close>

definition receipt_kept :: "'v frame \<Rightarrow> 'v cell list \<Rightarrow> 'v frame" where
  "receipt_kept m vs = filter (\<lambda>(c, vs). c \<notin> set [''receipt_timestamp_x'', ''receipt_timestamp_y''])
     (take 1 m @ [(''receipt_timestamp'', vs)] @ drop 1 m)"

lemma merge_asof_step_merged:
  assumes "merge_asof ''timestamp'' ''timestamp'' res df = Inr m" "m \<noteq> []"
    "map_of m ''receipt_timestamp_x'' \<noteq> None \<Longrightarrow> ''receipt_timestamp_y'' \<in> names m \<and> ''receipt_timestamp'' \<notin> names m"
  shows "merge_asof_step merge_asof df res =
    Inr (case map_of m ''receipt_timestamp_x'' of None \<Rightarrow> m | Some vs \<Rightarrow> receipt_kept m vs)"
proof (cases "map_of m ''receipt_timestamp_x''")
  case None
  then show ?thesis using assms(1) by (simp add: merge_asof_step_def)
next
  case (Some vs)
  then have "''receipt_timestamp_x'' \<in> names m" by (auto simp: names_map_of)
  with assms(2,3) Some have
    "drop_cols [''receipt_timestamp_x'', ''receipt_timestamp_y''] (take 1 m @ [(''receipt_timestamp'', vs)] @ drop 1 m) =
       Inr (receipt_kept m vs)"
    using names_inserted [of 1 m "''receipt_timestamp''" vs] by (simp add: drop_cols_def receipt_kept_def)
  then show ?thesis using assms Some by (simp add: merge_asof_step_def insert_col_def Suc_le_eq)
qed

lemma map_of_receipt_kept:
  assumes "''receipt_timestamp'' \<notin> names m"
  shows "map_of (receipt_kept m vs) c =
    (if c = ''receipt_timestamp_x'' \<or> c = ''receipt_timestamp_y'' then None
     else if c = ''receipt_timestamp'' then Some vs else map_of m c)"
proof -
  let ?P = "\<lambda>c. c \<notin> set [''receipt_timestamp_x'', ''receipt_timestamp_y'']"
  have "map_of (receipt_kept m vs) c = (if ?P c then map_of (take 1 m @ (''receipt_timestamp'', vs) # drop 1 m) c else None)"
    unfolding receipt_kept_def by (simp only: map_of_filter_keys [of ?P] append.simps)
  with map_of_inserted [OF assms, of 1 vs c] show ?thesis by simp
qed

lemma names_receipt_kept:
  assumes "''receipt_timestamp'' \<notin> names m"
  shows "names (receipt_kept m vs) =
    insert ''receipt_timestamp'' (names m - {''receipt_timestamp_x'', ''receipt_timestamp_y''})"
  using map_of_receipt_kept [OF assms, of vs] by (intro set_eqI) (simp add: names_map_of)

lemma frame_ok_receipt_kept:
  assumes "frame_ok n m" "''receipt_timestamp'' \<notin> names m" "length vs = n"
  shows "frame_ok n (receipt_kept m vs)"
proof -
  let ?f = "take 1 m @ [(''receipt_timestamp'', vs)] @ drop 1 m"
  have "distinct (map fst ?f)"
    using assms(1,2) by (cases m) (auto simp: frame_ok_def names_def simp del: fst_names)
  then have "distinct (map fst (receipt_kept m vs))"
    unfolding receipt_kept_def by (rule distinct_map_filter)
  moreover have "list_all (\<lambda>(c, vs). length vs = n) ?f"
    using assms(1,3) by (cases m) (auto simp: frame_ok_def)
  then have "list_all (\<lambda>(c, vs). length vs = n) (receipt_kept m vs)"
    unfolding receipt_kept_def by (auto simp: list_all_iff)
  moreover have "receipt_kept m vs \<noteq> []"
    using map_of_receipt_kept [OF assms(2), of vs "''receipt_timestamp''"] by auto
  ultimately show ?thesis by (simp add: frame_ok_def)
qed

text \<open>One merge of frames that share at most the time columns.\<close>

definition merge_facts :: "rat list \<Rightarrow> 'v frame \<Rightarrow> 'v frame \<Rightarrow> 'v frame \<Rightarrow> bool" where
  "merge_facts ks res df m \<longleftrightarrow>
     names m = (if ''receipt_timestamp'' \<in> names res \<inter> names df
       then names res \<union> names df - {''receipt_timestamp''} \<union> {''receipt_timestamp_x'', ''receipt_timestamp_y''}
       else names res \<union> names df) \<and>
     (\<forall>c\<in>names res. map_of m (if c = ''receipt_timestamp'' \<and> c \<in> names df then ''receipt_timestamp_x'' else c) = map_of res c) \<and>
     (\<forall>c\<in>names df - names res. map_of m c = Some (map (\<lambda>t. value_at df ''timestamp'' t c) ks))"

lemma merge_facts_hold:
  assumes "asof_laws merge_asof" "frame_ok n res" "keys_of res ''timestamp'' = Some ks" "sorted ks"
    "plain_names (names res)" "timed_frame df" "names res \<inter> names df \<subseteq> set time_columns"
  shows "\<exists>m. merge_asof ''timestamp'' ''timestamp'' res df = Inr m \<and> frame_ok n m \<and> merge_facts ks res df m"
proof -
  from assms(6) obtain n' ks' where df: "frame_ok n' df" "keys_of df ''timestamp'' = Some ks'" "sorted ks'" "plain_names (names df)"
    by (auto simp: timed_frame_def)
  have ts: "''timestamp'' \<in> names res" using assms(3) by (auto simp: keys_of_eq_Some names_map_of)
  have dist: "distinct (dict_keys res)" "distinct (dict_keys df)" using assms(2) df(1) by (auto simp: frame_ok_def)
  have "\<exists>m. merge_asof ''timestamp'' ''timestamp'' res df = Inr m \<and> frame_ok n m \<and>
      dict_keys m = merged_names ''timestamp'' ''timestamp'' (dict_keys res) (dict_keys df) \<and>
      (\<forall>c\<in>set (dict_keys res). map_of m (left_name ''timestamp'' ''timestamp'' (dict_keys df) c) = map_of res c) \<and>
      (\<forall>c\<in>set (right_columns ''timestamp'' ''timestamp'' (dict_keys df)).
         map_of m (right_name (dict_keys res) c) = Some (map (\<lambda>t. value_at df ''timestamp'' t c) ks))"
    by (rule assms(1) [unfolded asof_laws_def, rule_format, of n res n' df "''timestamp''" ks "''timestamp''" ks'])
      (intro conjI assms(2,3,4) df merged_names_step [OF dist assms(5) df(4) assms(7) ts])
  then obtain m where m: "merge_asof ''timestamp'' ''timestamp'' res df = Inr m" "frame_ok n m"
      "dict_keys m = merged_names ''timestamp'' ''timestamp'' (dict_keys res) (dict_keys df)"
    and left: "\<And>c. c \<in> names res \<Longrightarrow> map_of m (left_name ''timestamp'' ''timestamp'' (dict_keys df) c) = map_of res c"
    and right: "\<And>c. c \<in> names df \<Longrightarrow> c \<noteq> ''timestamp'' \<Longrightarrow>
      map_of m (right_name (dict_keys res) c) = Some (map (\<lambda>t. value_at df ''timestamp'' t c) ks)"
    by (auto simp: right_columns_step)
  have l: "map_of m (if c = ''receipt_timestamp'' \<and> c \<in> names df then ''receipt_timestamp_x'' else c) = map_of res c"
    if "c \<in> names res" for c
    using left [OF that] unfolding left_name_step [OF assms(7) that] .
  have r: "map_of m c = Some (map (\<lambda>t. value_at df ''timestamp'' t c) ks)" if "c \<in> names df - names res" for c
    using right [of c] right_name_step [OF assms(7), of c] that ts by (auto split: if_splits)
  have nm: "names m = (if ''receipt_timestamp'' \<in> names res \<inter> names df
     then names res \<union> names df - {''receipt_timestamp''} \<union> {''receipt_timestamp_x'', ''receipt_timestamp_y''}
     else names res \<union> names df)"
    using merged_step_names [OF assms(7) ts] unfolding m(3) [symmetric] by simp
  show ?thesis using m(1,2) nm l r unfolding merge_facts_def by blast
qed

text \<open>Both frames have a receipt time.\<close>

lemma receipt_kept_merges:
  assumes f: "merge_facts ks res df m" and both: "''receipt_timestamp'' \<in> names res" "''receipt_timestamp'' \<in> names df"
    and vs: "map_of res ''receipt_timestamp'' = Some vs" and plain: "plain_names (names res)" "plain_names (names df)"
  shows "map_of m ''receipt_timestamp_x'' = Some vs" "''receipt_timestamp'' \<notin> names m" "''receipt_timestamp_y'' \<in> names m"
    "merges_onto ks res df (receipt_kept m vs)"
proof -
  from f both have nm: "names m = names res \<union> names df - {''receipt_timestamp''} \<union> {''receipt_timestamp_x'', ''receipt_timestamp_y''}"
    by (simp add: merge_facts_def)
  from f have l: "map_of m (if c = ''receipt_timestamp'' \<and> c \<in> names df then ''receipt_timestamp_x'' else c) = map_of res c"
    if "c \<in> names res" for c using that by (auto simp: merge_facts_def)
  from f have r: "map_of m c = Some (map (\<lambda>t. value_at df ''timestamp'' t c) ks)" if "c \<in> names df - names res" for c
    using that by (simp add: merge_facts_def)
  show "map_of m ''receipt_timestamp_x'' = Some vs" using l [OF both(1)] both vs by simp
  show nr: "''receipt_timestamp'' \<notin> names m" and "''receipt_timestamp_y'' \<in> names m" unfolding nm by simp_all
  note mk = map_of_receipt_kept [OF nr, of vs]
  have other: "c \<noteq> ''receipt_timestamp_x''" "c \<noteq> ''receipt_timestamp_y''" if "c \<in> names res \<union> names df" for c
    using that plain unfolding plain_names_def by auto
  have "names (receipt_kept m vs) = names res \<union> names df"
    using both other unfolding names_receipt_kept [OF nr] nm by auto
  moreover have "map_of (receipt_kept m vs) c = map_of res c" if "c \<in> names res" for c
    using l [OF that] other [of c] that vs unfolding mk by (cases "c = ''receipt_timestamp''") simp_all
  moreover have "map_of (receipt_kept m vs) c = Some (map (\<lambda>t. value_at df ''timestamp'' t c) ks)"
    if "c \<in> names df - names res" for c
  proof -
    have "c \<noteq> ''receipt_timestamp''" using that both by blast
    with r [OF that] other [of c] that show ?thesis unfolding mk by simp
  qed
  ultimately show "merges_onto ks res df (receipt_kept m vs)" unfolding merges_onto_def by blast
qed

lemma merge_asof_step_ok:
  assumes "asof_laws merge_asof" "frame_ok n res" "keys_of res ''timestamp'' = Some ks" "sorted ks"
    "plain_names (names res)" "timed_frame df" "names res \<inter> names df \<subseteq> set time_columns"
  shows "\<exists>m. merge_asof_step merge_asof df res = Inr m \<and> frame_ok n m \<and> merges_onto ks res df m"
proof -
  from merge_facts_hold [OF assms] obtain m where
    m: "merge_asof ''timestamp'' ''timestamp'' res df = Inr m" "frame_ok n m" "merge_facts ks res df m" by blast
  note f = m(3) [unfolded merge_facts_def]
  have plain: "plain_names (names res)" "plain_names (names df)" using assms(5,6) by (simp_all add: timed_frame_def)
  have ne: "m \<noteq> []" using m(2) by (simp add: frame_ok_def)
  show ?thesis
  proof (cases "''receipt_timestamp'' \<in> names res \<inter> names df")
    case False
    with f plain have no_x: "map_of m ''receipt_timestamp_x'' = None"
      by (auto simp: plain_names_def names_def map_of_eq_None_iff simp del: fst_names)
    have "map_of m c = map_of res c" if "c \<in> names res" for c
      using f that False by (cases "c = ''receipt_timestamp''") auto
    with f False have "merges_onto ks res df m" unfolding merges_onto_def by auto
    moreover have "merge_asof_step merge_asof df res = Inr m"
      using merge_asof_step_merged [of merge_asof res df m, OF m(1) ne] no_x by simp
    ultimately show ?thesis using m(2) by blast
  next
    case True
    then obtain vs where vs: "map_of res ''receipt_timestamp'' = Some vs" by (auto simp: names_map_of)
    from True have both: "''receipt_timestamp'' \<in> names res" "''receipt_timestamp'' \<in> names df" by simp_all
    note k = receipt_kept_merges [OF m(3) both vs plain]
    have "frame_ok n (receipt_kept m vs)"
      using frame_ok_receipt_kept [OF m(2) k(2)] frame_ok_length [OF assms(2) vs] by blast
    moreover have "merge_asof_step merge_asof df res = Inr (receipt_kept m vs)"
      using merge_asof_step_merged [of merge_asof res df m, OF m(1) ne] k(1,2,3) by simp
    ultimately show ?thesis using k(4) by blast
  qed
qed

text \<open>The loop over all frames.\<close>

definition joins :: "rat list \<Rightarrow> 'v frame \<Rightarrow> 'v frame list \<Rightarrow> 'v frame \<Rightarrow> bool" where
  "joins ks res dfs m \<longleftrightarrow>
     names m = names res \<union> (\<Union>df\<in>set dfs. names df) \<and> (\<forall>c\<in>names res. map_of m c = map_of res c) \<and>
     (\<forall>df\<in>set dfs. \<forall>c\<in>names df - set time_columns. map_of m c = Some (map (\<lambda>t. value_at df ''timestamp'' t c) ks))"

fun apart :: "string set \<Rightarrow> 'v frame list \<Rightarrow> bool" where
  "apart cs [] = True"
| "apart cs (df # dfs) = (cs \<inter> names df \<subseteq> set time_columns \<and> apart (cs \<union> names df) dfs)"

lemma plain_names_Un: "plain_names (a \<union> b) \<longleftrightarrow> plain_names a \<and> plain_names b"
  by (auto simp: plain_names_def)

lemma joins_Cons:
  assumes "merges_onto ks res df m1" "joins ks m1 dfs m" "names res \<inter> names df \<subseteq> set time_columns"
  shows "joins ks res (df # dfs) m"
proof -
  note s = assms(1) [unfolded merges_onto_def] and j = assms(2) [unfolded joins_def]
  have "map_of m c = Some (map (\<lambda>t. value_at df ''timestamp'' t c) ks)" if "c \<in> names df - set time_columns" for c
  proof -
    have "c \<in> names df - names res" using that assms(3) by blast
    with s j show ?thesis by auto
  qed
  with s j show ?thesis unfolding joins_def by auto
qed

lemma joins_fold:
  assumes "asof_laws merge_asof" "sorted ks"
  shows "frame_ok n res \<Longrightarrow> keys_of res ''timestamp'' = Some ks \<Longrightarrow> plain_names (names res) \<Longrightarrow>
    list_all timed_frame dfs \<Longrightarrow> apart (names res) dfs \<Longrightarrow>
    \<exists>m. foldE (merge_asof_step merge_asof) dfs res = Inr m \<and> frame_ok n m \<and> joins ks res dfs m"
proof (induction dfs arbitrary: res)
  case Nil
  then show ?case by (simp add: joins_def)
next
  case (Cons df dfs)
  then have "timed_frame df" "names res \<inter> names df \<subseteq> set time_columns" by simp_all
  from merge_asof_step_ok [OF assms(1) Cons.prems(1,2) assms(2) Cons.prems(3) this] obtain m1 where
    m1: "merge_asof_step merge_asof df res = Inr m1" "frame_ok n m1" "merges_onto ks res df m1" by blast
  have "''timestamp'' \<in> names res" using Cons.prems(2) by (auto simp: keys_of_eq_Some names_map_of)
  then have k: "keys_of m1 ''timestamp'' = Some ks" using m1(3) Cons.prems(2) by (simp add: merges_onto_def keys_of_eq_Some)
  have nm: "names m1 = names res \<union> names df" using m1(3) by (simp add: merges_onto_def)
  have p: "plain_names (names m1)" using nm Cons.prems(3,4) by (simp add: plain_names_Un timed_frame_def)
  from Cons.IH [OF m1(2) k p] Cons.prems(4,5) nm obtain m where
    "foldE (merge_asof_step merge_asof) dfs m1 = Inr m" "frame_ok n m" "joins ks m1 dfs m" by auto
  with m1(1,3) joins_Cons Cons.prems(5) show ?case by fastforce
qed

section \<open>The tasks\<close>

text \<open>\<open>get\<close> is \<open>ray.get\<close>, \<open>str_f\<close> the text of a feature. The reference the join task puts its result under is
  left out.\<close>

definition concat_blocks :: "('r \<Rightarrow> 'v frame pyres) \<Rightarrow> ('f, 'r) dict \<Rightarrow> ('f, 'r) dict \<Rightarrow> ('f, 'v frame) dict pyres" where
  "concat_blocks get block_refs prev_refs =
     foldE (\<lambda>(feature, ref) concated.
       let refs = (case map_of prev_refs feature of None \<Rightarrow> [] | Some prev \<Rightarrow> [prev]) @ [ref] in
       bindE (mapE get refs) (\<lambda>blocks. bindE (concat_frames blocks) (\<lambda>df.
         Inr (dict_put feature df concated)))) block_refs []"

definition join_inputs :: "('f \<Rightarrow> string) \<Rightarrow> 'f option \<Rightarrow> ('f, 'v frame) dict \<Rightarrow> 'v frame list pyres" where
  "join_inputs str_f label concated =
     bindE (case label of None \<Rightarrow> Inr []
            | Some l \<Rightarrow> bindE (dict_lookup concated l) (\<lambda>df. Inr [prefix_cols df (str_f l)])) (\<lambda>dfs.
       Inr (dfs @ map (\<lambda>(f, df). prefix_cols df (str_f f)) (filter (\<lambda>(f, df). label \<noteq> Some f) concated)))"

definition point_in_time_join_block ::
    "'v merge_asof \<Rightarrow> ('r \<Rightarrow> 'v frame pyres) \<Rightarrow> ('f \<Rightarrow> string) \<Rightarrow> Interval \<Rightarrow> ('f, 'r) dict \<Rightarrow> ('f, 'r) dict \<Rightarrow> 'f option
     \<Rightarrow> 'v frame pyres" where
  "point_in_time_join_block merge_asof get str_f interval block_refs prev_refs label =
     bindE (concat_blocks get block_refs prev_refs) (\<lambda>concated.
     bindE (join_inputs str_f label concated) (\<lambda>dfs.
     bindE (merge_asof_multi merge_asof dfs) (\<lambda>merged.
       frame_sub_ts merged (lower interval) (upper interval))))"

definition lookahead_shift_blocks ::
    "'v merge_asof \<Rightarrow> ('r \<Rightarrow> 'v frame pyres) \<Rightarrow> 'r list \<Rightarrow> Interval \<Rightarrow> string \<Rightarrow> 'v frame pyres" where
  "lookahead_shift_blocks merge_asof get block_refs interval lookahead =
     bindE (mapE get block_refs) (\<lambda>blocks.
     bindE (concat_frames blocks) (\<lambda>concated.
     bindE (lookahead_shift merge_asof concated lookahead) (\<lambda>shifted.
       frame_sub_ts shifted (lower interval) (upper interval))))"

section \<open>Rows of an interval\<close>

abbreviation in_bounds :: "rat \<Rightarrow> rat \<Rightarrow> rat \<Rightarrow> bool" where
  "in_bounds a b t \<equiv> a \<le> t \<and> t \<le> b"

lemma masked_simps [simp]:
  "masked [] xs = []" "masked bs [] = []"
  "masked (b # bs) (x # xs) = (if b then x # masked bs xs else masked bs xs)"
  by (simp_all add: masked_def)

lemma between_Num: "map (between a b) (map Num ks) = map (in_bounds a b) ks"
  by simp

lemma masked_map: "masked (map (in_bounds a b) ks) (map g ks) = map g (filter (in_bounds a b) ks)"
  by (induction ks) auto

lemma length_masked: "length vs = length ks \<Longrightarrow>
  length (masked (map (in_bounds a b) ks) vs) = length (filter (in_bounds a b) ks)"
  by (induction ks arbitrary: vs) (auto simp: length_Suc_conv)

lemma map_of_map_values: "map_of (map (\<lambda>(c, vs). (c, g vs)) f) c = map_option g (map_of f c)"
  by (induction f) auto

text \<open>Restricting a frame to an interval: the rows whose time is in it, in every column.\<close>

lemma frame_sub_ts_ok:
  fixes df :: "'v frame"
  assumes "frame_ok n df" "keys_of df ''timestamp'' = Some ks" "filter (in_bounds a b) ks \<noteq> []"
  shows "\<exists>m. frame_sub_ts df a b = Inr m \<and> frame_ok (length (filter (in_bounds a b) ks)) m \<and> dict_keys m = dict_keys df \<and>
    (\<forall>c. map_of m c = map_option (masked (map (in_bounds a b) ks)) (map_of df c))"
proof -
  let ?g = "masked (map (in_bounds a b) ks) :: 'v cell list \<Rightarrow> 'v cell list"
  let ?m = "map (\<lambda>(c, vs). (c, ?g vs)) df"
  have ts: "map_of df ''timestamp'' = Some (map Num ks)" using assms(2) by (simp add: keys_of_eq_Some)
  have n: "length ks = n" using frame_ok_length [OF assms(1) ts] by simp
  have ok: "frame_ok (length (filter (in_bounds a b) ks)) ?m"
    using assms(1) n by (auto simp: frame_ok_def list_all_iff case_prod_unfold comp_def length_masked)
  have "frame_sub_ts df a b = Inr ?m"
    using ts num_rows_ok [OF ok] assms(3) by (simp add: frame_sub_ts_def Let_def dict_lookup_def between_Num del: map_map)
  moreover have "dict_keys ?m = dict_keys df" by (simp add: case_prod_unfold comp_def)
  ultimately show ?thesis using ok by (intro exI [of _ ?m] conjI allI map_of_map_values)
qed

lemma frame_sub_ts_empty:
  fixes df :: "'v frame"
  assumes "frame_ok n df" "keys_of df ''timestamp'' = Some ks" "filter (in_bounds a b) ks = []"
  shows "frame_sub_ts df a b = Inl ValueError"
proof -
  let ?g = "masked (map (in_bounds a b) ks) :: 'v cell list \<Rightarrow> 'v cell list"
  have ts: "map_of df ''timestamp'' = Some (map Num ks)" using assms(2) by (simp add: keys_of_eq_Some)
  have n: "length ks = n" using frame_ok_length [OF assms(1) ts] by simp
  have "frame_ok 0 (map (\<lambda>(c, vs). (c, ?g vs)) df)"
    using assms(1,3) n length_masked [where ks = ks and a = a and b = b]
    by (auto simp: frame_ok_def list_all_iff case_prod_unfold comp_def)
  from num_rows_ok [OF this] ts show ?thesis by (simp add: frame_sub_ts_def Let_def dict_lookup_def between_Num del: map_map)
qed

section \<open>Prefixes\<close>

lemma map_of_graph: "map_of (map (\<lambda>c. (c, g c)) cs) c = (if c \<in> set cs then Some (g c) else None)"
  by (induction cs) auto

lemma prefix_cols_eq:
  "prefix_cols df p = map (\<lambda>(c, vs). (if c \<in> set time_columns then c else p @ ''-'' @ c, vs)) df"
  unfolding prefix_cols_def rename_cols_def map_of_graph
  by (intro map_cong refl) (force simp del: fst_names split: if_splits)

lemma prefixed_name_plain:
  "p @ ''-'' @ c \<notin> set time_columns" "p @ ''-'' @ c \<noteq> ''receipt_timestamp_x''" "p @ ''-'' @ c \<noteq> ''receipt_timestamp_y''"
proof -
  have dash: "p @ ''-'' @ c \<noteq> n" if "CHR ''-'' \<notin> set n" for n
    using that by (metis in_set_conv_decomp append_Cons append_Nil)
  show "p @ ''-'' @ c \<notin> set time_columns"
    using dash [of "''timestamp''"] dash [of "''receipt_timestamp''"] by (simp add: time_columns_def)
  show "p @ ''-'' @ c \<noteq> ''receipt_timestamp_x''" "p @ ''-'' @ c \<noteq> ''receipt_timestamp_y''" by (rule dash, simp)+
qed

definition prefixed :: "string \<Rightarrow> string \<Rightarrow> string" where
  "prefixed p c = (if c \<in> set time_columns then c else p @ ''-'' @ c)"

lemma prefixed_inj: "prefixed p a = prefixed p b \<Longrightarrow> a = b"
  using prefixed_name_plain(1) [of p] by (auto simp: prefixed_def split: if_splits)

lemma prefixed_time: "prefixed p c \<in> set time_columns \<longleftrightarrow> c \<in> set time_columns"
  using prefixed_name_plain(1) by (auto simp: prefixed_def)

lemma prefix_cols_map: "prefix_cols df p = map (\<lambda>(c, vs). (prefixed p c, vs)) df"
  by (simp add: prefix_cols_eq prefixed_def)

lemma map_of_prefix_cols: "map_of (prefix_cols df p) (prefixed p c) = map_of df c"
  unfolding prefix_cols_map by (induction df) (auto dest: prefixed_inj)

lemma names_prefix_cols: "names (prefix_cols df p) = prefixed p ` names df"
  unfolding prefix_cols_map names_def by (force simp del: fst_names)

lemma value_at_prefix_cols: "value_at (prefix_cols df p) ''timestamp'' t (prefixed p c) = value_at df ''timestamp'' t c"
proof -
  have "map_of (prefix_cols df p) ''timestamp'' = map_of df ''timestamp''"
    using map_of_prefix_cols [of df p "''timestamp''"] by (simp add: prefixed_def time_columns_def)
  then show ?thesis by (simp add: value_at_def map_of_prefix_cols)
qed

lemma prefixed_plain: "plain_names (prefixed p ` cs)"
proof -
  have ne: "prefixed p c \<noteq> ''receipt_timestamp_x'' \<and> prefixed p c \<noteq> ''receipt_timestamp_y''" for c
  proof (cases "c \<in> set time_columns")
    case True
    then consider "c = ''timestamp''" | "c = ''receipt_timestamp''" by (auto simp: time_columns_def)
    then show ?thesis using True by cases (simp_all add: prefixed_def)
  next
    case False
    then have "prefixed p c = p @ ''-'' @ c" by (simp add: prefixed_def)
    show ?thesis unfolding \<open>prefixed p c = p @ ''-'' @ c\<close> by (intro conjI prefixed_name_plain)
  qed
  show ?thesis unfolding plain_names_def
  proof (intro conjI notI)
    assume "''receipt_timestamp_x'' \<in> prefixed p ` cs"
    then obtain c where "''receipt_timestamp_x'' = prefixed p c" by (rule imageE)
    with ne [of c] show False by simp
  next
    assume "''receipt_timestamp_y'' \<in> prefixed p ` cs"
    then obtain c where "''receipt_timestamp_y'' = prefixed p c" by (rule imageE)
    with ne [of c] show False by simp
  qed
qed

text \<open>A block's frame: as many cells in every column, and increasing times.\<close>

definition block_frame :: "rat list \<Rightarrow> 'v frame \<Rightarrow> bool" where
  "block_frame ks df \<longleftrightarrow> frame_ok (length ks) df \<and> map_of df ''timestamp'' = Some (map Num ks) \<and> sorted ks"

lemma block_frame_prefix:
  assumes "block_frame ks df"
  shows "block_frame ks (prefix_cols df p)" "timed_frame (prefix_cols df p)"
proof -
  have "inj (prefixed p)" by (auto intro: injI prefixed_inj)
  then have "frame_ok (length ks) (prefix_cols df p)"
    using assms unfolding block_frame_def prefix_cols_map frame_ok_def
    by (auto simp: list_all_iff case_prod_unfold distinct_map inj_on_def)
  moreover have "map_of (prefix_cols df p) ''timestamp'' = Some (map Num ks)"
    using assms map_of_prefix_cols [of df p "''timestamp''"] by (simp add: prefixed_def time_columns_def block_frame_def)
  ultimately show b: "block_frame ks (prefix_cols df p)" using assms by (simp add: block_frame_def)
  have "plain_names (names (prefix_cols df p))" by (simp only: names_prefix_cols prefixed_plain)
  with b show "timed_frame (prefix_cols df p)" by (auto simp: timed_frame_def block_frame_def keys_of_eq_Some)
qed

section \<open>The join sees no future\<close>

text \<open>The features in the order the join merges them: the label first.\<close>

definition join_order :: "'f option \<Rightarrow> ('f, 'v frame) dict \<Rightarrow> ('f, 'v frame) dict" where
  "join_order label concated =
     (case label of None \<Rightarrow> concated
      | Some l \<Rightarrow> (case map_of concated l of None \<Rightarrow> [] | Some df \<Rightarrow> (l, df) # filter (\<lambda>(f, df). l \<noteq> f) concated))"

definition prefixed_frames :: "('f \<Rightarrow> string) \<Rightarrow> ('f, 'v frame) dict \<Rightarrow> 'v frame list" where
  "prefixed_frames str_f concated = map (\<lambda>(f, df). prefix_cols df (str_f f)) concated"

lemma join_inputs_order:
  "join_order label concated \<noteq> [] \<Longrightarrow> join_inputs str_f label concated = Inr (prefixed_frames str_f (join_order label concated))"
  by (auto simp: join_inputs_def join_order_def prefixed_frames_def dict_lookup_def split: option.splits)

text \<open>No two features give a column the same name.\<close>

fun unmixed :: "('f \<Rightarrow> string) \<Rightarrow> ('f, 'v frame) dict \<Rightarrow> bool" where
  "unmixed str_f [] = True"
| "unmixed str_f ((f, df) # rest) =
     (list_all (\<lambda>(g, dg). names (prefix_cols df (str_f f)) \<inter> names (prefix_cols dg (str_f g)) \<subseteq> set time_columns) rest \<and>
      unmixed str_f rest)"

lemma apart_prefixed:
  "list_all (\<lambda>(g, dg). cs \<inter> names (prefix_cols dg (str_f g)) \<subseteq> set time_columns) rest \<Longrightarrow> unmixed str_f rest \<Longrightarrow>
   apart cs (prefixed_frames str_f rest)"
proof (induction rest arbitrary: cs)
  case Nil
  then show ?case by (simp add: prefixed_frames_def)
next
  case (Cons p rest)
  obtain g dg where p: "p = (g, dg)" by (cases p)
  have "list_all (\<lambda>(h, dh). (cs \<union> names (prefix_cols dg (str_f g))) \<inter> names (prefix_cols dh (str_f h)) \<subseteq> set time_columns) rest"
    using Cons.prems p by (simp add: list_all_iff case_prod_unfold; blast)
  from Cons.IH [OF this] Cons.prems p show ?case by (simp add: prefixed_frames_def)
qed

text \<open>C7. The join sees no future. When the frames of all features have increasing times and no two features
  share a column name, the task returns one row for every time of the label (or of the first feature) that
  lies in the interval, with the label's own values, and in every column of every other feature the value of the
  last of its rows at or before that time, from the previous block when the current one has none yet.\<close>

theorem join_sees_no_future:
  assumes "asof_laws merge_asof" "concat_blocks get block_refs prev_refs = Inr concated"
    "join_order label concated = (b, base) # others" "block_frame ks base"
    "\<forall>(f, df)\<in>set others. \<exists>ks'. block_frame ks' df" "unmixed str_f ((b, base) # others)"
    "filter (in_bounds (lower interval) (upper interval)) ks \<noteq> []"
  shows "\<exists>m. point_in_time_join_block merge_asof get str_f interval block_refs prev_refs label = Inr m \<and>
    keys_of m ''timestamp'' = Some (filter (in_bounds (lower interval) (upper interval)) ks) \<and>
    (\<forall>c\<in>names base. map_of m (prefixed (str_f b) c) =
       map_option (masked (map (in_bounds (lower interval) (upper interval)) ks)) (map_of base c)) \<and>
    (\<forall>(f, df)\<in>set others. \<forall>c\<in>names df - set time_columns. map_of m (str_f f @ ''-'' @ c) =
       Some (map (\<lambda>t. value_at df ''timestamp'' t c) (filter (in_bounds (lower interval) (upper interval)) ks)))"
proof -
  let ?base = "prefix_cols base (str_f b)" and ?rest = "prefixed_frames str_f others"
  let ?in = "in_bounds (lower interval) (upper interval)"
  have base: "frame_ok (length ks) ?base" "keys_of ?base ''timestamp'' = Some ks" "sorted ks" "plain_names (names ?base)"
    using block_frame_prefix [OF assms(4), of "str_f b"] by (auto simp: block_frame_def keys_of_eq_Some timed_frame_def)
  have timed: "list_all timed_frame ?rest"
    using assms(5) block_frame_prefix(2) by (fastforce simp: prefixed_frames_def list_all_iff)
  have "apart (names ?base) ?rest" using assms(6) by (intro apart_prefixed) simp_all
  from joins_fold [OF assms(1) base(3,1,2,4) timed this] obtain m where
    m: "foldE (merge_asof_step merge_asof) ?rest ?base = Inr m" "frame_ok (length ks) m" "joins ks ?base ?rest m" by blast
  have left: "map_of m (prefixed (str_f b) c) = map_of base c" if "c \<in> names base" for c
    using m(3) that by (simp add: joins_def names_prefix_cols map_of_prefix_cols)
  have "''timestamp'' \<in> names base" using assms(4) by (auto simp: block_frame_def names_map_of)
  from left [OF this] assms(4) have ts: "keys_of m ''timestamp'' = Some ks"
    by (simp add: block_frame_def keys_of_eq_Some prefixed_def time_columns_def)
  from frame_sub_ts_ok [OF m(2) ts assms(7)] obtain r where
    r: "frame_sub_ts m (lower interval) (upper interval) = Inr r"
      "\<And>c. map_of r c = map_option (masked (map ?in ks)) (map_of m c)" by blast
  have right: "map_of r (str_f f @ ''-'' @ c) = Some (map (\<lambda>t. value_at df ''timestamp'' t c) (filter ?in ks))"
    if "(f, df) \<in> set others" "c \<in> names df - set time_columns" for f df c
  proof -
    have p: "prefixed (str_f f) c = str_f f @ ''-'' @ c" using that(2) by (simp add: prefixed_def)
    have "prefix_cols df (str_f f) \<in> set ?rest" using that(1) by (force simp: prefixed_frames_def)
    moreover have "str_f f @ ''-'' @ c \<in> names (prefix_cols df (str_f f)) - set time_columns"
      using that(2) prefixed_time [of "str_f f" c] unfolding names_prefix_cols p [symmetric] by blast
    ultimately have "map_of m (str_f f @ ''-'' @ c) = Some (map (\<lambda>t. value_at df ''timestamp'' t c) ks)"
      using m(3) value_at_prefix_cols [of df "str_f f" _ c] unfolding joins_def p by auto
    then show ?thesis using r(2) masked_map by simp
  qed
  have "point_in_time_join_block merge_asof get str_f interval block_refs prev_refs label = Inr r"
    using assms(2,3) join_inputs_order [of label concated str_f] m(1) r(1)
    by (simp add: point_in_time_join_block_def merge_asof_multi_def prefixed_frames_def)
  moreover have "keys_of r ''timestamp'' = Some (filter ?in ks)"
    using ts r(2) masked_map [of "lower interval" "upper interval" ks Num] by (simp add: keys_of_eq_Some)
  ultimately show ?thesis using left r(2) right by auto
qed

text \<open>A merge that does what the laws say, for evaluation.\<close>

definition asof_instance :: "'v merge_asof" where
  "asof_instance left_on right_on l r =
     (case keys_of l left_on of
        None \<Rightarrow> Inl KeyError
      | Some ks \<Rightarrow>
          Inr (map (\<lambda>(c, vs). (left_name left_on right_on (dict_keys r) c, vs)) l @
               map (\<lambda>c. (right_name (dict_keys l) c, map (\<lambda>t. value_at r right_on t c) ks))
                 (right_columns left_on right_on (dict_keys r))))"

lemma asof_instance_laws: "asof_laws asof_instance"
  unfolding asof_laws_def
proof (intro allI impI, elim conjE)
  fix left_on right_on and l r :: "'a frame" and n n' ks ks'
  assume l: "frame_ok n l" and ks: "keys_of l left_on = Some ks"
    and d: "distinct (merged_names left_on right_on (dict_keys l) (dict_keys r))"
  let ?L = "map (\<lambda>(c, vs). (left_name left_on right_on (dict_keys r) c, vs)) l"
  let ?R = "map (\<lambda>c. (right_name (dict_keys l) c, map (\<lambda>t. value_at r right_on t c) ks)) (right_columns left_on right_on (dict_keys r))"
  have keys: "dict_keys (?L @ ?R) = merged_names left_on right_on (dict_keys l) (dict_keys r)"
    by (simp add: merged_names_def case_prod_unfold comp_def)
  have dist: "distinct (dict_keys (?L @ ?R))" unfolding keys by (rule d)
  have "length ks = n" using ks frame_ok_length [OF l] by (fastforce simp: keys_of_eq_Some)
  then have "list_all (\<lambda>(c, vs). length vs = n) (?L @ ?R)" using l by (auto simp: list_all_iff frame_ok_def)
  moreover have "?L @ ?R \<noteq> []" using l by (simp add: frame_ok_def)
  ultimately have ok: "frame_ok n (?L @ ?R)" using dist by (simp only: frame_ok_def simp_thms)
  have left: "map_of (?L @ ?R) (left_name left_on right_on (dict_keys r) c) = map_of l c" if c: "c \<in> set (dict_keys l)" for c
  proof -
    obtain vs where vs: "map_of l c = Some vs" using c by (auto simp: names_map_of)
    from map_of_SomeD [OF this] have "(left_name left_on right_on (dict_keys r) c, vs) \<in> set ?L" by force
    then have "map_of (?L @ ?R) (left_name left_on right_on (dict_keys r) c) = Some vs"
      by (intro map_of_is_SomeI dist) (simp only: set_append Un_iff simp_thms)
    with vs show ?thesis by simp
  qed
  have right: "map_of (?L @ ?R) (right_name (dict_keys l) c) = Some (map (\<lambda>t. value_at r right_on t c) ks)"
    if "c \<in> set (right_columns left_on right_on (dict_keys r))" for c
    using that by (intro map_of_is_SomeI dist) (simp only: set_append Un_iff set_map image_eqI simp_thms)
  have m: "asof_instance left_on right_on l r = Inr (?L @ ?R)" using ks by (simp add: asof_instance_def)
  show "\<exists>m. asof_instance left_on right_on l r = Inr m \<and> frame_ok n m \<and>
      dict_keys m = merged_names left_on right_on (dict_keys l) (dict_keys r) \<and>
      (\<forall>c\<in>set (dict_keys l). map_of m (left_name left_on right_on (dict_keys r) c) = map_of l c) \<and>
      (\<forall>c\<in>set (right_columns left_on right_on (dict_keys r)).
         map_of m (right_name (dict_keys l) c) = Some (map (\<lambda>t. value_at r right_on t c) ks))"
    using m ok keys left right by (intro exI [of _ "?L @ ?R"] conjI ballI)
qed

section \<open>The look-ahead label\<close>

lemma value_at_put:
  assumes "on \<noteq> x" "c \<noteq> x"
  shows "value_at (dict_put x vs f) on t c = value_at f on t c"
  using assms by (simp add: value_at_def)

lemma add_seconds_numbers: "map (add_seconds s) (map Num ks) = map Num (map (\<lambda>k. k + s) ks)"
  by simp

text \<open>The frame before its rows are cut: the label's columns in their order, under their own names.\<close>

definition shifted_frame :: "rat \<Rightarrow> rat list \<Rightarrow> 'v frame \<Rightarrow> 'v frame" where
  "shifted_frame s ks df =
     (''timestamp'', map Num ks) # map (\<lambda>c. (c, map (\<lambda>t. value_at df ''timestamp'' (t + s) c) ks))
       (remove1 ''receipt_timestamp'' (remove1 ''timestamp'' (dict_keys df)))"

lemma suffix_neq: "a @ ''_x'' \<noteq> b @ ''_y''" "c @ ''_y'' \<noteq> ''timestamp''" "c @ ''_y'' \<noteq> ''receipt_timestamp''"
  "c @ ''_x'' \<noteq> ''receipt_timestamp''"
proof -
  have "last (a @ ''_x'') \<noteq> last (b @ ''_y'')" by simp
  then show "a @ ''_x'' \<noteq> b @ ''_y''" by (rule contrapos_nn) (rule arg_cong)
  have y: "last (c @ ''_y'') = CHR ''y''" and x: "last (c @ ''_x'') = CHR ''x''" by simp_all
  have p: "last ''timestamp'' = CHR ''p''" "last ''receipt_timestamp'' = CHR ''p''" by simp_all
  show "c @ ''_y'' \<noteq> ''timestamp''"
  proof
    assume "c @ ''_y'' = ''timestamp''"
    with y p(1) show False by (simp only: char.inject)
  qed
  show "c @ ''_y'' \<noteq> ''receipt_timestamp''"
  proof
    assume "c @ ''_y'' = ''receipt_timestamp''"
    with y p(2) show False by (simp only: char.inject)
  qed
  show "c @ ''_x'' \<noteq> ''receipt_timestamp''"
  proof
    assume "c @ ''_x'' = ''receipt_timestamp''"
    with x p(2) show False by (simp only: char.inject)
  qed
qed

lemma select_cols_graph:
  assumes "\<And>c. c \<in> set cs \<Longrightarrow> map_of m (g c) = Some (h c)"
  shows "select_cols (map g cs) m = Inr (map (\<lambda>c. (g c, h c)) cs)"
  using assms unfolding select_cols_def by (induction cs) (simp_all add: dict_lookup_def)

lemma map_of_zip_back:
  assumes "inj g"
  shows "map_of (zip (map g cs) cs) (g c) = (if c \<in> set cs then Some c else None)"
  using assms by (induction cs) (auto simp: inj_eq)

lemma rename_back:
  assumes "inj g" "k \<notin> range g"
  shows "rename_cols (zip (map g cs) cs) ((k, vs) # map (\<lambda>c. (g c, h c)) cs) = (k, vs) # map (\<lambda>c. (c, h c)) cs"
proof -
  have none: "map_of (zip (map g cs) cs) k = None"
    using assms(2) by (auto simp: map_of_eq_None_iff names_def simp del: fst_names dest!: set_zip_leftD)
  show ?thesis by (simp add: rename_cols_def none map_of_zip_back [OF assms(1)])
qed

lemma merged_names_suffixed:
  assumes "left_on \<noteq> right_on"
  shows "merged_names left_on right_on cs cs = map (\<lambda>c. c @ ''_x'') cs @ map (\<lambda>c. c @ ''_y'') cs"
  using assms by (simp add: merged_names_def right_columns_def left_name_def right_name_def cong: map_cong)

text \<open>Merging a frame with itself at a later key: the labels' columns.\<close>

lemma shifted_merge:
  fixes s :: rat
  assumes "asof_laws merge_asof" "block_frame ks df" "''lookahead_timestamp'' \<notin> names df"
  defines "df' \<equiv> dict_put ''lookahead_timestamp'' (map Num (map (\<lambda>k. k + s) ks)) df"
  shows "\<exists>m. merge_asof ''lookahead_timestamp'' ''timestamp'' df' df' = Inr m \<and>
    map_of m ''timestamp_x'' = Some (map Num ks) \<and> ''receipt_timestamp'' \<notin> names m \<and>
    (\<forall>c\<in>names df. map_of m (c @ ''_y'') = Some (map (\<lambda>t. value_at df ''timestamp'' (t + s) c) ks))"
proof -
  let ?n = "''lookahead_timestamp''" and ?ts = "''timestamp''"
  have b: "frame_ok (length ks) df" "map_of df ?ts = Some (map Num ks)" "sorted ks"
    using assms(2) by (simp_all add: block_frame_def)
  have df': "df' = df @ [(?n, map Num (map (\<lambda>k. k + s) ks))]"
    unfolding df'_def using assms(3) by (intro dict_put_fresh) simp
  have ok: "frame_ok (length ks) df'" using b(1) assms(3) by (auto simp: df' frame_ok_def)
  have k: "keys_of df' ?n = Some (map (\<lambda>k. k + s) ks)" "keys_of df' ?ts = Some ks"
    using b(2) by (simp_all add: keys_of_eq_Some df'_def)
  have s: "sorted (map (\<lambda>k. k + s) ks)" using b(3) by (simp add: sorted_map sorted_wrt_iff_nth_less)
  have ne: "?n \<noteq> ?ts" by simp
  have names': "merged_names ?n ?ts (dict_keys df') (dict_keys df') = map (\<lambda>c. c @ ''_x'') (dict_keys df') @ map (\<lambda>c. c @ ''_y'') (dict_keys df')"
    by (rule merged_names_suffixed [OF ne])
  have "distinct (dict_keys df')" using ok by (simp add: frame_ok_def)
  then have dist: "distinct (merged_names ?n ?ts (dict_keys df') (dict_keys df'))" unfolding names'
    using suffix_neq(1) by (intro distinct_maps) (auto simp: inj_on_def simp del: append_eq_append_conv append_Cons)
  have "\<exists>m. merge_asof ?n ?ts df' df' = Inr m \<and> frame_ok (length ks) m \<and>
      dict_keys m = merged_names ?n ?ts (dict_keys df') (dict_keys df') \<and>
      (\<forall>c\<in>set (dict_keys df'). map_of m (left_name ?n ?ts (dict_keys df') c) = map_of df' c) \<and>
      (\<forall>c\<in>set (right_columns ?n ?ts (dict_keys df')).
         map_of m (right_name (dict_keys df') c) = Some (map (\<lambda>t. value_at df' ?ts t c) (map (\<lambda>k. k + s) ks)))"
    by (rule assms(1) [unfolded asof_laws_def, rule_format, of "length ks" df' "length ks" df' ?n "map (\<lambda>k. k + s) ks" ?ts ks])
      (intro conjI ok k s b(3) dist)
  then obtain m where m: "merge_asof ?n ?ts df' df' = Inr m" "dict_keys m = merged_names ?n ?ts (dict_keys df') (dict_keys df')"
    and left: "\<And>c. c \<in> names df' \<Longrightarrow> map_of m (left_name ?n ?ts (dict_keys df') c) = map_of df' c"
    and right: "\<And>c. c \<in> names df' \<Longrightarrow>
      map_of m (right_name (dict_keys df') c) = Some (map (\<lambda>t. value_at df' ?ts t c) (map (\<lambda>k. k + s) ks))"
    by (auto simp: right_columns_def)
  have sub: "c \<in> names df'" if "c \<in> names df" for c
    using that by (simp add: df' names_def del: fst_names)
  have "?ts \<in> names df'" using sub b(2) by (auto simp: names_map_of)
  from left [OF this] this have "map_of m (?ts @ ''_x'') = Some (map Num ks)"
    using k(2) by (simp add: left_name_def keys_of_eq_Some)
  moreover have "map_of m (c @ ''_y'') = Some (map (\<lambda>t. value_at df ?ts (t + s) c) ks)" if "c \<in> names df" for c
  proof -
    have "c \<noteq> ?n" using that assms(3) by blast
    then have "value_at df' ?ts t c = value_at df ?ts t c" for t unfolding df'_def by (intro value_at_put) simp_all
    with right [OF sub [OF that]] sub [OF that] show ?thesis by (simp add: right_name_def comp_def)
  qed
  moreover have "''receipt_timestamp'' \<notin> set (dict_keys m)" unfolding m(2) names'
    using suffix_neq(3,4) by (auto simp del: append_Cons append_eq_Cons_conv)
  ultimately show ?thesis using m(1) by simp
qed

lemma label_cols:
  assumes "distinct (dict_keys df)"
  shows "set (remove1 ''receipt_timestamp'' (remove1 ''timestamp'' (dict_keys df))) = names df - set time_columns"
  using assms by (auto simp: time_columns_def)

lemma lookahead_shift_eq:
  assumes "asof_laws merge_asof" "block_frame ks df" "''lookahead_timestamp'' \<notin> names df"
    "convert_str_to_seconds lookahead = Inr s" "1 \<le> s" "ks \<noteq> []"
  shows "lookahead_shift merge_asof df lookahead = frame_sub_ts (shifted_frame s ks df) (hd ks) (last ks - s)"
proof -
  from shifted_merge [OF assms(1-3), of s] obtain m where
    m: "merge_asof ''lookahead_timestamp'' ''timestamp''
          (dict_put ''lookahead_timestamp'' (map Num (map (\<lambda>k. k + s) ks)) df)
          (dict_put ''lookahead_timestamp'' (map Num (map (\<lambda>k. k + s) ks)) df) = Inr m"
      "map_of m ''timestamp_x'' = Some (map Num ks)" "''receipt_timestamp'' \<notin> names m"
    and y: "\<And>c. c \<in> names df \<Longrightarrow> map_of m (c @ ''_y'') = Some (map (\<lambda>t. value_at df ''timestamp'' (t + s) c) ks)" by blast
  let ?cols = "remove1 ''receipt_timestamp'' (remove1 ''timestamp'' (dict_keys df))"
  let ?g = "\<lambda>c. c @ ''_y''" and ?h = "\<lambda>c. map (\<lambda>t. value_at df ''timestamp'' (t + s) c) ks"
  have ts: "map_of df ''timestamp'' = Some (map Num ks)" "sorted ks" "distinct (dict_keys df)"
    using assms(2) by (simp_all add: block_frame_def frame_ok_def)
  have sel: "select_cols (map ?g ?cols) m = Inr (map (\<lambda>c. (?g c, ?h c)) ?cols)"
    using label_cols [OF ts(3)] y by (intro select_cols_graph) blast
  have range: "''timestamp'' \<notin> range ?g" using suffix_neq(2) by (metis rangeE)
  then have "''timestamp'' \<notin> names (map (\<lambda>c. (?g c, ?h c)) ?cols)" by (auto simp: names_def simp del: fst_names)
  then have ins: "insert_col 0 ''timestamp'' (map Num ks) (map (\<lambda>c. (?g c, ?h c)) ?cols) =
      Inr ((''timestamp'', map Num ks) # map (\<lambda>c. (?g c, ?h c)) ?cols)"
    by (simp only: insert_col_def dict_has_names if_False) simp
  have "inj ?g" by (simp add: inj_def)
  from rename_back [OF this range, of ?cols "map Num ks" ?h]
  have ren: "rename_cols (zip (map ?g ?cols) ?cols) ((''timestamp'', map Num ks) # map (\<lambda>c. (?g c, ?h c)) ?cols) =
      shifted_frame s ks df" by (simp only: shifted_frame_def)
  have nth: "py_nth (map Num ks) 0 = Inr (Num (hd ks))" "py_nth (map Num ks) (- 1) = Inr (Num (last ks))"
    using assms(6) by (auto simp: py_nth_def hd_conv_nth last_conv_nth nat_diff_distrib' Suc_le_eq)
  have sorted: "frame_is_sorted df = Inr True"
    using ts by (simp add: frame_is_sorted_def dict_lookup_def numbers_eq_Some [THEN iffD2])
  show ?thesis
    using assms(5)
    by (simp only: lookahead_shift_def sorted assms(4) bindE_simps Let_def dict_lookup_def ts(1) option.case add_seconds_numbers
        m(1,2) sel ins dict_has_names m(3) if_False nth prod.case cell.case ren not_True_eq_False not_less [symmetric])
qed

lemma shifted_frame_ok:
  assumes "block_frame ks df"
  shows "block_frame ks (shifted_frame s ks df)" "names (shifted_frame s ks df) = names df - {''receipt_timestamp''}"
    "c \<in> names df - set time_columns \<Longrightarrow>
      map_of (shifted_frame s ks df) c = Some (map (\<lambda>t. value_at df ''timestamp'' (t + s) c) ks)"
proof -
  let ?cols = "remove1 ''receipt_timestamp'' (remove1 ''timestamp'' (dict_keys df))"
  have df: "distinct (dict_keys df)" "''timestamp'' \<in> names df" "sorted ks"
    using assms by (auto simp: block_frame_def frame_ok_def names_map_of)
  note cols = label_cols [OF df(1)]
  have keys: "dict_keys (shifted_frame s ks df) = ''timestamp'' # ?cols" by (simp add: shifted_frame_def comp_def)
  have "distinct (''timestamp'' # ?cols)" using df(1) cols by (simp add: time_columns_def)
  with keys have "frame_ok (length ks) (shifted_frame s ks df)"
    unfolding frame_ok_def by (auto simp: shifted_frame_def list_all_iff)
  then show "block_frame ks (shifted_frame s ks df)" using df(3) by (simp add: block_frame_def shifted_frame_def)
  have "names (shifted_frame s ks df) = set (''timestamp'' # ?cols)" unfolding keys [symmetric] by simp
  also have "\<dots> = insert ''timestamp'' (names df - set time_columns)" by (simp only: list.set cols)
  also have "\<dots> = names df - {''receipt_timestamp''}" using df(2) by (auto simp: time_columns_def)
  finally show "names (shifted_frame s ks df) = \<dots>" .
  assume c: "c \<in> names df - set time_columns"
  then have "c \<noteq> ''timestamp''" "c \<in> set ?cols" unfolding cols by (auto simp: time_columns_def)
  then show "map_of (shifted_frame s ks df) c = Some (map (\<lambda>t. value_at df ''timestamp'' (t + s) c) ks)"
    by (simp only: shifted_frame_def map_of.simps fst_conv snd_conv fun_upd_apply if_False map_of_graph if_True)
qed

lemma keys_of_restricted:
  assumes "block_frame ks df" "\<And>c. map_of m c = map_option (masked (map (in_bounds a b) ks)) (map_of df c)"
  shows "keys_of m ''timestamp'' = Some (filter (in_bounds a b) ks)"
  using assms masked_map [of a b ks Num] by (simp add: keys_of_eq_Some block_frame_def)

lemma last_max: "sorted ks \<Longrightarrow> t \<in> set ks \<Longrightarrow> t \<le> last ks \<and> hd ks \<le> t" for ks :: "rat list"
  by (induction ks) auto

text \<open>The label of a frame: it has a row for every time from which the look-ahead stays inside the frame.\<close>

lemma lookahead_shift_spec:
  assumes "asof_laws merge_asof" "block_frame ks df" "''lookahead_timestamp'' \<notin> names df"
    "convert_str_to_seconds lookahead = Inr s" "1 \<le> s" "ks \<noteq> []" "hd ks + s \<le> last ks"
  shows "\<exists>m. lookahead_shift merge_asof df lookahead = Inr m \<and> block_frame (filter (\<lambda>t. t + s \<le> last ks) ks) m \<and>
    names m = names df - {''receipt_timestamp''} \<and>
    (\<forall>c\<in>names df - set time_columns.
       map_of m c = Some (map (\<lambda>t. value_at df ''timestamp'' (t + s) c) (filter (\<lambda>t. t + s \<le> last ks) ks)))"
proof -
  note ok = shifted_frame_ok [OF assms(2), where s = s]
  have sorted: "sorted ks" using assms(2) by (simp add: block_frame_def)
  have cut: "filter (in_bounds (hd ks) (last ks - s)) ks = filter (\<lambda>t. t + s \<le> last ks) ks"
    using last_max [OF sorted] by (intro filter_cong refl) auto
  have "hd ks \<in> set (filter (\<lambda>t. t + s \<le> last ks) ks)" using assms(6,7) by simp
  then have ne: "filter (in_bounds (hd ks) (last ks - s)) ks \<noteq> []" unfolding cut by force
  from frame_sub_ts_ok [OF _ _ ne, of "length ks" "shifted_frame s ks df"] ok(1) obtain m where
    m: "frame_sub_ts (shifted_frame s ks df) (hd ks) (last ks - s) = Inr m"
      "frame_ok (length (filter (\<lambda>t. t + s \<le> last ks) ks)) m" "dict_keys m = dict_keys (shifted_frame s ks df)"
    and mo: "\<And>c. map_of m c = map_option (masked (map (in_bounds (hd ks) (last ks - s)) ks)) (map_of (shifted_frame s ks df) c)"
    unfolding cut by (auto simp: block_frame_def keys_of_eq_Some)
  have "keys_of m ''timestamp'' = Some (filter (\<lambda>t. t + s \<le> last ks) ks)"
    using keys_of_restricted [OF ok(1) mo] unfolding cut .
  then have "block_frame (filter (\<lambda>t. t + s \<le> last ks) ks) m"
    using m(2) sorted by (simp add: block_frame_def keys_of_eq_Some sorted_wrt_filter)
  moreover have "names m = names df - {''receipt_timestamp''}" using ok(2) m(3) by (metis set_map fst_names)
  moreover have "map_of m c = Some (map (\<lambda>t. value_at df ''timestamp'' (t + s) c) (filter (\<lambda>t. t + s \<le> last ks) ks))"
    if "c \<in> names df - set time_columns" for c
    using ok(3) [OF that] mo [of c] masked_map unfolding cut [symmetric] by simp
  ultimately show ?thesis using lookahead_shift_eq [OF assms(1-6)] m(1) by auto
qed

text \<open>C8. Labels look exactly as far ahead as they say. For the blocks of a label whose times increase and an
  interval that contains a time with the look-ahead still inside the frame, the task returns one row for each
  such time \<open>t\<close>, and in every column the value of the last row at or before \<open>t\<close> plus the look-ahead. The
  columns are those of the frame, but the receipt time is lost.\<close>

theorem label_looks_ahead:
  assumes "asof_laws merge_asof" "mapE get block_refs = Inr blocks" "concat_frames blocks = Inr df"
    "block_frame ks df" "''lookahead_timestamp'' \<notin> names df"
    "convert_str_to_seconds lookahead = Inr s" "1 \<le> s"
    "filter (\<lambda>t. in_bounds (lower interval) (upper interval) t \<and> t + s \<le> last ks) ks = ts" "ts \<noteq> []"
  shows "\<exists>m. lookahead_shift_blocks merge_asof get block_refs interval lookahead = Inr m \<and>
    keys_of m ''timestamp'' = Some ts \<and> names m = names df - {''receipt_timestamp''} \<and>
    (\<forall>c\<in>names df - set time_columns. map_of m c = Some (map (\<lambda>t. value_at df ''timestamp'' (t + s) c) ts))"
proof -
  let ?ks = "filter (\<lambda>t. t + s \<le> last ks) ks" and ?a = "lower interval" and ?b = "upper interval"
  have ts: "filter (in_bounds ?a ?b) ?ks = ts" using assms(8) by (simp add: conj_ac)
  obtain t where "t \<in> set ts" using assms(9) by (cases ts) auto
  then have t: "t \<in> set ks" "t + s \<le> last ks" unfolding assms(8) [symmetric] by simp_all
  have "sorted ks" using assms(4) by (simp add: block_frame_def)
  from last_max [OF this t(1)] t have "hd ks + s \<le> last ks" "ks \<noteq> []" by auto
  from lookahead_shift_spec [OF assms(1,4-7) this(2,1)] obtain m where
    m: "lookahead_shift merge_asof df lookahead = Inr m" "block_frame ?ks m" "names m = names df - {''receipt_timestamp''}"
    and cols: "\<And>c. c \<in> names df - set time_columns \<Longrightarrow>
      map_of m c = Some (map (\<lambda>t. value_at df ''timestamp'' (t + s) c) ?ks)" by blast
  have "filter (in_bounds ?a ?b) ?ks \<noteq> []" unfolding ts by (rule assms(9))
  from frame_sub_ts_ok [OF _ _ this, of "length ?ks" m] m(2) obtain r where
    r: "frame_sub_ts m ?a ?b = Inr r" "dict_keys r = dict_keys m"
    and ro: "\<And>c. map_of r c = map_option (masked (map (in_bounds ?a ?b) ?ks)) (map_of m c)"
    by (auto simp: block_frame_def keys_of_eq_Some)
  have "keys_of r ''timestamp'' = Some ts" using keys_of_restricted [OF m(2) ro] unfolding ts .
  moreover have "names r = names df - {''receipt_timestamp''}" using r(2) m(3) by (metis set_map fst_names)
  moreover have "map_of r c = Some (map (\<lambda>t. value_at df ''timestamp'' (t + s) c) ts)" if "c \<in> names df - set time_columns" for c
    using cols [OF that] ro [of c] masked_map [of ?a ?b ?ks] unfolding ts by simp
  ultimately show ?thesis using assms(2,3) m(1) r(1) by (auto simp: lookahead_shift_blocks_def)
qed

section \<open>Samples\<close>

definition sample_label :: "unit frame" where
  "sample_label = [(''timestamp'', map Num [1, 2, 3, 4]), (''receipt_timestamp'', map Num [1, 2, 3, 4]),
     (''mid'', map Num [10, 20, 30, 40])]"

definition sample_feature :: "rat list \<Rightarrow> rat list \<Rightarrow> unit frame" where
  "sample_feature ts vs = [(''timestamp'', map Num ts), (''v'', map Num vs)]"

text \<open>The second feature's previous block ends before the interval; its own begins in it.\<close>

definition sample_blocks :: "(string, unit frame) dict" where
  "sample_blocks = [(''L'', sample_label), (''F'', sample_feature [3, 5] [8, 9])]"

definition sample_prev :: "(string, unit frame) dict" where
  "sample_prev = [(''F'', sample_feature [0, 1] [6, 7])]"

theorem join_sees_no_future_witness:
  "\<exists>m. point_in_time_join_block asof_instance Inr id (closed_ivl 2 3) sample_blocks sample_prev (Some ''L'') = Inr m \<and>
    keys_of m ''timestamp'' = Some [2, 3] \<and> map_of m ''F-v'' = Some [Num 7, Num 8]"
proof -
  have c: "concat_blocks Inr sample_blocks sample_prev =
      Inr [(''L'', sample_label), (''F'', sample_feature [0, 1, 3, 5] [6, 7, 8, 9])]" by code_simp
  have o: "join_order (Some ''L'') [(''L'', sample_label), (''F'', sample_feature [0, 1, 3, 5] [6, 7, 8, 9])] =
      [(''L'', sample_label), (''F'', sample_feature [0, 1, 3, 5] [6, 7, 8, 9])]" by code_simp
  have b: "block_frame [1, 2, 3, 4] sample_label" "block_frame [0, 1, 3, 5] (sample_feature [0, 1, 3, 5] [6, 7, 8, 9])"
    by code_simp+
  have u: "unmixed id [(''L'', sample_label), (''F'', sample_feature [0, 1, 3, 5] [6, 7, 8, 9])]" by code_simp
  have k: "filter (in_bounds 2 3) [1, 2, 3, 4] = [2, 3 :: rat]" by simp
  have v: "''v'' \<in> names (sample_feature [0, 1, 3, 5] [6, 7, 8, 9]) - set time_columns"
    "map (\<lambda>t. value_at (sample_feature [0, 1, 3, 5] [6, 7, 8, 9]) ''timestamp'' t ''v'') [2, 3] = [Num 7, Num 8]"
    by code_simp+
  from join_sees_no_future [OF asof_instance_laws c o b(1) _ u, of "closed_ivl 2 3"] b(2) k
  obtain m where "point_in_time_join_block asof_instance Inr id (closed_ivl 2 3) sample_blocks sample_prev (Some ''L'') = Inr m"
    "keys_of m ''timestamp'' = Some [2, 3]"
    "map_of m (id ''F'' @ ''-'' @ ''v'') =
       Some (map (\<lambda>t. value_at (sample_feature [0, 1, 3, 5] [6, 7, 8, 9]) ''timestamp'' t ''v'') [2, 3])"
    using v(1) by auto
  then show ?thesis unfolding v(2) by auto
qed

text \<open>Looking two seconds ahead from a frame of four: two rows, and no receipt time.\<close>

theorem label_looks_ahead_witness:
  "\<exists>m. lookahead_shift_blocks asof_instance Inr [sample_label] (closed_ivl 0 9) ''2s'' = Inr m \<and>
    keys_of m ''timestamp'' = Some [1, 2] \<and> names m = {''timestamp'', ''mid''} \<and> map_of m ''mid'' = Some [Num 30, Num 40]"
proof -
  have c: "mapE Inr [sample_label] = Inr [sample_label]" "concat_frames [sample_label] = Inr sample_label" by code_simp+
  have b: "block_frame [1, 2, 3, 4] sample_label" by code_simp
  have n: "names sample_label = {''timestamp'', ''receipt_timestamp'', ''mid''}" by code_simp
  have s: "convert_str_to_seconds ''2s'' = Inr 2" by code_simp
  have v: "map (\<lambda>t. value_at sample_label ''timestamp'' (t + 2) ''mid'') [1, 2] = [Num 30, Num 40]" by code_simp
  from label_looks_ahead [OF asof_instance_laws c b _ s, of "closed_ivl 0 9" "[1, 2]"]
  obtain m where "lookahead_shift_blocks asof_instance Inr [sample_label] (closed_ivl 0 9) ''2s'' = Inr m"
    "keys_of m ''timestamp'' = Some [1, 2]" "names m = names sample_label - {''receipt_timestamp''}"
    "map_of m ''mid'' = Some (map (\<lambda>t. value_at sample_label ''timestamp'' (t + 2) ''mid'') [1, 2])"
    using n by (auto simp: time_columns_def)
  with n v show ?thesis by auto
qed

end
