(* ===== verification/DistributedRun.thy ===== *)
theory DistributedRun
  imports TimeUtils
begin

text \<open>
  The split of a run over workers: split_featurizer_config of featurizer/config.py and the assignment of its
  pieces in run_remotely of backtester/runner.py. The parser of a date and the text of a timestamp are
  parameters; what a worker does with its configuration is modelled in BacktestLoop.
\<close>

record 'c featurizer_config =
  feature_configs :: "'c list"
  start_date :: "string option"
  end_date :: "string option"
  label_lookahead :: "string option"
  label_feature :: "(int + string) option"
  features_to_store :: "int list"

definition parse_date :: "(string \<Rightarrow> rat pyres) \<Rightarrow> string option \<Rightarrow> rat pyres" where
  "parse_date parse d = (case d of None \<Rightarrow> Inl TypeError | Some s \<Rightarrow> parse s)"

definition config_split :: "(rat \<Rightarrow> string) \<Rightarrow> 'c featurizer_config \<Rightarrow> Interval \<Rightarrow> 'c featurizer_config" where
  "config_split ts_to_str_date config i =
     config\<lparr>start_date := Some (ts_to_str_date (lower i)), end_date := Some (ts_to_str_date (upper i))\<rparr>"

text \<open>\<open>None\<close> is a split that does not end.\<close>

definition split_featurizer_config ::
    "(string \<Rightarrow> rat pyres) \<Rightarrow> (rat \<Rightarrow> string) \<Rightarrow> 'c featurizer_config \<Rightarrow> int \<Rightarrow> 'c featurizer_config list pyres option" where
  "split_featurizer_config parse ts_to_str_date config num_splits =
     (case bindE (parse_date parse (start_date config)) (\<lambda>start_ts.
             bindE (parse_date parse (end_date config)) (\<lambda>end_ts. Inr (start_ts, end_ts))) of
        Inl err \<Rightarrow> Some (Inl err)
      | Inr (start_ts, end_ts) \<Rightarrow>
          map_option (\<lambda>r. bindE r (\<lambda>split_ranges. Inr (map (config_split ts_to_str_date config) split_ranges)))
            (split_time_range_between_ts start_ts end_ts num_splits (1 / 10)))"

text \<open>The configurations the worker actors are made with.\<close>

definition worker_configs :: "int \<Rightarrow> 'c list \<Rightarrow> 'c list pyres" where
  "worker_configs num_workers configs = mapE (py_nth configs) (map int [0..<nat num_workers])"

lemma worker_configs_eq:
  "worker_configs (int n) cs = (if length cs < n then Inl IndexError else Inr (take n cs))"
proof (cases "length cs < n")
  case True
  have "mapE (py_nth cs) (map int ks) = Inl IndexError" if "length cs \<in> set ks" "sorted ks" for ks
    using that
  proof (induction ks)
    case (Cons k ks)
    then show ?case by (cases "k < length cs") (auto simp: py_nth_def)
  qed simp
  from this [of "[0..<n]"] True show ?thesis by (simp add: worker_configs_def)
next
  case False
  have "list_all2 (\<lambda>x y. py_nth cs x = Inr y) (map int [0..<n]) (take n cs)"
    using False by (auto simp: list_all2_conv_all_nth py_nth_def)
  then show ?thesis using False by (simp add: worker_configs_def flip: mapE_Inr_iff)
qed

text \<open>How many pieces the loop makes, and where the piece of a number begins and ends.\<close>

lemma pieces_nth:
  assumes "pieces sz diff s e ivs" "i < length ivs"
  shows "lower (ivs ! i) = s + of_nat i * (sz + diff) \<and> s + of_nat i * (sz + diff) < e \<and>
    upper (ivs ! i) = min (s + of_nat i * (sz + diff) + sz) e"
  using assms
proof (induction ivs arbitrary: s i)
  case (Cons j ivs)
  show ?case
  proof (cases i)
    case (Suc k)
    with Cons.prems Cons.IH [of "s + sz + diff" k] show ?thesis by (simp add: algebra_simps)
  qed (use Cons.prems in simp)
qed simp

lemma pieces_end: "pieces sz diff s e ivs \<Longrightarrow> e \<le> s + of_nat (length ivs) * (sz + diff)"
proof (induction ivs arbitrary: s)
  case (Cons i ivs)
  then have "e \<le> s + sz + diff + of_nat (length ivs) * (sz + diff)" by simp
  then show ?case by (simp add: algebra_simps)
qed simp

lemma pieces_length:
  assumes "pieces sz diff s e ivs" "0 < sz + diff" "s < e"
  shows "length ivs = nat \<lceil>(e - s) / (sz + diff)\<rceil>"
proof -
  have "ivs \<noteq> []" using assms(1,3) by (cases ivs) auto
  then have "s + of_nat (length ivs - 1) * (sz + diff) < e" using pieces_nth [OF assms(1), of "length ivs - 1"] by simp
  then have "of_nat (length ivs - 1) < (e - s) / (sz + diff)" using assms(2) by (simp add: field_simps)
  moreover have "(e - s) / (sz + diff) \<le> of_nat (length ivs)"
    using pieces_end [OF assms(1)] assms(2) by (simp add: field_simps)
  ultimately have "\<lceil>(e - s) / (sz + diff)\<rceil> = int (length ivs)" using \<open>ivs \<noteq> []\<close>
    by (intro ceiling_unique) (simp_all add: of_nat_diff Suc_le_eq)
  then show ?thesis by simp
qed

definition piece_size :: "rat \<Rightarrow> rat \<Rightarrow> nat \<Rightarrow> rat" where
  "piece_size s e n = of_int (int_trunc ((e - s) / of_nat n))"


text \<open>A run over ten seconds by three workers leaves out the last seven tenths of a second.\<close>

definition sample_config :: "unit featurizer_config" where
  "sample_config = \<lparr>feature_configs = [], start_date = Some ''0'', end_date = Some ''10'', label_lookahead = None,
     label_feature = None, features_to_store = []\<rparr>"

definition sample_parse :: "string \<Rightarrow> rat pyres" where
  "sample_parse d = bindE (py_int d) (\<lambda>n. Inr (of_int n))"

definition sample_date :: "rat \<Rightarrow> string" where
  "sample_date t = show_int \<lfloor>t * 10\<rfloor>"


text \<open>A hundred seconds are not enough for a hundred workers.\<close>

lemma hundred_workers_raise:
  "length configs = nat \<lceil>(100 - 0) / (piece_size 0 100 100 + 1 / 10)\<rceil> \<Longrightarrow>
   worker_configs 100 configs = Inl IndexError"
proof -
  have "nat \<lceil>(100 - 0) / (piece_size 0 100 100 + 1 / 10)\<rceil> = 91" by code_simp
  then show "length configs = nat \<lceil>(100 - 0) / (piece_size 0 100 100 + 1 / 10)\<rceil> \<Longrightarrow>
    worker_configs 100 configs = Inl IndexError" using worker_configs_eq [of 100 configs] by simp
qed

end
