(* ===== verification/FeatureTasks.thy ===== *)
theory FeatureTasks
  imports StoreAdapters BlockCache DataFrames
begin

text \<open>
  The rest of featurizer/task_graph/tasks.py and of featurizer/actors/cache_actor.py: preprocessing, synthetic
  blocks, the references of the results, and the catalog entry of a feature block that calculate_feature
  stores. What a definition does to a block, the size in memory, the hash of a frame and the day of a timestamp
  are parameters.
\<close>

section \<open>Loading with preprocessing\<close>

definition preprocess_data_block :: "('d \<Rightarrow> 'b \<Rightarrow> 'b pyres) \<Rightarrow> 'b \<Rightarrow> 'd \<Rightarrow> 'b pyres" where
  "preprocess_data_block preprocess block data_def = preprocess data_def block"

definition load_and_preprocess ::
    "('b \<Rightarrow> 'r) \<Rightarrow> ('r \<Rightarrow> 'b option) \<Rightarrow> ('p \<Rightarrow> 'b pyres) \<Rightarrow> ('b \<Rightarrow> bool) \<Rightarrow> ('d \<Rightarrow> 'b \<Rightarrow> 'b pyres) \<Rightarrow> 'k \<times> 'i \<Rightarrow> 'p \<Rightarrow> 'd
     \<Rightarrow> ('k, 'i, 'r) obj_cache \<Rightarrow> ('b pyres \<times> bool) \<times> ('k, 'i, 'r) obj_cache" where
  "load_and_preprocess ray_put ray_get load_df is_sorted preprocess ctx path data_def cache =
     (case load_if_needed ray_put ray_get load_df is_sorted ctx path cache of
        ((block, was_read), cache') \<Rightarrow> ((bindE block (\<lambda>b. preprocess_data_block preprocess b data_def), was_read), cache'))"

definition gen_synth_events :: "('d \<Rightarrow> Interval \<Rightarrow> 'p \<Rightarrow> 'b pyres) \<Rightarrow> 'k \<times> 'i \<Rightarrow> Interval \<Rightarrow> 'd \<Rightarrow> 'p \<Rightarrow> 'b pyres" where
  "gen_synth_events gen ctx interval synth_data_def params = gen synth_data_def interval params"

text \<open>The object that is cached is the block before preprocessing, so every use preprocesses it again, and the
  cache and the reads of the store are those of loading alone.\<close>

lemma preprocessing_is_not_cached:
  "snd (load_and_preprocess put get load sorted pre ctx path d cache) = snd (load_if_needed put get load sorted ctx path cache)"
  "snd (fst (load_and_preprocess put get load sorted pre ctx path d cache)) =
     snd (fst (load_if_needed put get load sorted ctx path cache))"
  by (simp_all add: load_and_preprocess_def split: prod.split)

section \<open>The references of the results\<close>

record ('k, 'i, 'r, 'x) cache_actor =
  actor_cache :: "('k, 'i, 'r) obj_cache"
  featurizer_result_refs :: "'x list option"

definition new_cache_actor :: "('k, 'i, 'r) obj_cache \<Rightarrow> ('k, 'i, 'r, 'x) cache_actor" where
  "new_cache_actor cache = \<lparr>actor_cache = cache, featurizer_result_refs = None\<rparr>"

definition record_featurizer_result_refs :: "'x list \<Rightarrow> ('k, 'i, 'r, 'x) cache_actor \<Rightarrow> ('k, 'i, 'r, 'x) cache_actor" where
  "record_featurizer_result_refs refs a = a\<lparr>featurizer_result_refs := Some refs\<rparr>"

definition get_featurizer_result_refs :: "('k, 'i, 'r, 'x) cache_actor \<Rightarrow> 'x list option" where
  "get_featurizer_result_refs a = featurizer_result_refs a"

section \<open>The catalog entry of a feature block\<close>

record feature_block =
  fb_item :: unstored_block
  fb_end_ts :: rat
  fb_size_in_memory_kb :: int
  fb_num_rows :: nat
  fb_path :: string

definition make_feature_block_metadata ::
    "('row \<Rightarrow> rat) \<Rightarrow> (rat \<Rightarrow> string) \<Rightarrow> ('row list \<Rightarrow> int) \<Rightarrow> ('row list \<Rightarrow> string) \<Rightarrow> (unstored_block \<Rightarrow> string)
     \<Rightarrow> string \<Rightarrow> string \<Rightarrow> 'row list \<Rightarrow> Interval \<Rightarrow> feature_block pyres" where
  "make_feature_block_metadata ts day_of get_size_kb hash_df make_path definition_name key df interval =
     bindE (time_range ts df) (\<lambda>(_, start_t, end_t).
       if day_of start_t \<noteq> day_of end_t then Inl ValueError
       else let item = \<lparr>ub_owner = Some ''0'', ub_definition = Some definition_name, ub_key = Some key,
                  ub_compaction = Some DEFAULT_COMPACTION, ub_day = Some (day_of start_t),
                  ub_start_ts = lower interval, ub_hash = hash_df df\<rparr>
            in Inr \<lparr>fb_item = item, fb_end_ts = upper interval, fb_size_in_memory_kb = get_size_kb df,
                    fb_num_rows = length df, fb_path = make_path item\<rparr>)"

lemma time_range_ends: "df \<noteq> [] \<Longrightarrow> time_range ts df = Inr (ts (last df) - ts (hd df), ts (hd df), ts (last df))"
  by (auto simp: time_range_def py_nth_def hd_conv_nth last_conv_nth nat_diff_distrib' Suc_le_eq)

text \<open>An entry is made exactly for the blocks that do not cross midnight: over sorted rows, and days that do
  not go backwards, every row is of the entry's day.\<close>

lemma feature_blocks_lie_in_a_day:
  assumes "is_ts_sorted ts df" "df \<noteq> []" "\<And>a b. a \<le> b \<Longrightarrow> day_of a \<le> day_of b"
  shows "case make_feature_block_metadata ts day_of mem hash_df make_path name key df interval of
      Inl err \<Rightarrow> err = ValueError \<and> \<not> (\<exists>d. \<forall>r\<in>set df. day_of (ts r) = d)
    | Inr b \<Rightarrow> \<forall>r\<in>set df. ub_day (fb_item b) = Some (day_of (ts r))"
proof -
  have between: "ts (hd df) \<le> ts r \<and> ts r \<le> ts (last df)" if "r \<in> set df" for r
    using that assms(1) unfolding is_ts_sorted_def by (induction df) auto
  have "day_of (ts r) = day_of (ts (hd df))" if "r \<in> set df" "day_of (ts (hd df)) = day_of (ts (last df))" for r
  proof (rule order.antisym)
    show "day_of (ts r) \<le> day_of (ts (hd df))" unfolding that(2) using between [OF that(1)] by (intro assms(3)) simp
    show "day_of (ts (hd df)) \<le> day_of (ts r)" using between [OF that(1)] by (intro assms(3)) simp
  qed
  note same = this
  have ends: "hd df \<in> set df" "last df \<in> set df" using assms(2) by simp_all
  show ?thesis
  proof (cases "day_of (ts (hd df)) = day_of (ts (last df))")
    case True
    then have "\<forall>r\<in>set df. Some (day_of (ts (hd df))) = Some (day_of (ts r))" using same by simp
    with True show ?thesis by (simp add: make_feature_block_metadata_def Let_def time_range_ends [OF assms(2)])
  next
    case False
    have "\<not> (\<exists>d. \<forall>r\<in>set df. day_of (ts r) = d)"
    proof (rule notI, elim exE)
      fix d assume "\<forall>r\<in>set df. day_of (ts r) = d"
      with ends False show False by simp
    qed
    with False show ?thesis by (simp add: make_feature_block_metadata_def Let_def time_range_ends [OF assms(2)])
  qed
qed

text \<open>As the entries of the catalog of \<open>calculate_feature\<close>: a block is stored exactly when no stored block has its
  hash, whatever feature, interval or day it was stored for.\<close>

definition feature_catalog ::
    "('row \<Rightarrow> rat) \<Rightarrow> (rat \<Rightarrow> string) \<Rightarrow> ('row list \<Rightarrow> int) \<Rightarrow> ('row list \<Rightarrow> string) \<Rightarrow> (unstored_block \<Rightarrow> string)
     \<Rightarrow> (string \<times> string, 'row list, feature_block, string) feature_store" where
  "feature_catalog ts day_of mem hash_df make_path =
     \<lparr>make_metadata = (\<lambda>(name, key) df interval. make_feature_block_metadata ts day_of mem hash_df make_path name key df interval),
      hash_of = (\<lambda>b. ub_hash (fb_item b))\<rparr>"

lemma feature_block_hash:
  "make_metadata (feature_catalog ts day_of mem hash_df make_path) f df i = Inr m \<Longrightarrow>
   hash_of (feature_catalog ts day_of mem hash_df make_path) m = hash_df df"
  by (auto simp: feature_catalog_def make_feature_block_metadata_def Let_def split: if_splits prod.splits)

lemma equal_blocks_are_stored_once:
  assumes "store_feature_block (feature_catalog ts day_of mem hash_df make_path) f df i stored = Inr stored'"
    "store_feature_block (feature_catalog ts day_of mem hash_df make_path) g df j stored' = Inr stored''"
  shows "stored'' = stored'"
proof -
  let ?fs = "feature_catalog ts day_of mem hash_df make_path"
  from assms(1) obtain m where m: "make_metadata ?fs f df i = Inr m"
    "stored' = (if hash_of ?fs m \<in> hash_of ?fs ` fst ` set stored then stored else stored @ [(m, df)])"
    by (auto simp: store_feature_block_def)
  have "hash_of ?fs m \<in> hash_of ?fs ` fst ` set stored'" unfolding m(2) by simp
  moreover from assms(2) obtain m' where m': "make_metadata ?fs g df j = Inr m'"
    "stored'' = (if hash_of ?fs m' \<in> hash_of ?fs ` fst ` set stored' then stored' else stored' @ [(m', df)])"
    by (auto simp: store_feature_block_def)
  moreover have "hash_of ?fs m' = hash_of ?fs m" by (simp only: feature_block_hash [OF m(1)] feature_block_hash [OF m'(1)])
  ultimately show ?thesis by simp
qed

end
