(* ===== verification/Spec2Isabelle.thy ===== *)
theory Spec2Isabelle
  imports KubeWatcher Scheduler Runner BacktestLoop Executor TaskGraph L2Book TradeFeatures
    PodConfigs HealthCheck IngestPipeline ApiServer ClusterOperators DataEng DefinitionsLoader VpcMesh
    Trainer StoreAdapters CryptofeedItems OomProtocol PointInTime DistributedRun FeatureTasks
begin

text \<open>
Svoe: a verification development of the repository's Python code
================================================================

Svoe collects market data, ingests it into a catalog of blocks, computes features over the blocks,
backtests strategies on them and runs all of it on Ray clusters started from Airflow. The parts, and
the theories that model them (paths are under src/):

1. The resource estimator (data_feed/perf). Pods of the data feed are scheduled one after another on
   test nodes, watched through the events of Kubernetes and measured.
   Events and PyValue: the raw and logged events (kube_watcher/event, defines.py, utils.py).
   KubeLogs, KubeWatcher: the four event logs and the threads that fill them (kube_watcher).
   PhaseResult, SchedulingState: what estimator and scheduler remember of every pod (state).
   SchedulerProtocol: the threads of Scheduler.run as interleaved actions over that state.
   Scheduler, Estimator, Callbacks, Oom: scheduling and deleting a pod, the phases of an estimation,
   the reaction to events, the marking of processes the kernel kills first (scheduler, estimator,
   callback). OomProtocol: the two processes that mark, and the queues and events between them.
   KubeApi, Metrics, Stats, Runner: the Kubernetes client, Prometheus queries, statistics, the run.
   The watcher's callbacks add results and interrupts to the state; the estimation waits for them;
   the scheduler thread and the completion callbacks share the state under a lock.

2. The configuration of the data feed. ConfigBuilders (configs/data_feed); SymbolDistribution,
   ResourceIndex and PodConfigs (helm/values/local/data-feed/config_builder/gen_configs.py), which
   close the circle: what the estimator measured becomes the index that decides how symbols are
   spread over pods. HealthCheck (data_feed/health_check): the probe against these configurations.

3. The featurizer. TimeUtils, DataFrames and Blocks (common/time, common/pandas, featurizer/blocks):
   timestamps, frames, blocks and their ranges. FeatureTree, TaskGraph, BlockCache, Executor
   (features/feature_tree, task_graph, actors/cache_actor.py): from the configuration of features to a
   graph of tasks, their execution under a bound, and the cache they share.
   EventStreams, TradeFeatures, L2Book (common/streamz, features/definitions, data_definitions): the
   step functions of the features themselves. PointInTime and FeatureTasks (blocks, common/pandas,
   task_graph/tasks.py): labels that look ahead, the join of the features at a point in time, and the
   catalog entry of a calculated block. SqlClient, FeaturizerStorage (sql, storage): the catalog.
   DefinitionsLoader (featurizer_utils/definitions_loader.py): where definitions come from.
   IngestItems, IngestTask, IngestPipeline (data_ingest, sql/db_actor.py): the files of a provider
   become blocks of the catalog. StoreAdapters (storage/data_store_adapter, common/s3, common/db): where
   blocks and tables are kept. CryptofeedItems and DataEng (data_ingest/utils/cryptofeed_utils.py,
   data_eng/common.py): the tools of the older feed.

4. The backtester. FeatureStream (feature_stream_generator.py), Wallets, Execution, Strategies,
   BacktestLoop (backtester): events, portfolio, orders, strategies and the loop that composes them.
   DistributedRun (featurizer/config.py, backtester/runner.py): the split of a period over workers.

5. The clusters. ClusterManager (ray_cluster/manager), ClusterOperators (svoe_airflow/operators),
   DagStore and DagRunner (svoe_airflow), ApiServer (apiserver and client), VpcMesh (terraform, helm,
   kops): resources in Kubernetes, users' DAGs in a table and a folder that Airflow reads, the API
   over both, and the networks of the clusters. Trainer (trainer, featurizer/runner.py): the
   configuration of a training run, its columns and the choice of a recorded model.

Prelude holds the error monad, dictionaries and the list operations of Python; PyString its string
methods. Every theory starts with a note on its own part.

How code becomes definitions
----------------------------

Every function that can raise returns a \<open>pyres\<close>, an exception (\<open>Inl\<close>) or a value (\<open>Inr\<close>), so that
a raise and an early return are branches. A method that changes its object takes the object's record
and returns the changed one; when code both changes its object and raises, the model says what the
object is left as. A dictionary whose order shows is an association list in insertion order, written
with \<open>dict_put\<close> and read with \<open>map_of\<close>; one whose keys are fixed by the code is a record. JSON-like data is
the datatype \<open>pyval\<close> with Python's equality. Integers of the sources are unbounded, and so they are
\<open>int\<close>. A float is a rational number: theorems about prices and timestamps speak about exact
arithmetic, and rounding, infinities and nan are outside the model, except where a definition takes
\<open>float\<close> as a parameter.

Threads and coroutines are step relations or sequences of actions, one action per stretch of code
that the lock, or the event loop, keeps whole: \<open>reachable\<close> in SchedulerProtocol, \<open>executor_reach\<close> in
Executor, \<open>pipeline_step\<close> in IngestPipeline, \<open>oom_step\<close> in OomProtocol, \<open>catalog_step\<close> in SqlClient, \<open>phase_runs\<close> in Estimator.
Invariants are proved by rule induction over them. Where a theorem says that something happens at
last, it says so of every run, or gives the run in which it does not.

No definition runs on fuel. A loop that may not end is a \<open>partial_function (option)\<close> - \<open>split_loop\<close>,
\<open>split_chunks\<close>, \<open>fixed_window_loop\<close>, \<open>config_loop\<close>, \<open>reuse_loop\<close>, \<open>poll_status\<close>, \<open>client_wait\<close>,
\<open>wait_registered\<close> - and \<open>None\<close> is the loop that does not end; the theorems about them prove when they do
end. Every other recursion is structural or has a termination proof. Blocking on a lock is \<open>None\<close> or a
constructor of its own.

Code outside the repository is an argument: the clock, Kubernetes, Ray, Redis, S3, Airflow,
the hash of a text, the parser of a date, cryptofeed's tables, portion's interval dictionaries, the
order_book package, numpy's std, pandas' merge_asof. Where a theorem needs to know more than its type, the assumption is a named
predicate that states what the package documents (\<open>book_laws\<close> and \<open>asof_laws\<close>, for instance), and a witness gives an
instance on which it holds.

Interfaces are locales, interpreted on the model's own definitions: \<open>event_store\<close> (PhaseResult; the result
and the phase logs), \<open>stateful_stream\<close> (EventStreams; candles and trade imbalance), \<open>strategy\<close>
(Strategies; both strategies), \<open>loads_names\<close> (DefinitionsLoader; the loader of definitions).

What is proved
--------------

The properties are the theorems whose text begins with C and a number. In groups:
scheduling - pods are neither lost nor duplicated, the bookkeeping never raises, estimations stay
under the bound, priorities fall, and the races that remain are exhibited (SchedulerProtocol,
Scheduler, Oom, OomProtocol, Callbacks, Estimator, KubeWatcher), lost wake-ups are counted;
configuration - the distribution of symbols ends, partitions the symbols and is covered by the pods
(SymbolDistribution, PodConfigs);
features - keys identify trees, each configuration is built once, the order book refines the pair of
maps it stands for, snapshots restore the book, ranges break exactly at gaps, merging is a stable sort,
imbalance is bounded, the executor respects its bound and returns, every block is read once,
the join of features sees no row later than its label's, a label looks exactly as far ahead as it says,
definitions are loaded whatever the order of the threads as long as closures run in time;
catalog - range queries are exact, definitions survive the round trip, deletions are all or nothing,
a file is skipped exactly when it is recorded, the pipeline conserves its
items;
backtests - wallets balance with the trades, signals alternate, and when workers miss the end of a period;
clusters - the end of a wait is characterised, broken DAGs disappear, a user keeps one DAG, a log is read
without gaps;
older tools - snapshots follow the times of a file.
The other lemmas support these or describe one operation on each of its branches. Where the code
does something its comments or tests do not expect, a lemma shows it on a concrete input.

Not modelled
------------

Plots and dashboards (backtester/viz, the plots of the analyzer, grafana), notebooks, the generated
client/fast_api_client, command lines and launchers, code in directories marked DEPRECATED, tests
and performance tests: they carry no logic of their own or are not used. Calls whose whole effect is in a
library - XGBoost and MLflow training, Ray initialisation, dask clusters, HTTP sessions,
database engines - are arguments where the modelled code uses their results, and left out elsewhere.
Logging and printing are left out, except for messages that another part parses.
\<close>

end
